(* ===== verification/Prelude.thy ===== *)
theory Prelude
  imports Main "HOL-Library.Char_ord" "HOL-Library.List_Lexorder" "HOL-Library.Product_Lexorder"
    "HOL-Library.AList" "HOL-Library.Sublist" "HOL-Library.Multiset"
begin

text \<open>
  What every component theory shares: Python exceptions as values of a sum type, the
  sequencing of fallible calls, insertion-ordered dictionaries as association lists,
  and the generic list lemmas about them.

  A Python \<open>str\<close> is a \<^typ>\<open>string\<close> whose characters are read as the code points 0 to 255;
  text with code points beyond 255 is not modelled.  A Python \<open>dict\<close> is an association list
  with distinct keys: \<open>map_of\<close> is \<open>get\<close>, \<open>AList.update\<close> is item assignment (it keeps the
  position of an existing key and appends a new one, as Python does) and \<open>AList.delete\<close> is \<open>pop\<close>.
\<close>

named_theorems res_simps \<open>inversion of the fallible combinators\<close>

section \<open>Exceptions as values\<close>

text \<open>
  The exception classes the sources raise or catch.  \<open>SignatureVerificationError\<close> carries its
  \<open>reason\<close> attribute and \<open>StatsApiError\<close> its HTTP status.  An exception is its class and its message; a message that the source
  builds with an f-string is represented by its constant text.
\<close>

datatype exc_class =
    ValueError
  | BoundaryViolationError
  | SignatureVerificationError string
  | StorageConfigurationError
  | AccessDeniedError
  | RuntimeError
  | RecursionError
  | DeadLetterError
  | KeyError
  | TypeError
  | AttributeError
  | OverflowError
  | CommitFailedError
  | TableNotFoundError
  | KafkaException
  | ArrowNotImplementedError
  | GeofenceValidationError
  | StatsApiError nat
  | OSError
  | OtherError

datatype exn = Exn (exn_class: exc_class) (exn_msg: string)

type_synonym 'a res = "exn + 'a"

text \<open>
  \<open>except ValueError\<close> also catches its subclasses \<open>BoundaryViolationError\<close>,
  \<open>SignatureVerificationError\<close>, \<open>StorageConfigurationError\<close> and \<open>GeofenceValidationError\<close>; \<open>RecursionError\<close> and
  \<open>DeadLetterError\<close> are subclasses of \<open>RuntimeError\<close>, and \<open>AccessDeniedError\<close> is a
  \<open>PermissionError\<close>.
\<close>

fun is_value_error :: "exc_class \<Rightarrow> bool" where
  "is_value_error ValueError = True"
| "is_value_error BoundaryViolationError = True"
| "is_value_error (SignatureVerificationError r) = True"
| "is_value_error StorageConfigurationError = True"
| "is_value_error GeofenceValidationError = True"
| "is_value_error _ = False"

definition raise :: "exc_class \<Rightarrow> string \<Rightarrow> 'a res" where
  "raise c m = Inl (Exn c m)"

text \<open>Statement sequencing: the first exception ends the block.\<close>

fun bindR :: "'a res \<Rightarrow> ('a \<Rightarrow> 'b res) \<Rightarrow> 'b res" where
  "bindR (Inl e) f = Inl e"
| "bindR (Inr x) f = f x"

text \<open>\<open>if bad: raise c(m)\<close>, as a step of a block.\<close>

definition guard :: "bool \<Rightarrow> exc_class \<Rightarrow> string \<Rightarrow> unit res" where
  "guard ok c m = (if ok then Inr () else raise c m)"

definition is_ok :: "'a res \<Rightarrow> bool" where
  "is_ok r = (case r of Inl e \<Rightarrow> False | Inr x \<Rightarrow> True)"

lemma raise_neq_Inr [simp]: "raise c m \<noteq> Inr x" "Inr x \<noteq> raise c m"
  by (simp_all add: raise_def)

lemma raise_eq_Inl [simp]: "(raise c m = Inl e) = (e = Exn c m)" "(Inl e = raise c m) = (e = Exn c m)"
  by (auto simp: raise_def)

lemma raise_eq_raise [simp]: "(raise c m = raise c' m') = (c = c' \<and> m = m')"
  by (auto simp: raise_def)

lemma is_ok_simps [simp]: "is_ok (Inr x)" "\<not> is_ok (Inl e)" "\<not> is_ok (raise c m)"
  by (simp_all add: is_ok_def raise_def)

lemma bindR_raise [simp]: "bindR (raise c m) f = raise c m"
  by (simp add: raise_def)

lemma bindR_Inr_iff [res_simps]: "(bindR r f = Inr y) = (\<exists>x. r = Inr x \<and> f x = Inr y)"
  by (cases r) auto

lemma bindR_Inl_iff: "(bindR r f = Inl e) = (r = Inl e \<or> (\<exists>x. r = Inr x \<and> f x = Inl e))"
  by (cases r) auto

lemma bindR_Inr_right [simp]: "bindR r Inr = r"
  by (cases r) auto

lemma bindR_assoc: "bindR (bindR r f) g = bindR r (\<lambda>x. bindR (f x) g)"
  by (cases r) auto

lemma guard_Inr_iff [simp]: "(guard ok c m = Inr u) = ok"
  by (simp add: guard_def)

lemma guard_True [simp]: "guard True c m = Inr ()"
  by (simp add: guard_def)

lemma guard_False [simp]: "guard False c m = raise c m"
  by (simp add: guard_def)

lemma is_ok_iff: "is_ok r = (\<exists>x. r = Inr x)"
  by (cases r) auto

lemma is_ok_guard [simp]: "is_ok (guard ok c m) = ok"
  by (simp add: guard_def)

lemma is_ok_bindR: "is_ok (bindR r f) = (\<exists>x. r = Inr x \<and> is_ok (f x))"
  by (cases r) auto

lemma bindR_cong [fundef_cong]:
  "r = r' \<Longrightarrow> (\<And>x. r' = Inr x \<Longrightarrow> f x = g x) \<Longrightarrow> bindR r f = bindR r' g"
  by (cases r') auto

section \<open>Loops over lists\<close>

text \<open>\<open>[f(x) for x in xs]\<close> with a fallible \<open>f\<close>, and a \<open>for\<close> loop over a state.\<close>

fun mapR :: "('a \<Rightarrow> 'b res) \<Rightarrow> 'a list \<Rightarrow> 'b list res" where
  "mapR f [] = Inr []"
| "mapR f (x # xs) = bindR (f x) (\<lambda>y. bindR (mapR f xs) (\<lambda>ys. Inr (y # ys)))"

fun foldR :: "('s \<Rightarrow> 'a \<Rightarrow> 's res) \<Rightarrow> 's \<Rightarrow> 'a list \<Rightarrow> 's res" where
  "foldR f s [] = Inr s"
| "foldR f s (x # xs) = bindR (f s x) (\<lambda>s'. foldR f s' xs)"

lemma mapR_Inr_iff [res_simps]:
  "(mapR f xs = Inr ys) = list_all2 (\<lambda>x y. f x = Inr y) xs ys"
proof (induction xs arbitrary: ys)
  case Nil
  then show ?case by auto
next
  case (Cons x xs)
  then show ?case by (cases ys) (auto simp: res_simps)
qed

lemma mapR_length: "mapR f xs = Inr ys \<Longrightarrow> length ys = length xs"
  by (auto simp: res_simps dest: list_all2_lengthD)

lemma mapR_cong [fundef_cong]:
  "xs = ys \<Longrightarrow> (\<And>x. x \<in> set ys \<Longrightarrow> f x = g x) \<Longrightarrow> mapR f xs = mapR g ys"
  by (induction xs arbitrary: ys) auto

lemma foldR_append: "foldR f s (xs @ ys) = bindR (foldR f s xs) (\<lambda>s'. foldR f s' ys)"
  by (induction xs arbitrary: s) (auto simp: bindR_assoc)

lemma foldR_cong [fundef_cong]:
  "s = t \<Longrightarrow> xs = ys \<Longrightarrow> (\<And>s x. x \<in> set ys \<Longrightarrow> f s x = g s x) \<Longrightarrow> foldR f s xs = foldR g t ys"
  by (induction xs arbitrary: s t ys) auto

text \<open>The loop rule: an invariant of the body holds for the state after the loop.\<close>

lemma foldR_inv:
  assumes "foldR f s xs = Inr t" and "P s"
    and "\<And>s x s'. x \<in> set xs \<Longrightarrow> P s \<Longrightarrow> f s x = Inr s' \<Longrightarrow> P s'"
  shows "P t"
  using assms by (induction xs arbitrary: s) (auto simp: res_simps)

text \<open>
  The loop rule with the part of the list already processed as a ghost argument, for
  invariants that relate the state to the elements seen so far.
\<close>

lemma foldR_prefix_inv:
  assumes "foldR f s xs = Inr t" and "P [] s"
    and "\<And>done x s s'. x \<in> set xs \<Longrightarrow> P done s \<Longrightarrow> f s x = Inr s' \<Longrightarrow> P (done @ [x]) s'"
  shows "P xs t"
proof -
  have "foldR f s ys = Inr t \<Longrightarrow> P zs s \<Longrightarrow> set ys \<subseteq> set xs \<Longrightarrow> P (zs @ ys) t" for ys zs s
  proof (induction ys arbitrary: s zs)
    case Nil
    then show ?case by simp
  next
    case (Cons y ys)
    then obtain s' where s': "f s y = Inr s'" "foldR f s' ys = Inr t"
      by (auto simp: res_simps)
    with Cons.prems assms(3) have "P (zs @ [y]) s'" by simp
    moreover from Cons.prems(3) have "set ys \<subseteq> set xs" by simp
    ultimately have "P ((zs @ [y]) @ ys) t" by (rule Cons.IH [OF s'(2)])
    then show ?case by simp
  qed
  from this [of s xs "[]"] assms(1,2) show ?thesis by simp
qed

section \<open>Insertion-ordered dictionaries\<close>

lemma map_of_update [simp]: "map_of (AList.update k v d) k' = (if k' = k then Some v else map_of d k')"
  by (simp add: update_conv')

lemma map_of_delete [simp]: "map_of (AList.delete k d) k' = (if k' = k then None else map_of d k')"
  by (simp add: delete_conv')

lemma distinct_keys_update [intro]:
  "distinct (map fst d) \<Longrightarrow> distinct (map fst (AList.update k v d))"
  by (rule distinct_update)

lemma set_keys_update: "fst ` set (AList.update k v d) = insert k (fst ` set d)"
  by (simp add: dom_update)

text \<open>\<open>d.setdefault(k, []).append(v)\<close>: the grouping idiom of the sources.\<close>

definition dict_push :: "'k \<Rightarrow> 'v \<Rightarrow> ('k \<times> 'v list) list \<Rightarrow> ('k \<times> 'v list) list" where
  "dict_push k v d = AList.update k (case map_of d k of None \<Rightarrow> [v] | Some vs \<Rightarrow> vs @ [v]) d"

definition group_by :: "('a \<Rightarrow> 'k) \<Rightarrow> ('a \<Rightarrow> 'v) \<Rightarrow> 'a list \<Rightarrow> ('k \<times> 'v list) list" where
  "group_by k v xs = foldl (\<lambda>d x. dict_push (k x) (v x) d) [] xs"

lemma group_by_snoc: "group_by k v (xs @ [x]) = dict_push (k x) (v x) (group_by k v xs)"
  by (simp add: group_by_def)

lemma map_of_group_by:
  "map_of (group_by k v xs) key =
     (if key \<in> k ` set xs then Some (map v (filter (\<lambda>x. k x = key) xs)) else None)"
proof (induction xs rule: rev_induct)
  case Nil
  then show ?case by (simp add: group_by_def)
next
  case (snoc x xs)
  then show ?case
    by (cases "k x \<in> k ` set xs")
       (auto simp: group_by_snoc dict_push_def filter_empty_conv image_iff; metis)+
qed

lemma distinct_group_by: "distinct (map fst (group_by k v xs))"
proof (induction xs rule: rev_induct)
  case Nil
  then show ?case by (simp add: group_by_def)
next
  case (snoc x xs)
  then show ?case by (auto simp: group_by_snoc dict_push_def intro: distinct_keys_update)
qed

lemma group_by_entry:
  assumes "(key, vs) \<in> set (group_by k v xs)"
  shows "vs = map v (filter (\<lambda>x. k x = key) xs) \<and> key \<in> k ` set xs \<and> vs \<noteq> []"
proof -
  from assms have "map_of (group_by k v xs) key = Some vs"
    using distinct_group_by [of k v xs] by simp
  then show ?thesis
    by (auto simp: map_of_group_by filter_empty_conv split: if_splits)
qed

lemma keys_group_by: "fst ` set (group_by k v xs) = k ` set xs"
proof (induction xs rule: rev_induct)
  case Nil
  then show ?case by (simp add: group_by_def)
next
  case (snoc x xs)
  then show ?case by (simp add: group_by_snoc dict_push_def dom_update)
qed

text \<open>Grouping loses nothing: the groups together are the input, as multisets.\<close>

lemma mset_dict_push:
  assumes "distinct (map fst d)"
  shows "mset (concat (map snd (dict_push k v d))) = mset (concat (map snd d)) + {#v#}"
  using assms
  by (induction d) (auto simp: dict_push_def map_of_eq_None_iff split: option.splits)

lemma mset_group_by: "mset (concat (map snd (group_by k v xs))) = mset (map v xs)"
proof (induction xs rule: rev_induct)
  case Nil
  then show ?case by (simp add: group_by_def)
next
  case (snoc x xs)
  then show ?case by (simp add: group_by_snoc mset_dict_push distinct_group_by)
qed

section \<open>Lists\<close>

lemma mset_concat_perm:
  assumes "mset xs = mset ys"
  shows "mset (concat xs) = mset (concat ys)"
proof -
  have "mset (map mset xs) = mset (map mset ys)" using assms by simp
  then have "sum_mset (mset (map mset xs)) = sum_mset (mset (map mset ys))" by (rule arg_cong)
  then show ?thesis by (simp only: mset_concat sum_mset_sum_list)
qed

lemma sum_list_lengths: "sum_list (map (\<lambda>(k, vs). length vs) d) = length (concat (map snd d))"
  by (induction d) auto

lemma find_SomeD: "List.find P xs = Some x \<Longrightarrow> x \<in> set xs \<and> P x"
  by (induction xs) (auto split: if_splits)

lemma list_all2_in_left:
  "list_all2 P xs ys \<Longrightarrow> y \<in> set ys \<Longrightarrow> \<exists>x\<in>set xs. P x y"
  by (induction rule: list_all2_induct) auto

lemma list_all2_in_right:
  "list_all2 P xs ys \<Longrightarrow> x \<in> set xs \<Longrightarrow> \<exists>y\<in>set ys. P x y"
  by (induction rule: list_all2_induct) auto

text \<open>\<open>[xs[i : i + n] for i in range(0, len(xs), n)]\<close>.\<close>

function chunks :: "nat \<Rightarrow> 'a list \<Rightarrow> 'a list list" where
  "chunks n xs = (if xs = [] \<or> n = 0 then [] else take n xs # chunks n (drop n xs))"
  by pat_completeness auto
termination
  by (relation "measure (\<lambda>(n, xs). length xs)") auto

declare chunks.simps [simp del]

lemma chunks_Nil [simp]: "chunks n [] = []"
  by (simp add: chunks.simps)

lemma concat_chunks: "0 < n \<Longrightarrow> concat (chunks n xs) = xs"
proof (induction n xs rule: chunks.induct)
  case (1 n xs)
  then show ?case by (cases "xs = []") (simp_all add: chunks.simps [of n xs])
qed

lemma chunks_bounds: "c \<in> set (chunks n xs) \<Longrightarrow> 0 < length c \<and> length c \<le> n"
proof (induction n xs rule: chunks.induct)
  case (1 n xs)
  then show ?case
    by (cases "xs = [] \<or> n = 0") (auto simp: chunks.simps [of n xs])
qed

end
