(* ===== verification/Py_Text.thy ===== *)
theory Py_Text
  imports Prelude
begin

text \<open>
  The parts of Python's \<open>str\<close>, \<open>re\<close> and \<open>urllib.parse\<close> that the sources use, on Latin-1 text:
  \<open>strip\<close>, \<open>split\<close>, \<open>rsplit\<close>, \<open>rstrip\<close>, \<open>upper\<close>, the UTF-8 length, Unicode category C,
  decimal rendering of integers, and \<open>urlsplit\<close> with its derived attributes
  (CPython 3.12, the version the project pins).  The lemmas say how \<open>urlsplit\<close> reads the
  URIs the platform builds.
\<close>

section \<open>Characters\<close>

definition code :: "char \<Rightarrow> nat" where
  "code c = of_char c"

lemma code_inject [simp]: "code a = code b \<longleftrightarrow> a = b"
  by (simp add: code_def)

definition py_space :: "char \<Rightarrow> bool" where
  "py_space c = (let n = code c in (9 \<le> n \<and> n \<le> 13) \<or> (28 \<le> n \<and> n \<le> 32) \<or> n = 133 \<or> n = 160)"

text \<open>\<open>unicodedata.category(c).startswith("C")\<close> for code points below 256.\<close>

definition is_control :: "char \<Rightarrow> bool" where
  "is_control c = (let n = code c in n < 32 \<or> (127 \<le> n \<and> n \<le> 159) \<or> n = 173)"

definition is_digit :: "char \<Rightarrow> bool" where
  "is_digit c = (48 \<le> code c \<and> code c \<le> 57)"

definition is_lower :: "char \<Rightarrow> bool" where
  "is_lower c = (97 \<le> code c \<and> code c \<le> 122)"

definition is_upper :: "char \<Rightarrow> bool" where
  "is_upper c = (65 \<le> code c \<and> code c \<le> 90)"

definition is_alpha :: "char \<Rightarrow> bool" where
  "is_alpha c = (is_lower c \<or> is_upper c)"

definition is_alnum :: "char \<Rightarrow> bool" where
  "is_alnum c = (is_alpha c \<or> is_digit c)"

definition is_hex_lower :: "char \<Rightarrow> bool" where
  "is_hex_lower c = (is_digit c \<or> (97 \<le> code c \<and> code c \<le> 102))"

lemmas char_class_defs = py_space_def is_control_def is_digit_def is_lower_def is_upper_def
  is_alpha_def is_alnum_def is_hex_lower_def code_def Let_def

section \<open>Text operations\<close>

definition strip :: "string \<Rightarrow> string" where
  "strip s = rev (dropWhile py_space (rev (dropWhile py_space s)))"

text \<open>The check \<open>not s or s != s.strip()\<close>, negated: canonical non-empty text.\<close>

definition canonical :: "string \<Rightarrow> bool" where
  "canonical s = (s \<noteq> [] \<and> s = strip s)"

definition utf8_len :: "string \<Rightarrow> nat" where
  "utf8_len s = sum_list (map (\<lambda>c. if code c < 128 then 1 else 2) s)"

definition has_control_characters :: "string \<Rightarrow> bool" where
  "has_control_characters s = list_ex is_control s"

fun split_on :: "char \<Rightarrow> string \<Rightarrow> string list" where
  "split_on c [] = [[]]"
| "split_on c (x # xs) =
     (if x = c then [] # split_on c xs
      else (case split_on c xs of [] \<Rightarrow> [[x]] | w # ws \<Rightarrow> (x # w) # ws))"

definition rstrip_char :: "char \<Rightarrow> string \<Rightarrow> string" where
  "rstrip_char c s = rev (dropWhile (\<lambda>x. x = c) (rev s))"

text \<open>\<open>s.rsplit(c, 1)[-1]\<close> and \<open>s.rsplit(c, 1)[0]\<close>.\<close>

definition after_last :: "char \<Rightarrow> string \<Rightarrow> string" where
  "after_last c s = rev (takeWhile (\<lambda>x. x \<noteq> c) (rev s))"

definition before_last :: "char \<Rightarrow> string \<Rightarrow> string" where
  "before_last c s = (if c \<in> set s then rev (tl (dropWhile (\<lambda>x. x \<noteq> c) (rev s))) else s)"

text \<open>\<open>s.partition(c)\<close>: the text before the first \<open>c\<close>, whether there is one, the text after it.\<close>

definition partition_on :: "char \<Rightarrow> string \<Rightarrow> string \<times> bool \<times> string" where
  "partition_on c s = (takeWhile (\<lambda>x. x \<noteq> c) s, c \<in> set s, tl (dropWhile (\<lambda>x. x \<noteq> c) s))"

text \<open>
  \<open>str.upper()\<close>.  The sharp s becomes two letters; the two Latin-1 letters whose capitals lie
  beyond code point 255 (micro sign and y with diaeresis) are left as they are, which no
  comparison with an ASCII name can tell apart.
\<close>

definition upper_char :: "char \<Rightarrow> string" where
  "upper_char c = (let n = code c in
     if 97 \<le> n \<and> n \<le> 122 then [char_of (n - 32)]
     else if n = 223 then ''SS''
     else if 224 \<le> n \<and> n \<le> 254 \<and> n \<noteq> 247 then [char_of (n - 32)]
     else [c])"

definition upper :: "string \<Rightarrow> string" where
  "upper s = concat (map upper_char s)"

definition lower_ascii :: "string \<Rightarrow> string" where
  "lower_ascii s = map (\<lambda>c. if is_upper c then char_of (code c + 32) else c) s"

fun nat_str :: "nat \<Rightarrow> string" where
  "nat_str n = (if n < 10 then [char_of (48 + n)] else nat_str (n div 10) @ [char_of (48 + n mod 10)])"

declare nat_str.simps [simp del]

definition int_str :: "int \<Rightarrow> string" where
  "int_str i = (if i < 0 then CHR ''-'' # nat_str (nat (- i)) else nat_str (nat i))"

text \<open>The value of a text of decimal digits.\<close>

definition digits_val :: "string \<Rightarrow> nat" where
  "digits_val s = foldl (\<lambda>v c. 10 * v + (code c - 48)) 0 s"

lemma of_char_digit [simp]: "d < 10 \<Longrightarrow> code (char_of (48 + d)) = 48 + d"
  by (simp add: code_def)

lemma digits_val_nat_str: "digits_val (nat_str n) = n"
proof (induction n rule: nat_str.induct)
  case (1 n)
  show ?case
  proof (cases "n < 10")
    case True
    then show ?thesis by (simp add: nat_str.simps [of n] digits_val_def)
  next
    case False
    then have "digits_val (nat_str n) = 10 * digits_val (nat_str (n div 10)) + n mod 10"
      by (simp add: nat_str.simps [of n] digits_val_def)
    with 1 False show ?thesis by simp
  qed
qed

lemma nat_str_inject [simp]: "nat_str m = nat_str n \<longleftrightarrow> m = n"
  by (metis digits_val_nat_str)

lemma nat_str_digits: "c \<in> set (nat_str n) \<Longrightarrow> is_digit c"
proof (induction n rule: nat_str.induct)
  case (1 n)
  show ?case
  proof (cases "n < 10")
    case True
    with 1 show ?thesis by (simp add: nat_str.simps [of n] is_digit_def)
  next
    case False
    with 1 show ?thesis
      by (auto simp: nat_str.simps [of n] is_digit_def)
  qed
qed

lemma nat_str_not_Nil [simp]: "nat_str n \<noteq> []"
  by (subst nat_str.simps) simp

section \<open>Lemmas on splitting\<close>

lemma split_on_not_Nil [simp]: "split_on c s \<noteq> []"
  by (induction s) (auto split: list.splits)

lemma split_on_no_sep: "c \<notin> set s \<Longrightarrow> split_on c s = [s]"
  by (induction s) auto

lemma split_on_append_sep: "split_on c (s @ c # t) = split_on c s @ split_on c t"
  by (induction s) (auto split: list.splits)

lemma split_on_pieces: "w \<in> set (split_on c s) \<Longrightarrow> c \<notin> set w"
proof (induction s arbitrary: w)
  case Nil
  then show ?case by simp
next
  case (Cons x xs)
  then show ?case by (auto split: list.splits if_splits)
qed

lemma after_last_append: "c \<notin> set t \<Longrightarrow> after_last c (s @ c # t) = t"
  by (simp add: after_last_def takeWhile_append)

lemma after_last_no_sep: "c \<notin> set t \<Longrightarrow> after_last c t = t"
proof -
  assume "c \<notin> set t"
  then have "takeWhile (\<lambda>x. x \<noteq> c) (rev t) = rev t" by (subst takeWhile_eq_all_conv) auto
  then show ?thesis by (simp only: after_last_def rev_rev_ident)
qed

lemma before_last_append: "c \<notin> set t \<Longrightarrow> before_last c (s @ c # t) = s"
  by (auto simp: before_last_def dropWhile_append)

lemma before_after_last: "c \<in> set s \<Longrightarrow> s = before_last c s @ c # after_last c s"
proof -
  assume c: "c \<in> set s"
  have "rev s = takeWhile (\<lambda>x. x \<noteq> c) (rev s) @ dropWhile (\<lambda>x. x \<noteq> c) (rev s)" by simp
  moreover have "dropWhile (\<lambda>x. x \<noteq> c) (rev s) = c # tl (dropWhile (\<lambda>x. x \<noteq> c) (rev s))"
    using c by (metis (mono_tags, lifting) dropWhile_eq_Nil_conv hd_Cons_tl hd_dropWhile set_rev)
  ultimately have "rev (rev s) = rev (tl (dropWhile (\<lambda>x. x \<noteq> c) (rev s))) @ c # rev (takeWhile (\<lambda>x. x \<noteq> c) (rev s))"
    by (metis append.assoc append_Cons append_Nil rev.simps(2) rev_append)
  with c show ?thesis by (simp add: before_last_def after_last_def)
qed

lemma after_last_no_char: "c \<notin> set (after_last c s)"
  by (auto simp: after_last_def dest: set_takeWhileD)

lemma rstrip_char_prefix: "prefix (rstrip_char c s) s"
proof -
  have "suffix (dropWhile (\<lambda>x. x = c) (rev s)) (rev s)" by (rule suffix_dropWhile)
  then show ?thesis by (simp add: rstrip_char_def suffix_to_prefix)
qed

lemma rstrip_char_last: "rstrip_char c s = [] \<or> last (rstrip_char c s) \<noteq> c"
  by (cases "dropWhile (\<lambda>x. x = c) (rev s)")
     (auto simp: rstrip_char_def last_rev dest: dropWhile_eq_Cons_conv [THEN iffD1])

lemma rstrip_char_id: "s \<noteq> [] \<Longrightarrow> last s \<noteq> c \<Longrightarrow> rstrip_char c s = s"
  by (cases s rule: rev_cases) (auto simp: rstrip_char_def)

lemma strip_id:
  assumes "s \<noteq> []" "\<not> py_space (hd s)" "\<not> py_space (last s)"
  shows "strip s = s"
proof -
  from assms have "dropWhile py_space s = s" by (cases s) auto
  moreover from assms have "dropWhile py_space (rev s) = rev s"
    by (cases s rule: rev_cases) auto
  ultimately show ?thesis by (simp add: strip_def)
qed

lemma canonical_iff: "canonical s = (s \<noteq> [] \<and> \<not> py_space (hd s) \<and> \<not> py_space (last s))"
proof
  assume c: "canonical s"
  then have s: "s = rev (dropWhile py_space (rev (dropWhile py_space s)))" and "s \<noteq> []"
    by (auto simp: canonical_def strip_def)
  have "length s \<le> length (dropWhile py_space s)"
    by (metis s length_dropWhile_le length_rev)
  moreover have "length (takeWhile py_space s) + length (dropWhile py_space s) = length s"
    by (metis length_append takeWhile_dropWhile_id)
  ultimately have "length (takeWhile py_space s) = 0" by linarith
  then have d: "dropWhile py_space s = s"
    by (metis append_Nil length_0_conv takeWhile_dropWhile_id)
  with s have r: "dropWhile py_space (rev s) = rev s" by (metis rev_rev_ident)
  from d r \<open>s \<noteq> []\<close> show "s \<noteq> [] \<and> \<not> py_space (hd s) \<and> \<not> py_space (last s)"
    by (metis hd_dropWhile hd_rev rev_is_Nil_conv)
next
  assume "s \<noteq> [] \<and> \<not> py_space (hd s) \<and> \<not> py_space (last s)"
  then show "canonical s" by (simp add: canonical_def strip_id)
qed

section \<open>urlsplit\<close>

record url_parts =
  url_scheme :: string
  url_netloc :: string
  url_path :: string
  url_query :: string
  url_fragment :: string

definition scheme_char :: "char \<Rightarrow> bool" where
  "scheme_char c = (is_alnum c \<or> c = CHR ''+'' \<or> c = CHR ''-'' \<or> c = CHR ''.'')"

definition netloc_delim :: "char \<Rightarrow> bool" where
  "netloc_delim c = (c = CHR ''/'' \<or> c = CHR ''?'' \<or> c = CHR ''#'')"

text \<open>Leading C0 control characters and spaces go, and every tab, newline and carriage return.\<close>

definition url_clean :: "string \<Rightarrow> string" where
  "url_clean u = filter (\<lambda>c. code c \<noteq> 9 \<and> code c \<noteq> 10 \<and> code c \<noteq> 13) (dropWhile (\<lambda>c. code c \<le> 32) u)"

definition url_split_scheme :: "string \<Rightarrow> string \<times> string" where
  "url_split_scheme u =
     (let (pre, found, rest) = partition_on (CHR '':'') u
      in if found \<and> pre \<noteq> [] \<and> is_alpha (hd pre) \<and> list_all scheme_char pre
         then (lower_ascii pre, rest) else ([], u))"

definition url_split_netloc :: "string \<Rightarrow> string \<times> string" where
  "url_split_netloc u =
     (if take 2 u = ''//''
      then (takeWhile (\<lambda>c. \<not> netloc_delim c) (drop 2 u), dropWhile (\<lambda>c. \<not> netloc_delim c) (drop 2 u))
      else ([], u))"

text \<open>
  A netloc with one kind of bracket only is refused, as \<open>urlsplit\<close> does.  For a netloc with both,
  CPython also parses the bracketed IPv6 literal and may refuse it; the model accepts it, so
  it accepts every URI that CPython accepts.
\<close>

definition urlsplit :: "string \<Rightarrow> url_parts res" where
  "urlsplit u =
     (let (sch, u1) = url_split_scheme (url_clean u);
          (net, u2) = url_split_netloc u1
      in bindR (guard ((CHR ''['' \<in> set net) = (CHR '']'' \<in> set net)) ValueError ''Invalid IPv6 URL'') (\<lambda>_.
         let (u3, hasf, frag) = partition_on (CHR ''#'') u2;
             (path, hasq, query) = partition_on (CHR ''?'') u3
         in Inr \<lparr>url_scheme = sch, url_netloc = net, url_path = path,
                 url_query = query, url_fragment = frag\<rparr>))"

text \<open>The derived attributes \<open>username\<close>, \<open>password\<close>, \<open>hostname\<close> and \<open>port\<close>.\<close>

definition url_userinfo :: "url_parts \<Rightarrow> string option \<times> string option" where
  "url_userinfo p =
     (if CHR ''@'' \<in> set (url_netloc p)
      then (let (user, has_password, password) = partition_on (CHR '':'') (before_last (CHR ''@'') (url_netloc p))
            in (Some user, if has_password then Some password else None))
      else (None, None))"

definition url_hostinfo :: "url_parts \<Rightarrow> string \<times> string" where
  "url_hostinfo p =
     (let hostinfo = after_last (CHR ''@'') (url_netloc p);
          (_, have_open, bracketed) = partition_on (CHR ''['') hostinfo
      in if have_open
         then (let (h, _, rest) = partition_on (CHR '']'') bracketed;
                   (_, _, pt) = partition_on (CHR '':'') rest in (h, pt))
         else (let (h, _, pt) = partition_on (CHR '':'') hostinfo in (h, pt)))"

text \<open>\<open>parsed.port\<close>: \<open>None\<close> when absent, an error when not a decimal number of at most 65535.\<close>

definition url_port :: "url_parts \<Rightarrow> nat option res" where
  "url_port p =
     (let pt = snd (url_hostinfo p)
      in if pt = [] then Inr None
         else bindR (guard (list_all is_digit pt) ValueError ''Port could not be cast to integer value'') (\<lambda>_.
              bindR (guard (digits_val pt \<le> 65535) ValueError ''Port out of range 0-65535'') (\<lambda>_.
              Inr (Some (digits_val pt)))))"

definition truthy :: "string option \<Rightarrow> bool" where
  "truthy s = (case s of None \<Rightarrow> False | Some t \<Rightarrow> t \<noteq> [])"

text \<open>\<open>parsed.username or parsed.password or parsed.query or parsed.fragment\<close>.\<close>

definition url_has_extras :: "url_parts \<Rightarrow> bool" where
  "url_has_extras p = (truthy (fst (url_userinfo p)) \<or> truthy (snd (url_userinfo p)) \<or>
     url_query p \<noteq> [] \<or> url_fragment p \<noteq> [])"

section \<open>Lemmas on urlsplit\<close>

lemma code_slash [simp]: "code (CHR ''/'') = 47"
  by (simp add: code_def)

lemma partition_on_found: "c \<notin> set a \<Longrightarrow> partition_on c (a @ c # b) = (a, True, b)"
  by (simp add: partition_on_def takeWhile_append dropWhile_append)

lemma partition_on_missing: "c \<notin> set a \<Longrightarrow> partition_on c a = (a, False, [])"
proof -
  assume "c \<notin> set a"
  then have "takeWhile (\<lambda>x. x \<noteq> c) a = a" "dropWhile (\<lambda>x. x \<noteq> c) a = []"
    by (auto simp only: takeWhile_eq_all_conv dropWhile_eq_Nil_conv)
  with \<open>c \<notin> set a\<close> show ?thesis by (simp only: partition_on_def list.sel simp_thms)
qed

lemma url_clean_id: "list_all (\<lambda>c. 32 < code c) u \<Longrightarrow> url_clean u = u"
proof -
  assume a: "list_all (\<lambda>c. 32 < code c) u"
  then have "dropWhile (\<lambda>c. code c \<le> 32) u = u" by (cases u) auto
  moreover from a have "filter (\<lambda>c. code c \<noteq> 9 \<and> code c \<noteq> 10 \<and> code c \<noteq> 13) u = u"
    by (intro filter_True) (auto simp: list_all_iff)
  ultimately show ?thesis by (simp add: url_clean_def)
qed

definition plain_url_char :: "char \<Rightarrow> bool" where
  "plain_url_char c = (32 < code c \<and> c \<noteq> CHR ''?'' \<and> c \<noteq> CHR ''#'' \<and> c \<noteq> CHR '':'' \<and> c \<noteq> CHR ''['' \<and> c \<noteq> CHR '']'')"

definition plain_segment_char :: "char \<Rightarrow> bool" where
  "plain_segment_char c = (plain_url_char c \<and> c \<noteq> CHR ''/'')"

lemma scheme_char_plain: "scheme_char c \<Longrightarrow> plain_segment_char c"
  by (auto simp: scheme_char_def plain_segment_char_def plain_url_char_def char_class_defs)

text \<open>A URI \<open>scheme://netloc/path\<close> without special characters splits as written.\<close>

lemma urlsplit_hier:
  assumes sch: "sch \<noteq> []" "is_alpha (hd sch)" "list_all scheme_char sch"
    and net: "list_all plain_segment_char net"
    and path: "path = [] \<or> hd path = CHR ''/''" "list_all plain_url_char path"
  shows "urlsplit (sch @ ''://'' @ net @ path) =
    Inr \<lparr>url_scheme = lower_ascii sch, url_netloc = net, url_path = path, url_query = [], url_fragment = []\<rparr>"
proof -
  have sch': "list_all plain_segment_char sch"
    using sch(3) by (auto simp: list_all_iff dest: scheme_char_plain)
  have "list_all (\<lambda>c. 32 < code c) (sch @ ''://'' @ net @ path)"
    using sch' net path by (auto simp: list_all_iff plain_segment_char_def plain_url_char_def code_def)
  then have c: "url_clean (sch @ ''://'' @ net @ path) = sch @ CHR '':'' # ''//'' @ net @ path"
    by (simp add: url_clean_id)
  have "CHR '':'' \<notin> set sch"
    using sch' by (auto simp: list_all_iff plain_segment_char_def plain_url_char_def)
  then have s: "url_split_scheme (sch @ CHR '':'' # ''//'' @ net @ path) = (lower_ascii sch, ''//'' @ net @ path)"
    using sch by (simp add: url_split_scheme_def partition_on_found)
  have nd: "\<forall>x\<in>set net. \<not> netloc_delim x"
    using net by (auto simp: list_all_iff plain_segment_char_def plain_url_char_def netloc_delim_def)
  have "takeWhile (\<lambda>c. \<not> netloc_delim c) path = [] \<and> dropWhile (\<lambda>c. \<not> netloc_delim c) path = path"
    using path(1) by (cases path) (auto simp: netloc_delim_def)
  with nd have n: "url_split_netloc (''//'' @ net @ path) = (net, path)"
    by (simp add: url_split_netloc_def takeWhile_append dropWhile_append)
  have b: "CHR ''['' \<notin> set net" "CHR '']'' \<notin> set net"
    using net by (auto simp: list_all_iff plain_segment_char_def plain_url_char_def)
  have p: "CHR ''#'' \<notin> set path" "CHR ''?'' \<notin> set path"
    using path(2) by (auto simp: list_all_iff plain_url_char_def)
  show ?thesis
    by (simp only: urlsplit_def c s n b p prod.case partition_on_missing Let_def simp_thms
        guard_True bindR.simps not_False_eq_True)
qed

text \<open>
  Appending a path segment to a URI that ends in two plain segments extends its path: the
  scheme and the network location are already decided.
\<close>

lemma url_clean_append:
  "url_clean (r @ CHR ''/'' # x) =
     url_clean r @ CHR ''/'' # filter (\<lambda>c. code c \<noteq> 9 \<and> code c \<noteq> 10 \<and> code c \<noteq> 13) x"
proof (cases "\<forall>c\<in>set r. code c \<le> 32")
  case True
  then have "dropWhile (\<lambda>c. code c \<le> 32) (r @ CHR ''/'' # x) = CHR ''/'' # x"
    and e: "dropWhile (\<lambda>c. code c \<le> 32) r = []"
    by (auto simp: dropWhile_append)
  then show ?thesis by (simp only: url_clean_def e) simp
next
  case False
  then have "dropWhile (\<lambda>c. code c \<le> 32) (r @ CHR ''/'' # x) = dropWhile (\<lambda>c. code c \<le> 32) r @ CHR ''/'' # x"
    by (auto simp: dropWhile_append)
  then show ?thesis by (simp add: url_clean_def)
qed

lemma url_split_scheme_append:
  "\<exists>sch r'. \<forall>x. url_split_scheme (r @ CHR ''/'' # x) = (sch, r' @ CHR ''/'' # x)"
proof (cases "CHR '':'' \<in> set r")
  case True
  then obtain pre rest where r: "r = pre @ CHR '':'' # rest" "CHR '':'' \<notin> set pre"
    by (metis split_list_first)
  have "url_split_scheme (r @ CHR ''/'' # x) =
      (if pre \<noteq> [] \<and> is_alpha (hd pre) \<and> list_all scheme_char pre
       then (lower_ascii pre, rest @ CHR ''/'' # x) else ([], r @ CHR ''/'' # x))" for x
    using r by (simp add: url_split_scheme_def partition_on_found)
  then show ?thesis by (cases "pre \<noteq> [] \<and> is_alpha (hd pre) \<and> list_all scheme_char pre") auto
next
  case False
  have "\<not> list_all scheme_char (takeWhile (\<lambda>c. c \<noteq> CHR '':'') (r @ CHR ''/'' # x))" for x
    using False by (auto simp: takeWhile_append scheme_char_def char_class_defs)
  then have "url_split_scheme (r @ CHR ''/'' # x) = ([], r @ CHR ''/'' # x)" for x
    by (simp add: url_split_scheme_def partition_on_def)
  then show ?thesis by blast
qed

lemma url_split_netloc_append:
  assumes "a \<noteq> []" "list_all plain_segment_char a"
  shows "\<exists>net n. \<forall>y. url_split_netloc (r @ CHR ''/'' # a @ CHR ''/'' # y) = (net, n @ CHR ''/'' # y)"
proof -
  obtain a1 a2 where a: "a = a1 # a2" using assms(1) by (cases a) auto
  have a1: "a1 \<noteq> CHR ''/''" using assms(2) a by (simp add: plain_segment_char_def)
  have nd: "\<forall>x\<in>set a. \<not> netloc_delim x"
    using assms(2) by (auto simp: list_all_iff plain_segment_char_def plain_url_char_def netloc_delim_def)
  consider "r = []" | c where "r = [c]" | c d r' where "r = c # d # r'"
    by (metis neq_Nil_conv)
  then show ?thesis
  proof cases
    case 1
    with a a1 show ?thesis by (simp add: url_split_netloc_def)
  next
    case (2 c)
    have "url_split_netloc (r @ CHR ''/'' # a @ CHR ''/'' # y) =
        (if c = CHR ''/'' then (a, [] @ CHR ''/'' # y) else ([], (r @ CHR ''/'' # a) @ CHR ''/'' # y))" for y
      using 2 nd by (auto simp: url_split_netloc_def takeWhile_append dropWhile_append netloc_delim_def)
    then show ?thesis by (metis (no_types))
  next
    case (3 c d r')
    let ?w = "r' @ CHR ''/'' # a"
    have e: "CHR ''/'' \<in> set ?w" "netloc_delim (CHR ''/'')" by (simp_all add: netloc_delim_def)
    have "takeWhile (\<lambda>c. \<not> netloc_delim c) (?w @ CHR ''/'' # y) = takeWhile (\<lambda>c. \<not> netloc_delim c) ?w"
      "dropWhile (\<lambda>c. \<not> netloc_delim c) (?w @ CHR ''/'' # y) = dropWhile (\<lambda>c. \<not> netloc_delim c) ?w @ CHR ''/'' # y" for y
      using takeWhile_append1 [of "CHR ''/''" ?w "\<lambda>c. \<not> netloc_delim c"]
        dropWhile_append1 [of "CHR ''/''" ?w "\<lambda>c. \<not> netloc_delim c"] e by simp_all
    then have "url_split_netloc (r @ CHR ''/'' # a @ CHR ''/'' # y) =
        (if c = CHR ''/'' \<and> d = CHR ''/''
         then (takeWhile (\<lambda>c. \<not> netloc_delim c) ?w, dropWhile (\<lambda>c. \<not> netloc_delim c) ?w @ CHR ''/'' # y)
         else ([], (r @ CHR ''/'' # a) @ CHR ''/'' # y))" for y
      using 3 by (simp add: url_split_netloc_def)
    then show ?thesis by (cases "c = CHR ''/'' \<and> d = CHR ''/''") auto
  qed
qed

definition url_path_of :: "string \<Rightarrow> string" where
  "url_path_of w = takeWhile (\<lambda>x. x \<noteq> CHR ''?'') (takeWhile (\<lambda>x. x \<noteq> CHR ''#'') w)"

lemma url_path_of_append:
  "url_path_of (w @ v) =
     url_path_of w @ (if CHR ''#'' \<in> set w \<or> CHR ''?'' \<in> set w then [] else url_path_of v)"
proof (cases "CHR ''#'' \<in> set w")
  case True
  then have "takeWhile (\<lambda>x. x \<noteq> CHR ''#'') (w @ v) = takeWhile (\<lambda>x. x \<noteq> CHR ''#'') w"
    by (intro takeWhile_append1) auto
  with True show ?thesis by (simp only: url_path_of_def simp_thms if_True append_Nil2)
next
  case False
  have t: "takeWhile (\<lambda>x. x \<noteq> CHR ''#'') (w @ v) = w @ takeWhile (\<lambda>x. x \<noteq> CHR ''#'') v"
    by (rule takeWhile_append2) (use False in blast)
  have e: "takeWhile (\<lambda>x. x \<noteq> CHR ''#'') w = w"
    by (simp only: takeWhile_eq_all_conv) (use False in blast)
  show ?thesis
  proof (cases "CHR ''?'' \<in> set w")
    case True
    then have "takeWhile (\<lambda>x. x \<noteq> CHR ''?'') (w @ x) = takeWhile (\<lambda>x. x \<noteq> CHR ''?'') w" for x
      by (intro takeWhile_append1) auto
    with True show ?thesis by (simp only: url_path_of_def t e simp_thms if_True append_Nil2)
  next
    case wf: False
    have "takeWhile (\<lambda>x. x \<noteq> CHR ''?'') (w @ x) = w @ takeWhile (\<lambda>x. x \<noteq> CHR ''?'') x" for x
      by (rule takeWhile_append2) (use wf in blast)
    moreover have "takeWhile (\<lambda>x. x \<noteq> CHR ''?'') w = w"
      by (simp only: takeWhile_eq_all_conv) (use wf in blast)
    ultimately show ?thesis
      using False wf by (simp only: url_path_of_def t e simp_thms if_False)
  qed
qed

lemma urlsplit_path:
  "urlsplit u = Inr p \<Longrightarrow> url_path p = url_path_of (snd (url_split_netloc (snd (url_split_scheme (url_clean u)))))"
  by (auto simp: urlsplit_def url_path_of_def partition_on_def res_simps Let_def split: prod.splits)

lemma urlsplit_extend:
  assumes u: "u = r @ CHR ''/'' # a @ CHR ''/'' # b"
    and a: "a \<noteq> []" "list_all plain_segment_char a"
    and p: "urlsplit u = Inr p" and p': "urlsplit (u @ CHR ''/'' # t) = Inr p'"
  shows "\<exists>s. url_path p' = url_path p @ s \<and> (s = [] \<or> hd s = CHR ''/'')"
proof -
  let ?k = "\<lambda>c. code c \<noteq> 9 \<and> code c \<noteq> 10 \<and> code c \<noteq> 13"
  have "\<forall>x\<in>set a. ?k x"
  proof
    fix x assume "x \<in> set a"
    with a(2) have "32 < code x" by (simp add: list_all_iff plain_segment_char_def plain_url_char_def)
    then show "?k x" by simp
  qed
  then have "filter ?k a = a" by (rule filter_True)
  then have c: "url_clean (r @ CHR ''/'' # a @ CHR ''/'' # x) = url_clean r @ CHR ''/'' # a @ CHR ''/'' # filter ?k x" for x
    by (simp add: url_clean_append)
  from url_split_scheme_append [of "url_clean r"]
  obtain sch r' where s: "\<forall>x. url_split_scheme (url_clean r @ CHR ''/'' # x) = (sch, r' @ CHR ''/'' # x)"
    by (elim exE)
  from url_split_netloc_append [OF a, of r']
  obtain net n where n: "\<forall>y. url_split_netloc (r' @ CHR ''/'' # a @ CHR ''/'' # y) = (net, n @ CHR ''/'' # y)"
    by (elim exE)
  have "url_path p = url_path_of (n @ CHR ''/'' # filter ?k b)"
    using urlsplit_path [OF p] by (simp add: u c s n)
  moreover have "url_path p' = url_path_of ((n @ CHR ''/'' # filter ?k b) @ CHR ''/'' # filter ?k t)"
    using urlsplit_path [OF p'] c [of "b @ CHR ''/'' # t"] by (simp add: u s n)
  moreover have "hd (url_path_of (CHR ''/'' # x)) = CHR ''/''" for x
    by (simp add: url_path_of_def)
  ultimately show ?thesis by (auto simp: url_path_of_append simp del: append_assoc append_Cons)
qed

end
