(* ===== verification/Py_Values.thy ===== *)
theory Py_Values
  imports Complex_Main Py_Text
begin

text \<open>
  Python values: finite IEEE-754 doubles as the rationals they denote, \<open>float(int)\<close> with its
  rounding and overflow, JSON documents as \<open>json.loads\<close> returns them, and the rows of the
  event and table dictionaries.  An aware \<open>datetime\<close> is the number of microseconds since the
  Unix epoch in UTC, so \<open>astimezone(UTC)\<close> is the identity.
\<close>

section \<open>Floating-point numbers\<close>

text \<open>The two zeros of IEEE-754 are one value here; nothing in the modelled code tells them apart.\<close>

datatype pyfloat = PFin rat | PInf | PNegInf | PNaN

fun isfinite :: "pyfloat \<Rightarrow> bool" where
  "isfinite (PFin q) = True"
| "isfinite _ = False"

text \<open>\<open>a <= b\<close> and \<open>a < b\<close>: every comparison with a NaN is false.\<close>

fun fl_le :: "pyfloat \<Rightarrow> pyfloat \<Rightarrow> bool" where
  "fl_le PNaN b = False"
| "fl_le a PNaN = False"
| "fl_le PNegInf b = True"
| "fl_le a PInf = True"
| "fl_le (PFin a) (PFin b) = (a \<le> b)"
| "fl_le PInf b = False"
| "fl_le a PNegInf = False"

fun fl_less :: "pyfloat \<Rightarrow> pyfloat \<Rightarrow> bool" where
  "fl_less PNaN b = False"
| "fl_less a PNaN = False"
| "fl_less (PFin a) (PFin b) = (a < b)"
| "fl_less PNegInf b = (b \<noteq> PNegInf)"
| "fl_less a PInf = (a \<noteq> PInf)"
| "fl_less PInf b = False"
| "fl_less a PNegInf = False"

fun bit_length :: "nat \<Rightarrow> nat" where
  "bit_length n = (if n = 0 then 0 else Suc (bit_length (n div 2)))"

declare bit_length.simps [simp del]

text \<open>Division rounded to the nearest integer, ties to the even one.\<close>

definition div_half_even :: "nat \<Rightarrow> nat \<Rightarrow> nat" where
  "div_half_even m d =
     (let q = m div d; r = m mod d
      in if 2 * r < d then q else if d < 2 * r then Suc q else if even q then q else Suc q)"

text \<open>\<open>float(n)\<close>: 53 bits of precision, \<open>OverflowError\<close> from \<open>2 ^ 1024\<close> on.\<close>

definition round_nat :: "nat \<Rightarrow> nat" where
  "round_nat m =
     (let b = bit_length m
      in if b \<le> 53 then m else div_half_even m (2 ^ (b - 53)) * 2 ^ (b - 53))"

definition float_of_int :: "int \<Rightarrow> pyfloat res" where
  "float_of_int i =
     (let r = round_nat (nat \<bar>i\<bar>)
      in if 2 ^ 1024 \<le> r then raise OverflowError ''int too large to convert to float''
         else Inr (PFin (of_int (sgn i * int r))))"

lemma bit_length_bound: "n < 2 ^ bit_length n"
proof (induction n rule: bit_length.induct)
  case (1 n)
  show ?case
  proof (cases "n = 0")
    case True
    then show ?thesis by (simp add: bit_length.simps)
  next
    case False
    with 1 have "n div 2 < 2 ^ bit_length (n div 2)" by simp
    then have "n < 2 * 2 ^ bit_length (n div 2)" by linarith
    with False show ?thesis by (simp add: bit_length.simps [of n])
  qed
qed

lemma bit_length_le: "n < 2 ^ k \<Longrightarrow> bit_length n \<le> k"
proof (induction n arbitrary: k rule: bit_length.induct)
  case (1 n)
  show ?case
  proof (cases "n = 0")
    case True
    then show ?thesis by (simp add: bit_length.simps)
  next
    case False
    with "1.prems" obtain k' where k: "k = Suc k'" by (cases k) auto
    with "1.prems" have "n div 2 < 2 ^ k'" by auto
    with "1.IH" False k show ?thesis by (simp add: bit_length.simps [of n])
  qed
qed

text \<open>Integers of at most 53 bits convert exactly.\<close>

lemma float_of_int_exact:
  assumes "\<bar>i\<bar> < 2 ^ 53"
  shows "float_of_int i = Inr (PFin (of_int i))"
proof -
  have "nat \<bar>i\<bar> < 2 ^ 53" using assms by (simp add: nat_less_iff)
  then have r: "round_nat (nat \<bar>i\<bar>) = nat \<bar>i\<bar>"
    using bit_length_le by (simp add: round_nat_def Let_def)
  have "nat \<bar>i\<bar> < 2 ^ 1024"
    using \<open>nat \<bar>i\<bar> < 2 ^ 53\<close> by (rule less_le_trans) simp
  then show ?thesis
    by (simp add: float_of_int_def r Let_def not_le linorder_not_le sgn_mult_abs)
qed

section \<open>JSON documents\<close>

datatype json =
    JNull
  | JBool bool
  | JInt int
  | JFloat pyfloat
  | JStr string
  | JList "json list"
  | JObj "(string \<times> json) list"

type_synonym jobject = "(string \<times> json) list"

text \<open>\<open>d.get(k)\<close>, with \<open>None\<close> for a missing key, and \<open>d[k]\<close>.\<close>

definition jget :: "jobject \<Rightarrow> string \<Rightarrow> json" where
  "jget d k = (case map_of d k of None \<Rightarrow> JNull | Some v \<Rightarrow> v)"

definition jitem :: "jobject \<Rightarrow> string \<Rightarrow> json res" where
  "jitem d k = (case map_of d k of None \<Rightarrow> raise KeyError k | Some v \<Rightarrow> Inr v)"

text \<open>\<open>isinstance(v, (int, float)) and not isinstance(v, bool)\<close>.\<close>

fun is_number :: "json \<Rightarrow> bool" where
  "is_number (JInt i) = True"
| "is_number (JFloat f) = True"
| "is_number _ = False"

text \<open>\<open>float(v)\<close> of a number.\<close>

fun to_float :: "json \<Rightarrow> pyfloat res" where
  "to_float (JInt i) = float_of_int i"
| "to_float (JFloat f) = Inr f"
| "to_float _ = raise TypeError ''float() argument must be a string or a real number''"

text \<open>\<open>v if isinstance(v, str)\<close>, and the same for dictionaries and lists.\<close>

fun json_text :: "json \<Rightarrow> string option" where
  "json_text (JStr s) = Some s"
| "json_text _ = None"

fun json_obj :: "json \<Rightarrow> jobject option" where
  "json_obj (JObj d) = Some d"
| "json_obj _ = None"

fun json_list :: "json \<Rightarrow> json list option" where
  "json_list (JList xs) = Some xs"
| "json_list _ = None"

lemma json_view_Some [simp]:
  "json_text v = Some s \<longleftrightarrow> v = JStr s" "json_obj v = Some d \<longleftrightarrow> v = JObj d" "json_list v = Some xs \<longleftrightarrow> v = JList xs"
  by (cases v; auto)+

section \<open>Rows\<close>

datatype cell =
    CNone
  | CText string
  | CInt int
  | CBool bool
  | CFloat pyfloat
  | CTime int
  | CJson json

type_synonym row = "(string \<times> cell) list"

definition row_get :: "row \<Rightarrow> string \<Rightarrow> cell" where
  "row_get r k = (case map_of r k of None \<Rightarrow> CNone | Some c \<Rightarrow> c)"

definition row_item :: "row \<Rightarrow> string \<Rightarrow> cell res" where
  "row_item r k = (case map_of r k of None \<Rightarrow> raise KeyError k | Some c \<Rightarrow> Inr c)"

text \<open>\<open>x if isinstance(x, str)\<close> and \<open>x if isinstance(x, datetime)\<close>, with \<open>None\<close> for any other type.\<close>

fun cell_text :: "cell \<Rightarrow> string option" where
  "cell_text (CText s) = Some s"
| "cell_text _ = None"

fun cell_time :: "cell \<Rightarrow> int option" where
  "cell_time (CTime t) = Some t"
| "cell_time _ = None"

lemma cell_text_Some [simp]: "(cell_text c = Some s) = (c = CText s)"
  by (cases c) auto

lemma cell_time_Some [simp]: "(cell_time c = Some t) = (c = CTime t)"
  by (cases c) auto

lemma row_get_update [simp]:
  "row_get (AList.update k v r) k' = (if k' = k then v else row_get r k')"
  by (simp add: row_get_def)

lemma row_get_Nil [simp]: "row_get [] k = CNone"
  by (simp add: row_get_def)

lemma row_get_Cons [simp]: "row_get ((k, v) # r) k' = (if k' = k then v else row_get r k')"
  by (simp add: row_get_def)

lemma jget_Cons [simp]: "jget ((k, v) # d) k' = (if k' = k then v else jget d k')"
  by (simp add: jget_def)

lemma jget_Nil [simp]: "jget [] k = JNull"
  by (simp add: jget_def)

text \<open>
  \<open>xs if x is not None\<close>, where a missing or null text, number or value is \<open>None\<close>: turns an
  optional lookup into the exception the source raises.
\<close>

definition require_some :: "'a option \<Rightarrow> exc_class \<Rightarrow> string \<Rightarrow> 'a res" where
  "require_some x c m = (case x of None \<Rightarrow> raise c m | Some y \<Rightarrow> Inr y)"

lemma require_some_Inr [simp]: "(require_some x c m = Inr y) = (x = Some y)"
  by (cases x) (simp_all add: require_some_def)

lemma require_some_simps [simp]:
  "require_some None c m = raise c m" "require_some (Some y) c m = Inr y"
  by (simp_all add: require_some_def)

end
