(* ===== verification/Access_Policy.thy ===== *)
theory Access_Policy
  imports Py_Text Py_Values
begin

text \<open>
  \<open>access_policy.py\<close>: the read grants of the roles, the clearance levels and floors of the schemas,
  authorisation of a read, and the row filter on persisted classification labels.
  A role claim is a \<^typ>\<open>cell\<close>, because the code accepts any value and checks that it is text.
\<close>

section \<open>Schemas, roles and grants\<close>

definition PLATFORM_SCHEMAS :: "string list" where
  "PLATFORM_SCHEMAS = [''platform_bronze'', ''platform_silver'', ''platform_gold'']"

definition CVFF_SCHEMAS :: "string list" where
  "CVFF_SCHEMAS = [''cvff_bronze'', ''cvff_silver'', ''cvff_gold'']"

definition SEAFARER_SCHEMAS :: "string list" where
  "SEAFARER_SCHEMAS = [''seafarer_bronze'', ''seafarer_silver'', ''seafarer_gold'']"

definition FISHERIES_SCHEMAS :: "string list" where
  "FISHERIES_SCHEMAS = [''fisheries_bronze'', ''fisheries_silver'', ''fisheries_gold'']"

definition ISR_SCHEMAS :: "string list" where
  "ISR_SCHEMAS = [''isr_bronze'', ''isr_silver'', ''isr_gold'']"

definition MRV_SCHEMAS :: "string list" where
  "MRV_SCHEMAS = [''mrv_bronze'', ''mrv_silver'', ''mrv_gold'']"

definition BLUECARBON_SCHEMAS :: "string list" where
  "BLUECARBON_SCHEMAS = [''bluecarbon_bronze'', ''bluecarbon_silver'', ''bluecarbon_gold'']"

definition GOVERNED_SCHEMAS :: "string list" where
  "GOVERNED_SCHEMAS = PLATFORM_SCHEMAS @ CVFF_SCHEMAS @ SEAFARER_SCHEMAS @ FISHERIES_SCHEMAS @
     ISR_SCHEMAS @ MRV_SCHEMAS @ BLUECARBON_SCHEMAS"

definition CVFF_SCOPED_ROLES :: "string list" where
  "CVFF_SCOPED_ROLES = [''independent-auditor'', ''nimasa-approver'', ''cbn-observer'']"

definition ROLE_READ_GRANTS :: "(string \<times> string list) list" where
  "ROLE_READ_GRANTS =
     [(''independent-auditor'', CVFF_SCHEMAS),
      (''nimasa-approver'', CVFF_SCHEMAS),
      (''cbn-observer'', CVFF_SCHEMAS),
      (''fmmbe-oversight'', PLATFORM_SCHEMAS),
      (''seafarer-registry'', SEAFARER_SCHEMAS),
      (''fisheries-operations'', FISHERIES_SCHEMAS),
      (''isr-analyst'', ISR_SCHEMAS),
      (''insurer-aggregator'', [''isr_gold'']),
      (''mrv-reader'', MRV_SCHEMAS),
      (''mrv-verifier'', MRV_SCHEMAS),
      (''mrv-flag-admin'', MRV_SCHEMAS),
      (''bc-registry-admin'', BLUECARBON_SCHEMAS),
      (''bc-auditor'', BLUECARBON_SCHEMAS),
      (''stats-reader'', [''platform_gold''])]"

section \<open>Clearance levels\<close>

datatype clearance = UNCLASSIFIED | RESTRICTED | CONFIDENTIAL | SECRET

fun clearance_value :: "clearance \<Rightarrow> nat" where
  "clearance_value UNCLASSIFIED = 0"
| "clearance_value RESTRICTED = 1"
| "clearance_value CONFIDENTIAL = 2"
| "clearance_value SECRET = 3"

text \<open>An \<open>IntEnum\<close> is ordered by its values.\<close>

instantiation clearance :: linorder
begin

definition less_eq_clearance :: "clearance \<Rightarrow> clearance \<Rightarrow> bool" where
  "less_eq_clearance a b = (clearance_value a \<le> clearance_value b)"

definition less_clearance :: "clearance \<Rightarrow> clearance \<Rightarrow> bool" where
  "less_clearance a b = (clearance_value a < clearance_value b)"

instance
proof
  fix a b :: clearance
  show "a \<le> b \<Longrightarrow> b \<le> a \<Longrightarrow> a = b"
    by (cases a; cases b) (simp_all add: less_eq_clearance_def)
qed (auto simp: less_eq_clearance_def less_clearance_def)

end

fun clearance_label :: "clearance \<Rightarrow> string" where
  "clearance_label UNCLASSIFIED = ''UNCLASSIFIED''"
| "clearance_label RESTRICTED = ''RESTRICTED''"
| "clearance_label CONFIDENTIAL = ''CONFIDENTIAL''"
| "clearance_label SECRET = ''SECRET''"

definition all_clearances :: "clearance list" where
  "all_clearances = [UNCLASSIFIED, RESTRICTED, CONFIDENTIAL, SECRET]"

definition from_label :: "string \<Rightarrow> clearance res" where
  "from_label label =
     bindR (guard (canonical label) ValueError ''clearance labels must be canonical non-empty text'') (\<lambda>_.
     require_some (List.find (\<lambda>l. clearance_label l = upper label) all_clearances)
       ValueError ''clearance label is not a level; access fails closed'')"

definition SCHEMA_CLASSIFICATION_FLOOR :: "(string \<times> clearance) list" where
  "SCHEMA_CLASSIFICATION_FLOOR =
     map (\<lambda>s. (s, UNCLASSIFIED)) PLATFORM_SCHEMAS @
     map (\<lambda>s. (s, UNCLASSIFIED)) CVFF_SCHEMAS @
     map (\<lambda>s. (s, RESTRICTED)) FISHERIES_SCHEMAS @
     map (\<lambda>s. (s, CONFIDENTIAL)) SEAFARER_SCHEMAS @
     [(''isr_bronze'', SECRET), (''isr_silver'', SECRET), (''isr_gold'', CONFIDENTIAL)] @
     map (\<lambda>s. (s, CONFIDENTIAL)) MRV_SCHEMAS @
     [(''bluecarbon_bronze'', CONFIDENTIAL), (''bluecarbon_silver'', CONFIDENTIAL),
      (''bluecarbon_gold'', UNCLASSIFIED)]"

section \<open>Claims\<close>

text \<open>A clearance claim: \<open>Clearance | str | None\<close>, or a value of another type.\<close>

datatype clearance_claim = NoClaim | LevelClaim clearance | LabelClaim string | OtherClaim

definition normalize_role :: "cell \<Rightarrow> string res" where
  "normalize_role claim =
     bindR (case claim of
              CText role \<Rightarrow> bindR (guard (canonical role) AccessDeniedError
                ''role claims must be canonical non-empty text'') (\<lambda>_. Inr role)
            | _ \<Rightarrow> raise AccessDeniedError ''role claims must be canonical non-empty text'') (\<lambda>role.
     bindR (guard (role \<in> fst ` set ROLE_READ_GRANTS) AccessDeniedError
              ''unknown role claim is denied by default'') (\<lambda>_. Inr role))"

definition normalize_roles :: "cell list \<Rightarrow> string set res" where
  "normalize_roles roles = foldR (\<lambda>normalized c. bindR (normalize_role c) (\<lambda>r. Inr (insert r normalized))) {} roles"

fun normalize_clearance :: "clearance_claim \<Rightarrow> clearance option res" where
  "normalize_clearance NoClaim = Inr None"
| "normalize_clearance (LevelClaim l) = Inr (Some l)"
| "normalize_clearance (LabelClaim s) =
     (case from_label s of Inl e \<Rightarrow> raise AccessDeniedError (exn_msg e) | Inr l \<Rightarrow> Inr (Some l))"
| "normalize_clearance OtherClaim =
     raise AccessDeniedError ''clearance claims must be a Clearance level or its canonical label''"

definition role_grants :: "string \<Rightarrow> string set" where
  "role_grants role = (case map_of ROLE_READ_GRANTS role of None \<Rightarrow> {} | Some ss \<Rightarrow> set ss)"

definition allowed_schemas :: "cell list \<Rightarrow> string set res" where
  "allowed_schemas roles = bindR (normalize_roles roles) (\<lambda>rs. Inr (\<Union> (role_grants ` rs)))"

section \<open>Authorisation\<close>

text \<open>
  \<open>authorize_read\<close> calls \<open>allowed_schemas\<close> with the roles it has already normalised, which
  normalise to themselves (\<open>allowed_schemas_normalized\<close> below).
\<close>

definition authorize_read :: "cell list \<Rightarrow> string \<Rightarrow> clearance_claim \<Rightarrow> unit res" where
  "authorize_read roles schema claim =
     bindR (guard (schema \<in> set GOVERNED_SCHEMAS) AccessDeniedError
              ''schema is not a governed lakehouse schema'') (\<lambda>_.
     bindR (normalize_roles roles) (\<lambda>normalized.
     bindR (guard (normalized \<noteq> {}) AccessDeniedError ''at least one recognized role claim is required'') (\<lambda>_.
     bindR (guard (schema \<in> \<Union> (role_grants ` normalized)) AccessDeniedError
              ''roles are not granted read access to schema'') (\<lambda>_.
     bindR (require_some (map_of SCHEMA_CLASSIFICATION_FLOOR schema) KeyError schema) (\<lambda>floor.
     bindR (normalize_clearance claim) (\<lambda>level.
     if UNCLASSIFIED < floor
     then (case level of
             None \<Rightarrow> raise AccessDeniedError ''schema requires a clearance claim''
           | Some l \<Rightarrow> guard (floor \<le> l) AccessDeniedError ''clearance is below the floor of schema'')
     else Inr ()))))))"

text \<open>
  \<open>clearance_permits\<close> is called with a level or a label; both parses are inside the \<open>try\<close>, and
  \<open>filter_records_by_clearance\<close> checks that the label is text before it calls it.
\<close>

definition claim_level :: "clearance + string \<Rightarrow> clearance res" where
  "claim_level c = (case c of Inl l \<Rightarrow> Inr l | Inr s \<Rightarrow> from_label s)"

definition clearance_permits :: "clearance + string \<Rightarrow> string \<Rightarrow> bool" where
  "clearance_permits c record_classification =
     (case bindR (claim_level c) (\<lambda>level. bindR (from_label record_classification) (\<lambda>required. Inr (level, required)))
      of Inl e \<Rightarrow> False | Inr (level, required) \<Rightarrow> required \<le> level)"

definition filter_records_by_clearance :: "row list \<Rightarrow> clearance + string \<Rightarrow> string \<Rightarrow> row list" where
  "filter_records_by_clearance records c label_column =
     foldl (\<lambda>visible record.
       case row_get record label_column of
         CText label \<Rightarrow> if clearance_permits c label then visible @ [record] else visible
       | _ \<Rightarrow> visible) [] records"

definition authorize_write :: "cell list \<Rightarrow> string \<Rightarrow> unit res" where
  "authorize_write roles schema =
     bindR (normalize_roles roles) (\<lambda>_. raise AccessDeniedError ''governance role claims are read-only'')"


section \<open>Lemmas\<close>

lemma normalize_role_iff:
  "normalize_role c = Inr r \<longleftrightarrow> c = CText r \<and> canonical r \<and> r \<in> fst ` set ROLE_READ_GRANTS"
  by (cases c) (auto simp: normalize_role_def res_simps)

lemma normalize_roles_acc:
  "foldR (\<lambda>normalized c. bindR (normalize_role c) (\<lambda>r. Inr (insert r normalized))) acc roles = Inr rs \<longleftrightarrow>
     (\<forall>c\<in>set roles. is_ok (normalize_role c)) \<and> rs = acc \<union> {r. CText r \<in> set roles}"
  by (induction roles arbitrary: acc) (auto simp: res_simps is_ok_iff normalize_role_iff)

lemma normalize_roles_iff:
  "normalize_roles roles = Inr rs \<longleftrightarrow>
     (\<forall>c\<in>set roles. \<exists>r. c = CText r \<and> canonical r \<and> r \<in> fst ` set ROLE_READ_GRANTS) \<and>
     rs = {r. CText r \<in> set roles}"
  by (simp add: normalize_roles_def normalize_roles_acc is_ok_iff normalize_role_iff)

text \<open>Normalised roles normalise to themselves, so \<open>authorize_read\<close> reads the grants of its own roles.\<close>

lemma allowed_schemas_normalized:
  assumes "normalize_roles roles = Inr rs" "set claims = CText ` rs"
  shows "allowed_schemas claims = Inr (\<Union> (role_grants ` rs))"
proof -
  from assms have "normalize_roles claims = Inr rs"
    by (auto simp: normalize_roles_iff)
  then show ?thesis by (simp add: allowed_schemas_def)
qed

lemma from_label_iff: "from_label s = Inr l \<longleftrightarrow> canonical s \<and> clearance_label l = upper s"
proof -
  have "List.find (\<lambda>l. clearance_label l = u) all_clearances = Some l \<longleftrightarrow> clearance_label l = u" for u
    by (cases l) (auto simp: all_clearances_def)
  then show ?thesis by (auto simp: from_label_def res_simps)
qed

lemma clearance_permits_iff:
  "clearance_permits c label \<longleftrightarrow>
     (\<exists>level required. claim_level c = Inr level \<and> from_label label = Inr required \<and> required \<le> level)"
  by (cases "claim_level c"; cases "from_label label") (simp_all add: clearance_permits_def)

lemma filter_records_eq:
  "filter_records_by_clearance records c col =
     filter (\<lambda>r. \<exists>label. row_get r col = CText label \<and> clearance_permits c label) records"
proof -
  have "foldl (\<lambda>visible record.
       case row_get record col of
         CText label \<Rightarrow> if clearance_permits c label then visible @ [record] else visible
       | _ \<Rightarrow> visible) acc records =
     acc @ filter (\<lambda>r. \<exists>label. row_get r col = CText label \<and> clearance_permits c label) records" for acc
    by (induction records arbitrary: acc) (auto split: cell.split)
  then show ?thesis by (simp add: filter_records_by_clearance_def)
qed

text \<open>The scopes' schema sets, and the fact that no role's grants leave one of them.\<close>

definition scope_schema_sets :: "string list list" where
  "scope_schema_sets = [PLATFORM_SCHEMAS, CVFF_SCHEMAS, SEAFARER_SCHEMAS, FISHERIES_SCHEMAS,
     ISR_SCHEMAS, MRV_SCHEMAS, BLUECARBON_SCHEMAS]"

lemmas schema_defs = PLATFORM_SCHEMAS_def CVFF_SCHEMAS_def SEAFARER_SCHEMAS_def FISHERIES_SCHEMAS_def
  ISR_SCHEMAS_def MRV_SCHEMAS_def BLUECARBON_SCHEMAS_def

lemma role_grants_cases:
  assumes "s \<in> role_grants r"
  shows "\<exists>ss. (r, ss) \<in> set ROLE_READ_GRANTS \<and> s \<in> set ss"
  using assms by (auto simp: role_grants_def dest: map_of_SomeD split: option.splits)

lemma grants_within_one_scope:
  "(r, ss) \<in> set ROLE_READ_GRANTS \<Longrightarrow> \<exists>S\<in>set scope_schema_sets. set ss \<subseteq> set S"
proof -
  assume r: "(r, ss) \<in> set ROLE_READ_GRANTS"
  have "list_all (\<lambda>(r, ss). list_ex (\<lambda>S. list_all (\<lambda>s. s \<in> set S) ss) scope_schema_sets) ROLE_READ_GRANTS"
    by code_simp
  with r show ?thesis by (fastforce simp: list_all_iff list_ex_iff)
qed

lemma authorize_read_iff_grant:
  "authorize_read roles schema claim = Inr () \<longleftrightarrow>
     schema \<in> set GOVERNED_SCHEMAS \<and>
     (\<forall>c\<in>set roles. \<exists>r. c = CText r \<and> canonical r \<and> r \<in> fst ` set ROLE_READ_GRANTS) \<and>
     (\<exists>r. CText r \<in> set roles \<and> schema \<in> role_grants r) \<and>
     (\<exists>floor level. map_of SCHEMA_CLASSIFICATION_FLOOR schema = Some floor \<and>
        normalize_clearance claim = Inr level \<and>
        (floor = UNCLASSIFIED \<or> (\<exists>l. level = Some l \<and> floor \<le> l)))"
proof -
  have z: "UNCLASSIFIED < f \<longleftrightarrow> f \<noteq> UNCLASSIFIED" for f
    by (cases f) (simp_all add: less_clearance_def)
  show ?thesis
  proof (cases "map_of SCHEMA_CLASSIFICATION_FLOOR schema"; cases "normalize_clearance claim")
    fix f l assume "map_of SCHEMA_CLASSIFICATION_FLOOR schema = Some f" "normalize_clearance claim = Inr l"
    then show ?thesis
      by (cases l; cases "f = UNCLASSIFIED") (auto simp: authorize_read_def res_simps normalize_roles_iff z)
  qed (simp_all add: authorize_read_def res_simps)
qed

section \<open>Properties\<close>

text \<open>
  Read authorisation, on every branch: a read is granted exactly when the schema is
  governed, every role claim is canonical text naming a known role, one of them is granted the
  schema, the clearance claim is absent or valid, and a schema with a floor above UNCLASSIFIED
  has a clearance claim at or above it.  Every refusal is an \<open>AccessDeniedError\<close>.
\<close>

theorem authorize_read_iff:
  "(authorize_read roles schema claim = Inr () \<longleftrightarrow>
     schema \<in> set GOVERNED_SCHEMAS \<and>
     list_all (\<lambda>c. \<exists>r. c = CText r \<and> canonical r \<and> r \<in> fst ` set ROLE_READ_GRANTS) roles \<and>
     (\<exists>r. CText r \<in> set roles \<and> schema \<in> role_grants r) \<and>
     (\<exists>floor level. map_of SCHEMA_CLASSIFICATION_FLOOR schema = Some floor \<and>
        normalize_clearance claim = Inr level \<and>
        (floor = UNCLASSIFIED \<or> (\<exists>l. level = Some l \<and> floor \<le> l)))) \<and>
   (case authorize_read roles schema claim of Inl e \<Rightarrow> exn_class e = AccessDeniedError | Inr u \<Rightarrow> True)"
proof -
  have f: "map_of SCHEMA_CLASSIFICATION_FLOOR schema \<noteq> None" if "schema \<in> set GOVERNED_SCHEMAS"
  proof -
    have "list_all (\<lambda>s. map_of SCHEMA_CLASSIFICATION_FLOOR s \<noteq> None) GOVERNED_SCHEMAS" by code_simp
    with that show ?thesis by (simp only: list_all_iff) blast
  qed
  have r: "exn_class e = AccessDeniedError" if "normalize_role c = Inl e" for c e
    using that by (cases c) (auto simp: normalize_role_def bindR_Inl_iff guard_def split: if_splits)
  have rs: "exn_class e = AccessDeniedError" if "normalize_roles roles = Inl e" for e
  proof -
    have "foldR (\<lambda>n c. bindR (normalize_role c) (\<lambda>r. Inr (insert r n))) acc roles = Inl e \<Longrightarrow> ?thesis" for acc
      by (induction roles arbitrary: acc) (auto simp: bindR_Inl_iff dest: r)
    with that show ?thesis by (simp add: normalize_roles_def)
  qed
  have cl: "exn_class e = AccessDeniedError" if "normalize_clearance claim = Inl e" for e
    using that by (cases claim) (auto split: sum.splits)
  have "exn_class e = AccessDeniedError" if "authorize_read roles schema claim = Inl e" for e
    using that f rs cl
    by (auto simp: authorize_read_def bindR_Inl_iff guard_def require_some_def
        split: if_splits option.splits)
  then show ?thesis
    by (simp add: authorize_read_iff_grant list_all_iff split: sum.split)
qed

text \<open>
  Claim C33.  The fiduciary boundary on reads: a granted read of a cvff schema was made with a
  cvff-scoped role, and a granted read of the raw or behavioural ISR tracks was made by an ISR analyst
  with a SECRET clearance; in particular the insurer aggregator never reads them.
\<close>

theorem segregated_reads:
  assumes "authorize_read roles schema claim = Inr ()"
  shows "(schema \<in> set CVFF_SCHEMAS \<longrightarrow> (\<exists>r\<in>set CVFF_SCOPED_ROLES. CText r \<in> set roles)) \<and>
     (schema \<in> {''isr_bronze'', ''isr_silver''} \<longrightarrow>
        CText ''isr-analyst'' \<in> set roles \<and> normalize_clearance claim = Inr (Some SECRET)) \<and>
     (\<exists>r S. CText r \<in> set roles \<and> S \<in> set scope_schema_sets \<and> schema \<in> set S \<and> role_grants r \<subseteq> set S)"
proof -
  from assms obtain r where r: "CText r \<in> set roles" "schema \<in> role_grants r"
    by (auto simp: authorize_read_iff_grant)
  then obtain ss where ss: "(r, ss) \<in> set ROLE_READ_GRANTS" "schema \<in> set ss" "role_grants r = set ss"
    by (auto simp: role_grants_def dest: map_of_SomeD split: option.splits)
  have "list_all (\<lambda>(r, ss). list_all (\<lambda>s. s \<in> set CVFF_SCHEMAS \<longrightarrow> r \<in> set CVFF_SCOPED_ROLES) ss) ROLE_READ_GRANTS"
    by code_simp
  with ss(1,2) have cvff: "schema \<in> set CVFF_SCHEMAS \<longrightarrow> r \<in> set CVFF_SCOPED_ROLES"
    by (auto simp: list_all_iff)
  have "list_all (\<lambda>(r, ss). list_all (\<lambda>s. s \<in> {''isr_bronze'', ''isr_silver''} \<longrightarrow> r = ''isr-analyst'') ss) ROLE_READ_GRANTS"
    by code_simp
  with ss(1,2) have isr: "schema \<in> {''isr_bronze'', ''isr_silver''} \<longrightarrow> r = ''isr-analyst''"
    by (fastforce simp: list_all_iff)
  have "map_of SCHEMA_CLASSIFICATION_FLOOR ''isr_bronze'' = Some SECRET"
    "map_of SCHEMA_CLASSIFICATION_FLOOR ''isr_silver'' = Some SECRET" by code_simp+
  moreover have "SECRET \<le> l \<longleftrightarrow> l = SECRET" for l by (cases l) (simp_all add: less_eq_clearance_def)
  ultimately have sec: "schema \<in> {''isr_bronze'', ''isr_silver''} \<longrightarrow> normalize_clearance claim = Inr (Some SECRET)"
    using assms by (auto simp: authorize_read_iff_grant)
  from grants_within_one_scope [OF ss(1)] ss obtain S where "S \<in> set scope_schema_sets" "set ss \<subseteq> set S" by blast
  with r ss cvff isr sec show ?thesis by auto
qed

lemma segregated_reads_witness:
  "authorize_read [CText ''isr-analyst''] ''isr_bronze'' (LabelClaim ''secret'') = Inr () \<and>
   CText ''isr-analyst'' \<in> set [CText ''isr-analyst'']"
proof -
  have a: "authorize_read [CText ''isr-analyst''] ''isr_bronze'' (LabelClaim ''secret'') = Inr ()" by code_simp
  from segregated_reads [OF a] a show ?thesis by simp
qed

text \<open>
  Authorisation is monotone: a higher clearance level and additional known
  roles never withdraw a granted read, and every write is refused.
\<close>

theorem authorize_read_monotone:
  assumes "authorize_read roles schema (LevelClaim l) = Inr ()" and "l \<le> l'"
    and "set roles \<subseteq> set roles'" and "is_ok (normalize_roles roles')"
  shows "authorize_read roles' schema (LevelClaim l') = Inr () \<and> \<not> is_ok (authorize_write roles' schema)"
proof -
  from assms(4) have "\<forall>c\<in>set roles'. \<exists>r. c = CText r \<and> canonical r \<and> r \<in> fst ` set ROLE_READ_GRANTS"
    by (auto simp: is_ok_iff normalize_roles_iff)
  with assms(1-3) have "authorize_read roles' schema (LevelClaim l') = Inr ()"
    unfolding authorize_read_iff_grant by (auto intro: order_trans)
  then show ?thesis by (simp add: authorize_write_def is_ok_bindR)
qed

lemma authorize_read_monotone_witness:
  "authorize_read [CText ''mrv-reader''] ''mrv_gold'' (LevelClaim CONFIDENTIAL) = Inr () \<and>
   authorize_read [CText ''mrv-reader'', CText ''stats-reader''] ''mrv_gold'' (LevelClaim SECRET) = Inr ()"
proof -
  have a: "authorize_read [CText ''mrv-reader''] ''mrv_gold'' (LevelClaim CONFIDENTIAL) = Inr ()"
    "is_ok (normalize_roles [CText ''mrv-reader'', CText ''stats-reader''])" by code_simp+
  have "CONFIDENTIAL \<le> SECRET" by (simp add: less_eq_clearance_def)
  from authorize_read_monotone [OF a(1) this _ a(2)] a(1) show ?thesis by simp
qed

text \<open>
  The row filter returns the visible records in their order and nothing else; every
  returned record carries a valid label at or below the clearance, a record without one is
  withheld, and what is visible below a clearance stays visible below a higher one.
\<close>

theorem filter_records_visible:
  "(r \<in> set (filter_records_by_clearance records (Inl level) col) \<longleftrightarrow>
      r \<in> set records \<and> (\<exists>label required. row_get r col = CText label \<and>
        from_label label = Inr required \<and> required \<le> level)) \<and>
   filter_records_by_clearance (xs @ ys) c col =
      filter_records_by_clearance xs c col @ filter_records_by_clearance ys c col \<and>
   filter_records_by_clearance (filter_records_by_clearance records (Inl (max level level')) col) (Inl level) col =
      filter_records_by_clearance records (Inl level) col"
proof -
  have "required \<le> level \<Longrightarrow> required \<le> max level level'" for required by (simp add: le_max_iff_disj)
  then show ?thesis
    by (auto simp: filter_records_eq clearance_permits_iff claim_level_def intro!: filter_cong)
qed

end
