(* ===== verification/Py_Time.thy ===== *)
theory Py_Time
  imports Py_Values
begin

text \<open>
  The parts of Python's \<open>datetime\<close> that the sources use: the proleptic Gregorian calendar,
  \<open>datetime.fromisoformat\<close> (the formats of Python 3.12, following the standard library's reference
  implementation), \<open>isoformat\<close> of instants in UTC and of their dates.  An instant is the number of
  microseconds since the Unix epoch.
\<close>

section \<open>The calendar\<close>

definition is_leap :: "int \<Rightarrow> bool" where
  "is_leap y = (y mod 4 = 0 \<and> (y mod 100 \<noteq> 0 \<or> y mod 400 = 0))"

definition days_in_month :: "int \<Rightarrow> int \<Rightarrow> int" where
  "days_in_month y m =
     (if m = 2 then (if is_leap y then 29 else 28) else if m \<in> {4, 6, 9, 11} then 30 else 31)"

definition days_before_year :: "int \<Rightarrow> int" where
  "days_before_year y = (let p = y - 1 in p * 365 + p div 4 - p div 100 + p div 400)"

definition days_before_month :: "int \<Rightarrow> int \<Rightarrow> int" where
  "days_before_month y m = sum_list (map (days_in_month y) (filter (\<lambda>k. k < m) [1 .. 12]))"

definition ymd2ord :: "int \<Rightarrow> int \<Rightarrow> int \<Rightarrow> int" where
  "ymd2ord y m d = days_before_year y + days_before_month y m + d"

text \<open>The month and the day of the zero-based day \<open>n\<close> of a year.\<close>

fun month_day :: "int \<Rightarrow> int \<Rightarrow> int list \<Rightarrow> int \<times> int" where
  "month_day y n [] = (12, n + 1)"
| "month_day y n (m # ms) =
     (if n < days_in_month y m \<or> ms = [] then (m, n + 1) else month_day y (n - days_in_month y m) ms)"

definition ord2ymd :: "int \<Rightarrow> int \<times> int \<times> int" where
  "ord2ymd n =
     (let n0 = n - 1; n400 = n0 div 146097; r400 = n0 mod 146097;
          n100 = r400 div 36524; r100 = r400 mod 36524;
          n4 = r100 div 1461; r4 = r100 mod 1461;
          n1 = r4 div 365; r1 = r4 mod 365;
          year = n400 * 400 + 1 + n100 * 100 + n4 * 4 + n1
      in if n1 = 4 \<or> n100 = 4 then (year - 1, 12, 31)
         else (let (m, d) = month_day year r1 [1 .. 12] in (year, m, d)))"

definition us_second :: int where "us_second = 1000000"
definition us_day :: int where "us_day = 86400000000"

text \<open>The ordinal of the epoch is 719163; years run from 1 to 9999.\<close>

definition min_instant :: int where "min_instant = - 719162 * us_day"
definition max_instant :: int where "max_instant = 2932897 * us_day - 1"

definition date_of :: "int \<Rightarrow> int \<times> int \<times> int" where
  "date_of t = ord2ymd (t div us_day + 719163)"

definition year_of :: "int \<Rightarrow> int" where
  "year_of t = fst (date_of t)"

text \<open>A number below \<open>10 ^ w\<close> with \<open>w\<close> digits: \<open>f"{n:0{w}d}"\<close>.\<close>

fun pad :: "nat \<Rightarrow> int \<Rightarrow> string" where
  "pad w n = (if w = 0 then [] else pad (w - 1) (n div 10) @ [char_of (48 + n mod 10)])"

declare pad.simps [simp del]

text \<open>\<open>t.date().isoformat()\<close> and \<open>t.isoformat()\<close> for an instant in UTC.\<close>

definition date_isoformat :: "int \<Rightarrow> string" where
  "date_isoformat t = (case date_of t of (y, m, d) \<Rightarrow> pad 4 y @ ''-'' @ pad 2 m @ ''-'' @ pad 2 d)"

definition isoformat :: "int \<Rightarrow> string" where
  "isoformat t =
     (let r = t mod us_day; s = r div us_second; us = r mod us_second
      in date_isoformat t @ ''T'' @ pad 2 (s div 3600) @ '':'' @ pad 2 (s div 60 mod 60) @ '':'' @ pad 2 (s mod 60) @
         (if us = 0 then [] else ''.'' @ pad 6 us) @ ''+00:00'')"

section \<open>fromisoformat\<close>

definition int_digits :: "string \<Rightarrow> int" where
  "int_digits s = foldl (\<lambda>v c. 10 * v + (int (code c) - 48)) 0 s"

text \<open>\<open>int(s[a:b])\<close> of exactly \<open>n\<close> decimal digits at the front of the text.\<close>

definition digits_at :: "nat \<Rightarrow> string \<Rightarrow> (int \<times> string) option" where
  "digits_at n s =
     (if n \<le> length s \<and> list_all is_digit (take n s) then Some (int_digits (take n s), drop n s) else None)"

definition bindO :: "'a option \<Rightarrow> ('a \<Rightarrow> 'b option) \<Rightarrow> 'b option" where
  "bindO x f = (case x of None \<Rightarrow> None | Some y \<Rightarrow> f y)"

text \<open>Where the date ends and the separator stands.\<close>

definition find_separator :: "string \<Rightarrow> nat option" where
  "find_separator s =
     (let n = length s; digit = (\<lambda>i. i < n \<and> is_digit (s ! i)) in
      if n < 7 then None
      else if n = 7 then Some 7
      else if s ! 4 = CHR ''-'' then
        (if s ! 5 = CHR ''W'' then
          (if 8 < n \<and> s ! 8 = CHR ''-'' then
             (if n = 9 then None else if 10 < n \<and> digit 10 then Some 8 else Some 10)
           else Some 8)
         else Some 10)
      else if s ! 4 = CHR ''W'' then
        (let i = 7 + length (takeWhile is_digit (drop 7 s))
         in if i < 9 then Some i else if even i then Some 7 else Some 8)
      else Some 8)"

definition isoweek_days :: "int \<Rightarrow> int \<Rightarrow> int \<Rightarrow> int option" where
  "isoweek_days year week day =
     (let jan1 = ymd2ord year 1 1; wd = (jan1 + 6) mod 7;
          out = (week = 0 \<or> 53 < week \<or> (week = 53 \<and> \<not> (wd = 3 \<or> (wd = 2 \<and> is_leap year))));
          monday = (if wd \<le> 3 then jan1 - wd else jan1 + (7 - wd))
      in if year = 0 \<or> 9999 < year \<or> out \<or> day = 0 \<or> 7 < day then None else Some (monday + (week - 1) * 7 + (day - 1)))"

text \<open>The ordinal of the date part.\<close>

definition parse_date :: "string \<Rightarrow> int option" where
  "parse_date s =
     (if length s \<notin> {7, 8, 10} then None else
      bindO (digits_at 4 s) (\<lambda>(year, r).
      let has_sep = prefix ''-'' r; r1 = (if has_sep then drop 1 r else r)
      in if prefix ''W'' r1
         then bindO (digits_at 2 (drop 1 r1)) (\<lambda>(week, r2).
              if r2 = [] then isoweek_days year week 1
              else if prefix ''-'' r2 \<noteq> has_sep then None
              else bindO (digits_at 1 (if has_sep then drop 1 r2 else r2)) (\<lambda>(day, r3).
                   if r3 = [] then isoweek_days year week day else None))
         else bindO (digits_at 2 r1) (\<lambda>(month, r2).
              if prefix ''-'' r2 \<noteq> has_sep then None
              else bindO (digits_at 2 (if has_sep then drop 1 r2 else r2)) (\<lambda>(day, r3).
                   if r3 = [] \<and> 1 \<le> year \<and> 1 \<le> month \<and> month \<le> 12 \<and> 1 \<le> day \<and> day \<le> days_in_month year month
                   then Some (ymd2ord year month day) else None))))"

text \<open>The fraction: up to six digits count, the rest must be digits.\<close>

definition parse_fraction :: "string \<Rightarrow> int option" where
  "parse_fraction r =
     (case r of [] \<Rightarrow> Some 0
      | c # f \<Rightarrow> if (c = CHR ''.'' \<or> c = CHR '','') \<and> f \<noteq> [] \<and> list_all is_digit f
                 then Some (int_digits (take 6 f) * 10 ^ (6 - min 6 (length f))) else None)"

definition parse_hms :: "string \<Rightarrow> (int \<times> int \<times> int \<times> int) option" where
  "parse_hms s =
     bindO (digits_at 2 s) (\<lambda>(h, r).
     let sep = prefix '':'' r
     in if r = [] then Some (h, 0, 0, 0)
        else bindO (digits_at 2 (if sep then drop 1 r else r)) (\<lambda>(m, r2).
          if r2 = [] then Some (h, m, 0, 0)
          else if sep \<and> \<not> prefix '':'' r2 then None
          else bindO (digits_at 2 (if sep then drop 1 r2 else r2)) (\<lambda>(sec, r3).
            bindO (parse_fraction r3) (\<lambda>us. Some (h, m, sec, us)))))"

definition hms_us :: "int \<times> int \<times> int \<times> int \<Rightarrow> int" where
  "hms_us t = (case t of (h, m, s, us) \<Rightarrow> ((h * 60 + m) * 60 + s) * 1000000 + us)"

text \<open>The time part: microseconds of the day, and the UTC offset if there is one.\<close>

definition parse_time :: "string \<Rightarrow> (int \<times> int option) option" where
  "parse_time s =
     (let cut = (\<lambda>c. if c \<in> set s then Some (length (takeWhile (\<lambda>x. x \<noteq> c) s)) else None);
          pos = (case cut (CHR ''-'') of Some i \<Rightarrow> Some i | None \<Rightarrow>
                 (case cut (CHR ''+'') of Some i \<Rightarrow> Some i | None \<Rightarrow> cut (CHR ''Z'')))
      in if length s < 2 then None else
      bindO (parse_hms (case pos of None \<Rightarrow> s | Some i \<Rightarrow> take i s)) (\<lambda>(h, m, sec, us).
      if \<not> (h < 24 \<and> m < 60 \<and> sec < 60) then None
      else case pos of
        None \<Rightarrow> Some (hms_us (h, m, sec, us), None)
      | Some i \<Rightarrow>
          (if i + 1 = length s \<and> s ! i = CHR ''Z'' then Some (hms_us (h, m, sec, us), Some 0)
           else if length (drop (i + 1) s) \<in> {0, 1, 3} then None
           else bindO (parse_hms (drop (i + 1) s)) (\<lambda>z.
             let off = (if s ! i = CHR ''-'' then - hms_us z else hms_us z)
             in if \<bar>off\<bar> < us_day then Some (hms_us (h, m, sec, us), Some off) else None))))"

text \<open>The local time as microseconds since the epoch, and the offset.\<close>

definition fromisoformat :: "string \<Rightarrow> (int \<times> int option) res" where
  "fromisoformat s =
     require_some
       (bindO (find_separator s) (\<lambda>i.
        bindO (parse_date (take i s)) (\<lambda>n.
        let t = drop (i + 1) s; base = (n - 719163) * us_day
        in if t = [] then Some (base, None)
           else bindO (parse_time t) (\<lambda>(us, off). Some (base + us, off)))))
       ValueError ''Invalid isoformat string''"

text \<open>\<open>t.astimezone(UTC)\<close>.\<close>

definition astimezone_utc :: "int \<Rightarrow> int \<Rightarrow> int res" where
  "astimezone_utc local off =
     (let t = local - off
      in bindR (guard (min_instant \<le> t \<and> t \<le> max_instant) OverflowError ''date value out of range'') (\<lambda>_. Inr t))"

end
