(* ===== verification/Segregation.thy ===== *)
theory Segregation
  imports Py_Text Py_Values
begin

text \<open>
  \<open>segregation.py\<close>: the lakehouse scopes, their topic namespaces and classifications, the mapping
  of canonical classifications, the URI boundary and the scope-bound writer.
\<close>

section \<open>Scopes and their tables\<close>

datatype lakehouse_scope = PLATFORM | CVFF | SEAFARER | FISHERIES | ISR | MRV | BLUECARBON

fun scope_value :: "lakehouse_scope \<Rightarrow> string" where
  "scope_value PLATFORM = ''platform''"
| "scope_value CVFF = ''cvff''"
| "scope_value SEAFARER = ''seafarer''"
| "scope_value FISHERIES = ''fisheries''"
| "scope_value ISR = ''isr''"
| "scope_value MRV = ''mrv''"
| "scope_value BLUECARBON = ''bluecarbon''"

definition layer_prefix :: "lakehouse_scope \<Rightarrow> string" where
  "layer_prefix s = scope_value s"

text \<open>The members in declaration order, and \<open>LakehouseScope(value)\<close>.\<close>

definition all_scopes :: "lakehouse_scope list" where
  "all_scopes = [PLATFORM, CVFF, SEAFARER, FISHERIES, ISR, MRV, BLUECARBON]"

definition lakehouse_scope_of :: "string \<Rightarrow> lakehouse_scope res" where
  "lakehouse_scope_of v =
     require_some (List.find (\<lambda>s. scope_value s = v) all_scopes) ValueError ''is not a valid LakehouseScope''"

definition SEGREGATED_SCOPES :: "lakehouse_scope list" where
  "SEGREGATED_SCOPES = [CVFF, SEAFARER, FISHERIES, ISR, MRV, BLUECARBON]"

definition SCOPE_TOPIC_PREFIXES :: "(lakehouse_scope \<times> string list) list" where
  "SCOPE_TOPIC_PREFIXES =
     [(PLATFORM, [''ports.'', ''ferries.'', ''vessels.'', ''stamps.'']),
      (CVFF, [''cvff.'']),
      (SEAFARER, [''seafarer.'']),
      (FISHERIES, [''fisheries.'', ''coldchain.'', ''export.'']),
      (ISR, [''maritime.isr.'', ''maritime.behaviour.'', ''maritime.outcome.'']),
      (MRV, [''mrv.'']),
      (BLUECARBON, [''bluecarbon.''])]"

definition SCOPE_CLASSIFICATIONS :: "(lakehouse_scope \<times> string list) list" where
  "SCOPE_CLASSIFICATIONS =
     [(PLATFORM, [''public'', ''internal'', ''confidential'', ''restricted'', ''highly_restricted'']),
      (CVFF, [''fiduciary_segregated'']),
      (SEAFARER, [''seafarer_confidential'']),
      (FISHERIES, [''fisheries_operational'']),
      (ISR, [''isr_classified'']),
      (MRV, [''mrv_confidential'']),
      (BLUECARBON, [''bluecarbon_internal''])]"

section \<open>First-match routing\<close>

text \<open>
  \<open>scope_for_classification\<close>, \<open>scope_for_event_type\<close> and \<open>scope_for_topic\<close> are one loop: the first
  scope of a table one of whose patterns accepts the text.
\<close>

definition route :: "(string \<Rightarrow> string \<Rightarrow> bool) \<Rightarrow> (lakehouse_scope \<times> string list) list
    \<Rightarrow> string \<Rightarrow> lakehouse_scope option" where
  "route accepts table text =
     map_option fst (List.find (\<lambda>(scope, pats). list_ex (\<lambda>p. accepts p text) pats) table)"

definition scope_for_classification :: "string \<Rightarrow> lakehouse_scope res" where
  "scope_for_classification c =
     require_some (route (\<lambda>p t. p = t) SCOPE_CLASSIFICATIONS c)
       BoundaryViolationError ''data_classification is not mapped to any lakehouse scope''"

definition scope_for_event_type :: "string \<Rightarrow> lakehouse_scope res" where
  "scope_for_event_type t =
     require_some (route prefix SCOPE_TOPIC_PREFIXES t)
       BoundaryViolationError ''eventType is outside the governed event namespaces''"

definition scope_for_topic :: "string \<Rightarrow> lakehouse_scope res" where
  "scope_for_topic t =
     require_some (route prefix SCOPE_TOPIC_PREFIXES t)
       BoundaryViolationError ''Kafka topic is outside the governed namespaces''"

section \<open>Canonical classifications\<close>

definition CANONICAL_CLASSIFICATIONS :: "string list" where
  "CANONICAL_CLASSIFICATIONS =
     [''FIDUCIARY_SEGREGATED'', ''CONFIDENTIAL'', ''RESTRICTED'', ''INTERNAL'', ''PUBLIC'']"

definition CANONICAL_TO_PLATFORM_LABEL :: "(string \<times> string) list" where
  "CANONICAL_TO_PLATFORM_LABEL =
     [(''PUBLIC'', ''public''), (''INTERNAL'', ''internal''),
      (''CONFIDENTIAL'', ''confidential''), (''RESTRICTED'', ''restricted'')]"

text \<open>The handler of \<open>BoundaryViolationError\<close> turns an ungoverned event type into the platform scope.\<close>

definition effective_scope :: "string \<Rightarrow> lakehouse_scope" where
  "effective_scope event_type =
     (case scope_for_event_type event_type of Inl e \<Rightarrow> PLATFORM | Inr s \<Rightarrow> s)"

definition map_canonical_classification :: "string \<Rightarrow> string \<Rightarrow> string res" where
  "map_canonical_classification classification event_type =
     bindR (guard (classification \<in> set CANONICAL_CLASSIFICATIONS) BoundaryViolationError
              ''canonical classification is not in the platform vocabulary'') (\<lambda>_.
     if classification = ''FIDUCIARY_SEGREGATED''
     then bindR (scope_for_event_type event_type) (\<lambda>scope.
          bindR (guard (scope = CVFF) BoundaryViolationError
              ''FIDUCIARY_SEGREGATED event type is outside the cvff boundary'') (\<lambda>_.
          Inr ''fiduciary_segregated''))
     else (case effective_scope event_type of
            CVFF \<Rightarrow> raise BoundaryViolationError ''cvff event type must be classified FIDUCIARY_SEGREGATED''
          | SEAFARER \<Rightarrow> Inr ''seafarer_confidential''
          | FISHERIES \<Rightarrow> Inr ''fisheries_operational''
          | ISR \<Rightarrow> Inr ''isr_classified''
          | MRV \<Rightarrow> Inr ''mrv_confidential''
          | BLUECARBON \<Rightarrow> Inr ''bluecarbon_internal''
          | PLATFORM \<Rightarrow> require_some (map_of CANONICAL_TO_PLATFORM_LABEL classification) KeyError classification))"

section \<open>The URI boundary\<close>

text \<open>
  \<open>re.compile(rf"^{value}($|[_-])").match(component)\<close>: the value, then the end of the text, a
  newline that ends the text, an underscore or a hyphen.
\<close>

definition root_component_match :: "lakehouse_scope \<Rightarrow> string \<Rightarrow> bool" where
  "root_component_match s component =
     (prefix (scope_value s) component \<and>
      (let rest = drop (length (scope_value s)) component
       in rest = [] \<or> rest = [CHR 0x0A] \<or> hd rest = CHR ''_'' \<or> hd rest = CHR ''-''))"

definition path_components :: "string \<Rightarrow> string list" where
  "path_components path = filter (\<lambda>c. c \<noteq> []) (split_on (CHR ''/'') path)"

definition components_declare :: "string list \<Rightarrow> lakehouse_scope set" where
  "components_declare comps =
     set (filter (\<lambda>s. list_ex (root_component_match s) comps) SEGREGATED_SCOPES)"

definition scopes_declared_by_uri :: "string \<Rightarrow> lakehouse_scope set res" where
  "scopes_declared_by_uri table_uri =
     bindR (urlsplit table_uri) (\<lambda>p. Inr (components_declare (path_components (url_path p))))"

definition uri_declares_cvff_root :: "string \<Rightarrow> bool res" where
  "uri_declares_cvff_root table_uri =
     bindR (scopes_declared_by_uri table_uri) (\<lambda>d. Inr (CVFF \<in> d))"

record lakehouse_roots =
  roots_scope :: lakehouse_scope
  roots_bronze :: string
  roots_silver :: string
  roots_gold :: string

definition for_layer :: "lakehouse_roots \<Rightarrow> string \<Rightarrow> string res" where
  "for_layer roots layer =
     require_some (map_of [(''bronze'', roots_bronze roots), (''silver'', roots_silver roots),
                           (''gold'', roots_gold roots)] layer)
       BoundaryViolationError ''unknown medallion layer''"

definition build_lakehouse_roots :: "lakehouse_scope \<Rightarrow> string \<Rightarrow> lakehouse_roots res" where
  "build_lakehouse_roots scope scope_root_uri =
     bindR (guard (canonical scope_root_uri) BoundaryViolationError
              ''scope root URI must be canonical non-empty text'') (\<lambda>_.
     let root = rstrip_char (CHR ''/'') scope_root_uri;
         terminal = after_last (CHR ''/'') root;
         terminal_scopes = components_declare [terminal];
         p = layer_prefix scope
     in bindR (if scope = PLATFORM
               then guard (terminal_scopes = {}) BoundaryViolationError
                      ''platform scope root must not terminate in a segregated scope path component''
               else guard (terminal_scopes = {scope}) BoundaryViolationError
                      ''scope root must terminate in its own path component'') (\<lambda>_.
        Inr \<lparr>roots_scope = scope,
             roots_bronze = root @ ''/'' @ p @ ''_bronze/events'',
             roots_silver = root @ ''/'' @ p @ ''_silver/events'',
             roots_gold = root @ ''/'' @ p @ ''_gold/events''\<rparr>))"

definition require_scope_table_uri :: "lakehouse_scope \<Rightarrow> string \<Rightarrow> unit res" where
  "require_scope_table_uri scope table_uri =
     bindR (scopes_declared_by_uri table_uri) (\<lambda>declared.
     if scope = PLATFORM
     then guard (declared = {}) BoundaryViolationError
            ''platform writer cannot target: segregated root component present''
     else guard (declared = {scope}) BoundaryViolationError
            ''URI must declare the scope root component and no other segregated scope root'')"

text \<open>\<open>NAMED_TABLE_PATTERN.fullmatch(table_name)\<close>.\<close>

definition named_table_pattern :: "string \<Rightarrow> bool" where
  "named_table_pattern n =
     (case n of [] \<Rightarrow> False
      | c # cs \<Rightarrow> is_lower c \<and> length cs \<le> 63 \<and> list_all (\<lambda>x. is_lower x \<or> is_digit x \<or> x = CHR ''_'') cs)"

definition scope_layer_table_uri :: "lakehouse_scope \<Rightarrow> string \<Rightarrow> string \<Rightarrow> string \<Rightarrow> string res" where
  "scope_layer_table_uri scope scope_root_uri layer table_name =
     bindR (guard (named_table_pattern table_name) BoundaryViolationError
              ''named table is not a governed table name'') (\<lambda>_.
     bindR (build_lakehouse_roots scope scope_root_uri) (\<lambda>roots.
     bindR (for_layer roots layer) (\<lambda>layer_uri.
     let uri = before_last (CHR ''/'') layer_uri @ ''/'' @ table_name
     in bindR (require_scope_table_uri scope uri) (\<lambda>_. Inr uri))))"

section \<open>Event and topic scope\<close>

definition event_in_scope :: "lakehouse_scope \<Rightarrow> row \<Rightarrow> unit res" where
  "event_in_scope scope event =
     bindR (require_some (cell_text (row_get event ''data_classification'')) BoundaryViolationError
              ''event is missing a string data_classification'') (\<lambda>classification.
     bindR (scope_for_classification classification) (\<lambda>event_scope.
     guard (event_scope = scope) BoundaryViolationError ''writer cannot accept event''))"

definition enforce_event_scope :: "row list \<Rightarrow> lakehouse_scope \<Rightarrow> unit res" where
  "enforce_event_scope events scope = bindR (mapR (event_in_scope scope) events) (\<lambda>_. Inr ())"

definition enforce_topic_scope :: "string \<Rightarrow> lakehouse_scope \<Rightarrow> unit res" where
  "enforce_topic_scope topic scope =
     bindR (scope_for_topic topic) (\<lambda>topic_scope.
     guard (topic_scope = scope) BoundaryViolationError ''writer cannot consume topic'')"

section \<open>The scope-bound writer\<close>

text \<open>\<open>SegregatedDeltaWriter\<close> holds the roots it built at initialisation and nothing else.\<close>

record delta_writer =
  writer_roots :: lakehouse_roots

definition new_writer :: "lakehouse_scope \<Rightarrow> string \<Rightarrow> delta_writer res" where
  "new_writer scope scope_root_uri =
     bindR (build_lakehouse_roots scope scope_root_uri) (\<lambda>roots. Inr \<lparr>writer_roots = roots\<rparr>)"

definition writer_scope :: "delta_writer \<Rightarrow> lakehouse_scope" where
  "writer_scope w = roots_scope (writer_roots w)"

definition table_uri :: "delta_writer \<Rightarrow> string \<Rightarrow> string res" where
  "table_uri w layer =
     bindR (for_layer (writer_roots w) layer) (\<lambda>uri.
     bindR (require_scope_table_uri (writer_scope w) uri) (\<lambda>_. Inr uri))"

definition guard_write :: "delta_writer \<Rightarrow> string \<Rightarrow> row list \<Rightarrow> string option \<Rightarrow> string res" where
  "guard_write w layer events kafka_topic =
     bindR (guard (events \<noteq> []) BoundaryViolationError ''refusing to write an empty event batch'') (\<lambda>_.
     bindR (table_uri w layer) (\<lambda>target_uri.
     bindR (case kafka_topic of None \<Rightarrow> Inr () | Some t \<Rightarrow> enforce_topic_scope t (writer_scope w)) (\<lambda>_.
     bindR (enforce_event_scope events (writer_scope w)) (\<lambda>_.
     Inr target_uri))))"


section \<open>Routing tables\<close>

text \<open>
  The contract of a routing table: no text is accepted by the patterns of two scopes.  Then the
  first match is the only match, and the order of the table does not matter.
\<close>

locale routing =
  fixes accepts :: "string \<Rightarrow> string \<Rightarrow> bool"
    and table :: "(lakehouse_scope \<times> string list) list"
  assumes exclusive:
    "(s, ps) \<in> set table \<Longrightarrow> (s', ps') \<in> set table \<Longrightarrow> p \<in> set ps \<Longrightarrow> p' \<in> set ps' \<Longrightarrow>
     accepts p t \<Longrightarrow> accepts p' t \<Longrightarrow> s = s'"
begin

lemma route_Some_iff:
  "route accepts table t = Some s \<longleftrightarrow> (\<exists>ps. (s, ps) \<in> set table \<and> (\<exists>p\<in>set ps. accepts p t))"
proof
  assume "route accepts table t = Some s"
  then show "\<exists>ps. (s, ps) \<in> set table \<and> (\<exists>p\<in>set ps. accepts p t)"
    by (auto simp: route_def list_ex_iff dest!: find_SomeD)
next
  assume "\<exists>ps. (s, ps) \<in> set table \<and> (\<exists>p\<in>set ps. accepts p t)"
  then obtain ps p where m: "(s, ps) \<in> set table" "p \<in> set ps" "accepts p t" by blast
  then have "List.find (\<lambda>(scope, pats). list_ex (\<lambda>p. accepts p t) pats) table \<noteq> None"
    by (auto simp: find_None_iff list_ex_iff)
  then obtain s' ps' where f: "List.find (\<lambda>(scope, pats). list_ex (\<lambda>p. accepts p t) pats) table = Some (s', ps')"
    by auto
  then obtain p' where "(s', ps') \<in> set table" "p' \<in> set ps'" "accepts p' t"
    by (auto simp: list_ex_iff dest!: find_SomeD)
  with m have "s' = s" by (blast dest: exclusive)
  with f show "route accepts table t = Some s" by (simp add: route_def)
qed

lemma route_None_iff:
  "route accepts table t = None \<longleftrightarrow> (\<forall>(s, ps)\<in>set table. \<forall>p\<in>set ps. \<not> accepts p t)"
  by (auto simp: route_def find_None_iff list_ex_iff)

lemma route_order:
  assumes "set table' = set table"
  shows "route accepts table' t = route accepts table t"
proof (cases "route accepts table t")
  case None
  then have "route accepts table' t = None"
    by (auto simp: route_None_iff route_def find_None_iff list_ex_iff assms)
  with None show ?thesis by simp
next
  case (Some s)
  then obtain ps p where "(s, ps) \<in> set table'" "p \<in> set ps" "accepts p t"
    by (auto simp: route_Some_iff assms)
  then have "route accepts table' t \<noteq> None"
    by (auto simp: route_def find_None_iff list_ex_iff)
  then obtain s' where s': "route accepts table' t = Some s'" by blast
  then obtain ps' where "(s', ps') \<in> set table" "\<exists>p\<in>set ps'. accepts p t"
    by (fastforce simp: route_def list_ex_iff assms dest!: find_SomeD)
  then have "route accepts table t = Some s'" by (auto simp: route_Some_iff assms)
  with Some s' show ?thesis by simp
qed

end

lemma topic_prefixes_exclusive:
  assumes "(s, ps) \<in> set SCOPE_TOPIC_PREFIXES" "(s', ps') \<in> set SCOPE_TOPIC_PREFIXES"
    "p \<in> set ps" "p' \<in> set ps'" "s \<noteq> s'"
  shows "\<not> prefix p p' \<and> \<not> prefix p' p"
proof -
  have "list_all (\<lambda>(s, ps). list_all (\<lambda>(s', ps'). s = s' \<or>
          list_all (\<lambda>p. list_all (\<lambda>p'. \<not> prefix p p' \<and> \<not> prefix p' p) ps') ps)
        SCOPE_TOPIC_PREFIXES) SCOPE_TOPIC_PREFIXES"
    by (simp add: SCOPE_TOPIC_PREFIXES_def)
  with assms show ?thesis by (fastforce simp: list_all_iff)
qed

interpretation topic_routes: routing prefix SCOPE_TOPIC_PREFIXES
  by unfold_locales (meson prefix_same_cases topic_prefixes_exclusive)

interpretation class_routes: routing "\<lambda>p t. p = t" SCOPE_CLASSIFICATIONS
proof
  fix s ps s' ps' and p p' t :: string
  assume m: "(s, ps) \<in> set SCOPE_CLASSIFICATIONS" "(s', ps') \<in> set SCOPE_CLASSIFICATIONS"
    "p \<in> set ps" "p' \<in> set ps'" "p = t" "p' = t"
  have "list_all (\<lambda>(s, ps). list_all (\<lambda>(s', ps'). s = s' \<or> list_all (\<lambda>p. p \<notin> set ps') ps)
        SCOPE_CLASSIFICATIONS) SCOPE_CLASSIFICATIONS"
    by (simp add: SCOPE_CLASSIFICATIONS_def)
  with m show "s = s'" by (fastforce simp: list_all_iff)
qed

text \<open>A topic and an event type are routed by the same table, so they agree on the same text.\<close>

lemma scope_for_topic_event_type:
  "(scope_for_topic t = Inr s) = (scope_for_event_type t = Inr s)"
  by (simp add: scope_for_topic_def scope_for_event_type_def)

lemma scope_for_event_type_iff:
  "scope_for_event_type t = Inr s \<longleftrightarrow>
     (\<exists>ps. (s, ps) \<in> set SCOPE_TOPIC_PREFIXES \<and> (\<exists>p\<in>set ps. prefix p t))"
  by (simp add: scope_for_event_type_def topic_routes.route_Some_iff)

lemma scope_for_classification_iff:
  "scope_for_classification c = Inr s \<longleftrightarrow>
     (\<exists>ps. (s, ps) \<in> set SCOPE_CLASSIFICATIONS \<and> c \<in> set ps)"
  by (auto simp: scope_for_classification_def class_routes.route_Some_iff)

section \<open>Canonical classification lemmas\<close>

definition internal_label_scope :: "string \<Rightarrow> lakehouse_scope option" where
  "internal_label_scope l = route (\<lambda>p t. p = t) SCOPE_CLASSIFICATIONS l"

lemma internal_label_scope_simps [simp]:
  "internal_label_scope ''fiduciary_segregated'' = Some CVFF"
  "internal_label_scope ''seafarer_confidential'' = Some SEAFARER"
  "internal_label_scope ''fisheries_operational'' = Some FISHERIES"
  "internal_label_scope ''isr_classified'' = Some ISR"
  "internal_label_scope ''mrv_confidential'' = Some MRV"
  "internal_label_scope ''bluecarbon_internal'' = Some BLUECARBON"
  "internal_label_scope ''public'' = Some PLATFORM"
  "internal_label_scope ''internal'' = Some PLATFORM"
  "internal_label_scope ''confidential'' = Some PLATFORM"
  "internal_label_scope ''restricted'' = Some PLATFORM"
  by (simp_all add: internal_label_scope_def route_def SCOPE_CLASSIFICATIONS_def)

lemma scope_for_classification_label:
  "(scope_for_classification l = Inr s) = (internal_label_scope l = Some s)"
  by (simp add: scope_for_classification_def internal_label_scope_def)

lemma platform_label_cases:
  "map_of CANONICAL_TO_PLATFORM_LABEL c = Some l \<Longrightarrow>
     internal_label_scope l = Some PLATFORM \<and> c \<noteq> ''FIDUCIARY_SEGREGATED''"
  by (auto simp: CANONICAL_TO_PLATFORM_LABEL_def split: if_splits)

lemma effective_scope_Inr: "scope_for_event_type t = Inr s \<Longrightarrow> effective_scope t = s"
  by (simp add: effective_scope_def)

lemma map_canonical_label_scope:
  assumes "map_canonical_classification c t = Inr l"
  shows "internal_label_scope l = Some (effective_scope t) \<and>
         (effective_scope t = CVFF \<longleftrightarrow> c = ''FIDUCIARY_SEGREGATED'')"
proof (cases "c = ''FIDUCIARY_SEGREGATED''")
  case True
  with assms show ?thesis
    by (auto simp: map_canonical_classification_def res_simps dest: effective_scope_Inr)
next
  case False
  with assms show ?thesis
    by (cases "effective_scope t")
       (auto simp: map_canonical_classification_def res_simps dest: platform_label_cases)
qed

section \<open>Boundary lemmas\<close>

lemma path_components_append:
  "path_components (p @ CHR ''/'' # t) = path_components p @ path_components t"
  by (simp add: path_components_def split_on_append_sep)

lemma path_components_extend:
  "s = [] \<or> hd s = CHR ''/'' \<Longrightarrow> \<exists>cs. path_components (p @ s) = path_components p @ cs"
  by (cases s) (auto simp: path_components_append)

lemma components_declare_append:
  "components_declare (cs @ ds) = components_declare cs \<union> components_declare ds"
  by (auto simp: components_declare_def list_ex_iff)

lemma components_declare_Nil [simp]: "components_declare [] = {}"
  by (simp add: components_declare_def)

lemma components_declare_not_platform [simp]: "PLATFORM \<notin> components_declare cs"
  by (simp add: components_declare_def SEGREGATED_SCOPES_def)

lemma require_scope_iff:
  "require_scope_table_uri s u = Inr () \<longleftrightarrow>
     scopes_declared_by_uri u = Inr (if s = PLATFORM then {} else {s})"
  by (auto simp: require_scope_table_uri_def res_simps)

lemma require_scope_unique:
  "require_scope_table_uri s u = Inr () \<Longrightarrow> require_scope_table_uri s' u = Inr () \<Longrightarrow> s = s'"
  by (auto simp: require_scope_iff split: if_splits)

lemma require_scope_extend:
  assumes u: "u = r @ CHR ''/'' # a @ CHR ''/'' # b" "a \<noteq> []" "list_all plain_segment_char a"
    and s: "s \<noteq> PLATFORM" "require_scope_table_uri s u = Inr ()"
    and s': "require_scope_table_uri s' (u @ CHR ''/'' # t) = Inr ()"
  shows "s' = s"
proof -
  from s obtain p where p: "urlsplit u = Inr p" "components_declare (path_components (url_path p)) = {s}"
    by (auto simp: require_scope_iff scopes_declared_by_uri_def res_simps)
  from s' obtain p' where p': "urlsplit (u @ CHR ''/'' # t) = Inr p'"
    "components_declare (path_components (url_path p')) = (if s' = PLATFORM then {} else {s'})"
    by (auto simp: require_scope_iff scopes_declared_by_uri_def res_simps)
  from urlsplit_extend [OF u p(1) p'(1)] obtain cs
    where "path_components (url_path p') = path_components (url_path p) @ cs"
    using path_components_extend by metis
  with p(2) p'(2) have "s \<in> (if s' = PLATFORM then {} else {s'})"
    by (metis UnI1 components_declare_append singletonI)
  then show ?thesis by (auto split: if_splits)
qed

lemma scope_value_plain: "list_all plain_segment_char (scope_value s)"
  by (cases s) (simp_all add: plain_segment_char_def plain_url_char_def code_def)

lemma scope_value_not_Nil [simp]: "scope_value s \<noteq> []"
  by (cases s) simp_all

text \<open>Every URI the writers resolve ends in a layer directory and a table name.\<close>

definition layer_shaped :: "string \<Rightarrow> bool" where
  "layer_shaped u = (\<exists>r a b. u = r @ CHR ''/'' # a @ CHR ''/'' # b \<and> a \<noteq> [] \<and> list_all plain_segment_char a)"

lemma layer_shapedI:
  "a \<noteq> [] \<Longrightarrow> list_all plain_segment_char a \<Longrightarrow> layer_shaped (r @ CHR ''/'' # a @ CHR ''/'' # b)"
  by (auto simp: layer_shaped_def)

text \<open>
  The contract of everything that resolves a table URI for a scope: the boundary check was
  passed, and the URI lies in a layer directory.  Its clients get isolation: two scopes
  never resolve one URI, and no table of another scope lies below a segregated scope's table.
\<close>

locale scoped_uris =
  fixes resolve :: "'k \<Rightarrow> string res" and owner :: "'k \<Rightarrow> lakehouse_scope"
  assumes resolve_checked: "resolve k = Inr u \<Longrightarrow> require_scope_table_uri (owner k) u = Inr ()"
    and resolve_shaped: "resolve k = Inr u \<Longrightarrow> layer_shaped u"
begin

lemma isolated: "resolve k = Inr u \<Longrightarrow> resolve k' = Inr u \<Longrightarrow> owner k = owner k'"
  by (blast dest: resolve_checked require_scope_unique)

lemma same_owner_of_checked:
  "resolve k = Inr u \<Longrightarrow> require_scope_table_uri s u = Inr () \<Longrightarrow> owner k = s"
  by (blast dest: resolve_checked require_scope_unique)

lemma not_nested:
  assumes "resolve k = Inr u" "owner k \<noteq> PLATFORM" "require_scope_table_uri s (u @ CHR ''/'' # t) = Inr ()"
  shows "s = owner k"
proof -
  from assms(1) obtain r a b where "u = r @ CHR ''/'' # a @ CHR ''/'' # b" "a \<noteq> []" "list_all plain_segment_char a"
    using resolve_shaped layer_shaped_def by blast
  with assms show ?thesis by (blast intro: require_scope_extend resolve_checked)
qed

end

lemma build_roots_iff:
  "build_lakehouse_roots s base = Inr roots \<longleftrightarrow>
     canonical base \<and>
     components_declare [after_last (CHR ''/'') (rstrip_char (CHR ''/'') base)] = (if s = PLATFORM then {} else {s}) \<and>
     roots = \<lparr>roots_scope = s,
       roots_bronze = rstrip_char (CHR ''/'') base @ ''/'' @ scope_value s @ ''_bronze/events'',
       roots_silver = rstrip_char (CHR ''/'') base @ ''/'' @ scope_value s @ ''_silver/events'',
       roots_gold = rstrip_char (CHR ''/'') base @ ''/'' @ scope_value s @ ''_gold/events''\<rparr>"
  (is "_ \<longleftrightarrow> ?c \<and> ?d = ?t \<and> roots = ?r")
proof -
  have "build_lakehouse_roots s base =
     (if ?c then if ?d = ?t then Inr ?r else raise BoundaryViolationError
       (if s = PLATFORM then ''platform scope root must not terminate in a segregated scope path component''
        else ''scope root must terminate in its own path component'')
      else raise BoundaryViolationError ''scope root URI must be canonical non-empty text'')"
    by (simp only: build_lakehouse_roots_def layer_prefix_def Let_def guard_def bindR_raise bindR.simps split: if_split) blast
  then show ?thesis by (simp only: split: if_split) (simp only: sum.inject raise_neq_Inr, blast)
qed

lemma build_roots_layers:
  assumes "build_lakehouse_roots s base = Inr roots" "for_layer roots layer = Inr u"
  shows "\<exists>r a. u = r @ CHR ''/'' # a @ CHR ''/'' # ''events'' \<and> a \<noteq> [] \<and> list_all plain_segment_char a"
proof -
  from assms have "\<exists>l\<in>set [''_bronze'', ''_silver'', ''_gold''].
      u = rstrip_char (CHR ''/'') base @ CHR ''/'' # (scope_value s @ l) @ CHR ''/'' # ''events''"
    by (auto simp: build_roots_iff for_layer_def split: if_splits)
  then obtain l where l: "l \<in> set [''_bronze'', ''_silver'', ''_gold'']"
    and u: "u = rstrip_char (CHR ''/'') base @ CHR ''/'' # (scope_value s @ l) @ CHR ''/'' # ''events''" by blast
  from l have "list_all plain_segment_char l"
    by (auto simp: plain_segment_char_def plain_url_char_def code_def)
  with scope_value_plain have "list_all plain_segment_char (scope_value s @ l)" by simp
  moreover have "scope_value s @ l \<noteq> []" by simp
  ultimately show ?thesis using u by blast
qed

lemma build_roots_scope: "build_lakehouse_roots s base = Inr roots \<Longrightarrow> roots_scope roots = s"
  by (simp only: build_roots_iff lakehouse_roots.simps)

text \<open>The writers reachable through the constructor.\<close>

definition writer_uri :: "(lakehouse_scope \<times> string) \<times> string \<Rightarrow> string res" where
  "writer_uri k = bindR (new_writer (fst (fst k)) (snd (fst k))) (\<lambda>w. table_uri w (snd k))"

lemma new_writer_scope: "new_writer s base = Inr w \<Longrightarrow> writer_scope w = s"
  by (auto simp: new_writer_def writer_scope_def res_simps dest: build_roots_scope)

interpretation writer_uris: scoped_uris writer_uri "\<lambda>k. fst (fst k)"
proof
  fix k u assume "writer_uri k = Inr u"
  then obtain roots where b: "build_lakehouse_roots (fst (fst k)) (snd (fst k)) = Inr roots"
    and l: "for_layer roots (snd k) = Inr u" and c: "require_scope_table_uri (roots_scope roots) u = Inr ()"
    by (auto simp: writer_uri_def new_writer_def table_uri_def writer_scope_def res_simps)
  from c build_roots_scope [OF b] show "require_scope_table_uri (fst (fst k)) u = Inr ()" by simp
  from build_roots_layers [OF b l] show "layer_shaped u" by (auto simp: layer_shaped_def)
qed

definition named_table_uri :: "lakehouse_scope \<times> string \<times> string \<times> string \<Rightarrow> string res" where
  "named_table_uri k = (case k of (s, base, layer, name) \<Rightarrow> scope_layer_table_uri s base layer name)"

interpretation named_uris: scoped_uris named_table_uri fst
proof
  fix k u assume a: "named_table_uri k = Inr u"
  obtain s base layer name where k: "k = (s, base, layer, name)" by (cases k) auto
  from a obtain roots e where b: "build_lakehouse_roots s base = Inr roots" and l: "for_layer roots layer = Inr e"
    and u: "u = before_last (CHR ''/'') e @ CHR ''/'' # name" and c: "require_scope_table_uri s u = Inr ()"
    by (auto simp: named_table_uri_def k scope_layer_table_uri_def Let_def res_simps)
  from c show "require_scope_table_uri (fst k) u = Inr ()" by (simp add: k)
  from build_roots_layers [OF b l] obtain r a
    where e: "e = (r @ CHR ''/'' # a) @ CHR ''/'' # ''events''" and a: "a \<noteq> []" "list_all plain_segment_char a"
    by auto
  have "before_last (CHR ''/'') e = r @ CHR ''/'' # a" unfolding e by (rule before_last_append) simp
  with u a show "layer_shaped u" by (auto simp: layer_shaped_def)
qed

section \<open>Properties\<close>

text \<open>
  Claim C32.  Physical segregation: a table URI resolved by a writer of one scope is never a URI
  resolved by a writer of another scope, and when the first scope is segregated no table
  of another scope lies below it, whatever roots the two writers were pointed at.
\<close>

theorem writer_tables_isolated:
  assumes "new_writer s base = Inr w" "table_uri w layer = Inr u"
    and "new_writer s' base' = Inr w'" "table_uri w' layer' = Inr u'"
    and "s \<noteq> s'"
  shows "u' \<noteq> u \<and> (s = PLATFORM \<or> (\<forall>t. u' \<noteq> u @ CHR ''/'' # t))"
proof -
  from assms have k: "writer_uri ((s, base), layer) = Inr u" "writer_uri ((s', base'), layer') = Inr u'"
    by (simp_all add: writer_uri_def)
  have "u' \<noteq> u" using writer_uris.isolated [OF k(1)] k(2) assms(5) by fastforce
  moreover have "s = PLATFORM \<or> u' \<noteq> u @ CHR ''/'' # t" for t
    using writer_uris.not_nested [OF k(1), of s' t] writer_uris.resolve_checked [OF k(2)] assms(5) by auto
  ultimately show ?thesis by blast
qed

lemma writer_tables_isolated_witness:
  "\<exists>w w' u u'. new_writer CVFF ''s3://lake/cvff'' = Inr w \<and> table_uri w ''bronze'' = Inr u \<and>
     new_writer ISR ''s3://lake/isr'' = Inr w' \<and> table_uri w' ''gold'' = Inr u' \<and> u' \<noteq> u"
proof -
  have "is_ok (bindR (new_writer CVFF ''s3://lake/cvff'') (\<lambda>w. table_uri w ''bronze''))" by code_simp
  moreover have "is_ok (bindR (new_writer ISR ''s3://lake/isr'') (\<lambda>w. table_uri w ''gold''))" by code_simp
  ultimately obtain w w' u u' where h: "new_writer CVFF ''s3://lake/cvff'' = Inr w" "table_uri w ''bronze'' = Inr u"
    "new_writer ISR ''s3://lake/isr'' = Inr w'" "table_uri w' ''gold'' = Inr u'"
    by (auto simp: is_ok_iff res_simps)
  from writer_tables_isolated [OF h] h show ?thesis by blast
qed

text \<open>
  The boundary check of a batch, event by event and on every branch: what a successful
  \<open>guard_write\<close> says, and that nothing else makes it fail.
\<close>

lemma enforce_event_scope_iff:
  "enforce_event_scope events s = Inr () \<longleftrightarrow>
     (\<forall>e\<in>set events. \<exists>c. row_get e ''data_classification'' = CText c \<and> scope_for_classification c = Inr s)"
proof -
  have step: "event_in_scope s e = Inr () \<longleftrightarrow>
      (\<exists>c. row_get e ''data_classification'' = CText c \<and> scope_for_classification c = Inr s)" for e
    by (auto simp: event_in_scope_def res_simps)
  have "(\<exists>us. list_all2 (\<lambda>e u. event_in_scope s e = Inr u) events us) \<longleftrightarrow> (\<forall>e\<in>set events. event_in_scope s e = Inr ())"
    by (induction events) (auto simp: list_all2_Cons1)
  then show ?thesis by (simp add: enforce_event_scope_def res_simps step)
qed

lemma enforce_topic_scope_iff: "enforce_topic_scope t s = Inr () \<longleftrightarrow> scope_for_topic t = Inr s"
  by (auto simp: enforce_topic_scope_def res_simps)

lemma guard_write_event:
  assumes "guard_write w layer events topic = Inr u" "e \<in> set events"
  obtains c where "row_get e ''data_classification'' = CText c" "scope_for_classification c = Inr (writer_scope w)"
  using assms by (auto simp: guard_write_def res_simps enforce_event_scope_iff)

text \<open>
  The write guard, on every branch: a batch is let through to the URI \<open>u\<close> exactly
  when it is not empty, the writer's layer resolves to \<open>u\<close>, the topic (if one is named) is in the
  writer's namespace, and every event carries a classification of the writer's scope.
\<close>

theorem guard_write_iff:
  "guard_write w layer events topic = Inr u \<longleftrightarrow>
     events \<noteq> [] \<and> table_uri w layer = Inr u \<and>
     (topic = None \<or> (\<exists>t. topic = Some t \<and> scope_for_topic t = Inr (writer_scope w))) \<and>
     (\<exists>labels. list_all2 (\<lambda>e c. row_get e ''data_classification'' = CText c \<and>
        scope_for_classification c = Inr (writer_scope w)) events labels)"
proof -
  have "(\<exists>cs. list_all2 P xs cs) \<longleftrightarrow> (\<forall>x\<in>set xs. \<exists>c. P x c)" for P :: "row \<Rightarrow> string \<Rightarrow> bool" and xs
    by (induction xs) (auto simp: list_all2_Cons1)
  then show ?thesis
    by (cases topic) (auto simp: guard_write_def res_simps enforce_event_scope_iff enforce_topic_scope_iff)
qed

text \<open>
  The mapping of canonical classifications is defined exactly on the vocabulary, with
  \<open>FIDUCIARY_SEGREGATED\<close> for cvff event types and for nothing else, and its result is a label of
  the scope the event type is governed by.
\<close>

theorem map_canonical_classification_total:
  "(is_ok (map_canonical_classification c t) \<longleftrightarrow>
      c \<in> set CANONICAL_CLASSIFICATIONS \<and> (c = ''FIDUCIARY_SEGREGATED'' \<longleftrightarrow> effective_scope t = CVFF)) \<and>
   (case map_canonical_classification c t of Inl e \<Rightarrow> exn_class e = BoundaryViolationError
    | Inr l \<Rightarrow> scope_for_classification l = Inr (effective_scope t))"
proof -
  have lab: "c \<in> set CANONICAL_CLASSIFICATIONS \<Longrightarrow> c \<noteq> ''FIDUCIARY_SEGREGATED'' \<Longrightarrow>
      \<exists>l. map_of CANONICAL_TO_PLATFORM_LABEL c = Some l"
    by (auto simp: CANONICAL_CLASSIFICATIONS_def CANONICAL_TO_PLATFORM_LABEL_def)
  have ok: "is_ok (map_canonical_classification c t) \<longleftrightarrow>
      c \<in> set CANONICAL_CLASSIFICATIONS \<and> (c = ''FIDUCIARY_SEGREGATED'' \<longleftrightarrow> effective_scope t = CVFF)"
  proof (cases "c = ''FIDUCIARY_SEGREGATED''")
    case True
    then show ?thesis
      by (cases "scope_for_event_type t")
         (auto simp: map_canonical_classification_def is_ok_bindR effective_scope_def CANONICAL_CLASSIFICATIONS_def)
  next
    case False
    then show ?thesis
      by (cases "effective_scope t")
         (auto simp: map_canonical_classification_def is_ok_bindR dest: lab)
  qed
  have cls: "exn_class e = BoundaryViolationError" if "map_canonical_classification c t = Inl e" for e
  proof -
    have sc: "exn_class e' = BoundaryViolationError" if "scope_for_event_type t = Inl e'" for e'
      using that by (auto simp: scope_for_event_type_def require_some_def split: option.splits)
    show ?thesis
      using that lab sc
      by (cases "effective_scope t")
         (auto simp: map_canonical_classification_def guard_def bindR_Inl_iff split: if_splits)
  qed
  show ?thesis
  proof (cases "map_canonical_classification c t")
    case (Inl e)
    with ok cls show ?thesis by simp
  next
    case (Inr l)
    with ok map_canonical_label_scope [OF Inr] show ?thesis by (simp add: scope_for_classification_label)
  qed
qed

text \<open>
  No laundering: an event that entered with a canonical classification \<open>c\<close> and an event
  type \<open>t\<close> is accepted only by writers of the scope that governs \<open>t\<close>, into a table that declares that
  scope, and it is accepted by a cvff writer exactly when \<open>c\<close> is \<open>FIDUCIARY_SEGREGATED\<close>.
\<close>

theorem canonical_event_home:
  assumes "map_canonical_classification c t = Inr l"
    and "row_get e ''data_classification'' = CText l" "e \<in> set events"
    and "guard_write w layer events topic = Inr u"
  shows "writer_scope w = effective_scope t \<and>
     scopes_declared_by_uri u = Inr (if effective_scope t = PLATFORM then {} else {effective_scope t}) \<and>
     (writer_scope w = CVFF \<longleftrightarrow> c = ''FIDUCIARY_SEGREGATED'')"
proof -
  from guard_write_event [OF assms(4,3)] assms(2) have "scope_for_classification l = Inr (writer_scope w)" by auto
  with map_canonical_label_scope [OF assms(1)]
  have s: "writer_scope w = effective_scope t" "effective_scope t = CVFF \<longleftrightarrow> c = ''FIDUCIARY_SEGREGATED''"
    by (auto simp: scope_for_classification_label)
  from assms(4) have "require_scope_table_uri (writer_scope w) u = Inr ()"
    by (auto simp: guard_write_def table_uri_def res_simps)
  with s show ?thesis by (simp add: require_scope_iff)
qed

lemma canonical_event_home_witness:
  "\<exists>w l u. new_writer CVFF ''s3://lake/cvff'' = Inr w \<and>
     map_canonical_classification ''FIDUCIARY_SEGREGATED'' ''cvff.disbursement.v1'' = Inr l \<and>
     guard_write w ''bronze'' [[(''data_classification'', CText l)]] (Some ''cvff.disbursement'') = Inr u \<and>
     writer_scope w = CVFF"
proof -
  have "is_ok (bindR (new_writer CVFF ''s3://lake/cvff'') (\<lambda>w.
      guard_write w ''bronze'' [[(''data_classification'', CText ''fiduciary_segregated'')]] (Some ''cvff.disbursement'')))"
    by code_simp
  moreover have l: "map_canonical_classification ''FIDUCIARY_SEGREGATED'' ''cvff.disbursement.v1'' = Inr ''fiduciary_segregated''"
    by code_simp
  ultimately obtain w u where h: "new_writer CVFF ''s3://lake/cvff'' = Inr w"
    "guard_write w ''bronze'' [[(''data_classification'', CText ''fiduciary_segregated'')]] (Some ''cvff.disbursement'') = Inr u"
    by (auto simp: is_ok_iff res_simps)
  from canonical_event_home [OF l _ _ h(2)] h l show ?thesis by auto
qed

text \<open>
  Topic routing is by namespace alone: a scope is the scope of a topic exactly when one
  of its prefixes starts the topic, so no topic has two scopes and the order of the table is irrelevant;
  an envelope's event type with the same text is governed by the same scope.
\<close>

theorem topic_scope_unique:
  "(scope_for_topic t = Inr s \<longleftrightarrow> (\<exists>ps. (s, ps) \<in> set SCOPE_TOPIC_PREFIXES \<and> list_ex (\<lambda>p. prefix p t) ps)) \<and>
   (scope_for_event_type t = Inr s \<longleftrightarrow> scope_for_topic t = Inr s) \<and>
   route prefix (rev SCOPE_TOPIC_PREFIXES) t = route prefix SCOPE_TOPIC_PREFIXES t"
  using scope_for_event_type_iff [of t s] topic_routes.route_order [of "rev SCOPE_TOPIC_PREFIXES" t]
  by (simp add: scope_for_topic_event_type list_ex_iff)

text \<open>
  A scope root below another scope's root is let through by the constructor, which looks
  at the last path component only, but no layer of such a writer ever resolves.
\<close>

theorem nested_root_accepted_but_unusable:
  "\<exists>w. new_writer CVFF ''s3://lake/isr/cvff'' = Inr w \<and> (\<forall>layer. \<not> is_ok (table_uri w layer))"
proof -
  have "is_ok (new_writer CVFF ''s3://lake/isr/cvff'')" by code_simp
  then obtain w where w: "new_writer CVFF ''s3://lake/isr/cvff'' = Inr w" by (auto simp: is_ok_iff)
  have n: "\<not> is_ok (bindR (new_writer CVFF ''s3://lake/isr/cvff'') (\<lambda>w. table_uri w l))"
    if "l \<in> set [''bronze'', ''silver'', ''gold'']" for l
  proof -
    have "list_all (\<lambda>l. \<not> is_ok (bindR (new_writer CVFF ''s3://lake/isr/cvff'') (\<lambda>w. table_uri w l)))
        [''bronze'', ''silver'', ''gold'']" by code_simp
    with that show ?thesis by (simp only: list_all_iff) blast
  qed
  have "\<not> is_ok (table_uri w layer)" for layer
  proof (cases "layer \<in> set [''bronze'', ''silver'', ''gold'']")
    case True
    with n [OF True] w show ?thesis by simp
  next
    case False
    then show ?thesis by (simp add: table_uri_def for_layer_def is_ok_bindR)
  qed
  with w show ?thesis by blast
qed

end
