(* ===== verification/Ingest.thy ===== *)
theory Ingest
  imports Py_Time Segregation Access_Policy
begin

text \<open>
  The pure part of \<open>ingest.py\<close>: canonical text, canonical JSON, the projection of canonical envelopes
  into internal events, their normalisation into rows, and the reading of an NDJSON batch.
  A float is rendered by \<open>fr\<close> (\<open>float.__repr__\<close>); \<open>json.loads\<close>, the UTF-8 decoder and the JSON
  schema validator are parameters of the batch reader.
\<close>

section \<open>Canonical text\<close>

definition require_canonical_text :: "json \<Rightarrow> nat \<Rightarrow> string res" where
  "require_canonical_text value limit =
     (case value of
        JStr s \<Rightarrow> bindR (guard (canonical s \<and> utf8_len s \<le> limit \<and> \<not> has_control_characters s) ValueError
                    ''must be canonical non-control text'') (\<lambda>_. Inr s)
      | _ \<Rightarrow> raise ValueError ''must be canonical non-control text'')"

definition validate_table_uri :: "string \<Rightarrow> unit res" where
  "validate_table_uri uri =
     bindR (guard (canonical uri \<and> \<not> has_control_characters uri) ValueError
              ''table URI must be canonical non-control text'') (\<lambda>_.
     bindR (urlsplit uri) (\<lambda>parsed.
     guard (\<not> url_has_extras parsed) ValueError
       ''table URI must not contain embedded credentials, query parameters or fragments''))"

definition parse_timestamp :: "json \<Rightarrow> int res" where
  "parse_timestamp value =
     (case value of
        JStr s \<Rightarrow>
          bindR (guard (CHR ''T'' \<in> set s) ValueError ''must be an RFC 3339 timestamp'') (\<lambda>_.
          bindR (fromisoformat (concat (map (\<lambda>c. if c = CHR ''Z'' then ''+00:00'' else [c]) s))) (\<lambda>(local, off).
          case off of
            None \<Rightarrow> raise ValueError ''must include an offset or Z''
          | Some z \<Rightarrow> astimezone_utc local z))
      | _ \<Rightarrow> raise ValueError ''must be an RFC 3339 timestamp'')"

section \<open>Canonical JSON\<close>

definition hex_digit :: "nat \<Rightarrow> char" where
  "hex_digit n = char_of (if n < 10 then 48 + n else 87 + n)"

text \<open>The escapes of \<open>json.dumps\<close> with \<open>ensure_ascii=False\<close>.\<close>

definition json_escape_char :: "char \<Rightarrow> string" where
  "json_escape_char c =
     (let n = code c in
      if n = 34 then [char_of (92 :: nat), c] else if n = 92 then [c, c]
      else if n = 10 then [char_of (92 :: nat), CHR ''n''] else if n = 13 then [char_of (92 :: nat), CHR ''r'']
      else if n = 9 then [char_of (92 :: nat), CHR ''t''] else if n = 12 then [char_of (92 :: nat), CHR ''f'']
      else if n = 8 then [char_of (92 :: nat), CHR ''b'']
      else if n < 32 then [char_of (92 :: nat)] @ ''u00'' @ [hex_digit (n div 16), hex_digit (n mod 16)]
      else [c])"

definition json_str :: "string \<Rightarrow> string" where
  "json_str s = char_of (34 :: nat) # concat (map json_escape_char s) @ [char_of (34 :: nat)]"

fun join_with :: "string \<Rightarrow> string list \<Rightarrow> string" where
  "join_with sep [] = []"
| "join_with sep [x] = x"
| "join_with sep (x # y # ys) = x @ sep @ join_with sep (y # ys)"

text \<open>
  \<open>json.dumps(value, sort_keys=True, separators=(",", ":"), ensure_ascii=False, allow_nan=False)\<close>.
  The keys of a dictionary are distinct, so sorting the rendered items by key is sorting the items.
\<close>

fun canonical_json :: "(rat \<Rightarrow> string) \<Rightarrow> json \<Rightarrow> string res" where
  "canonical_json fr JNull = Inr ''null''"
| "canonical_json fr (JBool b) = Inr (if b then ''true'' else ''false'')"
| "canonical_json fr (JInt i) = Inr (int_str i)"
| "canonical_json fr (JFloat f) =
     (case f of PFin q \<Rightarrow> Inr (fr q) | _ \<Rightarrow> raise ValueError ''Out of range float values are not JSON compliant'')"
| "canonical_json fr (JStr s) = Inr (json_str s)"
| "canonical_json fr (JList xs) =
     bindR (mapR (canonical_json fr) xs) (\<lambda>ys. Inr (''['' @ join_with '','' ys @ '']''))"
| "canonical_json fr (JObj d) =
     bindR (mapR (\<lambda>(k, v). bindR (canonical_json fr v) (\<lambda>t. Inr (k, t))) d) (\<lambda>items.
     Inr (''{'' @ join_with '','' (map (\<lambda>(k, t). json_str k @ '':'' @ t) (sort_key fst items)) @ ''}''))"

section \<open>Maritime positions\<close>

definition position_fields :: "string list" where
  "position_fields = [''asset_id'', ''latitude'', ''longitude'', ''speed_knots'', ''heading_degrees'']"

text \<open>
  \<open>all(math.isfinite(float(v)) for v in vs)\<close> stops at the first value that is not finite; the
  bounds convert their value again, to the same float.
\<close>

fun all_finite :: "json list \<Rightarrow> bool res" where
  "all_finite [] = Inr True"
| "all_finite (v # vs) = bindR (to_float v) (\<lambda>f. if isfinite f then all_finite vs else Inr False)"

definition validate_maritime_position :: "json \<Rightarrow> unit res" where
  "validate_maritime_position payload =
     (case payload of
        JObj p \<Rightarrow>
          bindR (guard (set position_fields \<subseteq> fst ` set p) ValueError ''payload is missing fields'') (\<lambda>_.
          bindR (require_canonical_text (jget p ''asset_id'') 256) (\<lambda>asset_id.
          let lat = jget p ''latitude''; lon = jget p ''longitude'';
              speed = jget p ''speed_knots''; heading = jget p ''heading_degrees''
          in bindR (guard (list_all is_number [lat, lon, speed, heading]) ValueError ''must be finite numbers'') (\<lambda>_.
             bindR (all_finite [lat, lon, speed, heading]) (\<lambda>fin.
             bindR (guard fin ValueError ''must be finite numbers'') (\<lambda>_.
             bindR (to_float lat) (\<lambda>la.
             bindR (guard (fl_le (PFin (- 90)) la \<and> fl_le la (PFin 90)) ValueError
                      ''latitude must be between -90 and 90 degrees'') (\<lambda>_.
             bindR (to_float lon) (\<lambda>lo.
             bindR (guard (fl_le (PFin (- 180)) lo \<and> fl_le lo (PFin 180)) ValueError
                      ''longitude must be between -180 and 180 degrees'') (\<lambda>_.
             bindR (to_float speed) (\<lambda>sp.
             bindR (guard (\<not> fl_less sp (PFin 0)) ValueError ''speed_knots must not be negative'') (\<lambda>_.
             bindR (to_float heading) (\<lambda>he.
             guard (fl_le (PFin 0) he \<and> fl_less he (PFin 360)) ValueError
               ''heading_degrees must be in the range [0, 360)''))))))))))))
      | _ \<Rightarrow> raise ValueError ''maritime.position.v1 payload must be an object'')"

section \<open>The canonical envelope\<close>

text \<open>
  The classification is looked up in a frozen set of texts: a list or an object is unhashable, any
  other value is not in the set.
\<close>

definition map_classification_value :: "json \<Rightarrow> string \<Rightarrow> string res" where
  "map_classification_value v event_type =
     (case v of
        JStr c \<Rightarrow> map_canonical_classification c event_type
      | JList xs \<Rightarrow> raise TypeError ''unhashable type''
      | JObj d \<Rightarrow> raise TypeError ''unhashable type''
      | _ \<Rightarrow> raise BoundaryViolationError ''canonical classification is not in the platform vocabulary'')"

definition primary_resource :: "json \<Rightarrow> jobject res" where
  "primary_resource bundle =
     (case bundle of
        JObj b \<Rightarrow>
          (case jget b ''entry'' of
             JList (first # rest) \<Rightarrow>
               (case first of
                  JObj e \<Rightarrow>
                    (case jget e ''resource'' of
                       JObj (r # rs) \<Rightarrow>
                         bindR (guard (''provenance'' \<notin> fst ` set (r # rs)) ValueError
                           ''fhir message entry resource must not redefine provenance'') (\<lambda>_. Inr (r # rs))
                     | _ \<Rightarrow> raise ValueError ''fhir message entry resource must be a non-empty object'')
                | _ \<Rightarrow> raise ValueError ''fhir bundle entries must be objects'')
           | _ \<Rightarrow> raise ValueError ''fhir bundle must carry at least one message entry'')
      | _ \<Rightarrow> raise ValueError ''fhir must be a FHIR R4 message Bundle object'')"

definition provenance_object :: "json \<Rightarrow> jobject res" where
  "provenance_object v =
     (case v of JObj p \<Rightarrow> Inr p | _ \<Rightarrow> raise ValueError ''provenance must be an object'')"

definition map_canonical_envelope :: "jobject \<Rightarrow> jobject res" where
  "map_canonical_envelope document =
     bindR (jitem document ''eventId'') (\<lambda>v. bindR (require_canonical_text v 256) (\<lambda>event_id.
     bindR (jitem document ''eventType'') (\<lambda>v. bindR (require_canonical_text v 128) (\<lambda>event_type.
     bindR (jitem document ''producer'') (\<lambda>v. bindR (require_canonical_text v 256) (\<lambda>producer.
     bindR (jitem document ''fhir'') (\<lambda>bundle.
     bindR (primary_resource bundle) (\<lambda>resource.
     bindR (jitem document ''provenance'') (\<lambda>v. bindR (provenance_object v) (\<lambda>provenance.
     bindR (jitem provenance ''ledgerCommitHash'') (\<lambda>v. bindR (require_canonical_text v 512) (\<lambda>ledger_commit_hash.
     bindR (jitem document ''occurredAt'') (\<lambda>occurred_at.
     bindR (jitem document ''classification'') (\<lambda>classification.
     bindR (map_classification_value classification event_type) (\<lambda>label.
     Inr ([(''event_id'', JStr event_id),
           (''event_type'', JStr event_type),
           (''producer'', JStr producer),
           (''occurred_at'', occurred_at),
           (''recorded_at'', occurred_at),
           (''data_classification'', JStr label),
           (''source_system'', JStr producer),
           (''source_record_reference'', JStr ledger_commit_hash),
           (''correlation_id'', jget document ''correlationId''),
           (''payload'', JObj (AList.update ''provenance'' (JObj provenance) resource))] @
          (if jget document ''recordClassification'' \<noteq> JNull
           then [(''record_classification'', jget document ''recordClassification'')] else [])))))))))))))))))"

section \<open>Normalisation\<close>

definition optional_text :: "json \<Rightarrow> nat \<Rightarrow> cell res" where
  "optional_text v limit =
     (if v = JNull then Inr CNone else bindR (require_canonical_text v limit) (\<lambda>s. Inr (CText s)))"

definition optional_clearance :: "json \<Rightarrow> cell res" where
  "optional_clearance v =
     (if v = JNull then Inr CNone
      else bindR (require_canonical_text v 32) (\<lambda>s. bindR (from_label s) (\<lambda>l. Inr (CText (clearance_label l)))))"

definition cell_of_json :: "json \<Rightarrow> cell" where
  "cell_of_json v =
     (case v of JNull \<Rightarrow> CNone | JStr s \<Rightarrow> CText s | JInt i \<Rightarrow> CInt i | JBool b \<Rightarrow> CBool b
      | JFloat f \<Rightarrow> CFloat f | _ \<Rightarrow> CJson v)"

definition MAX_PAYLOAD_JSON_BYTES :: int where "MAX_PAYLOAD_JSON_BYTES = 1024 * 1024"

text \<open>\<open>if record_classification is not None: normalized["record_classification"] = ...\<close>.\<close>

definition label_column :: "cell \<Rightarrow> row" where
  "label_column c = (if c \<noteq> CNone then [(''record_classification'', c)] else [])"

lemma label_column_simps [simp]:
  "row_get (label_column c) k = (if k = ''record_classification'' then c else CNone)"
  "map fst (label_column c) = (if c = CNone then [] else [''record_classification''])"
  by (simp_all add: label_column_def)

text \<open>\<open>now\<close> is the reading of the clock that becomes \<open>ingested_at\<close>.\<close>

definition normalize_event :: "(rat \<Rightarrow> string) \<Rightarrow> int \<Rightarrow> jobject \<Rightarrow> row res" where
  "normalize_event fr now event =
     bindR (jitem event ''occurred_at'') (\<lambda>v. bindR (parse_timestamp v) (\<lambda>occurred_at.
     bindR (jitem event ''recorded_at'') (\<lambda>v. bindR (parse_timestamp v) (\<lambda>recorded_at.
     bindR (guard (occurred_at \<le> recorded_at) ValueError ''occurred_at must not be later than recorded_at'') (\<lambda>_.
     bindR (jitem event ''payload'') (\<lambda>payload. bindR (canonical_json fr payload) (\<lambda>payload_json.
     bindR (jitem event ''event_type'') (\<lambda>event_type.
     bindR (if event_type = JStr ''maritime.position.v1'' then validate_maritime_position payload else Inr ()) (\<lambda>_.
     bindR (guard (int (utf8_len payload_json) \<le> MAX_PAYLOAD_JSON_BYTES) ValueError
              ''payload exceeds canonical JSON bytes'') (\<lambda>_.
     bindR (optional_text (jget event ''correlation_id'') 256) (\<lambda>correlation_id.
     bindR (optional_clearance (jget event ''record_classification'')) (\<lambda>record_classification.
     bindR (jitem event ''event_id'') (\<lambda>v. bindR (require_canonical_text v 256) (\<lambda>event_id.
     bindR (require_canonical_text event_type 128) (\<lambda>event_type.
     bindR (jitem event ''producer'') (\<lambda>v. bindR (require_canonical_text v 256) (\<lambda>producer.
     bindR (jitem event ''data_classification'') (\<lambda>data_classification.
     bindR (jitem event ''source_system'') (\<lambda>v. bindR (require_canonical_text v 256) (\<lambda>source_system.
     bindR (jitem event ''source_record_reference'') (\<lambda>v. bindR (require_canonical_text v 512) (\<lambda>reference.
     Inr ([(''event_id'', CText event_id),
           (''event_type'', CText event_type),
           (''producer'', CText producer),
           (''occurred_at'', CTime occurred_at),
           (''recorded_at'', CTime recorded_at),
           (''data_classification'', cell_of_json data_classification),
           (''source_system'', CText source_system),
           (''source_record_reference'', CText reference),
           (''correlation_id'', correlation_id),
           (''payload_json'', CText payload_json),
           (''ingested_at'', CTime now)] @
          label_column record_classification)))))))))))))))))))))))"

section \<open>An NDJSON batch\<close>

definition MAX_RECORDS_PER_BATCH :: int where "MAX_RECORDS_PER_BATCH = 100000"
definition MAX_LINE_BYTES :: int where "MAX_LINE_BYTES = 2 * 1024 * 1024"

text \<open>The loop state: the event identifiers seen and the rows so far.\<close>

record batch_state =
  seen_ids :: "json list"
  batch_events :: "row list"

text \<open>\<open>not raw_line.strip()\<close> on bytes.\<close>

definition blank_bytes :: "string \<Rightarrow> bool" where
  "blank_bytes l = list_all (\<lambda>c. code c = 32 \<or> (9 \<le> code c \<and> code c \<le> 13)) l"

text \<open>
  One line of the file.  \<open>decode\<close> is \<open>bytes.decode("utf-8")\<close> (\<open>None\<close> for a \<open>UnicodeDecodeError\<close>), \<open>loads\<close> is
  \<open>json.loads\<close> with the hook that rejects non-finite constants, \<open>errors\<close> the validator's messages.
\<close>

definition read_line :: "(string \<Rightarrow> string option) \<Rightarrow> (string \<Rightarrow> json res) \<Rightarrow> (json \<Rightarrow> string list) \<Rightarrow>
    (rat \<Rightarrow> string) \<Rightarrow> int \<Rightarrow> batch_state \<Rightarrow> string \<Rightarrow> batch_state res" where
  "read_line decode loads errors fr now st raw_line =
     bindR (guard (int (length raw_line) \<le> MAX_LINE_BYTES) ValueError ''input line exceeds the maximum'') (\<lambda>_.
     if blank_bytes raw_line then Inr st
     else
       bindR (require_some (decode raw_line) ValueError ''input line is not valid UTF-8'') (\<lambda>line.
       bindR (loads line) (\<lambda>doc.
       case doc of
         JObj event \<Rightarrow>
           bindR (guard (errors (JObj event) = []) ValueError ''input line fails event-envelope validation'') (\<lambda>_.
           bindR (map_canonical_envelope event) (\<lambda>event.
           bindR (jitem event ''event_id'') (\<lambda>event_id.
           bindR (guard (event_id \<notin> set (seen_ids st)) ValueError ''input contains duplicate event_id'') (\<lambda>_.
           bindR (normalize_event fr now event) (\<lambda>row.
           let events = batch_events st @ [row]
           in bindR (guard (int (length events) \<le> MAX_RECORDS_PER_BATCH) ValueError ''input exceeds the maximum batch size'') (\<lambda>_.
              Inr \<lparr>seen_ids = event_id # seen_ids st, batch_events = events\<rparr>))))))
       | _ \<Rightarrow> raise ValueError ''input line must be a JSON object'')))"

definition read_and_validate_events :: "(string \<Rightarrow> string option) \<Rightarrow> (string \<Rightarrow> json res) \<Rightarrow> (json \<Rightarrow> string list) \<Rightarrow>
    (rat \<Rightarrow> string) \<Rightarrow> int \<Rightarrow> string list \<Rightarrow> row list res" where
  "read_and_validate_events decode loads errors fr now lines =
     bindR (foldR (read_line decode loads errors fr now) \<lparr>seen_ids = [], batch_events = []\<rparr> lines) (\<lambda>st.
     bindR (guard (batch_events st \<noteq> []) ValueError ''input contains no event records'') (\<lambda>_.
     Inr (batch_events st)))"

section \<open>Lemmas\<close>

lemma require_canonical_text_iff:
  "require_canonical_text v limit = Inr s \<longleftrightarrow>
     v = JStr s \<and> canonical s \<and> utf8_len s \<le> limit \<and> \<not> has_control_characters s"
  by (cases v) (auto simp: require_canonical_text_def res_simps)

lemma require_canonical_text_error:
  "require_canonical_text v limit = Inl e \<Longrightarrow> exn_class e = ValueError"
  by (cases v) (auto simp: require_canonical_text_def bindR_Inl_iff guard_def split: if_splits)

lemma jitem_Inr [simp]: "jitem d k = Inr v \<longleftrightarrow> map_of d k = Some v"
  by (auto simp: jitem_def split: option.splits)

lemma all_finite_iff:
  "all_finite vs = Inr True \<longleftrightarrow> list_all (\<lambda>v. \<exists>q. to_float v = Inr (PFin q)) vs"
proof (induction vs)
  case Nil
  then show ?case by simp
next
  case (Cons v vs)
  have "isfinite f \<longleftrightarrow> (\<exists>q. f = PFin q)" for f by (cases f) auto
  with Cons show ?case by (cases "to_float v") (auto split: if_splits)
qed

text \<open>The envelope fields that survive the projection.\<close>

lemma map_canonical_envelope_fields:
  assumes "map_canonical_envelope d = Inr ev"
  shows "\<exists>event_id event_type c l. map_of ev ''event_id'' = Some (JStr event_id) \<and>
     map_of ev ''event_type'' = Some (JStr event_type) \<and>
     map_of ev ''recorded_at'' = map_of ev ''occurred_at'' \<and> map_of d ''occurredAt'' = map_of ev ''occurred_at'' \<and>
     map_of d ''classification'' = Some (JStr c) \<and> map_canonical_classification c event_type = Inr l \<and>
     map_of ev ''data_classification'' = Some (JStr l) \<and>
     map_of d ''eventId'' = Some (JStr event_id) \<and> map_of d ''eventType'' = Some (JStr event_type) \<and>
     jget ev ''record_classification'' = jget d ''recordClassification''"
proof -
  have cls: "\<exists>c. v = JStr c \<and> map_canonical_classification c t = Inr l" if "map_classification_value v t = Inr l" for v t l
    using that by (cases v) (auto simp: map_classification_value_def)
  show ?thesis
    using assms
    by (auto simp: map_canonical_envelope_def res_simps require_canonical_text_iff jget_def
        simp del: jget_Cons dest!: cls split: if_splits option.splits)
qed

lemma optional_clearance_cases:
  "optional_clearance v = Inr c \<Longrightarrow> (v = JNull \<and> c = CNone) \<or> (\<exists>s l. v = JStr s \<and> from_label s = Inr l \<and> c = CText (clearance_label l))"
  by (auto simp: optional_clearance_def res_simps require_canonical_text_iff split: if_splits)

text \<open>The columns of a normalised row.\<close>

lemma normalize_event_row:
  assumes "normalize_event fr now ev = Inr row"
  shows "\<exists>event_id event_type t u rc payload. row_get row ''event_id'' = CText event_id \<and>
     map_of ev ''event_id'' = Some (JStr event_id) \<and> require_canonical_text (JStr event_id) 256 = Inr event_id \<and>
     row_get row ''event_type'' = CText event_type \<and> map_of ev ''event_type'' = Some (JStr event_type) \<and>
     row_get row ''occurred_at'' = CTime t \<and> row_get row ''recorded_at'' = CTime u \<and> t \<le> u \<and>
     (\<exists>v. map_of ev ''occurred_at'' = Some v \<and> parse_timestamp v = Inr t) \<and>
     (\<exists>v. map_of ev ''recorded_at'' = Some v \<and> parse_timestamp v = Inr u) \<and>
     (\<exists>v. map_of ev ''data_classification'' = Some v \<and> row_get row ''data_classification'' = cell_of_json v) \<and>
     row_get row ''payload_json'' = CText payload \<and> int (utf8_len payload) \<le> MAX_PAYLOAD_JSON_BYTES \<and>
     optional_clearance (jget ev ''record_classification'') = Inr rc \<and>
     row_get row ''record_classification'' = rc \<and>
     map fst row = [''event_id'', ''event_type'', ''producer'', ''occurred_at'', ''recorded_at'', ''data_classification'',
       ''source_system'', ''source_record_reference'', ''correlation_id'', ''payload_json'', ''ingested_at''] @
       (if rc = CNone then [] else [''record_classification''])"
  using assms
  apply (simp only: normalize_event_def res_simps guard_Inr_iff jitem_Inr require_canonical_text_iff sum.inject)
  apply (elim exE conjE)
  apply (hypsubst)
  apply (intro exI conjI)
                      apply (simp (no_asm_simp))+
  done

lemma bit_length_lower: "m \<noteq> 0 \<Longrightarrow> 2 ^ (bit_length m - 1) \<le> m \<and> 0 < bit_length m"
proof (induction m rule: bit_length.induct)
  case (1 m)
  show ?case
  proof (cases "m div 2 = 0")
    case True
    with 1 show ?thesis by (simp add: bit_length.simps [of m] bit_length.simps [of 0])
  next
    case False
    with 1 have h: "2 ^ (bit_length (m div 2) - 1) \<le> m div 2" "0 < bit_length (m div 2)" by auto
    then obtain b where b: "bit_length (m div 2) = Suc b" by (cases "bit_length (m div 2)") auto
    with h have "2 * 2 ^ b \<le> m" by simp
    with 1 b show ?thesis by (simp add: bit_length.simps [of m])
  qed
qed

lemma bit_length_ge: "2 ^ k \<le> m \<Longrightarrow> k < bit_length m"
  using bit_length_bound [of m] by (metis leD le_less_trans linorder_not_less one_less_numeral_iff power_less_imp_less_exp semiring_norm(76))

text \<open>An integer from \<open>2 ^ 1024\<close> on does not convert to a float.\<close>

lemma float_of_int_overflow:
  assumes "2 ^ 1024 \<le> \<bar>i\<bar>"
  shows "float_of_int i = raise OverflowError ''int too large to convert to float''"
proof -
  define m where "m = nat \<bar>i\<bar>"
  have m: "2 ^ 1024 \<le> m" using assms by (simp add: m_def le_nat_iff)
  define b where "b = bit_length m"
  have b: "1024 < b" using bit_length_ge [OF m] by (simp add: b_def)
  have "m \<noteq> 0" using m by (cases m) auto
  from bit_length_lower [OF this] have low: "2 ^ (b - 1) \<le> m" by (simp add: b_def)
  have s: "b - 1 = 52 + (b - 53)" using b by simp
  from low have "2 ^ 52 * 2 ^ (b - 53) \<le> m" unfolding s power_add .
  then have "2 ^ 52 \<le> m div 2 ^ (b - 53)" by (simp add: less_eq_div_iff_mult_less_eq)
  moreover have "m div d \<le> div_half_even m d" for d by (simp add: div_half_even_def Let_def)
  ultimately have "2 ^ 52 \<le> div_half_even m (2 ^ (b - 53))" using order_trans by blast
  then have "2 ^ 52 * 2 ^ (b - 53) \<le> div_half_even m (2 ^ (b - 53)) * 2 ^ (b - 53)" by simp
  then have "2 ^ (b - 1) \<le> round_nat m"
    using b by (simp only: s power_add round_nat_def Let_def b_def [symmetric]) simp
  moreover have "(2 :: nat) ^ 1024 \<le> 2 ^ (b - 1)" using b by (intro power_increasing) simp_all
  ultimately have "2 ^ 1024 \<le> round_nat m" by (rule order_trans [rotated])
  then show ?thesis by (simp only: float_of_int_def m_def [symmetric] Let_def if_True)
qed

lemma require_bound: "require_canonical_text v n = Inr s \<Longrightarrow> utf8_len s \<le> n \<and> canonical s \<and> \<not> has_control_characters s"
  by (simp add: require_canonical_text_iff)

text \<open>What one non-blank line contributes to the batch.\<close>

lemma read_line_step:
  assumes "read_line decode loads errors fr now st l = Inr st'"
  shows "st' = st \<and> blank_bytes l \<or>
     (\<exists>event_id row. event_id \<notin> set (seen_ids st) \<and> \<not> blank_bytes l \<and>
        st' = \<lparr>seen_ids = event_id # seen_ids st, batch_events = batch_events st @ [row]\<rparr> \<and>
        (\<exists>s. event_id = JStr s \<and> row_get row ''event_id'' = CText s) \<and>
        int (length (batch_events st')) \<le> MAX_RECORDS_PER_BATCH)"
proof (cases "blank_bytes l")
  case True
  with assms show ?thesis by (simp add: read_line_def res_simps)
next
  case False
  with assms obtain line doc where doc: "loads line = Inr doc" "decode l = Some line"
    by (auto simp: read_line_def res_simps)
  from assms False doc obtain d where "doc = JObj d"
    by (cases doc) (auto simp: read_line_def res_simps)
  with assms False doc obtain ev event_id row where
    ev: "map_of ev ''event_id'' = Some event_id" and row: "normalize_event fr now ev = Inr row"
    and new: "event_id \<notin> set (seen_ids st)"
    and st': "st' = \<lparr>seen_ids = event_id # seen_ids st, batch_events = batch_events st @ [row]\<rparr>"
    and len: "int (length (batch_events st @ [row])) \<le> MAX_RECORDS_PER_BATCH"
    by (auto simp: read_line_def res_simps Let_def)
  from normalize_event_row [OF row] ev have "\<exists>s. event_id = JStr s \<and> row_get row ''event_id'' = CText s" by auto
  with new st' len False show ?thesis by auto
qed

section \<open>Properties\<close>

text \<open>
  What enters the lakehouse: a row made from a canonical envelope carries the envelope's
  identifier as canonical text of at most 256 bytes, an internal label of the scope that governs its
  event type, one instant as occurrence and observation time, a payload of at most one MiB of canonical
  JSON, and the clearance label the envelope named, or none.
\<close>

theorem envelope_row_governed:
  assumes "map_canonical_envelope d = Inr ev" "normalize_event fr now ev = Inr row"
  shows "\<exists>event_id event_type l t payload.
     map_of d ''eventId'' = Some (JStr event_id) \<and> row_get row ''event_id'' = CText event_id \<and>
     canonical event_id \<and> \<not> has_control_characters event_id \<and> utf8_len event_id \<le> 256 \<and>
     map_of d ''eventType'' = Some (JStr event_type) \<and> row_get row ''data_classification'' = CText l \<and>
     scope_for_classification l = Inr (effective_scope event_type) \<and>
     row_get row ''occurred_at'' = CTime t \<and> row_get row ''recorded_at'' = CTime t \<and>
     row_get row ''payload_json'' = CText payload \<and> int (utf8_len payload) \<le> MAX_PAYLOAD_JSON_BYTES \<and>
     (case jget d ''recordClassification'' of
        JNull \<Rightarrow> row_get row ''record_classification'' = CNone
      | v \<Rightarrow> \<exists>s level. v = JStr s \<and> from_label s = Inr level \<and>
              row_get row ''record_classification'' = CText (clearance_label level))"
proof -
  from map_canonical_envelope_fields [OF assms(1)] obtain event_id event_type c l where ev:
    "map_of ev ''event_id'' = Some (JStr event_id)" "map_of ev ''event_type'' = Some (JStr event_type)"
    "map_of ev ''recorded_at'' = map_of ev ''occurred_at''" "map_canonical_classification c event_type = Inr l"
    "map_of ev ''data_classification'' = Some (JStr l)" "map_of d ''eventId'' = Some (JStr event_id)"
    "map_of d ''eventType'' = Some (JStr event_type)"
    "jget ev ''record_classification'' = jget d ''recordClassification''" by blast
  from normalize_event_row [OF assms(2)] ev obtain t u rc payload where row:
    "row_get row ''event_id'' = CText event_id" "require_canonical_text (JStr event_id) 256 = Inr event_id"
    "row_get row ''occurred_at'' = CTime t" "row_get row ''recorded_at'' = CTime u" "t = u"
    "row_get row ''data_classification'' = cell_of_json (JStr l)"
    "row_get row ''payload_json'' = CText payload" "int (utf8_len payload) \<le> MAX_PAYLOAD_JSON_BYTES"
    "optional_clearance (jget d ''recordClassification'') = Inr rc" "row_get row ''record_classification'' = rc"
    by fastforce
  have "scope_for_classification l = Inr (effective_scope event_type)"
    using map_canonical_label_scope [OF ev(4)] by (simp add: scope_for_classification_label)
  moreover from optional_clearance_cases [OF row(9)] row(10)
  have "case jget d ''recordClassification'' of
        JNull \<Rightarrow> row_get row ''record_classification'' = CNone
      | v \<Rightarrow> \<exists>s level. v = JStr s \<and> from_label s = Inr level \<and>
              row_get row ''record_classification'' = CText (clearance_label level)"
    by auto
  moreover have "row_get row ''data_classification'' = CText l" using row(6) by (simp add: cell_of_json_def)
  ultimately show ?thesis using ev row require_bound [OF row(2)] by blast
qed

definition sample_envelope :: jobject where
  "sample_envelope =
     [(''eventId'', JStr ''e-1''), (''eventType'', JStr ''cvff.disbursement.v1''), (''producer'', JStr ''p''),
      (''fhir'', JObj [(''entry'', JList [JObj [(''resource'', JObj [(''id'', JInt 7)])]])]),
      (''provenance'', JObj [(''ledgerCommitHash'', JStr ''abc'')]),
      (''occurredAt'', JStr ''2024-02-29T12:30:45Z''), (''classification'', JStr ''FIDUCIARY_SEGREGATED''),
      (''recordClassification'', JStr ''secret'')]"

lemma envelope_row_governed_witness:
  "\<exists>ev row. map_canonical_envelope sample_envelope = Inr ev \<and> normalize_event (\<lambda>q. []) 0 ev = Inr row \<and>
     row_get row ''event_id'' = CText ''e-1''"
proof -
  have "is_ok (bindR (map_canonical_envelope sample_envelope) (normalize_event (\<lambda>q. []) 0))" by code_simp
  then obtain ev row where h: "map_canonical_envelope sample_envelope = Inr ev"
    "normalize_event (\<lambda>q. []) 0 ev = Inr row"
    by (auto simp: is_ok_iff res_simps)
  from envelope_row_governed [OF h] have "row_get row ''event_id'' = CText ''e-1''"
    by (auto simp: sample_envelope_def)
  with h show ?thesis by blast
qed

text \<open>
  Claim C38.  A batch read from NDJSON has between one and the maximum number of rows, exactly one per
  line that is not blank, and no two rows share an event identifier.
\<close>

theorem read_batch_distinct:
  assumes "read_and_validate_events decode loads errors fr now lines = Inr rows"
  shows "distinct (map (\<lambda>r. row_get r ''event_id'') rows) \<and> rows \<noteq> [] \<and>
     int (length rows) \<le> MAX_RECORDS_PER_BATCH \<and>
     length rows = length (filter (\<lambda>l. \<not> blank_bytes l) lines)"
proof -
  from assms obtain st where st: "foldR (read_line decode loads errors fr now) \<lparr>seen_ids = [], batch_events = []\<rparr> lines = Inr st"
    and rows: "rows = batch_events st" "rows \<noteq> []"
    by (auto simp: read_and_validate_events_def res_simps)
  let ?I = "\<lambda>done st. distinct (seen_ids st) \<and> (\<forall>v\<in>set (seen_ids st). \<exists>s. v = JStr s) \<and>
      map (\<lambda>r. row_get r ''event_id'') (batch_events st) = map cell_of_json (rev (seen_ids st)) \<and>
      int (length (batch_events st)) \<le> MAX_RECORDS_PER_BATCH \<and>
      length (batch_events st) = length (filter (\<lambda>l. \<not> blank_bytes l) done)"
  have I: "?I lines st"
  proof (rule foldR_prefix_inv [OF st])
    show "?I [] \<lparr>seen_ids = [], batch_events = []\<rparr>" by (simp add: MAX_RECORDS_PER_BATCH_def)
  next
    fix ds l s s' assume "?I ds s" "read_line decode loads errors fr now s l = Inr s'"
    with read_line_step [OF this(2)] show "?I (ds @ [l]) s'" by (auto simp: cell_of_json_def)
  qed
  have "inj_on cell_of_json (set (rev (seen_ids st)))"
  proof (rule inj_onI)
    fix v w assume "v \<in> set (rev (seen_ids st))" "w \<in> set (rev (seen_ids st))" "cell_of_json v = cell_of_json w"
    with I obtain a b where "v = JStr a" "w = JStr b" by fastforce
    with \<open>cell_of_json v = cell_of_json w\<close> show "v = w" by (simp add: cell_of_json_def)
  qed
  with I have "distinct (map cell_of_json (rev (seen_ids st)))" by (simp only: distinct_map distinct_rev simp_thms)
  with I rows show ?thesis by metis
qed

lemma read_batch_distinct_witness:
  "\<exists>row. read_and_validate_events Some (\<lambda>l. Inr (JObj sample_envelope)) (\<lambda>d. []) (\<lambda>q. []) 0 [''{}'', [CHR 0x20]] = Inr [row] \<and>
     distinct (map (\<lambda>r. row_get r ''event_id'') [row])"
proof -
  have "is_ok (read_and_validate_events Some (\<lambda>l. Inr (JObj sample_envelope)) (\<lambda>d. []) (\<lambda>q. []) 0 [''{}'', [CHR 0x20]])"
    by code_simp
  then obtain rows where r: "read_and_validate_events Some (\<lambda>l. Inr (JObj sample_envelope)) (\<lambda>d. []) (\<lambda>q. []) 0 [''{}'', [CHR 0x20]] = Inr rows"
    by (auto simp: is_ok_iff)
  from read_batch_distinct [OF r] have "length rows = 1" "distinct (map (\<lambda>r. row_get r ''event_id'') rows)"
    by (simp_all add: blank_bytes_def code_def)
  with r show ?thesis by (cases rows) auto
qed

text \<open>
  A position passes validation exactly when it is an object whose asset identifier is
  canonical text and whose latitude, longitude, speed and heading are numbers that convert to
  finite floats within their ranges.
\<close>

theorem validate_maritime_position_iff:
  "validate_maritime_position (JObj p) = Inr () \<longleftrightarrow>
     set position_fields \<subseteq> fst ` set p \<and>
     (\<exists>s. require_canonical_text (jget p ''asset_id'') 256 = Inr s) \<and>
     list_all (\<lambda>k. is_number (jget p k)) [''latitude'', ''longitude'', ''speed_knots'', ''heading_degrees''] \<and>
     (\<exists>la lo sp he. to_float (jget p ''latitude'') = Inr (PFin la) \<and> -90 \<le> la \<and> la \<le> 90 \<and>
        to_float (jget p ''longitude'') = Inr (PFin lo) \<and> -180 \<le> lo \<and> lo \<le> 180 \<and>
        to_float (jget p ''speed_knots'') = Inr (PFin sp) \<and> 0 \<le> sp \<and>
        to_float (jget p ''heading_degrees'') = Inr (PFin he) \<and> 0 \<le> he \<and> he < 360)"
proof -
  have fin: "(\<exists>x. r = Inr x \<and> x \<and> Q) \<longleftrightarrow> r = Inr True \<and> Q" "(\<exists>x. r = Inr x \<and> x) \<longleftrightarrow> r = Inr True"
    for r :: "bool res" and Q by auto
  show ?thesis
    by (auto simp: validate_maritime_position_def Let_def fin all_finite_iff res_simps not_less simp del: all_finite.simps)
qed

text \<open>
  A position whose latitude is an integer from \<open>2 ^ 1024\<close> on is refused with an
  \<open>OverflowError\<close>, which is not a \<open>ValueError\<close>: the handlers that quarantine bad records do not catch it.
\<close>

theorem huge_latitude_overflows:
  assumes "set position_fields \<subseteq> fst ` set p" "require_canonical_text (jget p ''asset_id'') 256 = Inr s"
    and "list_all (\<lambda>k. is_number (jget p k)) [''longitude'', ''speed_knots'', ''heading_degrees'']"
    and "jget p ''latitude'' = JInt i" "2 ^ 1024 \<le> \<bar>i\<bar>"
  shows "\<exists>m. validate_maritime_position (JObj p) = Inl (Exn OverflowError m) \<and> \<not> is_value_error OverflowError"
  using assms float_of_int_overflow [OF assms(5)]
  by (simp add: validate_maritime_position_def Let_def)

lemma huge_latitude_overflows_witness:
  "\<exists>m. validate_maritime_position (JObj [(''asset_id'', JStr ''a''), (''latitude'', JInt (2 ^ 1024)),
     (''longitude'', JInt 0), (''speed_knots'', JInt 0), (''heading_degrees'', JInt 0)]) = Inl (Exn OverflowError m)"
proof -
  let ?p = "[(''asset_id'', JStr ''a''), (''latitude'', JInt (2 ^ 1024)), (''longitude'', JInt 0),
     (''speed_knots'', JInt 0), (''heading_degrees'', JInt 0)]"
  have "set position_fields \<subseteq> fst ` set ?p" by (simp add: position_fields_def)
  moreover have "require_canonical_text (jget ?p ''asset_id'') 256 = Inr ''a''" by code_simp
  moreover have "list_all (\<lambda>k. is_number (jget ?p k)) [''longitude'', ''speed_knots'', ''heading_degrees'']" by simp
  moreover have "jget ?p ''latitude'' = JInt (2 ^ 1024)" "(2 :: int) ^ 1024 \<le> \<bar>2 ^ 1024\<bar>" by simp_all
  ultimately show ?thesis using huge_latitude_overflows [of ?p "''a''"] by blast
qed

end
