(* ===== verification/Storage.thy ===== *)
theory Storage
  imports Segregation
begin

text \<open>
  \<open>storage.py\<close>: the lakehouse roots and the storage-client options resolved from environment
  variables.  The environment is a dictionary of texts; \<open>os.environ\<close> is one of them.
\<close>

type_synonym environ = "(string \<times> string) list"

definition env_get :: "environ \<Rightarrow> string \<Rightarrow> string" where
  "env_get env name = (case map_of env name of None \<Rightarrow> [] | Some v \<Rightarrow> v)"

definition AZURE_CLOUDS :: "(string \<times> string) list" where
  "AZURE_CLOUDS = [(''AzureCloud'', ''dfs.core.windows.net''),
                   (''AzureUSGovernment'', ''dfs.core.usgovcloudapi.net'')]"

definition lower_or_digit :: "char \<Rightarrow> bool" where
  "lower_or_digit c = (is_lower c \<or> is_digit c)"

section \<open>The name patterns\<close>

definition account_name_pattern :: "string \<Rightarrow> bool" where
  "account_name_pattern s = (3 \<le> length s \<and> length s \<le> 24 \<and> list_all lower_or_digit s)"

definition filesystem_name_pattern :: "string \<Rightarrow> bool" where
  "filesystem_name_pattern s =
     ((length s = 1 \<or> (3 \<le> length s \<and> length s \<le> 63)) \<and> lower_or_digit (hd s) \<and> lower_or_digit (last s) \<and>
      list_all (\<lambda>c. lower_or_digit c \<or> c = CHR ''-'') s)"

definition s3_bucket_pattern :: "string \<Rightarrow> bool" where
  "s3_bucket_pattern s =
     (3 \<le> length s \<and> length s \<le> 63 \<and> lower_or_digit (hd s) \<and> lower_or_digit (last s) \<and>
      list_all (\<lambda>c. lower_or_digit c \<or> c = CHR ''.'' \<or> c = CHR ''-'') s)"

definition s3_ip_address_pattern :: "string \<Rightarrow> bool" where
  "s3_ip_address_pattern s =
     (let parts = split_on (CHR ''.'') s
      in length parts = 4 \<and> list_all (\<lambda>p. 1 \<le> length p \<and> length p \<le> 3 \<and> list_all is_digit p) parts)"

definition s3_region_pattern :: "string \<Rightarrow> bool" where
  "s3_region_pattern s =
     (let word = (\<lambda>w. w \<noteq> [] \<and> list_all is_lower w); digit = (\<lambda>d. length d = 1 \<and> list_all is_digit d)
      in case split_on (CHR ''-'') s of
           [a, w, d] \<Rightarrow> length a = 2 \<and> word a \<and> word w \<and> digit d
         | [a, g, w, d] \<Rightarrow> length a = 2 \<and> word a \<and> g = ''gov'' \<and> word w \<and> digit d
         | _ \<Rightarrow> False)"

section \<open>Reading the environment\<close>

definition require_env :: "environ \<Rightarrow> string \<Rightarrow> string res" where
  "require_env env name =
     bindR (guard (canonical (env_get env name)) StorageConfigurationError
              ''environment variable must be set and canonical'') (\<lambda>_. Inr (env_get env name))"

datatype backend = BACKEND_ADLS | BACKEND_S3 | BACKEND_LOCAL

text \<open>The aliases map to the canonical names; the canonical names stand for themselves.\<close>

definition canonical_backend :: "string \<Rightarrow> backend res" where
  "canonical_backend raw_backend =
     (let b = (if raw_backend = ''adls-gen2'' then ''adls'' else if raw_backend = ''local'' then ''local-gated'' else raw_backend)
      in bindR (guard (b \<noteq> []) StorageConfigurationError ''refusing to assume a storage backend'') (\<lambda>_.
         if b = ''adls'' then Inr BACKEND_ADLS
         else if b = ''s3'' then Inr BACKEND_S3
         else if b = ''local-gated'' then Inr BACKEND_LOCAL
         else raise StorageConfigurationError ''not a supported backend''))"

record adls_config =
  adls_account :: string
  adls_filesystem :: string
  adls_cloud :: string

definition endpoint_suffix :: "adls_config \<Rightarrow> string res" where
  "endpoint_suffix c = require_some (map_of AZURE_CLOUDS (adls_cloud c)) KeyError (adls_cloud c)"

definition abfs_base_uri :: "adls_config \<Rightarrow> string res" where
  "abfs_base_uri c = bindR (endpoint_suffix c) (\<lambda>suffix.
     Inr (''abfs://'' @ adls_filesystem c @ ''@'' @ adls_account c @ ''.'' @ suffix))"

record s3_config =
  s3_bucket :: string
  s3_region :: string
  s3_endpoint_url :: "string option"
  s3_secure :: bool

definition s3_base_uri :: "s3_config \<Rightarrow> string" where
  "s3_base_uri c = ''s3://'' @ s3_bucket c"

definition storage_options :: "s3_config \<Rightarrow> (string \<times> string) list" where
  "storage_options c =
     [(''AWS_REGION'', s3_region c)] @
     (case s3_endpoint_url c of None \<Rightarrow> [] | Some u \<Rightarrow> [(''AWS_ENDPOINT_URL'', u)]) @
     (if s3_secure c then [] else [(''AWS_ALLOW_HTTP'', ''true'')])"

definition load_adls_config :: "environ \<Rightarrow> adls_config res" where
  "load_adls_config env =
     bindR (require_env env ''BLUEECONOMY_AZURE_CLOUD'') (\<lambda>cloud.
     bindR (guard (cloud \<in> fst ` set AZURE_CLOUDS) StorageConfigurationError
              ''use AzureUSGovernment for the CVFF segregated lakehouse'') (\<lambda>_.
     bindR (require_env env ''BLUEECONOMY_STORAGE_ACCOUNT'') (\<lambda>account.
     bindR (guard (account_name_pattern account) StorageConfigurationError
              ''must be a valid storage account name'') (\<lambda>_.
     bindR (require_env env ''BLUEECONOMY_STORAGE_FILESYSTEM'') (\<lambda>filesystem.
     bindR (guard (filesystem_name_pattern filesystem) StorageConfigurationError
              ''must be a valid ADLS Gen2 filesystem name'') (\<lambda>_.
     Inr \<lparr>adls_account = account, adls_filesystem = filesystem, adls_cloud = cloud\<rparr>))))))"

section \<open>S3 names\<close>

definition validate_s3_bucket_name :: "string \<Rightarrow> string res" where
  "validate_s3_bucket_name bucket =
     bindR (guard (s3_bucket_pattern bucket) StorageConfigurationError
              ''S3 bucket names must be 3-63 characters of lowercase letters, digits, dots and hyphens'') (\<lambda>_.
     bindR (guard (\<not> s3_ip_address_pattern bucket) StorageConfigurationError
              ''S3 bucket names must not look like an IP address'') (\<lambda>_.
     bindR (guard (\<not> (sublist ''..'' bucket \<or> sublist ''.-'' bucket \<or> sublist ''-.'' bucket)) StorageConfigurationError
              ''S3 bucket names must not contain consecutive dots or dot-hyphen adjacency'') (\<lambda>_.
     Inr bucket)))"

definition validate_s3_key :: "string \<Rightarrow> string res" where
  "validate_s3_key key =
     bindR (guard (key \<noteq> [] \<and> hd key \<noteq> CHR ''/'') StorageConfigurationError
              ''S3 keys must be non-empty and must not start with a slash'') (\<lambda>_.
     bindR (guard (utf8_len key \<le> 1024) StorageConfigurationError ''S3 keys must not exceed 1024 UTF-8 bytes'') (\<lambda>_.
     bindR (guard (\<not> list_ex (\<lambda>c. code c < 32 \<or> code c = 127) key) StorageConfigurationError
              ''S3 keys must not contain control characters'') (\<lambda>_.
     bindR (guard (\<not> list_ex (\<lambda>s. s \<in> {[], ''.'', ''..''}) (split_on (CHR ''/'') key)) StorageConfigurationError
              ''S3 keys must not contain empty or dot path segments'') (\<lambda>_.
     Inr key))))"

definition validate_s3_uri :: "string \<Rightarrow> (string \<times> string) res" where
  "validate_s3_uri uri =
     bindR (guard (canonical uri) StorageConfigurationError ''S3 URI must be canonical non-empty text'') (\<lambda>_.
     bindR (urlsplit uri) (\<lambda>parsed.
     bindR (guard (url_scheme parsed = ''s3'') StorageConfigurationError ''S3 URI must use the s3:// scheme'') (\<lambda>_.
     bindR (guard (\<not> url_has_extras parsed) StorageConfigurationError
              ''S3 URIs must not contain embedded credentials, query parameters or fragments'') (\<lambda>_.
     bindR (validate_s3_bucket_name (url_netloc parsed)) (\<lambda>bucket.
     bindR (guard (prefix ''/'' (url_path parsed)) StorageConfigurationError ''S3 URI must name an object key'') (\<lambda>_.
     bindR (validate_s3_key (drop 1 (url_path parsed))) (\<lambda>key.
     Inr (bucket, key))))))))"

definition validate_s3_endpoint :: "string \<Rightarrow> bool \<Rightarrow> string res" where
  "validate_s3_endpoint endpoint_url secure =
     bindR (urlsplit endpoint_url) (\<lambda>parsed.
     bindR (guard (url_scheme parsed = (if secure then ''https'' else ''http'')) StorageConfigurationError
              ''endpoint must use the expected scheme'') (\<lambda>_.
     bindR (guard (\<not> url_has_extras parsed) StorageConfigurationError
              ''endpoint must not contain credentials, query parameters or fragments'') (\<lambda>_.
     bindR (guard (url_path parsed \<in> {[], ''/''}) StorageConfigurationError ''endpoint must not contain a path'') (\<lambda>_.
     bindR (guard (fst (url_hostinfo parsed) \<noteq> []) StorageConfigurationError ''endpoint must name a valid host'') (\<lambda>_.
     bindR (case url_port parsed of
              Inl e \<Rightarrow> if is_value_error (exn_class e)
                       then raise StorageConfigurationError ''endpoint has an invalid port'' else Inl e
            | Inr p \<Rightarrow> Inr p) (\<lambda>port.
     bindR (guard (case port of None \<Rightarrow> True | Some p \<Rightarrow> 1 \<le> p \<and> p \<le> 65535) StorageConfigurationError
              ''endpoint has an invalid port'') (\<lambda>_.
     Inr endpoint_url)))))))"

definition load_s3_config :: "environ \<Rightarrow> s3_config res" where
  "load_s3_config env =
     bindR (require_env env ''BLUEECONOMY_S3_BUCKET'') (\<lambda>raw_bucket.
     bindR (validate_s3_bucket_name raw_bucket) (\<lambda>bucket.
     bindR (require_env env ''BLUEECONOMY_S3_REGION'') (\<lambda>region.
     bindR (guard (s3_region_pattern region) StorageConfigurationError ''must be a valid region identifier'') (\<lambda>_.
     bindR (require_env env ''BLUEECONOMY_S3_SECURE'') (\<lambda>secure_raw.
     bindR (guard (secure_raw \<in> {''true'', ''false''}) StorageConfigurationError ''must be exactly true or false'') (\<lambda>_.
     let secure = (secure_raw = ''true''); endpoint_raw = env_get env ''BLUEECONOMY_S3_ENDPOINT_URL''
     in bindR (if endpoint_raw \<noteq> []
               then bindR (guard (endpoint_raw = strip endpoint_raw) StorageConfigurationError ''must be canonical'') (\<lambda>_.
                    bindR (validate_s3_endpoint endpoint_raw secure) (\<lambda>u. Inr (Some u)))
               else bindR (guard secure StorageConfigurationError ''AWS S3 transport is always TLS'') (\<lambda>_. Inr None))
        (\<lambda>endpoint. Inr \<lparr>s3_bucket = bucket, s3_region = region, s3_endpoint_url = endpoint, s3_secure = secure\<rparr>)))))))"

section \<open>Local roots\<close>

text \<open>
  \<open>str(PurePosixPath(p))\<close> of an absolute path: repeated slashes and \<open>.\<close> components go, exactly two
  leading slashes stay two.
\<close>

definition posix_path_str :: "string \<Rightarrow> string" where
  "posix_path_str p =
     (let comps = filter (\<lambda>c. c \<noteq> [] \<and> c \<noteq> ''.'') (split_on (CHR ''/'') p);
          slashes = length (takeWhile (\<lambda>c. c = CHR ''/'') p)
      in (if slashes = 0 then [] else if slashes = 2 then ''//'' else ''/'') @
         concat (case comps of [] \<Rightarrow> (if slashes = 0 then [''.''] else []) | c # cs \<Rightarrow> c # map (\<lambda>x. CHR ''/'' # x) cs))"

definition load_local_root :: "environ \<Rightarrow> string res" where
  "load_local_root env =
     bindR (guard (env_get env ''BLUEECONOMY_ALLOW_LOCAL_STORAGE'' = ''true'') StorageConfigurationError
              ''local storage requires an explicit development opt-in'') (\<lambda>_.
     bindR (require_env env ''BLUEECONOMY_LOCAL_LAKEHOUSE_ROOT'') (\<lambda>p.
     bindR (guard (prefix ''/'' p) StorageConfigurationError ''must be an absolute path'') (\<lambda>_.
     Inr (posix_path_str p))))"

section \<open>Roots and client options\<close>

definition resolve_lakehouse_root :: "lakehouse_scope \<Rightarrow> environ \<Rightarrow> string res" where
  "resolve_lakehouse_root scope env =
     bindR (canonical_backend (env_get env ''BLUEECONOMY_STORAGE_BACKEND'')) (\<lambda>b.
     bindR (case b of
              BACKEND_ADLS \<Rightarrow> bindR (load_adls_config env) abfs_base_uri
            | BACKEND_S3 \<Rightarrow> bindR (load_s3_config env) (\<lambda>c. Inr (s3_base_uri c))
            | BACKEND_LOCAL \<Rightarrow> load_local_root env) (\<lambda>base.
     Inr (base @ ''/'' @ layer_prefix scope)))"

definition resolve_storage_options :: "environ \<Rightarrow> (string \<times> string) list res" where
  "resolve_storage_options env =
     bindR (canonical_backend (env_get env ''BLUEECONOMY_STORAGE_BACKEND'')) (\<lambda>b.
     case b of
       BACKEND_S3 \<Rightarrow> bindR (load_s3_config env) (\<lambda>c. Inr (storage_options c))
     | BACKEND_ADLS \<Rightarrow> bindR (load_adls_config env) (\<lambda>_. Inr [])
     | BACKEND_LOCAL \<Rightarrow> bindR (load_local_root env) (\<lambda>_. Inr []))"

section \<open>Lemmas\<close>

lemma lower_or_digit_plain: "lower_or_digit c \<Longrightarrow> plain_segment_char c"
  by (auto simp: lower_or_digit_def plain_segment_char_def plain_url_char_def char_class_defs)

lemma bucket_plain: "s3_bucket_pattern b \<Longrightarrow> list_all plain_segment_char b \<and> b \<noteq> [] \<and> CHR ''@'' \<notin> set b"
  by (auto simp: s3_bucket_pattern_def list_all_iff dest: lower_or_digit_plain)
     (auto simp: plain_segment_char_def plain_url_char_def lower_or_digit_def char_class_defs)

lemma validate_bucket_Inr: "validate_s3_bucket_name b = Inr b' \<Longrightarrow> b' = b \<and> s3_bucket_pattern b"
  by (auto simp: validate_s3_bucket_name_def res_simps)

text \<open>
  A root \<open>scheme://netloc/scope\<close> with plain characters is accepted by the writer of that scope, and every
  layer of the writer resolves below it.
\<close>

definition layer_names :: "string list" where
  "layer_names = [''bronze'', ''silver'', ''gold'']"

lemma scope_value_ends: "scope_value s \<noteq> [] \<and> is_lower (last (scope_value s)) \<and> CHR ''/'' \<notin> set (scope_value s)"
  by (cases s) (simp_all add: is_lower_def code_def)

lemma in_all_scopes [simp]: "s \<in> set all_scopes"
  by (cases s) (simp_all add: all_scopes_def)

lemma terminal_declares: "components_declare [scope_value s] = (if s = PLATFORM then {} else {s})"
proof -
  have "list_all (\<lambda>s. filter (\<lambda>x. list_ex (root_component_match x) [scope_value s]) SEGREGATED_SCOPES =
      (if s = PLATFORM then [] else [s])) all_scopes" by code_simp
  then have "filter (\<lambda>x. list_ex (root_component_match x) [scope_value s]) SEGREGATED_SCOPES =
      (if s = PLATFORM then [] else [s])" by (simp only: list_all_iff in_all_scopes)
  then show ?thesis by (simp only: components_declare_def) simp
qed

lemma layer_path_declares:
  assumes "layer \<in> set layer_names"
  shows "components_declare (path_components (CHR ''/'' # scope_value s @ ''/'' @ scope_value s @ ''_'' @ layer @ ''/events'')) =
     (if s = PLATFORM then {} else {s})"
proof -
  have "list_all (\<lambda>s. list_all (\<lambda>layer. filter (\<lambda>x. list_ex (root_component_match x)
        (path_components (CHR ''/'' # scope_value s @ ''/'' @ scope_value s @ ''_'' @ layer @ ''/events''))) SEGREGATED_SCOPES =
      (if s = PLATFORM then [] else [s])) layer_names) all_scopes"
    by code_simp
  with assms have "filter (\<lambda>x. list_ex (root_component_match x)
        (path_components (CHR ''/'' # scope_value s @ ''/'' @ scope_value s @ ''_'' @ layer @ ''/events''))) SEGREGATED_SCOPES =
      (if s = PLATFORM then [] else [s])" by (simp only: list_all_iff in_all_scopes)
  then show ?thesis by (simp only: components_declare_def) simp
qed

lemma layer_tail_plain:
  assumes "layer \<in> set layer_names"
  shows "list_all plain_url_char (scope_value s @ ''_'' @ layer @ ''/events'')"
proof -
  have "list_all plain_url_char (''_'' @ layer @ ''/events'')"
    using assms by (auto simp: layer_names_def plain_url_char_def code_def)
  moreover have "list_all plain_url_char (scope_value s)"
    using scope_value_plain [of s] by (auto simp only: list_all_iff plain_segment_char_def)
  ultimately show ?thesis by (simp only: list_all_append)
qed

text \<open>
  The contract of an object-store backend: its URIs have one scheme and a network location of plain
  characters.  Its clients get that every scope root it produces is usable.
\<close>

locale backend_roots =
  fixes sch :: string and netloc :: "string \<Rightarrow> bool"
  assumes sch_ok: "sch \<noteq> []" "is_alpha (hd sch)" "list_all scheme_char sch"
    and net_ok: "netloc net \<Longrightarrow> list_all plain_segment_char net"
begin

abbreviation base :: "string \<Rightarrow> lakehouse_scope \<Rightarrow> string" where
  "base net s \<equiv> sch @ ''://'' @ net @ CHR ''/'' # scope_value s"

lemma base_canonical: "canonical (base net s)"
proof -
  have "\<not> py_space (hd sch)" using sch_ok by (auto simp: char_class_defs)
  moreover have "\<not> py_space (last (scope_value s))"
    using scope_value_ends [of s] by (auto simp: char_class_defs)
  ultimately show ?thesis using sch_ok(1) scope_value_ends [of s] by (simp add: canonical_iff)
qed

lemma base_terminal:
  "rstrip_char (CHR ''/'') (base net s) = base net s" "after_last (CHR ''/'') (base net s) = scope_value s"
proof -
  have "last (scope_value s) \<noteq> CHR ''/''" using scope_value_ends [of s] last_in_set by metis
  then show "rstrip_char (CHR ''/'') (base net s) = base net s"
    using scope_value_ends [of s] by (intro rstrip_char_id) simp_all
  have "after_last (CHR ''/'') ((sch @ ''://'' @ net) @ CHR ''/'' # scope_value s) = scope_value s"
    using scope_value_ends by (intro after_last_append) simp
  then show "after_last (CHR ''/'') (base net s) = scope_value s" by simp
qed

lemma urlsplit_below:
  assumes "netloc net" "list_all plain_url_char t"
  shows "urlsplit (base net s @ CHR ''/'' # t) =
    Inr \<lparr>url_scheme = lower_ascii sch, url_netloc = net, url_path = CHR ''/'' # scope_value s @ CHR ''/'' # t,
         url_query = [], url_fragment = []\<rparr>"
proof -
  have "list_all plain_url_char (scope_value s)"
    using scope_value_plain [of s] by (auto simp only: list_all_iff plain_segment_char_def)
  moreover have "plain_url_char (CHR ''/'')" by (simp add: plain_url_char_def)
  ultimately have "list_all plain_url_char (CHR ''/'' # scope_value s @ CHR ''/'' # t)"
    using assms by (simp only: list.pred_inject list_all_append simp_thms)
  from urlsplit_hier [OF sch_ok net_ok [OF assms(1)] _ this] show ?thesis
    by (simp only: append_assoc append_Cons list.sel simp_thms True_implies_equals)
qed

lemma writer_accepts:
  assumes "netloc net" "layer \<in> set layer_names"
  shows "\<exists>w. new_writer s (base net s) = Inr w \<and> writer_scope w = s \<and>
     table_uri w layer = Inr (base net s @ CHR ''/'' # scope_value s @ ''_'' @ layer @ ''/events'')"
proof -
  obtain roots where b: "build_lakehouse_roots s (base net s) = Inr roots"
    by (simp only: build_roots_iff base_canonical base_terminal terminal_declares simp_thms)
  let ?u = "base net s @ CHR ''/'' # scope_value s @ ''_'' @ layer @ ''/events''"
  from b have r: "roots_bronze roots = base net s @ ''/'' @ scope_value s @ ''_bronze/events''"
    "roots_silver roots = base net s @ ''/'' @ scope_value s @ ''_silver/events''"
    "roots_gold roots = base net s @ ''/'' @ scope_value s @ ''_gold/events''"
    by (simp_all only: build_roots_iff base_terminal lakehouse_roots.simps)
  from assms consider "layer = ''bronze''" | "layer = ''silver''" | "layer = ''gold''"
    by (auto simp: layer_names_def)
  then have l: "for_layer roots layer = Inr ?u" by cases (simp_all add: for_layer_def r)
  from urlsplit_below [OF assms(1) layer_tail_plain [OF assms(2), of s], of s] layer_path_declares [OF assms(2), of s]
  have "require_scope_table_uri s ?u = Inr ()"
    by (simp add: require_scope_iff scopes_declared_by_uri_def)
  with b l build_roots_scope [OF b] show ?thesis
    by (simp add: new_writer_def table_uri_def writer_scope_def)
qed

end

definition abfs_netloc :: "string \<Rightarrow> bool" where
  "abfs_netloc n = (\<exists>fs account suffix. filesystem_name_pattern fs \<and> account_name_pattern account \<and>
     suffix \<in> snd ` set AZURE_CLOUDS \<and> n = fs @ ''@'' @ account @ ''.'' @ suffix)"

interpretation s3_roots: backend_roots "''s3''" s3_bucket_pattern
  by unfold_locales (use bucket_plain in \<open>auto simp: scheme_char_def char_class_defs\<close>)

lemma filesystem_plain: "filesystem_name_pattern f \<Longrightarrow> list_all plain_segment_char f \<and> f \<noteq> [] \<and> CHR ''@'' \<notin> set f"
  by (auto simp: filesystem_name_pattern_def list_all_iff dest: lower_or_digit_plain)
     (auto simp: plain_segment_char_def plain_url_char_def lower_or_digit_def char_class_defs)

lemma account_plain: "account_name_pattern a \<Longrightarrow> list_all plain_segment_char a \<and> CHR ''@'' \<notin> set a"
  by (auto simp: account_name_pattern_def list_all_iff dest: lower_or_digit_plain)
     (auto simp: lower_or_digit_def char_class_defs)

lemma suffix_plain: "x \<in> snd ` set AZURE_CLOUDS \<Longrightarrow> list_all plain_segment_char x \<and> CHR ''@'' \<notin> set x"
  by (auto simp: AZURE_CLOUDS_def plain_segment_char_def plain_url_char_def code_def)

interpretation abfs_roots: backend_roots "''abfs''" abfs_netloc
proof
  fix net assume "abfs_netloc net"
  then obtain f a x where "filesystem_name_pattern f" "account_name_pattern a" "x \<in> snd ` set AZURE_CLOUDS"
    "net = f @ ''@'' @ a @ ''.'' @ x" unfolding abfs_netloc_def by blast
  with filesystem_plain [of f] account_plain [of a] suffix_plain [of x] show "list_all plain_segment_char net"
    by (simp add: plain_segment_char_def plain_url_char_def code_def)
qed (simp_all add: scheme_char_def char_class_defs)

lemma resolve_s3:
  assumes "canonical_backend (env_get env ''BLUEECONOMY_STORAGE_BACKEND'') = Inr BACKEND_S3"
    and "resolve_lakehouse_root s env = Inr base"
  shows "\<exists>bucket. s3_bucket_pattern bucket \<and> base = ''s3://'' @ bucket @ CHR ''/'' # scope_value s"
  using assms
  by (auto simp: resolve_lakehouse_root_def load_s3_config_def s3_base_uri_def layer_prefix_def res_simps Let_def
      dest: validate_bucket_Inr)

lemma resolve_adls:
  assumes "canonical_backend (env_get env ''BLUEECONOMY_STORAGE_BACKEND'') = Inr BACKEND_ADLS"
    and "resolve_lakehouse_root s env = Inr base"
  shows "\<exists>fs account suffix. filesystem_name_pattern fs \<and> account_name_pattern account \<and>
     suffix \<in> snd ` set AZURE_CLOUDS \<and>
     base = ''abfs://'' @ (fs @ ''@'' @ account @ ''.'' @ suffix) @ CHR ''/'' # scope_value s"
  using assms
  by (auto simp: resolve_lakehouse_root_def load_adls_config_def abfs_base_uri_def endpoint_suffix_def
      layer_prefix_def res_simps dest!: map_of_SomeD) force+

section \<open>Properties\<close>

text \<open>
  A root resolved for a cloud backend is always usable: the writer of the scope accepts
  it, and each of its layers resolves to the scope's layer directory below that root.
\<close>

theorem resolved_root_usable:
  assumes "resolve_lakehouse_root s env = Inr base"
    and "canonical_backend (env_get env ''BLUEECONOMY_STORAGE_BACKEND'') \<noteq> Inr BACKEND_LOCAL"
    and "layer \<in> set layer_names"
  shows "\<exists>w. new_writer s base = Inr w \<and> writer_scope w = s \<and>
     table_uri w layer = Inr (base @ ''/'' @ scope_value s @ ''_'' @ layer @ ''/events'')"
proof -
  from assms(1) obtain b where b: "canonical_backend (env_get env ''BLUEECONOMY_STORAGE_BACKEND'') = Inr b"
    by (auto simp: resolve_lakehouse_root_def res_simps)
  show ?thesis
  proof (cases b)
    case BACKEND_S3
    with resolve_s3 [OF _ assms(1)] b obtain k
      where "s3_bucket_pattern k" "base = ''s3://'' @ k @ CHR ''/'' # scope_value s" by auto
    with s3_roots.writer_accepts [OF this(1) assms(3), of s] show ?thesis by simp
  next
    case BACKEND_ADLS
    with resolve_adls [OF _ assms(1)] b obtain f a x
      where n: "abfs_netloc (f @ ''@'' @ a @ ''.'' @ x)"
        "base = ''abfs://'' @ (f @ ''@'' @ a @ ''.'' @ x) @ CHR ''/'' # scope_value s"
      unfolding abfs_netloc_def by blast
    from abfs_roots.writer_accepts [OF n(1) assms(3), of s] n(2) show ?thesis by simp
  next
    case BACKEND_LOCAL
    with b assms(2) show ?thesis by simp
  qed
qed

definition witness_env :: environ where
  "witness_env =
     [(''BLUEECONOMY_STORAGE_BACKEND'', ''s3''), (''BLUEECONOMY_S3_BUCKET'', ''lake-01''),
      (''BLUEECONOMY_S3_REGION'', ''us-gov-west-1''), (''BLUEECONOMY_S3_SECURE'', ''false''),
      (''BLUEECONOMY_S3_ENDPOINT_URL'', ''http://minio'')]"

lemma resolved_root_usable_witness:
  "\<exists>w. new_writer ISR ''s3://lake-01/isr'' = Inr w \<and>
     table_uri w ''gold'' = Inr ''s3://lake-01/isr/isr_gold/events''"
proof -
  have a: "resolve_lakehouse_root ISR witness_env = Inr ''s3://lake-01/isr''"
    "canonical_backend (env_get witness_env ''BLUEECONOMY_STORAGE_BACKEND'') \<noteq> Inr BACKEND_LOCAL"
    by code_simp+
  have "''gold'' \<in> set layer_names" by (simp add: layer_names_def)
  from resolved_root_usable [OF a this] show ?thesis by auto
qed

text \<open>
  Transport security of S3: a loaded configuration has TLS off only with an explicit
  endpoint, an endpoint always has the scheme that matches, a host, and no credentials, path, query
  or fragment, and the client options never contain a credential.
\<close>

theorem s3_config_transport:
  assumes "load_s3_config env = Inr c"
  shows "(s3_endpoint_url c = None \<longrightarrow> s3_secure c) \<and>
     (\<forall>u. s3_endpoint_url c = Some u \<longrightarrow> (\<exists>p. urlsplit u = Inr p \<and>
        url_scheme p = (if s3_secure c then ''https'' else ''http'') \<and> \<not> url_has_extras p \<and>
        fst (url_hostinfo p) \<noteq> [] \<and> url_path p \<in> {[], ''/''})) \<and>
     fst ` set (storage_options c) \<subseteq> {''AWS_REGION'', ''AWS_ENDPOINT_URL'', ''AWS_ALLOW_HTTP''}"
proof -
  have e: "u' = u \<and> (\<exists>p. urlsplit u = Inr p \<and> url_scheme p = (if sec then ''https'' else ''http'') \<and>
      \<not> url_has_extras p \<and> fst (url_hostinfo p) \<noteq> [] \<and> url_path p \<in> {[], ''/''})"
    if "validate_s3_endpoint u sec = Inr u'" for u u' sec
    using that by (auto simp: validate_s3_endpoint_def res_simps)
  from assms obtain bucket region secure endpoint
    where c: "c = \<lparr>s3_bucket = bucket, s3_region = region, s3_endpoint_url = endpoint, s3_secure = secure\<rparr>"
      and ep: "(endpoint = None \<and> secure) \<or> (\<exists>raw u. endpoint = Some u \<and> validate_s3_endpoint raw secure = Inr u)"
    by (auto simp: load_s3_config_def res_simps Let_def split: if_splits; blast)
  from ep show ?thesis
    by (auto simp: c storage_options_def dest: e split: option.splits)
qed

lemma s3_config_transport_witness:
  "\<exists>c. load_s3_config witness_env = Inr c \<and> \<not> s3_secure c \<and> s3_endpoint_url c \<noteq> None"
proof -
  have "is_ok (load_s3_config witness_env)" by code_simp
  then obtain c where c: "load_s3_config witness_env = Inr c" by (auto simp: is_ok_iff)
  have "\<not> is_ok (bindR (load_s3_config witness_env) (\<lambda>c. guard (s3_secure c) ValueError []))" by code_simp
  with c have "\<not> s3_secure c" by simp
  with c s3_config_transport [OF c] show ?thesis by blast
qed

text \<open>
  Round trip of S3 locations: the URI made of a valid bucket and a valid key of plain
  characters validates, and yields that bucket and that key again.
\<close>

theorem validate_s3_uri_roundtrip:
  assumes "validate_s3_bucket_name b = Inr b" "validate_s3_key k = Inr k"
    and "list_all plain_url_char k" "\<not> py_space (last k)"
  shows "validate_s3_uri (''s3://'' @ b @ ''/'' @ k) = Inr (b, k)"
proof -
  from validate_bucket_Inr [OF assms(1)] have b: "s3_bucket_pattern b" by simp
  from assms(2) have k: "k \<noteq> []" by (auto simp: validate_s3_key_def res_simps)
  have "list_all plain_url_char (CHR ''/'' # k)" using assms(3) by (simp add: plain_url_char_def)
  from urlsplit_hier [OF s3_roots.sch_ok s3_roots.net_ok [OF b] _ this]
  have u: "urlsplit (''s3://'' @ b @ ''/'' @ k) =
      Inr \<lparr>url_scheme = ''s3'', url_netloc = b, url_path = CHR ''/'' # k, url_query = [], url_fragment = []\<rparr>"
    by (simp add: lower_ascii_def is_upper_def code_def)
  have c: "canonical (''s3://'' @ b @ ''/'' @ k)"
    using k assms(4) by (simp add: canonical_iff py_space_def code_def Let_def)
  have "\<not> url_has_extras \<lparr>url_scheme = ''s3'', url_netloc = b, url_path = CHR ''/'' # k, url_query = [], url_fragment = []\<rparr>"
    using bucket_plain [OF b] by (simp add: url_has_extras_def url_userinfo_def truthy_def)
  with u c assms(1,2) show ?thesis by (simp add: validate_s3_uri_def)
qed

lemma validate_s3_uri_roundtrip_witness:
  "validate_s3_uri (''s3://'' @ ''lake-01'' @ ''/'' @ ''raw/day=1'') = Inr (''lake-01'', ''raw/day=1'')"
proof -
  have "validate_s3_bucket_name ''lake-01'' = Inr ''lake-01''" "validate_s3_key ''raw/day=1'' = Inr ''raw/day=1''"
    "list_all plain_url_char ''raw/day=1''" "\<not> py_space (last ''raw/day=1'')"
    by code_simp+
  then show ?thesis by (rule validate_s3_uri_roundtrip)
qed

text \<open>
  No traversal: a validated S3 URI has no user information, its network location is a bucket
  name, and no segment of its key is empty or a dot segment.
\<close>

theorem validate_s3_uri_sound:
  assumes "validate_s3_uri u = Inr (b, k)"
  shows "\<exists>p. urlsplit u = Inr p \<and> url_scheme p = ''s3'' \<and> url_netloc p = b \<and> url_path p = CHR ''/'' # k \<and>
     s3_bucket_pattern b \<and> CHR ''@'' \<notin> set b \<and> \<not> s3_ip_address_pattern b \<and>
     set (split_on (CHR ''/'') k) \<inter> {[], ''.'', ''..''} = {} \<and> utf8_len k \<le> 1024"
proof -
  from assms obtain p where p: "urlsplit u = Inr p" "url_scheme p = ''s3''"
    and b: "validate_s3_bucket_name (url_netloc p) = Inr b"
    and pre: "prefix ''/'' (url_path p)" and k: "validate_s3_key (drop 1 (url_path p)) = Inr k"
    by (auto simp: validate_s3_uri_def res_simps)
  from k have k': "k = drop 1 (url_path p)" "utf8_len k \<le> 1024" "set (split_on (CHR ''/'') k) \<inter> {[], ''.'', ''..''} = {}"
    by (auto simp: validate_s3_key_def res_simps list_ex_iff)
  from pre k'(1) have "url_path p = CHR ''/'' # k" by (auto simp: prefix_def)
  moreover have "\<not> s3_ip_address_pattern b" using b by (auto simp: validate_s3_bucket_name_def res_simps)
  moreover note bucket_plain validate_bucket_Inr [OF b]
  ultimately show ?thesis using p k' by blast
qed

lemma validate_s3_uri_sound_witness:
  "validate_s3_uri ''s3://lake-01/a/b'' = Inr (''lake-01'', ''a/b'') \<and> s3_bucket_pattern ''lake-01''"
proof -
  have a: "validate_s3_uri ''s3://lake-01/a/b'' = Inr (''lake-01'', ''a/b'')" by code_simp
  from validate_s3_uri_sound [OF a] a show ?thesis by blast
qed

end
