(* ===== verification/Delta_Append.thy ===== *)
theory Delta_Append
  imports Ingest Storage
begin

text \<open>
  The append path of \<open>ingest.py\<close>: the replay guard and the insert-only merge with its bounded commit
  retries.  Delta Lake and Arrow are parameters: a record of the calls the code makes, over an
  abstract world \<open>'w\<close> (the object store) and abstract table handles \<open>'t\<close>.  \<open>Table.from_pylist\<close> returns the rows of
  the Arrow table it makes; these, not the dictionaries it was given, are what is written.  A call returns its result
  or the exception it raised; \<^term>\<open>delta_contract\<close> states the documented behaviour that the theorems
  on retained content rely on.  \<open>ps\<close> is Python's \<open>str\<close>.
\<close>

section \<open>The external calls\<close>

type_synonym read_filter = "(string \<times> string list) option"
type_synonym arrow_schema = "(string \<times> string) list"

record ('w, 't) delta_api =
  api_open :: "string \<Rightarrow> 'w \<Rightarrow> 't res"
  api_from_pylist :: "row list \<Rightarrow> arrow_schema option \<Rightarrow> row list res"
  api_create :: "string \<Rightarrow> row list \<Rightarrow> string \<Rightarrow> string \<Rightarrow> 'w \<Rightarrow> unit res \<times> 'w"
  api_config :: "'t \<Rightarrow> string \<Rightarrow> string option"
  api_version :: "'t \<Rightarrow> int"
  api_read :: "'t \<Rightarrow> string list \<Rightarrow> read_filter \<Rightarrow> row list res"
  api_read_all :: "'t \<Rightarrow> row list res"
  api_merge :: "string \<Rightarrow> 't \<Rightarrow> row list \<Rightarrow> string \<Rightarrow> 'w \<Rightarrow> int res \<times> 'w"
  api_overwrite :: "string \<Rightarrow> row list \<Rightarrow> string \<Rightarrow> string \<Rightarrow> 'w \<Rightarrow> unit res \<times> 'w"
  api_delete :: "string \<Rightarrow> 't \<Rightarrow> string \<Rightarrow> 'w \<Rightarrow> unit res \<times> 'w"
  api_set_property :: "string \<Rightarrow> 't \<Rightarrow> string \<Rightarrow> string \<Rightarrow> 'w \<Rightarrow> unit res \<times> 'w"

text \<open>Sequencing of calls that change the world; a pure call leaves it as it is.\<close>

type_synonym ('w, 'a) act = "'w \<Rightarrow> 'a res \<times> 'w"

definition pureA :: "'a res \<Rightarrow> ('w, 'a) act" where
  "pureA r w = (r, w)"

definition bindA :: "('w, 'a) act \<Rightarrow> ('a \<Rightarrow> ('w, 'b) act) \<Rightarrow> ('w, 'b) act" where
  "bindA m f w = (case m w of (Inl e, w') \<Rightarrow> (Inl e, w') | (Inr x, w') \<Rightarrow> f x w')"

lemma bindA_Inr [res_simps]:
  "bindA m f w = (Inr y, w'') \<longleftrightarrow> (\<exists>x w'. m w = (Inr x, w') \<and> f x w' = (Inr y, w''))"
  by (auto simp: bindA_def split: prod.splits sum.splits)

lemma pureA_eq [simp]: "pureA r w = (x, w') \<longleftrightarrow> r = x \<and> w' = w"
  by (auto simp: pureA_def)

lemma bindA_pure [simp]: "bindA (pureA (Inr x)) f = f x" "bindA (pureA (Inl e)) f = pureA (Inl e)"
  by (auto simp: bindA_def pureA_def fun_eq_iff)

lemma bindA_raise [simp]: "bindA (pureA (raise c m)) f = pureA (raise c m)"
  by (simp add: raise_def)

lemma bindA_cases:
  assumes "bindA m f w = (r, w')"
  obtains (error) e where "m w = (Inl e, w')" "r = Inl e" | (next_step) x w1 where "m w = (Inr x, w1)" "f x w1 = (r, w')"
  using assms by (auto simp: bindA_def split: prod.splits sum.splits)

lemma bindA_pure_cases:
  assumes "bindA (pureA m) f w = (r, w')" "\<And>y. m = Inr y \<Longrightarrow> f y w = (r, w') \<Longrightarrow> P" "w' = w \<Longrightarrow> P"
  shows P
  using assms by (cases m) auto

lemma bindA_read: "bindA (\<lambda>w. (g w, w)) f w = (case g w of Inl e \<Rightarrow> (Inl e, w) | Inr x \<Rightarrow> f x w)"
  by (simp add: bindA_def split: sum.split)

text \<open>\<open>delta_table_exists\<close>.\<close>

definition delta_table_exists :: "('w, 't) delta_api \<Rightarrow> string \<Rightarrow> 'w \<Rightarrow> bool res" where
  "delta_table_exists api uri w =
     (case api_open api uri w of
        Inl e \<Rightarrow> if exn_class e = TableNotFoundError then Inr False else Inl e
      | Inr t \<Rightarrow> Inr True)"

section \<open>Comparison of values\<close>

text \<open>Python compares numbers by value across \<open>bool\<close>, \<open>int\<close> and \<open>float\<close>; a NaN equals nothing.\<close>

fun cell_number :: "cell \<Rightarrow> pyfloat option" where
  "cell_number (CInt i) = Some (PFin (of_int i))"
| "cell_number (CBool b) = Some (PFin (if b then 1 else 0))"
| "cell_number (CFloat f) = Some f"
| "cell_number _ = None"

definition cell_eq :: "cell \<Rightarrow> cell \<Rightarrow> bool" where
  "cell_eq a b =
     (case (cell_number a, cell_number b) of
        (Some x, Some y) \<Rightarrow> x = y \<and> x \<noteq> PNaN
      | (None, None) \<Rightarrow> a = b
      | _ \<Rightarrow> False)"

lemma cell_eq_text [simp]: "cell_eq (CText s) c \<longleftrightarrow> c = CText s" "cell_eq c (CText s) \<longleftrightarrow> c = CText s"
  by (auto simp: cell_eq_def split: option.splits)

section \<open>The replay guard\<close>

definition REPLAY_GUARD_EXCLUDED_COLUMNS :: "string list" where
  "REPLAY_GUARD_EXCLUDED_COLUMNS =
     [''ingested_at'', ''promoted_at'', ''record_classification'', ''executed_at'', ''computed_at'']"

definition identity_columns :: "row \<Rightarrow> string list" where
  "identity_columns r = filter (\<lambda>c. c \<notin> set REPLAY_GUARD_EXCLUDED_COLUMNS) (map fst r)"

definition replay_guard_columns :: "row list \<Rightarrow> string list res" where
  "replay_guard_columns rows =
     (case rows of
        [] \<Rightarrow> raise ValueError ''cannot derive replay-guard columns from an empty batch''
      | first # rest \<Rightarrow>
          bindR (guard (list_all (\<lambda>r. identity_columns r = identity_columns first) rest) ValueError
            ''batch rows do not share an identical column shape'') (\<lambda>_. Inr (identity_columns first)))"

definition row_key :: "(cell \<Rightarrow> string) \<Rightarrow> string \<Rightarrow> row \<Rightarrow> string res" where
  "row_key ps key r = bindR (row_item r key) (\<lambda>c. Inr (ps c))"

definition read_identity_rows :: "('w, 't) delta_api \<Rightarrow> (cell \<Rightarrow> string) \<Rightarrow> 't \<Rightarrow> string list \<Rightarrow> string \<Rightarrow>
    string list \<Rightarrow> row list res" where
  "read_identity_rows api ps table columns key_column keys =
     (case api_read api table columns (Some (key_column, keys)) of
        Inr rows \<Rightarrow> Inr rows
      | Inl e \<Rightarrow>
          if exn_class e = ArrowNotImplementedError
          then bindR (api_read api table columns None) (\<lambda>rows.
               bindR (mapR (\<lambda>r. bindR (row_key ps key_column r) (\<lambda>k. Inr (k, r))) rows) (\<lambda>keyed.
               Inr (map snd (filter (\<lambda>(k, r). k \<in> set keys) keyed))))
          else Inl e)"

text \<open>\<open>any(existing[column] != row[column] for column in columns)\<close>.\<close>

fun any_differs :: "string list \<Rightarrow> row \<Rightarrow> row \<Rightarrow> bool res" where
  "any_differs [] existing r = Inr False"
| "any_differs (c # cs) existing r =
     bindR (row_item existing c) (\<lambda>a. bindR (row_item r c) (\<lambda>b.
     if cell_eq a b then any_differs cs existing r else Inr True))"

definition conflict_step :: "(cell \<Rightarrow> string) \<Rightarrow> string list \<Rightarrow> string \<Rightarrow> (string \<times> row) list \<Rightarrow>
    string list \<Rightarrow> row \<Rightarrow> string list res" where
  "conflict_step ps columns key_column existing_by_key conflicts r =
     bindR (row_key ps key_column r) (\<lambda>k.
     case map_of existing_by_key k of
       None \<Rightarrow> Inr conflicts
     | Some existing \<Rightarrow> bindR (any_differs columns existing r) (\<lambda>d. Inr (if d then conflicts @ [k] else conflicts)))"

text \<open>
  The body that the guards of \<open>ingest.py\<close>, \<open>medallion.py\<close> and \<open>scope_medallion.py\<close> share: read the retained rows of
  the batch's keys (a later row replaces an earlier one with its key) and compare.
\<close>

definition reject_conflicts :: "('w, 't) delta_api \<Rightarrow> (cell \<Rightarrow> string) \<Rightarrow> string list \<Rightarrow> string list \<Rightarrow> string \<Rightarrow>
    't \<Rightarrow> row list \<Rightarrow> unit res" where
  "reject_conflicts api ps columns read_columns key_column table rows =
     bindR (mapR (row_key ps key_column) rows) (\<lambda>keys.
     bindR (read_identity_rows api ps table read_columns key_column keys) (\<lambda>existing_rows.
     bindR (mapR (\<lambda>r. bindR (row_key ps key_column r) (\<lambda>k. Inr (k, r))) existing_rows) (\<lambda>pairs.
     bindR (foldR (conflict_step ps columns key_column (rev pairs)) [] rows) (\<lambda>conflicts.
     guard (conflicts = []) ValueError ''reuse conflicts with retained immutable content''))))"

definition reject_conflicting_replays :: "('w, 't) delta_api \<Rightarrow> (cell \<Rightarrow> string) \<Rightarrow> string \<Rightarrow> 't \<Rightarrow> row list \<Rightarrow> unit res" where
  "reject_conflicting_replays api ps key_column table rows =
     bindR (replay_guard_columns rows) (\<lambda>columns. reject_conflicts api ps columns columns key_column table rows)"

section \<open>The insert-only merge\<close>

definition MAX_COMMIT_ATTEMPTS :: nat where "MAX_COMMIT_ATTEMPTS = 3"

text \<open>The \<open>try\<close> block of one attempt: merge the Arrow table \<open>source\<close>, reopen, check the rows again.\<close>

definition merge_once :: "('w, 't) delta_api \<Rightarrow> ('t \<Rightarrow> row list \<Rightarrow> unit res) \<Rightarrow> string \<Rightarrow> string \<Rightarrow> row list \<Rightarrow> row list \<Rightarrow> 't \<Rightarrow>
    ('w, int \<times> int \<times> int) act" where
  "merge_once api check uri key_column source rows table =
     bindA (api_merge api uri table source key_column) (\<lambda>written.
     bindA (\<lambda>w. (api_open api uri w, w)) (\<lambda>retained.
     bindA (pureA (check retained rows)) (\<lambda>_.
     pureA (Inr (api_version api retained, written, int (length rows) - written)))))"

text \<open>
  \<open>for attempt in range(1, MAX_COMMIT_ATTEMPTS + 1)\<close>: the argument counts the attempts left.  A commit
  conflict is retried, and raised after the last attempt; the error after the loop is unreachable.
\<close>

fun merge_attempts :: "('w, 't) delta_api \<Rightarrow> ('t \<Rightarrow> row list \<Rightarrow> unit res) \<Rightarrow> string \<Rightarrow> string \<Rightarrow> row list \<Rightarrow> row list \<Rightarrow> nat \<Rightarrow>
    ('w, int \<times> int \<times> int) act" where
  "merge_attempts api check uri key_column source rows 0 w =
     (raise RuntimeError ''Delta commit retry loop exhausted unexpectedly'', w)"
| "merge_attempts api check uri key_column source rows (Suc n) w =
     (case bindR (api_open api uri w) (\<lambda>table.
           bindR (guard (api_config api table ''delta.appendOnly'' = Some ''true'') ValueError
                    ''existing Delta table is not configured with delta.appendOnly=true'') (\<lambda>_.
           bindR (check table rows) (\<lambda>_. Inr table))) of
        Inl e \<Rightarrow> (Inl e, w)
      | Inr table \<Rightarrow>
          (case merge_once api check uri key_column source rows table w of
             (Inl e, w') \<Rightarrow>
               if exn_class e = CommitFailedError \<and> n \<noteq> 0 then merge_attempts api check uri key_column source rows n w'
               else (Inl e, w')
           | (Inr r, w') \<Rightarrow> (Inr r, w')))"

text \<open>The first write, and the choice between it and the merge.\<close>

definition create_table :: "('w, 't) delta_api \<Rightarrow> string \<Rightarrow> row list \<Rightarrow> row list \<Rightarrow> string \<Rightarrow> string \<Rightarrow>
    ('w, int \<times> int \<times> int) act" where
  "create_table api uri source rows table_name description =
     bindA (api_create api uri source table_name description) (\<lambda>_.
     bindA (\<lambda>w. (api_open api uri w, w)) (\<lambda>t. pureA (Inr (api_version api t, int (length rows), 0))))"

definition EVENT_TABLE_DESCRIPTION :: string where
  "EVENT_TABLE_DESCRIPTION = ''Governed append-only Blue Economy Platform event envelope table''"

definition append_rows :: "('w, 't) delta_api \<Rightarrow> (cell \<Rightarrow> string) \<Rightarrow> string \<Rightarrow> row list \<Rightarrow> string \<Rightarrow> string option \<Rightarrow>
    arrow_schema option \<Rightarrow> string \<Rightarrow> ('w, int \<times> int \<times> int) act" where
  "append_rows api ps uri rows key_column table_description arrow_schema table_name =
     bindA (pureA (guard (rows \<noteq> []) ValueError ''refusing to append an empty row batch'')) (\<lambda>_.
     bindA (pureA (validate_table_uri uri)) (\<lambda>_.
     bindA (pureA (api_from_pylist api rows arrow_schema)) (\<lambda>arrow_table.
     bindA (\<lambda>w. (delta_table_exists api uri w, w)) (\<lambda>existing.
     if \<not> existing
     then bindA (pureA (case table_description of
                    None \<Rightarrow> Inr EVENT_TABLE_DESCRIPTION
                  | Some d \<Rightarrow> bindR (guard (canonical d) ValueError
                      ''table description must be canonical non-empty text'') (\<lambda>_. Inr d))) (\<lambda>description.
          create_table api uri arrow_table rows table_name description)
     else merge_attempts api (reject_conflicting_replays api ps key_column) uri key_column arrow_table rows MAX_COMMIT_ATTEMPTS))))"

definition append_events :: "('w, 't) delta_api \<Rightarrow> (cell \<Rightarrow> string) \<Rightarrow> string \<Rightarrow> row list \<Rightarrow> string option \<Rightarrow>
    ('w, int \<times> int \<times> int) act" where
  "append_events api ps uri events table_description =
     append_rows api ps uri events ''event_id'' table_description None ''blueeconomy_event_envelope''"

section \<open>The contract of Delta Lake\<close>

text \<open>
  \<open>str\<close> of a text is the text; \<open>fmt\<close> renders the values whose rendering the code never relies on.
\<close>

definition py_str :: "(cell \<Rightarrow> string) \<Rightarrow> cell \<Rightarrow> string" where
  "py_str fmt c =
     (case c of CText s \<Rightarrow> s | CInt i \<Rightarrow> int_str i | CNone \<Rightarrow> ''None''
      | CBool b \<Rightarrow> (if b then ''True'' else ''False'') | _ \<Rightarrow> fmt c)"

definition project :: "string list \<Rightarrow> row \<Rightarrow> row" where
  "project cols r = map (\<lambda>c. (c, row_get r c)) cols"

definition selected :: "read_filter \<Rightarrow> row list \<Rightarrow> row list" where
  "selected flt rows =
     (case flt of None \<Rightarrow> rows | Some (k, keys) \<Rightarrow> filter (\<lambda>r. \<exists>s\<in>set keys. row_get r k = CText s) rows)"

definition new_rows :: "string \<Rightarrow> row list \<Rightarrow> row list \<Rightarrow> row list" where
  "new_rows key old rows = filter (\<lambda>r. \<not> (\<exists>x\<in>set old. row_get x key \<noteq> CNone \<and> row_get x key = row_get r key)) rows"

text \<open>
  The meaning of the one kind of predicate the code deletes by, \<open>column IN ('a', 'b''c', ...)\<close>: SQL text
  literals, in which a doubled quote stands for one.
\<close>

fun sql_literal :: "string \<Rightarrow> (string \<times> string) option" where
  "sql_literal [] = None"
| "sql_literal (c # s) =
     (if c = CHR 0x27
      then (case s of
              [] \<Rightarrow> Some ([], [])
            | d # s' \<Rightarrow> if d = CHR 0x27 then map_option (\<lambda>(v, r). (c # v, r)) (sql_literal s') else Some ([], s))
      else map_option (\<lambda>(v, r). (c # v, r)) (sql_literal s))"

fun sql_values :: "nat \<Rightarrow> string \<Rightarrow> string list option" where
  "sql_values 0 s = None"
| "sql_values (Suc n) s =
     (case s of
        c # s' \<Rightarrow>
          if c = CHR 0x27
          then (case sql_literal s' of
                  None \<Rightarrow> None
                | Some (v, r) \<Rightarrow>
                    if r = '')'' then Some [v]
                    else if prefix '', '' r then map_option (\<lambda>vs. v # vs) (sql_values n (drop 2 r))
                    else None)
          else None
      | [] \<Rightarrow> None)"

definition sql_in_predicate :: "string \<Rightarrow> (string \<times> string list) option" where
  "sql_in_predicate p =
     (let col = takeWhile (\<lambda>c. c \<noteq> CHR 0x20) p; rest = drop (length col) p
      in if prefix '' IN ('' rest then map_option (\<lambda>vs. (col, vs)) (sql_values (length p) (drop 5 rest)) else None)"

definition sql_delete :: "string \<Rightarrow> row list \<Rightarrow> row list" where
  "sql_delete p rows =
     (case sql_in_predicate p of
        None \<Rightarrow> rows
      | Some (col, vs) \<Rightarrow> filter (\<lambda>r. \<forall>v\<in>set vs. row_get r col \<noteq> CText v) rows)"

text \<open>
  \<open>Table.from_pylist\<close>: the columns of the Arrow table are those of the schema, or those of the first row when no schema is
  given; a row contributes its values of these columns, null where it has none, and what else it has is dropped.
\<close>

definition arrow_columns :: "row list \<Rightarrow> arrow_schema option \<Rightarrow> string list" where
  "arrow_columns rows sch =
     (case sch of Some s \<Rightarrow> map fst s | None \<Rightarrow> (case rows of [] \<Rightarrow> [] | r # _ \<Rightarrow> map fst r))"

definition arrow_rows :: "row list \<Rightarrow> arrow_schema option \<Rightarrow> row list" where
  "arrow_rows rows sch = map (project (arrow_columns rows sch)) rows"

text \<open>
  What the theorems below rely on, with \<open>content\<close> the rows of a table handle: a read returns the named
  columns of the selected rows; a first write leaves a table with exactly the rows of the Arrow table; a committed
  insert-only merge appends the source rows whose key is not null and matches none of the target;
  a commit that fails leaves an append-only table with at least the rows it had; and \<open>Table.from_pylist\<close>, when the values
  fit its types, makes the table above.  Cells are values: how a type of Arrow stores a number is not modelled.
\<close>

definition delta_contract :: "('w, 't) delta_api \<Rightarrow> ('t \<Rightarrow> row list) \<Rightarrow> bool" where
  "delta_contract api content \<longleftrightarrow>
     (\<forall>t cols flt rs. api_read api t cols flt = Inr rs \<longrightarrow> rs = map (project cols) (selected flt (content t))) \<and>
     (\<forall>uri rows name d w w'. api_create api uri rows name d w = (Inr (), w') \<longrightarrow>
        (\<exists>t. api_open api uri w' = Inr t \<and> content t = rows)) \<and>
     (\<forall>uri t rows key w r w'. api_open api uri w = Inr t \<longrightarrow> api_merge api uri t rows key w = (r, w') \<longrightarrow>
        (\<exists>t'. api_open api uri w' = Inr t' \<and>
           (case r of
              Inr n \<Rightarrow> content t' = content t @ new_rows key (content t) rows \<and>
                       n = int (length (new_rows key (content t) rows))
            | Inl e \<Rightarrow> set (content t) \<subseteq> set (content t')))) \<and>
     (\<forall>rows sch source. api_from_pylist api rows sch = Inr source \<longrightarrow> source = arrow_rows rows sch)"

section \<open>Lemmas on the guard\<close>

lemma row_item_Inr [simp]: "row_item r k = Inr c \<longleftrightarrow> map_of r k = Some c"
  by (auto simp: row_item_def split: option.splits)

lemma row_key_Inr: "row_key ps key r = Inr k \<longleftrightarrow> (\<exists>c. map_of r key = Some c \<and> k = ps c)"
  by (auto simp: row_key_def res_simps)

lemma any_differs_False:
  "any_differs cs x r = Inr False \<longleftrightarrow>
     (\<forall>c\<in>set cs. \<exists>a b. map_of x c = Some a \<and> map_of r c = Some b \<and> cell_eq a b)"
  by (induction cs) (auto simp: res_simps)

lemma conflict_fold:
  assumes "foldR (conflict_step ps cols key d) acc rows = Inr []"
  shows "acc = [] \<and> (\<forall>r\<in>set rows. \<exists>k. row_key ps key r = Inr k \<and>
     (\<forall>x. map_of d k = Some x \<longrightarrow> any_differs cols x r = Inr False))"
  using assms
proof (induction rows arbitrary: acc)
  case Nil
  then show ?case by simp
next
  case (Cons r rows)
  then obtain acc' where a: "conflict_step ps cols key d acc r = Inr acc'"
    "foldR (conflict_step ps cols key d) acc' rows = Inr []" by (auto simp: res_simps)
  from Cons.IH [OF a(2)] have ih: "acc' = []" "\<forall>r\<in>set rows. \<exists>k. row_key ps key r = Inr k \<and>
     (\<forall>x. map_of d k = Some x \<longrightarrow> any_differs cols x r = Inr False)" by auto
  from a(1) ih(1) show ?case
    using ih(2) by (auto simp: conflict_step_def res_simps split: option.splits if_splits)
qed

text \<open>What a guard that lets a batch pass has established about the rows it read.\<close>

definition guarded :: "(cell \<Rightarrow> string) \<Rightarrow> string list \<Rightarrow> string \<Rightarrow> row list \<Rightarrow> row list \<Rightarrow> bool" where
  "guarded ps cols key existing rows \<longleftrightarrow>
     (\<forall>r\<in>set rows. \<forall>k. row_key ps key r = Inr k \<longrightarrow> (\<exists>x\<in>set existing. row_key ps key x = Inr k) \<longrightarrow>
        (\<exists>x\<in>set existing. row_key ps key x = Inr k \<and> any_differs cols x r = Inr False))"

lemma reject_conflicts_guarded:
  assumes "reject_conflicts api ps cols read_cols key t rows = Inr ()"
  shows "\<exists>keys existing. mapR (row_key ps key) rows = Inr keys \<and>
     read_identity_rows api ps t read_cols key keys = Inr existing \<and> guarded ps cols key existing rows"
proof -
  from assms obtain keys existing pairs
    where k: "mapR (row_key ps key) rows = Inr keys"
      and e: "read_identity_rows api ps t read_cols key keys = Inr existing"
      and p: "mapR (\<lambda>r. bindR (row_key ps key r) (\<lambda>k. Inr (k, r))) existing = Inr pairs"
      and f: "foldR (conflict_step ps cols key (rev pairs)) [] rows = Inr []"
    by (auto simp: reject_conflicts_def bindR_Inr_iff)
  from p have pairs: "list_all2 (\<lambda>x y. row_key ps key x = Inr (fst y) \<and> snd y = x) existing pairs"
    by (auto simp: mapR_Inr_iff res_simps elim!: list_all2_mono)
  have "guarded ps cols key existing rows"
    unfolding guarded_def
  proof (intro ballI allI impI)
    fix r k assume r: "r \<in> set rows" "row_key ps key r = Inr k" "\<exists>x\<in>set existing. row_key ps key x = Inr k"
    then obtain x where "x \<in> set existing" "row_key ps key x = Inr k" by blast
    with list_all2_in_right [OF pairs] obtain y where "y \<in> set pairs" "fst y = k" by fastforce
    then have "map_of (rev pairs) k \<noteq> None" by (auto simp: map_of_eq_None_iff)
    then obtain x' where x': "map_of (rev pairs) k = Some x'" by blast
    then have "(k, x') \<in> set pairs" by (auto dest: map_of_SomeD)
    with list_all2_in_left [OF pairs] have "x' \<in> set existing" "row_key ps key x' = Inr k" by fastforce+
    moreover from conflict_fold [OF f] r x' have "any_differs cols x' r = Inr False" by fastforce
    ultimately show "\<exists>x\<in>set existing. row_key ps key x = Inr k \<and> any_differs cols x r = Inr False" by blast
  qed
  with k e show ?thesis by blast
qed

section \<open>The append loop\<close>

text \<open>
  The contract between the merge loop and the guard it runs before and after the merge: a guard that
  passes has read the retained rows of the batch's keys and found each key's columns equal.
  The clients are \<open>append_rows\<close> and the two silver appends.
\<close>

locale replay_guard =
  fixes api :: "('w, 't) delta_api" and ps :: "cell \<Rightarrow> string" and key :: string
    and check :: "'t \<Rightarrow> row list \<Rightarrow> unit res"
    and columns :: "row list \<Rightarrow> string list" and read_columns :: "row list \<Rightarrow> string list"
  assumes check_guarded: "check t rows = Inr () \<Longrightarrow>
    \<exists>keys existing. mapR (row_key ps key) rows = Inr keys \<and>
      read_identity_rows api ps t (read_columns rows) key keys = Inr existing \<and>
      guarded ps (columns rows) key existing rows"
begin

lemma merge_once_result:
  assumes "merge_once api check uri key source rows t w = (Inr (v, written, present), w')"
  shows "\<exists>t'. api_open api uri w' = Inr t' \<and> v = api_version api t' \<and> written + present = int (length rows) \<and>
     check t' rows = Inr () \<and> api_merge api uri t source key w = (Inr written, w')"
  using assms by (auto simp: merge_once_def bindA_Inr)

lemma merge_attempts_result:
  assumes "merge_attempts api check uri key source rows n w = (Inr (v, written, present), w')"
  shows "\<exists>t'. api_open api uri w' = Inr t' \<and> v = api_version api t' \<and> written + present = int (length rows) \<and>
     check t' rows = Inr () \<and>
     (\<exists>t0 w0. api_open api uri w0 = Inr t0 \<and> api_merge api uri t0 source key w0 = (Inr written, w'))"
  using assms
proof (induction n arbitrary: w)
  case 0
  then show ?case by simp
next
  case (Suc n)
  show ?case
  proof (cases "bindR (api_open api uri w) (\<lambda>table.
           bindR (guard (api_config api table ''delta.appendOnly'' = Some ''true'') ValueError
                    ''existing Delta table is not configured with delta.appendOnly=true'') (\<lambda>_.
           bindR (check table rows) (\<lambda>_. Inr table)))")
    case (Inl e)
    with Suc.prems show ?thesis by simp
  next
    case (Inr t)
    obtain r w1 where m: "merge_once api check uri key source rows t w = (r, w1)" by fastforce
    show ?thesis
    proof (cases r)
      case (Inl e)
      with Suc.prems Inr m have "merge_attempts api check uri key source rows n w1 = (Inr (v, written, present), w')"
        by (simp split: if_splits)
      then show ?thesis by (rule Suc.IH)
    next
      case r: (Inr x)
      with Suc.prems Inr m have "merge_once api check uri key source rows t w = (Inr (v, written, present), w')" by simp
      from merge_once_result [OF this] Inr show ?thesis by (auto simp: bindR_Inr_iff)
    qed
  qed
qed

text \<open>A guard that refuses the batch against the table as it is ends the append before any write.\<close>

lemma refused_before_write:
  assumes "api_open api uri w = Inr t" "api_config api t ''delta.appendOnly'' = Some ''true''" "check t rows = Inl e"
  shows "merge_attempts api check uri key source rows (Suc n) w = (Inl e, w)"
  using assms by simp

end

lemma reject_replays_guarded:
  assumes "reject_conflicting_replays api ps key t rows = Inr ()"
  shows "\<exists>cols. replay_guard_columns rows = Inr cols \<and> reject_conflicts api ps cols cols key t rows = Inr ()"
  using assms by (auto simp: reject_conflicting_replays_def bindR_Inr_iff)

lemma replay_guard_columns_Inr:
  "replay_guard_columns rows = Inr cols \<longleftrightarrow> rows \<noteq> [] \<and> (\<forall>r\<in>set rows. identity_columns r = cols)"
  by (cases rows) (auto simp: replay_guard_columns_def res_simps list_all_iff)

interpretation event_guard: replay_guard api ps key "reject_conflicting_replays api ps key"
    "\<lambda>rows. identity_columns (hd rows)" "\<lambda>rows. identity_columns (hd rows)"
  for api ps key
proof
  fix t rows assume "reject_conflicting_replays api ps key t rows = Inr ()"
  from reject_replays_guarded [OF this] obtain cols
    where c: "replay_guard_columns rows = Inr cols" "reject_conflicts api ps cols cols key t rows = Inr ()" by blast
  from c(1) have "cols = identity_columns (hd rows)" by (auto simp: replay_guard_columns_Inr)
  with reject_conflicts_guarded [OF c(2)]
  show "\<exists>keys existing. mapR (row_key ps key) rows = Inr keys \<and>
      read_identity_rows api ps t (identity_columns (hd rows)) key keys = Inr existing \<and>
      guarded ps (identity_columns (hd rows)) key existing rows" by simp
qed

section \<open>Retained content\<close>

lemma map_of_project: "map_of (project cols r) c = (if c \<in> set cols then Some (row_get r c) else None)"
proof -
  have "map_of (map (\<lambda>c. (c, row_get r c)) cols) c = (if c \<in> set cols then Some (row_get r c) else None)"
    by (induction cols) auto
  then show ?thesis by (simp add: project_def)
qed

lemma read_identity_content:
  assumes "delta_contract api content" "read_identity_rows api (py_str fmt) t cols key keys = Inr existing"
  shows "x \<in> set existing \<Longrightarrow> \<exists>y\<in>set (content t). x = project cols y"
    and "y \<in> set (content t) \<Longrightarrow> row_get y key = CText k \<Longrightarrow> k \<in> set keys \<Longrightarrow> key \<in> set cols \<Longrightarrow>
      project cols y \<in> set existing"
proof -
  have rd: "api_read api t cols flt = Inr rs \<Longrightarrow> rs = map (project cols) (selected flt (content t))" for flt rs
    using assms(1) by (simp add: delta_contract_def)
  consider (filtered) "api_read api t cols (Some (key, keys)) = Inr existing"
    | (fallback) rows keyed where "api_read api t cols None = Inr rows"
        "mapR (\<lambda>r. bindR (row_key (py_str fmt) key r) (\<lambda>k. Inr (k, r))) rows = Inr keyed"
        "existing = map snd (filter (\<lambda>(k, r). k \<in> set keys) keyed)"
  proof (cases "api_read api t cols (Some (key, keys))")
    case (Inl e)
    with assms(2) show thesis
      by (auto simp: read_identity_rows_def bindR_Inr_iff split: if_splits intro: fallback)
  next
    case (Inr rs)
    with assms(2) filtered show thesis by (simp add: read_identity_rows_def)
  qed
  then have "(\<forall>x\<in>set existing. \<exists>y\<in>set (content t). x = project cols y) \<and>
    (\<forall>y k. y \<in> set (content t) \<longrightarrow> row_get y key = CText k \<longrightarrow> k \<in> set keys \<longrightarrow> key \<in> set cols \<longrightarrow>
      project cols y \<in> set existing)"
  proof cases
    case filtered
    from rd [OF this] show ?thesis by (auto simp: selected_def)
  next
    case fallback
    from rd [OF fallback(1)] have rows: "rows = map (project cols) (content t)" by (simp add: selected_def)
    from fallback(2) have k: "list_all2 (\<lambda>r kr. row_key (py_str fmt) key r = Inr (fst kr) \<and> snd kr = r) rows keyed"
      by (auto simp: mapR_Inr_iff res_simps elim!: list_all2_mono)
    have "\<exists>y\<in>set (content t). x = project cols y" if "x \<in> set existing" for x
      using that fallback(3) list_all2_in_left [OF k] rows by fastforce
    moreover have "project cols y \<in> set existing"
      if y: "y \<in> set (content t)" "row_get y key = CText k" "k \<in> set keys" "key \<in> set cols" for y k
    proof -
      have "project cols y \<in> set rows" using y rows by simp
      from list_all2_in_right [OF k this] obtain kr where kr: "kr \<in> set keyed"
        "row_key (py_str fmt) key (project cols y) = Inr (fst kr)" "snd kr = project cols y" by auto
      with y have "fst kr = k" by (simp add: row_key_Inr map_of_project py_str_def)
      with kr y show ?thesis unfolding fallback(3) by (force intro: image_eqI [where x = kr])
    qed
    ultimately show ?thesis by blast
  qed
  then show "x \<in> set existing \<Longrightarrow> \<exists>y\<in>set (content t). x = project cols y"
    and "y \<in> set (content t) \<Longrightarrow> row_get y key = CText k \<Longrightarrow> k \<in> set keys \<Longrightarrow> key \<in> set cols \<Longrightarrow>
      project cols y \<in> set existing" by blast+
qed

text \<open>A guard that passes on a table that holds the row's key has found the row's content there.\<close>

lemma guarded_content:
  assumes con: "delta_contract api content"
    and keys: "mapR (row_key (py_str fmt) key) rows = Inr keys"
    and ex: "read_identity_rows api (py_str fmt) t rcols key keys = Inr existing"
    and g: "guarded (py_str fmt) cols key existing rows"
    and r: "r \<in> set rows" "row_get r key = CText k" and key: "key \<in> set rcols" and cols: "set cols \<subseteq> set rcols"
    and y: "y \<in> set (content t)" "row_get y key = CText k"
  shows "\<exists>y\<in>set (content t). py_str fmt (row_get y key) = k \<and>
    (\<forall>c\<in>set cols. cell_eq (row_get y c) (row_get r c))"
proof -
  from r(2) have mr: "map_of r key = Some (CText k)" by (auto simp: row_get_def split: option.splits)
  then have rk: "row_key (py_str fmt) key r = Inr k" by (simp add: row_key_Inr py_str_def)
  from keys have "list_all2 (\<lambda>r k. row_key (py_str fmt) key r = Inr k) rows keys" by (simp add: mapR_Inr_iff)
  from list_all2_in_right [OF this r(1)] rk have "k \<in> set keys" by auto
  from read_identity_content(2) [OF con ex y this key] have x: "project rcols y \<in> set existing" .
  have "row_key (py_str fmt) key (project rcols y) = Inr k"
    using y(2) key by (simp add: row_key_Inr map_of_project py_str_def)
  with g r(1) rk x obtain x' where x': "x' \<in> set existing" "row_key (py_str fmt) key x' = Inr k"
    "any_differs cols x' r = Inr False" unfolding guarded_def by blast
  from read_identity_content(1) [OF con ex x'(1)] obtain y' where y': "y' \<in> set (content t)" "x' = project rcols y'" by blast
  with x'(2) key have "py_str fmt (row_get y' key) = k" by (simp add: row_key_Inr map_of_project)
  moreover have "cell_eq (row_get y' c) (row_get r c)" if "c \<in> set cols" for c
    using x'(3) that cols y'(2) unfolding any_differs_False by (force simp: map_of_project row_get_def)
  ultimately show ?thesis using y'(1) by blast
qed

lemma contract_merge:
  assumes "delta_contract api content" "api_open api uri w = Inr t" "api_merge api uri t rows key w = (r, w')"
  shows "\<exists>t'. api_open api uri w' = Inr t' \<and>
     (case r of
        Inr n \<Rightarrow> content t' = content t @ new_rows key (content t) rows \<and>
                 n = int (length (new_rows key (content t) rows))
      | Inl e \<Rightarrow> set (content t) \<subseteq> set (content t'))"
  using assms(1) [unfolded delta_contract_def, THEN conjunct2, THEN conjunct2, THEN conjunct1, rule_format, OF assms(2,3)] .

lemma contract_create:
  assumes "delta_contract api content" "api_create api uri rows name d w = (Inr (), w')"
  shows "\<exists>t. api_open api uri w' = Inr t \<and> content t = rows"
  using assms(1) [unfolded delta_contract_def, THEN conjunct2, THEN conjunct1, rule_format, OF assms(2)] .

lemma contract_arrow:
  assumes "delta_contract api content" "api_from_pylist api rows sch = Inr source"
  shows "source = arrow_rows rows sch"
  using assms(1) [unfolded delta_contract_def, THEN conjunct2, THEN conjunct2, THEN conjunct2, rule_format, OF assms(2)] .

lemma row_get_project: "row_get (project cols r) c = (if c \<in> set cols then row_get r c else CNone)"
  by (simp add: row_get_def map_of_project)

lemma project_self: "distinct (map fst r) \<Longrightarrow> project (map fst r) r = r"
  unfolding project_def map_map by (rule map_idI) (auto simp: row_get_def)

text \<open>Rows that have the columns of the table, in their order, are stored as they are.\<close>

lemma arrow_rows_same:
  assumes "distinct (arrow_columns rows sch)" "\<forall>r\<in>set rows. map fst r = arrow_columns rows sch"
  shows "arrow_rows rows sch = rows"
  unfolding arrow_rows_def using assms by (intro map_idI) (metis project_self)

lemma length_arrow_rows [simp]: "length (arrow_rows rows sch) = length rows"
  by (simp add: arrow_rows_def)

lemma arrow_rows_get: "r \<in> set rows \<Longrightarrow> key \<in> set (arrow_columns rows sch) \<Longrightarrow>
    \<exists>r'\<in>set (arrow_rows rows sch). row_get r' key = row_get r key"
  by (auto simp: arrow_rows_def row_get_project intro!: bexI)

lemma merged_keys:
  assumes "delta_contract api content" "api_open api uri w0 = Inr t0" "api_merge api uri t0 rows key w0 = (Inr n, w')"
    and "api_open api uri w' = Inr t'" "r \<in> set rows" "row_get r key = CText k"
  shows "\<exists>y\<in>set (content t'). row_get y key = CText k"
proof -
  from contract_merge [OF assms(1-3)] assms(4) have "content t' = content t0 @ new_rows key (content t0) rows" by simp
  then have c: "set (content t') = set (content t0) \<union> set (new_rows key (content t0) rows)" by simp
  show ?thesis
  proof (cases "\<exists>y\<in>set (content t0). row_get y key = CText k")
    case True
    with c show ?thesis by blast
  next
    case False
    with assms(5,6) have "r \<in> set (new_rows key (content t0) rows)" by (auto simp: new_rows_def)
    with c assms(6) show ?thesis by blast
  qed
qed

text \<open>The two ways an append succeeds.\<close>

lemma append_rows_cases:
  assumes "append_rows api ps uri rows key desc sch name w = (Inr r, w')"
  shows "rows \<noteq> [] \<and> validate_table_uri uri = Inr () \<and> (\<exists>source. api_from_pylist api rows sch = Inr source \<and>
    ((\<exists>d. create_table api uri source rows name d w = (Inr r, w')) \<or>
     ((\<exists>t. api_open api uri w = Inr t) \<and>
      merge_attempts api (reject_conflicting_replays api ps key) uri key source rows MAX_COMMIT_ATTEMPTS w = (Inr r, w'))))"
proof -
  from assms obtain source existing where e: "rows \<noteq> []" "validate_table_uri uri = Inr ()" "api_from_pylist api rows sch = Inr source"
    "delta_table_exists api uri w = Inr existing"
    and rest: "existing \<Longrightarrow> merge_attempts api (reject_conflicting_replays api ps key) uri key source rows MAX_COMMIT_ATTEMPTS w = (Inr r, w')"
      "\<not> existing \<Longrightarrow> \<exists>d. create_table api uri source rows name d w = (Inr r, w')"
    by (auto simp: append_rows_def bindA_Inr guard_def split: if_splits)
  have "existing \<Longrightarrow> \<exists>t. api_open api uri w = Inr t"
    using e(4) by (auto simp: delta_table_exists_def split: sum.splits if_splits)
  with e rest show ?thesis by blast
qed

text \<open>Once every key of the batch is retained, no attempt writes anything.\<close>

definition all_retained :: "string \<Rightarrow> row list \<Rightarrow> row list \<Rightarrow> bool" where
  "all_retained key rows old = (\<forall>r\<in>set rows. row_get r key \<noteq> CNone \<and> (\<exists>x\<in>set old. row_get x key = row_get r key))"

lemma all_retained_mono: "all_retained key rows old \<Longrightarrow> set old \<subseteq> set old' \<Longrightarrow> all_retained key rows old'"
  unfolding all_retained_def by blast

lemma all_retained_new_rows: "all_retained key rows old \<Longrightarrow> new_rows key old rows = []"
  unfolding all_retained_def new_rows_def filter_empty_conv by metis

lemma merge_once_world:
  assumes "merge_once api check uri key source rows t w = (r, w')"
  shows "\<exists>x. api_merge api uri t source key w = (x, w')"
  using assms by (auto simp: merge_once_def bindA_def pureA_def split: prod.splits sum.splits)

context replay_guard
begin

lemma merge_attempts_replay:
  assumes con: "delta_contract api content"
    and "api_open api uri w = Inr t" "all_retained key source (content t)"
    and "merge_attempts api check uri key source rows n w = (Inr (v, written, present), w')"
  shows "written = 0"
  using assms(2-)
proof (induction n arbitrary: w t)
  case 0
  then show ?case by simp
next
  case (Suc n)
  obtain r w1 where m: "merge_once api check uri key source rows t w = (r, w1)" by fastforce
  from merge_once_world [OF m] obtain x where x: "api_merge api uri t source key w = (x, w1)" by blast
  from contract_merge [OF con Suc.prems(1) x] obtain t1 where t1: "api_open api uri w1 = Inr t1"
    "set (content t) \<subseteq> set (content t1)" by (cases x) auto
  from Suc.prems(1,3) have ok: "api_config api t ''delta.appendOnly'' = Some ''true''" "check t rows = Inr ()"
    by (auto simp: bindR_Inr_iff guard_def split: sum.splits prod.splits if_splits)
  show ?case
  proof (cases r)
    case (Inl e)
    with Suc.prems(1,3) m ok have "merge_attempts api check uri key source rows n w1 = (Inr (v, written, present), w')"
      by (auto split: if_splits)
    from Suc.IH [OF t1(1) all_retained_mono [OF Suc.prems(2) t1(2)] this] show ?thesis .
  next
    case (Inr y)
    with Suc.prems(1,3) m ok have "merge_once api check uri key source rows t w = (Inr (v, written, present), w')" by simp
    from merge_once_result [OF this] have "api_merge api uri t source key w = (Inr written, w')" by blast
    from contract_merge [OF con Suc.prems(1) this] all_retained_new_rows [OF Suc.prems(2)] show ?thesis by auto
  qed
qed

end

definition same_value :: "cell \<Rightarrow> cell \<Rightarrow> bool" where
  "same_value a b = (a = b \<or> cell_eq a b)"

lemma row_get_in_keys: "row_get r k \<noteq> CNone \<Longrightarrow> k \<in> set (map fst r)"
  by (force simp: row_get_def dest: map_of_SomeD split: option.splits)

lemma append_refused:
  assumes "delta_contract api content" "api_open api uri w = Inr t"
    and "key \<notin> set REPLAY_GUARD_EXCLUDED_COLUMNS"
    and "r \<in> set rows" "row_get r key = CText k" "y \<in> set (content t)" "row_get y key = CText k"
    and "\<forall>x\<in>set (content t). py_str fmt (row_get x key) = k \<longrightarrow>
      (\<exists>c\<in>set (identity_columns r). \<not> cell_eq (row_get x c) (row_get r c))"
  shows "\<exists>e. append_rows api (py_str fmt) uri rows key desc sch name w = (Inl e, w)"
proof -
  let ?check = "reject_conflicting_replays api (py_str fmt) key"
  have "?check t rows \<noteq> Inr ()"
  proof
    assume c: "?check t rows = Inr ()"
    from reject_replays_guarded [OF c] assms(4) have cols: "identity_columns (hd rows) = identity_columns r"
      by (metis list.set_sel(1) empty_iff list.set(1) replay_guard_columns_Inr)
    have key: "key \<in> set (identity_columns r)"
      using assms(3,5) row_get_in_keys [of r key] by (auto simp: identity_columns_def)
    from event_guard.check_guarded [OF c] obtain keys existing where
      k: "mapR (row_key (py_str fmt) key) rows = Inr keys"
      "read_identity_rows api (py_str fmt) t (identity_columns r) key keys = Inr existing"
      "guarded (py_str fmt) (identity_columns r) key existing rows" unfolding cols by blast
    from guarded_content [OF assms(1) k assms(4,5) key subset_refl assms(6,7)] assms(8) show False by blast
  qed
  then obtain e where e: "?check t rows = Inl e" by (cases "?check t rows") auto
  have "\<exists>e. merge_attempts api ?check uri key source rows MAX_COMMIT_ATTEMPTS w = (Inl e, w)" for source
  proof (cases "api_config api t ''delta.appendOnly'' = Some ''true''")
    case True
    from event_guard.refused_before_write [OF assms(2) True e, of _ 2] show ?thesis
      by (simp add: MAX_COMMIT_ATTEMPTS_def numeral_3_eq_3 numeral_2_eq_2)
  next
    case False
    with assms(2) show ?thesis by (simp add: MAX_COMMIT_ATTEMPTS_def numeral_3_eq_3 raise_def)
  qed
  moreover have "delta_table_exists api uri w = Inr True" using assms(2) by (simp add: delta_table_exists_def)
  ultimately show ?thesis
    by (auto simp: append_rows_def bindA_def pureA_def guard_def raise_def split: sum.splits prod.splits)
qed

text \<open>The identity columns of a row that the Arrow table of its batch has.\<close>

definition stored_columns :: "row list \<Rightarrow> arrow_schema option \<Rightarrow> row \<Rightarrow> string list" where
  "stored_columns rows sch r = filter (\<lambda>c. c \<in> set (arrow_columns rows sch)) (identity_columns r)"

lemma stored_columns_all: "fst ` set r \<subseteq> set (arrow_columns rows sch) \<Longrightarrow> stored_columns rows sch r = identity_columns r"
  unfolding stored_columns_def by (rule filter_True) (auto simp: identity_columns_def)

lemma append_retained:
  assumes "delta_contract api content"
    and "append_rows api (py_str fmt) uri rows key desc sch name w = (Inr (v, written, present), w')"
    and "key \<notin> set REPLAY_GUARD_EXCLUDED_COLUMNS" "key \<in> set (arrow_columns rows sch)"
    and "r \<in> set rows" "row_get r key = CText k"
  shows "written + present = int (length rows) \<and>
    (\<exists>t. api_open api uri w' = Inr t \<and> v = api_version api t \<and>
      (\<exists>y\<in>set (content t). py_str fmt (row_get y key) = k \<and>
         list_all (\<lambda>c. same_value (row_get y c) (row_get r c)) (stored_columns rows sch r)))"
proof -
  from append_rows_cases [OF assms(2)] obtain source where "api_from_pylist api rows sch = Inr source"
    and cases: "(\<exists>d. create_table api uri source rows name d w = (Inr (v, written, present), w')) \<or>
      merge_attempts api (reject_conflicting_replays api (py_str fmt) key) uri key source rows MAX_COMMIT_ATTEMPTS w =
        (Inr (v, written, present), w')" by blast
  from contract_arrow [OF assms(1) this(1)] have source: "source = arrow_rows rows sch" .
  from cases consider (create) d where "create_table api uri source rows name d w = (Inr (v, written, present), w')"
  | (merge) "merge_attempts api (reject_conflicting_replays api (py_str fmt) key) uri key source rows MAX_COMMIT_ATTEMPTS w =
      (Inr (v, written, present), w')" by blast
  then show ?thesis
  proof cases
    case create
    then obtain u t where c: "api_create api uri source name d w = (Inr u, w')" "api_open api uri w' = Inr t"
      "v = api_version api t" "written = int (length rows)" "present = 0"
      by (auto simp: create_table_def bindA_Inr)
    let ?y = "project (arrow_columns rows sch) r"
    from contract_create [OF assms(1)] c(1,2) have "content t = source" by fastforce
    with assms(5) have "?y \<in> set (content t)" by (simp add: source arrow_rows_def)
    moreover have "py_str fmt (row_get ?y key) = k" using assms(4,6) by (simp add: row_get_project py_str_def)
    moreover have "list_all (\<lambda>c. same_value (row_get ?y c) (row_get r c)) (stored_columns rows sch r)"
      by (simp add: list_all_iff stored_columns_def row_get_project same_value_def)
    ultimately show ?thesis using c by auto
  next
    case merge
    from event_guard.merge_attempts_result [OF this] obtain t t0 w0
      where t: "api_open api uri w' = Inr t" "v = api_version api t" "written + present = int (length rows)"
        "reject_conflicting_replays api (py_str fmt) key t rows = Inr ()"
        and m: "api_open api uri w0 = Inr t0" "api_merge api uri t0 source key w0 = (Inr written, w')" by blast
    from arrow_rows_get [OF assms(5,4)] obtain r' where r': "r' \<in> set source" "row_get r' key = CText k"
      by (auto simp: source assms(6))
    from merged_keys [OF assms(1) m t(1) r'] obtain y
      where y: "y \<in> set (content t)" "row_get y key = CText k" by blast
    from reject_replays_guarded [OF t(4)] assms(5) have cols: "identity_columns (hd rows) = identity_columns r"
      by (metis list.set_sel(1) empty_iff list.set(1) replay_guard_columns_Inr)
    have key: "key \<in> set (identity_columns r)"
      using assms(3,6) row_get_in_keys [of r key] by (auto simp: identity_columns_def)
    from event_guard.check_guarded [OF t(4)] obtain keys existing where
      k: "mapR (row_key (py_str fmt) key) rows = Inr keys"
      "read_identity_rows api (py_str fmt) t (identity_columns r) key keys = Inr existing"
      "guarded (py_str fmt) (identity_columns r) key existing rows" unfolding cols by blast
    from guarded_content [OF assms(1) k assms(5,6) key subset_refl y]
    have "\<exists>y\<in>set (content t). py_str fmt (row_get y key) = k \<and>
        list_all (\<lambda>c. same_value (row_get y c) (row_get r c)) (stored_columns rows sch r)"
      by (auto simp: list_all_iff same_value_def stored_columns_def)
    with t show ?thesis by blast
  qed
qed

text \<open>Rows whose columns the Arrow table has are retained whole.\<close>

lemma append_retained_whole:
  assumes "delta_contract api content"
    and "append_rows api (py_str fmt) uri rows key desc sch name w = (Inr (v, written, present), w')"
    and "key \<notin> set REPLAY_GUARD_EXCLUDED_COLUMNS" "fst ` set r \<subseteq> set (arrow_columns rows sch)"
    and "r \<in> set rows" "row_get r key = CText k"
  shows "written + present = int (length rows) \<and>
    (\<exists>t. api_open api uri w' = Inr t \<and> v = api_version api t \<and>
      (\<exists>y\<in>set (content t). py_str fmt (row_get y key) = k \<and>
         list_all (\<lambda>c. same_value (row_get y c) (row_get r c)) (identity_columns r)))"
proof -
  have "key \<in> set (arrow_columns rows sch)" using row_get_in_keys [of r key] assms(4,6) by auto
  from append_retained [OF assms(1-3) this assms(5,6)] show ?thesis unfolding stored_columns_all [OF assms(4)] .
qed

text \<open>An append, whatever its result, keeps every retained row.\<close>

lemma merge_attempts_world:
  assumes "merge_attempts api check uri key source rows (Suc n) w = (r, w')"
  shows "w' = w \<or> (\<exists>t y w1. api_open api uri w = Inr t \<and> api_merge api uri t source key w = (y, w1) \<and>
    (w' = w1 \<or> merge_attempts api check uri key source rows n w1 = (r, w')))"
proof (cases "bindR (api_open api uri w) (\<lambda>table.
           bindR (guard (api_config api table ''delta.appendOnly'' = Some ''true'') ValueError
                    ''existing Delta table is not configured with delta.appendOnly=true'') (\<lambda>_.
           bindR (check table rows) (\<lambda>_. Inr table)))")
  case (Inl e)
  with assms show ?thesis by simp
next
  case (Inr t)
  then have o: "api_open api uri w = Inr t" by (auto simp: bindR_Inr_iff)
  obtain x w1 where m: "merge_once api check uri key source rows t w = (x, w1)" by fastforce
  from merge_once_world [OF m] obtain y where y: "api_merge api uri t source key w = (y, w1)" by blast
  from assms Inr m have "w' = w1 \<or> merge_attempts api check uri key source rows n w1 = (r, w')"
    by (cases x) (simp_all split: if_splits)
  with o y show ?thesis by blast
qed

lemma merge_attempts_keeps:
  assumes con: "delta_contract api content"
    and "api_open api uri w = Inr t" "merge_attempts api check uri key source rows n w = (r, w')"
  shows "\<exists>t'. api_open api uri w' = Inr t' \<and> set (content t) \<subseteq> set (content t')"
  using assms(2-)
proof (induction n arbitrary: w t)
  case 0
  then show ?case by auto
next
  case (Suc n)
  have keep: "\<exists>t1. api_open api uri w1 = Inr t1 \<and> set (content t) \<subseteq> set (content t1)"
    if "api_merge api uri t source key w = (y, w1)" for y w1
    using contract_merge [OF con Suc.prems(1) that] by (cases y) auto
  from merge_attempts_world [OF Suc.prems(2)] Suc.prems(1) consider "w' = w"
    | y w1 where "api_merge api uri t source key w = (y, w1)" "w' = w1 \<or> merge_attempts api check uri key source rows n w1 = (r, w')"
    by auto
  then show ?case
  proof cases
    case 1
    with Suc.prems(1) show ?thesis by auto
  next
    case 2
    from keep [OF this(1)] obtain t1 where t1: "api_open api uri w1 = Inr t1" "set (content t) \<subseteq> set (content t1)" by blast
    from 2(2) show ?thesis
    proof
      assume "merge_attempts api check uri key source rows n w1 = (r, w')"
      from Suc.IH [OF t1(1) this] t1(2) show ?thesis by auto
    qed (use t1 in auto)
  qed
qed

lemma append_rows_keeps:
  assumes "delta_contract api content" "api_open api uri w = Inr t"
    and "append_rows api ps uri rows key desc sch name w = (r, w')"
  shows "\<exists>t'. api_open api uri w' = Inr t' \<and> set (content t) \<subseteq> set (content t')"
proof -
  have x: "delta_table_exists api uri w = Inr True" using assms(2) by (simp add: delta_table_exists_def)
  have step: "bindA (\<lambda>w. (delta_table_exists api uri w, w)) f w = f True w" for f by (simp add: bindA_read x)
  note calls = assms(3) [unfolded append_rows_def]
  have "w' = w \<or>
      (\<exists>source. merge_attempts api (reject_conflicting_replays api ps key) uri key source rows MAX_COMMIT_ATTEMPTS w = (r, w'))"
  proof (rule bindA_pure_cases [OF calls], erule bindA_pure_cases, erule bindA_pure_cases)
    fix u1 u2 source
    assume "bindA (\<lambda>w. (delta_table_exists api uri w, w)) (\<lambda>existing.
       if \<not> existing
       then bindA (pureA (case desc of None \<Rightarrow> Inr EVENT_TABLE_DESCRIPTION
               | Some d \<Rightarrow> bindR (guard (canonical d) ValueError ''table description must be canonical non-empty text'') (\<lambda>_. Inr d)))
             (\<lambda>description. create_table api uri source rows name description)
       else merge_attempts api (reject_conflicting_replays api ps key) uri key source rows MAX_COMMIT_ATTEMPTS) w = (r, w')"
    then show ?thesis unfolding step by auto
  qed blast+
  with assms(2) merge_attempts_keeps [OF assms(1,2)] show ?thesis by blast
qed

section \<open>A table store in memory\<close>

text \<open>
  A concrete store that satisfies the contract: a dictionary from URIs to a version and rows.  It
  is what the witnesses run on.
\<close>

type_synonym mem_store = "(string \<times> int \<times> row list) list"

definition mem_merge :: "string \<Rightarrow> int \<times> row list \<Rightarrow> row list \<Rightarrow> string \<Rightarrow> mem_store \<Rightarrow> int res \<times> mem_store" where
  "mem_merge uri t rows key w =
     (case t of (v, old) \<Rightarrow>
        (Inr (int (length (new_rows key old rows))), AList.update uri (v + 1, old @ new_rows key old rows) w))"

definition mem_delta :: "(mem_store, int \<times> row list) delta_api" where
  "mem_delta =
     \<lparr>api_open = (\<lambda>uri w. require_some (map_of w uri) TableNotFoundError uri),
      api_from_pylist = (\<lambda>rows sch. Inr (arrow_rows rows sch)),
      api_create = (\<lambda>uri rows name d w. (Inr (), AList.update uri (0, rows) w)),
      api_config = (\<lambda>t k. Some ''true''),
      api_version = fst,
      api_read = (\<lambda>t cols flt. Inr (map (project cols) (selected flt (snd t)))),
      api_read_all = (\<lambda>t. Inr (snd t)),
      api_merge = mem_merge,
      api_overwrite = (\<lambda>uri rows name d w. (Inr (), AList.update uri (0, rows) w)),
      api_delete = (\<lambda>uri t p w. (Inr (), AList.update uri (fst t + 1, sql_delete p (snd t)) w)),
      api_set_property = (\<lambda>uri t k v w. (Inr (), w))\<rparr>"

lemma mem_delta_contract: "delta_contract mem_delta snd"
  by (auto simp: delta_contract_def mem_delta_def mem_merge_def split: prod.splits)

section \<open>Properties\<close>

text \<open>
  Claim C5.  Retention: whatever path an append takes, when it returns, the rows it counts as written
  and as already present add up to the batch, and every row of the batch is in the table, under its key and
  with equal values in all its identity columns that the Arrow table of the batch has: those of the schema, or without
  one those of the first row.
\<close>

theorem append_rows_retained:
  assumes "delta_contract api content"
    and "append_rows api (py_str fmt) uri rows key desc sch name w = (Inr (v, written, present), w')"
    and "key \<notin> set REPLAY_GUARD_EXCLUDED_COLUMNS" "key \<in> set (arrow_columns rows sch)"
    and "r \<in> set rows" "row_get r key = CText k"
  shows "written + present = int (length rows) \<and>
    (\<exists>t. api_open api uri w' = Inr t \<and> v = api_version api t \<and>
      (\<exists>y\<in>set (content t). py_str fmt (row_get y key) = k \<and>
         list_all (\<lambda>c. same_value (row_get y c) (row_get r c)) (stored_columns rows sch r)))"
  using assms by (rule append_retained)

definition sample_row :: row where
  "sample_row = [(''event_id'', CText ''e1''), (''payload_json'', CText ''x'')]"

lemma append_rows_retained_witness:
  "\<exists>v w'. append_rows mem_delta (py_str (\<lambda>c. [])) ''s3://b/t'' [sample_row] ''event_id'' None None ''n'' [] =
      (Inr (v, 1, 0), w') \<and> (\<exists>t. api_open mem_delta ''s3://b/t'' w' = Inr t \<and> snd t \<noteq> []) \<and>
      stored_columns [sample_row] None sample_row = [''event_id'', ''payload_json'']"
proof -
  have a: "append_rows mem_delta (py_str (\<lambda>c. [])) ''s3://b/t'' [sample_row] ''event_id'' None None ''n'' [] =
      (Inr (0, 1, 0), [(''s3://b/t'', 0, [sample_row])])" by code_simp
  have "''event_id'' \<notin> set REPLAY_GUARD_EXCLUDED_COLUMNS" "''event_id'' \<in> set (arrow_columns [sample_row] None)"
    "sample_row \<in> set [sample_row]" "row_get sample_row ''event_id'' = CText ''e1''"
    by (simp_all add: REPLAY_GUARD_EXCLUDED_COLUMNS_def sample_row_def arrow_columns_def)
  from append_rows_retained [OF mem_delta_contract a this] obtain t y where
    "api_open mem_delta ''s3://b/t'' [(''s3://b/t'', 0, [sample_row])] = Inr t" "y \<in> set (snd t)" by blast
  then have "\<exists>t. api_open mem_delta ''s3://b/t'' [(''s3://b/t'', 0, [sample_row])] = Inr t \<and> snd t \<noteq> []" by fastforce
  moreover have "stored_columns [sample_row] None sample_row = [''event_id'', ''payload_json'']" by code_simp
  ultimately show ?thesis using a by blast
qed

text \<open>
  The other columns are lost: a first write checks no shape, so of two rows the second of which has one column more,
  both are counted as written and the column is dropped, whereas a later append of the same batch is refused for it.
\<close>

lemma ragged_first_write:
  "\<exists>w'. append_rows mem_delta (py_str (\<lambda>c. [])) ''s3://b/t'' [[(''event_id'', CText ''e0'')], sample_row] ''event_id'' None None ''n'' [] =
      (Inr (0, 2, 0), w') \<and> w' = [(''s3://b/t'', 0, [[(''event_id'', CText ''e0'')], [(''event_id'', CText ''e1'')]])] \<and>
    \<not> is_ok (fst (append_rows mem_delta (py_str (\<lambda>c. [])) ''s3://b/t'' [[(''event_id'', CText ''e0'')], sample_row] ''event_id'' None None ''n'' w'))"
proof -
  have "append_rows mem_delta (py_str (\<lambda>c. [])) ''s3://b/t'' [[(''event_id'', CText ''e0'')], sample_row] ''event_id'' None None ''n'' [] =
      (Inr (0, 2, 0), [(''s3://b/t'', 0, [[(''event_id'', CText ''e0'')], [(''event_id'', CText ''e1'')]])])" by code_simp
  moreover have "\<not> is_ok (fst (append_rows mem_delta (py_str (\<lambda>c. [])) ''s3://b/t'' [[(''event_id'', CText ''e0'')], sample_row] ''event_id'' None None ''n''
      [(''s3://b/t'', 0, [[(''event_id'', CText ''e0'')], [(''event_id'', CText ''e1'')]])]))" by code_simp
  ultimately show ?thesis by blast
qed

text \<open>
  Claim C6.  Immutability: when the table already holds a batch row's key and no retained row
  with that key equals the row in all its identity columns, the append fails and changes nothing.
\<close>

theorem append_conflict_refused:
  assumes "delta_contract api content" "api_open api uri w = Inr t"
    and "key \<notin> set REPLAY_GUARD_EXCLUDED_COLUMNS"
    and "r \<in> set rows" "row_get r key = CText k" "y \<in> set (content t)" "row_get y key = CText k"
    and "\<forall>x\<in>set (content t). py_str fmt (row_get x key) = k \<longrightarrow>
      (\<exists>c\<in>set (identity_columns r). \<not> cell_eq (row_get x c) (row_get r c))"
  shows "\<exists>e. append_rows api (py_str fmt) uri rows key desc sch name w = (Inl e, w)"
  using assms by (rule append_refused)

lemma append_conflict_refused_witness:
  "\<exists>e. append_rows mem_delta (py_str (\<lambda>c. [])) ''s3://b/t'' [AList.update ''payload_json'' (CText ''y'') sample_row]
     ''event_id'' None None ''n'' [(''s3://b/t'', 0, [sample_row])] = (Inl e, [(''s3://b/t'', 0, [sample_row])])"
proof (rule append_conflict_refused [OF mem_delta_contract, where k = "''e1''" and y = sample_row
      and r = "AList.update ''payload_json'' (CText ''y'') sample_row" and t = "(0, [sample_row])"])
  show "api_open mem_delta ''s3://b/t'' [(''s3://b/t'', 0, [sample_row])] = Inr (0, [sample_row])"
    by (simp add: mem_delta_def)
  show "\<forall>x\<in>set (snd (0, [sample_row])). py_str (\<lambda>c. []) (row_get x ''event_id'') = ''e1'' \<longrightarrow>
      (\<exists>c\<in>set (identity_columns (AList.update ''payload_json'' (CText ''y'') sample_row)).
        \<not> cell_eq (row_get x c) (row_get (AList.update ''payload_json'' (CText ''y'') sample_row) c))"
    by (simp add: sample_row_def identity_columns_def REPLAY_GUARD_EXCLUDED_COLUMNS_def)
qed (simp_all add: REPLAY_GUARD_EXCLUDED_COLUMNS_def sample_row_def)





text \<open>
  Every layer URI below a resolved ADLS root is refused by \<open>validate_table_uri\<close>, because the
  filesystem name in front of the account parses as user information; every layer URI below a
  resolved S3 root is accepted.  So no append succeeds on the ADLS backend.
\<close>

theorem adls_layers_refused:
  assumes "resolve_lakehouse_root s env = Inr base"
    and "canonical_backend (env_get env ''BLUEECONOMY_STORAGE_BACKEND'') = Inr b"
    and "layer \<in> set layer_names"
    and "uri = base @ ''/'' @ scope_value s @ ''_'' @ layer @ ''/events''"
  shows "(b = BACKEND_ADLS \<longrightarrow> \<not> is_ok (validate_table_uri uri) \<and>
       \<not> is_ok (fst (append_rows api ps uri rows key desc sch name w))) \<and>
     (b = BACKEND_S3 \<longrightarrow> validate_table_uri uri = Inr ())"
proof (intro conjI impI)
  assume "b = BACKEND_ADLS"
  with resolve_adls [OF _ assms(1)] assms(2) obtain f a x where n: "filesystem_name_pattern f" "account_name_pattern a"
    "x \<in> snd ` set AZURE_CLOUDS" "base = ''abfs://'' @ (f @ ''@'' @ a @ ''.'' @ x) @ CHR ''/'' # scope_value s" by auto
  then have net: "abfs_netloc (f @ ''@'' @ a @ ''.'' @ x)" unfolding abfs_netloc_def by blast
  from abfs_roots.urlsplit_below [OF net layer_tail_plain [OF assms(3), of s], of s]
  obtain p where p: "urlsplit uri = Inr p" "url_netloc p = f @ CHR ''@'' # (a @ ''.'' @ x)"
    unfolding assms(4) n(4) by auto
  have "CHR ''@'' \<notin> set (a @ ''.'' @ x)" using account_plain [OF n(2)] suffix_plain [OF n(3)] by simp
  then have "before_last (CHR ''@'') (url_netloc p) = f" unfolding p(2) by (rule before_last_append)
  moreover have "CHR '':'' \<notin> set f" using filesystem_plain [OF n(1)]
    by (auto simp: list_all_iff plain_segment_char_def plain_url_char_def)
  ultimately have "url_userinfo p = (Some f, None)"
    using p(2) by (simp add: url_userinfo_def partition_on_missing)
  then have "url_has_extras p" using filesystem_plain [OF n(1)] by (simp add: url_has_extras_def truthy_def)
  with p(1) show v: "\<not> is_ok (validate_table_uri uri)" by (simp add: validate_table_uri_def is_ok_bindR)
  show "\<not> is_ok (fst (append_rows api ps uri rows key desc sch name w))"
  proof
    assume "is_ok (fst (append_rows api ps uri rows key desc sch name w))"
    then obtain r w' where "append_rows api ps uri rows key desc sch name w = (Inr r, w')"
      by (cases "append_rows api ps uri rows key desc sch name w") (auto simp: is_ok_iff)
    from append_rows_cases [OF this] v show False by simp
  qed
next
  assume "b = BACKEND_S3"
  with resolve_s3 [OF _ assms(1)] assms(2) obtain k
    where k: "s3_bucket_pattern k" "base = ''s3://'' @ k @ CHR ''/'' # scope_value s" by auto
  from s3_roots.urlsplit_below [OF k(1) layer_tail_plain [OF assms(3), of s], of s]
  obtain p where p: "urlsplit uri = Inr p" "url_netloc p = k" "url_query p = []" "url_fragment p = []"
    unfolding assms(4) k(2) by auto
  have "\<not> url_has_extras p"
    using bucket_plain [OF k(1)] by (simp add: url_has_extras_def url_userinfo_def truthy_def p)
  moreover have "canonical uri" by (simp add: assms(4) k(2) canonical_iff py_space_def code_def Let_def)
  moreover have "\<not> has_control_characters uri"
  proof -
    have "\<not> list_ex is_control k"
      using k(1) by (auto simp: s3_bucket_pattern_def list_all_iff list_ex_iff lower_or_digit_def char_class_defs)
    moreover have "\<not> list_ex is_control (scope_value s)" by (cases s) (simp_all add: char_class_defs)
    moreover have "\<not> list_ex is_control layer" using assms(3) by (auto simp: layer_names_def char_class_defs)
    ultimately show ?thesis by (simp add: has_control_characters_def assms(4) k(2) char_class_defs)
  qed
  ultimately show "validate_table_uri uri = Inr ()" using p by (simp add: validate_table_uri_def)
qed

definition adls_env :: environ where
  "adls_env =
     [(''BLUEECONOMY_STORAGE_BACKEND'', ''adls''), (''BLUEECONOMY_AZURE_CLOUD'', ''AzureUSGovernment''),
      (''BLUEECONOMY_STORAGE_ACCOUNT'', ''acct1''), (''BLUEECONOMY_STORAGE_FILESYSTEM'', ''lake'')]"

lemma adls_layers_refused_witness:
  "\<not> is_ok (validate_table_uri (''abfs://lake@acct1.dfs.core.usgovcloudapi.net/cvff'' @ ''/'' @ scope_value CVFF @ ''_'' @ ''bronze'' @ ''/events''))"
proof -
  have a: "resolve_lakehouse_root CVFF adls_env = Inr ''abfs://lake@acct1.dfs.core.usgovcloudapi.net/cvff''"
    "canonical_backend (env_get adls_env ''BLUEECONOMY_STORAGE_BACKEND'') = Inr BACKEND_ADLS" by code_simp+
  have "''bronze'' \<in> set layer_names" by (simp add: layer_names_def)
  from adls_layers_refused [OF a this refl, of mem_delta "\<lambda>c. []" "[]" "[]" None None "[]" "[]"] show ?thesis by metis
qed

end
