(* ===== verification/Medallion.thy ===== *)
theory Medallion
  imports Delta_Append
begin

text \<open>
  \<open>medallion.py\<close>: the retention policy, the silver deduplication key, promotion into silver and the
  curated gold table of ledger commitments.  \<open>sha\<close> is SHA-256 rendered in hexadecimal, \<open>loads\<close> is \<open>json.loads\<close>,
  \<open>now\<close> a reading of the clock.
\<close>

section \<open>The retention policy\<close>

record retention_policy =
  hot_days :: int
  cold_years :: int

definition new_retention_policy :: "int \<Rightarrow> int \<Rightarrow> retention_policy res" where
  "new_retention_policy hd_days cd_years =
     bindR (guard (1 \<le> hd_days \<and> hd_days \<le> 366) ValueError ''hot retention must be between 1 and 366 days'') (\<lambda>_.
     bindR (guard (1 \<le> cd_years \<and> cd_years \<le> 25) ValueError ''cold retention must be between 1 and 25 years'') (\<lambda>_.
     bindR (guard (hd_days < cd_years * 365) ValueError
              ''cold retention horizon must exceed the hot retention window'') (\<lambda>_.
     Inr \<lparr>hot_days = hd_days, cold_years = cd_years\<rparr>)))"

definition default_policy :: retention_policy where
  "default_policy = \<lparr>hot_days = 30, cold_years = 7\<rparr>"

definition hot_horizon :: "retention_policy \<Rightarrow> int" where
  "hot_horizon p = hot_days p * us_day"

definition cold_horizon :: "retention_policy \<Rightarrow> int" where
  "cold_horizon p = cold_years p * 365 * us_day"

text \<open>The texts \<open>hot\<close>, \<open>cold\<close> and \<open>expired\<close>.\<close>

datatype tier = Hot | Cold | Expired

definition tier_for :: "retention_policy \<Rightarrow> int \<Rightarrow> int \<Rightarrow> tier res" where
  "tier_for p occurred reference =
     bindR (guard (occurred \<le> reference) ValueError
              ''occurred_at must not be later than the retention reference time'') (\<lambda>_.
     let age = reference - occurred
     in if age \<le> hot_horizon p then Inr Hot
        else if age \<le> cold_horizon p then Inr Cold
        else Inr Expired)"

definition as_table_description :: "retention_policy \<Rightarrow> string \<Rightarrow> string" where
  "as_table_description p scope_label =
     scope_label @ '' segregated bronze table (raw validated envelopes); retention: hot='' @
     int_str (hot_days p) @ ''d, cold='' @ int_str (cold_years p) @ ''y''"

section \<open>Silver records\<close>

record kafka_metadata =
  meta_topic :: string
  meta_partition :: int
  meta_offset :: int

text \<open>\<open>isinstance(v, int) and not isinstance(v, bool) and v >= 0\<close>.\<close>

definition require_non_negative :: "cell \<Rightarrow> int res" where
  "require_non_negative v =
     (case v of
        CInt i \<Rightarrow> if 0 \<le> i then Inr i else raise ValueError ''must be a non-negative integer''
      | _ \<Rightarrow> raise ValueError ''must be a non-negative integer'')"

definition new_kafka_metadata :: "string \<Rightarrow> cell \<Rightarrow> cell \<Rightarrow> kafka_metadata res" where
  "new_kafka_metadata topic part offs =
     bindR (guard (prefix ''cvff.'' topic) BoundaryViolationError
              ''silver dedup metadata requires a cvff.* topic'') (\<lambda>_.
     bindR (require_non_negative part) (\<lambda>p.
     bindR (require_non_negative offs) (\<lambda>o'.
     Inr \<lparr>meta_topic = topic, meta_partition = p, meta_offset = o'\<rparr>)))"

definition ledger_hash_pattern :: "string \<Rightarrow> bool" where
  "ledger_hash_pattern s = (length s = 64 \<and> list_all is_hex_lower s)"

definition payload_ledger_hash :: "jobject \<Rightarrow> json" where
  "payload_ledger_hash payload =
     (if jget payload ''ledgerCommitHash'' \<noteq> JNull then jget payload ''ledgerCommitHash''
      else (case jget payload ''provenance'' of JObj p \<Rightarrow> jget p ''ledgerCommitHash'' | _ \<Rightarrow> JNull))"

definition extract_ledger_commit_hash :: "(string \<Rightarrow> json res) \<Rightarrow> row \<Rightarrow> string res" where
  "extract_ledger_commit_hash loads event =
     bindR (require_some (cell_text (row_get event ''payload_json'')) ValueError
              ''bronze event is missing payload_json'') (\<lambda>payload_json.
     bindR (loads payload_json) (\<lambda>payload.
     bindR (require_some (json_obj payload) ValueError ''cvff payload must be a JSON object'') (\<lambda>p.
     bindR (require_some (json_text (payload_ledger_hash p)) ValueError
              ''cvff payload must carry a ledgerCommitHash'') (\<lambda>h.
     bindR (guard (ledger_hash_pattern h) ValueError ''cvff payload must carry a ledgerCommitHash'') (\<lambda>_.
     Inr h)))))"

definition dedup_material :: "kafka_metadata \<Rightarrow> string \<Rightarrow> string" where
  "dedup_material m tail =
     meta_topic m @ ''/'' @ int_str (meta_partition m) @ ''/'' @ int_str (meta_offset m) @ ''/'' @ tail"

definition silver_dedup_key :: "(string \<Rightarrow> string) \<Rightarrow> kafka_metadata \<Rightarrow> string \<Rightarrow> string" where
  "silver_dedup_key sha m ledger_commit_hash = sha (dedup_material m ledger_commit_hash)"

definition SILVER_IDENTITY_COLUMNS :: "string list" where
  "SILVER_IDENTITY_COLUMNS =
     [''event_id'', ''event_type'', ''producer'', ''occurred_at'', ''recorded_at'', ''data_classification'',
      ''source_system'', ''source_record_reference'', ''correlation_id'', ''payload_json'',
      ''kafka_topic'', ''kafka_partition'', ''kafka_offset'', ''ledger_commit_hash'']"

definition build_silver_record :: "(string \<Rightarrow> string) \<Rightarrow> (string \<Rightarrow> json res) \<Rightarrow> int \<Rightarrow> row \<Rightarrow> kafka_metadata \<Rightarrow> row res" where
  "build_silver_record sha loads now event m =
     bindR (extract_ledger_commit_hash loads event) (\<lambda>ledger_hash.
     let record' = map (\<lambda>c. (c, row_get event c)) (take 10 SILVER_IDENTITY_COLUMNS)
     in bindR (guard (row_get record' ''event_id'' \<noteq> CNone) ValueError ''bronze event is missing event_id'') (\<lambda>_.
        Inr (record' @
          [(''kafka_topic'', CText (meta_topic m)),
           (''kafka_partition'', CInt (meta_partition m)),
           (''kafka_offset'', CInt (meta_offset m)),
           (''ledger_commit_hash'', CText ledger_hash),
           (''dedup_key'', CText (silver_dedup_key sha m ledger_hash)),
           (''promoted_at'', CTime now)])))"

section \<open>Appending\<close>

definition reject_conflicting_dedup_replays :: "('w, 't) delta_api \<Rightarrow> (cell \<Rightarrow> string) \<Rightarrow> 't \<Rightarrow> row list \<Rightarrow> unit res" where
  "reject_conflicting_dedup_replays api ps table records =
     reject_conflicts api ps SILVER_IDENTITY_COLUMNS (SILVER_IDENTITY_COLUMNS @ [''dedup_key'']) ''dedup_key'' table records"

definition append_bronze :: "('w, 't) delta_api \<Rightarrow> (cell \<Rightarrow> string) \<Rightarrow> delta_writer \<Rightarrow> row list \<Rightarrow> string option \<Rightarrow>
    retention_policy option \<Rightarrow> ('w, int \<times> int \<times> int) act" where
  "append_bronze api ps writer events kafka_topic retention =
     (let policy = (case retention of None \<Rightarrow> default_policy | Some p \<Rightarrow> p)
      in bindA (pureA (guard_write writer ''bronze'' events kafka_topic)) (\<lambda>uri.
         append_events api ps uri events
           (Some (as_table_description policy (upper (scope_value (writer_scope writer)))))))"

text \<open>
  The body that \<open>_append_silver\<close> and \<open>_append_scope_silver\<close> share, with the guard, the table's name and
  its description as arguments.
\<close>

definition append_deduplicated :: "('w, 't) delta_api \<Rightarrow> (cell \<Rightarrow> string) \<Rightarrow> ('t \<Rightarrow> row list \<Rightarrow> unit res) \<Rightarrow>
    delta_writer \<Rightarrow> row list \<Rightarrow> string \<Rightarrow> string \<Rightarrow> ('w, int \<times> int \<times> int) act" where
  "append_deduplicated api ps check writer records name description =
     bindA (pureA (mapR (row_key ps ''dedup_key'') records)) (\<lambda>keys.
     bindA (pureA (guard (distinct keys) ValueError ''silver batch repeats a dedup_key'')) (\<lambda>_.
     bindA (pureA (table_uri writer ''silver'')) (\<lambda>uri.
     bindA (pureA (api_from_pylist api records None)) (\<lambda>arrow_table.
     bindA (\<lambda>w. (delta_table_exists api uri w, w)) (\<lambda>existing.
     if \<not> existing then create_table api uri arrow_table records name description
     else merge_attempts api check uri ''dedup_key'' arrow_table records MAX_COMMIT_ATTEMPTS)))))"

definition append_silver :: "('w, 't) delta_api \<Rightarrow> (cell \<Rightarrow> string) \<Rightarrow> delta_writer \<Rightarrow> row list \<Rightarrow>
    ('w, int \<times> int \<times> int) act" where
  "append_silver api ps writer records =
     bindA (pureA (guard (writer_scope writer = CVFF) BoundaryViolationError
              ''silver promotion is only defined for the cvff boundary'')) (\<lambda>_.
     bindA (pureA (guard (records \<noteq> []) ValueError ''refusing to promote an empty silver batch'')) (\<lambda>_.
     append_deduplicated api ps (reject_conflicting_dedup_replays api ps) writer records ''cvff_silver_events''
       ''CVFF segregated silver table deduplicated by Kafka offset and ledger hash''))"

section \<open>The gold table\<close>

record gold_entry =
  gold_count :: int
  gold_first :: cell
  gold_last :: cell
  gold_sources :: "string list"
  gold_event_ids :: "string list"

text \<open>\<open>min(a, b)\<close> and \<open>max(a, b)\<close> of instants; anything else does not compare.\<close>

definition order_times :: "(int \<Rightarrow> int \<Rightarrow> int) \<Rightarrow> cell \<Rightarrow> cell \<Rightarrow> cell res" where
  "order_times f a b =
     (case (a, b) of (CTime x, CTime y) \<Rightarrow> Inr (CTime (f x y)) | _ \<Rightarrow> raise TypeError ''not supported between instances'')"

definition curate_step :: "(cell \<Rightarrow> string) \<Rightarrow> (string \<times> gold_entry) list \<Rightarrow> row \<Rightarrow> (string \<times> gold_entry) list res" where
  "curate_step ps curated r =
     bindR (row_key ps ''ledger_commit_hash'' r) (\<lambda>ledger_hash.
     bindR (row_item r ''occurred_at'') (\<lambda>occurred_at.
     case map_of curated ledger_hash of
       None \<Rightarrow>
         bindR (row_key ps ''source_system'' r) (\<lambda>src.
         bindR (row_key ps ''event_id'' r) (\<lambda>event_id.
         Inr (AList.update ledger_hash
           \<lparr>gold_count = 1, gold_first = occurred_at, gold_last = occurred_at, gold_sources = [src],
            gold_event_ids = [event_id]\<rparr> curated)))
     | Some entry \<Rightarrow>
         bindR (order_times min (gold_first entry) occurred_at) (\<lambda>lo.
         bindR (order_times max (gold_last entry) occurred_at) (\<lambda>hi.
         bindR (row_key ps ''source_system'' r) (\<lambda>src.
         bindR (row_key ps ''event_id'' r) (\<lambda>event_id.
         Inr (AList.update ledger_hash
           \<lparr>gold_count = gold_count entry + 1, gold_first = lo, gold_last = hi,
            gold_sources = List.insert src (gold_sources entry),
            gold_event_ids = gold_event_ids entry @ [event_id]\<rparr> curated)))))))"

text \<open>\<open>json.dumps\<close> of a list of texts, with the default separators and ASCII escapes.\<close>

definition json_ascii_str :: "string \<Rightarrow> string" where
  "json_ascii_str s = char_of (34 :: nat) #
     concat (map (\<lambda>c. if code c < 127 then json_escape_char c
                      else [char_of (92 :: nat)] @ ''u00'' @ [hex_digit (code c div 16), hex_digit (code c mod 16)]) s) @
     [char_of (34 :: nat)]"

definition dumps_texts :: "string list \<Rightarrow> string" where
  "dumps_texts xs = ''['' @ join_with '', '' (map json_ascii_str xs) @ '']''"

definition gold_row :: "int \<Rightarrow> string \<times> gold_entry \<Rightarrow> row" where
  "gold_row now he =
     (case he of (h, e) \<Rightarrow>
        [(''ledger_commit_hash'', CText h),
         (''record_count'', CInt (gold_count e)),
         (''first_occurred_at'', gold_first e),
         (''last_occurred_at'', gold_last e),
         (''source_systems_json'', CText (dumps_texts (sort (gold_sources e)))),
         (''event_ids_json'', CText (dumps_texts (sort (gold_event_ids e)))),
         (''curated_at'', CTime now)])"

definition curated_rows :: "(cell \<Rightarrow> string) \<Rightarrow> int \<Rightarrow> row list \<Rightarrow> row list res" where
  "curated_rows ps now rows =
     bindR (foldR (curate_step ps) [] rows) (\<lambda>curated. Inr (map (gold_row now) (sort_key fst curated)))"

definition curate_gold :: "('w, 't) delta_api \<Rightarrow> (cell \<Rightarrow> string) \<Rightarrow> int \<Rightarrow> delta_writer \<Rightarrow> ('w, int \<times> int) act" where
  "curate_gold api ps now writer =
     bindA (pureA (guard (writer_scope writer = CVFF) BoundaryViolationError
              ''gold curation is only defined for the cvff boundary'')) (\<lambda>_.
     bindA (pureA (table_uri writer ''silver'')) (\<lambda>silver_uri.
     bindA (\<lambda>w. (delta_table_exists api silver_uri w, w)) (\<lambda>existing.
     bindA (pureA (guard existing ValueError ''cannot curate gold before the silver table exists'')) (\<lambda>_.
     bindA (\<lambda>w. (api_open api silver_uri w, w)) (\<lambda>table.
     bindA (pureA (api_read api table [''ledger_commit_hash'', ''event_id'', ''occurred_at'', ''source_system''] None)) (\<lambda>rows.
     bindA (pureA (guard (rows \<noteq> []) ValueError ''cannot curate gold from an empty silver table'')) (\<lambda>_.
     bindA (pureA (curated_rows ps now rows)) (\<lambda>curated.
     bindA (pureA (table_uri writer ''gold'')) (\<lambda>gold_uri.
     bindA (pureA (api_from_pylist api curated None)) (\<lambda>arrow_table.
     bindA (api_overwrite api gold_uri arrow_table ''cvff_gold_ledger_commitments''
              ''CVFF segregated gold table curated per ledger commitment'') (\<lambda>_.
     bindA (\<lambda>w. (api_open api gold_uri w, w)) (\<lambda>gold.
     pureA (Inr (api_version api gold, int (length curated)))))))))))))))"

section \<open>The retention report\<close>

record tier_counts =
  count_hot :: int
  count_cold :: int
  count_expired :: int

definition count_tier :: "tier \<Rightarrow> tier_counts \<Rightarrow> tier_counts" where
  "count_tier t c =
     (case t of Hot \<Rightarrow> c\<lparr>count_hot := count_hot c + 1\<rparr>
      | Cold \<Rightarrow> c\<lparr>count_cold := count_cold c + 1\<rparr>
      | Expired \<Rightarrow> c\<lparr>count_expired := count_expired c + 1\<rparr>)"

definition row_instant :: "row \<Rightarrow> string \<Rightarrow> int res" where
  "row_instant r k = bindR (row_item r k) (\<lambda>c. require_some (cell_time c) AttributeError k)"

definition retention_report :: "('w, 't) delta_api \<Rightarrow> delta_writer \<Rightarrow> retention_policy \<Rightarrow> int \<Rightarrow> ('w, tier_counts) act" where
  "retention_report api writer retention reference =
     bindA (pureA (guard (writer_scope writer = CVFF) BoundaryViolationError
              ''retention reporting is only defined for the cvff boundary'')) (\<lambda>_.
     bindA (pureA (table_uri writer ''bronze'')) (\<lambda>bronze_uri.
     bindA (\<lambda>w. (delta_table_exists api bronze_uri w, w)) (\<lambda>existing.
     bindA (pureA (guard existing ValueError ''cannot report retention before the bronze table exists'')) (\<lambda>_.
     bindA (\<lambda>w. (api_open api bronze_uri w, w)) (\<lambda>table.
     bindA (pureA (api_read api table [''occurred_at''] None)) (\<lambda>rows.
     pureA (foldR (\<lambda>c r. bindR (row_instant r ''occurred_at'') (\<lambda>t.
              bindR (tier_for retention t reference) (\<lambda>tier. Inr (count_tier tier c))))
            \<lparr>count_hot = 0, count_cold = 0, count_expired = 0\<rparr> rows)))))))"

section \<open>Lemmas\<close>

lemma int_str_chars: "c \<in> set (int_str i) \<Longrightarrow> is_digit c \<or> c = CHR ''-''"
  by (auto simp: int_str_def dest: nat_str_digits split: if_splits)

lemma int_str_no_slash: "CHR ''/'' \<notin> set (int_str i)"
  by (auto dest!: int_str_chars simp: is_digit_def)

lemma nat_str_no_minus: "CHR ''-'' \<notin> set (nat_str n)"
  by (auto dest!: nat_str_digits simp: is_digit_def code_def)

lemma int_str_inject [simp]: "int_str i = int_str j \<longleftrightarrow> i = j"
proof
  assume e: "int_str i = int_str j"
  have "i < 0 \<longleftrightarrow> j < 0"
  proof (rule ccontr)
    assume "\<not> (i < 0 \<longleftrightarrow> j < 0)"
    with e have "CHR ''-'' \<in> set (nat_str (nat i)) \<or> CHR ''-'' \<in> set (nat_str (nat j))"
      by (auto simp: int_str_def split: if_splits) (metis list.set_intros(1))+
    with nat_str_no_minus show False by blast
  qed
  with e show "i = j" by (auto simp: int_str_def split: if_splits)
qed simp

text \<open>Two texts joined by a separator are recovered when the last one does not contain it.\<close>

lemma join_last_inject:
  fixes c :: char
  assumes "c \<notin> set b" "c \<notin> set b'"
  shows "a @ c # b = a' @ c # b' \<longleftrightarrow> a = a' \<and> b = b'"
proof
  assume e: "a @ c # b = a' @ c # b'"
  from arg_cong [OF e, of "before_last c"] arg_cong [OF e, of "after_last c"]
  show "a = a' \<and> b = b'" by (simp only: before_last_append [OF assms(1)] before_last_append [OF assms(2)]
    after_last_append [OF assms(1)] after_last_append [OF assms(2)] simp_thms)
qed simp

lemma dedup_material_inject:
  assumes "CHR ''/'' \<notin> set t" "CHR ''/'' \<notin> set t'"
  shows "dedup_material m t = dedup_material m' t' \<longleftrightarrow> m = m' \<and> t = t'"
proof -
  have m: "dedup_material m t = ((meta_topic m @ CHR ''/'' # int_str (meta_partition m)) @ CHR ''/'' # int_str (meta_offset m)) @ CHR ''/'' # t"
    for m t by (simp add: dedup_material_def)
  show ?thesis
    unfolding m join_last_inject [OF assms] join_last_inject [OF int_str_no_slash int_str_no_slash] int_str_inject
    by auto
qed

lemma extract_hash_pattern: "extract_ledger_commit_hash loads e = Inr h \<Longrightarrow> ledger_hash_pattern h"
  by (auto simp: extract_ledger_commit_hash_def res_simps)

lemma hash_no_slash: "ledger_hash_pattern h \<Longrightarrow> CHR ''/'' \<notin> set h"
  by (auto simp: ledger_hash_pattern_def list_all_iff is_hex_lower_def is_digit_def)

lemma build_silver_fields:
  assumes "build_silver_record sha loads now e m = Inr r"
  shows "\<exists>h. extract_ledger_commit_hash loads e = Inr h \<and>
     r = map (\<lambda>c. (c, row_get e c)) (take 10 SILVER_IDENTITY_COLUMNS) @
         [(''kafka_topic'', CText (meta_topic m)), (''kafka_partition'', CInt (meta_partition m)),
          (''kafka_offset'', CInt (meta_offset m)), (''ledger_commit_hash'', CText h),
          (''dedup_key'', CText (silver_dedup_key sha m h)), (''promoted_at'', CTime now)]"
  using assms by (auto simp: build_silver_record_def bindR_Inr_iff Let_def)

lemma build_silver_dedup_key:
  assumes "build_silver_record sha loads now e m = Inr r"
  shows "\<exists>h. extract_ledger_commit_hash loads e = Inr h \<and> row_get r ''dedup_key'' = CText (silver_dedup_key sha m h)"
proof -
  from build_silver_fields [OF assms] obtain h where h: "extract_ledger_commit_hash loads e = Inr h"
    "r = map (\<lambda>c. (c, row_get e c)) (take 10 SILVER_IDENTITY_COLUMNS) @
         [(''kafka_topic'', CText (meta_topic m)), (''kafka_partition'', CInt (meta_partition m)),
          (''kafka_offset'', CInt (meta_offset m)), (''ledger_commit_hash'', CText h),
          (''dedup_key'', CText (silver_dedup_key sha m h)), (''promoted_at'', CTime now)]" by blast
  from h(2) have "row_get r ''dedup_key'' = CText (silver_dedup_key sha m h)"
    by (simp add: SILVER_IDENTITY_COLUMNS_def)
  with h(1) show ?thesis by blast
qed

interpretation silver_guard: replay_guard api ps "''dedup_key''" "reject_conflicting_dedup_replays api ps"
    "\<lambda>rows. SILVER_IDENTITY_COLUMNS" "\<lambda>rows. SILVER_IDENTITY_COLUMNS @ [''dedup_key'']"
  for api ps
  by unfold_locales (auto simp: reject_conflicting_dedup_replays_def dest: reject_conflicts_guarded)

text \<open>
  What an append in the deduplicating mode leaves: the table is the one the committed write was based on
  plus rows of the batch, no two of them with one key, none with a key that was there.
\<close>

definition key_of :: "row \<Rightarrow> cell" where
  "key_of r = row_get r ''dedup_key''"

lemma distinct_key_cells:
  assumes "mapR (row_key (py_str fmt) ''dedup_key'') records = Inr keys" "distinct keys"
  shows "distinct (map key_of records)"
proof -
  have "keys = map (\<lambda>r. py_str fmt (key_of r)) records"
  proof -
    have "list_all2 (\<lambda>r k. row_key (py_str fmt) ''dedup_key'' r = Inr k) records keys"
      using assms(1) by (simp add: mapR_Inr_iff)
    then show ?thesis
      by (induction rule: list_all2_induct) (auto simp: row_key_Inr key_of_def row_get_def)
  qed
  with assms(2) have "distinct (map (py_str fmt) (map key_of records))" by (simp add: comp_def)
  then show ?thesis using distinct_map by blast
qed

lemma append_deduplicated_cases:
  assumes "append_deduplicated api ps check writer records name d w = (Inr r, w')"
  shows "\<exists>keys uri source. mapR (row_key ps ''dedup_key'') records = Inr keys \<and> distinct keys \<and>
     table_uri writer ''silver'' = Inr uri \<and> api_from_pylist api records None = Inr source \<and>
     (create_table api uri source records name d w = (Inr r, w') \<or>
      merge_attempts api check uri ''dedup_key'' source records MAX_COMMIT_ATTEMPTS w = (Inr r, w'))"
  using assms by (auto simp: append_deduplicated_def bindA_Inr guard_def split: if_splits)

lemma new_rows_added:
  "set (new_rows key old rows) \<subseteq> set rows \<and>
   (distinct (map (\<lambda>r. row_get r key) rows) \<longrightarrow> distinct (map (\<lambda>r. row_get r key) (new_rows key old rows))) \<and>
   (\<forall>r\<in>set (new_rows key old rows). row_get r key \<noteq> CNone \<longrightarrow> row_get r key \<notin> (\<lambda>r. row_get r key) ` set old)"
  by (auto simp: new_rows_def distinct_map_filter)

text \<open>Every row of a silver batch has its key, so the Arrow table has the column.\<close>

lemma arrow_rows_keys:
  assumes "mapR (row_key ps ''dedup_key'') records = Inr keys"
  shows "map key_of (arrow_rows records None) = map key_of records"
proof (cases records)
  case (Cons r rs)
  with assms obtain k where "row_key ps ''dedup_key'' r = Inr k" by (auto simp: bindR_Inr_iff)
  then have "''dedup_key'' \<in> set (arrow_columns records None)"
    by (force simp: arrow_columns_def Cons row_key_Inr dest: map_of_SomeD)
  then show ?thesis by (simp add: arrow_rows_def key_of_def row_get_project)
qed (simp add: arrow_rows_def)

lemma append_deduplicated_adds:
  assumes con: "delta_contract api content"
    and a: "append_deduplicated api (py_str fmt) (\<lambda>t rows. check t rows) writer records name d w =
      (Inr (v, written, present), w')"
    and g: "replay_guard api (py_str fmt) ''dedup_key'' check cols rcols"
    and t: "\<forall>r\<in>set records. \<exists>k. key_of r = CText k"
  shows "\<exists>uri t old added. table_uri writer ''silver'' = Inr uri \<and> api_open api uri w' = Inr t \<and>
     content t = old @ added \<and> written + present = int (length records) \<and> written = int (length added) \<and>
     set added \<subseteq> set (arrow_rows records None) \<and> distinct (map key_of added) \<and> key_of ` set added \<inter> key_of ` set old = {} \<and>
     key_of ` set records \<subseteq> key_of ` set (old @ added)"
proof -
  from append_deduplicated_cases [OF a] obtain keys uri source where
    k: "mapR (row_key (py_str fmt) ''dedup_key'') records = Inr keys" "distinct keys"
    and uri: "table_uri writer ''silver'' = Inr uri" and src: "api_from_pylist api records None = Inr source"
    and c: "create_table api uri source records name d w = (Inr (v, written, present), w') \<or>
      merge_attempts api check uri ''dedup_key'' source records MAX_COMMIT_ATTEMPTS w = (Inr (v, written, present), w')" by auto
  have source: "source = arrow_rows records None" by (rule contract_arrow [OF con src])
  have keys: "map key_of source = map key_of records" unfolding source by (rule arrow_rows_keys [OF k(1)])
  have dk: "distinct (map key_of source)" unfolding keys by (rule distinct_key_cells [OF k])
  have ks: "key_of ` set source = key_of ` set records" using keys by (metis list.set_map)
  have t: "\<forall>r\<in>set source. \<exists>k. key_of r = CText k"
  proof
    fix r assume "r \<in> set source"
    then have "key_of r \<in> key_of ` set records" using ks by blast
    with t show "\<exists>k. key_of r = CText k" by auto
  qed
  from c show ?thesis
  proof
    assume "create_table api uri source records name d w = (Inr (v, written, present), w')"
    then obtain u t where ct: "api_create api uri source name d w = (Inr u, w')" "api_open api uri w' = Inr t"
      "written = int (length records)" "present = 0"
      by (auto simp: create_table_def bindA_Inr)
    with contract_create [OF con] have "content t = source" by fastforce
    with ct uri dk ks show ?thesis
      by (intro exI [of _ uri] exI [of _ t] exI [of _ "[]"] exI [of _ source]) (simp add: source)
  next
    assume "merge_attempts api check uri ''dedup_key'' source records MAX_COMMIT_ATTEMPTS w = (Inr (v, written, present), w')"
    from replay_guard.merge_attempts_result [OF g this] obtain t t0 w0
      where t': "api_open api uri w' = Inr t" "written + present = int (length records)"
        and m: "api_open api uri w0 = Inr t0" "api_merge api uri t0 source ''dedup_key'' w0 = (Inr written, w')" by blast
    let ?new = "new_rows ''dedup_key'' (content t0) source"
    from contract_merge [OF con m] t'(1) have ct: "content t = content t0 @ ?new" "written = int (length ?new)" by auto
    from new_rows_added [of "''dedup_key''" "content t0" source] dk
    have n: "set ?new \<subseteq> set source" "distinct (map key_of ?new)"
      "\<forall>r\<in>set ?new. key_of r \<noteq> CNone \<longrightarrow> key_of r \<notin> key_of ` set (content t0)"
      by (auto simp: key_of_def [abs_def])
    then have "key_of ` set ?new \<inter> key_of ` set (content t0) = {}" using t by fastforce
    moreover have "key_of ` set records \<subseteq> key_of ` set (content t0 @ ?new)"
    proof
      fix x assume "x \<in> key_of ` set records"
      then obtain r where r: "r \<in> set source" "x = key_of r" unfolding ks [symmetric] by blast
      with t obtain k where kk: "row_get r ''dedup_key'' = CText k" by (auto simp: key_of_def)
      from merged_keys [OF con m t'(1) r(1) kk] kk r(2) ct(1) show "x \<in> key_of ` set (content t0 @ ?new)"
        by (force simp: key_of_def)
    qed
    ultimately show ?thesis using uri t' ct n unfolding source by blast
  qed
qed

section \<open>The gold invariant\<close>

text \<open>The silver rows of one ledger commitment, in their order.\<close>

definition commitment_rows :: "(cell \<Rightarrow> string) \<Rightarrow> string \<Rightarrow> row list \<Rightarrow> row list" where
  "commitment_rows ps h rows = filter (\<lambda>r. row_key ps ''ledger_commit_hash'' r = Inr h) rows"

definition extremum :: "(int \<Rightarrow> int \<Rightarrow> bool) \<Rightarrow> cell \<Rightarrow> row list \<Rightarrow> bool" where
  "extremum le c rs \<longleftrightarrow> c \<in> (\<lambda>r. row_get r ''occurred_at'') ` set rs \<and>
     (length rs = 1 \<or> (\<exists>x. c = CTime x \<and> (\<forall>r\<in>set rs. \<exists>y. row_get r ''occurred_at'' = CTime y \<and> le x y)))"

definition summarises :: "(cell \<Rightarrow> string) \<Rightarrow> gold_entry \<Rightarrow> row list \<Rightarrow> bool" where
  "summarises ps e rs \<longleftrightarrow> rs \<noteq> [] \<and> gold_count e = int (length rs) \<and>
     gold_event_ids e = map (\<lambda>r. ps (row_get r ''event_id'')) rs \<and>
     set (gold_sources e) = (\<lambda>r. ps (row_get r ''source_system'')) ` set rs \<and> distinct (gold_sources e) \<and>
     extremum (\<le>) (gold_first e) rs \<and> extremum (\<ge>) (gold_last e) rs"

lemma row_key_get: "row_key ps k r = Inr v \<Longrightarrow> v = ps (row_get r k)"
  by (auto simp: row_key_Inr row_get_def)

lemma order_times_Inr: "order_times f a b = Inr c \<longleftrightarrow> (\<exists>x y. a = CTime x \<and> b = CTime y \<and> c = CTime (f x y))"
  by (cases a; cases b) (auto simp: order_times_def)

lemma extremum_snoc:
  assumes "extremum le c rs" "rs \<noteq> []" "order_times f c (row_get r ''occurred_at'') = Inr c'"
    and "\<And>x y. le (f x y) x" "\<And>x y. le (f x y) y" "\<And>x y. f x y = x \<or> f x y = y" "\<And>x. le x x"
    and trans: "\<And>x y z. le x y \<Longrightarrow> le y z \<Longrightarrow> le x z"
  shows "extremum le c' (rs @ [r])"
proof -
  from assms(3) obtain x y where xy: "c = CTime x" "row_get r ''occurred_at'' = CTime y" "c' = CTime (f x y)"
    by (auto simp: order_times_Inr)
  have all: "\<exists>y. row_get q ''occurred_at'' = CTime y \<and> le x y" if "q \<in> set rs" for q
  proof (cases "length rs = 1")
    case True
    with that have "rs = [q]" by (cases rs) auto
    with assms(1) xy have "row_get q ''occurred_at'' = CTime x" by (auto simp: extremum_def)
    with assms(7) show ?thesis by blast
  next
    case False
    with assms(1) that xy show ?thesis by (auto simp: extremum_def)
  qed
  have "c' \<in> (\<lambda>r. row_get r ''occurred_at'') ` set (rs @ [r])"
    using assms(1) assms(6) [of x y] xy by (auto simp: extremum_def)
  moreover have "\<exists>z. row_get q ''occurred_at'' = CTime z \<and> le (f x y) z" if "q \<in> set (rs @ [r])" for q
    using that all xy assms(4,5) trans by fastforce
  ultimately show ?thesis using xy(3) by (auto simp: extremum_def)
qed

lemma curate_step_inv:
  assumes inv: "\<And>h. case map_of st h of None \<Rightarrow> commitment_rows ps h rs = []
      | Some e \<Rightarrow> summarises ps e (commitment_rows ps h rs)"
    and step: "curate_step ps st r = Inr st'"
  shows "case map_of st' h of None \<Rightarrow> commitment_rows ps h (rs @ [r]) = []
      | Some e \<Rightarrow> summarises ps e (commitment_rows ps h (rs @ [r]))"
proof -
  from step obtain k t where k: "row_key ps ''ledger_commit_hash'' r = Inr k" and t: "map_of r ''occurred_at'' = Some t"
    by (auto simp: curate_step_def bindR_Inr_iff)
  from t have rt: "row_get r ''occurred_at'' = t" by (simp add: row_get_def)
  have other: "h \<noteq> k \<Longrightarrow> commitment_rows ps h (rs @ [r]) = commitment_rows ps h rs"
    using k by (simp add: commitment_rows_def)
  have this_k: "commitment_rows ps k (rs @ [r]) = commitment_rows ps k rs @ [r]"
    using k by (simp add: commitment_rows_def)
  show ?thesis
  proof (cases "map_of st k")
    case None
    with step k t obtain src eid where s: "row_key ps ''source_system'' r = Inr src" "row_key ps ''event_id'' r = Inr eid"
      "st' = AList.update k \<lparr>gold_count = 1, gold_first = t, gold_last = t, gold_sources = [src], gold_event_ids = [eid]\<rparr> st"
      by (auto simp: curate_step_def bindR_Inr_iff)
    from inv [of k] None have "commitment_rows ps k rs = []" by simp
    with s(1,2) rt have "summarises ps \<lparr>gold_count = 1, gold_first = t, gold_last = t, gold_sources = [src], gold_event_ids = [eid]\<rparr>
        (commitment_rows ps k (rs @ [r]))"
      by (auto simp: this_k summarises_def extremum_def dest: row_key_get)
    with inv [of h] other s(3) show ?thesis by (auto split: option.splits)
  next
    case (Some e)
    with step k t obtain lo hi src eid where s: "row_key ps ''source_system'' r = Inr src" "row_key ps ''event_id'' r = Inr eid"
      "order_times min (gold_first e) t = Inr lo" "order_times max (gold_last e) t = Inr hi"
      "st' = AList.update k \<lparr>gold_count = gold_count e + 1, gold_first = lo, gold_last = hi,
            gold_sources = List.insert src (gold_sources e), gold_event_ids = gold_event_ids e @ [eid]\<rparr> st"
      by (auto simp: curate_step_def bindR_Inr_iff)
    from inv [of k] Some have e: "summarises ps e (commitment_rows ps k rs)" by simp
    then have x: "extremum (\<le>) (gold_first e) (commitment_rows ps k rs)" "extremum (\<ge>) (gold_last e) (commitment_rows ps k rs)"
      "commitment_rows ps k rs \<noteq> []" by (auto simp: summarises_def)
    from extremum_snoc [OF x(1,3) s(3) [folded rt]] have lo: "extremum (\<le>) lo (commitment_rows ps k rs @ [r])"
      by (simp add: min_def)
    from extremum_snoc [OF x(2,3) s(4) [folded rt]] have hi: "extremum (\<ge>) hi (commitment_rows ps k rs @ [r])"
      by (simp add: max_def)
    have "summarises ps \<lparr>gold_count = gold_count e + 1, gold_first = lo, gold_last = hi,
            gold_sources = List.insert src (gold_sources e), gold_event_ids = gold_event_ids e @ [eid]\<rparr>
        (commitment_rows ps k (rs @ [r]))"
      using e s(1,2) lo hi unfolding this_k by (auto simp: summarises_def dest: row_key_get)
    with inv [of h] other s(5) show ?thesis by (auto split: option.splits)
  qed
qed

lemma curate_fold_inv:
  assumes "foldR (curate_step ps) [] rows = Inr st"
  shows "distinct (map fst st) \<and>
     (\<forall>h. case map_of st h of None \<Rightarrow> commitment_rows ps h rows = []
          | Some e \<Rightarrow> summarises ps e (commitment_rows ps h rows))"
proof (rule foldR_prefix_inv [OF assms])
  show "distinct (map fst ([] :: (string \<times> gold_entry) list)) \<and>
     (\<forall>h. case map_of [] h of None \<Rightarrow> commitment_rows ps h [] = [] | Some e \<Rightarrow> summarises ps e (commitment_rows ps h []))"
    by (simp add: commitment_rows_def)
next
  fix ds r s s'
  assume I: "distinct (map fst s) \<and> (\<forall>h. case map_of s h of None \<Rightarrow> commitment_rows ps h ds = []
          | Some e \<Rightarrow> summarises ps e (commitment_rows ps h ds))" and st: "curate_step ps s r = Inr s'"
  from st I have "distinct (map fst s')"
    by (auto simp: curate_step_def bindR_Inr_iff split: option.splits)
  with curate_step_inv [OF _ st] I show "distinct (map fst s') \<and> (\<forall>h. case map_of s' h of
      None \<Rightarrow> commitment_rows ps h (ds @ [r]) = [] | Some e \<Rightarrow> summarises ps e (commitment_rows ps h (ds @ [r])))" by blast
qed

section \<open>Properties\<close>

text \<open>
  The silver key identifies its source: two promoted records have the same deduplication key
  only when they come from the same topic, partition and offset and carry the same ledger commit hash,
  provided the digest does not collide on their two key materials.
\<close>

theorem silver_key_identifies:
  assumes "build_silver_record sha loads now e m = Inr r" "build_silver_record sha loads now' e' m' = Inr r'"
    and "row_get r ''dedup_key'' = row_get r' ''dedup_key''"
    and "extract_ledger_commit_hash loads e = Inr h" "extract_ledger_commit_hash loads e' = Inr h'"
    and "sha (dedup_material m h) = sha (dedup_material m' h') \<Longrightarrow> dedup_material m h = dedup_material m' h'"
  shows "m = m' \<and> h = h'"
proof -
  from build_silver_dedup_key [OF assms(1)] build_silver_dedup_key [OF assms(2)] assms(3-5)
  have "sha (dedup_material m h) = sha (dedup_material m' h')" by (auto simp: silver_dedup_key_def)
  with assms(6) have "dedup_material m h = dedup_material m' h'" by simp
  with dedup_material_inject extract_hash_pattern [OF assms(4)] extract_hash_pattern [OF assms(5)] hash_no_slash
  show ?thesis by blast
qed

definition sample_loads :: "string \<Rightarrow> json res" where
  "sample_loads s = Inr (JObj [(''ledgerCommitHash'', JStr (replicate 64 (CHR ''a'')))])"

definition sample_meta :: kafka_metadata where
  "sample_meta = \<lparr>meta_topic = ''cvff.ledger'', meta_partition = 0, meta_offset = 7\<rparr>"

lemma sample_hash:
  "extract_ledger_commit_hash sample_loads [(''event_id'', CText ''e''), (''payload_json'', CText ''{}'')] =
     Inr (replicate 64 (CHR ''a''))"
  by (simp add: extract_ledger_commit_hash_def sample_loads_def payload_ledger_hash_def ledger_hash_pattern_def
      is_hex_lower_def code_def list_all_iff)

lemma sample_built:
  "\<exists>r. build_silver_record id sample_loads now [(''event_id'', CText ''e''), (''payload_json'', CText ''{}'')] m = Inr r"
  by (simp add: build_silver_record_def sample_hash Let_def SILVER_IDENTITY_COLUMNS_def)

lemma silver_key_identifies_witness:
  "\<exists>r r'. build_silver_record id sample_loads 0 [(''event_id'', CText ''e''), (''payload_json'', CText ''{}'')] sample_meta = Inr r \<and>
     build_silver_record id sample_loads 1 [(''event_id'', CText ''e''), (''payload_json'', CText ''{}'')]
       (sample_meta\<lparr>meta_offset := 8\<rparr>) = Inr r' \<and>
     row_get r ''dedup_key'' \<noteq> row_get r' ''dedup_key''"
proof -
  obtain r r' where r: "build_silver_record id sample_loads 0 [(''event_id'', CText ''e''), (''payload_json'', CText ''{}'')] sample_meta = Inr r"
    "build_silver_record id sample_loads 1 [(''event_id'', CText ''e''), (''payload_json'', CText ''{}'')]
       (sample_meta\<lparr>meta_offset := 8\<rparr>) = Inr r'" using sample_built by blast
  have "row_get r ''dedup_key'' = row_get r' ''dedup_key'' \<Longrightarrow> sample_meta = sample_meta\<lparr>meta_offset := 8\<rparr>"
    using silver_key_identifies [OF r _ sample_hash sample_hash] by simp
  with r show ?thesis by (auto simp: sample_meta_def)
qed

lemma append_silver_batch:
  "append_silver api ps writer records w = (Inr r, w') \<Longrightarrow> \<exists>keys. mapR (row_key ps ''dedup_key'') records = Inr keys"
  by (auto simp: append_silver_def bindA_Inr dest!: append_deduplicated_cases)

text \<open>
  Promotion into silver adds rows of the batch's Arrow table only, counts exactly those as written, never
  two rows with one deduplication key and none whose key the table had when the write was committed;
  afterwards every key of the batch is in the table.
\<close>

theorem append_silver_adds_new_keys:
  assumes "delta_contract api content"
    and "append_silver api (py_str fmt) writer records w = (Inr (v, written, present), w')"
    and "\<forall>r\<in>set records. \<exists>k. key_of r = CText k"
  shows "\<exists>uri t old added. table_uri writer ''silver'' = Inr uri \<and> api_open api uri w' = Inr t \<and>
     content t = old @ added \<and> written + present = int (length records) \<and> written = int (length added) \<and>
     set added \<subseteq> set (arrow_rows records None) \<and> distinct (map key_of added) \<and> key_of ` set added \<inter> key_of ` set old = {} \<and>
     key_of ` set records \<subseteq> key_of ` set (old @ added)"
proof -
  from assms(2) have "append_deduplicated api (py_str fmt) (reject_conflicting_dedup_replays api (py_str fmt)) writer records
      ''cvff_silver_events'' ''CVFF segregated silver table deduplicated by Kafka offset and ledger hash'' w =
      (Inr (v, written, present), w')"
    by (auto simp: append_silver_def bindA_Inr)
  from append_deduplicated_adds [OF assms(1) this silver_guard.replay_guard_axioms assms(3)] show ?thesis .
qed

definition cvff_writer :: delta_writer where
  "cvff_writer = \<lparr>writer_roots = \<lparr>roots_scope = CVFF, roots_bronze = ''s3://b/cvff/cvff_bronze/events'',
     roots_silver = ''s3://b/cvff/cvff_silver/events'', roots_gold = ''s3://b/cvff/cvff_gold/events''\<rparr>\<rparr>"

definition sample_silver :: "int \<Rightarrow> row" where
  "sample_silver now = map (\<lambda>c. (c, CText ''v'')) SILVER_IDENTITY_COLUMNS @ [(''dedup_key'', CText ''k''), (''promoted_at'', CTime now)]"

lemma sample_silver_key: "key_of (sample_silver n) = CText ''k''"
  by (simp add: sample_silver_def key_of_def SILVER_IDENTITY_COLUMNS_def)

lemma append_silver_adds_new_keys_witness:
  "\<exists>w'. append_silver mem_delta (py_str (\<lambda>c. [])) cvff_writer [sample_silver 0] [] = (Inr (0, 1, 0), w') \<and>
     (\<exists>uri t. api_open mem_delta uri w' = Inr t \<and> CText ''k'' \<in> key_of ` set (snd t))"
proof -
  have a: "append_silver mem_delta (py_str (\<lambda>c. [])) cvff_writer [sample_silver 0] [] =
      (Inr (0, 1, 0), [(''s3://b/cvff/cvff_silver/events'', 0, [sample_silver 0])])" by code_simp
  from append_silver_adds_new_keys [OF mem_delta_contract a] sample_silver_key a show ?thesis by fastforce
qed

text \<open>
  A replayed batch never produces a second silver row: the records built again from the same
  bronze rows and Kafka coordinates, at a later time, are all counted as already present.
\<close>

theorem silver_replay_writes_nothing:
  assumes "delta_contract api content"
    and "mapR (\<lambda>(e, m). build_silver_record sha loads now e m) items = Inr records"
    and "append_silver api (py_str fmt) writer records w = (Inr (v, written, present), w')"
    and "mapR (\<lambda>(e, m). build_silver_record sha loads now' e m) items = Inr records'"
    and "append_silver api (py_str fmt) writer records' w' = (Inr (v2, written2, present2), w2)"
  shows "written2 = 0 \<and> present2 = int (length records)"
proof -
  have keys: "map key_of rs = map (\<lambda>(e, m). case extract_ledger_commit_hash loads e of Inl x \<Rightarrow> CNone
      | Inr h \<Rightarrow> CText (silver_dedup_key sha m h)) items \<and> (\<forall>r\<in>set rs. \<exists>k. key_of r = CText k)"
    if "mapR (\<lambda>(e, m). build_silver_record sha loads n e m) items = Inr rs" for rs n
  proof -
    have "list_all2 (\<lambda>(e, m) r. build_silver_record sha loads n e m = Inr r) items rs"
      using that by (simp add: mapR_Inr_iff case_prod_unfold)
    then show ?thesis
    proof (induction rule: list_all2_induct)
      case (Cons em ems r rs')
      then show ?case using build_silver_dedup_key [of sha loads n "fst em" "snd em" r]
        by (auto simp: key_of_def case_prod_unfold)
    qed simp
  qed
  from keys [OF assms(2)] keys [OF assms(4)] have k: "map key_of records' = map key_of records"
    "\<forall>r\<in>set records. \<exists>k. key_of r = CText k" "\<forall>r\<in>set records'. \<exists>k. key_of r = CText k" by auto
  from append_silver_adds_new_keys [OF assms(1,3) k(2)] obtain uri t old added where t:
    "table_uri writer ''silver'' = Inr uri" "api_open api uri w' = Inr t"
    "content t = old @ added" "key_of ` set records \<subseteq> key_of ` set (old @ added)" by auto
  have "key_of ` set records' = key_of ` set records" using k(1) by (metis list.set_map)
  with t(3,4) have sub: "key_of ` set records' \<subseteq> key_of ` set (content t)" by simp
  from append_silver_batch [OF assms(5)] obtain keys' where keys': "mapR (row_key (py_str fmt) ''dedup_key'') records' = Inr keys'" by blast
  have ks: "key_of ` set (arrow_rows records' None) = key_of ` set records'"
    using arrow_rows_keys [OF keys'] by (metis list.set_map)
  have ret: "all_retained ''dedup_key'' (arrow_rows records' None) (content t)"
    unfolding all_retained_def
  proof (intro ballI conjI)
    fix r assume "r \<in> set (arrow_rows records' None)"
    then have r: "key_of r \<in> key_of ` set records'" using ks by blast
    with k(3) show "row_get r ''dedup_key'' \<noteq> CNone" by (fastforce simp: key_of_def)
    from r sub have "key_of r \<in> key_of ` set (content t)" by blast
    then show "\<exists>x\<in>set (content t). row_get x ''dedup_key'' = row_get r ''dedup_key''" by (auto simp: key_of_def)
  qed
  from t(2) have ex: "delta_table_exists api uri w' = Inr True" by (simp add: delta_table_exists_def)
  obtain source where src: "api_from_pylist api records' None = Inr source"
    and m: "merge_attempts api (reject_conflicting_dedup_replays api (py_str fmt)) uri ''dedup_key'' source records' MAX_COMMIT_ATTEMPTS w' =
      (Inr (v2, written2, present2), w2)"
    using assms(5) t(1) ex by (auto simp: append_silver_def append_deduplicated_def bindA_Inr)
  from ret have "all_retained ''dedup_key'' source (content t)" by (simp add: contract_arrow [OF assms(1) src])
  from silver_guard.merge_attempts_replay [OF assms(1) t(2) this m] silver_guard.merge_attempts_result [OF m]
  show ?thesis using k(1) by (metis add_0 length_map)
qed

lemma silver_replay_writes_nothing_witness:
  "\<exists>records records' w' v2 w2. mapR (\<lambda>(e, m). build_silver_record (\<lambda>s. ''k'') sample_loads 0 e m)
       [([(''event_id'', CText ''e''), (''payload_json'', CText ''{}'')], sample_meta)] = Inr records \<and>
     append_silver mem_delta (py_str (\<lambda>c. [])) cvff_writer records' w' = (Inr (v2, 0, 1), w2)"
proof -
  let ?items = "[([(''event_id'', CText ''e''), (''payload_json'', CText ''{}'')], sample_meta)]"
  let ?app = "append_silver mem_delta (py_str (\<lambda>c. [])) cvff_writer"
  have "is_ok (bindR (mapR (\<lambda>(e, m). build_silver_record (\<lambda>s. ''k'') sample_loads 0 e m) ?items) (\<lambda>rs.
      bindR (mapR (\<lambda>(e, m). build_silver_record (\<lambda>s. ''k'') sample_loads 5 e m) ?items) (\<lambda>rs'.
      bindR (fst (?app rs [])) (\<lambda>x. fst (?app rs' (snd (?app rs []))))))) " by code_simp
  then obtain rs rs' where r: "mapR (\<lambda>(e, m). build_silver_record (\<lambda>s. ''k'') sample_loads 0 e m) ?items = Inr rs"
    "mapR (\<lambda>(e, m). build_silver_record (\<lambda>s. ''k'') sample_loads 5 e m) ?items = Inr rs'"
    and ok: "is_ok (fst (?app rs []))" "is_ok (fst (?app rs' (snd (?app rs []))))"
    by (auto simp: is_ok_bindR)
  obtain v a b w' where 1: "?app rs [] = (Inr (v, a, b), w')" using ok(1) by (cases "?app rs []") (auto simp: is_ok_iff)
  obtain v2 a2 b2 w2 where 2: "?app rs' w' = (Inr (v2, a2, b2), w2)"
    using ok(2) 1 by (cases "?app rs' w'") (auto simp: is_ok_iff)
  from mapR_length [OF r(1)] have "length rs = 1" by simp
  with silver_replay_writes_nothing [OF mem_delta_contract r(1) 1 r(2) 2] 2 r(1) show ?thesis by auto
qed

text \<open>
  The curated gold table has exactly one row per ledger commitment of silver, in increasing
  order of the hash; each row counts the commitment's silver rows, spans their first and last instants,
  and lists their event identifiers and distinct source systems.
\<close>

theorem curated_rows_summarise:
  assumes "curated_rows ps now rows = Inr gold"
  shows "\<exists>entries. gold = map (gold_row now) entries \<and> sorted (map fst entries) \<and> distinct (map fst entries) \<and>
     set (map fst entries) = {h. \<exists>r\<in>set rows. row_key ps ''ledger_commit_hash'' r = Inr h} \<and>
     list_all (\<lambda>(h, e). summarises ps e (commitment_rows ps h rows)) entries"
proof -
  from assms obtain st where st: "foldR (curate_step ps) [] rows = Inr st"
    and g: "gold = map (gold_row now) (sort_key fst st)"
    by (auto simp: curated_rows_def bindR_Inr_iff)
  from curate_fold_inv [OF st] have d: "distinct (map fst st)"
    and s: "\<And>h. case map_of st h of None \<Rightarrow> commitment_rows ps h rows = []
          | Some e \<Rightarrow> summarises ps e (commitment_rows ps h rows)" by auto
  let ?es = "sort_key fst st"
  have "distinct (map fst ?es)" using d by (simp add: distinct_map)
  moreover have "list_all (\<lambda>(h, e). summarises ps e (commitment_rows ps h rows)) ?es"
    unfolding list_all_iff
  proof
    fix he assume "he \<in> set ?es"
    then have "map_of st (fst he) = Some (snd he)" using d by simp
    with s [of "fst he"] show "case he of (h, e) \<Rightarrow> summarises ps e (commitment_rows ps h rows)"
      by (simp add: case_prod_unfold)
  qed
  moreover have "set (map fst ?es) = {h. \<exists>r\<in>set rows. row_key ps ''ledger_commit_hash'' r = Inr h}"
  proof -
    have "h \<in> fst ` set st \<longleftrightarrow> (\<exists>r\<in>set rows. row_key ps ''ledger_commit_hash'' r = Inr h)" for h
    proof -
      have "h \<in> fst ` set st \<longleftrightarrow> map_of st h \<noteq> None" by (simp add: map_of_eq_None_iff)
      also have "\<dots> \<longleftrightarrow> commitment_rows ps h rows \<noteq> []" using s [of h] by (cases "map_of st h") (simp_all add: summarises_def)
      finally show ?thesis by (simp add: commitment_rows_def filter_empty_conv)
    qed
    then show ?thesis by auto
  qed
  ultimately show ?thesis using g by (intro exI [of _ ?es]) simp
qed

lemma curated_rows_summarise_witness:
  "\<exists>g. curated_rows (py_str (\<lambda>c. [])) 0
     [[(''ledger_commit_hash'', CText ''b''), (''event_id'', CText ''1''), (''occurred_at'', CTime 5), (''source_system'', CText ''s'')],
      [(''ledger_commit_hash'', CText ''b''), (''event_id'', CText ''2''), (''occurred_at'', CTime 3), (''source_system'', CText ''s'')]] = Inr g \<and>
     (\<exists>entries. g = map (gold_row 0) entries \<and> sorted (map fst entries))"
proof -
  let ?rows = "[[(''ledger_commit_hash'', CText ''b''), (''event_id'', CText ''1''), (''occurred_at'', CTime 5), (''source_system'', CText ''s'')],
      [(''ledger_commit_hash'', CText ''b''), (''event_id'', CText ''2''), (''occurred_at'', CTime 3), (''source_system'', CText ''s'')]]"
  have "is_ok (curated_rows (py_str (\<lambda>c. [])) 0 ?rows)" by code_simp
  then obtain g where g: "curated_rows (py_str (\<lambda>c. [])) 0 ?rows = Inr g" by (auto simp: is_ok_iff)
  from curated_rows_summarise [OF g] g show ?thesis by blast
qed

text \<open>
  The tiers of a policy the constructor accepts partition the ages: up to the hot horizon a
  record is hot, beyond it and up to the cold horizon cold, beyond that expired, and a record from
  the future is refused; the hot horizon is the shorter one.
\<close>

theorem retention_tiers:
  assumes "new_retention_policy hd_days cd_years = Inr p"
  shows "hot_horizon p < cold_horizon p \<and>
     (tier_for p t ref = Inr Hot \<longleftrightarrow> 0 \<le> ref - t \<and> ref - t \<le> hd_days * us_day) \<and>
     (tier_for p t ref = Inr Cold \<longleftrightarrow> hd_days * us_day < ref - t \<and> ref - t \<le> cd_years * 365 * us_day) \<and>
     (tier_for p t ref = Inr Expired \<longleftrightarrow> cd_years * 365 * us_day < ref - t) \<and>
     (is_ok (tier_for p t ref) \<longleftrightarrow> t \<le> ref)"
proof -
  from assms have p: "1 \<le> hot_days p" "hot_days p < cold_years p * 365" "hot_days p = hd_days" "cold_years p = cd_years"
    by (auto simp: new_retention_policy_def bindR_Inr_iff)
  have d: "(0 :: int) < us_day" by (simp add: us_day_def)
  from p(2) d have h: "hot_horizon p < cold_horizon p" by (simp add: hot_horizon_def cold_horizon_def)
  from p(1) d have "0 < hot_horizon p" by (simp add: hot_horizon_def)
  with h show ?thesis
    by (auto simp: tier_for_def Let_def guard_def raise_def hot_horizon_def cold_horizon_def p(3,4))
qed

lemma retention_tiers_witness:
  "\<exists>p. new_retention_policy 30 7 = Inr p \<and> tier_for p 0 (30 * us_day) = Inr Hot \<and> tier_for p 0 (30 * us_day + 1) = Inr Cold"
proof -
  have n: "new_retention_policy 30 7 = Inr \<lparr>hot_days = 30, cold_years = 7\<rparr>"
    by (simp add: new_retention_policy_def)
  from retention_tiers [OF n, of 0 "30 * us_day"] retention_tiers [OF n, of 0 "30 * us_day + 1"] n show ?thesis
    by (auto simp: us_day_def)
qed

end
