(* ===== verification/Retention.thy ===== *)
theory Retention
  imports Medallion
begin

text \<open>
  \<open>retention.py\<close>: the retention plan, the deletion of expired rows in batches under the append-only
  lift, the cold-tier archive and the audit log.  \<open>sha\<close> is SHA-256 in hexadecimal, \<open>ps\<close> is \<open>str\<close>, \<open>now\<close> the
  clock reading that becomes \<open>executed_at\<close>.
\<close>

section \<open>The plan\<close>

record retention_batch =
  window_date :: string
  batch_keys :: "string list"

record retention_plan =
  plan_uri :: string
  plan_reference :: int
  plan_total :: nat
  plan_hot :: nat
  plan_cold :: nat
  plan_expired :: nat
  plan_batches :: "retention_batch list"
  plan_cold_keys :: "string list"

definition read_rows :: "('w, 't) delta_api \<Rightarrow> string \<Rightarrow> string \<Rightarrow> string \<Rightarrow> 'w \<Rightarrow> row list res" where
  "read_rows api uri key_column time_column w =
     (case api_open api uri w of
        Inl e \<Rightarrow> if exn_class e = TableNotFoundError
                 then raise ValueError ''retention target table does not exist'' else Inl e
      | Inr table \<Rightarrow> api_read api table [key_column, time_column] None)"

text \<open>One row classified: its tier, its key and its instant.\<close>

definition classify_row :: "(cell \<Rightarrow> string) \<Rightarrow> retention_policy \<Rightarrow> int \<Rightarrow> string \<Rightarrow> string \<Rightarrow> row \<Rightarrow> (tier \<times> string \<times> int) res" where
  "classify_row ps policy reference key_column time_column r =
     bindR (row_item r time_column) (\<lambda>c.
     bindR (require_some (cell_time c) ValueError ''retention time column must be a timestamp'') (\<lambda>occurred_at.
     bindR (tier_for policy occurred_at reference) (\<lambda>tier.
     bindR (row_key ps key_column r) (\<lambda>key. Inr (tier, key, occurred_at)))))"

definition of_tier :: "tier \<Rightarrow> (tier \<times> string \<times> int) list \<Rightarrow> (string \<times> int) list" where
  "of_tier t classified = map snd (filter (\<lambda>x. fst x = t) classified)"

definition plan_batches_of :: "(string \<times> int) list \<Rightarrow> retention_batch list" where
  "plan_batches_of expired =
     map (\<lambda>(window, keys). \<lparr>window_date = window, batch_keys = sort keys\<rparr>)
       (sort_key fst (group_by (\<lambda>(key, t). date_isoformat t) fst expired))"

definition plan_retention :: "('w, 't) delta_api \<Rightarrow> (cell \<Rightarrow> string) \<Rightarrow> string \<Rightarrow> retention_policy \<Rightarrow> int \<Rightarrow>
    string \<Rightarrow> string \<Rightarrow> 'w \<Rightarrow> retention_plan res" where
  "plan_retention api ps uri policy reference key_column time_column w =
     bindR (validate_table_uri uri) (\<lambda>_.
     bindR (read_rows api uri key_column time_column w) (\<lambda>rows.
     bindR (mapR (classify_row ps policy reference key_column time_column) rows) (\<lambda>classified.
     Inr \<lparr>plan_uri = uri, plan_reference = reference, plan_total = length rows,
          plan_hot = length (of_tier Hot classified), plan_cold = length (of_tier Cold classified),
          plan_expired = length (of_tier Expired classified),
          plan_batches = plan_batches_of (of_tier Expired classified),
          plan_cold_keys = sort (map fst (of_tier Cold classified))\<rparr>)))"

section \<open>Deletion\<close>

text \<open>The loop of \<open>_assert_batch_in_policy\<close>; the state is the set \<open>found\<close>.\<close>

definition assert_row :: "(cell \<Rightarrow> string) \<Rightarrow> retention_batch \<Rightarrow> retention_policy \<Rightarrow> int \<Rightarrow> string \<Rightarrow> string \<Rightarrow>
    string list \<Rightarrow> row \<Rightarrow> string list res" where
  "assert_row ps batch policy reference key_column time_column found r =
     bindR (row_key ps key_column r) (\<lambda>key.
     if key \<notin> set (batch_keys batch) then Inr found
     else bindR (row_instant r time_column) (\<lambda>occurred_at.
          bindR (tier_for policy occurred_at reference) (\<lambda>tier.
          bindR (guard (tier = Expired) ValueError ''refusing out-of-policy deletion'') (\<lambda>_.
          Inr (key # found)))))"

definition assert_batch_in_policy :: "('w, 't) delta_api \<Rightarrow> (cell \<Rightarrow> string) \<Rightarrow> string \<Rightarrow> retention_batch \<Rightarrow>
    retention_policy \<Rightarrow> int \<Rightarrow> string \<Rightarrow> string \<Rightarrow> 'w \<Rightarrow> unit res" where
  "assert_batch_in_policy api ps uri batch policy reference key_column time_column w =
     bindR (read_rows api uri key_column time_column w) (\<lambda>rows.
     bindR (foldR (assert_row ps batch policy reference key_column time_column) [] rows) (\<lambda>found.
     guard (set (batch_keys batch) \<subseteq> set found) ValueError ''batch keys no longer present in table''))"

definition MAX_KEYS_PER_DELETE :: nat where "MAX_KEYS_PER_DELETE = 1000"

text \<open>\<open>"'" + key.replace("'", "''") + "'"\<close> and the predicate of one chunk.\<close>

definition sql_quote :: "string \<Rightarrow> string" where
  "sql_quote key = CHR 0x27 # concat (map (\<lambda>c. if c = CHR 0x27 then [c, c] else [c]) key) @ [CHR 0x27]"

definition in_predicate :: "string \<Rightarrow> string list \<Rightarrow> string" where
  "in_predicate key_column chunk = key_column @ '' IN ('' @ join_with '', '' (map sql_quote chunk) @ '')''"

fun delete_chunks :: "('w, 't) delta_api \<Rightarrow> string \<Rightarrow> string \<Rightarrow> string list list \<Rightarrow> nat \<Rightarrow> ('w, nat) act" where
  "delete_chunks api uri key_column [] deleted w = (Inr deleted, w)"
| "delete_chunks api uri key_column (chunk # rest) deleted w =
     bindA (\<lambda>w. (api_open api uri w, w)) (\<lambda>t.
     bindA (api_delete api uri t (in_predicate key_column chunk)) (\<lambda>_.
     delete_chunks api uri key_column rest (deleted + length chunk))) w"

definition set_append_only :: "('w, 't) delta_api \<Rightarrow> string \<Rightarrow> 't \<Rightarrow> string \<Rightarrow> ('w, unit) act" where
  "set_append_only api uri t v = api_set_property api uri t ''delta.appendOnly'' v"

text \<open>
  \<open>try\<close> and \<open>finally\<close>: the append-only property is restored whatever happened, and an exception of
  the restoring call replaces an earlier one.
\<close>

definition delete_batch :: "('w, 't) delta_api \<Rightarrow> string \<Rightarrow> retention_batch \<Rightarrow> string \<Rightarrow> ('w, nat) act" where
  "delete_batch api uri batch key_column =
     bindA (\<lambda>w. (api_open api uri w, w)) (\<lambda>table.
     if api_config api table ''delta.appendOnly'' = Some ''true''
     then (\<lambda>w. case bindA (set_append_only api uri table ''false'') (\<lambda>_.
                     delete_chunks api uri key_column (chunks MAX_KEYS_PER_DELETE (batch_keys batch)) 0) w of
             (r, w1) \<Rightarrow>
               (case bindA (\<lambda>w. (api_open api uri w, w)) (\<lambda>t. set_append_only api uri t ''true'') w1 of
                  (Inl e, w2) \<Rightarrow> (Inl e, w2)
                | (Inr u, w2) \<Rightarrow> (r, w2)))
     else delete_chunks api uri key_column (chunks MAX_KEYS_PER_DELETE (batch_keys batch)) 0)"

section \<open>The audit log\<close>

record audit_record =
  audit_id :: string
  audit_table_sha :: string
  audit_mode :: string
  audit_window :: string
  audit_hot_days :: int
  audit_cold_years :: int
  audit_planned :: nat
  audit_deleted :: nat
  audit_archived :: nat
  audit_operator :: string
  audit_dry_run :: bool
  audit_executed_at :: string

text \<open>\<open>json.dumps\<close> with sorted keys and the default separators.\<close>

definition audit_material :: "string \<Rightarrow> string \<Rightarrow> string list \<Rightarrow> bool \<Rightarrow> string" where
  "audit_material uri window keys dry_run =
     ''{'' @ json_ascii_str ''dry_run'' @ '': '' @ (if dry_run then ''true'' else ''false'') @ '', '' @
     json_ascii_str ''keys'' @ '': '' @ dumps_texts keys @ '', '' @
     json_ascii_str ''table'' @ '': '' @ json_ascii_str uri @ '', '' @
     json_ascii_str ''window'' @ '': '' @ json_ascii_str window @ ''}''"

definition make_record :: "(string \<Rightarrow> string) \<Rightarrow> int \<Rightarrow> string \<Rightarrow> string \<Rightarrow> string \<Rightarrow> retention_policy \<Rightarrow> nat \<Rightarrow> nat \<Rightarrow> nat \<Rightarrow>
    string \<Rightarrow> bool \<Rightarrow> string list \<Rightarrow> audit_record" where
  "make_record sha now uri mode window policy planned deleted archived operator dry_run keys =
     \<lparr>audit_id = sha (audit_material uri (mode @ ''/'' @ window) keys dry_run),
      audit_table_sha = sha uri, audit_mode = mode, audit_window = window,
      audit_hot_days = hot_days policy, audit_cold_years = cold_years policy,
      audit_planned = planned, audit_deleted = deleted, audit_archived = archived,
      audit_operator = operator, audit_dry_run = dry_run, audit_executed_at = isoformat now\<rparr>"

definition audit_row :: "audit_record \<Rightarrow> row" where
  "audit_row a =
     [(''audit_id'', CText (audit_id a)),
      (''event_id'', CText (audit_id a)),
      (''schema_version'', CText ''blueeconomy.lakehouse.retention-audit.v1''),
      (''table_reference_sha256'', CText (audit_table_sha a)),
      (''mode'', CText (audit_mode a)),
      (''window_date'', CText (audit_window a)),
      (''policy_hot_days'', CInt (audit_hot_days a)),
      (''policy_cold_years'', CInt (audit_cold_years a)),
      (''planned_rows'', CInt (int (audit_planned a))),
      (''deleted_rows'', CInt (int (audit_deleted a))),
      (''archived_rows'', CInt (int (audit_archived a))),
      (''operator'', CText (audit_operator a)),
      (''dry_run'', CBool (audit_dry_run a)),
      (''executed_at'', CText (audit_executed_at a))]"

definition AUDIT_TABLE_DESCRIPTION :: string where
  "AUDIT_TABLE_DESCRIPTION =
     ''Governed append-only retention audit log (every planned or executed deletion/tiering batch is evidence-recorded)''"

definition append_audit_record :: "('w, 't) delta_api \<Rightarrow> (cell \<Rightarrow> string) \<Rightarrow> string \<Rightarrow> audit_record \<Rightarrow> ('w, unit) act" where
  "append_audit_record api ps audit_uri a =
     bindA (append_rows api ps audit_uri [audit_row a] ''audit_id'' (Some AUDIT_TABLE_DESCRIPTION) None
              ''blueeconomy_retention_audit'') (\<lambda>_. pureA (Inr ()))"

section \<open>Tiering and enforcement\<close>

text \<open>A \<open>for\<close> loop over calls that change the world.\<close>

fun forA :: "('a \<Rightarrow> ('w, unit) act) \<Rightarrow> 'a list \<Rightarrow> ('w, unit) act" where
  "forA f [] w = (Inr (), w)"
| "forA f (x # xs) w = bindA (f x) (\<lambda>_. forA f xs) w"

definition archive_cold_rows :: "('w, 't) delta_api \<Rightarrow> (cell \<Rightarrow> string) \<Rightarrow> (string \<Rightarrow> string) \<Rightarrow> int \<Rightarrow> 
    string \<Rightarrow> string \<Rightarrow> retention_plan \<Rightarrow> string \<Rightarrow> retention_policy \<Rightarrow> string \<Rightarrow> string \<Rightarrow> ('w, unit) act" where
  "archive_cold_rows api ps sha now uri archive_uri plan operator policy audit_uri key_column =
     bindA (pureA (validate_table_uri archive_uri)) (\<lambda>_.
     bindA (\<lambda>w. (api_open api uri w, w)) (\<lambda>t.
     bindA (pureA (api_read_all api t)) (\<lambda>source.
     bindA (pureA (mapR (\<lambda>r. bindR (row_key ps key_column r) (\<lambda>k. Inr (k, r))) source)) (\<lambda>keyed.
     let cold = filter (\<lambda>(k, r). k \<in> set (plan_cold_keys plan)) keyed
     in forA (\<lambda>chunk.
          bindA (append_rows api ps archive_uri (map snd chunk) key_column
                   (Some ''Retention cold-tier archive (governed tiering target)'') None
                   ''blueeconomy_retention_archive'') (\<lambda>_.
          append_audit_record api ps audit_uri
            (make_record sha now uri ''tier-archive'' ''cold'' policy (length chunk) 0 (length chunk) operator False
               (sort (map fst chunk)))))
        (chunks MAX_KEYS_PER_DELETE cold)))))"

definition delete_step :: "('w, 't) delta_api \<Rightarrow> (cell \<Rightarrow> string) \<Rightarrow> (string \<Rightarrow> string) \<Rightarrow> int \<Rightarrow> string \<Rightarrow> retention_policy \<Rightarrow>
    string \<Rightarrow> string \<Rightarrow> int \<Rightarrow> string \<Rightarrow> string \<Rightarrow> retention_batch \<Rightarrow> ('w, unit) act" where
  "delete_step api ps sha now uri policy audit_uri operator reference key_column time_column batch =
     bindA (\<lambda>w. (assert_batch_in_policy api ps uri batch policy reference key_column time_column w, w)) (\<lambda>_.
     bindA (delete_batch api uri batch key_column) (\<lambda>deleted.
     append_audit_record api ps audit_uri
       (make_record sha now uri ''delete'' (window_date batch) policy (length (batch_keys batch)) deleted 0 operator False
          (batch_keys batch))))"

definition plan_step :: "('w, 't) delta_api \<Rightarrow> (cell \<Rightarrow> string) \<Rightarrow> (string \<Rightarrow> string) \<Rightarrow> int \<Rightarrow> string \<Rightarrow> retention_policy \<Rightarrow>
    string \<Rightarrow> string \<Rightarrow> retention_batch \<Rightarrow> ('w, unit) act" where
  "plan_step api ps sha now uri policy audit_uri operator batch =
     append_audit_record api ps audit_uri
       (make_record sha now uri ''plan-delete'' (window_date batch) policy (length (batch_keys batch)) 0 0 operator True
          (batch_keys batch))"

definition enforce_retention :: "('w, 't) delta_api \<Rightarrow> (cell \<Rightarrow> string) \<Rightarrow> (string \<Rightarrow> string) \<Rightarrow> int \<Rightarrow> string \<Rightarrow> retention_policy \<Rightarrow>
    string \<Rightarrow> bool \<Rightarrow> string option \<Rightarrow> string \<Rightarrow> int \<Rightarrow> string \<Rightarrow> string \<Rightarrow> ('w, retention_plan) act" where
  "enforce_retention api ps sha now uri policy audit_uri apply_deletes archive_uri operator reference key_column time_column =
     bindA (pureA (guard (canonical operator) ValueError
              ''an operator identity is required for the retention audit log'')) (\<lambda>_.
     bindA (pureA (validate_table_uri audit_uri)) (\<lambda>_.
     bindA (\<lambda>w. (plan_retention api ps uri policy reference key_column time_column w, w)) (\<lambda>plan.
     if \<not> apply_deletes
     then bindA (forA (plan_step api ps sha now uri policy audit_uri operator) (plan_batches plan)) (\<lambda>_. pureA (Inr plan))
     else
       bindA (case archive_uri of
                Some archive \<Rightarrow>
                  if plan_cold_keys plan \<noteq> []
                  then archive_cold_rows api ps sha now uri archive plan operator policy audit_uri key_column
                  else pureA (Inr ())
              | None \<Rightarrow> pureA (Inr ())) (\<lambda>_.
       bindA (forA (delete_step api ps sha now uri policy audit_uri operator reference key_column time_column)
                (plan_batches plan)) (\<lambda>_.
       bindA (\<lambda>w. (plan_retention api ps uri policy reference key_column time_column w, w)) (\<lambda>remaining.
       bindA (pureA (guard (int (plan_total remaining) = int (plan_total plan) - int (plan_expired plan)) RuntimeError
                ''post-deletion count mismatch'')) (\<lambda>_.
       bindA (pureA (guard (plan_expired remaining = 0) RuntimeError
                ''post-deletion verification found expired rows remaining'')) (\<lambda>_.
       pureA (Inr plan)))))))))"

section \<open>Quoting\<close>

text \<open>The predicate the code renders for a chunk denotes exactly the keys of the chunk.\<close>

lemma sql_literal_quote:
  assumes "r = [] \<or> hd r \<noteq> CHR 0x27"
  shows "sql_literal (concat (map (\<lambda>c. if c = CHR 0x27 then [c, c] else [c]) k) @ CHR 0x27 # r) = Some (k, r)"
proof (induction k)
  case Nil
  from assms show ?case by (cases r) auto
next
  case (Cons c k)
  then show ?case by simp
qed

lemma sql_values_render:
  "chunk \<noteq> [] \<Longrightarrow> length chunk \<le> n \<Longrightarrow> sql_values n (join_with '', '' (map sql_quote chunk) @ '')'') = Some chunk"
proof (induction chunk arbitrary: n)
  case Nil
  then show ?case by simp
next
  case (Cons k ks)
  then obtain m where n: "n = Suc m" by (cases n) auto
  show ?case
  proof (cases ks)
    case Nil
    with sql_literal_quote [of "'')''" k] n show ?thesis by (simp add: sql_quote_def)
  next
    case (Cons k' ks')
    define T where "T = join_with '', '' (map sql_quote ks) @ '')''"
    have e: "join_with '', '' (map sql_quote (k # ks)) @ '')'' = sql_quote k @ '', '' @ T"
      unfolding T_def Cons by simp
    have "sql_literal (concat (map (\<lambda>c. if c = CHR 0x27 then [c, c] else [c]) k) @ CHR 0x27 # ('', '' @ T)) =
        Some (k, '', '' @ T)"
      by (rule sql_literal_quote) simp
    moreover have "sql_values m T = Some ks"
      using Cons.IH [of m] Cons.prems n \<open>ks = k' # ks'\<close> by (simp add: T_def)
    ultimately show ?thesis unfolding e n by (simp add: sql_quote_def)
  qed
qed

lemma join_length: "length xs \<le> length (join_with sep (map sql_quote xs))"
  by (induction xs rule: induct_list012) (auto simp: sql_quote_def)

lemma in_predicate_denotes:
  assumes "CHR 0x20 \<notin> set col" "chunk \<noteq> []"
  shows "sql_in_predicate (in_predicate col chunk) = Some (col, chunk)"
proof -
  let ?tail = "join_with '', '' (map sql_quote chunk) @ '')''"
  have p: "in_predicate col chunk = col @ CHR 0x20 # ''IN ('' @ ?tail" by (simp add: in_predicate_def)
  have t: "takeWhile (\<lambda>c. c \<noteq> CHR 0x20) (col @ CHR 0x20 # x) = col" for x
    by (subst takeWhile_append2) (use assms(1) in auto)
  have "length chunk \<le> length (in_predicate col chunk)"
    using join_length [of chunk "'', ''"] unfolding p by simp
  from sql_values_render [OF assms(2) this] show ?thesis
    unfolding sql_in_predicate_def p t Let_def by simp
qed

section \<open>What the deletion relies on\<close>

text \<open>
  The further documented behaviour: a call on one table leaves every other table as it is; a
  committed delete removes exactly the rows its predicate selects, and a failed one none;
  setting a table property does not touch the rows; a read of all columns returns the rows.
  A table is named by the text of its URI: two texts that reach one location (a doubled slash in a key, a link
  in a file system) are taken as two tables, so what is said of other tables holds of those that no such alias
  joins to the one written.
\<close>

definition frames :: "('w, 't) delta_api \<Rightarrow> (string \<Rightarrow> 'w \<Rightarrow> 'w \<Rightarrow> bool) \<Rightarrow> bool" where
  "frames api same \<longleftrightarrow>
     (\<forall>uri rows n d w. same uri w (snd (api_create api uri rows n d w))) \<and>
     (\<forall>uri t rows k w. same uri w (snd (api_merge api uri t rows k w))) \<and>
     (\<forall>uri t p w. same uri w (snd (api_delete api uri t p w))) \<and>
     (\<forall>uri t k v w. same uri w (snd (api_set_property api uri t k v w)))"

definition others_same :: "('w, 't) delta_api \<Rightarrow> string \<Rightarrow> 'w \<Rightarrow> 'w \<Rightarrow> bool" where
  "others_same api uri w w' \<longleftrightarrow> (\<forall>uri'. uri' \<noteq> uri \<longrightarrow> api_open api uri' w' = api_open api uri' w)"

definition deletion_contract :: "('w, 't) delta_api \<Rightarrow> ('t \<Rightarrow> row list) \<Rightarrow> bool" where
  "deletion_contract api content \<longleftrightarrow>
     delta_contract api content \<and> frames api (others_same api) \<and>
     (\<forall>uri t p w r w'. api_open api uri w = Inr t \<longrightarrow> api_delete api uri t p w = (r, w') \<longrightarrow>
        (\<exists>t'. api_open api uri w' = Inr t' \<and>
           content t' = (if is_ok r then sql_delete p (content t) else content t))) \<and>
     (\<forall>uri t k v w. api_open api uri w = Inr t \<longrightarrow>
        (\<exists>t'. api_open api uri (snd (api_set_property api uri t k v w)) = Inr t' \<and> content t' = content t))"

lemma contract_delete:
  assumes "deletion_contract api content" "api_open api uri w = Inr t" "api_delete api uri t p w = (r, w')"
  shows "\<exists>t'. api_open api uri w' = Inr t' \<and> content t' = (if is_ok r then sql_delete p (content t) else content t)"
  using assms(1) [unfolded deletion_contract_def, THEN conjunct2, THEN conjunct2, THEN conjunct1, rule_format, OF assms(2,3)] .

lemma contract_property:
  assumes "deletion_contract api content" "api_open api uri w = Inr t" "api_set_property api uri t k v w = (r, w')"
  shows "\<exists>t'. api_open api uri w' = Inr t' \<and> content t' = content t"
  using assms(1) [unfolded deletion_contract_def, THEN conjunct2, THEN conjunct2, THEN conjunct2, rule_format, OF assms(2), of k v]
    assms(3) by simp

lemma mem_delta_deletion_contract: "deletion_contract mem_delta snd"
  using mem_delta_contract
  by (auto simp: deletion_contract_def frames_def others_same_def mem_delta_def mem_merge_def is_ok_def split: prod.splits)

section \<open>Frames\<close>

lemma others_same_refl: "others_same api uri w w"
  by (simp add: others_same_def)

lemma others_same_trans: "others_same api uri w w' \<Longrightarrow> others_same api uri w' w'' \<Longrightarrow> others_same api uri w w''"
  by (simp add: others_same_def)

lemma create_table_frame:
  assumes "frames api (others_same api)" "create_table api uri source rows n d w = (r, w')"
  shows "others_same api uri w w'"
proof -
  have "w' = snd (api_create api uri source n d w)"
    using assms(2) by (auto simp: create_table_def bindA_def pureA_def split: prod.splits sum.splits)
  with assms(1) show ?thesis by (simp add: frames_def)
qed

lemma merge_attempts_frame:
  assumes fr: "frames api (others_same api)" and "merge_attempts api check uri key source rows n w = (r, w')"
  shows "others_same api uri w w'"
  using assms(2)
proof (induction n arbitrary: w)
  case 0
  then show ?case by (simp add: others_same_refl)
next
  case (Suc n)
  from merge_attempts_world [OF Suc.prems] show ?case
  proof (elim disjE exE conjE)
    fix t y w1 assume m: "api_merge api uri t source key w = (y, w1)"
    then have s: "others_same api uri w w1" using fr by (metis frames_def snd_conv)
    then show ?thesis if "w' = w1" using that by simp
    show ?thesis if "merge_attempts api check uri key source rows n w1 = (r, w')"
      using others_same_trans [OF s Suc.IH [OF that]] .
  qed (simp add: others_same_refl)
qed

lemma append_rows_frame:
  assumes "frames api (others_same api)" "append_rows api ps uri rows key d sch n w = (r, w')"
  shows "others_same api uri w w'"
proof -
  have "w' = w \<or> (\<exists>source d'. create_table api uri source rows n d' w = (r, w')) \<or>
      (\<exists>source. merge_attempts api (reject_conflicting_replays api ps key) uri key source rows MAX_COMMIT_ATTEMPTS w = (r, w'))"
    using assms(2) by (auto simp: append_rows_def elim!: bindA_cases split: if_splits; blast)
  with create_table_frame [OF assms(1)] merge_attempts_frame [OF assms(1)] others_same_refl show ?thesis by metis
qed

lemma audit_frame:
  assumes "frames api (others_same api)" "append_audit_record api ps audit_uri a w = (r, w')"
  shows "others_same api audit_uri w w'"
  using assms(2) by (auto simp: append_audit_record_def elim!: bindA_cases dest: append_rows_frame [OF assms(1)])

text \<open>The rule for a loop over calls: what every call preserves, whatever its result, holds after the loop.\<close>

lemma forA_inv:
  assumes "forA f xs w = (r, w')" "P w" "\<And>x w r w'. x \<in> set xs \<Longrightarrow> P w \<Longrightarrow> f x w = (r, w') \<Longrightarrow> P w'"
  shows "P w'"
  using assms
proof (induction xs arbitrary: w)
  case Nil
  then show ?case by simp
next
  case (Cons x xs)
  from Cons.prems(1) have "bindA (f x) (\<lambda>_. forA f xs) w = (r, w')" by simp
  then show ?case
  proof (cases rule: bindA_cases)
    case error
    with Cons.prems(2,3) show ?thesis by (meson list.set_intros(1))
  next
    case (next_step u w1)
    with Cons.prems(2,3) have "P w1" by (meson list.set_intros(1))
    with Cons.IH [OF next_step(2)] Cons.prems(3) show ?thesis by (meson list.set_intros(2))
  qed
qed

lemma open_preserved: "others_same api uri' w w' \<Longrightarrow> uri \<noteq> uri' \<Longrightarrow> api_open api uri w = x \<Longrightarrow> api_open api uri w' = x"
  by (simp add: others_same_def)

section \<open>What a batch deletes\<close>

definition without_keys :: "string \<Rightarrow> string set \<Rightarrow> row list \<Rightarrow> row list" where
  "without_keys key ks rows = filter (\<lambda>r. \<forall>k\<in>ks. row_get r key \<noteq> CText k) rows"

lemma without_keys_empty [simp]: "without_keys key {} rows = rows"
  by (simp add: without_keys_def)

lemma without_keys_twice: "without_keys key ks (without_keys key ks' rows) = without_keys key (ks' \<union> ks) rows"
  by (auto simp: without_keys_def intro!: filter_cong)

lemma delete_chunks_content:
  assumes con: "deletion_contract api content" and key: "CHR 0x20 \<notin> set key"
    and "delete_chunks api uri key cs d w = (r, w')" "api_open api uri w = Inr t" "\<forall>c\<in>set cs. c \<noteq> []"
  shows "\<exists>t' ks. api_open api uri w' = Inr t' \<and> content t' = without_keys key ks (content t) \<and>
     ks \<subseteq> set (concat cs) \<and> (is_ok r \<longrightarrow> ks = set (concat cs))"
  using assms(3-)
proof (induction cs arbitrary: d w t)
  case Nil
  then show ?case by (intro exI [of _ t] exI [of _ "{}"]) auto
next
  case (Cons c cs)
  from Cons.prems(1) have "bindA (\<lambda>w. (api_open api uri w, w)) (\<lambda>t.
     bindA (api_delete api uri t (in_predicate key c)) (\<lambda>_.
     delete_chunks api uri key cs (d + length c))) w = (r, w')" by simp
  then have "bindA (api_delete api uri t (in_predicate key c)) (\<lambda>_.
     delete_chunks api uri key cs (d + length c)) w = (r, w')" by (simp add: bindA_read Cons.prems(2))
  then show ?case
  proof (cases rule: bindA_cases)
    case (error e)
    with contract_delete [OF con Cons.prems(2) error(1)] show ?thesis
      by (auto intro!: exI [of _ "{}"])
  next
    case (next_step u w1)
    from Cons.prems(3) have "sql_in_predicate (in_predicate key c) = Some (key, c)"
      by (intro in_predicate_denotes [OF key]) simp
    with contract_delete [OF con Cons.prems(2) next_step(1)] obtain t1
      where t1: "api_open api uri w1 = Inr t1" "content t1 = without_keys key (set c) (content t)"
      by (auto simp: sql_delete_def without_keys_def)
    from Cons.IH [OF next_step(2) t1(1)] Cons.prems(3) obtain t' ks where ih: "api_open api uri w' = Inr t'"
      "content t' = without_keys key ks (content t1)" "ks \<subseteq> set (concat cs)" "is_ok r \<longrightarrow> ks = set (concat cs)" by auto
    with t1(2) show ?thesis
      by (intro exI [of _ t'] exI [of _ "set c \<union> ks"]) (auto simp: without_keys_twice)
  qed
qed

lemma delete_batch_content:
  assumes con: "deletion_contract api content" and key: "CHR 0x20 \<notin> set key"
    and d: "delete_batch api uri batch key w = (r, w')" and t: "api_open api uri w = Inr t"
  shows "\<exists>t' ks. api_open api uri w' = Inr t' \<and> content t' = without_keys key ks (content t) \<and>
     ks \<subseteq> set (batch_keys batch) \<and> (is_ok r \<longrightarrow> ks = set (batch_keys batch))"
proof -
  let ?cs = "chunks MAX_KEYS_PER_DELETE (batch_keys batch)"
  have cs: "\<forall>c\<in>set ?cs. c \<noteq> []" using chunks_bounds by fastforce
  have cc: "set (concat ?cs) = set (batch_keys batch)"
    by (subst concat_chunks) (simp_all add: MAX_KEYS_PER_DELETE_def)
  note dc = delete_chunks_content [OF con key _ _ cs, unfolded cc]
  from d t have d': "(if api_config api t ''delta.appendOnly'' = Some ''true''
     then (\<lambda>w. case bindA (set_append_only api uri t ''false'') (\<lambda>_. delete_chunks api uri key ?cs 0) w of
             (r, w1) \<Rightarrow>
               (case bindA (\<lambda>w. (api_open api uri w, w)) (\<lambda>t. set_append_only api uri t ''true'') w1 of
                  (Inl e, w2) \<Rightarrow> (Inl e, w2)
                | (Inr u, w2) \<Rightarrow> (r, w2)))
     else delete_chunks api uri key ?cs 0) w = (r, w')"
    by (simp add: delete_batch_def bindA_read)
  show ?thesis
  proof (cases "api_config api t ''delta.appendOnly'' = Some ''true''")
    case False
    with d' have "delete_chunks api uri key ?cs 0 w = (r, w')" by simp
    from dc [OF this t] show ?thesis by blast
  next
    case True
    obtain r1 w1 where b: "bindA (set_append_only api uri t ''false'') (\<lambda>_. delete_chunks api uri key ?cs 0) w = (r1, w1)"
      by fastforce
    have 1: "\<exists>t1 ks. api_open api uri w1 = Inr t1 \<and> content t1 = without_keys key ks (content t) \<and>
        ks \<subseteq> set (batch_keys batch) \<and> (is_ok r1 \<longrightarrow> ks = set (batch_keys batch))"
      using b
    proof (cases rule: bindA_cases)
      case (error e)
      with contract_property [OF con t] show ?thesis
        by (fastforce simp: set_append_only_def intro!: exI [of _ "{}"])
    next
      case (next_step u w2)
      from contract_property [OF con t next_step(1) [unfolded set_append_only_def]] obtain t2
        where "api_open api uri w2 = Inr t2" "content t2 = content t" by blast
      with dc [OF next_step(2)] show ?thesis by metis
    qed
    then obtain t1 ks where t1: "api_open api uri w1 = Inr t1" "content t1 = without_keys key ks (content t)"
      "ks \<subseteq> set (batch_keys batch)" "is_ok r1 \<longrightarrow> ks = set (batch_keys batch)" by blast
    obtain x w2 where s: "api_set_property api uri t1 ''delta.appendOnly'' ''true'' w1 = (x, w2)" by fastforce
    from contract_property [OF con t1(1) s] obtain t2 where t2: "api_open api uri w2 = Inr t2" "content t2 = content t1" by blast
    from d' True b have "w' = w2 \<and> (is_ok r \<longrightarrow> is_ok r1)"
      using s t1(1) by (cases x) (auto simp: bindA_read set_append_only_def)
    with t1 t2 show ?thesis by auto
  qed
qed

lemma forA_success:
  assumes "forA f xs w = (Inr u, w')" "P [] w"
    and "\<And>ds x w u w'. x \<in> set xs \<Longrightarrow> P ds w \<Longrightarrow> f x w = (Inr u, w') \<Longrightarrow> P (ds @ [x]) w'"
  shows "P xs w'"
proof -
  have "forA f ys w = (Inr u, w') \<Longrightarrow> P zs w \<Longrightarrow> set ys \<subseteq> set xs \<Longrightarrow> P (zs @ ys) w'" for ys zs w
  proof (induction ys arbitrary: w zs)
    case Nil
    then show ?case by simp
  next
    case (Cons y ys)
    then obtain x w1 where "f y w = (Inr x, w1)" "forA f ys w1 = (Inr u, w')" by (auto elim!: bindA_cases)
    with Cons.IH [of w1 "zs @ [y]"] Cons.prems assms(3) show ?case by simp
  qed
  from this [of xs w "[]"] assms show ?thesis by simp
qed

section \<open>The plan against the table\<close>

definition expired_row :: "retention_policy \<Rightarrow> int \<Rightarrow> string \<Rightarrow> row \<Rightarrow> bool" where
  "expired_row policy reference time_column r \<longleftrightarrow>
     (\<exists>x. row_get r time_column = CTime x \<and> tier_for policy x reference = Inr Expired)"

lemma contract_read:
  assumes "delta_contract api content" "api_read api t cols flt = Inr rs"
  shows "rs = map (project cols) (selected flt (content t))"
  using assms(1) [unfolded delta_contract_def, THEN conjunct1, rule_format, OF assms(2)] .

lemma read_rows_content:
  assumes "delta_contract api content" "api_open api uri w = Inr t" "read_rows api uri key time_column w = Inr rows"
  shows "rows = map (project [key, time_column]) (content t)"
  using contract_read [OF assms(1), of t "[key, time_column]" None] assms(2,3)
  by (simp add: read_rows_def selected_def)

lemma project_get: "c \<in> set cols \<Longrightarrow> map_of (project cols r) c = Some (row_get r c)"
  by (simp add: map_of_project)

definition classified_as :: "(cell \<Rightarrow> string) \<Rightarrow> retention_policy \<Rightarrow> int \<Rightarrow> string \<Rightarrow> string \<Rightarrow> row \<Rightarrow> tier \<times> string \<times> int \<Rightarrow> bool" where
  "classified_as ps policy reference key time_column r c \<longleftrightarrow>
     row_get r time_column = CTime (snd (snd c)) \<and> tier_for policy (snd (snd c)) reference = Inr (fst c) \<and>
     fst (snd c) = ps (row_get r key)"

lemma plan_retention_classified:
  assumes "delta_contract api content" "api_open api uri w = Inr t"
    and "plan_retention api ps uri policy reference key time_column w = Inr plan"
  shows "\<exists>cs. list_all2 (classified_as ps policy reference key time_column) (content t) cs \<and>
     plan = \<lparr>plan_uri = uri, plan_reference = reference, plan_total = length (content t),
          plan_hot = length (of_tier Hot cs), plan_cold = length (of_tier Cold cs),
          plan_expired = length (of_tier Expired cs), plan_batches = plan_batches_of (of_tier Expired cs),
          plan_cold_keys = sort (map fst (of_tier Cold cs))\<rparr>"
proof -
  from assms(3) obtain rows cs where r: "read_rows api uri key time_column w = Inr rows"
    and c: "mapR (classify_row ps policy reference key time_column) rows = Inr cs"
    and p: "plan = \<lparr>plan_uri = uri, plan_reference = reference, plan_total = length rows,
          plan_hot = length (of_tier Hot cs), plan_cold = length (of_tier Cold cs),
          plan_expired = length (of_tier Expired cs), plan_batches = plan_batches_of (of_tier Expired cs),
          plan_cold_keys = sort (map fst (of_tier Cold cs))\<rparr>"
    unfolding plan_retention_def bindR_Inr_iff by blast
  from read_rows_content [OF assms(1,2) r] have rows: "rows = map (project [key, time_column]) (content t)" .
  have one: "classify_row ps policy reference key time_column (project [key, time_column] x) = Inr c \<Longrightarrow>
      classified_as ps policy reference key time_column x c" for x c
    by (auto simp: classify_row_def classified_as_def bindR_Inr_iff row_key_def project_get)
  from c have "list_all2 (\<lambda>x c. classify_row ps policy reference key time_column (project [key, time_column] x) = Inr c) (content t) cs"
    by (simp add: mapR_Inr_iff rows list.rel_map)
  then have "list_all2 (classified_as ps policy reference key time_column) (content t) cs"
    by (rule list_all2_mono) (rule one)
  with p rows show ?thesis by auto
qed

lemma classified_tiers:
  "list_all2 (classified_as ps policy reference key time_column) rows cs \<Longrightarrow>
     length (of_tier Hot cs) + length (of_tier Cold cs) + length (of_tier Expired cs) = length rows"
proof (induction rule: list_all2_induct)
  case (Cons r rows c cs)
  then show ?case by (cases "fst c") (simp_all add: of_tier_def)
qed (simp add: of_tier_def)

lemma classified_expired:
  "list_all2 (classified_as ps policy reference key time_column) rows cs \<Longrightarrow>
     map fst (of_tier Expired cs) = map (\<lambda>r. ps (row_get r key)) (filter (expired_row policy reference time_column) rows) \<and>
     length (of_tier Expired cs) = length (filter (expired_row policy reference time_column) rows)"
proof (induction rule: list_all2_induct)
  case (Cons r rows c cs)
  from Cons.hyps(1) have "expired_row policy reference time_column r \<longleftrightarrow> fst c = Expired"
    by (auto simp: classified_as_def expired_row_def)
  with Cons show ?case by (simp add: of_tier_def classified_as_def)
qed (simp add: of_tier_def)

text \<open>Batching loses no key.\<close>

lemma mset_sorted_groups: "mset (concat (map (\<lambda>(w, ks). sort ks) d)) = mset (concat (map snd d))"
  by (induction d) auto

lemma mset_batches: "mset (concat (map batch_keys (plan_batches_of ex))) = mset (map fst ex)"
proof -
  let ?g = "group_by (\<lambda>(key, t). date_isoformat t) fst ex"
  have "map batch_keys (plan_batches_of ex) = map (\<lambda>(w, ks). sort ks) (sort_key fst ?g)"
    by (simp add: plan_batches_of_def case_prod_unfold comp_def)
  then have "mset (concat (map batch_keys (plan_batches_of ex))) = mset (concat (map snd (sort_key fst ?g)))"
    by (simp add: mset_sorted_groups)
  also have "\<dots> = mset (concat (map snd ?g))"
    by (rule mset_concat_perm) simp
  finally show ?thesis by (simp add: mset_group_by)
qed

section \<open>Only expired rows are deleted\<close>

definition remains :: "('w, 't) delta_api \<Rightarrow> ('t \<Rightarrow> row list) \<Rightarrow> string \<Rightarrow> string \<Rightarrow> (row \<Rightarrow> bool) \<Rightarrow> row list \<Rightarrow> string set \<Rightarrow> 'w \<Rightarrow> bool" where
  "remains api content uri key expired rows ks w \<longleftrightarrow>
     (\<exists>t. api_open api uri w = Inr t \<and> content t = without_keys key ks rows) \<and>
     (\<forall>r\<in>set rows. (\<exists>k\<in>ks. row_get r key = CText k) \<longrightarrow> expired r)"

lemma remains_frame:
  "remains api content uri key ex rows ks w \<Longrightarrow> others_same api uri' w w' \<Longrightarrow> uri \<noteq> uri' \<Longrightarrow>
     remains api content uri key ex rows ks w'"
  by (simp add: remains_def others_same_def)

lemma assert_fold:
  assumes "foldR (assert_row ps batch policy reference key time_column) found rows = Inr found'"
    and "r \<in> set rows" "row_key ps key r = Inr k" "k \<in> set (batch_keys batch)"
  shows "\<exists>x. row_instant r time_column = Inr x \<and> tier_for policy x reference = Inr Expired"
  using assms
  by (induction rows arbitrary: found) (auto simp: res_simps assert_row_def split: if_splits)

lemma assert_batch_expired:
  assumes "delta_contract api content" "api_open api uri w = Inr t"
    and a: "assert_batch_in_policy api (py_str fmt) uri batch policy reference key time_column w = Inr u"
    and r: "r \<in> set (content t)" "row_get r key = CText k" "k \<in> set (batch_keys batch)"
  shows "expired_row policy reference time_column r"
proof -
  let ?p = "project [key, time_column]"
  from a obtain rows found where rows: "read_rows api uri key time_column w = Inr rows"
    and f: "foldR (assert_row (py_str fmt) batch policy reference key time_column) [] rows = Inr found"
    by (auto simp: assert_batch_in_policy_def bindR_Inr_iff)
  from read_rows_content [OF assms(1,2) rows] r(1) have "?p r \<in> set rows" by simp
  moreover have "row_key (py_str fmt) key (?p r) = Inr k"
    using r(2) by (simp add: row_key_Inr project_get py_str_def)
  ultimately obtain x where x: "row_instant (?p r) time_column = Inr x" "tier_for policy x reference = Inr Expired"
    using assert_fold [OF f] r(3) by blast
  from x(1) have "row_get r time_column = CTime x" by (auto simp: row_instant_def bindR_Inr_iff project_get)
  with x(2) show ?thesis by (auto simp: expired_row_def)
qed

lemma delete_step_remains:
  assumes con: "deletion_contract api content" and key: "CHR 0x20 \<notin> set key" and neq: "audit_uri \<noteq> uri"
    and inv: "remains api content uri key (expired_row policy reference time_column) rows ks w"
    and st: "delete_step api (py_str fmt) sha now uri policy audit_uri operator reference key time_column batch w = (r, w')"
  shows "\<exists>ks'. remains api content uri key (expired_row policy reference time_column) rows ks' w' \<and> ks \<subseteq> ks' \<and>
     (is_ok r \<longrightarrow> ks' = ks \<union> set (batch_keys batch))"
proof -
  from con have dc: "delta_contract api content" and fr: "frames api (others_same api)"
    by (simp_all add: deletion_contract_def)
  from inv obtain t where t: "api_open api uri w = Inr t" "content t = without_keys key ks rows"
    and ex: "\<forall>r\<in>set rows. (\<exists>k\<in>ks. row_get r key = CText k) \<longrightarrow> expired_row policy reference time_column r"
    by (auto simp: remains_def)
  show ?thesis
  proof (cases "assert_batch_in_policy api (py_str fmt) uri batch policy reference key time_column w")
    case (Inl e)
    with st have "(Inl e, w) = (r, w')" by (simp add: delete_step_def bindA_read)
    with inv show ?thesis by auto
  next
    case (Inr u)
    with st have "bindA (delete_batch api uri batch key) (\<lambda>deleted.
       append_audit_record api (py_str fmt) audit_uri
       (make_record sha now uri ''delete'' (window_date batch) policy (length (batch_keys batch)) deleted 0 operator False
          (batch_keys batch))) w = (r, w')" by (simp add: delete_step_def bindA_read)
    then have "\<exists>r1 w1. delete_batch api uri batch key w = (r1, w1) \<and> others_same api audit_uri w1 w' \<and> (is_ok r \<longrightarrow> is_ok r1)"
    proof (cases rule: bindA_cases)
      case (error e)
      then show ?thesis using others_same_refl by fastforce
    next
      case (next_step d w1)
      with audit_frame [OF fr next_step(2)] show ?thesis by fastforce
    qed
    then obtain r1 w1 where d: "delete_batch api uri batch key w = (r1, w1)" and o': "others_same api audit_uri w1 w'"
      and ok: "is_ok r \<longrightarrow> is_ok r1" by blast
    from delete_batch_content [OF con key d t(1)] obtain t1 ks1 where t1: "api_open api uri w1 = Inr t1"
      "content t1 = without_keys key ks1 (content t)" "ks1 \<subseteq> set (batch_keys batch)" "is_ok r1 \<longrightarrow> ks1 = set (batch_keys batch)"
      by blast
    have "expired_row policy reference time_column q" if q: "q \<in> set rows" "k \<in> ks \<union> ks1" "row_get q key = CText k" for q k
    proof (cases "\<exists>k\<in>ks. row_get q key = CText k")
      case True
      with ex q(1) show ?thesis by blast
    next
      case False
      with q(1) t(2) have "q \<in> set (content t)" by (auto simp: without_keys_def)
      moreover from False q(2,3) t1(3) have "k \<in> set (batch_keys batch)" by auto
      ultimately show ?thesis using assert_batch_expired [OF dc t(1) Inr _ q(3)] by blast
    qed
    then have "remains api content uri key (expired_row policy reference time_column) rows (ks \<union> ks1) w1"
      using t t1 by (auto simp: remains_def without_keys_twice)
    from remains_frame [OF this o'] neq ok t1(4) show ?thesis by (intro exI [of _ "ks \<union> ks1"]) auto
  qed
qed

lemma plan_step_frame:
  "frames api (others_same api) \<Longrightarrow> plan_step api ps sha now uri policy audit_uri operator batch w = (r, w') \<Longrightarrow>
     others_same api audit_uri w w'"
  unfolding plan_step_def by (rule audit_frame)

lemma archive_frame:
  assumes fr: "frames api (others_same api)"
    and "archive_cold_rows api ps sha now uri archive_uri plan operator policy audit_uri key w = (r, w')"
    and "uri \<noteq> archive_uri" "uri \<noteq> audit_uri"
  shows "api_open api uri w' = api_open api uri w"
proof -
  let ?body = "\<lambda>chunk. bindA (append_rows api ps archive_uri (map snd chunk) key
                   (Some ''Retention cold-tier archive (governed tiering target)'') None
                   ''blueeconomy_retention_archive'') (\<lambda>_.
          append_audit_record api ps audit_uri
            (make_record sha now uri ''tier-archive'' ''cold'' policy (length chunk) 0 (length chunk) operator False
               (sort (map fst chunk))))"
  have "w' = w \<or> (\<exists>cs. forA ?body cs w = (r, w'))"
    using assms(2) by (auto simp: archive_cold_rows_def Let_def elim!: bindA_cases)
  moreover have "api_open api uri w' = api_open api uri w" if "forA ?body cs w = (r, w')" for cs
    using that
  proof (rule forA_inv)
    fix c w1 r1 w2 assume o1: "api_open api uri w1 = api_open api uri w" and b: "?body c w1 = (r1, w2)"
    from b show "api_open api uri w2 = api_open api uri w"
    proof (cases rule: bindA_cases)
      case (error e)
      with append_rows_frame [OF fr error(1)] o1 assms(3) show ?thesis by (simp add: others_same_def)
    next
      case (next_step x w3)
      with append_rows_frame [OF fr next_step(1)] audit_frame [OF fr next_step(2)] o1 assms(3,4)
      show ?thesis by (simp add: others_same_def)
    qed
  qed simp
  ultimately show ?thesis by auto
qed

lemma delete_loop_success:
  assumes con: "deletion_contract api content" and key: "CHR 0x20 \<notin> set key" and neq: "audit_uri \<noteq> uri"
    and inv: "remains api content uri key (expired_row policy reference time_column) rows {} w"
    and f: "forA (delete_step api (py_str fmt) sha now uri policy audit_uri operator reference key time_column) bs w = (Inr u, w')"
  shows "remains api content uri key (expired_row policy reference time_column) rows (set (concat (map batch_keys bs))) w'"
  using f
proof (rule forA_success)
  show "remains api content uri key (expired_row policy reference time_column) rows (set (concat (map batch_keys ([] :: retention_batch list)))) w"
    using inv by simp
next
  fix ds :: "retention_batch list" and b w1 u w2
  assume "remains api content uri key (expired_row policy reference time_column) rows (set (concat (map batch_keys ds))) w1"
    "delete_step api (py_str fmt) sha now uri policy audit_uri operator reference key time_column b w1 = (Inr u, w2)"
  from delete_step_remains [OF con key neq this]
  show "remains api content uri key (expired_row policy reference time_column) rows (set (concat (map batch_keys (ds @ [b])))) w2"
    by auto
qed

lemma delete_loop_any:
  assumes con: "deletion_contract api content" and key: "CHR 0x20 \<notin> set key" and neq: "audit_uri \<noteq> uri"
    and inv: "remains api content uri key (expired_row policy reference time_column) rows {} w"
    and f: "forA (delete_step api (py_str fmt) sha now uri policy audit_uri operator reference key time_column) bs w = (r, w')"
  shows "\<exists>ks. remains api content uri key (expired_row policy reference time_column) rows ks w'"
  using f
proof (rule forA_inv)
  show "\<exists>ks. remains api content uri key (expired_row policy reference time_column) rows ks w" using inv by blast
next
  fix b w1 r1 w2
  assume "\<exists>ks. remains api content uri key (expired_row policy reference time_column) rows ks w1"
    and st: "delete_step api (py_str fmt) sha now uri policy audit_uri operator reference key time_column b w1 = (r1, w2)"
  then obtain ks where "remains api content uri key (expired_row policy reference time_column) rows ks w1" by blast
  from delete_step_remains [OF con key neq this st]
  show "\<exists>ks. remains api content uri key (expired_row policy reference time_column) rows ks w2" by blast
qed

text \<open>What an enforcement run did, whatever its result.\<close>

lemma enforce_cases:
  assumes con: "deletion_contract api content" and key: "CHR 0x20 \<notin> set key"
    and neq: "audit_uri \<noteq> uri" "archive_uri \<noteq> Some uri" and t: "api_open api uri w = Inr t"
    and e: "enforce_retention api (py_str fmt) sha now uri policy audit_uri apply_deletes archive_uri operator reference key time_column w =
      (res, w')"
  shows "api_open api uri w' = api_open api uri w \<and> \<not> (apply_deletes \<and> is_ok res) \<or>
    (apply_deletes \<and> (\<exists>plan w1 r. plan_retention api (py_str fmt) uri policy reference key time_column w = Inr plan \<and>
       api_open api uri w1 = api_open api uri w \<and>
       forA (delete_step api (py_str fmt) sha now uri policy audit_uri operator reference key time_column) (plan_batches plan) w1 =
         (r, w') \<and> (is_ok res \<longrightarrow> r = Inr ())))"
proof -
  from con have fr: "frames api (others_same api)" by (simp add: deletion_contract_def)
  let ?plan = "plan_retention api (py_str fmt) uri policy reference key time_column"
  let ?steps = "\<lambda>plan. forA (delete_step api (py_str fmt) sha now uri policy audit_uri operator reference key time_column) (plan_batches plan)"
  consider (early) "w' = w" "\<not> is_ok res"
    | (dry) plan r where "?plan w = Inr plan" "\<not> apply_deletes"
        "forA (plan_step api (py_str fmt) sha now uri policy audit_uri operator) (plan_batches plan) w = (r, w')"
    | (archive_failed) plan a e where "?plan w = Inr plan" "apply_deletes" "archive_uri = Some a" "\<not> is_ok res"
        "archive_cold_rows api (py_str fmt) sha now uri a plan operator policy audit_uri key w = (Inl e, w')"
    | (ran) plan w1 r where "?plan w = Inr plan" "apply_deletes" "?steps plan w1 = (r, w')" "is_ok res \<longrightarrow> r = Inr ()"
        "w1 = w \<or> (\<exists>a u. archive_uri = Some a \<and>
           archive_cold_rows api (py_str fmt) sha now uri a plan operator policy audit_uri key w = (Inr u, w1))"
    using e by (auto simp: enforce_retention_def bindA_read elim!: bindA_cases split: if_splits sum.splits option.splits)
  then show ?thesis
  proof cases
    case early
    then show ?thesis by simp
  next
    case dry
    have "api_open api uri w' = api_open api uri w"
      using dry(3)
    proof (rule forA_inv)
      fix b w1 r1 w2 assume "api_open api uri w1 = api_open api uri w"
        "plan_step api (py_str fmt) sha now uri policy audit_uri operator b w1 = (r1, w2)"
      with plan_step_frame [OF fr this(2)] neq show "api_open api uri w2 = api_open api uri w" by (simp add: others_same_def)
    qed simp
    with dry show ?thesis by simp
  next
    case archive_failed
    with archive_frame [OF fr archive_failed(5)] neq show ?thesis by auto
  next
    case ran
    from ran(5) have "api_open api uri w1 = api_open api uri w"
      using archive_frame [OF fr] neq by (metis option.inject)
    with ran show ?thesis by blast
  qed
qed

section \<open>Properties\<close>

text \<open>
  Claim C22.  Retention deletes expired rows only: whatever an enforcement run returns, a dry run leaves
  the table as it was, and after any other run the table is the old one with some rows left out, all of
  them expired under the policy; and a run that applies the policy and succeeds leaves exactly the rows
  that are not expired.
\<close>

theorem retention_deletes_exactly_expired:
  assumes "deletion_contract api content" "CHR 0x20 \<notin> set key"
    and "audit_uri \<noteq> uri" "archive_uri \<noteq> Some uri" "api_open api uri w = Inr t"
    and "\<forall>r\<in>set (content t). \<exists>k. row_get r key = CText k"
    and "enforce_retention api (py_str fmt) sha now uri policy audit_uri apply_deletes archive_uri operator reference key time_column w =
      (res, w')"
  shows "(\<not> apply_deletes \<longrightarrow> api_open api uri w' = Inr t) \<and>
    (\<exists>t' kept. api_open api uri w' = Inr t' \<and> content t' = filter kept (content t) \<and>
       (\<forall>r\<in>set (content t). \<not> expired_row policy reference time_column r \<longrightarrow> kept r)) \<and>
    (apply_deletes \<and> is_ok res \<longrightarrow>
       (\<exists>t'. api_open api uri w' = Inr t' \<and>
          content t' = filter (\<lambda>r. \<not> expired_row policy reference time_column r) (content t)))"
proof -
  let ?ex = "expired_row policy reference time_column"
  from assms(1) have dc: "delta_contract api content" by (simp add: deletion_contract_def)
  from enforce_cases [OF assms(1-5,7)] show ?thesis
  proof
    assume u: "api_open api uri w' = api_open api uri w \<and> \<not> (apply_deletes \<and> is_ok res)"
    with assms(5) have "content t = filter (\<lambda>r. True) (content t) \<and> api_open api uri w' = Inr t" by simp
    with u show ?thesis by blast
  next
    assume "apply_deletes \<and> (\<exists>plan w1 r. plan_retention api (py_str fmt) uri policy reference key time_column w = Inr plan \<and>
       api_open api uri w1 = api_open api uri w \<and>
       forA (delete_step api (py_str fmt) sha now uri policy audit_uri operator reference key time_column) (plan_batches plan) w1 =
         (r, w') \<and> (is_ok res \<longrightarrow> r = Inr ()))"
    then obtain plan w1 r where a: "apply_deletes" and p: "plan_retention api (py_str fmt) uri policy reference key time_column w = Inr plan"
      and w1: "api_open api uri w1 = Inr t" and f: "forA (delete_step api (py_str fmt) sha now uri policy audit_uri operator reference key time_column)
         (plan_batches plan) w1 = (r, w')" and ok: "is_ok res \<longrightarrow> r = Inr ()" using assms(5) by auto
    have inv: "remains api content uri key ?ex (content t) {} w1" using w1 by (simp add: remains_def)
    from delete_loop_any [OF assms(1-3) inv f] obtain ks where ks: "remains api content uri key ?ex (content t) ks w'" by blast
    then obtain t' where t': "api_open api uri w' = Inr t'" "content t' = filter (\<lambda>r. \<forall>k\<in>ks. row_get r key \<noteq> CText k) (content t)"
      by (auto simp: remains_def without_keys_def)
    have kept: "\<forall>r\<in>set (content t). \<not> ?ex r \<longrightarrow> (\<forall>k\<in>ks. row_get r key \<noteq> CText k)"
      using ks unfolding remains_def by blast
    have "\<exists>t'. api_open api uri w' = Inr t' \<and> content t' = filter (\<lambda>r. \<not> ?ex r) (content t)" if "is_ok res"
    proof -
      from f ok that have f': "forA (delete_step api (py_str fmt) sha now uri policy audit_uri operator reference key time_column)
         (plan_batches plan) w1 = (Inr (), w')" by simp
      let ?ks = "set (concat (map batch_keys (plan_batches plan)))"
      from delete_loop_success [OF assms(1-3) inv f'] have rem: "remains api content uri key ?ex (content t) ?ks w'" .
      from plan_retention_classified [OF dc assms(5) p] obtain cs where
        cs: "list_all2 (classified_as (py_str fmt) policy reference key time_column) (content t) cs"
        "plan_batches plan = plan_batches_of (of_tier Expired cs)" by auto
      have "?ks = set (map fst (of_tier Expired cs))"
        unfolding cs(2) by (rule mset_eq_setD [OF mset_batches])
      also have "\<dots> = (\<lambda>r. py_str fmt (row_get r key)) ` {r \<in> set (content t). ?ex r}"
        using classified_expired [OF cs(1)] by auto
      finally have K: "?ks = (\<lambda>r. py_str fmt (row_get r key)) ` {r \<in> set (content t). ?ex r}" .
      have "(\<forall>k\<in>?ks. row_get q key \<noteq> CText k) \<longleftrightarrow> \<not> ?ex q" if q: "q \<in> set (content t)" for q
      proof
        assume n: "\<forall>k\<in>?ks. row_get q key \<noteq> CText k"
        show "\<not> ?ex q"
        proof
          assume "?ex q"
          with K q have "py_str fmt (row_get q key) \<in> ?ks" by auto
          with n assms(6) q show False by (fastforce simp: py_str_def)
        qed
      next
        assume "\<not> ?ex q"
        with rem q show "\<forall>k\<in>?ks. row_get q key \<noteq> CText k" unfolding remains_def by blast
      qed
      then have "without_keys key ?ks (content t) = filter (\<lambda>r. \<not> ?ex r) (content t)"
        unfolding without_keys_def by (intro filter_cong) simp_all
      with rem show ?thesis by (auto simp: remains_def)
    qed
    with a t' kept show ?thesis by blast
  qed
qed

definition sample_store :: mem_store where
  "sample_store = [(''s3://b/t'', 0,
     [[(''event_id'', CText ''it's''), (''occurred_at'', CTime 0)],
      [(''event_id'', CText ''new''), (''occurred_at'', CTime (8 * 365 * us_day))]])]"

lemma retention_deletes_exactly_expired_witness:
  "\<exists>t. api_open mem_delta ''s3://b/t'' (snd (enforce_retention mem_delta (py_str (\<lambda>c. [])) id 0 ''s3://b/t'' default_policy
       ''s3://b/a'' True None ''op'' (8 * 365 * us_day) ''event_id'' ''occurred_at'' sample_store)) = Inr t \<and>
     snd t = [[(''event_id'', CText ''new''), (''occurred_at'', CTime (8 * 365 * us_day))]]"
proof -
  let ?e = "enforce_retention mem_delta (py_str (\<lambda>c. [])) id 0 ''s3://b/t'' default_policy
       ''s3://b/a'' True None ''op'' (8 * 365 * us_day) ''event_id'' ''occurred_at'' sample_store"
  let ?old = "[(''event_id'', CText ''it's''), (''occurred_at'', CTime 0)]"
  let ?new = "[(''event_id'', CText ''new''), (''occurred_at'', CTime (8 * 365 * us_day))]"
  let ?exp = "expired_row default_policy (8 * 365 * us_day) ''occurred_at''"
  have ok: "True \<and> is_ok (fst ?e)" by code_simp
  have o1: "api_open mem_delta ''s3://b/t'' sample_store = Inr (0 :: int, [?old, ?new])"
    by (simp add: mem_delta_def sample_store_def)
  have x: "\<not> ?exp ?new" "?exp ?old"
    by (simp_all add: expired_row_def tier_for_def default_policy_def hot_horizon_def cold_horizon_def us_day_def)
  have h: "CHR 0x20 \<notin> set ''event_id''" "''s3://b/a'' \<noteq> ''s3://b/t''" "None \<noteq> Some ''s3://b/t''" by simp_all
  have k: "\<forall>r\<in>set (snd (0 :: int, [?old, ?new])). \<exists>k. row_get r ''event_id'' = CText k" by simp
  have e: "?e = (fst ?e, snd ?e)" by (rule surjective_pairing)
  note r = retention_deletes_exactly_expired [OF mem_delta_deletion_contract h o1 k e]
  note r [THEN conjunct2, THEN conjunct2, THEN mp, OF ok]
  then obtain t where t: "api_open mem_delta ''s3://b/t'' (snd ?e) = Inr t \<and> snd t = filter (\<lambda>r. \<not> ?exp r) (snd (0 :: int, [?old, ?new]))"
    by (rule exE)
  have "filter (\<lambda>r. \<not> ?exp r) (snd (0 :: int, [?old, ?new])) = [?new]" by (simp only: snd_conv filter.simps x simp_thms if_True if_False)
  with t show ?thesis by (intro exI [of _ t]) (simp only: simp_thms)
qed

text \<open>
  The plan accounts for every row: its tier counts add up to the table, its batches hold exactly
  the keys of the expired rows (each as often as it occurs), in strictly increasing day windows, each
  batch sorted and non-empty and every key in the window of a row's own day.
\<close>

theorem plan_retention_accounts:
  assumes "delta_contract api content" "api_open api uri w = Inr t"
    and "plan_retention api ps uri policy reference key time_column w = Inr plan"
  shows "plan_hot plan + plan_cold plan + plan_expired plan = plan_total plan \<and> plan_total plan = length (content t) \<and>
     plan_expired plan = length (filter (expired_row policy reference time_column) (content t)) \<and>
     mset (concat (map batch_keys (plan_batches plan))) =
       mset (map (\<lambda>r. ps (row_get r key)) (filter (expired_row policy reference time_column) (content t))) \<and>
     sorted (map window_date (plan_batches plan)) \<and> distinct (map window_date (plan_batches plan)) \<and>
     list_all (\<lambda>b. batch_keys b \<noteq> [] \<and> sorted (batch_keys b) \<and>
       list_all (\<lambda>k. \<exists>r x. r \<in> set (content t) \<and> ps (row_get r key) = k \<and> row_get r time_column = CTime x \<and>
         date_isoformat x = window_date b) (batch_keys b)) (plan_batches plan)"
proof -
  from plan_retention_classified [OF assms] obtain cs where
    cs: "list_all2 (classified_as ps policy reference key time_column) (content t) cs"
    and plan: "plan = \<lparr>plan_uri = uri, plan_reference = reference, plan_total = length (content t),
          plan_hot = length (of_tier Hot cs), plan_cold = length (of_tier Cold cs),
          plan_expired = length (of_tier Expired cs), plan_batches = plan_batches_of (of_tier Expired cs),
          plan_cold_keys = sort (map fst (of_tier Cold cs))\<rparr>" by blast
  let ?ex = "of_tier Expired cs" and ?day = "\<lambda>(key :: string, t). date_isoformat t"
  let ?g = "group_by ?day fst ?ex"
  have w: "map window_date (plan_batches_of ?ex) = map fst (sort_key fst ?g)"
    by (simp add: plan_batches_of_def case_prod_unfold comp_def)
  have d: "distinct (map fst (sort_key fst ?g))"
    using distinct_group_by [of ?day fst ?ex] by (simp add: distinct_map)
  have b: "batch_keys x \<noteq> [] \<and> sorted (batch_keys x) \<and>
       list_all (\<lambda>k. \<exists>r x'. r \<in> set (content t) \<and> ps (row_get r key) = k \<and> row_get r time_column = CTime x' \<and>
         date_isoformat x' = window_date x) (batch_keys x)" if "x \<in> set (plan_batches_of ?ex)" for x
  proof -
    from that obtain wd ks where x: "x = \<lparr>window_date = wd, batch_keys = sort ks\<rparr>" "(wd, ks) \<in> set ?g"
      by (auto simp: plan_batches_of_def)
    from group_by_entry [OF x(2)] have ks: "ks = map fst (filter (\<lambda>x. ?day x = wd) ?ex)" "ks \<noteq> []" by auto
    have "\<exists>r x'. r \<in> set (content t) \<and> ps (row_get r key) = k \<and> row_get r time_column = CTime x' \<and>
         date_isoformat x' = wd" if "k \<in> set ks" for k
    proof -
      from that ks(1) obtain c where c: "c \<in> set cs" "fst (snd c) = k" "date_isoformat (snd (snd c)) = wd"
        by (auto simp: of_tier_def)
      from list_all2_in_left [OF cs c(1)] c(2,3) show ?thesis by (auto simp: classified_as_def)
    qed
    moreover from ks(2) have "sort ks \<noteq> []" by (metis length_0_conv length_sort)
    ultimately show ?thesis using x(1) by (simp add: list_all_iff)
  qed
  show ?thesis
    using classified_tiers [OF cs] classified_expired [OF cs] mset_batches [of ?ex] w d b
    by (simp add: plan list_all_iff)
qed

lemma plan_retention_accounts_witness:
  "\<exists>plan. plan_retention mem_delta (py_str (\<lambda>c. [])) ''s3://b/t'' default_policy (8 * 365 * us_day) ''event_id'' ''occurred_at'' sample_store =
     Inr plan \<and> plan_total plan = 2 \<and> plan_expired plan = 1"
proof -
  have o1: "api_open mem_delta ''s3://b/t'' sample_store = Inr (0,
     [[(''event_id'', CText ''it's''), (''occurred_at'', CTime 0)],
      [(''event_id'', CText ''new''), (''occurred_at'', CTime (8 * 365 * us_day))]])"
    by (simp add: mem_delta_def sample_store_def)
  have "is_ok (plan_retention mem_delta (py_str (\<lambda>c. [])) ''s3://b/t'' default_policy (8 * 365 * us_day) ''event_id'' ''occurred_at'' sample_store)"
    by code_simp
  then obtain plan where p: "plan_retention mem_delta (py_str (\<lambda>c. [])) ''s3://b/t'' default_policy (8 * 365 * us_day) ''event_id'' ''occurred_at'' sample_store = Inr plan"
    by (auto simp: is_ok_iff)
  have x: "\<not> expired_row default_policy (8 * 365 * us_day) ''occurred_at'' [(''event_id'', CText ''new''), (''occurred_at'', CTime (8 * 365 * us_day))]"
    "expired_row default_policy (8 * 365 * us_day) ''occurred_at'' [(''event_id'', CText ''it's''), (''occurred_at'', CTime 0)]"
    by (simp_all add: expired_row_def tier_for_def default_policy_def hot_horizon_def cold_horizon_def us_day_def)
  from plan_retention_accounts [OF mem_delta_contract o1 p] x p show ?thesis by auto
qed

text \<open>
  Claim C23.  The rendered delete predicate selects exactly the rows whose key is one of the chunk's
  keys, whatever characters the keys contain: quoting admits no injection.
\<close>

theorem delete_predicate_selects_keys:
  "sql_in_predicate (in_predicate ''event_id'' (k # ks)) = Some (''event_id'', k # ks) \<and>
   sql_delete (in_predicate ''event_id'' (k # ks)) rows =
     filter (\<lambda>r. row_get r ''event_id'' \<notin> CText ` set (k # ks)) rows"
proof -
  have p: "sql_in_predicate (in_predicate ''event_id'' (k # ks)) = Some (''event_id'', k # ks)"
    by (rule in_predicate_denotes) simp_all
  then show ?thesis by (auto simp: sql_delete_def intro!: filter_cong)
qed

text \<open>
  The audit identifier leaves out the operator and the policy, although both are compared: once one
  operator's plan of a batch is in the audit log, recording the same plan for another operator is refused.
\<close>

theorem audit_second_operator_refused:
  assumes "delta_contract api content" "api_open api audit_uri w = Inr t"
    and "a = make_record sha now uri mode window policy planned deleted archived operator dry keys"
    and "b = make_record sha now' uri mode window policy' planned deleted archived operator' dry keys"
    and "operator \<noteq> operator'" "audit_row a \<in> set (content t)"
    and "\<forall>x\<in>set (content t). py_str fmt (row_get x ''audit_id'') = audit_id a \<longrightarrow> x = audit_row a"
  shows "audit_id b = audit_id a \<and> (\<exists>e. append_audit_record api (py_str fmt) audit_uri b w = (Inl e, w))"
proof -
  have id: "audit_id b = audit_id a" using assms(3,4) by (simp add: make_record_def)
  have ops: "audit_operator a = operator" "audit_operator b = operator'" using assms(3,4) by (simp_all add: make_record_def)
  have k: "row_get (audit_row x) ''audit_id'' = CText (audit_id x)" "row_get (audit_row x) ''operator'' = CText (audit_operator x)" for x
    by (simp_all add: audit_row_def)
  have ic: "''operator'' \<in> set (identity_columns (audit_row b))"
    by (simp add: identity_columns_def audit_row_def REPLAY_GUARD_EXCLUDED_COLUMNS_def)
  have "\<exists>e. append_rows api (py_str fmt) audit_uri [audit_row b] ''audit_id'' (Some AUDIT_TABLE_DESCRIPTION) None
      ''blueeconomy_retention_audit'' w = (Inl e, w)"
  proof (rule append_refused [OF assms(1,2), where r = "audit_row b" and k = "audit_id a" and y = "audit_row a"])
    show "\<forall>x\<in>set (content t). py_str fmt (row_get x ''audit_id'') = audit_id a \<longrightarrow>
      (\<exists>c\<in>set (identity_columns (audit_row b)). \<not> cell_eq (row_get x c) (row_get (audit_row b) c))"
      using assms(5,7) ic k ops by (auto intro!: bexI [OF _ ic])
  qed (use id assms(6) k in \<open>simp_all add: REPLAY_GUARD_EXCLUDED_COLUMNS_def\<close>)
  with id show ?thesis by (auto simp: append_audit_record_def bindA_def)
qed

lemma audit_second_operator_refused_witness:
  "\<exists>e. append_audit_record mem_delta (py_str (\<lambda>c. [])) ''s3://b/a''
      (make_record id 1 ''s3://b/t'' ''plan-delete'' ''1970-01-01'' default_policy 1 0 0 ''bob'' True [''k''])
      [(''s3://b/a'', 0, [audit_row (make_record id 0 ''s3://b/t'' ''plan-delete'' ''1970-01-01'' default_policy 1 0 0 ''alice'' True [''k''])])] =
    (Inl e, [(''s3://b/a'', 0, [audit_row (make_record id 0 ''s3://b/t'' ''plan-delete'' ''1970-01-01'' default_policy 1 0 0 ''alice'' True [''k''])])])"
proof -
  let ?row = "audit_row (make_record id 0 ''s3://b/t'' ''plan-delete'' ''1970-01-01'' default_policy 1 0 0 ''alice'' True [''k''])"
  have "api_open mem_delta ''s3://b/a'' [(''s3://b/a'', 0, [?row])] = Inr (0, [?row])" by (simp add: mem_delta_def)
  note r = audit_second_operator_refused [OF mem_delta_contract this refl refl,
    where sha = id and uri = "''s3://b/t''" and mode = "''plan-delete''" and window = "''1970-01-01''" and dry = True
      and now = 0 and now' = 1 and policy = default_policy and policy' = default_policy and planned = 1 and deleted = 0
      and archived = 0 and operator = "''alice''" and operator' = "''bob''" and keys = "[''k'']" and fmt = "\<lambda>c. []"]
  show ?thesis by (rule r [THEN conjunct2]) simp_all
qed

end
