(* ===== verification/Json_Dumps.thy ===== *)
theory Json_Dumps
  imports Medallion
begin

text \<open>
  \<open>json.dumps\<close> with its default \<open>ensure_ascii=True\<close> and \<open>allow_nan=True\<close>: \<open>isep\<close> and \<open>ksep\<close> are the separators, and
  \<open>srt\<close> tells whether \<open>sort_keys\<close> is set.  A float is rendered by \<open>fr\<close> (\<open>float.__repr__\<close>).
\<close>

fun json_dumps :: "(rat \<Rightarrow> string) \<Rightarrow> bool \<Rightarrow> string \<Rightarrow> string \<Rightarrow> json \<Rightarrow> string" where
  "json_dumps fr srt isep ksep JNull = ''null''"
| "json_dumps fr srt isep ksep (JBool b) = (if b then ''true'' else ''false'')"
| "json_dumps fr srt isep ksep (JInt i) = int_str i"
| "json_dumps fr srt isep ksep (JFloat f) =
     (case f of PFin q \<Rightarrow> fr q | PInf \<Rightarrow> ''Infinity'' | PNegInf \<Rightarrow> ''-Infinity'' | PNaN \<Rightarrow> ''NaN'')"
| "json_dumps fr srt isep ksep (JStr s) = json_ascii_str s"
| "json_dumps fr srt isep ksep (JList xs) = ''['' @ join_with isep (map (json_dumps fr srt isep ksep) xs) @ '']''"
| "json_dumps fr srt isep ksep (JObj d) =
     (let items = map (\<lambda>(k, v). (k, json_dumps fr srt isep ksep v)) d
      in ''{'' @ join_with isep (map (\<lambda>(k, t). json_ascii_str k @ ksep @ t) (if srt then sort_key fst items else items)) @
         ''}'')"

text \<open>The separators the sources use: the compact ones, and the default ones.\<close>

abbreviation "dumps_compact fr srt \<equiv> json_dumps fr srt '','' '':''"
abbreviation "dumps_default fr srt \<equiv> json_dumps fr srt '', '' '': ''"

lemma dumps_texts_json: "dumps_texts xs = dumps_default fr srt (JList (map JStr xs))"
  by (simp add: dumps_texts_def comp_def)

end
