(* ===== verification/Dlq.thy ===== *)
theory Dlq
  imports Retention Json_Dumps
begin

text \<open>
  \<open>dlq.py\<close>: the dead-letter queue.  A rejected message is wrapped into a record that is produced to the
  dead-letter topic and, once the broker has confirmed it, appended to the quarantine table.  The Kafka producer
  is a parameter (\<open>produce\<close> and \<open>flush\<close>), and so is what the process reads from its environment: the
  clock, SHA-256, the rendering of floats and of values by \<open>str\<close>.  Trace headers are left out.
  Bytes are strings, one character per byte.
\<close>

section \<open>The environment\<close>

record 'w runtime =
  rt_clock :: "'w \<Rightarrow> int \<times> 'w"
  rt_sha :: "string \<Rightarrow> string"
  rt_fr :: "rat \<Rightarrow> string"
  rt_str :: "cell \<Rightarrow> string"
  rt_replacement :: char

definition read_clock :: "'w runtime \<Rightarrow> ('w, int) act" where
  "read_clock rt w = (case rt_clock rt w of (t, w') \<Rightarrow> (Inr t, w'))"

text \<open>
  \<open>produce\<close> queues a message (it raises when the queue is full); \<open>flush\<close> returns the number of
  messages still queued and calls the delivery callback of each message it delivered or gave up.
\<close>

record 'w producer_api =
  prod_produce :: "string \<Rightarrow> string \<Rightarrow> string \<Rightarrow> 'w \<Rightarrow> unit res \<times> 'w"
  prod_flush :: "'w \<Rightarrow> (int \<times> string option list) res \<times> 'w"

section \<open>Bytes\<close>

definition utf8_encode :: "string \<Rightarrow> string" where
  "utf8_encode s =
     concat (map (\<lambda>c. if code c < 128 then [c] else [char_of (192 + code c div 64), char_of (128 + code c mod 64)]) s)"

text \<open>
  \<open>decode("utf-8", errors="replace")\<close> of a prefix of an encoded text: a lead byte that was cut off from its
  continuation becomes the replacement character, which is U+FFFD and a parameter here.
\<close>

fun utf8_decode_prefix :: "char \<Rightarrow> string \<Rightarrow> string" where
  "utf8_decode_prefix rep [] = []"
| "utf8_decode_prefix rep [c] = [if code c < 128 then c else rep]"
| "utf8_decode_prefix rep (c # d # s) =
     (if code c < 128 then c # utf8_decode_prefix rep (d # s)
      else char_of ((code c - 192) * 64 + (code d - 128)) # utf8_decode_prefix rep s)"

definition b64_alphabet :: string where
  "b64_alphabet = ''ABCDEFGHIJKLMNOPQRSTUVWXYZabcdefghijklmnopqrstuvwxyz0123456789+/''"

definition b64_char :: "nat \<Rightarrow> char" where
  "b64_char n = b64_alphabet ! n"

text \<open>\<open>base64.b64encode\<close>: three bytes become four characters, the last group is padded.\<close>

fun b64encode :: "string \<Rightarrow> string" where
  "b64encode [] = []"
| "b64encode [a] = [b64_char (code a div 4), b64_char (code a mod 4 * 16), CHR ''='', CHR ''='']"
| "b64encode [a, b] =
     [b64_char (code a div 4), b64_char (code a mod 4 * 16 + code b div 16), b64_char (code b mod 16 * 4), CHR ''='']"
| "b64encode (a # b # c # s) =
     [b64_char (code a div 4), b64_char (code a mod 4 * 16 + code b div 16),
      b64_char (code b mod 16 * 4 + code c div 64), b64_char (code c mod 64)] @ b64encode s"

section \<open>The quarantine record\<close>

definition DLQ_SCHEMA_VERSION :: string where "DLQ_SCHEMA_VERSION = ''blueeconomy.lakehouse.dlq-record.v1''"
definition MAX_DLQ_DETAIL_BYTES :: int where "MAX_DLQ_DETAIL_BYTES = 2048"
definition REASON_MALFORMED_ENVELOPE :: string where "REASON_MALFORMED_ENVELOPE = ''malformed-envelope''"
definition REASON_DUPLICATE_EVENT_ID :: string where "REASON_DUPLICATE_EVENT_ID = ''duplicate-event-id''"

definition DLQ_TABLE_DESCRIPTION :: string where
  "DLQ_TABLE_DESCRIPTION =
     ''Governed append-only quarantine table for dead-lettered Kafka messages (poison envelopes preserved verbatim with reason codes)''"

definition reason_for_error :: "exn \<Rightarrow> string" where
  "reason_for_error e = (case exn_class e of SignatureVerificationError reason \<Rightarrow> reason | _ \<Rightarrow> REASON_MALFORMED_ENVELOPE)"

definition dlq_event_id :: "(string \<Rightarrow> string) \<Rightarrow> string \<Rightarrow> int \<Rightarrow> int \<Rightarrow> string \<Rightarrow> string" where
  "dlq_event_id sha topic part offs reason =
     sha (topic @ ''/'' @ int_str part @ ''/'' @ int_str offs @ ''/'' @ reason)"

definition bounded_raw :: "string option \<Rightarrow> string" where
  "bounded_raw value =
     (let raw = (case value of None \<Rightarrow> [] | Some v \<Rightarrow> v)
      in if MAX_LINE_BYTES < int (length raw) then take (nat MAX_LINE_BYTES) raw else raw)"

definition bounded_detail :: "char \<Rightarrow> string \<Rightarrow> string" where
  "bounded_detail rep detail =
     (let b = utf8_encode detail
      in utf8_decode_prefix rep (if int (length b) \<le> MAX_DLQ_DETAIL_BYTES then b else take (nat MAX_DLQ_DETAIL_BYTES) b))"

definition build_dlq_record :: "'w runtime \<Rightarrow> int \<Rightarrow> string option \<Rightarrow> string \<Rightarrow> int \<Rightarrow> int \<Rightarrow> string \<Rightarrow> string \<Rightarrow> string \<Rightarrow> jobject" where
  "build_dlq_record rt now value topic part offs reason detail consumer_group =
     (let raw = bounded_raw value in
      [(''schema_version'', JStr DLQ_SCHEMA_VERSION),
       (''dlq_event_id'', JStr (dlq_event_id (rt_sha rt) topic part offs reason)),
       (''source_topic'', JStr topic),
       (''source_partition'', JInt part),
       (''source_offset'', JInt offs),
       (''reason_code'', JStr reason),
       (''error_detail'', JStr (bounded_detail (rt_replacement rt) detail)),
       (''message_sha256'', JStr (rt_sha rt raw)),
       (''message_value_base64'', JStr (b64encode raw)),
       (''consumer_group_sha256'', JStr (rt_sha rt consumer_group)),
       (''quarantined_at'', JStr (isoformat now))])"

section \<open>The queue\<close>

record dead_letter_queue =
  dq_topic :: string
  dq_table_uri :: string
  dq_consumer_group :: string

definition already_quarantined :: "('w, 't) delta_api \<Rightarrow> string \<Rightarrow> string \<Rightarrow> ('w, bool) act" where
  "already_quarantined api uri event_id w =
     (case api_open api uri w of
        Inl e \<Rightarrow> (if exn_class e = TableNotFoundError then Inr False else Inl e, w)
      | Inr table \<Rightarrow>
          (bindR (api_read api table [''event_id''] (Some (''event_id'', [event_id]))) (\<lambda>rows. Inr (rows \<noteq> [])), w))"

definition instant_of :: "string \<Rightarrow> int res" where
  "instant_of s = bindR (fromisoformat s) (\<lambda>(local, off). Inr (local - (case off of None \<Rightarrow> 0 | Some z \<Rightarrow> z)))"

definition quarantine_row :: "'w runtime \<Rightarrow> int \<Rightarrow> int \<Rightarrow> jobject \<Rightarrow> row" where
  "quarantine_row rt quarantined_at now record' =
     [(''event_id'', cell_of_json (jget record' ''dlq_event_id'')),
      (''event_type'', CText ''lakehouse.dlq.quarantine.v1''),
      (''producer'', CText ''blueeconomy-data-platform''),
      (''occurred_at'', CTime quarantined_at),
      (''recorded_at'', CTime quarantined_at),
      (''data_classification'', CText ''internal''),
      (''source_system'', CText ''blueeconomy-data-platform-dlq''),
      (''source_record_reference'', cell_of_json (jget record' ''message_sha256'')),
      (''correlation_id'', CNone),
      (''payload_json'', CText (dumps_default (rt_fr rt) True (JObj record'))),
      (''ingested_at'', CTime now)]"

text \<open>The row is built and appended; whatever the append raises becomes a \<open>DeadLetterError\<close>.\<close>

definition append_new_quarantine_row :: "'w runtime \<Rightarrow> ('w, 't) delta_api \<Rightarrow> dead_letter_queue \<Rightarrow> jobject \<Rightarrow> ('w, unit) act" where
  "append_new_quarantine_row rt api dq record' =
     bindA (pureA (bindR (bindR (jitem record' ''quarantined_at'') (\<lambda>v. require_some (json_text v) TypeError ''quarantined_at''))
                     instant_of)) (\<lambda>stamp.
     bindA (read_clock rt) (\<lambda>now w.
     case append_events api (rt_str rt) (dq_table_uri dq) [quarantine_row rt stamp now record'] (Some DLQ_TABLE_DESCRIPTION) w of
       (Inl e, w') \<Rightarrow> (raise DeadLetterError ''DLQ quarantine table append failed; halting without commit'', w')
     | (Inr r, w') \<Rightarrow> (Inr (), w')))"

definition append_quarantine_row :: "'w runtime \<Rightarrow> ('w, 't) delta_api \<Rightarrow> dead_letter_queue \<Rightarrow> jobject \<Rightarrow> ('w, unit) act" where
  "append_quarantine_row rt api dq record' =
     bindA (pureA (bindR (jitem record' ''dlq_event_id'') (\<lambda>v. require_some (json_text v) TypeError ''dlq_event_id''))) (\<lambda>event_id.
     bindA (already_quarantined api (dq_table_uri dq) event_id) (\<lambda>known.
     if known then pureA (Inr ()) else append_new_quarantine_row rt api dq record'))"

definition delivery_errors :: "string option list \<Rightarrow> string list" where
  "delivery_errors outcomes = concat (map (\<lambda>x. case x of None \<Rightarrow> [] | Some e \<Rightarrow> [e]) outcomes)"

definition quarantine :: "'w runtime \<Rightarrow> 'w producer_api \<Rightarrow> ('w, 't) delta_api \<Rightarrow> dead_letter_queue \<Rightarrow>
    string option \<Rightarrow> string \<Rightarrow> int \<Rightarrow> int \<Rightarrow> string \<Rightarrow> string \<Rightarrow> ('w, unit) act" where
  "quarantine rt pr api dq value topic part offs reason detail =
     bindA (read_clock rt) (\<lambda>now.
     let record' = build_dlq_record rt now value topic part offs reason detail (dq_consumer_group dq);
         event_id = dlq_event_id (rt_sha rt) topic part offs reason
     in bindA (prod_produce pr (dq_topic dq) (dumps_compact (rt_fr rt) False (JObj record')) event_id) (\<lambda>_.
        bindA (prod_flush pr) (\<lambda>(remaining, outcomes).
        bindA (pureA (guard (remaining = 0 \<and> delivery_errors outcomes = []) DeadLetterError
                 ''DLQ produce was not confirmed; halting without commit'')) (\<lambda>_.
        append_quarantine_row rt api dq record'))))"

section \<open>Base64\<close>

text \<open>The decoder of the replay tooling: the reference the encoder is checked against.\<close>

definition b64_index :: "char \<Rightarrow> nat" where
  "b64_index c = length (takeWhile (\<lambda>x. x \<noteq> c) b64_alphabet)"

fun b64decode :: "string \<Rightarrow> string" where
  "b64decode (w # x # y # z # s) =
     (let p = b64_index w; q = b64_index x; r = b64_index y; t = b64_index z in
      if y = CHR ''='' then [char_of (p * 4 + q div 16)]
      else if z = CHR ''='' then [char_of (p * 4 + q div 16), char_of (q mod 16 * 16 + r div 4)]
      else [char_of (p * 4 + q div 16), char_of (q mod 16 * 16 + r div 4), char_of (r mod 4 * 64 + t)] @ b64decode s)"
| "b64decode _ = []"

lemma b64_index_char:
  assumes "n < 64"
  shows "b64_index (b64_char n) = n" "b64_char n \<noteq> CHR ''=''"
proof -
  have "list_all (\<lambda>n. b64_index (b64_char n) = n \<and> b64_char n \<noteq> CHR ''='') [0..<64]" by code_simp
  with assms show "b64_index (b64_char n) = n" "b64_char n \<noteq> CHR ''=''" by (auto simp: list_all_iff)
qed

lemma char_of_code: "n = code c \<Longrightarrow> char_of n = c"
  by (simp add: code_def)

lemma code_of_char: "n < 256 \<Longrightarrow> code (char_of n) = n"
  by (simp add: code_def)

lemma code_bound: "code c < 256"
  by (simp add: code_def)

lemma split_sextets:
  fixes a b c :: nat
  assumes "a < 256" "b < 256" "c < 256"
  shows "a div 4 < 64" "a mod 4 * 16 + b div 16 < 64" "b mod 16 * 4 + c div 64 < 64" "c mod 64 < 64"
    "a div 4 * 4 + (a mod 4 * 16 + b div 16) div 16 = a"
    "(a mod 4 * 16 + b div 16) mod 16 * 16 + (b mod 16 * 4 + c div 64) div 4 = b"
    "(b mod 16 * 4 + c div 64) mod 4 * 64 + c mod 64 = c"
proof -
  have l: "a div 4 < 64" "b div 16 < 16" "c div 64 < 4" "a mod 4 < 4" "b mod 16 < 16" "c mod 64 < 64" using assms by auto
  have n: "a mod 4 * 16 + b div 16 < 64" "b mod 16 * 4 + c div 64 < 64" using l by linarith+
  show "a div 4 < 64" "a mod 4 * 16 + b div 16 < 64" "b mod 16 * 4 + c div 64 < 64" "c mod 64 < 64" using l n by simp_all
  show "a div 4 * 4 + (a mod 4 * 16 + b div 16) div 16 = a"
    "(a mod 4 * 16 + b div 16) mod 16 * 16 + (b mod 16 * 4 + c div 64) div 4 = b"
    "(b mod 16 * 4 + c div 64) mod 4 * 64 + c mod 64 = c" using l by simp_all
qed

lemma b64_roundtrip: "b64decode (b64encode s) = s"
proof (induction s rule: b64encode.induct)
  case (2 a)
  note s = split_sextets [OF code_bound [of a] zero_less_numeral zero_less_numeral]
  show ?case using s by (simp add: b64_index_char char_of_code)
next
  case (3 a b)
  note s = split_sextets [OF code_bound [of a] code_bound [of b] zero_less_numeral]
  show ?case using s by (simp add: b64_index_char char_of_code)
next
  case (4 a b c s)
  note s = split_sextets [OF code_bound [of a] code_bound [of b] code_bound [of c]]
  show ?case using 4 s by (simp add: b64_index_char char_of_code)
qed simp

lemma utf8_prefix_roundtrip: "utf8_decode_prefix rep (utf8_encode s) = s"
proof (induction s)
  case Nil
  then show ?case by (simp add: utf8_encode_def)
next
  case (Cons c s)
  have e: "utf8_encode (c # s) =
      (if code c < 128 then [c] else [char_of (192 + code c div 64), char_of (128 + code c mod 64)]) @ utf8_encode s"
    by (simp add: utf8_encode_def)
  show ?case
  proof (cases "code c < 128")
    case True
    with Cons e show ?thesis by (cases "utf8_encode s") auto
  next
    case False
    have "code c div 64 < 4" using code_bound [of c] by auto
    then have "code (char_of (192 + code c div 64)) = 192 + code c div 64"
      "code (char_of (128 + code c mod 64)) = 128 + code c mod 64"
      using code_bound [of c] by (simp_all add: code_of_char)
    with False Cons e show ?thesis by (simp add: char_of_code)
  qed
qed

lemma utf8_encode_length: "length (utf8_encode s) = utf8_len s"
  by (induction s) (simp_all add: utf8_encode_def utf8_len_def)

section \<open>The contract of the queue\<close>

text \<open>
  What a client relies on: a call that returns has made the record of the message's coordinates and reason
  durable, and no call loses a durable record.
\<close>

locale dead_letter_sink =
  fixes sink :: "string option \<Rightarrow> string \<Rightarrow> int \<Rightarrow> int \<Rightarrow> string \<Rightarrow> string \<Rightarrow> ('w, unit) act"
    and durable :: "string \<Rightarrow> int \<Rightarrow> int \<Rightarrow> string \<Rightarrow> 'w \<Rightarrow> bool"
  assumes sink_durable: "sink v t p i reason detail w = (Inr (), w') \<Longrightarrow> durable t p i reason w'"
    and sink_keeps: "sink v t p i reason detail w = (x, w') \<Longrightarrow> durable t' p' i' reason' w \<Longrightarrow> durable t' p' i' reason' w'"

text \<open>The clock and the producer do not touch the tables; \<open>str\<close> of a text is the text.\<close>

definition dlq_contract :: "'w runtime \<Rightarrow> 'w producer_api \<Rightarrow> ('w, 't) delta_api \<Rightarrow> ('t \<Rightarrow> row list) \<Rightarrow> bool" where
  "dlq_contract rt pr api content \<longleftrightarrow>
     delta_contract api content \<and> (\<exists>fmt. rt_str rt = py_str fmt) \<and>
     (\<forall>uri w. api_open api uri (snd (rt_clock rt w)) = api_open api uri w) \<and>
     (\<forall>uri t v k w. api_open api uri (snd (prod_produce pr t v k w)) = api_open api uri w) \<and>
     (\<forall>uri w. api_open api uri (snd (prod_flush pr w)) = api_open api uri w)"

definition holds_event :: "('w, 't) delta_api \<Rightarrow> ('t \<Rightarrow> row list) \<Rightarrow> string \<Rightarrow> string \<Rightarrow> 'w \<Rightarrow> bool" where
  "holds_event api content uri event_id w \<longleftrightarrow>
     (\<exists>t y. api_open api uri w = Inr t \<and> y \<in> set (content t) \<and> row_get y ''event_id'' = CText event_id)"

lemma holds_event_open:
  "api_open api uri w' = api_open api uri w \<Longrightarrow> holds_event api content uri i w' = holds_event api content uri i w"
  by (simp add: holds_event_def)

lemma append_events_holds:
  assumes "delta_contract api content" "append_events api (py_str fmt) uri rows d w = (Inr r, w')"
    and "row_get (hd rows) ''event_id'' \<noteq> CNone" "r' \<in> set rows" "row_get r' ''event_id'' = CText i"
  shows "holds_event api content uri i w'"
proof -
  obtain v n p where r: "r = (v, n, p)" by (cases r)
  have k: "''event_id'' \<notin> set REPLAY_GUARD_EXCLUDED_COLUMNS" by (simp add: REPLAY_GUARD_EXCLUDED_COLUMNS_def)
  have a: "''event_id'' \<in> set (arrow_columns rows None)"
    using row_get_in_keys [OF assms(3)] assms(4) by (cases rows) (auto simp: arrow_columns_def)
  from assms(5) k row_get_in_keys [of r' "''event_id''"] have "''event_id'' \<in> set (identity_columns r')"
    by (auto simp: identity_columns_def)
  with a have "''event_id'' \<in> set (stored_columns rows None r')" by (simp add: stored_columns_def)
  with append_retained [OF assms(1) assms(2) [unfolded append_events_def r] k a assms(4,5)]
  obtain t y where "api_open api uri w' = Inr t" "y \<in> set (content t)"
    "same_value (row_get y ''event_id'') (row_get r' ''event_id'')" by (auto simp: list_all_iff)
  with assms(5) show ?thesis by (auto simp: holds_event_def same_value_def)
qed

lemma append_events_keeps:
  assumes "delta_contract api content" "append_events api ps uri rows d w = (x, w')" "holds_event api content uri i w"
  shows "holds_event api content uri i w'"
proof -
  from assms(3) obtain t y where t: "api_open api uri w = Inr t" "y \<in> set (content t)" "row_get y ''event_id'' = CText i"
    unfolding holds_event_def by blast
  from append_rows_keeps [OF assms(1) t(1) assms(2) [unfolded append_events_def]] t(2,3) show ?thesis
    unfolding holds_event_def by blast
qed

lemma already_quarantined_holds:
  assumes "delta_contract api content" "already_quarantined api uri i w = (Inr True, w')"
  shows "w' = w \<and> holds_event api content uri i w"
proof -
  from assms(2) obtain t rows where t: "w' = w" "api_open api uri w = Inr t" "rows \<noteq> []"
    "api_read api t [''event_id''] (Some (''event_id'', [i])) = Inr rows"
    by (auto simp: already_quarantined_def res_simps split: sum.splits if_splits)
  from assms(1) t(4) have "rows = map (project [''event_id'']) (selected (Some (''event_id'', [i])) (content t))"
    by (simp add: delta_contract_def)
  with t(3) have "selected (Some (''event_id'', [i])) (content t) \<noteq> []" by simp
  then have "\<exists>y\<in>set (content t). row_get y ''event_id'' = CText i"
    by (auto simp: selected_def filter_empty_conv)
  with t show ?thesis unfolding holds_event_def by blast
qed

lemma already_quarantined_world: "already_quarantined api uri i w = (x, w') \<Longrightarrow> w' = w"
  by (auto simp: already_quarantined_def split: sum.splits)

lemma dlq_contractD:
  assumes "dlq_contract rt pr api content"
  shows "delta_contract api content" "\<exists>fmt. rt_str rt = py_str fmt"
    "api_open api uri (snd (rt_clock rt w)) = api_open api uri w"
    "api_open api uri (snd (prod_produce pr t v k w)) = api_open api uri w"
    "api_open api uri (snd (prod_flush pr w)) = api_open api uri w"
  using assms by (simp_all add: dlq_contract_def)

lemma append_new_row_effect:
  assumes con: "dlq_contract rt pr api content" and i: "map_of record' ''dlq_event_id'' = Some (JStr i)"
    and run: "append_new_quarantine_row rt api dq record' w = (x, w')"
  shows "(x = Inr () \<longrightarrow> holds_event api content (dq_table_uri dq) i w') \<and>
    (holds_event api content (dq_table_uri dq) j w \<longrightarrow> holds_event api content (dq_table_uri dq) j w')"
proof -
  let ?uri = "dq_table_uri dq"
  from dlq_contractD(2) [OF con] obtain fmt where ps: "rt_str rt = py_str fmt" by blast
  note dc = dlq_contractD(1) [OF con]
  show ?thesis
    using run unfolding append_new_quarantine_row_def
  proof (cases rule: bindA_cases)
    case (error e)
    then show ?thesis by auto
  next
    case (next_step stamp w1)
    obtain now w2 where w2: "rt_clock rt w = (now, w2)" by fastforce
    have j2: "holds_event api content ?uri k w2 = holds_event api content ?uri k w" for k
      using dlq_contractD(3) [OF con, of ?uri w] w2 by (intro holds_event_open) simp
    let ?row = "quarantine_row rt stamp now record'"
    obtain y w3 where a: "append_events api (py_str fmt) ?uri [?row] (Some DLQ_TABLE_DESCRIPTION) w2 = (y, w3)"
      by fastforce
    from next_step w2 a have x: "w' = w3" "x = Inr () \<longrightarrow> (\<exists>z. y = Inr z)"
      by (auto simp: ps bindA_def read_clock_def split: sum.splits)
    have id: "row_get ?row ''event_id'' = CText i"
      using i by (simp add: quarantine_row_def jget_def cell_of_json_def)
    have "holds_event api content ?uri i w'" if "x = Inr ()"
    proof -
      from x that obtain z where "append_events api (py_str fmt) ?uri [?row] (Some DLQ_TABLE_DESCRIPTION) w2 = (Inr z, w')"
        using a by auto
      from append_events_holds [OF dc this _ _ id] id show ?thesis by simp
    qed
    moreover from append_events_keeps [OF dc a] j2 x(1)
    have "holds_event api content ?uri j w \<longrightarrow> holds_event api content ?uri j w'" by simp
    ultimately show ?thesis by blast
  qed
qed

lemma append_quarantine_row_effect:
  assumes con: "dlq_contract rt pr api content" and i: "map_of record' ''dlq_event_id'' = Some (JStr i)"
    and run: "append_quarantine_row rt api dq record' w = (x, w')"
  shows "(x = Inr () \<longrightarrow> holds_event api content (dq_table_uri dq) i w') \<and>
    (holds_event api content (dq_table_uri dq) j w \<longrightarrow> holds_event api content (dq_table_uri dq) j w')"
proof -
  have id: "bindR (jitem record' ''dlq_event_id'') (\<lambda>v. require_some (json_text v) TypeError ''dlq_event_id'') = Inr i"
    using i by (simp add: bindR_Inr_iff)
  show ?thesis
    using run unfolding append_quarantine_row_def id bindA_pure
  proof (cases rule: bindA_cases)
    case (error e)
    with already_quarantined_world [OF error(1)] show ?thesis by simp
  next
    case (next_step known w1)
    have w1: "w1 = w" using next_step(1) by (rule already_quarantined_world)
    show ?thesis
    proof (cases known)
      case True
      with next_step already_quarantined_holds [OF dlq_contractD(1) [OF con]] show ?thesis by auto
    next
      case False
      with next_step(2) have "append_new_quarantine_row rt api dq record' w = (x, w')" by (simp add: w1)
      from append_new_row_effect [OF con i this] show ?thesis .
    qed
  qed
qed

lemma ok_run: "is_ok (fst m) \<Longrightarrow> \<exists>x w'. m = (Inr x, w')"
  by (cases m) (auto simp: is_ok_iff)

lemma bindA_step: "m w = (Inr x, w1) \<Longrightarrow> bindA m f w = f x w1"
  by (simp add: bindA_def)

text \<open>A run of \<open>quarantine\<close>: either it stops before the table is reached, or it ends with the table step.\<close>

lemma quarantine_steps:
  assumes con: "dlq_contract rt pr api content"
    and "quarantine rt pr api dq value t p i reason detail w = (x, w')"
  shows "(\<exists>e. x = Inl e \<and> (\<forall>uri. api_open api uri w' = api_open api uri w)) \<or>
    (\<exists>now w1 w2 w3 outcomes. rt_clock rt w = (now, w1) \<and>
       prod_produce pr (dq_topic dq)
         (dumps_compact (rt_fr rt) False (JObj (build_dlq_record rt now value t p i reason detail (dq_consumer_group dq))))
         (dlq_event_id (rt_sha rt) t p i reason) w1 = (Inr (), w2) \<and>
       prod_flush pr w2 = (Inr (0, outcomes), w3) \<and> delivery_errors outcomes = [] \<and>
       (\<forall>uri. api_open api uri w3 = api_open api uri w) \<and>
       append_quarantine_row rt api dq (build_dlq_record rt now value t p i reason detail (dq_consumer_group dq)) w3 = (x, w'))"
proof -
  obtain now w1 where c: "rt_clock rt w = (now, w1)" by fastforce
  let ?r = "build_dlq_record rt now value t p i reason detail (dq_consumer_group dq)"
  obtain y w2 where y: "prod_produce pr (dq_topic dq) (dumps_compact (rt_fr rt) False (JObj ?r))
      (dlq_event_id (rt_sha rt) t p i reason) w1 = (y, w2)" by fastforce
  obtain z w3 where z: "prod_flush pr w2 = (z, w3)" by fastforce
  have o1: "api_open api uri w1 = api_open api uri w" and o2: "api_open api uri w2 = api_open api uri w1"
    and o3: "api_open api uri w3 = api_open api uri w2" for uri
    using dlq_contractD(3-5) [OF con] c y z by (metis snd_conv)+
  show ?thesis
  proof (cases y)
    case (Inl e)
    with assms(2) c y o1 o2 show ?thesis by (auto simp: quarantine_def bindA_def read_clock_def Let_def)
  next
    case y': (Inr u)
    show ?thesis
    proof (cases z)
      case (Inl e)
      with assms(2) c y y' z o1 o2 o3 show ?thesis by (auto simp: quarantine_def bindA_def read_clock_def Let_def)
    next
      case (Inr ro)
      obtain remaining outcomes where ro: "ro = (remaining, outcomes)" by fastforce
      show ?thesis
      proof (cases "remaining = 0 \<and> delivery_errors outcomes = []")
        case True
        with assms(2) c y y' z Inr ro have "append_quarantine_row rt api dq ?r w3 = (x, w')"
          by (simp add: quarantine_def bindA_def read_clock_def Let_def pureA_def)
        with True c y y' z Inr ro o1 o2 o3 show ?thesis by simp
      next
        case False
        with assms(2) c y y' z Inr ro have "w' = w3 \<and> (\<exists>e. x = Inl e)"
          by (auto simp: quarantine_def bindA_def read_clock_def Let_def pureA_def guard_def raise_def)
        with o1 o2 o3 show ?thesis by auto
      qed
    qed
  qed
qed

lemma record_event_id:
  "map_of (build_dlq_record rt now value t p i reason detail g) ''dlq_event_id'' = Some (JStr (dlq_event_id (rt_sha rt) t p i reason))"
  by (simp add: build_dlq_record_def Let_def)

text \<open>The message of these coordinates is in the quarantine table, whatever the store's view of its rows.\<close>

definition quarantined :: "'w runtime \<Rightarrow> 'w producer_api \<Rightarrow> ('w, 't) delta_api \<Rightarrow> dead_letter_queue \<Rightarrow>
    string \<Rightarrow> int \<Rightarrow> int \<Rightarrow> string \<Rightarrow> 'w \<Rightarrow> bool" where
  "quarantined rt pr api dq t p i reason w \<longleftrightarrow>
     (\<forall>content. dlq_contract rt pr api content \<longrightarrow>
        holds_event api content (dq_table_uri dq) (dlq_event_id (rt_sha rt) t p i reason) w)"

lemma quarantine_holds:
  assumes con: "dlq_contract rt pr api content"
    and run: "quarantine rt pr api dq value t p i reason detail w = (x, w')"
  shows "(x = Inr () \<longrightarrow> holds_event api content (dq_table_uri dq) (dlq_event_id (rt_sha rt) t p i reason) w') \<and>
    (holds_event api content (dq_table_uri dq) j w \<longrightarrow> holds_event api content (dq_table_uri dq) j w')"
  using quarantine_steps [OF con run]
proof (elim disjE exE conjE)
  fix e assume "x = Inl e" "\<forall>uri. api_open api uri w' = api_open api uri w"
  then show ?thesis using holds_event_open [of api "dq_table_uri dq" w' w] by simp
next
  fix now w1 w2 w3 outcomes
  assume s: "\<forall>uri. api_open api uri w3 = api_open api uri w"
    "append_quarantine_row rt api dq (build_dlq_record rt now value t p i reason detail (dq_consumer_group dq)) w3 = (x, w')"
  from append_quarantine_row_effect [OF con record_event_id s(2)] holds_event_open [OF s(1) [rule_format]] show ?thesis
    by simp
qed

lemma quarantine_durable:
  assumes "quarantine rt pr api dq v t p i reason detail w = (Inr (), w')"
  shows "quarantined rt pr api dq t p i reason w'"
  unfolding quarantined_def
proof (intro allI impI)
  fix content assume "dlq_contract rt pr api content"
  from quarantine_holds [OF this assms]
  show "holds_event api content (dq_table_uri dq) (dlq_event_id (rt_sha rt) t p i reason) w'" by simp
qed

lemma quarantine_keeps:
  assumes "quarantine rt pr api dq v t p i reason detail w = (x, w')" "quarantined rt pr api dq t' p' i' reason' w"
  shows "quarantined rt pr api dq t' p' i' reason' w'"
  unfolding quarantined_def
proof (intro allI impI)
  fix content assume c: "dlq_contract rt pr api content"
  with assms(2) have "holds_event api content (dq_table_uri dq) (dlq_event_id (rt_sha rt) t' p' i' reason') w"
    by (simp add: quarantined_def)
  with quarantine_holds [OF c assms(1)]
  show "holds_event api content (dq_table_uri dq) (dlq_event_id (rt_sha rt) t' p' i' reason') w'" by simp
qed

interpretation dlq_sink: dead_letter_sink "quarantine rt pr api dq" "quarantined rt pr api dq" for rt pr api dq
  by unfold_locales (fact quarantine_durable, fact quarantine_keeps)

section \<open>Properties\<close>

definition mem_runtime :: "mem_store runtime" where
  "mem_runtime = \<lparr>rt_clock = (\<lambda>w. (0, w)), rt_sha = id, rt_fr = (\<lambda>q. []), rt_str = py_str (\<lambda>c. []), rt_replacement = CHR ''?''\<rparr>"

definition mem_producer :: "mem_store producer_api" where
  "mem_producer = \<lparr>prod_produce = (\<lambda>t v k w. (Inr (), w)), prod_flush = (\<lambda>w. (Inr (0, [None]), w))\<rparr>"

lemma mem_dlq_contract: "dlq_contract mem_runtime mem_producer mem_delta snd"
  using mem_delta_contract by (auto simp: dlq_contract_def mem_runtime_def mem_producer_def)

definition sample_queue :: dead_letter_queue where
  "sample_queue = \<lparr>dq_topic = ''maritime.dlq'', dq_table_uri = ''s3://b/q'', dq_consumer_group = ''g''\<rparr>"

text \<open>
  Claim C31.  Quarantine is fail-closed: when it returns, the record was produced to the dead-letter
  topic under its identifier, the broker confirmed every message of the flush, and the quarantine table holds a row
  with that identifier; and when the flush leaves messages unconfirmed or reports an error, it raises a
  \<open>DeadLetterError\<close>, which the consumer does not treat as a poison message, with all tables as they were.
\<close>

theorem quarantine_fail_closed:
  assumes "dlq_contract rt pr api content"
    and "quarantine rt pr api dq value t p i reason detail w = (x, w')"
  shows "(x = Inr () \<longrightarrow>
       (\<exists>now w1 w2 w3 outcomes. rt_clock rt w = (now, w1) \<and>
          prod_produce pr (dq_topic dq)
            (dumps_compact (rt_fr rt) False (JObj (build_dlq_record rt now value t p i reason detail (dq_consumer_group dq))))
            (dlq_event_id (rt_sha rt) t p i reason) w1 = (Inr (), w2) \<and>
          prod_flush pr w2 = (Inr (0, outcomes), w3) \<and> delivery_errors outcomes = []) \<and>
       holds_event api content (dq_table_uri dq) (dlq_event_id (rt_sha rt) t p i reason) w') \<and>
    (\<forall>now w1 w2 w3 remaining outcomes. rt_clock rt w = (now, w1) \<and>
       prod_produce pr (dq_topic dq)
         (dumps_compact (rt_fr rt) False (JObj (build_dlq_record rt now value t p i reason detail (dq_consumer_group dq))))
         (dlq_event_id (rt_sha rt) t p i reason) w1 = (Inr (), w2) \<and>
       prod_flush pr w2 = (Inr (remaining, outcomes), w3) \<and> (remaining \<noteq> 0 \<or> delivery_errors outcomes \<noteq> []) \<longrightarrow>
       (\<exists>e. x = Inl e \<and> exn_class e = DeadLetterError \<and> \<not> is_value_error (exn_class e)) \<and>
       (\<forall>uri. api_open api uri w' = api_open api uri w))"
proof (intro conjI impI allI)
  assume "x = Inr ()"
  with quarantine_steps [OF assms] show "\<exists>now w1 w2 w3 outcomes. rt_clock rt w = (now, w1) \<and>
          prod_produce pr (dq_topic dq)
            (dumps_compact (rt_fr rt) False (JObj (build_dlq_record rt now value t p i reason detail (dq_consumer_group dq))))
            (dlq_event_id (rt_sha rt) t p i reason) w1 = (Inr (), w2) \<and>
          prod_flush pr w2 = (Inr (0, outcomes), w3) \<and> delivery_errors outcomes = []" by blast
  from \<open>x = Inr ()\<close> quarantine_holds [OF assms]
  show "holds_event api content (dq_table_uri dq) (dlq_event_id (rt_sha rt) t p i reason) w'" by blast
next
  fix now w1 w2 w3 remaining outcomes
  assume a: "rt_clock rt w = (now, w1) \<and>
       prod_produce pr (dq_topic dq)
         (dumps_compact (rt_fr rt) False (JObj (build_dlq_record rt now value t p i reason detail (dq_consumer_group dq))))
         (dlq_event_id (rt_sha rt) t p i reason) w1 = (Inr (), w2) \<and>
       prod_flush pr w2 = (Inr (remaining, outcomes), w3) \<and> (remaining \<noteq> 0 \<or> delivery_errors outcomes \<noteq> [])"
  then have n: "(remaining = 0 \<and> delivery_errors outcomes = []) = False" by blast
  from a have clk: "read_clock rt w = (Inr now, w1)" by (simp add: read_clock_def)
  from a have send: "prod_produce pr (dq_topic dq)
         (dumps_compact (rt_fr rt) False (JObj (build_dlq_record rt now value t p i reason detail (dq_consumer_group dq))))
         (dlq_event_id (rt_sha rt) t p i reason) w1 = (Inr (), w2)"
    and flush: "prod_flush pr w2 = (Inr (remaining, outcomes), w3)" by blast+
  have "quarantine rt pr api dq value t p i reason detail w =
      (Inl (Exn DeadLetterError ''DLQ produce was not confirmed; halting without commit''), w3)"
    by (simp only: quarantine_def Let_def bindA_step clk send flush prod.case n guard_False bindA_raise)
       (simp add: pureA_def raise_def)
  with assms(2) have x: "w' = w3 \<and> (\<exists>e. x = Inl e \<and> exn_class e = DeadLetterError)" by auto
  then show "\<exists>e. x = Inl e \<and> exn_class e = DeadLetterError \<and> \<not> is_value_error (exn_class e)" by auto
  show "api_open api uri w' = api_open api uri w" for uri
    using x a dlq_contractD(3-5) [OF assms(1)] by (metis snd_conv)
qed

lemma quarantine_fail_closed_witness:
  "\<exists>w'. quarantine mem_runtime mem_producer mem_delta sample_queue (Some ''{'') ''maritime.x'' 0 7 ''malformed-envelope'' ''bad'' [] =
     (Inr (), w') \<and> holds_event mem_delta snd ''s3://b/q'' ''maritime.x/0/7/malformed-envelope'' w'"
proof -
  have "is_ok (fst (quarantine mem_runtime mem_producer mem_delta sample_queue (Some ''{'') ''maritime.x'' 0 7 ''malformed-envelope'' ''bad'' []))"
    by code_simp
  from ok_run [OF this] obtain w' where q: "quarantine mem_runtime mem_producer mem_delta sample_queue (Some ''{'') ''maritime.x'' 0 7
      ''malformed-envelope'' ''bad'' [] = (Inr (), w')"
    by auto
  have id: "dlq_event_id (rt_sha mem_runtime) ''maritime.x'' 0 7 ''malformed-envelope'' = ''maritime.x/0/7/malformed-envelope''"
    by code_simp
  have "holds_event mem_delta snd (dq_table_uri sample_queue) (dlq_event_id (rt_sha mem_runtime) ''maritime.x'' 0 7 ''malformed-envelope'') w'"
    by (rule quarantine_fail_closed [OF mem_dlq_contract q, THEN conjunct1, THEN mp, OF refl, THEN conjunct2])
  moreover have "dq_table_uri sample_queue = ''s3://b/q''" by (simp add: sample_queue_def)
  ultimately show ?thesis using q unfolding id by (intro exI [of _ w']) (simp only: simp_thms)
qed

text \<open>
  The quarantine record preserves the message: its payload field decodes to the bytes that were
  received (up to the size limit) and its detail is the error text (up to its limit); and records with equal identifiers have
  equal coordinates and reasons, unless the digest collides on the two identifier materials.
\<close>

theorem dlq_record_preserves:
  assumes "rec = build_dlq_record rt now (Some v) t p i reason detail g" "int (length v) \<le> MAX_LINE_BYTES"
    and "int (utf8_len detail) \<le> MAX_DLQ_DETAIL_BYTES"
    and "rec' = build_dlq_record rt now' v' t' p' i' reason' detail' g'" "CHR ''/'' \<notin> set reason" "CHR ''/'' \<notin> set reason'"
    and "rt_sha rt (t @ ''/'' @ int_str p @ ''/'' @ int_str i @ ''/'' @ reason) =
        rt_sha rt (t' @ ''/'' @ int_str p' @ ''/'' @ int_str i' @ ''/'' @ reason') \<longrightarrow>
      t @ ''/'' @ int_str p @ ''/'' @ int_str i @ ''/'' @ reason = t' @ ''/'' @ int_str p' @ ''/'' @ int_str i' @ ''/'' @ reason'"
  shows "(\<exists>s. jget rec ''message_value_base64'' = JStr s \<and> b64decode s = v) \<and>
    jget rec ''error_detail'' = JStr detail \<and>
    (jget rec ''dlq_event_id'' = jget rec' ''dlq_event_id'' \<longrightarrow> t = t' \<and> p = p' \<and> i = i' \<and> reason = reason')"
proof (intro conjI impI)
  from assms(1,2) show "\<exists>s. jget rec ''message_value_base64'' = JStr s \<and> b64decode s = v"
    by (simp add: build_dlq_record_def bounded_raw_def Let_def b64_roundtrip)
  from assms(1,3) show "jget rec ''error_detail'' = JStr detail"
    by (simp add: build_dlq_record_def bounded_detail_def Let_def utf8_encode_length utf8_prefix_roundtrip)
  assume "jget rec ''dlq_event_id'' = jget rec' ''dlq_event_id''"
  with assms(1,4,7) have "dedup_material \<lparr>meta_topic = t, meta_partition = p, meta_offset = i\<rparr> reason =
      dedup_material \<lparr>meta_topic = t', meta_partition = p', meta_offset = i'\<rparr> reason'"
    by (simp add: build_dlq_record_def Let_def dlq_event_id_def dedup_material_def)
  then have "\<lparr>meta_topic = t, meta_partition = p, meta_offset = i\<rparr> = \<lparr>meta_topic = t', meta_partition = p', meta_offset = i'\<rparr> \<and> reason = reason'"
    by (simp only: dedup_material_inject [OF assms(5,6)])
  then show "t = t'" "p = p'" "i = i'" "reason = reason'" by simp_all
qed

lemma dlq_record_preserves_witness:
  "\<exists>s. jget (build_dlq_record mem_runtime 0 (Some ''{'') ''t'' 0 7 ''malformed-envelope'' ''bad'' ''g'') ''message_value_base64'' = JStr s \<and>
     b64decode s = ''{''"
  by (rule dlq_record_preserves [where detail = "''bad''" and reason = "''malformed-envelope''" and reason' = "''malformed-envelope''"
        and t = "''t''" and t' = "''t''" and p = 0 and p' = 0 and i = 7 and i' = 7, OF refl _ _ refl, THEN conjunct1])
     (simp_all add: MAX_LINE_BYTES_def MAX_DLQ_DETAIL_BYTES_def utf8_len_def code_def)

end
