(* ===== verification/Kafka_Ingest.thy ===== *)
theory Kafka_Ingest
  imports Dlq
begin

text \<open>
  \<open>kafka_ingest.py\<close>: the governed consumer.  Messages are decoded, rejected ones go to the dead-letter
  queue, the accepted events are appended to the scope's table, and only then are the offsets committed.
  The Kafka consumer, the schema validator, \<open>json.loads\<close>, the file system and the signature verifier are
  arguments.  The polling loop need not end, so it is a partial function: \<open>None\<close> stands for a run that never returns.
\<close>

section \<open>Transport\<close>

record kafka_arguments =
  arg_bootstrap :: string
  arg_topic :: string
  arg_group_id :: string
  arg_security_protocol :: string
  arg_ssl_ca :: "string option"
  arg_sasl_mechanism :: "string option"
  arg_allow_insecure :: bool
  arg_max_messages :: int
  arg_idle_timeout :: pyfloat
  arg_scope :: string
  arg_table_uri :: string
  arg_dlq_topic :: string
  arg_dlq_table_uri :: string
  arg_schema :: string
  arg_report :: string

definition topic_pattern :: "string \<Rightarrow> bool" where
  "topic_pattern s =
     (case s of [] \<Rightarrow> False
      | c # cs \<Rightarrow> is_alnum c \<and> length cs \<le> 248 \<and> list_all (\<lambda>x. is_alnum x \<or> x \<in> set ''._-'') cs)"

definition local_bootstrap :: "string \<Rightarrow> bool" where
  "local_bootstrap s =
     list_ex (\<lambda>h. prefix (h @ '':'') s \<and>
        (let port = drop (length h + 1) s in 1 \<le> length port \<and> length port \<le> 5 \<and> list_all is_digit port))
       [''localhost'', ''127.0.0.1'', ''[::1]'']"

definition MAX_MESSAGES_PER_RUN :: int where "MAX_MESSAGES_PER_RUN = 100000"

text \<open>The double nearest to 0.1.\<close>

definition tenth :: pyfloat where "tenth = PFin (3602879701896397 / 36028797018963968)"

definition base_configuration :: "kafka_arguments \<Rightarrow> row" where
  "base_configuration a =
     [(''bootstrap.servers'', CText (arg_bootstrap a)),
      (''group.id'', CText (arg_group_id a)),
      (''security.protocol'', CText (arg_security_protocol a)),
      (''enable.auto.commit'', CBool False),
      (''enable.auto.offset.store'', CBool False),
      (''auto.offset.reset'', CText ''earliest''),
      (''allow.auto.create.topics'', CBool False),
      (''client.id'', CText ''blueeconomy-data-platform'')]"

definition transport_security :: "(string \<Rightarrow> bool) \<Rightarrow> kafka_arguments \<Rightarrow> row \<Rightarrow> row res" where
  "transport_security regular_file a configuration =
     (if arg_security_protocol a = ''PLAINTEXT''
      then bindR (guard (arg_allow_insecure a \<and> list_all local_bootstrap (map strip (split_on (CHR '','') (arg_bootstrap a)))) ValueError
                    ''PLAINTEXT is restricted to explicit localhost integration runs'') (\<lambda>_. Inr configuration)
      else
        bindR (guard (\<not> arg_allow_insecure a) ValueError
                 ''allow_insecure_localhost cannot be used with encrypted transport'') (\<lambda>_.
        bindR (require_some (arg_ssl_ca a) ValueError ''ssl_ca_location is required for SSL and SASL_SSL'') (\<lambda>ca.
        bindR (guard (regular_file ca) ValueError ''ssl_ca_location must be a regular non-symlink file'') (\<lambda>_.
        Inr (AList.update ''ssl.ca.location'' (CText (posix_path_str ca)) configuration)))))"

definition transport_sasl :: "environ \<Rightarrow> kafka_arguments \<Rightarrow> row \<Rightarrow> row res" where
  "transport_sasl env a configuration =
     (if arg_security_protocol a = ''SASL_SSL''
      then
        bindR (require_some (arg_sasl_mechanism a) ValueError ''sasl_mechanism is required for SASL_SSL'') (\<lambda>mechanism.
        let username = env_get env ''BLUEECONOMY_KAFKA_SASL_USERNAME'';
            password = env_get env ''BLUEECONOMY_KAFKA_SASL_PASSWORD''
        in bindR (guard (username \<noteq> [] \<and> password \<noteq> []) ValueError
                    ''Kafka SASL credentials must be supplied through environment variables'') (\<lambda>_.
           Inr (AList.update ''sasl.password'' (CText password)
                 (AList.update ''sasl.username'' (CText username)
                   (AList.update ''sasl.mechanism'' (CText mechanism) configuration)))))
      else bindR (guard (arg_sasl_mechanism a = None) ValueError ''sasl_mechanism is only valid with SASL_SSL'')
             (\<lambda>_. Inr configuration))"

text \<open>\<open>regular_file\<close> is \<open>is_file() and not is_symlink()\<close>.\<close>

definition validate_transport :: "environ \<Rightarrow> (string \<Rightarrow> bool) \<Rightarrow> kafka_arguments \<Rightarrow> row res" where
  "validate_transport env regular_file a =
     bindR (require_canonical_text (JStr (arg_bootstrap a)) 2048) (\<lambda>bootstrap.
     bindR (require_canonical_text (JStr (arg_topic a)) 249) (\<lambda>topic.
     bindR (require_canonical_text (JStr (arg_group_id a)) 255) (\<lambda>group_id.
     bindR (guard (topic_pattern topic) ValueError ''topic is not a valid Kafka topic name'') (\<lambda>_.
     bindR (guard (1 \<le> arg_max_messages a \<and> arg_max_messages a \<le> MAX_MESSAGES_PER_RUN) ValueError
              ''max_messages must be between 1 and the maximum'') (\<lambda>_.
     bindR (guard (fl_le tenth (arg_idle_timeout a) \<and> fl_le (arg_idle_timeout a) (PFin 300)) ValueError
              ''idle_timeout_seconds must be between 0.1 and 300 seconds'') (\<lambda>_.
     bindR (transport_security regular_file a (base_configuration a)) (\<lambda>configuration.
     transport_sasl env a configuration)))))))"

definition dlq_producer_configuration :: "row \<Rightarrow> row" where
  "dlq_producer_configuration consumer_configuration =
     AList.update ''acks'' (CText ''all'')
       (AList.update ''client.id'' (CText ''blueeconomy-data-platform-dlq'')
         (filter (\<lambda>(k, v). \<not> list_ex (\<lambda>p. prefix p k) [''group.'', ''enable.auto'', ''auto.offset'', ''allow.auto'', ''client.''])
            consumer_configuration))"

section \<open>Decoding\<close>

record decoder =
  dec_utf8 :: "string \<Rightarrow> string option"
  dec_loads :: "string \<Rightarrow> json res"
  dec_loads_float :: "string \<Rightarrow> json res"
  dec_errors :: "json \<Rightarrow> string list"

text \<open>The checks before the signature: the document, and the view of it whose integers were read as floats.\<close>

definition parse_message :: "decoder \<Rightarrow> string option \<Rightarrow> (jobject \<times> json) res" where
  "parse_message d value =
     bindR (require_some value ValueError ''Kafka message value is missing'') (\<lambda>v.
     bindR (guard (v \<noteq> [] \<and> int (length v) \<le> MAX_LINE_BYTES) ValueError ''Kafka message value is empty or too long'') (\<lambda>_.
     bindR (require_some (dec_utf8 d v) ValueError ''Kafka message value is not valid UTF-8'') (\<lambda>text.
     bindR (dec_loads d text) (\<lambda>document.
     bindR (require_some (json_obj document) ValueError ''Kafka message value must be a JSON object'') (\<lambda>obj.
     bindR (guard (dec_errors d document = []) ValueError
              (''Kafka event fails event-envelope validation: '' @ join_with ''; '' (dec_errors d document))) (\<lambda>_.
     bindR (dec_loads_float d text) (\<lambda>signed_view. Inr (obj, signed_view))))))))"

definition decode_document :: "decoder \<Rightarrow> (json \<Rightarrow> ('w, unit) act) \<Rightarrow> string option \<Rightarrow> ('w, jobject) act" where
  "decode_document d verify value =
     bindA (pureA (parse_message d value)) (\<lambda>(obj, signed_view).
     bindA (verify signed_view) (\<lambda>_. pureA (Inr obj)))"

definition decode_event :: "'w runtime \<Rightarrow> decoder \<Rightarrow> (json \<Rightarrow> ('w, unit) act) \<Rightarrow> string option \<Rightarrow> ('w, row) act" where
  "decode_event rt d verify value =
     bindA (decode_document d verify value) (\<lambda>document.
     bindA (pureA (map_canonical_envelope document)) (\<lambda>event.
     bindA (read_clock rt) (\<lambda>now. pureA (normalize_event (rt_fr rt) now event))))"

section \<open>Collecting a batch\<close>

datatype kafka_error = PARTITION_EOF | BrokerError string

record kafka_message =
  msg_value :: "string option"
  msg_topic :: "string option"
  msg_partition :: "int option"
  msg_offset :: "int option"
  msg_error :: "kafka_error option"

record topic_partition =
  tp_topic :: string
  tp_partition :: int
  tp_offset :: int
  tp_error :: "string option"

text \<open>The consumer, and the monotonic clock of the loop.  \<open>commit\<close> returns the confirmed offsets.\<close>

record 'w consumer_api =
  con_monotonic :: "'w \<Rightarrow> rat \<times> 'w"
  con_poll :: "rat \<Rightarrow> 'w \<Rightarrow> kafka_message option res \<times> 'w"
  con_commit :: "kafka_message \<Rightarrow> 'w \<Rightarrow> topic_partition list res \<times> 'w"

type_synonym 'w sink = "string option \<Rightarrow> string \<Rightarrow> int \<Rightarrow> int \<Rightarrow> string \<Rightarrow> string \<Rightarrow> ('w, unit) act"

record collected =
  col_events :: "row list"
  col_messages :: "kafka_message list"
  col_ids :: "cell list"
  col_reasons :: "(string \<times> int) list"

text \<open>The \<open>try\<close> block: decode, and refuse an event identifier that the batch already has.\<close>

definition decode_new :: "(string option \<Rightarrow> ('w, row) act) \<Rightarrow> collected \<Rightarrow> kafka_message \<Rightarrow> ('w, row \<times> cell) act" where
  "decode_new decode st m =
     bindA (decode (msg_value m)) (\<lambda>event.
     bindA (pureA (row_item event ''event_id'')) (\<lambda>event_id.
     bindA (pureA (guard (event_id \<notin> set (col_ids st)) ValueError ''Kafka batch repeats event_id'')) (\<lambda>_.
     pureA (Inr (event, event_id)))))"

definition dlq_reason :: "exn \<Rightarrow> string" where
  "dlq_reason e = (if sublist ''repeats event_id'' (exn_msg e) then REASON_DUPLICATE_EVENT_ID else reason_for_error e)"

text \<open>The \<open>except ValueError\<close> block.\<close>

definition quarantine_message :: "'w sink \<Rightarrow> collected \<Rightarrow> kafka_message \<Rightarrow> exn \<Rightarrow> ('w, collected) act" where
  "quarantine_message sink st m e =
     (case (msg_topic m, msg_partition m, msg_offset m) of
        (Some t, Some p, Some i) \<Rightarrow>
          bindA (sink (msg_value m) t p i (dlq_reason e) (exn_msg e)) (\<lambda>_.
          pureA (Inr (st\<lparr>col_messages := col_messages st @ [m],
            col_reasons := AList.update (dlq_reason e)
              ((case map_of (col_reasons st) (dlq_reason e) of None \<Rightarrow> 0 | Some n \<Rightarrow> n) + 1) (col_reasons st)\<rparr>)))
      | _ \<Rightarrow> pureA (raise ValueError ''poison Kafka message did not contain topic, partition and offset''))"

definition take_message :: "(string option \<Rightarrow> ('w, row) act) \<Rightarrow> 'w sink \<Rightarrow> collected \<Rightarrow> kafka_message \<Rightarrow> ('w, collected) act" where
  "take_message decode sink st m w =
     (case decode_new decode st m w of
        (Inl e, w') \<Rightarrow> if is_value_error (exn_class e) then quarantine_message sink st m e w' else (Inl e, w')
      | (Inr (event, event_id), w') \<Rightarrow>
          (Inr (st\<lparr>col_ids := event_id # col_ids st, col_events := col_events st @ [event],
             col_messages := col_messages st @ [m]\<rparr>), w'))"

text \<open>One step of the loop: the end, an idle poll, or a message taken and the deadline moved.\<close>

datatype 'w loop_step = Finished "collected res" 'w | Again collected rat 'w

definition loop_step :: "'w consumer_api \<Rightarrow> (string option \<Rightarrow> ('w, row) act) \<Rightarrow> 'w sink \<Rightarrow> int \<Rightarrow> rat \<Rightarrow>
    collected \<Rightarrow> rat \<Rightarrow> 'w \<Rightarrow> 'w loop_step" where
  "loop_step con decode sink maximum idle st deadline w =
     (if \<not> int (length (col_messages st)) < maximum then Finished (Inr st) w
      else
        (case con_monotonic con w of (now, w1) \<Rightarrow>
           if deadline - now \<le> 0 then Finished (Inr st) w1
           else
             (case con_poll con (min 1 (deadline - now)) w1 of
                (Inl e, w2) \<Rightarrow> Finished (Inl e) w2
              | (Inr None, w2) \<Rightarrow> Again st deadline w2
              | (Inr (Some m), w2) \<Rightarrow>
                  (case msg_error m of
                     Some PARTITION_EOF \<Rightarrow> Again st deadline w2
                   | Some (BrokerError s) \<Rightarrow> Finished (raise KafkaException s) w2
                   | None \<Rightarrow>
                       (case take_message decode sink st m w2 of
                          (Inl e, w3) \<Rightarrow> Finished (Inl e) w3
                        | (Inr st', w3) \<Rightarrow>
                            (case con_monotonic con w3 of (now', w4) \<Rightarrow> Again st' (now' + idle) w4))))))"

partial_function (option) collect_loop :: "'w consumer_api \<Rightarrow> (string option \<Rightarrow> ('w, row) act) \<Rightarrow> 'w sink \<Rightarrow> int \<Rightarrow> rat \<Rightarrow>
    collected \<Rightarrow> rat \<Rightarrow> 'w \<Rightarrow> (collected res \<times> 'w) option" where
  "collect_loop con decode sink maximum idle st deadline w =
     (case loop_step con decode sink maximum idle st deadline w of
        Finished r w' \<Rightarrow> Some (r, w')
      | Again st' deadline' w' \<Rightarrow> collect_loop con decode sink maximum idle st' deadline' w')"

definition collect_messages :: "'w consumer_api \<Rightarrow> (string option \<Rightarrow> ('w, row) act) \<Rightarrow> 'w sink \<Rightarrow> int \<Rightarrow> rat \<Rightarrow> 'w \<Rightarrow>
    (collected res \<times> 'w) option" where
  "collect_messages con decode sink maximum idle w =
     (case con_monotonic con w of (now, w1) \<Rightarrow>
        map_option (\<lambda>(r, w'). (bindR r (\<lambda>st. bindR (guard (col_messages st \<noteq> []) ValueError
              ''no Kafka messages were received before the idle timeout'') (\<lambda>_. Inr st)), w'))
          (collect_loop con decode sink maximum idle
             \<lparr>col_events = [], col_messages = [], col_ids = [], col_reasons = []\<rparr> (now + idle) w1))"

section \<open>Committing\<close>

definition enforce_record_classification :: "row list \<Rightarrow> lakehouse_scope \<Rightarrow> unit res" where
  "enforce_record_classification events scope =
     (if scope \<noteq> ISR then Inr ()
      else guard (list_all (\<lambda>e. cell_text (row_get e ''record_classification'') \<noteq> None) events) ValueError
             ''isr scope record is missing its record_classification label'')"

definition latest_step :: "((string \<times> int) \<times> kafka_message) list \<Rightarrow> kafka_message \<Rightarrow> ((string \<times> int) \<times> kafka_message) list res" where
  "latest_step latest m =
     (case (msg_topic m, msg_partition m) of
        (Some t, Some p) \<Rightarrow> Inr (AList.update (t, p) m latest)
      | _ \<Rightarrow> raise RuntimeError ''Kafka message did not contain a topic and partition'')"

definition commit_one :: "'w consumer_api \<Rightarrow> (string \<times> int) \<times> kafka_message \<Rightarrow> ('w, int) act" where
  "commit_one con entry =
     (case entry of ((t, p), m) \<Rightarrow>
        bindA (con_commit con m) (\<lambda>committed.
        bindA (pureA (guard (committed \<noteq> []) RuntimeError ''Kafka did not return a committed offset'')) (\<lambda>_.
        bindA (pureA (require_some (msg_offset m) RuntimeError ''Kafka message did not contain an offset'')) (\<lambda>offs.
        let matching = filter (\<lambda>o'. tp_topic o' = t \<and> tp_partition o' = p) committed
        in bindA (pureA (guard (length matching = 1 \<and> tp_error (hd matching) = None \<and> tp_offset (hd matching) = offs + 1)
                    RuntimeError ''Kafka offset commit was not confirmed'')) (\<lambda>_.
           pureA (Inr (offs + 1)))))))"

fun commit_all :: "'w consumer_api \<Rightarrow> ((string \<times> int) \<times> kafka_message) list \<Rightarrow> (string \<times> int) list \<Rightarrow>
    ('w, (string \<times> int) list) act" where
  "commit_all con [] offsets = pureA (Inr offsets)"
| "commit_all con (entry # rest) offsets =
     bindA (commit_one con entry) (\<lambda>expected.
     commit_all con rest (AList.update (fst (fst entry) @ '':'' @ int_str (snd (fst entry))) expected offsets))"

definition commit_messages :: "'w consumer_api \<Rightarrow> kafka_message list \<Rightarrow> ('w, (string \<times> int) list) act" where
  "commit_messages con messages =
     bindA (pureA (foldR latest_step [] messages)) (\<lambda>latest. commit_all con (sort_key fst latest) [])"

section \<open>The run\<close>

record ingestion_report =
  rep_schema_version :: string
  rep_started_at :: string
  rep_completed_at :: string
  rep_bootstrap_sha256 :: string
  rep_group_sha256 :: string
  rep_topic :: string
  rep_scope :: string
  rep_received :: int
  rep_written :: int
  rep_present :: int
  rep_dlq_topic :: string
  rep_quarantined :: int
  rep_reasons :: "(string \<times> int) list"
  rep_table_sha256 :: string
  rep_table_version :: int
  rep_offsets :: "(string \<times> int) list"
  rep_sources :: "string list"
  rep_classifications :: "string list"

text \<open>The checks before anything is consumed; \<open>resolve\<close> is \<open>Path.resolve\<close>.\<close>

definition check_run :: "environ \<Rightarrow> (string \<Rightarrow> bool) \<Rightarrow> (string \<Rightarrow> string) \<Rightarrow> kafka_arguments \<Rightarrow> (lakehouse_scope \<times> row) res" where
  "check_run env regular_file resolve a =
     bindR (guard (resolve (arg_schema a) \<noteq> resolve (arg_report a)) ValueError ''report path must not overwrite the schema file'') (\<lambda>_.
     bindR (lakehouse_scope_of (arg_scope a)) (\<lambda>scope.
     bindR (enforce_topic_scope (arg_topic a) scope) (\<lambda>_.
     bindR (require_scope_table_uri scope (arg_table_uri a)) (\<lambda>_.
     bindR (require_canonical_text (JStr (arg_dlq_topic a)) 249) (\<lambda>dlq_topic.
     bindR (guard (topic_pattern dlq_topic) ValueError ''dlq_topic is not a valid Kafka topic name'') (\<lambda>_.
     bindR (guard (dlq_topic \<noteq> arg_topic a) ValueError ''dlq_topic must differ from the consumed topic'') (\<lambda>_.
     bindR (enforce_topic_scope dlq_topic scope) (\<lambda>_.
     bindR (require_scope_table_uri scope (arg_dlq_table_uri a)) (\<lambda>_.
     bindR (validate_transport env regular_file a) (\<lambda>configuration.
     Inr (scope, configuration)))))))))))"

text \<open>An all-poison batch leaves the table untouched and reports version -1.\<close>

definition store_batch :: "('w, 't) delta_api \<Rightarrow> (cell \<Rightarrow> string) \<Rightarrow> string \<Rightarrow> lakehouse_scope \<Rightarrow> row list \<Rightarrow> ('w, int \<times> int \<times> int) act" where
  "store_batch api ps uri scope events =
     bindA (pureA (enforce_event_scope events scope)) (\<lambda>_.
     bindA (pureA (enforce_record_classification events scope)) (\<lambda>_.
     if events \<noteq> [] then append_events api ps uri events None else pureA (Inr (- 1, 0, 0))))"

definition make_report :: "'w runtime \<Rightarrow> kafka_arguments \<Rightarrow> lakehouse_scope \<Rightarrow> int \<Rightarrow> int \<Rightarrow> collected \<Rightarrow> int \<times> int \<times> int \<Rightarrow>
    (string \<times> int) list \<Rightarrow> ingestion_report res" where
  "make_report rt a scope started completed batch counts offsets =
     (case counts of (version, written, present) \<Rightarrow>
        bindR (mapR (row_key (rt_str rt) ''source_system'') (col_events batch)) (\<lambda>sources.
        bindR (mapR (\<lambda>e. bindR (row_item e ''data_classification'') (\<lambda>c. require_some (cell_text c) TypeError ''data_classification''))
                (col_events batch)) (\<lambda>labels.
        Inr \<lparr>rep_schema_version = ''blueeconomy.lakehouse.kafka-ingestion-report.v2'',
          rep_started_at = isoformat started, rep_completed_at = isoformat completed,
          rep_bootstrap_sha256 = rt_sha rt (arg_bootstrap a), rep_group_sha256 = rt_sha rt (arg_group_id a),
          rep_topic = arg_topic a, rep_scope = scope_value scope,
          rep_received = int (length (col_messages batch)), rep_written = written, rep_present = present,
          rep_dlq_topic = arg_dlq_topic a, rep_quarantined = sum_list (map snd (col_reasons batch)),
          rep_reasons = sort_key fst (col_reasons batch), rep_table_sha256 = rt_sha rt (arg_table_uri a),
          rep_table_version = version, rep_offsets = offsets,
          rep_sources = sort (remdups sources), rep_classifications = sort (remdups labels)\<rparr>)))"

definition dead_letters :: "kafka_arguments \<Rightarrow> dead_letter_queue" where
  "dead_letters a = \<lparr>dq_topic = arg_dlq_topic a, dq_table_uri = arg_dlq_table_uri a, dq_consumer_group = arg_group_id a\<rparr>"

definition idle_seconds :: "kafka_arguments \<Rightarrow> rat" where
  "idle_seconds a = (case arg_idle_timeout a of PFin q \<Rightarrow> q | _ \<Rightarrow> 0)"

definition finish_run :: "'w runtime \<Rightarrow> 'w consumer_api \<Rightarrow> ('w, 't) delta_api \<Rightarrow> kafka_arguments \<Rightarrow> lakehouse_scope \<Rightarrow> int \<Rightarrow>
    collected \<Rightarrow> ('w, ingestion_report) act" where
  "finish_run rt con api a scope started batch =
     bindA (store_batch api (rt_str rt) (arg_table_uri a) scope (col_events batch)) (\<lambda>counts.
     bindA (commit_messages con (col_messages batch)) (\<lambda>offsets.
     bindA (read_clock rt) (\<lambda>completed. pureA (make_report rt a scope started completed batch counts offsets))))"

text \<open>The consumer and the producer are made from the configurations they are given.\<close>

definition run_ingest :: "'w runtime \<Rightarrow> (row \<Rightarrow> 'w consumer_api) \<Rightarrow> (row \<Rightarrow> 'w producer_api) \<Rightarrow> ('w, 't) delta_api \<Rightarrow> decoder \<Rightarrow>
    (json \<Rightarrow> ('w, unit) act) \<Rightarrow> environ \<Rightarrow> (string \<Rightarrow> bool) \<Rightarrow> (string \<Rightarrow> string) \<Rightarrow> kafka_arguments \<Rightarrow> 'w \<Rightarrow>
    (ingestion_report res \<times> 'w) option" where
  "run_ingest rt consumer producer api d verify env regular_file resolve a w =
     (case rt_clock rt w of (started, w0) \<Rightarrow>
        (case check_run env regular_file resolve a of
           Inl e \<Rightarrow> Some (Inl e, w0)
         | Inr (scope, configuration) \<Rightarrow>
             (case collect_messages (consumer configuration) (decode_event rt d verify)
                     (quarantine rt (producer (dlq_producer_configuration configuration)) api (dead_letters a))
                     (arg_max_messages a) (idle_seconds a) w0 of
                None \<Rightarrow> None
              | Some (Inl e, w1) \<Rightarrow> Some (Inl e, w1)
              | Some (Inr batch, w1) \<Rightarrow> Some (finish_run rt (consumer configuration) api a scope started batch w1))))"

section \<open>The loop\<close>

lemma collect_loop_rule:
  assumes "collect_loop con decode sink maximum idle st deadline w = Some (r, w')" and "I st w"
    and "\<And>st d w st' d' w'. I st w \<Longrightarrow> loop_step con decode sink maximum idle st d w = Again st' d' w' \<Longrightarrow> I st' w'"
    and "\<And>st d w r w'. I st w \<Longrightarrow> loop_step con decode sink maximum idle st d w = Finished r w' \<Longrightarrow> Q r w'"
  shows "Q r w'"
proof -
  let ?P = "\<lambda>c de si mx ti st (d :: rat) w x. c = con \<and> de = decode \<and> si = sink \<and> mx = maximum \<and> ti = idle \<and> I st w \<longrightarrow> Q (fst x) (snd x)"
  have "?P con decode sink maximum idle st deadline w (r, w')"
  proof (rule collect_loop.raw_induct [OF _ assms(1), where P = ?P])
    fix f c de si mx ti st d w x
    assume ih: "\<And>c de si mx ti st d w x. f c de si mx ti st d w = Some x \<Longrightarrow> ?P c de si mx ti st d w x"
      and e: "(case loop_step c de si mx ti st d w of
        Finished r w' \<Rightarrow> Some (r, w') | Again st' deadline' w' \<Rightarrow> f c de si mx ti st' deadline' w') = Some x"
    show "?P c de si mx ti st d w x"
    proof
      assume a: "c = con \<and> de = decode \<and> si = sink \<and> mx = maximum \<and> ti = idle \<and> I st w"
      then have i: "I st w" by blast
      show "Q (fst x) (snd x)"
      proof (cases "loop_step con decode sink maximum idle st d w")
        case (Finished r w')
        with a e assms(4) [OF i this] show ?thesis by auto
      next
        case (Again st' d' w')
        with a e have "f con decode sink maximum idle st' d' w' = Some x" by simp
        from ih [OF this] assms(3) [OF i Again] show ?thesis by simp
      qed
    qed
  qed
  with assms(2) show ?thesis by simp
qed

section \<open>What a collected batch accounts for\<close>

datatype outcome = Accepted row | Rejected string

definition accepted :: "outcome list \<Rightarrow> row list" where
  "accepted os = concat (map (\<lambda>x. case x of Accepted e \<Rightarrow> [e] | Rejected r \<Rightarrow> []) os)"

definition rejected :: "outcome list \<Rightarrow> string list" where
  "rejected os = concat (map (\<lambda>x. case x of Accepted e \<Rightarrow> [] | Rejected r \<Rightarrow> [r]) os)"

lemma outcome_lists [simp]:
  "accepted [] = []" "rejected [] = []"
  "accepted (os @ [Accepted e]) = accepted os @ [e]" "accepted (os @ [Rejected r]) = accepted os"
  "rejected (os @ [Accepted e]) = rejected os" "rejected (os @ [Rejected r]) = rejected os @ [r]"
  by (simp_all add: accepted_def rejected_def)

lemma outcome_lengths: "length (accepted os) + length (rejected os) = length os"
  by (induction os rule: rev_induct) (auto split: outcome.splits simp: accepted_def rejected_def)

text \<open>An accepted message was decoded to its event; a rejected one is durable in the dead-letter queue.\<close>

definition settled :: "(string \<Rightarrow> int \<Rightarrow> int \<Rightarrow> string \<Rightarrow> 'w \<Rightarrow> bool) \<Rightarrow> (string option \<Rightarrow> ('w, row) act) \<Rightarrow> 'w \<Rightarrow>
    kafka_message \<Rightarrow> outcome \<Rightarrow> bool" where
  "settled durable decode w m x =
     (case x of
        Accepted e \<Rightarrow> \<exists>w0 w1. decode (msg_value m) w0 = (Inr e, w1)
      | Rejected r \<Rightarrow> \<exists>t p i. msg_topic m = Some t \<and> msg_partition m = Some p \<and> msg_offset m = Some i \<and> durable t p i r w)"

definition accounts :: "(string \<Rightarrow> int \<Rightarrow> int \<Rightarrow> string \<Rightarrow> 'w \<Rightarrow> bool) \<Rightarrow> (string option \<Rightarrow> ('w, row) act) \<Rightarrow> collected \<Rightarrow> 'w \<Rightarrow> bool" where
  "accounts durable decode st w \<longleftrightarrow>
     (\<exists>os. list_all2 (settled durable decode w) (col_messages st) os \<and> col_events st = accepted os \<and>
        sum_list (map snd (col_reasons st)) = int (length (rejected os)) \<and> distinct (map fst (col_reasons st)) \<and>
        distinct (col_ids st) \<and> col_ids st = rev (map (\<lambda>e. row_get e ''event_id'') (accepted os)))"

lemma sum_update_count:
  assumes "distinct (map fst d)"
  shows "sum_list (map snd (AList.update k ((case map_of d k of None \<Rightarrow> 0 | Some n \<Rightarrow> n) + 1) d)) = sum_list (map snd d) + (1 :: int)"
  using assms by (induction d) (auto simp: map_of_eq_None_iff split: option.splits)

text \<open>Going from \<open>w\<close> to \<open>w'\<close> loses no durable record.\<close>

definition keeps :: "(string \<Rightarrow> int \<Rightarrow> int \<Rightarrow> string \<Rightarrow> 'w \<Rightarrow> bool) \<Rightarrow> 'w \<Rightarrow> 'w \<Rightarrow> bool" where
  "keeps durable w w' \<longleftrightarrow> (\<forall>t p i r. durable t p i r w \<longrightarrow> durable t p i r w')"

lemma keeps_trans: "keeps durable w w' \<Longrightarrow> keeps durable w' w'' \<Longrightarrow> keeps durable w w''"
  by (simp add: keeps_def)

lemma settled_mono:
  "keeps durable w w' \<Longrightarrow> settled durable decode w m x \<Longrightarrow> settled durable decode w' m x"
  unfolding settled_def keeps_def by (fastforce split: outcome.splits)

lemma accounts_mono:
  assumes "keeps durable w w'" "accounts durable decode st w"
  shows "accounts durable decode st w'"
proof -
  have s: "list_all2 (settled durable decode w) ms os \<Longrightarrow> list_all2 (settled durable decode w') ms os" for ms os
    by (erule list_all2_mono) (rule settled_mono [OF assms(1)])
  from assms(2) show ?thesis unfolding accounts_def using s by blast
qed

section \<open>Inversion of a step\<close>

inductive idle_poll :: "kafka_message option \<Rightarrow> bool" where
  nothing: "idle_poll None"
| eof: "msg_error m = Some PARTITION_EOF \<Longrightarrow> idle_poll (Some m)"

lemma loop_step_Again:
  assumes "loop_step con decode sink maximum idle st dl w = Again st' dl' w'"
  obtains (idle) now w1 y where "int (length (col_messages st)) < maximum" "con_monotonic con w = (now, w1)" "now < dl"
      "con_poll con (min 1 (dl - now)) w1 = (Inr y, w')" "idle_poll y" "st' = st" "dl' = dl"
  | (taken) now w1 m w2 w3 now' where "int (length (col_messages st)) < maximum" "con_monotonic con w = (now, w1)" "now < dl"
      "con_poll con (min 1 (dl - now)) w1 = (Inr (Some m), w2)" "msg_error m = None"
      "take_message decode sink st m w2 = (Inr st', w3)" "con_monotonic con w3 = (now', w')" "dl' = now' + idle"
proof -
  obtain now w1 where c: "con_monotonic con w = (now, w1)" by fastforce
  obtain x w2 where p: "con_poll con (min 1 (dl - now)) w1 = (x, w2)" by fastforce
  from assms c have l: "int (length (col_messages st)) < maximum" "now < dl"
    by (auto simp: loop_step_def split: if_splits)
  from assms c p l obtain y where y: "x = Inr y" by (cases x) (auto simp: loop_step_def)
  show thesis
  proof (cases y)
    case None
    with assms c p l y have "st' = st" "dl' = dl" "w2 = w'" by (simp_all add: loop_step_def)
    with p y show thesis using that(1) [OF l(1) c l(2) _ idle_poll.nothing] None by blast
  next
    case (Some m)
    show thesis
    proof (cases "msg_error m")
      case None
      obtain z w3 where z: "take_message decode sink st m w2 = (z, w3)" by fastforce
      obtain now' w4 where n: "con_monotonic con w3 = (now', w4)" by fastforce
      from assms c p l y Some None z obtain st2 where "z = Inr st2" by (cases z) (auto simp: loop_step_def)
      with assms c p l y Some None z n have "st2 = st'" "dl' = now' + idle" "w4 = w'" by (simp_all add: loop_step_def)
      with p y Some z n \<open>z = Inr st2\<close> show thesis using that(2) [OF l(1) c l(2) _ None] by blast
    next
      case e: (Some k)
      with assms c p l y Some have "k = PARTITION_EOF" by (cases k) (auto simp: loop_step_def)
      with assms c p l y Some e have "st' = st" "dl' = dl" "w2 = w'" by (simp_all add: loop_step_def)
      with p y Some e \<open>k = PARTITION_EOF\<close> show thesis using that(1) [OF l(1) c l(2) _ idle_poll.eof] by blast
    qed
  qed
qed

text \<open>How a loop ends: with the state it has reached, or with the exception of one of its calls.\<close>

lemma loop_step_Finished:
  assumes "loop_step con decode sink maximum idle st dl w = Finished (Inr st') w'"
  shows "st' = st \<and> (w' = w \<or> (\<exists>now. con_monotonic con w = (now, w')))"
proof -
  obtain now w1 where c: "con_monotonic con w = (now, w1)" by fastforce
  obtain x w2 where p: "con_poll con (min 1 (dl - now)) w1 = (x, w2)" by fastforce
  show ?thesis
  proof (cases "int (length (col_messages st)) < maximum \<and> now < dl")
    case False
    with assms c show ?thesis by (auto simp: loop_step_def split: if_splits)
  next
    case True
    have False
    proof (cases x)
      case (Inl e)
      with assms c p True show False by (simp add: loop_step_def)
    next
      case (Inr y)
      show False
      proof (cases y)
        case None
        with assms c p True Inr show False by (simp add: loop_step_def)
      next
        case (Some m)
        with assms c p True Inr show False
          by (simp add: loop_step_def split: option.splits kafka_error.splits prod.splits sum.splits)
      qed
    qed
    then show ?thesis ..
  qed
qed

text \<open>The loop over any sink that keeps its contract, and any consumer and decoder that lose no durable record.\<close>

locale message_loop = dead_letter_sink sink durable
  for sink :: "'w sink" and durable +
  fixes con :: "'w consumer_api" and decode :: "string option \<Rightarrow> ('w, row) act"
  assumes clock_keeps: "durable t p i r w \<Longrightarrow> durable t p i r (snd (con_monotonic con w))"
    and poll_keeps: "durable t p i r w \<Longrightarrow> durable t p i r (snd (con_poll con q w))"
    and decode_keeps: "durable t p i r w \<Longrightarrow> durable t p i r (snd (decode v w))"
begin

lemma clock_keeps': "con_monotonic con w = (now, w') \<Longrightarrow> keeps durable w w'"
  using clock_keeps [of _ _ _ _ w] by (simp add: keeps_def)

lemma poll_keeps': "con_poll con q w = (x, w') \<Longrightarrow> keeps durable w w'"
  using poll_keeps [of _ _ _ _ w q] by (simp add: keeps_def)

lemma sink_keeps': "sink v t p i r detail w = (x, w') \<Longrightarrow> keeps durable w w'"
  unfolding keeps_def by (intro allI impI) (rule sink_keeps)

lemma decode_new_keeps: "decode_new decode st m w = (x, w') \<Longrightarrow> keeps durable w w'"
  using decode_keeps [of _ _ _ _ w "msg_value m"]
  by (auto simp: keeps_def decode_new_def bindA_def pureA_def split: prod.splits sum.splits)

lemma decode_new_Inr:
  assumes "decode_new decode st m w = (Inr (e, k), w')"
  shows "\<exists>w1. decode (msg_value m) w = (Inr e, w1) \<and> k = row_get e ''event_id'' \<and> k \<notin> set (col_ids st)"
  using assms by (auto simp: decode_new_def bindA_Inr row_get_def)

lemma quarantine_message_accounts:
  assumes "accounts durable decode st w" "quarantine_message sink st m e w = (Inr st', w')"
  shows "accounts durable decode st' w' \<and> length (col_messages st') = Suc (length (col_messages st))"
proof -
  from assms(2) obtain t p i where m: "msg_topic m = Some t" "msg_partition m = Some p" "msg_offset m = Some i"
    and q: "sink (msg_value m) t p i (dlq_reason e) (exn_msg e) w = (Inr (), w')"
    and st': "st' = st\<lparr>col_messages := col_messages st @ [m],
            col_reasons := AList.update (dlq_reason e)
              ((case map_of (col_reasons st) (dlq_reason e) of None \<Rightarrow> 0 | Some n \<Rightarrow> n) + 1) (col_reasons st)\<rparr>"
    by (auto simp: quarantine_message_def bindA_Inr split: option.splits)
  from accounts_mono [OF sink_keeps' [OF q] assms(1)] obtain os
    where os: "list_all2 (settled durable decode w') (col_messages st) os" "col_events st = accepted os"
      "sum_list (map snd (col_reasons st)) = int (length (rejected os))" "distinct (map fst (col_reasons st))"
      "distinct (col_ids st)" "col_ids st = rev (map (\<lambda>e. row_get e ''event_id'') (accepted os))"
    unfolding accounts_def by blast
  have "settled durable decode w' m (Rejected (dlq_reason e))"
    using m sink_durable [OF q] by (simp add: settled_def)
  with os sum_update_count [OF os(4)] distinct_keys_update [OF os(4)] show ?thesis
    unfolding accounts_def st'
    by (intro conjI exI [of _ "os @ [Rejected (dlq_reason e)]"]) (auto simp: list_all2_appendI)
qed

lemma take_message_accounts:
  assumes "accounts durable decode st w" "take_message decode sink st m w = (Inr st', w')"
  shows "accounts durable decode st' w' \<and> length (col_messages st') = Suc (length (col_messages st))"
proof -
  obtain x w1 where x: "decode_new decode st m w = (x, w1)" by fastforce
  from accounts_mono [OF decode_new_keeps [OF x] assms(1)] have a1: "accounts durable decode st w1" .
  show ?thesis
  proof (cases x)
    case (Inl e)
    with assms(2) x have "quarantine_message sink st m e w1 = (Inr st', w')"
      by (auto simp: take_message_def split: if_splits)
    from quarantine_message_accounts [OF a1 this] show ?thesis .
  next
    case (Inr ek)
    obtain e k where ek: "ek = (e, k)" by fastforce
    with assms(2) x Inr have st': "st' = st\<lparr>col_ids := k # col_ids st, col_events := col_events st @ [e],
        col_messages := col_messages st @ [m]\<rparr>" and w': "w' = w1" by (auto simp: take_message_def)
    from decode_new_Inr x Inr ek obtain w2 where d: "decode (msg_value m) w = (Inr e, w2)" "k = row_get e ''event_id''"
      "k \<notin> set (col_ids st)" by blast
    from a1 obtain os
      where os: "list_all2 (settled durable decode w1) (col_messages st) os" "col_events st = accepted os"
        "sum_list (map snd (col_reasons st)) = int (length (rejected os))" "distinct (map fst (col_reasons st))"
        "distinct (col_ids st)" "col_ids st = rev (map (\<lambda>e. row_get e ''event_id'') (accepted os))"
      unfolding accounts_def by blast
    have "settled durable decode w1 m (Accepted e)" using d(1) by (auto simp: settled_def)
    with os d(2,3) show ?thesis
      unfolding accounts_def st' w'
      by (intro conjI exI [of _ "os @ [Accepted e]"]) (auto simp: list_all2_appendI)
  qed
qed

lemma loop_step_again:
  assumes inv: "accounts durable decode st w \<and> int (length (col_messages st)) \<le> maximum"
    and "loop_step con decode sink maximum idle st dl w = Again st' dl' w'"
  shows "accounts durable decode st' w' \<and> int (length (col_messages st')) \<le> maximum"
  using assms(2)
proof (cases rule: loop_step_Again)
  case (idle now w1 y)
  with inv accounts_mono [OF keeps_trans [OF clock_keeps' [OF idle(2)] poll_keeps' [OF idle(4)]]] show ?thesis by simp
next
  case (taken now w1 m w2 w3 now')
  from inv accounts_mono [OF keeps_trans [OF clock_keeps' [OF taken(2)] poll_keeps' [OF taken(4)]]]
  have "accounts durable decode st w2" by simp
  from take_message_accounts [OF this taken(6)] taken(1) accounts_mono [OF clock_keeps' [OF taken(7)]] show ?thesis by auto
qed

lemma collected_accounts:
  assumes "collect_messages con decode sink maximum idle w = Some (Inr st, w')" "0 \<le> maximum"
  shows "accounts durable decode st w' \<and> int (length (col_messages st)) \<le> maximum \<and> col_messages st \<noteq> []"
proof -
  let ?init = "\<lparr>col_events = [], col_messages = [], col_ids = [], col_reasons = []\<rparr>"
  from assms(1) obtain now w1 where c: "collect_loop con decode sink maximum idle ?init (now + idle) w1 = Some (Inr st, w')"
    and ne: "col_messages st \<noteq> []"
    by (auto simp: collect_messages_def bindR_Inr_iff split: prod.splits)
  let ?I = "\<lambda>st w. accounts durable decode st w \<and> int (length (col_messages st)) \<le> maximum"
  let ?Q = "\<lambda>(r :: collected res) w'. \<forall>st'. r = Inr st' \<longrightarrow> ?I st' w'"
  have i0: "?I ?init w1" using assms(2) by (auto simp: accounts_def intro!: exI [of _ "[]"])
  have "?Q (Inr st) w'"
  proof (rule collect_loop_rule [OF c, of ?I ?Q, OF i0])
    fix st d w st' d' w'
    assume "?I st w" "loop_step con decode sink maximum idle st d w = Again st' d' w'"
    then show "?I st' w'" by (rule loop_step_again)
  next
    fix st d w r w'
    assume i: "?I st w" and f: "loop_step con decode sink maximum idle st d w = Finished r w'"
    show "?Q r w'"
    proof (intro allI impI)
      fix st' assume "r = Inr st'"
      from loop_step_Finished [OF f [unfolded \<open>r = Inr st'\<close>]] have "st' = st \<and> (w' = w \<or> (\<exists>now. con_monotonic con w = (now, w')))" by blast
      then show "?I st' w'" using i accounts_mono [OF clock_keeps'] by auto
    qed
  qed
  with ne show ?thesis by simp
qed

end

section \<open>Termination of the loop\<close>

text \<open>
  The wall clock of the run: the monotonic clock reads \<open>time\<close>, and a poll that brings no message takes the
  time it was allowed to wait, or at least \<open>\<delta>\<close> when it ends early (at the end of a partition).
\<close>

definition clock_advances :: "'w consumer_api \<Rightarrow> ('w \<Rightarrow> rat) \<Rightarrow> rat \<Rightarrow> bool" where
  "clock_advances con time \<delta> \<longleftrightarrow>
     0 < \<delta> \<and> \<delta> \<le> 1 \<and>
     (\<forall>w now w'. con_monotonic con w = (now, w') \<longrightarrow> time w \<le> now \<and> now \<le> time w') \<and>
     (\<forall>q w y w'. con_poll con q w = (Inr y, w') \<longrightarrow> idle_poll y \<longrightarrow> time w + min \<delta> q \<le> time w')"

definition loop_measure :: "('w \<Rightarrow> rat) \<Rightarrow> rat \<Rightarrow> int \<Rightarrow> (collected \<times> rat \<times> 'w) \<Rightarrow> nat \<times> nat" where
  "loop_measure time \<delta> maximum = (\<lambda>(st, dl, w). (nat (maximum - int (length (col_messages st))), nat \<lceil>(dl - time w) / \<delta>\<rceil>))"

lemma take_message_length:
  "take_message decode sink st m w = (Inr st', w') \<Longrightarrow> length (col_messages st') = Suc (length (col_messages st))"
  by (auto simp: take_message_def quarantine_message_def bindA_Inr split: prod.splits sum.splits if_splits option.splits)

lemma loop_step_decreases:
  assumes "clock_advances con time \<delta>" "loop_step con decode sink maximum idle st dl w = Again st' dl' w'"
  shows "((st', dl', w'), (st, dl, w)) \<in> inv_image (less_than <*lex*> less_than) (loop_measure time \<delta> maximum)"
  using assms(2)
proof (cases rule: loop_step_Again)
  case (idle now w1 y)
  from assms(1) idle(2,4,5) have d: "0 < \<delta>" "\<delta> \<le> 1" "time w \<le> now" "now \<le> time w1" "time w1 + min \<delta> (min 1 (dl - now)) \<le> time w'"
    unfolding clock_advances_def by blast+
  have "0 < (dl - time w) / \<delta>" using d idle(3) by simp
  then have pos: "0 < \<lceil>(dl - time w) / \<delta>\<rceil>" by simp
  have "nat \<lceil>(dl - time w') / \<delta>\<rceil> < nat \<lceil>(dl - time w) / \<delta>\<rceil>"
  proof (cases "dl \<le> time w'")
    case True
    then have "(dl - time w') / \<delta> \<le> 0" using d(1) by (simp add: divide_le_0_iff)
    then have "\<lceil>(dl - time w') / \<delta>\<rceil> \<le> 0" by simp
    with pos show ?thesis by linarith
  next
    case False
    with d have "dl - time w' \<le> dl - time w - \<delta>" by (auto simp: min_def split: if_splits)
    then have "(dl - time w') / \<delta> \<le> (dl - time w - \<delta>) / \<delta>" using d(1) by (simp add: divide_right_mono)
    also have "\<dots> = (dl - time w) / \<delta> - 1" using d(1) by (simp add: diff_divide_distrib)
    finally have "\<lceil>(dl - time w') / \<delta>\<rceil> \<le> \<lceil>(dl - time w) / \<delta> - 1\<rceil>" by (rule ceiling_mono)
    then have "\<lceil>(dl - time w') / \<delta>\<rceil> \<le> \<lceil>(dl - time w) / \<delta>\<rceil> - 1" by simp
    with pos show ?thesis by linarith
  qed
  with idle(6,7) show ?thesis by (simp add: loop_measure_def)
next
  case (taken now w1 m w2 w3 now')
  with take_message_length [OF taken(6)] show ?thesis by (simp add: loop_measure_def)
qed

lemma collect_loop_terminates:
  assumes "clock_advances con time \<delta>"
  shows "\<exists>r w'. collect_loop con decode sink maximum idle st dl w = Some (r, w')"
proof -
  have "\<exists>r w'. collect_loop con decode sink maximum idle (fst x) (fst (snd x)) (snd (snd x)) = Some (r, w')" for x
  proof (induction x rule: wf_induct [of "inv_image (less_than <*lex*> less_than) (loop_measure time \<delta> maximum)"])
    case 1
    show ?case by (intro wf_inv_image wf_lex_prod wf_less_than)
  next
    case (2 x)
    obtain st dl w where x: "x = (st, dl, w)" by (cases x)
    show ?case
    proof (cases "loop_step con decode sink maximum idle st dl w")
      case (Finished r w')
      then show ?thesis by (subst collect_loop.simps) (simp add: x)
    next
      case (Again st' dl' w')
      from loop_step_decreases [OF assms Again] 2 x
      have "\<exists>r w''. collect_loop con decode sink maximum idle st' dl' w' = Some (r, w'')" by fastforce
      with Again show ?thesis by (subst collect_loop.simps) (simp add: x)
    qed
  qed
  from this [of "(st, dl, w)"] show ?thesis by simp
qed

text \<open>The loop with fuel: whatever a number of iterations computes is the value of the loop.\<close>

fun collect_fuel :: "nat \<Rightarrow> 'w consumer_api \<Rightarrow> (string option \<Rightarrow> ('w, row) act) \<Rightarrow> 'w sink \<Rightarrow> int \<Rightarrow> rat \<Rightarrow>
    collected \<Rightarrow> rat \<Rightarrow> 'w \<Rightarrow> (collected res \<times> 'w) option" where
  "collect_fuel 0 con decode sink maximum idle st dl w = None"
| "collect_fuel (Suc n) con decode sink maximum idle st dl w =
     (case loop_step con decode sink maximum idle st dl w of
        Finished r w' \<Rightarrow> Some (r, w')
      | Again st' dl' w' \<Rightarrow> collect_fuel n con decode sink maximum idle st' dl' w')"

lemma collect_loop_fuel:
  "collect_fuel n con decode sink maximum idle st dl w = Some x \<Longrightarrow> collect_loop con decode sink maximum idle st dl w = Some x"
proof (induction n arbitrary: st dl w)
  case (Suc n)
  then show ?case
    by (subst collect_loop.simps) (auto split: loop_step.splits)
qed simp

section \<open>Commits\<close>

definition offset_key :: "string \<Rightarrow> int \<Rightarrow> string" where
  "offset_key t p = t @ '':'' @ int_str p"

lemma offset_key_inject [simp]: "offset_key t p = offset_key t' p' \<longleftrightarrow> t = t' \<and> p = p'"
proof -
  have "CHR '':'' \<notin> set (int_str i)" for i by (auto dest!: int_str_chars simp: is_digit_def code_def)
  from join_last_inject [OF this this, of t p t' p'] show ?thesis by (simp add: offset_key_def)
qed

text \<open>The messages of one partition, in the order they were received.\<close>

definition of_partition :: "string \<Rightarrow> int \<Rightarrow> kafka_message list \<Rightarrow> kafka_message list" where
  "of_partition t p ms = filter (\<lambda>m. msg_topic m = Some t \<and> msg_partition m = Some p) ms"

lemma latest_messages:
  assumes "foldR latest_step [] ms = Inr latest"
  shows "distinct (map fst latest) \<and>
    (\<forall>t p. map_of latest (t, p) = (if of_partition t p ms = [] then None else Some (last (of_partition t p ms)))) \<and>
    (\<forall>m\<in>set ms. \<exists>t p. msg_topic m = Some t \<and> msg_partition m = Some p)"
  using assms
proof (rule foldR_prefix_inv)
  fix seen m s s'
  assume i: "distinct (map fst s) \<and>
    (\<forall>t p. map_of s (t, p) = (if of_partition t p seen = [] then None else Some (last (of_partition t p seen)))) \<and>
    (\<forall>m\<in>set seen. \<exists>t p. msg_topic m = Some t \<and> msg_partition m = Some p)"
    and s: "latest_step s m = Inr s'"
  from s obtain t p where m: "msg_topic m = Some t" "msg_partition m = Some p" "s' = AList.update (t, p) m s"
    by (auto simp: latest_step_def split: option.splits)
  from i m show "distinct (map fst s') \<and>
    (\<forall>t p. map_of s' (t, p) = (if of_partition t p (seen @ [m]) = [] then None else Some (last (of_partition t p (seen @ [m]))))) \<and>
    (\<forall>m\<in>set (seen @ [m]). \<exists>t p. msg_topic m = Some t \<and> msg_partition m = Some p)"
    by (auto simp: of_partition_def intro: distinct_keys_update)
qed (simp add: of_partition_def)

lemma map_of_same_set:
  assumes "distinct (map fst xs)" "distinct (map fst ys)" "set xs = set ys"
  shows "map_of xs = map_of ys"
proof
  fix k
  show "map_of xs k = map_of ys k"
  proof (cases "map_of xs k")
    case None
    with assms(3) show ?thesis by (metis map_of_eq_None_iff)
  next
    case (Some v)
    with assms show ?thesis by (metis map_of_SomeD map_of_is_SomeI)
  qed
qed

lemma map_of_sort_key: "distinct (map fst d) \<Longrightarrow> map_of (sort_key fst d) = map_of d"
  by (rule map_of_same_set) (simp_all add: distinct_map)

lemma commit_one_Inr: "commit_one con ((t, p), m) w = (Inr n, w') \<Longrightarrow> \<exists>i. msg_offset m = Some i \<and> n = i + 1"
  by (auto simp: commit_one_def bindA_Inr Let_def)

lemma commit_all_offsets:
  assumes "commit_all con es offs w = (Inr r, w')" "distinct (map fst es)"
  shows "map_of r (offset_key t p) =
    (case map_of es (t, p) of None \<Rightarrow> map_of offs (offset_key t p) | Some m \<Rightarrow> map_option (\<lambda>i. i + 1) (msg_offset m)) \<and>
    (\<forall>m. map_of es (t, p) = Some m \<longrightarrow> msg_offset m \<noteq> None)"
  using assms
proof (induction es arbitrary: offs w)
  case Nil
  then show ?case by simp
next
  case (Cons e es)
  obtain t' p' m' where e: "e = ((t', p'), m')" by (cases e) auto
  from Cons.prems(1) e obtain n w1 where n: "commit_one con ((t', p'), m') w = (Inr n, w1)"
    and r: "commit_all con es (AList.update (offset_key t' p') n offs) w1 = (Inr r, w')"
    by (auto simp: bindA_Inr offset_key_def)
  from commit_one_Inr [OF n] obtain i where i: "msg_offset m' = Some i" "n = i + 1" by blast
  from Cons.prems(2) e have "map_of es (t', p') = None" by (auto simp: map_of_eq_None_iff)
  with Cons.IH [OF r] Cons.prems(2) e i show ?case by (auto split: option.split)
qed

lemma commit_messages_offsets:
  assumes "commit_messages con ms w = (Inr offsets, w')"
  shows "(\<forall>m\<in>set ms. \<exists>t p. msg_topic m = Some t \<and> msg_partition m = Some p) \<and>
    (\<forall>t p. map_of offsets (offset_key t p) =
       (if of_partition t p ms = [] then None else map_option (\<lambda>i. i + 1) (msg_offset (last (of_partition t p ms)))) \<and>
       (of_partition t p ms \<noteq> [] \<longrightarrow> msg_offset (last (of_partition t p ms)) \<noteq> None))"
proof -
  from assms obtain latest where l: "foldR latest_step [] ms = Inr latest"
    and c: "commit_all con (sort_key fst latest) [] w = (Inr offsets, w')"
    by (auto simp: commit_messages_def bindA_Inr)
  note lm = latest_messages [OF l]
  from lm have d: "distinct (map fst (sort_key fst latest))" by (simp add: distinct_map)
  have m: "map_of (sort_key fst latest) = map_of latest" using lm by (intro map_of_sort_key) simp
  have "map_of offsets (offset_key t p) =
       (if of_partition t p ms = [] then None else map_option (\<lambda>i. i + 1) (msg_offset (last (of_partition t p ms)))) \<and>
       (of_partition t p ms \<noteq> [] \<longrightarrow> msg_offset (last (of_partition t p ms)) \<noteq> None)" for t p
    using commit_all_offsets [OF c d, of t p] lm [THEN conjunct2, THEN conjunct1, rule_format, of t p]
    unfolding m by (cases "of_partition t p ms = []") simp_all
  with lm show ?thesis by blast
qed

section \<open>What a call leaves as it is\<close>

definition frame :: "('w \<Rightarrow> 'b) \<Rightarrow> ('w, 'a) act \<Rightarrow> bool" where
  "frame obs m \<longleftrightarrow> (\<forall>w. obs (snd (m w)) = obs w)"

lemma frameD: "frame obs m \<Longrightarrow> m w = (x, w') \<Longrightarrow> obs w' = obs w"
  unfolding frame_def by (metis snd_conv)

lemma frame_pure: "frame obs (pureA r)"
  by (simp add: frame_def pureA_def)

lemma frame_read: "frame obs (\<lambda>w. (g w, w))"
  by (simp add: frame_def)

lemma frame_bind: "frame obs m \<Longrightarrow> (\<And>x. frame obs (f x)) \<Longrightarrow> frame obs (bindA m f)"
  by (auto simp: frame_def bindA_def split: prod.split sum.split) (metis snd_conv)+

lemma frame_if: "(P \<Longrightarrow> frame obs m) \<Longrightarrow> (\<not> P \<Longrightarrow> frame obs m') \<Longrightarrow> frame obs (if P then m else m')"
  by simp

lemma frame_pair: "(\<And>a b. frame obs (f a b)) \<Longrightarrow> frame obs (case x of (a, b) \<Rightarrow> f a b)"
  by (cases x) simp

lemma frame_clock: "(\<And>w. obs (snd (rt_clock rt w)) = obs w) \<Longrightarrow> frame obs (read_clock rt)"
  by (auto simp: frame_def read_clock_def split: prod.split) (metis snd_conv)

lemmas frame_intros = frame_pure frame_read frame_bind frame_if frame_pair frame_clock

lemma frame_decode_event:
  assumes "\<And>w. obs (snd (rt_clock rt w)) = obs w" "\<And>v. frame obs (verify v)"
  shows "frame obs (decode_event rt d verify v)"
  unfolding decode_event_def decode_document_def using assms by (intro frame_intros) auto

lemma frame_merge_attempts:
  assumes "\<And>t. frame obs (api_merge api uri t source key)"
  shows "frame obs (merge_attempts api check uri key source rows n)"
  unfolding frame_def
proof
  fix w show "obs (snd (merge_attempts api check uri key source rows n w)) = obs w"
  proof (induction n arbitrary: w)
    case 0
    then show ?case by simp
  next
    case (Suc n)
    obtain r w' where m: "merge_attempts api check uri key source rows (Suc n) w = (r, w')" by fastforce
    from merge_attempts_world [OF this] have "obs w' = obs w"
    proof (elim disjE exE conjE)
      fix t y w1 assume "api_merge api uri t source key w = (y, w1)"
      then have w1: "obs w1 = obs w" by (rule frameD [OF assms])
      show "obs w' = obs w" if "w' = w1" using that w1 by simp
      show "obs w' = obs w" if "merge_attempts api check uri key source rows n w1 = (r, w')" using that w1 Suc [of w1] by simp
    qed simp
    with m show ?case by simp
  qed
qed

lemma frame_append_events:
  assumes "\<And>t rows key. frame obs (api_merge api uri t rows key)" "\<And>rows n d. frame obs (api_create api uri rows n d)"
  shows "frame obs (append_events api ps uri rows d)"
  unfolding append_events_def append_rows_def create_table_def
  by (intro frame_intros frame_merge_attempts assms)

lemma frame_quarantine:
  assumes "\<And>w. obs (snd (rt_clock rt w)) = obs w" "\<And>t v k. frame obs (prod_produce pr t v k)" "frame obs (prod_flush pr)"
    and "\<And>uri t rows key. frame obs (api_merge api uri t rows key)" "\<And>uri rows n d. frame obs (api_create api uri rows n d)"
  shows "frame obs (quarantine rt pr api dq v t p i reason detail)"
proof -
  have a: "frame obs (\<lambda>w. case append_events api ps uri rows dd w of (Inl e, w') \<Rightarrow> (Inl e', w') | (Inr r, w') \<Rightarrow> (Inr (), w'))"
    for ps uri rows dd e'
    using frame_append_events [OF assms(4,5), where uri = uri and ps = ps and rows = rows and d = dd]
    by (auto simp: frame_def split: prod.split sum.split) (metis snd_conv)+
  have q: "frame obs (already_quarantined api uri k)" for uri k
    by (auto simp: frame_def already_quarantined_def split: sum.split)
  show ?thesis
    unfolding quarantine_def Let_def append_quarantine_row_def append_new_quarantine_row_def raise_def
    by (intro frame_intros a q assms)
qed

section \<open>Durability before commit\<close>

text \<open>
  The consumer, the verifier and the clock do not touch the tables, and a write to one table leaves the
  others as they are.
\<close>

definition kafka_contract :: "'w runtime \<Rightarrow> 'w producer_api \<Rightarrow> 'w consumer_api \<Rightarrow> (json \<Rightarrow> ('w, unit) act) \<Rightarrow>
    ('w, 't) delta_api \<Rightarrow> ('t \<Rightarrow> row list) \<Rightarrow> bool" where
  "kafka_contract rt pr con verify api content \<longleftrightarrow>
     dlq_contract rt pr api content \<and> frames api (others_same api) \<and>
     (\<forall>uri w. api_open api uri (snd (con_monotonic con w)) = api_open api uri w) \<and>
     (\<forall>uri q w. api_open api uri (snd (con_poll con q w)) = api_open api uri w) \<and>
     (\<forall>uri v w. api_open api uri (snd (verify v w)) = api_open api uri w)"

lemma kafka_contractD:
  assumes "kafka_contract rt pr con verify api content"
  shows "dlq_contract rt pr api content" "frames api (others_same api)"
    "api_open api uri (snd (con_monotonic con w)) = api_open api uri w"
    "api_open api uri (snd (con_poll con q w)) = api_open api uri w"
    "api_open api uri (snd (verify v w)) = api_open api uri w"
  using assms by (simp_all add: kafka_contract_def)

definition kafka_quarantined :: "'w runtime \<Rightarrow> 'w producer_api \<Rightarrow> 'w consumer_api \<Rightarrow> (json \<Rightarrow> ('w, unit) act) \<Rightarrow>
    ('w, 't) delta_api \<Rightarrow> dead_letter_queue \<Rightarrow> string \<Rightarrow> int \<Rightarrow> int \<Rightarrow> string \<Rightarrow> 'w \<Rightarrow> bool" where
  "kafka_quarantined rt pr con verify api dq t p i reason w \<longleftrightarrow>
     (\<forall>content. kafka_contract rt pr con verify api content \<longrightarrow>
        holds_event api content (dq_table_uri dq) (dlq_event_id (rt_sha rt) t p i reason) w)"

lemma kafka_quarantined_mono:
  assumes "\<And>content uri k. kafka_contract rt pr con verify api content \<Longrightarrow> holds_event api content uri k w \<Longrightarrow> holds_event api content uri k w'"
  shows "keeps (kafka_quarantined rt pr con verify api dq) w w'"
  unfolding keeps_def kafka_quarantined_def using assms by blast

lemma open_keeps:
  assumes "\<And>content uri. kafka_contract rt pr con verify api content \<Longrightarrow> api_open api uri w' = api_open api uri w"
  shows "keeps (kafka_quarantined rt pr con verify api dq) w w'"
proof (rule kafka_quarantined_mono)
  fix content uri k assume "kafka_contract rt pr con verify api content" "holds_event api content uri k w"
  with holds_event_open [OF assms] show "holds_event api content uri k w'" by simp
qed

lemma decode_event_open:
  assumes "kafka_contract rt pr con verify api content"
  shows "frame (api_open api uri) (decode_event rt d verify v)"
  using kafka_contractD(5) [OF assms] dlq_contractD(3) [OF kafka_contractD(1) [OF assms]]
  by (intro frame_decode_event) (simp_all add: frame_def)

interpretation kafka_loop: message_loop "quarantine rt pr api dq" "kafka_quarantined rt pr con verify api dq" con
    "decode_event rt d verify" for rt pr con verify api dq d
proof
  fix v t p i reason detail w w'
  assume q: "quarantine rt pr api dq v t p i reason detail w = (Inr (), w')"
  show "kafka_quarantined rt pr con verify api dq t p i reason w'"
    unfolding kafka_quarantined_def using quarantine_holds [OF kafka_contractD(1) q] by blast
next
  fix v t p i reason detail w x w' t' p' i' reason'
  assume q: "quarantine rt pr api dq v t p i reason detail w = (x, w')"
    and "kafka_quarantined rt pr con verify api dq t' p' i' reason' w"
  then show "kafka_quarantined rt pr con verify api dq t' p' i' reason' w'"
    unfolding kafka_quarantined_def using quarantine_holds [OF kafka_contractD(1) q] by blast
next
  fix t p i r w v q
  assume k: "kafka_quarantined rt pr con verify api dq t p i r w"
  have c: "keeps (kafka_quarantined rt pr con verify api dq) w (snd (con_monotonic con w))"
    by (rule open_keeps) (rule kafka_contractD(3))
  have p: "keeps (kafka_quarantined rt pr con verify api dq) w (snd (con_poll con q w))"
    by (rule open_keeps) (rule kafka_contractD(4))
  have e: "keeps (kafka_quarantined rt pr con verify api dq) w (snd (decode_event rt d verify v w))"
    by (rule open_keeps) (rule decode_event_open [unfolded frame_def, THEN spec])
  show "kafka_quarantined rt pr con verify api dq t p i r (snd (con_monotonic con w))"
    using k c unfolding keeps_def by blast
  show "kafka_quarantined rt pr con verify api dq t p i r (snd (con_poll con q w))"
    using k p unfolding keeps_def by blast
  show "kafka_quarantined rt pr con verify api dq t p i r (snd (decode_event rt d verify v w))"
    using k e unfolding keeps_def by blast
qed

section \<open>The run\<close>

text \<open>A quantity that only commits change.\<close>

definition commits_only :: "('w \<Rightarrow> 'o) \<Rightarrow> 'w runtime \<Rightarrow> 'w producer_api \<Rightarrow> 'w consumer_api \<Rightarrow> (json \<Rightarrow> ('w, unit) act) \<Rightarrow>
    ('w, 't) delta_api \<Rightarrow> bool" where
  "commits_only obs rt pr con verify api \<longleftrightarrow>
     (\<forall>w. obs (snd (rt_clock rt w)) = obs w) \<and> (\<forall>t v k. frame obs (prod_produce pr t v k)) \<and> frame obs (prod_flush pr) \<and>
     (\<forall>w. obs (snd (con_monotonic con w)) = obs w) \<and> (\<forall>q. frame obs (con_poll con q)) \<and> (\<forall>v. frame obs (verify v)) \<and>
     (\<forall>uri t rows key. frame obs (api_merge api uri t rows key)) \<and> (\<forall>uri rows n d. frame obs (api_create api uri rows n d))"

lemma frame_take_message:
  assumes "\<And>v. frame obs (decode v)" "\<And>v t p i r e. frame obs (sink v t p i r e)"
  shows "frame obs (take_message decode sink st m)"
proof -
  have n: "frame obs (decode_new decode st m)" unfolding decode_new_def by (intro frame_intros assms)
  have q: "frame obs (quarantine_message sink st m e)" for e
    unfolding quarantine_message_def by (auto split: option.split intro!: frame_intros assms)
  show ?thesis unfolding frame_def
  proof
    fix w
    obtain x w1 where x: "decode_new decode st m w = (x, w1)" by fastforce
    from frameD [OF n x] q show "obs (snd (take_message decode sink st m w)) = obs w"
      by (cases x) (auto simp: take_message_def x frame_def)
  qed
qed

definition step_world :: "'w loop_step \<Rightarrow> 'w" where
  "step_world s = (case s of Finished r w \<Rightarrow> w | Again st dl w \<Rightarrow> w)"

lemma loop_step_frame:
  assumes "\<And>w. obs (snd (con_monotonic con w)) = obs w" "\<And>q. frame obs (con_poll con q)"
    and "\<And>v. frame obs (decode v)" "\<And>v t p i r e. frame obs (sink v t p i r e)"
  shows "obs (step_world (loop_step con decode sink maximum idle st dl w)) = obs w"
proof -
  have c: "con_monotonic con w = (now, w1) \<Longrightarrow> obs w1 = obs w" for w now w1 using assms(1) [of w] by simp
  obtain now w1 where m1: "con_monotonic con w = (now, w1)" by fastforce
  obtain x w2 where p: "con_poll con (min 1 (dl - now)) w1 = (x, w2)" by fastforce
  note o2 = c [OF m1] frameD [OF assms(2) p]
  show ?thesis
  proof (cases "int (length (col_messages st)) < maximum \<and> now < dl")
    case False
    with m1 o2 show ?thesis by (auto simp: loop_step_def step_world_def)
  next
    case True
    show ?thesis
    proof (cases x)
      case (Inl e)
      with True m1 p o2 show ?thesis by (simp add: loop_step_def step_world_def)
    next
      case x: (Inr y)
      show ?thesis
      proof (cases y)
        case None
        with True m1 p x o2 show ?thesis by (simp add: loop_step_def step_world_def)
      next
        case (Some m)
        obtain z w3 where z: "take_message decode sink st m w2 = (z, w3)" by fastforce
        obtain now' w4 where m4: "con_monotonic con w3 = (now', w4)" by fastforce
        note o4 = o2 frameD [OF frame_take_message [OF assms(3,4)] z] c [OF m4]
        from True m1 p x Some z m4 o4 show ?thesis
          by (cases "msg_error m"; cases z) (auto simp: loop_step_def step_world_def split: kafka_error.split)
      qed
    qed
  qed
qed

lemma collect_messages_frame:
  assumes "\<And>w. obs (snd (con_monotonic con w)) = obs w" "\<And>q. frame obs (con_poll con q)"
    and "\<And>v. frame obs (decode v)" "\<And>v t p i r e. frame obs (sink v t p i r e)"
    and "collect_messages con decode sink maximum idle w = Some (x, w')"
  shows "obs w' = obs w"
proof -
  let ?init = "\<lparr>col_events = [], col_messages = [], col_ids = [], col_reasons = []\<rparr>"
  from assms(5) obtain now w1 r where n: "con_monotonic con w = (now, w1)"
    and c: "collect_loop con decode sink maximum idle ?init (now + idle) w1 = Some (r, w')"
    by (auto simp: collect_messages_def split: prod.splits)
  have o1: "obs w1 = obs w" using assms(1) [of w] n by simp
  have step: "obs (step_world (loop_step con decode sink maximum idle st d w1)) = obs w1" for st d w1
    using assms(1-4) by (rule loop_step_frame)
  let ?I = "\<lambda>(st :: collected) w1. obs w1 = obs w" and ?Q = "\<lambda>(r :: collected res) w1. obs w1 = obs w"
  show ?thesis
  proof (rule collect_loop_rule [OF c, of ?I ?Q, OF o1])
    fix st d w1 st' d' w' assume "obs w1 = obs w" "loop_step con decode sink maximum idle st d w1 = Again st' d' w'"
    with step [of st d w1] show "obs w' = obs w" by (simp add: step_world_def)
  next
    fix st d w1 r w' assume "obs w1 = obs w" "loop_step con decode sink maximum idle st d w1 = Finished r w'"
    with step [of st d w1] show "obs w' = obs w" by (simp add: step_world_def)
  qed
qed

lemma append_events_keeps_all:
  assumes "delta_contract api content" "frames api (others_same api)" "append_events api ps uri rows d w = (x, w')"
    and "holds_event api content uri' k w"
  shows "holds_event api content uri' k w'"
proof (cases "uri' = uri")
  case True
  with append_events_keeps [OF assms(1,3)] assms(4) show ?thesis by simp
next
  case False
  from append_rows_frame [OF assms(2) assms(3) [unfolded append_events_def]] False
  have "api_open api uri' w' = api_open api uri' w" by (simp add: others_same_def)
  with assms(4) holds_event_open show ?thesis by metis
qed

lemma store_batch_durable:
  assumes con: "dlq_contract rt pr api content" "frames api (others_same api)"
    and ids: "\<forall>e\<in>set events. row_get e ''event_id'' \<noteq> CNone"
    and s: "store_batch api (rt_str rt) uri scope events w = (Inr counts, w')"
  shows "(\<forall>e\<in>set events. \<forall>k. row_get e ''event_id'' = CText k \<longrightarrow> holds_event api content uri k w') \<and>
    (holds_event api content uri' j w \<longrightarrow> holds_event api content uri' j w')"
proof -
  from dlq_contractD(1,2) [OF con(1)] obtain fmt where dc: "delta_contract api content" "rt_str rt = py_str fmt" by blast
  from s have "events = [] \<and> w' = w \<or> append_events api (py_str fmt) uri events None w = (Inr counts, w')"
    by (auto simp: store_batch_def bindA_Inr dc(2) split: if_splits)
  then show ?thesis
  proof
    assume a: "append_events api (py_str fmt) uri events None w = (Inr counts, w')"
    have "row_get (hd events) ''event_id'' \<noteq> CNone" if "e \<in> set events" for e using ids that by (cases events) auto
    with append_events_holds [OF dc(1) a] append_events_keeps_all [OF dc(1) con(2) a] show ?thesis by blast
  qed simp
qed

lemma decode_event_id:
  assumes "decode_event rt d verify v w = (Inr e, w')"
  shows "\<exists>k. row_get e ''event_id'' = CText k"
proof -
  from assms obtain now ev where "normalize_event (rt_fr rt) now ev = Inr e" by (auto simp: decode_event_def bindA_Inr)
  from normalize_event_row [OF this] show ?thesis by blast
qed

lemma frame_store_batch:
  assumes "\<And>uri t rows key. frame obs (api_merge api uri t rows key)" "\<And>uri rows n d. frame obs (api_create api uri rows n d)"
  shows "frame obs (store_batch api ps uri scope events)"
  unfolding store_batch_def by (intro frame_intros frame_append_events assms)

lemma commits_onlyD:
  assumes "commits_only obs rt pr con verify api"
  shows "obs (snd (rt_clock rt w)) = obs w" "frame obs (decode_event rt d verify v)"
    "frame obs (quarantine rt pr api dq v' t p i r e)" "frame obs (store_batch api ps uri scope events)"
    "obs (snd (con_monotonic con w)) = obs w" "frame obs (con_poll con q)"
  using assms unfolding commits_only_def
  by (auto intro!: frame_decode_event frame_quarantine frame_store_batch)

lemma check_run_maximum: "check_run env regular_file resolve a = Inr (scope, c) \<Longrightarrow> 0 \<le> arg_max_messages a"
  by (auto simp: check_run_def validate_transport_def bindR_Inr_iff)

lemma accepted_in: "Accepted e \<in> set os \<Longrightarrow> e \<in> set (accepted os)"
  by (auto simp: accepted_def intro!: bexI [of _ "Accepted e"])

text \<open>Once a collected batch is stored, each of its messages is durable.\<close>

lemma stored_batch_durable:
  assumes con: "kafka_contract rt pr con verify api content" and max: "0 \<le> maximum"
    and c: "collect_messages con (decode_event rt d verify) (quarantine rt pr api dq) maximum idle w0 = Some (Inr b, w1)"
    and s: "store_batch api (rt_str rt) uri scope (col_events b) w1 = (Inr counts, w2)"
  shows "\<exists>os. list_all2 (\<lambda>m x. case x of
        Accepted e \<Rightarrow> (\<exists>w0 w1. decode_event rt d verify (msg_value m) w0 = (Inr e, w1)) \<and>
          (\<exists>k. row_get e ''event_id'' = CText k \<and> holds_event api content uri k w2)
      | Rejected r \<Rightarrow> \<exists>t p i. msg_topic m = Some t \<and> msg_partition m = Some p \<and> msg_offset m = Some i \<and>
          holds_event api content (dq_table_uri dq) (dlq_event_id (rt_sha rt) t p i r) w2) (col_messages b) os"
proof -
  from kafka_loop.collected_accounts [OF c max] obtain os
    where os: "list_all2 (settled (kafka_quarantined rt pr con verify api dq) (decode_event rt d verify) w1) (col_messages b) os"
      and ev: "col_events b = accepted os" unfolding accounts_def by blast
  have "row_get e ''event_id'' \<noteq> CNone" if e: "e \<in> set (col_events b)" for e
  proof -
    from e ev have "Accepted e \<in> set os" by (auto simp: accepted_def split: outcome.splits)
    from list_all2_in_left [OF os this] obtain m :: kafka_message and w w' where "decode_event rt d verify (msg_value m) w = (Inr e, w')"
      by (auto simp: settled_def)
    from decode_event_id [OF this] show ?thesis by auto
  qed
  then have "\<forall>e\<in>set (col_events b). row_get e ''event_id'' \<noteq> CNone" by blast
  note st = store_batch_durable [OF kafka_contractD(1) [OF con] kafka_contractD(2) [OF con] this s]
  show ?thesis
  proof (rule exI, rule list.rel_mono_strong [OF os])
    fix m x assume x: "x \<in> set os" and se: "settled (kafka_quarantined rt pr con verify api dq) (decode_event rt d verify) w1 m x"
    show "case x of
        Accepted e \<Rightarrow> (\<exists>w0 w1. decode_event rt d verify (msg_value m) w0 = (Inr e, w1)) \<and>
          (\<exists>k. row_get e ''event_id'' = CText k \<and> holds_event api content uri k w2)
      | Rejected r \<Rightarrow> \<exists>t p i. msg_topic m = Some t \<and> msg_partition m = Some p \<and> msg_offset m = Some i \<and>
          holds_event api content (dq_table_uri dq) (dlq_event_id (rt_sha rt) t p i r) w2"
    proof (cases x)
      case (Accepted e)
      with se obtain v0 v1 where d: "decode_event rt d verify (msg_value m) v0 = (Inr e, v1)" by (auto simp: settled_def)
      from decode_event_id [OF d] obtain k where k: "row_get e ''event_id'' = CText k" by blast
      from accepted_in x Accepted ev have "e \<in> set (col_events b)" by simp
      with st k have "holds_event api content uri k w2" by blast
      with d k Accepted show ?thesis by auto
    next
      case (Rejected r)
      with se obtain t p i where m: "msg_topic m = Some t" "msg_partition m = Some p" "msg_offset m = Some i"
        and q: "kafka_quarantined rt pr con verify api dq t p i r w1" by (auto simp: settled_def)
      from q con have "holds_event api content (dq_table_uri dq) (dlq_event_id (rt_sha rt) t p i r) w1"
        by (simp add: kafka_quarantined_def)
      with st have "holds_event api content (dq_table_uri dq) (dlq_event_id (rt_sha rt) t p i r) w2" by blast
      with m Rejected show ?thesis by simp
    qed
  qed
qed

section \<open>A broker in memory\<close>

record kworld =
  kw_store :: mem_store
  kw_queue :: "kafka_message list"
  kw_time :: rat
  kw_offsets :: "(string \<times> int) list"

definition on_store :: "'a res \<times> mem_store \<Rightarrow> kworld \<Rightarrow> 'a res \<times> kworld" where
  "on_store x w = (fst x, w\<lparr>kw_store := snd x\<rparr>)"

definition kw_delta :: "(kworld, int \<times> row list) delta_api" where
  "kw_delta =
     \<lparr>api_open = (\<lambda>uri w. api_open mem_delta uri (kw_store w)),
      api_from_pylist = api_from_pylist mem_delta,
      api_create = (\<lambda>uri rows n d w. on_store (api_create mem_delta uri rows n d (kw_store w)) w),
      api_config = api_config mem_delta, api_version = api_version mem_delta,
      api_read = api_read mem_delta, api_read_all = api_read_all mem_delta,
      api_merge = (\<lambda>uri t rows k w. on_store (api_merge mem_delta uri t rows k (kw_store w)) w),
      api_overwrite = (\<lambda>uri rows n d w. on_store (api_overwrite mem_delta uri rows n d (kw_store w)) w),
      api_delete = (\<lambda>uri t p w. on_store (api_delete mem_delta uri t p (kw_store w)) w),
      api_set_property = (\<lambda>uri t k v w. on_store (api_set_property mem_delta uri t k v (kw_store w)) w)\<rparr>"

definition kw_runtime :: "kworld runtime" where
  "kw_runtime = \<lparr>rt_clock = (\<lambda>w. (0, w)), rt_sha = (\<lambda>s. ''d''), rt_fr = (\<lambda>q. []), rt_str = py_str (\<lambda>c. []), rt_replacement = CHR ''?''\<rparr>"

definition kw_producer :: "kworld producer_api" where
  "kw_producer = \<lparr>prod_produce = (\<lambda>t v k w. (Inr (), w)), prod_flush = (\<lambda>w. (Inr (0, [None]), w))\<rparr>"

definition kw_consumer :: "kworld consumer_api" where
  "kw_consumer =
     \<lparr>con_monotonic = (\<lambda>w. (kw_time w, w)),
      con_poll = (\<lambda>q w. let w' = w\<lparr>kw_time := kw_time w + q\<rparr> in
        (case kw_queue w of [] \<Rightarrow> (Inr None, w') | m # ms \<Rightarrow> (Inr (Some m), w'\<lparr>kw_queue := ms\<rparr>))),
      con_commit = (\<lambda>m w. case (msg_topic m, msg_partition m, msg_offset m) of
          (Some t, Some p, Some i) \<Rightarrow>
            (Inr [\<lparr>tp_topic = t, tp_partition = p, tp_offset = i + 1, tp_error = None\<rparr>],
             w\<lparr>kw_offsets := AList.update (offset_key t p) (i + 1) (kw_offsets w)\<rparr>)
        | _ \<Rightarrow> (raise KafkaException [], w))\<rparr>"

abbreviation (input) "kw_verify \<equiv> (\<lambda>v :: json. pureA (Inr ()) :: (kworld, unit) act)"

lemma kw_contract: "kafka_contract kw_runtime kw_producer kw_consumer kw_verify kw_delta snd"
proof -
  have d: "delta_contract kw_delta snd"
    by (auto simp: delta_contract_def kw_delta_def mem_delta_def mem_merge_def on_store_def split: prod.splits)
  have f: "frames kw_delta (others_same kw_delta)"
    by (auto simp: frames_def others_same_def kw_delta_def mem_delta_def mem_merge_def on_store_def split: prod.splits)
  have "dlq_contract kw_runtime kw_producer kw_delta snd"
    using d by (auto simp: dlq_contract_def kw_runtime_def kw_producer_def)
  with f show ?thesis
    by (auto simp: kafka_contract_def kw_consumer_def kw_delta_def pureA_def Let_def split: list.split)
qed

lemma kw_commits_only: "commits_only kw_offsets kw_runtime kw_producer kw_consumer kw_verify kw_delta"
  by (auto simp: commits_only_def frame_def kw_runtime_def kw_producer_def kw_consumer_def kw_delta_def mem_delta_def mem_merge_def
      on_store_def pureA_def Let_def split: list.split)

lemma kw_clock_advances: "clock_advances kw_consumer kw_time 1"
  by (auto simp: clock_advances_def kw_consumer_def Let_def split: list.splits)

definition poison :: kafka_message where
  "poison = \<lparr>msg_value = Some ''{'', msg_topic = Some ''ports.calls.v1'', msg_partition = Some 0, msg_offset = Some 7, msg_error = None\<rparr>"

definition kw_initial :: kworld where
  "kw_initial = \<lparr>kw_store = [], kw_queue = [poison], kw_time = 0, kw_offsets = []\<rparr>"

definition strict_decoder :: decoder where
  "strict_decoder = \<lparr>dec_utf8 = Some, dec_loads = (\<lambda>s. raise ValueError ''Expecting value''), dec_loads_float = (\<lambda>s. raise ValueError ''Expecting value''),
     dec_errors = (\<lambda>j. [])\<rparr>"

definition sample_arguments :: kafka_arguments where
  "sample_arguments = \<lparr>arg_bootstrap = ''localhost:9092'', arg_topic = ''ports.calls.v1'', arg_group_id = ''g'',
     arg_security_protocol = ''PLAINTEXT'', arg_ssl_ca = None, arg_sasl_mechanism = None, arg_allow_insecure = True,
     arg_max_messages = 1, arg_idle_timeout = PFin 1, arg_scope = ''platform'', arg_table_uri = ''s3://b/lake/platform_bronze/events'',
     arg_dlq_topic = ''ports.dlq.v1'', arg_dlq_table_uri = ''s3://b/lake/platform_bronze/dlq'', arg_schema = ''/s'', arg_report = ''/r''\<rparr>"

definition kw_collect :: "(collected res \<times> kworld) option" where
  "kw_collect = collect_fuel 3 kw_consumer (decode_event kw_runtime strict_decoder kw_verify)
     (quarantine kw_runtime kw_producer kw_delta (dead_letters sample_arguments)) 1 1
     \<lparr>col_events = [], col_messages = [], col_ids = [], col_reasons = []\<rparr> 1 kw_initial"

lemma kw_run:
  "case kw_collect of Some (Inr b, w1) \<Rightarrow> length (col_messages b) = 1 \<and>
     kw_offsets (snd (finish_run kw_runtime kw_consumer kw_delta sample_arguments PLATFORM 0 b w1)) = [(''ports.calls.v1:0'', 8)]
   | _ \<Rightarrow> False"
  by code_simp

lemma kw_check: "is_ok (check_run [] (\<lambda>f. True) id sample_arguments)"
  by code_simp

lemma kw_collect_value:
  obtains b w1 where "kw_collect = Some (Inr b, w1)" "length (col_messages b) = 1"
    "kw_offsets (snd (finish_run kw_runtime kw_consumer kw_delta sample_arguments PLATFORM 0 b w1)) = [(''ports.calls.v1:0'', 8)]"
  using kw_run by (auto split: option.splits prod.splits sum.splits)

lemma kw_collected:
  assumes "kw_collect = Some (Inr b, w1)" "length (col_messages b) = 1"
  shows "collect_messages kw_consumer (decode_event kw_runtime strict_decoder kw_verify)
     (quarantine kw_runtime kw_producer kw_delta (dead_letters sample_arguments)) 1 1 kw_initial = Some (Inr b, w1)"
proof -
  have n: "con_monotonic kw_consumer kw_initial = (0, kw_initial)" by (simp add: kw_consumer_def kw_initial_def)
  have "col_messages b \<noteq> []" using assms(2) by auto
  with collect_loop_fuel [OF assms(1) [unfolded kw_collect_def]] show ?thesis
    by (simp add: collect_messages_def n)
qed

section \<open>Properties\<close>

text \<open>
  Claim C29.  Nothing is lost and nothing is counted twice: when a batch has been collected, every
  received message was either decoded into one of the events, in order, or is in the quarantine table under its
  coordinates and reason; the two numbers add up, the batch is non-empty and within its limit, and no two events share
  an identifier.
\<close>

theorem collected_batch_accounts:
  assumes "kafka_contract rt pr con verify api content" "0 \<le> maximum"
    and "collect_messages con (decode_event rt d verify) (quarantine rt pr api dq) maximum idle w = Some (Inr b, w')"
  shows "int (length (col_messages b)) = int (length (col_events b)) + sum_list (map snd (col_reasons b)) \<and>
    col_messages b \<noteq> [] \<and> int (length (col_messages b)) \<le> maximum \<and>
    distinct (map (\<lambda>e. row_get e ''event_id'') (col_events b)) \<and>
    (\<exists>os. col_events b = accepted os \<and>
       list_all2 (\<lambda>m x. case x of
          Accepted e \<Rightarrow> \<exists>w0 w1. decode_event rt d verify (msg_value m) w0 = (Inr e, w1)
        | Rejected r \<Rightarrow> \<exists>t p i. msg_topic m = Some t \<and> msg_partition m = Some p \<and> msg_offset m = Some i \<and>
            holds_event api content (dq_table_uri dq) (dlq_event_id (rt_sha rt) t p i r) w') (col_messages b) os)"
proof -
  note c = kafka_loop.collected_accounts [OF assms(3,2)]
  then obtain os where os: "list_all2 (settled (kafka_quarantined rt pr con verify api dq) (decode_event rt d verify) w') (col_messages b) os"
    "col_events b = accepted os" "sum_list (map snd (col_reasons b)) = int (length (rejected os))"
    "distinct (col_ids b)" "col_ids b = rev (map (\<lambda>e. row_get e ''event_id'') (accepted os))"
    unfolding accounts_def by blast
  have l: "length (col_messages b) = length (accepted os) + length (rejected os)"
    using list_all2_lengthD [OF os(1)] by (simp add: outcome_lengths)
  have "list_all2 (\<lambda>m x. case x of
          Accepted e \<Rightarrow> \<exists>w0 w1. decode_event rt d verify (msg_value m) w0 = (Inr e, w1)
        | Rejected r \<Rightarrow> \<exists>t p i. msg_topic m = Some t \<and> msg_partition m = Some p \<and> msg_offset m = Some i \<and>
            holds_event api content (dq_table_uri dq) (dlq_event_id (rt_sha rt) t p i r) w') (col_messages b) os"
    using os(1)
  proof (rule list_all2_mono)
    fix m x assume "settled (kafka_quarantined rt pr con verify api dq) (decode_event rt d verify) w' m x"
    then show "case x of
          Accepted e \<Rightarrow> \<exists>w0 w1. decode_event rt d verify (msg_value m) w0 = (Inr e, w1)
        | Rejected r \<Rightarrow> \<exists>t p i. msg_topic m = Some t \<and> msg_partition m = Some p \<and> msg_offset m = Some i \<and>
            holds_event api content (dq_table_uri dq) (dlq_event_id (rt_sha rt) t p i r) w'"
      using assms(1) unfolding settled_def kafka_quarantined_def by (cases x) auto
  qed
  with c os l show ?thesis by auto
qed

lemma collected_batch_accounts_witness:
  "\<exists>b w'. collect_messages kw_consumer (decode_event kw_runtime strict_decoder kw_verify)
     (quarantine kw_runtime kw_producer kw_delta (dead_letters sample_arguments)) 1 1 kw_initial = Some (Inr b, w') \<and>
     int (length (col_events b)) + sum_list (map snd (col_reasons b)) = 1"
proof -
  obtain b w1 where b: "kw_collect = Some (Inr b, w1)" "length (col_messages b) = 1" by (rule kw_collect_value)
  note c = kw_collected [OF b]
  from collected_batch_accounts [OF kw_contract _ c] b(2) have "1 = int (length (col_events b)) + sum_list (map snd (col_reasons b))" by simp
  with c show ?thesis by (intro exI [of _ b] exI [of _ w1]) simp
qed

text \<open>
  Claim C30.  The collection loop ends, although a quiet topic never delivers a message: each idle poll uses
  up part of the idle timeout and each message part of the batch.
\<close>

theorem collect_messages_terminates:
  assumes "clock_advances con time \<delta>"
  shows "\<exists>r w'. collect_messages con decode sink maximum idle w = Some (r, w')"
proof -
  obtain now w1 where n: "con_monotonic con w = (now, w1)" by fastforce
  from collect_loop_terminates [OF assms, of decode sink maximum idle
    "\<lparr>col_events = [], col_messages = [], col_ids = [], col_reasons = []\<rparr>" "now + idle" w1]
  show ?thesis using n by (auto simp: collect_messages_def)
qed

lemma collect_messages_terminates_witness:
  "\<exists>r w'. collect_messages kw_consumer (decode_event kw_runtime strict_decoder kw_verify)
     (quarantine kw_runtime kw_producer kw_delta (dead_letters sample_arguments)) 100 300 kw_initial = Some (r, w')"
  by (rule collect_messages_terminates [OF kw_clock_advances])

text \<open>
  Claim C1.  Offsets are committed last: if a run moved the committed offsets at all, then it had collected a
  batch and, at the moment the commits began, every event decoded from the batch was in the scope's table and every
  rejected message was in the quarantine table.  So a run that fails before that loses nothing: its messages are
  delivered again.
\<close>

theorem run_commits_after_write:
  assumes "\<forall>c c'. kafka_contract rt (producer c) (consumer c') verify api content \<and> commits_only obs rt (producer c) (consumer c') verify api"
    and "run_ingest rt consumer producer api d verify env regular_file resolve a w = Some (x, w')" "obs w' \<noteq> obs w"
  shows "\<exists>scope c (b :: collected) os w2 y w3. check_run env regular_file resolve a = Inr (scope, c) \<and> obs w2 = obs w \<and>
    commit_messages (consumer c) (col_messages b) w2 = (y, w3) \<and> obs w' = obs w3 \<and>
    list_all2 (\<lambda>m x. case x of
        Accepted e \<Rightarrow> (\<exists>w0 w1. decode_event rt d verify (msg_value m) w0 = (Inr e, w1)) \<and>
          (\<exists>k. row_get e ''event_id'' = CText k \<and> holds_event api content (arg_table_uri a) k w2)
      | Rejected r \<Rightarrow> \<exists>t p i. msg_topic m = Some t \<and> msg_partition m = Some p \<and> msg_offset m = Some i \<and>
          holds_event api content (arg_dlq_table_uri a) (dlq_event_id (rt_sha rt) t p i r) w2) (col_messages b) os"
proof -
  from assms(1) have con: "kafka_contract rt (producer c) (consumer c') verify api content"
    and co: "commits_only obs rt (producer c) (consumer c') verify api" for c c' by blast+
  obtain started w0 where w0: "rt_clock rt w = (started, w0)" by fastforce
  have o0: "obs w0 = obs w" using commits_onlyD(1) [OF co, of w] w0 by simp
  obtain scope c where ch: "check_run env regular_file resolve a = Inr (scope, c)"
  proof (cases "check_run env regular_file resolve a")
    case (Inl e)
    with assms(2,3) w0 o0 show thesis by (simp add: run_ingest_def)
  next
    case (Inr sc)
    then show thesis using that by (cases sc) auto
  qed
  let ?pr = "producer (dlq_producer_configuration c)" and ?co = "consumer c"
  let ?collect = "collect_messages ?co (decode_event rt d verify) (quarantine rt ?pr api (dead_letters a)) (arg_max_messages a) (idle_seconds a) w0"
  obtain r w1 where cl: "?collect = Some (r, w1)"
    using assms(2) w0 ch by (cases ?collect) (auto simp: run_ingest_def)
  note cf = commits_onlyD [OF co [of "dlq_producer_configuration c" c]]
  have "obs w1 = obs w0" by (rule collect_messages_frame [OF _ _ _ _ cl]) (rule cf)+
  with o0 have o1: "obs w1 = obs w" by simp
  obtain b where r: "r = Inr b"
    using assms(2,3) w0 ch cl o1 by (cases r) (auto simp: run_ingest_def)
  from assms(2) w0 ch cl r have f: "finish_run rt ?co api a scope started b w1 = (x, w')" by (simp add: run_ingest_def)
  from f obtain counts w2 where s: "store_batch api (rt_str rt) (arg_table_uri a) scope (col_events b) w1 = (Inr counts, w2)"
    and rest: "bindA (commit_messages ?co (col_messages b)) (\<lambda>offsets. bindA (read_clock rt) (\<lambda>completed.
        pureA (make_report rt a scope started completed b counts offsets))) w2 = (x, w')"
    unfolding finish_run_def
  proof (cases rule: bindA_cases)
    case (error e)
    with frameD [OF cf(4)] o1 assms(3) show thesis by metis
  qed
  have o2: "obs w2 = obs w" using frameD [OF cf(4) s] o1 by simp
  obtain y w3 where cm: "commit_messages ?co (col_messages b) w2 = (y, w3)" by fastforce
  have o3: "obs w' = obs w3"
  proof (cases y)
    case (Inl e)
    with rest cm show ?thesis by (simp add: bindA_def)
  next
    case (Inr offsets)
    let ?rest = "bindA (read_clock rt) (\<lambda>completed. pureA (make_report rt a scope started completed b counts offsets))"
    from Inr rest cm have "?rest w3 = (x, w')" by (simp add: bindA_def)
    moreover have "frame obs ?rest" by (intro frame_intros commits_onlyD(1) [OF co])
    ultimately show ?thesis by (simp add: frame_def) (metis snd_conv)
  qed
  have dl: "dq_table_uri (dead_letters a) = arg_dlq_table_uri a" by (simp add: dead_letters_def)
  from stored_batch_durable [OF con check_run_maximum [OF ch] cl [unfolded r] s, unfolded dl] obtain os where
    "list_all2 (\<lambda>m x. case x of
        Accepted e \<Rightarrow> (\<exists>w0 w1. decode_event rt d verify (msg_value m) w0 = (Inr e, w1)) \<and>
          (\<exists>k. row_get e ''event_id'' = CText k \<and> holds_event api content (arg_table_uri a) k w2)
      | Rejected r \<Rightarrow> \<exists>t p i. msg_topic m = Some t \<and> msg_partition m = Some p \<and> msg_offset m = Some i \<and>
          holds_event api content (arg_dlq_table_uri a) (dlq_event_id (rt_sha rt) t p i r) w2) (col_messages b) os"
    by (rule exE)
  with ch o2 cm o3 show ?thesis
    by (intro exI [of _ scope] exI [of _ c] exI [of _ b] exI [of _ os] exI [of _ w2] exI [of _ y] exI [of _ w3] conjI)
qed

lemma run_commits_after_write_witness:
  "\<exists>x w' (b :: collected) w2. run_ingest kw_runtime (\<lambda>c. kw_consumer) (\<lambda>c. kw_producer) kw_delta strict_decoder kw_verify [] (\<lambda>f. True) id
      sample_arguments kw_initial = Some (x, w') \<and> kw_offsets w2 = [] \<and>
      kw_offsets w' = kw_offsets (snd (commit_messages kw_consumer (col_messages b) w2)) \<and> kw_offsets w' = [(''ports.calls.v1:0'', 8)]"
proof -
  obtain b w1 where b: "kw_collect = Some (Inr b, w1)" "length (col_messages b) = 1"
    and o: "kw_offsets (snd (finish_run kw_runtime kw_consumer kw_delta sample_arguments PLATFORM 0 b w1)) = [(''ports.calls.v1:0'', 8)]"
    by (rule kw_collect_value)
  obtain x w' where f: "finish_run kw_runtime kw_consumer kw_delta sample_arguments PLATFORM 0 b w1 = (x, w')" by fastforce
  from kw_check obtain sc where sc: "check_run [] (\<lambda>f. True) id sample_arguments = Inr sc" by (auto simp: is_ok_iff)
  have "map_sum (\<lambda>x. ()) fst (check_run [] (\<lambda>f. True) id sample_arguments) = Inr PLATFORM" by code_simp
  with sc obtain c where c: "check_run [] (\<lambda>f. True) id sample_arguments = Inr (PLATFORM, c)" by (cases sc) simp
  have a: "arg_max_messages sample_arguments = 1" "idle_seconds sample_arguments = 1"
    by (simp_all add: sample_arguments_def idle_seconds_def)
  have clk: "rt_clock kw_runtime kw_initial = (0, kw_initial)" by (simp add: kw_runtime_def)
  have r: "run_ingest kw_runtime (\<lambda>c. kw_consumer) (\<lambda>c. kw_producer) kw_delta strict_decoder kw_verify [] (\<lambda>f. True) id
      sample_arguments kw_initial = Some (x, w')"
    by (simp add: run_ingest_def clk c a kw_collected [OF b] f)
  have ne: "kw_offsets w' \<noteq> kw_offsets kw_initial" using o f by (simp add: kw_initial_def)
  have con: "\<forall>c c'. kafka_contract kw_runtime ((\<lambda>c. kw_producer) c) ((\<lambda>c. kw_consumer) c') kw_verify kw_delta snd \<and>
      commits_only kw_offsets kw_runtime ((\<lambda>c. kw_producer) c) ((\<lambda>c. kw_consumer) c') kw_verify kw_delta"
    using kw_contract kw_commits_only by simp
  from run_commits_after_write [OF con r ne] obtain b' :: collected and w2 y w3 where "kw_offsets w2 = kw_offsets kw_initial"
    "commit_messages kw_consumer (col_messages b') w2 = (y, w3)" "kw_offsets w' = kw_offsets w3" by blast
  with r o f show ?thesis by (intro exI [of _ x] exI [of _ w'] exI [of _ b'] exI [of _ w2]) (simp add: kw_initial_def)
qed

text \<open>
  A successful commit confirms, for exactly the partitions of the batch, the offset after the last
  message received from the partition, which the broker has acknowledged.
\<close>

theorem commit_covers_batch:
  assumes "commit_messages con ms w = (Inr offsets, w')"
  shows "list_all (\<lambda>m. \<exists>t p. msg_topic m = Some t \<and> msg_partition m = Some p \<and>
      (\<exists>i. msg_offset (last (of_partition t p ms)) = Some i \<and> map_of offsets (offset_key t p) = Some (i + 1))) ms \<and>
    (of_partition t p ms = [] \<longrightarrow> map_of offsets (offset_key t p) = None)"
proof
  note c = commit_messages_offsets [OF assms]
  show "list_all (\<lambda>m. \<exists>t p. msg_topic m = Some t \<and> msg_partition m = Some p \<and>
      (\<exists>i. msg_offset (last (of_partition t p ms)) = Some i \<and> map_of offsets (offset_key t p) = Some (i + 1))) ms"
    unfolding list_all_iff
  proof
    fix m assume m: "m \<in> set ms"
    with c obtain t p where tp: "msg_topic m = Some t" "msg_partition m = Some p" by blast
    with m have "of_partition t p ms \<noteq> []" by (auto simp: of_partition_def filter_empty_conv)
    with c have "msg_offset (last (of_partition t p ms)) \<noteq> None \<and>
        map_of offsets (offset_key t p) = map_option (\<lambda>i. i + 1) (msg_offset (last (of_partition t p ms)))" by simp
    with tp show "\<exists>t p. msg_topic m = Some t \<and> msg_partition m = Some p \<and>
      (\<exists>i. msg_offset (last (of_partition t p ms)) = Some i \<and> map_of offsets (offset_key t p) = Some (i + 1))" by auto
  qed
  from c show "of_partition t p ms = [] \<longrightarrow> map_of offsets (offset_key t p) = None" by simp
qed

lemma commit_covers_batch_witness:
  "map_of [(''ports.calls.v1:0'', 8 :: int)] (offset_key ''ferries.x'' 1) = None"
proof -
  have "fst (commit_messages kw_consumer [poison] kw_initial) = Inr [(''ports.calls.v1:0'', 8)]" by code_simp
  then obtain w' where "commit_messages kw_consumer [poison] kw_initial = (Inr [(''ports.calls.v1:0'', 8)], w')"
    by (metis prod.collapse)
  from commit_covers_batch [OF this, of "''ferries.x''" 1] show ?thesis by (simp add: of_partition_def poison_def)
qed

text \<open>
  An accepted transport never commits offsets on its own and is encrypted unless it was explicitly
  opened to localhost brokers only; SASL credentials are present exactly with SASL_SSL; and the dead-letter producer
  runs on the same brokers with the same security settings and waits for all replicas.
\<close>

theorem transport_guarded:
  assumes "validate_transport env regular_file a = Inr conf"
  shows "row_get conf ''enable.auto.commit'' = CBool False \<and> row_get conf ''enable.auto.offset.store'' = CBool False \<and>
    (if arg_security_protocol a = ''PLAINTEXT''
     then arg_allow_insecure a \<and> list_all local_bootstrap (map strip (split_on (CHR '','') (arg_bootstrap a)))
     else \<not> arg_allow_insecure a \<and> (\<exists>ca. arg_ssl_ca a = Some ca \<and> regular_file ca \<and> row_get conf ''ssl.ca.location'' = CText (posix_path_str ca))) \<and>
    (row_get conf ''sasl.password'' \<noteq> CNone \<longleftrightarrow> arg_security_protocol a = ''SASL_SSL'') \<and>
    list_all (\<lambda>k. row_get (dlq_producer_configuration conf) k = row_get conf k)
      [''bootstrap.servers'', ''security.protocol'', ''ssl.ca.location'', ''sasl.mechanism'', ''sasl.username'', ''sasl.password''] \<and>
    row_get (dlq_producer_configuration conf) ''acks'' = CText ''all'' \<and> row_get (dlq_producer_configuration conf) ''group.id'' = CNone"
proof -
  have dropped: "map_of (filter (\<lambda>(k, v). P k) c) k = (if P k then map_of c k else None)" for P and c :: row and k
    by (induction c) auto
  from assms obtain c where c: "transport_security regular_file a (base_configuration a) = Inr c" "transport_sasl env a c = Inr conf"
    by (auto simp: validate_transport_def bindR_Inr_iff)
  have base: "row_get c ''enable.auto.commit'' = CBool False" "row_get c ''enable.auto.offset.store'' = CBool False"
    "row_get c ''sasl.password'' = CNone"
    "if arg_security_protocol a = ''PLAINTEXT''
     then arg_allow_insecure a \<and> list_all local_bootstrap (map strip (split_on (CHR '','') (arg_bootstrap a)))
     else \<not> arg_allow_insecure a \<and> (\<exists>ca. arg_ssl_ca a = Some ca \<and> regular_file ca \<and> row_get c ''ssl.ca.location'' = CText (posix_path_str ca))"
    using c(1) by (auto simp: transport_security_def base_configuration_def bindR_Inr_iff split: if_splits)
  from c(2) have "row_get conf ''enable.auto.commit'' = row_get c ''enable.auto.commit''"
    "row_get conf ''enable.auto.offset.store'' = row_get c ''enable.auto.offset.store''"
    "row_get conf ''ssl.ca.location'' = row_get c ''ssl.ca.location''"
    "row_get conf ''sasl.password'' \<noteq> row_get c ''sasl.password'' \<longleftrightarrow> arg_security_protocol a = ''SASL_SSL''"
    using base(3) by (auto simp: transport_sasl_def bindR_Inr_iff Let_def split: if_splits)
  moreover have "list_all (\<lambda>k. row_get (dlq_producer_configuration conf) k = row_get conf k)
      [''bootstrap.servers'', ''security.protocol'', ''ssl.ca.location'', ''sasl.mechanism'', ''sasl.username'', ''sasl.password'']"
    "row_get (dlq_producer_configuration conf) ''acks'' = CText ''all''" "row_get (dlq_producer_configuration conf) ''group.id'' = CNone"
    by (simp_all add: dlq_producer_configuration_def row_get_def dropped)
  ultimately show ?thesis using base by simp
qed

lemma transport_guarded_witness:
  "is_ok (validate_transport [] (\<lambda>f. True) sample_arguments) \<and> arg_allow_insecure sample_arguments"
proof -
  have ok: "is_ok (validate_transport [] (\<lambda>f. True) sample_arguments)" by code_simp
  then obtain conf where "validate_transport [] (\<lambda>f. True) sample_arguments = Inr conf" by (auto simp: is_ok_iff)
  moreover have "arg_security_protocol sample_arguments = ''PLAINTEXT''" by (simp add: sample_arguments_def)
  ultimately have "arg_allow_insecure sample_arguments"
    using transport_guarded [of "[]" "\<lambda>f. True" sample_arguments conf] by simp
  with ok show ?thesis by blast
qed

text \<open>
  Only value errors are poison: a message on which \<open>json.loads\<close> raises another exception (a
  \<open>RecursionError\<close> for deeply nested JSON) is not quarantined; it ends the loop, and the batch is never committed, so the
  same message stops every later run.
\<close>

theorem deep_json_halts:
  assumes "con_monotonic con w = (now, w1)" "now < deadline" "int (length (col_messages st)) < maximum"
    and "con_poll con (min 1 (deadline - now)) w1 = (Inr (Some m), w2)" "msg_error m = None"
    and "msg_value m = Some v" "v \<noteq> []" "int (length v) \<le> MAX_LINE_BYTES" "dec_utf8 d v = Some body"
    and "dec_loads d body = Inl e" "\<not> is_value_error (exn_class e)"
  shows "collect_loop con (decode_event rt d verify) sink maximum idle st deadline w = Some (Inl e, w2)"
proof -
  from assms(6-10) have "parse_message d (msg_value m) = Inl e" by (simp add: parse_message_def)
  then have "decode_new (decode_event rt d verify) st m w2 = (Inl e, w2)"
    by (simp add: decode_new_def decode_event_def decode_document_def bindA_def pureA_def)
  with assms(11) have "take_message (decode_event rt d verify) sink st m w2 = (Inl e, w2)" by (simp add: take_message_def)
  with assms(1-5) have "loop_step con (decode_event rt d verify) sink maximum idle st deadline w = Finished (Inl e) w2"
    by (simp add: loop_step_def)
  then show ?thesis by (subst collect_loop.simps) simp
qed

lemma deep_json_halts_witness:
  "\<forall>sink. collect_loop kw_consumer (decode_event kw_runtime (strict_decoder\<lparr>dec_loads := (\<lambda>s. raise RecursionError [])\<rparr>) kw_verify) sink 1 1
     \<lparr>col_events = [], col_messages = [], col_ids = [], col_reasons = []\<rparr> 1 kw_initial =
   Some (Inl (Exn RecursionError []), kw_initial\<lparr>kw_time := 1, kw_queue := []\<rparr>)"
proof -
  have p: "con_poll kw_consumer (min 1 (1 - 0)) kw_initial = (Inr (Some poison), kw_initial\<lparr>kw_time := 1, kw_queue := []\<rparr>)"
    by code_simp
  show ?thesis
    by (rule allI, rule deep_json_halts [OF _ _ _ p, where v = "''{''" and body = "''{''"])
       (simp_all add: kw_consumer_def kw_initial_def poison_def strict_decoder_def MAX_LINE_BYTES_def raise_def)
qed

end
