(* ===== verification/Scope_Medallion.thy ===== *)
theory Scope_Medallion
  imports Json_Dumps
begin

text \<open>
  \<open>scope_medallion.py\<close>: the bronze and silver pipeline of the \<open>mrv\<close> and \<open>bluecarbon\<close> scopes.  Its append loop is
  the one of \<^term>\<open>append_deduplicated\<close>, with a guard over its own identity columns.
\<close>

definition GENERIC_MEDALLION_SCOPES :: "lakehouse_scope list" where
  "GENERIC_MEDALLION_SCOPES = [MRV, BLUECARBON]"

definition SCOPE_SILVER_IDENTITY_COLUMNS :: "string list" where
  "SCOPE_SILVER_IDENTITY_COLUMNS =
     [''event_id'', ''event_type'', ''producer'', ''occurred_at'', ''recorded_at'', ''data_classification'',
      ''source_system'', ''source_record_reference'', ''correlation_id'', ''payload_json'',
      ''kafka_topic'', ''kafka_partition'', ''kafka_offset'']"

definition require_generic_medallion_scope :: "lakehouse_scope \<Rightarrow> unit res" where
  "require_generic_medallion_scope scope =
     guard (scope \<in> set GENERIC_MEDALLION_SCOPES) BoundaryViolationError
       ''the generic bronze/silver medallion pipeline is only defined for mrv and bluecarbon''"

definition new_scope_metadata :: "lakehouse_scope \<Rightarrow> string \<Rightarrow> cell \<Rightarrow> cell \<Rightarrow> kafka_metadata res" where
  "new_scope_metadata scope topic part offs =
     bindR (require_generic_medallion_scope scope) (\<lambda>_.
     bindR (enforce_topic_scope topic scope) (\<lambda>_.
     bindR (require_non_negative part) (\<lambda>p.
     bindR (require_non_negative offs) (\<lambda>o'.
     Inr \<lparr>meta_topic = topic, meta_partition = p, meta_offset = o'\<rparr>))))"

definition scope_silver_dedup_key :: "(string \<Rightarrow> string) \<Rightarrow> kafka_metadata \<Rightarrow> string \<Rightarrow> string" where
  "scope_silver_dedup_key sha m event_id = sha (dedup_material m event_id)"

definition build_scope_silver_record :: "(string \<Rightarrow> string) \<Rightarrow> int \<Rightarrow> row \<Rightarrow> kafka_metadata \<Rightarrow> row res" where
  "build_scope_silver_record sha now event m =
     bindR (require_some (cell_text (row_get event ''event_id'')) ValueError ''bronze event is missing event_id'') (\<lambda>event_id.
     bindR (guard (event_id \<noteq> []) ValueError ''bronze event is missing event_id'') (\<lambda>_.
     Inr (map (\<lambda>c. (c, row_get event c)) (take 10 SCOPE_SILVER_IDENTITY_COLUMNS) @
       [(''kafka_topic'', CText (meta_topic m)),
        (''kafka_partition'', CInt (meta_partition m)),
        (''kafka_offset'', CInt (meta_offset m)),
        (''dedup_key'', CText (scope_silver_dedup_key sha m event_id)),
        (''promoted_at'', CTime now)])))"

definition append_scope_bronze :: "('w, 't) delta_api \<Rightarrow> (cell \<Rightarrow> string) \<Rightarrow> delta_writer \<Rightarrow> row list \<Rightarrow> string option \<Rightarrow>
    retention_policy option \<Rightarrow> ('w, int \<times> int \<times> int) act" where
  "append_scope_bronze api ps writer events kafka_topic retention =
     bindA (pureA (require_generic_medallion_scope (writer_scope writer))) (\<lambda>_.
     let policy = (case retention of None \<Rightarrow> default_policy | Some p \<Rightarrow> p)
     in bindA (pureA (guard_write writer ''bronze'' events kafka_topic)) (\<lambda>uri.
        append_events api ps uri events
          (Some (as_table_description policy (upper (scope_value (writer_scope writer)))))))"

definition reject_conflicting_scope_replays :: "('w, 't) delta_api \<Rightarrow> (cell \<Rightarrow> string) \<Rightarrow> 't \<Rightarrow> row list \<Rightarrow> unit res" where
  "reject_conflicting_scope_replays api ps table records =
     reject_conflicts api ps SCOPE_SILVER_IDENTITY_COLUMNS (SCOPE_SILVER_IDENTITY_COLUMNS @ [''dedup_key'']) ''dedup_key'' table records"


section \<open>Lemmas\<close>

interpretation scope_guard: replay_guard api ps "''dedup_key''" "reject_conflicting_scope_replays api ps"
    "\<lambda>rows. SCOPE_SILVER_IDENTITY_COLUMNS" "\<lambda>rows. SCOPE_SILVER_IDENTITY_COLUMNS @ [''dedup_key'']"
  for api ps
  by unfold_locales (auto simp: reject_conflicting_scope_replays_def dest: reject_conflicts_guarded)







section \<open>Properties\<close>





end
