(* ===== verification/Envelope_Payload.thy ===== *)
theory Envelope_Payload
  imports Json_Dumps
begin

text \<open>
  \<open>envelope_payload.py\<close>: the flat domain record of a retained payload, and the steps the gold assemblers
  share: reading the fields of a silver event and rebuilding a gold table from the silver one.
  \<open>loads\<close> is \<open>json.loads\<close>.
\<close>

section \<open>Domain fields\<close>

definition DOMAIN_PAYLOAD_EXTENSION_URL :: string where
  "DOMAIN_PAYLOAD_EXTENSION_URL = ''https://blueeconomy.gov.ng/fhir/StructureDefinition/domain-payload''"

definition CARRIAGE_FIELDS :: "string list" where
  "CARRIAGE_FIELDS = [''resourceType'', ''id'', ''code'', ''extension'', ''provenance'', ''meta'', ''text'']"

text \<open>\<open>flds.update(document)\<close>.\<close>

definition dict_update :: "('k \<times> 'v) list \<Rightarrow> ('k \<times> 'v) list \<Rightarrow> ('k \<times> 'v) list" where
  "dict_update d e = foldl (\<lambda>d (k, v). AList.update k v d) d e"

definition extension_step :: "(string \<Rightarrow> json res) \<Rightarrow> jobject \<Rightarrow> json \<Rightarrow> jobject res" where
  "extension_step loads flds entry =
     bindR (require_some (json_obj entry) ValueError ''payload extension entries must be JSON objects'') (\<lambda>e.
     if jget e ''url'' \<noteq> JStr DOMAIN_PAYLOAD_EXTENSION_URL then Inr flds
     else
       bindR (require_some (json_text (jget e ''valueString'')) ValueError
                ''domain-payload extension must carry a non-empty JSON document'') (\<lambda>document_text.
       bindR (guard (strip document_text \<noteq> []) ValueError
                ''domain-payload extension must carry a non-empty JSON document'') (\<lambda>_.
       bindR (loads document_text) (\<lambda>document.
       bindR (require_some (json_obj document) ValueError ''domain-payload extension document must be a JSON object'') (\<lambda>d.
       Inr (dict_update flds d))))))"

definition extract_domain_fields :: "(string \<Rightarrow> json res) \<Rightarrow> json \<Rightarrow> jobject res" where
  "extract_domain_fields loads payload =
     bindR (require_some (json_obj payload) ValueError ''event payload must be a JSON object'') (\<lambda>p.
     let flds = filter (\<lambda>(k, v). k \<notin> set CARRIAGE_FIELDS) p; extension = jget p ''extension''
     in if extension = JNull then Inr flds
        else bindR (require_some (json_list extension) ValueError ''payload extension must be a JSON array'') (\<lambda>entries.
             foldR (extension_step loads) flds entries))"

section \<open>Silver events\<close>

text \<open>\<open>isinstance(value, str)\<close> and \<open>isinstance(value, datetime)\<close> of an event's column.\<close>

definition event_text :: "row \<Rightarrow> string \<Rightarrow> string res" where
  "event_text e k = require_some (cell_text (row_get e k)) ValueError k"

definition event_time :: "row \<Rightarrow> string \<Rightarrow> int res" where
  "event_time e k = require_some (cell_time (row_get e k)) ValueError k"

text \<open>\<open>isinstance(value, str) and value.strip()\<close> of a domain field.\<close>

definition nonblank :: "string \<Rightarrow> bool" where
  "nonblank s = (strip s \<noteq> [])"

definition require_field_text :: "jobject \<Rightarrow> string \<Rightarrow> string res" where
  "require_field_text flds name =
     bindR (require_some (json_text (jget flds name)) ValueError ''field must be non-empty text'') (\<lambda>s.
     bindR (guard (nonblank s) ValueError ''field must be non-empty text'') (\<lambda>_. Inr s))"

lemma require_field_text_Inr: "require_field_text d k = Inr s \<longleftrightarrow> jget d k = JStr s \<and> nonblank s"
  by (auto simp: require_field_text_def bindR_Inr_iff)

section \<open>The latest entry per key\<close>

text \<open>
  \<open>existing is None or (occurred_at, event_id) > (existing ...)\<close>: the test by which the assemblers keep the
  latest event of every key.
\<close>

definition newer :: "('k \<times> 'e) list \<Rightarrow> ('e \<Rightarrow> int \<times> string) \<Rightarrow> 'k \<Rightarrow> int \<times> string \<Rightarrow> bool" where
  "newer d order k at_id = (case map_of d k of None \<Rightarrow> True | Some e \<Rightarrow> order e < at_id)"

text \<open>
  A dictionary holds the latest of a list of candidates: \<open>view\<close> is the part of an entry that comes from the candidate.
\<close>

definition holds_latest :: "('k \<times> 'e) list \<Rightarrow> ('e \<Rightarrow> 'v) \<Rightarrow> ('v \<Rightarrow> int \<times> string) \<Rightarrow> ('k \<times> 'v) list \<Rightarrow> bool" where
  "holds_latest d view order items \<longleftrightarrow> distinct (map fst d) \<and>
     (\<forall>k. case map_of d k of
        None \<Rightarrow> k \<notin> fst ` set items
      | Some e \<Rightarrow> (k, view e) \<in> set items \<and> (\<forall>v. (k, v) \<in> set items \<longrightarrow> order v \<le> order (view e)))"

lemma holds_latest_Nil: "holds_latest [] view order []"
  by (simp add: holds_latest_def)

lemma holds_latest_at:
  assumes "holds_latest d view order items"
  shows "case map_of d k of
        None \<Rightarrow> k \<notin> fst ` set items
      | Some e \<Rightarrow> (k, view e) \<in> set items \<and> (\<forall>v. (k, v) \<in> set items \<longrightarrow> order v \<le> order (view e))"
  using assms unfolding holds_latest_def by blast

lemma holds_latest_newer:
  assumes "holds_latest d view order items" "newer d (\<lambda>e. order (view e)) k (order v)" "view e = v"
  shows "holds_latest (AList.update k e d) view order (items @ [(k, v)])"
proof -
  have "case map_of (AList.update k e d) k' of
        None \<Rightarrow> k' \<notin> fst ` set (items @ [(k, v)])
      | Some e \<Rightarrow> (k', view e) \<in> set (items @ [(k, v)]) \<and> (\<forall>v'. (k', v') \<in> set (items @ [(k, v)]) \<longrightarrow> order v' \<le> order (view e))" for k'
  proof (cases "k' = k")
    case True
    have "order v' \<le> order v" if "(k, v') \<in> set items" for v'
    proof (cases "map_of d k")
      case None
      with holds_latest_at [OF assms(1), of k] that show ?thesis by force
    next
      case (Some x)
      with holds_latest_at [OF assms(1), of k] that have "order v' \<le> order (view x)" by simp
      also from Some assms(2) have "order (view x) < order v" by (simp add: newer_def)
      finally show ?thesis by simp
    qed
    with True assms(3) show ?thesis by auto
  next
    case False
    with holds_latest_at [OF assms(1), of k'] show ?thesis by (cases "map_of d k'") auto
  qed
  then show ?thesis using assms(1) unfolding holds_latest_def by (blast intro: distinct_keys_update)
qed

lemma holds_latest_older:
  assumes "holds_latest d view order items" "\<not> newer d (\<lambda>e. order (view e)) k (order v)"
  shows "holds_latest d view order (items @ [(k, v)])"
proof -
  have "case map_of d k' of
        None \<Rightarrow> k' \<notin> fst ` set (items @ [(k, v)])
      | Some e \<Rightarrow> (k', view e) \<in> set (items @ [(k, v)]) \<and> (\<forall>v'. (k', v') \<in> set (items @ [(k, v)]) \<longrightarrow> order v' \<le> order (view e))" for k'
    using holds_latest_at [OF assms(1), of k'] assms(2)
    by (cases "map_of d k'") (auto simp: newer_def not_less split: option.splits)
  then show ?thesis using assms(1) unfolding holds_latest_def by blast
qed

lemma holds_latest_keys: "holds_latest d view order items \<Longrightarrow> fst ` set d = fst ` set items"
proof -
  assume h: "holds_latest d view order items"
  have "k \<in> fst ` set d \<longleftrightarrow> k \<in> fst ` set items" for k
    using holds_latest_at [OF h, of k] map_of_eq_None_iff [of d k]
    by (cases "map_of d k") (auto intro: rev_image_eqI)
  then show ?thesis by blast
qed

lemma holds_latest_entry:
  assumes "holds_latest d view order items" "(k, e) \<in> set d"
  shows "(k, view e) \<in> set items \<and> (\<forall>v. (k, v) \<in> set items \<longrightarrow> order v \<le> order (view e))"
proof -
  from assms have "map_of d k = Some e" by (simp add: holds_latest_def)
  with holds_latest_at [OF assms(1), of k] show ?thesis by simp
qed

lemma sorted_fst_strict: "distinct (map fst d) \<Longrightarrow> sorted_wrt (<) (map fst (sort_key fst d))"
  for d :: "('a :: linorder \<times> 'b) list"
  by (simp add: strict_sorted_iff distinct_map)

lemma keyed_distinct:
  assumes "list_all2 (\<lambda>k r. key r = f k) keys rows" "distinct keys" "inj f"
  shows "distinct (map key rows)"
proof -
  from assms(1) have "map key rows = map f keys" by (induction rule: list_all2_induct) simp_all
  with assms(2,3) show ?thesis by (simp add: distinct_map inj_on_def)
qed

section \<open>Rebuilding a gold table\<close>

text \<open>
  The body that the \<open>mrv\<close>, \<open>bluecarbon\<close> and \<open>excise\<close> assemblers share: read the silver events, build the rows, and
  overwrite the gold table with them.
\<close>

definition SILVER_EVENT_COLUMNS :: "string list" where
  "SILVER_EVENT_COLUMNS = [''event_id'', ''event_type'', ''occurred_at'', ''payload_json'']"

definition open_silver :: "('w, 't) delta_api \<Rightarrow> string \<Rightarrow> ('w, 't) act" where
  "open_silver api uri w =
     (case api_open api uri w of
        Inl e \<Rightarrow> (if exn_class e = TableNotFoundError then raise ValueError ''cannot assemble gold before the silver table exists''
                  else Inl e, w)
      | Inr t \<Rightarrow> (Inr t, w))"

definition write_gold :: "('w, 't) delta_api \<Rightarrow> string \<Rightarrow> row list \<Rightarrow> arrow_schema \<Rightarrow> string \<Rightarrow> string \<Rightarrow> ('w, int \<times> int) act" where
  "write_gold api uri rows schema name description =
     bindA (pureA (api_from_pylist api rows (Some schema))) (\<lambda>arrow_table.
     bindA (api_overwrite api uri arrow_table name description) (\<lambda>_.
     bindA (\<lambda>w. (api_open api uri w, w)) (\<lambda>t. pureA (Inr (api_version api t, int (length rows))))))"

definition rebuild_gold :: "('w, 't) delta_api \<Rightarrow> delta_writer \<Rightarrow> bool \<Rightarrow> (row list \<Rightarrow> row list res) \<Rightarrow> string res \<Rightarrow>
    arrow_schema \<Rightarrow> string \<Rightarrow> string \<Rightarrow> ('w, int \<times> int) act" where
  "rebuild_gold api writer require_events build gold_uri schema name description =
     bindA (pureA (table_uri writer ''silver'')) (\<lambda>silver_uri.
     bindA (open_silver api silver_uri) (\<lambda>silver.
     bindA (pureA (api_read api silver SILVER_EVENT_COLUMNS None)) (\<lambda>events.
     bindA (pureA (guard (require_events \<longrightarrow> events \<noteq> []) ValueError ''cannot assemble gold from an empty silver table'')) (\<lambda>_.
     bindA (pureA (build events)) (\<lambda>rows.
     bindA (pureA gold_uri) (\<lambda>uri.
     write_gold api uri rows schema name description))))))"

section \<open>The gold tables\<close>

text \<open>
  What the theorems on gold tables rely on besides \<^term>\<open>delta_contract\<close>: a committed overwrite leaves exactly the rows of the
  Arrow table it was given, and a read without a selection returns the content.
\<close>

definition overwrite_contract :: "('w, 't) delta_api \<Rightarrow> ('t \<Rightarrow> row list) \<Rightarrow> bool" where
  "overwrite_contract api content \<longleftrightarrow>
     (\<forall>uri rows name d w w'. api_overwrite api uri rows name d w = (Inr (), w') \<longrightarrow>
        (\<exists>t. api_open api uri w' = Inr t \<and> content t = rows)) \<and>
     (\<forall>t rs. api_read_all api t = Inr rs \<longrightarrow> rs = content t)"

lemma contract_unfiltered_read:
  assumes "delta_contract api content" "api_read api t cols None = Inr rs"
  shows "rs = map (project cols) (content t)"
proof -
  from assms(1) [unfolded delta_contract_def, THEN conjunct1] assms(2)
  have "rs = map (project cols) (selected None (content t))" by blast
  then show ?thesis by (simp add: selected_def)
qed

lemma mem_overwrite_contract: "overwrite_contract mem_delta snd"
  by (auto simp: overwrite_contract_def mem_delta_def)

lemma overwrite_open:
  "overwrite_contract api content \<Longrightarrow> api_overwrite api uri rows name d w = (Inr (), w') \<Longrightarrow>
   \<exists>t. api_open api uri w' = Inr t \<and> content t = rows"
  by (simp add: overwrite_contract_def)

text \<open>Rows that have the columns of the schema, in its order.\<close>

definition shaped :: "arrow_schema \<Rightarrow> row list \<Rightarrow> bool" where
  "shaped schema rows \<longleftrightarrow> distinct (map fst schema) \<and> (\<forall>r\<in>set rows. map fst r = map fst schema)"

lemma shaped_arrow_rows: "shaped schema rows \<Longrightarrow> arrow_rows rows (Some schema) = rows"
  by (rule arrow_rows_same) (auto simp: shaped_def arrow_columns_def)

lemma write_gold_content:
  assumes "delta_contract api content" "overwrite_contract api content" "shaped schema rows"
    and "write_gold api uri rows schema name d w = (Inr (v, n), w')"
  shows "\<exists>t. api_open api uri w' = Inr t \<and> content t = rows \<and> v = api_version api t \<and> n = int (length rows)"
proof -
  from assms(4) obtain source w1 t where t: "api_from_pylist api rows (Some schema) = Inr source"
    "api_overwrite api uri source name d w = (Inr (), w1)" "api_open api uri w1 = Inr t" "w' = w1"
    "v = api_version api t" "n = int (length rows)"
    by (auto simp: write_gold_def bindA_Inr)
  from contract_arrow [OF assms(1) t(1)] have "source = rows" by (simp add: shaped_arrow_rows [OF assms(3)])
  with overwrite_open [OF assms(2) t(2)] t show ?thesis by auto
qed

lemma rebuild_gold_cases:
  assumes "rebuild_gold api writer req build gold_uri schema name d w = (Inr (v, n), w')"
  obtains silver_uri silver events rows uri where
    "table_uri writer ''silver'' = Inr silver_uri" "api_open api silver_uri w = Inr silver"
    "api_read api silver SILVER_EVENT_COLUMNS None = Inr events" "req \<longrightarrow> events \<noteq> []" "build events = Inr rows"
    "gold_uri = Inr uri" "write_gold api uri rows schema name d w = (Inr (v, n), w')"
proof -
  from assms obtain silver_uri silver w1 events rows uri where s: "table_uri writer ''silver'' = Inr silver_uri"
    "open_silver api silver_uri w = (Inr silver, w1)" "api_read api silver SILVER_EVENT_COLUMNS None = Inr events"
    "req \<longrightarrow> events \<noteq> []" "build events = Inr rows" "gold_uri = Inr uri"
    "write_gold api uri rows schema name d w1 = (Inr (v, n), w')"
    unfolding rebuild_gold_def bindA_Inr by auto
  from s(2) have "api_open api silver_uri w = Inr silver \<and> w1 = w"
    by (auto simp: open_silver_def split: sum.splits if_splits)
  with s show ?thesis using that by blast
qed

text \<open>
  The interface of a gold product: its rows are keyed and have the columns of its schema.  A table rebuilt from it is what the
  product makes of the current silver events, has one row per key, and depends on nothing the table held before.
\<close>

locale gold_product =
  fixes build :: "row list \<Rightarrow> row list res"
    and key :: "row \<Rightarrow> 'k"
    and schema :: arrow_schema
  assumes keyed: "build events = Inr rows \<Longrightarrow> distinct (map key rows)"
    and in_shape: "build events = Inr rows \<Longrightarrow> shaped schema rows"
begin

lemma rebuilt:
  assumes "delta_contract api content" "overwrite_contract api content"
    and "rebuild_gold api writer req build gold_uri schema name d w = (Inr (v, n), w')"
  shows "\<exists>silver_uri silver uri gold. table_uri writer ''silver'' = Inr silver_uri \<and> api_open api silver_uri w = Inr silver \<and>
    gold_uri = Inr uri \<and> api_open api uri w' = Inr gold \<and>
    build (map (project SILVER_EVENT_COLUMNS) (content silver)) = Inr (content gold) \<and>
    distinct (map key (content gold)) \<and> n = int (length (content gold)) \<and> v = api_version api gold"
proof -
  from assms(3) obtain silver_uri silver events rows uri where s: "table_uri writer ''silver'' = Inr silver_uri"
    "api_open api silver_uri w = Inr silver" "api_read api silver SILVER_EVENT_COLUMNS None = Inr events"
    "build events = Inr rows" "gold_uri = Inr uri" "write_gold api uri rows schema name d w = (Inr (v, n), w')"
    by (rule rebuild_gold_cases)
  from contract_unfiltered_read [OF assms(1) s(3)]
  have e: "events = map (project SILVER_EVENT_COLUMNS) (content silver)" .
  from write_gold_content [OF assms(1,2) in_shape [OF s(4)] s(6)] obtain gold where
    g: "api_open api uri w' = Inr gold" "content gold = rows" "v = api_version api gold" "n = int (length rows)" by blast
  from keyed [OF s(4)] g(2) have "distinct (map key (content gold))" by simp
  with s e g show ?thesis by auto
qed

lemma one_row_per_key:
  "build events = Inr rows \<Longrightarrow> r \<in> set rows \<Longrightarrow> r' \<in> set rows \<Longrightarrow> key r = key r' \<Longrightarrow> r = r'"
  using keyed by (fastforce simp: distinct_map inj_on_def)

end

end
