(* ===== verification/Py_Float.thy ===== *)
theory Py_Float
  imports Py_Values
begin

text \<open>
  Arithmetic on doubles: the exact result rounded to the nearest double, ties to even, with gradual
  underflow and overflow to the infinities.
\<close>

definition round_half_even :: "rat \<Rightarrow> int" where
  "round_half_even q =
     (let f = \<lfloor>q\<rfloor>; r = q - of_int f
      in if r < 1 / 2 then f else if 1 / 2 < r then f + 1 else if even f then f else f + 1)"

definition pow2 :: "int \<Rightarrow> rat" where
  "pow2 e = (if 0 \<le> e then 2 ^ nat e else 1 / 2 ^ nat (- e))"

text \<open>The exponent of the leading bit of a positive number.\<close>

definition leading_exponent :: "rat \<Rightarrow> int" where
  "leading_exponent q =
     (case quotient_of q of (n, d) \<Rightarrow>
        let k = int (bit_length (nat n)) - int (bit_length (nat d))
        in if pow2 k \<le> q then k else k - 1)"

definition round_double :: "rat \<Rightarrow> pyfloat" where
  "round_double q =
     (if q = 0 then PFin 0
      else
        let a = \<bar>q\<bar>; e = max (leading_exponent a - 52) (- 1074);
            r = of_int (round_half_even (a / pow2 e)) * pow2 e
        in if 2 ^ 1024 \<le> r then (if 0 < q then PInf else PNegInf)
           else PFin (if 0 < q then r else - r))"

text \<open>\<open>a + b\<close>, \<open>a - b\<close>, \<open>a * b\<close> and \<open>a / b\<close> of doubles; division by zero raises.\<close>

fun fl_neg :: "pyfloat \<Rightarrow> pyfloat" where
  "fl_neg (PFin a) = PFin (- a)"
| "fl_neg PInf = PNegInf"
| "fl_neg PNegInf = PInf"
| "fl_neg PNaN = PNaN"

fun fl_add :: "pyfloat \<Rightarrow> pyfloat \<Rightarrow> pyfloat" where
  "fl_add (PFin a) (PFin b) = round_double (a + b)"
| "fl_add PNaN b = PNaN"
| "fl_add a PNaN = PNaN"
| "fl_add PInf b = (if b = PNegInf then PNaN else PInf)"
| "fl_add PNegInf b = (if b = PInf then PNaN else PNegInf)"
| "fl_add (PFin a) b = b"

definition fl_sub :: "pyfloat \<Rightarrow> pyfloat \<Rightarrow> pyfloat" where
  "fl_sub a b = fl_add a (fl_neg b)"

lemma pow2_pos: "0 < pow2 e"
  by (simp add: pow2_def)

lemma round_half_even_nonneg: "0 \<le> q \<Longrightarrow> 0 \<le> round_half_even q"
  by (auto simp: round_half_even_def Let_def)

lemma round_double_nonneg: "0 \<le> q \<Longrightarrow> fl_le (PFin 0) (round_double q)"
proof -
  assume q: "0 \<le> q"
  have "0 \<le> round_half_even (\<bar>q\<bar> / pow2 e)" for e
    using pow2_pos [of e] by (intro round_half_even_nonneg divide_nonneg_pos) simp_all
  moreover have "0 \<le> pow2 e" for e
    using pow2_pos [of e] by simp
  ultimately have "0 \<le> of_int (round_half_even (\<bar>q\<bar> / pow2 e)) * pow2 e" for e
    by simp
  then show ?thesis
    using q by (simp add: round_double_def Let_def)
qed

lemma fl_add_nonneg: "fl_le (PFin 0) a \<Longrightarrow> fl_le (PFin 0) b \<Longrightarrow> fl_le (PFin 0) (fl_add a b)"
  by (cases a; cases b) (simp_all add: round_double_nonneg)

end
