(* ===== verification/Export_Consignment.thy ===== *)
theory Export_Consignment
  imports Envelope_Payload Py_Float
begin

text \<open>
  \<open>export_consignment.py\<close>: the gold table of export consignments of the fisheries scope, and the
  clearance-filtered reads of it.  \<open>loads\<close> is \<open>json.loads\<close>, \<open>sha\<close> the SHA-256 hex digest, \<open>fr\<close> the rendering of
  floats, \<open>now\<close> the clock, and \<open>names\<close> the column names of a table handle.
\<close>

section \<open>Reading one event\<close>

definition consignment_id_pattern :: "string \<Rightarrow> bool" where
  "consignment_id_pattern s = (s \<noteq> [] \<and> length s \<le> 128 \<and> is_alnum (hd s) \<and>
     list_all (\<lambda>c. is_alnum c \<or> c \<in> set ''._-'') (tl s))"

definition CATCH_EVENT_TYPE_PREFIX :: string where "CATCH_EVENT_TYPE_PREFIX = ''fisheries.catch.''"
definition CUSTODY_EVENT_TYPE_PREFIX :: string where "CUSTODY_EVENT_TYPE_PREFIX = ''fisheries.custody.''"
definition COLDCHAIN_EVENT_TYPE_PREFIX :: string where "COLDCHAIN_EVENT_TYPE_PREFIX = ''coldchain.''"
definition EXPORT_EVENT_TYPE_PREFIX :: string where "EXPORT_EVENT_TYPE_PREFIX = ''export.''"

definition MIN_TEMPERATURE_CELSIUS :: pyfloat where "MIN_TEMPERATURE_CELSIUS = PFin (- 80)"
definition MAX_TEMPERATURE_CELSIUS :: pyfloat where "MAX_TEMPERATURE_CELSIUS = PFin 60"

definition consignment_id_of :: "jobject \<Rightarrow> string res" where
  "consignment_id_of payload =
     bindR (require_some (json_text (jget payload ''consignmentId'')) ValueError ''must carry a consignmentId'') (\<lambda>s.
     bindR (guard (consignment_id_pattern s) ValueError ''must carry a consignmentId'') (\<lambda>_. Inr s))"

definition finite_number :: "json \<Rightarrow> pyfloat res" where
  "finite_number v =
     bindR (guard (is_number v) ValueError ''field must be a finite number'') (\<lambda>_.
     bindR (to_float v) (\<lambda>f.
     bindR (guard (isfinite f) ValueError ''field must be a finite number'') (\<lambda>_. Inr f)))"

definition parse_payload :: "(string \<Rightarrow> json res) \<Rightarrow> row \<Rightarrow> jobject res" where
  "parse_payload loads event =
     bindR (require_some (cell_text (row_get event ''payload_json'')) ValueError ''event is missing payload_json'') (\<lambda>s.
     bindR (loads s) (\<lambda>payload.
     require_some (json_obj payload) ValueError ''payload must be an object''))"

definition event_clearance_floor :: "row \<Rightarrow> clearance res" where
  "event_clearance_floor event =
     (case row_get event ''record_classification'' of
        CNone \<Rightarrow> Inr SECRET
      | CText label \<Rightarrow>
          (case from_label label of
             Inl e \<Rightarrow> raise ValueError ''event carries an unknown record_classification''
           | Inr l \<Rightarrow> Inr l)
      | _ \<Rightarrow> raise ValueError ''record_classification must be a clearance label'')"

text \<open>\<open>str(event["event_id"])\<close> of an event whose identifier has been checked to be text.\<close>

definition event_key :: "row \<Rightarrow> string" where
  "event_key event = (case row_get event ''event_id'' of CText s \<Rightarrow> s | _ \<Rightarrow> [])"

section \<open>Groups\<close>

record cold_sample =
  sample_event :: string
  sample_time :: int
  sample_temperature :: pyfloat

record consignment_group =
  group_catch :: "(row \<times> jobject) list"
  group_custody :: "row list"
  group_coldchain :: "cold_sample list"
  group_export :: "(row \<times> jobject) list"
  group_floor :: clearance

definition new_group :: consignment_group where
  "new_group = \<lparr>group_catch = [], group_custody = [], group_coldchain = [], group_export = [], group_floor = UNCLASSIFIED\<rparr>"

definition cold_sample_of :: "jobject \<Rightarrow> string \<Rightarrow> int \<Rightarrow> cold_sample res" where
  "cold_sample_of payload event_id occurred_at =
     bindR (finite_number (jget payload ''temperatureCelsius'')) (\<lambda>temperature.
     bindR (guard (fl_le MIN_TEMPERATURE_CELSIUS temperature \<and> fl_le temperature MAX_TEMPERATURE_CELSIUS) ValueError
              ''temperatureCelsius is outside the sanity range'') (\<lambda>_.
     Inr \<lparr>sample_event = event_id, sample_time = occurred_at, sample_temperature = temperature\<rparr>))"

definition attach_event :: "row \<Rightarrow> jobject \<Rightarrow> string \<Rightarrow> string \<Rightarrow> int \<Rightarrow> consignment_group \<Rightarrow> consignment_group res" where
  "attach_event event payload event_id event_type occurred_at g =
     (if prefix CATCH_EVENT_TYPE_PREFIX event_type then Inr (g\<lparr>group_catch := group_catch g @ [(event, payload)]\<rparr>)
      else if prefix CUSTODY_EVENT_TYPE_PREFIX event_type then Inr (g\<lparr>group_custody := group_custody g @ [event]\<rparr>)
      else if prefix COLDCHAIN_EVENT_TYPE_PREFIX event_type then
        bindR (cold_sample_of payload event_id occurred_at) (\<lambda>s. Inr (g\<lparr>group_coldchain := group_coldchain g @ [s]\<rparr>))
      else if prefix EXPORT_EVENT_TYPE_PREFIX event_type then Inr (g\<lparr>group_export := group_export g @ [(event, payload)]\<rparr>)
      else raise ValueError ''event_type outside the governed fisheries families'')"

definition consignment_step :: "(string \<Rightarrow> json res) \<Rightarrow> (string \<times> consignment_group) list \<Rightarrow> row \<Rightarrow>
    (string \<times> consignment_group) list res" where
  "consignment_step loads groups event =
     bindR (require_some (cell_text (row_get event ''event_id'')) ValueError ''missing a string event_id'') (\<lambda>event_id.
     bindR (guard (event_id \<noteq> []) ValueError ''missing a string event_id'') (\<lambda>_.
     bindR (require_some (cell_text (row_get event ''event_type'')) ValueError ''missing a string event_type'') (\<lambda>event_type.
     bindR (guard (event_type \<noteq> []) ValueError ''missing a string event_type'') (\<lambda>_.
     bindR (require_some (cell_time (row_get event ''occurred_at'')) ValueError ''missing an occurred_at timestamp'') (\<lambda>occurred_at.
     bindR (parse_payload loads event) (\<lambda>payload.
     bindR (consignment_id_of payload) (\<lambda>cid.
     let g = (case map_of groups cid of None \<Rightarrow> new_group | Some g \<Rightarrow> g)
     in bindR (event_clearance_floor event) (\<lambda>level.
        bindR (attach_event event payload event_id event_type occurred_at (g\<lparr>group_floor := max (group_floor g) level\<rparr>)) (\<lambda>g'.
        Inr (AList.update cid g' groups))))))))))"

section \<open>Records\<close>

text \<open>\<open>min\<close> and \<open>max\<close> of a non-empty list of floats.\<close>

fun fl_min :: "pyfloat list \<Rightarrow> cell" where
  "fl_min [] = CNone"
| "fl_min (x # xs) = CFloat (foldl (\<lambda>m y. if fl_less y m then y else m) x xs)"

fun fl_max :: "pyfloat list \<Rightarrow> cell" where
  "fl_max [] = CNone"
| "fl_max (x # xs) = CFloat (foldl (\<lambda>m y. if fl_less m y then y else m) x xs)"

definition sample_json :: "cold_sample \<Rightarrow> json" where
  "sample_json s = JObj
     [(''event_id'', JStr (sample_event s)),
      (''occurred_at'', JStr (isoformat (sample_time s))),
      (''temperature_celsius'', JFloat (sample_temperature s))]"

definition coldchain_digest :: "(rat \<Rightarrow> string) \<Rightarrow> (string \<Rightarrow> string) \<Rightarrow> cold_sample list \<Rightarrow> string" where
  "coldchain_digest fr sha samples = sha (dumps_compact fr True (JList (map sample_json samples)))"

definition export_reference_of :: "consignment_group \<Rightarrow> cell res" where
  "export_reference_of g =
     (if group_export g = [] then Inr CNone
      else bindR (require_canonical_text (jget (snd (last (group_export g))) ''exportReference'') 256) (\<lambda>s. Inr (CText s)))"

definition consignment_record :: "(rat \<Rightarrow> string) \<Rightarrow> (string \<Rightarrow> string) \<Rightarrow> int \<Rightarrow> string \<times> consignment_group \<Rightarrow> row res" where
  "consignment_record fr sha assembled_at cg =
     (case cg of (cid, g) \<Rightarrow>
        bindR (case group_catch g of [c] \<Rightarrow> Inr c
               | _ \<Rightarrow> raise ValueError ''must have exactly one fisheries.catch event'') (\<lambda>(catch_event, catch_payload).
        bindR (require_canonical_text (jget catch_payload ''speciesCode'') 64) (\<lambda>species_code.
        bindR (finite_number (jget catch_payload ''catchWeightKg'')) (\<lambda>weight.
        bindR (guard (\<not> fl_less weight (PFin 0)) ValueError ''catchWeightKg must not be negative'') (\<lambda>_.
        bindR (export_reference_of g) (\<lambda>export_reference.
        let samples = sort_key (\<lambda>s. (sample_time s, sample_event s)) (group_coldchain g);
            temperatures = map sample_temperature samples;
            custody_ids = sort (map event_key (group_custody g));
            source_ids = sort ([event_key catch_event] @ custody_ids @ map sample_event samples @
                               map (\<lambda>(e, p). event_key e) (group_export g))
        in Inr
          [(''consignment_id'', CText cid),
           (''catch_event_id'', CText (event_key catch_event)),
           (''catch_occurred_at'', row_get catch_event ''occurred_at''),
           (''species_code'', CText species_code),
           (''catch_weight_kg'', CFloat weight),
           (''custody_event_count'', CInt (int (length custody_ids))),
           (''custody_event_ids_json'', CText (dumps_texts custody_ids)),
           (''coldchain_sample_count'', CInt (int (length samples))),
           (''min_temperature_celsius'', fl_min temperatures),
           (''max_temperature_celsius'', fl_max temperatures),
           (''coldchain_digest_sha256'', CText (coldchain_digest fr sha samples)),
           (''export_reference'', export_reference),
           (''record_classification'', CText (clearance_label (group_floor g))),
           (''source_event_ids_json'', CText (dumps_texts source_ids)),
           (''assembled_at'', CTime assembled_at)]))))))"

definition build_consignment_records :: "(string \<Rightarrow> json res) \<Rightarrow> (rat \<Rightarrow> string) \<Rightarrow> (string \<Rightarrow> string) \<Rightarrow> int \<Rightarrow>
    row list \<Rightarrow> row list res" where
  "build_consignment_records loads fr sha now events =
     bindR (guard (events \<noteq> []) ValueError ''refusing to assemble consignments from an empty event batch'') (\<lambda>_.
     bindR (foldR (consignment_step loads) [] events) (\<lambda>groups.
     mapR (consignment_record fr sha now) (sort_key fst groups)))"

section \<open>The gold table\<close>

definition EXPORT_CONSIGNMENT_SCHEMA :: arrow_schema where
  "EXPORT_CONSIGNMENT_SCHEMA =
     [(''consignment_id'', ''string not null''), (''catch_event_id'', ''string not null''),
      (''catch_occurred_at'', ''timestamp[us, tz=UTC] not null''), (''species_code'', ''string not null''),
      (''catch_weight_kg'', ''double not null''), (''custody_event_count'', ''int64 not null''),
      (''custody_event_ids_json'', ''string not null''), (''coldchain_sample_count'', ''int64 not null''),
      (''min_temperature_celsius'', ''double''), (''max_temperature_celsius'', ''double''),
      (''coldchain_digest_sha256'', ''string not null''), (''export_reference'', ''string''),
      (''record_classification'', ''string not null''), (''source_event_ids_json'', ''string not null''),
      (''assembled_at'', ''timestamp[us, tz=UTC] not null'')]"

definition EXPORT_CONSIGNMENT_TABLE_NAME :: string where
  "EXPORT_CONSIGNMENT_TABLE_NAME = ''fisheries_gold_export_consignments''"

definition EXPORT_CONSIGNMENT_TABLE_DESCRIPTION :: string where
  "EXPORT_CONSIGNMENT_TABLE_DESCRIPTION =
     ''Fisheries gold export consignments: per-consignment catch, custody trail '' @
     ''and coldchain digest assembled from the segregated fisheries bronze track''"

definition export_consignment_table_uri :: "delta_writer \<Rightarrow> string res" where
  "export_consignment_table_uri writer =
     bindR (table_uri writer ''gold'') (\<lambda>gold_events_uri.
     let consignment_uri = before_last CHR ''/'' gold_events_uri @ ''/export_consignments''
     in bindR (require_scope_table_uri (writer_scope writer) consignment_uri) (\<lambda>_. Inr consignment_uri))"

definition consignment_columns :: "string list \<Rightarrow> string list" where
  "consignment_columns bronze_fields =
     SILVER_EVENT_COLUMNS @ (if ''record_classification'' \<in> set bronze_fields then [''record_classification''] else [])"

definition assemble_export_consignment_gold :: "('w, 't) delta_api \<Rightarrow> ('t \<Rightarrow> string list) \<Rightarrow> (string \<Rightarrow> json res) \<Rightarrow>
    (rat \<Rightarrow> string) \<Rightarrow> (string \<Rightarrow> string) \<Rightarrow> int \<Rightarrow> delta_writer \<Rightarrow> ('w, int \<times> int) act" where
  "assemble_export_consignment_gold api names loads fr sha now writer =
     bindA (pureA (guard (writer_scope writer = FISHERIES) BoundaryViolationError
              ''export consignment assembly is only defined for the fisheries boundary'')) (\<lambda>_.
     bindA (pureA (table_uri writer ''bronze'')) (\<lambda>bronze_uri.
     bindA (\<lambda>w. (delta_table_exists api bronze_uri w, w)) (\<lambda>existing.
     bindA (pureA (guard existing ValueError
              ''cannot assemble export consignments before the fisheries bronze table exists'')) (\<lambda>_.
     bindA (\<lambda>w. (api_open api bronze_uri w, w)) (\<lambda>bronze.
     bindA (pureA (api_read api bronze (consignment_columns (names bronze)) None)) (\<lambda>events.
     bindA (pureA (build_consignment_records loads fr sha now events)) (\<lambda>records.
     bindA (pureA (export_consignment_table_uri writer)) (\<lambda>uri.
     write_gold api uri records EXPORT_CONSIGNMENT_SCHEMA EXPORT_CONSIGNMENT_TABLE_NAME
       EXPORT_CONSIGNMENT_TABLE_DESCRIPTION))))))))"

definition read_export_consignments :: "('w, 't) delta_api \<Rightarrow> delta_writer \<Rightarrow> clearance_claim \<Rightarrow> ('w, row list) act" where
  "read_export_consignments api writer claim =
     bindA (pureA (guard (writer_scope writer = FISHERIES) BoundaryViolationError
              ''export consignment reads are only defined for the fisheries boundary'')) (\<lambda>_.
     bindA (pureA (normalize_clearance claim)) (\<lambda>level.
     bindA (pureA (require_some level AccessDeniedError
              ''a clearance claim is required to read export consignments'')) (\<lambda>l.
     bindA (pureA (export_consignment_table_uri writer)) (\<lambda>uri.
     bindA (\<lambda>w. (delta_table_exists api uri w, w)) (\<lambda>existing.
     bindA (pureA (guard existing ValueError
              ''cannot read export consignments before the gold table is assembled'')) (\<lambda>_.
     bindA (\<lambda>w. (api_open api uri w, w)) (\<lambda>table.
     bindA (pureA (api_read_all api table)) (\<lambda>rows.
     pureA (Inr (filter_records_by_clearance rows (Inl l) ''record_classification''))))))))))"

section \<open>Lemmas\<close>

definition event_consignment :: "(string \<Rightarrow> json res) \<Rightarrow> row \<Rightarrow> string res" where
  "event_consignment loads event = bindR (parse_payload loads event) consignment_id_of"

definition group_keys :: "consignment_group \<Rightarrow> string list" where
  "group_keys g = map (\<lambda>(e, p). event_key e) (group_catch g) @ map event_key (group_custody g) @
     map sample_event (group_coldchain g) @ map (\<lambda>(e, p). event_key e) (group_export g)"

text \<open>A group holds exactly the given events, and its floor dominates and is reached by their labels.\<close>

definition group_holds :: "consignment_group \<Rightarrow> row list \<Rightarrow> bool" where
  "group_holds g es \<longleftrightarrow> es \<noteq> [] \<and> mset (group_keys g) = mset (map event_key es) \<and>
     (\<forall>e\<in>set es. \<exists>l. event_clearance_floor e = Inr l \<and> l \<le> group_floor g) \<and>
     (group_floor g = UNCLASSIFIED \<or> (\<exists>e\<in>set es. event_clearance_floor e = Inr (group_floor g)))"

definition of_consignment :: "(string \<Rightarrow> json res) \<Rightarrow> string \<Rightarrow> row list \<Rightarrow> row list" where
  "of_consignment loads cid events = filter (\<lambda>e. event_consignment loads e = Inr cid) events"

definition groups_hold :: "(string \<Rightarrow> json res) \<Rightarrow> (string \<times> consignment_group) list \<Rightarrow> row list \<Rightarrow> bool" where
  "groups_hold loads groups events \<longleftrightarrow> distinct (map fst groups) \<and>
     (\<forall>e\<in>set events. is_ok (event_consignment loads e)) \<and>
     (\<forall>cid. case map_of groups cid of
        None \<Rightarrow> of_consignment loads cid events = []
      | Some g \<Rightarrow> group_holds g (of_consignment loads cid events))"

lemma attach_event_keys:
  assumes "attach_event event payload event_id event_type t g = Inr g'" "event_key event = event_id"
  shows "mset (group_keys g') = mset (group_keys g) + {#event_id#} \<and> group_floor g' = group_floor g"
  using assms by (auto simp: attach_event_def group_keys_def cold_sample_of_def res_simps split: if_splits)

lemma consignment_step_cases:
  assumes "consignment_step loads groups event = Inr groups'"
  obtains cid level g g' where "event_consignment loads event = Inr cid" "event_clearance_floor event = Inr level"
    "g = (case map_of groups cid of None \<Rightarrow> new_group | Some g \<Rightarrow> g)"
    "mset (group_keys g') = mset (group_keys g) + {#event_key event#}" "group_floor g' = max (group_floor g) level"
    "groups' = AList.update cid g' groups"
proof -
  from assms obtain event_id event_type t payload cid level g' where s: "row_get event ''event_id'' = CText event_id"
    "parse_payload loads event = Inr payload" "consignment_id_of payload = Inr cid" "event_clearance_floor event = Inr level"
    "attach_event event payload event_id event_type t
       ((case map_of groups cid of None \<Rightarrow> new_group | Some g \<Rightarrow> g)
          \<lparr>group_floor := max (group_floor (case map_of groups cid of None \<Rightarrow> new_group | Some g \<Rightarrow> g)) level\<rparr>) = Inr g'"
    "groups' = AList.update cid g' groups"
    unfolding consignment_step_def bindR_Inr_iff Let_def by auto
  from s(1) have k: "event_key event = event_id" by (simp add: event_key_def)
  from s(2,3) have c: "event_consignment loads event = Inr cid" by (simp add: event_consignment_def)
  from attach_event_keys [OF s(5) k] k show ?thesis
    by (intro that [OF c s(4) refl _ _ s(6)]) (simp_all add: group_keys_def)
qed

lemma group_holds_snoc:
  assumes "g = new_group \<and> es = [] \<or> group_holds g es"
    and "event_clearance_floor event = Inr level" "group_floor g' = max (group_floor g) level"
    and "mset (group_keys g') = mset (group_keys g) + {#event_key event#}"
  shows "group_holds g' (es @ [event])"
proof -
  from assms(1) have k: "mset (group_keys g) = mset (map event_key es)"
    and f: "\<forall>e\<in>set es. \<exists>l. event_clearance_floor e = Inr l \<and> l \<le> group_floor g"
    and r: "group_floor g = UNCLASSIFIED \<or> (\<exists>e\<in>set es. event_clearance_floor e = Inr (group_floor g))"
    by (auto simp: group_holds_def new_group_def group_keys_def)
  have "\<forall>e\<in>set (es @ [event]). \<exists>l. event_clearance_floor e = Inr l \<and> l \<le> group_floor g'"
    using f assms(2,3) by (auto simp: max.coboundedI1)
  moreover have "group_floor g' = UNCLASSIFIED \<or> (\<exists>e\<in>set (es @ [event]). event_clearance_floor e = Inr (group_floor g'))"
    using r assms(2,3) by (auto simp: max_def)
  ultimately show ?thesis
    unfolding group_holds_def using k assms(4) by simp
qed

lemma groups_hold_step:
  assumes "groups_hold loads groups ds" "consignment_step loads groups event = Inr groups'"
  shows "groups_hold loads groups' (ds @ [event])"
proof -
  from consignment_step_cases [OF assms(2)] obtain cid level g g' where
    s: "event_consignment loads event = Inr cid" "event_clearance_floor event = Inr level"
      "g = (case map_of groups cid of None \<Rightarrow> new_group | Some g \<Rightarrow> g)"
      "mset (group_keys g') = mset (group_keys g) + {#event_key event#}" "group_floor g' = max (group_floor g) level"
      "groups' = AList.update cid g' groups" by metis
  have h: "case map_of groups c of None \<Rightarrow> of_consignment loads c ds = []
      | Some g \<Rightarrow> group_holds g (of_consignment loads c ds)" for c
    using assms(1) by (simp add: groups_hold_def)
  from h [of cid] s(3) have "g = new_group \<and> of_consignment loads cid ds = [] \<or> group_holds g (of_consignment loads cid ds)"
    by (auto split: option.splits)
  from group_holds_snoc [OF this s(2,5,4)] s(1)
  have "group_holds g' (of_consignment loads cid (ds @ [event]))" by (simp add: of_consignment_def)
  moreover have "of_consignment loads c (ds @ [event]) = of_consignment loads c ds" if "c \<noteq> cid" for c
    using that s(1) by (simp add: of_consignment_def)
  ultimately have "case map_of groups' c of None \<Rightarrow> of_consignment loads c (ds @ [event]) = []
      | Some g \<Rightarrow> group_holds g (of_consignment loads c (ds @ [event]))" for c
    using h [of c] s(6) by (cases "c = cid"; cases "map_of groups c") simp_all
  moreover have "\<forall>e\<in>set (ds @ [event]). is_ok (event_consignment loads e)"
    using assms(1) s(1) by (auto simp: groups_hold_def)
  moreover have "distinct (map fst groups')"
    using assms(1) s(6) by (auto simp: groups_hold_def)
  ultimately show ?thesis unfolding groups_hold_def by blast
qed

lemma groups_hold_fold:
  assumes "foldR (consignment_step loads) [] events = Inr groups"
  shows "groups_hold loads groups events"
  using assms
proof (rule foldR_prefix_inv)
  show "groups_hold loads [] []" by (simp add: groups_hold_def of_consignment_def)
qed (rule groups_hold_step)


lemma consignment_record_fields:
  assumes "consignment_record fr sha now (cid, g) = Inr r"
  shows "row_get r ''consignment_id'' = CText cid \<and>
    row_get r ''record_classification'' = CText (clearance_label (group_floor g)) \<and>
    (\<exists>ids. row_get r ''source_event_ids_json'' = CText (dumps_texts ids) \<and> sorted ids \<and> mset ids = mset (group_keys g)) \<and>
    length (group_catch g) = 1"
proof -
  from assms obtain event payload where c: "group_catch g = [(event, payload)]"
    by (auto simp: consignment_record_def bindR_Inr_iff split: list.splits)
  let ?samples = "sort_key (\<lambda>s. (sample_time s, sample_event s)) (group_coldchain g)"
  let ?ids = "sort ([event_key event] @ sort (map event_key (group_custody g)) @ map sample_event ?samples @
    map (\<lambda>(e, p). event_key e) (group_export g))"
  have "mset (map sample_event ?samples) = image_mset sample_event (mset ?samples)" by (rule mset_map)
  then have "mset (map sample_event ?samples) = mset (map sample_event (group_coldchain g))" by simp
  then have "mset ?ids = mset (group_keys g)"
    by (simp add: group_keys_def c case_prod_beta)
  moreover have "sorted ?ids" by (rule sorted_sort)
  moreover from assms c have "row_get r ''source_event_ids_json'' = CText (dumps_texts ?ids)"
    "row_get r ''consignment_id'' = CText cid"
    "row_get r ''record_classification'' = CText (clearance_label (group_floor g))"
    unfolding consignment_record_def Let_def by (auto simp: bindR_Inr_iff)
  ultimately show ?thesis using c by auto
qed

lemma built_row:
  assumes "build_consignment_records loads fr sha now events = Inr rows"
  obtains groups where "groups_hold loads groups events"
    "list_all2 (\<lambda>cg r. consignment_record fr sha now cg = Inr r) (sort_key fst groups) rows"
  using assms unfolding build_consignment_records_def bindR_Inr_iff mapR_Inr_iff
  by (metis groups_hold_fold)

lemma built_group:
  assumes "build_consignment_records loads fr sha now events = Inr rows" "r \<in> set rows"
    and "row_get r ''consignment_id'' = CText cid"
  shows "\<exists>g. group_holds g (of_consignment loads cid events) \<and> consignment_record fr sha now (cid, g) = Inr r"
proof -
  from assms(1) obtain groups where g: "groups_hold loads groups events"
    "list_all2 (\<lambda>cg r. consignment_record fr sha now cg = Inr r) (sort_key fst groups) rows" by (rule built_row)
  from list_all2_in_left [OF g(2) assms(2)] obtain c gr where m: "(c, gr) \<in> set groups" "consignment_record fr sha now (c, gr) = Inr r"
    by auto
  from consignment_record_fields [OF m(2)] assms(3) have "c = cid" by simp
  moreover from m(1) g(1) have "map_of groups c = Some gr" by (simp add: groups_hold_def)
  ultimately show ?thesis using g(1) m(2) unfolding groups_hold_def by (metis option.simps(5))
qed

lemma cleared_rows:
  "r \<in> set (filter_records_by_clearance rows (Inl l) ''record_classification'') \<Longrightarrow>
   r \<in> set rows \<and> (\<exists>label f. row_get r ''record_classification'' = CText label \<and> from_label label = Inr f \<and> f \<le> l)"
  by (auto simp: filter_records_eq clearance_permits_iff claim_level_def split: cell.splits)


lemma floor_of_label: "from_label (clearance_label f) = Inr f"
proof -
  have "list_all (\<lambda>f. from_label (clearance_label f) = Inr f) all_clearances" by code_simp
  then show ?thesis by (cases f) (simp_all add: all_clearances_def)
qed

lemma le_SECRET [simp]: "f \<le> SECRET" "SECRET \<le> f \<longleftrightarrow> f = SECRET"
  by (cases f; simp add: less_eq_clearance_def)+

lemma event_consignment_project:
  "''payload_json'' \<in> set cols \<Longrightarrow> event_consignment loads (project cols e) = event_consignment loads e"
  by (simp add: event_consignment_def parse_payload_def row_get_project)

text \<open>The rows a clearance level sees come from events at or below it.\<close>

lemma cleared_sources:
  assumes "build_consignment_records loads fr sha now events = Inr rows"
    and "r \<in> set (filter_records_by_clearance rows (Inl l) ''record_classification'')"
    and "row_get r ''consignment_id'' = CText cid" "e \<in> set events" "event_consignment loads e = Inr cid"
  shows "\<exists>f. event_clearance_floor e = Inr f \<and> f \<le> l"
proof -
  from cleared_rows [OF assms(2)] obtain label f where r: "r \<in> set rows" "row_get r ''record_classification'' = CText label"
    "from_label label = Inr f" "f \<le> l" by blast
  from built_group [OF assms(1) r(1) assms(3)] obtain g where
    g: "group_holds g (of_consignment loads cid events)" "consignment_record fr sha now (cid, g) = Inr r" by blast
  from consignment_record_fields [OF g(2)] r(2) have "label = clearance_label (group_floor g)" by simp
  with r(3) have "f = group_floor g" by (simp add: floor_of_label)
  moreover from assms(4,5) have "e \<in> set (of_consignment loads cid events)" by (simp add: of_consignment_def)
  ultimately show ?thesis using g(1) r(4) by (meson group_holds_def order_trans)
qed

lemma consignment_rows_shaped:
  assumes "build_consignment_records loads fr sha now events = Inr rows"
  shows "shaped EXPORT_CONSIGNMENT_SCHEMA rows"
proof -
  from assms obtain groups where "mapR (consignment_record fr sha now) (sort_key fst groups) = Inr rows"
    by (auto simp: build_consignment_records_def bindR_Inr_iff)
  then have l: "list_all2 (\<lambda>g r. consignment_record fr sha now g = Inr r) (sort_key fst groups) rows" by (simp add: mapR_Inr_iff)
  have "map fst r = map fst EXPORT_CONSIGNMENT_SCHEMA" if r: "r \<in> set rows" for r
  proof -
    from list_all2_in_left [OF l r] obtain cid g where "consignment_record fr sha now (cid, g) = Inr r" by auto
    then show ?thesis by (auto simp: consignment_record_def bindR_Inr_iff Let_def EXPORT_CONSIGNMENT_SCHEMA_def)
  qed
  moreover have "distinct (map fst EXPORT_CONSIGNMENT_SCHEMA)" by (simp add: EXPORT_CONSIGNMENT_SCHEMA_def)
  ultimately show ?thesis by (simp add: shaped_def)
qed

lemma assemble_consignments_cases:
  assumes "delta_contract api content" "overwrite_contract api content"
    and "assemble_export_consignment_gold api names loads fr sha now writer w = (Inr (v, n), w')"
    and "table_uri writer ''bronze'' = Inr bronze_uri" "api_open api bronze_uri w = Inr bronze"
  shows "\<exists>uri gold. export_consignment_table_uri writer = Inr uri \<and> api_open api uri w' = Inr gold \<and>
    build_consignment_records loads fr sha now (map (project (consignment_columns (names bronze))) (content bronze)) =
      Inr (content gold) \<and> v = api_version api gold \<and> n = int (length (content gold))"
proof -
  from assms(3-5) obtain events records uri where s:
    "api_read api bronze (consignment_columns (names bronze)) None = Inr events"
    "build_consignment_records loads fr sha now events = Inr records" "export_consignment_table_uri writer = Inr uri"
    "write_gold api uri records EXPORT_CONSIGNMENT_SCHEMA EXPORT_CONSIGNMENT_TABLE_NAME
       EXPORT_CONSIGNMENT_TABLE_DESCRIPTION w = (Inr (v, n), w')"
    unfolding assemble_export_consignment_gold_def bindA_Inr pureA_eq by auto
  from contract_unfiltered_read [OF assms(1) s(1)] write_gold_content [OF assms(1,2) consignment_rows_shaped [OF s(2)] s(4)] s(2,3)
  show ?thesis by auto
qed

lemma read_consignments_cases:
  assumes "overwrite_contract api content"
    and "read_export_consignments api writer claim w = (Inr visible, w')"
  shows "w' = w \<and> (\<exists>l uri gold. normalize_clearance claim = Inr (Some l) \<and> export_consignment_table_uri writer = Inr uri \<and>
    api_open api uri w = Inr gold \<and>
    visible = filter_records_by_clearance (content gold) (Inl l) ''record_classification'')"
proof -
  from assms(2) obtain l uri gold rows where s: "normalize_clearance claim = Inr (Some l)"
    "export_consignment_table_uri writer = Inr uri" "api_open api uri w = Inr gold" "api_read_all api gold = Inr rows"
    "visible = filter_records_by_clearance rows (Inl l) ''record_classification''" "w' = w"
    unfolding read_export_consignments_def bindA_Inr pureA_eq by auto
  from s(4) assms(1) have "rows = content gold" by (simp add: overwrite_contract_def)
  with s show ?thesis by blast
qed

definition floor_of :: "row \<Rightarrow> clearance" where
  "floor_of e = (case event_clearance_floor e of Inr l \<Rightarrow> l | Inl x \<Rightarrow> SECRET)"

lemma group_floor_Max:
  assumes "group_holds g es"
  shows "group_floor g = Max (insert UNCLASSIFIED (floor_of ` set es))"
proof (rule Max_eqI [symmetric])
  show "l \<le> group_floor g" if "l \<in> insert UNCLASSIFIED (floor_of ` set es)" for l
    using assms that by (fastforce simp: group_holds_def floor_of_def less_eq_clearance_def)
  show "group_floor g \<in> insert UNCLASSIFIED (floor_of ` set es)"
    using assms by (force simp: group_holds_def floor_of_def)
qed simp

lemma groups_hold_at:
  assumes "groups_hold loads groups events"
  shows "case map_of groups cid of None \<Rightarrow> of_consignment loads cid events = []
    | Some g \<Rightarrow> group_holds g (of_consignment loads cid events)"
  using assms unfolding groups_hold_def by blast

lemma group_row:
  assumes "groups_hold loads groups events" "(cid, g) \<in> set groups" "consignment_record fr sha now (cid, g) = Inr r"
  shows "row_get r ''consignment_id'' = CText cid \<and>
    (\<exists>ids l. row_get r ''source_event_ids_json'' = CText (dumps_texts ids) \<and> sorted ids \<and>
       mset ids = mset (map event_key (of_consignment loads cid events)) \<and>
       row_get r ''record_classification'' = CText (clearance_label l) \<and>
       l = Max (insert UNCLASSIFIED (floor_of ` set (of_consignment loads cid events))))"
proof -
  from assms(1,2) have "map_of groups cid = Some g" by (simp add: groups_hold_def)
  with groups_hold_at [OF assms(1), of cid] have h: "group_holds g (of_consignment loads cid events)" by simp
  then have "mset (group_keys g) = mset (map event_key (of_consignment loads cid events))"
    unfolding group_holds_def by blast
  with group_floor_Max [OF h] consignment_record_fields [OF assms(3)] show ?thesis by metis
qed

lemma group_ids:
  assumes "groups_hold loads groups events"
  shows "fst ` set groups = {cid. \<exists>e\<in>set events. event_consignment loads e = Inr cid}"
proof -
  have "cid \<in> fst ` set groups \<longleftrightarrow> of_consignment loads cid events \<noteq> []" for cid
  proof -
    have "cid \<in> fst ` set groups \<longleftrightarrow> map_of groups cid \<noteq> None" by (simp add: map_of_eq_None_iff)
    moreover have "map_of groups cid = None \<longleftrightarrow> of_consignment loads cid events = []"
      using groups_hold_at [OF assms, of cid] by (cases "map_of groups cid") (simp_all add: group_holds_def)
    ultimately show ?thesis by simp
  qed
  then show ?thesis by (auto simp: of_consignment_def filter_empty_conv)
qed

section \<open>Properties\<close>

text \<open>
  Claim C19.  No read above clearance: after the consignment table has been rebuilt, a read of it at clearance \<open>l\<close>
  shows a consignment only if every bronze event of that consignment is labelled at or below \<open>l\<close>; an event
  without a label counts as SECRET.
\<close>

theorem consignment_reads_cleared:
  assumes "delta_contract api content" "overwrite_contract api content"
    and "assemble_export_consignment_gold api names loads fr sha now writer w = (Inr (v, n), w')"
    and "read_export_consignments api writer claim w' = (Inr visible, w'')" "normalize_clearance claim = Inr (Some l)"
    and "table_uri writer ''bronze'' = Inr bronze_uri" "api_open api bronze_uri w = Inr bronze"
    and "r \<in> set visible" "row_get r ''consignment_id'' = CText cid"
    and "e \<in> set (content bronze)" "event_consignment loads e = Inr cid"
  shows "case row_get e ''record_classification'' of
      CText label \<Rightarrow> \<forall>f. from_label label = Inr f \<longrightarrow> f \<le> l
    | _ \<Rightarrow> l = SECRET"
proof -
  let ?cols = "consignment_columns (names bronze)"
  from assemble_consignments_cases [OF assms(1-3,6,7)] read_consignments_cases [OF assms(2,4)] assms(5,8) obtain gold where
    g: "build_consignment_records loads fr sha now (map (project ?cols) (content bronze)) = Inr (content gold)"
      "r \<in> set (filter_records_by_clearance (content gold) (Inl l) ''record_classification'')"
    by auto
  have "''payload_json'' \<in> set ?cols" by (simp add: consignment_columns_def SILVER_EVENT_COLUMNS_def)
  then have "event_consignment loads (project ?cols e) = Inr cid"
    using assms(11) by (simp add: event_consignment_project)
  with cleared_sources [OF g assms(9), of "project ?cols e"] assms(10) obtain f where
    "event_clearance_floor (project ?cols e) = Inr f" "f \<le> l" by auto
  then show ?thesis
    by (auto simp: event_clearance_floor_def row_get_project split: cell.splits sum.splits if_splits)
qed


text \<open>
  Nothing is lost: the rows are one per consignment, in increasing order of the identifiers that occur in
  the events; each lists exactly the events of its consignment, sorted, exactly one of them a catch, and is labelled
  with the highest label among them.
\<close>

theorem consignment_records_account:
  assumes "build_consignment_records loads fr sha now events = Inr rows"
  shows "\<exists>cids. list_all2 (\<lambda>cid r. row_get r ''consignment_id'' = CText cid \<and>
        (\<exists>ids l. row_get r ''source_event_ids_json'' = CText (dumps_texts ids) \<and> sorted ids \<and>
           mset ids = mset (map event_key (of_consignment loads cid events)) \<and>
           row_get r ''record_classification'' = CText (clearance_label l) \<and>
           l = Max (insert UNCLASSIFIED (floor_of ` set (of_consignment loads cid events))))) cids rows \<and>
    sorted_wrt (<) cids \<and> set cids = {cid. \<exists>e\<in>set events. event_consignment loads e = Inr cid}"
proof -
  from assms obtain groups where g: "groups_hold loads groups events"
    "list_all2 (\<lambda>cg r. consignment_record fr sha now cg = Inr r) (sort_key fst groups) rows" by (rule built_row)
  let ?row = "\<lambda>cid r. row_get r ''consignment_id'' = CText cid \<and>
        (\<exists>ids l. row_get r ''source_event_ids_json'' = CText (dumps_texts ids) \<and> sorted ids \<and>
           mset ids = mset (map event_key (of_consignment loads cid events)) \<and>
           row_get r ''record_classification'' = CText (clearance_label l) \<and>
           l = Max (insert UNCLASSIFIED (floor_of ` set (of_consignment loads cid events))))"
  have "?row (fst cg) r" if "cg \<in> set groups" "consignment_record fr sha now cg = Inr r" for cg r
    using group_row [OF g(1)] that by (cases cg) simp
  then have "list_all2 (\<lambda>cg r. ?row (fst cg) r) (sort_key fst groups) rows"
    by (intro list.rel_mono_strong [OF g(2)]) (simp only: set_sort)
  then have "list_all2 ?row (map fst (sort_key fst groups)) rows" by (simp only: list_all2_map1)
  moreover have "sorted_wrt (<) (map fst (sort_key fst groups))"
    using g(1) by (intro sorted_fst_strict) (simp add: groups_hold_def)
  moreover have "set (map fst (sort_key fst groups)) = {cid. \<exists>e\<in>set events. event_consignment loads e = Inr cid}"
    using group_ids [OF g(1)] by simp
  ultimately show ?thesis by blast
qed

definition consignment_loads :: "string \<Rightarrow> json res" where
  "consignment_loads s = Inr (JObj [(''consignmentId'', JStr ''c1''), (''speciesCode'', JStr ''TUN''), (''catchWeightKg'', JInt 10)])"

definition sample_catch :: row where
  "sample_catch = [(''event_id'', CText ''e1''), (''event_type'', CText ''fisheries.catch.v1''), (''occurred_at'', CTime 0),
     (''payload_json'', CText ''x''), (''record_classification'', CText ''RESTRICTED'')]"

definition fisheries_writer :: delta_writer where
  "fisheries_writer = \<lparr>writer_roots = \<lparr>roots_scope = FISHERIES, roots_bronze = ''s3://b/fisheries/fisheries_bronze/events'',
     roots_silver = ''s3://b/fisheries/fisheries_silver/events'', roots_gold = ''s3://b/fisheries/fisheries_gold/events''\<rparr>\<rparr>"

definition sample_bronze :: mem_store where
  "sample_bronze = [(''s3://b/fisheries/fisheries_bronze/events'', 0, [sample_catch])]"

definition sample_assembly :: "(mem_store, int \<times> int) act" where
  "sample_assembly = assemble_export_consignment_gold mem_delta (\<lambda>t. map fst sample_catch) consignment_loads
     (\<lambda>q. []) (\<lambda>s. ''d'') 0 fisheries_writer"


definition sample_group :: consignment_group where
  "sample_group = \<lparr>group_catch = [(sample_catch, [(''consignmentId'', JStr ''c1''), (''speciesCode'', JStr ''TUN''),
       (''catchWeightKg'', JInt 10)])], group_custody = [], group_coldchain = [], group_export = [], group_floor = RESTRICTED\<rparr>"

lemma sample_groups: "foldR (consignment_step consignment_loads) [] [sample_catch] = Inr [(''c1'', sample_group)]"
  by code_simp

lemma sample_species: "require_canonical_text (JStr ''TUN'') 64 = Inr ''TUN''"
  by code_simp

text \<open>The assembled table of the sample bronze track, and what a read of it returns.\<close>

lemma sample_build:
  "\<exists>r. build_consignment_records consignment_loads (\<lambda>q. []) (\<lambda>s. ''d'') 0 [sample_catch] = Inr [r] \<and>
     consignment_record (\<lambda>q. []) (\<lambda>s. ''d'') 0 (''c1'', sample_group) = Inr r"
  unfolding build_consignment_records_def sample_groups
  by (simp add: consignment_record_def sample_group_def sample_species finite_number_def float_of_int_exact export_reference_of_def)

lemma sample_uris:
  "table_uri fisheries_writer ''bronze'' = Inr ''s3://b/fisheries/fisheries_bronze/events''"
  "export_consignment_table_uri fisheries_writer = Inr ''s3://b/fisheries/fisheries_gold/export_consignments''"
  by code_simp+

lemma sample_assembled:
  "\<exists>r w'. sample_assembly sample_bronze = (Inr (0, 1), w') \<and>
     read_export_consignments mem_delta fisheries_writer (LevelClaim RESTRICTED) w' = (Inr [r], w') \<and>
     row_get r ''consignment_id'' = CText ''c1''"
proof -
  from sample_build obtain r where r: "build_consignment_records consignment_loads (\<lambda>q. []) (\<lambda>s. ''d'') 0 [sample_catch] = Inr [r]"
    "consignment_record (\<lambda>q. []) (\<lambda>s. ''d'') 0 (''c1'', sample_group) = Inr r" by blast
  let ?w' = "AList.update ''s3://b/fisheries/fisheries_gold/export_consignments'' (0, [r]) sample_bronze"
  have p: "map (project (consignment_columns (map fst sample_catch))) [sample_catch] = [sample_catch]" by code_simp
  have a: "sample_assembly sample_bronze = (Inr (0, 1), ?w')"
    unfolding sample_assembly_def assemble_export_consignment_gold_def sample_uris write_gold_def
    using r(1) p shaped_arrow_rows [OF consignment_rows_shaped [OF r(1)]] by (simp add: writer_scope_def fisheries_writer_def bindA_def pureA_def delta_table_exists_def mem_delta_def
        sample_bronze_def selected_def)
  from consignment_record_fields [OF r(2)] have "row_get r ''record_classification'' = CText (clearance_label RESTRICTED)"
    by (simp add: sample_group_def)
  then have "filter_records_by_clearance [r] (Inl RESTRICTED) ''record_classification'' = [r]"
    using floor_of_label [of RESTRICTED] by (simp add: filter_records_eq clearance_permits_iff claim_level_def)
  then have "read_export_consignments mem_delta fisheries_writer (LevelClaim RESTRICTED) ?w' = (Inr [r], ?w')"
    unfolding read_export_consignments_def sample_uris
    by (simp add: writer_scope_def fisheries_writer_def bindA_def pureA_def delta_table_exists_def mem_delta_def)
  with a consignment_record_fields [OF r(2)] show ?thesis by blast
qed

lemma consignment_reads_cleared_witness:
  "\<exists>w' visible. sample_assembly sample_bronze = (Inr (0, 1), w') \<and>
     read_export_consignments mem_delta fisheries_writer (LevelClaim RESTRICTED) w' = (Inr visible, w') \<and>
     (\<forall>f. from_label ''RESTRICTED'' = Inr f \<longrightarrow> f \<le> RESTRICTED)"
proof -
  from sample_assembled obtain r w' where a: "sample_assembly sample_bronze = (Inr (0, 1), w')"
    "read_export_consignments mem_delta fisheries_writer (LevelClaim RESTRICTED) w' = (Inr [r], w')"
    "row_get r ''consignment_id'' = CText ''c1''" by blast
  have b: "api_open mem_delta ''s3://b/fisheries/fisheries_bronze/events'' sample_bronze = Inr (0, [sample_catch])"
    by (simp add: mem_delta_def sample_bronze_def)
  have c: "event_consignment consignment_loads sample_catch = Inr ''c1''" by code_simp
  from consignment_reads_cleared [OF mem_delta_contract mem_overwrite_contract a(1) [unfolded sample_assembly_def] a(2) _
      sample_uris(1) b _ a(3) _ c]
  have "\<forall>f. from_label ''RESTRICTED'' = Inr f \<longrightarrow> f \<le> RESTRICTED" by (simp add: sample_catch_def)
  with a show ?thesis by blast
qed

lemma consignment_records_account_witness:
  "\<exists>r cids. build_consignment_records consignment_loads (\<lambda>q. []) (\<lambda>s. ''d'') 0 [sample_catch] = Inr [r] \<and>
     list_all2 (\<lambda>cid r. row_get r ''consignment_id'' = CText cid) cids [r]"
proof -
  from sample_build obtain r where r: "build_consignment_records consignment_loads (\<lambda>q. []) (\<lambda>s. ''d'') 0 [sample_catch] = Inr [r]"
    by blast
  from consignment_records_account [OF r] r show ?thesis by (auto elim!: list_all2_mono)
qed

end
