(* ===== verification/Mrv_Gold.thy ===== *)
theory Mrv_Gold
  imports Envelope_Payload
begin

text \<open>
  \<open>mrv_gold.py\<close>: the \<open>vessel_annual\<close> gold table, one row per vessel and calendar year, from the latest VERIFIED
  report and its Statement of Compliance.  \<open>loads\<close> is \<open>json.loads\<close>, \<open>fr\<close> the rendering of floats.
\<close>

section \<open>Reading one event\<close>

definition ANNUAL_REPORT_EVENT_TYPE :: string where "ANNUAL_REPORT_EVENT_TYPE = ''mrv.emissions-annual.v1''"
definition SOC_EVENT_TYPE :: string where "SOC_EVENT_TYPE = ''mrv.soc.v1''"
definition VERIFIED_STATE :: string where "VERIFIED_STATE = ''VERIFIED''"
definition CII_RATINGS :: "string list" where "CII_RATINGS = [''A'', ''B'', ''C'', ''D'', ''E'']"

definition imo_number_pattern :: "string \<Rightarrow> bool" where
  "imo_number_pattern s = (length s = 7 \<and> list_all is_digit s)"

definition sha256_pattern :: "string \<Rightarrow> bool" where
  "sha256_pattern s = (length s = 64 \<and> list_all is_hex_lower s)"

definition optional_float :: "jobject \<Rightarrow> string \<Rightarrow> cell res" where
  "optional_float d name =
     (let value = jget d name
      in if value = JNull then Inr CNone
         else bindR (guard (is_number value) ValueError ''field must be a number when present'') (\<lambda>_.
              bindR (to_float value) (\<lambda>f. Inr (CFloat f))))"

text \<open>The part of the loop body that both event types share: the fields, the instant and the identifier.\<close>

definition mrv_event :: "(string \<Rightarrow> json res) \<Rightarrow> row \<Rightarrow> (jobject \<times> int \<times> string) res" where
  "mrv_event loads event =
     bindR (require_some (cell_text (row_get event ''payload_json'')) ValueError ''silver mrv event is missing payload_json'') (\<lambda>s.
     bindR (loads s) (\<lambda>payload.
     bindR (extract_domain_fields loads payload) (\<lambda>d.
     bindR (require_some (cell_time (row_get event ''occurred_at'')) ValueError ''silver mrv event is missing occurred_at'') (\<lambda>occurred_at.
     bindR (require_some (cell_text (row_get event ''event_id'')) ValueError ''silver mrv event is missing event_id'') (\<lambda>event_id.
     Inr (d, occurred_at, event_id))))))"

definition calendar_year_of :: "jobject \<Rightarrow> int res" where
  "calendar_year_of d =
     (case jget d ''calendarYear'' of
        JInt y \<Rightarrow> bindR (guard (2000 \<le> y \<and> y \<le> 9999) ValueError ''calendarYear must be a four-digit year integer'') (\<lambda>_. Inr y)
      | _ \<Rightarrow> raise ValueError ''calendarYear must be a four-digit year integer'')"

section \<open>The two dictionaries\<close>

record mrv_report =
  report_id :: string
  report_fields :: jobject
  report_at :: int
  report_event :: string

record mrv_soc =
  soc_artifact :: string
  soc_event :: string
  soc_at :: int

type_synonym mrv_key = "string \<times> int"

record mrv_state =
  mrv_verified :: "(mrv_key \<times> mrv_report) list"
  mrv_socs :: "(string \<times> mrv_soc) list"

definition report_order :: "mrv_report \<Rightarrow> int \<times> string" where
  "report_order r = (report_at r, report_event r)"

definition soc_order :: "mrv_soc \<Rightarrow> int \<times> string" where
  "soc_order s = (soc_at s, soc_event s)"

definition soc_step :: "mrv_state \<Rightarrow> jobject \<Rightarrow> int \<Rightarrow> string \<Rightarrow> mrv_state res" where
  "soc_step st d occurred_at event_id =
     bindR (require_field_text d ''reportId'') (\<lambda>rid.
     bindR (require_field_text d ''artifactSha256'') (\<lambda>artifact.
     bindR (guard (sha256_pattern artifact) ValueError ''artifactSha256 must be 64 lowercase hex characters'') (\<lambda>_.
     Inr (if newer (mrv_socs st) soc_order rid (occurred_at, event_id)
          then st\<lparr>mrv_socs := AList.update rid
                 \<lparr>soc_artifact = artifact, soc_event = event_id, soc_at = occurred_at\<rparr> (mrv_socs st)\<rparr>
          else st))))"

definition report_step :: "mrv_state \<Rightarrow> jobject \<Rightarrow> int \<Rightarrow> string \<Rightarrow> mrv_state res" where
  "report_step st d occurred_at event_id =
     (if jget d ''state'' \<noteq> JStr VERIFIED_STATE then Inr st
      else
        bindR (require_field_text d ''imoNumber'') (\<lambda>imo_number.
        bindR (guard (imo_number_pattern imo_number) ValueError ''imoNumber is not 7 digits'') (\<lambda>_.
        bindR (calendar_year_of d) (\<lambda>calendar_year.
        let key = (imo_number, calendar_year)
        in if newer (mrv_verified st) report_order key (occurred_at, event_id)
           then bindR (require_field_text d ''reportId'') (\<lambda>rid.
                Inr (st\<lparr>mrv_verified := AList.update key
                  \<lparr>report_id = rid, report_fields = d, report_at = occurred_at, report_event = event_id\<rparr> (mrv_verified st)\<rparr>))
           else Inr st))))"

definition mrv_step :: "(string \<Rightarrow> json res) \<Rightarrow> mrv_state \<Rightarrow> row \<Rightarrow> mrv_state res" where
  "mrv_step loads st event =
     (let event_type = row_get event ''event_type''
      in if event_type \<notin> {CText ANNUAL_REPORT_EVENT_TYPE, CText SOC_EVENT_TYPE} then Inr st
         else bindR (mrv_event loads event) (\<lambda>(d, occurred_at, event_id).
              if event_type = CText SOC_EVENT_TYPE then soc_step st d occurred_at event_id
              else report_step st d occurred_at event_id))"

section \<open>Rows\<close>

text \<open>A missing rating is null, any other must be one of the letters.\<close>

definition cii_rating_of :: "jobject \<Rightarrow> cell res" where
  "cii_rating_of d =
     (case jget d ''ciiRating'' of
        JNull \<Rightarrow> Inr CNone
      | JStr s \<Rightarrow> bindR (guard (s \<in> set CII_RATINGS) ValueError ''ciiRating is not A-E'') (\<lambda>_. Inr (CText s))
      | _ \<Rightarrow> raise ValueError ''ciiRating is not A-E'')"

definition vessel_annual_row :: "(rat \<Rightarrow> string) \<Rightarrow> int \<Rightarrow> mrv_key \<Rightarrow> mrv_report \<Rightarrow> mrv_soc option \<Rightarrow> row res" where
  "vessel_annual_row fr curated_at key entry soc =
     (let d = report_fields entry in
      bindR (cii_rating_of d) (\<lambda>rating.
      bindR (require_some (json_obj (jget d ''totals'')) ValueError ''verified report must carry a totals object'') (\<lambda>totals.
      bindR (optional_float totals ''co2Tonnes'') (\<lambda>co2.
      bindR (optional_float d ''attainedCii'') (\<lambda>attained.
      bindR (optional_float d ''requiredCii'') (\<lambda>required.
      Inr
       [(''imo_number'', CText (fst key)),
        (''calendar_year'', CInt (snd key)),
        (''report_id'', CText (report_id entry)),
        (''fuel_totals_json'', CText (dumps_compact fr True (JObj totals))),
        (''co2_tonnes'', co2),
        (''attained_cii'', attained),
        (''required_cii'', required),
        (''cii_rating'', rating),
        (''soc_artifact_sha256'', case soc of None \<Rightarrow> CNone | Some s \<Rightarrow> CText (soc_artifact s)),
        (''source_event_ids_json'', CText (dumps_texts (sort (report_event entry #
           (case soc of None \<Rightarrow> [] | Some s \<Rightarrow> [soc_event s]))))),
        (''curated_at'', CTime curated_at)]))))))"

text \<open>The second loop: every row takes its Statement of Compliance out of the dictionary.\<close>

definition row_step :: "(rat \<Rightarrow> string) \<Rightarrow> int \<Rightarrow> row list \<times> (string \<times> mrv_soc) list \<Rightarrow> mrv_key \<times> mrv_report \<Rightarrow>
    (row list \<times> (string \<times> mrv_soc) list) res" where
  "row_step fr curated_at st ke =
     (case st of (rows, socs) \<Rightarrow> case ke of (key, entry) \<Rightarrow>
        bindR (vessel_annual_row fr curated_at key entry (map_of socs (report_id entry))) (\<lambda>r.
        Inr (rows @ [r], AList.delete (report_id entry) socs)))"

definition build_vessel_annual_rows :: "(string \<Rightarrow> json res) \<Rightarrow> (rat \<Rightarrow> string) \<Rightarrow> int \<Rightarrow> row list \<Rightarrow> row list res" where
  "build_vessel_annual_rows loads fr curated_at silver_events =
     bindR (foldR (mrv_step loads) \<lparr>mrv_verified = [], mrv_socs = []\<rparr> silver_events) (\<lambda>st.
     bindR (foldR (row_step fr curated_at) ([], mrv_socs st) (sort_key fst (mrv_verified st))) (\<lambda>(rows, socs).
     bindR (guard (socs = []) ValueError ''mrv.soc.v1 events reference reports that are not VERIFIED in silver'') (\<lambda>_.
     Inr rows)))"

section \<open>The gold table\<close>

definition MRV_GOLD_TABLE_NAME :: string where "MRV_GOLD_TABLE_NAME = ''vessel_annual''"

definition MRV_GOLD_TABLE_DESCRIPTION :: string where
  "MRV_GOLD_TABLE_DESCRIPTION =
     ''MRV gold vessel_annual: one row per (imo_number, calendar_year) assembled '' @
     ''from VERIFIED mrv.emissions-annual.v1 silver events plus the issued SoC '' @
     ''artifact hash (derived state, rebuilt atomically)''"

definition MRV_GOLD_SCHEMA :: arrow_schema where
  "MRV_GOLD_SCHEMA =
     [(''imo_number'', ''string not null''), (''calendar_year'', ''int32 not null''), (''report_id'', ''string not null''),
      (''fuel_totals_json'', ''string not null''), (''co2_tonnes'', ''double''), (''attained_cii'', ''double''),
      (''required_cii'', ''double''), (''cii_rating'', ''string''), (''soc_artifact_sha256'', ''string''),
      (''source_event_ids_json'', ''string not null''), (''curated_at'', ''timestamp[us, tz=UTC] not null'')]"

text \<open>\<open>gold_uri.rsplit("/", 2)[0]\<close>.\<close>

definition scope_root :: "string \<Rightarrow> string" where
  "scope_root gold_uri = before_last (CHR ''/'') (before_last (CHR ''/'') gold_uri)"

definition mrv_gold_table_uri :: "delta_writer \<Rightarrow> string res" where
  "mrv_gold_table_uri writer =
     bindR (guard (writer_scope writer = MRV) ValueError
              ''vessel_annual gold assembly is only defined for the mrv boundary'') (\<lambda>_.
     scope_layer_table_uri (roots_scope (writer_roots writer)) (scope_root (roots_gold (writer_roots writer))) ''gold''
       MRV_GOLD_TABLE_NAME)"

definition assemble_mrv_vessel_annual_gold :: "('w, 't) delta_api \<Rightarrow> (string \<Rightarrow> json res) \<Rightarrow> (rat \<Rightarrow> string) \<Rightarrow> int \<Rightarrow>
    delta_writer \<Rightarrow> ('w, int \<times> int) act" where
  "assemble_mrv_vessel_annual_gold api loads fr now writer =
     bindA (pureA (guard (writer_scope writer = MRV) ValueError
              ''vessel_annual gold assembly is only defined for the mrv boundary'')) (\<lambda>_.
     rebuild_gold api writer True (build_vessel_annual_rows loads fr now) (mrv_gold_table_uri writer)
       MRV_GOLD_SCHEMA ''mrv_gold_vessel_annual'' MRV_GOLD_TABLE_DESCRIPTION)"

section \<open>Lemmas\<close>

text \<open>The candidates of the two dictionaries: what an event contributes, as the specification reads it.\<close>

definition report_item :: "(string \<Rightarrow> json res) \<Rightarrow> row \<Rightarrow> (mrv_key \<times> jobject \<times> int \<times> string) option" where
  "report_item loads event =
     (case (row_get event ''event_type'' = CText ANNUAL_REPORT_EVENT_TYPE, mrv_event loads event) of
        (True, Inr (d, t, i)) \<Rightarrow>
          (case (jget d ''state'' = JStr VERIFIED_STATE, jget d ''imoNumber'', jget d ''calendarYear'') of
             (True, JStr m, JInt y) \<Rightarrow> Some ((m, y), d, t, i)
           | _ \<Rightarrow> None)
      | _ \<Rightarrow> None)"

definition soc_item :: "(string \<Rightarrow> json res) \<Rightarrow> row \<Rightarrow> (string \<times> string \<times> int \<times> string) option" where
  "soc_item loads event =
     (case (row_get event ''event_type'' = CText SOC_EVENT_TYPE, mrv_event loads event) of
        (True, Inr (d, t, i)) \<Rightarrow>
          (case (jget d ''reportId'', jget d ''artifactSha256'') of
             (JStr rid, JStr a) \<Rightarrow> Some (rid, a, t, i)
           | _ \<Rightarrow> None)
      | _ \<Rightarrow> None)"

definition report_view :: "mrv_report \<Rightarrow> jobject \<times> int \<times> string" where
  "report_view r = (report_fields r, report_order r)"

definition soc_view :: "mrv_soc \<Rightarrow> string \<times> int \<times> string" where
  "soc_view s = (soc_artifact s, soc_order s)"

definition mrv_holds :: "(string \<Rightarrow> json res) \<Rightarrow> mrv_state \<Rightarrow> row list \<Rightarrow> bool" where
  "mrv_holds loads st events \<longleftrightarrow>
     holds_latest (mrv_verified st) report_view snd (List.map_filter (report_item loads) events) \<and>
     holds_latest (mrv_socs st) soc_view snd (List.map_filter (soc_item loads) events) \<and>
     (\<forall>(k, r)\<in>set (mrv_verified st). jget (report_fields r) ''reportId'' = JStr (report_id r))"

lemma map_filter_snoc: "List.map_filter f (xs @ [x]) = List.map_filter f xs @ (case f x of None \<Rightarrow> [] | Some y \<Rightarrow> [y])"
  by (simp add: List.map_filter_def split: option.split)

lemma set_map_filter: "set (List.map_filter f xs) = {y. \<exists>x\<in>set xs. f x = Some y}"
  by (force simp: List.map_filter_def)

lemma set_update_distinct:
  "distinct (map fst d) \<Longrightarrow> x \<in> set (AList.update k v d) \<Longrightarrow> x = (k, v) \<or> x \<in> set d"
  by (induction d) (auto split: if_splits)

lemma soc_step_holds:
  assumes "mrv_holds loads st ds" "soc_step st d t i = Inr st'"
    and "row_get e ''event_type'' = CText SOC_EVENT_TYPE" "mrv_event loads e = Inr (d, t, i)"
  shows "mrv_holds loads st' (ds @ [e])"
proof -
  from assms(2) obtain rid a where s: "jget d ''reportId'' = JStr rid" "jget d ''artifactSha256'' = JStr a"
    "st' = (if newer (mrv_socs st) soc_order rid (t, i)
       then st\<lparr>mrv_socs := AList.update rid \<lparr>soc_artifact = a, soc_event = i, soc_at = t\<rparr> (mrv_socs st)\<rparr> else st)"
    by (auto simp: soc_step_def bindR_Inr_iff require_field_text_Inr)
  have items: "report_item loads e = None" "soc_item loads e = Some (rid, a, t, i)"
    using assms(3,4) s(1,2) by (simp_all add: report_item_def soc_item_def SOC_EVENT_TYPE_def ANNUAL_REPORT_EVENT_TYPE_def)
  have o: "soc_order = (\<lambda>e. snd (soc_view e))" by (simp add: soc_view_def fun_eq_iff)
  have h: "holds_latest (mrv_socs st) soc_view snd (List.map_filter (soc_item loads) ds)"
    using assms(1) by (simp add: mrv_holds_def)
  have "holds_latest (mrv_socs st') soc_view snd (List.map_filter (soc_item loads) ds @ [(rid, a, t, i)])"
  proof (cases "newer (mrv_socs st) soc_order rid (t, i)")
    case True
    have "newer (mrv_socs st) (\<lambda>e. snd (soc_view e)) rid (snd (a, t, i))" using True o by simp
    moreover have "soc_view \<lparr>soc_artifact = a, soc_event = i, soc_at = t\<rparr> = (a, t, i)"
      by (simp add: soc_view_def soc_order_def)
    ultimately show ?thesis using holds_latest_newer [OF h] s(3) True by simp
  next
    case False
    then have "\<not> newer (mrv_socs st) (\<lambda>e. snd (soc_view e)) rid (snd (a, t, i))" using o by simp
    from holds_latest_older [OF h this] s(3) False show ?thesis by simp
  qed
  with assms(1) s(3) items show ?thesis by (simp add: mrv_holds_def map_filter_snoc)
qed

lemma report_step_holds:
  assumes "mrv_holds loads st ds" "report_step st d t i = Inr st'"
    and "row_get e ''event_type'' = CText ANNUAL_REPORT_EVENT_TYPE" "mrv_event loads e = Inr (d, t, i)"
  shows "mrv_holds loads st' (ds @ [e])"
proof (cases "jget d ''state'' = JStr VERIFIED_STATE")
  case False
  then have "report_item loads e = None" "soc_item loads e = None" "st' = st"
    using assms(2-4) by (simp_all add: report_item_def soc_item_def report_step_def SOC_EVENT_TYPE_def ANNUAL_REPORT_EVENT_TYPE_def)
  with assms(1) show ?thesis by (simp add: mrv_holds_def map_filter_snoc)
next
  case True
  with assms(2) obtain m y where s: "jget d ''imoNumber'' = JStr m" "jget d ''calendarYear'' = JInt y"
    and st': "(if newer (mrv_verified st) report_order (m, y) (t, i)
       then bindR (require_field_text d ''reportId'') (\<lambda>rid. Inr (st\<lparr>mrv_verified := AList.update (m, y)
              \<lparr>report_id = rid, report_fields = d, report_at = t, report_event = i\<rparr> (mrv_verified st)\<rparr>))
       else Inr st) = Inr st'"
    by (auto simp: report_step_def bindR_Inr_iff require_field_text_Inr calendar_year_of_def Let_def split: json.splits)
  have items: "report_item loads e = Some ((m, y), d, t, i)" "soc_item loads e = None"
    using assms(3,4) s True by (simp_all add: report_item_def soc_item_def SOC_EVENT_TYPE_def ANNUAL_REPORT_EVENT_TYPE_def)
  have o: "report_order = (\<lambda>e. snd (report_view e))" by (simp add: report_view_def fun_eq_iff)
  have h: "holds_latest (mrv_verified st) report_view snd (List.map_filter (report_item loads) ds)"
    and ids: "\<forall>(k, r)\<in>set (mrv_verified st). jget (report_fields r) ''reportId'' = JStr (report_id r)"
    using assms(1) by (simp_all add: mrv_holds_def)
  have "holds_latest (mrv_verified st') report_view snd (List.map_filter (report_item loads) ds @ [((m, y), d, t, i)]) \<and>
      (\<forall>(k, r)\<in>set (mrv_verified st'). jget (report_fields r) ''reportId'' = JStr (report_id r)) \<and> mrv_socs st' = mrv_socs st"
  proof (cases "newer (mrv_verified st) report_order (m, y) (t, i)")
    case True
    with st' obtain rid where rid: "jget d ''reportId'' = JStr rid"
      "st' = st\<lparr>mrv_verified := AList.update (m, y) \<lparr>report_id = rid, report_fields = d, report_at = t, report_event = i\<rparr> (mrv_verified st)\<rparr>"
      by (auto simp: bindR_Inr_iff require_field_text_Inr)
    have n: "newer (mrv_verified st) (\<lambda>e. snd (report_view e)) (m, y) (snd (d, t, i))" using True o by simp
    have "distinct (map fst (mrv_verified st))" using h by (simp add: holds_latest_def)
    then have "\<forall>(k, r)\<in>set (mrv_verified st'). jget (report_fields r) ''reportId'' = JStr (report_id r)"
      using rid ids by (fastforce dest: set_update_distinct)
    moreover have "report_view \<lparr>report_id = rid, report_fields = d, report_at = t, report_event = i\<rparr> = (d, t, i)"
      by (simp add: report_view_def report_order_def)
    ultimately show ?thesis using holds_latest_newer [OF h n] rid(2) by simp
  next
    case False
    then have n: "\<not> newer (mrv_verified st) (\<lambda>e. snd (report_view e)) (m, y) (snd (d, t, i))" using o by simp
    from holds_latest_older [OF h n] st' False ids show ?thesis by simp
  qed
  with assms(1) items show ?thesis by (simp add: mrv_holds_def map_filter_snoc)
qed

lemma mrv_step_holds:
  assumes "mrv_holds loads st ds" "mrv_step loads st e = Inr st'"
  shows "mrv_holds loads st' (ds @ [e])"
proof -
  consider (skip) "row_get e ''event_type'' \<notin> {CText ANNUAL_REPORT_EVENT_TYPE, CText SOC_EVENT_TYPE}" |
    (soc) "row_get e ''event_type'' = CText SOC_EVENT_TYPE" | (report) "row_get e ''event_type'' = CText ANNUAL_REPORT_EVENT_TYPE"
    by blast
  then show ?thesis
  proof cases
    case skip
    then have "report_item loads e = None" "soc_item loads e = None" by (simp_all add: report_item_def soc_item_def)
    with skip assms show ?thesis by (simp add: mrv_step_def mrv_holds_def map_filter_snoc)
  next
    case soc
    with assms(2) obtain d t i where "mrv_event loads e = Inr (d, t, i)" "soc_step st d t i = Inr st'"
      by (auto simp: mrv_step_def bindR_Inr_iff)
    with soc_step_holds [OF assms(1)] soc show ?thesis by blast
  next
    case report
    with assms(2) obtain d t i where "mrv_event loads e = Inr (d, t, i)" "report_step st d t i = Inr st'"
      by (auto simp: mrv_step_def bindR_Inr_iff SOC_EVENT_TYPE_def ANNUAL_REPORT_EVENT_TYPE_def)
    with report_step_holds [OF assms(1)] report show ?thesis by blast
  qed
qed

lemma mrv_fold_holds:
  assumes "foldR (mrv_step loads) \<lparr>mrv_verified = [], mrv_socs = []\<rparr> events = Inr st"
  shows "mrv_holds loads st events"
  using assms
proof (rule foldR_prefix_inv)
  show "mrv_holds loads \<lparr>mrv_verified = [], mrv_socs = []\<rparr> []"
    by (simp add: mrv_holds_def holds_latest_Nil List.map_filter_def)
qed (rule mrv_step_holds)


text \<open>The second loop: which Statement of Compliance ends in which row, and which are left.\<close>

definition soc_cell :: "row \<Rightarrow> cell" where
  "soc_cell r = row_get r ''soc_artifact_sha256''"

definition row_matches :: "(string \<times> mrv_soc) list \<Rightarrow> mrv_key \<times> mrv_report \<Rightarrow> row \<Rightarrow> bool" where
  "row_matches socs0 ke r \<longleftrightarrow> row_get r ''imo_number'' = CText (fst (fst ke)) \<and> row_get r ''calendar_year'' = CInt (snd (fst ke)) \<and>
     row_get r ''report_id'' = CText (report_id (snd ke)) \<and>
     (soc_cell r = CNone \<or> (\<exists>s. map_of socs0 (report_id (snd ke)) = Some s \<and> soc_cell r = CText (soc_artifact s)))"

definition rows_hold :: "(string \<times> mrv_soc) list \<Rightarrow> (mrv_key \<times> mrv_report) list \<Rightarrow> row list \<times> (string \<times> mrv_soc) list \<Rightarrow> bool" where
  "rows_hold socs0 ds st \<longleftrightarrow> list_all2 (row_matches socs0) ds (fst st) \<and>
     (\<forall>rid. map_of (snd st) rid = (if rid \<in> (\<lambda>ke. report_id (snd ke)) ` set ds then None else map_of socs0 rid)) \<and>
     (\<forall>ke\<in>set ds. \<forall>s. map_of socs0 (report_id (snd ke)) = Some s \<longrightarrow>
        (\<exists>r\<in>set (fst st). row_get r ''report_id'' = CText (report_id (snd ke)) \<and> soc_cell r = CText (soc_artifact s)))"

lemma vessel_annual_row_fields:
  assumes "vessel_annual_row fr now k e soc = Inr r"
  shows "row_get r ''imo_number'' = CText (fst k) \<and> row_get r ''calendar_year'' = CInt (snd k) \<and>
    row_get r ''report_id'' = CText (report_id e) \<and>
    soc_cell r = (case soc of None \<Rightarrow> CNone | Some s \<Rightarrow> CText (soc_artifact s))"
  using assms by (auto simp: vessel_annual_row_def bindR_Inr_iff soc_cell_def Let_def)

lemma vessel_annual_row_shape: "vessel_annual_row fr now k e soc = Inr r \<Longrightarrow> map fst r = map fst MRV_GOLD_SCHEMA"
  by (auto simp: vessel_annual_row_def bindR_Inr_iff Let_def MRV_GOLD_SCHEMA_def)

lemma row_step_holds:
  assumes "rows_hold socs0 ds st" "row_step fr now st ke = Inr st'"
  shows "rows_hold socs0 (ds @ [ke]) st'"
proof -
  obtain k e where ke: "ke = (k, e)" by (cases ke)
  obtain rows socs where st: "st = (rows, socs)" by (cases st)
  from assms(2) obtain r where r: "vessel_annual_row fr now k e (map_of socs (report_id e)) = Inr r"
    "st' = (rows @ [r], AList.delete (report_id e) socs)"
    by (auto simp: row_step_def ke st bindR_Inr_iff)
  note f = vessel_annual_row_fields [OF r(1)]
  have h: "map_of socs rid = (if rid \<in> (\<lambda>ke. report_id (snd ke)) ` set ds then None else map_of socs0 rid)" for rid
    using assms(1) by (simp add: rows_hold_def st)
  have prev: "\<exists>r\<in>set rows. row_get r ''report_id'' = CText (report_id (snd q)) \<and> soc_cell r = CText (soc_artifact s)"
    if "q \<in> set ds" "map_of socs0 (report_id (snd q)) = Some s" for q s
    using assms(1) that by (simp add: rows_hold_def st)
  have "row_matches socs0 ke r"
    using f h [of "report_id e"] by (auto simp: row_matches_def ke split: option.splits if_splits)
  with assms(1) have "list_all2 (row_matches socs0) (ds @ [ke]) (rows @ [r])"
    by (simp add: rows_hold_def st list_all2_appendI)
  moreover have "map_of (AList.delete (report_id e) socs) rid =
      (if rid \<in> (\<lambda>ke. report_id (snd ke)) ` set (ds @ [ke]) then None else map_of socs0 rid)" for rid
    using h [of rid] by (auto simp: ke)
  moreover have "\<exists>r'\<in>set (rows @ [r]). row_get r' ''report_id'' = CText (report_id e) \<and> soc_cell r' = CText (soc_artifact s)"
    if "map_of socs0 (report_id e) = Some s" for s
  proof (cases "report_id e \<in> (\<lambda>ke. report_id (snd ke)) ` set ds")
    case True
    then obtain q where "q \<in> set ds" "report_id (snd q) = report_id e" by auto
    with prev [of q s] that show ?thesis by auto
  next
    case False
    with h [of "report_id e"] that f show ?thesis by simp
  qed
  then have "\<exists>r'\<in>set (rows @ [r]). row_get r' ''report_id'' = CText (report_id (snd q)) \<and> soc_cell r' = CText (soc_artifact s)"
    if "q \<in> set (ds @ [ke])" "map_of socs0 (report_id (snd q)) = Some s" for q s
    using prev [of q s] that by (auto simp: ke)
  ultimately show ?thesis unfolding rows_hold_def r(2) fst_conv snd_conv by blast
qed

lemma built_vessel_rows:
  assumes "build_vessel_annual_rows loads fr now events = Inr rows"
  obtains st where "mrv_holds loads st events"
    "rows_hold (mrv_socs st) (sort_key fst (mrv_verified st)) (rows, [])"
proof -
  from assms obtain st where s: "foldR (mrv_step loads) \<lparr>mrv_verified = [], mrv_socs = []\<rparr> events = Inr st"
    "foldR (row_step fr now) ([], mrv_socs st) (sort_key fst (mrv_verified st)) = Inr (rows, [])"
    by (auto simp: build_vessel_annual_rows_def bindR_Inr_iff)
  have "rows_hold (mrv_socs st) [] ([], mrv_socs st)" by (simp add: rows_hold_def)
  then have "rows_hold (mrv_socs st) (sort_key fst (mrv_verified st)) (rows, [])"
    by (rule foldR_prefix_inv [OF s(2)]) (rule row_step_holds)
  with mrv_fold_holds [OF s(1)] that show ?thesis by blast
qed

text \<open>The latest candidate of a key.\<close>

definition latest_item :: "('k \<times> 'v \<times> int \<times> string) list \<Rightarrow> 'k \<Rightarrow> 'v \<Rightarrow> bool" where
  "latest_item items k v \<longleftrightarrow> (\<exists>o1. (k, v, o1) \<in> set items \<and> (\<forall>v' o'. (k, v', o') \<in> set items \<longrightarrow> o' \<le> o1))"

lemma latest_itemI:
  assumes "(k, v, o1) \<in> set items \<and> (\<forall>p. (k, p) \<in> set items \<longrightarrow> snd p \<le> o1)"
  shows "latest_item items k v"
  using assms unfolding latest_item_def by (metis snd_conv)

abbreviation "reports_of loads events \<equiv> List.map_filter (report_item loads) events"
abbreviation "socs_of loads events \<equiv> List.map_filter (soc_item loads) events"

lemma latest_report:
  assumes "mrv_holds loads st events" "(k, e) \<in> set (mrv_verified st)"
  shows "latest_item (reports_of loads events) k (report_fields e) \<and> jget (report_fields e) ''reportId'' = JStr (report_id e)"
proof -
  from assms(1) have h: "holds_latest (mrv_verified st) report_view snd (reports_of loads events)"
    and i: "\<forall>(k, r)\<in>set (mrv_verified st). jget (report_fields r) ''reportId'' = JStr (report_id r)"
    by (simp_all add: mrv_holds_def)
  from latest_itemI [OF holds_latest_entry [OF h assms(2), unfolded report_view_def snd_conv]] i assms(2) show ?thesis
    by blast
qed

lemma latest_soc:
  assumes "mrv_holds loads st events" "map_of (mrv_socs st) rid = Some s"
  shows "latest_item (socs_of loads events) rid (soc_artifact s)"
proof -
  from assms(1) have "holds_latest (mrv_socs st) soc_view snd (socs_of loads events)" by (simp add: mrv_holds_def)
  from latest_itemI [OF holds_latest_entry [OF this map_of_SomeD [OF assms(2)], unfolded soc_view_def snd_conv]]
  show ?thesis .
qed

text \<open>Every Statement of Compliance found a row: nothing is left after the second loop.\<close>

lemma soc_has_row:
  assumes "mrv_holds loads st events" "rows_hold (mrv_socs st) (sort_key fst (mrv_verified st)) (rows, [])"
    and "(rid, a, o1) \<in> set (socs_of loads events)"
  shows "\<exists>r\<in>set rows. \<exists>k e s. (k, e) \<in> set (mrv_verified st) \<and> report_id e = rid \<and> row_get r ''report_id'' = CText rid \<and>
    map_of (mrv_socs st) rid = Some s \<and> soc_cell r = CText (soc_artifact s)"
proof -
  from assms(1) have "holds_latest (mrv_socs st) soc_view snd (socs_of loads events)" by (simp add: mrv_holds_def)
  from holds_latest_at [OF this, of rid] assms(3) obtain s where s: "map_of (mrv_socs st) rid = Some s"
    by (cases "map_of (mrv_socs st) rid") force+
  have "map_of [] rid = (if rid \<in> (\<lambda>ke. report_id (snd ke)) ` set (sort_key fst (mrv_verified st)) then None
      else map_of (mrv_socs st) rid)"
    using assms(2) unfolding rows_hold_def snd_conv by blast
  with s obtain ke where ke: "ke \<in> set (mrv_verified st)" "report_id (snd ke) = rid"
    by (auto split: if_splits)
  from assms(2) have "\<forall>ke\<in>set (sort_key fst (mrv_verified st)). \<forall>s. map_of (mrv_socs st) (report_id (snd ke)) = Some s \<longrightarrow>
      (\<exists>r\<in>set rows. row_get r ''report_id'' = CText (report_id (snd ke)) \<and> soc_cell r = CText (soc_artifact s))"
    unfolding rows_hold_def fst_conv by blast
  then have "\<forall>s. map_of (mrv_socs st) rid = Some s \<longrightarrow>
      (\<exists>r\<in>set rows. row_get r ''report_id'' = CText rid \<and> soc_cell r = CText (soc_artifact s))"
    using ke(1) unfolding set_sort ke(2) [symmetric] by (rule bspec)
  then obtain r where "r \<in> set rows" "row_get r ''report_id'' = CText rid" "soc_cell r = CText (soc_artifact s)"
    using s by blast
  moreover have "(fst ke, snd ke) \<in> set (mrv_verified st)" using ke(1) by simp
  ultimately show ?thesis using s ke(2) by blast
qed

section \<open>Properties\<close>

text \<open>
  Claim C36.  One row per vessel and calendar year for which a VERIFIED report exists, in increasing order, each
  made from the latest VERIFIED report of its vessel and year: no other report state contributes.
\<close>

theorem vessel_annual_latest_verified:
  assumes "build_vessel_annual_rows loads fr now events = Inr rows"
  shows "\<exists>keys. sorted_wrt (<) keys \<and> set keys = fst ` set (reports_of loads events) \<and>
    list_all2 (\<lambda>k r. row_get r ''imo_number'' = CText (fst k) \<and> row_get r ''calendar_year'' = CInt (snd k) \<and>
      (\<exists>d rid. latest_item (reports_of loads events) k d \<and> jget d ''reportId'' = JStr rid \<and> row_get r ''report_id'' = CText rid))
      keys rows"
proof -
  from assms obtain st where st: "mrv_holds loads st events"
    "rows_hold (mrv_socs st) (sort_key fst (mrv_verified st)) (rows, [])" by (rule built_vessel_rows)
  let ?es = "sort_key fst (mrv_verified st)"
  have h: "holds_latest (mrv_verified st) report_view snd (reports_of loads events)" using st(1) by (simp add: mrv_holds_def)
  let ?row = "\<lambda>k r. row_get r ''imo_number'' = CText (fst k) \<and> row_get r ''calendar_year'' = CInt (snd k) \<and>
      (\<exists>d rid. latest_item (reports_of loads events) k d \<and> jget d ''reportId'' = JStr rid \<and> row_get r ''report_id'' = CText rid)"
  from st(2) have a: "list_all2 (row_matches (mrv_socs st)) ?es rows" by (simp add: rows_hold_def)
  have "list_all2 (\<lambda>ke r. ?row (fst ke) r) ?es rows"
  proof (rule list.rel_mono_strong [OF a])
    fix ke r assume "ke \<in> set ?es" "row_matches (mrv_socs st) ke r"
    with latest_report [OF st(1), of "fst ke" "snd ke"] show "?row (fst ke) r" by (simp add: row_matches_def) blast
  qed
  then have "list_all2 ?row (map fst ?es) rows" by (simp only: list_all2_map1)
  moreover have "sorted_wrt (<) (map fst ?es)" using h by (intro sorted_fst_strict) (simp add: holds_latest_def)
  moreover have "set (map fst ?es) = fst ` set (reports_of loads events)" using holds_latest_keys [OF h] by simp
  ultimately show ?thesis by blast
qed

text \<open>
  Statements of Compliance: a row's artifact hash is the latest one issued for its report, and every
  statement in silver is that of a row; so none is dropped and none is attached to another report.
\<close>

theorem soc_rows_exact:
  assumes "build_vessel_annual_rows loads fr now events = Inr rows"
  shows "(\<forall>r\<in>set rows. soc_cell r = CNone \<or> (\<exists>rid a. row_get r ''report_id'' = CText rid \<and> soc_cell r = CText a \<and>
      latest_item (socs_of loads events) rid a)) \<and>
    (\<forall>(rid, a, o1)\<in>set (socs_of loads events). \<exists>r\<in>set rows. row_get r ''report_id'' = CText rid \<and> soc_cell r \<noteq> CNone)"
proof -
  from assms obtain st where st: "mrv_holds loads st events"
    "rows_hold (mrv_socs st) (sort_key fst (mrv_verified st)) (rows, [])" by (rule built_vessel_rows)
  have "soc_cell r = CNone \<or> (\<exists>rid a. row_get r ''report_id'' = CText rid \<and> soc_cell r = CText a \<and>
      latest_item (socs_of loads events) rid a)" if "r \<in> set rows" for r
  proof -
    from st(2) have "list_all2 (row_matches (mrv_socs st)) (sort_key fst (mrv_verified st)) rows" by (simp add: rows_hold_def)
    from list_all2_in_left [OF this that] obtain ke where "row_matches (mrv_socs st) ke r" by blast
    then show ?thesis unfolding row_matches_def by (blast dest: latest_soc [OF st(1)])
  qed
  moreover have "\<exists>r\<in>set rows. row_get r ''report_id'' = CText rid \<and> soc_cell r \<noteq> CNone"
    if "(rid, a, o1) \<in> set (socs_of loads events)" for rid a o1
    using soc_has_row [OF st that] by auto
  ultimately show ?thesis by blast
qed

text \<open>
  A Statement of Compliance for a report that is VERIFIED in silver but is not the latest one of its
  vessel and year makes every run fail.
\<close>

theorem superseded_soc_refused:
  assumes "(rid, a, o1) \<in> set (socs_of loads events)"
    and "\<forall>k d. latest_item (reports_of loads events) k d \<longrightarrow> jget d ''reportId'' \<noteq> JStr rid"
  shows "\<exists>e. build_vessel_annual_rows loads fr now events = Inl e"
proof (cases "build_vessel_annual_rows loads fr now events")
  case (Inr rows)
  then obtain st where st: "mrv_holds loads st events"
    "rows_hold (mrv_socs st) (sort_key fst (mrv_verified st)) (rows, [])" by (rule built_vessel_rows)
  from soc_has_row [OF st assms(1)] obtain k e where "(k, e) \<in> set (mrv_verified st)" "report_id e = rid" by blast
  with latest_report [OF st(1)] assms(2) show ?thesis by blast
qed simp

text \<open>Two VERIFIED reports of one vessel and year, and a Statement of Compliance for the first.\<close>

definition mrv_loads :: "string \<Rightarrow> json res" where
  "mrv_loads s =
     (if s = ''soc'' then Inr (JObj [(''reportId'', JStr ''r1''), (''artifactSha256'', JStr (replicate 64 CHR ''a''))])
      else Inr (JObj [(''state'', JStr ''VERIFIED''), (''imoNumber'', JStr ''9074729''), (''calendarYear'', JInt 2024),
                      (''reportId'', JStr s), (''totals'', JObj [])]))"

definition mrv_sample :: "string \<Rightarrow> string \<Rightarrow> int \<Rightarrow> row" where
  "mrv_sample typ payload t =
     [(''event_id'', CText payload), (''event_type'', CText typ), (''occurred_at'', CTime t), (''payload_json'', CText payload)]"

definition mrv_compliant :: "row list" where
  "mrv_compliant = [mrv_sample ANNUAL_REPORT_EVENT_TYPE ''r1'' 5, mrv_sample SOC_EVENT_TYPE ''soc'' 6]"

definition mrv_superseded :: "row list" where
  "mrv_superseded = mrv_compliant @ [mrv_sample ANNUAL_REPORT_EVENT_TYPE ''r2'' 7]"

definition compliant_row :: row where
  "compliant_row =
     [(''imo_number'', CText ''9074729''), (''calendar_year'', CInt 2024), (''report_id'', CText ''r1''),
      (''fuel_totals_json'', CText ''{}''), (''co2_tonnes'', CNone), (''attained_cii'', CNone), (''required_cii'', CNone),
      (''cii_rating'', CNone), (''soc_artifact_sha256'', CText (replicate 64 CHR ''a'')),
      (''source_event_ids_json'', CText (dumps_texts [''r1'', ''soc''])), (''curated_at'', CTime 9)]"

lemma sample_compliant: "build_vessel_annual_rows mrv_loads (\<lambda>q. []) 9 mrv_compliant = Inr [compliant_row]"
  by code_simp

lemma vessel_annual_latest_verified_witness:
  "build_vessel_annual_rows mrv_loads (\<lambda>q. []) 9 mrv_compliant = Inr [compliant_row] \<and>
   set (reports_of mrv_loads mrv_compliant) \<noteq> {}"
proof -
  from vessel_annual_latest_verified [OF sample_compliant]
  have "set (reports_of mrv_loads mrv_compliant) \<noteq> {}" by (auto simp: list_all2_Cons2)
  with sample_compliant show ?thesis by blast
qed

lemma soc_rows_exact_witness:
  "\<exists>a. build_vessel_annual_rows mrv_loads (\<lambda>q. []) 9 mrv_compliant = Inr [compliant_row] \<and>
     latest_item (socs_of mrv_loads mrv_compliant) ''r1'' a"
proof -
  have "soc_cell compliant_row \<noteq> CNone" "row_get compliant_row ''report_id'' = CText ''r1''"
    by (simp_all add: soc_cell_def compliant_row_def)
  with soc_rows_exact [OF sample_compliant] sample_compliant show ?thesis by auto
qed

lemma superseded_soc_refused_witness:
  "(\<exists>k d t i. (k, d, t, i) \<in> set (reports_of mrv_loads mrv_superseded) \<and> jget d ''reportId'' = JStr ''r1'') \<and>
   (\<exists>e. build_vessel_annual_rows mrv_loads (\<lambda>q. []) 9 mrv_superseded = Inl e)"
proof -
  let ?d = "\<lambda>s. [(''state'', JStr ''VERIFIED''), (''imoNumber'', JStr ''9074729''), (''calendarYear'', JInt 2024),
      (''reportId'', JStr s), (''totals'', JObj [])]"
  have r: "reports_of mrv_loads mrv_superseded = [((''9074729'', 2024), ?d ''r1'', 5, ''r1''), ((''9074729'', 2024), ?d ''r2'', 7, ''r2'')]"
    by code_simp
  have s: "socs_of mrv_loads mrv_superseded = [(''r1'', replicate 64 CHR ''a'', 6, ''soc'')]" by code_simp
  have "\<forall>k d. latest_item (reports_of mrv_loads mrv_superseded) k d \<longrightarrow> jget d ''reportId'' \<noteq> JStr ''r1''"
    unfolding r latest_item_def by auto
  with superseded_soc_refused [of "''r1''" _ _ mrv_loads mrv_superseded] s r show ?thesis by fastforce
qed

text \<open>The product's interface: its rows are keyed by vessel and year.\<close>

lemma vessel_rows_shaped:
  assumes "build_vessel_annual_rows loads fr now events = Inr rows"
  shows "shaped MRV_GOLD_SCHEMA rows"
proof -
  from assms obtain st :: mrv_state where f: "foldR (row_step fr now) ([], mrv_socs st) (sort_key fst (mrv_verified st)) = Inr (rows, [])"
    by (auto simp: build_vessel_annual_rows_def bindR_Inr_iff)
  have "\<forall>r\<in>set (fst (rows, [] :: (string \<times> mrv_soc) list)). map fst r = map fst MRV_GOLD_SCHEMA"
    using f
  proof (rule foldR_inv)
    fix ke and acc acc' :: "row list \<times> (string \<times> mrv_soc) list"
    assume a: "\<forall>r\<in>set (fst acc). map fst r = map fst MRV_GOLD_SCHEMA" and "row_step fr now acc ke = Inr acc'"
    then obtain k e socs r where "vessel_annual_row fr now k e socs = Inr r" "fst acc' = fst acc @ [r]"
      by (auto simp: row_step_def bindR_Inr_iff split: prod.splits)
    with a vessel_annual_row_shape show "\<forall>r\<in>set (fst acc'). map fst r = map fst MRV_GOLD_SCHEMA" by auto
  qed simp
  moreover have "distinct (map fst MRV_GOLD_SCHEMA)" by (simp add: MRV_GOLD_SCHEMA_def)
  ultimately show ?thesis by (simp add: shaped_def)
qed

interpretation vessel_annual: gold_product "build_vessel_annual_rows loads fr now"
  "\<lambda>r. (row_get r ''imo_number'', row_get r ''calendar_year'')" MRV_GOLD_SCHEMA for loads fr now
proof
  fix events rows
  assume b: "build_vessel_annual_rows loads fr now events = Inr rows"
  then show "shaped MRV_GOLD_SCHEMA rows" by (rule vessel_rows_shaped)
  from b obtain st where st: "mrv_holds loads st events"
    "rows_hold (mrv_socs st) (sort_key fst (mrv_verified st)) (rows, [])" by (rule built_vessel_rows)
  have "list_all2 (\<lambda>k r. (row_get r ''imo_number'', row_get r ''calendar_year'') = (CText (fst k), CInt (snd k)))
      (map fst (sort_key fst (mrv_verified st))) rows"
    using st(2) by (auto simp: rows_hold_def row_matches_def list_all2_map1 elim: list_all2_mono)
  moreover have "distinct (map fst (sort_key fst (mrv_verified st)))"
    using st(1) by (auto simp: mrv_holds_def holds_latest_def distinct_map)
  ultimately show "distinct (map (\<lambda>r. (row_get r ''imo_number'', row_get r ''calendar_year'')) rows)"
    by (rule keyed_distinct) (auto intro: injI)
qed

end
