(* ===== verification/Bluecarbon_Gold.thy ===== *)
theory Bluecarbon_Gold
  imports Mrv_Gold Py_Float
begin

text \<open>
  \<open>bluecarbon_gold.py\<close>: the public registry, the only public product of the bluecarbon scope.  Credit quantities are
  added as doubles.  \<open>loads\<close> is \<open>json.loads\<close>, \<open>fr\<close> the rendering of floats.
\<close>

section \<open>Reading silver events\<close>

definition PROJECT_EVENT_TYPE :: string where "PROJECT_EVENT_TYPE = ''bluecarbon.project.v1''"
definition CREDIT_BLOCK_EVENT_TYPE :: string where "CREDIT_BLOCK_EVENT_TYPE = ''bluecarbon.credit-block.v1''"
definition RETIREMENT_EVENT_TYPE :: string where "RETIREMENT_EVENT_TYPE = ''bluecarbon.retirement.v1''"

definition PUBLIC_PROJECT_FIELDS :: "string list" where
  "PUBLIC_PROJECT_FIELDS =
     [''projectId'', ''projectName'', ''state'', ''ecosystem'', ''methodology'', ''countryCode'', ''strataCentroids'',
      ''externalRegistry'', ''externalProjectId'']"

definition CREDIT_BLOCK_STATUSES :: "string list" where
  "CREDIT_BLOCK_STATUSES = [''ACTIVE'', ''RETIRED'', ''CANCELLED'']"

text \<open>\<open>_optional_text\<close>: as a JSON value, null or the text.\<close>

definition optional_field_text :: "json \<Rightarrow> json res" where
  "optional_field_text value =
     (if value = JNull then Inr JNull
      else bindR (require_some (json_text value) ValueError ''field must be non-empty text when present'') (\<lambda>s.
           bindR (guard (nonblank s) ValueError ''field must be non-empty text when present'') (\<lambda>_. Inr (JStr s))))"

text \<open>\<open>_require_quantity\<close>: the sign is compared before the conversion; a NaN is not below zero.\<close>

fun below_zero :: "json \<Rightarrow> bool" where
  "below_zero (JInt i) = (i < 0)"
| "below_zero (JFloat f) = fl_less f (PFin 0)"
| "below_zero _ = False"

definition require_quantity :: "jobject \<Rightarrow> string \<Rightarrow> pyfloat res" where
  "require_quantity d name =
     bindR (guard (is_number (jget d name) \<and> \<not> below_zero (jget d name)) ValueError ''field must be a non-negative number'') (\<lambda>_.
     to_float (jget d name))"

record silver_entry =
  entry_fields :: jobject
  entry_event :: string
  entry_at :: int

definition entry_order :: "silver_entry \<Rightarrow> int \<times> string" where
  "entry_order e = (entry_at e, entry_event e)"

definition payload_fields :: "(string \<Rightarrow> json res) \<Rightarrow> row \<Rightarrow> jobject res" where
  "payload_fields loads event =
     bindR (require_some (cell_text (row_get event ''payload_json'')) ValueError ''silver event is missing payload_json'') (\<lambda>s.
     bindR (loads s) (extract_domain_fields loads))"

definition latest_step :: "(string \<Rightarrow> json res) \<Rightarrow> string \<Rightarrow> string \<Rightarrow> (string \<times> silver_entry) list \<Rightarrow> row \<Rightarrow>
    (string \<times> silver_entry) list res" where
  "latest_step loads event_type key_field latest event =
     (if row_get event ''event_type'' \<noteq> CText event_type then Inr latest
      else
        bindR (require_some (cell_text (row_get event ''payload_json'')) ValueError ''silver event is missing payload_json'') (\<lambda>s.
        bindR (require_some (cell_time (row_get event ''occurred_at'')) ValueError ''silver event is missing occurred_at'') (\<lambda>occurred_at.
        bindR (require_some (cell_text (row_get event ''event_id'')) ValueError ''silver event is missing event_id'') (\<lambda>event_id.
        bindR (payload_fields loads event) (\<lambda>d.
        bindR (require_field_text d key_field) (\<lambda>key.
        Inr (if newer latest entry_order key (occurred_at, event_id)
             then AList.update key \<lparr>entry_fields = d, entry_event = event_id, entry_at = occurred_at\<rparr> latest
             else latest)))))))"

definition latest_events_by_key :: "(string \<Rightarrow> json res) \<Rightarrow> row list \<Rightarrow> string \<Rightarrow> string \<Rightarrow> (string \<times> silver_entry) list res" where
  "latest_events_by_key loads silver_events event_type key_field =
     foldR (latest_step loads event_type key_field) [] silver_events"

section \<open>Retirements\<close>

text \<open>The public part of a retirement, with the project it belongs to.\<close>

definition retirement_of :: "(string \<Rightarrow> json res) \<Rightarrow> row \<Rightarrow> (string \<times> string \<times> jobject) res" where
  "retirement_of loads event =
     bindR (payload_fields loads event) (\<lambda>d.
     bindR (require_field_text d ''projectId'') (\<lambda>project_id.
     bindR (require_field_text d ''retirementId'') (\<lambda>retirement_id.
     bindR (optional_field_text (jget d ''serial'')) (\<lambda>serial.
     bindR (require_field_text d ''beneficiary'') (\<lambda>beneficiary.
     bindR (require_field_text d ''purpose'') (\<lambda>purpose.
     bindR (require_quantity d ''quantityKgCo2e'') (\<lambda>quantity.
     bindR (require_field_text d ''artifactSha256'') (\<lambda>artifact.
     bindR (optional_field_text (jget d ''retiredAt'')) (\<lambda>retired_at.
     Inr (project_id, retirement_id,
       [(''retirement_id'', JStr retirement_id), (''serial'', serial), (''beneficiary'', JStr beneficiary),
        (''purpose'', JStr purpose), (''quantity_kg_co2e'', JFloat quantity), (''artifact_sha256'', JStr artifact),
        (''retired_at'', retired_at)]))))))))))"

record retirement_state =
  retirements :: "(string \<times> (string \<times> jobject) list) list"
  retirement_sources :: "(string \<times> string list) list"

definition retirement_step :: "(string \<Rightarrow> json res) \<Rightarrow> retirement_state \<Rightarrow> row \<Rightarrow> retirement_state res" where
  "retirement_step loads st event =
     (if row_get event ''event_type'' \<noteq> CText RETIREMENT_EVENT_TYPE then Inr st
      else bindR (retirement_of loads event) (\<lambda>(project_id, retirement_id, retirement).
        Inr (st\<lparr>retirements := dict_push project_id (retirement_id, retirement) (retirements st),
               retirement_sources :=
                 (case row_get event ''event_id'' of
                    CText event_id \<Rightarrow> dict_push project_id event_id (retirement_sources st)
                  | _ \<Rightarrow> retirement_sources st)\<rparr>)))"

section \<open>Credit blocks\<close>

record vintage_totals =
  issued :: pyfloat
  retired :: pyfloat
  cancelled :: pyfloat

record block_state =
  block_totals :: "(string \<times> (string \<times> vintage_totals) list) list"
  buffer_balances :: "(string \<times> pyfloat) list"
  block_sources :: "(string \<times> string list) list"

definition dict_get :: "('k \<times> 'v) list \<Rightarrow> 'k \<Rightarrow> 'v \<Rightarrow> 'v" where
  "dict_get d k v = (case map_of d k of None \<Rightarrow> v | Some x \<Rightarrow> x)"

definition zero_totals :: vintage_totals where
  "zero_totals = \<lparr>issued = PFin 0, retired = PFin 0, cancelled = PFin 0\<rparr>"

definition add_quantity :: "string \<Rightarrow> pyfloat \<Rightarrow> vintage_totals \<Rightarrow> vintage_totals" where
  "add_quantity status q t =
     (let t' = t\<lparr>issued := fl_add (issued t) q\<rparr>
      in if status = ''RETIRED'' then t'\<lparr>retired := fl_add (retired t') q\<rparr>
         else if status = ''CANCELLED'' then t'\<lparr>cancelled := fl_add (cancelled t') q\<rparr>
         else t')"

definition block_step :: "block_state \<Rightarrow> string \<times> silver_entry \<Rightarrow> block_state res" where
  "block_step st be =
     (let d = entry_fields (snd be) in
      bindR (require_field_text d ''projectId'') (\<lambda>project_id.
      bindR (require_field_text d ''vintage'') (\<lambda>vintage.
      bindR (require_field_text d ''status'') (\<lambda>status.
      bindR (guard (status \<in> set CREDIT_BLOCK_STATUSES) ValueError ''credit block status is not one of the governed ones'') (\<lambda>_.
      bindR (require_quantity d ''quantityKgCo2e'') (\<lambda>quantity.
      let by_vintage = dict_get (block_totals st) project_id [];
          totals = add_quantity status quantity (dict_get by_vintage vintage zero_totals)
      in Inr \<lparr>block_totals = AList.update project_id (AList.update vintage totals by_vintage) (block_totals st),
              buffer_balances =
                (if jget d ''bufferPool'' = JBool True
                 then AList.update project_id
                        (fl_add (dict_get (buffer_balances st) project_id (PFin 0))
                           (if status = ''ACTIVE'' then quantity else PFin 0)) (buffer_balances st)
                 else buffer_balances st),
              block_sources = dict_push project_id (entry_event (snd be)) (block_sources st)\<rparr>))))))"

section \<open>Rows\<close>

definition vintage_json :: "string \<times> vintage_totals \<Rightarrow> json" where
  "vintage_json vt = JObj
     [(''vintage'', JStr (fst vt)), (''issued_kg_co2e'', JFloat (issued (snd vt))),
      (''retired_kg_co2e'', JFloat (retired (snd vt))), (''cancelled_kg_co2e'', JFloat (cancelled (snd vt)))]"

text \<open>\<open>{name: source_fields.get(name) for name in PUBLIC_PROJECT_FIELDS}\<close>.\<close>

definition public_fields :: "jobject \<Rightarrow> jobject" where
  "public_fields d = map (\<lambda>name. (name, jget d name)) PUBLIC_PROJECT_FIELDS"

fun text_cell :: "json \<Rightarrow> cell" where
  "text_cell (JStr s) = CText s"
| "text_cell _ = CNone"

definition public_text :: "jobject \<Rightarrow> string \<Rightarrow> cell res" where
  "public_text d name = bindR (optional_field_text (jget d name)) (\<lambda>v. Inr (text_cell v))"

definition centroids_of :: "(rat \<Rightarrow> string) \<Rightarrow> jobject \<Rightarrow> cell res" where
  "centroids_of fr d =
     (let centroids = jget d ''strataCentroids''
      in if centroids = JNull then Inr CNone
         else bindR (require_some (json_list centroids) ValueError ''strataCentroids must be a list when present'') (\<lambda>_.
              Inr (CText (dumps_compact fr True centroids))))"

definition project_row :: "(rat \<Rightarrow> string) \<Rightarrow> int \<Rightarrow> block_state \<Rightarrow> retirement_state \<Rightarrow> string \<times> silver_entry \<Rightarrow> row res" where
  "project_row fr curated_at blocks rets pe =
     (let project_id = fst pe; d = public_fields (entry_fields (snd pe)) in
      bindR (centroids_of fr d) (\<lambda>centroids.
      bindR (public_text d ''projectName'') (\<lambda>project_name.
      bindR (require_field_text d ''state'') (\<lambda>state.
      bindR (public_text d ''ecosystem'') (\<lambda>ecosystem.
      bindR (public_text d ''methodology'') (\<lambda>methodology.
      bindR (public_text d ''countryCode'') (\<lambda>country_code.
      bindR (public_text d ''externalRegistry'') (\<lambda>external_registry.
      bindR (public_text d ''externalProjectId'') (\<lambda>external_project_id.
      Inr
       [(''project_id'', CText project_id),
        (''project_name'', project_name),
        (''state'', CText state),
        (''ecosystem'', ecosystem),
        (''methodology'', methodology),
        (''country_code'', country_code),
        (''strata_centroids_json'', centroids),
        (''external_registry'', external_registry),
        (''external_project_id'', external_project_id),
        (''vintage_totals_json'', CText (dumps_compact fr False
           (JList (map vintage_json (sort_key fst (dict_get (block_totals blocks) project_id [])))))),
        (''buffer_balance_kg_co2e'', CFloat (dict_get (buffer_balances blocks) project_id (PFin 0))),
        (''retirements_json'', CText (dumps_compact fr False
           (JList (map (\<lambda>(rid, r). JObj r) (sort_key fst (dict_get (retirements rets) project_id [])))))),
        (''source_event_ids_json'', CText (dumps_texts (sort (entry_event (snd pe) #
           dict_get (block_sources blocks) project_id [] @ dict_get (retirement_sources rets) project_id [])))),
        (''curated_at'', CTime curated_at)])))))))))"

definition build_public_registry_rows :: "(string \<Rightarrow> json res) \<Rightarrow> (rat \<Rightarrow> string) \<Rightarrow> int \<Rightarrow> row list \<Rightarrow> row list res" where
  "build_public_registry_rows loads fr curated_at silver_events =
     bindR (latest_events_by_key loads silver_events PROJECT_EVENT_TYPE ''projectId'') (\<lambda>projects.
     bindR (latest_events_by_key loads silver_events CREDIT_BLOCK_EVENT_TYPE ''blockId'') (\<lambda>blocks.
     bindR (foldR (retirement_step loads) \<lparr>retirements = [], retirement_sources = []\<rparr> silver_events) (\<lambda>rets.
     bindR (foldR block_step \<lparr>block_totals = [], buffer_balances = [], block_sources = []\<rparr> (sort_key fst blocks)) (\<lambda>st.
     mapR (project_row fr curated_at st rets) (sort_key fst projects)))))"

section \<open>The gold table\<close>

definition BLUECARBON_GOLD_TABLE_NAME :: string where "BLUECARBON_GOLD_TABLE_NAME = ''public_registry''"

definition BLUECARBON_GOLD_TABLE_DESCRIPTION :: string where
  "BLUECARBON_GOLD_TABLE_DESCRIPTION =
     ''Blue-Carbon gold public_registry: clearance-filtered PUBLIC projection of '' @
     ''registered projects, per-vintage credit totals, buffer balance and '' @
     ''retirement beneficiaries (derived state, rebuilt atomically)''"

definition BLUECARBON_GOLD_SCHEMA :: arrow_schema where
  "BLUECARBON_GOLD_SCHEMA =
     [(''project_id'', ''string not null''), (''project_name'', ''string''), (''state'', ''string not null''),
      (''ecosystem'', ''string''), (''methodology'', ''string''), (''country_code'', ''string''),
      (''strata_centroids_json'', ''string''), (''external_registry'', ''string''), (''external_project_id'', ''string''),
      (''vintage_totals_json'', ''string not null''), (''buffer_balance_kg_co2e'', ''double not null''),
      (''retirements_json'', ''string not null''), (''source_event_ids_json'', ''string not null''),
      (''curated_at'', ''timestamp[us, tz=UTC] not null'')]"

definition bluecarbon_gold_table_uri :: "delta_writer \<Rightarrow> string res" where
  "bluecarbon_gold_table_uri writer =
     bindR (guard (writer_scope writer = BLUECARBON) ValueError
              ''public_registry gold assembly requires the bluecarbon boundary'') (\<lambda>_.
     scope_layer_table_uri (roots_scope (writer_roots writer)) (scope_root (roots_gold (writer_roots writer))) ''gold''
       BLUECARBON_GOLD_TABLE_NAME)"

definition assemble_bluecarbon_public_registry_gold :: "('w, 't) delta_api \<Rightarrow> (string \<Rightarrow> json res) \<Rightarrow> (rat \<Rightarrow> string) \<Rightarrow>
    int \<Rightarrow> delta_writer \<Rightarrow> ('w, int \<times> int) act" where
  "assemble_bluecarbon_public_registry_gold api loads fr now writer =
     bindA (pureA (guard (writer_scope writer = BLUECARBON) ValueError
              ''public_registry gold assembly requires the bluecarbon boundary'')) (\<lambda>_.
     rebuild_gold api writer True (build_public_registry_rows loads fr now) (bluecarbon_gold_table_uri writer)
       BLUECARBON_GOLD_SCHEMA ''bluecarbon_gold_public_registry'' BLUECARBON_GOLD_TABLE_DESCRIPTION)"

section \<open>What the registry may depend on\<close>

text \<open>
  The fields of a silver event the public registry reads, by event type: everything else in the payload is
  confidential.  The view of an event is its type, identifier and instant and those fields.
\<close>

definition CREDIT_BLOCK_FIELDS :: "string list" where
  "CREDIT_BLOCK_FIELDS = [''blockId'', ''projectId'', ''vintage'', ''status'', ''quantityKgCo2e'', ''bufferPool'']"

definition RETIREMENT_FIELDS :: "string list" where
  "RETIREMENT_FIELDS =
     [''projectId'', ''retirementId'', ''serial'', ''beneficiary'', ''purpose'', ''quantityKgCo2e'', ''artifactSha256'', ''retiredAt'']"

definition restrict_fields :: "string list \<Rightarrow> jobject \<Rightarrow> jobject" where
  "restrict_fields names d = map (\<lambda>name. (name, jget d name)) names"

definition registry_fields :: "cell \<Rightarrow> string list" where
  "registry_fields event_type =
     (if event_type = CText PROJECT_EVENT_TYPE then PUBLIC_PROJECT_FIELDS
      else if event_type = CText CREDIT_BLOCK_EVENT_TYPE then CREDIT_BLOCK_FIELDS
      else if event_type = CText RETIREMENT_EVENT_TYPE then RETIREMENT_FIELDS else [])"

definition public_view :: "(string \<Rightarrow> json res) \<Rightarrow> row \<Rightarrow> cell \<times> cell \<times> cell \<times> bool \<times> jobject res" where
  "public_view loads event =
     (row_get event ''event_type'', row_get event ''event_id'', row_get event ''occurred_at'',
      cell_text (row_get event ''payload_json'') = None,
      bindR (payload_fields loads event) (\<lambda>d. Inr (restrict_fields (registry_fields (row_get event ''event_type'')) d)))"

text \<open>Results up to a view of the value.\<close>

definition view_res :: "('a \<Rightarrow> 'b) \<Rightarrow> 'a res \<Rightarrow> 'b res" where
  "view_res f r = bindR r (\<lambda>x. Inr (f x))"

lemma view_res_simps [simp]:
  "view_res f (Inr x) = Inr (f x)" "view_res f (Inl e) = Inl e" "view_res f (raise c m) = raise c m"
  by (simp_all add: view_res_def)

lemma view_res_id: "view_res id r = r"
  by (cases r) simp_all

lemma view_res_eq:
  "view_res f r = view_res f r' \<longleftrightarrow> (\<exists>e. r = Inl e \<and> r' = Inl e) \<or> (\<exists>x y. r = Inr x \<and> r' = Inr y \<and> f x = f y)"
  by (cases r; cases r') auto

text \<open>The simulation rule: a loop whose body respects the views of state and element respects them.\<close>

lemma foldR_view:
  assumes "\<And>s s' x x'. f s = f s' \<Longrightarrow> g x = g x' \<Longrightarrow> view_res f (step s x) = view_res f (step s' x')"
    and "map g xs = map g xs'" "f s = f s'"
  shows "view_res f (foldR step s xs) = view_res f (foldR step s' xs')"
  using assms(2,3)
proof (induction xs arbitrary: xs' s s')
  case Nil
  then show ?case by simp
next
  case (Cons x xs)
  then obtain x' ys where xs': "xs' = x' # ys" "g x = g x'" "map g xs = map g ys" by (cases xs') auto
  from assms(1) [OF Cons.prems(2) xs'(2)] consider e where "step s x = Inl e" "step s' x' = Inl e"
    | t t' where "step s x = Inr t" "step s' x' = Inr t'" "f t = f t'" by (auto simp: view_res_eq)
  then show ?case
  proof cases
    case 2
    with Cons.IH [OF xs'(3) 2(3)] xs'(1) show ?thesis by simp
  qed (simp add: xs'(1))
qed

lemma foldR_view_eq:
  assumes "\<And>s x x'. g x = g x' \<Longrightarrow> step s x = step s x'" "map g xs = map g xs'"
  shows "foldR step s xs = foldR step s xs'"
  using assms(2)
proof (induction xs arbitrary: xs' s)
  case Nil
  then show ?case by simp
next
  case (Cons x xs)
  then obtain x' ys where xs': "xs' = x' # ys" "g x = g x'" "map g xs = map g ys" by (cases xs') auto
  with Cons.IH [OF xs'(3)] assms(1) [OF xs'(2)] show ?case by simp
qed

lemma mapR_view:
  assumes "\<And>x x'. g x = g x' \<Longrightarrow> h x = h x'" "map g xs = map g xs'"
  shows "mapR h xs = mapR h xs'"
  using assms(2)
proof (induction xs arbitrary: xs')
  case Nil
  then show ?case by simp
next
  case (Cons x xs)
  then obtain x' ys where xs': "xs' = x' # ys" "g x = g x'" "map g xs = map g ys" by (cases xs') auto
  with Cons.IH [OF xs'(3)] assms(1) [OF xs'(2)] show ?case by simp
qed

lemma map_sort_fst:
  assumes "\<And>x. fst (g x) = fst x"
  shows "map g (sort_key fst d) = sort_key fst (map g d)"
proof -
  have "map g (insort_key fst x xs) = insort_key fst (g x) (map g xs)" for x xs
    by (induction xs) (simp_all add: assms)
  then show ?thesis by (induction d) simp_all
qed

lemma restrict_fields_jget: "restrict_fields ns d = restrict_fields ns d' \<Longrightarrow> n \<in> set ns \<Longrightarrow> jget d n = jget d' n"
  by (auto simp: restrict_fields_def)

lemma public_fields_restrict: "public_fields d = restrict_fields PUBLIC_PROJECT_FIELDS d"
  by (simp add: public_fields_def restrict_fields_def)

text \<open>The view of a dictionary of latest events.\<close>

definition entry_view :: "string list \<Rightarrow> string \<times> silver_entry \<Rightarrow> string \<times> string \<times> int \<times> jobject" where
  "entry_view ns ke = (fst ke, entry_event (snd ke), entry_at (snd ke), restrict_fields ns (entry_fields (snd ke)))"

lemma fst_entry_view [simp]: "fst (entry_view ns ke) = fst ke"
  by (simp add: entry_view_def)

lemma entry_view_lookup:
  "map (entry_view ns) d = map (entry_view ns) d' \<Longrightarrow>
   map_option (\<lambda>e. entry_view ns (k, e)) (map_of d k) = map_option (\<lambda>e. entry_view ns (k, e)) (map_of d' k)"
proof (induction d arbitrary: d')
  case Nil
  then show ?case by simp
next
  case (Cons x d)
  then obtain y ds where y: "d' = y # ds" "entry_view ns x = entry_view ns y" "map (entry_view ns) d = map (entry_view ns) ds"
    by (cases d') auto
  from y(2) have "fst x = fst y" by (metis fst_entry_view)
  with Cons.IH [OF y(3)] y(1,2) show ?case by (cases "fst x = k"; cases x; cases y) simp_all
qed

lemma entry_view_newer:
  assumes "map (entry_view ns) d = map (entry_view ns) d'"
  shows "newer d entry_order k o1 = newer d' entry_order k o1"
  using entry_view_lookup [OF assms, of k]
  by (cases "map_of d k"; cases "map_of d' k") (auto simp: newer_def entry_view_def entry_order_def)

lemma entry_view_update:
  "map (entry_view ns) d = map (entry_view ns) d' \<Longrightarrow> entry_view ns (k, e) = entry_view ns (k, e') \<Longrightarrow>
   map (entry_view ns) (AList.update k e d) = map (entry_view ns) (AList.update k e' d')"
proof (induction d arbitrary: d')
  case Nil
  then show ?case by simp
next
  case (Cons x d)
  then obtain y ds where y: "d' = y # ds" "entry_view ns x = entry_view ns y" "map (entry_view ns) d = map (entry_view ns) ds"
    by (cases d') auto
  then have "fst x = fst y" by (metis fst_entry_view)
  with Cons.IH [OF y(3) Cons.prems(2)] y Cons.prems(2) show ?case by (cases x; cases y) simp
qed

text \<open>The steps of the assembly respect the views.\<close>

lemma public_view_eqD:
  assumes "public_view loads e = public_view loads e'"
  shows "row_get e ''event_type'' = row_get e' ''event_type''" "row_get e ''event_id'' = row_get e' ''event_id''"
    "row_get e ''occurred_at'' = row_get e' ''occurred_at''"
    "cell_text (row_get e ''payload_json'') = None \<longleftrightarrow> cell_text (row_get e' ''payload_json'') = None"
    "view_res (restrict_fields (registry_fields (row_get e ''event_type''))) (payload_fields loads e) =
     view_res (restrict_fields (registry_fields (row_get e ''event_type''))) (payload_fields loads e')"
proof -
  from assms show t: "row_get e ''event_type'' = row_get e' ''event_type''" "row_get e ''event_id'' = row_get e' ''event_id''"
    "row_get e ''occurred_at'' = row_get e' ''occurred_at''"
    "cell_text (row_get e ''payload_json'') = None \<longleftrightarrow> cell_text (row_get e' ''payload_json'') = None"
    unfolding public_view_def prod.inject by blast+
  from assms show "view_res (restrict_fields (registry_fields (row_get e ''event_type''))) (payload_fields loads e) =
     view_res (restrict_fields (registry_fields (row_get e ''event_type''))) (payload_fields loads e')"
    unfolding public_view_def prod.inject view_res_def t(1) by blast
qed

lemma require_field_text_view:
  "restrict_fields ns d = restrict_fields ns d' \<Longrightarrow> n \<in> set ns \<Longrightarrow> require_field_text d n = require_field_text d' n"
  unfolding require_field_text_def by (simp only: restrict_fields_jget [of ns d d' n])

lemma require_quantity_view:
  "restrict_fields ns d = restrict_fields ns d' \<Longrightarrow> n \<in> set ns \<Longrightarrow> require_quantity d n = require_quantity d' n"
  unfolding require_quantity_def by (simp only: restrict_fields_jget [of ns d d' n])

lemma latest_step_view:
  assumes "map (entry_view ns) s = map (entry_view ns) s'" "public_view loads x = public_view loads x'"
    and "registry_fields (CText typ) = ns" "k \<in> set ns"
  shows "view_res (map (entry_view ns)) (latest_step loads typ k s x) = view_res (map (entry_view ns)) (latest_step loads typ k s' x')"
proof (cases "row_get x ''event_type'' = CText typ")
  case False
  with public_view_eqD(1) [OF assms(2)] assms(1) show ?thesis by (simp add: latest_step_def)
next
  case t: True
  note v = public_view_eqD [OF assms(2)]
  from v(5) t assms(3) have v5: "view_res (restrict_fields ns) (payload_fields loads x) = view_res (restrict_fields ns) (payload_fields loads x')"
    by simp
  have body: "view_res (map (entry_view ns)) (bindR (payload_fields loads x) (\<lambda>d. bindR (require_field_text d k) (\<lambda>key.
        Inr (if newer s entry_order key (t, i) then AList.update key \<lparr>entry_fields = d, entry_event = i, entry_at = t\<rparr> s else s)))) =
      view_res (map (entry_view ns)) (bindR (payload_fields loads x') (\<lambda>d. bindR (require_field_text d k) (\<lambda>key.
        Inr (if newer s' entry_order key (t, i) then AList.update key \<lparr>entry_fields = d, entry_event = i, entry_at = t\<rparr> s' else s'))))" for t i
  proof -
    from v5 consider e where "payload_fields loads x = Inl e" "payload_fields loads x' = Inl e"
      | d d' where "payload_fields loads x = Inr d" "payload_fields loads x' = Inr d'" "restrict_fields ns d = restrict_fields ns d'"
      by (auto simp: view_res_eq)
    then show ?thesis
    proof cases
      case 2
      have "entry_view ns (key, \<lparr>entry_fields = d, entry_event = i, entry_at = t\<rparr>) =
          entry_view ns (key, \<lparr>entry_fields = d', entry_event = i, entry_at = t\<rparr>)" for key
        using 2(3) by (simp add: entry_view_def)
      note up = entry_view_update [OF assms(1) this]
      show ?thesis
        using 2(1,2) up require_field_text_view [OF 2(3) assms(4)] entry_view_newer [OF assms(1)] assms(1)
        by (cases "require_field_text d' k") simp_all
    qed simp
  qed
  show ?thesis
    using t v(1-4) body by (cases "cell_text (row_get x ''payload_json'')"; cases "cell_text (row_get x' ''payload_json'')";
        cases "cell_time (row_get x' ''occurred_at'')"; cases "cell_text (row_get x' ''event_id'')") (simp_all add: latest_step_def)
qed

lemma retirement_step_view:
  assumes "public_view loads x = public_view loads x'"
  shows "retirement_step loads s x = retirement_step loads s x'"
proof (cases "row_get x ''event_type'' = CText RETIREMENT_EVENT_TYPE")
  case False
  with public_view_eqD(1) [OF assms] show ?thesis by (simp add: retirement_step_def)
next
  case True
  note v = public_view_eqD [OF assms]
  have ns: "registry_fields (CText RETIREMENT_EVENT_TYPE) = RETIREMENT_FIELDS"
    by (simp add: registry_fields_def RETIREMENT_EVENT_TYPE_def PROJECT_EVENT_TYPE_def CREDIT_BLOCK_EVENT_TYPE_def)
  from v(5) True ns consider e where "payload_fields loads x = Inl e" "payload_fields loads x' = Inl e"
    | d d' where "payload_fields loads x = Inr d" "payload_fields loads x' = Inr d'"
        "restrict_fields RETIREMENT_FIELDS d = restrict_fields RETIREMENT_FIELDS d'"
    by (auto simp: view_res_eq)
  then have "retirement_of loads x = retirement_of loads x'"
  proof cases
    case 2
    have f: "n \<in> set RETIREMENT_FIELDS \<Longrightarrow> jget d n = jget d' n" "n \<in> set RETIREMENT_FIELDS \<Longrightarrow> require_field_text d n = require_field_text d' n"
      "n \<in> set RETIREMENT_FIELDS \<Longrightarrow> require_quantity d n = require_quantity d' n" for n
      using restrict_fields_jget [OF 2(3)] require_field_text_view [OF 2(3)] require_quantity_view [OF 2(3)] by blast+
    show ?thesis
      unfolding retirement_of_def 2(1,2) bindR.simps
      by (simp add: f RETIREMENT_FIELDS_def)
  qed (simp add: retirement_of_def)
  with v(1,2) show ?thesis by (simp add: retirement_step_def)
qed

lemma block_step_view:
  assumes "entry_view CREDIT_BLOCK_FIELDS x = entry_view CREDIT_BLOCK_FIELDS x'"
  shows "block_step s x = block_step s x'"
proof -
  let ?d = "entry_fields (snd x)" and ?d' = "entry_fields (snd x')"
  from assms have r: "restrict_fields CREDIT_BLOCK_FIELDS ?d = restrict_fields CREDIT_BLOCK_FIELDS ?d'" "entry_event (snd x) = entry_event (snd x')"
    by (simp_all add: entry_view_def)
  have f: "n \<in> set CREDIT_BLOCK_FIELDS \<Longrightarrow> jget ?d n = jget ?d' n" "n \<in> set CREDIT_BLOCK_FIELDS \<Longrightarrow> require_field_text ?d n = require_field_text ?d' n"
    "n \<in> set CREDIT_BLOCK_FIELDS \<Longrightarrow> require_quantity ?d n = require_quantity ?d' n" for n
    using restrict_fields_jget [OF r(1)] require_field_text_view [OF r(1)] require_quantity_view [OF r(1)] by blast+
  show ?thesis
    unfolding block_step_def Let_def by (simp add: f r(2) CREDIT_BLOCK_FIELDS_def)
qed

lemma project_row_view:
  "entry_view PUBLIC_PROJECT_FIELDS x = entry_view PUBLIC_PROJECT_FIELDS x' \<Longrightarrow> project_row fr now bs rs x = project_row fr now bs rs x'"
  unfolding project_row_def public_fields_restrict by (simp add: entry_view_def)

lemma latest_events_view:
  assumes "map (public_view loads) events = map (public_view loads) events'" "registry_fields (CText typ) = ns" "k \<in> set ns"
  shows "view_res (map (entry_view ns)) (latest_events_by_key loads events typ k) =
    view_res (map (entry_view ns)) (latest_events_by_key loads events' typ k)"
  unfolding latest_events_by_key_def
proof (rule foldR_view [OF _ assms(1) refl])
  fix s s' x x'
  assume "map (entry_view ns) s = map (entry_view ns) s'" "public_view loads x = public_view loads x'"
  then show "view_res (map (entry_view ns)) (latest_step loads typ k s x) = view_res (map (entry_view ns)) (latest_step loads typ k s' x')"
    using assms(2,3) by (rule latest_step_view)
qed

section \<open>Properties\<close>

text \<open>
  Claim C37.  Noninterference: the public registry is a function of the public view of the silver events; two
  silver tables that differ in other fields of projects, credit blocks and retirements (evidence, monitoring
  detail, personal data) give the same registry, or the same error.
\<close>

theorem public_registry_noninterference:
  assumes "map (public_view loads) events = map (public_view loads) events'"
  shows "build_public_registry_rows loads fr now events = build_public_registry_rows loads fr now events'"
proof -
  have ns: "registry_fields (CText PROJECT_EVENT_TYPE) = PUBLIC_PROJECT_FIELDS"
    "registry_fields (CText CREDIT_BLOCK_EVENT_TYPE) = CREDIT_BLOCK_FIELDS"
    by (simp_all add: registry_fields_def PROJECT_EVENT_TYPE_def CREDIT_BLOCK_EVENT_TYPE_def)
  have k: "''projectId'' \<in> set PUBLIC_PROJECT_FIELDS" "''blockId'' \<in> set CREDIT_BLOCK_FIELDS"
    by (simp_all add: PUBLIC_PROJECT_FIELDS_def CREDIT_BLOCK_FIELDS_def)
  note p = latest_events_view [OF assms ns(1) k(1)] and b = latest_events_view [OF assms ns(2) k(2)]
  have r: "foldR (retirement_step loads) s0 events = foldR (retirement_step loads) s0 events'" for s0
    by (rule foldR_view_eq [OF _ assms]) (rule retirement_step_view)
  have bl: "foldR block_step s0 (sort_key fst ds) = foldR block_step s0 (sort_key fst ds')"
    if "map (entry_view CREDIT_BLOCK_FIELDS) ds = map (entry_view CREDIT_BLOCK_FIELDS) ds'" for s0 ds ds'
  proof -
    have v: "map (entry_view CREDIT_BLOCK_FIELDS) (sort_key fst ds) = map (entry_view CREDIT_BLOCK_FIELDS) (sort_key fst ds')"
      by (simp add: map_sort_fst that)
    show ?thesis by (rule foldR_view_eq [OF _ v]) (rule block_step_view)
  qed
  have pr: "mapR (project_row fr now bs rs) (sort_key fst ds) = mapR (project_row fr now bs rs) (sort_key fst ds')"
    if "map (entry_view PUBLIC_PROJECT_FIELDS) ds = map (entry_view PUBLIC_PROJECT_FIELDS) ds'" for bs rs ds ds'
  proof (rule mapR_view)
    show "map (entry_view PUBLIC_PROJECT_FIELDS) (sort_key fst ds) = map (entry_view PUBLIC_PROJECT_FIELDS) (sort_key fst ds')"
      by (simp add: map_sort_fst that)
  qed (rule project_row_view)
  from p [unfolded view_res_eq] show ?thesis
  proof (elim disjE exE conjE)
    fix ps ps'
    assume ps: "latest_events_by_key loads events PROJECT_EVENT_TYPE ''projectId'' = Inr ps"
      "latest_events_by_key loads events' PROJECT_EVENT_TYPE ''projectId'' = Inr ps'"
      "map (entry_view PUBLIC_PROJECT_FIELDS) ps = map (entry_view PUBLIC_PROJECT_FIELDS) ps'"
    from b [unfolded view_res_eq] show ?thesis
    proof (elim disjE exE conjE)
      fix bs bs'
      assume bs: "latest_events_by_key loads events CREDIT_BLOCK_EVENT_TYPE ''blockId'' = Inr bs"
        "latest_events_by_key loads events' CREDIT_BLOCK_EVENT_TYPE ''blockId'' = Inr bs'"
        "map (entry_view CREDIT_BLOCK_FIELDS) bs = map (entry_view CREDIT_BLOCK_FIELDS) bs'"
      show ?thesis
        unfolding build_public_registry_rows_def ps(1,2) bs(1,2) bindR.simps r bl [OF bs(3)] pr [OF ps(3)] by (rule refl)
    qed (simp add: build_public_registry_rows_def ps)
  qed (simp add: build_public_registry_rows_def)
qed

text \<open>Two projects that differ in a confidential field have one registry.\<close>

definition bc_loads :: "string \<Rightarrow> json res" where
  "bc_loads s = Inr (JObj [(''projectId'', JStr ''p1''), (''state'', JStr ''REGISTERED''), (''proponentName'', JStr s)])"

definition bc_project :: "string \<Rightarrow> row" where
  "bc_project payload =
     [(''event_id'', CText ''e1''), (''event_type'', CText PROJECT_EVENT_TYPE), (''occurred_at'', CTime 0),
      (''payload_json'', CText payload)]"

lemma public_registry_noninterference_witness:
  "bc_project ''alice'' \<noteq> bc_project ''bob'' \<and>
   build_public_registry_rows bc_loads (\<lambda>q. []) 0 [bc_project ''alice''] =
   build_public_registry_rows bc_loads (\<lambda>q. []) 0 [bc_project ''bob''] \<and>
   is_ok (build_public_registry_rows bc_loads (\<lambda>q. []) 0 [bc_project ''bob''])"
proof -
  have v: "map (public_view bc_loads) [bc_project ''alice''] = map (public_view bc_loads) [bc_project ''bob'']" by code_simp
  have "is_ok (build_public_registry_rows bc_loads (\<lambda>q. []) 0 [bc_project ''bob''])" by code_simp
  with public_registry_noninterference [OF v, of "\<lambda>q. []" 0] show ?thesis by (simp add: bc_project_def)
qed

text \<open>The product's interface: its rows are keyed by project.\<close>

lemma latest_step_distinct:
  "distinct (map fst d) \<Longrightarrow> latest_step loads typ k d e = Inr d' \<Longrightarrow> distinct (map fst d')"
  by (auto simp: latest_step_def bindR_Inr_iff split: if_splits)

lemma project_row_id: "project_row fr now bs rs pe = Inr r \<Longrightarrow> row_get r ''project_id'' = CText (fst pe)"
  by (auto simp: project_row_def bindR_Inr_iff Let_def)

lemma project_row_shape: "project_row fr now bs rs pe = Inr r \<Longrightarrow> map fst r = map fst BLUECARBON_GOLD_SCHEMA"
  by (auto simp: project_row_def bindR_Inr_iff Let_def BLUECARBON_GOLD_SCHEMA_def)

lemma registry_rows_shaped:
  assumes "build_public_registry_rows loads fr now events = Inr rows"
  shows "shaped BLUECARBON_GOLD_SCHEMA rows"
proof -
  from assms obtain ps bs rs where "mapR (project_row fr now bs rs) (sort_key fst ps) = Inr rows"
    unfolding build_public_registry_rows_def bindR_Inr_iff by blast
  then have l: "list_all2 (\<lambda>pe r. project_row fr now bs rs pe = Inr r) (sort_key fst ps) rows" by (simp add: mapR_Inr_iff)
  have "map fst r = map fst BLUECARBON_GOLD_SCHEMA" if "r \<in> set rows" for r
    using list_all2_in_left [OF l that] project_row_shape by blast
  moreover have "distinct (map fst BLUECARBON_GOLD_SCHEMA)" by (simp add: BLUECARBON_GOLD_SCHEMA_def)
  ultimately show ?thesis by (simp add: shaped_def)
qed

interpretation public_registry: gold_product "build_public_registry_rows loads fr now" "\<lambda>r. row_get r ''project_id''"
    BLUECARBON_GOLD_SCHEMA
  for loads fr now
proof
  fix events rows
  assume b: "build_public_registry_rows loads fr now events = Inr rows"
  then show "shaped BLUECARBON_GOLD_SCHEMA rows" by (rule registry_rows_shaped)
  from b obtain ps bs rs where p: "latest_events_by_key loads events PROJECT_EVENT_TYPE ''projectId'' = Inr ps"
    "mapR (project_row fr now bs rs) (sort_key fst ps) = Inr rows"
    unfolding build_public_registry_rows_def bindR_Inr_iff by blast
  have d: "distinct (map fst ps)"
    using p(1) unfolding latest_events_by_key_def
    by (rule foldR_inv) (simp, rule latest_step_distinct)
  from p(2) have "list_all2 (\<lambda>pe r. project_row fr now bs rs pe = Inr r) (sort_key fst ps) rows" by (simp add: mapR_Inr_iff)
  then have "list_all2 (\<lambda>k r. row_get r ''project_id'' = CText k) (map fst (sort_key fst ps)) rows"
    unfolding list_all2_map1 by (rule list_all2_mono) (rule project_row_id)
  moreover have "distinct (map fst (sort_key fst ps))" using d by (simp add: distinct_map)
  ultimately show "distinct (map (\<lambda>r. row_get r ''project_id'') rows)" by (rule keyed_distinct) (auto intro: injI)
qed

end
