(* ===== verification/Excise_Stamps.thy ===== *)
theory Excise_Stamps
  imports Envelope_Payload
begin

text \<open>
  \<open>excise_stamps_gold.py\<close>: the \<open>excise_stamp_facts\<close> gold table of the platform scope, one row per tax-stamp event of the
  silver table.  \<open>loads\<close> is \<open>json.loads\<close>, \<open>ps\<close> is \<open>str\<close>, \<open>js\<close> is \<open>str\<close> of a JSON value, which the code applies to
  values that are not texts.
\<close>

section \<open>Events\<close>

definition ASSESSED_EVENT_TYPE :: string where "ASSESSED_EVENT_TYPE = ''stamps.assessed.v1''"
definition APPROVED_EVENT_TYPE :: string where "APPROVED_EVENT_TYPE = ''stamps.approved.v1''"
definition ISSUED_EVENT_TYPE :: string where "ISSUED_EVENT_TYPE = ''stamps.issued.v1''"
definition ACTIVATED_EVENT_TYPE :: string where "ACTIVATED_EVENT_TYPE = ''stamps.activated.v1''"

definition STAMP_EVENT_TYPES :: "string list" where
  "STAMP_EVENT_TYPES = [ASSESSED_EVENT_TYPE, APPROVED_EVENT_TYPE, ISSUED_EVENT_TYPE, ACTIVATED_EVENT_TYPE]"

definition is_stamp_event :: "row \<Rightarrow> bool" where
  "is_stamp_event event = (\<exists>s\<in>set STAMP_EVENT_TYPES. row_get event ''event_type'' = CText s)"

definition require_int :: "jobject \<Rightarrow> string \<Rightarrow> int \<Rightarrow> int res" where
  "require_int d name minimum =
     (case jget d name of
        JInt i \<Rightarrow> bindR (guard (minimum \<le> i) ValueError ''must be an integer above the minimum'') (\<lambda>_. Inr i)
      | _ \<Rightarrow> raise ValueError ''must be an integer above the minimum'')"

text \<open>The sort key: a missing instant counts as the smallest one.\<close>

definition stamp_order :: "(cell \<Rightarrow> string) \<Rightarrow> row \<Rightarrow> int \<times> string" where
  "stamp_order ps event =
     (case row_get event ''occurred_at'' of CTime t \<Rightarrow> t | _ \<Rightarrow> min_instant, ps (row_get event ''event_id''))"

text \<open>\<open>str(fields.get(name) or "")\<close>.\<close>

fun json_truthy :: "json \<Rightarrow> bool" where
  "json_truthy JNull = False"
| "json_truthy (JBool b) = b"
| "json_truthy (JInt i) = (i \<noteq> 0)"
| "json_truthy (JFloat f) = (f \<noteq> PFin 0)"
| "json_truthy (JStr s) = (s \<noteq> [])"
| "json_truthy (JList xs) = (xs \<noteq> [])"
| "json_truthy (JObj d) = (d \<noteq> [])"

definition text_or_empty :: "(json \<Rightarrow> string) \<Rightarrow> json \<Rightarrow> cell" where
  "text_or_empty js v = CText (case v of JStr s \<Rightarrow> s | _ \<Rightarrow> if json_truthy v then js v else [])"

text \<open>\<open>total_duty_kobo\<close> and \<open>quantity\<close>.\<close>

definition stamp_amounts :: "jobject \<Rightarrow> string \<Rightarrow> (cell \<times> cell) res" where
  "stamp_amounts d event_type =
     (if event_type = ASSESSED_EVENT_TYPE then
        bindR (require_int d ''totalDutyKobo'' 0) (\<lambda>duty.
        bindR (require_int d ''stampsRequired'' 0) (\<lambda>quantity. Inr (CInt duty, CInt quantity)))
      else if event_type = ISSUED_EVENT_TYPE then
        bindR (require_int d ''quantity'' 1) (\<lambda>quantity. Inr (CNone, CInt quantity))
      else if event_type = ACTIVATED_EVENT_TYPE then
        bindR (require_int d ''activatedCount'' 0) (\<lambda>quantity. Inr (CNone, CInt quantity))
      else Inr (CNone, CNone))"

definition stamp_row :: "(string \<Rightarrow> json res) \<Rightarrow> (json \<Rightarrow> string) \<Rightarrow> int \<Rightarrow> row \<Rightarrow> row res" where
  "stamp_row loads js curated_at event =
     bindR (require_some (cell_text (row_get event ''payload_json'')) ValueError ''silver stamps event is missing payload_json'') (\<lambda>payload_json.
     bindR (require_some (cell_time (row_get event ''occurred_at'')) ValueError ''silver stamps event is missing occurred_at'') (\<lambda>occurred_at.
     bindR (require_some (cell_text (row_get event ''event_id'')) ValueError ''silver stamps event is missing event_id'') (\<lambda>event_id.
     bindR (loads payload_json) (\<lambda>payload.
     bindR (extract_domain_fields loads payload) (\<lambda>d.
     bindR (require_some (cell_text (row_get event ''event_type'')) KeyError ''event_type'') (\<lambda>event_type.
     bindR (stamp_amounts d event_type) (\<lambda>(total_duty_kobo, quantity).
     Inr
      [(''event_id'', CText event_id),
       (''event_type'', CText event_type),
       (''occurred_at'', CTime occurred_at),
       (''assessment_id'', text_or_empty js (jget d ''assessmentId'')),
       (''declaration_ref'', text_or_empty js (jget d ''declarationRef'')),
       (''batch_id'', text_or_empty js (jget d ''batchId'')),
       (''total_duty_kobo'', total_duty_kobo),
       (''quantity'', quantity),
       (''payload_json'', CText payload_json),
       (''curated_at'', CTime curated_at)])))))))"

definition build_excise_stamp_fact_rows :: "(string \<Rightarrow> json res) \<Rightarrow> (cell \<Rightarrow> string) \<Rightarrow> (json \<Rightarrow> string) \<Rightarrow> int \<Rightarrow>
    row list \<Rightarrow> row list res" where
  "build_excise_stamp_fact_rows loads ps js curated_at silver_events =
     mapR (stamp_row loads js curated_at) (sort_key (stamp_order ps) (filter is_stamp_event silver_events))"

section \<open>The gold table\<close>

definition EXCISE_GOLD_TABLE_NAME :: string where "EXCISE_GOLD_TABLE_NAME = ''excise_stamp_facts''"

definition EXCISE_GOLD_TABLE_DESCRIPTION :: string where
  "EXCISE_GOLD_TABLE_DESCRIPTION =
     ''Platform gold excise_stamp_facts: deterministic 1:1 projection of verified '' @
     ''tax-stamps lifecycle events (derived state, rebuilt atomically)''"

definition EXCISE_STAMP_FACTS_SCHEMA :: arrow_schema where
  "EXCISE_STAMP_FACTS_SCHEMA =
     [(''event_id'', ''string''), (''event_type'', ''string''), (''occurred_at'', ''timestamp[us, tz=UTC]''),
      (''assessment_id'', ''string''), (''declaration_ref'', ''string''), (''batch_id'', ''string''),
      (''total_duty_kobo'', ''int64''), (''quantity'', ''int64''), (''payload_json'', ''string''),
      (''curated_at'', ''timestamp[us, tz=UTC]'')]"

definition excise_stamps_gold_table_uri :: "delta_writer \<Rightarrow> string res" where
  "excise_stamps_gold_table_uri writer =
     bindR (table_uri writer ''gold'') (\<lambda>uri. Inr (rstrip_char (CHR ''/'') uri @ ''/'' @ EXCISE_GOLD_TABLE_NAME))"

definition assemble_excise_stamps_gold :: "('w, 't) delta_api \<Rightarrow> (string \<Rightarrow> json res) \<Rightarrow> (cell \<Rightarrow> string) \<Rightarrow> (json \<Rightarrow> string) \<Rightarrow>
    int \<Rightarrow> delta_writer \<Rightarrow> ('w, int \<times> int) act" where
  "assemble_excise_stamps_gold api loads ps js now writer =
     bindA (pureA (guard (writer_scope writer = PLATFORM) ValueError
              ''excise_stamp_facts gold assembly is only defined for the platform boundary'')) (\<lambda>_.
     rebuild_gold api writer False (build_excise_stamp_fact_rows loads ps js now) (excise_stamps_gold_table_uri writer)
       EXCISE_STAMP_FACTS_SCHEMA ''platform_gold_excise_stamp_facts'' EXCISE_GOLD_TABLE_DESCRIPTION)"

section \<open>Lemmas\<close>

lemma require_int_Inr: "require_int d name minimum = Inr i \<longleftrightarrow> jget d name = JInt i \<and> minimum \<le> i"
  by (auto simp: require_int_def bindR_Inr_iff split: json.splits)

text \<open>An amount is null or a count of minor units that is not negative.\<close>

definition counted :: "cell \<Rightarrow> bool" where
  "counted c \<longleftrightarrow> c = CNone \<or> (\<exists>i\<ge>0. c = CInt i)"

lemma stamp_amounts_counted:
  assumes "stamp_amounts d etyp = Inr (duty, quantity)"
  shows "counted duty \<and> counted quantity \<and> (etyp = ISSUED_EVENT_TYPE \<longrightarrow> (\<exists>i\<ge>1. quantity = CInt i)) \<and>
    (etyp = ASSESSED_EVENT_TYPE \<longrightarrow> duty \<noteq> CNone \<and> quantity \<noteq> CNone)"
  using assms
  by (auto simp: stamp_amounts_def counted_def bindR_Inr_iff require_int_Inr ISSUED_EVENT_TYPE_def ASSESSED_EVENT_TYPE_def
      ACTIVATED_EVENT_TYPE_def split: if_splits)

text \<open>What a fact keeps of its event.\<close>

definition fact_of :: "row \<Rightarrow> row \<Rightarrow> bool" where
  "fact_of e r \<longleftrightarrow> (\<forall>c\<in>{''event_id'', ''event_type'', ''occurred_at'', ''payload_json''}. row_get r c = row_get e c \<and> row_get r c \<noteq> CNone) \<and>
     counted (row_get r ''total_duty_kobo'') \<and> counted (row_get r ''quantity'') \<and>
     (row_get e ''event_type'' = CText ISSUED_EVENT_TYPE \<longrightarrow> (\<exists>i\<ge>1. row_get r ''quantity'' = CInt i)) \<and>
     (row_get e ''event_type'' = CText ASSESSED_EVENT_TYPE \<longrightarrow>
        row_get r ''total_duty_kobo'' \<noteq> CNone \<and> row_get r ''quantity'' \<noteq> CNone)"

lemma stamp_row_fact:
  assumes "stamp_row loads js now e = Inr r"
  shows "fact_of e r"
proof -
  from assms obtain pj t i d etyp duty quantity where s: "row_get e ''payload_json'' = CText pj" "row_get e ''occurred_at'' = CTime t"
    "row_get e ''event_id'' = CText i" "row_get e ''event_type'' = CText etyp" "stamp_amounts d etyp = Inr (duty, quantity)"
    "row_get r ''payload_json'' = CText pj" "row_get r ''occurred_at'' = CTime t" "row_get r ''event_id'' = CText i"
    "row_get r ''event_type'' = CText etyp" "row_get r ''total_duty_kobo'' = duty" "row_get r ''quantity'' = quantity"
    by (auto simp: stamp_row_def bindR_Inr_iff)
  with stamp_amounts_counted [OF s(5)] show ?thesis by (simp add: fact_of_def)
qed

lemma fact_order: "fact_of e r \<Longrightarrow> stamp_order ps r = stamp_order ps e"
  by (simp add: fact_of_def stamp_order_def)

lemma built_facts:
  assumes "build_excise_stamp_fact_rows loads ps js now events = Inr rows"
  shows "list_all2 fact_of (sort_key (stamp_order ps) (filter is_stamp_event events)) rows"
  using assms unfolding build_excise_stamp_fact_rows_def mapR_Inr_iff
  by (rule list_all2_mono) (rule stamp_row_fact)

section \<open>Properties\<close>

text \<open>
  One fact per tax-stamp event: the facts are those of a rearrangement of the stamp events of the silver
  table, in increasing order of instant and identifier; each keeps its event's identifier, type, instant and
  payload, and its amounts are null or integers that are not negative, at least one for issued stamps and both
  present for assessments.
\<close>

theorem stamp_facts_one_to_one:
  assumes "build_excise_stamp_fact_rows loads ps js now events = Inr rows"
  shows "(\<exists>es. mset es = mset (filter is_stamp_event events) \<and> list_all2 fact_of es rows) \<and>
    sorted (map (stamp_order ps) rows)"
proof -
  let ?es = "sort_key (stamp_order ps) (filter is_stamp_event events)"
  note f = built_facts [OF assms]
  have "map (stamp_order ps) rows = map (stamp_order ps) ?es"
    using f by (induction rule: list_all2_induct) (simp_all add: fact_order)
  then have "sorted (map (stamp_order ps) rows)" by simp
  moreover have "mset ?es = mset (filter is_stamp_event events)" by simp
  ultimately show ?thesis using f by blast
qed

definition stamp_loads :: "string \<Rightarrow> json res" where
  "stamp_loads s = Inr (JObj [(''totalDutyKobo'', JInt 500), (''stampsRequired'', JInt 20), (''quantity'', JInt 3)])"

definition stamp_sample :: "string \<Rightarrow> string \<Rightarrow> int \<Rightarrow> row" where
  "stamp_sample etyp i t =
     [(''event_id'', CText i), (''event_type'', CText etyp), (''occurred_at'', CTime t), (''payload_json'', CText ''x'')]"

lemma stamp_facts_one_to_one_witness:
  "\<exists>r1 r2. build_excise_stamp_fact_rows stamp_loads (py_str (\<lambda>c. [])) (\<lambda>v. []) 9
      [stamp_sample ISSUED_EVENT_TYPE ''b'' 7, stamp_sample ''other'' ''c'' 1, stamp_sample ASSESSED_EVENT_TYPE ''a'' 5] = Inr [r1, r2] \<and>
    stamp_order (py_str (\<lambda>c. [])) r1 \<le> stamp_order (py_str (\<lambda>c. [])) r2"
proof -
  let ?b = "build_excise_stamp_fact_rows stamp_loads (py_str (\<lambda>c. [])) (\<lambda>v. []) 9
      [stamp_sample ISSUED_EVENT_TYPE ''b'' 7, stamp_sample ''other'' ''c'' 1, stamp_sample ASSESSED_EVENT_TYPE ''a'' 5]"
  have "(case ?b of Inr rs \<Rightarrow> length rs = 2 | Inl e \<Rightarrow> False)" by code_simp
  then obtain rows where r: "?b = Inr rows" "length rows = 2" by (auto split: sum.splits)
  then obtain r1 r2 where "rows = [r1, r2]" by (auto simp: numeral_2_eq_2 length_Suc_conv)
  with r stamp_facts_one_to_one [OF r(1)] show ?thesis by auto
qed

text \<open>The order key of a gold row determines its event when identifiers are texts: the product is keyed by events.\<close>

lemma stamp_facts_distinct:
  assumes "build_excise_stamp_fact_rows loads ps js now events = Inr rows"
    and "distinct (map (\<lambda>e. row_get e ''event_id'') (filter is_stamp_event events))"
  shows "distinct (map (\<lambda>r. row_get r ''event_id'') rows)"
proof -
  let ?es = "sort_key (stamp_order ps) (filter is_stamp_event events)"
  have "map (\<lambda>r. row_get r ''event_id'') rows = map (\<lambda>e. row_get e ''event_id'') ?es"
    using built_facts [OF assms(1)] by (induction rule: list_all2_induct) (simp_all add: fact_of_def)
  moreover have "mset (map (\<lambda>e. row_get e ''event_id'') ?es) = mset (map (\<lambda>e. row_get e ''event_id'') (filter is_stamp_event events))"
    unfolding mset_map by simp
  then have "distinct (map (\<lambda>e. row_get e ''event_id'') ?es)" using assms(2) by (metis mset_eq_imp_distinct_iff)
  ultimately show ?thesis by simp
qed

end
