(* ===== verification/Jcs.thy ===== *)
theory Jcs
  imports Ingest
begin

text \<open>
  \<open>jcs.py\<close>: the RFC 8785 canonical form of a JSON document.  \<open>fr\<close> is \<open>repr\<close> of a positive float.  The lemmas
  show that the text determines the document up to the order of members and the spelling of numbers.
\<close>

section \<open>Numbers\<close>

text \<open>\<open>int(s)\<close> of an optional sign and decimal digits; \<open>repr\<close> writes exponents in no other form.\<close>

definition parse_int :: "string \<Rightarrow> int res" where
  "parse_int s =
     (let neg = (s \<noteq> [] \<and> hd s = CHR ''-''); body = (if s \<noteq> [] \<and> (hd s = CHR ''-'' \<or> hd s = CHR ''+'') then tl s else s)
      in bindR (guard (body \<noteq> [] \<and> list_all is_digit body) ValueError ''invalid literal for int() with base 10'') (\<lambda>_.
         Inr (if neg then - int (digits_val body) else int (digits_val body))))"

definition lstrip_char :: "char \<Rightarrow> string \<Rightarrow> string" where
  "lstrip_char c s = dropWhile (\<lambda>x. x = c) s"

definition shortest_digits :: "(rat \<Rightarrow> string) \<Rightarrow> rat \<Rightarrow> (string \<times> int) res" where
  "shortest_digits fr q =
     (let (mantissa, _, exponent_text) = partition_on (CHR ''e'') (fr q)
      in bindR (if exponent_text \<noteq> [] then parse_int exponent_text else Inr 0) (\<lambda>exponent.
         let (integer, _, fraction) = partition_on (CHR ''.'') mantissa;
             digits = lstrip_char (CHR ''0'') (integer @ fraction);
             stripped = rstrip_char (CHR ''0'') digits;
             exponent = exponent - int (length fraction) + (int (length digits) - int (length stripped))
         in Inr (if stripped = [] then (''0'', 0) else (stripped, exponent))))"

definition ecmascript_number_to_string :: "(rat \<Rightarrow> string) \<Rightarrow> rat \<Rightarrow> string res" where
  "ecmascript_number_to_string fr q =
     (if q = 0 then Inr ''0''
      else let sign = (if q < 0 then ''-'' else []) in
        bindR (shortest_digits fr \<bar>q\<bar>) (\<lambda>(digits, exponent).
        let k = int (length digits); n = exponent + k;
            exponent_text = ''e'' @ (if 0 \<le> n - 1 then ''+'' else ''-'') @ int_str \<bar>n - 1\<bar>
        in Inr (if k \<le> n \<and> n \<le> 21 then sign @ digits @ replicate (nat (n - k)) (CHR ''0'')
           else if 0 < n \<and> n \<le> 21 then sign @ take (nat n) digits @ ''.'' @ drop (nat n) digits
           else if - 6 < n \<and> n \<le> 0 then sign @ ''0.'' @ replicate (nat (- n)) (CHR ''0'') @ digits
           else if k = 1 then sign @ digits @ exponent_text
           else sign @ take 1 digits @ ''.'' @ drop 1 digits @ exponent_text)))"

fun serialize_number :: "(rat \<Rightarrow> string) \<Rightarrow> json \<Rightarrow> string res" where
  "serialize_number fr (JInt i) =
     bindR (guard (\<bar>i\<bar> < 10 ^ 21) ValueError ''JCS cannot canonicalize integers outside the IEEE-754 range'') (\<lambda>_.
     Inr (int_str i))"
| "serialize_number fr (JFloat (PFin q)) = ecmascript_number_to_string fr q"
| "serialize_number fr _ = raise ValueError ''JCS cannot canonicalize non-finite numbers''"

section \<open>Documents\<close>

text \<open>\<open>text.encode("utf-16-be")\<close>: two bytes for every code point below 256.\<close>

definition utf16_sort_key :: "string \<Rightarrow> string" where
  "utf16_sort_key s = concat (map (\<lambda>c. [char_of (0 :: nat), c]) s)"

lemma json_member_size: "(k, v) \<in> set d \<Longrightarrow> size v < size (JObj d)"
  by (induction d) auto

lemma json_element_size: "v \<in> set xs \<Longrightarrow> size v < size (JList xs)"
  by (induction xs) auto

text \<open>The members are serialised in sorted order, so the first of them that fails decides the error.\<close>

function canonicalize :: "(rat \<Rightarrow> string) \<Rightarrow> json \<Rightarrow> string res" where
  "canonicalize fr JNull = Inr ''null''"
| "canonicalize fr (JBool b) = Inr (if b then ''true'' else ''false'')"
| "canonicalize fr (JStr s) = Inr (json_str s)"
| "canonicalize fr (JInt i) = serialize_number fr (JInt i)"
| "canonicalize fr (JFloat f) = serialize_number fr (JFloat f)"
| "canonicalize fr (JList xs) =
     bindR (mapR (canonicalize fr) xs) (\<lambda>ts. Inr (''['' @ join_with '','' ts @ '']''))"
| "canonicalize fr (JObj d) =
     bindR (mapR (\<lambda>(k, v). bindR (canonicalize fr v) (\<lambda>t. Inr (json_str k @ '':'' @ t))) (sort_key (\<lambda>m. utf16_sort_key (fst m)) d)) (\<lambda>ts.
     Inr (''{'' @ join_with '','' ts @ ''}''))"
  by pat_completeness auto

termination
  by (relation "measure (\<lambda>(fr, v). size v)") (auto dest: json_member_size json_element_size simp del: json.size)
section \<open>Reading a text back\<close>

definition hex_value :: "char \<Rightarrow> nat" where
  "hex_value c = (if is_digit c then code c - 48 else code c - 87)"

definition unescape_char :: "char \<Rightarrow> char" where
  "unescape_char c =
     (if c = CHR ''n'' then char_of (10 :: nat) else if c = CHR ''r'' then char_of (13 :: nat)
      else if c = CHR ''t'' then char_of (9 :: nat) else if c = CHR ''f'' then char_of (12 :: nat)
      else if c = CHR ''b'' then char_of (8 :: nat) else c)"

text \<open>The body of a JSON string up to its closing quote, and what follows the quote.\<close>

fun scan_body :: "string \<Rightarrow> string \<times> string" where
  "scan_body (c # x) =
     (if code c = 34 then ([], x)
      else if code c = 92 then
        (case x of
           [] \<Rightarrow> ([], [])
         | e # y \<Rightarrow>
             if e = CHR ''u'' then
               (case y of
                  z1 # z2 # h # l # z \<Rightarrow> apfst ((#) (char_of (hex_value h * 16 + hex_value l))) (scan_body z)
                | _ \<Rightarrow> ([], []))
             else apfst ((#) (unescape_char e)) (scan_body y))
      else apfst ((#) c) (scan_body x))"
| "scan_body [] = ([], [])"

lemma code_char_of [simp]: "n < 256 \<Longrightarrow> code (char_of n) = n"
  by (simp add: code_def)

lemma hex_value_digit: "n < 16 \<Longrightarrow> hex_value (hex_digit n) = n"
  by (auto simp: hex_value_def hex_digit_def is_digit_def)

lemma hex_values: "n < 32 \<Longrightarrow> hex_value (hex_digit (n div 16)) * 16 + hex_value (hex_digit (n mod 16)) = n"
  by (simp add: hex_value_digit)

lemma char_of_code_eq: "code c = n \<Longrightarrow> char_of n = c"
  by (auto simp: code_def)

lemma code_letters: "code (CHR ''u'') = 117" "code (CHR ''n'') = 110" "code (CHR ''r'') = 114" "code (CHR ''t'') = 116"
  "code (CHR ''f'') = 102" "code (CHR ''b'') = 98"
  by (simp_all add: code_def)

lemma scan_escape: "scan_body (json_escape_char c @ z) = apfst ((#) c) (scan_body z)"
proof -
  have q: "c = char_of (code c)" by (simp add: code_def)
  consider "code c = 34" | "code c = 92" | "code c = 10" | "code c = 13" | "code c = 9" | "code c = 12" | "code c = 8"
    | "code c < 32" "code c \<notin> {8, 9, 10, 12, 13}" | "32 \<le> code c" "code c \<noteq> 34" "code c \<noteq> 92" by force
  then show ?thesis
  proof cases
    case 8
    then have "json_escape_char c = [char_of (92 :: nat)] @ ''u00'' @ [hex_digit (code c div 16), hex_digit (code c mod 16)]"
      by (simp add: json_escape_char_def Let_def)
    with 8 q show ?thesis by (simp add: hex_values)
  next
    case 1
    with q show ?thesis
      using code_inject [of c "CHR ''u''"] code_inject [of c "CHR ''n''"] code_inject [of c "CHR ''r''"]
        code_inject [of c "CHR ''t''"] code_inject [of c "CHR ''f''"] code_inject [of c "CHR ''b''"]
      by (auto simp: json_escape_char_def unescape_char_def code_letters)
  next
    case 2
    with q show ?thesis
      using code_inject [of c "CHR ''u''"] code_inject [of c "CHR ''n''"] code_inject [of c "CHR ''r''"]
        code_inject [of c "CHR ''t''"] code_inject [of c "CHR ''f''"] code_inject [of c "CHR ''b''"]
      by (auto simp: json_escape_char_def unescape_char_def code_letters)
  qed (use q in \<open>simp_all add: json_escape_char_def unescape_char_def\<close>)
qed

lemma scan_json_str: "scan_body (concat (map json_escape_char s) @ char_of (34 :: nat) # r) = (s, r)"
  by (induction s) (simp_all add: scan_escape)

lemma json_str_unambiguous: "json_str s @ r = json_str s' @ r' \<longleftrightarrow> s = s' \<and> r = r'"
proof
  assume "json_str s @ r = json_str s' @ r'"
  then have "scan_body (concat (map json_escape_char s) @ char_of (34 :: nat) # r) =
      scan_body (concat (map json_escape_char s') @ char_of (34 :: nat) # r')"
    by (simp add: json_str_def)
  then show "s = s' \<and> r = r'" by (simp only: scan_json_str prod.inject)
qed simp

section \<open>Injectivity\<close>

text \<open>
  What a canonical text says: the document with its members in the canonical order and each number replaced by
  its ECMAScript spelling.
\<close>

datatype content =
    CNullLit
  | CBoolLit bool
  | CNumber string
  | CString string
  | CArray "content list"
  | CObject "(string \<times> content) list"

fun content_of :: "(rat \<Rightarrow> string) \<Rightarrow> json \<Rightarrow> content" where
  "content_of fr JNull = CNullLit"
| "content_of fr (JBool b) = CBoolLit b"
| "content_of fr (JStr s) = CString s"
| "content_of fr (JInt i) = CNumber (case serialize_number fr (JInt i) of Inr t \<Rightarrow> t | Inl e \<Rightarrow> [])"
| "content_of fr (JFloat f) = CNumber (case serialize_number fr (JFloat f) of Inr t \<Rightarrow> t | Inl e \<Rightarrow> [])"
| "content_of fr (JList xs) = CArray (map (content_of fr) xs)"
| "content_of fr (JObj d) =
     CObject (sort_key (\<lambda>m. utf16_sort_key (fst m)) (map (\<lambda>(k, v). (k, content_of fr v)) d))"

fun content_text :: "content \<Rightarrow> string" where
  "content_text CNullLit = ''null''"
| "content_text (CBoolLit b) = (if b then ''true'' else ''false'')"
| "content_text (CNumber t) = t"
| "content_text (CString s) = json_str s"
| "content_text (CArray xs) = ''['' @ join_with '','' (map content_text xs) @ '']''"
| "content_text (CObject d) = ''{'' @ join_with '','' (map (\<lambda>(k, v). json_str k @ '':'' @ content_text v) d) @ ''}''"

text \<open>The characters of a number, and the texts whose numbers are made of them.\<close>

definition number_char :: "char \<Rightarrow> bool" where
  "number_char c = (is_digit c \<or> c \<in> {CHR ''-'', CHR ''+'', CHR ''.'', CHR ''e''})"

definition number_text :: "string \<Rightarrow> bool" where
  "number_text t = (t \<noteq> [] \<and> list_all number_char t)"

fun plain_numbers :: "content \<Rightarrow> bool" where
  "plain_numbers (CNumber t) = number_text t"
| "plain_numbers (CArray xs) = list_all plain_numbers xs"
| "plain_numbers (CObject d) = list_all (\<lambda>(k, v). plain_numbers v) d"
| "plain_numbers _ = True"

lemma quote_char: "char_of (34 :: nat) = CHR 0x22"
  by (rule char_of_code_eq) (simp add: code_def)

text \<open>What may follow a value inside a document.\<close>

definition ends_value :: "string \<Rightarrow> bool" where
  "ends_value r = (r = [] \<or> hd r \<in> {CHR '','', CHR '']'', CHR ''}''})"

lemma ends_value_simps [simp]:
  "ends_value []" "ends_value (CHR '','' # r)" "ends_value (CHR '']'' # r)" "ends_value (CHR ''}'' # r)"
  by (simp_all add: ends_value_def)

lemma number_char_first:
  "number_char c \<Longrightarrow> c \<noteq> CHR ''n'' \<and> c \<noteq> CHR ''t'' \<and> c \<noteq> CHR ''f'' \<and> c \<noteq> CHR ''['' \<and> c \<noteq> CHR ''{'' \<and>
    c \<noteq> char_of (34 :: nat) \<and> c \<noteq> CHR '','' \<and> c \<noteq> CHR '']'' \<and> c \<noteq> CHR ''}''"
  by (auto simp: number_char_def is_digit_def code_def quote_char)

lemma number_char_simps [simp]:
  "\<not> number_char (CHR ''n'')" "\<not> number_char (CHR ''t'')" "\<not> number_char (CHR ''f'')"
  "\<not> number_char (CHR ''['')" "\<not> number_char (CHR ''{'')" "\<not> number_char (char_of (34 :: nat))"
  using number_char_first by blast+

lemma number_split:
  assumes "number_text t" "ends_value r"
  shows "takeWhile number_char (t @ r) = t"
proof -
  have "takeWhile number_char r = []"
    using assms(2) number_char_first by (cases r) (auto simp: ends_value_def)
  with assms(1) show ?thesis by (simp add: number_text_def list_all_iff takeWhile_append2)
qed

lemma number_unambiguous:
  assumes "t @ r = t' @ r'" "number_text t" "number_text t'" "ends_value r" "ends_value r'"
  shows "t = t' \<and> r = r'"
proof -
  from assms number_split [of t r] number_split [of t' r'] have "t = t'" by simp
  with assms(1) show ?thesis by simp
qed

text \<open>The first character of a value tells its kind, and is never one that ends a value.\<close>

fun starts_with_kind :: "content \<Rightarrow> char \<Rightarrow> bool" where
  "starts_with_kind CNullLit c = (c = CHR ''n'')"
| "starts_with_kind (CBoolLit b) c = (c = (if b then CHR ''t'' else CHR ''f''))"
| "starts_with_kind (CNumber t) c = number_char c"
| "starts_with_kind (CString s) c = (c = char_of (34 :: nat))"
| "starts_with_kind (CArray xs) c = (c = CHR ''['')"
| "starts_with_kind (CObject d) c = (c = CHR ''{'')"

lemma content_text_first:
  "plain_numbers v \<Longrightarrow> \<exists>c t. content_text v = c # t \<and> starts_with_kind v c \<and> \<not> ends_value (c # t)"
proof (cases v)
  case (CNumber t)
  moreover assume "plain_numbers v"
  ultimately show ?thesis
    using number_char_first by (cases t) (auto simp: number_text_def ends_value_def)
qed (auto simp: json_str_def ends_value_def quote_char)

lemma content_text_kind:
  assumes "plain_numbers v" "plain_numbers v'" "content_text v @ r = content_text v' @ r'"
  shows "\<exists>c. starts_with_kind v c \<and> starts_with_kind v' c"
proof -
  from content_text_first [OF assms(1)] content_text_first [OF assms(2)] obtain c t c' t' where
    "content_text v = c # t" "starts_with_kind v c" "content_text v' = c' # t'" "starts_with_kind v' c'" by blast
  with assms(3) show ?thesis by auto
qed

text \<open>A comma-separated list of self-delimiting items up to its closing bracket is unambiguous.\<close>

lemma join_with_Cons: "join_with sep (x # xs) = x @ (if xs = [] then [] else sep @ join_with sep xs)"
  by (cases xs) simp_all

lemma join_unambiguous:
  assumes "join_with '','' (map f xs) @ c # r = join_with '','' (map f ys) @ c # r'"
    and "c = CHR '']'' \<or> c = CHR ''}''"
    and "\<And>x. x \<in> set xs \<union> set ys \<Longrightarrow> f x \<noteq> [] \<and> \<not> ends_value (f x)"
    and "\<And>x y s s'. x \<in> set xs \<Longrightarrow> y \<in> set ys \<Longrightarrow> f x @ s = f y @ s' \<Longrightarrow> ends_value s \<Longrightarrow> ends_value s' \<Longrightarrow> x = y \<and> s = s'"
  shows "xs = ys \<and> r = r'"
  using assms
proof (induction xs arbitrary: ys)
  case Nil
  show ?case
  proof (cases ys)
    case (Cons y ys')
    with Nil.prems(3) [of y] obtain a t where "f y = a # t" "\<not> ends_value (a # t)" by (cases "f y") auto
    with Nil.prems(1,2) Cons show ?thesis by (auto simp: join_with_Cons)
  qed (use Nil in simp)
next
  case (Cons x xs)
  show ?case
  proof (cases ys)
    case Nil
    with Cons.prems(3) [of x] obtain a t where "f x = a # t" "\<not> ends_value (a # t)" by (cases "f x") auto
    with Cons.prems(1,2) Nil show ?thesis by (auto simp: join_with_Cons)
  next
    case (Cons y ys')
    note ys = Cons
    define s where "s = (if xs = [] then c # r else '','' @ join_with '','' (map f xs) @ c # r)"
    define s' where "s' = (if ys' = [] then c # r' else '','' @ join_with '','' (map f ys') @ c # r')"
    have e: "f x @ s = f y @ s'" using Cons.prems(1) ys by (simp add: s_def s'_def join_with_Cons split: if_splits)
    moreover have "ends_value s" "ends_value s'" using Cons.prems(2) by (auto simp: s_def s'_def)
    ultimately have xy: "x = y \<and> s = s'" using Cons.prems(4) [of x y s s'] ys by simp
    show ?thesis
    proof (cases "xs = [] \<or> ys' = []")
      case True
      with xy ys Cons.prems(2) show ?thesis by (auto simp: s_def s'_def split: if_splits)
    next
      case False
      with xy have j: "join_with '','' (map f xs) @ c # r = join_with '','' (map f ys') @ c # r'" by (simp add: s_def s'_def)
      have "xs = ys' \<and> r = r'"
      proof (rule Cons.IH [OF j Cons.prems(2)])
        show "f z \<noteq> [] \<and> \<not> ends_value (f z)" if "z \<in> set xs \<union> set ys'" for z
          using Cons.prems(3) [of z] that ys by auto
        show "z = z' \<and> u = u'" if "z \<in> set xs" "z' \<in> set ys'" "f z @ u = f z' @ u'" "ends_value u" "ends_value u'" for z z' u u'
          using Cons.prems(4) [of z z' u u'] that ys by auto
      qed
      with xy ys show ?thesis by simp
    qed
  qed
qed

lemma member_unambiguous:
  assumes "(json_str k @ '':'' @ content_text v) @ s = (json_str k' @ '':'' @ content_text v') @ s'"
    and "content_text v @ s = content_text v' @ s' \<Longrightarrow> v = v' \<and> s = s'"
  shows "(k, v) = (k', v') \<and> s = s'"
proof -
  from assms(1) have "json_str k @ ('':'' @ content_text v @ s) = json_str k' @ ('':'' @ content_text v' @ s')" by simp
  then have "k = k' \<and> '':'' @ content_text v @ s = '':'' @ content_text v' @ s'" by (simp only: json_str_unambiguous)
  with assms(2) show ?thesis by simp
qed

lemma member_first: "json_str k @ t \<noteq> [] \<and> \<not> ends_value (json_str k @ t)"
  by (simp add: json_str_def ends_value_def quote_char)

lemma content_unambiguous:
  assumes "content_text v @ r = content_text v' @ r'" "plain_numbers v" "plain_numbers v'" "ends_value r" "ends_value r'"
  shows "v = v' \<and> r = r'"
  using assms
proof (induction v arbitrary: v' r r')
  case CNullLit
  from content_text_kind [OF CNullLit(2,3,1)] CNullLit show ?case
    by (cases v') (auto simp: quote_char split: if_splits)
next
  case (CBoolLit b)
  from content_text_kind [OF CBoolLit(2,3,1)] CBoolLit show ?case
    by (cases v') (auto simp: quote_char split: if_splits)
next
  case (CNumber t)
  from content_text_kind [OF CNumber(2,3,1)] obtain t' where v': "v' = CNumber t'"
    by (cases v') (auto split: if_splits)
  with CNumber number_unambiguous [of t r t' r'] show ?case by simp
next
  case (CString s)
  from content_text_kind [OF CString(2,3,1)] obtain s' where v': "v' = CString s'"
    by (cases v') (simp_all add: number_char_simps(6) [unfolded quote_char] quote_char split: if_splits)
  with CString(1) show ?case by (simp add: json_str_unambiguous)
next
  case (CArray xs)
  from content_text_kind [OF CArray(3,4,2)] obtain ys where v': "v' = CArray ys"
    by (cases v') (auto simp: quote_char split: if_splits)
  have "xs = ys \<and> r = r'"
  proof (rule join_unambiguous [where f = content_text and c = "CHR '']''"])
    show "join_with '','' (map content_text xs) @ CHR '']'' # r = join_with '','' (map content_text ys) @ CHR '']'' # r'"
      using CArray(2) v' by simp
    show "content_text x \<noteq> [] \<and> \<not> ends_value (content_text x)" if "x \<in> set xs \<union> set ys" for x
      using content_text_first [of x] that CArray(3,4) v' by (auto simp: list_all_iff)
    show "x = y \<and> s = s'" if "x \<in> set xs" "y \<in> set ys" "content_text x @ s = content_text y @ s'" "ends_value s" "ends_value s'" for x y s s'
      using CArray(1) [of x s y s'] that CArray(3,4) v' by (auto simp: list_all_iff)
  qed simp
  with v' show ?case by simp
next
  case (CObject d)
  from content_text_kind [OF CObject(3,4,2)] obtain e where v': "v' = CObject e"
    by (cases v') (auto simp: quote_char split: if_splits)
  have "d = e \<and> r = r'"
  proof (rule join_unambiguous [where f = "\<lambda>(k, v). json_str k @ '':'' @ content_text v" and c = "CHR ''}''"])
    show "join_with '','' (map (\<lambda>(k, v). json_str k @ '':'' @ content_text v) d) @ CHR ''}'' # r =
        join_with '','' (map (\<lambda>(k, v). json_str k @ '':'' @ content_text v) e) @ CHR ''}'' # r'"
      using CObject(2) v' by simp
    show "(case x of (k, v) \<Rightarrow> json_str k @ '':'' @ content_text v) \<noteq> [] \<and>
        \<not> ends_value (case x of (k, v) \<Rightarrow> json_str k @ '':'' @ content_text v)" if "x \<in> set d \<union> set e" for x
      using member_first by (cases x) simp
    show "x = y \<and> s = s'" if "x \<in> set d" "y \<in> set e" "(case x of (k, v) \<Rightarrow> json_str k @ '':'' @ content_text v) @ s =
        (case y of (k, v) \<Rightarrow> json_str k @ '':'' @ content_text v) @ s'" "ends_value s" "ends_value s'" for x y s s'
    proof -
      obtain k a k' b where xy: "x = (k, a)" "y = (k', b)" by (cases x; cases y) auto
      have "plain_numbers a" "plain_numbers b" using CObject(3,4) v' that(1,2) xy by (auto simp: list_all_iff)
      then have "a = b \<and> s = s'" if "content_text a @ s = content_text b @ s'"
        using CObject(1) [of x a s b s'] that \<open>x \<in> set d\<close> \<open>ends_value s\<close> \<open>ends_value s'\<close> xy by simp
      from member_unambiguous [of k a s k' b s', OF _ this] that(3) xy show ?thesis by simp
    qed
  qed simp
  with v' show ?case by simp
qed

text \<open>\<open>repr\<close> of a positive float is written with digits, a point and an exponent.\<close>

definition repr_chars :: "(rat \<Rightarrow> string) \<Rightarrow> bool" where
  "repr_chars fr \<longleftrightarrow> (\<forall>q. list_all number_char (fr q))"

lemma number_char_digit: "is_digit c \<Longrightarrow> number_char c"
  by (simp add: number_char_def)

lemma number_char_symbols [simp]:
  "number_char (CHR ''-'')" "number_char (CHR ''+'')" "number_char (CHR ''.'')" "number_char (CHR ''e'')" "number_char (CHR ''0'')"
  by (simp_all add: number_char_def is_digit_def code_def)

lemma int_str_number: "number_text (int_str i)"
  by (auto simp: int_str_def number_text_def list_all_iff dest: nat_str_digits number_char_digit)

lemma set_rstrip_char: "set (rstrip_char c s) \<subseteq> set s"
  by (auto simp: rstrip_char_def dest: set_dropWhileD)

lemma shortest_digits_number:
  assumes "shortest_digits fr q = Inr (digits, e)" "repr_chars fr"
  shows "number_text digits"
proof -
  obtain m f x where m: "partition_on (CHR ''e'') (fr q) = (m, f, x)" by (cases "partition_on (CHR ''e'') (fr q)") auto
  obtain i g y where i: "partition_on (CHR ''.'') m = (i, g, y)" by (cases "partition_on (CHR ''.'') m") auto
  have sub: "set a \<subseteq> set s \<and> set b \<subseteq> set s" if "partition_on c s = (a, h, b)" for c s a h b
  proof -
    have "set (tl z) \<subseteq> set z" for z :: string by (cases z) auto
    with that show ?thesis by (fastforce simp: partition_on_def dest: set_takeWhileD set_dropWhileD)
  qed
  from sub [OF m] sub [OF i] have "set i \<union> set y \<subseteq> set (fr q)" by auto
  moreover have "set digits \<subseteq> set i \<union> set y \<union> {CHR ''0''} \<and> digits \<noteq> []"
  proof -
    let ?s = "rstrip_char (CHR ''0'') (lstrip_char (CHR ''0'') (i @ y))"
    have "set ?s \<subseteq> set i \<union> set y"
      using set_rstrip_char [of "CHR ''0''" "lstrip_char (CHR ''0'') (i @ y)"]
      by (auto simp: lstrip_char_def dest!: subsetD set_dropWhileD)
    moreover have "digits = (if ?s = [] then ''0'' else ?s)"
      using assms(1) m i by (auto simp: shortest_digits_def Let_def bindR_Inr_iff split: if_splits)
    ultimately show ?thesis by (simp split: if_splits) blast
  qed
  ultimately have d: "set digits \<subseteq> insert (CHR ''0'') (set (fr q))" "digits \<noteq> []" by blast+
  have "number_char c" if "c \<in> set digits" for c
    using that d(1) assms(2) by (cases "c = CHR ''0''") (auto simp: list_all_iff repr_chars_def)
  with d(2) show ?thesis by (simp add: number_text_def list_all_iff)
qed

lemma serialize_number_text:
  assumes "serialize_number fr v = Inr t" "repr_chars fr"
  shows "number_text t"
proof (cases v)
  case (JInt i)
  with assms int_str_number show ?thesis by (auto simp: res_simps)
next
  case (JFloat f)
  with assms(1) obtain q where f: "f = PFin q" by (cases f) auto
  show ?thesis
  proof (cases "q = 0")
    case True
    with assms(1) JFloat f show ?thesis by (auto simp: ecmascript_number_to_string_def number_text_def)
  next
    case False
    with assms(1) JFloat f obtain digits e where d: "shortest_digits fr \<bar>q\<bar> = Inr (digits, e)"
      by (auto simp: ecmascript_number_to_string_def Let_def bindR_Inr_iff)
    have n: "number_text digits" by (rule shortest_digits_number [OF d assms(2)])
    have x: "number_text (int_str i)" for i by (rule int_str_number)
    from n have take: "list_all number_char (take m digits)" "list_all number_char (drop m digits)" for m
      by (auto simp: number_text_def list_all_iff dest: in_set_takeD in_set_dropD)
    from False assms(1) JFloat f d n x take show ?thesis
      by (auto simp: ecmascript_number_to_string_def Let_def number_text_def list_all_iff split: if_splits)
  qed
qed (use assms in auto)

lemma insort_key_map: "insort_key f (h x) (map h ys) = map h (insort_key (\<lambda>z. f (h z)) x ys)"
  by (induction ys) simp_all

lemma sort_key_map: "sort_key f (map h xs) = map h (sort_key (\<lambda>z. f (h z)) xs)"
  by (induction xs) (simp_all add: insort_key_map)

lemma mapR_map: "mapR f xs = Inr ys \<Longrightarrow> (\<And>x y. x \<in> set xs \<Longrightarrow> f x = Inr y \<Longrightarrow> y = g x) \<Longrightarrow> ys = map g xs"
  by (induction xs arbitrary: ys) (auto simp: bindR_Inr_iff)

lemma canonicalize_content:
  assumes "canonicalize fr v = Inr t" "repr_chars fr"
  shows "t = content_text (content_of fr v) \<and> plain_numbers (content_of fr v)"
  using assms
proof (induction fr v arbitrary: t rule: canonicalize.induct)
  case (6 fr xs)
  then obtain ts where ts: "mapR (canonicalize fr) xs = Inr ts" "t = ''['' @ join_with '','' ts @ '']''"
    by (auto simp: bindR_Inr_iff)
  have el: "y = content_text (content_of fr x) \<and> plain_numbers (content_of fr x)" if "x \<in> set xs" "canonicalize fr x = Inr y" for x y
    using 6 that by blast
  have "ts = map (\<lambda>x. content_text (content_of fr x)) xs"
    by (rule mapR_map [OF ts(1)]) (use el in blast)
  moreover have "plain_numbers (content_of fr x)" if "x \<in> set xs" for x
    using list_all2_in_right [OF ts(1) [unfolded mapR_Inr_iff] that] el that by blast
  ultimately show ?case using ts(2) by (simp add: list_all_iff comp_def)
next
  case (7 fr d)
  define s where "s = sort_key (\<lambda>m. utf16_sort_key (fst m)) d"
  from "7.prems" obtain ts where ts: "mapR (\<lambda>(k, v). bindR (canonicalize fr v) (\<lambda>t. Inr (json_str k @ '':'' @ t))) s = Inr ts"
    "t = ''{'' @ join_with '','' ts @ ''}''"
    by (auto simp: bindR_Inr_iff s_def)
  have el: "y = content_text (content_of fr v) \<and> plain_numbers (content_of fr v)"
    if "(k, v) \<in> set s" "canonicalize fr v = Inr y" for k v y
    using "7.IH" [of "(k, v)" k v] "7.prems"(2) that by (simp add: s_def)
  have "ts = map (\<lambda>(k, v). json_str k @ '':'' @ content_text (content_of fr v)) s"
    by (rule mapR_map [OF ts(1)]) (use el in \<open>auto simp: bindR_Inr_iff\<close>)
  moreover have "plain_numbers (content_of fr v)" if "(k, v) \<in> set s" for k v
    using list_all2_in_right [OF ts(1) [unfolded mapR_Inr_iff] that] el [OF that] by (auto simp: bindR_Inr_iff)
  moreover have "content_of fr (JObj d) = CObject (map (\<lambda>(k, v). (k, content_of fr v)) s)"
    by (simp add: sort_key_map s_def split_def)
  ultimately show ?case using ts(2) by (auto simp: list_all_iff comp_def split_def)
qed (auto dest: serialize_number_text simp del: serialize_number.simps split: sum.splits)

lemma utf16_sort_key_inj: "utf16_sort_key a = utf16_sort_key b \<longleftrightarrow> a = b"
proof (induction a arbitrary: b)
  case Nil
  show ?case by (cases b) (simp_all add: utf16_sort_key_def)
next
  case (Cons c a)
  then show ?case by (cases b) (simp_all add: utf16_sort_key_def)
qed

lemma members_reordered:
  assumes "mset d = mset d'" "distinct (map fst d)"
  shows "sort_key (\<lambda>m. utf16_sort_key (fst m)) d = sort_key (\<lambda>m. utf16_sort_key (fst m)) d'"
proof -
  have e: "filter (\<lambda>m. fst m = k) d = filter (\<lambda>m. fst m = k) d'" for k
  proof -
    have "mset (filter (\<lambda>m. fst m = k) d) = mset (filter (\<lambda>m. fst m = k) d')" using assms(1) by simp
    moreover have "length (filter (\<lambda>m. fst m = k) d) \<le> 1"
      using assms(2)
    proof (induction d)
      case (Cons m d)
      then have "filter (\<lambda>n. fst n = k) d = []" if "fst m = k" using that by (auto simp: filter_empty_conv image_iff)
      with Cons show ?case by auto
    qed simp
    ultimately show ?thesis
      by (cases "filter (\<lambda>m. fst m = k) d"; cases "filter (\<lambda>m. fst m = k) d'") auto
  qed
  show ?thesis
  proof (rule properties_for_sort_key)
    show "mset (sort_key (\<lambda>m. utf16_sort_key (fst m)) d') = mset d" using assms(1) by simp
    show "filter (\<lambda>x. utf16_sort_key (fst k) = utf16_sort_key (fst x)) (sort_key (\<lambda>m. utf16_sort_key (fst m)) d') =
        filter (\<lambda>x. utf16_sort_key (fst k) = utf16_sort_key (fst x)) d" for k
      using sort_key_stable [of "\<lambda>m. utf16_sort_key (fst m)" "utf16_sort_key (fst k)" d'] e [of "fst k"]
      by (simp add: utf16_sort_key_inj eq_commute [of "fst k"])
  qed simp
qed

section \<open>The canonical form\<close>

lemma canonical_text_determines:
  assumes "repr_chars fr" "canonicalize fr v = Inr t" "canonicalize fr v' = Inr t'"
  shows "t = t' \<longleftrightarrow> content_of fr v = content_of fr v'"
proof
  assume "t = t'"
  then have "content_text (content_of fr v) @ [] = content_text (content_of fr v') @ []"
    using canonicalize_content [OF assms(2,1)] canonicalize_content [OF assms(3,1)] by simp
  then show "content_of fr v = content_of fr v'"
    using content_unambiguous [of _ "[]" _ "[]"] canonicalize_content [OF assms(2,1)] canonicalize_content [OF assms(3,1)] by simp
next
  assume "content_of fr v = content_of fr v'"
  then show "t = t'" using canonicalize_content [OF assms(2,1)] canonicalize_content [OF assms(3,1)] by simp
qed

lemma canonicalize_reordered:
  "mset d = mset d' \<Longrightarrow> distinct (map fst d) \<Longrightarrow> canonicalize fr (JObj d) = canonicalize fr (JObj d')"
  by (simp add: members_reordered [of d d'])

text \<open>
  Claim C34. Two documents have the same canonical text exactly when they have the same content (the same structure,
  texts and member names, and numbers with the same ECMAScript spelling), and the order of an object's members
  changes neither its text nor its error.
\<close>

theorem canonicalize_injective:
  assumes "repr_chars fr" and "canonicalize fr v = Inr t" and "canonicalize fr v' = Inr t'"
  shows "(t = t' \<longleftrightarrow> content_of fr v = content_of fr v') \<and>
    (\<forall>d d'. mset d = mset d' \<and> distinct (map fst d) \<longrightarrow> canonicalize fr (JObj d) = canonicalize fr (JObj d'))"
  using canonical_text_determines [OF assms] canonicalize_reordered [of _ _ fr] by blast

definition sample_repr :: "rat \<Rightarrow> string" where
  "sample_repr q = (if q = 3 / 2 then ''1.5'' else ''0.0'')"

lemma sample_repr_chars: "repr_chars sample_repr"
  by (simp add: repr_chars_def sample_repr_def number_char_def is_digit_def code_def)

definition sample_doc :: json where
  "sample_doc = JObj [(''b'', JInt 1), (''a'', JList [JNull, JBool True])]"

definition swapped_doc :: json where
  "swapped_doc = JObj [(''a'', JList [JNull, JBool True]), (''b'', JInt 1)]"

definition sample_doc_text :: string where
  "sample_doc_text = [CHR ''{'', CHR 0x22, CHR ''a'', CHR 0x22] @ '':[null,true],'' @ [CHR 0x22, CHR ''b'', CHR 0x22] @ '':1}''"

lemma char_one: "char_of (49 :: nat) = CHR ''1''"
  by (rule char_of_code_eq) (simp add: code_def)

lemma sample_doc_canonical:
  "canonicalize sample_repr sample_doc = Inr sample_doc_text" "canonicalize sample_repr swapped_doc = Inr sample_doc_text"
  by (simp_all add: sample_doc_def swapped_doc_def sample_doc_text_def utf16_sort_key_def json_str_def json_escape_char_def
      code_def int_str_def nat_str.simps quote_char char_one guard_def raise_def)

lemma canonicalize_injective_witness:
  "sample_doc \<noteq> swapped_doc \<and> content_of sample_repr sample_doc = content_of sample_repr swapped_doc"
  using canonicalize_injective [OF sample_repr_chars sample_doc_canonical]
  by (simp add: sample_doc_def swapped_doc_def)

end
