(* ===== verification/Signature.thy ===== *)
theory Signature
  imports Jcs Dlq
begin

text \<open>
  \<open>signature_verification.py\<close>: producer keys, verification of envelope signatures with its counters, and signing.
  The Ed25519 primitive is a parameter (a key is its raw bytes), and so are \<open>json.loads\<close>, the UTF-8 decoder and the
  rendering of floats.  Bytes are strings, one character per byte.
\<close>

section \<open>Keys and counters\<close>

record ed25519 =
  ed_public :: "string \<Rightarrow> string"
  ed_sign :: "string \<Rightarrow> string \<Rightarrow> string"
  ed_verify :: "string \<Rightarrow> string \<Rightarrow> string \<Rightarrow> bool"

text \<open>
  \<open>tx_decode\<close> is \<open>bytes.decode("utf-8")\<close>, with \<open>None\<close> for a \<open>UnicodeDecodeError\<close>; \<open>tx_json_error\<close> tells which of the
  exceptions of \<open>json.loads\<close> are \<open>JSONDecodeError\<close>.
\<close>

record text_codec =
  tx_decode :: "string \<Rightarrow> string option"
  tx_loads :: "string \<Rightarrow> json res"
  tx_json_error :: "exn \<Rightarrow> bool"
  tx_repr :: "rat \<Rightarrow> string"

definition kid_char :: "char \<Rightarrow> bool" where
  "kid_char c = (is_alnum c \<or> c \<in> {CHR ''.'', CHR ''_'', CHR ''-''})"

definition KID_PATTERN :: "string \<Rightarrow> bool" where
  "KID_PATTERN s = (1 \<le> length s \<and> length s \<le> 256 \<and> list_all kid_char s)"

definition MAX_KEY_DIRECTORY_BYTES :: int where "MAX_KEY_DIRECTORY_BYTES = 1 * 1024 * 1024"
definition ED25519_PUBLIC_KEY_BYTES :: nat where "ED25519_PUBLIC_KEY_BYTES = 32"
definition REASON_MALFORMED_JWS :: string where "REASON_MALFORMED_JWS = ''malformed-jws''"
definition REASON_UNSUPPORTED_ALG :: string where "REASON_UNSUPPORTED_ALG = ''unsupported-alg''"
definition REASON_UNKNOWN_KID :: string where "REASON_UNKNOWN_KID = ''unknown-kid''"
definition REASON_PAYLOAD_MISMATCH :: string where "REASON_PAYLOAD_MISMATCH = ''payload-mismatch''"
definition REASON_INVALID_SIGNATURE :: string where "REASON_INVALID_SIGNATURE = ''invalid-signature''"

definition signature_error :: "string \<Rightarrow> string \<Rightarrow> exn" where
  "signature_error reason detail =
     Exn (SignatureVerificationError reason) (''envelope signature rejected ('' @ reason @ ''): '' @ detail)"

definition reject :: "string \<Rightarrow> string \<Rightarrow> 'a res" where
  "reject reason detail = Inl (signature_error reason detail)"

definition demand :: "bool \<Rightarrow> string \<Rightarrow> string \<Rightarrow> unit res" where
  "demand ok reason detail = (if ok then Inr () else reject reason detail)"

record signature_metrics =
  sm_verified :: int
  sm_rejected :: "(string \<times> int) list"

definition new_metrics :: signature_metrics where
  "new_metrics = \<lparr>sm_verified = 0, sm_rejected = []\<rparr>"

definition record_verified :: "signature_metrics \<Rightarrow> signature_metrics" where
  "record_verified m = m\<lparr>sm_verified := sm_verified m + 1\<rparr>"

definition rejections :: "signature_metrics \<Rightarrow> string \<Rightarrow> int" where
  "rejections m reason = (case map_of (sm_rejected m) reason of None \<Rightarrow> 0 | Some n \<Rightarrow> n)"

definition record_rejected :: "string \<Rightarrow> signature_metrics \<Rightarrow> signature_metrics" where
  "record_rejected reason m = m\<lparr>sm_rejected := AList.update reason (rejections m reason + 1) (sm_rejected m)\<rparr>"

type_synonym key_directory = "(string \<times> string) list"

definition resolve :: "key_directory \<Rightarrow> string \<Rightarrow> string option" where
  "resolve directory kid = map_of directory kid"

section \<open>Base64url\<close>

definition b64url_char :: "char \<Rightarrow> bool" where
  "b64url_char c = (is_alnum c \<or> c = CHR ''_'' \<or> c = CHR ''-'')"

text \<open>The check \<open>"=" not in s and re.fullmatch(r"[A-Za-z0-9_-]+", s)\<close>.\<close>

definition unpadded_b64url :: "string \<Rightarrow> bool" where
  "unpadded_b64url s = (s \<noteq> [] \<and> CHR ''='' \<notin> set s \<and> list_all b64url_char s)"

definition from_url_char :: "char \<Rightarrow> char" where
  "from_url_char c = (if c = CHR ''-'' then CHR ''+'' else if c = CHR ''_'' then CHR ''/'' else c)"

definition to_url_char :: "char \<Rightarrow> char" where
  "to_url_char c = (if c = CHR ''+'' then CHR ''-'' else if c = CHR ''/'' then CHR ''_'' else c)"

text \<open>\<open>s + "=" * (-len(s) % 4)\<close>.\<close>

definition b64_pad :: "string \<Rightarrow> string" where
  "b64_pad s = s @ replicate (nat (- int (length s) mod 4)) (CHR ''='')"

text \<open>
  \<open>base64.urlsafe_b64decode\<close> of padded text over its alphabet: one left-over character is a \<open>binascii.Error\<close>, a
  \<open>ValueError\<close>.
\<close>

definition urlsafe_b64decode :: "string \<Rightarrow> string res" where
  "urlsafe_b64decode s =
     bindR (guard (length (filter (\<lambda>c. c \<noteq> CHR ''='') s) mod 4 \<noteq> 1) ValueError
              ''Invalid base64-encoded string'') (\<lambda>_.
     Inr (b64decode (map from_url_char s)))"

definition decode_base64url :: "string \<Rightarrow> string \<Rightarrow> string res" where
  "decode_base64url segment what =
     bindR (demand (unpadded_b64url segment) REASON_MALFORMED_JWS (what @ '' is not unpadded base64url'')) (\<lambda>_.
     case urlsafe_b64decode (b64_pad segment) of
       Inl e \<Rightarrow> (if is_value_error (exn_class e) then reject REASON_MALFORMED_JWS (what @ '' is not valid base64url'') else Inl e)
     | Inr b \<Rightarrow> Inr b)"

text \<open>\<open>base64.urlsafe_b64encode(b).rstrip(b"=").decode("ascii")\<close>.\<close>

definition b64url_encode :: "string \<Rightarrow> string" where
  "b64url_encode b = rstrip_char (CHR ''='') (map to_url_char (b64encode b))"

section \<open>The key directory\<close>

text \<open>What the loader sees of the mounted file; \<open>kf_text\<close> is \<open>read_text\<close>, \<open>None\<close> when it is not UTF-8.\<close>

record key_file =
  kf_is_file :: bool
  kf_is_symlink :: bool
  kf_size :: int
  kf_text :: "string option"

definition add_key :: "key_directory \<Rightarrow> string \<times> json \<Rightarrow> key_directory res" where
  "add_key keys entry =
     (case entry of (kid, encoded) \<Rightarrow>
     bindR (guard (KID_PATTERN kid) ValueError ''key directory carries a malformed kid (fail-closed)'') (\<lambda>_.
     bindR (require_some (json_text encoded) ValueError ''key directory key is not unpadded base64url'') (\<lambda>s.
     bindR (guard (unpadded_b64url s) ValueError ''key directory key is not unpadded base64url'') (\<lambda>_.
     case urlsafe_b64decode (b64_pad s) of
       Inl e \<Rightarrow> (if is_value_error (exn_class e) then raise ValueError ''key directory key is not valid base64url'' else Inl e)
     | Inr raw \<Rightarrow>
         bindR (guard (length raw = ED25519_PUBLIC_KEY_BYTES) ValueError
                  ''key directory key is not a 32-byte Ed25519 public key'') (\<lambda>_.
         Inr (AList.update kid raw keys))))))"

definition load_key_directory :: "text_codec \<Rightarrow> key_file \<Rightarrow> key_directory res" where
  "load_key_directory tx f =
     bindR (guard (kf_is_file f \<and> \<not> kf_is_symlink f) ValueError
              ''key directory must be a regular non-symlink file (fail-closed)'') (\<lambda>_.
     bindR (guard (kf_size f \<le> MAX_KEY_DIRECTORY_BYTES \<and> kf_size f \<noteq> 0) ValueError
              ''key directory must contain 1 to 1048576 bytes'') (\<lambda>_.
     bindR (require_some (kf_text f) ValueError ''key directory is not valid JSON (fail-closed)'') (\<lambda>text.
     case tx_loads tx text of
       Inl e \<Rightarrow> (if tx_json_error tx e then raise ValueError ''key directory is not valid JSON (fail-closed)'' else Inl e)
     | Inr document \<Rightarrow>
         bindR (require_some (json_obj document) ValueError ''key directory must be a non-empty JSON object of kid to key'') (\<lambda>d.
         bindR (guard (d \<noteq> []) ValueError ''key directory must be a non-empty JSON object of kid to key'') (\<lambda>_.
         foldR add_key [] d)))))"

text \<open>\<open>files\<close> gives what the file system holds at a path.\<close>

definition load_key_directory_from_env :: "text_codec \<Rightarrow> (string \<Rightarrow> key_file) \<Rightarrow> environ \<Rightarrow> key_directory res" where
  "load_key_directory_from_env tx files env =
     (let raw = env_get env ''KEY_DIRECTORY_PATH''
      in bindR (guard (strip raw \<noteq> []) ValueError ''KEY_DIRECTORY_PATH is required (fail-closed)'') (\<lambda>_.
         load_key_directory tx (files raw)))"

section \<open>Verification\<close>

text \<open>The document that is signed: the envelope with its provenance last and without the signature.\<close>

definition signed_document :: "jobject \<Rightarrow> jobject \<Rightarrow> json" where
  "signed_document envelope provenance =
     JObj (filter (\<lambda>(key, value). key \<noteq> ''provenance'') envelope @
           [(''provenance'', JObj (filter (\<lambda>(key, value). key \<noteq> ''signature'') provenance))])"

definition protected_header :: "text_codec \<Rightarrow> string \<Rightarrow> jobject res" where
  "protected_header tx header_bytes =
     (case tx_decode tx header_bytes of
        None \<Rightarrow> reject REASON_MALFORMED_JWS ''protected header is not valid JSON''
      | Some text \<Rightarrow>
          (case tx_loads tx text of
             Inl e \<Rightarrow> (if tx_json_error tx e then reject REASON_MALFORMED_JWS ''protected header is not valid JSON'' else Inl e)
           | Inr (JObj header) \<Rightarrow> Inr header
           | Inr _ \<Rightarrow> reject REASON_MALFORMED_JWS ''protected header must be a JSON object''))"

definition header_kid :: "jobject \<Rightarrow> string res" where
  "header_kid header =
     bindR (demand (jget header ''alg'' = JStr ''EdDSA'') REASON_UNSUPPORTED_ALG ''protected header alg must be EdDSA'') (\<lambda>_.
     case jget header ''kid'' of
       JStr kid \<Rightarrow> bindR (demand (KID_PATTERN kid) REASON_MALFORMED_JWS ''protected header kid is malformed'') (\<lambda>_. Inr kid)
     | _ \<Rightarrow> reject REASON_MALFORMED_JWS ''protected header kid is malformed'')"

text \<open>\<open>canonicalize(signed_document).encode("utf-8")\<close> with its \<open>ValueError\<close> turned into a rejection.\<close>

definition expected_payload :: "text_codec \<Rightarrow> jobject \<Rightarrow> jobject \<Rightarrow> string res" where
  "expected_payload tx envelope provenance =
     (case canonicalize (tx_repr tx) (signed_document envelope provenance) of
        Inl e \<Rightarrow> (if is_value_error (exn_class e)
                 then reject REASON_PAYLOAD_MISMATCH (''envelope cannot be canonicalized: '' @ exn_msg e) else Inl e)
      | Inr t \<Rightarrow> Inr (utf8_encode t))"

definition check_segments :: "text_codec \<Rightarrow> ed25519 \<Rightarrow> key_directory \<Rightarrow> jobject \<Rightarrow> jobject \<Rightarrow> string \<Rightarrow> string \<Rightarrow> string \<Rightarrow> string res" where
  "check_segments tx ed directory envelope provenance encoded_header encoded_payload encoded_signature =
     bindR (decode_base64url encoded_header ''protected header'') (\<lambda>header_bytes.
     bindR (decode_base64url encoded_payload ''payload'') (\<lambda>payload_bytes.
     bindR (decode_base64url encoded_signature ''signature'') (\<lambda>signature_bytes.
     bindR (protected_header tx header_bytes) (\<lambda>header.
     bindR (header_kid header) (\<lambda>kid.
     case resolve directory kid of
       None \<Rightarrow> reject REASON_UNKNOWN_KID ''kid is not in the key directory''
     | Some public_key \<Rightarrow>
         bindR (expected_payload tx envelope provenance) (\<lambda>expected.
         bindR (demand (payload_bytes = expected) REASON_PAYLOAD_MISMATCH ''JWS payload does not match the canonical envelope'') (\<lambda>_.
         bindR (demand (ed_verify ed public_key signature_bytes (encoded_header @ ''.'' @ encoded_payload))
                  REASON_INVALID_SIGNATURE ''Ed25519 signature does not verify'') (\<lambda>_.
         Inr kid))))))))"

definition verify_envelope :: "text_codec \<Rightarrow> ed25519 \<Rightarrow> key_directory \<Rightarrow> jobject \<Rightarrow> string res" where
  "verify_envelope tx ed directory envelope =
     (case jget envelope ''provenance'' of
        JObj provenance \<Rightarrow>
          (case jget provenance ''signature'' of
             JStr signature \<Rightarrow>
               (case split_on (CHR ''.'') signature of
                  [encoded_header, encoded_payload, encoded_signature] \<Rightarrow>
                    check_segments tx ed directory envelope provenance encoded_header encoded_payload encoded_signature
                | _ \<Rightarrow> reject REASON_MALFORMED_JWS ''JWS compact form must have three segments'')
           | _ \<Rightarrow> reject REASON_MALFORMED_JWS ''provenance.signature is not text'')
      | _ \<Rightarrow> reject REASON_MALFORMED_JWS ''envelope carries no provenance object'')"

text \<open>\<open>verify\<close> counts: an accepted envelope, or the reason of a \<open>SignatureVerificationError\<close>; other exceptions pass.\<close>

definition verify :: "text_codec \<Rightarrow> ed25519 \<Rightarrow> key_directory \<Rightarrow> jobject \<Rightarrow> signature_metrics \<Rightarrow> string res \<times> signature_metrics" where
  "verify tx ed directory envelope m =
     (case verify_envelope tx ed directory envelope of
        Inr kid \<Rightarrow> (Inr kid, record_verified m)
      | Inl e \<Rightarrow> (Inl e, case exn_class e of SignatureVerificationError reason \<Rightarrow> record_rejected reason m | _ \<Rightarrow> m))"

section \<open>Signing\<close>

definition sign_document :: "text_codec \<Rightarrow> ed25519 \<Rightarrow> jobject \<Rightarrow> string \<Rightarrow> string \<Rightarrow> jobject res" where
  "sign_document tx ed document private_key kid =
     bindR (require_some (json_obj (jget document ''provenance'')) ValueError ''document carries no provenance object'') (\<lambda>provenance.
     let header = b64url_encode (utf8_encode (dumps_compact (tx_repr tx) False (JObj [(''alg'', JStr ''EdDSA''), (''kid'', JStr kid)])))
     in bindR (canonicalize (tx_repr tx) (signed_document document provenance)) (\<lambda>t.
        let payload = b64url_encode (utf8_encode t);
            signature = b64url_encode (ed_sign ed private_key (header @ ''.'' @ payload))
        in Inr (AList.update ''provenance''
                 (JObj (AList.update ''signature'' (JStr (header @ ''.'' @ payload @ ''.'' @ signature)) provenance)) document)))"

definition SIGNING_KEY_SEED_ENV :: string where "SIGNING_KEY_SEED_ENV = ''BLUEECONOMY_SIGNING_KEY_SEED''"
definition SIGNING_KID_ENV :: string where "SIGNING_KID_ENV = ''BLUEECONOMY_SIGNING_KID''"

text \<open>\<open>bytes.fromhex\<close> of lowercase hexadecimal digits.\<close>

fun fromhex :: "string \<Rightarrow> string" where
  "fromhex (h # l # s) = char_of (hex_value h * 16 + hex_value l) # fromhex s"
| "fromhex _ = []"

definition load_signing_key_from_env :: "environ \<Rightarrow> (string \<times> string) res" where
  "load_signing_key_from_env env =
     (let raw_seed = env_get env SIGNING_KEY_SEED_ENV; kid = env_get env SIGNING_KID_ENV in
      bindR (guard (raw_seed \<noteq> [] \<and> raw_seed = strip raw_seed) ValueError
               (SIGNING_KEY_SEED_ENV @ '' must be set to a canonical seed (fail-closed)'')) (\<lambda>_.
      bindR (guard (kid \<noteq> [] \<and> KID_PATTERN kid) ValueError
               (SIGNING_KID_ENV @ '' must be set to a canonical kid (fail-closed)'')) (\<lambda>_.
      bindR (if length raw_seed = 64 \<and> list_all is_hex_lower raw_seed then Inr (fromhex raw_seed)
             else if CHR ''='' \<notin> set raw_seed \<and> length raw_seed = 43 \<and> list_all b64url_char raw_seed
             then urlsafe_b64decode (raw_seed @ ''='')
             else raise ValueError (SIGNING_KEY_SEED_ENV @
               '' must be 64 lowercase hex characters or a 43-character unpadded base64url Ed25519 seed (fail-closed)'')) (\<lambda>seed.
      bindR (guard (length seed = 32) ValueError (SIGNING_KEY_SEED_ENV @ '' must decode to a 32-byte Ed25519 seed'')) (\<lambda>_.
      Inr (seed, kid))))))"

definition sign_envelope_for_test :: "text_codec \<Rightarrow> ed25519 \<Rightarrow> jobject \<Rightarrow> string \<Rightarrow> string \<Rightarrow> string res" where
  "sign_envelope_for_test tx ed envelope private_key kid =
     bindR (require_some (json_obj (jget envelope ''provenance'')) ValueError ''envelope carries no provenance object'') (\<lambda>provenance.
     bindR (sign_document tx ed envelope private_key kid) (\<lambda>signed.
     bindR (jitem signed ''provenance'') (\<lambda>p.
     bindR (require_some (json_obj p) TypeError ''provenance'') (\<lambda>p.
     bindR (jitem p ''signature'') (\<lambda>signature.
     require_some (json_text signature) ValueError ''signing did not produce a provenance signature'')))))"

definition export_public_key_for_test :: "string \<Rightarrow> string" where
  "export_public_key_for_test raw = b64url_encode raw"

definition private_key_from_raw_for_test :: "string \<Rightarrow> string res" where
  "private_key_from_raw_for_test raw =
     bindR (guard (length raw = 32) ValueError ''Ed25519 seed must be 32 bytes'') (\<lambda>_. Inr raw)"

definition logged_event_id :: "jobject \<Rightarrow> string" where
  "logged_event_id envelope = (case jget envelope ''eventId'' of JStr s \<Rightarrow> s | _ \<Rightarrow> ''unknown'')"

section \<open>Base64url round trip\<close>

definition std_b64_char :: "char \<Rightarrow> bool" where
  "std_b64_char c = (is_alnum c \<or> c = CHR ''+'' \<or> c = CHR ''/'')"

lemma b64_char_std: "n < 64 \<Longrightarrow> std_b64_char (b64_char n)"
proof -
  assume n: "n < 64"
  have "list_all (\<lambda>n. std_b64_char (b64_char n)) [0..<64]" by code_simp
  with n show ?thesis by (simp add: list_all_iff del: upt_rec_numeral)
qed

text \<open>The encoded text: letters of the alphabet, then the padding to a multiple of four.\<close>

definition b64_body :: "string \<Rightarrow> string \<Rightarrow> bool" where
  "b64_body b body \<longleftrightarrow> b64encode b = b64_pad body \<and> list_all std_b64_char body \<and> length body mod 4 \<noteq> 1 \<and> (b \<noteq> [] \<longrightarrow> body \<noteq> [])"

lemma b64_pad_append4: "length w = 4 \<Longrightarrow> b64_pad (w @ s) = w @ b64_pad s"
proof -
  assume w: "length w = 4"
  have "(- 4 - x) mod 4 = - x mod 4" for x :: int by presburger
  with w show ?thesis by (simp add: b64_pad_def)
qed

lemma b64encode_body: "\<exists>body. b64_body b body"
proof (induction b rule: b64encode.induct)
  case 1
  show ?case by (rule exI [of _ "[]"]) (simp add: b64_body_def b64_pad_def)
next
  case (2 a)
  note s = split_sextets [OF code_bound [of a] zero_less_numeral zero_less_numeral]
  show ?case
    by (rule exI [of _ "[b64_char (code a div 4), b64_char (code a mod 4 * 16)]"])
       (use s in \<open>simp add: b64_body_def b64_pad_def b64_char_std numeral_2_eq_2\<close>)
next
  case (3 a b)
  note s = split_sextets [OF code_bound [of a] code_bound [of b] zero_less_numeral]
  show ?case
    by (rule exI [of _ "[b64_char (code a div 4), b64_char (code a mod 4 * 16 + code b div 16), b64_char (code b mod 16 * 4)]"])
       (use s in \<open>simp add: b64_body_def b64_pad_def b64_char_std\<close>)
next
  case (4 a b c s)
  then obtain body where body: "b64_body s body" by blast
  note s = split_sextets [OF code_bound [of a] code_bound [of b] code_bound [of c]]
  define w where "w = [b64_char (code a div 4), b64_char (code a mod 4 * 16 + code b div 16),
      b64_char (code b mod 16 * 4 + code c div 64), b64_char (code c mod 64)]"
  have "length w = 4" "list_all std_b64_char w" using s by (simp_all add: w_def b64_char_std)
  moreover have "b64encode (a # b # c # s) = w @ b64encode s" by (simp add: w_def)
  ultimately have "b64_body (a # b # c # s) (w @ body)"
    using body b64_pad_append4 [of w body] by (auto simp: b64_body_def)
  then show ?case by blast
qed

lemma std_to_url: "std_b64_char c \<Longrightarrow> b64url_char (to_url_char c) \<and> from_url_char (to_url_char c) = c \<and> to_url_char c \<noteq> CHR ''=''"
  by (auto simp: std_b64_char_def b64url_char_def to_url_char_def from_url_char_def char_class_defs)

lemma rstrip_replicate: "c \<notin> set s \<Longrightarrow> rstrip_char c (s @ replicate n c) = s"
proof -
  assume "c \<notin> set s"
  then have "dropWhile (\<lambda>x. x = c) (rev s) = rev s" by (cases "rev s") auto
  moreover have "dropWhile (\<lambda>x. x = c) (replicate n c @ rev s) = dropWhile (\<lambda>x. x = c) (rev s)" by (induction n) simp_all
  ultimately show ?thesis by (simp add: rstrip_char_def)
qed

lemma b64url_encode_facts:
  assumes "b \<noteq> []"
  shows "unpadded_b64url (b64url_encode b) \<and> urlsafe_b64decode (b64_pad (b64url_encode b)) = Inr b"
proof -
  from b64encode_body [of b] obtain body where body: "b64encode b = b64_pad body" "list_all std_b64_char body"
    "length body mod 4 \<noteq> 1" "body \<noteq> []" using assms by (auto simp: b64_body_def)
  define u where "u = map to_url_char body"
  from body(2) have std: "std_b64_char c" if "c \<in> set body" for c using that by (simp add: list_all_iff)
  have u: "list_all b64url_char u" "CHR ''='' \<notin> set u" "map from_url_char u = body"
    using std_to_url [OF std] by (force simp: u_def list_all_iff comp_def intro: map_idI)+
  have eq: "map to_url_char (replicate n (CHR ''='')) = replicate n (CHR ''='')" "map from_url_char (replicate n (CHR ''='')) = replicate n (CHR ''='')" for n
    by (simp_all add: to_url_char_def from_url_char_def)
  have e: "b64url_encode b = u"
    unfolding b64url_encode_def body(1) b64_pad_def map_append eq u_def [symmetric] by (rule rstrip_replicate [OF u(2)])
  have "length u = length body" by (simp add: u_def)
  moreover have "map from_url_char (b64_pad u) = b64encode b"
    unfolding b64_pad_def map_append eq u(3) by (simp add: body(1) b64_pad_def \<open>length u = length body\<close>)
  moreover have "filter (\<lambda>c. c \<noteq> CHR ''='') (b64_pad u) = u"
    using u(2) by (auto simp: b64_pad_def filter_id_conv)
  ultimately have "urlsafe_b64decode (b64_pad u) = Inr b"
    using body(3) by (simp add: urlsafe_b64decode_def b64_roundtrip)
  with e u body(4) show ?thesis by (auto simp: unpadded_b64url_def u_def)
qed

lemma decode_encode_base64url: "b \<noteq> [] \<Longrightarrow> decode_base64url (b64url_encode b) what = Inr b"
  using b64url_encode_facts [of b] by (simp add: decode_base64url_def demand_def)

lemma b64url_no_dot: "CHR ''.'' \<notin> set (b64url_encode b)"
proof (cases "b = []")
  case False
  then have "list_all b64url_char (b64url_encode b)" using b64url_encode_facts by (simp add: unpadded_b64url_def)
  then show ?thesis by (auto simp: list_all_iff b64url_char_def char_class_defs)
qed (simp add: b64url_encode_def rstrip_char_def)

lemma utf8_encode_inject: "utf8_encode s = utf8_encode t \<longleftrightarrow> s = t"
  using utf8_prefix_roundtrip [of "CHR ''?''"] by metis

lemma utf8_encode_Nil: "utf8_encode s = [] \<longleftrightarrow> s = []"
  using utf8_encode_inject [of s "[]"] by (simp add: utf8_encode_def)

section \<open>Signed documents verify\<close>

text \<open>
  What the theorems rely on: Ed25519 signatures verify under the public key of their seed and are not empty; the
  UTF-8 decoder inverts the encoder, and \<open>json.loads\<close> reads a protected header back.
\<close>

definition ed25519_contract :: "ed25519 \<Rightarrow> bool" where
  "ed25519_contract ed \<longleftrightarrow> (\<forall>sk m. ed_sign ed sk m \<noteq> [] \<and> ed_verify ed (ed_public ed sk) (ed_sign ed sk m) m)"

definition header_document :: "string \<Rightarrow> json" where
  "header_document kid = JObj [(''alg'', JStr ''EdDSA''), (''kid'', JStr kid)]"

definition codec_contract :: "text_codec \<Rightarrow> bool" where
  "codec_contract tx \<longleftrightarrow> (\<forall>s. tx_decode tx (utf8_encode s) = Some s) \<and>
     (\<forall>kid. KID_PATTERN kid \<longrightarrow> tx_loads tx (dumps_compact (tx_repr tx) False (header_document kid)) = Inr (header_document kid))"

lemma filter_update_other: "filter (\<lambda>(key, value). key \<noteq> k) (AList.update k v d) = filter (\<lambda>(key, value). key \<noteq> k) d"
  by (induction d) auto

lemma signed_document_signed:
  "signed_document (AList.update ''provenance'' x d) (AList.update ''signature'' s p) = signed_document d p"
  by (simp add: signed_document_def filter_update_other)

lemma canonical_object_not_empty: "canonicalize fr (JObj d) = Inr t \<Longrightarrow> t \<noteq> []"
  by (auto simp: bindR_Inr_iff)

lemma jget_update [simp]: "jget (AList.update k v d) k' = (if k' = k then v else jget d k')"
  by (simp add: jget_def)

lemma three_segments:
  assumes "CHR ''.'' \<notin> set h" "CHR ''.'' \<notin> set p" "CHR ''.'' \<notin> set s"
  shows "split_on (CHR ''.'') (h @ ''.'' @ p @ ''.'' @ s) = [h, p, s]"
  using assms by (simp add: split_on_append_sep split_on_no_sep)

lemma sign_document_parts:
  assumes "sign_document tx ed d sk kid = Inr signed"
  obtains provenance t h p s where
    "jget d ''provenance'' = JObj provenance" "canonicalize (tx_repr tx) (signed_document d provenance) = Inr t"
    "h = b64url_encode (utf8_encode (dumps_compact (tx_repr tx) False (header_document kid)))"
    "p = b64url_encode (utf8_encode t)" "s = b64url_encode (ed_sign ed sk (h @ ''.'' @ p))"
    "signed = AList.update ''provenance'' (JObj (AList.update ''signature'' (JStr (h @ ''.'' @ p @ ''.'' @ s)) provenance)) d"
  using assms by (auto simp: sign_document_def header_document_def Let_def bindR_Inr_iff)

lemma signed_document_verifies:
  assumes "ed25519_contract ed" "codec_contract tx" "KID_PATTERN kid" "resolve directory kid = Some (ed_public ed sk)"
    and "sign_document tx ed d sk kid = Inr signed"
  shows "verify_envelope tx ed directory signed = Inr kid"
proof -
  obtain prov t h p s where d: "jget d ''provenance'' = JObj prov" "canonicalize (tx_repr tx) (signed_document d prov) = Inr t"
    and h: "h = b64url_encode (utf8_encode (dumps_compact (tx_repr tx) False (header_document kid)))"
    and p: "p = b64url_encode (utf8_encode t)" and s: "s = b64url_encode (ed_sign ed sk (h @ ''.'' @ p))"
    and signed: "signed = AList.update ''provenance'' (JObj (AList.update ''signature'' (JStr (h @ ''.'' @ p @ ''.'' @ s)) prov)) d"
    using assms(5) by (rule sign_document_parts)
  have split: "split_on (CHR ''.'') (h @ ''.'' @ p @ ''.'' @ s) = [h, p, s]"
    unfolding h p s by (rule three_segments) (rule b64url_no_dot)+
  have "t \<noteq> []" using d(2) unfolding signed_document_def by (rule canonical_object_not_empty)
  then have p': "decode_base64url p what = Inr (utf8_encode t)" for what
    unfolding p by (simp add: decode_encode_base64url utf8_encode_Nil)
  have h': "decode_base64url h what = Inr (utf8_encode (dumps_compact (tx_repr tx) False (header_document kid)))" for what
    unfolding h by (rule decode_encode_base64url) (simp add: utf8_encode_Nil header_document_def Let_def)
  have s': "decode_base64url s what = Inr (ed_sign ed sk (h @ ''.'' @ p))" for what
    unfolding s using assms(1) by (simp add: decode_encode_base64url ed25519_contract_def)
  have "ed_verify ed (ed_public ed sk) (ed_sign ed sk (h @ ''.'' @ p)) (h @ ''.'' @ p)"
    using assms(1) by (simp add: ed25519_contract_def)
  moreover have "protected_header tx (utf8_encode (dumps_compact (tx_repr tx) False (header_document kid))) =
      Inr [(''alg'', JStr ''EdDSA''), (''kid'', JStr kid)]"
    using assms(2,3) by (simp add: codec_contract_def protected_header_def header_document_def)
  ultimately show ?thesis
    using assms(3,4) d(2) unfolding verify_envelope_def signed check_segments_def expected_payload_def
    by (simp add: split h' p' s' header_kid_def demand_def signed_document_signed del: canonicalize.simps append.simps)
qed

section \<open>What an accepted envelope guarantees\<close>

definition authenticated :: "text_codec \<Rightarrow> ed25519 \<Rightarrow> key_directory \<Rightarrow> jobject \<Rightarrow> string \<Rightarrow> bool" where
  "authenticated tx ed directory envelope kid \<longleftrightarrow>
     (\<exists>provenance h p s key payload sig.
        jget envelope ''provenance'' = JObj provenance \<and> jget provenance ''signature'' = JStr (h @ ''.'' @ p @ ''.'' @ s) \<and>
        resolve directory kid = Some key \<and> KID_PATTERN kid \<and>
        canonicalize (tx_repr tx) (signed_document envelope provenance) = Inr payload \<and>
        decode_base64url p ''payload'' = Inr (utf8_encode payload) \<and> decode_base64url s ''signature'' = Inr sig \<and>
        ed_verify ed key sig (h @ ''.'' @ p))"

lemma demand_Inr [simp]: "demand ok reason detail = Inr u \<longleftrightarrow> ok"
  by (simp add: demand_def reject_def)

lemma reject_neq_Inr [simp]: "reject reason detail \<noteq> Inr x"
  by (simp add: reject_def)

lemma split_on_join: "split_on c s = [a, b, d] \<Longrightarrow> s = a @ c # b @ c # d"
proof (induction s arbitrary: a)
  case (Cons x s)
  show ?case
  proof (cases "x = c")
    case True
    with Cons.prems have "a = []" and s: "split_on c s = [b, d]" by auto
    moreover have "split_on c s = [b, d] \<Longrightarrow> s = b @ c # d" for s b d
    proof (induction s arbitrary: b)
      case (Cons y s)
      have one: "split_on c s = [d] \<Longrightarrow> s = d" for s d
        by (induction s arbitrary: d) (auto split: if_splits list.splits)
      from Cons show ?case by (cases "y = c") (auto dest: one split: list.splits)
    qed simp
    ultimately show ?thesis using True by simp
  next
    case False
    with Cons show ?thesis by (auto split: list.splits)
  qed
qed simp

lemma segments_accepted:
  assumes "check_segments tx ed directory envelope provenance h p s = Inr kid"
  shows "\<exists>key payload sig. resolve directory kid = Some key \<and> KID_PATTERN kid \<and>
    canonicalize (tx_repr tx) (signed_document envelope provenance) = Inr payload \<and>
    decode_base64url p ''payload'' = Inr (utf8_encode payload) \<and> decode_base64url s ''signature'' = Inr sig \<and>
    ed_verify ed key sig (h @ ''.'' @ p)"
proof -
  from assms obtain hb pb sb header kid' where
    "decode_base64url p ''payload'' = Inr pb" "decode_base64url s ''signature'' = Inr sb" "header_kid header = Inr kid'"
    and r: "(case resolve directory kid' of
       None \<Rightarrow> reject REASON_UNKNOWN_KID ''kid is not in the key directory''
     | Some public_key \<Rightarrow>
         bindR (expected_payload tx envelope provenance) (\<lambda>expected.
         bindR (demand (pb = expected) REASON_PAYLOAD_MISMATCH ''JWS payload does not match the canonical envelope'') (\<lambda>_.
         bindR (demand (ed_verify ed public_key sb (h @ ''.'' @ p))
                  REASON_INVALID_SIGNATURE ''Ed25519 signature does not verify'') (\<lambda>_.
         Inr kid')))) = Inr kid"
    unfolding check_segments_def bindR_Inr_iff by blast
  moreover from this(3) have "KID_PATTERN kid'" by (auto simp: header_kid_def bindR_Inr_iff split: json.splits)
  moreover from r obtain key where "resolve directory kid' = Some key" "expected_payload tx envelope provenance = Inr pb"
    "ed_verify ed key sb (h @ ''.'' @ p)" "kid' = kid"
    by (auto simp: bindR_Inr_iff split: option.splits)
  moreover from this(2) obtain payload where "canonicalize (tx_repr tx) (signed_document envelope provenance) = Inr payload"
    "pb = utf8_encode payload"
    by (auto simp: expected_payload_def simp del: canonicalize.simps split: sum.splits if_splits)
  ultimately show ?thesis by auto
qed

lemma verified_authenticated:
  assumes "verify_envelope tx ed directory envelope = Inr kid"
  shows "authenticated tx ed directory envelope kid"
proof -
  from assms obtain provenance where p: "jget envelope ''provenance'' = JObj provenance"
    by (auto simp: verify_envelope_def split: json.splits)
  with assms obtain signature where s: "jget provenance ''signature'' = JStr signature"
    by (auto simp: verify_envelope_def split: json.splits)
  from assms p s obtain a b c where split: "split_on (CHR ''.'') signature = [a, b, c]"
    "check_segments tx ed directory envelope provenance a b c = Inr kid"
    by (auto simp: verify_envelope_def split: list.splits)
  have "jget provenance ''signature'' = JStr (a @ ''.'' @ b @ ''.'' @ c)" using s split_on_join [OF split(1)] by simp
  with p segments_accepted [OF split(2)] show ?thesis unfolding authenticated_def by blast
qed

text \<open>The counters: every call that ends in an acceptance or a rejection with a reason counts exactly once.\<close>

lemma verify_counts:
  assumes "verify tx ed directory envelope m = (r, m')"
  shows "case r of
      Inr kid \<Rightarrow> sm_verified m' = sm_verified m + 1 \<and> rejections m' = rejections m
    | Inl e \<Rightarrow> sm_verified m' = sm_verified m \<and>
        (case exn_class e of
           SignatureVerificationError reason \<Rightarrow> rejections m' = (rejections m)(reason := rejections m reason + 1)
         | _ \<Rightarrow> m' = m)"
  using assms
  by (auto simp: verify_def record_verified_def record_rejected_def rejections_def fun_eq_iff split: sum.splits exc_class.splits)

text \<open>
  Claim C2. An envelope is accepted under a key identifier only if the directory holds a key for it under which the
  envelope's own signature verifies over a payload that is exactly the canonical form of the envelope without the
  signature; the acceptance is counted, and so is every rejection under its reason, while other exceptions leave the
  counters alone.
\<close>

theorem verify_sound:
  assumes "verify tx ed directory envelope m = (r, m')"
  shows "case r of
      Inr kid \<Rightarrow> authenticated tx ed directory envelope kid \<and> sm_verified m' = sm_verified m + 1 \<and> rejections m' = rejections m
    | Inl e \<Rightarrow> sm_verified m' = sm_verified m \<and>
        (case exn_class e of
           SignatureVerificationError reason \<Rightarrow> rejections m' = (rejections m)(reason := rejections m reason + 1)
         | _ \<Rightarrow> m' = m)"
proof (cases r)
  case (Inr kid)
  with assms have "verify_envelope tx ed directory envelope = Inr kid" by (auto simp: verify_def split: sum.splits)
  then have "authenticated tx ed directory envelope kid" by (rule verified_authenticated)
  with Inr verify_counts [OF assms] show ?thesis by simp
next
  case (Inl e)
  with verify_counts [OF assms] show ?thesis by simp
qed

text \<open>
  Claim C35. A document signed under a key identifier whose directory entry is the public key of the signing key
  verifies, and the signed copy differs from the document in its provenance only.
\<close>

theorem sign_then_verify:
  assumes "ed25519_contract ed" and "codec_contract tx" and "KID_PATTERN kid"
    and "resolve directory kid = Some (ed_public ed sk)" and "sign_document tx ed d sk kid = Inr signed"
  shows "verify tx ed directory signed m = (Inr kid, record_verified m) \<and> (\<forall>k. k \<noteq> ''provenance'' \<longrightarrow> jget signed k = jget d k)"
proof -
  have "jget signed k = jget d k" if "k \<noteq> ''provenance''" for k
    using sign_document_parts [OF assms(5)] that by (metis jget_update)
  with signed_document_verifies [OF assms] show ?thesis by (simp add: verify_def)
qed

lemma decoded_no_dot: "decode_base64url s what = Inr b \<Longrightarrow> CHR ''.'' \<notin> set s"
  by (auto simp: decode_base64url_def bindR_Inr_iff unpadded_b64url_def list_all_iff b64url_char_def char_class_defs)

lemma same_segments:
  assumes "h @ ''.'' @ p @ ''.'' @ s = h' @ ''.'' @ p' @ ''.'' @ s'"
    and "CHR ''.'' \<notin> set p" "CHR ''.'' \<notin> set p'" "CHR ''.'' \<notin> set s" "CHR ''.'' \<notin> set s'"
  shows "p = p'"
proof -
  from assms(1) have e: "(h @ CHR ''.'' # p) @ CHR ''.'' # s = (h' @ CHR ''.'' # p') @ CHR ''.'' # s'" by simp
  from arg_cong [OF e, of "before_last (CHR ''.'')"] have "h @ CHR ''.'' # p = h' @ CHR ''.'' # p'"
    by (simp only: before_last_append [OF assms(4)] before_last_append [OF assms(5)])
  from arg_cong [OF this, of "after_last (CHR ''.'')"] show ?thesis
    by (simp only: after_last_append [OF assms(2)] after_last_append [OF assms(3)])
qed

lemma authenticated_payload:
  assumes "authenticated tx ed directory e kid" "jget e ''provenance'' = JObj p"
  shows "\<exists>h q s t. jget p ''signature'' = JStr (h @ ''.'' @ q @ ''.'' @ s) \<and> CHR ''.'' \<notin> set q \<and> CHR ''.'' \<notin> set s \<and>
    canonicalize (tx_repr tx) (signed_document e p) = Inr t \<and> decode_base64url q ''payload'' = Inr (utf8_encode t)"
proof -
  from assms obtain h q s key t sig where "jget p ''signature'' = JStr (h @ ''.'' @ q @ ''.'' @ s)"
    "canonicalize (tx_repr tx) (signed_document e p) = Inr t" "decode_base64url q ''payload'' = Inr (utf8_encode t)"
    "decode_base64url s ''signature'' = Inr sig"
    unfolding authenticated_def by auto
  with decoded_no_dot show ?thesis by blast
qed

text \<open>
  A signature binds what it was made for: two envelopes accepted with the same signature text, whatever the
  directories, have the same content, up to the order of members and the spelling of numbers.
\<close>

theorem signature_binds_content:
  assumes "repr_chars (tx_repr tx)"
    and "verify tx ed directory e m = (Inr kid, m1)" and "verify tx ed directory' e' m' = (Inr kid', m1')"
    and "jget e ''provenance'' = JObj p" and "jget e' ''provenance'' = JObj p'"
    and "jget p ''signature'' = jget p' ''signature''"
  shows "content_of (tx_repr tx) (signed_document e p) = content_of (tx_repr tx) (signed_document e' p')"
proof -
  have v: "authenticated tx ed directory e kid" "authenticated tx ed directory' e' kid'"
    using assms(2,3) by (auto simp: verify_def intro: verified_authenticated split: sum.splits)
  obtain h q s t where a: "jget p ''signature'' = JStr (h @ ''.'' @ q @ ''.'' @ s)" "CHR ''.'' \<notin> set q" "CHR ''.'' \<notin> set s"
    "canonicalize (tx_repr tx) (signed_document e p) = Inr t" "decode_base64url q ''payload'' = Inr (utf8_encode t)"
    using authenticated_payload [OF v(1) assms(4)] by blast
  obtain h' q' s' t' where b: "jget p' ''signature'' = JStr (h' @ ''.'' @ q' @ ''.'' @ s')" "CHR ''.'' \<notin> set q'" "CHR ''.'' \<notin> set s'"
    "canonicalize (tx_repr tx) (signed_document e' p') = Inr t'" "decode_base64url q' ''payload'' = Inr (utf8_encode t')"
    using authenticated_payload [OF v(2) assms(5)] by blast
  have "q = q'" by (rule same_segments [of h q s h' q' s']) (use a b assms(6) in simp_all)
  with a(5) b(5) have "t = t'" by (simp add: utf8_encode_inject)
  then show ?thesis using canonical_text_determines [OF assms(1) a(4) b(4)] by simp
qed

section \<open>Witnesses\<close>

definition toy_ed25519 :: ed25519 where
  "toy_ed25519 = \<lparr>ed_public = (\<lambda>sk. sk), ed_sign = (\<lambda>sk m. CHR ''s'' # sk @ m), ed_verify = (\<lambda>pk sig m. sig = CHR ''s'' # pk @ m)\<rparr>"

definition quote :: string where "quote = [CHR 0x22]"

definition header_prefix :: string where
  "header_prefix = ''{'' @ quote @ ''alg'' @ quote @ '':'' @ quote @ ''EdDSA'' @ quote @ '','' @ quote @ ''kid'' @ quote @ '':'' @ quote"

text \<open>A reader of protected headers only; anything else is not JSON to it.\<close>

definition toy_codec :: text_codec where
  "toy_codec = \<lparr>tx_decode = (\<lambda>b. Some (utf8_decode_prefix (CHR ''?'') b)),
     tx_loads = (\<lambda>s. if take 22 s = header_prefix then Inr (header_document (takeWhile kid_char (drop 22 s)))
                     else raise ValueError ''Expecting value''),
     tx_json_error = (\<lambda>e. True), tx_repr = sample_repr\<rparr>"

lemma kid_char_plain: "kid_char c \<Longrightarrow> code c < 127 \<and> json_escape_char c = [c]"
proof -
  assume "kid_char c"
  then have "48 \<le> code c \<and> code c \<le> 57 \<or> 65 \<le> code c \<and> code c \<le> 90 \<or> 97 \<le> code c \<and> code c \<le> 122 \<or>
      code c = 46 \<or> code c = 95 \<or> code c = 45"
    by (auto simp: kid_char_def char_class_defs)
  then show ?thesis by (auto simp: json_escape_char_def Let_def)
qed

lemma kid_ascii: "KID_PATTERN kid \<Longrightarrow> json_ascii_str kid = quote @ kid @ quote"
proof -
  assume "KID_PATTERN kid"
  then have "list_all kid_char kid" by (simp add: KID_PATTERN_def)
  then have "concat (map (\<lambda>c. if code c < 127 then json_escape_char c
      else [char_of (92 :: nat)] @ ''u00'' @ [hex_digit (code c div 16), hex_digit (code c mod 16)]) kid) = kid"
    by (induction kid) (simp_all add: kid_char_plain)
  then show ?thesis by (simp add: json_ascii_str_def quote_def quote_char)
qed

lemma plain_ascii: "json_ascii_str ''alg'' = quote @ ''alg'' @ quote" "json_ascii_str ''kid'' = quote @ ''kid'' @ quote"
  "json_ascii_str ''EdDSA'' = quote @ ''EdDSA'' @ quote"
  by (rule kid_ascii, simp add: KID_PATTERN_def kid_char_def char_class_defs)+

lemma header_text: "KID_PATTERN kid \<Longrightarrow> dumps_compact fr False (header_document kid) = header_prefix @ kid @ quote @ ''}''"
  by (simp add: header_document_def plain_ascii kid_ascii header_prefix_def)

lemma toy_contracts: "ed25519_contract toy_ed25519" "codec_contract toy_codec"
proof -
  show "ed25519_contract toy_ed25519" by (simp add: ed25519_contract_def toy_ed25519_def)
  have "tx_loads toy_codec (dumps_compact (tx_repr toy_codec) False (header_document kid)) = Inr (header_document kid)"
    if k: "KID_PATTERN kid" for kid
  proof -
    have n: "length header_prefix = 22" by (simp add: header_prefix_def quote_def)
    have "takeWhile kid_char (kid @ quote @ ''}'') = kid"
      using k by (auto simp: KID_PATTERN_def list_all_iff takeWhile_append quote_def kid_char_def char_class_defs)
    then show ?thesis using n by (simp add: toy_codec_def header_text [OF k])
  qed
  then show "codec_contract toy_codec" by (simp add: codec_contract_def toy_codec_def utf8_prefix_roundtrip)
qed

definition sample_report :: jobject where
  "sample_report = [(''eventId'', JStr ''e1''), (''provenance'', JObj [(''principalId'', JStr ''p'')]), (''count'', JInt 2)]"

definition reordered_report :: jobject where
  "reordered_report = [(''count'', JInt 2), (''eventId'', JStr ''e1''), (''provenance'', JObj [(''principalId'', JStr ''p'')])]"

definition sample_directory :: key_directory where
  "sample_directory = [(''k1'', ''seed'')]"

lemma sample_key: "KID_PATTERN ''k1''" "resolve sample_directory ''k1'' = Some (ed_public toy_ed25519 ''seed'')"
  by (simp_all add: KID_PATTERN_def kid_char_def char_class_defs resolve_def sample_directory_def toy_ed25519_def)

lemma sample_canonical:
  "canonicalize sample_repr (signed_document sample_report [(''principalId'', JStr ''p'')]) =
   canonicalize sample_repr (signed_document reordered_report [(''principalId'', JStr ''p'')])"
  by (simp add: signed_document_def sample_report_def reordered_report_def utf16_sort_key_def)

text \<open>The compact serialisation over a canonical text, and the copy that carries it.\<close>

definition compact_jws :: "text_codec \<Rightarrow> ed25519 \<Rightarrow> string \<Rightarrow> string \<Rightarrow> string \<Rightarrow> string" where
  "compact_jws tx ed sk kid t =
     (let h = b64url_encode (utf8_encode (dumps_compact (tx_repr tx) False (header_document kid)));
          p = b64url_encode (utf8_encode t)
      in h @ ''.'' @ p @ ''.'' @ b64url_encode (ed_sign ed sk (h @ ''.'' @ p)))"

definition with_signature :: "jobject \<Rightarrow> jobject \<Rightarrow> string \<Rightarrow> jobject" where
  "with_signature d provenance jws =
     AList.update ''provenance'' (JObj (AList.update ''signature'' (JStr jws) provenance)) d"

lemma sign_document_copy:
  assumes "jget d ''provenance'' = JObj provenance" "canonicalize (tx_repr tx) (signed_document d provenance) = Inr t"
  shows "sign_document tx ed d sk kid = Inr (with_signature d provenance (compact_jws tx ed sk kid t))"
  using assms by (simp add: sign_document_def compact_jws_def with_signature_def header_document_def Let_def)

lemma sample_text:
  obtains t where "canonicalize (tx_repr toy_codec) (signed_document sample_report [(''principalId'', JStr ''p'')]) = Inr t"
    "canonicalize (tx_repr toy_codec) (signed_document reordered_report [(''principalId'', JStr ''p'')]) = Inr t"
proof -
  have "\<exists>t. canonicalize sample_repr (signed_document sample_report [(''principalId'', JStr ''p'')]) = Inr t"
    by (simp add: sample_report_def signed_document_def utf16_sort_key_def guard_def)
  with sample_canonical that show ?thesis by (auto simp: toy_codec_def)
qed

lemma sample_provenance: "jget sample_report ''provenance'' = JObj [(''principalId'', JStr ''p'')]"
  "jget reordered_report ''provenance'' = JObj [(''principalId'', JStr ''p'')]"
  by (simp_all add: sample_report_def reordered_report_def)

lemma sample_signed: "\<exists>signed. sign_document toy_codec toy_ed25519 sample_report ''seed'' ''k1'' = Inr signed"
  using sample_text sign_document_copy [OF sample_provenance(1)] by metis

lemma sign_then_verify_witness:
  "\<exists>signed. sign_document toy_codec toy_ed25519 sample_report ''seed'' ''k1'' = Inr signed \<and>
     verify toy_codec toy_ed25519 sample_directory signed new_metrics = (Inr ''k1'', record_verified new_metrics)"
  using sample_signed sign_then_verify [OF toy_contracts sample_key] by blast

lemma verify_sound_witness:
  "\<exists>r m'. verify toy_codec toy_ed25519 sample_directory [] new_metrics = (r, m') \<and> sm_verified m' = 0 \<and>
     rejections m' REASON_MALFORMED_JWS = 1"
proof -
  have v: "verify toy_codec toy_ed25519 sample_directory [] new_metrics =
      (reject REASON_MALFORMED_JWS ''envelope carries no provenance object'', record_rejected REASON_MALFORMED_JWS new_metrics)"
    by (simp add: verify_def verify_envelope_def reject_def signature_error_def)
  have "sm_verified new_metrics = 0" "rejections new_metrics = (\<lambda>_. 0)"
    by (simp_all add: new_metrics_def rejections_def fun_eq_iff)
  with verify_sound [OF v] show ?thesis unfolding v by (simp add: reject_def signature_error_def)
qed

lemma signature_binds_content_witness:
  "\<exists>e e' p p'. e \<noteq> e' \<and> jget e ''provenance'' = JObj p \<and> jget e' ''provenance'' = JObj p' \<and>
     content_of (tx_repr toy_codec) (signed_document e p) = content_of (tx_repr toy_codec) (signed_document e' p')"
proof -
  obtain t where t: "canonicalize (tx_repr toy_codec) (signed_document sample_report [(''principalId'', JStr ''p'')]) = Inr t"
    "canonicalize (tx_repr toy_codec) (signed_document reordered_report [(''principalId'', JStr ''p'')]) = Inr t"
    by (rule sample_text)
  let ?jws = "compact_jws toy_codec toy_ed25519 ''seed'' ''k1'' t"
  let ?x = "with_signature sample_report [(''principalId'', JStr ''p'')] ?jws"
  let ?y = "with_signature reordered_report [(''principalId'', JStr ''p'')] ?jws"
  let ?p = "AList.update ''signature'' (JStr ?jws) [(''principalId'', JStr ''p'')]"
  have s: "sign_document toy_codec toy_ed25519 sample_report ''seed'' ''k1'' = Inr ?x"
    "sign_document toy_codec toy_ed25519 reordered_report ''seed'' ''k1'' = Inr ?y"
    using sign_document_copy [OF sample_provenance(1) t(1)] sign_document_copy [OF sample_provenance(2) t(2)] by blast+
  have v: "verify toy_codec toy_ed25519 sample_directory ?x new_metrics = (Inr ''k1'', record_verified new_metrics)"
    "verify toy_codec toy_ed25519 sample_directory ?y new_metrics = (Inr ''k1'', record_verified new_metrics)"
    using signed_document_verifies [OF toy_contracts sample_key s(1)] signed_document_verifies [OF toy_contracts sample_key s(2)]
    by (simp_all add: verify_def)
  have p: "jget ?x ''provenance'' = JObj ?p" "jget ?y ''provenance'' = JObj ?p" by (simp_all add: with_signature_def)
  have "repr_chars (tx_repr toy_codec)" by (simp add: toy_codec_def sample_repr_chars)
  from signature_binds_content [OF this v p refl]
  have "content_of (tx_repr toy_codec) (signed_document ?x ?p) = content_of (tx_repr toy_codec) (signed_document ?y ?p)" .
  moreover have "?x \<noteq> ?y" by (simp add: with_signature_def sample_report_def reordered_report_def)
  ultimately show ?thesis using p by blast
qed

section \<open>Loaded keys\<close>

lemma add_key_Inr:
  assumes "add_key keys (kid, encoded) = Inr keys'"
  shows "\<exists>s raw. encoded = JStr s \<and> unpadded_b64url s \<and> urlsafe_b64decode (b64_pad s) = Inr raw \<and> length raw = 32 \<and>
    KID_PATTERN kid \<and> keys' = AList.update kid raw keys"
proof -
  from assms obtain s where s: "encoded = JStr s" "unpadded_b64url s" "KID_PATTERN kid"
    by (auto simp: add_key_def bindR_Inr_iff)
  with assms show ?thesis
    by (cases "urlsafe_b64decode (b64_pad s)")
       (auto simp: add_key_def bindR_Inr_iff ED25519_PUBLIC_KEY_BYTES_def split: if_splits)
qed

definition keys_from :: "jobject \<Rightarrow> key_directory \<Rightarrow> bool" where
  "keys_from d keys \<longleftrightarrow> distinct (map fst keys) \<and> fst ` set keys = fst ` set d \<and>
     (\<forall>(kid, key) \<in> set keys. KID_PATTERN kid \<and> length key = 32 \<and>
        (\<exists>s. (kid, JStr s) \<in> set d \<and> unpadded_b64url s \<and> urlsafe_b64decode (b64_pad s) = Inr key))"

lemma keys_from_step:
  assumes "keys_from d keys" "add_key keys entry = Inr keys'"
  shows "keys_from (d @ [entry]) keys'"
proof -
  obtain kid encoded where e: "entry = (kid, encoded)" by (cases entry)
  from add_key_Inr [OF assms(2) [unfolded e]] obtain s raw where k: "encoded = JStr s" "unpadded_b64url s"
    "urlsafe_b64decode (b64_pad s) = Inr raw" "length raw = 32" "KID_PATTERN kid" "keys' = AList.update kid raw keys" by blast
  have "distinct (map fst keys')" using assms(1) k(6) by (auto simp: keys_from_def intro: distinct_keys_update)
  moreover have "fst ` set keys' = fst ` set (d @ [entry])" using assms(1) k(6) e by (simp add: keys_from_def set_keys_update)
  moreover have "KID_PATTERN kid' \<and> length key = 32 \<and> (\<exists>s. (kid', JStr s) \<in> set (d @ [entry]) \<and> unpadded_b64url s \<and>
      urlsafe_b64decode (b64_pad s) = Inr key)" if "(kid', key) \<in> set keys'" for kid' key
  proof -
    have "map_of keys' kid' = Some key" using that \<open>distinct (map fst keys')\<close> by simp
    then consider "kid' = kid" "key = raw" | "(kid', key) \<in> set keys"
      by (auto simp: k(6) split: if_splits dest: map_of_SomeD)
    then show ?thesis
    proof cases
      case 1
      with k e show ?thesis by auto
    next
      case 2
      with assms(1) show ?thesis by (fastforce simp: keys_from_def)
    qed
  qed
  ultimately show ?thesis unfolding keys_from_def by blast
qed

text \<open>
  A key directory that loads comes from a regular file within the size bounds whose JSON object it mirrors:
  the same key identifiers, each of the allowed form, each with the 32 bytes its base64url text decodes to.
\<close>

theorem load_key_directory_sound:
  assumes "load_key_directory tx f = Inr keys"
  shows "kf_is_file f \<and> \<not> kf_is_symlink f \<and> kf_size f \<le> 1048576 \<and>
    (\<exists>s d. kf_text f = Some s \<and> tx_loads tx s = Inr (JObj d) \<and> keys_from d keys \<and> keys \<noteq> [])"
proof -
  have "\<exists>s d. kf_is_file f \<and> \<not> kf_is_symlink f \<and> kf_size f \<le> 1048576 \<and> kf_text f = Some s \<and> tx_loads tx s = Inr (JObj d) \<and>
      d \<noteq> [] \<and> foldR add_key [] d = Inr keys"
  proof -
    from assms obtain s where s: "kf_text f = Some s" by (auto simp: load_key_directory_def bindR_Inr_iff)
    with assms show ?thesis
      by (cases "tx_loads tx s") (auto simp: load_key_directory_def bindR_Inr_iff MAX_KEY_DIRECTORY_BYTES_def split: if_splits)
  qed
  then obtain s d where f: "kf_is_file f" "\<not> kf_is_symlink f" "kf_size f \<le> 1048576"
    and t: "kf_text f = Some s" "tx_loads tx s = Inr (JObj d)" "d \<noteq> []" "foldR add_key [] d = Inr keys"
    by blast
  have "keys_from d keys"
    using t(4)
  proof (rule foldR_prefix_inv)
    show "keys_from [] []" by (simp add: keys_from_def)
  qed (rule keys_from_step)
  moreover from this t(3) have "keys \<noteq> []" by (auto simp: keys_from_def)
  ultimately show ?thesis using f t by blast
qed

definition sample_key_file :: key_file where
  "sample_key_file = \<lparr>kf_is_file = True, kf_is_symlink = False, kf_size = 60, kf_text = Some ''keys''\<rparr>"

definition key_codec :: text_codec where
  "key_codec = toy_codec\<lparr>tx_loads := \<lambda>s. Inr (JObj [(''k1'', JStr (replicate 43 (CHR ''A'')))])\<rparr>"

lemma sample_loaded: "load_key_directory key_codec sample_key_file = Inr [(''k1'', replicate 32 (char_of (0 :: nat)))]"
  by code_simp

lemma load_key_directory_sound_witness:
  "keys_from [(''k1'', JStr (replicate 43 (CHR ''A'')))] [(''k1'', replicate 32 (char_of (0 :: nat)))]"
  using load_key_directory_sound [OF sample_loaded] by (simp add: key_codec_def)

section \<open>The signing key\<close>

definition to_hex :: "string \<Rightarrow> string" where
  "to_hex b = concat (map (\<lambda>c. [hex_digit (code c div 16), hex_digit (code c mod 16)]) b)"

lemma hex_digit_lower: "n < 16 \<Longrightarrow> is_hex_lower (hex_digit n)"
  by (auto simp: hex_digit_def is_hex_lower_def is_digit_def)

lemma to_hex_facts: "fromhex (to_hex b) = b" "length (to_hex b) = 2 * length b" "list_all is_hex_lower (to_hex b)"
proof -
  have n: "code c div 16 < 16" "code c mod 16 < 16" for c using code_bound [of c] by auto
  show "fromhex (to_hex b) = b"
    using n by (induction b) (simp_all add: to_hex_def hex_value_digit char_of_code)
  show "length (to_hex b) = 2 * length b" by (induction b) (simp_all add: to_hex_def)
  show "list_all is_hex_lower (to_hex b)" using n by (induction b) (simp_all add: to_hex_def hex_digit_lower)
qed

text \<open>The number of letters that encode a text.\<close>

lemma b64_letters: "length (filter (\<lambda>c. c \<noteq> CHR ''='') (b64encode b)) = (4 * length b + 2) div 3"
proof (induction b rule: b64encode.induct)
  case (2 a)
  note s = split_sextets [OF code_bound [of a] zero_less_numeral zero_less_numeral]
  then show ?case by (simp add: b64_index_char)
next
  case (3 a b)
  note s = split_sextets [OF code_bound [of a] code_bound [of b] zero_less_numeral]
  then show ?case by (simp add: b64_index_char)
next
  case (4 a b c s)
  note s = split_sextets [OF code_bound [of a] code_bound [of b] code_bound [of c]]
  have "length (filter (\<lambda>c. c \<noteq> CHR ''='') (b64encode (a # b # c # s))) = 4 + (4 * length s + 2) div 3"
    using 4 s(1-4) by (simp add: b64_index_char)
  moreover have "(4 * (n + 3) + 2) div 3 = 4 + (4 * n + 2) div 3" for n :: nat by presburger
  moreover have "length (a # b # c # s) = length s + 3" by simp
  ultimately show ?case by (simp only:)
qed simp

lemma b64url_length:
  assumes "b \<noteq> []"
  shows "length (b64url_encode b) = (4 * length b + 2) div 3"
proof -
  from b64encode_body [of b] obtain body where body: "b64encode b = b64_pad body" "list_all std_b64_char body"
    by (auto simp: b64_body_def)
  have "\<not> std_b64_char (CHR ''='')" by (simp add: std_b64_char_def char_class_defs)
  then have "CHR ''='' \<notin> set body" using body(2) by (auto simp: list_all_iff)
  then have f: "filter (\<lambda>c. c \<noteq> CHR ''='') (b64encode b) = body" by (auto simp: body(1) b64_pad_def filter_id_conv)
  have "CHR ''='' \<notin> set (map to_url_char body)" using std_to_url body(2) by (fastforce simp: list_all_iff)
  then have "rstrip_char (CHR ''='') (map to_url_char body @ replicate n (CHR ''='')) = map to_url_char body" for n
    by (rule rstrip_replicate)
  then have "b64url_encode b = map to_url_char body"
    by (simp add: b64url_encode_def body(1) b64_pad_def to_url_char_def)
  with f b64_letters [of b] show ?thesis by simp
qed

lemma b64url_not_space: "b64url_char c \<Longrightarrow> \<not> py_space c"
  by (auto simp: b64url_char_def char_class_defs)

lemma seed_not_space: "list_all b64url_char s \<Longrightarrow> s \<noteq> [] \<Longrightarrow> s = strip s"
  using strip_id [of s] hd_in_set [of s] last_in_set [of s] b64url_not_space by (simp add: list_all_iff)

lemma hex_b64url: "is_hex_lower c \<Longrightarrow> b64url_char c"
  by (auto simp: b64url_char_def char_class_defs)

text \<open>
  A signing key that loads has a 32-byte seed and a key identifier of the allowed form, and every seed can be
  given in both documented spellings, hexadecimal and base64url, with the same result.
\<close>

theorem load_signing_key_spellings:
  assumes "length seed = 32" and "KID_PATTERN kid" and "env_get env SIGNING_KID_ENV = kid"
    and "env_get env SIGNING_KEY_SEED_ENV \<in> {to_hex seed, b64url_encode seed}"
  shows "load_signing_key_from_env env = Inr (seed, kid) \<and>
    (\<forall>env' seed' kid'. load_signing_key_from_env env' = Inr (seed', kid') \<longrightarrow> length seed' = 32 \<and> KID_PATTERN kid')"
proof
  let ?raw = "env_get env SIGNING_KEY_SEED_ENV"
  have k: "kid \<noteq> []" using assms(2) by (auto simp: KID_PATTERN_def)
  show "load_signing_key_from_env env = Inr (seed, kid)"
  proof (cases "?raw = to_hex seed")
    case True
    have l: "length ?raw = 64" "list_all is_hex_lower ?raw" using True to_hex_facts [of seed] assms(1) by simp_all
    have "to_hex seed \<noteq> []" using l(1) True by auto
    moreover have "?raw = strip ?raw" by (rule seed_not_space) (use l hex_b64url in \<open>auto simp: list_all_iff\<close>)
    ultimately show ?thesis using l True k assms(1,2,3) to_hex_facts(1) [of seed] by (auto simp: load_signing_key_from_env_def)
  next
    case False
    then have r: "?raw = b64url_encode seed" using assms(4) by simp
    have s: "seed \<noteq> []" using assms(1) by auto
    have l: "length ?raw = 43" using b64url_length [OF s] assms(1) r by simp
    have u: "unpadded_b64url ?raw" "urlsafe_b64decode (?raw @ ''='') = Inr seed"
      using b64url_encode_facts [OF s] r l by (simp_all add: b64_pad_def)
    then have "?raw = strip ?raw" by (intro seed_not_space) (simp_all add: unpadded_b64url_def)
    with l u k assms(1,2,3) show ?thesis by (auto simp: load_signing_key_from_env_def unpadded_b64url_def)
  qed
  show "\<forall>env' seed' kid'. load_signing_key_from_env env' = Inr (seed', kid') \<longrightarrow> length seed' = 32 \<and> KID_PATTERN kid'"
    by (auto simp: load_signing_key_from_env_def Let_def bindR_Inr_iff)
qed

lemma load_signing_key_spellings_witness:
  "load_signing_key_from_env [(SIGNING_KEY_SEED_ENV, to_hex (replicate 32 (CHR ''s''))), (SIGNING_KID_ENV, ''k1'')] =
   Inr (replicate 32 (CHR ''s''), ''k1'')"
  by (rule load_signing_key_spellings [THEN conjunct1])
     (simp_all add: sample_key env_get_def SIGNING_KEY_SEED_ENV_def SIGNING_KID_ENV_def)

end
