(* ===== verification/Authenticated_Ingest.thy ===== *)
theory Authenticated_Ingest
  imports Kafka_Ingest Signature
begin

text \<open>
  The Kafka consumer with the envelope signature verifier plugged in: what is collected into a batch was
  authenticated.  The verifier's counters are a part of the world that \<open>get\<close> reads and \<open>put\<close> writes.
\<close>

definition signature_verifier :: "text_codec \<Rightarrow> ed25519 \<Rightarrow> key_directory \<Rightarrow> ('w \<Rightarrow> signature_metrics) \<Rightarrow>
    (signature_metrics \<Rightarrow> 'w \<Rightarrow> 'w) \<Rightarrow> json \<Rightarrow> ('w, unit) act" where
  "signature_verifier tx ed directory get put signed_view w =
     (case signed_view of
        JObj envelope \<Rightarrow>
          (case verify tx ed directory envelope (get w) of (r, m) \<Rightarrow> (bindR r (\<lambda>_. Inr ()), put m w))
      | _ \<Rightarrow> (raise AttributeError ''get'', w))"

lemma signature_verifier_Inr:
  assumes "signature_verifier tx ed directory get put v w = (Inr u, w')"
  shows "\<exists>envelope kid. v = JObj envelope \<and> authenticated tx ed directory envelope kid"
proof -
  from assms obtain envelope where v: "v = JObj envelope" by (cases v) (auto simp: signature_verifier_def)
  obtain r m where rm: "verify tx ed directory envelope (get w) = (r, m)" by (cases "verify tx ed directory envelope (get w)")
  with assms v obtain kid where "r = Inr kid" by (cases r) (auto simp: signature_verifier_def)
  with rm have "verify_envelope tx ed directory envelope = Inr kid" by (auto simp: verify_def split: sum.splits)
  with v verified_authenticated show ?thesis by blast
qed

section \<open>What a batch is made of\<close>

definition decoded_from :: "(string option \<Rightarrow> ('w, row) act) \<Rightarrow> collected \<Rightarrow> bool" where
  "decoded_from decode st \<longleftrightarrow>
     (\<forall>e\<in>set (col_events st). \<exists>m\<in>set (col_messages st). \<exists>w0 w1. decode (msg_value m) w0 = (Inr e, w1))"

lemma take_message_decoded:
  assumes "take_message decode sink st m w = (Inr st', w')" "decoded_from decode st"
  shows "decoded_from decode st'"
proof (cases "decode_new decode st m w")
  case (Pair r w1)
  show ?thesis
  proof (cases r)
    case (Inl x)
    with Pair assms(1) have "quarantine_message sink st m x w1 = (Inr st', w')"
      by (auto simp: take_message_def split: if_splits)
    then have "col_events st' = col_events st \<and> col_messages st' = col_messages st @ [m]"
      by (auto simp: quarantine_message_def bindA_Inr split: option.splits)
    with assms(2) show ?thesis by (auto simp: decoded_from_def)
  next
    case (Inr p)
    obtain e k where p: "p = (e, k)" by (cases p)
    with Pair Inr obtain w0 w2 where d: "decode (msg_value m) w0 = (Inr e, w2)"
      by (auto simp: decode_new_def bindA_Inr)
    from Pair Inr p assms(1) have "col_events st' = col_events st @ [e] \<and> col_messages st' = col_messages st @ [m]"
      by (auto simp: take_message_def)
    with assms(2) d show ?thesis by (auto simp: decoded_from_def)
  qed
qed

lemma collected_decoded:
  assumes "collect_messages con decode sink maximum idle w = Some (Inr b, w')"
  shows "decoded_from decode b"
proof -
  obtain now w1 where n: "con_monotonic con w = (now, w1)" by fastforce
  with assms obtain r w2 where l: "collect_loop con decode sink maximum idle
      \<lparr>col_events = [], col_messages = [], col_ids = [], col_reasons = []\<rparr> (now + idle) w1 = Some (r, w2)"
    and b: "r = Inr b"
    by (auto simp: collect_messages_def bindR_Inr_iff)
  have "\<forall>b. r = Inr b \<longrightarrow> decoded_from decode b"
  proof (rule collect_loop_rule [OF l, where I = "\<lambda>st w. decoded_from decode st" and Q = "\<lambda>r w. \<forall>b. r = Inr b \<longrightarrow> decoded_from decode b"])
    show "decoded_from decode \<lparr>col_events = [], col_messages = [], col_ids = [], col_reasons = []\<rparr>" by (simp add: decoded_from_def)
  next
    fix st d w st' d' w' assume "decoded_from decode st" "loop_step con decode sink maximum idle st d w = Again st' d' w'"
    then show "decoded_from decode st'" by (elim loop_step_Again) (auto intro: take_message_decoded)
  next
    fix st d w r w' assume "decoded_from decode st" "loop_step con decode sink maximum idle st d w = Finished r w'"
    then show "\<forall>b. r = Inr b \<longrightarrow> decoded_from decode b" by (auto dest: loop_step_Finished)
  qed
  with b show ?thesis by blast
qed

section \<open>The interface of a verifier\<close>

text \<open>What the consumer relies on: a verifier that returns has found the signed view authentic.\<close>

locale view_verifier =
  fixes check :: "json \<Rightarrow> ('w, unit) act"
    and authentic :: "json \<Rightarrow> bool"
  assumes check_sound: "check v w = (Inr u, w') \<Longrightarrow> authentic v"
begin

lemma decoded_event:
  assumes "decode_event rt d check value w = (Inr e, w')"
  shows "\<exists>doc v event now. parse_message d value = Inr (doc, v) \<and> authentic v \<and>
    map_canonical_envelope doc = Inr event \<and> normalize_event (rt_fr rt) now event = Inr e"
proof -
  from assms obtain doc v w1 w2 event now where "parse_message d value = Inr (doc, v)"
    "check v w1 = (Inr (), w2)" "map_canonical_envelope doc = Inr event" "normalize_event (rt_fr rt) now event = Inr e"
    by (auto simp: decode_event_def decode_document_def bindA_Inr split: prod.splits)
  moreover from check_sound [OF this(2)] have "authentic v" .
  ultimately show ?thesis by blast
qed

lemma collected_events:
  assumes "collect_messages con (decode_event rt d check) sink maximum idle w = Some (Inr b, w')" and "e \<in> set (col_events b)"
  shows "\<exists>m\<in>set (col_messages b). \<exists>doc v event now. parse_message d (msg_value m) = Inr (doc, v) \<and> authentic v \<and>
    map_canonical_envelope doc = Inr event \<and> normalize_event (rt_fr rt) now event = Inr e"
proof -
  from collected_decoded [OF assms(1)] assms(2) obtain m w0 w1 where m: "m \<in> set (col_messages b)"
    "decode_event rt d check (msg_value m) w0 = (Inr e, w1)"
    by (auto simp: decoded_from_def)
  from decoded_event [OF m(2)] m(1) show ?thesis by blast
qed

end

interpretation signatures: view_verifier "signature_verifier tx ed directory get put"
    "\<lambda>v. \<exists>envelope kid. v = JObj envelope \<and> authenticated tx ed directory envelope kid"
  for tx ed directory get put
  by unfold_locales (rule signature_verifier_Inr)

text \<open>
  Claim C18. Whatever the broker delivers, every event that a collected batch holds comes from one of its messages whose
  signed view was authenticated against the key directory, and is the governed row of that message's document.
\<close>

theorem collected_events_authenticated:
  assumes "collect_messages con (decode_event rt d (signature_verifier tx ed directory get put)) sink maximum idle w = Some (Inr b, w')"
    and "e \<in> set (col_events b)"
  shows "\<exists>m\<in>set (col_messages b). \<exists>doc view kid event now. parse_message d (msg_value m) = Inr (doc, JObj view) \<and>
    authenticated tx ed directory view kid \<and> map_canonical_envelope doc = Inr event \<and>
    normalize_event (rt_fr rt) now event = Inr e"
  using signatures.collected_events [OF assms] by blast

section \<open>Witness\<close>

definition signed_envelope :: jobject where
  "signed_envelope =
     (case sign_document toy_codec toy_ed25519 sample_envelope ''seed'' ''k1'' of Inr s \<Rightarrow> s | Inl e \<Rightarrow> [])"

definition signed_decoder :: decoder where
  "signed_decoder = \<lparr>dec_utf8 = Some, dec_loads = (\<lambda>s. Inr (JObj sample_envelope)), dec_loads_float = (\<lambda>s. Inr (JObj signed_envelope)),
     dec_errors = (\<lambda>j. [])\<rparr>"

abbreviation (input) kw_signatures :: "json \<Rightarrow> (kworld, unit) act" where
  "kw_signatures \<equiv> signature_verifier toy_codec toy_ed25519 sample_directory (\<lambda>w. new_metrics) (\<lambda>m w. w)"

abbreviation (input) kw_decode :: "string option \<Rightarrow> (kworld, row) act" where
  "kw_decode \<equiv> decode_event kw_runtime signed_decoder kw_signatures"

abbreviation (input) kw_sink :: "kworld sink" where
  "kw_sink \<equiv> quarantine kw_runtime kw_producer kw_delta (dead_letters sample_arguments)"

lemma signed_envelope_verifies: "verify_envelope toy_codec toy_ed25519 sample_directory signed_envelope = Inr ''k1''"
proof -
  have "\<exists>t. canonicalize sample_repr (signed_document sample_envelope [(''ledgerCommitHash'', JStr ''abc'')]) = Inr t"
    by (simp add: sample_envelope_def signed_document_def utf16_sort_key_def guard_def)
  moreover have "jget sample_envelope ''provenance'' = JObj [(''ledgerCommitHash'', JStr ''abc'')]"
    by (simp add: sample_envelope_def)
  ultimately have "\<exists>s. sign_document toy_codec toy_ed25519 sample_envelope ''seed'' ''k1'' = Inr s"
    by (auto simp: sign_document_def toy_codec_def Let_def simp del: canonicalize.simps)
  then obtain s where s: "sign_document toy_codec toy_ed25519 sample_envelope ''seed'' ''k1'' = Inr s" by blast
  then have "signed_envelope = s" by (simp add: signed_envelope_def)
  with signed_document_verifies [OF toy_contracts sample_key s] show ?thesis by simp
qed

lemma sample_row:
  obtains event r where "map_canonical_envelope sample_envelope = Inr event" "normalize_event (rt_fr kw_runtime) 0 event = Inr r"
    "row_item r ''event_id'' = Inr (CText ''e-1'')"
proof -
  have "is_ok (bindR (bindR (map_canonical_envelope sample_envelope) (normalize_event (\<lambda>q. []) 0))
      (\<lambda>r. guard (row_item r ''event_id'' = Inr (CText ''e-1'')) ValueError []))" by code_simp
  then show ?thesis using that by (auto simp: is_ok_iff bindR_Inr_iff kw_runtime_def)
qed

lemma sample_decoded:
  obtains r where "\<forall>w. kw_decode (Some ''{}'') w = (Inr r, w)" "row_item r ''event_id'' = Inr (CText ''e-1'')"
proof -
  obtain event r where r: "map_canonical_envelope sample_envelope = Inr event" "normalize_event (rt_fr kw_runtime) 0 event = Inr r"
    "row_item r ''event_id'' = Inr (CText ''e-1'')" by (rule sample_row)
  have p: "parse_message signed_decoder (Some ''{}'') = Inr (sample_envelope, JObj signed_envelope)"
    by (simp add: parse_message_def signed_decoder_def MAX_LINE_BYTES_def)
  have "kw_signatures (JObj signed_envelope) w = (Inr (), w)" for w
    by (simp add: signature_verifier_def verify_def signed_envelope_verifies)
  then have "kw_decode (Some ''{}'') w = (Inr r, w)" for w
    using p r by (simp add: decode_event_def decode_document_def bindA_def pureA_def read_clock_def kw_runtime_def)
  with r(3) that show ?thesis by blast
qed

definition signed_message :: kafka_message where
  "signed_message = poison\<lparr>msg_value := Some ''{}''\<rparr>"

text \<open>One message, decoded in place, makes a batch of one event, whatever the decoder.\<close>

lemma one_message_collected:
  fixes decode :: "string option \<Rightarrow> (kworld, row) act"
  assumes "\<forall>w. decode (Some ''{}'') w = (Inr r, w)" "row_item r ''event_id'' = Inr k"
  shows "collect_messages kw_consumer decode sink 1 1 (kw_initial\<lparr>kw_queue := [signed_message]\<rparr>) =
    Some (Inr \<lparr>col_events = [r], col_messages = [signed_message], col_ids = [k], col_reasons = []\<rparr>,
      kw_initial\<lparr>kw_queue := [], kw_time := 1\<rparr>)"
proof -
  have m: "msg_value signed_message = Some ''{}''" "msg_error signed_message = None"
    by (simp_all add: signed_message_def poison_def)
  let ?w = "kw_initial\<lparr>kw_queue := [signed_message]\<rparr>"
  let ?st = "\<lparr>col_events = [], col_messages = [], col_ids = [], col_reasons = []\<rparr>"
  let ?st1 = "\<lparr>col_events = [r], col_messages = [signed_message], col_ids = [k], col_reasons = []\<rparr>"
  have "decode_new decode ?st signed_message w = (Inr (r, k), w)" for w
    by (simp add: decode_new_def bindA_def pureA_def assms m)
  then have t: "take_message decode sink ?st signed_message w = (Inr ?st1, w)" for w
    by (simp add: take_message_def)
  have step1: "loop_step kw_consumer decode sink 1 1 ?st 1 ?w = Again ?st1 2 (kw_initial\<lparr>kw_queue := [], kw_time := 1\<rparr>)"
    using t by (simp add: loop_step_def kw_consumer_def kw_initial_def m(2))
  have step2: "loop_step kw_consumer decode sink 1 1 ?st1 d w = Finished (Inr ?st1) w" for d w
    by (simp add: loop_step_def)
  have "collect_fuel 2 kw_consumer decode sink 1 1 ?st 1 ?w = Some (Inr ?st1, kw_initial\<lparr>kw_queue := [], kw_time := 1\<rparr>)"
    by (simp add: numeral_2_eq_2 step1 step2)
  note l = collect_loop_fuel [OF this]
  have "con_monotonic kw_consumer ?w = (0, ?w)" by (simp add: kw_consumer_def kw_initial_def)
  with l show ?thesis by (simp add: collect_messages_def)
qed

lemma sample_collected:
  obtains b w' where "collect_messages kw_consumer kw_decode kw_sink 1 1 (kw_initial\<lparr>kw_queue := [signed_message]\<rparr>) = Some (Inr b, w')"
    "col_events b \<noteq> []"
proof -
  obtain r where r: "\<forall>w. kw_decode (Some ''{}'') w = (Inr r, w)" "row_item r ''event_id'' = Inr (CText ''e-1'')"
    by (rule sample_decoded)
  from one_message_collected [where decode = kw_decode and r = r and k = "CText ''e-1''", OF r] show ?thesis by (rule that) simp
qed

lemma collected_events_authenticated_witness:
  "\<exists>b w' e view kid. collect_messages kw_consumer kw_decode kw_sink 1 1 (kw_initial\<lparr>kw_queue := [signed_message]\<rparr>) = Some (Inr b, w') \<and>
     e \<in> set (col_events b) \<and> authenticated toy_codec toy_ed25519 sample_directory view kid"
proof -
  obtain b w' where b: "collect_messages kw_consumer kw_decode kw_sink 1 1 (kw_initial\<lparr>kw_queue := [signed_message]\<rparr>) = Some (Inr b, w')"
    "col_events b \<noteq> []" by (rule sample_collected)
  then have e: "hd (col_events b) \<in> set (col_events b)" by simp
  from collected_events_authenticated [OF b(1) e] b(1) e show ?thesis by blast
qed

end
