(* ===== verification/Py_Round.thy ===== *)
theory Py_Round
  imports Py_Float
begin

text \<open>
  The rest of the arithmetic the statistics use: multiplication and division of doubles, \<open>round(x, 6)\<close>, the
  compensated \<open>sum\<close> of CPython 3.12, the length of a \<open>timedelta\<close> in seconds, and sorting by value.
\<close>

fun fl_abs :: "pyfloat \<Rightarrow> pyfloat" where
  "fl_abs (PFin a) = PFin \<bar>a\<bar>"
| "fl_abs PNegInf = PInf"
| "fl_abs f = f"

fun fl_sign :: "pyfloat \<Rightarrow> rat" where
  "fl_sign (PFin a) = sgn a"
| "fl_sign PInf = 1"
| "fl_sign PNegInf = - 1"
| "fl_sign PNaN = 0"

definition fl_inf :: "rat \<Rightarrow> pyfloat" where
  "fl_inf s = (if 0 < s then PInf else if s < 0 then PNegInf else PNaN)"

fun fl_mul :: "pyfloat \<Rightarrow> pyfloat \<Rightarrow> pyfloat" where
  "fl_mul (PFin a) (PFin b) = round_double (a * b)"
| "fl_mul PNaN b = PNaN"
| "fl_mul a PNaN = PNaN"
| "fl_mul a b = fl_inf (fl_sign a * fl_sign b)"

text \<open>\<open>a / b\<close>: a zero divisor raises whatever the dividend.\<close>

fun fl_div :: "pyfloat \<Rightarrow> pyfloat \<Rightarrow> pyfloat res" where
  "fl_div a (PFin b) =
     (if b = 0 then raise OtherError ''float division by zero''
      else Inr (case a of PFin x \<Rightarrow> round_double (x / b) | PNaN \<Rightarrow> PNaN | _ \<Rightarrow> fl_inf (fl_sign a * sgn b)))"
| "fl_div a PNaN = Inr PNaN"
| "fl_div a b = Inr (case a of PFin x \<Rightarrow> PFin 0 | _ \<Rightarrow> PNaN)"

text \<open>\<open>round(x, 6)\<close>: the exact value to six decimals, ties to even, and the nearest double of that.\<close>

fun round6 :: "pyfloat \<Rightarrow> pyfloat" where
  "round6 (PFin q) = round_double (of_int (round_half_even (q * 1000000)) / 1000000)"
| "round6 f = f"

text \<open>The loop of \<open>sum\<close> over floats: the running sum \<open>s\<close> and its compensation \<open>c\<close>.\<close>

fun neumaier :: "pyfloat \<Rightarrow> pyfloat \<Rightarrow> pyfloat list \<Rightarrow> pyfloat" where
  "neumaier s c [] = (if c \<noteq> PFin 0 \<and> isfinite c then fl_add s c else s)"
| "neumaier s c (x # xs) =
     (let t = fl_add s x
      in neumaier t (if fl_le (fl_abs x) (fl_abs s) then fl_add c (fl_add (fl_sub s t) x)
                     else fl_add c (fl_add (fl_sub x t) s)) xs)"

definition py_sum :: "pyfloat list \<Rightarrow> pyfloat" where
  "py_sum xs = (case xs of [] \<Rightarrow> PFin 0 | x # ys \<Rightarrow> neumaier x (PFin 0) ys)"

text \<open>\<open>delta.total_seconds()\<close>, and its quotient by 60 or 3600; a difference is in microseconds.\<close>

definition total_seconds :: "int \<Rightarrow> pyfloat" where
  "total_seconds us = round_double (of_int us / 1000000)"

definition per :: "rat \<Rightarrow> pyfloat \<Rightarrow> pyfloat" where
  "per d f = (case f of PFin q \<Rightarrow> round_double (q / d) | _ \<Rightarrow> f)"

definition hours :: "int \<Rightarrow> pyfloat" where
  "hours us = per 3600 (total_seconds us)"

definition minutes :: "int \<Rightarrow> pyfloat" where
  "minutes us = per 60 (total_seconds us)"

text \<open>The order of \<open>sorted\<close> on floats that are not NaN.\<close>

definition fl_rank :: "pyfloat \<Rightarrow> nat \<times> rat" where
  "fl_rank f = (case f of PNegInf \<Rightarrow> (0, 0) | PFin q \<Rightarrow> (1, q) | PInf \<Rightarrow> (2, 0) | PNaN \<Rightarrow> (3, 0))"

lemma hours_nonneg: "0 \<le> us \<Longrightarrow> fl_le (PFin 0) (hours us)"
proof -
  assume us: "0 \<le> us"
  have n: "fl_le (PFin 0) (per d f)" if "0 < d" "fl_le (PFin 0) f" for d f
    using that by (cases f) (simp_all add: per_def round_double_nonneg)
  have "fl_le (PFin 0) (total_seconds us)" using us by (simp add: total_seconds_def round_double_nonneg)
  then show ?thesis unfolding hours_def by (rule n [rotated]) simp
qed

lemma minutes_nonneg: "0 \<le> us \<Longrightarrow> fl_le (PFin 0) (minutes us)"
proof -
  assume us: "0 \<le> us"
  have n: "fl_le (PFin 0) (per d f)" if "0 < d" "fl_le (PFin 0) f" for d f
    using that by (cases f) (simp_all add: per_def round_double_nonneg)
  have "fl_le (PFin 0) (total_seconds us)" using us by (simp add: total_seconds_def round_double_nonneg)
  then show ?thesis unfolding minutes_def by (rule n [rotated]) simp
qed

end
