(* ===== verification/Port_Facts.thy ===== *)
theory Port_Facts
  imports Envelope_Payload Py_Round Jcs Dlq
begin

text \<open>
  The first half of \<open>port_statistics.py\<close>: the registry of KPI definitions, the periods, and the projection of
  silver events into port-call facts, gate scans and bookings.  \<open>loads\<close> is \<open>json.loads\<close>, \<open>sha\<close> the hexadecimal
  SHA-256 of bytes.
\<close>

section \<open>The registry\<close>

definition digit_in :: "string \<Rightarrow> char \<Rightarrow> bool" where
  "digit_in s c = (c \<in> set s)"

definition PERIOD_PATTERN :: "string \<Rightarrow> bool" where
  "PERIOD_PATTERN s =
     (case s of
        [a, b, c, d, h, m, n] \<Rightarrow> list_all is_digit [a, b, c, d] \<and> h = CHR ''-'' \<and>
          (m = CHR ''0'' \<and> is_digit n \<and> n \<noteq> CHR ''0'' \<or> m = CHR ''1'' \<and> digit_in ''012'' n)
      | _ \<Rightarrow> False)"

definition UNLOCODE_PATTERN :: "string \<Rightarrow> bool" where
  "UNLOCODE_PATTERN s =
     (length s = 5 \<and> list_all is_upper (take 2 s) \<and> list_all (\<lambda>c. is_upper c \<or> is_digit c) (drop 2 s))"

definition PORT_CALL_EVENT_TYPE :: string where "PORT_CALL_EVENT_TYPE = ''ports.port-call.v1''"
definition GATE_SCAN_EVENT_TYPE :: string where "GATE_SCAN_EVENT_TYPE = ''ports.gate.scan.v1''"
definition BOOKING_EVENT_TYPE :: string where "BOOKING_EVENT_TYPE = ''ports.booking.created.v1''"
definition SILVER_TABLE_LABEL :: string where "SILVER_TABLE_LABEL = ''platform_silver/events''"
definition FACTS_TABLE_NAME :: string where "FACTS_TABLE_NAME = ''port_call_facts''"
definition RUNS_TABLE_NAME :: string where "RUNS_TABLE_NAME = ''port_kpi_runs''"
definition VALUES_TABLE_NAME :: string where "VALUES_TABLE_NAME = ''port_kpi_values''"
definition REPORTS_DIR_NAME :: string where "REPORTS_DIR_NAME = ''port_kpi_reports''"

definition PORT_CALL_STATUSES :: "string list" where
  "PORT_CALL_STATUSES =
     [''DRAFT'', ''SUBMITTED'', ''ACCEPTED'', ''ARRIVED'', ''BERTHED'', ''DEPARTED'', ''COMPLETED'', ''REJECTED'']"

definition ACCEPTED_OR_BEYOND :: "string list" where
  "ACCEPTED_OR_BEYOND = [''ACCEPTED'', ''ARRIVED'', ''BERTHED'', ''DEPARTED'', ''COMPLETED'']"

definition NO_DATA_NOTE :: string where "NO_DATA_NOTE = ''no source events in period''"
definition P50 :: string where "P50 = ''P50''"
definition P90 :: string where "P90 = ''P90''"

record stats_gap =
  gap_gap_id :: string
  gap_description :: string
  gap_needed_upstream :: string

definition STATS_GAPS :: "stats_gap list" where
  "STATS_GAPS =
     [\<lparr>gap_gap_id = ''GAP-STATS-BERTH-REF'',
       gap_description = ''No authoritative berth reference data: berth-occupancy % is '' @
         ''unavailable until the Ministry publishes berth counts per port.'',
       gap_needed_upstream = ''Ministry berth reference dataset (berth count per port)''\<rparr>,
      \<lparr>gap_gap_id = ''GAP-STATS-TEU'',
       gap_description = ''Manifests record tonnage but not TEU: TEU throughput is '' @
         ''unavailable; throughput is published in tonnes only.'',
       gap_needed_upstream = ''manifest events carrying declared TEU''\<rparr>,
      \<lparr>gap_gap_id = ''GAP-STATS-SW-EVENTS'',
       gap_description = ''Singlewindow declaration lifecycle events are not yet bridged '' @
         ''into the platform scope: declaration clearance time is pending.'',
       gap_needed_upstream = ''singlewindow declaration events (submitted/cleared) bridge''\<rparr>]"

definition STATS_GAP_BY_ID :: "(string \<times> stats_gap) list" where
  "STATS_GAP_BY_ID = map (\<lambda>g. (gap_gap_id g, g)) STATS_GAPS"

record kpi_definition =
  kd_kpi_id :: string
  kd_name :: string
  kd_definition :: string
  kd_unit :: string
  kd_version :: string
  kd_sources :: "string list"
  kd_gap_id :: "string option"

definition KPI_DEFINITIONS :: "kpi_definition list" where
  "KPI_DEFINITIONS =
     [\<lparr>kd_kpi_id = ''vessel_calls'', kd_name = ''Vessel calls'',
       kd_definition = ''Count of distinct port calls whose latest lifecycle status is '' @
         ''ACCEPTED or beyond, attributed to the period by arrival time, '' @
         ''segmented by port and ship class (UNCTAD 1976 Port Performance '' @
         ''Indicators; UNCTAD Review of Maritime Transport).'',
       kd_unit = ''calls'', kd_version = ''1.0.0'', kd_sources = [PORT_CALL_EVENT_TYPE], kd_gap_id = None\<rparr>,
      \<lparr>kd_kpi_id = ''vessel_turnaround_hours'', kd_name = ''Vessel turnaround time'',
       kd_definition = ''Hours from arrival to departure per port call (arrival to '' @
         ''departure, UNCTAD/industry definition); median (P50) and P90 '' @
         ''per port per period, Hyndman-Fan type-7 quantiles.'',
       kd_unit = ''hours'', kd_version = ''1.0.0'', kd_sources = [PORT_CALL_EVENT_TYPE], kd_gap_id = None\<rparr>,
      \<lparr>kd_kpi_id = ''waiting_time_hours'', kd_name = ''Waiting time at anchorage'',
       kd_definition = ''Hours from arrival to berthing per port call where both '' @
         ''timestamps exist (UNCTAD 1976 waiting time); median (P50) and '' @
         ''P90 per port per period.'',
       kd_unit = ''hours'', kd_version = ''1.0.0'', kd_sources = [PORT_CALL_EVENT_TYPE], kd_gap_id = None\<rparr>,
      \<lparr>kd_kpi_id = ''berth_occupancy_pct'', kd_name = ''Berth occupancy'',
       kd_definition = ''Occupied berth-hours / (berths x window hours) x 100 per port '' @
         ''per period (UNCTAD RMT congestion threshold ~85%). BLOCKED by '' @
         ''GAP-STATS-BERTH-REF: no authoritative berth reference data.'',
       kd_unit = ''percent'', kd_version = ''1.0.0'', kd_sources = [PORT_CALL_EVENT_TYPE], kd_gap_id = Some ''GAP-STATS-BERTH-REF''\<rparr>,
      \<lparr>kd_kpi_id = ''throughput_tonnes'', kd_name = ''Throughput (tonnes)'',
       kd_definition = ''Sum of declared cargo tonnage over port calls in the period '' @
         ''(UNCTAD RMT port throughput). TEU throughput is unavailable '' @
         ''(GAP-STATS-TEU); tonnes only.'',
       kd_unit = ''tonnes'', kd_version = ''1.0.0'', kd_sources = [PORT_CALL_EVENT_TYPE], kd_gap_id = None\<rparr>,
      \<lparr>kd_kpi_id = ''truck_gate_turnaround_minutes'', kd_name = ''Truck gate turnaround'',
       kd_definition = ''Minutes from gate-in scan to the next gate-out scan per truck '' @
         ''and terminal; median per port per period (port-interop eCallUp '' @
         ''gate scans).'',
       kd_unit = ''minutes'', kd_version = ''1.0.0'', kd_sources = [GATE_SCAN_EVENT_TYPE], kd_gap_id = None\<rparr>,
      \<lparr>kd_kpi_id = ''booking_lead_time_hours'', kd_name = ''Booking lead time'',
       kd_definition = ''Hours from booking creation to the booked slot window start; '' @
         ''median per port per period (ports.booking.created.v1).'',
       kd_unit = ''hours'', kd_version = ''1.0.0'', kd_sources = [BOOKING_EVENT_TYPE], kd_gap_id = None\<rparr>,
      \<lparr>kd_kpi_id = ''slot_utilisation_pct'', kd_name = ''Slot utilisation'',
       kd_definition = ''Booked slots / offered slots x 100 per port per period, over '' @
         ''booking events carrying both counters.'',
       kd_unit = ''percent'', kd_version = ''1.0.0'', kd_sources = [BOOKING_EVENT_TYPE], kd_gap_id = None\<rparr>,
      \<lparr>kd_kpi_id = ''declaration_clearance_hours'', kd_name = ''Declaration clearance time'',
       kd_definition = ''Hours from declaration submission to clearance, median per '' @
         ''lane per period. BLOCKED by GAP-STATS-SW-EVENTS: singlewindow '' @
         ''declaration lifecycle events are not yet bridged into the '' @
         ''platform scope.'',
       kd_unit = ''hours'', kd_version = ''1.0.0'', kd_sources = [], kd_gap_id = Some ''GAP-STATS-SW-EVENTS''\<rparr>]"

definition KPI_BY_ID :: "(string \<times> kpi_definition) list" where
  "KPI_BY_ID = map (\<lambda>d. (kd_kpi_id d, d)) KPI_DEFINITIONS"

definition text_json :: "string option \<Rightarrow> json" where
  "text_json x = (case x of None \<Rightarrow> JNull | Some s \<Rightarrow> JStr s)"

definition definition_material :: "kpi_definition \<Rightarrow> json" where
  "definition_material d =
     JObj [(''kpi_id'', JStr (kd_kpi_id d)), (''definition'', JStr (kd_definition d)), (''unit'', JStr (kd_unit d)),
           (''definition_version'', JStr (kd_version d)), (''source_event_types'', JList (map JStr (kd_sources d))),
           (''gap_id'', text_json (kd_gap_id d))]"

definition query_definitions_sha256 :: "(string \<Rightarrow> string) \<Rightarrow> (rat \<Rightarrow> string) \<Rightarrow> string res" where
  "query_definitions_sha256 sha fr =
     bindR (canonicalize fr (JList (map definition_material KPI_DEFINITIONS))) (\<lambda>t. Inr (sha (utf8_encode t)))"

section \<open>Periods\<close>

text \<open>\<open>datetime(year, month, 1, tzinfo=UTC)\<close>: years run from 1 to 9999.\<close>

definition month_start :: "int \<Rightarrow> int \<Rightarrow> int res" where
  "month_start year month =
     bindR (guard (1 \<le> year \<and> year \<le> 9999) ValueError ''year is out of range'') (\<lambda>_.
     Inr ((ymd2ord year month 1 - ymd2ord 1970 1 1) * us_day))"

definition parse_period :: "string \<Rightarrow> (int \<times> int) res" where
  "parse_period period =
     bindR (guard (PERIOD_PATTERN period) ValueError ''period must match YYYY-MM'') (\<lambda>_.
     let year = int_digits (take 4 period); month = int_digits (take 2 (drop 5 period))
     in bindR (month_start year month) (\<lambda>start.
        bindR (if month = 12 then month_start (year + 1) 1 else month_start year (month + 1)) (\<lambda>finish.
        Inr (start, finish))))"

definition in_period :: "int \<Rightarrow> int \<Rightarrow> int \<Rightarrow> bool" where
  "in_period instant start finish = (start \<le> instant \<and> instant < finish)"

section \<open>Decoding\<close>

text \<open>\<open>_parse_instant\<close> makes the checks of \<^const>\<open>parse_timestamp\<close> when there is a value.\<close>

definition parse_instant :: "json \<Rightarrow> int option res" where
  "parse_instant value = (if value = JNull then Inr None else bindR (parse_timestamp value) (\<lambda>t. Inr (Some t)))"

definition optional_number :: "jobject \<Rightarrow> string \<Rightarrow> pyfloat option res" where
  "optional_number flds name =
     (let value = jget flds name
      in if value = JNull then Inr None
         else bindR (guard (is_number value) ValueError ''must be a number when present'') (\<lambda>_.
              bindR (to_float value) (\<lambda>f. Inr (Some f))))"

fun optional_name :: "jobject \<Rightarrow> string list \<Rightarrow> string option res" where
  "optional_name flds [] = Inr None"
| "optional_name flds (name # names) =
     (case jget flds name of
        JNull \<Rightarrow> optional_name flds names
      | JStr s \<Rightarrow> bindR (guard (nonblank s) ValueError ''must be non-empty text when present'') (\<lambda>_. Inr (Some s))
      | _ \<Rightarrow> raise ValueError ''must be non-empty text when present'')"

record silver_event =
  se_type :: string
  se_fields :: jobject
  se_at :: int
  se_id :: string

definition decode_silver_event :: "(string \<Rightarrow> json res) \<Rightarrow> row \<Rightarrow> silver_event res" where
  "decode_silver_event loads event =
     bindR (event_text event ''event_type'') (\<lambda>event_type.
     bindR (event_text event ''payload_json'') (\<lambda>payload_json.
     bindR (event_time event ''occurred_at'') (\<lambda>occurred_at.
     bindR (event_text event ''event_id'') (\<lambda>event_id.
     bindR (loads payload_json) (\<lambda>payload.
     bindR (extract_domain_fields loads payload) (\<lambda>flds.
     Inr \<lparr>se_type = event_type, se_fields = flds, se_at = occurred_at, se_id = event_id\<rparr>))))))"

section \<open>Port calls\<close>

record call_entry =
  ce_port :: string
  ce_order :: "int \<times> string"
  ce_status :: string
  ce_vessel :: "string option"
  ce_class :: "string option"
  ce_arrived :: "int option"
  ce_berthed :: "int option"
  ce_departed :: "int option"
  ce_tonnage :: "pyfloat option"
  ce_events :: "string list"

record port_fact =
  pf_call :: string
  pf_port :: string
  pf_vessel :: "string option"
  pf_class :: "string option"
  pf_status :: string
  pf_arrived :: "int option"
  pf_berthed :: "int option"
  pf_departed :: "int option"
  pf_tonnage :: "pyfloat option"
  pf_events :: "string list"

definition hash_vessel_ref :: "(string \<Rightarrow> string) \<Rightarrow> string option \<Rightarrow> string option" where
  "hash_vessel_ref sha vessel_ref =
     map_option (\<lambda>v. sha (utf8_encode (''blueeconomy.stats.vessel-ref.v1|'' @ v))) vessel_ref"

definition new_call :: "string \<Rightarrow> int \<times> string \<Rightarrow> string \<Rightarrow> call_entry" where
  "new_call port_code order status =
     \<lparr>ce_port = port_code, ce_order = order, ce_status = status, ce_vessel = None, ce_class = None, ce_arrived = None,
      ce_berthed = None, ce_departed = None, ce_tonnage = None, ce_events = []\<rparr>"

text \<open>\<open>if value is not None: entry[key] = value\<close>.\<close>

definition latest :: "'a option \<Rightarrow> 'a option \<Rightarrow> 'a option" where
  "latest value old = (case value of None \<Rightarrow> old | Some v \<Rightarrow> Some v)"

definition update_status :: "int \<times> string \<Rightarrow> string \<Rightarrow> call_entry \<Rightarrow> call_entry" where
  "update_status order status entry =
     (if ce_order entry \<le> order then entry\<lparr>ce_order := order, ce_status := status\<rparr> else entry)"

definition update_fields :: "jobject \<Rightarrow> call_entry \<Rightarrow> call_entry res" where
  "update_fields flds entry =
     bindR (optional_name flds [''vesselRef'']) (\<lambda>vessel_ref.
     bindR (optional_name flds [''shipClass'']) (\<lambda>ship_class.
     bindR (parse_instant (jget flds ''arrivedAt'')) (\<lambda>arrived.
     bindR (parse_instant (jget flds ''berthedAt'')) (\<lambda>berthed.
     bindR (parse_instant (jget flds ''departedAt'')) (\<lambda>departed.
     bindR (optional_number flds ''declaredTonnage'') (\<lambda>tonnage.
     Inr (entry\<lparr>ce_vessel := latest vessel_ref (ce_vessel entry), ce_class := latest ship_class (ce_class entry),
            ce_arrived := latest arrived (ce_arrived entry), ce_berthed := latest berthed (ce_berthed entry),
            ce_departed := latest departed (ce_departed entry), ce_tonnage := latest tonnage (ce_tonnage entry)\<rparr>)))))))"

definition call_step :: "(string \<Rightarrow> json res) \<Rightarrow> (string \<times> call_entry) list \<Rightarrow> row \<Rightarrow> (string \<times> call_entry) list res" where
  "call_step loads calls event =
     bindR (decode_silver_event loads event) (\<lambda>e.
     if se_type e \<noteq> PORT_CALL_EVENT_TYPE then Inr calls
     else
       bindR (require_field_text (se_fields e) ''portCallId'') (\<lambda>port_call_id.
       bindR (require_some (json_text (jget (se_fields e) ''portCode'')) ValueError ''field portCode must be a UN/LOCODE'') (\<lambda>port_code.
       bindR (guard (UNLOCODE_PATTERN port_code) ValueError ''field portCode must be a UN/LOCODE'') (\<lambda>_.
       bindR (require_some (json_text (jget (se_fields e) ''status'')) ValueError ''status is outside the governed lifecycle'') (\<lambda>status.
       bindR (guard (status \<in> set PORT_CALL_STATUSES) ValueError ''status is outside the governed lifecycle'') (\<lambda>_.
       let order = (se_at e, se_id e);
           entry = (case map_of calls port_call_id of None \<Rightarrow> new_call port_code order status | Some x \<Rightarrow> x)
       in bindR (guard (ce_port entry = port_code) ValueError ''port call changed portCode across events'') (\<lambda>_.
          bindR (update_fields (se_fields e) (update_status order status entry)) (\<lambda>entry.
          Inr (AList.update port_call_id (entry\<lparr>ce_events := ce_events entry @ [se_id e]\<rparr>) calls)))))))))"

definition attributable :: "call_entry \<Rightarrow> int" where
  "attributable entry = (case ce_arrived entry of None \<Rightarrow> fst (ce_order entry) | Some t \<Rightarrow> t)"

definition fact_of :: "(string \<Rightarrow> string) \<Rightarrow> string \<times> call_entry \<Rightarrow> port_fact" where
  "fact_of sha c =
     (case c of (port_call_id, entry) \<Rightarrow>
        \<lparr>pf_call = port_call_id, pf_port = ce_port entry, pf_vessel = hash_vessel_ref sha (ce_vessel entry),
         pf_class = ce_class entry, pf_status = ce_status entry, pf_arrived = ce_arrived entry,
         pf_berthed = ce_berthed entry, pf_departed = ce_departed entry, pf_tonnage = ce_tonnage entry,
         pf_events = sort (ce_events entry)\<rparr>)"

definition assemble_port_call_facts :: "(string \<Rightarrow> json res) \<Rightarrow> (string \<Rightarrow> string) \<Rightarrow> row list \<Rightarrow> int \<Rightarrow> int \<Rightarrow> port_fact list res" where
  "assemble_port_call_facts loads sha silver_events start finish =
     bindR (foldR (call_step loads) [] silver_events) (\<lambda>calls.
     Inr (map (fact_of sha) (filter (\<lambda>(k, entry). in_period (attributable entry) start finish) (sort_key fst calls))))"

text \<open>The row of a fact.\<close>

definition opt_text :: "string option \<Rightarrow> cell" where
  "opt_text x = (case x of None \<Rightarrow> CNone | Some s \<Rightarrow> CText s)"

definition opt_time :: "int option \<Rightarrow> cell" where
  "opt_time x = (case x of None \<Rightarrow> CNone | Some t \<Rightarrow> CTime t)"

definition opt_float :: "pyfloat option \<Rightarrow> cell" where
  "opt_float x = (case x of None \<Rightarrow> CNone | Some f \<Rightarrow> CFloat f)"

definition fact_row :: "port_fact \<Rightarrow> row" where
  "fact_row f =
     [(''port_call_id'', CText (pf_call f)), (''port_code'', CText (pf_port f)), (''vessel_ref_hashed'', opt_text (pf_vessel f)),
      (''ship_class'', opt_text (pf_class f)), (''status'', CText (pf_status f)), (''arrived_at'', opt_time (pf_arrived f)),
      (''berthed_at'', opt_time (pf_berthed f)), (''departed_at'', opt_time (pf_departed f)),
      (''declared_tonnage'', opt_float (pf_tonnage f)), (''source_event_ids_json'', CText (dumps_texts (pf_events f)))]"

section \<open>Gate scans and bookings\<close>

record gate_scan =
  gs_truck :: string
  gs_terminal :: string
  gs_port :: "string option"
  gs_direction :: string
  gs_at :: int
  gs_event :: string

text \<open>\<open>direction not in {"in", "out"}\<close>: a list or an object is unhashable.\<close>

definition gate_direction :: "json \<Rightarrow> string res" where
  "gate_direction v =
     (case v of
        JStr s \<Rightarrow> bindR (guard (s \<in> {''in'', ''out''}) ValueError ''direction must be in or out'') (\<lambda>_. Inr s)
      | JList xs \<Rightarrow> raise TypeError ''unhashable type''
      | JObj d \<Rightarrow> raise TypeError ''unhashable type''
      | _ \<Rightarrow> raise ValueError ''direction must be in or out'')"

definition gate_scan_of :: "silver_event \<Rightarrow> gate_scan res" where
  "gate_scan_of e =
     bindR (optional_name (se_fields e) [''truckRef'', ''truck_plate'']) (\<lambda>truck.
     bindR (require_some truck ValueError ''must carry a truck reference'') (\<lambda>truck_ref.
     bindR (gate_direction (jget (se_fields e) ''direction'')) (\<lambda>direction.
     bindR (optional_name (se_fields e) [''terminal'', ''terminalReference'']) (\<lambda>terminal.
     bindR (optional_name (se_fields e) [''portCode'']) (\<lambda>port_code.
     Inr \<lparr>gs_truck = truck_ref, gs_terminal = (case terminal of None \<Rightarrow> [] | Some t \<Rightarrow> t), gs_port = port_code,
          gs_direction = direction, gs_at = se_at e, gs_event = se_id e\<rparr>)))))"

definition scan_step :: "(string \<Rightarrow> json res) \<Rightarrow> int \<Rightarrow> int \<Rightarrow> gate_scan list \<Rightarrow> row \<Rightarrow> gate_scan list res" where
  "scan_step loads start finish scans event =
     bindR (decode_silver_event loads event) (\<lambda>e.
     if se_type e \<noteq> GATE_SCAN_EVENT_TYPE \<or> \<not> in_period (se_at e) start finish then Inr scans
     else bindR (gate_scan_of e) (\<lambda>s. Inr (scans @ [s])))"

definition extract_gate_scans :: "(string \<Rightarrow> json res) \<Rightarrow> row list \<Rightarrow> int \<Rightarrow> int \<Rightarrow> gate_scan list res" where
  "extract_gate_scans loads silver_events start finish = foldR (scan_step loads start finish) [] silver_events"

record booking =
  bk_id :: string
  bk_port :: "string option"
  bk_lead :: pyfloat
  bk_booked :: "pyfloat option"
  bk_offered :: "pyfloat option"
  bk_event :: string

definition booking_step :: "(string \<Rightarrow> json res) \<Rightarrow> int \<Rightarrow> int \<Rightarrow> booking list \<Rightarrow> row \<Rightarrow> booking list res" where
  "booking_step loads start finish bookings event =
     bindR (decode_silver_event loads event) (\<lambda>e.
     if se_type e \<noteq> BOOKING_EVENT_TYPE then Inr bookings
     else
       bindR (parse_instant (jget (se_fields e) ''createdAt'')) (\<lambda>created.
       bindR (parse_instant (jget (se_fields e) ''slotWindowStart'')) (\<lambda>window.
       let created_at = (case created of None \<Rightarrow> se_at e | Some t \<Rightarrow> t) in
       case window of
         None \<Rightarrow> Inr bookings
       | Some window_start \<Rightarrow>
           if \<not> in_period window_start start finish then Inr bookings
           else
             bindR (guard (created_at \<le> window_start) ValueError ''slot window starts before creation'') (\<lambda>_.
             bindR (optional_name (se_fields e) [''bookingId'']) (\<lambda>booking_id.
             bindR (optional_name (se_fields e) [''portCode'']) (\<lambda>port_code.
             bindR (optional_number (se_fields e) ''bookedSlots'') (\<lambda>booked.
             bindR (optional_number (se_fields e) ''offeredSlots'') (\<lambda>offered.
             Inr (bookings @ [\<lparr>bk_id = (case booking_id of None \<Rightarrow> se_id e | Some b \<Rightarrow> b), bk_port = port_code,
                                bk_lead = hours (window_start - created_at), bk_booked = booked, bk_offered = offered,
                                bk_event = se_id e\<rparr>])))))))))"

definition extract_bookings :: "(string \<Rightarrow> json res) \<Rightarrow> row list \<Rightarrow> int \<Rightarrow> int \<Rightarrow> booking list res" where
  "extract_bookings loads silver_events start finish = foldR (booking_step loads start finish) [] silver_events"

end
