(* ===== verification/Kpi_Values.thy ===== *)
theory Kpi_Values
  imports Port_Facts
begin

text \<open>
  The second half of \<open>port_statistics.py\<close>: quantiles, the KPI observations over facts, scans and bookings, the value
  rows with their no-data rows, and the report.  An index beyond a list is \<open>IndexError\<close>, a missing key \<open>KeyError\<close>.
\<close>

section \<open>Quantiles\<close>

text \<open>The doubles \<open>0.5\<close> and \<open>0.9\<close>.\<close>

definition one_half :: pyfloat where "one_half = PFin (1 / 2)"
definition nine_tenths :: pyfloat where "nine_tenths = PFin (8106479329266893 / 9007199254740992)"

definition percentile_linear :: "pyfloat list \<Rightarrow> pyfloat \<Rightarrow> pyfloat res" where
  "percentile_linear values quantile =
     bindR (guard (values \<noteq> []) ValueError ''quantile of an empty observation set is undefined'') (\<lambda>_.
     bindR (guard (fl_less (PFin 0) quantile \<and> fl_less quantile (PFin 1)) ValueError ''quantile must be within (0, 1)'') (\<lambda>_.
     let ordered = sort_key fl_rank values; n = length ordered in
     if n = 1 then Inr (hd ordered)
     else
       bindR (float_of_int (int n - 1)) (\<lambda>last_index.
       case fl_mul quantile last_index of
         PFin rank \<Rightarrow>
           (let lower = nat \<lfloor>rank\<rfloor>; upper = min (lower + 1) (n - 1) in
            bindR (guard (lower < n) OtherError ''list index out of range'') (\<lambda>_.
            Inr (fl_add (ordered ! lower)
                   (fl_mul (fl_sub (PFin rank) (PFin (of_nat lower))) (fl_sub (ordered ! upper) (ordered ! lower))))))
       | _ \<Rightarrow> raise OtherError ''cannot convert float to integer'')))"

section \<open>Observations\<close>

record observation =
  ob_port :: "string option"
  ob_class :: "string option"
  ob_pct :: "string option"
  ob_value :: pyfloat
  ob_n :: int

text \<open>\<open>str(x)\<close> of an optional text.\<close>

definition opt_str :: "string option \<Rightarrow> string" where
  "opt_str x = (case x of None \<Rightarrow> ''None'' | Some s \<Rightarrow> s)"

definition bump :: "'k \<Rightarrow> ('k \<times> int) list \<Rightarrow> ('k \<times> int) list" where
  "bump k d = AList.update k ((case map_of d k of None \<Rightarrow> 0 | Some n \<Rightarrow> n) + 1) d"

definition count_call :: "((string option \<times> string option) \<times> int) list \<Rightarrow> port_fact \<Rightarrow>
    ((string option \<times> string option) \<times> int) list" where
  "count_call counts f =
     (let counts = bump (Some (pf_port f), pf_class f) counts
      in if pf_class f \<noteq> None then bump (Some (pf_port f), None) counts else counts)"

definition call_observation :: "(string option \<times> string option) \<times> int \<Rightarrow> observation res" where
  "call_observation entry =
     (case entry of ((port_code, ship_class), n) \<Rightarrow>
        bindR (float_of_int n) (\<lambda>v.
        Inr \<lparr>ob_port = port_code, ob_class = ship_class, ob_pct = None, ob_value = v, ob_n = n\<rparr>))"

definition vessel_calls :: "port_fact list \<Rightarrow> observation list res" where
  "vessel_calls accepted =
     mapR call_observation (sort_key (\<lambda>e. (opt_str (fst (fst e)), opt_str (snd (fst e)))) (foldl count_call [] accepted))"

definition quantile_observation :: "string option \<times> pyfloat list \<Rightarrow> string \<Rightarrow> observation res" where
  "quantile_observation entry percentile =
     (case entry of (port, durations) \<Rightarrow>
        bindR (percentile_linear durations (if percentile = P50 then one_half else nine_tenths)) (\<lambda>v.
        Inr \<lparr>ob_port = port, ob_class = None, ob_pct = Some percentile, ob_value = round6 v, ob_n = int (length durations)\<rparr>))"

definition by_port :: "(string option \<times> 'a) list \<Rightarrow> (string option \<times> 'a) list" where
  "by_port d = sort_key (\<lambda>e. opt_str (fst e)) d"

definition quantiles :: "string list \<Rightarrow> (string option \<times> pyfloat list) list \<Rightarrow> observation list res" where
  "quantiles percentiles d =
     bindR (mapR (\<lambda>e. mapR (quantile_observation e) percentiles) (by_port d)) (\<lambda>groups. Inr (concat groups))"

definition push_span :: "int option \<Rightarrow> int option \<Rightarrow> string \<Rightarrow> (string option \<times> pyfloat list) list \<Rightarrow> (string option \<times> pyfloat list) list" where
  "push_span start finish port d =
     (case (start, finish) of
        (Some a, Some b) \<Rightarrow> (if a \<le> b then dict_push (Some port) (hours (b - a)) d else d)
      | _ \<Rightarrow> d)"

definition turnaround_times :: "port_fact list \<Rightarrow> (string option \<times> pyfloat list) list" where
  "turnaround_times accepted = foldl (\<lambda>d f. push_span (pf_arrived f) (pf_departed f) (pf_port f) d) [] accepted"

definition waiting_times :: "port_fact list \<Rightarrow> (string option \<times> pyfloat list) list" where
  "waiting_times accepted = foldl (\<lambda>d f. push_span (pf_arrived f) (pf_berthed f) (pf_port f) d) [] accepted"

definition tonnages :: "port_fact list \<Rightarrow> (string option \<times> pyfloat list) list" where
  "tonnages accepted =
     foldl (\<lambda>d f. case pf_tonnage f of None \<Rightarrow> d | Some t \<Rightarrow> dict_push (Some (pf_port f)) t d) [] accepted"

definition throughput :: "(string option \<times> pyfloat list) list \<Rightarrow> observation list" where
  "throughput d =
     map (\<lambda>(port, ts). \<lparr>ob_port = port, ob_class = None, ob_pct = None, ob_value = round6 (py_sum ts), ob_n = int (length ts)\<rparr>)
       (by_port d)"

text \<open>Gate scans of one truck at one terminal: the last open gate-in, and the durations so far.\<close>

definition pair_step :: "gate_scan option \<times> (string option \<times> pyfloat list) list \<Rightarrow> gate_scan \<Rightarrow>
    gate_scan option \<times> (string option \<times> pyfloat list) list" where
  "pair_step st scan =
     (case st of (open_in, d) \<Rightarrow>
        if gs_direction scan = ''in'' then (Some scan, d)
        else
          (case open_in of
             None \<Rightarrow> (None, d)
           | Some i \<Rightarrow>
               (let m = minutes (gs_at scan - gs_at i)
                in (None, if fl_le (PFin 0) m then dict_push (gs_port scan) m d else d))))"

definition pair_group :: "(string option \<times> pyfloat list) list \<Rightarrow> gate_scan list \<Rightarrow> (string option \<times> pyfloat list) list" where
  "pair_group d scans = snd (foldl pair_step (None, d) (sort_key (\<lambda>s. (gs_at s, gs_event s)) scans))"

definition gate_durations_minutes :: "gate_scan list \<Rightarrow> (string option \<times> pyfloat list) list" where
  "gate_durations_minutes scans =
     foldl (\<lambda>d (key, scans). pair_group d scans) [] (group_by (\<lambda>s. (gs_truck s, gs_terminal s)) (\<lambda>s. s) scans)"

definition booking_tally :: "(string option \<times> pyfloat list) list \<times> (string option \<times> (pyfloat \<times> pyfloat) list) list \<Rightarrow> booking \<Rightarrow>
    ((string option \<times> pyfloat list) list \<times> (string option \<times> (pyfloat \<times> pyfloat) list) list) res" where
  "booking_tally st b =
     (case st of (lead, slots) \<Rightarrow>
        let lead = dict_push (bk_port b) (bk_lead b) lead in
        case (bk_booked b, bk_offered b) of
          (Some booked, Some offered) \<Rightarrow>
            bindR (guard (\<not> fl_le offered (PFin 0) \<and> \<not> fl_less booked (PFin 0)) ValueError
                     ''booking slot counters must be non-negative with offered > 0'') (\<lambda>_.
            Inr (lead, dict_push (bk_port b) (booked, offered) slots))
        | _ \<Rightarrow> Inr (lead, slots))"

definition slot_observation :: "string option \<times> (pyfloat \<times> pyfloat) list \<Rightarrow> observation res" where
  "slot_observation entry =
     (case entry of (port, slots) \<Rightarrow>
        bindR (fl_div (fl_mul (PFin 100) (py_sum (map fst slots))) (py_sum (map snd slots))) (\<lambda>v.
        Inr \<lparr>ob_port = port, ob_class = None, ob_pct = None, ob_value = round6 v, ob_n = int (length slots)\<rparr>))"

definition compute_kpi_observations :: "port_fact list \<Rightarrow> gate_scan list \<Rightarrow> booking list \<Rightarrow>
    (string \<times> observation list) list res" where
  "compute_kpi_observations facts gate_scans bookings =
     (let accepted = filter (\<lambda>f. pf_status f \<in> set ACCEPTED_OR_BEYOND) facts in
      bindR (vessel_calls accepted) (\<lambda>calls.
      bindR (quantiles [P50, P90] (turnaround_times accepted)) (\<lambda>turnaround.
      bindR (quantiles [P50, P90] (waiting_times accepted)) (\<lambda>waiting.
      let tonnes = throughput (tonnages accepted) in
      bindR (quantiles [P50] (gate_durations_minutes gate_scans)) (\<lambda>gate.
      bindR (foldR booking_tally ([], []) bookings) (\<lambda>(lead, slots).
      bindR (quantiles [P50] lead) (\<lambda>lead_times.
      bindR (mapR slot_observation (by_port slots)) (\<lambda>utilisation.
      Inr [(''vessel_calls'', calls), (''vessel_turnaround_hours'', turnaround), (''waiting_time_hours'', waiting),
           (''throughput_tonnes'', tonnes), (''truck_gate_turnaround_minutes'', gate),
           (''booking_lead_time_hours'', lead_times), (''slot_utilisation_pct'', utilisation)]))))))))"

section \<open>Value rows\<close>

record value_row =
  vr_run :: string
  vr_kpi :: string
  vr_period :: string
  vr_port :: "string option"
  vr_class :: "string option"
  vr_value :: "pyfloat option"
  vr_unit :: string
  vr_n :: int
  vr_pct :: "string option"
  vr_note :: "string option"
  vr_definition :: string
  vr_source :: string
  vr_version :: int
  vr_hash :: string
  vr_at :: int

text \<open>What all rows of a run share.\<close>

record run_context =
  rc_run :: string
  rc_period :: string
  rc_source :: string
  rc_version :: int
  rc_hash :: string
  rc_at :: int

definition base_row :: "run_context \<Rightarrow> kpi_definition \<Rightarrow> string option \<Rightarrow> value_row" where
  "base_row c d port_code =
     \<lparr>vr_run = rc_run c, vr_kpi = kd_kpi_id d, vr_period = rc_period c, vr_port = port_code, vr_class = None,
      vr_value = None, vr_unit = kd_unit d, vr_n = 0, vr_pct = None, vr_note = None, vr_definition = kd_version d,
      vr_source = rc_source c, vr_version = rc_version c, vr_hash = rc_hash c, vr_at = rc_at c\<rparr>"

definition observed_row :: "run_context \<Rightarrow> kpi_definition \<Rightarrow> string option \<Rightarrow> observation \<Rightarrow> value_row" where
  "observed_row c d port_code ob =
     (base_row c d port_code)\<lparr>vr_class := ob_class ob, vr_value := Some (ob_value ob), vr_n := ob_n ob, vr_pct := ob_pct ob\<rparr>"

definition observations_of :: "(string \<times> observation list) list \<Rightarrow> string \<Rightarrow> string option \<Rightarrow> observation list" where
  "observations_of observations kpi_id port_code =
     filter (\<lambda>ob. ob_port ob = port_code) (case map_of observations kpi_id of None \<Rightarrow> [] | Some obs \<Rightarrow> obs)"

definition port_rows :: "(string \<times> observation list) list \<Rightarrow> run_context \<Rightarrow> kpi_definition \<Rightarrow> string option \<Rightarrow> value_row list res" where
  "port_rows observations c d port_code =
     (case kd_gap_id d of
        Some gap_id \<Rightarrow>
          bindR (require_some (map_of STATS_GAP_BY_ID gap_id) KeyError gap_id) (\<lambda>gap.
          Inr [(base_row c d port_code)\<lparr>vr_note := Some (gap_gap_id gap @ '': '' @ gap_description gap)\<rparr>])
      | None \<Rightarrow>
          (let emitted = observations_of observations (kd_kpi_id d) port_code in
           if emitted = [] then Inr [(base_row c d port_code)\<lparr>vr_note := Some NO_DATA_NOTE\<rparr>]
           else Inr (map (observed_row c d port_code) (sort_key (\<lambda>ob. (opt_str (ob_class ob), opt_str (ob_pct ob))) emitted))))"

definition emit_value_rows :: "(string \<times> observation list) list \<Rightarrow> string option list \<Rightarrow> run_context \<Rightarrow> value_row list res" where
  "emit_value_rows observations discovered_ports c =
     bindR (mapR (\<lambda>d. mapR (port_rows observations c d) discovered_ports) KPI_DEFINITIONS) (\<lambda>rows.
     Inr (concat (concat rows)))"

definition discover_ports :: "port_fact list \<Rightarrow> gate_scan list \<Rightarrow> booking list \<Rightarrow> string option list" where
  "discover_ports facts gate_scans bookings =
     (let ports = map (\<lambda>f. Some (pf_port f)) facts @ map gs_port gate_scans @ map bk_port bookings;
          ordered = sort (remdups (concat (map (\<lambda>p. case p of None \<Rightarrow> [] | Some s \<Rightarrow> [s]) ports)))
      in if ordered \<noteq> [] then map Some ordered else [None])"

section \<open>The report\<close>

definition value_row_key :: "(string \<Rightarrow> string) \<Rightarrow> value_row \<Rightarrow> string" where
  "value_row_key sha r =
     sha (utf8_encode (join_with ''/'' [vr_run r, vr_kpi r, vr_period r, opt_str (vr_port r), opt_str (vr_class r), opt_str (vr_pct r)]))"

definition value_cells :: "(string \<Rightarrow> string) \<Rightarrow> value_row \<Rightarrow> row" where
  "value_cells sha r =
     [(''run_id'', CText (vr_run r)), (''kpi_id'', CText (vr_kpi r)), (''period'', CText (vr_period r)),
      (''port_code'', opt_text (vr_port r)), (''ship_class'', opt_text (vr_class r)), (''value'', opt_float (vr_value r)),
      (''unit'', CText (vr_unit r)), (''n_observations'', CInt (vr_n r)), (''percentile'', opt_text (vr_pct r)),
      (''coverage_note'', opt_text (vr_note r)), (''definition_version'', CText (vr_definition r)),
      (''source_table'', CText (vr_source r)), (''table_version'', CInt (vr_version r)), (''query_hash'', CText (vr_hash r)),
      (''computed_at'', CTime (vr_at r)), (''value_key'', CText (value_row_key sha r))]"

text \<open>\<open>uuid5\<close> is the name-based UUID in the module's namespace, as text.\<close>

definition build_run_id :: "(string \<Rightarrow> string) \<Rightarrow> (rat \<Rightarrow> string) \<Rightarrow> string \<Rightarrow> string \<Rightarrow> jobject \<Rightarrow> string \<Rightarrow> string res" where
  "build_run_id uuid5 fr scope_root_uri period source_table_versions query_hash =
     bindR (canonical_json fr (JObj [(''period'', JStr period), (''query_definitions_sha256'', JStr query_hash),
              (''scope_root'', JStr (rstrip_char (CHR ''/'') scope_root_uri)),
              (''source_table_versions'', JObj source_table_versions)])) (\<lambda>material.
     Inr (uuid5 material))"

definition float_json :: "pyfloat option \<Rightarrow> json" where
  "float_json x = (case x of None \<Rightarrow> JNull | Some f \<Rightarrow> JFloat f)"

definition report_value :: "value_row \<Rightarrow> jobject" where
  "report_value r =
     [(''kpi_id'', JStr (vr_kpi r)), (''period'', JStr (vr_period r)), (''port_code'', text_json (vr_port r)),
      (''ship_class'', text_json (vr_class r)), (''value'', float_json (vr_value r)), (''unit'', JStr (vr_unit r)),
      (''n_observations'', JInt (vr_n r)), (''percentile'', text_json (vr_pct r)),
      (''coverage_note'', text_json (vr_note r)), (''definition_version'', JStr (vr_definition r))]"

definition report_values :: "value_row list \<Rightarrow> jobject list" where
  "report_values rows =
     map report_value (sort_key (\<lambda>r. (vr_kpi r, opt_str (vr_port r), opt_str (vr_class r), opt_str (vr_pct r))) rows)"

definition no_data_rows :: "value_row list \<Rightarrow> int" where
  "no_data_rows rows = int (length (filter (\<lambda>r. vr_value r = None) rows))"

definition build_report_core :: "string \<Rightarrow> string \<Rightarrow> int \<Rightarrow> int \<Rightarrow> jobject \<Rightarrow> string \<Rightarrow> value_row list \<Rightarrow> jobject" where
  "build_report_core run_id period period_start period_end source_table_versions query_hash value_rows =
     [(''schema_version'', JStr ''blueeconomy.stats.port-kpi-report.v1''), (''run_id'', JStr run_id),
      (''scope'', JStr ''platform''), (''period'', JStr period), (''period_start'', JStr (isoformat period_start)),
      (''period_end'', JStr (isoformat period_end)), (''source_table_versions'', JObj source_table_versions),
      (''query_definitions_sha256'', JStr query_hash), (''kpi_count'', JInt (int (length KPI_DEFINITIONS))),
      (''rows_emitted'', JInt (int (length value_rows))), (''rows_no_data'', JInt (no_data_rows value_rows)),
      (''values'', JList (map JObj (report_values value_rows)))]"

definition report_core_sha256 :: "(string \<Rightarrow> string) \<Rightarrow> (rat \<Rightarrow> string) \<Rightarrow> jobject \<Rightarrow> string res" where
  "report_core_sha256 sha fr report_core =
     bindR (canonicalize fr (JObj report_core)) (\<lambda>t. Inr (sha (utf8_encode t)))"

text \<open>\<open>str\<close> of the values a report row has.\<close>

fun value_str :: "(rat \<Rightarrow> string) \<Rightarrow> json \<Rightarrow> string" where
  "value_str fr (JStr s) = s"
| "value_str fr (JInt i) = int_str i"
| "value_str fr (JFloat f) = (case f of PFin q \<Rightarrow> fr q | PInf \<Rightarrow> ''inf'' | PNegInf \<Rightarrow> ''-inf'' | PNaN \<Rightarrow> ''nan'')"
| "value_str fr v = ''None''"

definition csv_special :: "char \<Rightarrow> bool" where
  "csv_special c = (c = CHR '','' \<or> c = CHR 0x22 \<or> c = CHR 0x0A \<or> c = CHR 0x0D)"

definition csv_quote :: "string \<Rightarrow> string" where
  "csv_quote t =
     (if list_ex csv_special t
      then CHR 0x22 # concat (map (\<lambda>c. if c = CHR 0x22 then [c, c] else [c]) t) @ [CHR 0x22] else t)"

definition csv_cell :: "(rat \<Rightarrow> string) \<Rightarrow> json \<Rightarrow> string" where
  "csv_cell fr v = (if v = JNull then [] else csv_quote (value_str fr v))"

definition CSV_COLUMNS :: "string list" where
  "CSV_COLUMNS = [''kpi_id'', ''period'', ''port_code'', ''ship_class'', ''value'', ''unit'', ''n_observations'', ''percentile'',
     ''coverage_note'', ''definition_version'']"

definition report_values_csv :: "(rat \<Rightarrow> string) \<Rightarrow> jobject list \<Rightarrow> string" where
  "report_values_csv fr rows =
     join_with [CHR 0x0A] (join_with '','' CSV_COLUMNS # map (\<lambda>r. join_with '','' (map (\<lambda>k. csv_cell fr (jget r k)) CSV_COLUMNS)) rows)
       @ [CHR 0x0A]"

section \<open>Dictionaries of the computation\<close>

lemma foldl_inv: "P s \<Longrightarrow> (\<And>s x. P s \<Longrightarrow> P (f s x)) \<Longrightarrow> P (foldl f s xs)"
  by (induction xs arbitrary: s) auto

lemma distinct_dict_push [intro]: "distinct (map fst d) \<Longrightarrow> distinct (map fst (dict_push k v d))"
  by (auto simp: dict_push_def)

lemma distinct_bump [intro]: "distinct (map fst d) \<Longrightarrow> distinct (map fst (bump k d))"
  by (auto simp: bump_def)

lemma distinct_sort_key [simp]: "distinct (map g (sort_key f d)) = distinct (map g d)"
proof -
  have "mset (map g (sort_key f d)) = mset (map g d)" by simp
  then show ?thesis by (rule mset_eq_imp_distinct_iff)
qed

lemma push_span_distinct: "distinct (map fst d) \<Longrightarrow> distinct (map fst (push_span a b p d))"
  by (auto simp: push_span_def split: option.splits)

lemma call_counts_distinct: "distinct (map fst (foldl count_call [] fs))"
  by (rule foldl_inv) (auto simp: count_call_def Let_def)

lemma times_distinct:
  "distinct (map fst (turnaround_times fs))" "distinct (map fst (waiting_times fs))" "distinct (map fst (tonnages fs))"
  unfolding turnaround_times_def waiting_times_def tonnages_def
  by (rule foldl_inv; auto simp: push_span_distinct split: option.splits)+

lemma pair_group_distinct: "distinct (map fst d) \<Longrightarrow> distinct (map fst (pair_group d scans))"
proof -
  assume d: "distinct (map fst d)"
  have "distinct (map fst (snd (foldl pair_step (None, d) (sort_key (\<lambda>s. (gs_at s, gs_event s)) scans))))"
    by (rule foldl_inv [where P = "\<lambda>st. distinct (map fst (snd st))"])
      (use d in \<open>auto simp: pair_step_def Let_def split: option.splits prod.splits\<close>)
  then show ?thesis by (simp add: pair_group_def)
qed

lemma gate_durations_distinct: "distinct (map fst (gate_durations_minutes scans))"
  unfolding gate_durations_minutes_def by (rule foldl_inv) (auto simp: pair_group_distinct split: prod.splits)

lemma booking_tally_distinct:
  assumes "foldR booking_tally ([], []) bs = Inr (lead, slots)"
  shows "distinct (map fst lead) \<and> distinct (map fst slots)"
proof -
  have "distinct (map fst (fst (lead, slots))) \<and> distinct (map fst (snd (lead, slots)))"
    by (rule foldR_inv [OF assms, where P = "\<lambda>st. distinct (map fst (fst st)) \<and> distinct (map fst (snd st))"])
      (auto simp: booking_tally_def Let_def bindR_Inr_iff split: option.splits)
  then show ?thesis by simp
qed

section \<open>Observations are keyed\<close>

definition segment :: "observation \<Rightarrow> string option \<times> string option \<times> string option" where
  "segment ob = (ob_port ob, ob_class ob, ob_pct ob)"

lemma distinct_keys_map: "inj h \<Longrightarrow> distinct ks \<Longrightarrow> distinct (map h ks)"
  by (simp add: distinct_map inj_on_def)

lemma vessel_calls_segments:
  assumes "vessel_calls fs = Inr obs"
  shows "distinct (map segment obs)"
proof -
  let ?items = "sort_key (\<lambda>e. (opt_str (fst (fst e)), opt_str (snd (fst e)))) (foldl count_call [] fs)"
  have "list_all2 (\<lambda>e ob. call_observation e = Inr ob) ?items obs"
    using assms by (simp add: vessel_calls_def mapR_Inr_iff)
  then have "map segment obs = map (\<lambda>k. (fst k, snd k, None)) (map fst ?items)"
    by (induction rule: list_all2_induct) (auto simp: call_observation_def segment_def bindR_Inr_iff split: prod.splits)
  moreover have "distinct (map fst ?items)" using call_counts_distinct by simp
  moreover have "inj (\<lambda>k :: string option \<times> string option. (fst k, snd k, None :: string option))"
    by (simp add: inj_def prod_eq_iff)
  ultimately show ?thesis by (simp only: distinct_keys_map)
qed

lemma quantiles_segments:
  assumes "quantiles percentiles d = Inr obs" "distinct percentiles" "distinct (map fst d)"
  shows "distinct (map segment obs)"
proof -
  obtain groups where g: "list_all2 (\<lambda>e obs. mapR (quantile_observation e) percentiles = Inr obs) (by_port d) groups" "obs = concat groups"
    using assms(1) by (auto simp: quantiles_def bindR_Inr_iff mapR_Inr_iff)
  have one: "map segment xs = map (\<lambda>p. (fst e, None, Some p)) percentiles" if "mapR (quantile_observation e) percentiles = Inr xs" for e xs
  proof -
    from that have "list_all2 (\<lambda>p ob. quantile_observation e p = Inr ob) percentiles xs" by (simp add: mapR_Inr_iff)
    then show ?thesis
      by (induction rule: list_all2_induct) (auto simp: quantile_observation_def segment_def bindR_Inr_iff split: prod.splits)
  qed
  from g(1) have "map segment (concat groups) = concat (map (\<lambda>e. map (\<lambda>p. (fst e, None, Some p)) percentiles) (by_port d))"
    by (induction rule: list_all2_induct) (simp_all add: one)
  moreover have "distinct (concat (map (\<lambda>e. map (\<lambda>p. (fst e, None, Some p)) percentiles) es))" if "distinct (map fst es)" for es :: "(string option \<times> pyfloat list) list"
    using that assms(2) by (induction es) (auto simp: distinct_map inj_on_def image_iff)
  moreover have "distinct (map fst (by_port d))" using assms(3) by (simp add: by_port_def)
  ultimately show ?thesis using g(2) by simp
qed

lemma throughput_segments: "distinct (map fst d) \<Longrightarrow> distinct (map segment (throughput d))"
proof -
  assume d: "distinct (map fst d)"
  have "map segment (throughput d) = map (\<lambda>p. (p, None, None)) (map fst (by_port d))"
    by (simp add: throughput_def segment_def split_def)
  moreover have "distinct (map fst (by_port d))" using d by (simp add: by_port_def)
  ultimately show ?thesis by (simp add: distinct_map inj_on_def)
qed

lemma slots_segments:
  assumes "mapR slot_observation (by_port d) = Inr obs" "distinct (map fst d)"
  shows "distinct (map segment obs)"
proof -
  have "list_all2 (\<lambda>e ob. slot_observation e = Inr ob) (by_port d) obs" using assms(1) by (simp add: mapR_Inr_iff)
  then have "map segment obs = map (\<lambda>p. (p, None, None)) (map fst (by_port d))"
    by (induction rule: list_all2_induct) (auto simp: slot_observation_def segment_def bindR_Inr_iff split: prod.splits)
  moreover have "distinct (map fst (by_port d))" using assms(2) by (simp add: by_port_def)
  ultimately show ?thesis by (simp add: distinct_map inj_on_def)
qed

lemma observations_keyed:
  assumes "compute_kpi_observations facts scans bookings = Inr observations"
  shows "map fst observations = [''vessel_calls'', ''vessel_turnaround_hours'', ''waiting_time_hours'', ''throughput_tonnes'',
      ''truck_gate_turnaround_minutes'', ''booking_lead_time_hours'', ''slot_utilisation_pct''] \<and>
    (\<forall>(k, obs) \<in> set observations. distinct (map segment obs))"
proof -
  define accepted where "accepted = filter (\<lambda>f. pf_status f \<in> set ACCEPTED_OR_BEYOND) facts"
  obtain calls turn wait gate st where
    c: "vessel_calls accepted = Inr calls" "quantiles [P50, P90] (turnaround_times accepted) = Inr turn"
    "quantiles [P50, P90] (waiting_times accepted) = Inr wait" "quantiles [P50] (gate_durations_minutes scans) = Inr gate"
    and st: "foldR booking_tally ([], []) bookings = Inr st"
    and r: "(case st of (lead, slots) \<Rightarrow> bindR (quantiles [P50] lead) (\<lambda>times. bindR (mapR slot_observation (by_port slots)) (\<lambda>util.
      Inr [(''vessel_calls'', calls), (''vessel_turnaround_hours'', turn), (''waiting_time_hours'', wait),
      (''throughput_tonnes'', throughput (tonnages accepted)), (''truck_gate_turnaround_minutes'', gate),
      (''booking_lead_time_hours'', times), (''slot_utilisation_pct'', util)]))) = Inr observations"
    using assms unfolding compute_kpi_observations_def Let_def accepted_def [symmetric] bindR_Inr_iff by blast
  obtain lead slots where ls: "st = (lead, slots)" by (cases st)
  from r [unfolded ls prod.case bindR_Inr_iff] obtain times util where
    t: "quantiles [P50] lead = Inr times" "mapR slot_observation (by_port slots) = Inr util"
    and o: "observations = [(''vessel_calls'', calls), (''vessel_turnaround_hours'', turn), (''waiting_time_hours'', wait),
      (''throughput_tonnes'', throughput (tonnages accepted)), (''truck_gate_turnaround_minutes'', gate),
      (''booking_lead_time_hours'', times), (''slot_utilisation_pct'', util)]"
    by auto
  have p: "distinct [P50, P90]" by (simp add: P50_def P90_def)
  note b = booking_tally_distinct [OF st [unfolded ls]]
  have "distinct (map segment calls)" "distinct (map segment turn)" "distinct (map segment wait)"
    "distinct (map segment (throughput (tonnages accepted)))" "distinct (map segment gate)" "distinct (map segment times)"
    "distinct (map segment util)"
    using vessel_calls_segments [OF c(1)] quantiles_segments [OF c(2) p times_distinct(1)] quantiles_segments [OF c(3) p times_distinct(2)]
      throughput_segments [OF times_distinct(3)] quantiles_segments [OF c(4) _ gate_durations_distinct] quantiles_segments [OF t(1)] slots_segments [OF t(2)] b
    by simp_all
  with o show ?thesis by simp
qed

section \<open>The value rows\<close>

definition gap_note :: "string \<Rightarrow> string option" where
  "gap_note g = map_option (\<lambda>gap. gap_gap_id gap @ '': '' @ gap_description gap) (map_of STATS_GAP_BY_ID g)"

definition rows_of :: "(string \<times> observation list) list \<Rightarrow> run_context \<Rightarrow> kpi_definition \<Rightarrow> string option \<Rightarrow> value_row list" where
  "rows_of observations c d p =
     (case kd_gap_id d of
        Some g \<Rightarrow> [(base_row c d p)\<lparr>vr_note := gap_note g\<rparr>]
      | None \<Rightarrow>
          (if observations_of observations (kd_kpi_id d) p = [] then [(base_row c d p)\<lparr>vr_note := Some NO_DATA_NOTE\<rparr>]
           else map (observed_row c d p) (sort_key (\<lambda>ob. (opt_str (ob_class ob), opt_str (ob_pct ob)))
                  (observations_of observations (kd_kpi_id d) p))))"

lemma gaps_documented: "d \<in> set KPI_DEFINITIONS \<Longrightarrow> kd_gap_id d = Some g \<Longrightarrow> map_of STATS_GAP_BY_ID g \<noteq> None"
  by (auto simp: KPI_DEFINITIONS_def STATS_GAP_BY_ID_def STATS_GAPS_def)

lemma kpi_ids_distinct: "distinct (map kd_kpi_id KPI_DEFINITIONS)"
  by (simp add: KPI_DEFINITIONS_def)

lemma kpi_id_inj: "d \<in> set KPI_DEFINITIONS \<Longrightarrow> d' \<in> set KPI_DEFINITIONS \<Longrightarrow> kd_kpi_id d = kd_kpi_id d' \<Longrightarrow> d = d'"
  using kpi_ids_distinct by (auto simp: distinct_map inj_on_def)

lemma port_rows_eq:
  assumes "d \<in> set KPI_DEFINITIONS"
  shows "port_rows observations c d p = Inr (rows_of observations c d p)"
proof (cases "kd_gap_id d")
  case (Some g)
  with gaps_documented [OF assms Some] obtain gap where "map_of STATS_GAP_BY_ID g = Some gap" by auto
  with Some show ?thesis by (simp add: port_rows_def rows_of_def gap_note_def)
qed (simp add: port_rows_def rows_of_def Let_def)

lemma mapR_pure: "(\<And>x. x \<in> set xs \<Longrightarrow> f x = Inr (g x)) \<Longrightarrow> mapR f xs = Inr (map g xs)"
  by (induction xs) simp_all

lemma emit_eq:
  "emit_value_rows observations ports c =
   Inr (concat (map (\<lambda>d. concat (map (rows_of observations c d) ports)) KPI_DEFINITIONS))"
proof -
  have "mapR (\<lambda>d. mapR (port_rows observations c d) ports) KPI_DEFINITIONS =
      Inr (map (\<lambda>d. map (rows_of observations c d) ports) KPI_DEFINITIONS)"
    by (intro mapR_pure port_rows_eq)
  moreover have "concat (concat (map (\<lambda>d. map (rows_of observations c d) ports) ds)) =
      concat (map (\<lambda>d. concat (map (rows_of observations c d) ports)) ds)" for ds
    by (induction ds) simp_all
  ultimately show ?thesis by (simp add: emit_value_rows_def)
qed

lemma rows_of_owner: "r \<in> set (rows_of observations c d p) \<Longrightarrow> vr_kpi r = kd_kpi_id d \<and> vr_port r = p"
  by (auto simp: rows_of_def base_row_def observed_row_def split: option.splits if_splits)

lemma filter_concat_own:
  assumes "distinct xs" "x \<in> set xs" "\<And>y r. y \<in> set xs \<Longrightarrow> r \<in> set (f y) \<Longrightarrow> P r \<longleftrightarrow> y = x"
  shows "filter P (concat (map f xs)) = f x"
  using assms
proof (induction xs)
  case (Cons y ys)
  have other: "filter P (concat (map f ys)) = []" if "x \<notin> set ys"
    using that Cons.prems(3) by (auto simp: filter_empty_conv)
  show ?case
  proof (cases "y = x")
    case True
    with Cons.prems have "filter P (f y) = f y" by (auto simp: filter_id_conv)
    with True Cons.prems(1) other show ?thesis by simp
  next
    case False
    with Cons.prems have "filter P (f y) = []" by (auto simp: filter_empty_conv)
    with False Cons show ?thesis by simp
  qed
qed simp

definition own_rows :: "kpi_definition \<Rightarrow> string option \<Rightarrow> value_row list \<Rightarrow> value_row list" where
  "own_rows d p rows = filter (\<lambda>r. vr_kpi r = kd_kpi_id d \<and> vr_port r = p) rows"

lemma own_rows_emitted:
  assumes "emit_value_rows observations ports c = Inr rows" "distinct ports" "d \<in> set KPI_DEFINITIONS" "p \<in> set ports"
  shows "own_rows d p rows = rows_of observations c d p"
proof -
  have "filter (\<lambda>r. vr_kpi r = kd_kpi_id d \<and> vr_port r = p) (concat (map (\<lambda>d. concat (map (rows_of observations c d) ports)) KPI_DEFINITIONS)) =
      filter (\<lambda>r. vr_port r = p) (filter (\<lambda>r. vr_kpi r = kd_kpi_id d) (concat (map (\<lambda>d. concat (map (rows_of observations c d) ports)) KPI_DEFINITIONS)))"
    by (simp add: conj_commute)
  also have "filter (\<lambda>r. vr_kpi r = kd_kpi_id d) (concat (map (\<lambda>d. concat (map (rows_of observations c d) ports)) KPI_DEFINITIONS)) =
      concat (map (rows_of observations c d) ports)"
  proof (rule filter_concat_own)
    show "distinct KPI_DEFINITIONS" using kpi_ids_distinct by (simp add: distinct_map)
    show "d \<in> set KPI_DEFINITIONS" by (rule assms(3))
    show "(vr_kpi r = kd_kpi_id d) = (d' = d)" if "d' \<in> set KPI_DEFINITIONS" "r \<in> set (concat (map (rows_of observations c d') ports))" for d' r
      using that kpi_id_inj [OF that(1) assms(3)] by (auto dest: rows_of_owner)
  qed
  also have "filter (\<lambda>r. vr_port r = p) (concat (map (rows_of observations c d) ports)) = rows_of observations c d p"
    by (rule filter_concat_own [OF assms(2,4)]) (auto dest: rows_of_owner)
  finally show ?thesis using assms(1) by (simp add: own_rows_def emit_eq)
qed

text \<open>What a row says of its segment: no data, or one observation.\<close>

definition row_figure :: "value_row \<Rightarrow> string option \<times> string option \<times> pyfloat option \<times> int" where
  "row_figure r = (vr_class r, vr_pct r, vr_value r, vr_n r)"

definition observed_figure :: "observation \<Rightarrow> string option \<times> string option \<times> pyfloat option \<times> int" where
  "observed_figure ob = (ob_class ob, ob_pct ob, Some (ob_value ob), ob_n ob)"

text \<open>
  Claim C27. The value rows cover every KPI and every discovered port exactly: a gap KPI, and a KPI without observations
  at the port, has one row with no value, no observations and a coverage note, and any other KPI has one row per
  observation at the port with its figures; there is no other row, and emitting them never fails.
\<close>

theorem value_rows_exact:
  assumes "distinct ports" and "d \<in> set KPI_DEFINITIONS" and "p \<in> set ports"
  shows "\<exists>rows. emit_value_rows observations ports c = Inr rows \<and>
    (let obs = observations_of observations (kd_kpi_id d) p; own = own_rows d p rows in
     if kd_gap_id d \<noteq> None \<or> obs = []
     then map row_figure own = [(None, None, None, 0)] \<and> (\<forall>r\<in>set own. vr_note r \<noteq> None)
     else mset (map row_figure own) = mset (map observed_figure obs)) \<and>
    (\<forall>r\<in>set rows. \<exists>d\<in>set KPI_DEFINITIONS. \<exists>p\<in>set ports. r \<in> set (own_rows d p rows))"
proof -
  define rows where "rows = concat (map (\<lambda>d. concat (map (rows_of observations c d) ports)) KPI_DEFINITIONS)"
  have e: "emit_value_rows observations ports c = Inr rows" by (simp add: emit_eq rows_def)
  have own: "own_rows d p rows = rows_of observations c d p" by (rule own_rows_emitted [OF e assms])
  have "\<exists>d\<in>set KPI_DEFINITIONS. \<exists>p\<in>set ports. r \<in> set (own_rows d p rows)" if "r \<in> set rows" for r
  proof -
    from that obtain d' p' where "d' \<in> set KPI_DEFINITIONS" "p' \<in> set ports" "r \<in> set (rows_of observations c d' p')"
      by (auto simp: rows_def)
    with that rows_of_owner show ?thesis by (fastforce simp: own_rows_def)
  qed
  moreover have "let obs = observations_of observations (kd_kpi_id d) p; own = own_rows d p rows in
     if kd_gap_id d \<noteq> None \<or> obs = []
     then map row_figure own = [(None, None, None, 0)] \<and> (\<forall>r\<in>set own. vr_note r \<noteq> None)
     else mset (map row_figure own) = mset (map observed_figure obs)"
  proof (cases "kd_gap_id d")
    case (Some g)
    with gaps_documented [OF assms(2) Some] show ?thesis
      by (auto simp: own rows_of_def row_figure_def base_row_def gap_note_def)
  next
    case None
    have "row_figure (observed_row c d p ob) = observed_figure ob" for ob
      by (simp add: row_figure_def observed_figure_def observed_row_def)
    with None show ?thesis
      by (simp add: own rows_of_def Let_def row_figure_def base_row_def comp_def)
  qed
  ultimately show ?thesis using e by blast
qed

definition sample_context :: run_context where
  "sample_context = \<lparr>rc_run = ''r'', rc_period = ''2026-09'', rc_source = SILVER_TABLE_LABEL, rc_version = 3, rc_hash = ''h'', rc_at = 0\<rparr>"

lemma value_rows_exact_witness:
  "\<exists>rows. emit_value_rows [] [None] sample_context = Inr rows \<and>
     map row_figure (own_rows (hd KPI_DEFINITIONS) None rows) = [(None, None, None, 0)]"
proof -
  have d: "hd KPI_DEFINITIONS \<in> set KPI_DEFINITIONS" "kd_gap_id (hd KPI_DEFINITIONS) = None" by (simp_all add: KPI_DEFINITIONS_def)
  from value_rows_exact [of "[None]" "hd KPI_DEFINITIONS" None "[]" sample_context] d show ?thesis
    by (auto simp: Let_def observations_of_def)
qed

lemma sort_key_Nil_iff [simp]: "sort_key f xs = [] \<longleftrightarrow> xs = []"
  by (metis set_empty set_sort)

lemma rows_of_not_Nil: "rows_of observations c d p \<noteq> []"
  by (auto simp: rows_of_def split: option.splits)

section \<open>Segments\<close>

lemma distinct_concat_keys:
  assumes "distinct xs" "\<And>x. x \<in> set xs \<Longrightarrow> distinct (map key (f x))"
    and "\<And>x y r s. x \<in> set xs \<Longrightarrow> y \<in> set xs \<Longrightarrow> r \<in> set (f x) \<Longrightarrow> s \<in> set (f y) \<Longrightarrow> key r = key s \<Longrightarrow> x = y"
  shows "distinct (map key (concat (map f xs)))"
  using assms
proof (induction xs)
  case (Cons x xs)
  have "distinct (map key (concat (map f xs)))"
    by (rule Cons.IH) (use Cons.prems in auto)
  moreover have "key r \<noteq> key s" if "r \<in> set (f x)" "s \<in> set (f y)" "y \<in> set xs" for r s y
    using Cons.prems(1) Cons.prems(3) [of x y r s] that by auto
  ultimately show ?case using Cons.prems(2) [of x] by (auto simp: image_iff)
qed simp

definition row_segment :: "value_row \<Rightarrow> string \<times> string option \<times> string option \<times> string option" where
  "row_segment r = (vr_kpi r, vr_port r, vr_class r, vr_pct r)"

lemma rows_of_segments:
  assumes "\<And>k obs. (k, obs) \<in> set observations \<Longrightarrow> distinct (map segment obs)"
  shows "distinct (map row_segment (rows_of observations c d p))"
proof -
  let ?obs = "observations_of observations (kd_kpi_id d) p"
  have o: "distinct (map segment ?obs)" "\<forall>ob\<in>set ?obs. ob_port ob = p"
    using assms by (auto simp: observations_of_def distinct_map inj_on_def split: option.splits dest!: map_of_SomeD)
  have "distinct (map row_segment (map (observed_row c d p) (sort_key f ?obs)))" for f :: "observation \<Rightarrow> string \<times> string"
  proof -
    have "map row_segment (map (observed_row c d p) ?obs) = map (\<lambda>s. (kd_kpi_id d, p, snd s)) (map segment ?obs)"
      by (simp add: row_segment_def observed_row_def base_row_def segment_def)
    moreover have "distinct (map (\<lambda>s. (kd_kpi_id d, p, snd s)) (map segment ?obs))"
      using o by (auto simp: distinct_map inj_on_def segment_def)
    moreover have "mset (map row_segment (map (observed_row c d p) (sort_key f ?obs))) = mset (map row_segment (map (observed_row c d p) ?obs))"
      by simp
    ultimately show ?thesis using mset_eq_imp_distinct_iff by metis
  qed
  then show ?thesis by (auto simp: rows_of_def split: option.splits)
qed

lemma discover_distinct: "distinct (discover_ports facts scans bookings) \<and> discover_ports facts scans bookings \<noteq> []"
  by (auto simp: discover_ports_def Let_def distinct_map)

lemma emitted_segments:
  assumes "\<And>k obs. (k, obs) \<in> set observations \<Longrightarrow> distinct (map segment obs)" "distinct ports"
    and "emit_value_rows observations ports c = Inr rows"
  shows "distinct (map row_segment rows)"
proof -
  have "distinct (map row_segment (concat (map (\<lambda>d. concat (map (rows_of observations c d) ports)) KPI_DEFINITIONS)))"
  proof (rule distinct_concat_keys)
    show "distinct KPI_DEFINITIONS" using kpi_ids_distinct by (simp add: distinct_map)
    show "distinct (map row_segment (concat (map (rows_of observations c d) ports)))" for d
      by (rule distinct_concat_keys [OF assms(2)]) (auto simp: rows_of_segments assms(1) row_segment_def dest!: rows_of_owner)
    show "d = d'" if "d \<in> set KPI_DEFINITIONS" "d' \<in> set KPI_DEFINITIONS" "r \<in> set (concat (map (rows_of observations c d) ports))"
      "s \<in> set (concat (map (rows_of observations c d') ports))" "row_segment r = row_segment s" for d d' r s
      using that kpi_id_inj [OF that(1,2)] by (auto simp: row_segment_def dest!: rows_of_owner)
  qed
  with assms(3) show ?thesis by (simp add: emit_eq)
qed

text \<open>
  The rows of a period are never empty and never repeat a segment: no two of them agree in KPI, port, ship
  class and percentile.
\<close>

theorem value_rows_keyed:
  assumes "compute_kpi_observations facts scans bookings = Inr observations"
    and "emit_value_rows observations (discover_ports facts scans bookings) c = Inr rows"
  shows "rows \<noteq> [] \<and> distinct (map row_segment rows)"
proof
  have "distinct (map segment obs)" if "(k, obs) \<in> set observations" for k obs
    using observations_keyed [OF assms(1)] that by auto
  then show "distinct (map row_segment rows)"
    using discover_distinct assms(2) by (blast intro: emitted_segments)
  obtain p where p: "p \<in> set (discover_ports facts scans bookings)"
    using discover_distinct [of facts scans bookings] by (cases "discover_ports facts scans bookings") auto
  have d: "hd KPI_DEFINITIONS \<in> set KPI_DEFINITIONS" by (simp add: KPI_DEFINITIONS_def)
  have "own_rows (hd KPI_DEFINITIONS) p rows = rows_of observations c (hd KPI_DEFINITIONS) p"
    using own_rows_emitted [OF assms(2) _ d p] discover_distinct by blast
  with rows_of_not_Nil [of observations c "hd KPI_DEFINITIONS" p] show "rows \<noteq> []" by (auto simp: own_rows_def)
qed

text \<open>
  Observations without a port are lost as soon as any port is known: the discovered ports then do not
  include the absent one, so no row reports them, although the module promises that nothing is omitted.
\<close>

theorem unattributed_observations_omitted:
  assumes "compute_kpi_observations facts scans bookings = Inr observations" and "facts \<noteq> []"
    and "emit_value_rows observations (discover_ports facts scans bookings) c = Inr rows"
  shows "\<forall>r\<in>set rows. vr_port r \<noteq> None"
proof -
  have "None \<notin> set (discover_ports facts scans bookings)"
  proof -
    let ?ports = "sort (remdups (concat (map (\<lambda>p. case p of None \<Rightarrow> [] | Some s \<Rightarrow> [s])
      (map (\<lambda>f. Some (pf_port f)) facts @ map gs_port scans @ map bk_port bookings))))"
    have "pf_port (hd facts) \<in> set ?ports" using assms(2) by (cases facts) simp_all
    then have "?ports \<noteq> []" by (metis list.set_cases list.distinct(1))
    then show ?thesis by (simp only: discover_ports_def Let_def if_True) auto
  qed
  moreover have "vr_port r \<in> set (discover_ports facts scans bookings)" if "r \<in> set rows" for r
    using that assms(3) by (auto simp: emit_eq dest!: rows_of_owner)
  ultimately show ?thesis by metis
qed

definition sample_fact :: port_fact where
  "sample_fact = \<lparr>pf_call = ''c1'', pf_port = ''NGAPP'', pf_vessel = None, pf_class = None, pf_status = ''ACCEPTED'',
     pf_arrived = Some 5, pf_berthed = None, pf_departed = None, pf_tonnage = None, pf_events = [''e1'']\<rparr>"

definition sample_scan :: "string \<Rightarrow> string \<Rightarrow> gate_scan" where
  "sample_scan direction event =
     \<lparr>gs_truck = ''t'', gs_terminal = [], gs_port = None, gs_direction = direction, gs_at = 7, gs_event = event\<rparr>"

lemma zero_minutes: "minutes 0 = PFin 0" "round6 (PFin 0) = PFin 0"
  by (simp_all add: minutes_def total_seconds_def per_def round_double_def round_half_even_def Let_def)

lemma sample_observations:
  "\<exists>observations. compute_kpi_observations [sample_fact] [sample_scan ''in'' ''s1'', sample_scan ''out'' ''s2''] [] = Inr observations \<and>
     observations_of observations ''truck_gate_turnaround_minutes'' None \<noteq> []"
proof -
  have g: "gate_durations_minutes [sample_scan ''in'' ''s1'', sample_scan ''out'' ''s2''] = [(None, [PFin 0])]"
    by (simp add: gate_durations_minutes_def group_by_def dict_push_def sample_scan_def pair_group_def pair_step_def zero_minutes)
  have f: "float_of_int 1 = Inr (PFin 1)" by (simp add: float_of_int_exact)
  show ?thesis
    by (simp add: compute_kpi_observations_def g sample_fact_def ACCEPTED_OR_BEYOND_def vessel_calls_def count_call_def bump_def f
        call_observation_def quantiles_def by_port_def turnaround_times_def waiting_times_def push_span_def tonnages_def throughput_def
        quantile_observation_def P50_def percentile_linear_def one_half_def zero_minutes observations_of_def guard_def)
qed

lemma unattributed_observations_omitted_witness:
  "\<exists>observations rows. compute_kpi_observations [sample_fact] [sample_scan ''in'' ''s1'', sample_scan ''out'' ''s2''] [] = Inr observations \<and>
     emit_value_rows observations [Some ''NGAPP''] sample_context = Inr rows \<and>
     observations_of observations ''truck_gate_turnaround_minutes'' None \<noteq> [] \<and> (\<forall>r\<in>set rows. vr_port r \<noteq> None)"
proof -
  have p: "discover_ports [sample_fact] [sample_scan ''in'' ''s1'', sample_scan ''out'' ''s2''] [] = [Some ''NGAPP'']"
    by (simp add: discover_ports_def sample_fact_def sample_scan_def)
  obtain observations where o: "compute_kpi_observations [sample_fact] [sample_scan ''in'' ''s1'', sample_scan ''out'' ''s2''] [] = Inr observations"
    "observations_of observations ''truck_gate_turnaround_minutes'' None \<noteq> []"
    using sample_observations by blast
  from unattributed_observations_omitted [OF o(1), of sample_context] o show ?thesis unfolding p by (auto simp: emit_eq)
qed

lemma value_rows_keyed_witness:
  "\<exists>observations rows. compute_kpi_observations [sample_fact] [sample_scan ''in'' ''s1'', sample_scan ''out'' ''s2''] [] = Inr observations \<and>
     emit_value_rows observations [Some ''NGAPP''] sample_context = Inr rows \<and> distinct (map row_segment rows)"
proof -
  have p: "discover_ports [sample_fact] [sample_scan ''in'' ''s1'', sample_scan ''out'' ''s2''] [] = [Some ''NGAPP'']"
    by (simp add: discover_ports_def sample_fact_def sample_scan_def)
  obtain observations where o: "compute_kpi_observations [sample_fact] [sample_scan ''in'' ''s1'', sample_scan ''out'' ''s2''] [] = Inr observations"
    using sample_observations by blast
  from value_rows_keyed [OF o, of sample_context] o show ?thesis unfolding p by (auto simp: emit_eq)
qed

end
