(* ===== verification/Kpi_Properties.thy ===== *)
theory Kpi_Properties
  imports Kpi_Values
begin

text \<open>
  What the figures of the port KPIs are: the vessel-call counts, the paired gate scans, and the facts they are computed
  from.
\<close>

section \<open>Vessel calls\<close>

definition calls_at :: "string option \<times> string option \<Rightarrow> port_fact list \<Rightarrow> nat" where
  "calls_at k fs = length (filter (\<lambda>f. Some (pf_port f) = fst k \<and> (snd k = None \<or> pf_class f = snd k)) fs)"

lemma map_of_bump: "map_of (bump k d) k' = (if k' = k then Some ((case map_of d k of None \<Rightarrow> 0 | Some n \<Rightarrow> n) + 1) else map_of d k')"
  by (simp add: bump_def)

lemma call_counts: "map_of (foldl count_call [] fs) k = (if calls_at k fs = 0 then None else Some (int (calls_at k fs)))"
proof (induction fs arbitrary: k rule: rev_induct)
  case Nil
  then show ?case by (simp add: calls_at_def)
next
  case (snoc f fs)
  define d where "d = foldl count_call [] fs"
  have d: "map_of d k = (if calls_at k fs = 0 then None else Some (int (calls_at k fs)))" for k
    unfolding d_def by (rule snoc)
  have "map_of (count_call d f) k = (if calls_at k (fs @ [f]) = 0 then None else Some (int (calls_at k (fs @ [f]))))"
    by (cases "pf_class f"; cases "fst k = Some (pf_port f)"; cases "snd k")
      (auto simp: count_call_def Let_def map_of_bump d calls_at_def prod_eq_iff)
  then show ?case by (simp add: d_def)
qed

text \<open>
  The vessel calls of a port are counted once: the observation without a ship class counts the accepted calls of
  the port, the one of a ship class those of the class, and there is an observation exactly for the ports and classes
  that have such calls.
\<close>

theorem vessel_calls_counted:
  assumes "compute_kpi_observations facts scans bookings = Inr observations"
  shows "\<exists>obs. map_of observations ''vessel_calls'' = Some obs \<and>
    (let accepted = filter (\<lambda>f. pf_status f \<in> set ACCEPTED_OR_BEYOND) facts in
     (\<forall>ob\<in>set obs. ob_pct ob = None \<and> ob_n ob = int (calls_at (ob_port ob, ob_class ob) accepted) \<and>
        0 < ob_n ob \<and> float_of_int (ob_n ob) = Inr (ob_value ob)) \<and>
     (\<forall>p c. 0 < calls_at (p, c) accepted \<longrightarrow> (\<exists>ob\<in>set obs. ob_port ob = p \<and> ob_class ob = c)))"
proof -
  define accepted where "accepted = filter (\<lambda>f. pf_status f \<in> set ACCEPTED_OR_BEYOND) facts"
  let ?d = "foldl count_call [] accepted"
  from assms obtain obs where v: "vessel_calls accepted = Inr obs" and m: "map_of observations ''vessel_calls'' = Some obs"
    unfolding compute_kpi_observations_def Let_def accepted_def [symmetric] bindR_Inr_iff
    by (auto simp: bindR_Inr_iff split: prod.splits)
  have l: "list_all2 (\<lambda>e ob. call_observation e = Inr ob)
      (sort_key (\<lambda>e. (opt_str (fst (fst e)), opt_str (snd (fst e)))) ?d) obs"
    using v by (simp add: vessel_calls_def mapR_Inr_iff)
  have entry: "n = int (calls_at k accepted) \<and> 0 < n" if "(k, n) \<in> set ?d" for k n
  proof -
    from that call_counts_distinct have "map_of ?d k = Some n" by simp
    then show ?thesis by (auto simp: call_counts split: if_splits)
  qed
  have obs: "ob_pct ob = None \<and> ob_n ob = int (calls_at (ob_port ob, ob_class ob) accepted) \<and> 0 < ob_n ob \<and>
      float_of_int (ob_n ob) = Inr (ob_value ob)" if ob: "ob \<in> set obs" for ob
  proof -
    from list_all2_in_left [OF l ob] obtain p c n where e: "((p, c), n) \<in> set ?d" "call_observation ((p, c), n) = Inr ob" by auto
    then have "ob_port ob = p \<and> ob_class ob = c \<and> ob_n ob = n \<and> ob_pct ob = None \<and> float_of_int n = Inr (ob_value ob)"
      by (auto simp: call_observation_def bindR_Inr_iff)
    with entry [OF e(1)] show ?thesis by simp
  qed
  have ex: "\<exists>ob\<in>set obs. ob_port ob = p \<and> ob_class ob = c" if "0 < calls_at (p, c) accepted" for p c
  proof -
    from that call_counts [of accepted "(p, c)"] have "map_of ?d (p, c) = Some (int (calls_at (p, c) accepted))" by simp
    then have "((p, c), int (calls_at (p, c) accepted)) \<in> set ?d" by (rule map_of_SomeD)
    then obtain ob where ob: "ob \<in> set obs" "call_observation ((p, c), int (calls_at (p, c) accepted)) = Inr ob"
      using list_all2_in_right [OF l] by force
    from ob(2) have "ob_port ob = p \<and> ob_class ob = c" by (auto simp: call_observation_def bindR_Inr_iff)
    with ob(1) show ?thesis by blast
  qed
  show ?thesis unfolding Let_def accepted_def [symmetric] using m obs ex by blast
qed

lemma vessel_calls_counted_witness:
  "\<exists>observations obs. compute_kpi_observations [sample_fact] [] [] = Inr observations \<and>
     map_of observations ''vessel_calls'' = Some obs \<and> (\<exists>ob\<in>set obs. ob_port ob = Some ''NGAPP'' \<and> ob_n ob = 1)"
proof -
  have f: "float_of_int 1 = Inr (PFin 1)" by (simp add: float_of_int_exact)
  have "\<exists>observations. compute_kpi_observations [sample_fact] [] [] = Inr observations"
    by (simp add: compute_kpi_observations_def sample_fact_def ACCEPTED_OR_BEYOND_def vessel_calls_def count_call_def bump_def f
        call_observation_def quantiles_def by_port_def turnaround_times_def waiting_times_def push_span_def tonnages_def throughput_def
        gate_durations_minutes_def group_by_def)
  then obtain observations where o: "compute_kpi_observations [sample_fact] [] [] = Inr observations" by blast
  have c: "calls_at (Some ''NGAPP'', None) (filter (\<lambda>f. pf_status f \<in> set ACCEPTED_OR_BEYOND) [sample_fact]) = 1"
    by (simp add: calls_at_def sample_fact_def ACCEPTED_OR_BEYOND_def)
  from vessel_calls_counted [OF o] obtain obs where obs: "map_of observations ''vessel_calls'' = Some obs"
    "\<forall>ob\<in>set obs. ob_n ob = int (calls_at (ob_port ob, ob_class ob) (filter (\<lambda>f. pf_status f \<in> set ACCEPTED_OR_BEYOND) [sample_fact]))"
    "\<forall>p c. 0 < calls_at (p, c) (filter (\<lambda>f. pf_status f \<in> set ACCEPTED_OR_BEYOND) [sample_fact]) \<longrightarrow> (\<exists>ob\<in>set obs. ob_port ob = p \<and> ob_class ob = c)"
    unfolding Let_def by blast
  from obs(3) c obtain ob where ob: "ob \<in> set obs" "ob_port ob = Some ''NGAPP''" "ob_class ob = None" by force
  with obs(2) c have "ob_n ob = 1" by fastforce
  with o obs(1) ob show ?thesis by blast
qed

section \<open>Gate scans\<close>

definition gate_pair :: "gate_scan list \<Rightarrow> string option \<Rightarrow> pyfloat \<Rightarrow> bool" where
  "gate_pair scans port m \<longleftrightarrow>
     (\<exists>i\<in>set scans. \<exists>out\<in>set scans. gs_direction i = ''in'' \<and> gs_direction out \<noteq> ''in'' \<and> gs_truck i = gs_truck out \<and>
        gs_terminal i = gs_terminal out \<and> gs_at i \<le> gs_at out \<and> gs_port out = port \<and> m = minutes (gs_at out - gs_at i))"

definition out_scans :: "gate_scan list \<Rightarrow> nat" where
  "out_scans scans = length (filter (\<lambda>s. gs_direction s \<noteq> ''in'') scans)"

definition durations_count :: "(string option \<times> pyfloat list) list \<Rightarrow> nat" where
  "durations_count d = length (concat (map snd d))"

definition all_pairs :: "gate_scan list \<Rightarrow> (string option \<times> pyfloat list) list \<Rightarrow> bool" where
  "all_pairs scans d \<longleftrightarrow> (\<forall>port ms. map_of d port = Some ms \<longrightarrow> (\<forall>m\<in>set ms. gate_pair scans port m))"

lemma all_pairs_push:
  assumes "all_pairs scans d" "gate_pair scans port m"
  shows "all_pairs scans (dict_push port m d)"
  using assms by (auto simp: all_pairs_def dict_push_def split: option.splits if_splits)

lemma push_count: "distinct (map fst d) \<Longrightarrow> durations_count (dict_push k v d) = durations_count d + 1"
  using arg_cong [OF mset_dict_push [of d k v], of size] by (simp add: durations_count_def)

text \<open>The scans of one truck at one terminal, in order: each gate-out closes the gate-in before it at most once.\<close>

lemma pair_fold:
  assumes "sorted (map gs_at xs)" "set xs \<subseteq> set scans" "\<forall>s\<in>set xs. gs_truck s = truck \<and> gs_terminal s = terminal"
    and "all_pairs scans d" "distinct (map fst d)"
    and "\<forall>i. open_in = Some i \<longrightarrow> i \<in> set scans \<and> gs_direction i = ''in'' \<and> gs_truck i = truck \<and> gs_terminal i = terminal \<and>
          (\<forall>s\<in>set xs. gs_at i \<le> gs_at s)"
  shows "all_pairs scans (snd (foldl pair_step (open_in, d) xs)) \<and> distinct (map fst (snd (foldl pair_step (open_in, d) xs))) \<and>
    durations_count (snd (foldl pair_step (open_in, d) xs)) \<le> durations_count d + out_scans xs"
  using assms
proof (induction xs arbitrary: open_in d)
  case (Cons s xs)
  obtain open' d' where st: "pair_step (open_in, d) s = (open', d')" by (cases "pair_step (open_in, d) s")
  have pair: "all_pairs scans (dict_push (gs_port s) m d)" if "open_in = Some i" "gs_direction s \<noteq> ''in''" "m = minutes (gs_at s - gs_at i)" for i m
  proof (rule all_pairs_push [OF Cons.prems(4)])
    have i: "i \<in> set scans" "gs_direction i = ''in''" "gs_truck i = truck" "gs_terminal i = terminal" "gs_at i \<le> gs_at s"
      using Cons.prems(6) that(1) by auto
    moreover have "s \<in> set scans" "gs_truck s = truck" "gs_terminal s = terminal" using Cons.prems(2,3) by auto
    ultimately show "gate_pair scans (gs_port s) m"
      unfolding gate_pair_def by (intro bexI [of _ i] bexI [of _ s]) (simp_all add: that)
  qed
  have step: "all_pairs scans d' \<and> distinct (map fst d') \<and> durations_count d' \<le> durations_count d + out_scans [s] \<and>
      (\<forall>i. open' = Some i \<longrightarrow> i \<in> set scans \<and> gs_direction i = ''in'' \<and> gs_truck i = truck \<and> gs_terminal i = terminal \<and>
          (\<forall>s\<in>set xs. gs_at i \<le> gs_at s))"
  proof (cases "gs_direction s = ''in''")
    case True
    with st have "open' = Some s" "d' = d" by (auto simp: pair_step_def)
    with True Cons.prems show ?thesis by auto
  next
    case False
    show ?thesis
    proof (cases open_in)
      case None
      with False st have "open' = None" "d' = d" by (auto simp: pair_step_def)
      with Cons.prems show ?thesis by simp
    next
      case (Some i)
      define m where "m = minutes (gs_at s - gs_at i)"
      from Some False st have "open' = None" "d' = (if fl_le (PFin 0) m then dict_push (gs_port s) m d else d)"
        by (auto simp: pair_step_def Let_def m_def)
      moreover have "out_scans [s] = 1" using False by (simp add: out_scans_def)
      ultimately show ?thesis
        using pair [OF Some False m_def] push_count [OF Cons.prems(5)] Cons.prems(4,5) distinct_dict_push [OF Cons.prems(5)] by simp
    qed
  qed
  have "all_pairs scans (snd (foldl pair_step (open', d') xs)) \<and> distinct (map fst (snd (foldl pair_step (open', d') xs))) \<and>
      durations_count (snd (foldl pair_step (open', d') xs)) \<le> durations_count d' + out_scans xs"
    by (rule Cons.IH) (use Cons.prems step in auto)
  moreover have "out_scans (s # xs) = out_scans [s] + out_scans xs" by (simp add: out_scans_def)
  ultimately show ?case using step st by simp
qed (simp add: out_scans_def)

lemma out_scans_mset: "mset xs = mset ys \<Longrightarrow> out_scans xs = out_scans ys"
  unfolding out_scans_def by (metis mset_filter size_mset)

lemma pair_group_facts:
  assumes "set xs \<subseteq> set scans" "\<forall>s\<in>set xs. gs_truck s = truck \<and> gs_terminal s = terminal" "all_pairs scans d" "distinct (map fst d)"
  shows "all_pairs scans (pair_group d xs) \<and> distinct (map fst (pair_group d xs)) \<and>
    durations_count (pair_group d xs) \<le> durations_count d + out_scans xs"
proof -
  let ?ys = "sort_key (\<lambda>s. (gs_at s, gs_event s)) xs"
  have "sorted (map (\<lambda>s. (gs_at s, gs_event s)) ?ys)" by simp
  then have "sorted (map gs_at ?ys)"
    by (auto simp: sorted_wrt_map less_eq_prod_def elim: sorted_wrt_mono_rel [rotated])
  from pair_fold [OF this, of scans truck terminal d None] assms show ?thesis
    by (simp add: pair_group_def out_scans_mset [of ?ys xs])
qed

text \<open>
  A gate turnaround time is never invented and never negative: each is the time from a gate-in to a later
  gate-out of the same truck at the same terminal, booked to the port of the gate-out, and there are at most as many
  as gate-out scans.
\<close>

theorem gate_durations_paired:
  shows "(\<forall>(port, ms)\<in>set (gate_durations_minutes scans). \<forall>m\<in>set ms. gate_pair scans port m \<and> fl_le (PFin 0) m) \<and>
    durations_count (gate_durations_minutes scans) \<le> out_scans scans"
proof -
  define groups where "groups = group_by (\<lambda>s. (gs_truck s, gs_terminal s)) (\<lambda>s. s) scans"
  have part: "all_pairs scans (foldl (\<lambda>d (key, xs). pair_group d xs) d gs) \<and>
      distinct (map fst (foldl (\<lambda>d (key, xs). pair_group d xs) d gs)) \<and>
      durations_count (foldl (\<lambda>d (key, xs). pair_group d xs) d gs) \<le> durations_count d + out_scans (concat (map snd gs))"
    if "set gs \<subseteq> set groups" "all_pairs scans d" "distinct (map fst d)" for gs d
    using that
  proof (induction gs arbitrary: d)
    case (Cons g gs)
    obtain k xs where g: "g = (k, xs)" by (cases g)
    with Cons.prems(1) have xs: "xs = filter (\<lambda>s. (gs_truck s, gs_terminal s) = k) scans"
      using group_by_entry [of k xs "\<lambda>s. (gs_truck s, gs_terminal s)" "\<lambda>s. s" scans] by (simp add: groups_def)
    have p: "all_pairs scans (pair_group d xs) \<and> distinct (map fst (pair_group d xs)) \<and>
        durations_count (pair_group d xs) \<le> durations_count d + out_scans xs"
      by (rule pair_group_facts [of _ _ "fst k" "snd k"]) (use xs Cons.prems in auto)
    with Cons.IH [of "pair_group d xs"] Cons.prems(1) g show ?case by (auto simp: out_scans_def)
  qed (simp add: out_scans_def)
  have "mset (concat (map snd groups)) = mset scans" using mset_group_by [of "\<lambda>s. (gs_truck s, gs_terminal s)" "\<lambda>s. s" scans] by (simp add: groups_def)
  from out_scans_mset [OF this] part [of groups "[]"]
  have r: "all_pairs scans (gate_durations_minutes scans)" "distinct (map fst (gate_durations_minutes scans))"
    "durations_count (gate_durations_minutes scans) \<le> out_scans scans"
    by (simp_all add: gate_durations_minutes_def groups_def all_pairs_def durations_count_def)
  have "gate_pair scans port m \<and> fl_le (PFin 0) m" if "(port, ms) \<in> set (gate_durations_minutes scans)" "m \<in> set ms" for port ms m
  proof -
    from that(1) r(2) have "map_of (gate_durations_minutes scans) port = Some ms" by simp
    with r(1) that(2) have "gate_pair scans port m" by (auto simp: all_pairs_def)
    then show ?thesis by (auto simp: gate_pair_def minutes_nonneg)
  qed
  with r(3) show ?thesis by blast
qed

section \<open>Port-call facts\<close>

text \<open>The port-call events of a call, in the order they are read.\<close>

definition port_events :: "(string \<Rightarrow> json res) \<Rightarrow> string \<Rightarrow> row list \<Rightarrow> silver_event list" where
  "port_events loads k rows =
     concat (map (\<lambda>r. case decode_silver_event loads r of
        Inr e \<Rightarrow> (if se_type e = PORT_CALL_EVENT_TYPE \<and> jget (se_fields e) ''portCallId'' = JStr k then [e] else [])
      | Inl x \<Rightarrow> []) rows)"

definition event_order :: "silver_event \<Rightarrow> int \<times> string" where
  "event_order e = (se_at e, se_id e)"

text \<open>The optional fields of an event, and the last value a field has in a list of events.\<close>

definition instant_field :: "string \<Rightarrow> silver_event \<Rightarrow> int option" where
  "instant_field name e = (case parse_instant (jget (se_fields e) name) of Inr v \<Rightarrow> v | Inl x \<Rightarrow> None)"

definition text_field :: "string \<Rightarrow> silver_event \<Rightarrow> string option" where
  "text_field name e = (case optional_name (se_fields e) [name] of Inr v \<Rightarrow> v | Inl x \<Rightarrow> None)"

definition number_field :: "string \<Rightarrow> silver_event \<Rightarrow> pyfloat option" where
  "number_field name e = (case optional_number (se_fields e) name of Inr v \<Rightarrow> v | Inl x \<Rightarrow> None)"

definition last_value :: "(silver_event \<Rightarrow> 'a option) \<Rightarrow> silver_event list \<Rightarrow> 'a option" where
  "last_value field evs = foldl (\<lambda>v e. latest (field e) v) None evs"

lemma last_value_simps [simp]: "last_value field [] = None" "last_value field (evs @ [e]) = latest (field e) (last_value field evs)"
  by (simp_all add: last_value_def)

text \<open>The most recent value of a field: the last one in the order of occurrence, then of identifiers.\<close>

definition recent_value :: "(silver_event \<Rightarrow> 'a option) \<Rightarrow> silver_event list \<Rightarrow> 'a option" where
  "recent_value field evs = last_value field (sort_key event_order evs)"

definition latest_time :: "silver_event list \<Rightarrow> int" where
  "latest_time evs = fst (Max (event_order ` set evs))"

definition call_summary :: "call_entry \<Rightarrow> silver_event list \<Rightarrow> bool" where
  "call_summary c evs \<longleftrightarrow>
     evs \<noteq> [] \<and> ce_events c = map se_id evs \<and> ce_order c = Max (event_order ` set evs) \<and>
     (\<exists>l\<in>set evs. event_order l = ce_order c \<and> jget (se_fields l) ''status'' = JStr (ce_status c)) \<and>
     (\<forall>e\<in>set evs. jget (se_fields e) ''portCode'' = JStr (ce_port c)) \<and>
     ce_vessel c = last_value (text_field ''vesselRef'') evs \<and> ce_class c = last_value (text_field ''shipClass'') evs \<and>
     ce_arrived c = last_value (instant_field ''arrivedAt'') evs \<and> ce_berthed c = last_value (instant_field ''berthedAt'') evs \<and>
     ce_departed c = last_value (instant_field ''departedAt'') evs \<and>
     ce_tonnage c = last_value (number_field ''declaredTonnage'') evs"

lemma update_fields_Inr:
  assumes "update_fields (se_fields e) c = Inr c'"
  shows "c' = c\<lparr>ce_vessel := latest (text_field ''vesselRef'' e) (ce_vessel c), ce_class := latest (text_field ''shipClass'' e) (ce_class c),
    ce_arrived := latest (instant_field ''arrivedAt'' e) (ce_arrived c), ce_berthed := latest (instant_field ''berthedAt'' e) (ce_berthed c),
    ce_departed := latest (instant_field ''departedAt'' e) (ce_departed c),
    ce_tonnage := latest (number_field ''declaredTonnage'' e) (ce_tonnage c)\<rparr>"
  using assms by (auto simp: update_fields_def bindR_Inr_iff text_field_def instant_field_def number_field_def simp del: optional_name.simps)

text \<open>One event of a call extends its summary.\<close>

lemma call_summary_step:
  assumes "case old of None \<Rightarrow> evs = [] \<and> entry = new_call port_code (event_order e) status | Some c \<Rightarrow> call_summary c evs \<and> entry = c"
    and "ce_port entry = port_code" "jget (se_fields e) ''portCode'' = JStr port_code" "jget (se_fields e) ''status'' = JStr status"
    and "update_fields (se_fields e) (update_status (event_order e) status entry) = Inr entry'"
  shows "call_summary (entry'\<lparr>ce_events := ce_events entry' @ [se_id e]\<rparr>) (evs @ [e])"
proof -
  note f = update_fields_Inr [OF assms(5)]
  have o1: "ce_order (update_status (event_order e) status entry) = max (ce_order entry) (event_order e)"
    "ce_status (update_status (event_order e) status entry) = (if ce_order entry \<le> event_order e then status else ce_status entry)"
    by (auto simp: update_status_def max_def)
  have keep: "ce_port (update_status o' x c) = ce_port c" "ce_vessel (update_status o' x c) = ce_vessel c"
    "ce_class (update_status o' x c) = ce_class c" "ce_arrived (update_status o' x c) = ce_arrived c"
    "ce_berthed (update_status o' x c) = ce_berthed c" "ce_departed (update_status o' x c) = ce_departed c"
    "ce_tonnage (update_status o' x c) = ce_tonnage c" "ce_events (update_status o' x c) = ce_events c" for o' x c
    by (simp_all add: update_status_def)
  show ?thesis
  proof (cases old)
    case None
    with assms(1) have "evs = []" "entry = new_call port_code (event_order e) status" by auto
    with f o1 keep assms(2-4) show ?thesis by (simp add: call_summary_def new_call_def latest_def [abs_def] last_value_def)
  next
    case (Some c)
    with assms(1) have s: "call_summary c evs" "entry = c" by auto
    have m: "Max (event_order ` set (evs @ [e])) = max (Max (event_order ` set evs)) (event_order e)"
      using s(1) by (simp add: call_summary_def max.commute)
    from s(1) obtain l where l: "l \<in> set evs" "event_order l = ce_order c" "jget (se_fields l) ''status'' = JStr (ce_status c)"
      by (auto simp: call_summary_def)
    have "\<exists>l\<in>set (evs @ [e]). event_order l = ce_order entry' \<and> jget (se_fields l) ''status'' = JStr (ce_status entry')"
    proof (cases "ce_order entry \<le> event_order e")
      case True
      with f o1 assms(4) show ?thesis by (auto simp: max_def)
    next
      case False
      with f o1 l s(2) show ?thesis by (auto simp: max_def)
    qed
    with s m f o1 keep assms(2-4) show ?thesis by (auto simp: call_summary_def)
  qed
qed

definition calls_summarise :: "(string \<Rightarrow> json res) \<Rightarrow> row list \<Rightarrow> (string \<times> call_entry) list \<Rightarrow> bool" where
  "calls_summarise loads rows calls \<longleftrightarrow> distinct (map fst calls) \<and>
     (\<forall>k. case map_of calls k of None \<Rightarrow> port_events loads k rows = [] | Some c \<Rightarrow> call_summary c (port_events loads k rows))"

lemma calls_summarise_step:
  assumes "calls_summarise loads rows calls" "call_step loads calls r = Inr calls'"
  shows "calls_summarise loads (rows @ [r]) calls'"
proof -
  from assms(2) obtain e where e: "decode_silver_event loads r = Inr e" by (auto simp: call_step_def bindR_Inr_iff)
  have snoc: "port_events loads k (rows @ [r]) = port_events loads k rows @
      (if se_type e = PORT_CALL_EVENT_TYPE \<and> jget (se_fields e) ''portCallId'' = JStr k then [e] else [])" for k
    by (simp add: port_events_def e)
  show ?thesis
  proof (cases "se_type e = PORT_CALL_EVENT_TYPE")
    case False
    with assms e have c: "calls' = calls" by (simp add: call_step_def)
    have eq: "port_events loads k (rows @ [r]) = port_events loads k rows" for k using False by (simp add: snoc)
    show ?thesis using assms(1) unfolding calls_summarise_def c eq .
  next
    case True
    define entry where "entry k p s = (case map_of calls k of None \<Rightarrow> new_call p (se_at e, se_id e) s | Some x \<Rightarrow> x)" for k p s
    from assms(2) e True obtain k p s x where
      k: "jget (se_fields e) ''portCallId'' = JStr k" "jget (se_fields e) ''portCode'' = JStr p" "jget (se_fields e) ''status'' = JStr s"
      "ce_port (entry k p s) = p" "update_fields (se_fields e) (update_status (se_at e, se_id e) s (entry k p s)) = Inr x"
      "calls' = AList.update k (x\<lparr>ce_events := ce_events x @ [se_id e]\<rparr>) calls"
      by (auto simp: call_step_def bindR_Inr_iff Let_def require_field_text_Inr entry_def)
    have old: "case map_of calls k of None \<Rightarrow> port_events loads k rows = [] | Some c \<Rightarrow> call_summary c (port_events loads k rows)" for k
      using assms(1) by (simp add: calls_summarise_def)
    have "call_summary (x\<lparr>ce_events := ce_events x @ [se_id e]\<rparr>) (port_events loads k rows @ [e])"
      by (rule call_summary_step [where old = "map_of calls k", OF _ k(4,2,3) k(5) [folded event_order_def]])
        (use old [of k] in \<open>simp add: entry_def event_order_def split: option.splits\<close>)
    then have "case map_of calls' k' of None \<Rightarrow> port_events loads k' (rows @ [r]) = []
        | Some c \<Rightarrow> call_summary c (port_events loads k' (rows @ [r]))" for k'
      using old [of k'] k(1) True by (simp add: k(6) snoc split: option.splits)
    moreover have "distinct (map fst calls')" using assms(1) k(6) by (auto simp: calls_summarise_def intro: distinct_keys_update)
    ultimately show ?thesis by (simp add: calls_summarise_def)
  qed
qed

text \<open>When the events of a call are read in the order of occurrence, the last value is the most recent one.\<close>

definition read_in_order :: "(string \<Rightarrow> json res) \<Rightarrow> row list \<Rightarrow> bool" where
  "read_in_order loads rows \<longleftrightarrow> (\<forall>k. sorted (map event_order (port_events loads k rows)))"

lemma last_is_recent: "sorted (map event_order evs) \<Longrightarrow> last_value field evs = recent_value field evs"
  by (simp add: recent_value_def sorted_sort_id sort_key_id_if_sorted)

definition call_time :: "silver_event list \<Rightarrow> int" where
  "call_time evs = (case recent_value (instant_field ''arrivedAt'') evs of Some t \<Rightarrow> t | None \<Rightarrow> latest_time evs)"

lemma attributable_time: "call_summary c evs \<Longrightarrow> sorted (map event_order evs) \<Longrightarrow> attributable c = call_time evs"
  by (auto simp: call_summary_def attributable_def call_time_def latest_time_def last_is_recent split: option.splits)

text \<open>
  Claim C28. When the events of every call are read in the order of occurrence, the facts of a period are what the module documents:
  one fact per port call, in increasing order of the calls, for exactly the calls whose most recent reported arrival, or latest
  event when none reports one, falls into the period; a fact lists all events of its call, carries the status of the latest one by
  instant and identifier, and its timestamps, tonnage, ship class and hashed vessel reference are the most recent values given.
  (Read in another order, a field keeps the value read last: see \<open>facts_depend_on_read_order\<close> below.)
\<close>

theorem port_call_facts_exact:
  assumes "assemble_port_call_facts loads sha rows start finish = Inr facts" "read_in_order loads rows"
  shows "sorted_wrt (<) (map pf_call facts) \<and>
    (\<forall>k. k \<in> pf_call ` set facts \<longleftrightarrow>
       port_events loads k rows \<noteq> [] \<and> in_period (call_time (port_events loads k rows)) start finish) \<and>
    (\<forall>f\<in>set facts. let evs = port_events loads (pf_call f) rows in
       pf_events f = sort (map se_id evs) \<and> (\<forall>e\<in>set evs. jget (se_fields e) ''portCode'' = JStr (pf_port f)) \<and>
       (\<exists>l\<in>set evs. (\<forall>e\<in>set evs. event_order e \<le> event_order l) \<and> jget (se_fields l) ''status'' = JStr (pf_status f)) \<and>
       pf_arrived f = recent_value (instant_field ''arrivedAt'') evs \<and> pf_berthed f = recent_value (instant_field ''berthedAt'') evs \<and>
       pf_departed f = recent_value (instant_field ''departedAt'') evs \<and> pf_tonnage f = recent_value (number_field ''declaredTonnage'') evs \<and>
       pf_class f = recent_value (text_field ''shipClass'') evs \<and>
       pf_vessel f = hash_vessel_ref sha (recent_value (text_field ''vesselRef'') evs))"
proof -
  have ordered: "sorted (map event_order (port_events loads k rows))" for k using assms(2) by (simp add: read_in_order_def)
  from assms(1) obtain calls where calls: "foldR (call_step loads) [] rows = Inr calls"
    and facts: "facts = map (fact_of sha) (filter (\<lambda>(k, c). in_period (attributable c) start finish) (sort_key fst calls))"
    by (auto simp: assemble_port_call_facts_def bindR_Inr_iff)
  have sum: "calls_summarise loads rows calls"
    using calls
  proof (rule foldR_prefix_inv)
    show "calls_summarise loads [] []" by (simp add: calls_summarise_def port_events_def)
  qed (rule calls_summarise_step)
  then have dist: "distinct (map fst calls)" by (simp add: calls_summarise_def)
  have at: "case map_of calls k of None \<Rightarrow> port_events loads k rows = [] | Some c \<Rightarrow> call_summary c (port_events loads k rows)" for k
    using sum by (simp add: calls_summarise_def)
  have key: "pf_call (fact_of sha x) = fst x" for x by (cases x) (simp add: fact_of_def)
  have "sorted_wrt (<) (map fst (sort_key fst calls))" by (rule sorted_fst_strict [OF dist])
  then have "sorted_wrt (<) (map fst (filter (\<lambda>(k, c). in_period (attributable c) start finish) (sort_key fst calls)))"
    by (simp add: sorted_wrt_map sorted_wrt_filter)
  then have sorted: "sorted_wrt (<) (map pf_call facts)" by (simp add: facts key sorted_wrt_map)
  have mem: "k \<in> pf_call ` set facts \<longleftrightarrow> port_events loads k rows \<noteq> [] \<and> in_period (call_time (port_events loads k rows)) start finish" for k
  proof (cases "map_of calls k")
    case None
    then have "k \<notin> fst ` set calls" by (simp add: map_of_eq_None_iff)
    with at [of k] None show ?thesis by (auto simp: facts key image_iff)
  next
    case (Some c)
    with at [of k] have c: "call_summary c (port_events loads k rows)" by simp
    have "k \<in> pf_call ` set facts \<longleftrightarrow> in_period (attributable c) start finish"
    proof
      assume "k \<in> pf_call ` set facts"
      then obtain c' where "(k, c') \<in> set calls" "in_period (attributable c') start finish" by (auto simp: facts key)
      with dist Some show "in_period (attributable c) start finish" by (simp add: map_of_eq_Some_iff)
    next
      assume "in_period (attributable c) start finish"
      with map_of_SomeD [OF Some] have "(k, c) \<in> set (filter (\<lambda>(k, c). in_period (attributable c) start finish) (sort_key fst calls))" by simp
      then show "k \<in> pf_call ` set facts" using key [of "(k, c)"] by (force simp: facts)
    qed
    with c attributable_time [OF c ordered] show ?thesis by (simp add: call_summary_def)
  qed
  have body: "let evs = port_events loads (pf_call f) rows in
       pf_events f = sort (map se_id evs) \<and> (\<forall>e\<in>set evs. jget (se_fields e) ''portCode'' = JStr (pf_port f)) \<and>
       (\<exists>l\<in>set evs. (\<forall>e\<in>set evs. event_order e \<le> event_order l) \<and> jget (se_fields l) ''status'' = JStr (pf_status f)) \<and>
       pf_arrived f = recent_value (instant_field ''arrivedAt'') evs \<and> pf_berthed f = recent_value (instant_field ''berthedAt'') evs \<and>
       pf_departed f = recent_value (instant_field ''departedAt'') evs \<and> pf_tonnage f = recent_value (number_field ''declaredTonnage'') evs \<and>
       pf_class f = recent_value (text_field ''shipClass'') evs \<and>
       pf_vessel f = hash_vessel_ref sha (recent_value (text_field ''vesselRef'') evs)"
    if "f \<in> set facts" for f
  proof -
    from that obtain k c where f: "f = fact_of sha (k, c)" "(k, c) \<in> set calls" by (auto simp: facts)
    with dist at [of k] have c: "call_summary c (port_events loads k rows)" by (simp add: map_of_eq_Some_iff)
    then obtain l where l: "l \<in> set (port_events loads k rows)" "event_order l = Max (event_order ` set (port_events loads k rows))"
      "jget (se_fields l) ''status'' = JStr (ce_status c)"
      by (auto simp: call_summary_def)
    have "event_order e \<le> event_order l" if "e \<in> set (port_events loads k rows)" for e
      using that l(2) by simp
    with l(1,3) have "\<exists>l\<in>set (port_events loads k rows). (\<forall>e\<in>set (port_events loads k rows). event_order e \<le> event_order l) \<and>
        jget (se_fields l) ''status'' = JStr (ce_status c)" by blast
    with c f(1) show ?thesis by (simp add: fact_of_def call_summary_def last_is_recent [OF ordered])
  qed
  show ?thesis using sorted mem body by blast
qed

definition stat_loads :: "string \<Rightarrow> json res" where
  "stat_loads s =
     Inr (JObj [(''portCallId'', JStr ''c1''), (''portCode'', JStr ''NGAPP''), (''status'', JStr ''ACCEPTED''),
       (''arrivedAt'', JStr (if s = ''first'' then ''2026-09-30T12:00:00Z'' else ''2026-10-01T12:00:00Z''))])"

definition stat_event :: "string \<Rightarrow> int \<Rightarrow> row" where
  "stat_event payload occurred_at =
     [(''event_id'', CText payload), (''event_type'', CText PORT_CALL_EVENT_TYPE), (''occurred_at'', CTime occurred_at),
      (''payload_json'', CText payload)]"

definition september :: "int \<times> int" where
  "september = (case parse_period ''2026-09'' of Inr p \<Rightarrow> p | Inl e \<Rightarrow> (0, 0))"

definition september_facts :: "row list \<Rightarrow> port_fact list res" where
  "september_facts rows = assemble_port_call_facts stat_loads id rows (fst september) (snd september)"

lemma september_values:
  "september_facts [stat_event ''first'' 1, stat_event ''second'' 2] = Inr []"
  "case september_facts [stat_event ''second'' 2, stat_event ''first'' 1] of Inr [f] \<Rightarrow> pf_call f = ''c1'' | _ \<Rightarrow> False"
  by code_simp+

text \<open>
  The facts depend on the order in which the events are read: a call whose later event corrects its arrival
  from September to October is a September call or not according to the order of the rows, because the field read
  last wins, although the documentation promises the most recent value.
\<close>

theorem facts_depend_on_read_order:
  "\<exists>rows rows' f. mset rows = mset rows' \<and> september_facts rows = Inr [] \<and> september_facts rows' = Inr [f]"
proof -
  from september_values(2) obtain f where "september_facts [stat_event ''second'' 2, stat_event ''first'' 1] = Inr [f]"
    by (auto split: sum.splits list.splits)
  with september_values(1) show ?thesis
    by (intro exI [of _ "[stat_event ''first'' 1, stat_event ''second'' 2]"] exI [of _ "[stat_event ''second'' 2, stat_event ''first'' 1]"] exI [of _ f])
      (simp add: add_mset_commute)
qed

text \<open>Two events in order, of which the second corrects the arrival from October to September.\<close>

definition call_rows :: "row list" where
  "call_rows = [stat_event ''second'' 1, stat_event ''first'' 2]"

lemma stat_event_decoded: "decode_silver_event stat_loads (stat_event p t) = Inr e \<Longrightarrow> event_order e = (t, p)"
  by (auto simp: decode_silver_event_def stat_event_def event_text_def event_time_def event_order_def bindR_Inr_iff row_get_def)

lemma call_rows_in_order: "read_in_order stat_loads call_rows"
proof -
  have "sorted (map event_order (port_events stat_loads k call_rows))" for k
  proof (cases "decode_silver_event stat_loads (stat_event ''second'' 1)"; cases "decode_silver_event stat_loads (stat_event ''first'' 2)")
    fix a b assume "decode_silver_event stat_loads (stat_event ''second'' 1) = Inr a" "decode_silver_event stat_loads (stat_event ''first'' 2) = Inr b"
    then show ?thesis using stat_event_decoded by (auto simp: port_events_def call_rows_def)
  qed (auto simp: port_events_def call_rows_def)
  then show ?thesis by (simp add: read_in_order_def)
qed

lemma port_call_facts_exact_witness:
  "\<exists>f. september_facts call_rows = Inr [f] \<and> pf_call f = ''c1'' \<and>
     pf_arrived f = recent_value (instant_field ''arrivedAt'') (port_events stat_loads ''c1'' call_rows)"
proof -
  have "case september_facts call_rows of Inr [f] \<Rightarrow> pf_call f = ''c1'' | _ \<Rightarrow> False" by code_simp
  then obtain f where f: "september_facts call_rows = Inr [f]" "pf_call f = ''c1''"
    by (auto split: sum.splits list.splits)
  from port_call_facts_exact [OF f(1) [unfolded september_facts_def] call_rows_in_order] f show ?thesis by (auto simp: Let_def)
qed

lemma gate_durations_paired_witness:
  "gate_durations_minutes [sample_scan ''in'' ''s1'', sample_scan ''out'' ''s2''] = [(None, [PFin 0])] \<and>
     gate_pair [sample_scan ''in'' ''s1'', sample_scan ''out'' ''s2''] None (PFin 0)"
proof -
  have "gate_durations_minutes [sample_scan ''in'' ''s1'', sample_scan ''out'' ''s2''] = [(None, [PFin 0])]"
    by (simp add: gate_durations_minutes_def group_by_def dict_push_def sample_scan_def pair_group_def pair_step_def zero_minutes)
  with gate_durations_paired [of "[sample_scan ''in'' ''s1'', sample_scan ''out'' ''s2'']"] show ?thesis by simp
qed

end
