(* ===== verification/Port_Statistics.thy ===== *)
theory Port_Statistics
  imports Kpi_Properties Signature Retention
begin

text \<open>
  The run of \<open>port_statistics.py\<close>: figures from the silver table at a pinned version, appended to three gold tables,
  with a signed report written beside them.  \<open>open_at\<close> opens a table at a version, \<open>write_files\<close> writes the report
  files; spans are left out.
\<close>

section \<open>Report files\<close>

text \<open>\<open>json.dumps(value, indent=2, sort_keys=True)\<close> at a nesting depth.\<close>

definition new_line :: "nat \<Rightarrow> string" where
  "new_line depth = CHR 0x0A # replicate (2 * depth) (CHR 0x20)"

fun dumps_indented :: "(rat \<Rightarrow> string) \<Rightarrow> nat \<Rightarrow> json \<Rightarrow> string" where
  "dumps_indented fr n (JList xs) =
     (if xs = [] then ''[]''
      else ''['' @ new_line (Suc n) @ join_with ('','' @ new_line (Suc n)) (map (dumps_indented fr (Suc n)) xs) @ new_line n @ '']'')"
| "dumps_indented fr n (JObj d) =
     (if d = [] then ''{}''
      else ''{'' @ new_line (Suc n) @
        join_with ('','' @ new_line (Suc n))
          (map (\<lambda>(k, t). json_ascii_str k @ '': '' @ t) (sort_key fst (map (\<lambda>(k, v). (k, dumps_indented fr (Suc n) v)) d))) @
        new_line n @ ''}'')"
| "dumps_indented fr n v = dumps_default fr True v"

section \<open>The run\<close>

record 'w stats_runtime =
  st_codec :: text_codec
  st_ed :: ed25519
  st_sha :: "string \<Rightarrow> string"
  st_uuid5 :: "string \<Rightarrow> string"
  st_str :: "cell \<Rightarrow> string"
  st_clock :: "'w \<Rightarrow> int \<times> 'w"
  st_write :: "(string \<times> string) list \<Rightarrow> 'w \<Rightarrow> unit res \<times> 'w"

record run_result =
  rr_run_id :: string
  rr_period :: string
  rr_report_sha256 :: string
  rr_rows_emitted :: int
  rr_rows_no_data :: int
  rr_facts_rows :: int
  rr_source_versions :: jobject
  rr_runs_version :: int
  rr_values_version :: int
  rr_facts_version :: int
  rr_json_path :: string
  rr_csv_path :: string

definition FACTS_TABLE_DESCRIPTION :: string where
  "FACTS_TABLE_DESCRIPTION = ''Platform gold port_call_facts: silver-derived per-call fact rows feeding '' @
     ''the port KPI rollups (vessel identity hashed; append-only)''"

definition VALUES_TABLE_DESCRIPTION :: string where
  "VALUES_TABLE_DESCRIPTION = ''Platform gold port_kpi_values: one row per KPI x period x port x segment; '' @
     ''no-data rows are first class (value null + coverage note); append-only''"

definition RUNS_TABLE_DESCRIPTION :: string where
  "RUNS_TABLE_DESCRIPTION = ''Platform gold port_kpi_runs: provenance manifest, one row per computation '' @
     ''run with pinned source table versions and query hash; append-only''"

definition PORT_CALL_FACTS_SCHEMA :: arrow_schema where
  "PORT_CALL_FACTS_SCHEMA =
     [(''port_call_id'', ''string not null''), (''port_code'', ''string not null''), (''vessel_ref_hashed'', ''string''),
      (''ship_class'', ''string''), (''status'', ''string not null''), (''arrived_at'', ''timestamp[us, tz=UTC]''),
      (''berthed_at'', ''timestamp[us, tz=UTC]''), (''departed_at'', ''timestamp[us, tz=UTC]''),
      (''declared_tonnage'', ''double''), (''source_event_ids_json'', ''string not null'')]"

definition PORT_KPI_VALUES_SCHEMA :: arrow_schema where
  "PORT_KPI_VALUES_SCHEMA =
     [(''value_key'', ''string not null''), (''run_id'', ''string not null''), (''kpi_id'', ''string not null''),
      (''period'', ''string not null''), (''port_code'', ''string''), (''ship_class'', ''string''), (''value'', ''double''),
      (''unit'', ''string not null''), (''n_observations'', ''int64 not null''), (''percentile'', ''string''),
      (''coverage_note'', ''string''), (''definition_version'', ''string not null''), (''source_table'', ''string not null''),
      (''table_version'', ''int64 not null''), (''query_hash'', ''string not null''),
      (''computed_at'', ''timestamp[us, tz=UTC] not null'')]"

definition PORT_KPI_RUNS_SCHEMA :: arrow_schema where
  "PORT_KPI_RUNS_SCHEMA =
     [(''run_id'', ''string not null''), (''computed_at'', ''timestamp[us, tz=UTC] not null''), (''period'', ''string not null''),
      (''period_start'', ''timestamp[us, tz=UTC] not null''), (''period_end'', ''timestamp[us, tz=UTC] not null''),
      (''scope'', ''string not null''), (''source_table_versions_json'', ''string not null''),
      (''query_definitions_sha256'', ''string not null''), (''kpi_count'', ''int64 not null''),
      (''rows_emitted'', ''int64 not null''), (''rows_no_data'', ''int64 not null''), (''report_sha256'', ''string not null'')]"

definition scope_root_from_writer :: "delta_writer \<Rightarrow> string" where
  "scope_root_from_writer writer = before_last (CHR ''/'') (before_last (CHR ''/'') (roots_gold (writer_roots writer)))"

definition reports_directory_uri :: "delta_writer \<Rightarrow> string res" where
  "reports_directory_uri writer =
     (let uri = before_last (CHR ''/'') (roots_gold (writer_roots writer)) @ ''/'' @ REPORTS_DIR_NAME
      in bindR (require_scope_table_uri (writer_scope writer) uri) (\<lambda>_. Inr uri))"

text \<open>\<open>str(Path(uri) / name)\<close> is the normalised path.\<close>

definition write_report_artefacts :: "'w stats_runtime \<Rightarrow> delta_writer \<Rightarrow> string \<Rightarrow> json \<Rightarrow> string \<Rightarrow> ('w, string \<times> string) act" where
  "write_report_artefacts rt writer run_id artefact csv_text =
     bindA (pureA (reports_directory_uri writer)) (\<lambda>uri.
     let json_path = posix_path_str (uri @ ''/'' @ run_id @ ''.json''); csv_path = posix_path_str (uri @ ''/'' @ run_id @ ''.csv'')
     in bindA (st_write rt [(json_path, dumps_indented (tx_repr (st_codec rt)) 0 artefact @ [CHR 0x0A]), (csv_path, csv_text)]) (\<lambda>_.
        pureA (Inr (json_path, csv_path))))"

text \<open>What is computed from the silver events alone.\<close>

record figures =
  fg_facts :: "port_fact list"
  fg_observations :: "(string \<times> observation list) list"
  fg_ports :: "string option list"

definition compute_figures :: "(string \<Rightarrow> json res) \<Rightarrow> (string \<Rightarrow> string) \<Rightarrow> row list \<Rightarrow> int \<Rightarrow> int \<Rightarrow> figures res" where
  "compute_figures loads sha silver_events start finish =
     bindR (assemble_port_call_facts loads sha silver_events start finish) (\<lambda>facts.
     bindR (extract_gate_scans loads silver_events start finish) (\<lambda>gate_scans.
     bindR (extract_bookings loads silver_events start finish) (\<lambda>bookings.
     bindR (compute_kpi_observations facts gate_scans bookings) (\<lambda>observations.
     Inr \<lparr>fg_facts = facts, fg_observations = observations, fg_ports = discover_ports facts gate_scans bookings\<rparr>))))"

definition source_versions :: "int \<Rightarrow> jobject" where
  "source_versions version = [(SILVER_TABLE_LABEL, JInt version)]"

text \<open>The run id, from the pinned inputs.\<close>

definition pinned_run_id :: "'w stats_runtime \<Rightarrow> delta_writer \<Rightarrow> string \<Rightarrow> int \<Rightarrow> (string \<times> string) res" where
  "pinned_run_id rt writer period version =
     bindR (query_definitions_sha256 (st_sha rt) (tx_repr (st_codec rt))) (\<lambda>query_hash.
     bindR (build_run_id (st_uuid5 rt) (tx_repr (st_codec rt)) (scope_root_from_writer writer) period (source_versions version) query_hash) (\<lambda>run_id.
     Inr (query_hash, run_id)))"

definition run_row :: "string \<Rightarrow> int \<Rightarrow> string \<Rightarrow> int \<Rightarrow> int \<Rightarrow> string \<Rightarrow> string \<Rightarrow> value_row list \<Rightarrow> string \<Rightarrow> row" where
  "run_row run_id computed period start finish versions_json query_hash value_rows report_hash =
     [(''run_id'', CText run_id), (''computed_at'', CTime computed), (''period'', CText period), (''period_start'', CTime start),
      (''period_end'', CTime finish), (''scope'', CText (scope_value PLATFORM)), (''source_table_versions_json'', CText versions_json),
      (''query_definitions_sha256'', CText query_hash), (''kpi_count'', CInt (int (length KPI_DEFINITIONS))),
      (''rows_emitted'', CInt (int (length value_rows))), (''rows_no_data'', CInt (no_data_rows value_rows)),
      (''report_sha256'', CText report_hash)]"

definition report_artefact :: "jobject \<Rightarrow> int \<Rightarrow> string \<Rightarrow> jobject" where
  "report_artefact core computed report_hash =
     core @ [(''computed_at'', JStr (isoformat computed)), (''report_sha256'', JStr report_hash),
       (''provenance'', JObj [(''principalId'', JStr ''blueeconomy-data-platform''), (''principalRole'', JStr ''stats-gold-assembly'')])]"

definition gold_named :: "delta_writer \<Rightarrow> string \<Rightarrow> string res" where
  "gold_named writer name = scope_layer_table_uri PLATFORM (scope_root_from_writer writer) ''gold'' name"

definition append_facts :: "'w stats_runtime \<Rightarrow> ('w, 't) delta_api \<Rightarrow> string \<Rightarrow> port_fact list \<Rightarrow> ('w, int) act" where
  "append_facts rt api uri facts =
     (if facts \<noteq> []
      then bindA (append_rows api (st_str rt) uri (map fact_row facts) ''port_call_id'' (Some FACTS_TABLE_DESCRIPTION)
                    (Some PORT_CALL_FACTS_SCHEMA) ''platform_gold_port_call_facts'') (\<lambda>(version, _, _). pureA (Inr version))
      else pureA (Inr (- 1)))"

text \<open>The writes, once the figures and the value rows are known.\<close>

definition publish_run :: "'w stats_runtime \<Rightarrow> ('w, 't) delta_api \<Rightarrow> delta_writer \<Rightarrow> string \<Rightarrow> string \<Rightarrow> string \<Rightarrow>
    int \<Rightarrow> int \<Rightarrow> int \<Rightarrow> string \<Rightarrow> string \<Rightarrow> int \<Rightarrow> port_fact list \<Rightarrow> value_row list \<Rightarrow> ('w, run_result) act" where
  "publish_run rt api writer signing_key kid period start finish version query_hash run_id computed facts value_rows =
     bindA (pureA (gold_named writer FACTS_TABLE_NAME)) (\<lambda>facts_uri.
     bindA (pureA (gold_named writer VALUES_TABLE_NAME)) (\<lambda>values_uri.
     bindA (pureA (gold_named writer RUNS_TABLE_NAME)) (\<lambda>runs_uri.
     bindA (append_facts rt api facts_uri facts) (\<lambda>facts_version.
     let core = build_report_core run_id period start finish (source_versions version) query_hash value_rows in
     bindA (pureA (report_core_sha256 (st_sha rt) (tx_repr (st_codec rt)) core)) (\<lambda>report_hash.
     bindA (pureA (sign_document (st_codec rt) (st_ed rt) (report_artefact core computed report_hash) signing_key kid)) (\<lambda>signed.
     bindA (pureA (canonical_json (tx_repr (st_codec rt)) (JObj (source_versions version)))) (\<lambda>versions_json.
     bindA (append_rows api (st_str rt) runs_uri
              [run_row run_id computed period start finish versions_json query_hash value_rows report_hash]
              ''run_id'' (Some RUNS_TABLE_DESCRIPTION) (Some PORT_KPI_RUNS_SCHEMA) ''platform_gold_port_kpi_runs'') (\<lambda>(runs_version, _, _).
     bindA (append_rows api (st_str rt) values_uri (map (value_cells (st_sha rt)) value_rows)
              ''value_key'' (Some VALUES_TABLE_DESCRIPTION) (Some PORT_KPI_VALUES_SCHEMA) ''platform_gold_port_kpi_values'') (\<lambda>(values_version, _, _).
     bindA (write_report_artefacts rt writer run_id (JObj signed)
              (report_values_csv (tx_repr (st_codec rt)) (report_values value_rows))) (\<lambda>(json_path, csv_path).
     pureA (Inr \<lparr>rr_run_id = run_id, rr_period = period, rr_report_sha256 = report_hash,
       rr_rows_emitted = int (length value_rows), rr_rows_no_data = no_data_rows value_rows,
       rr_facts_rows = int (length facts), rr_source_versions = source_versions version, rr_runs_version = runs_version,
       rr_values_version = values_version, rr_facts_version = facts_version, rr_json_path = json_path,
       rr_csv_path = csv_path\<rparr>)))))))))))"

text \<open>\<open>computed_at or datetime.now(UTC)\<close>.\<close>

definition computed_instant :: "'w stats_runtime \<Rightarrow> int option \<Rightarrow> ('w, int) act" where
  "computed_instant rt computed_at w =
     (case computed_at of Some t \<Rightarrow> (Inr t, w) | None \<Rightarrow> (case st_clock rt w of (t, w') \<Rightarrow> (Inr t, w')))"

definition open_source :: "('w, 't) delta_api \<Rightarrow> string \<Rightarrow> ('w, 't) act" where
  "open_source api uri w =
     (case api_open api uri w of
        Inl e \<Rightarrow> (if exn_class e = TableNotFoundError
                 then raise ValueError ''cannot compute port statistics before the platform silver table exists'' else Inl e, w)
      | Inr t \<Rightarrow> (Inr t, w))"

definition run_figures :: "'w stats_runtime \<Rightarrow> ('w, 't) delta_api \<Rightarrow> (string \<Rightarrow> int \<Rightarrow> 'w \<Rightarrow> 't res) \<Rightarrow> delta_writer \<Rightarrow> int \<Rightarrow> int \<Rightarrow>
    ('w, int \<times> figures) act" where
  "run_figures rt api open_at writer start finish =
     bindA (pureA (table_uri writer ''silver'')) (\<lambda>silver_uri.
     bindA (open_source api silver_uri) (\<lambda>current.
     let version = api_version api current in
     bindA (\<lambda>w. (open_at silver_uri version w, w)) (\<lambda>pinned.
     bindA (pureA (api_read api pinned SILVER_EVENT_COLUMNS None)) (\<lambda>silver_events.
     bindA (pureA (compute_figures (tx_loads (st_codec rt)) (st_sha rt) silver_events start finish)) (\<lambda>figures.
     pureA (Inr (version, figures)))))))"

definition run_port_statistics :: "'w stats_runtime \<Rightarrow> ('w, 't) delta_api \<Rightarrow> (string \<Rightarrow> int \<Rightarrow> 'w \<Rightarrow> 't res) \<Rightarrow> delta_writer \<Rightarrow>
    string \<Rightarrow> string \<Rightarrow> string \<Rightarrow> int option \<Rightarrow> ('w, run_result) act" where
  "run_port_statistics rt api open_at writer period signing_key kid computed_at =
     bindA (pureA (guard (writer_scope writer = PLATFORM) ValueError
              ''port statistics gold rollup is only defined for the platform scope'')) (\<lambda>_.
     bindA (pureA (parse_period period)) (\<lambda>(start, finish).
     bindA (run_figures rt api open_at writer start finish) (\<lambda>(version, figures).
     bindA (pureA (pinned_run_id rt writer period version)) (\<lambda>(query_hash, run_id).
     bindA (computed_instant rt computed_at) (\<lambda>computed.
     bindA (pureA (emit_value_rows (fg_observations figures) (fg_ports figures)
              \<lparr>rc_run = run_id, rc_period = period, rc_source = SILVER_TABLE_LABEL, rc_version = version, rc_hash = query_hash,
               rc_at = computed\<rparr>)) (\<lambda>value_rows.
     publish_run rt api writer signing_key kid period start finish version query_hash run_id computed (fg_facts figures) value_rows))))))"

section \<open>What a successful run has done\<close>

lemma bindA_okE: "bindA m f w = (Inr y, w2) \<Longrightarrow> (\<And>x w1. m w = (Inr x, w1) \<Longrightarrow> f x w1 = (Inr y, w2) \<Longrightarrow> P) \<Longrightarrow> P"
  by (auto simp: bindA_Inr)

lemma bindA_pure_okE: "bindA (pureA m) f w = (Inr y, w2) \<Longrightarrow> (\<And>x. m = Inr x \<Longrightarrow> f x w = (Inr y, w2) \<Longrightarrow> P) \<Longrightarrow> P"
  by (auto simp: bindA_Inr)

lemma pureA_okE: "pureA (Inr x) w = (Inr y, w1) \<Longrightarrow> (y = x \<Longrightarrow> w1 = w \<Longrightarrow> P) \<Longrightarrow> P"
  by auto

definition context_of :: "string \<Rightarrow> string \<Rightarrow> int \<Rightarrow> string \<Rightarrow> int \<Rightarrow> run_context" where
  "context_of run_id period version query_hash computed =
     \<lparr>rc_run = run_id, rc_period = period, rc_source = SILVER_TABLE_LABEL, rc_version = version, rc_hash = query_hash, rc_at = computed\<rparr>"

lemma open_source_world: "open_source api uri w = (r, w') \<Longrightarrow> w' = w"
  by (auto simp: open_source_def split: sum.splits)

lemma run_figures_Inr:
  assumes "run_figures rt api open_at writer start finish w = (Inr (version, figs), w')"
  shows "w' = w \<and> (\<exists>uri t p rows. table_uri writer ''silver'' = Inr uri \<and> api_open api uri w = Inr t \<and> version = api_version api t \<and>
    open_at uri version w = Inr p \<and> api_read api p SILVER_EVENT_COLUMNS None = Inr rows \<and>
    compute_figures (tx_loads (st_codec rt)) (st_sha rt) rows start finish = Inr figs)"
  using assms unfolding run_figures_def Let_def
  by (elim bindA_pure_okE bindA_okE) (auto simp: open_source_def split: sum.splits if_splits)

lemma run_figures_world: "run_figures rt api open_at writer start finish w = (r, w') \<Longrightarrow> w' = w"
  unfolding run_figures_def Let_def
  by (auto elim!: bindA_cases simp: open_source_def split: sum.splits)

text \<open>A successful run, with the values it computed on the way.\<close>

lemma run_Inr:
  assumes "run_port_statistics rt api open_at writer period signing_key kid computed_at w = (Inr r, w')"
  obtains start finish version figs query_hash run_id computed w1 rows where
    "writer_scope writer = PLATFORM" "parse_period period = Inr (start, finish)"
    "run_figures rt api open_at writer start finish w = (Inr (version, figs), w)"
    "pinned_run_id rt writer period version = Inr (query_hash, run_id)" "computed_instant rt computed_at w = (Inr computed, w1)"
    "emit_value_rows (fg_observations figs) (fg_ports figs) (context_of run_id period version query_hash computed) = Inr rows"
    "publish_run rt api writer signing_key kid period start finish version query_hash run_id computed (fg_facts figs) rows w1 = (Inr r, w')"
proof -
  from assms obtain start finish version figs query_hash run_id computed w0 w1 rows where
    r: "writer_scope writer = PLATFORM" "parse_period period = Inr (start, finish)"
    "run_figures rt api open_at writer start finish w = (Inr (version, figs), w0)"
    "pinned_run_id rt writer period version = Inr (query_hash, run_id)" "computed_instant rt computed_at w0 = (Inr computed, w1)"
    "emit_value_rows (fg_observations figs) (fg_ports figs) (context_of run_id period version query_hash computed) = Inr rows"
    "publish_run rt api writer signing_key kid period start finish version query_hash run_id computed (fg_facts figs) rows w1 = (Inr r, w')"
    unfolding run_port_statistics_def context_of_def split_def
    by (elim bindA_pure_okE bindA_okE) auto
  from run_figures_world [OF r(3)] r that show thesis by simp
qed

lemma publish_Inr:
  assumes "publish_run rt api writer signing_key kid period start finish version query_hash run_id computed facts rows w = (Inr r, w')"
  obtains facts_uri values_uri runs_uri fv w1 report_hash signed versions_json rv w2 vv w3 json_path csv_path where
    "gold_named writer FACTS_TABLE_NAME = Inr facts_uri" "gold_named writer VALUES_TABLE_NAME = Inr values_uri"
    "gold_named writer RUNS_TABLE_NAME = Inr runs_uri" "append_facts rt api facts_uri facts w = (Inr fv, w1)"
    "report_core_sha256 (st_sha rt) (tx_repr (st_codec rt))
       (build_report_core run_id period start finish (source_versions version) query_hash rows) = Inr report_hash"
    "sign_document (st_codec rt) (st_ed rt) (report_artefact
       (build_report_core run_id period start finish (source_versions version) query_hash rows) computed report_hash) signing_key kid = Inr signed"
    "canonical_json (tx_repr (st_codec rt)) (JObj (source_versions version)) = Inr versions_json"
    "append_rows api (st_str rt) runs_uri [run_row run_id computed period start finish versions_json query_hash rows report_hash]
       ''run_id'' (Some RUNS_TABLE_DESCRIPTION) (Some PORT_KPI_RUNS_SCHEMA) ''platform_gold_port_kpi_runs'' w1 = (Inr rv, w2)"
    "append_rows api (st_str rt) values_uri (map (value_cells (st_sha rt)) rows)
       ''value_key'' (Some VALUES_TABLE_DESCRIPTION) (Some PORT_KPI_VALUES_SCHEMA) ''platform_gold_port_kpi_values'' w2 = (Inr vv, w3)"
    "write_report_artefacts rt writer run_id (JObj signed) (report_values_csv (tx_repr (st_codec rt)) (report_values rows)) w3 =
       (Inr (json_path, csv_path), w')"
    "r = \<lparr>rr_run_id = run_id, rr_period = period, rr_report_sha256 = report_hash,
       rr_rows_emitted = int (length rows), rr_rows_no_data = no_data_rows rows,
       rr_facts_rows = int (length facts), rr_source_versions = source_versions version, rr_runs_version = fst rv,
       rr_values_version = fst vv, rr_facts_version = fv, rr_json_path = json_path, rr_csv_path = csv_path\<rparr>"
  using assms unfolding publish_run_def Let_def split_def
  by (elim bindA_pure_okE bindA_okE pureA_okE) auto

section \<open>Replays\<close>

text \<open>Only the instant of a run is in its value rows besides the pinned inputs, and the report does not show it.\<close>

definition undated :: "value_row \<Rightarrow> value_row" where
  "undated r = r\<lparr>vr_at := 0\<rparr>"

lemma rows_of_undated:
  "map undated (rows_of obs (context_of run_id period version query_hash computed) d p) =
   rows_of obs (context_of run_id period version query_hash 0) d p"
  by (auto simp: rows_of_def undated_def base_row_def observed_row_def context_of_def split: option.split)

lemma emitted_undated:
  assumes "emit_value_rows obs ports (context_of run_id period version query_hash computed) = Inr rows"
  shows "emit_value_rows obs ports (context_of run_id period version query_hash 0) = Inr (map undated rows)"
  using assms by (auto simp: emit_eq map_concat comp_def rows_of_undated)

lemma report_undated: "report_values (map undated rows) = report_values rows"
  by (simp add: report_values_def sort_key_map undated_def report_value_def)

lemma no_data_undated: "no_data_rows (map undated rows) = no_data_rows rows"
  by (simp add: no_data_rows_def filter_map comp_def undated_def)

lemma core_undated:
  assumes "map undated rows = map undated rows'"
  shows "build_report_core run_id period start finish versions query_hash rows = build_report_core run_id period start finish versions query_hash rows'"
    "report_values rows = report_values rows'" "no_data_rows rows = no_data_rows rows'" "length rows = length rows'"
proof -
  show l: "length rows = length rows'" using assms by (rule map_eq_imp_length_eq)
  show r: "report_values rows = report_values rows'" "no_data_rows rows = no_data_rows rows'"
    using report_undated [of rows] report_undated [of rows'] no_data_undated [of rows] no_data_undated [of rows'] assms by simp_all
  show "build_report_core run_id period start finish versions query_hash rows = build_report_core run_id period start finish versions query_hash rows'"
    by (simp add: build_report_core_def r l)
qed

text \<open>What of a result does not depend on the tables written to.\<close>

definition run_digest :: "run_result \<Rightarrow> run_result" where
  "run_digest r = r\<lparr>rr_runs_version := 0, rr_values_version := 0, rr_facts_version := 0\<rparr>"

definition same_version :: "('w, 't) delta_api \<Rightarrow> (string \<Rightarrow> int \<Rightarrow> 'w \<Rightarrow> 't res) \<Rightarrow> 'w \<Rightarrow> 'w \<Rightarrow> bool" where
  "same_version api open_at w v \<longleftrightarrow>
     (\<forall>uri n t t' cols. open_at uri n w = Inr t \<longrightarrow> open_at uri n v = Inr t' \<longrightarrow> api_read api t cols None = api_read api t' cols None)"

lemma run_figures_pinned:
  assumes "run_figures rt api open_at writer start finish w = (Inr (version, figs), w1)"
    and "run_figures rt api open_at writer start finish v = (Inr (version, figs'), v1)" "same_version api open_at w v"
  shows "figs = figs'"
proof -
  from run_figures_Inr [OF assms(1)] obtain uri p rows where a: "table_uri writer ''silver'' = Inr uri" "open_at uri version w = Inr p"
    "api_read api p SILVER_EVENT_COLUMNS None = Inr rows" "compute_figures (tx_loads (st_codec rt)) (st_sha rt) rows start finish = Inr figs"
    by blast
  from run_figures_Inr [OF assms(2)] obtain uri' p' rows' where b: "table_uri writer ''silver'' = Inr uri'" "open_at uri' version v = Inr p'"
    "api_read api p' SILVER_EVENT_COLUMNS None = Inr rows'" "compute_figures (tx_loads (st_codec rt)) (st_sha rt) rows' start finish = Inr figs'"
    by blast
  from a(1) b(1) have "uri' = uri" by simp
  with assms(3) a(2) b(2) have "api_read api p SILVER_EVENT_COLUMNS None = api_read api p' SILVER_EVENT_COLUMNS None"
    unfolding same_version_def by blast
  with a b show ?thesis by simp
qed

lemma artefact_paths:
  assumes "write_report_artefacts rt writer run_id artefact csv_text w = (Inr (json_path, csv_path), w')"
  shows "\<exists>uri. reports_directory_uri writer = Inr uri \<and> json_path = posix_path_str (uri @ ''/'' @ run_id @ ''.json'') \<and>
    csv_path = posix_path_str (uri @ ''/'' @ run_id @ ''.csv'')"
  using assms unfolding write_report_artefacts_def Let_def
  by (elim bindA_pure_okE bindA_okE pureA_okE) auto

lemma publish_digest:
  assumes "publish_run rt api writer signing_key kid period start finish version query_hash run_id computed facts rows w = (Inr r, w')"
  shows "rr_source_versions r = source_versions version \<and> (\<exists>hash uri.
    report_core_sha256 (st_sha rt) (tx_repr (st_codec rt)) (build_report_core run_id period start finish (source_versions version) query_hash rows) = Inr hash \<and>
    reports_directory_uri writer = Inr uri \<and>
    run_digest r = \<lparr>rr_run_id = run_id, rr_period = period, rr_report_sha256 = hash, rr_rows_emitted = int (length rows),
       rr_rows_no_data = no_data_rows rows, rr_facts_rows = int (length facts), rr_source_versions = source_versions version,
       rr_runs_version = 0, rr_values_version = 0, rr_facts_version = 0, rr_json_path = posix_path_str (uri @ ''/'' @ run_id @ ''.json''),
       rr_csv_path = posix_path_str (uri @ ''/'' @ run_id @ ''.csv'')\<rparr>)"
  by (rule publish_Inr [OF assms], drule artefact_paths) (auto simp: run_digest_def)

text \<open>
  Claim C25. A run is reproducible: two successful runs for a period over the same version of the silver table have the
  same result up to the versions of the tables they append to (run identifier, report digest, row counts and report
  paths), whenever they run, whatever key signs the report, and whatever else changed in between.
\<close>

theorem replay_reproduces:
  assumes "run_port_statistics rt api open_at writer period signing_key kid computed_at w = (Inr r, w')"
    and "run_port_statistics rt api open_at writer period signing_key' kid' computed_at' v = (Inr s, v')"
    and "same_version api open_at w v" and "rr_source_versions r = rr_source_versions s"
  shows "run_digest r = run_digest s"
proof -
  from run_Inr [OF assms(1)] obtain start finish version figs query_hash run_id computed w1 rows where a:
    "parse_period period = Inr (start, finish)" "run_figures rt api open_at writer start finish w = (Inr (version, figs), w)"
    "pinned_run_id rt writer period version = Inr (query_hash, run_id)"
    "emit_value_rows (fg_observations figs) (fg_ports figs) (context_of run_id period version query_hash computed) = Inr rows"
    "publish_run rt api writer signing_key kid period start finish version query_hash run_id computed (fg_facts figs) rows w1 = (Inr r, w')" .
  from run_Inr [OF assms(2)] obtain start' finish' version' figs' query_hash' run_id' computed' v1 rows' where b:
    "parse_period period = Inr (start', finish')" "run_figures rt api open_at writer start' finish' v = (Inr (version', figs'), v)"
    "pinned_run_id rt writer period version' = Inr (query_hash', run_id')"
    "emit_value_rows (fg_observations figs') (fg_ports figs') (context_of run_id' period version' query_hash' computed') = Inr rows'"
    "publish_run rt api writer signing_key' kid' period start' finish' version' query_hash' run_id' computed' (fg_facts figs') rows' v1 = (Inr s, v')" .
  note p = publish_digest [OF a(5)]
  note q = publish_digest [OF b(5)]
  from assms(4) p q have v: "version' = version" by (simp add: source_versions_def)
  with a b have eq: "start' = start" "finish' = finish" "query_hash' = query_hash" "run_id' = run_id" by auto
  have figs: "figs' = figs" using run_figures_pinned [OF a(2) b(2) [unfolded v eq] assms(3)] by simp
  have u: "map undated rows = map undated rows'"
    using emitted_undated [OF a(4)] emitted_undated [OF b(4) [unfolded v eq figs]] by simp
  show ?thesis using p q by (auto simp: v eq figs core_undated [OF u])
qed

section \<open>A concrete run\<close>

fun plain_json :: "json \<Rightarrow> bool" where
  "plain_json (JInt i) \<longleftrightarrow> \<bar>i\<bar> < 10 ^ 21"
| "plain_json (JFloat f) \<longleftrightarrow> False"
| "plain_json (JList xs) \<longleftrightarrow> (\<forall>x\<in>set xs. plain_json x)"
| "plain_json (JObj d) \<longleftrightarrow> (\<forall>m\<in>set d. plain_json (snd m))"
| "plain_json v \<longleftrightarrow> True"

lemma is_ok_mapR: "(\<And>x. x \<in> set xs \<Longrightarrow> is_ok (f x)) \<Longrightarrow> is_ok (mapR f xs)"
proof (induction xs)
  case (Cons x xs)
  have "is_ok (f x)" "is_ok (mapR f xs)" using Cons by simp_all
  then show ?case by (auto simp: is_ok_iff)
qed simp

lemma plain_canonical: "plain_json v \<Longrightarrow> is_ok (canonicalize fr v)"
proof (induction fr v rule: canonicalize.induct)
  case (6 fr xs)
  then have "is_ok (mapR (canonicalize fr) xs)" by (intro is_ok_mapR) auto
  then show ?case by (auto simp: is_ok_iff)
next
  case (7 fr d)
  have "is_ok (mapR (\<lambda>(k, v). bindR (canonicalize fr v) (\<lambda>t. Inr (json_str k @ '':'' @ t))) (sort_key (\<lambda>m. utf16_sort_key (fst m)) d))"
  proof (rule is_ok_mapR)
    fix m assume "m \<in> set (sort_key (\<lambda>m. utf16_sort_key (fst m)) d)"
    moreover obtain k v where m: "m = (k, v)" by (cases m)
    ultimately have "(k, v) \<in> set d" by (simp only: set_sort)
    with 7 have "is_ok (canonicalize fr v)" by (metis set_sort snd_conv plain_json.simps(4))
    then show "is_ok ((\<lambda>(k, v). bindR (canonicalize fr v) (\<lambda>t. Inr (json_str k @ '':'' @ t))) m)" by (auto simp: m is_ok_iff)
  qed
  then show ?case by (auto simp: is_ok_iff)
qed simp_all

definition stat_runtime :: "mem_store stats_runtime" where
  "stat_runtime =
     \<lparr>st_codec = toy_codec, st_ed = toy_ed25519, st_sha = id, st_uuid5 = id, st_str = py_str (\<lambda>c. []), st_clock = (\<lambda>w. (0, w)),
      st_write = (\<lambda>files w. (Inr (), w))\<rparr>"

definition stat_writer :: delta_writer where
  "stat_writer =
     \<lparr>writer_roots = \<lparr>roots_scope = PLATFORM, roots_bronze = ''s3://b/platform_bronze/events'',
        roots_silver = ''s3://b/platform_silver/events'', roots_gold = ''s3://b/platform_gold/events''\<rparr>\<rparr>"

definition stat_open_at :: "string \<Rightarrow> int \<Rightarrow> mem_store \<Rightarrow> (int \<times> row list) res" where
  "stat_open_at uri n w =
     bindR (api_open mem_delta uri w) (\<lambda>t. bindR (guard (fst t = n) OtherError ''no such version'') (\<lambda>_. Inr t))"

definition stat_store :: mem_store where
  "stat_store = [(''s3://b/platform_silver/events'', 4, [])]"

lemma stat_writer_made: "new_writer PLATFORM ''s3://b'' = Inr stat_writer"
  by code_simp

lemma stat_uris: "table_uri stat_writer ''silver'' = Inr ''s3://b/platform_silver/events''"
  "gold_named stat_writer FACTS_TABLE_NAME = Inr ''s3://b/platform_gold/port_call_facts''"
  "gold_named stat_writer VALUES_TABLE_NAME = Inr ''s3://b/platform_gold/port_kpi_values''"
  "gold_named stat_writer RUNS_TABLE_NAME = Inr ''s3://b/platform_gold/port_kpi_runs''"
  "reports_directory_uri stat_writer = Inr ''s3://b/platform_gold/port_kpi_reports''"
  "writer_scope stat_writer = PLATFORM" "scope_root_from_writer stat_writer = ''s3://b''"
  by code_simp+

lemma stat_period: "parse_period ''2026-09'' = Inr september"
  by code_simp

lemma plain_json_canonical: "plain_json v \<Longrightarrow> is_ok (canonical_json fr v)"
proof (induction fr v rule: canonical_json.induct)
  case (6 fr xs)
  then have "is_ok (mapR (canonical_json fr) xs)" by (intro is_ok_mapR) auto
  then show ?case by (auto simp: is_ok_iff)
next
  case (7 fr d)
  then have "is_ok (mapR (\<lambda>(k, v). bindR (canonical_json fr v) (\<lambda>t. Inr (k, t))) d)"
    by (intro is_ok_mapR) (fastforce simp: is_ok_iff)
  then show ?case by (auto simp: is_ok_iff)
qed simp_all

lemma definitions_plain: "plain_json (JList (map definition_material KPI_DEFINITIONS))"
  by (auto simp: KPI_DEFINITIONS_def definition_material_def text_json_def)

lemma stat_pinned: "\<exists>query_hash run_id. pinned_run_id stat_runtime stat_writer period 4 = Inr (query_hash, run_id)"
proof -
  obtain t where t: "canonicalize (tx_repr toy_codec) (JList (map definition_material KPI_DEFINITIONS)) = Inr t"
    using plain_canonical [OF definitions_plain] by (auto simp: is_ok_iff)
  have "plain_json (JObj [(''period'', JStr period), (''query_definitions_sha256'', JStr q), (''scope_root'', JStr s),
     (''source_table_versions'', JObj (source_versions 4))])" for q s
    by (simp add: source_versions_def)
  from plain_json_canonical [OF this] t show ?thesis
    by (fastforce simp: pinned_run_id_def query_definitions_sha256_def build_run_id_def stat_runtime_def is_ok_iff bindR_Inr_iff)
qed

definition quiet_figures :: figures where
  "quiet_figures = \<lparr>fg_facts = [], fg_observations = [(''vessel_calls'', []), (''vessel_turnaround_hours'', []), (''waiting_time_hours'', []),
     (''throughput_tonnes'', []), (''truck_gate_turnaround_minutes'', []), (''booking_lead_time_hours'', []), (''slot_utilisation_pct'', [])],
     fg_ports = [None]\<rparr>"

lemma quiet_run_figures:
  assumes "map_of w ''s3://b/platform_silver/events'' = Some (4, [])"
  shows "run_figures stat_runtime mem_delta stat_open_at stat_writer start finish w = (Inr (4, quiet_figures), w)"
proof -
  have c: "compute_figures loads sha [] start finish = Inr quiet_figures" for loads sha
    by (simp add: compute_figures_def assemble_port_call_facts_def extract_gate_scans_def extract_bookings_def compute_kpi_observations_def
        vessel_calls_def quantiles_def by_port_def turnaround_times_def waiting_times_def tonnages_def throughput_def
        gate_durations_minutes_def group_by_def discover_ports_def quiet_figures_def)
  have o: "api_open mem_delta ''s3://b/platform_silver/events'' w = Inr (4, [])" using assms by (simp add: mem_delta_def)
  have s: "open_source mem_delta ''s3://b/platform_silver/events'' w = (Inr (4, []), w)" by (simp add: open_source_def o)
  have v: "api_version mem_delta (4, []) = 4" "api_read mem_delta (4, []) SILVER_EVENT_COLUMNS None = Inr []"
    by (simp_all add: mem_delta_def selected_def)
  show ?thesis
    unfolding run_figures_def stat_uris bindA_pure bindA_step [where m = "open_source mem_delta ''s3://b/platform_silver/events''", OF s] Let_def v
    by (simp add: bindA_read stat_open_at_def o v c pureA_def)
qed

lemma quiet_rows:
  "emit_value_rows (fg_observations quiet_figures) (fg_ports quiet_figures) c =
   Inr (map (\<lambda>d. (base_row c d None)\<lparr>vr_note := (case kd_gap_id d of None \<Rightarrow> Some NO_DATA_NOTE | Some g \<Rightarrow> gap_note g)\<rparr>) KPI_DEFINITIONS)"
proof -
  have "rows_of (fg_observations quiet_figures) c d None =
      [(base_row c d None)\<lparr>vr_note := (case kd_gap_id d of None \<Rightarrow> Some NO_DATA_NOTE | Some g \<Rightarrow> gap_note g)\<rparr>]" for d
    by (auto simp: rows_of_def quiet_figures_def observations_of_def split: option.split)
  then show ?thesis by (simp add: emit_eq quiet_figures_def)
qed

lemma run_row_shaped: "shaped PORT_KPI_RUNS_SCHEMA [run_row run_id computed period start finish versions_json query_hash rows h]"
  by (simp add: shaped_def PORT_KPI_RUNS_SCHEMA_def run_row_def)

lemma append_creates:
  assumes "map_of w uri = None" "validate_table_uri uri = Inr ()" "rows \<noteq> []" "canonical d"
  shows "append_rows mem_delta ps uri rows key (Some d) sch name w = (Inr (0, int (length rows), 0), AList.update uri (0, arrow_rows rows sch) w)"
proof -
  have e: "delta_table_exists mem_delta uri w = Inr False" using assms(1) by (simp add: delta_table_exists_def mem_delta_def raise_def)
  let ?source = "arrow_rows rows sch"
  have c: "api_from_pylist mem_delta rows sch = Inr ?source" "api_create mem_delta uri ?source name d w = (Inr (), AList.update uri (0, ?source) w)"
    "api_open mem_delta uri (AList.update uri (0, ?source) w) = Inr (0, ?source)" "api_version mem_delta (0, ?source) = 0"
    by (simp_all add: mem_delta_def)
  show ?thesis
    using assms(2-4) by (simp add: append_rows_def bindA_read e c create_table_def bindA_step [where m = "api_create mem_delta uri ?source name d"] pureA_def)
qed

lemma stat_tables: "validate_table_uri ''s3://b/platform_gold/port_kpi_runs'' = Inr ()"
  "validate_table_uri ''s3://b/platform_gold/port_kpi_values'' = Inr ()" "validate_table_uri ''s3://b/platform_gold/port_call_facts'' = Inr ()"
  "canonical RUNS_TABLE_DESCRIPTION" "canonical VALUES_TABLE_DESCRIPTION" "canonical FACTS_TABLE_DESCRIPTION"
  by code_simp+

lemma plain_artefact:
  assumes "list_all (\<lambda>r. vr_value r = None \<and> vr_n r = 0) rows" "length rows < 100"
  shows "plain_json (JObj (build_report_core run_id period start finish (source_versions 4) query_hash rows))"
    "plain_json (JObj (report_artefact (build_report_core run_id period start finish (source_versions 4) query_hash rows) computed h))"
proof -
  have n: "0 \<le> no_data_rows rows" "no_data_rows rows < 100"
    using le_less_trans [OF length_filter_le assms(2)] by (simp_all add: no_data_rows_def)
  have v: "plain_json (JObj x)" if "x \<in> set (report_values rows)" for x
    using that assms(1) by (auto simp: report_values_def report_value_def list_all_iff text_json_def float_json_def split: option.split)
  show c: "plain_json (JObj (build_report_core run_id period start finish (source_versions 4) query_hash rows))"
    using n assms(2) v by (simp add: build_report_core_def source_versions_def KPI_DEFINITIONS_def)
  then show "plain_json (JObj (report_artefact (build_report_core run_id period start finish (source_versions 4) query_hash rows) computed h))"
    by (simp add: report_artefact_def)
qed


lemma quiet_run_stored:
  assumes "map_of w ''s3://b/platform_silver/events'' = Some (4, [])"
    and "map_of w ''s3://b/platform_gold/port_kpi_runs'' = None" "map_of w ''s3://b/platform_gold/port_kpi_values'' = None"
  shows "\<exists>r w'. run_port_statistics stat_runtime mem_delta stat_open_at stat_writer ''2026-09'' signing_key kid (Some computed) w = (Inr r, w') \<and>
    rr_source_versions r = source_versions 4 \<and> rr_rows_emitted r = 9 \<and> rr_rows_no_data r = 9 \<and>
    (\<exists>run_id start finish versions_json query_hash rows h. map_of w' ''s3://b/platform_gold/port_kpi_runs'' =
       Some (0, [run_row run_id computed ''2026-09'' start finish versions_json query_hash rows h]))"
proof -
  obtain start finish where p: "parse_period ''2026-09'' = Inr (start, finish)" using stat_period by (cases september) simp
  obtain query_hash run_id where q: "pinned_run_id stat_runtime stat_writer ''2026-09'' 4 = Inr (query_hash, run_id)" using stat_pinned by blast
  let ?c = "\<lparr>rc_run = run_id, rc_period = ''2026-09'', rc_source = SILVER_TABLE_LABEL, rc_version = 4, rc_hash = query_hash, rc_at = computed\<rparr>"
  define rows where "rows = map (\<lambda>d. (base_row ?c d None)\<lparr>vr_note := (case kd_gap_id d of None \<Rightarrow> Some NO_DATA_NOTE | Some g \<Rightarrow> gap_note g)\<rparr>) KPI_DEFINITIONS"
  have e: "emit_value_rows (fg_observations quiet_figures) (fg_ports quiet_figures) ?c = Inr rows"
    by (simp add: quiet_rows rows_def)
  have rows: "list_all (\<lambda>r. vr_value r = None \<and> vr_n r = 0) rows" "length rows = 9" "rows \<noteq> []" "no_data_rows rows = 9"
    by (simp_all add: rows_def list_all_iff base_row_def KPI_DEFINITIONS_def no_data_rows_def)
  let ?core = "build_report_core run_id ''2026-09'' start finish (source_versions 4) query_hash rows"
  obtain t where "canonicalize (tx_repr toy_codec) (JObj ?core) = Inr t"
    using plain_canonical [OF plain_artefact(1) [OF rows(1)]] rows(2) by (fastforce simp: is_ok_iff)
  then have h: "report_core_sha256 (st_sha stat_runtime) (tx_repr (st_codec stat_runtime)) ?core = Inr (utf8_encode t)"
    by (simp add: report_core_sha256_def stat_runtime_def)
  let ?artefact = "report_artefact ?core computed (utf8_encode t)"
  obtain provenance where pr: "jget ?artefact ''provenance'' = JObj provenance" "plain_json (JObj provenance)"
    by (simp add: report_artefact_def build_report_core_def)
  have "plain_json (JObj ?artefact)" by (rule plain_artefact(2) [OF rows(1)]) (simp add: rows(2))
  with pr(2) have "plain_json (signed_document ?artefact provenance)" by (auto simp: signed_document_def)
  then obtain t' where "canonicalize (tx_repr (st_codec stat_runtime)) (signed_document ?artefact provenance) = Inr t'"
    using plain_canonical by (auto simp: is_ok_iff)
  from sign_document_copy [OF pr(1) this] obtain signed where
    s: "sign_document (st_codec stat_runtime) (st_ed stat_runtime) ?artefact signing_key kid = Inr signed" by blast
  obtain versions_json where j: "canonical_json (tx_repr (st_codec stat_runtime)) (JObj (source_versions 4)) = Inr versions_json"
    using plain_json_canonical [of "JObj (source_versions 4)"] by (auto simp: source_versions_def is_ok_iff)
  let ?run = "[run_row run_id computed ''2026-09'' start finish versions_json query_hash rows (utf8_encode t)]"
  define w1 where "w1 = AList.update ''s3://b/platform_gold/port_kpi_runs'' (0, ?run) w"
  have a: "append_rows mem_delta (st_str stat_runtime) ''s3://b/platform_gold/port_kpi_runs'' ?run ''run_id'' (Some RUNS_TABLE_DESCRIPTION)
      (Some PORT_KPI_RUNS_SCHEMA) ''platform_gold_port_kpi_runs'' w = (Inr (0, 1, 0), w1)"
    using append_creates [OF assms(2) stat_tables(1) _ stat_tables(4), of ?run] by (simp add: w1_def shaped_arrow_rows [OF run_row_shaped])
  have "map_of w1 ''s3://b/platform_gold/port_kpi_values'' = None" using assms(3) by (simp add: w1_def)
  from append_creates [OF this stat_tables(2) _ stat_tables(5), of "map (value_cells (st_sha stat_runtime)) rows"] rows(2,3)
  obtain w2 where b: "append_rows mem_delta (st_str stat_runtime) ''s3://b/platform_gold/port_kpi_values'' (map (value_cells (st_sha stat_runtime)) rows)
      ''value_key'' (Some VALUES_TABLE_DESCRIPTION) (Some PORT_KPI_VALUES_SCHEMA) ''platform_gold_port_kpi_values'' w1 = (Inr (0, 9, 0), w2)"
    and w2: "w2 = AList.update ''s3://b/platform_gold/port_kpi_values''
      (0, arrow_rows (map (value_cells (st_sha stat_runtime)) rows) (Some PORT_KPI_VALUES_SCHEMA)) w1" by auto
  have f: "append_facts stat_runtime mem_delta uri [] = pureA (Inr (- 1))" for uri by (simp add: append_facts_def)
  have wr: "\<exists>jp cp. write_report_artefacts stat_runtime stat_writer run_id x y w2 = (Inr (jp, cp), w2)" for x y
    by (simp add: write_report_artefacts_def stat_uris Let_def bindA_def pureA_def stat_runtime_def)
  obtain jp cp where w: "write_report_artefacts stat_runtime stat_writer run_id (JObj signed)
      (report_values_csv (tx_repr (st_codec stat_runtime)) (report_values rows)) w2 = (Inr (jp, cp), w2)" using wr by blast
  have pub: "publish_run stat_runtime mem_delta stat_writer signing_key kid ''2026-09'' start finish 4 query_hash run_id computed [] rows w =
      (Inr \<lparr>rr_run_id = run_id, rr_period = ''2026-09'', rr_report_sha256 = utf8_encode t, rr_rows_emitted = int (length rows),
        rr_rows_no_data = no_data_rows rows, rr_facts_rows = 0, rr_source_versions = source_versions 4, rr_runs_version = 0,
        rr_values_version = 0, rr_facts_version = - 1, rr_json_path = jp, rr_csv_path = cp\<rparr>, w2)"
    unfolding publish_run_def stat_uris bindA_pure f Let_def h s j
    by (simp add: bindA_def a b w pureA_def)
  have c: "computed_instant stat_runtime (Some computed) w = (Inr computed, w)" by (simp add: computed_instant_def)
  have "run_port_statistics stat_runtime mem_delta stat_open_at stat_writer ''2026-09'' signing_key kid (Some computed) w =
      publish_run stat_runtime mem_delta stat_writer signing_key kid ''2026-09'' start finish 4 query_hash run_id computed [] rows w"
    unfolding run_port_statistics_def stat_uris p q bindA_pure
    by (simp add: bindA_def quiet_run_figures [OF assms(1)] q c e quiet_figures_def [THEN arg_cong, of fg_facts] pureA_def)
  moreover have "map_of w2 ''s3://b/platform_gold/port_kpi_runs'' = Some (0, ?run)" by (simp add: w2 w1_def update_conv')
  then have "\<exists>run_id start finish versions_json query_hash rows h. map_of w2 ''s3://b/platform_gold/port_kpi_runs'' =
       Some (0, [run_row run_id computed ''2026-09'' start finish versions_json query_hash rows h])" by (intro exI)
  ultimately show ?thesis using pub rows by simp
qed

lemma quiet_run:
  assumes "map_of w ''s3://b/platform_silver/events'' = Some (4, [])"
    and "map_of w ''s3://b/platform_gold/port_kpi_runs'' = None" "map_of w ''s3://b/platform_gold/port_kpi_values'' = None"
  shows "\<exists>r w'. run_port_statistics stat_runtime mem_delta stat_open_at stat_writer ''2026-09'' signing_key kid (Some computed) w = (Inr r, w') \<and>
    rr_source_versions r = source_versions 4 \<and> rr_rows_emitted r = 9 \<and> rr_rows_no_data r = 9"
  using quiet_run_stored [OF assms, of signing_key kid computed] by blast

lemma replay_reproduces_witness:
  "\<exists>r s w' v'. run_port_statistics stat_runtime mem_delta stat_open_at stat_writer ''2026-09'' ''seed'' ''k1'' (Some 1) stat_store = (Inr r, w') \<and>
     run_port_statistics stat_runtime mem_delta stat_open_at stat_writer ''2026-09'' ''other'' ''k2'' (Some 2)
       ((''s3://b/t'', 7, []) # stat_store) = (Inr s, v') \<and>
     run_digest r = run_digest s \<and> rr_rows_emitted s = 9"
proof -
  have s: "map_of stat_store ''s3://b/platform_silver/events'' = Some (4, [])" "map_of stat_store ''s3://b/platform_gold/port_kpi_runs'' = None"
    "map_of stat_store ''s3://b/platform_gold/port_kpi_values'' = None"
    by (simp_all add: stat_store_def)
  from quiet_run [OF s, of "''seed''" "''k1''" 1] obtain r w' where
    r: "run_port_statistics stat_runtime mem_delta stat_open_at stat_writer ''2026-09'' ''seed'' ''k1'' (Some 1) stat_store = (Inr r, w')"
    "rr_source_versions r = source_versions 4" by blast
  have "map_of ((''s3://b/t'', 7, []) # stat_store) uri = map_of stat_store uri" if "uri \<noteq> ''s3://b/t''" for uri
    using that by simp
  with s quiet_run [of "(''s3://b/t'', 7, []) # stat_store" "''other''" "''k2''" 2] obtain q v' where
    q: "run_port_statistics stat_runtime mem_delta stat_open_at stat_writer ''2026-09'' ''other'' ''k2'' (Some 2) ((''s3://b/t'', 7, []) # stat_store) = (Inr q, v')"
    "rr_source_versions q = source_versions 4" "rr_rows_emitted q = 9" by auto
  have "same_version mem_delta stat_open_at stat_store ((''s3://b/t'', 7, []) # stat_store)"
    by (auto simp: same_version_def stat_open_at_def mem_delta_def stat_store_def bindR_Inr_iff require_some_def split: if_splits option.splits)
  from replay_reproduces [OF r(1) q(1) this] r(2) q(2) have "run_digest r = run_digest q" by simp
  with r q show ?thesis by blast
qed

section \<open>What a run leaves in the gold tables\<close>

text \<open>A row of the table with this key and the same identity columns.\<close>

definition row_retained :: "('w, 't) delta_api \<Rightarrow> ('t \<Rightarrow> row list) \<Rightarrow> (cell \<Rightarrow> string) \<Rightarrow> string \<Rightarrow> string \<Rightarrow> row \<Rightarrow> 'w \<Rightarrow> bool" where
  "row_retained api content fmt uri key r w \<longleftrightarrow>
     (\<exists>t y. api_open api uri w = Inr t \<and> y \<in> set (content t) \<and> CText (py_str fmt (row_get y key)) = row_get r key \<and>
        list_all (\<lambda>c. same_value (row_get y c) (row_get r c)) (identity_columns r))"

lemma appended_row_retained:
  assumes "delta_contract api content" "append_rows api (py_str fmt) uri rows key desc sch name w = (Inr x, w')"
    and "key \<notin> set REPLAY_GUARD_EXCLUDED_COLUMNS" "fst ` set r \<subseteq> set (arrow_columns rows sch)" "r \<in> set rows" "row_get r key = CText k"
  shows "row_retained api content fmt uri key r w'"
proof -
  obtain v n p where x: "x = (v, n, p)" by (cases x)
  from append_retained_whole [OF assms(1) assms(2) [unfolded x] assms(3-6)] assms(6) show ?thesis
    unfolding row_retained_def by auto
qed

lemma row_retained_kept: "row_retained api content fmt uri key r w \<Longrightarrow> api_open api uri w' = api_open api uri w \<Longrightarrow> row_retained api content fmt uri key r w'"
  by (simp add: row_retained_def)

text \<open>The report files and the clock are no tables.\<close>

definition stats_contract :: "'w stats_runtime \<Rightarrow> ('w, 't) delta_api \<Rightarrow> ('t \<Rightarrow> row list) \<Rightarrow> (cell \<Rightarrow> string) \<Rightarrow> bool" where
  "stats_contract rt api content fmt \<longleftrightarrow>
     delta_contract api content \<and> frames api (others_same api) \<and> st_str rt = py_str fmt \<and>
     (\<forall>uri files w. api_open api uri (snd (st_write rt files w)) = api_open api uri w)"

lemma artefacts_world:
  assumes "stats_contract rt api content fmt" "write_report_artefacts rt writer run_id artefact csv_text w = (Inr x, w')"
  shows "api_open api uri w' = api_open api uri w"
proof -
  from assms(2) obtain files u where "st_write rt files w = (Inr u, w')"
    unfolding write_report_artefacts_def Let_def by (elim bindA_pure_okE bindA_okE pureA_okE) auto
  with assms(1) show ?thesis unfolding stats_contract_def by (metis snd_conv)
qed

lemma gold_named_differ:
  assumes "gold_named writer n = Inr uri" "gold_named writer m = Inr uri'" "n \<noteq> m"
  shows "uri \<noteq> uri'"
  using assms by (auto simp: gold_named_def scope_layer_table_uri_def Let_def bindR_Inr_iff)

lemma run_retains_rows:
  assumes "stats_contract rt api content fmt"
    and "run_port_statistics rt api open_at writer period signing_key kid computed_at w = (Inr r, w')"
  shows "\<exists>start finish version figs c rows facts_uri values_uri runs_uri run.
    parse_period period = Inr (start, finish) \<and> run_figures rt api open_at writer start finish w = (Inr (version, figs), w) \<and>
    emit_value_rows (fg_observations figs) (fg_ports figs) c = Inr rows \<and> rc_run c = rr_run_id r \<and>
    gold_named writer FACTS_TABLE_NAME = Inr facts_uri \<and> gold_named writer VALUES_TABLE_NAME = Inr values_uri \<and>
    gold_named writer RUNS_TABLE_NAME = Inr runs_uri \<and>
    row_get run ''run_id'' = CText (rr_run_id r) \<and> row_get run ''report_sha256'' = CText (rr_report_sha256 r) \<and>
    row_retained api content fmt runs_uri ''run_id'' run w' \<and>
    list_all (\<lambda>x. row_retained api content fmt values_uri ''value_key'' (value_cells (st_sha rt) x) w') rows \<and>
    list_all (\<lambda>f. row_retained api content fmt facts_uri ''port_call_id'' (fact_row f) w') (fg_facts figs) \<and>
    rr_rows_emitted r = int (length rows) \<and> rr_facts_rows r = int (length (fg_facts figs))"
proof -
  from run_Inr [OF assms(2)] obtain start finish version figs query_hash run_id computed w0 rows where a:
    "parse_period period = Inr (start, finish)" "run_figures rt api open_at writer start finish w = (Inr (version, figs), w)"
    "emit_value_rows (fg_observations figs) (fg_ports figs) (context_of run_id period version query_hash computed) = Inr rows"
    "publish_run rt api writer signing_key kid period start finish version query_hash run_id computed (fg_facts figs) rows w0 = (Inr r, w')" .
  note con = assms(1) [unfolded stats_contract_def]
  show ?thesis
  proof (rule publish_Inr [OF a(4)])
    fix facts_uri values_uri runs_uri fv w1 report_hash signed versions_json rv w2 vv w3 json_path csv_path
    assume u: "gold_named writer FACTS_TABLE_NAME = Inr facts_uri" "gold_named writer VALUES_TABLE_NAME = Inr values_uri"
      "gold_named writer RUNS_TABLE_NAME = Inr runs_uri" and f: "append_facts rt api facts_uri (fg_facts figs) w0 = (Inr fv, w1)"
      and ru: "append_rows api (st_str rt) runs_uri [run_row run_id computed period start finish versions_json query_hash rows report_hash]
        ''run_id'' (Some RUNS_TABLE_DESCRIPTION) (Some PORT_KPI_RUNS_SCHEMA) ''platform_gold_port_kpi_runs'' w1 = (Inr rv, w2)"
      and va: "append_rows api (st_str rt) values_uri (map (value_cells (st_sha rt)) rows)
        ''value_key'' (Some VALUES_TABLE_DESCRIPTION) (Some PORT_KPI_VALUES_SCHEMA) ''platform_gold_port_kpi_values'' w2 = (Inr vv, w3)"
      and wr: "write_report_artefacts rt writer run_id (JObj signed) (report_values_csv (tx_repr (st_codec rt)) (report_values rows)) w3 =
        (Inr (json_path, csv_path), w')"
      and r: "r = \<lparr>rr_run_id = run_id, rr_period = period, rr_report_sha256 = report_hash,
       rr_rows_emitted = int (length rows), rr_rows_no_data = no_data_rows rows,
       rr_facts_rows = int (length (fg_facts figs)), rr_source_versions = source_versions version, rr_runs_version = fst rv,
       rr_values_version = fst vv, rr_facts_version = fv, rr_json_path = json_path, rr_csv_path = csv_path\<rparr>"
    let ?run = "run_row run_id computed period start finish versions_json query_hash rows report_hash"
    have d: "facts_uri \<noteq> runs_uri" "facts_uri \<noteq> values_uri" "runs_uri \<noteq> values_uri"
      using gold_named_differ [OF u(1,3)] gold_named_differ [OF u(1,2)] gold_named_differ [OF u(3,2)]
      by (simp_all add: FACTS_TABLE_NAME_def RUNS_TABLE_NAME_def VALUES_TABLE_NAME_def)
    have k: "k \<notin> set REPLAY_GUARD_EXCLUDED_COLUMNS" if "k \<in> {''run_id'', ''value_key'', ''port_call_id''}" for k
      using that by (auto simp: REPLAY_GUARD_EXCLUDED_COLUMNS_def)
    have s: "api_open api uri w2 = api_open api uri w1" if "uri \<noteq> runs_uri" for uri
      using append_rows_frame [OF _ ru] con that by (auto simp: others_same_def)
    have s': "api_open api uri w' = api_open api uri w2" if "uri \<noteq> values_uri" for uri
      using append_rows_frame [OF _ va] con that artefacts_world [OF assms(1) wr] by (auto simp: others_same_def)
    have "row_retained api content fmt runs_uri ''run_id'' ?run w2"
      by (rule appended_row_retained [of _ _ _ _ _ _ _ _ _ _ _ _ _ run_id]) (use con ru k in \<open>auto simp: run_row_def row_get_def arrow_columns_def PORT_KPI_RUNS_SCHEMA_def\<close>)
    then have run: "row_retained api content fmt runs_uri ''run_id'' ?run w'" by (rule row_retained_kept) (rule s' [OF d(3)])
    have "row_retained api content fmt values_uri ''value_key'' (value_cells (st_sha rt) x) w3" if "x \<in> set rows" for x
      by (rule appended_row_retained [of _ _ _ _ _ _ _ _ _ _ _ _ _ "value_row_key (st_sha rt) x"])
        (use con va k that in \<open>auto simp: value_cells_def row_get_def arrow_columns_def PORT_KPI_VALUES_SCHEMA_def\<close>)
    then have vals: "list_all (\<lambda>x. row_retained api content fmt values_uri ''value_key'' (value_cells (st_sha rt) x) w') rows"
      unfolding list_all_iff using row_retained_kept [OF _ artefacts_world [OF assms(1) wr]] by blast
    have fact: "row_retained api content fmt facts_uri ''port_call_id'' (fact_row x) w1" if x: "x \<in> set (fg_facts figs)" for x
    proof -
      from x have "fg_facts figs \<noteq> []" by auto
      with f obtain y where ap: "append_rows api (st_str rt) facts_uri (map fact_row (fg_facts figs)) ''port_call_id'' (Some FACTS_TABLE_DESCRIPTION)
          (Some PORT_CALL_FACTS_SCHEMA) ''platform_gold_port_call_facts'' w0 = (Inr y, w1)"
        by (auto simp: append_facts_def bindA_Inr)
      show ?thesis
        by (rule appended_row_retained [of _ _ _ _ _ _ _ _ _ _ _ _ _ "pf_call x"])
          (use con ap k x in \<open>auto simp: fact_row_def row_get_def arrow_columns_def PORT_CALL_FACTS_SCHEMA_def\<close>)
    qed
    have facts: "list_all (\<lambda>f. row_retained api content fmt facts_uri ''port_call_id'' (fact_row f) w') (fg_facts figs)"
      unfolding list_all_iff using row_retained_kept [OF fact s [OF d(1)], THEN row_retained_kept, OF _ s' [OF d(2)]] by blast
    have g: "row_get ?run ''run_id'' = CText run_id" "row_get ?run ''report_sha256'' = CText report_hash"
      by (simp_all add: run_row_def row_get_def)
    have c: "rc_run (context_of run_id period version query_hash computed) = run_id" by (simp add: context_of_def)
    show ?thesis unfolding r run_result.simps
      by (rule exI [of _ start], rule exI [of _ finish], rule exI [of _ version], rule exI [of _ figs],
          rule exI [of _ "context_of run_id period version query_hash computed"], rule exI [of _ rows], rule exI [of _ facts_uri],
          rule exI [of _ values_uri], rule exI [of _ runs_uri], rule exI [of _ ?run], intro conjI)
        (rule a(1) a(2) a(3) u run vals facts g c refl)+
  qed
qed

text \<open>
  A successful run leaves its provenance row, with the digest of its report, in the runs table, every value row
  it emitted in the values table, and every fact it computed in the facts table, each under its key and with its
  identity columns; the counts of its result are those of the rows.
\<close>

theorem run_rows_retained:
  assumes "stats_contract rt api content fmt"
    and "run_port_statistics rt api open_at writer period signing_key kid computed_at w = (Inr r, w')"
  shows "\<exists>start finish version figs c rows facts_uri values_uri runs_uri run.
    parse_period period = Inr (start, finish) \<and> run_figures rt api open_at writer start finish w = (Inr (version, figs), w) \<and>
    emit_value_rows (fg_observations figs) (fg_ports figs) c = Inr rows \<and> rc_run c = rr_run_id r \<and>
    gold_named writer FACTS_TABLE_NAME = Inr facts_uri \<and> gold_named writer VALUES_TABLE_NAME = Inr values_uri \<and>
    gold_named writer RUNS_TABLE_NAME = Inr runs_uri \<and>
    row_get run ''run_id'' = CText (rr_run_id r) \<and> row_get run ''report_sha256'' = CText (rr_report_sha256 r) \<and>
    row_retained api content fmt runs_uri ''run_id'' run w' \<and>
    list_all (\<lambda>x. row_retained api content fmt values_uri ''value_key'' (value_cells (st_sha rt) x) w') rows \<and>
    list_all (\<lambda>f. row_retained api content fmt facts_uri ''port_call_id'' (fact_row f) w') (fg_facts figs) \<and>
    rr_rows_emitted r = int (length rows) \<and> rr_facts_rows r = int (length (fg_facts figs))"
  using assms by (rule run_retains_rows)

lemma stat_contract: "stats_contract stat_runtime mem_delta snd (\<lambda>c. [])"
  using mem_delta_deletion_contract by (simp add: stats_contract_def deletion_contract_def stat_runtime_def)

lemma run_rows_retained_witness:
  "\<exists>r w' rows. run_port_statistics stat_runtime mem_delta stat_open_at stat_writer ''2026-09'' ''seed'' ''k1'' (Some 1) stat_store = (Inr r, w') \<and>
     length rows = 9 \<and> list_all (\<lambda>x. row_retained mem_delta snd (\<lambda>c. []) ''s3://b/platform_gold/port_kpi_values'' ''value_key''
       (value_cells id x) w') rows"
proof -
  have s: "map_of stat_store ''s3://b/platform_silver/events'' = Some (4, [])" "map_of stat_store ''s3://b/platform_gold/port_kpi_runs'' = None"
    "map_of stat_store ''s3://b/platform_gold/port_kpi_values'' = None"
    by (simp_all add: stat_store_def)
  from quiet_run [OF s, of "''seed''" "''k1''" 1] obtain r w' where
    r: "run_port_statistics stat_runtime mem_delta stat_open_at stat_writer ''2026-09'' ''seed'' ''k1'' (Some 1) stat_store = (Inr r, w')"
    "rr_rows_emitted r = 9" by blast
  from run_rows_retained [OF stat_contract r(1)] obtain rows values_uri where
    "gold_named stat_writer VALUES_TABLE_NAME = Inr values_uri" "rr_rows_emitted r = int (length rows)"
    "list_all (\<lambda>x. row_retained mem_delta snd (\<lambda>c. []) values_uri ''value_key'' (value_cells (st_sha stat_runtime) x) w') rows" by blast
  with r(2) have "length rows = 9" "list_all (\<lambda>x. row_retained mem_delta snd (\<lambda>c. []) ''s3://b/platform_gold/port_kpi_values'' ''value_key''
       (value_cells id x) w') rows"
    by (simp_all add: stat_uris stat_runtime_def)
  with r(1) show ?thesis by blast
qed

section \<open>Where a run fails\<close>

definition stops :: "('w, 'a) act \<Rightarrow> 'w \<Rightarrow> bool" where
  "stops m w \<longleftrightarrow> (\<exists>e. m w = (Inl e, w))"

lemma stops_pure: "(\<And>x. m = Inr x \<Longrightarrow> stops (f x) w) \<Longrightarrow> stops (bindA (pureA m) f) w"
  by (cases m) (auto simp: stops_def pureA_def)

lemma stops_step: "m w = (Inr x, w) \<Longrightarrow> stops (f x) w \<Longrightarrow> stops (bindA m f) w"
  by (simp add: stops_def bindA_def)

text \<open>
  A period cannot be reported again once one of its port calls has changed: when the facts table retains
  a call with a different status, time, tonnage or list of events, every later run over the period is refused before
  anything is written, so a lifecycle event that arrives after a run blocks the statistics of its month.
\<close>

theorem changed_call_blocks_period:
  assumes "delta_contract api content" and "st_str rt = py_str fmt" and "parse_period period = Inr (start, finish)"
    and "run_figures rt api open_at writer start finish w = (Inr (version, figs), w)" and "f \<in> set (fg_facts figs)"
    and "gold_named writer FACTS_TABLE_NAME = Inr uri" and "api_open api uri w = Inr t"
    and "y \<in> set (content t)" and "row_get y ''port_call_id'' = CText (pf_call f)"
    and "\<forall>x\<in>set (content t). py_str fmt (row_get x ''port_call_id'') = pf_call f \<longrightarrow>
      (\<exists>c\<in>set (identity_columns (fact_row f)). \<not> cell_eq (row_get x c) (row_get (fact_row f) c))"
  shows "\<exists>e. run_port_statistics rt api open_at writer period signing_key kid (Some computed) w = (Inl e, w)"
proof -
  have k: "''port_call_id'' \<notin> set REPLAY_GUARD_EXCLUDED_COLUMNS" by (simp add: REPLAY_GUARD_EXCLUDED_COLUMNS_def)
  have f: "fact_row f \<in> set (map fact_row (fg_facts figs))" "row_get (fact_row f) ''port_call_id'' = CText (pf_call f)" "fg_facts figs \<noteq> []"
    using assms(5) by (auto simp: fact_row_def row_get_def)
  obtain e where e: "append_rows api (py_str fmt) uri (map fact_row (fg_facts figs)) ''port_call_id'' (Some FACTS_TABLE_DESCRIPTION)
      (Some PORT_CALL_FACTS_SCHEMA) ''platform_gold_port_call_facts'' w = (Inl e, w)"
    using append_refused [OF assms(1,7) k f(1,2) assms(8,9,10)] by blast
  then have "append_facts rt api uri (fg_facts figs) w = (Inl e, w)" using f(3) assms(2) by (simp add: append_facts_def bindA_def)
  then have "\<exists>e. bindA (append_facts rt api uri (fg_facts figs)) g w = (Inl e, w)" for g :: "int \<Rightarrow> ('a, run_result) act"
    by (simp add: bindA_def)
  then have p: "stops (publish_run rt api writer signing_key kid period start finish version qh run_id computed (fg_facts figs) rows) w"
    for qh run_id rows
    unfolding publish_run_def assms(6) bindA_pure by (intro stops_pure) (simp add: stops_def)
  have c: "computed_instant rt (Some computed) w = (Inr computed, w)" by (simp add: computed_instant_def)
  have "stops (run_port_statistics rt api open_at writer period signing_key kid (Some computed)) w"
    unfolding run_port_statistics_def assms(3) bindA_pure prod.case
    by (rule stops_pure, rule stops_step [where m = "run_figures rt api open_at writer start finish", OF assms(4)], unfold prod.case, rule stops_pure, unfold split_def, rule stops_step [where m = "computed_instant rt (Some computed)", OF c], rule stops_pure, rule p)
  then show ?thesis by (simp add: stops_def)
qed

definition call_fact :: "string list \<Rightarrow> port_fact" where
  "call_fact events =
     \<lparr>pf_call = ''c1'', pf_port = ''NGAPP'', pf_vessel = None, pf_class = None, pf_status = ''ACCEPTED'', pf_arrived = Some 1790769600000000,
      pf_berthed = None, pf_departed = None, pf_tonnage = None, pf_events = events\<rparr>"

lemma two_event_fact:
  "september_facts [stat_event ''second'' 2, stat_event ''first'' 1] = Inr [call_fact [''first'', ''second'']]"
  by code_simp

lemma two_event_scans:
  "extract_gate_scans stat_loads [stat_event ''second'' 2, stat_event ''first'' 1] (fst september) (snd september) = Inr []"
  "extract_bookings stat_loads [stat_event ''second'' 2, stat_event ''first'' 1] (fst september) (snd september) = Inr []"
  by code_simp+

lemma two_event_figures:
  "\<exists>figs. compute_figures stat_loads id [stat_event ''second'' 2, stat_event ''first'' 1] (fst september) (snd september) = Inr figs \<and>
     fg_facts figs = [call_fact [''first'', ''second'']]"
proof -
  have f: "float_of_int 1 = Inr (PFin 1)" by (simp add: float_of_int_exact)
  have "\<exists>observations. compute_kpi_observations [call_fact [''first'', ''second'']] [] [] = Inr observations"
    by (simp add: compute_kpi_observations_def call_fact_def ACCEPTED_OR_BEYOND_def vessel_calls_def count_call_def bump_def f
        call_observation_def quantiles_def by_port_def turnaround_times_def waiting_times_def push_span_def tonnages_def throughput_def
        gate_durations_minutes_def group_by_def)
  then show ?thesis
    by (auto simp: compute_figures_def two_event_fact [unfolded september_facts_def] two_event_scans)
qed

definition late_runtime :: "mem_store stats_runtime" where
  "late_runtime = stat_runtime\<lparr>st_codec := toy_codec\<lparr>tx_loads := stat_loads\<rparr>\<rparr>"

definition late_store :: mem_store where
  "late_store =
     [(''s3://b/platform_silver/events'', 5, [stat_event ''second'' 2, stat_event ''first'' 1]),
      (''s3://b/platform_gold/port_call_facts'', 0, [fact_row (call_fact [''first''])])]"

lemma changed_call_blocks_period_witness:
  "\<exists>e. run_port_statistics late_runtime mem_delta stat_open_at stat_writer ''2026-09'' ''seed'' ''k1'' (Some 1) late_store = (Inl e, late_store)"
proof -
  let ?silver = "[stat_event ''second'' 2, stat_event ''first'' 1]"
  obtain figs where figs: "compute_figures stat_loads id ?silver (fst september) (snd september) = Inr figs"
    "fg_facts figs = [call_fact [''first'', ''second'']]" using two_event_figures by blast
  have o: "api_open mem_delta ''s3://b/platform_silver/events'' late_store = Inr (5, ?silver)" by (simp add: mem_delta_def late_store_def)
  have s: "open_source mem_delta ''s3://b/platform_silver/events'' late_store = (Inr (5, ?silver), late_store)" by (simp add: open_source_def o)
  have v: "api_version mem_delta (5, ?silver) = 5" "api_read mem_delta (5, ?silver) SILVER_EVENT_COLUMNS None = Inr ?silver"
    by (simp_all add: mem_delta_def selected_def project_def SILVER_EVENT_COLUMNS_def stat_event_def row_get_def)
  have run: "run_figures late_runtime mem_delta stat_open_at stat_writer (fst september) (snd september) late_store = (Inr (5, figs), late_store)"
    unfolding run_figures_def stat_uris bindA_pure
      bindA_step [where m = "open_source mem_delta ''s3://b/platform_silver/events''", OF s] Let_def v
    using figs(1) by (simp add: bindA_read stat_open_at_def o v pureA_def late_runtime_def stat_runtime_def)
  show ?thesis
  proof (rule changed_call_blocks_period [OF mem_delta_contract _ _ run _ stat_uris(2), where y = "fact_row (call_fact [''first''])"])
    show "api_open mem_delta ''s3://b/platform_gold/port_call_facts'' late_store = Inr (0, [fact_row (call_fact [''first''])])"
      by (simp add: mem_delta_def late_store_def)
    show "st_str late_runtime = py_str (\<lambda>c. [])" by (simp add: late_runtime_def stat_runtime_def)
    show "parse_period ''2026-09'' = Inr (fst september, snd september)" by (simp add: stat_period)
    show "call_fact [''first'', ''second''] \<in> set (fg_facts figs)" by (simp add: figs(2))
    show "row_get (fact_row (call_fact [''first''])) ''port_call_id'' = CText (pf_call (call_fact [''first'', ''second'']))"
      by (simp add: fact_row_def call_fact_def row_get_def)
    have "dumps_texts [''first''] \<noteq> dumps_texts [''first'', ''second'']" by code_simp
    then have "\<not> cell_eq (row_get (fact_row (call_fact [''first''])) ''source_event_ids_json'')
        (row_get (fact_row (call_fact [''first'', ''second''])) ''source_event_ids_json'')"
      by (simp add: fact_row_def call_fact_def row_get_def)
    moreover have "''source_event_ids_json'' \<in> set (identity_columns (fact_row (call_fact [''first'', ''second''])))"
      by (simp add: identity_columns_def fact_row_def REPLAY_GUARD_EXCLUDED_COLUMNS_def)
    ultimately show "\<forall>x\<in>set (snd (0, [fact_row (call_fact [''first''])])).
        py_str (\<lambda>c. []) (row_get x ''port_call_id'') = pf_call (call_fact [''first'', ''second'']) \<longrightarrow>
        (\<exists>c\<in>set (identity_columns (fact_row (call_fact [''first'', ''second'']))).
           \<not> cell_eq (row_get x c) (row_get (fact_row (call_fact [''first'', ''second''])) c))"
      by auto
  qed simp
qed

text \<open>
  With gold tables on S3 the report files are not written beside them: their paths are relative local paths
  whose first component is \<open>s3:\<close>, because the path type collapses the double slash of the URI.
\<close>

theorem s3_reports_written_locally:
  assumes "prefix ''s3://'' (roots_gold (writer_roots writer))"
    and "run_port_statistics rt api open_at writer period signing_key kid computed_at w = (Inr r, w')"
  shows "list_all (\<lambda>p. prefix ''s3:'' p \<and> \<not> prefix ''s3://'' p) [rr_json_path r, rr_csv_path r]"
proof -
  obtain gold where gold: "roots_gold (writer_roots writer) = ''s3://'' @ gold" using assms(1) by (auto elim: prefixE)
  have "before_last (CHR ''/'') (''s3://'' @ gold) @ ''/'' = ''s3://'' \<or> (\<exists>z. before_last (CHR ''/'') (''s3://'' @ gold) @ ''/'' = ''s3://'' @ z)"
  proof (cases "CHR ''/'' \<in> set gold")
    case True
    then obtain a b where "gold = a @ CHR ''/'' # b" "CHR ''/'' \<notin> set b" by (metis split_list_last)
    then show ?thesis using before_last_append [of "CHR ''/''" b "''s3://'' @ a"] by simp
  next
    case False
    then show ?thesis using before_last_append [of "CHR ''/''" gold "''s3:/''"] by simp
  qed
  then obtain z where z: "before_last (CHR ''/'') (roots_gold (writer_roots writer)) @ ''/'' = ''s3://'' @ z"
    unfolding gold by (metis append_Nil2)
  have path: "prefix ''s3:'' (posix_path_str (''s3://'' @ y)) \<and> \<not> prefix ''s3://'' (posix_path_str (''s3://'' @ y))" for y
  proof -
    define cs where "cs = filter (\<lambda>c. c \<noteq> [] \<and> c \<noteq> ''.'') (split_on (CHR ''/'') y)"
    have "split_on (CHR ''/'') (''s3://'' @ y) = ''s3:'' # [] # split_on (CHR ''/'') y"
      using split_on_append_sep [of "CHR ''/''" "''s3:''" "CHR ''/'' # y"] by (simp add: split_on_no_sep)
    then have p: "posix_path_str (''s3://'' @ y) = ''s3:'' @ concat (map (\<lambda>x. CHR ''/'' # x) cs)"
      by (simp add: posix_path_str_def cs_def)
    have "\<not> prefix ''//'' (concat (map (\<lambda>x. CHR ''/'' # x) cs))"
    proof (cases cs)
      case (Cons c ds)
      then have "c \<in> set cs" by simp
      then have "c \<noteq> []" "CHR ''/'' \<notin> set c" using split_on_pieces by (auto simp: cs_def)
      with Cons show ?thesis by (cases c) auto
    qed simp
    then show ?thesis unfolding p by simp
  qed
  from run_Inr [OF assms(2)] obtain start finish version query_hash run_id computed facts rows w1 where
    "publish_run rt api writer signing_key kid period start finish version query_hash run_id computed facts rows w1 = (Inr r, w')" .
  from publish_digest [OF this] obtain uri where uri: "reports_directory_uri writer = Inr uri"
    "rr_json_path (run_digest r) = posix_path_str (uri @ ''/'' @ run_id @ ''.json'')" "rr_csv_path (run_digest r) = posix_path_str (uri @ ''/'' @ run_id @ ''.csv'')"
    by auto
  from uri(1) have "uri = (before_last (CHR ''/'') (roots_gold (writer_roots writer)) @ ''/'') @ REPORTS_DIR_NAME"
    by (simp add: reports_directory_uri_def Let_def bindR_Inr_iff)
  then have "uri = ''s3://'' @ (z @ REPORTS_DIR_NAME)" unfolding z by simp
  with uri(2,3) path [of "(z @ REPORTS_DIR_NAME) @ ''/'' @ run_id @ ''.json''"] path [of "(z @ REPORTS_DIR_NAME) @ ''/'' @ run_id @ ''.csv''"]
  show ?thesis by (simp add: run_digest_def)
qed

lemma s3_reports_written_locally_witness:
  "\<exists>r w'. run_port_statistics stat_runtime mem_delta stat_open_at stat_writer ''2026-09'' ''seed'' ''k1'' (Some 1) stat_store = (Inr r, w') \<and>
     \<not> prefix ''s3://'' (rr_json_path r)"
proof -
  have s: "map_of stat_store ''s3://b/platform_silver/events'' = Some (4, [])" "map_of stat_store ''s3://b/platform_gold/port_kpi_runs'' = None"
    "map_of stat_store ''s3://b/platform_gold/port_kpi_values'' = None"
    by (simp_all add: stat_store_def)
  have p: "prefix ''s3://'' (roots_gold (writer_roots stat_writer))" by (simp add: stat_writer_def)
  from quiet_run [OF s, of "''seed''" "''k1''" 1] obtain r w' where
    r: "run_port_statistics stat_runtime mem_delta stat_open_at stat_writer ''2026-09'' ''seed'' ''k1'' (Some 1) stat_store = (Inr r, w')" by blast
  from s3_reports_written_locally [OF p r] r show ?thesis by auto
qed

section \<open>The published report\<close>

lemma core_member: "k \<in> set (map fst core) \<Longrightarrow> jget (report_artefact core computed h) k = jget core k"
proof -
  assume "k \<in> set (map fst core)"
  then obtain v where "map_of core k = Some v" by (metis map_of_eq_None_iff not_None_eq set_map)
  then show ?thesis by (simp add: report_artefact_def jget_def map_add_def)
qed

lemma core_keys:
  "map fst (build_report_core run_id period start finish versions query_hash rows) =
     [''schema_version'', ''run_id'', ''scope'', ''period'', ''period_start'', ''period_end'', ''source_table_versions'',
      ''query_definitions_sha256'', ''kpi_count'', ''rows_emitted'', ''rows_no_data'', ''values'']"
  by (simp add: build_report_core_def)

text \<open>
  Claim C26. The report file of a run is authentic: what is written at the reported path is the rendering of a document
  that verifies under the signing key, contains every member of the report, and carries the digest of the report,
  which is also the digest of the result.
\<close>

theorem published_report_authentic:
  assumes "ed25519_contract (st_ed rt)" and "codec_contract (st_codec rt)" and "KID_PATTERN kid"
    and "resolve directory kid = Some (ed_public (st_ed rt) signing_key)"
    and "run_port_statistics rt api open_at writer period signing_key kid computed_at w = (Inr r, w')"
  shows "\<exists>core signed csv w0.
    st_write rt [(rr_json_path r, dumps_indented (tx_repr (st_codec rt)) 0 (JObj signed) @ [CHR 0x0A]), (rr_csv_path r, csv)] w0 = (Inr (), w') \<and>
    verify_envelope (st_codec rt) (st_ed rt) directory signed = Inr kid \<and>
    (\<forall>k\<in>set (map fst core). jget signed k = jget core k) \<and> jget core ''run_id'' = JStr (rr_run_id r) \<and>
    report_core_sha256 (st_sha rt) (tx_repr (st_codec rt)) core = Inr (rr_report_sha256 r) \<and>
    jget signed ''report_sha256'' = JStr (rr_report_sha256 r)"
proof -
  from run_Inr [OF assms(5)] obtain start finish version query_hash run_id computed facts rows w1 where
    p: "publish_run rt api writer signing_key kid period start finish version query_hash run_id computed facts rows w1 = (Inr r, w')" .
  let ?core = "build_report_core run_id period start finish (source_versions version) query_hash rows"
  show ?thesis
  proof (rule publish_Inr [OF p])
    fix report_hash signed w3 json_path csv_path rv vv fv
    assume h: "report_core_sha256 (st_sha rt) (tx_repr (st_codec rt)) ?core = Inr report_hash"
      and s: "sign_document (st_codec rt) (st_ed rt) (report_artefact ?core computed report_hash) signing_key kid = Inr signed"
      and wr: "write_report_artefacts rt writer run_id (JObj signed) (report_values_csv (tx_repr (st_codec rt)) (report_values rows)) w3 =
        (Inr (json_path, csv_path), w')"
      and r: "r = \<lparr>rr_run_id = run_id, rr_period = period, rr_report_sha256 = report_hash,
       rr_rows_emitted = int (length rows), rr_rows_no_data = no_data_rows rows,
       rr_facts_rows = int (length facts), rr_source_versions = source_versions version, rr_runs_version = fst rv,
       rr_values_version = fst vv, rr_facts_version = fv, rr_json_path = json_path, rr_csv_path = csv_path\<rparr>"
    have written: "st_write rt [(json_path, dumps_indented (tx_repr (st_codec rt)) 0 (JObj signed) @ [CHR 0x0A]),
        (csv_path, report_values_csv (tx_repr (st_codec rt)) (report_values rows))] w3 = (Inr (), w')"
      using wr unfolding write_report_artefacts_def Let_def by (elim bindA_pure_okE bindA_okE pureA_okE) auto
    have v: "verify_envelope (st_codec rt) (st_ed rt) directory signed = Inr kid"
      by (rule signed_document_verifies [OF assms(1-4) s])
    have g: "jget signed k = jget (report_artefact ?core computed report_hash) k" if "k \<noteq> ''provenance''" for k
      using sign_document_parts [OF s] that by (metis jget_update)
    have m: "\<forall>k\<in>set (map fst ?core). jget signed k = jget ?core k"
    proof
      fix k assume k: "k \<in> set (map fst ?core)"
      then have "k \<noteq> ''provenance''" unfolding core_keys by auto
      with g core_member [OF k] show "jget signed k = jget ?core k" by simp
    qed
    have d: "jget signed ''report_sha256'' = JStr report_hash"
      using g [of "''report_sha256''"] by (simp add: report_artefact_def build_report_core_def jget_def)
    have i: "jget ?core ''run_id'' = JStr run_id" by (simp add: build_report_core_def jget_def)
    show ?thesis using written v m i h d unfolding r run_result.simps by blast
  qed
qed

lemma published_report_authentic_witness:
  "\<exists>r w' signed csv w0. run_port_statistics stat_runtime mem_delta stat_open_at stat_writer ''2026-09'' ''seed'' ''k1'' (Some 1) stat_store = (Inr r, w') \<and>
     st_write stat_runtime [(rr_json_path r, dumps_indented (tx_repr toy_codec) 0 (JObj signed) @ [CHR 0x0A]), (rr_csv_path r, csv)] w0 = (Inr (), w') \<and>
     verify_envelope toy_codec toy_ed25519 sample_directory signed = Inr ''k1''"
proof -
  have s: "map_of stat_store ''s3://b/platform_silver/events'' = Some (4, [])" "map_of stat_store ''s3://b/platform_gold/port_kpi_runs'' = None"
    "map_of stat_store ''s3://b/platform_gold/port_kpi_values'' = None"
    by (simp_all add: stat_store_def)
  from quiet_run [OF s, of "''seed''" "''k1''" 1] obtain r w' where
    r: "run_port_statistics stat_runtime mem_delta stat_open_at stat_writer ''2026-09'' ''seed'' ''k1'' (Some 1) stat_store = (Inr r, w')" by blast
  have c: "st_ed stat_runtime = toy_ed25519" "st_codec stat_runtime = toy_codec" by (simp_all add: stat_runtime_def)
  from published_report_authentic [OF _ _ sample_key(1) _ r, of sample_directory] toy_contracts sample_key(2) r show ?thesis
    unfolding c by blast
qed

end
