(* ===== verification/Py_Number.thy ===== *)
theory Py_Number
  imports Py_Round
begin

text \<open>
  Numbers as Python reads and writes them: \<open>float(str)\<close>, \<open>int(str)\<close> and \<open>int(str, 16)\<close>, \<open>float()\<close> and \<open>==\<close>
  of JSON values, \<open>math.sqrt\<close>, and the fixed-point rendering \<open>f"{v:.7f}"\<close>.  The lemmas say what \<open>round_double\<close>
  guarantees: it is the identity on doubles, its results are doubles, and it never rounds a number of the
  grid of doubles to zero.
\<close>

section \<open>Reading numbers\<close>

text \<open>An ASCII text is stripped of ASCII white space, any other of Unicode white space.\<close>

definition num_space :: "string \<Rightarrow> char \<Rightarrow> bool" where
  "num_space s c =
     (if list_all (\<lambda>c. code c < 128) s then code c = 32 \<or> (9 \<le> code c \<and> code c \<le> 13) else py_space c)"

definition num_strip :: "string \<Rightarrow> string" where
  "num_strip s = rev (dropWhile (num_space s) (rev (dropWhile (num_space s) s)))"

definition sign_split :: "string \<Rightarrow> bool \<times> string" where
  "sign_split s =
     (case s of [] \<Rightarrow> (False, [])
      | c # cs \<Rightarrow> if c = CHR ''-'' then (True, cs) else if c = CHR ''+'' then (False, cs) else (False, s))"

text \<open>An underscore is allowed between two digits only; the flag says whether a digit came before.\<close>

fun drop_underscores :: "(char \<Rightarrow> bool) \<Rightarrow> bool \<Rightarrow> string \<Rightarrow> string option" where
  "drop_underscores d p [] = Some []"
| "drop_underscores d p (c # cs) =
     (if c = CHR ''_''
      then (if p \<and> cs \<noteq> [] \<and> d (hd cs) then drop_underscores d False cs else None)
      else map_option ((#) c) (drop_underscores d (d c) cs))"

definition py_int :: "string \<Rightarrow> int res" where
  "py_int s =
     (case sign_split (num_strip s) of (neg, u) \<Rightarrow>
        case drop_underscores is_digit False u of
          None \<Rightarrow> raise ValueError ''invalid literal for int() with base 10''
        | Some ds \<Rightarrow>
            bindR (guard (ds \<noteq> [] \<and> list_all is_digit ds) ValueError ''invalid literal for int() with base 10'')
              (\<lambda>_. Inr (if neg then - int (digits_val ds) else int (digits_val ds))))"

definition is_hex :: "char \<Rightarrow> bool" where
  "is_hex c = (is_digit c \<or> (97 \<le> code c \<and> code c \<le> 102) \<or> (65 \<le> code c \<and> code c \<le> 70))"

definition hex_val :: "char \<Rightarrow> nat" where
  "hex_val c = (if is_digit c then code c - 48 else if is_lower c then code c - 87 else code c - 55)"

definition py_int_hex :: "string \<Rightarrow> int res" where
  "py_int_hex s =
     (case sign_split (num_strip s) of (neg, u) \<Rightarrow>
        let body = (if take 2 u = ''0x'' \<or> take 2 u = ''0X''
                    then (if take 1 (drop 2 u) = ''_'' then drop 3 u else drop 2 u) else u)
        in case drop_underscores is_hex False body of
             None \<Rightarrow> raise ValueError ''invalid literal for int() with base 16''
           | Some ds \<Rightarrow>
               bindR (guard (ds \<noteq> [] \<and> list_all is_hex ds) ValueError ''invalid literal for int() with base 16'')
                 (\<lambda>_. let n = int (foldl (\<lambda>v c. 16 * v + hex_val c) 0 ds) in Inr (if neg then - n else n)))"

definition pow10 :: "int \<Rightarrow> rat" where
  "pow10 e = (if 0 \<le> e then 10 ^ nat e else 1 / 10 ^ nat (- e))"

text \<open>An unsigned decimal: digits, optionally a point and more digits, optionally an exponent.\<close>

definition decimal_value :: "string \<Rightarrow> rat option" where
  "decimal_value u =
     (let ip = takeWhile is_digit u; r = dropWhile is_digit u;
          fp = (if take 1 r = ''.'' then takeWhile is_digit (tl r) else []);
          r2 = (if take 1 r = ''.'' then dropWhile is_digit (tl r) else r)
      in if ip @ fp = [] then None
         else if r2 = [] then Some (of_nat (digits_val (ip @ fp)) * pow10 (- int (length fp)))
         else if hd r2 \<in> {CHR ''e'', CHR ''E''}
         then (case sign_split (tl r2) of (neg, ex) \<Rightarrow>
                 if ex \<noteq> [] \<and> list_all is_digit ex
                 then Some (of_nat (digits_val (ip @ fp)) *
                   pow10 ((if neg then - int (digits_val ex) else int (digits_val ex)) - int (length fp)))
                 else None)
         else None)"

definition float_of_text :: "string \<Rightarrow> pyfloat res" where
  "float_of_text s =
     (case sign_split (num_strip s) of (neg, u) \<Rightarrow>
        let v = (if lower_ascii u = ''inf'' \<or> lower_ascii u = ''infinity'' then Some PInf
                 else if lower_ascii u = ''nan'' then Some PNaN
                 else case drop_underscores is_digit False u of
                        None \<Rightarrow> None
                      | Some ds \<Rightarrow> map_option round_double (decimal_value ds))
        in case v of
             None \<Rightarrow> raise ValueError ''could not convert string to float''
           | Some f \<Rightarrow> Inr (if neg then fl_neg f else f))"

text \<open>\<open>float(v)\<close> of a JSON value and of a table value.\<close>

fun py_float :: "json \<Rightarrow> pyfloat res" where
  "py_float (JInt i) = float_of_int i"
| "py_float (JFloat f) = Inr f"
| "py_float (JBool b) = Inr (PFin (if b then 1 else 0))"
| "py_float (JStr s) = float_of_text s"
| "py_float _ = raise TypeError ''float() argument must be a string or a real number''"

fun cell_json :: "cell \<Rightarrow> json" where
  "cell_json (CText s) = JStr s"
| "cell_json (CInt i) = JInt i"
| "cell_json (CBool b) = JBool b"
| "cell_json (CFloat f) = JFloat f"
| "cell_json (CJson j) = j"
| "cell_json _ = JNull"

text \<open>\<open>==\<close> of JSON values: numbers by value across \<open>bool\<close>, \<open>int\<close> and \<open>float\<close>, lists by element, objects by key.\<close>

fun json_number :: "json \<Rightarrow> pyfloat option" where
  "json_number (JInt i) = Some (PFin (of_int i))"
| "json_number (JBool b) = Some (PFin (if b then 1 else 0))"
| "json_number (JFloat f) = Some f"
| "json_number _ = None"

definition number_eq :: "json \<Rightarrow> json \<Rightarrow> bool" where
  "number_eq a b =
     (case (json_number a, json_number b) of (Some x, Some y) \<Rightarrow> x = y \<and> x \<noteq> PNaN | _ \<Rightarrow> False)"

fun json_eq :: "json \<Rightarrow> json \<Rightarrow> bool"
  and jsons_eq :: "json list \<Rightarrow> json list \<Rightarrow> bool"
  and items_in :: "jobject \<Rightarrow> jobject \<Rightarrow> bool"
where
  "json_eq JNull v = (v = JNull)"
| "json_eq (JStr s) v = (v = JStr s)"
| "json_eq (JList xs) v = (case v of JList ys \<Rightarrow> jsons_eq xs ys | _ \<Rightarrow> False)"
| "json_eq (JObj d) v = (case v of JObj d' \<Rightarrow> length d = length d' \<and> items_in d d' | _ \<Rightarrow> False)"
| "json_eq (JInt i) v = number_eq (JInt i) v"
| "json_eq (JBool b) v = number_eq (JBool b) v"
| "json_eq (JFloat f) v = number_eq (JFloat f) v"
| "jsons_eq [] ys = (ys = [])"
| "jsons_eq (x # xs) ys = (case ys of [] \<Rightarrow> False | y # ys' \<Rightarrow> json_eq x y \<and> jsons_eq xs ys')"
| "items_in [] d' = True"
| "items_in ((k, v) # d) d' = ((case map_of d' k of None \<Rightarrow> False | Some v' \<Rightarrow> json_eq v v') \<and> items_in d d')"

section \<open>More arithmetic\<close>

definition fl_min :: "pyfloat \<Rightarrow> pyfloat \<Rightarrow> pyfloat" where
  "fl_min a b = (if fl_less b a then b else a)"

definition fl_max :: "pyfloat \<Rightarrow> pyfloat \<Rightarrow> pyfloat" where
  "fl_max a b = (if fl_less a b then b else a)"

text \<open>\<open>int(f)\<close>: truncation towards zero.\<close>

definition fl_trunc :: "pyfloat \<Rightarrow> int res" where
  "fl_trunc f =
     (case f of PFin q \<Rightarrow> Inr (if 0 \<le> q then \<lfloor>q\<rfloor> else - \<lfloor>- q\<rfloor>)
      | PNaN \<Rightarrow> raise ValueError ''cannot convert float NaN to integer''
      | _ \<Rightarrow> raise OverflowError ''cannot convert float infinity to integer'')"

fun isqrt :: "nat \<Rightarrow> nat" where
  "isqrt n = (if n = 0 then 0 else let s = 2 * isqrt (n div 4) in if (s + 1) * (s + 1) \<le> n then s + 1 else s)"

declare isqrt.simps [simp del]

text \<open>
  \<open>math.sqrt\<close>, the correctly rounded root: the integer root \<open>s\<close> of \<open>q * 4 ^ k\<close> has more than 54 bits, so
  rounding \<open>s + 1/2\<close> in place of an inexact root gives the same double.
\<close>

definition fl_sqrt :: "pyfloat \<Rightarrow> pyfloat res" where
  "fl_sqrt f =
     (case f of
        PFin q \<Rightarrow>
          if q < 0 then raise ValueError ''math domain error''
          else if q = 0 then Inr (PFin 0)
          else let k = 56 - leading_exponent q div 2; m = q * pow2 (2 * k); s = isqrt (nat \<lfloor>m\<rfloor>)
               in Inr (round_double ((if of_nat (s * s) = m then of_nat s else of_nat s + 1 / 2) * pow2 (- k)))
      | PNegInf \<Rightarrow> raise ValueError ''math domain error''
      | _ \<Rightarrow> Inr f)"

section \<open>Fixed-point rendering\<close>

fun zero_pad :: "nat \<Rightarrow> nat \<Rightarrow> string" where
  "zero_pad 0 n = []"
| "zero_pad (Suc k) n = zero_pad k (n div 10) @ [char_of (48 + n mod 10)]"

text \<open>\<open>f"{v:.7f}"\<close>: the exact value to seven decimals, ties to even.\<close>

fun fixed7 :: "pyfloat \<Rightarrow> string" where
  "fixed7 (PFin q) =
     (let n = nat (round_half_even (\<bar>q\<bar> * 10 ^ 7))
      in (if q < 0 then ''-'' else []) @ nat_str (n div 10 ^ 7) @ ''.'' @ zero_pad 7 (n mod 10 ^ 7))"
| "fixed7 PInf = ''inf''"
| "fixed7 PNegInf = ''-inf''"
| "fixed7 PNaN = ''nan''"

section \<open>Lemmas on powers of two\<close>

lemma pow2_powi: "pow2 e = 2 powi e"
  by (simp add: pow2_def power_int_def inverse_eq_divide power_one_over)

lemma pow2_add: "pow2 (a + b) = pow2 a * pow2 b"
  by (simp add: pow2_powi power_int_add)

lemma pow2_diff: "pow2 (a - b) = pow2 a / pow2 b"
  by (simp add: pow2_powi power_int_diff)

lemma pow2_nat: "pow2 (int n) = 2 ^ n"
  by (simp add: pow2_def)

lemma pow2_0 [simp]: "pow2 0 = 1"
  by (simp add: pow2_def)

lemma pow2_mono: "a \<le> b \<Longrightarrow> pow2 a \<le> pow2 b"
  by (simp add: pow2_powi power_int_increasing)

lemma pow2_strict_mono: "a < b \<Longrightarrow> pow2 a < pow2 b"
  by (simp add: pow2_powi power_int_strict_increasing)

lemma pow2_nonzero [simp]: "pow2 e \<noteq> 0"
  using pow2_pos [of e] by simp

lemma pow2_integer: "0 \<le> e \<Longrightarrow> \<exists>n::int. pow2 e = of_int n"
  by (rule exI [of _ "2 ^ nat e"]) (simp add: pow2_def)

lemma bit_length_power_le: "0 < n \<Longrightarrow> 2 ^ (bit_length n - 1) \<le> n"
proof (induction n rule: bit_length.induct)
  case (1 n)
  show ?case
  proof (cases "n div 2 = 0")
    case True
    with 1 have "n = 1" by auto
    then show ?thesis by (simp add: bit_length.simps)
  next
    case False
    then have "bit_length (n div 2) \<noteq> 0" by (simp add: bit_length.simps [of "n div 2"])
    moreover from False 1 have "2 ^ (bit_length (n div 2) - 1) \<le> n div 2" by auto
    ultimately have "2 ^ bit_length (n div 2) \<le> 2 * (n div 2)" by (cases "bit_length (n div 2)") auto
    then show ?thesis using 1 by (simp add: bit_length.simps [of n])
  qed
qed

lemma bit_length_interval:
  assumes "0 < n"
  shows "pow2 (int (bit_length n) - 1) \<le> of_nat n" "of_nat n < pow2 (int (bit_length n))"
proof -
  from assms have b: "bit_length n \<noteq> 0" by (simp add: bit_length.simps [of n])
  then have e: "int (bit_length n) - 1 = int (bit_length n - 1)" by simp
  have l: "(of_nat (2 ^ (bit_length n - 1)) :: rat) \<le> of_nat n"
    by (rule of_nat_mono) (rule bit_length_power_le [OF assms])
  show "pow2 (int (bit_length n) - 1) \<le> of_nat n" unfolding e pow2_nat using l by simp
  have "(of_nat n :: rat) < of_nat (2 ^ bit_length n)"
    by (rule of_nat_less_iff [THEN iffD2]) (rule bit_length_bound)
  then show "of_nat n < pow2 (int (bit_length n))" by (simp add: pow2_nat)
qed

lemma leading_exponent_interval:
  assumes "0 < q"
  shows "pow2 (leading_exponent q) \<le> q" "q < pow2 (leading_exponent q + 1)"
proof -
  obtain n d where nd: "quotient_of q = (n, d)" by (cases "quotient_of q")
  have d: "0 < d" using nd by (rule quotient_of_denom_pos)
  have q: "q = of_int n / of_int d" using nd by (rule quotient_of_div)
  with assms d have n: "0 < n" by (simp add: zero_less_divide_iff)
  define bn where "bn = int (bit_length (nat n))"
  define bd where "bd = int (bit_length (nat d))"
  have N: "pow2 (bn - 1) \<le> of_int n" "of_int n < pow2 bn"
    using bit_length_interval [of "nat n"] n by (simp_all add: bn_def of_nat_nat)
  have D: "pow2 (bd - 1) \<le> of_int d" "of_int d < pow2 bd"
    using bit_length_interval [of "nat d"] d by (simp_all add: bd_def of_nat_nat)
  have d': "(0::rat) < of_int d" using d by simp
  have l: "leading_exponent q = (if pow2 (bn - bd) \<le> q then bn - bd else bn - bd - 1)"
    by (simp add: leading_exponent_def nd Let_def bn_def bd_def)
  have "pow2 (bn - bd - 1) * of_int d \<le> pow2 (bn - bd - 1) * pow2 bd"
    using D(2) pow2_pos [of "bn - bd - 1"] by simp
  also have "\<dots> = pow2 (bn - 1)" by (simp add: pow2_add [symmetric])
  also note N(1)
  finally have low: "pow2 (bn - bd - 1) \<le> q" using d' by (simp add: q pos_le_divide_eq)
  have "of_int n < pow2 bn" by (rule N)
  also have "pow2 bn = pow2 (bn - bd + 1) * pow2 (bd - 1)" by (simp add: pow2_add [symmetric])
  also have "\<dots> \<le> pow2 (bn - bd + 1) * of_int d"
    using D(1) pow2_pos [of "bn - bd + 1"] by simp
  finally have high: "q < pow2 (bn - bd + 1)" using d' by (simp add: q pos_divide_less_eq)
  show "pow2 (leading_exponent q) \<le> q" using low l by simp
  show "q < pow2 (leading_exponent q + 1)" using high l by simp
qed

section \<open>Lemmas on rounding\<close>

lemma round_half_even_of_int [simp]: "round_half_even (of_int n) = n"
  by (simp add: round_half_even_def Let_def)

lemma round_half_even_error: "\<bar>of_int (round_half_even q) - q\<bar> \<le> 1 / 2"
proof -
  have "of_int \<lfloor>q\<rfloor> \<le> q" "q < of_int \<lfloor>q\<rfloor> + 1" by (simp, rule floor_less_iff [THEN iffD1, of q "\<lfloor>q\<rfloor> + 1", simplified])
  then show ?thesis by (auto simp: round_half_even_def Let_def abs_le_iff)
qed

lemma round_half_even_ge: "of_int n \<le> q \<Longrightarrow> n \<le> round_half_even q"
proof -
  assume "of_int n \<le> q"
  then have "n \<le> \<lfloor>q\<rfloor>" by (simp add: le_floor_iff)
  then show ?thesis by (auto simp: round_half_even_def Let_def)
qed

text \<open>The numbers of the grid are the multiples of the smallest positive double.\<close>

definition on_grid :: "rat \<Rightarrow> bool" where
  "on_grid q \<longleftrightarrow> (\<exists>n. q = of_int n * pow2 (- 1074))"

definition unit_in_last_place :: "rat \<Rightarrow> int" where
  "unit_in_last_place a = max (leading_exponent a - 52) (- 1074)"

lemma round_double_cases:
  assumes "q \<noteq> 0"
  obtains r where "r = of_int (round_half_even (\<bar>q\<bar> / pow2 (unit_in_last_place \<bar>q\<bar>))) * pow2 (unit_in_last_place \<bar>q\<bar>)"
    "round_double q = (if 2 ^ 1024 \<le> r then (if 0 < q then PInf else PNegInf) else PFin (if 0 < q then r else - r))"
  using assms that by (simp add: round_double_def unit_in_last_place_def Let_def)

lemma on_grid_minus [simp]: "on_grid (- q) = on_grid q"
proof -
  have "on_grid (- q)" if "on_grid q" for q
    using that unfolding on_grid_def by (metis minus_mult_left of_int_minus)
  from this [of q] this [of "- q"] show ?thesis by auto
qed

lemma on_grid_0 [simp]: "on_grid 0"
  unfolding on_grid_def by (rule exI [of _ 0]) simp

lemma on_grid_add: "on_grid p \<Longrightarrow> on_grid q \<Longrightarrow> on_grid (p + q)"
  unfolding on_grid_def by (metis distrib_right of_int_add)

lemma on_grid_diff: "on_grid p \<Longrightarrow> on_grid q \<Longrightarrow> on_grid (p - q)"
  using on_grid_add [of p "- q"] by simp

lemma on_grid_scaled:
  assumes "- 1074 \<le> e"
  shows "on_grid (of_int n * pow2 e)"
proof -
  have "pow2 e = pow2 (e + 1074) * pow2 (- 1074)" by (simp add: pow2_add [symmetric])
  moreover obtain k :: int where "pow2 (e + 1074) = of_int k" using pow2_integer [of "e + 1074"] assms by auto
  ultimately have "of_int n * pow2 e = of_int (n * k) * pow2 (- 1074)" by simp
  then show ?thesis unfolding on_grid_def by blast
qed

lemma on_grid_of_int: "on_grid (of_int n)"
  using on_grid_scaled [of 0 n] by simp

lemma round_double_on_grid: "round_double q = PFin r \<Longrightarrow> on_grid r"
proof (cases "q = 0")
  case True
  then show "round_double q = PFin r \<Longrightarrow> on_grid r" by (simp add: round_double_def)
next
  case False
  assume r: "round_double q = PFin r"
  have g: "on_grid (of_int n * pow2 (unit_in_last_place \<bar>q\<bar>))" for n
    by (rule on_grid_scaled) (simp add: unit_in_last_place_def)
  from False show "on_grid r"
  proof (rule round_double_cases)
    fix s
    assume s: "s = of_int (round_half_even (\<bar>q\<bar> / pow2 (unit_in_last_place \<bar>q\<bar>))) * pow2 (unit_in_last_place \<bar>q\<bar>)"
      and d: "round_double q = (if 2 ^ 1024 \<le> s then (if 0 < q then PInf else PNegInf) else PFin (if 0 < q then s else - s))"
    then have "r = s \<or> r = - s" using r by (auto split: if_splits)
    with g s show ?thesis by auto
  qed
qed

lemma round_double_positive:
  assumes "pow2 (- 1074) \<le> q"
  shows "\<exists>r. (round_double q = PFin r \<and> pow2 (- 1074) \<le> r) \<or> round_double q = PInf"
proof -
  have q: "0 < q" using assms pow2_pos [of "- 1074"] by linarith
  let ?u = "unit_in_last_place q"
  have "1 \<le> q / pow2 ?u"
  proof (cases "?u = - 1074")
    case True
    then have "pow2 ?u \<le> q" using assms by simp
    then show ?thesis using le_divide_eq_1_pos [OF pow2_pos [of ?u]] by blast
  next
    case False
    then have u: "?u = leading_exponent q - 52" by (auto simp: unit_in_last_place_def max_def split: if_splits)
    have "pow2 ?u \<le> pow2 (leading_exponent q)" unfolding u by (rule pow2_mono) simp
    also note leading_exponent_interval(1) [OF q]
    finally show ?thesis using le_divide_eq_1_pos [OF pow2_pos [of ?u]] by blast
  qed
  then have one: "1 \<le> round_half_even (q / pow2 ?u)" using round_half_even_ge [of 1] by simp
  have "pow2 (- 1074) \<le> pow2 ?u" by (rule pow2_mono) (simp add: unit_in_last_place_def)
  also have "pow2 ?u \<le> of_int (round_half_even (q / pow2 ?u)) * pow2 ?u"
    using one pow2_pos [of ?u] by simp
  finally have low: "pow2 (- 1074) \<le> of_int (round_half_even (q / pow2 ?u)) * pow2 ?u" .
  have "q \<noteq> 0" "\<bar>q\<bar> = q" using q by simp_all
  show ?thesis
    by (rule round_double_cases [OF \<open>q \<noteq> 0\<close>]) (use low q \<open>\<bar>q\<bar> = q\<close> in \<open>auto split: if_splits\<close>)
qed

lemma round_double_minus: "round_double (- q) = fl_neg (round_double q)"
  by (simp add: round_double_def Let_def)

lemma on_grid_lower: "on_grid q \<Longrightarrow> 0 < q \<Longrightarrow> pow2 (- 1074) \<le> q"
proof -
  assume "on_grid q" "0 < q"
  then obtain n where n: "q = of_int n * pow2 (- 1074)" by (auto simp: on_grid_def)
  with \<open>0 < q\<close> pow2_pos [of "- 1074"] have "1 \<le> n" by (simp add: zero_less_mult_iff)
  then have "(1::rat) \<le> of_int n" by simp
  then show ?thesis using pow2_pos [of "- 1074"] by (simp add: n)
qed

text \<open>Gradual underflow: a number of the grid other than zero is never rounded to zero.\<close>

lemma round_double_nonzero:
  assumes "on_grid q" "q \<noteq> 0"
  shows "round_double q \<noteq> PFin 0"
proof -
  have pos: "round_double p \<noteq> PFin 0" if "on_grid p" "0 < p" for p
    using round_double_positive [OF on_grid_lower [OF that]] pow2_pos [of "- 1074"] by auto
  show ?thesis
  proof (cases "0 < q")
    case True
    with assms pos show ?thesis by blast
  next
    case False
    with assms have "round_double (- q) \<noteq> PFin 0" by (intro pos) auto
    then show ?thesis by (cases "round_double q") (auto simp: round_double_minus)
  qed
qed

text \<open>A number of at most 53 bits on the grid is a double.\<close>

lemma round_double_exact:
  assumes "\<bar>n\<bar> < 2 ^ 53" "- 1074 \<le> e" "of_int \<bar>n\<bar> * pow2 e < 2 ^ 1024"
  shows "round_double (of_int n * pow2 e) = PFin (of_int n * pow2 e)"
proof (cases "n = 0")
  case True
  then show ?thesis by (simp add: round_double_def)
next
  case False
  define q where "q = of_int n * pow2 e"
  define a where "a = \<bar>q\<bar>"
  have a: "a = of_int \<bar>n\<bar> * pow2 e" using pow2_pos [of e] by (simp add: a_def q_def abs_mult)
  have q0: "q \<noteq> 0" and a0: "0 < a" using False by (simp_all add: a_def q_def)
  have n53: "(of_int \<bar>n\<bar> :: rat) < 2 ^ 53"
  proof -
    have "(of_int \<bar>n\<bar> :: rat) < of_int (2 ^ 53)" using assms(1) by (simp only: of_int_less_iff)
    then show ?thesis by simp
  qed
  have lt: "a < pow2 (53 + e)"
    using n53 pow2_pos [of e] pow2_nat [of 53] by (simp add: a pow2_add)
  have le: "leading_exponent a \<le> 52 + e"
  proof (rule ccontr)
    assume "\<not> ?thesis"
    then have "pow2 (53 + e) \<le> pow2 (leading_exponent a)" by (intro pow2_mono) simp
    with leading_exponent_interval(1) [OF a0] lt show False by simp
  qed
  let ?u = "unit_in_last_place a"
  have u: "?u \<le> e" using le assms(2) by (simp add: unit_in_last_place_def)
  obtain k :: int where k: "pow2 (e - ?u) = of_int k" using pow2_integer [of "e - ?u"] u by auto
  have "pow2 e = of_int k * pow2 ?u" using k by (simp add: pow2_diff nonzero_divide_eq_eq)
  then have "a = of_int (\<bar>n\<bar> * k) * pow2 ?u" by (simp add: a)
  then have "a / pow2 ?u = of_int (\<bar>n\<bar> * k)" by (simp only: nonzero_divide_eq_eq [OF pow2_nonzero])
  then have "of_int (round_half_even (a / pow2 ?u)) * pow2 ?u = a"
    by (metis nonzero_eq_divide_eq pow2_nonzero round_half_even_of_int)
  moreover have "a < 2 ^ 1024" using assms(3) by (simp add: a)
  ultimately have "round_double q = PFin (if 0 < q then a else - a)"
    using q0 by (auto elim!: round_double_cases simp: a_def [symmetric])
  then show ?thesis using q0 by (auto simp: a_def q_def [symmetric])
qed

lemma round_double_of_int: "\<bar>n\<bar> < 2 ^ 53 \<Longrightarrow> round_double (of_int n) = PFin (of_int n)"
proof -
  assume n: "\<bar>n\<bar> < 2 ^ 53"
  then have "\<bar>n\<bar> < 2 ^ 1024" by (rule less_trans) simp
  then have "(of_int \<bar>n\<bar> :: rat) < of_int (2 ^ 1024)" by (simp only: of_int_less_iff)
  then have "(of_int \<bar>n\<bar> :: rat) * pow2 0 < 2 ^ 1024" by (simp only: pow2_0 mult_1_right of_int_power of_int_numeral)
  from round_double_exact [OF n _ this] show ?thesis by simp
qed

section \<open>The integer square root\<close>

lemma isqrt_bounds: "isqrt n * isqrt n \<le> n \<and> n < (isqrt n + 1) * (isqrt n + 1)"
proof (induction n rule: isqrt.induct)
  case (1 n)
  show ?case
  proof (cases "n = 0")
    case True
    then show ?thesis by (simp add: isqrt.simps)
  next
    case False
    define t where "t = isqrt (n div 4)"
    from 1 [OF False] have t: "t * t \<le> n div 4" "n div 4 < (t + 1) * (t + 1)" by (simp_all add: t_def)
    have low: "(2 * t) * (2 * t) \<le> n" using t(1) by simp
    have "n div 4 + 1 \<le> (t + 1) * (t + 1)" using t(2) by simp
    then have "4 * (n div 4) + 4 \<le> 4 * ((t + 1) * (t + 1))" by simp
    moreover have "n < 4 * (n div 4) + 4" by simp
    ultimately have "n < 4 * ((t + 1) * (t + 1))" by linarith
    then have high: "n < (2 * t + 2) * (2 * t + 2)" by (simp add: algebra_simps)
    show ?thesis using False low high by (simp add: isqrt.simps [of n] Let_def t_def [symmetric])
  qed
qed

lemma fl_div_ok: "b \<noteq> PFin 0 \<Longrightarrow> \<exists>q. fl_div a b = Inr q"
  by (cases b) auto

section \<open>Rounding is monotone across doubles\<close>

definition is_double :: "rat \<Rightarrow> bool" where
  "is_double q = (round_double q = PFin q)"

lemma is_double_on_grid: "is_double q \<Longrightarrow> on_grid q"
  unfolding is_double_def by (rule round_double_on_grid)

lemma is_double_of_int: "\<bar>n\<bar> < 2 ^ 53 \<Longrightarrow> is_double (of_int n)"
  unfolding is_double_def by (rule round_double_of_int)

lemma is_double_minus [simp]: "is_double (- q) = is_double q"
proof -
  have "is_double (- q)" if "is_double q" for q
    using that by (simp add: is_double_def round_double_minus)
  from this [of q] this [of "- q"] show ?thesis by auto
qed

lemma round_half_even_le: "q \<le> of_int n \<Longrightarrow> round_half_even q \<le> n"
proof -
  assume q: "q \<le> of_int n"
  show ?thesis
  proof (cases "q = of_int n")
    case True
    then show ?thesis by simp
  next
    case False
    with q have "\<lfloor>q\<rfloor> < n" by (simp add: floor_less_iff)
    then show ?thesis by (auto simp: round_half_even_def Let_def)
  qed
qed

lemma leading_exponent_mono: "0 < p \<Longrightarrow> p \<le> q \<Longrightarrow> leading_exponent p \<le> leading_exponent q"
proof (rule ccontr)
  assume p: "0 < p" "p \<le> q" "\<not> leading_exponent p \<le> leading_exponent q"
  have "q < pow2 (leading_exponent q + 1)" using leading_exponent_interval(2) p by simp
  also have "\<dots> \<le> pow2 (leading_exponent p)" using p by (intro pow2_mono) simp
  also have "\<dots> \<le> p" using leading_exponent_interval(1) p by simp
  finally show False using p by simp
qed

definition multiple_of_ulp :: "rat \<Rightarrow> int \<Rightarrow> bool" where
  "multiple_of_ulp p u \<longleftrightarrow> (\<exists>n. p = of_int n * pow2 u)"

lemma multiple_of_ulp_finer: "multiple_of_ulp p u \<Longrightarrow> v \<le> u \<Longrightarrow> multiple_of_ulp p v"
proof -
  assume "multiple_of_ulp p u" "v \<le> u"
  then obtain n k :: int where n: "p = of_int n * pow2 u" and k: "pow2 (u - v) = of_int k"
    using pow2_integer [of "u - v"] by (auto simp: multiple_of_ulp_def)
  have "pow2 u = of_int k * pow2 v" using k by (simp add: pow2_diff nonzero_divide_eq_eq)
  then have "p = of_int (n * k) * pow2 v" by (simp add: n)
  then show ?thesis unfolding multiple_of_ulp_def by blast
qed

lemma is_double_multiple:
  assumes "is_double p" "0 < p"
  shows "multiple_of_ulp p (unit_in_last_place p)" "p < 2 ^ 1024"
proof -
  have "p \<noteq> 0" using assms(2) by simp
  then obtain r where r: "r = of_int (round_half_even (\<bar>p\<bar> / pow2 (unit_in_last_place \<bar>p\<bar>))) * pow2 (unit_in_last_place \<bar>p\<bar>)"
    "round_double p = (if 2 ^ 1024 \<le> r then (if 0 < p then PInf else PNegInf) else PFin (if 0 < p then r else - r))"
    by (rule round_double_cases)
  with assms have e: "r = p \<and> r < 2 ^ 1024" by (auto simp: is_double_def split: if_splits)
  from e show "p < 2 ^ 1024" by simp
  from e r(1) assms(2) have "p = of_int (round_half_even (p / pow2 (unit_in_last_place p))) * pow2 (unit_in_last_place p)" by simp
  then show "multiple_of_ulp p (unit_in_last_place p)" unfolding multiple_of_ulp_def by (rule exI)
qed

lemma rounded_ge:
  assumes "is_double p" "0 < p" "p \<le> q"
  shows "p \<le> of_int (round_half_even (q / pow2 (unit_in_last_place q))) * pow2 (unit_in_last_place q)"
proof -
  let ?u = "unit_in_last_place q"
  have q: "0 < q" using assms by simp
  have up: "of_int n * pow2 ?u \<le> of_int (round_half_even (q / pow2 ?u)) * pow2 ?u" if "of_int n * pow2 ?u \<le> q" for n
  proof -
    have "of_int n \<le> q / pow2 ?u" using that by (simp add: pos_le_divide_eq [OF pow2_pos])
    then have "n \<le> round_half_even (q / pow2 ?u)" by (rule round_half_even_ge)
    then have "(of_int n :: rat) \<le> of_int (round_half_even (q / pow2 ?u))" by (simp only: of_int_le_iff)
    then show ?thesis using pow2_pos [of ?u] by simp
  qed
  show ?thesis
  proof (cases "?u \<le> unit_in_last_place p")
    case True
    with is_double_multiple(1) [OF assms(1,2)] have "multiple_of_ulp p ?u" by (rule multiple_of_ulp_finer)
    then obtain n where "p = of_int n * pow2 ?u" by (auto simp: multiple_of_ulp_def)
    with up [of n] assms(3) show ?thesis by simp
  next
    case False
    then have l: "leading_exponent p + 1 \<le> leading_exponent q" and u: "?u \<le> leading_exponent q"
      by (auto simp: unit_in_last_place_def)
    have "multiple_of_ulp (pow2 (leading_exponent q)) (leading_exponent q)"
      unfolding multiple_of_ulp_def by (rule exI [of _ 1]) simp
    then have "multiple_of_ulp (pow2 (leading_exponent q)) ?u" using u by (rule multiple_of_ulp_finer)
    then obtain n where n: "pow2 (leading_exponent q) = of_int n * pow2 ?u"
      by (auto simp: multiple_of_ulp_def)
    have "p \<le> pow2 (leading_exponent p + 1)" using leading_exponent_interval(2) [OF assms(2)] by simp
    also have "\<dots> \<le> pow2 (leading_exponent q)" using l by (rule pow2_mono)
    also have "\<dots> \<le> of_int (round_half_even (q / pow2 ?u)) * pow2 ?u"
      using up [of n] leading_exponent_interval(1) [OF q] by (simp add: n)
    finally show ?thesis .
  qed
qed

lemma rounded_le:
  assumes "is_double p" "0 < q" "q \<le> p"
  shows "of_int (round_half_even (q / pow2 (unit_in_last_place q))) * pow2 (unit_in_last_place q) \<le> p"
proof -
  let ?u = "unit_in_last_place q"
  have p: "0 < p" using assms by simp
  have "?u \<le> unit_in_last_place p"
    using leading_exponent_mono [OF assms(2,3)] by (simp add: unit_in_last_place_def)
  with is_double_multiple(1) [OF assms(1) p] have "multiple_of_ulp p ?u" by (rule multiple_of_ulp_finer)
  then obtain n where n: "p = of_int n * pow2 ?u" by (auto simp: multiple_of_ulp_def)
  have "q / pow2 ?u \<le> of_int n" using assms(3) n by (simp add: pos_divide_le_eq [OF pow2_pos])
  then have "round_half_even (q / pow2 ?u) \<le> n" by (rule round_half_even_le)
  then have "(of_int (round_half_even (q / pow2 ?u)) :: rat) \<le> of_int n" by (simp only: of_int_le_iff)
  then show ?thesis using pow2_pos [of ?u] n by simp
qed

lemma round_double_of_pos:
  assumes "0 < q"
  shows "round_double q =
    (let r = of_int (round_half_even (q / pow2 (unit_in_last_place q))) * pow2 (unit_in_last_place q)
     in if 2 ^ 1024 \<le> r then PInf else PFin r)"
  using assms by (simp add: round_double_def unit_in_last_place_def Let_def)

lemma round_double_pos_bounds:
  assumes "is_double p" "0 < q"
  shows "0 < p \<Longrightarrow> p \<le> q \<Longrightarrow> fl_le (PFin p) (round_double q)"
    and "q \<le> p \<Longrightarrow> fl_le (round_double q) (PFin p)"
proof -
  show "fl_le (PFin p) (round_double q)" if "0 < p" "p \<le> q"
    using rounded_ge [OF assms(1) that] assms(2) by (simp add: round_double_of_pos Let_def)
  show "fl_le (round_double q) (PFin p)" if "q \<le> p"
  proof -
    have "p < 2 ^ 1024" using is_double_multiple(2) [OF assms(1)] assms(2) that by simp
    with rounded_le [OF assms that] assms(2) show ?thesis by (simp add: round_double_of_pos Let_def)
  qed
qed

lemma fl_le_neg: "fl_le (fl_neg a) (fl_neg b) = fl_le b a"
  by (cases a; cases b) simp_all

lemma round_double_nonpos: "q \<le> 0 \<Longrightarrow> fl_le (round_double q) (PFin 0)"
proof -
  assume "q \<le> 0"
  then have "fl_le (PFin 0) (round_double (- q))" by (intro round_double_nonneg) simp
  then show ?thesis by (cases "round_double q") (simp_all add: round_double_minus)
qed

lemma fl_le_trans: "fl_le a b \<Longrightarrow> fl_le b c \<Longrightarrow> fl_le a c"
  by (cases a; cases b; cases c) simp_all

text \<open>A double bounds the rounding of whatever it bounds.\<close>

lemma round_double_lower:
  assumes "is_double p" "p \<le> q"
  shows "fl_le (PFin p) (round_double q)"
proof (cases "q \<le> 0")
  case False
  show ?thesis
  proof (cases "0 < p")
    case True
    with False assms show ?thesis by (simp add: round_double_pos_bounds)
  next
    assume "\<not> 0 < p"
    with False have "fl_le (PFin p) (PFin 0)" "fl_le (PFin 0) (round_double q)" by (simp_all add: round_double_nonneg)
    then show ?thesis by (rule fl_le_trans)
  qed
next
  case True
  show ?thesis
  proof (cases "q = 0")
    case True
    with assms show ?thesis by (simp add: round_double_def)
  next
    assume "q \<noteq> 0"
    with \<open>q \<le> 0\<close> assms have "fl_le (round_double (- q)) (PFin (- p))" by (intro round_double_pos_bounds) simp_all
    then have "fl_le (fl_neg (round_double q)) (fl_neg (PFin p))" by (simp add: round_double_minus)
    then show ?thesis by (simp only: fl_le_neg)
  qed
qed

lemma round_double_upper:
  assumes "is_double p" "q \<le> p"
  shows "fl_le (round_double q) (PFin p)"
proof -
  have "fl_le (PFin (- p)) (round_double (- q))" using assms by (intro round_double_lower) simp_all
  then have "fl_le (fl_neg (PFin p)) (fl_neg (round_double q))" by (simp add: round_double_minus)
  then show ?thesis by (simp only: fl_le_neg)
qed

lemma round_double_finite:
  assumes "\<bar>q\<bar> \<le> of_int n" "\<bar>n\<bar> < 2 ^ 53"
  shows "\<exists>r. round_double q = PFin r \<and> \<bar>r\<bar> \<le> of_int n"
proof -
  from assms have "fl_le (PFin (- of_int n)) (round_double q)" "fl_le (round_double q) (PFin (of_int n))"
    by (intro round_double_lower round_double_upper; simp add: is_double_of_int abs_le_iff)+
  then show ?thesis by (cases "round_double q") (auto simp: abs_le_iff)
qed

text \<open>What \<open>float()\<close> returns is a double, when the floats of the value are.\<close>

fun double_json :: "json \<Rightarrow> bool" where
  "double_json (JFloat f) = (case f of PFin q \<Rightarrow> is_double q | _ \<Rightarrow> True)"
| "double_json (JList xs) = (\<forall>v\<in>set xs. double_json v)"
| "double_json (JObj d) = (\<forall>p\<in>set d. double_json (snd p))"
| "double_json _ = True"

lemma is_double_scaled:
  assumes "\<bar>n\<bar> \<le> 2 ^ 53" "- 1074 \<le> e" "of_int \<bar>n\<bar> * pow2 e < 2 ^ 1024"
  shows "is_double (of_int n * pow2 e)"
proof (cases "\<bar>n\<bar> = 2 ^ 53")
  case False
  with assms show ?thesis unfolding is_double_def by (intro round_double_exact) simp_all
next
  case True
  have s: "pow2 (e + 1) = 2 * pow2 e" by (simp add: pow2_add pow2_nat [of 1, simplified])
  define k :: int where "k = (if 0 \<le> n then 2 ^ 52 else - (2 ^ 52))"
  have k: "\<bar>k\<bar> < 2 ^ 53" "n = 2 * k" using True by (auto simp: k_def abs_if split: if_splits)
  then have e: "of_int n * pow2 e = of_int k * pow2 (e + 1)" and n: "\<bar>n\<bar> = 2 * \<bar>k\<bar>" by (simp_all add: s)
  have w: "of_int \<bar>n\<bar> * pow2 e = of_int \<bar>k\<bar> * pow2 (e + 1)"
    unfolding n s by (simp only: of_int_mult of_int_numeral ac_simps)
  have "- 1074 \<le> e + 1" using assms(2) by simp
  from round_double_exact [OF k(1) this assms(3) [unfolded w]] show ?thesis unfolding is_double_def e .
qed

lemma ulp_interval:
  assumes "0 < a"
  shows "a < pow2 (53 + unit_in_last_place a)"
proof -
  have "a < pow2 (leading_exponent a + 1)" by (rule leading_exponent_interval(2) [OF assms])
  also have "\<dots> \<le> pow2 (53 + unit_in_last_place a)" by (rule pow2_mono) (simp add: unit_in_last_place_def)
  finally show ?thesis .
qed

text \<open>Rounding twice is rounding once.\<close>

lemma round_double_is_double:
  assumes "round_double q = PFin r"
  shows "is_double r"
proof (cases "q = 0")
  case True
  with assms show ?thesis by (simp add: round_double_def is_double_def)
next
  case False
  have pos: "is_double s" if "0 < a" "round_double a = PFin s" for a s
  proof -
    let ?u = "unit_in_last_place a" and ?n = "round_half_even (a / pow2 (unit_in_last_place a))"
    have s: "s = of_int ?n * pow2 ?u" "s < 2 ^ 1024"
      using that by (auto simp: round_double_of_pos Let_def split: if_splits)
    have "a / pow2 ?u < 2 ^ 53"
      using ulp_interval [OF that(1)] pow2_pos [of ?u] pow2_nat [of 53] by (simp add: pos_divide_less_eq pow2_add)
    then have "?n \<le> 2 ^ 53" by (intro round_half_even_le) simp
    moreover have n: "0 \<le> ?n" using that(1) pow2_pos [of ?u] by (intro round_half_even_nonneg) simp
    ultimately show ?thesis using s unfolding s(1)
      by (intro is_double_scaled) (simp_all add: unit_in_last_place_def)
  qed
  show ?thesis
  proof (cases "0 < q")
    case True
    with assms pos show ?thesis by blast
  next
    assume "\<not> 0 < q"
    with False have "0 < - q" by simp
    moreover have "round_double (- q) = PFin (- r)" using assms by (simp add: round_double_minus)
    ultimately have "is_double (- r)" by (rule pos)
    then show ?thesis by simp
  qed
qed

definition double_float :: "pyfloat \<Rightarrow> bool" where
  "double_float f = (case f of PFin q \<Rightarrow> is_double q | _ \<Rightarrow> True)"

lemma double_float_simps [simp]:
  "double_float (PFin q) = is_double q" "double_float PInf" "double_float PNegInf" "double_float PNaN"
  by (simp_all add: double_float_def)

lemma double_float_round [simp]: "double_float (round_double q)"
  by (cases "round_double q") (simp_all add: round_double_is_double)

lemma double_float_neg [simp]: "double_float (fl_neg f) = double_float f"
  by (cases f) simp_all

lemma double_float_add [simp]: "double_float a \<Longrightarrow> double_float b \<Longrightarrow> double_float (fl_add a b)"
  by (cases a; cases b) simp_all

lemma double_float_sub [simp]: "double_float a \<Longrightarrow> double_float b \<Longrightarrow> double_float (fl_sub a b)"
  by (simp add: fl_sub_def)

lemma double_float_mul [simp]: "double_float (fl_mul a b)"
  by (cases a; cases b) (simp_all add: fl_inf_def)

lemma div_half_even_le: "0 < d \<Longrightarrow> m < k * d \<Longrightarrow> div_half_even m d \<le> k"
proof -
  assume "0 < d" "m < k * d"
  then have "m div d < k" by (simp add: div_less_iff_less_mult)
  then show ?thesis by (simp add: div_half_even_def Let_def)
qed

lemma float_of_int_double:
  assumes "float_of_int i = Inr f"
  shows "double_float f"
proof -
  let ?m = "nat \<bar>i\<bar>" let ?b = "bit_length ?m"
  let ?r = "round_nat ?m"
  from assms have r: "?r < 2 ^ 1024" and f: "f = PFin (of_int (sgn i * int ?r))"
    by (auto simp: float_of_int_def Let_def split: if_splits)
  have "\<exists>n e. ?r = n * 2 ^ e \<and> n \<le> 2 ^ 53"
  proof (cases "?b \<le> 53")
    case True
    then have "?r = ?m * 2 ^ 0" by (simp add: round_nat_def Let_def)
    moreover have "?m \<le> 2 ^ 53"
    proof -
      have "?m < 2 ^ ?b" by (rule bit_length_bound)
      also have "\<dots> \<le> 2 ^ 53" using True by (intro power_increasing) simp_all
      finally show ?thesis by simp
    qed
    ultimately show ?thesis by blast
  next
    case False
    then have "?r = div_half_even ?m (2 ^ (?b - 53)) * 2 ^ (?b - 53)" by (simp add: round_nat_def Let_def)
    moreover have "div_half_even ?m (2 ^ (?b - 53)) \<le> 2 ^ 53"
    proof (rule div_half_even_le)
      have "?m < 2 ^ ?b" by (rule bit_length_bound)
      also have "(2::nat) ^ ?b = 2 ^ 53 * 2 ^ (?b - 53)" using False by (simp only: power_add [symmetric]) simp
      finally show "?m < 2 ^ 53 * 2 ^ (?b - 53)" .
    qed simp
    ultimately show ?thesis by blast
  qed
  then obtain n e where ne: "?r = n * 2 ^ e" "n \<le> 2 ^ 53" by blast
  have q: "of_int (int ?r) = of_int (int n) * pow2 (int e)" unfolding ne(1) by (simp add: pow2_nat)
  have lt: "of_int \<bar>int n\<bar> * pow2 (int e) < 2 ^ 1024"
  proof -
    have "of_nat ?r < (of_nat (2 ^ 1024) :: rat)" using r by (simp only: of_nat_less_iff)
    then show ?thesis using q by simp
  qed
  have "is_double (of_int (int n) * pow2 (int e))"
  proof (rule is_double_scaled)
    have "int n \<le> int (2 ^ 53)" using ne(2) by (simp only: of_nat_le_iff)
    then show "\<bar>int n\<bar> \<le> 2 ^ 53" by simp
    show "- 1074 \<le> int e" by simp
    show "of_int \<bar>int n\<bar> * pow2 (int e) < 2 ^ 1024" by (rule lt)
  qed
  then have d: "is_double (of_int (int ?r))" by (simp only: q)
  moreover have "is_double (- of_int (int ?r))" using d by (simp only: is_double_minus)
  moreover have "is_double 0" using is_double_of_int [of 0] by simp
  ultimately show ?thesis unfolding f by (cases "i = 0"; cases "0 < i") (simp_all add: sgn_if)
qed

lemma float_of_text_double: "float_of_text s = Inr f \<Longrightarrow> double_float f"
  by (auto simp: float_of_text_def Let_def split: prod.splits option.splits if_splits)

lemma py_float_double: "double_json v \<Longrightarrow> py_float v = Inr f \<Longrightarrow> double_float f"
proof (cases v)
  case (JBool b)
  assume "py_float v = Inr f"
  with JBool show ?thesis using is_double_of_int [of 0] is_double_of_int [of 1] by (cases b) auto
qed (auto simp: double_float_def dest: float_of_int_double float_of_text_double split: pyfloat.splits)

end
