(* ===== verification/Gold_Assembly.thy ===== *)
theory Gold_Assembly
  imports Py_Number Port_Statistics Excise_Stamps Bluecarbon_Gold Mrv_Gold Export_Consignment Kafka_Ingest
begin

text \<open>
  \<open>gold_assembly.py\<close>: one gold pass for the scope named by the environment.  Paths are their normalised text; \<open>realpath\<close> is
  \<open>Path.resolve\<close>, \<open>gr_write\<close> writes a text to a temporary file beside its path and renames it.
\<close>

definition ENV_SCOPE :: string where "ENV_SCOPE = ''BLUEECONOMY_GOLD_SCOPE''"
definition ENV_SCOPE_ROOT_URI :: string where "ENV_SCOPE_ROOT_URI = ''BLUEECONOMY_GOLD_SCOPE_ROOT_URI''"
definition ENV_REPORT :: string where "ENV_REPORT = ''BLUEECONOMY_GOLD_REPORT''"
definition ENV_EXPORT_PATH :: string where "ENV_EXPORT_PATH = ''BLUEECONOMY_GOLD_EXPORT_PATH''"
definition ENV_CLEARANCE :: string where "ENV_CLEARANCE = ''BLUEECONOMY_GOLD_CLEARANCE''"
definition ENV_STATS_PERIOD :: string where "ENV_STATS_PERIOD = ''BLUEECONOMY_GOLD_STATS_PERIOD''"

definition GOLD_ASSEMBLY_SCOPES :: "lakehouse_scope list" where
  "GOLD_ASSEMBLY_SCOPES = [CVFF, FISHERIES, PLATFORM, MRV, BLUECARBON]"

record gold_config =
  gc_scope :: lakehouse_scope
  gc_root :: string
  gc_clearance :: clearance
  gc_export_path :: "string option"
  gc_report_path :: string
  gc_stats_period :: "string option"

record gold_report =
  gp_schema_version :: string
  gp_started_at :: string
  gp_completed_at :: string
  gp_scope :: string
  gp_assembly :: string
  gp_clearance :: string
  gp_table_version :: int
  gp_rows :: int
  gp_exported_rows :: "int option"
  gp_run_id :: "string option"
  gp_report_sha256 :: "string option"
  gp_excise_rows :: "int option"

section \<open>Configuration\<close>

definition gold_env :: "environ \<Rightarrow> string \<Rightarrow> string res" where
  "gold_env env name =
     (let v = env_get env name
      in bindR (guard (v \<noteq> [] \<and> v = strip v) ValueError (name @ '' must be set to canonical non-empty text'')) (\<lambda>_. Inr v))"

definition export_path_of :: "(string \<Rightarrow> string) \<Rightarrow> environ \<Rightarrow> lakehouse_scope \<Rightarrow> string \<Rightarrow> string option res" where
  "export_path_of realpath env scope report_path =
     (if scope \<noteq> FISHERIES then Inr None
      else bindR (gold_env env ENV_EXPORT_PATH) (\<lambda>p.
           let export_path = posix_path_str p
           in bindR (guard (realpath export_path \<noteq> realpath report_path) ValueError ''export path must not overwrite the report path'') (\<lambda>_.
              Inr (Some export_path))))"

definition stats_period_of :: "environ \<Rightarrow> lakehouse_scope \<Rightarrow> string option res" where
  "stats_period_of env scope =
     (if scope \<noteq> PLATFORM then Inr None
      else bindR (gold_env env ENV_STATS_PERIOD) (\<lambda>period.
           bindR (parse_period period) (\<lambda>_.
           bindR (load_signing_key_from_env env) (\<lambda>_. Inr (Some period)))))"

definition load_config :: "(string \<Rightarrow> string) \<Rightarrow> environ \<Rightarrow> gold_config res" where
  "load_config realpath env =
     bindR (gold_env env ENV_SCOPE) (\<lambda>scope_name.
     bindR (case lakehouse_scope_of scope_name of
              Inl e \<Rightarrow> (if is_value_error (exn_class e) then raise ValueError ''is not a governed lakehouse scope'' else Inl e)
            | Inr s \<Rightarrow> Inr s) (\<lambda>scope.
     bindR (guard (scope \<in> set GOLD_ASSEMBLY_SCOPES) ValueError ''no gold assembly is defined for the scope'') (\<lambda>_.
     bindR (gold_env env ENV_SCOPE_ROOT_URI) (\<lambda>scope_root_uri.
     bindR (gold_env env ENV_REPORT) (\<lambda>report.
     let report_path = posix_path_str report;
         clearance_label' = (case map_of env ENV_CLEARANCE of None \<Rightarrow> clearance_label UNCLASSIFIED | Some l \<Rightarrow> l)
     in bindR (from_label clearance_label') (\<lambda>level.
        bindR (export_path_of realpath env scope report_path) (\<lambda>export_path.
        bindR (stats_period_of env scope) (\<lambda>stats_period.
        Inr \<lparr>gc_scope = scope, gc_root = scope_root_uri, gc_clearance = level, gc_export_path = export_path,
          gc_report_path = report_path, gc_stats_period = stats_period\<rparr>))))))))"

section \<open>The pass\<close>

text \<open>\<open>json.dumps(document, indent=2)\<close>: members in their order.\<close>

fun dumps_indented_plain :: "(rat \<Rightarrow> string) \<Rightarrow> nat \<Rightarrow> json \<Rightarrow> string" where
  "dumps_indented_plain fr n (JList xs) =
     (if xs = [] then ''[]''
      else ''['' @ new_line (Suc n) @ join_with ('','' @ new_line (Suc n)) (map (dumps_indented_plain fr (Suc n)) xs) @ new_line n @ '']'')"
| "dumps_indented_plain fr n (JObj d) =
     (if d = [] then ''{}''
      else ''{'' @ new_line (Suc n) @
        join_with ('','' @ new_line (Suc n))
          (map (\<lambda>(k, t). json_ascii_str k @ '': '' @ t) (map (\<lambda>(k, v). (k, dumps_indented_plain fr (Suc n) v)) d)) @
        new_line n @ ''}'')"
| "dumps_indented_plain fr n v = dumps_default fr False v"

text \<open>\<open>_json_default\<close> writes an instant as its ISO text.\<close>

definition export_cell :: "cell \<Rightarrow> json" where
  "export_cell c = (case c of CTime t \<Rightarrow> JStr (isoformat t) | _ \<Rightarrow> cell_json c)"

definition export_document :: "row list \<Rightarrow> json" where
  "export_document rows = JList (map (\<lambda>r. JObj (map (\<lambda>(k, c). (k, export_cell c)) r)) rows)"

record ('w, 't) gold_runtime =
  gr_stats :: "'w stats_runtime"
  gr_api :: "('w, 't) delta_api"
  gr_open_at :: "string \<Rightarrow> int \<Rightarrow> 'w \<Rightarrow> 't res"
  gr_names :: "'t \<Rightarrow> string list"
  gr_digest :: "json \<Rightarrow> string"
  gr_clock :: "'w \<Rightarrow> int \<times> 'w"
  gr_environ :: environ
  gr_write :: "string \<Rightarrow> string \<Rightarrow> 'w \<Rightarrow> unit res \<times> 'w"

abbreviation (input) "gr_loads rt \<equiv> tx_loads (st_codec (gr_stats rt))"
abbreviation (input) "gr_repr rt \<equiv> tx_repr (st_codec (gr_stats rt))"

definition now_utc :: "('w, 't) gold_runtime \<Rightarrow> ('w, int) act" where
  "now_utc rt w = (case gr_clock rt w of (t, w') \<Rightarrow> (Inr t, w'))"

definition write_json_atomic :: "('w, 't) gold_runtime \<Rightarrow> string \<Rightarrow> json \<Rightarrow> ('w, unit) act" where
  "write_json_atomic rt path document = gr_write rt path (dumps_indented_plain (gr_repr rt) 0 document @ [CHR 0x0A])"

text \<open>What a pass yields: its name, the table version, its rows, the exported rows, the run of the statistics and the excise rows.\<close>

type_synonym pass_result = "string \<times> int \<times> int \<times> int option \<times> run_result option \<times> int option"

definition platform_pass :: "('w, 't) gold_runtime \<Rightarrow> delta_writer \<Rightarrow> string option \<Rightarrow> ('w, pass_result) act" where
  "platform_pass rt writer stats_period =
     bindA (pureA (require_some stats_period ValueError (ENV_STATS_PERIOD @ '' is required for the platform scope''))) (\<lambda>period.
     bindA (pureA (load_signing_key_from_env (gr_environ rt))) (\<lambda>(signing_key, kid).
     bindA (run_port_statistics (gr_stats rt) (gr_api rt) (gr_open_at rt) writer period signing_key kid None) (\<lambda>stats.
     bindA (now_utc rt) (\<lambda>now.
     bindA (assemble_excise_stamps_gold (gr_api rt) (gr_loads rt) (st_str (gr_stats rt)) (gr_digest rt) now writer) (\<lambda>(_, excise_rows).
     pureA (Inr (''platform-gold-port-statistics'', rr_values_version stats, rr_rows_emitted stats, None, Some stats, Some excise_rows)))))))"

definition fisheries_pass :: "('w, 't) gold_runtime \<Rightarrow> delta_writer \<Rightarrow> clearance \<Rightarrow> string option \<Rightarrow> ('w, pass_result) act" where
  "fisheries_pass rt writer level export_path =
     bindA (now_utc rt) (\<lambda>now.
     bindA (assemble_export_consignment_gold (gr_api rt) (gr_names rt) (gr_loads rt) (gr_repr rt) (st_sha (gr_stats rt)) now writer)
       (\<lambda>(version, gold_rows).
     bindA (pureA (require_some export_path ValueError (ENV_EXPORT_PATH @ '' is required for the fisheries scope''))) (\<lambda>path.
     bindA (read_export_consignments (gr_api rt) writer (LevelClaim level)) (\<lambda>visible.
     bindA (write_json_atomic rt path (export_document visible)) (\<lambda>_.
     pureA (Inr (''fisheries-gold-export-consignments'', version, gold_rows, Some (int (length visible)), None, None)))))))"

definition simple_pass :: "('w, 't) gold_runtime \<Rightarrow> string \<Rightarrow> (int \<Rightarrow> ('w, int \<times> int) act) \<Rightarrow> ('w, pass_result) act" where
  "simple_pass rt assembly assemble =
     bindA (now_utc rt) (\<lambda>now. bindA (assemble now) (\<lambda>(version, gold_rows).
     pureA (Inr (assembly, version, gold_rows, None, None, None))))"

definition gold_pass :: "('w, 't) gold_runtime \<Rightarrow> gold_config \<Rightarrow> delta_writer \<Rightarrow> ('w, pass_result) act" where
  "gold_pass rt c writer =
     (if gc_scope c = CVFF
      then simple_pass rt ''cvff-silver-gold-ledger-commitments'' (\<lambda>now. curate_gold (gr_api rt) (st_str (gr_stats rt)) now writer)
      else if gc_scope c = MRV
      then simple_pass rt ''mrv-gold-vessel-annual'' (\<lambda>now. assemble_mrv_vessel_annual_gold (gr_api rt) (gr_loads rt) (gr_repr rt) now writer)
      else if gc_scope c = BLUECARBON
      then simple_pass rt ''bluecarbon-gold-public-registry''
             (\<lambda>now. assemble_bluecarbon_public_registry_gold (gr_api rt) (gr_loads rt) (gr_repr rt) now writer)
      else if gc_scope c = PLATFORM then platform_pass rt writer (gc_stats_period c)
      else fisheries_pass rt writer (gc_clearance c) (gc_export_path c))"

definition run_gold :: "('w, 't) gold_runtime \<Rightarrow> gold_config \<Rightarrow> ('w, gold_report) act" where
  "run_gold rt c =
     bindA (now_utc rt) (\<lambda>started.
     bindA (pureA (new_writer (gc_scope c) (gc_root c))) (\<lambda>writer.
     bindA (gold_pass rt c writer) (\<lambda>(assembly, version, gold_rows, exported, stats, excise).
     bindA (now_utc rt) (\<lambda>completed.
     pureA (Inr \<lparr>gp_schema_version = ''blueeconomy.lakehouse.gold-assembly-report.v1'', gp_started_at = isoformat started,
       gp_completed_at = isoformat completed, gp_scope = scope_value (gc_scope c), gp_assembly = assembly,
       gp_clearance = clearance_label (gc_clearance c), gp_table_version = version, gp_rows = gold_rows, gp_exported_rows = exported,
       gp_run_id = map_option rr_run_id stats, gp_report_sha256 = map_option rr_report_sha256 stats, gp_excise_rows = excise\<rparr>)))))"

section \<open>The command\<close>

definition opt_int_json :: "int option \<Rightarrow> json" where
  "opt_int_json x = (case x of None \<Rightarrow> JNull | Some i \<Rightarrow> JInt i)"

definition report_document :: "gold_report \<Rightarrow> jobject" where
  "report_document r =
     [(''schema_version'', JStr (gp_schema_version r)), (''started_at'', JStr (gp_started_at r)),
      (''completed_at'', JStr (gp_completed_at r)), (''lakehouse_scope'', JStr (gp_scope r)), (''assembly'', JStr (gp_assembly r)),
      (''clearance'', JStr (gp_clearance r)), (''gold_table_version'', JInt (gp_table_version r)), (''gold_rows'', JInt (gp_rows r)),
      (''exported_rows'', opt_int_json (gp_exported_rows r)), (''stats_run_id'', text_json (gp_run_id r)),
      (''stats_report_sha256'', text_json (gp_report_sha256 r)), (''excise_stamp_fact_rows'', opt_int_json (gp_excise_rows r))]"

text \<open>The exceptions \<open>main\<close> turns into the exit status 1; any other leaves as it is.\<close>

definition command_error :: "exc_class \<Rightarrow> bool" where
  "command_error c = (is_value_error c \<or> c \<in> {AccessDeniedError, OSError, RuntimeError, RecursionError, DeadLetterError})"

definition gold_main :: "(string \<Rightarrow> string) \<Rightarrow> ('w, 't) gold_runtime \<Rightarrow> ('w, nat) act" where
  "gold_main realpath rt w =
     (case bindA (pureA (load_config realpath (gr_environ rt))) (\<lambda>c.
           bindA (run_gold rt c) (\<lambda>report.
           bindA (write_json_atomic rt (gc_report_path c) (JObj (report_document report))) (\<lambda>_. pureA (Inr 0)))) w of
        (Inl e, w') \<Rightarrow> (if command_error (exn_class e) then Inr 1 else Inl e, w')
      | (Inr status, w') \<Rightarrow> (Inr status, w'))"

section \<open>What a pass may touch\<close>

text \<open>
  The tables are touched by the calls on them only, each by its own: a write leaves the other tables as they are, and the clocks and
  the files leave all of them.
\<close>

definition gold_contract :: "('w, 't) gold_runtime \<Rightarrow> bool" where
  "gold_contract rt \<longleftrightarrow>
     frames (gr_api rt) (others_same (gr_api rt)) \<and>
     (\<forall>uri rows n d w. others_same (gr_api rt) uri w (snd (api_overwrite (gr_api rt) uri rows n d w))) \<and>
     (\<forall>uri w. api_open (gr_api rt) uri (snd (gr_clock rt w)) = api_open (gr_api rt) uri w) \<and>
     (\<forall>uri w. api_open (gr_api rt) uri (snd (st_clock (gr_stats rt) w)) = api_open (gr_api rt) uri w) \<and>
     (\<forall>uri files w. api_open (gr_api rt) uri (snd (st_write (gr_stats rt) files w)) = api_open (gr_api rt) uri w) \<and>
     (\<forall>uri path t w. api_open (gr_api rt) uri (snd (gr_write rt path t w)) = api_open (gr_api rt) uri w)"

abbreviation (input) seen :: "('w, 't) delta_api \<Rightarrow> string \<Rightarrow> 'w \<Rightarrow> 't res" where
  "seen api u \<equiv> (\<lambda>w. api_open api u w)"

lemma frame_bind_pure: "(\<And>x. r = Inr x \<Longrightarrow> frame obs (f x)) \<Longrightarrow> frame obs (bindA (pureA r) f)"
  by (cases r) (auto simp: frame_def bindA_def pureA_def)

lemma frame_write_gold:
  assumes "\<And>rows n d. frame obs (api_overwrite api uri rows n d)"
  shows "frame obs (write_gold api uri rows schema name d)"
  unfolding write_gold_def by (intro frame_intros assms)

lemma frame_open_silver: "frame obs (open_silver api uri)"
  by (auto simp: frame_def open_silver_def split: sum.split)

lemma frame_rebuild_gold:
  assumes "\<And>uri rows n d. gold_uri = Inr uri \<Longrightarrow> frame obs (api_overwrite api uri rows n d)"
  shows "frame obs (rebuild_gold api writer ne build gold_uri schema name d)"
  unfolding rebuild_gold_def
  by (intro frame_bind_pure frame_bind [OF frame_open_silver] frame_write_gold assms)

text \<open>A table governed by another scope is none the pass writes.\<close>

lemma overwrite_foreign:
  assumes "gold_contract rt" "require_scope_table_uri s uri = Inr ()" "require_scope_table_uri s' u = Inr ()" "s \<noteq> s'"
  shows "frame (seen (gr_api rt) u) (api_overwrite (gr_api rt) uri rows n d)"
proof -
  have "u \<noteq> uri" using require_scope_unique assms(2-4) by blast
  with assms(1) show ?thesis by (auto simp: gold_contract_def frame_def others_same_def)
qed

lemma append_foreign:
  assumes "frames api (others_same api)" "require_scope_table_uri s uri = Inr ()" "require_scope_table_uri s' u = Inr ()" "s \<noteq> s'"
  shows "frame (seen api u) (append_rows api ps uri rows key d sch n)"
proof -
  have ne: "u \<noteq> uri" using require_scope_unique assms(2-4) by blast
  have "others_same api uri w (snd (append_rows api ps uri rows key d sch n w))" for w
    using append_rows_frame [OF assms(1)] by (metis prod.collapse)
  with ne show ?thesis by (auto simp: frame_def others_same_def)
qed

lemma scope_layer_checked: "scope_layer_table_uri s base layer name = Inr uri \<Longrightarrow> require_scope_table_uri s uri = Inr ()"
  by (auto simp: scope_layer_table_uri_def Let_def bindR_Inr_iff)

lemma table_uri_checked: "table_uri writer layer = Inr uri \<Longrightarrow> require_scope_table_uri (writer_scope writer) uri = Inr ()"
  by (auto simp: table_uri_def bindR_Inr_iff)

lemma gold_named_checked: "gold_named writer name = Inr uri \<Longrightarrow> require_scope_table_uri PLATFORM uri = Inr ()"
  unfolding gold_named_def by (rule scope_layer_checked)

lemma curate_foreign:
  assumes "gold_contract rt" "require_scope_table_uri s u = Inr ()" "s \<noteq> CVFF"
  shows "frame (seen (gr_api rt) u) (curate_gold (gr_api rt) ps now writer)"
proof -
  have o1: "frame (seen (gr_api rt) u) (api_overwrite (gr_api rt) uri rows n d)"
    if "writer_scope writer = CVFF" "table_uri writer ''gold'' = Inr uri" for uri rows n d
    using overwrite_foreign [OF assms(1) _ assms(2)] table_uri_checked [OF that(2)] that(1) assms(3) by metis
  show ?thesis unfolding curate_gold_def
    by (intro frame_bind_pure frame_bind frame_read frame_pure o1) (simp_all add: guard_Inr_iff)
qed

lemma mrv_foreign:
  assumes "gold_contract rt" "require_scope_table_uri s u = Inr ()" "s \<noteq> MRV"
  shows "frame (seen (gr_api rt) u) (assemble_mrv_vessel_annual_gold (gr_api rt) loads fr now writer)"
proof -
  have o1: "frame (seen (gr_api rt) u) (api_overwrite (gr_api rt) uri rows n d)"
    if "writer_scope writer = MRV" "mrv_gold_table_uri writer = Inr uri" for uri rows n d
  proof -
    have "require_scope_table_uri MRV uri = Inr ()"
      using that by (auto simp: mrv_gold_table_uri_def writer_scope_def bindR_Inr_iff dest!: scope_layer_checked)
    from overwrite_foreign [OF assms(1) this assms(2)] assms(3) show ?thesis by metis
  qed
  show ?thesis unfolding assemble_mrv_vessel_annual_gold_def
    by (intro frame_bind_pure frame_rebuild_gold o1) (simp_all add: guard_Inr_iff)
qed

lemma bluecarbon_foreign:
  assumes "gold_contract rt" "require_scope_table_uri s u = Inr ()" "s \<noteq> BLUECARBON"
  shows "frame (seen (gr_api rt) u) (assemble_bluecarbon_public_registry_gold (gr_api rt) loads fr now writer)"
proof -
  have o1: "frame (seen (gr_api rt) u) (api_overwrite (gr_api rt) uri rows n d)"
    if "writer_scope writer = BLUECARBON" "bluecarbon_gold_table_uri writer = Inr uri" for uri rows n d
  proof -
    have "require_scope_table_uri BLUECARBON uri = Inr ()"
      using that by (auto simp: bluecarbon_gold_table_uri_def writer_scope_def bindR_Inr_iff dest!: scope_layer_checked)
    from overwrite_foreign [OF assms(1) this assms(2)] assms(3) show ?thesis by metis
  qed
  show ?thesis unfolding assemble_bluecarbon_public_registry_gold_def
    by (intro frame_bind_pure frame_rebuild_gold o1) (simp_all add: guard_Inr_iff)
qed

lemma consignment_foreign:
  assumes "gold_contract rt" "require_scope_table_uri s u = Inr ()" "s \<noteq> FISHERIES"
  shows "frame (seen (gr_api rt) u) (assemble_export_consignment_gold (gr_api rt) names loads fr sha now writer)"
proof -
  have o1: "frame (seen (gr_api rt) u) (api_overwrite (gr_api rt) uri rows n d)"
    if "writer_scope writer = FISHERIES" "export_consignment_table_uri writer = Inr uri" for uri rows n d
  proof -
    have "require_scope_table_uri FISHERIES uri = Inr ()"
      using that by (auto simp: export_consignment_table_uri_def Let_def bindR_Inr_iff)
    from overwrite_foreign [OF assms(1) this assms(2)] assms(3) show ?thesis by metis
  qed
  show ?thesis unfolding assemble_export_consignment_gold_def
    by (intro frame_bind_pure frame_bind [OF frame_read] frame_write_gold o1) (simp_all add: guard_Inr_iff)
qed

text \<open>A table below a gold table of the platform is governed by no segregated scope when its name declares none.\<close>

lemma extended_path:
  assumes u: "u = r @ CHR ''/'' # a @ CHR ''/'' # b"
    and a: "a \<noteq> []" "list_all plain_segment_char a"
    and p: "urlsplit u = Inr p" and p': "urlsplit (u @ CHR ''/'' # t) = Inr p'"
    and t: "list_all plain_url_char t"
  shows "url_path p' \<in> {url_path p, url_path p @ CHR ''/'' # t}"
proof -
  let ?k = "\<lambda>c. code c \<noteq> 9 \<and> code c \<noteq> 10 \<and> code c \<noteq> 13"
  have k: "filter ?k v = v" if "list_all plain_url_char v" for v

  proof (rule filter_True, rule ballI)
    fix x assume "x \<in> set v"
    with that have "32 < code x" by (simp add: list_all_iff plain_url_char_def)
    then show "?k x" by simp
  qed
  have "list_all plain_url_char a" using a(2) by (simp add: list_all_iff plain_segment_char_def)
  then have "filter ?k a = a" by (rule k)
  then have c: "url_clean (r @ CHR ''/'' # a @ CHR ''/'' # x) = url_clean r @ CHR ''/'' # a @ CHR ''/'' # filter ?k x" for x
    by (simp add: url_clean_append)
  from url_split_scheme_append [of "url_clean r"]
  obtain sch r' where s: "\<forall>x. url_split_scheme (url_clean r @ CHR ''/'' # x) = (sch, r' @ CHR ''/'' # x)" by (elim exE)
  from url_split_netloc_append [OF a, of r']
  obtain net n where n: "\<forall>y. url_split_netloc (r' @ CHR ''/'' # a @ CHR ''/'' # y) = (net, n @ CHR ''/'' # y)" by (elim exE)
  have "url_path p = url_path_of (n @ CHR ''/'' # filter ?k b)"
    using urlsplit_path [OF p] by (simp add: u c s n)
  moreover have "url_path p' = url_path_of ((n @ CHR ''/'' # filter ?k b) @ CHR ''/'' # t)"
    using urlsplit_path [OF p'] c [of "b @ CHR ''/'' # t"] k [OF t] by (simp add: u s n)
  moreover have "url_path_of (CHR ''/'' # t) = CHR ''/'' # t"
  proof -
    have "\<forall>x\<in>set (CHR ''/'' # t). x \<noteq> CHR ''#'' \<and> x \<noteq> CHR ''?''"
      using t by (simp add: list_all_iff plain_url_char_def)
    then have "takeWhile (\<lambda>x. x \<noteq> CHR ''#'') (CHR ''/'' # t) = CHR ''/'' # t" "takeWhile (\<lambda>x. x \<noteq> CHR ''?'') (CHR ''/'' # t) = CHR ''/'' # t"
      by (simp_all only: takeWhile_eq_all_conv) blast+
    then show ?thesis by (simp only: url_path_of_def)
  qed
  moreover have "url_path_of (w @ CHR ''/'' # t) \<in> {url_path_of w, url_path_of w @ url_path_of (CHR ''/'' # t)}" for w
    unfolding url_path_of_append by (simp only: append_Nil2 insert_iff simp_thms split: if_split)
  ultimately show ?thesis by (simp only:)
qed

lemma platform_table_extends:
  assumes u: "u = r @ CHR ''/'' # a @ CHR ''/'' # b" "a \<noteq> []" "list_all plain_segment_char a"
    and s: "require_scope_table_uri PLATFORM u = Inr ()" "require_scope_table_uri s (u @ CHR ''/'' # t) = Inr ()"
    and t: "list_all plain_url_char t" "components_declare (path_components t) = {}"
  shows "s = PLATFORM"
proof -
  from s(1) obtain p where p: "urlsplit u = Inr p" "components_declare (path_components (url_path p)) = {}"
    by (auto simp: require_scope_iff scopes_declared_by_uri_def res_simps)
  from s(2) obtain p' where p': "urlsplit (u @ CHR ''/'' # t) = Inr p'"
    "components_declare (path_components (url_path p')) = (if s = PLATFORM then {} else {s})"
    by (auto simp: require_scope_iff scopes_declared_by_uri_def res_simps)
  from extended_path [OF u p(1) p'(1) t(1)] p(2) t(2)
  have "components_declare (path_components (url_path p')) = {}"
    by (auto simp: path_components_append components_declare_append)
  with p'(2) show ?thesis by (auto split: if_splits)
qed

lemma excise_foreign:
  assumes "gold_contract rt" "require_scope_table_uri s u = Inr ()" "s \<noteq> PLATFORM" "new_writer PLATFORM base = Inr writer"
  shows "frame (seen (gr_api rt) u) (assemble_excise_stamps_gold (gr_api rt) loads ps js now writer)"
proof -
  have o1: "frame (seen (gr_api rt) u) (api_overwrite (gr_api rt) uri rows n d)"
    if e: "excise_stamps_gold_table_uri writer = Inr uri" for uri rows n d
  proof -
    from e obtain g where g: "table_uri writer ''gold'' = Inr g" "uri = rstrip_char (CHR ''/'') g @ ''/'' @ EXCISE_GOLD_TABLE_NAME"
      by (auto simp: excise_stamps_gold_table_uri_def bindR_Inr_iff)
    from assms(4) obtain roots where ro: "build_lakehouse_roots PLATFORM base = Inr roots" "writer = \<lparr>writer_roots = roots\<rparr>"
      by (auto simp: new_writer_def bindR_Inr_iff)
    from g(1) ro(2) have l: "for_layer roots ''gold'' = Inr g" by (auto simp: table_uri_def bindR_Inr_iff)
    from build_roots_layers [OF ro(1) l] obtain r a where sh: "g = r @ CHR ''/'' # a @ CHR ''/'' # ''events''" "a \<noteq> []"
      "list_all plain_segment_char a" by blast
    have "rstrip_char (CHR ''/'') g = g" unfolding sh(1) by (simp add: rstrip_char_def)
    with g(2) have t: "uri = g @ CHR ''/'' # EXCISE_GOLD_TABLE_NAME" by simp
    have w: "writer_scope writer = PLATFORM" by (rule new_writer_scope [OF assms(4)])
    have "filter (\<lambda>s. list_ex (root_component_match s) (path_components EXCISE_GOLD_TABLE_NAME)) SEGREGATED_SCOPES = []" by code_simp
    then have n1: "components_declare (path_components EXCISE_GOLD_TABLE_NAME) = {}" by (simp only: components_declare_def) simp
    have n2: "list_all plain_url_char EXCISE_GOLD_TABLE_NAME" by code_simp
    have "u \<noteq> uri"
      using platform_table_extends [OF sh table_uri_checked [OF g(1), unfolded w] _ n2 n1] assms(2,3) unfolding t by blast
    with assms(1) show ?thesis by (auto simp: gold_contract_def frame_def others_same_def)
  qed
  show ?thesis unfolding assemble_excise_stamps_gold_def
    by (intro frame_bind_pure frame_rebuild_gold o1)
qed

lemma statistics_foreign:
  assumes "gold_contract rt" "require_scope_table_uri s u = Inr ()" "s \<noteq> PLATFORM"
  shows "frame (seen (gr_api rt) u) (run_port_statistics (gr_stats rt) (gr_api rt) open_at writer period signing_key kid computed_at)"
proof -
  let ?seen = "seen (gr_api rt) u"
  have ap: "frame ?seen (append_rows (gr_api rt) ps uri rows key d sch n)" if "gold_named writer name = Inr uri" for ps uri rows key d sch n name
    using append_foreign [OF _ gold_named_checked [OF that] assms(2)] assms(1,3) by (metis gold_contract_def)
  have src: "frame ?seen (open_source (gr_api rt) uri)" for uri
    by (auto simp: frame_def open_source_def split: sum.split)
  have figs: "frame ?seen (run_figures (gr_stats rt) (gr_api rt) open_at writer start finish)" for start finish
    unfolding run_figures_def Let_def by (intro frame_bind_pure frame_bind frame_read frame_pure src)
  have clk: "frame ?seen (computed_instant (gr_stats rt) computed_at)"
    using assms(1) by (auto simp: frame_def computed_instant_def gold_contract_def split: option.split prod.split) (metis snd_conv)
  have wr: "frame ?seen (st_write (gr_stats rt) files)" for files using assms(1) by (simp add: frame_def gold_contract_def)
  have art: "frame ?seen (write_report_artefacts (gr_stats rt) writer run_id artefact csv)" for run_id artefact csv
    unfolding write_report_artefacts_def Let_def by (intro frame_bind_pure frame_bind frame_pure wr)
  have facts: "frame ?seen (append_facts (gr_stats rt) (gr_api rt) uri facts)" if "gold_named writer name = Inr uri" for uri facts name
    unfolding append_facts_def by (intro frame_if frame_bind ap [OF that] frame_pair frame_pure)
  have pub: "frame ?seen (publish_run (gr_stats rt) (gr_api rt) writer signing_key kid period start finish version query_hash run_id computed facts rows)"
    for start finish version query_hash run_id computed facts rows
    unfolding publish_run_def Let_def
    by (intro frame_bind_pure, rule frame_bind [OF facts], assumption, intro frame_bind_pure, rule frame_bind [OF ap], assumption,
        rule frame_pair, rule frame_pair, rule frame_bind [OF ap], assumption, intro frame_pair frame_bind [OF art] frame_pure)
  show ?thesis unfolding run_port_statistics_def
    by (intro frame_bind_pure frame_bind frame_pair frame_bind [OF figs] frame_bind [OF clk] pub figs clk)
qed

lemma now_foreign: "gold_contract rt \<Longrightarrow> frame (seen (gr_api rt) u) (now_utc rt)"
  by (auto simp: frame_def now_utc_def gold_contract_def split: prod.split) (metis snd_conv)

lemma write_json_foreign: "gold_contract rt \<Longrightarrow> frame (seen (gr_api rt) u) (write_json_atomic rt path d)"
  by (simp add: frame_def write_json_atomic_def gold_contract_def)

lemma simple_pass_foreign:
  assumes "gold_contract rt" "\<And>now. frame (seen (gr_api rt) u) (assemble now)"
  shows "frame (seen (gr_api rt) u) (simple_pass rt name assemble)"
  unfolding simple_pass_def by (intro frame_bind [OF now_foreign [OF assms(1)]] frame_bind [OF assms(2)] frame_pair frame_pure)

lemma read_consignments_frame: "frame obs (read_export_consignments api writer claim)"
  unfolding read_export_consignments_def by (intro frame_bind_pure frame_bind [OF frame_read] frame_pure)

lemma gold_pass_foreign:
  assumes "gold_contract rt" "require_scope_table_uri s u = Inr ()" "s \<noteq> gc_scope c" "gc_scope c \<in> set GOLD_ASSEMBLY_SCOPES"
    and "new_writer (gc_scope c) base = Inr writer"
  shows "frame (seen (gr_api rt) u) (gold_pass rt c writer)"
proof -
  note con = assms(1)
  have platform: "frame (seen (gr_api rt) u) (platform_pass rt writer period)" if "gc_scope c = PLATFORM" for period
    unfolding platform_pass_def using that assms(3,5)
    by (intro frame_bind_pure frame_pair frame_bind [OF statistics_foreign [OF con assms(2)]] frame_bind [OF now_foreign [OF con]]
        frame_bind [OF excise_foreign [OF con assms(2)]] frame_pure) simp_all
  have fisheries: "frame (seen (gr_api rt) u) (fisheries_pass rt writer level path)" if "gc_scope c = FISHERIES" for level path
    unfolding fisheries_pass_def using that assms(3)
    by (intro frame_bind [OF now_foreign [OF con]] frame_bind [OF consignment_foreign [OF con assms(2)]] frame_pair frame_bind_pure
        frame_bind [OF read_consignments_frame] frame_bind [OF write_json_foreign [OF con]] frame_pure) simp_all
  from assms(4) consider "gc_scope c = CVFF" | "gc_scope c = MRV" | "gc_scope c = BLUECARBON" | "gc_scope c = PLATFORM" | "gc_scope c = FISHERIES"
    by (auto simp: GOLD_ASSEMBLY_SCOPES_def)
  then show ?thesis
  proof cases
    case 1
    with assms(3) show ?thesis by (simp add: gold_pass_def simple_pass_foreign [OF con] curate_foreign [OF con assms(2)])
  next
    case 2
    with assms(3) show ?thesis by (simp add: gold_pass_def simple_pass_foreign [OF con] mrv_foreign [OF con assms(2)])
  next
    case 3
    with assms(3) show ?thesis by (simp add: gold_pass_def simple_pass_foreign [OF con] bluecarbon_foreign [OF con assms(2)])
  next
    case 4
    with platform show ?thesis by (simp add: gold_pass_def)
  next
    case 5
    with fisheries show ?thesis by (simp add: gold_pass_def)
  qed
qed

section \<open>Properties\<close>

text \<open>An exception that is caught and raised again as another is no result.\<close>

lemma recast_Inr: "(case r of Inl e \<Rightarrow> (if p e then raise k m else Inl e) | Inr x \<Rightarrow> Inr x) = Inr y \<longleftrightarrow> r = Inr y"
  by (cases r) (simp_all add: raise_def)

text \<open>
  Claim C4. A gold pass stays in its scope: whatever it does and however it ends, it leaves every table that another scope governs as it was.
\<close>

theorem gold_run_scoped:
  assumes "gold_contract rt" "gc_scope c \<in> set GOLD_ASSEMBLY_SCOPES" "run_gold rt c w = (x, w')"
    and "require_scope_table_uri s u = Inr ()" "s \<noteq> gc_scope c"
  shows "api_open (gr_api rt) u w' = api_open (gr_api rt) u w"
proof -
  have "frame (seen (gr_api rt) u) (run_gold rt c)"
    unfolding run_gold_def
    by (intro frame_bind [OF now_foreign [OF assms(1)]] frame_bind_pure frame_bind [OF gold_pass_foreign [OF assms(1,4,5,2)]]
        frame_pair frame_pure)
  from frameD [OF this assms(3)] show ?thesis .
qed

text \<open>
  Claim C21. The configuration fails closed: a loaded configuration names a scope that has a gold assembly; it has an export path, different
  from the report's, exactly for fisheries, a computation period that parses and a signing key exactly for the platform; and its clearance is
  the lowest unless one is configured.
\<close>

theorem config_fail_closed:
  assumes "load_config realpath env = Inr c"
  shows "gc_scope c \<in> set GOLD_ASSEMBLY_SCOPES \<and> env_get env ENV_SCOPE = scope_value (gc_scope c) \<and>
    (case gc_export_path c of
       None \<Rightarrow> gc_scope c \<noteq> FISHERIES
     | Some p \<Rightarrow> gc_scope c = FISHERIES \<and> realpath p \<noteq> realpath (gc_report_path c)) \<and>
    (case gc_stats_period c of
       None \<Rightarrow> gc_scope c \<noteq> PLATFORM
     | Some p \<Rightarrow> gc_scope c = PLATFORM \<and> is_ok (parse_period p) \<and> is_ok (load_signing_key_from_env env)) \<and>
    (map_of env ENV_CLEARANCE = None \<longrightarrow> gc_clearance c = UNCLASSIFIED)"
proof -
  from assms obtain scope_name scope level export_path stats_period where l: "gold_env env ENV_SCOPE = Inr scope_name"
    "lakehouse_scope_of scope_name = Inr scope" "scope \<in> set GOLD_ASSEMBLY_SCOPES"
    "from_label (case map_of env ENV_CLEARANCE of None \<Rightarrow> clearance_label UNCLASSIFIED | Some l \<Rightarrow> l) = Inr level"
    "export_path_of realpath env scope (gc_report_path c) = Inr export_path" "stats_period_of env scope = Inr stats_period"
    "gc_scope c = scope" "gc_clearance c = level" "gc_export_path c = export_path" "gc_stats_period c = stats_period"
    by (auto simp: load_config_def Let_def bindR_Inr_iff recast_Inr)
  have "env_get env ENV_SCOPE = scope_name" using l(1) by (auto simp: gold_env_def Let_def bindR_Inr_iff)
  moreover have "scope_value scope = scope_name"
    using l(2) by (auto simp: lakehouse_scope_of_def find_Some_iff)
  moreover have "case export_path of None \<Rightarrow> scope \<noteq> FISHERIES | Some p \<Rightarrow> scope = FISHERIES \<and> realpath p \<noteq> realpath (gc_report_path c)"
    using l(5) by (auto simp: export_path_of_def Let_def bindR_Inr_iff guard_Inr_iff split: if_splits)
  moreover have "case stats_period of None \<Rightarrow> scope \<noteq> PLATFORM
      | Some p \<Rightarrow> scope = PLATFORM \<and> is_ok (parse_period p) \<and> is_ok (load_signing_key_from_env env)"
    using l(6) by (auto simp: stats_period_of_def bindR_Inr_iff is_ok_iff split: if_splits)
  moreover have "from_label (clearance_label UNCLASSIFIED) = Inr UNCLASSIFIED" by code_simp
  ultimately show ?thesis using l by auto
qed

lemma consignment_cleared:
  assumes "delta_contract api content" "overwrite_contract api content"
    and "assemble_export_consignment_gold api names loads fr sha now writer w = (Inr (v, n), w')"
    and "read_export_consignments api writer (LevelClaim l) w' = (Inr visible, w'')"
    and "table_uri writer ''bronze'' = Inr bronze_uri" "api_open api bronze_uri w = Inr bronze"
    and "r \<in> set visible" "row_get r ''consignment_id'' = CText cid"
    and "e \<in> set (content bronze)" "event_consignment loads e = Inr cid"
  shows "case row_get e ''record_classification'' of
      CText label \<Rightarrow> \<forall>f. from_label label = Inr f \<longrightarrow> f \<le> l
    | _ \<Rightarrow> l = SECRET"
proof -
  let ?cols = "consignment_columns (names bronze)"
  have "normalize_clearance (LevelClaim l) = Inr (Some l)" by simp
  with assemble_consignments_cases [OF assms(1-3,5,6)] read_consignments_cases [OF assms(2,4)] assms(7) obtain gold where
    g: "build_consignment_records loads fr sha now (map (project ?cols) (content bronze)) = Inr (content gold)"
      "r \<in> set (filter_records_by_clearance (content gold) (Inl l) ''record_classification'')"
    by auto
  have "''payload_json'' \<in> set ?cols" by (simp add: consignment_columns_def SILVER_EVENT_COLUMNS_def)
  then have "event_consignment loads (project ?cols e) = Inr cid"
    using assms(10) by (simp add: event_consignment_project)
  with cleared_sources [OF g assms(8), of "project ?cols e"] assms(9) obtain f where
    "event_clearance_floor (project ?cols e) = Inr f" "f \<le> l" by auto
  then show ?thesis
    by (auto simp: event_clearance_floor_def row_get_project split: cell.splits sum.splits if_splits)
qed

lemma fisheries_pass_cases:
  assumes "fisheries_pass rt writer level export_path w = (Inr x, w')"
  obtains now w0 version gold_rows w1 path visible w2 where "now_utc rt w = (Inr now, w0)"
    "assemble_export_consignment_gold (gr_api rt) (gr_names rt) (gr_loads rt) (gr_repr rt) (st_sha (gr_stats rt)) now writer w0 =
       (Inr (version, gold_rows), w1)" "export_path = Some path"
    "read_export_consignments (gr_api rt) writer (LevelClaim level) w1 = (Inr visible, w2)"
    "write_json_atomic rt path (export_document visible) w2 = (Inr (), w')"
    "x = (''fisheries-gold-export-consignments'', version, gold_rows, Some (int (length visible)), None, None)"
  using assms by (auto simp: fisheries_pass_def bindA_Inr pureA_eq split: prod.splits)

text \<open>
  Claim C20. The fisheries export withholds what lies above the configured clearance: when a fisheries pass returns a report, the file it wrote
  lists as many rows as the report counts, and a row of it is about a consignment all of whose bronze events carry a label at or below the
  clearance (an event without a label counts as SECRET).
\<close>

theorem fisheries_export_cleared:
  assumes "delta_contract (gr_api rt) content" "overwrite_contract (gr_api rt) content" "gold_contract rt"
    and "gc_scope c = FISHERIES" "run_gold rt c w = (Inr report, w')"
    and "new_writer FISHERIES (gc_root c) = Inr writer" "table_uri writer ''bronze'' = Inr bronze_uri"
    and "api_open (gr_api rt) bronze_uri w = Inr bronze"
  shows "\<exists>path visible w1 w2. gc_export_path c = Some path \<and> gp_exported_rows report = Some (int (length visible)) \<and>
    write_json_atomic rt path (export_document visible) w1 = (Inr (), w2) \<and>
    (\<forall>r\<in>set visible. \<forall>cid e. row_get r ''consignment_id'' = CText cid \<longrightarrow> e \<in> set (content bronze) \<longrightarrow>
       event_consignment (gr_loads rt) e = Inr cid \<longrightarrow>
       (case row_get e ''record_classification'' of
          CText label \<Rightarrow> \<forall>f. from_label label = Inr f \<longrightarrow> f \<le> gc_clearance c
        | _ \<Rightarrow> gc_clearance c = SECRET))"
proof -
  from assms(4-6) obtain started w0 x w1 where n: "now_utc rt w = (Inr started, w0)"
    and g: "fisheries_pass rt writer (gc_clearance c) (gc_export_path c) w0 = (Inr x, w1)"
    and r: "gp_exported_rows report = fst (snd (snd (snd x)))"
    by (auto simp: run_gold_def gold_pass_def bindA_Inr pureA_eq split: prod.splits)
  have same: "api_open (gr_api rt) bronze_uri v' = api_open (gr_api rt) bronze_uri v" if "now_utc rt v = (Inr t, v')" for v v' t
    using frameD [OF now_foreign [OF assms(3)] that] .
  show ?thesis
  proof (rule fisheries_pass_cases [OF g])
    fix now v0 version gold_rows v1 path visible v2
    assume a: "now_utc rt w0 = (Inr now, v0)"
      "assemble_export_consignment_gold (gr_api rt) (gr_names rt) (gr_loads rt) (gr_repr rt) (st_sha (gr_stats rt)) now writer v0 =
         (Inr (version, gold_rows), v1)" "gc_export_path c = Some path"
      "read_export_consignments (gr_api rt) writer (LevelClaim (gc_clearance c)) v1 = (Inr visible, v2)"
      "write_json_atomic rt path (export_document visible) v2 = (Inr (), w1)"
      "x = (''fisheries-gold-export-consignments'', version, gold_rows, Some (int (length visible)), None, None)"
    have open0: "api_open (gr_api rt) bronze_uri v0 = Inr bronze" using same [OF a(1)] same [OF n] assms(8) by simp
    have "case row_get e ''record_classification'' of
          CText label \<Rightarrow> \<forall>f. from_label label = Inr f \<longrightarrow> f \<le> gc_clearance c
        | _ \<Rightarrow> gc_clearance c = SECRET"
      if "r \<in> set visible" "row_get r ''consignment_id'' = CText cid" "e \<in> set (content bronze)"
        "event_consignment (gr_loads rt) e = Inr cid" for r cid e
      by (rule consignment_cleared [OF assms(1,2) a(2,4) assms(7) open0 that])
    with a(3,5,6) r show ?thesis by (intro exI conjI ballI allI impI) (simp, simp, assumption, blast)
  qed
qed

section \<open>Witnesses\<close>

definition fisheries_environ :: environ where
  "fisheries_environ =
     [(''BLUEECONOMY_GOLD_SCOPE'', ''fisheries''), (''BLUEECONOMY_GOLD_SCOPE_ROOT_URI'', ''s3://b/fisheries''),
      (''BLUEECONOMY_GOLD_REPORT'', ''/r/report.json''), (''BLUEECONOMY_GOLD_EXPORT_PATH'', ''/r/export.json''),
      (''BLUEECONOMY_GOLD_CLEARANCE'', ''RESTRICTED'')]"

definition fisheries_config :: gold_config where
  "fisheries_config =
     \<lparr>gc_scope = FISHERIES, gc_root = ''s3://b/fisheries'', gc_clearance = RESTRICTED, gc_export_path = Some ''/r/export.json'',
      gc_report_path = ''/r/report.json'', gc_stats_period = None\<rparr>"

definition gold_codec :: text_codec where
  "gold_codec = \<lparr>tx_decode = Some, tx_loads = consignment_loads, tx_json_error = (\<lambda>e. True), tx_repr = (\<lambda>q. [])\<rparr>"

definition mem_gold :: "(mem_store, int \<times> row list) gold_runtime" where
  "mem_gold =
     \<lparr>gr_stats = stat_runtime\<lparr>st_codec := gold_codec, st_sha := (\<lambda>s. ''d'')\<rparr>, gr_api = mem_delta, gr_open_at = stat_open_at,
      gr_names = (\<lambda>t. map fst sample_catch), gr_digest = (\<lambda>j. []), gr_clock = (\<lambda>w. (0, w)), gr_environ = fisheries_environ,
      gr_write = (\<lambda>path t w. (Inr (), w))\<rparr>"

lemma mem_gold_contract: "gold_contract mem_gold"
  by (auto simp: gold_contract_def frames_def others_same_def mem_gold_def stat_runtime_def mem_delta_def mem_merge_def split: prod.splits)

lemma config_fail_closed_witness:
  "load_config id fisheries_environ = Inr fisheries_config \<and> gc_scope fisheries_config \<in> set GOLD_ASSEMBLY_SCOPES"
proof -
  have "load_config id fisheries_environ = Inr fisheries_config" by code_simp
  with config_fail_closed [OF this] show ?thesis by blast
qed

lemma fisheries_writer_made: "new_writer FISHERIES ''s3://b/fisheries'' = Inr fisheries_writer"
  by code_simp

lemma mem_gold_run: "\<exists>report w'. run_gold mem_gold fisheries_config sample_bronze = (Inr report, w') \<and> gp_exported_rows report = Some 1"
proof -
  from sample_assembled obtain r w' where a: "sample_assembly sample_bronze = (Inr (0, 1), w')"
    "read_export_consignments mem_delta fisheries_writer (LevelClaim RESTRICTED) w' = (Inr [r], w')" by blast
  have n: "now_utc mem_gold w = (Inr 0, w)" for w by (simp add: now_utc_def mem_gold_def)
  have w: "write_json_atomic mem_gold p d w = (Inr (), w)" for p d w by (simp add: write_json_atomic_def mem_gold_def)
  have fields: "gr_api mem_gold = mem_delta" "gr_names mem_gold = (\<lambda>t. map fst sample_catch)" "gr_loads mem_gold = consignment_loads"
    "gr_repr mem_gold = (\<lambda>q. [])" "st_sha (gr_stats mem_gold) = (\<lambda>s. ''d'')"
    by (simp_all add: mem_gold_def stat_runtime_def gold_codec_def)
  have f: "fisheries_pass mem_gold fisheries_writer RESTRICTED (Some ''/r/export.json'') sample_bronze =
      (Inr (''fisheries-gold-export-consignments'', 0, 1, Some 1, None, None), w')"
    using a by (simp add: fisheries_pass_def bindA_def pureA_def n w sample_assembly_def fields)
  have m: "new_writer (gc_scope fisheries_config) (gc_root fisheries_config) = Inr fisheries_writer"
    using fisheries_writer_made by (simp add: fisheries_config_def)
  have p: "gold_pass mem_gold fisheries_config fisheries_writer sample_bronze =
      (Inr (''fisheries-gold-export-consignments'', 0, 1, Some 1, None, None), w')"
    using f by (simp add: gold_pass_def fisheries_config_def)
  show ?thesis by (simp add: run_gold_def bindA_def pureA_def n m p)
qed

lemma fisheries_export_cleared_witness:
  "\<exists>report w' (visible :: row list). run_gold mem_gold fisheries_config sample_bronze = (Inr report, w') \<and> length visible = 1 \<and>
     gp_exported_rows report = Some (int (length visible))"
proof -
  obtain report w' where r: "run_gold mem_gold fisheries_config sample_bronze = (Inr report, w')" "gp_exported_rows report = Some 1"
    using mem_gold_run by blast
  have con: "delta_contract (gr_api mem_gold) snd" "overwrite_contract (gr_api mem_gold) snd"
    using mem_delta_contract mem_overwrite_contract by (simp_all add: mem_gold_def)
  have c: "gc_scope fisheries_config = FISHERIES" "new_writer FISHERIES (gc_root fisheries_config) = Inr fisheries_writer"
    using fisheries_writer_made by (simp_all add: fisheries_config_def)
  have o1: "api_open (gr_api mem_gold) ''s3://b/fisheries/fisheries_bronze/events'' sample_bronze = Inr (0, [sample_catch])"
    by (simp add: mem_gold_def mem_delta_def sample_bronze_def)
  from fisheries_export_cleared [OF con mem_gold_contract c(1) r(1) c(2) sample_uris(1) o1]
  obtain visible :: "row list" where "gp_exported_rows report = Some (int (length visible))" by blast
  with r show ?thesis by (intro exI [of _ report] exI [of _ w'] exI [of _ visible]) simp
qed

lemma gold_run_scoped_witness:
  "\<exists>report w'. run_gold mem_gold fisheries_config ((''s3://b/cvff/cvff_gold/events'', 3, []) # sample_bronze) = (report, w') \<and>
     api_open mem_delta ''s3://b/cvff/cvff_gold/events'' w' = Inr (3, [])"
proof -
  let ?w = "(''s3://b/cvff/cvff_gold/events'', 3, []) # sample_bronze"
  obtain x w' where r: "run_gold mem_gold fisheries_config ?w = (x, w')" by fastforce
  have "is_ok (require_scope_table_uri CVFF ''s3://b/cvff/cvff_gold/events'')" by code_simp
  then have s: "require_scope_table_uri CVFF ''s3://b/cvff/cvff_gold/events'' = Inr ()" by (auto simp: is_ok_iff)
  have c: "gc_scope fisheries_config \<in> set GOLD_ASSEMBLY_SCOPES" "CVFF \<noteq> gc_scope fisheries_config"
    by (simp_all add: fisheries_config_def GOLD_ASSEMBLY_SCOPES_def)
  have "api_open mem_delta ''s3://b/cvff/cvff_gold/events'' ?w = Inr (3, [])" by (simp add: mem_delta_def)
  with gold_run_scoped [OF mem_gold_contract c(1) r s c(2)] r show ?thesis by (simp add: mem_gold_def)
qed

end
