(* ===== verification/Stats_Api.thy ===== *)
theory Stats_Api
  imports Port_Statistics Py_Number
begin

text \<open>
  \<open>stats_api.py\<close>: the read-only service over the gold tables of the port statistics.  A request is its target and its
  \<open>Authorization\<close> header; what it answers is computed from the world, and \<open>sv_send\<close> writes one response to the
  connection.  HMAC, the clock, \<open>unquote\<close>, \<open>str\<close> and the report directory are fields of the runtime; the counters and
  spans of OpenTelemetry are left out.
\<close>

record response =
  rs_status :: nat
  rs_body :: string
  rs_type :: string

record 'w serving_runtime =
  sv_codec :: text_codec
  sv_hmac :: "string \<Rightarrow> string \<Rightarrow> string"
  sv_now :: "'w \<Rightarrow> rat"
  sv_unquote :: "string \<Rightarrow> string"
  sv_str :: "cell \<Rightarrow> string"
  sv_is_file :: "string \<Rightarrow> 'w \<Rightarrow> bool res"
  sv_is_symlink :: "string \<Rightarrow> 'w \<Rightarrow> bool res"
  sv_read_text :: "string \<Rightarrow> 'w \<Rightarrow> string res"
  sv_send :: "response \<Rightarrow> 'w \<Rightarrow> unit res \<times> 'w"

record request =
  rq_target :: string
  rq_authorization :: "string option"

section \<open>Configuration\<close>

definition ENV_TABLE_ROOT :: string where "ENV_TABLE_ROOT = ''STATS_API_TABLE_ROOT''"
definition ENV_PORT :: string where "ENV_PORT = ''STATS_API_PORT''"
definition ENV_TOKEN_SECRET :: string where "ENV_TOKEN_SECRET = ''STATS_API_BEARER_TOKEN_SECRET''"
definition REQUIRED_ROLE :: string where "REQUIRED_ROLE = ''stats-reader''"

definition ROUTE_HEALTH :: string where "ROUTE_HEALTH = ''/v1/stats/health''"
definition ROUTE_KPIS :: string where "ROUTE_KPIS = ''/v1/stats/kpis''"
definition ROUTE_RUNS :: string where "ROUTE_RUNS = ''/v1/stats/runs''"
definition ROUTE_VALUES :: string where "ROUTE_VALUES = ''/v1/stats/values''"
definition ROUTE_REPORT_PREFIX :: string where "ROUTE_REPORT_PREFIX = ''/v1/stats/report/''"

record stats_config =
  cf_table_root :: string
  cf_port :: int
  cf_token_secret :: string

definition new_stats_config :: "string \<Rightarrow> int \<Rightarrow> string \<Rightarrow> stats_config res" where
  "new_stats_config table_root port token_secret =
     bindR (guard (table_root \<noteq> [] \<and> table_root = strip table_root) ValueError (ENV_TABLE_ROOT @ '' must be set to canonical non-empty text'')) (\<lambda>_.
     let top = rstrip_char (CHR ''/'') table_root
     in bindR (require_scope_table_uri PLATFORM top) (\<lambda>_.
        bindR (guard (0 \<le> port \<and> port \<le> 65535) ValueError (ENV_PORT @ '' must be a TCP port number'')) (\<lambda>_.
        bindR (guard (token_secret \<noteq> [] \<and> token_secret = strip token_secret) ValueError (ENV_TOKEN_SECRET @ '' must be set (fail-closed)'')) (\<lambda>_.
        Inr \<lparr>cf_table_root = top, cf_port = port, cf_token_secret = utf8_encode token_secret\<rparr>))))"

definition stats_config_from_env :: "environ \<Rightarrow> stats_config res" where
  "stats_config_from_env env =
     bindR (guard (list_all (\<lambda>n. env_get env n \<noteq> []) [ENV_TABLE_ROOT, ENV_PORT, ENV_TOKEN_SECRET]) ValueError ''missing required configuration'') (\<lambda>_.
     bindR (case py_int (env_get env ENV_PORT) of
              Inl e \<Rightarrow> (if is_value_error (exn_class e) then raise ValueError (ENV_PORT @ '' must be a TCP port number'') else Inl e)
            | Inr p \<Rightarrow> Inr p) (\<lambda>port.
     bindR (guard (port \<noteq> 0) ValueError (ENV_PORT @ '' must be an explicit TCP port number'')) (\<lambda>_.
     new_stats_config (env_get env ENV_TABLE_ROOT) port (env_get env ENV_TOKEN_SECRET))))"

definition config_table_uri :: "stats_config \<Rightarrow> string \<Rightarrow> string res" where
  "config_table_uri config name =
     (let uri = cf_table_root config @ ''/'' @ name in bindR (require_scope_table_uri PLATFORM uri) (\<lambda>_. Inr uri))"

definition config_reports_dir :: "stats_config \<Rightarrow> string res" where
  "config_reports_dir config =
     (let uri = cf_table_root config @ ''/'' @ REPORTS_DIR_NAME in bindR (require_scope_table_uri PLATFORM uri) (\<lambda>_. Inr uri))"

section \<open>Authentication\<close>

definition b64url_decode :: "string \<Rightarrow> string res" where
  "b64url_decode encoded =
     bindR (guard (unpadded_b64url encoded) (StatsApiError 401) ''malformed bearer token'') (\<lambda>_.
     case urlsafe_b64decode (b64_pad encoded) of
       Inl e \<Rightarrow> (if is_value_error (exn_class e) then raise (StatsApiError 401) ''malformed bearer token'' else Inl e)
     | Inr b \<Rightarrow> Inr b)"

text \<open>\<open>json.loads(b.decode("utf-8"))\<close>, whose two documented errors are a malformed token.\<close>

definition token_json :: "text_codec \<Rightarrow> string \<Rightarrow> json res" where
  "token_json tx b =
     bindR (require_some (tx_decode tx b) (StatsApiError 401) ''malformed bearer token'') (\<lambda>s.
     case tx_loads tx s of
       Inl e \<Rightarrow> (if tx_json_error tx e then raise (StatsApiError 401) ''malformed bearer token'' else Inl e)
     | Inr j \<Rightarrow> Inr j)"

text \<open>The expiry: absent or null, or a number that converts to a float and does not lie at or before now.\<close>

definition check_expiry :: "json \<Rightarrow> rat \<Rightarrow> unit res" where
  "check_expiry expires now =
     (if expires = JNull then Inr ()
      else bindR (guard (case expires of JInt i \<Rightarrow> True | JFloat f \<Rightarrow> True | _ \<Rightarrow> False) (StatsApiError 401) ''token exp claim is malformed'') (\<lambda>_.
           bindR (py_float expires) (\<lambda>t.
           guard (\<not> fl_le t (PFin now)) (StatsApiError 401) ''token is expired'')))"

definition check_roles :: "json \<Rightarrow> unit res" where
  "check_roles roles =
     guard (case roles of JList rs \<Rightarrow> JStr REQUIRED_ROLE \<in> set rs | _ \<Rightarrow> False) (StatsApiError 403)
       ''insufficient role: stats-reader is required''"

definition authenticate :: "'w serving_runtime \<Rightarrow> stats_config \<Rightarrow> string option \<Rightarrow> 'w \<Rightarrow> unit res" where
  "authenticate rt config authorization w =
     bindR (require_some authorization (StatsApiError 401) ''bearer token required'') (\<lambda>value.
     bindR (guard (prefix ''Bearer '' value) (StatsApiError 401) ''bearer token required'') (\<lambda>_.
     case split_on (CHR ''.'') (drop 7 value) of
       [encoded_header, encoded_payload, encoded_signature] \<Rightarrow>
         bindR (b64url_decode encoded_header) (\<lambda>header_bytes.
         bindR (b64url_decode encoded_payload) (\<lambda>payload_bytes.
         bindR (b64url_decode encoded_signature) (\<lambda>signature.
         bindR (token_json (sv_codec rt) header_bytes) (\<lambda>header.
         bindR (token_json (sv_codec rt) payload_bytes) (\<lambda>claims.
         bindR (guard (case header of JObj d \<Rightarrow> jget d ''alg'' = JStr ''HS256'' | _ \<Rightarrow> False) (StatsApiError 401) ''unsupported token algorithm'') (\<lambda>_.
         bindR (guard (sv_hmac rt (cf_token_secret config) (encoded_header @ ''.'' @ encoded_payload) = signature) (StatsApiError 401)
                  ''token signature does not verify'') (\<lambda>_.
         bindR (require_some (json_obj claims) (StatsApiError 401) ''token claims must be a JSON object'') (\<lambda>d.
         bindR (check_expiry (jget d ''exp'') (sv_now rt w)) (\<lambda>_.
         check_roles (jget d ''roles'')))))))))) 
     | _ \<Rightarrow> raise (StatsApiError 401) ''malformed bearer token''))"

section \<open>Gold tables\<close>

definition read_gold_table :: "('w, 't) delta_api \<Rightarrow> stats_config \<Rightarrow> string \<Rightarrow> 'w \<Rightarrow> row list res" where
  "read_gold_table api config name w =
     (case bindR (config_table_uri config name) (\<lambda>uri. api_open api uri w) of
        Inl e \<Rightarrow>
          (if exn_class e = TableNotFoundError
           then raise (StatsApiError 503) ''gold table does not exist yet; no statistics run has been published''
           else raise (StatsApiError 503) ''gold table is unreadable'')
      | Inr table \<Rightarrow> api_read_all api table)"

definition kpi_document :: "kpi_definition \<Rightarrow> json" where
  "kpi_document d =
     JObj [(''kpi_id'', JStr (kd_kpi_id d)), (''name'', JStr (kd_name d)), (''definition'', JStr (kd_definition d)),
       (''unit'', JStr (kd_unit d)), (''definition_version'', JStr (kd_version d)), (''gap_id'', text_json (kd_gap_id d))]"

definition gap_document :: "stats_gap \<Rightarrow> json" where
  "gap_document g =
     JObj [(''gap_id'', JStr (gap_gap_id g)), (''description'', JStr (gap_description g)),
       (''needed_upstream'', JStr (gap_needed_upstream g))]"

definition kpi_registry_document :: jobject where
  "kpi_registry_document =
     [(''kpis'', JList (map kpi_document KPI_DEFINITIONS)), (''gaps'', JList (map gap_document STATS_GAPS))]"

text \<open>A value as \<open>json.dumps\<close> takes it: an instant is not serialisable.\<close>

definition served_cell :: "row \<Rightarrow> string \<Rightarrow> json res" where
  "served_cell r k =
     bindR (row_item r k) (\<lambda>c. case c of CTime t \<Rightarrow> raise TypeError ''not JSON serializable'' | _ \<Rightarrow> Inr (cell_json c))"

definition served_instant :: "row \<Rightarrow> string \<Rightarrow> json res" where
  "served_instant r k =
     bindR (row_item r k) (\<lambda>c. bindR (require_some (cell_time c) AttributeError ''isoformat'') (\<lambda>t. Inr (JStr (isoformat t))))"

definition served_versions :: "text_codec \<Rightarrow> row \<Rightarrow> json res" where
  "served_versions tx r =
     bindR (row_item r ''source_table_versions_json'') (\<lambda>c.
     case c of CText s \<Rightarrow> tx_loads tx s | _ \<Rightarrow> raise TypeError ''the JSON object must be str'')"

text \<open>The members of a document, evaluated in order.\<close>

definition members :: "(string \<times> json res) list \<Rightarrow> jobject res" where
  "members ms = mapR (\<lambda>(k, v). bindR v (\<lambda>j. Inr (k, j))) ms"

definition run_manifest :: "text_codec \<Rightarrow> row \<Rightarrow> jobject res" where
  "run_manifest tx r =
     members [(''run_id'', served_cell r ''run_id''), (''computed_at'', served_instant r ''computed_at''),
       (''period'', served_cell r ''period''), (''period_start'', served_instant r ''period_start''),
       (''period_end'', served_instant r ''period_end''), (''scope'', served_cell r ''scope''),
       (''source_table_versions'', served_versions tx r),
       (''query_definitions_sha256'', served_cell r ''query_definitions_sha256''), (''kpi_count'', served_cell r ''kpi_count''),
       (''rows_emitted'', served_cell r ''rows_emitted''), (''rows_no_data'', served_cell r ''rows_no_data''),
       (''report_sha256'', served_cell r ''report_sha256'')]"

text \<open>
  \<open>rows.sort(key=..., reverse=True)\<close> keeps equal rows in order.  Both columns of the key are declared not null; values of
  other types do not compare.
\<close>

definition run_order :: "row \<Rightarrow> (int \<times> string) res" where
  "run_order r =
     bindR (row_item r ''computed_at'') (\<lambda>t. bindR (row_item r ''run_id'') (\<lambda>i.
     case (t, i) of (CTime t', CText i') \<Rightarrow> Inr (t', i') | _ \<Rightarrow> raise TypeError ''not comparable''))"

definition latest_first :: "((int \<times> string) \<times> row) list \<Rightarrow> row list" where
  "latest_first keyed = map snd (rev (sort_key fst (rev keyed)))"

definition list_runs :: "'w serving_runtime \<Rightarrow> ('w, 't) delta_api \<Rightarrow> stats_config \<Rightarrow> 'w \<Rightarrow> jobject res" where
  "list_runs rt api config w =
     bindR (read_gold_table api config RUNS_TABLE_NAME w) (\<lambda>rows.
     bindR (mapR (\<lambda>r. bindR (run_order r) (\<lambda>k. Inr (k, r))) rows) (\<lambda>keyed.
     bindR (mapR (run_manifest (sv_codec rt)) (latest_first keyed)) (\<lambda>manifests.
     Inr [(''runs'', JList (map JObj manifests))])))"

section \<open>Values\<close>

type_synonym query = "(string \<times> string list) list"

definition VALUE_PARAMETERS :: "string list" where "VALUE_PARAMETERS = [''kpi_id'', ''port_code'', ''period'']"

definition filter_step :: "query \<Rightarrow> (string \<times> string) list \<Rightarrow> string \<Rightarrow> (string \<times> string) list res" where
  "filter_step query filters parameter =
     (case map_of query parameter of
        None \<Rightarrow> Inr filters
      | Some [v] \<Rightarrow> Inr (filters @ [(parameter, v)])
      | Some vs \<Rightarrow> raise (StatsApiError 400) ''parameter repeats'')"

definition query_filters :: "query \<Rightarrow> (string \<times> string) list res" where
  "query_filters query =
     bindR (foldR (filter_step query) [] VALUE_PARAMETERS) (\<lambda>filters.
     bindR (guard (list_all (\<lambda>k. k \<in> set VALUE_PARAMETERS) (map fst query)) (StatsApiError 400) ''unknown query parameters'') (\<lambda>_.
     bindR (guard (case map_of filters ''kpi_id'' of None \<Rightarrow> True | Some v \<Rightarrow> map_of KPI_BY_ID v \<noteq> None) (StatsApiError 400) ''unknown kpi_id'') (\<lambda>_.
     bindR (guard (case map_of filters ''period'' of None \<Rightarrow> True | Some v \<Rightarrow> PERIOD_PATTERN v) (StatsApiError 400) ''period must match YYYY-MM'') (\<lambda>_.
     bindR (guard (case map_of filters ''port_code'' of None \<Rightarrow> True | Some v \<Rightarrow> UNLOCODE_PATTERN v) (StatsApiError 400) ''port_code must be a UN/LOCODE'') (\<lambda>_.
     Inr filters)))))"

text \<open>\<open>not any(row[key] != value for key, value in filters.items())\<close>.\<close>

fun row_matches :: "(string \<times> string) list \<Rightarrow> row \<Rightarrow> bool res" where
  "row_matches [] r = Inr True"
| "row_matches ((k, v) # fs) r = bindR (row_item r k) (\<lambda>c. if c \<noteq> CText v then Inr False else row_matches fs r)"

definition run_entry :: "(cell \<times> row) list \<Rightarrow> row \<Rightarrow> (cell \<times> row) list res" where
  "run_entry runs r = bindR (row_item r ''run_id'') (\<lambda>i. Inr (AList.update i r runs))"

definition value_item :: "text_codec \<Rightarrow> row \<Rightarrow> row \<Rightarrow> jobject res" where
  "value_item tx manifest r =
     members [(''run_id'', served_cell r ''run_id''), (''kpi_id'', served_cell r ''kpi_id''), (''period'', served_cell r ''period''),
       (''port_code'', served_cell r ''port_code''), (''ship_class'', served_cell r ''ship_class''), (''value'', served_cell r ''value''),
       (''unit'', served_cell r ''unit''), (''n_observations'', served_cell r ''n_observations''),
       (''percentile'', served_cell r ''percentile''), (''coverage_note'', served_cell r ''coverage_note''),
       (''definition_version'', served_cell r ''definition_version''), (''source_table'', served_cell r ''source_table''),
       (''table_version'', served_cell r ''table_version''), (''query_hash'', served_cell r ''query_hash''),
       (''computed_at'', served_instant r ''computed_at''), (''source_table_versions'', served_versions tx manifest)]"

text \<open>The sort key of an item; \<open>kpi_id\<close> is declared not null.\<close>

definition value_order :: "(cell \<Rightarrow> string) \<Rightarrow> row \<Rightarrow> (string \<times> string \<times> string \<times> string) res" where
  "value_order ps r =
     (case row_get r ''kpi_id'' of
        CText k \<Rightarrow> Inr (k, ps (row_get r ''port_code''), ps (row_get r ''ship_class''), ps (row_get r ''percentile''))
      | _ \<Rightarrow> raise TypeError ''not comparable'')"

definition serve_value :: "'w serving_runtime \<Rightarrow> (cell \<times> row) list \<Rightarrow> row \<Rightarrow> ((string \<times> string \<times> string \<times> string) \<times> jobject) res" where
  "serve_value rt runs r =
     bindR (row_item r ''run_id'') (\<lambda>i.
     bindR (require_some (map_of runs i) (StatsApiError 503) ''value row references unknown run_id'') (\<lambda>manifest.
     bindR (value_item (sv_codec rt) manifest r) (\<lambda>item.
     bindR (value_order (sv_str rt) r) (\<lambda>k. Inr (k, item)))))"

definition value_step :: "'w serving_runtime \<Rightarrow> (string \<times> string) list \<Rightarrow> (cell \<times> row) list \<Rightarrow>
    ((string \<times> string \<times> string \<times> string) \<times> jobject) list \<Rightarrow> row \<Rightarrow> ((string \<times> string \<times> string \<times> string) \<times> jobject) list res" where
  "value_step rt filters runs items r =
     bindR (row_matches filters r) (\<lambda>m. if \<not> m then Inr items else bindR (serve_value rt runs r) (\<lambda>x. Inr (items @ [x])))"

definition query_values :: "'w serving_runtime \<Rightarrow> ('w, 't) delta_api \<Rightarrow> stats_config \<Rightarrow> query \<Rightarrow> 'w \<Rightarrow> jobject res" where
  "query_values rt api config query w =
     bindR (query_filters query) (\<lambda>filters.
     bindR (read_gold_table api config RUNS_TABLE_NAME w) (\<lambda>run_rows.
     bindR (foldR run_entry [] run_rows) (\<lambda>runs.
     bindR (read_gold_table api config VALUES_TABLE_NAME w) (\<lambda>value_rows.
     bindR (foldR (value_step rt filters runs) [] value_rows) (\<lambda>items.
     Inr [(''values'', JList (map (JObj \<circ> snd) (sort_key fst items)))])))))"

section \<open>Reports\<close>

definition lower_hex :: "char \<Rightarrow> bool" where
  "lower_hex c = (is_digit c \<or> (97 \<le> code c \<and> code c \<le> 102))"

definition RUN_ID_PATTERN :: "string \<Rightarrow> bool" where
  "RUN_ID_PATTERN s =
     (let parts = split_on (CHR ''-'') s in map length parts = [8, 4, 4, 4, 12] \<and> list_all (list_all lower_hex) parts)"

definition report_format :: "query \<Rightarrow> string res" where
  "report_format query =
     (case (case map_of query ''format'' of None \<Rightarrow> [''json''] | Some vs \<Rightarrow> vs) of
        [f] \<Rightarrow> bindR (guard (f \<in> {''json'', ''csv''}) (StatsApiError 400) ''format must be json or csv'') (\<lambda>_. Inr f)
      | _ \<Rightarrow> raise (StatsApiError 400) ''format must be json or csv'')"

definition report_path :: "stats_config \<Rightarrow> string \<Rightarrow> string \<Rightarrow> string res" where
  "report_path config run_id f =
     bindR (config_reports_dir config) (\<lambda>d. Inr (posix_path_str (d @ ''/'' @ run_id @ ''.'' @ f)))"

definition read_report :: "'w serving_runtime \<Rightarrow> string \<Rightarrow> 'w \<Rightarrow> string res" where
  "read_report rt path w =
     (case bindR (sv_is_file rt path w) (\<lambda>is_file.
           bindR (if is_file then sv_is_symlink rt path w else Inr True) (\<lambda>refused.
           bindR (guard (\<not> refused) (StatsApiError 404) ''no report artefact for run_id'') (\<lambda>_.
           sv_read_text rt path w))) of
        Inl e \<Rightarrow> (if exn_class e = OSError then raise (StatsApiError 503) ''report artefact is unreadable'' else Inl e)
      | Inr body \<Rightarrow> Inr body)"

definition get_report :: "'w serving_runtime \<Rightarrow> stats_config \<Rightarrow> string \<Rightarrow> query \<Rightarrow> 'w \<Rightarrow> (string \<times> string) res" where
  "get_report rt config run_id query w =
     bindR (guard (RUN_ID_PATTERN run_id) (StatsApiError 400) ''run_id must be a UUID'') (\<lambda>_.
     bindR (report_format query) (\<lambda>f.
     bindR (report_path config run_id f) (\<lambda>path.
     bindR (read_report rt path w) (\<lambda>body.
     Inr (if f = ''json'' then ''application/json'' else ''text/csv'', body)))))"

section \<open>Requests\<close>

text \<open>
  \<open>parse_qs\<close>: pairs between ampersands, split at their first equals sign; a pair without one, or with an empty value, is
  dropped; \<open>unquote\<close> decodes the percent escapes of a text whose plus signs have become spaces.
\<close>

definition plus_to_space :: "string \<Rightarrow> string" where
  "plus_to_space s = map (\<lambda>c. if c = CHR ''+'' then CHR '' '' else c) s"

definition add_pair :: "(string \<Rightarrow> string) \<Rightarrow> query \<Rightarrow> string \<Rightarrow> query" where
  "add_pair unquote q pair =
     (case partition_on (CHR ''='') pair of (name, found, value) \<Rightarrow>
        if \<not> found \<or> value = [] then q
        else (let k = unquote (plus_to_space name)
              in AList.update k ((case map_of q k of None \<Rightarrow> [] | Some vs \<Rightarrow> vs) @ [unquote (plus_to_space value)]) q))"

definition parse_qs :: "(string \<Rightarrow> string) \<Rightarrow> string \<Rightarrow> query" where
  "parse_qs unquote qs = foldl (add_pair unquote) [] (split_on (CHR ''&'') qs)"

definition route_label :: "string \<Rightarrow> string res" where
  "route_label target =
     bindR (urlsplit target) (\<lambda>parts.
     Inr (if prefix ROUTE_REPORT_PREFIX (url_path parts) then ROUTE_REPORT_PREFIX @ ''{run_id}'' else url_path parts))"

definition json_response :: "text_codec \<Rightarrow> nat \<Rightarrow> jobject \<Rightarrow> response" where
  "json_response tx status document =
     \<lparr>rs_status = status, rs_body = dumps_default (tx_repr tx) True (JObj document) @ [CHR 0x0A], rs_type = ''application/json''\<rparr>"

definition request_path :: "url_parts \<Rightarrow> string" where
  "request_path parts = (let p = rstrip_char (CHR ''/'') (url_path parts) in if p = [] then ''/'' else p)"

text \<open>\<open>_handle_get\<close>: the response of a request that raises nothing.\<close>

definition handle_get :: "'w serving_runtime \<Rightarrow> ('w, 't) delta_api \<Rightarrow> stats_config \<Rightarrow> request \<Rightarrow> 'w \<Rightarrow> response res" where
  "handle_get rt api config rq w =
     bindR (urlsplit (rq_target rq)) (\<lambda>parts.
     let path = request_path parts
     in if path = ROUTE_HEALTH then Inr (json_response (sv_codec rt) 200 [(''status'', JStr ''ok'')])
        else
          bindR (authenticate rt config (rq_authorization rq) w) (\<lambda>_.
          let query = parse_qs (sv_unquote rt) (url_query parts)
          in if path = ROUTE_KPIS then Inr (json_response (sv_codec rt) 200 kpi_registry_document)
             else if path = ROUTE_RUNS then bindR (list_runs rt api config w) (\<lambda>d. Inr (json_response (sv_codec rt) 200 d))
             else if path = ROUTE_VALUES then bindR (query_values rt api config query w) (\<lambda>d. Inr (json_response (sv_codec rt) 200 d))
             else if prefix ROUTE_REPORT_PREFIX path
             then bindR (get_report rt config (drop (length ROUTE_REPORT_PREFIX) path) query w) (\<lambda>(content_type, body).
                  Inr \<lparr>rs_status = 200, rs_body = body, rs_type = content_type\<rparr>)
             else raise (StatsApiError 404) ''unknown route''))"

text \<open>The answer to an exception: the status of a \<open>StatsApiError\<close>, 503 for any other.\<close>

definition error_response :: "text_codec \<Rightarrow> exn \<Rightarrow> response" where
  "error_response tx e =
     (case exn_class e of
        StatsApiError status \<Rightarrow> json_response tx status [(''error'', JStr (exn_msg e))]
      | _ \<Rightarrow> json_response tx 503 [(''error'', JStr (''stats API could not serve the request: '' @ exn_msg e))])"

text \<open>
  \<open>do_GET\<close>: the label of the span is computed before the \<open>try\<close>; an exception of the handler, or of writing its response, is
  answered by an error response.
\<close>

definition do_GET :: "'w serving_runtime \<Rightarrow> ('w, 't) delta_api \<Rightarrow> stats_config \<Rightarrow> request \<Rightarrow> ('w, unit) act" where
  "do_GET rt api config rq w =
     (case route_label (rq_target rq) of
        Inl e \<Rightarrow> (Inl e, w)
      | Inr label \<Rightarrow>
          (case bindA (pureA (handle_get rt api config rq w)) (sv_send rt) w of
             (Inl e, w') \<Rightarrow> sv_send rt (error_response (sv_codec rt) e) w'
           | (Inr u, w') \<Rightarrow> (Inr u, w')))"

end
