(* ===== verification/Stats_Properties.thy ===== *)
theory Stats_Properties
  imports Stats_Api
begin

text \<open>
  What the statistics service serves: nothing without a token of the gateway but its liveness, gold rows exactly as they are
  published, and an answer to every request whose target parses.
\<close>

section \<open>Authentication\<close>

text \<open>A bearer token of the gateway, by its parts, that grants the role at this moment.\<close>

definition authorised :: "'w serving_runtime \<Rightarrow> stats_config \<Rightarrow> string option \<Rightarrow> 'w \<Rightarrow> bool" where
  "authorised rt config authorization w \<longleftrightarrow>
     (\<exists>h p s hb pb header claims rs.
        authorization = Some (''Bearer '' @ h @ CHR ''.'' # p @ CHR ''.'' # s) \<and>
        b64url_decode h = Inr hb \<and> b64url_decode p = Inr pb \<and>
        b64url_decode s = Inr (sv_hmac rt (cf_token_secret config) (h @ ''.'' @ p)) \<and>
        token_json (sv_codec rt) hb = Inr (JObj header) \<and> jget header ''alg'' = JStr ''HS256'' \<and>
        token_json (sv_codec rt) pb = Inr (JObj claims) \<and>
        (jget claims ''exp'' \<noteq> JNull \<longrightarrow>
           (\<exists>t. py_float (jget claims ''exp'') = Inr t \<and> \<not> fl_le t (PFin (sv_now rt w)) \<and>
             (case jget claims ''exp'' of JInt i \<Rightarrow> True | JFloat f \<Rightarrow> True | _ \<Rightarrow> False))) \<and>
        jget claims ''roles'' = JList rs \<and> JStr REQUIRED_ROLE \<in> set rs)"

lemma check_expiry_Inr:
  "check_expiry e now = Inr () \<longleftrightarrow>
     (e \<noteq> JNull \<longrightarrow> (\<exists>t. py_float e = Inr t \<and> \<not> fl_le t (PFin now) \<and> (case e of JInt i \<Rightarrow> True | JFloat f \<Rightarrow> True | _ \<Rightarrow> False)))"
  by (auto simp: check_expiry_def bindR_Inr_iff guard_Inr_iff)

lemma check_roles_Inr: "check_roles r = Inr () \<longleftrightarrow> (\<exists>rs. r = JList rs \<and> JStr REQUIRED_ROLE \<in> set rs)"
  by (auto simp: check_roles_def guard_Inr_iff split: json.splits)

lemma object_case: "(case j of JObj d \<Rightarrow> P d | _ \<Rightarrow> False) \<longleftrightarrow> (\<exists>d. j = JObj d \<and> P d)"
  by (cases j) auto

lemma json_obj_Some: "json_obj j = Some d \<longleftrightarrow> j = JObj d"
  by (cases j) auto

lemma b64url_decode_dotless: "b64url_decode s = Inr b \<Longrightarrow> CHR ''.'' \<notin> set s"
proof -
  assume "b64url_decode s = Inr b"
  then have "list_all b64url_char s" by (auto simp: b64url_decode_def bindR_Inr_iff guard_Inr_iff unpadded_b64url_def)
  moreover have "\<not> b64url_char (CHR ''.'')" by code_simp
  ultimately show ?thesis by (auto simp: list_all_iff)
qed

lemma token_parts:
  assumes "CHR ''.'' \<notin> set h" "CHR ''.'' \<notin> set p" "CHR ''.'' \<notin> set s"
  shows "split_on (CHR ''.'') (h @ CHR ''.'' # p @ CHR ''.'' # s) = [h, p, s]"
  using assms by (simp add: split_on_append_sep split_on_no_sep)

text \<open>The verification of three parts.\<close>

definition verify_parts :: "'w serving_runtime \<Rightarrow> stats_config \<Rightarrow> 'w \<Rightarrow> string \<Rightarrow> string \<Rightarrow> string \<Rightarrow> unit res" where
  "verify_parts rt config w h p s =
     bindR (b64url_decode h) (\<lambda>header_bytes. bindR (b64url_decode p) (\<lambda>payload_bytes. bindR (b64url_decode s) (\<lambda>signature.
     bindR (token_json (sv_codec rt) header_bytes) (\<lambda>header.
     bindR (token_json (sv_codec rt) payload_bytes) (\<lambda>claims.
     bindR (guard (case header of JObj d \<Rightarrow> jget d ''alg'' = JStr ''HS256'' | _ \<Rightarrow> False) (StatsApiError 401) ''unsupported token algorithm'') (\<lambda>_.
     bindR (guard (sv_hmac rt (cf_token_secret config) (h @ ''.'' @ p) = signature) (StatsApiError 401)
              ''token signature does not verify'') (\<lambda>_.
     bindR (require_some (json_obj claims) (StatsApiError 401) ''token claims must be a JSON object'') (\<lambda>d.
     bindR (check_expiry (jget d ''exp'') (sv_now rt w)) (\<lambda>_.
     check_roles (jget d ''roles'')))))))))) "

lemma verify_parts_Inr:
  "verify_parts rt config w h p s = Inr () \<longleftrightarrow>
     (\<exists>hb pb header claims rs. b64url_decode h = Inr hb \<and> b64url_decode p = Inr pb \<and>
        b64url_decode s = Inr (sv_hmac rt (cf_token_secret config) (h @ ''.'' @ p)) \<and>
        token_json (sv_codec rt) hb = Inr (JObj header) \<and> jget header ''alg'' = JStr ''HS256'' \<and>
        token_json (sv_codec rt) pb = Inr (JObj claims) \<and> check_expiry (jget claims ''exp'') (sv_now rt w) = Inr () \<and>
        jget claims ''roles'' = JList rs \<and> JStr REQUIRED_ROLE \<in> set rs)"
  by (auto simp: verify_parts_def bindR_Inr_iff object_case json_obj_Some check_roles_Inr guard_Inr_iff)

lemma authenticate_parts:
  "authenticate rt config authorization w =
     bindR (require_some authorization (StatsApiError 401) ''bearer token required'') (\<lambda>value.
     bindR (guard (prefix ''Bearer '' value) (StatsApiError 401) ''bearer token required'') (\<lambda>_.
     case split_on (CHR ''.'') (drop 7 value) of
       [h, p, s] \<Rightarrow> verify_parts rt config w h p s
     | _ \<Rightarrow> raise (StatsApiError 401) ''malformed bearer token''))"
  unfolding authenticate_def verify_parts_def ..

lemma authenticated_authorised:
  "authenticate rt config authorization w = Inr () \<longleftrightarrow> authorised rt config authorization w"
proof
  assume "authenticate rt config authorization w = Inr ()"
  then obtain v where v: "authorization = Some v" "prefix ''Bearer '' v"
    and c: "(case split_on (CHR ''.'') (drop 7 v) of [h, p, s] \<Rightarrow> verify_parts rt config w h p s
       | _ \<Rightarrow> raise (StatsApiError 401) ''malformed bearer token'') = Inr ()"
    by (auto simp: authenticate_parts bindR_Inr_iff guard_Inr_iff)
  from c obtain h p s where s: "split_on (CHR ''.'') (drop 7 v) = [h, p, s]" and ok: "verify_parts rt config w h p s = Inr ()"
    by (auto split: list.splits)
  from v(2) obtain u where u: "v = ''Bearer '' @ u" by (auto simp: prefix_def)
  then have "drop 7 v = u" by simp
  with split_on_join [OF s] u have "v = ''Bearer '' @ h @ CHR ''.'' # p @ CHR ''.'' # s" by simp
  with v(1) ok show "authorised rt config authorization w"
    unfolding authorised_def verify_parts_Inr check_expiry_Inr by blast
next
  assume "authorised rt config authorization w"
  then obtain h p s where a: "authorization = Some (''Bearer '' @ h @ CHR ''.'' # p @ CHR ''.'' # s)"
    and ok: "verify_parts rt config w h p s = Inr ()"
    unfolding authorised_def verify_parts_Inr check_expiry_Inr by blast
  from ok have "CHR ''.'' \<notin> set h" "CHR ''.'' \<notin> set p" "CHR ''.'' \<notin> set s"
    by (auto simp: verify_parts_Inr dest: b64url_decode_dotless)
  then have "split_on (CHR ''.'') (h @ CHR ''.'' # p @ CHR ''.'' # s) = [h, p, s]" by (rule token_parts)
  with a ok show "authenticate rt config authorization w = Inr ()"
    by (simp add: authenticate_parts require_some_def guard_def)
qed

text \<open>
  Claim C10. A request is authenticated exactly when it bears a token of three base64url parts whose last is the HMAC, under the
  configured secret, of the first two, whose header names HS256, and whose claims carry the role and no expiry that has passed.
\<close>

theorem authenticate_iff:
  "authenticate rt config authorization w = Inr () \<longleftrightarrow> authorised rt config authorization w"
  by (rule authenticated_authorised)

section \<open>Answers\<close>

definition ERROR_STATUSES :: "nat list" where "ERROR_STATUSES = [400, 401, 403, 404, 503]"

text \<open>A computation whose \<open>StatsApiError\<close>s carry one of the error statuses.\<close>

definition api_error :: "'a res \<Rightarrow> bool" where
  "api_error r \<longleftrightarrow>
     (case r of Inr x \<Rightarrow> True
      | Inl e \<Rightarrow> (case exn_class e of StatsApiError n \<Rightarrow> n \<in> set ERROR_STATUSES | _ \<Rightarrow> True))"

lemma api_error_Inr [simp]: "api_error (Inr x)"
  by (simp add: api_error_def)

lemma api_error_raise: "api_error (raise c m) \<longleftrightarrow> (case c of StatsApiError n \<Rightarrow> n \<in> set ERROR_STATUSES | _ \<Rightarrow> True)"
  by (simp add: api_error_def raise_def)

lemma api_error_bindR [intro]: "api_error r \<Longrightarrow> (\<And>x. r = Inr x \<Longrightarrow> api_error (f x)) \<Longrightarrow> api_error (bindR r f)"
  by (cases r) (auto simp: api_error_def)

lemma api_error_guard: "api_error (guard b c m) \<longleftrightarrow> b \<or> api_error (raise c m :: unit res)"
  by (simp add: guard_def)

lemma api_error_require: "api_error (require_some x c m) \<longleftrightarrow> x \<noteq> None \<or> api_error (raise c m :: unit res)"
  by (cases x) (simp_all add: require_some_def api_error_raise)

lemma api_error_mapR: "(\<And>x. x \<in> set xs \<Longrightarrow> api_error (f x)) \<Longrightarrow> api_error (mapR f xs)"
  by (induction xs) (auto intro!: api_error_bindR)

lemma api_error_foldR: "(\<And>s x. x \<in> set xs \<Longrightarrow> api_error (f s x)) \<Longrightarrow> api_error (foldR f s xs)"
  by (induction xs arbitrary: s) (auto intro!: api_error_bindR)

lemmas api_error_simps = api_error_raise api_error_guard api_error_require ERROR_STATUSES_def

text \<open>What the libraries raise is no error of this module.\<close>

definition foreign :: "'a res \<Rightarrow> bool" where
  "foreign r \<longleftrightarrow> (case r of Inr x \<Rightarrow> True | Inl e \<Rightarrow> (\<forall>n. exn_class e \<noteq> StatsApiError n))"

lemma foreign_api_error: "foreign r \<Longrightarrow> api_error r"
  by (auto simp: foreign_def api_error_def split: sum.splits exc_class.split)

definition serving_contract :: "'w serving_runtime \<Rightarrow> ('w, 't) delta_api \<Rightarrow> bool" where
  "serving_contract rt api \<longleftrightarrow>
     (\<forall>s. foreign (tx_loads (sv_codec rt) s)) \<and> (\<forall>t. foreign (api_read_all api t)) \<and>
     (\<forall>p w. foreign (sv_is_file rt p w) \<and> foreign (sv_is_symlink rt p w) \<and> foreign (sv_read_text rt p w))"

lemma api_error_b64url: "api_error (b64url_decode s)"
  by (auto simp: b64url_decode_def api_error_simps urlsafe_b64decode_def guard_def raise_def api_error_def split: sum.splits)

lemma api_error_token_json:
  assumes "\<forall>s. foreign (tx_loads tx s)"
  shows "api_error (token_json tx b)"
proof -
  have ae: "api_error (tx_loads tx s)" for s using assms by (simp add: foreign_api_error)
  have "api_error (case tx_loads tx s of Inl e \<Rightarrow> if tx_json_error tx e then raise (StatsApiError 401) m else Inl e | Inr j \<Rightarrow> Inr j)" for s m
    using ae [of s] by (cases "tx_loads tx s") (auto simp: api_error_simps)
  then show ?thesis unfolding token_json_def by (intro api_error_bindR) (simp_all add: api_error_simps)
qed

lemma foreign_bindR: "foreign r \<Longrightarrow> (\<And>x. foreign (f x)) \<Longrightarrow> foreign (bindR r f)"
  by (cases r) (auto simp: foreign_def)

lemma foreign_raise: "foreign (raise c m) \<longleftrightarrow> (\<forall>n. c \<noteq> StatsApiError n)"
  by (simp add: foreign_def raise_def)

lemma foreign_Inr [simp]: "foreign (Inr x)"
  by (simp add: foreign_def)

lemma foreign_guard: "(\<forall>n. c \<noteq> StatsApiError n) \<Longrightarrow> foreign (guard b c m)"
  by (simp add: guard_def foreign_raise)

lemma foreign_float_of_int: "foreign (float_of_int i)"
  unfolding float_of_int_def Let_def by (simp only: foreign_raise foreign_Inr split: if_split) simp

lemma foreign_float_of_text: "foreign (float_of_text s)"
  by (simp add: float_of_text_def foreign_raise split: option.splits prod.splits)

lemma foreign_py_float: "foreign (py_float j)"
  by (cases j) (simp_all add: foreign_raise foreign_float_of_int foreign_float_of_text)

lemma foreign_row_item: "foreign (row_item r k)"
  by (simp add: row_item_def foreign_def raise_def split: option.splits)

lemma api_error_authenticate:
  assumes "\<forall>s. foreign (tx_loads (sv_codec rt) s)"
  shows "api_error (authenticate rt config authorization w)"
  unfolding authenticate_def check_expiry_def check_roles_def
  by (auto simp: api_error_simps intro!: api_error_bindR api_error_b64url api_error_token_json foreign_api_error [OF foreign_py_float]
      assms [rule_format] split: list.splits)

lemma api_error_read_gold:
  assumes "serving_contract rt api"
  shows "api_error (read_gold_table api config name w)"
proof -
  have "api_error (api_read_all api t)" for t using assms by (simp add: serving_contract_def foreign_api_error)
  then show ?thesis by (auto simp: read_gold_table_def api_error_simps split: sum.splits)
qed

lemma api_error_members: "(\<And>k v. (k, v) \<in> set ms \<Longrightarrow> foreign v) \<Longrightarrow> api_error (members ms)"
  unfolding members_def by (intro api_error_mapR) (clarsimp, intro foreign_api_error foreign_bindR foreign_Inr, blast)

lemma foreign_served_cell: "foreign (served_cell r k)"
  by (auto simp: served_cell_def foreign_raise intro!: foreign_bindR foreign_row_item split: cell.splits)

lemma foreign_require: "(\<forall>n. c \<noteq> StatsApiError n) \<Longrightarrow> foreign (require_some x c m)"
  by (cases x) (simp_all add: require_some_def foreign_raise)

lemma foreign_served_instant: "foreign (served_instant r k)"
  by (auto simp: served_instant_def intro!: foreign_bindR foreign_row_item foreign_require)

lemma foreign_served_versions: "\<forall>s. foreign (tx_loads tx s) \<Longrightarrow> foreign (served_versions tx r)"
  by (auto simp: served_versions_def foreign_raise intro!: foreign_bindR foreign_row_item split: cell.splits)

lemmas foreign_served = foreign_served_cell foreign_served_instant foreign_served_versions

lemma api_error_list_runs:
  assumes "serving_contract rt api"
  shows "api_error (list_runs rt api config w)"
proof -
  have tx: "\<forall>s. foreign (tx_loads (sv_codec rt) s)" using assms by (simp add: serving_contract_def)
  have m: "api_error (run_manifest (sv_codec rt) r)" for r
    unfolding run_manifest_def by (rule api_error_members) (auto simp: foreign_served tx)
  have o1: "api_error (run_order r)" for r
    by (auto simp: run_order_def foreign_raise intro!: foreign_api_error foreign_bindR foreign_row_item split: cell.splits)
  show ?thesis unfolding list_runs_def
    by (intro api_error_bindR api_error_read_gold [OF assms] api_error_mapR m o1 api_error_Inr)
qed

lemma api_error_query_filters: "api_error (query_filters query)"
proof -
  have "api_error (filter_step query fs k)" for fs k
    by (auto simp: filter_step_def api_error_simps split: option.splits list.splits)
  then have "api_error (foldR (filter_step query) fs ks)" for fs ks by (intro api_error_foldR)
  moreover have "api_error (guard b (StatsApiError 400) m)" for b m by (simp add: api_error_simps)
  ultimately show ?thesis unfolding query_filters_def by (intro api_error_bindR api_error_Inr)
qed

lemma api_error_row_matches: "api_error (row_matches fs r)"
  by (induction fs r rule: row_matches.induct) (auto intro!: api_error_bindR foreign_api_error [OF foreign_row_item])

lemma api_error_query_values:
  assumes "serving_contract rt api"
  shows "api_error (query_values rt api config query w)"
proof -
  have tx: "\<forall>s. foreign (tx_loads (sv_codec rt) s)" using assms by (simp add: serving_contract_def)
  have item: "api_error (value_item (sv_codec rt) m r)" for m r
    unfolding value_item_def by (rule api_error_members) (auto simp: foreign_served tx)
  have ord: "api_error (value_order ps r)" for ps r
    by (auto simp: value_order_def api_error_simps split: cell.splits)
  have req: "api_error (require_some x (StatsApiError 503) m)" for x :: "row option" and m by (simp add: api_error_simps)
  have serve: "api_error (serve_value rt runs r)" for runs r
    unfolding serve_value_def by (intro api_error_bindR foreign_api_error [OF foreign_row_item] req item ord api_error_Inr)
  have step: "api_error (value_step rt fs runs items r)" for fs runs items r
    unfolding value_step_def by (auto intro!: api_error_bindR api_error_row_matches serve)
  have entry: "api_error (run_entry runs r)" for runs r
    unfolding run_entry_def by (intro api_error_bindR foreign_api_error [OF foreign_row_item] api_error_Inr)
  show ?thesis unfolding query_values_def
    by (intro api_error_bindR api_error_query_filters api_error_read_gold [OF assms] api_error_foldR step entry api_error_Inr)
qed

lemma foreign_urlsplit: "foreign (urlsplit u)"
  by (auto simp: urlsplit_def Let_def intro!: foreign_bindR foreign_guard split: prod.splits)

lemma foreign_require_scope: "foreign (require_scope_table_uri scope uri)"
  by (auto simp: require_scope_table_uri_def scopes_declared_by_uri_def Let_def foreign_raise
      intro!: foreign_bindR foreign_guard foreign_urlsplit split: prod.splits)

lemma api_error_get_report:
  assumes "serving_contract rt api"
  shows "api_error (get_report rt config run_id query w)"
proof -
  have f: "foreign (sv_is_file rt p w)" "foreign (sv_is_symlink rt p w)" "foreign (sv_read_text rt p w)" for p
    using assms by (simp_all add: serving_contract_def)
  have dir: "api_error (config_reports_dir config)"
    by (auto simp: config_reports_dir_def Let_def intro!: foreign_api_error foreign_bindR foreign_require_scope)
  have refused: "api_error (guard b (StatsApiError 404) m)" for b m by (simp add: api_error_simps)
  have chain: "api_error (bindR (sv_is_file rt p w) (\<lambda>is_file. bindR (if is_file then sv_is_symlink rt p w else Inr True) (\<lambda>refused.
      bindR (guard (\<not> refused) (StatsApiError 404) ''no report artefact for run_id'') (\<lambda>_. sv_read_text rt p w))))" for p
    by (intro api_error_bindR refused foreign_api_error [OF f(1)] foreign_api_error [OF f(3)]) (auto intro: foreign_api_error [OF f(2)])
  have read: "api_error (read_report rt p w)" for p
    using chain [of p] unfolding read_report_def by (auto simp: api_error_simps split: sum.split)
  have fmt: "api_error (report_format query)"
    by (auto simp: report_format_def api_error_simps intro!: api_error_bindR split: list.splits)
  have run: "api_error (guard (RUN_ID_PATTERN run_id) (StatsApiError 400) m)" for m by (simp add: api_error_simps)
  show ?thesis unfolding get_report_def report_path_def by (intro api_error_bindR run fmt dir read api_error_Inr)
qed

lemma api_error_handle_get:
  assumes "serving_contract rt api"
  shows "api_error (handle_get rt api config rq w)"
proof -
  have tx: "\<forall>s. foreign (tx_loads (sv_codec rt) s)" using assms by (simp add: serving_contract_def)
  have lost: "api_error (raise (StatsApiError 404) m)" for m by (simp add: api_error_simps)
  show ?thesis unfolding handle_get_def Let_def
    by (auto intro!: api_error_bindR foreign_api_error [OF foreign_urlsplit] api_error_authenticate [OF tx] api_error_list_runs [OF assms]
        api_error_query_values [OF assms] api_error_get_report [OF assms] lost)
qed

lemma error_response_status:
  assumes "api_error (Inl e)"
  shows "rs_status (error_response tx e) \<in> set ERROR_STATUSES"
  using assms by (auto simp: api_error_def error_response_def json_response_def ERROR_STATUSES_def split: exc_class.splits)

lemma handle_get_status: "handle_get rt api config rq w = Inr r \<Longrightarrow> rs_status r = 200"
  by (auto simp: handle_get_def Let_def bindR_Inr_iff json_response_def raise_def split: if_splits prod.splits)

lemma route_label_total: "urlsplit target = Inr parts \<Longrightarrow> \<exists>label. route_label target = Inr label"
  by (simp add: route_label_def)

text \<open>What is sent for a request, when sending succeeds.\<close>

definition answer :: "'w serving_runtime \<Rightarrow> ('w, 't) delta_api \<Rightarrow> stats_config \<Rightarrow> request \<Rightarrow> 'w \<Rightarrow> response" where
  "answer rt api config rq w =
     (case handle_get rt api config rq w of Inr r \<Rightarrow> r | Inl e \<Rightarrow> error_response (sv_codec rt) e)"

lemma do_GET_answer:
  assumes "\<forall>r v. fst (sv_send rt r v) = Inr ()" "urlsplit (rq_target rq) = Inr parts"
  shows "do_GET rt api config rq w = sv_send rt (answer rt api config rq w) w"
proof -
  obtain label where l: "route_label (rq_target rq) = Inr label" using route_label_total [OF assms(2)] by blast
  show ?thesis
  proof (cases "handle_get rt api config rq w")
    case (Inl e)
    with l show ?thesis by (simp add: do_GET_def answer_def bindA_def pureA_def)
  next
    case (Inr r)
    obtain w' where "sv_send rt r w = (Inr (), w')" using assms(1) by (cases "sv_send rt r w") (metis fst_conv)
    with l Inr show ?thesis by (simp add: do_GET_def answer_def bindA_def pureA_def)
  qed
qed

text \<open>
  Claim C9. Every request is answered: when its target parses and the connection takes what is written, exactly one response is sent; its
  status is 200 or one of five error statuses, and 200 is sent only for what the handler returned.
\<close>

theorem requests_answered:
  assumes "serving_contract rt api" "\<forall>r v. fst (sv_send rt r v) = Inr ()" "urlsplit (rq_target rq) = Inr parts"
  shows "\<exists>r. do_GET rt api config rq w = sv_send rt r w \<and> rs_status r \<in> set (200 # ERROR_STATUSES) \<and>
    (rs_status r = 200 \<longleftrightarrow> handle_get rt api config rq w = Inr r)"
proof (cases "handle_get rt api config rq w")
  case (Inl e)
  with api_error_handle_get [OF assms(1), of config rq w] have "rs_status (error_response (sv_codec rt) e) \<in> set ERROR_STATUSES"
    by (simp add: error_response_status)
  moreover have "answer rt api config rq w = error_response (sv_codec rt) e" using Inl by (simp add: answer_def)
  ultimately show ?thesis using Inl do_GET_answer [OF assms(2,3), of api config w] by (auto simp: ERROR_STATUSES_def)
next
  case (Inr r)
  with handle_get_status [OF this] do_GET_answer [OF assms(2,3), of api config w] show ?thesis
    by (auto simp: answer_def)
qed

text \<open>
  Claim C8. Without a token of the gateway a request learns nothing: for every path but the liveness route it is answered with an error
  status, and the answer is the same whatever the gold tables and the report files contain.
\<close>

theorem unauthorised_refused:
  assumes "serving_contract rt api" "\<forall>r v. fst (sv_send rt r v) = Inr ()" "urlsplit (rq_target rq) = Inr parts"
    and "request_path parts \<noteq> ROUTE_HEALTH" "\<not> authorised rt config (rq_authorization rq) w"
  shows "\<exists>r. rs_status r \<in> set ERROR_STATUSES \<and>
    (\<forall>api' is_file read. do_GET (rt\<lparr>sv_is_file := is_file, sv_read_text := read\<rparr>) api' config rq w = sv_send rt r w)"
proof -
  have na: "authenticate rt config (rq_authorization rq) w \<noteq> Inr ()"
    unfolding authenticated_authorised by (rule assms(5))
  then obtain e where e: "authenticate rt config (rq_authorization rq) w = Inl e"
    by (cases "authenticate rt config (rq_authorization rq) w") auto
  have tx: "\<forall>s. foreign (tx_loads (sv_codec rt) s)" using assms(1) by (simp add: serving_contract_def)
  from api_error_authenticate [OF tx, of config "rq_authorization rq" w] e
  have s: "rs_status (error_response (sv_codec rt) e) \<in> set ERROR_STATUSES" by (simp add: error_response_status)
  have "do_GET (rt\<lparr>sv_is_file := is_file, sv_read_text := read\<rparr>) api' config rq w = sv_send rt (error_response (sv_codec rt) e) w"
    for api' is_file read
  proof -
    let ?rt = "rt\<lparr>sv_is_file := is_file, sv_read_text := read\<rparr>"
    have v: "verify_parts ?rt config w h p s = verify_parts rt config w h p s" for h p s
      by (simp add: verify_parts_def)
    have "authenticate ?rt config (rq_authorization rq) w = authenticate rt config (rq_authorization rq) w"
      by (simp add: authenticate_parts v cong: list.case_cong)
    then have "authenticate ?rt config (rq_authorization rq) w = Inl e" using e by simp
    then have "handle_get ?rt api' config rq w = Inl e" using assms(3,4) by (simp add: handle_get_def Let_def)
    moreover have "do_GET ?rt api' config rq w = sv_send ?rt (answer ?rt api' config rq w) w"
      using assms(2,3) by (intro do_GET_answer) simp_all
    ultimately show ?thesis by (simp add: answer_def)
  qed
  with s show ?thesis by (intro exI [of _ "error_response (sv_codec rt) e"] conjI allI)
qed

text \<open>
  The targets that do not parse are those whose netloc has one kind of bracket only.
\<close>

lemma urlsplit_refused:
  assumes "urlsplit u = Inl e"
  shows "e = Exn ValueError ''Invalid IPv6 URL''"
    and "let net = fst (url_split_netloc (snd (url_split_scheme (url_clean u)))) in (CHR ''['' \<in> set net) \<noteq> (CHR '']'' \<in> set net)"
  using assms by (auto simp: urlsplit_def Let_def guard_def split: prod.splits if_splits)

text \<open>
  No request whose target does not parse is answered, whatever the target, the store and the authorisation: the label of its
  span is computed before the handler's error handling, so the ValueError leaves the handler with nothing written to the connection.
  Such a target has a netloc with an opening bracket and no closing one, or a closing one and no opening one.
\<close>

lemma malformed_target_unanswered:
  assumes "urlsplit (rq_target rq) = Inl e"
  shows "do_GET rt api config rq w = (Inl e, w) \<and> exn_class e = ValueError \<and>
    (let net = fst (url_split_netloc (snd (url_split_scheme (url_clean (rq_target rq)))))
     in (CHR ''['' \<in> set net) \<noteq> (CHR '']'' \<in> set net))"
  using urlsplit_refused [OF assms] assms by (simp add: do_GET_def route_label_def)

text \<open>Such a target: \<open>http://[\<close>.\<close>

lemma open_bracket_unanswered:
  "do_GET rt api config \<lparr>rq_target = ''http://['', rq_authorization = a\<rparr> w = (Inl (Exn ValueError ''Invalid IPv6 URL''), w)"
proof -
  have "urlsplit ''http://['' = Inl (Exn ValueError ''Invalid IPv6 URL'')" by code_simp
  then show ?thesis by (intro conjunct1 [OF malformed_target_unanswered]) simp
qed

section \<open>Values and runs\<close>

text \<open>The rows a query asks for.\<close>

definition asked :: "(string \<times> string) list \<Rightarrow> row \<Rightarrow> bool" where
  "asked filters r \<longleftrightarrow> (\<forall>f\<in>set filters. row_get r (fst f) = CText (snd f))"

lemma row_matches_asked: "row_matches filters r = Inr b \<Longrightarrow> b = asked filters r"
  by (induction filters r arbitrary: b rule: row_matches.induct)
    (auto simp: asked_def bindR_Inr_iff row_get_def split: if_splits)

lemma served_rows:
  assumes "foldR (value_step rt filters runs) items rows = Inr items'"
  shows "\<exists>new. mapR (serve_value rt runs) (filter (asked filters) rows) = Inr new \<and> items' = items @ new"
  using assms
proof (induction rows arbitrary: items)
  case (Cons r rows)
  from Cons.prems obtain i1 where a: "value_step rt filters runs items r = Inr i1" and f: "foldR (value_step rt filters runs) i1 rows = Inr items'"
    by (auto simp: bindR_Inr_iff)
  from Cons.IH [OF f] obtain new where n: "mapR (serve_value rt runs) (filter (asked filters) rows) = Inr new" "items' = i1 @ new" by blast
  from a obtain m where m: "row_matches filters r = Inr m"
    and s: "(if \<not> m then Inr items else bindR (serve_value rt runs r) (\<lambda>x. Inr (items @ [x]))) = Inr i1"
    by (auto simp: value_step_def bindR_Inr_iff)
  show ?case
  proof (cases m)
    case True
    with s obtain x where x: "serve_value rt runs r = Inr x" "i1 = items @ [x]" by (auto simp: bindR_Inr_iff)
    have "asked filters r" using row_matches_asked [OF m] True by simp
    then have "mapR (serve_value rt runs) (filter (asked filters) (r # rows)) = Inr (x # new)" using x(1) n(1) by simp
    moreover have "items' = items @ x # new" using n(2) x(2) by simp
    ultimately show ?thesis by blast
  next
    case False
    have "\<not> asked filters r" using row_matches_asked [OF m] False by simp
    with False s n show ?thesis by auto
  qed
qed simp

text \<open>Rows that are mapped and then sorted by the keys they were given are the sorted rows, mapped.\<close>

lemma sorted_served:
  assumes "mapR f rows = Inr xs"
  shows "\<exists>rows'. mset rows' = mset rows \<and> mapR f rows' = Inr (sort_key fst xs)"
proof -
  from assms have l: "list_all2 (\<lambda>r x. f r = Inr x) rows xs" by (simp add: mapR_Inr_iff)
  then have len: "length rows = length xs" by (rule list_all2_lengthD)
  let ?z = "sort_key (\<lambda>p. fst (snd p)) (zip rows xs)"
  have x: "map snd ?z = sort_key fst xs"
    using sort_key_map [of fst snd "zip rows xs"] len by (simp add: map_snd_zip)
  have z: "set ?z = set (zip rows xs)" by simp
  have "mset (map fst ?z) = mset rows" 
  proof -
    have "mset (map fst ?z) = mset (map fst (zip rows xs))" by (simp only: mset_map mset_sort)
    then show ?thesis using len by (simp add: map_fst_zip)
  qed
  moreover have "list_all2 (\<lambda>r x. f r = Inr x) (map fst ?z) (map snd ?z)"
  proof -
    have "\<forall>p\<in>set ?z. f (fst p) = Inr (snd p)" using l by (auto simp: list_all2_iff)
    then show ?thesis by (simp add: list_all2_map1 list_all2_map2 list_all2_same)
  qed
  ultimately show ?thesis unfolding x mapR_Inr_iff by blast
qed

lemma run_entries:
  assumes "foldR run_entry runs rows = Inr runs'"
  shows "\<forall>i m. map_of runs' i = Some m \<longrightarrow> map_of runs i = Some m \<or> (m \<in> set rows \<and> row_get m ''run_id'' = i)"
  using assms
proof (induction rows arbitrary: runs)
  case (Cons r rows)
  from Cons.prems obtain r1 where e: "run_entry runs r = Inr r1" and f1: "foldR run_entry r1 rows = Inr runs'"
    by (auto simp: bindR_Inr_iff)
  from e obtain i where "map_of r ''run_id'' = Some i" "r1 = AList.update i r runs" by (auto simp: run_entry_def bindR_Inr_iff)
  with f1 have f: "foldR run_entry (AList.update i r runs) rows = Inr runs'" and "map_of r ''run_id'' = Some i" by simp_all
  then have "row_get r ''run_id'' = i" by (simp add: row_get_def)
  with Cons.IH [OF f] show ?case by (auto simp: update_conv' split: if_splits)
qed simp

lemma filters_of_query:
  assumes "query_filters query = Inr filters"
  shows "\<forall>k v. (k, v) \<in> set filters \<longleftrightarrow> k \<in> set VALUE_PARAMETERS \<and> map_of query k = Some [v]"
proof -
  have step: "filter_step query fs k = Inr fs' \<Longrightarrow> (\<exists>vs. fs' = fs @ vs \<and> set vs = {(k', v). k' = k \<and> map_of query k = Some [v]})" for fs fs' k
    by (auto simp: filter_step_def raise_def split: option.splits list.splits)
  have "foldR (filter_step query) fs ks = Inr fs' \<Longrightarrow> set fs' = set fs \<union> {(k, v). k \<in> set ks \<and> map_of query k = Some [v]}" for fs fs' ks
  proof (induction ks arbitrary: fs)
    case (Cons k ks)
    from Cons.prems obtain f1 where a: "filter_step query fs k = Inr f1" and f: "foldR (filter_step query) f1 ks = Inr fs'"
      by (auto simp: bindR_Inr_iff)
    from step [OF a] Cons.IH [OF f] show ?case by auto
  qed auto
  moreover from assms have "foldR (filter_step query) [] VALUE_PARAMETERS = Inr filters" by (auto simp: query_filters_def bindR_Inr_iff)
  ultimately have "set filters = set [] \<union> {(k, v). k \<in> set VALUE_PARAMETERS \<and> map_of query k = Some [v]}" by blast
  then show ?thesis by auto
qed

text \<open>
  Claim C11. The values route serves gold rows, not aggregates: the served items are exactly the rows of the values table that carry every
  requested parameter, each once, projected with the pinned source versions of a run row that bears its run identifier.
\<close>

theorem values_exact:
  assumes "query_values rt api config query w = Inr document"
  shows "\<exists>filters run_rows value_rows rows items.
    (\<forall>k v. (k, v) \<in> set filters \<longleftrightarrow> k \<in> set VALUE_PARAMETERS \<and> map_of query k = Some [v]) \<and>
    read_gold_table api config RUNS_TABLE_NAME w = Inr run_rows \<and> read_gold_table api config VALUES_TABLE_NAME w = Inr value_rows \<and>
    mset rows = mset (filter (asked filters) value_rows) \<and> document = [(''values'', JList (map JObj items))] \<and>
    list_all2 (\<lambda>r item. \<exists>m\<in>set run_rows. row_get m ''run_id'' = row_get r ''run_id'' \<and> value_item (sv_codec rt) m r = Inr item) rows items"
proof -
  from assms obtain filters run_rows runs value_rows items where q: "query_filters query = Inr filters"
    "read_gold_table api config RUNS_TABLE_NAME w = Inr run_rows" "foldR run_entry [] run_rows = Inr runs"
    "read_gold_table api config VALUES_TABLE_NAME w = Inr value_rows" "foldR (value_step rt filters runs) [] value_rows = Inr items"
    and d: "document = [(''values'', JList (map (JObj \<circ> snd) (sort_key fst items)))]"
    by (auto simp: query_values_def bindR_Inr_iff)
  from served_rows [OF q(5)] have "mapR (serve_value rt runs) (filter (asked filters) value_rows) = Inr items" by simp
  from sorted_served [OF this] obtain rows where rows: "mset rows = mset (filter (asked filters) value_rows)"
    "mapR (serve_value rt runs) rows = Inr (sort_key fst items)" by blast
  have s: "\<exists>m\<in>set run_rows. row_get m ''run_id'' = row_get r ''run_id'' \<and> value_item (sv_codec rt) m r = Inr (snd x)"
    if sx: "serve_value rt runs r = Inr x" for r x
  proof -
    from sx obtain i m where m: "map_of r ''run_id'' = Some i" "map_of runs i = Some m" "value_item (sv_codec rt) m r = Inr (snd x)"
      by (auto simp: serve_value_def bindR_Inr_iff)
    from run_entries [OF q(3)] m(2) have "m \<in> set run_rows" "row_get m ''run_id'' = i" by auto
    with m(1,3) show ?thesis by (auto simp: row_get_def)
  qed
  have "list_all2 (\<lambda>r item. \<exists>m\<in>set run_rows. row_get m ''run_id'' = row_get r ''run_id'' \<and> value_item (sv_codec rt) m r = Inr item)
      rows (map snd (sort_key fst items))"
    using rows(2) s by (auto simp: mapR_Inr_iff list_all2_map2 elim!: list_all2_mono)
  moreover have "document = [(''values'', JList (map JObj (map snd (sort_key fst items))))]" using d by simp
  ultimately show ?thesis using filters_of_query [OF q(1)] q(2,4) rows(1)
    by (intro exI [of _ filters] exI [of _ run_rows] exI [of _ value_rows] exI [of _ rows]
        exI [of _ "map snd (sort_key fst items)"] conjI)
qed

lemma runs_listed:
  assumes "list_runs rt api config w = Inr document"
  shows "\<exists>run_rows rows manifests. read_gold_table api config RUNS_TABLE_NAME w = Inr run_rows \<and> mset rows = mset run_rows \<and>
    sorted_wrt (\<lambda>a b. \<exists>x y. run_order a = Inr x \<and> run_order b = Inr y \<and> y \<le> x) rows \<and>
    document = [(''runs'', JList (map JObj manifests))] \<and> list_all2 (\<lambda>r m. run_manifest (sv_codec rt) r = Inr m) rows manifests"
proof -
  from assms obtain run_rows keyed manifests where r: "read_gold_table api config RUNS_TABLE_NAME w = Inr run_rows"
    "mapR (\<lambda>r. bindR (run_order r) (\<lambda>k. Inr (k, r))) run_rows = Inr keyed"
    "mapR (run_manifest (sv_codec rt)) (latest_first keyed) = Inr manifests" "document = [(''runs'', JList (map JObj manifests))]"
    unfolding list_runs_def bindR_Inr_iff by blast
  from r(2) have k: "list_all2 (\<lambda>r p. snd p = r \<and> run_order r = Inr (fst p)) run_rows keyed"
    by (auto simp: mapR_Inr_iff bindR_Inr_iff elim!: list_all2_mono)
  then have run_rows: "run_rows = map snd keyed" and order: "\<forall>p\<in>set keyed. run_order (snd p) = Inr (fst p)"
    by (induction rule: list_all2_induct) auto
  let ?z = "rev (sort_key fst (rev keyed))"
  have "mset (map snd ?z) = mset (map snd keyed)" by (simp only: mset_map mset_sort mset_rev)
  moreover have "sorted_wrt (\<lambda>a b. \<exists>x y. run_order a = Inr x \<and> run_order b = Inr y \<and> y \<le> x) (map snd ?z)"
  proof -
    have "sorted (map fst (sort_key fst (rev keyed)))" by simp
    then have "sorted_wrt (\<lambda>p q. fst q \<le> fst p) ?z" by (simp add: sorted_wrt_rev sorted_wrt_map)
    moreover have "run_order (snd p) = Inr (fst p)" if "p \<in> set ?z" for p using order that by simp
    then have "\<exists>x y. run_order (snd p) = Inr x \<and> run_order (snd q) = Inr y \<and> y \<le> x"
      if "p \<in> set ?z" "q \<in> set ?z" "fst q \<le> fst p" for p q
      using that by (intro exI [of _ "fst p"] exI [of _ "fst q"] conjI)
    ultimately show ?thesis unfolding sorted_wrt_map by (rule sorted_wrt_mono_rel [rotated])
  qed
  ultimately show ?thesis using r run_rows unfolding latest_first_def mapR_Inr_iff
    by (intro exI [of _ run_rows] exI [of _ "map snd ?z"] exI [of _ manifests] conjI) simp_all
qed

text \<open>
  The runs route lists every published run once, the latest first: the manifests are those of the rows of the runs table, in an
  order that no later pair of instant and run identifier precedes an earlier one.
\<close>

theorem runs_latest_first:
  assumes "list_runs rt api config w = Inr document"
  shows "\<exists>run_rows rows manifests. read_gold_table api config RUNS_TABLE_NAME w = Inr run_rows \<and> mset rows = mset run_rows \<and>
    sorted_wrt (\<lambda>a b. \<exists>x y. run_order a = Inr x \<and> run_order b = Inr y \<and> y \<le> x) rows \<and>
    document = [(''runs'', JList (map JObj manifests))] \<and> list_all2 (\<lambda>r m. run_manifest (sv_codec rt) r = Inr m) rows manifests"
  using assms by (rule runs_listed)

lemma manifest_cells:
  assumes "run_manifest tx r = Inr m" "c \<in> {''run_id'', ''report_sha256''}" "row_get r c = CText s"
  shows "jget m c = JStr s"
proof -
  have item: "row_item r c = Inr (CText s)" using assms(3) by (auto simp: row_get_def split: option.splits)
  have "served_cell r c = Inr (JStr s)" by (simp add: served_cell_def item)
  with assms(1,2) show ?thesis by (auto simp: run_manifest_def members_def bindR_Inr_iff)
qed

text \<open>
  Claim C12. What a run publishes is served: after a successful run of the port statistics, a service over the same gold root that answers the
  runs route lists the run under its identifier with the digest of its report.
\<close>

theorem published_run_listed:
  assumes "stats_contract st api content fmt" "\<forall>t. api_read_all api t = Inr (content t)"
    and "run_port_statistics st api open_at writer period signing_key kid computed_at w = (Inr r, w')"
    and "config_table_uri config RUNS_TABLE_NAME = gold_named writer RUNS_TABLE_NAME"
    and "list_runs rt api config w' = Inr document"
  shows "\<exists>manifests. document = [(''runs'', JList (map JObj manifests))] \<and>
    (\<exists>m\<in>set manifests. jget m ''run_id'' = JStr (rr_run_id r) \<and> jget m ''report_sha256'' = JStr (rr_report_sha256 r))"
proof -
  from run_retains_rows [OF assms(1,3)] obtain runs_uri run where u: "gold_named writer RUNS_TABLE_NAME = Inr runs_uri"
    and run: "row_get run ''run_id'' = CText (rr_run_id r)" "row_get run ''report_sha256'' = CText (rr_report_sha256 r)"
    and ret: "row_retained api content fmt runs_uri ''run_id'' run w'" by blast
  from ret obtain t y where t: "api_open api runs_uri w' = Inr t" "y \<in> set (content t)"
    and same: "list_all (\<lambda>c. same_value (row_get y c) (row_get run c)) (identity_columns run)"
    unfolding row_retained_def by blast
  have "read_gold_table api config RUNS_TABLE_NAME w' = Inr (content t)"
    using assms(2,4) u t(1) by (simp add: read_gold_table_def)
  with runs_listed [OF assms(5)] obtain rows manifests where m: "mset rows = mset (content t)"
    "document = [(''runs'', JList (map JObj manifests))]" "list_all2 (\<lambda>r m. run_manifest (sv_codec rt) r = Inr m) rows manifests"
    by auto
  have "y \<in> set rows" using m(1) t(2) by (metis set_mset_mset)
  then obtain mf where mf: "mf \<in> set manifests" "run_manifest (sv_codec rt) y = Inr mf"
    using list_all2_in_right [OF m(3)] by blast
  have col: "row_get y c = CText s" if "c \<in> {''run_id'', ''report_sha256''}" "row_get run c = CText s" for c s
  proof -
    have "c \<in> set (identity_columns run)"
      using that row_get_in_keys [of run c] by (auto simp: identity_columns_def REPLAY_GUARD_EXCLUDED_COLUMNS_def)
    with same that(2) show ?thesis by (auto simp: list_all_iff same_value_def)
  qed
  have "jget mf ''run_id'' = JStr (rr_run_id r)" "jget mf ''report_sha256'' = JStr (rr_report_sha256 r)"
    using manifest_cells [OF mf(2)] col run by simp_all
  with m(2) mf(1) show ?thesis by blast
qed

section \<open>Witnesses\<close>

text \<open>
  A service whose world is a table store and the responses sent; the token \<open>QQ.Qg.Qw\<close> has the three one-byte parts A, B and C, and the
  HMAC of every message is C.
\<close>

type_synonym web_world = "mem_store \<times> response list"

definition web_codec :: text_codec where
  "web_codec =
     \<lparr>tx_decode = Some,
      tx_loads = (\<lambda>s. if s = ''A'' then Inr (JObj [(''alg'', JStr ''HS256'')])
                      else if s = ''B'' then Inr (JObj [(''roles'', JList [JStr ''stats-reader''])]) else Inr (JObj [])),
      tx_json_error = (\<lambda>e. True), tx_repr = (\<lambda>q. [])\<rparr>"

definition web_runtime :: "web_world serving_runtime" where
  "web_runtime =
     \<lparr>sv_codec = web_codec, sv_hmac = (\<lambda>k m. ''C''), sv_now = (\<lambda>w. 0), sv_unquote = id, sv_str = py_str (\<lambda>c. []),
      sv_is_file = (\<lambda>p w. Inr False), sv_is_symlink = (\<lambda>p w. Inr False), sv_read_text = (\<lambda>p w. raise OSError []),
      sv_send = (\<lambda>r w. (Inr (), (fst w, snd w @ [r])))\<rparr>"

definition web_delta :: "(web_world, int \<times> row list) delta_api" where
  "web_delta =
     \<lparr>api_open = (\<lambda>uri w. api_open mem_delta uri (fst w)), api_from_pylist = api_from_pylist mem_delta,
      api_create = (\<lambda>uri rows n d w. (raise OtherError [], w)), api_config = api_config mem_delta, api_version = api_version mem_delta,
      api_read = api_read mem_delta, api_read_all = api_read_all mem_delta,
      api_merge = (\<lambda>uri t rows k w. (raise OtherError [], w)), api_overwrite = (\<lambda>uri rows n d w. (raise OtherError [], w)),
      api_delete = (\<lambda>uri t p w. (raise OtherError [], w)), api_set_property = (\<lambda>uri t k v w. (raise OtherError [], w))\<rparr>"

definition web_config :: stats_config where
  "web_config = \<lparr>cf_table_root = ''s3://b/platform_gold'', cf_port = 80, cf_token_secret = ''s''\<rparr>"

definition web_token :: "string option" where "web_token = Some ''Bearer QQ.Qg.Qw''"

lemma web_config_made: "new_stats_config ''s3://b/platform_gold/'' 80 ''s'' = Inr web_config"
  by code_simp

lemma web_contract: "serving_contract web_runtime web_delta" "\<forall>r v. fst (sv_send web_runtime r v) = Inr ()"
  by (auto simp: serving_contract_def web_runtime_def web_delta_def web_codec_def mem_delta_def foreign_raise)

lemma web_authorised: "authorised web_runtime web_config web_token w"
proof -
  have d: "b64url_decode ''QQ'' = Inr ''A''" "b64url_decode ''Qg'' = Inr ''B''" "b64url_decode ''Qw'' = Inr ''C''" by code_simp+
  show ?thesis unfolding authorised_def
    by (rule exI [of _ "''QQ''"], rule exI [of _ "''Qg''"], rule exI [of _ "''Qw''"], rule exI [of _ "''A''"], rule exI [of _ "''B''"],
        rule exI [of _ "[(''alg'', JStr ''HS256'')]"], rule exI [of _ "[(''roles'', JList [JStr ''stats-reader''])]"],
        rule exI [of _ "[JStr ''stats-reader'']"])
      (simp add: d web_runtime_def web_codec_def web_token_def token_json_def require_some_def jget_def REQUIRED_ROLE_def)
qed

lemma web_targets:
  "\<exists>p. urlsplit ''/v1/stats/kpis'' = Inr p \<and> request_path p = ''/v1/stats/kpis''"
proof -
  have "case urlsplit ''/v1/stats/kpis'' of Inl e \<Rightarrow> False | Inr p \<Rightarrow> request_path p = ''/v1/stats/kpis''" by code_simp
  then show ?thesis by (auto split: sum.splits)
qed

lemma requests_answered_witness:
  "\<exists>r. do_GET web_runtime web_delta web_config \<lparr>rq_target = ''/v1/stats/kpis'', rq_authorization = web_token\<rparr> ([], []) =
     (Inr (), ([], [r])) \<and> rs_status r = 200"
proof -
  obtain p where p: "urlsplit ''/v1/stats/kpis'' = Inr p" "request_path p = ''/v1/stats/kpis''" using web_targets by blast
  let ?rq = "\<lparr>rq_target = ''/v1/stats/kpis'', rq_authorization = web_token\<rparr>"
  have a: "authenticate web_runtime web_config web_token w = Inr ()" for w
    unfolding authenticated_authorised by (rule web_authorised)
  have h: "\<exists>r. handle_get web_runtime web_delta web_config ?rq ([], []) = Inr r"
    using p a by (simp add: handle_get_def Let_def ROUTE_HEALTH_def ROUTE_KPIS_def)
  from requests_answered [OF web_contract, of ?rq p web_config "([], [])"] p(1)
  obtain r where r: "do_GET web_runtime web_delta web_config ?rq ([], []) = sv_send web_runtime r ([], [])"
    "rs_status r \<in> set (200 # ERROR_STATUSES)" "rs_status r = 200 \<longleftrightarrow> handle_get web_runtime web_delta web_config ?rq ([], []) = Inr r" by auto
  have sent: "sv_send web_runtime x ([], []) = (Inr (), ([], [x]))" for x by (simp add: web_runtime_def)
  from h obtain r' where r': "handle_get web_runtime web_delta web_config ?rq ([], []) = Inr r'" by blast
  have "do_GET web_runtime web_delta web_config ?rq ([], []) = sv_send web_runtime (answer web_runtime web_delta web_config ?rq ([], [])) ([], [])"
    using p(1) by (intro do_GET_answer [OF web_contract(2)]) simp
  with r(1) r' have "r = r'" by (simp add: sent answer_def)
  with r r' sent show ?thesis by simp
qed

lemma unauthorised_refused_witness:
  "\<exists>r. rs_status r \<in> set ERROR_STATUSES \<and>
     do_GET web_runtime web_delta web_config \<lparr>rq_target = ''/v1/stats/kpis'', rq_authorization = None\<rparr> ([], []) = (Inr (), ([], [r]))"
proof -
  obtain p where p: "urlsplit ''/v1/stats/kpis'' = Inr p" "request_path p = ''/v1/stats/kpis''" using web_targets by blast
  let ?rq = "\<lparr>rq_target = ''/v1/stats/kpis'', rq_authorization = None\<rparr>"
  have "\<not> authorised web_runtime web_config None ([], [])" by (simp add: authorised_def)
  with unauthorised_refused [OF web_contract, of ?rq p web_config "([], [])"] p
  obtain r where r: "rs_status r \<in> set ERROR_STATUSES"
    "\<forall>(api' :: (web_world, int \<times> row list) delta_api) is_file read.
       do_GET (web_runtime\<lparr>sv_is_file := is_file, sv_read_text := read\<rparr>) api' web_config ?rq ([], []) = sv_send web_runtime r ([], [])"
    by (auto simp: ROUTE_HEALTH_def)
  have "web_runtime\<lparr>sv_is_file := sv_is_file web_runtime, sv_read_text := sv_read_text web_runtime\<rparr> = web_runtime" by simp
  with r(2) have "do_GET web_runtime web_delta web_config ?rq ([], []) = sv_send web_runtime r ([], [])" by metis
  with r(1) show ?thesis by (intro exI [of _ r]) (simp add: web_runtime_def)
qed

definition web_run :: "string \<Rightarrow> int \<Rightarrow> row" where
  "web_run i t = run_row i t ''2026-09'' 0 1 ''{}'' ''q'' [] ''h''"

definition web_value :: value_row where
  "web_value =
     \<lparr>vr_run = ''b'', vr_kpi = ''vessel_calls'', vr_period = ''2026-09'', vr_port = Some ''NGAPP'', vr_class = None, vr_value = None,
      vr_unit = ''calls'', vr_n = 0, vr_pct = None, vr_note = None, vr_definition = ''1.0.0'', vr_source = ''s'', vr_version = 1,
      vr_hash = ''q'', vr_at = 7\<rparr>"

definition web_store :: web_world where
  "web_store =
     ([(''s3://b/platform_gold/port_kpi_runs'', (0, [web_run ''a'' 3, web_run ''b'' 7])),
       (''s3://b/platform_gold/port_kpi_values'', (0, [value_cells id web_value, value_cells id (web_value\<lparr>vr_port := None\<rparr>)]))], [])"

lemma web_uris:
  "config_table_uri web_config RUNS_TABLE_NAME = Inr ''s3://b/platform_gold/port_kpi_runs''"
  "config_table_uri web_config VALUES_TABLE_NAME = Inr ''s3://b/platform_gold/port_kpi_values''"
  by code_simp+

lemma web_tables:
  "read_gold_table web_delta web_config RUNS_TABLE_NAME web_store = Inr [web_run ''a'' 3, web_run ''b'' 7]"
  "read_gold_table web_delta web_config VALUES_TABLE_NAME web_store = Inr [value_cells id web_value, value_cells id (web_value\<lparr>vr_port := None\<rparr>)]"
  by (simp_all add: read_gold_table_def web_uris web_delta_def mem_delta_def web_store_def require_some_def)

lemma isoformat_served: "row_item r k = Inr (CTime t) \<Longrightarrow> served_instant r k = Inr (JStr (isoformat t))"
  by (simp only: served_instant_def bindR.simps) simp

lemma web_manifest: "\<exists>m. run_manifest web_codec (web_run i t) = Inr m"
  by (simp add: run_manifest_def members_def served_cell_def served_instant_def served_versions_def web_run_def run_row_def row_item_def
      web_codec_def KPI_DEFINITIONS_def)

lemma runs_latest_first_witness:
  "\<exists>a b rows. list_runs web_runtime web_delta web_config web_store = Inr [(''runs'', JList [JObj a, JObj b])] \<and>
     run_manifest web_codec (web_run ''b'' 7) = Inr a \<and> mset rows = mset [web_run ''a'' 3, web_run ''b'' 7] \<and>
     list_all2 (\<lambda>r m. run_manifest web_codec r = Inr m) rows [a, b]"
proof -
  obtain a where a: "run_manifest web_codec (web_run ''b'' 7) = Inr a" using web_manifest by blast
  obtain b where b: "run_manifest web_codec (web_run ''a'' 3) = Inr b" using web_manifest by blast
  have o1: "run_order (web_run i t) = Inr (t, i)" for i t by (simp add: run_order_def web_run_def run_row_def row_item_def)
  have c: "sv_codec web_runtime = web_codec" by (simp add: web_runtime_def)
  have k: "mapR (\<lambda>r. bindR (run_order r) (\<lambda>k. Inr (k, r))) [web_run ''a'' 3, web_run ''b'' 7] =
      Inr [((3, ''a''), web_run ''a'' 3), ((7, ''b''), web_run ''b'' 7)]" by (simp add: o1)
  have lf: "latest_first [((3, ''a''), x), ((7, ''b''), y)] = [y, x]" for x y by (simp add: latest_first_def)
  have l: "list_runs web_runtime web_delta web_config web_store = Inr [(''runs'', JList [JObj a, JObj b])]"
    unfolding list_runs_def web_tables bindR.simps k lf c by (simp add: a b)
  from runs_latest_first [OF l] obtain run_rows rows manifests where r:
    "read_gold_table web_delta web_config RUNS_TABLE_NAME web_store = Inr run_rows" "mset rows = mset run_rows"
    "[(''runs'', JList [JObj a, JObj b])] = [(''runs'', JList (map JObj manifests))]"
    "list_all2 (\<lambda>r m. run_manifest web_codec r = Inr m) rows manifests"
    unfolding c by (elim exE conjE) (rule that)
  from r(3) have "manifests = [a, b]" by (auto simp: map_eq_Cons_conv)
  moreover have "run_rows = [web_run ''a'' 3, web_run ''b'' 7]" using r(1) unfolding web_tables by (rule sum.inject(2) [THEN iffD1, THEN sym])
  ultimately show ?thesis using l a r(2,4) by (intro exI [of _ a] exI [of _ b] exI [of _ rows] conjI) (simp_all only:)
qed

lemma values_exact_witness:
  "\<exists>item. query_values web_runtime web_delta web_config [(''port_code'', [''NGAPP''])] web_store = Inr [(''values'', JList [JObj item])]"
proof -
  have c: "sv_codec web_runtime = web_codec" by (simp add: web_runtime_def)
  have f: "query_filters [(''port_code'', [''NGAPP''])] = Inr [(''port_code'', ''NGAPP'')]"
  proof -
    have "UNLOCODE_PATTERN ''NGAPP''" by code_simp
    then show ?thesis by (simp add: query_filters_def VALUE_PARAMETERS_def filter_step_def)
  qed
  have v: "\<exists>x. serve_value web_runtime runs (value_cells id web_value) = Inr x" if "map_of runs (CText ''b'') = Some (web_run ''b'' 7)" for runs
    using that by (simp add: serve_value_def value_cells_def web_value_def row_item_def value_item_def members_def served_cell_def served_instant_def
        served_versions_def web_run_def run_row_def c web_codec_def value_order_def row_get_def opt_text_def opt_float_def)
  have e: "foldR run_entry [] [web_run ''a'' 3, web_run ''b'' 7] = Inr [(CText ''a'', web_run ''a'' 3), (CText ''b'', web_run ''b'' 7)]"
    by (simp add: run_entry_def web_run_def run_row_def row_item_def)
  obtain x where x: "serve_value web_runtime [(CText ''a'', web_run ''a'' 3), (CText ''b'', web_run ''b'' 7)] (value_cells id web_value) = Inr x"
    using v by fastforce
  have m: "row_matches [(''port_code'', ''NGAPP'')] (value_cells id web_value) = Inr True"
    "row_matches [(''port_code'', ''NGAPP'')] (value_cells id (web_value\<lparr>vr_port := None\<rparr>)) = Inr False"
    by (simp_all add: value_cells_def web_value_def row_item_def opt_text_def)
  let ?step = "value_step web_runtime [(''port_code'', ''NGAPP'')] [(CText ''a'', web_run ''a'' 3), (CText ''b'', web_run ''b'' 7)]"
  have "?step [] (value_cells id web_value) = Inr [x]" "?step [x] (value_cells id (web_value\<lparr>vr_port := None\<rparr>)) = Inr [x]"
    by (simp_all add: value_step_def m x del: row_matches.simps)
  then have vs: "foldR ?step [] [value_cells id web_value, value_cells id (web_value\<lparr>vr_port := None\<rparr>)] = Inr [x]" by simp
  have q: "\<exists>d. query_values web_runtime web_delta web_config [(''port_code'', [''NGAPP''])] web_store = Inr d"
    by (simp add: query_values_def f web_tables e vs del: foldR.simps)
  then obtain d where d: "query_values web_runtime web_delta web_config [(''port_code'', [''NGAPP''])] web_store = Inr d" by blast
  from values_exact [OF d] obtain filters value_rows rows items where r:
    "\<forall>k v. (k, v) \<in> set filters \<longleftrightarrow> k \<in> set VALUE_PARAMETERS \<and> map_of [(''port_code'', [''NGAPP''])] k = Some [v]"
    "read_gold_table web_delta web_config VALUES_TABLE_NAME web_store = Inr value_rows" "mset rows = mset (filter (asked filters) value_rows)"
    "d = [(''values'', JList (map JObj items))]" "length rows = length items"
    by (elim exE conjE) (rule that, assumption+, erule list_all2_lengthD)
  have ask: "asked filters r \<longleftrightarrow> row_get r ''port_code'' = CText ''NGAPP''" for r
  proof -
    have "set filters = {(''port_code'', ''NGAPP'')}"
    proof (rule set_eqI)
      fix f
      show "f \<in> set filters \<longleftrightarrow> f \<in> {(''port_code'', ''NGAPP'')}" by (cases f) (auto simp: r(1) VALUE_PARAMETERS_def)
    qed
    then show ?thesis by (simp add: asked_def)
  qed
  have "value_rows = [value_cells id web_value, value_cells id (web_value\<lparr>vr_port := None\<rparr>)]" using r(2) web_tables(2) by simp
  moreover have "row_get (value_cells id web_value) ''port_code'' = CText ''NGAPP''"
    "row_get (value_cells id (web_value\<lparr>vr_port := None\<rparr>)) ''port_code'' = CNone"
    by (simp_all add: value_cells_def web_value_def row_get_def opt_text_def)
  ultimately have "filter (asked filters) value_rows = [value_cells id web_value]" by (simp add: ask)
  with r(3,5) have "length items = 1" by (metis mset_eq_length length_Cons list.size(3) One_nat_def)
  then obtain item where "items = [item]" by (cases items) auto
  with d r(4) show ?thesis by simp
qed

text \<open>The service over the store of the runs, without a connection.\<close>

definition store_runtime :: "mem_store serving_runtime" where
  "store_runtime =
     \<lparr>sv_codec = web_codec, sv_hmac = (\<lambda>k m. ''C''), sv_now = (\<lambda>w. 0), sv_unquote = id, sv_str = py_str (\<lambda>c. []),
      sv_is_file = (\<lambda>p w. Inr False), sv_is_symlink = (\<lambda>p w. Inr False), sv_read_text = (\<lambda>p w. raise OSError []),
      sv_send = (\<lambda>r w. (Inr (), w))\<rparr>"

lemma published_run_listed_witness:
  "\<exists>r w' m. run_port_statistics stat_runtime mem_delta stat_open_at stat_writer ''2026-09'' ''seed'' ''k1'' (Some 1) stat_store = (Inr r, w') \<and>
     list_runs store_runtime mem_delta web_config w' = Inr [(''runs'', JList [JObj m])] \<and> jget m ''run_id'' = JStr (rr_run_id r)"
proof -
  have s: "map_of stat_store ''s3://b/platform_silver/events'' = Some (4, [])" "map_of stat_store ''s3://b/platform_gold/port_kpi_runs'' = None"
    "map_of stat_store ''s3://b/platform_gold/port_kpi_values'' = None"
    by (simp_all add: stat_store_def)
  from quiet_run_stored [OF s, of "''seed''" "''k1''" 1] obtain r w' run_id start finish versions_json query_hash rows h where
    r: "run_port_statistics stat_runtime mem_delta stat_open_at stat_writer ''2026-09'' ''seed'' ''k1'' (Some 1) stat_store = (Inr r, w')"
    and t: "map_of w' ''s3://b/platform_gold/port_kpi_runs'' = Some (0, [run_row run_id 1 ''2026-09'' start finish versions_json query_hash rows h])"
    by blast
  let ?run = "run_row run_id 1 ''2026-09'' start finish versions_json query_hash rows h"
  have g: "read_gold_table mem_delta web_config RUNS_TABLE_NAME w' = Inr [?run]"
    using t by (simp add: read_gold_table_def web_uris mem_delta_def require_some_def)
  have "\<exists>m. run_manifest web_codec ?run = Inr m"
    by (cases "versions_json = ''A''"; cases "versions_json = ''B''")
      (simp_all add: run_manifest_def members_def served_cell_def served_instant_def served_versions_def run_row_def row_item_def
        web_codec_def KPI_DEFINITIONS_def)
  then obtain m where m: "run_manifest web_codec ?run = Inr m" by blast
  have o1: "run_order ?run = Inr (1, run_id)" by (simp add: run_order_def run_row_def row_item_def)
  have l: "list_runs store_runtime mem_delta web_config w' = Inr [(''runs'', JList [JObj m])]"
    by (simp add: list_runs_def g o1 latest_first_def m store_runtime_def)
  have c: "config_table_uri web_config RUNS_TABLE_NAME = gold_named stat_writer RUNS_TABLE_NAME" by (simp add: web_uris stat_uris)
  have d: "\<forall>t. api_read_all mem_delta t = Inr (snd t)" by (simp add: mem_delta_def)
  from published_run_listed [OF stat_contract d r c l] have "jget m ''run_id'' = JStr (rr_run_id r)" by auto
  with r l show ?thesis by blast
qed

end
