(* ===== verification/Ais_Decode.thy ===== *)
theory Ais_Decode
  imports Py_Number Envelope_Payload
begin

text \<open>
  \<open>ais_decode.py\<close>: raw AIS sentences are checked (form, length, XOR checksum), decoded by the \<open>pyais\<close> library and
  turned into a position report.  The library is a parameter: its \<open>decode(...).asdict()\<close> as a fallible function
  of the sentences, and which of its exceptions the \<open>except\<close> clause names.  The decode metrics are not modelled.
\<close>

unbundle bit_operations_syntax

section \<open>The library\<close>

record pyais =
  pa_decode :: "string list \<Rightarrow> jobject res"
  pa_rejects :: "exn \<Rightarrow> bool"

definition MAX_NMEA_SENTENCES :: nat where "MAX_NMEA_SENTENCES = 9"
definition MAX_NMEA_SENTENCE_BYTES :: nat where "MAX_NMEA_SENTENCE_BYTES = 1024"
definition POSITION_MESSAGE_TYPES :: "int list" where "POSITION_MESSAGE_TYPES = [1, 2, 3, 18, 19]"
definition AIS_LATITUDE_UNAVAILABLE :: pyfloat where "AIS_LATITUDE_UNAVAILABLE = PFin 91"
definition AIS_LONGITUDE_UNAVAILABLE :: pyfloat where "AIS_LONGITUDE_UNAVAILABLE = PFin 181"
text \<open>The double nearest to 102.3.\<close>
definition AIS_SPEED_UNAVAILABLE :: pyfloat where "AIS_SPEED_UNAVAILABLE = PFin (7198722529375027 / 70368744177664)"
definition AIS_COURSE_UNAVAILABLE :: pyfloat where "AIS_COURSE_UNAVAILABLE = PFin 360"
definition AIS_HEADING_UNAVAILABLE :: pyfloat where "AIS_HEADING_UNAVAILABLE = PFin 511"

record ais_position_report =
  rep_mmsi :: string
  rep_latitude :: pyfloat
  rep_longitude :: pyfloat
  rep_speed_knots :: "pyfloat option"
  rep_heading_degrees :: "pyfloat option"
  rep_course_degrees :: "pyfloat option"
  rep_message_type :: int

definition mmsi_pattern :: "string \<Rightarrow> bool" where
  "mmsi_pattern s = (length s = 9 \<and> list_all is_digit s)"

definition normalize_mmsi :: "json \<Rightarrow> string res" where
  "normalize_mmsi value =
     bindR (case value of
              JBool b \<Rightarrow> raise ValueError ''mmsi must be a 9-digit identifier, not a boolean''
            | JInt i \<Rightarrow> Inr (int_str i)
            | JStr s \<Rightarrow> Inr s
            | _ \<Rightarrow> raise ValueError ''mmsi must be a 9-digit identifier'') (\<lambda>s.
     bindR (guard (mmsi_pattern s) ValueError ''mmsi must be exactly 9 decimal digits'') (\<lambda>_. Inr s))"

section \<open>Sentences\<close>

definition xor_codes :: "nat \<Rightarrow> string \<Rightarrow> nat" where
  "xor_codes k s = foldl (\<lambda>v c. v XOR code c) k s"

definition nmea_checksum_valid :: "string \<Rightarrow> bool" where
  "nmea_checksum_valid sentence =
     (if CHR ''*'' \<notin> set sentence then False
      else
        let body = before_last (CHR ''*'') sentence; trailer = after_last (CHR ''*'') sentence
        in if length trailer \<noteq> 2 then False
           else case py_int_hex trailer of
                  Inl e \<Rightarrow> False
                | Inr expected \<Rightarrow> int (xor_codes 0 (tl body)) = expected)"

text \<open>\<open>^!AI(VDM|VDO),[0-9]+,[0-9]+,[0-9A-Za-z]?,[AB],\<close> as the fields between the commas.\<close>

definition nmea_sentence_pattern :: "string \<Rightarrow> bool" where
  "nmea_sentence_pattern s =
     (case split_on (CHR '','') s of
        tag # sentence_count # number # channel # radio # rest \<Rightarrow>
          (tag = ''!AIVDM'' \<or> tag = ''!AIVDO'') \<and>
          sentence_count \<noteq> [] \<and> list_all is_digit sentence_count \<and> number \<noteq> [] \<and> list_all is_digit number \<and>
          length channel \<le> 1 \<and> list_all is_alnum channel \<and> (radio = ''A'' \<or> radio = ''B'') \<and> rest \<noteq> []
      | _ \<Rightarrow> False)"

definition validate_sentence :: "json \<Rightarrow> string res" where
  "validate_sentence v =
     bindR (require_some (json_text v) ValueError ''each NMEA sentence must be text'') (\<lambda>s.
     bindR (guard (list_all (\<lambda>c. code c < 128) s \<and> 1 \<le> length s \<and> length s \<le> MAX_NMEA_SENTENCE_BYTES) ValueError
              ''NMEA sentences must be ASCII of at most 1024 bytes'') (\<lambda>_.
     bindR (guard (nmea_sentence_pattern s) ValueError ''only !AIVDM/!AIVDO AIS sentences are accepted'') (\<lambda>_.
     bindR (guard (CHR ''*'' \<in> set s) ValueError ''NMEA sentence is missing its checksum delimiter'') (\<lambda>_.
     bindR (guard (nmea_checksum_valid s) ValueError ''NMEA sentence checksum mismatch'') (\<lambda>_. Inr s)))))"

definition validate_aivdm_sentences :: "json \<Rightarrow> string list res" where
  "validate_aivdm_sentences sentences =
     bindR (require_some (json_list sentences) ValueError ''nmeaSentences must be an array of NMEA 0183 sentences'') (\<lambda>xs.
     bindR (guard (1 \<le> length xs \<and> length xs \<le> MAX_NMEA_SENTENCES) ValueError
              ''nmeaSentences must contain 1 to 9 sentences'') (\<lambda>_.
     mapR validate_sentence xs))"

section \<open>Position reports\<close>

definition optional_speed :: "json \<Rightarrow> pyfloat option res" where
  "optional_speed value =
     (if value = JNull then Inr None
      else
        bindR (guard (is_number value) ValueError ''AIS speed over ground must be numeric'') (\<lambda>_.
        bindR (to_float value) (\<lambda>speed.
        if fl_le AIS_SPEED_UNAVAILABLE speed then Inr None
        else bindR (guard (isfinite speed \<and> \<not> fl_less speed (PFin 0)) ValueError
               ''AIS speed over ground must be a finite non-negative value'') (\<lambda>_. Inr (Some speed)))))"

definition optional_degrees :: "json \<Rightarrow> pyfloat \<Rightarrow> pyfloat option res" where
  "optional_degrees value unavailable =
     (if value = JNull then Inr None
      else
        bindR (guard (is_number value) ValueError ''AIS value must be numeric'') (\<lambda>_.
        bindR (to_float value) (\<lambda>degrees.
        if fl_le unavailable degrees then Inr None
        else bindR (guard (isfinite degrees \<and> fl_le (PFin 0) degrees \<and> fl_less degrees (PFin 360)) ValueError
               ''AIS value must be finite and within [0, 360)'') (\<lambda>_. Inr (Some degrees)))))"

text \<open>\<open>message_type not in POSITION_MESSAGE_TYPES\<close>: a list or an object is unhashable, numbers compare by value.\<close>

definition position_message_type :: "json \<Rightarrow> int res" where
  "position_message_type v =
     (case v of
        JList xs \<Rightarrow> raise TypeError ''unhashable type''
      | JObj d \<Rightarrow> raise TypeError ''unhashable type''
      | _ \<Rightarrow>
          (case filter (\<lambda>n. number_eq v (JInt n)) POSITION_MESSAGE_TYPES of
             [] \<Rightarrow> raise ValueError ''AIS message type is not a class A/B position report''
           | n # ns \<Rightarrow> Inr n))"

definition report_of_fields :: "jobject \<Rightarrow> ais_position_report res" where
  "report_of_fields decoded =
     bindR (position_message_type (jget decoded ''msg_type'')) (\<lambda>message_type.
     bindR (normalize_mmsi (jget decoded ''mmsi'')) (\<lambda>mmsi.
     let latitude = jget decoded ''lat''; longitude = jget decoded ''lon''
     in bindR (guard (latitude \<noteq> JNull \<and> longitude \<noteq> JNull) ValueError
                 ''AIS position report carries no valid latitude/longitude'') (\<lambda>_.
        bindR (py_float latitude) (\<lambda>lat.
        bindR (guard (lat \<noteq> AIS_LATITUDE_UNAVAILABLE) ValueError
                 ''AIS position report carries no valid latitude/longitude'') (\<lambda>_.
        bindR (py_float longitude) (\<lambda>lon.
        bindR (guard (lon \<noteq> AIS_LONGITUDE_UNAVAILABLE) ValueError
                 ''AIS position report carries no valid latitude/longitude'') (\<lambda>_.
        bindR (guard (isfinite lat \<and> fl_le (PFin (- 90)) lat \<and> fl_le lat (PFin 90)) ValueError
                 ''AIS latitude must be finite and within [-90, 90]'') (\<lambda>_.
        bindR (guard (isfinite lon \<and> fl_le (PFin (- 180)) lon \<and> fl_le lon (PFin 180)) ValueError
                 ''AIS longitude must be finite and within [-180, 180]'') (\<lambda>_.
        bindR (optional_speed (jget decoded ''speed'')) (\<lambda>speed.
        bindR (optional_degrees (jget decoded ''heading'') AIS_HEADING_UNAVAILABLE) (\<lambda>heading.
        bindR (optional_degrees (jget decoded ''course'') AIS_COURSE_UNAVAILABLE) (\<lambda>course.
        Inr \<lparr>rep_mmsi = mmsi, rep_latitude = lat, rep_longitude = lon, rep_speed_knots = speed,
             rep_heading_degrees = heading, rep_course_degrees = course, rep_message_type = message_type\<rparr>))))))))))))"

definition decode_aivdm :: "pyais \<Rightarrow> json \<Rightarrow> ais_position_report res" where
  "decode_aivdm pa sentences =
     bindR (validate_aivdm_sentences sentences) (\<lambda>validated.
     case pa_decode pa validated of
       Inl e \<Rightarrow> if pa_rejects pa e \<or> is_value_error (exn_class e)
               then raise ValueError ''AIS NMEA payload could not be decoded'' else Inl e
     | Inr decoded \<Rightarrow> report_of_fields decoded)"

section \<open>Lemmas\<close>

lemma xor_codes_Cons: "xor_codes k (c # s) = xor_codes (k XOR code c) s"
  by (simp add: xor_codes_def)

lemma xor_codes_append: "xor_codes k (s @ t) = xor_codes (xor_codes k s) t"
  by (simp add: xor_codes_def)

lemma xor_codes_start: "xor_codes k s = k XOR xor_codes 0 s"
proof (induction s arbitrary: k)
  case Nil
  then show ?case by (simp add: xor_codes_def)
next
  case (Cons c s)
  from Cons [of "k XOR code c"] Cons [of "code c"] show ?case by (simp add: xor_codes_Cons xor.assoc)
qed

lemma xor_nat_cancel: "((a::nat) XOR b = a XOR c) = (b = c)"
proof
  assume "a XOR b = a XOR c"
  then have "a XOR (a XOR b) = a XOR (a XOR c)" by simp
  then show "b = c" by (simp add: xor.assoc [symmetric])
qed simp

text \<open>The checksum is a group sum: it tells apart two bodies that differ in one character.\<close>

lemma xor_codes_middle: "(xor_codes k (xs @ c # ys) = xor_codes k (xs @ d # ys)) = (c = d)"
proof -
  have "xor_codes k (xs @ e # ys) = xor_codes 0 ys XOR (xor_codes k xs XOR code e)" for e
    unfolding xor_codes_append xor_codes_Cons
    by (subst xor_codes_start) (rule xor.commute)
  then show ?thesis by (simp add: xor_nat_cancel)
qed

lemma nmea_checksum_iff:
  assumes "CHR ''*'' \<notin> set t"
  shows "nmea_checksum_valid (b @ ''*'' @ t) = (length t = 2 \<and> py_int_hex t = Inr (int (xor_codes 0 (tl b))))"
  using after_last_append [OF assms, of b] before_last_append [OF assms, of b]
  by (auto simp: nmea_checksum_valid_def Let_def split: sum.splits)

lemma optional_degrees_range:
  "optional_degrees v u = Inr (Some d) \<Longrightarrow> fl_le (PFin 0) d \<and> fl_less d (PFin 360)"
  by (auto simp: optional_degrees_def res_simps split: if_splits)

lemma optional_speed_range:
  "optional_speed v = Inr (Some s) \<Longrightarrow> isfinite s \<and> \<not> fl_less s (PFin 0) \<and> \<not> fl_le AIS_SPEED_UNAVAILABLE s"
  by (auto simp: optional_speed_def res_simps split: if_splits)

lemma filter_head: "filter P xs = n # ns \<Longrightarrow> n \<in> set xs"
proof -
  assume "filter P xs = n # ns"
  then have "n \<in> set (filter P xs)" by simp
  then show ?thesis by simp
qed

lemma position_message_type_member: "position_message_type v = Inr n \<Longrightarrow> n \<in> set POSITION_MESSAGE_TYPES"
  by (auto simp: position_message_type_def split: json.splits list.splits dest: filter_head)

lemma normalize_mmsi_pattern: "normalize_mmsi v = Inr s \<Longrightarrow> mmsi_pattern s"
  by (auto simp: normalize_mmsi_def res_simps)

lemma validate_sentences_valid:
  assumes "validate_aivdm_sentences v = Inr ss"
  shows "v = JList (map JStr ss) \<and> 1 \<le> length ss \<and> length ss \<le> MAX_NMEA_SENTENCES \<and>
    list_all (\<lambda>s. nmea_sentence_pattern s \<and> nmea_checksum_valid s) ss"
proof -
  from assms obtain xs where xs: "v = JList xs" "1 \<le> length xs" "length xs \<le> MAX_NMEA_SENTENCES"
    "list_all2 (\<lambda>x y. validate_sentence x = Inr y) xs ss"
    by (auto simp: validate_aivdm_sentences_def res_simps)
  from xs(4) have "xs = map JStr ss \<and> list_all (\<lambda>s. nmea_sentence_pattern s \<and> nmea_checksum_valid s) ss"
    by (induction rule: list_all2_induct) (auto simp: validate_sentence_def res_simps)
  with xs show ?thesis by simp
qed

lemma decode_aivdm_sound:
  assumes "decode_aivdm pa v = Inr r"
  shows "\<exists>ss d. v = JList (map JStr ss) \<and> 1 \<le> length ss \<and> length ss \<le> 9 \<and>
     list_all (\<lambda>s. nmea_sentence_pattern s \<and> nmea_checksum_valid s) ss \<and> pa_decode pa ss = Inr d \<and>
     mmsi_pattern (rep_mmsi r) \<and> rep_message_type r \<in> {1, 2, 3, 18, 19} \<and>
     fl_le (PFin (- 90)) (rep_latitude r) \<and> fl_le (rep_latitude r) (PFin 90) \<and>
     fl_le (PFin (- 180)) (rep_longitude r) \<and> fl_le (rep_longitude r) (PFin 180) \<and>
     pred_option (\<lambda>s. isfinite s \<and> \<not> fl_less s (PFin 0) \<and> \<not> fl_le AIS_SPEED_UNAVAILABLE s) (rep_speed_knots r) \<and>
     pred_option (\<lambda>d. fl_le (PFin 0) d \<and> fl_less d (PFin 360)) (rep_heading_degrees r) \<and>
     pred_option (\<lambda>d. fl_le (PFin 0) d \<and> fl_less d (PFin 360)) (rep_course_degrees r)"
proof -
  from assms obtain ss where ss: "validate_aivdm_sentences v = Inr ss"
    and c: "(case pa_decode pa ss of Inl e \<Rightarrow> if pa_rejects pa e \<or> is_value_error (exn_class e)
               then raise ValueError ''AIS NMEA payload could not be decoded'' else Inl e
     | Inr decoded \<Rightarrow> report_of_fields decoded) = Inr r"
    by (auto simp: decode_aivdm_def res_simps)
  from c obtain d where d: "pa_decode pa ss = Inr d" "report_of_fields d = Inr r"
    by (cases "pa_decode pa ss") (auto split: if_splits)
  from d(2) obtain s h k where p: "optional_speed (jget d ''speed'') = Inr s" "rep_speed_knots r = s"
    "optional_degrees (jget d ''heading'') AIS_HEADING_UNAVAILABLE = Inr h" "rep_heading_degrees r = h"
    "optional_degrees (jget d ''course'') AIS_COURSE_UNAVAILABLE = Inr k" "rep_course_degrees r = k"
    and m: "position_message_type (jget d ''msg_type'') = Inr (rep_message_type r)"
    "normalize_mmsi (jget d ''mmsi'') = Inr (rep_mmsi r)"
    and b: "fl_le (PFin (- 90)) (rep_latitude r)" "fl_le (rep_latitude r) (PFin 90)"
    "fl_le (PFin (- 180)) (rep_longitude r)" "fl_le (rep_longitude r) (PFin 180)"
    by (auto simp: report_of_fields_def Let_def res_simps)
  have "pred_option (\<lambda>s. isfinite s \<and> \<not> fl_less s (PFin 0) \<and> \<not> fl_le AIS_SPEED_UNAVAILABLE s) (rep_speed_knots r)"
    using p(1,2) optional_speed_range by (cases s) auto
  moreover have "pred_option (\<lambda>d. fl_le (PFin 0) d \<and> fl_less d (PFin 360)) (rep_heading_degrees r)"
    using p(3,4) optional_degrees_range by (cases h) auto
  moreover have "pred_option (\<lambda>d. fl_le (PFin 0) d \<and> fl_less d (PFin 360)) (rep_course_degrees r)"
    using p(5,6) optional_degrees_range by (cases k) auto
  moreover have "rep_message_type r \<in> {1, 2, 3, 18, 19}"
    using position_message_type_member [OF m(1)] by (simp add: POSITION_MESSAGE_TYPES_def)
  moreover note normalize_mmsi_pattern [OF m(2)]
  moreover note validate_sentences_valid [OF ss, unfolded MAX_NMEA_SENTENCES_def]
  ultimately show ?thesis using b d(1) by blast
qed

lemma decoded_report_range:
  "decode_aivdm pa v = Inr r \<Longrightarrow> fl_le (PFin (- 90)) (rep_latitude r) \<and> fl_le (rep_latitude r) (PFin 90) \<and>
     fl_le (PFin (- 180)) (rep_longitude r) \<and> fl_le (rep_longitude r) (PFin 180)"
  using decode_aivdm_sound by blast

section \<open>Properties\<close>

text \<open>
  A corrupted sentence is refused: when one character of the body of a sentence with a valid checksum is
  replaced by another one, the checksum of the result is not valid.
\<close>

theorem checksum_detects_corruption:
  assumes "nmea_checksum_valid (h # xs @ c # ys @ ''*'' @ t)" and "CHR ''*'' \<notin> set t" and "d \<noteq> c"
  shows "\<not> nmea_checksum_valid (h # xs @ d # ys @ ''*'' @ t)"
proof -
  have s: "h # xs @ e # ys @ ''*'' @ t = (h # xs @ e # ys) @ ''*'' @ t" for e by simp
  from assms(1) have "py_int_hex t = Inr (int (xor_codes 0 (xs @ c # ys)))"
    unfolding s nmea_checksum_iff [OF assms(2)] by simp
  with assms(3) show ?thesis
    unfolding s nmea_checksum_iff [OF assms(2)] by (simp add: xor_codes_middle)
qed

lemma checksum_detects_corruption_witness:
  "nmea_checksum_valid ''!AIVDM,1,1,,B,15M67F0000G?Uf6E`FepT@3n00Sa,0*5B'' \<and>
   \<not> nmea_checksum_valid ''!AIVDM,1,1,,B,15M67F0001G?Uf6E`FepT@3n00Sa,0*5B''"
proof -
  have a: "nmea_checksum_valid ''!AIVDM,1,1,,B,15M67F0000G?Uf6E`FepT@3n00Sa,0*5B''" by code_simp
  then show ?thesis
    using checksum_detects_corruption [of "CHR ''!''" "''AIVDM,1,1,,B,15M67F000''" "CHR ''0''" "''G?Uf6E`FepT@3n00Sa,0''" "''5B''" "CHR ''1''"]
    by simp
qed

text \<open>
  A decoded report is complete and in range: it comes from one to nine checksum-valid AIS sentences that the library
  decoded, with a nine-digit MMSI, a position report type, a latitude and longitude on the globe, and, where present,
  a finite speed below the marker for unknown and angles in [0, 360).
\<close>

theorem decoded_report_sound:
  assumes "decode_aivdm pa v = Inr r"
  shows "\<exists>ss d. v = JList (map JStr ss) \<and> 1 \<le> length ss \<and> length ss \<le> 9 \<and>
     list_all (\<lambda>s. nmea_sentence_pattern s \<and> nmea_checksum_valid s) ss \<and> pa_decode pa ss = Inr d \<and>
     mmsi_pattern (rep_mmsi r) \<and> rep_message_type r \<in> {1, 2, 3, 18, 19} \<and>
     fl_le (PFin (- 90)) (rep_latitude r) \<and> fl_le (rep_latitude r) (PFin 90) \<and>
     fl_le (PFin (- 180)) (rep_longitude r) \<and> fl_le (rep_longitude r) (PFin 180) \<and>
     pred_option (\<lambda>s. isfinite s \<and> \<not> fl_less s (PFin 0) \<and> \<not> fl_le AIS_SPEED_UNAVAILABLE s) (rep_speed_knots r) \<and>
     pred_option (\<lambda>d. fl_le (PFin 0) d \<and> fl_less d (PFin 360)) (rep_heading_degrees r) \<and>
     pred_option (\<lambda>d. fl_le (PFin 0) d \<and> fl_less d (PFin 360)) (rep_course_degrees r)"
  using assms by (rule decode_aivdm_sound)

definition sample_fields :: jobject where
  "sample_fields =
     [(''msg_type'', JInt 1), (''mmsi'', JStr ''366053209''), (''speed'', JFloat (PFin 0)), (''lon'', JFloat (PFin (- 122))),
      (''lat'', JFloat (PFin 37)), (''course'', JFloat (PFin 219)), (''heading'', JInt 1)]"

definition sample_pyais :: pyais where
  "sample_pyais = \<lparr>pa_decode = (\<lambda>ss. Inr sample_fields), pa_rejects = (\<lambda>e. False)\<rparr>"

definition sample_sentence :: string where
  "sample_sentence = ''!AIVDM,1,1,,B,15M67F0000G?Uf6E`FepT@3n00Sa,0*5B''"

lemma sample_sentence_valid: "validate_sentence (JStr sample_sentence) = Inr sample_sentence"
  by code_simp

lemma decoded_report_sound_witness:
  "\<exists>r. decode_aivdm sample_pyais (JList [JStr sample_sentence]) = Inr r \<and> rep_mmsi r = ''366053209'' \<and>
     fl_le (rep_latitude r) (PFin 90)"
proof -
  have v: "validate_aivdm_sentences (JList [JStr sample_sentence]) = Inr [sample_sentence]"
    by (simp add: validate_aivdm_sentences_def sample_sentence_valid MAX_NMEA_SENTENCES_def)
  have m: "normalize_mmsi (JStr ''366053209'') = Inr ''366053209''" by code_simp
  have i: "float_of_int 1 = Inr (PFin 1)" using float_of_int_exact [of 1] by simp
  have "position_message_type (JInt 1) = Inr 1" by (simp add: position_message_type_def POSITION_MESSAGE_TYPES_def number_eq_def)
  moreover have "optional_speed (JFloat (PFin 0)) = Inr (Some (PFin 0))" by (simp add: optional_speed_def AIS_SPEED_UNAVAILABLE_def)
  moreover have "optional_degrees (JInt 1) AIS_HEADING_UNAVAILABLE = Inr (Some (PFin 1))"
    by (simp add: optional_degrees_def AIS_HEADING_UNAVAILABLE_def i)
  moreover have "optional_degrees (JFloat (PFin 219)) AIS_COURSE_UNAVAILABLE = Inr (Some (PFin 219))"
    by (simp add: optional_degrees_def AIS_COURSE_UNAVAILABLE_def)
  ultimately have "\<exists>r. report_of_fields sample_fields = Inr r \<and> rep_mmsi r = ''366053209''"
    by (simp add: report_of_fields_def sample_fields_def m AIS_LATITUDE_UNAVAILABLE_def AIS_LONGITUDE_UNAVAILABLE_def)
  then obtain r where r: "report_of_fields sample_fields = Inr r" "rep_mmsi r = ''366053209''" by blast
  then have "decode_aivdm sample_pyais (JList [JStr sample_sentence]) = Inr r"
    by (simp add: decode_aivdm_def v sample_pyais_def)
  from decoded_report_sound [OF this] this r(2) show ?thesis by blast
qed

end
