(* ===== verification/Geofence.thy ===== *)
theory Geofence
  imports Py_Number
begin

text \<open>
  \<open>geofence.py\<close>: validation of GeoJSON polygons and the even-odd test of a position against them, on doubles.  The
  coordinates stay JSON values, converted by \<open>float()\<close> at each use as the code does.
\<close>

section \<open>Positions and geometries\<close>

record position =
  pos_latitude :: pyfloat
  pos_longitude :: pyfloat

definition new_position :: "pyfloat \<Rightarrow> pyfloat \<Rightarrow> position res" where
  "new_position lat lon =
     bindR (guard (isfinite lat \<and> fl_le (PFin (- 90)) lat \<and> fl_le lat (PFin 90)) GeofenceValidationError
              ''latitude must be finite and between -90 and 90'') (\<lambda>_.
     bindR (guard (isfinite lon \<and> fl_le (PFin (- 180)) lon \<and> fl_le lon (PFin 180)) GeofenceValidationError
              ''longitude must be finite and between -180 and 180'') (\<lambda>_.
     Inr \<lparr>pos_latitude = lat, pos_longitude = lon\<rparr>))"

text \<open>Each element of a ring: \<open>Position(latitude=float(latitude), longitude=float(longitude))\<close>.\<close>

definition validate_coordinate :: "json \<Rightarrow> unit res" where
  "validate_coordinate coordinate =
     (case coordinate of
        JList [lon, lat] \<Rightarrow>
          bindR (py_float lat) (\<lambda>la. bindR (py_float lon) (\<lambda>lo. bindR (new_position la lo) (\<lambda>_. Inr ())))
      | _ \<Rightarrow> raise GeofenceValidationError ''GeoJSON positions must be [longitude, latitude]'')"

fun forR :: "('a \<Rightarrow> unit res) \<Rightarrow> 'a list \<Rightarrow> unit res" where
  "forR f [] = Inr ()"
| "forR f (x # xs) = bindR (f x) (\<lambda>_. forR f xs)"

definition validate_ring :: "json \<Rightarrow> unit res" where
  "validate_ring ring =
     (case ring of
        JList ps \<Rightarrow>
          bindR (guard (4 \<le> length ps \<and> json_eq (hd ps) (last ps)) GeofenceValidationError
                   ''linear ring must have at least four closed positions'') (\<lambda>_. forR validate_coordinate ps)
      | _ \<Rightarrow> raise GeofenceValidationError ''linear ring must have at least four closed positions'')"

definition validate_polygon :: "json \<Rightarrow> unit res" where
  "validate_polygon polygon =
     (case polygon of
        JList (r # rs) \<Rightarrow> forR validate_ring (r # rs)
      | _ \<Rightarrow> raise GeofenceValidationError ''polygon must contain at least one linear ring'')"

text \<open>The type is looked up in a set of texts: a list or an object is unhashable.\<close>

definition validate_geometry :: "json \<Rightarrow> unit res" where
  "validate_geometry geometry =
     (case geometry of
        JObj g \<Rightarrow>
          let geometry_type = jget g ''type''
          in bindR (case geometry_type of
                      JList xs \<Rightarrow> raise TypeError ''unhashable type''
                    | JObj d \<Rightarrow> raise TypeError ''unhashable type''
                    | _ \<Rightarrow> guard (geometry_type = JStr ''Polygon'' \<or> geometry_type = JStr ''MultiPolygon'') GeofenceValidationError
                        ''only Polygon and MultiPolygon geometries are supported'') (\<lambda>_.
             case jget g ''coordinates'' of
               JList (c # cs) \<Rightarrow>
                 let polygons = (if geometry_type = JStr ''Polygon'' then [JList (c # cs)] else c # cs)
                 in bindR (guard (geometry_type = JStr ''MultiPolygon'' \<longrightarrow> list_all (\<lambda>p. json_list p \<noteq> None) polygons)
                             GeofenceValidationError ''MultiPolygon coordinates must contain polygon arrays'') (\<lambda>_.
                    forR validate_polygon polygons)
             | _ \<Rightarrow> raise GeofenceValidationError ''geometry coordinates must be a non-empty array'')
      | _ \<Rightarrow> raise GeofenceValidationError ''geometry must be an object'')"

record geofence =
  fence_id :: string
  geometry :: jobject

definition new_geofence :: "string \<Rightarrow> json \<Rightarrow> geofence res" where
  "new_geofence ident g =
     bindR (guard (strip ident \<noteq> []) GeofenceValidationError ''geofence identifier is required'') (\<lambda>_.
     bindR (validate_geometry g) (\<lambda>_.
     bindR (require_some (json_obj g) GeofenceValidationError ''geometry must be an object'') (\<lambda>d.
     Inr \<lparr>fence_id = ident, geometry = d\<rparr>)))"

section \<open>Containment\<close>

text \<open>The double nearest to \<open>1e-12\<close>.\<close>

definition boundary_tolerance :: pyfloat where
  "boundary_tolerance = PFin (4951760157141521 / 4951760157141521099596496896)"

definition point_on_segment :: "pyfloat \<Rightarrow> pyfloat \<Rightarrow> pyfloat \<Rightarrow> pyfloat \<Rightarrow> pyfloat \<Rightarrow> pyfloat \<Rightarrow> bool" where
  "point_on_segment x y x1 y1 x2 y2 =
     (let cross = fl_sub (fl_mul (fl_sub y y1) (fl_sub x2 x1)) (fl_mul (fl_sub x x1) (fl_sub y2 y1))
      in if fl_less boundary_tolerance (fl_abs cross) then False
         else fl_le (fl_sub (fl_min x1 x2) boundary_tolerance) x \<and> fl_le x (fl_add (fl_max x1 x2) boundary_tolerance) \<and>
              fl_le (fl_sub (fl_min y1 y2) boundary_tolerance) y \<and> fl_le y (fl_add (fl_max y1 y2) boundary_tolerance))"

text \<open>\<open>float(ring[index][0]), float(ring[index][1])\<close>.\<close>

definition ring_point :: "json \<Rightarrow> (pyfloat \<times> pyfloat) res" where
  "ring_point v =
     (case v of
        JList (a # b # rest) \<Rightarrow> bindR (py_float a) (\<lambda>x. bindR (py_float b) (\<lambda>y. Inr (x, y)))
      | _ \<Rightarrow> raise TypeError ''not a position'')"

definition toggle :: "bool \<Rightarrow> pyfloat \<Rightarrow> pyfloat \<Rightarrow> pyfloat \<times> pyfloat \<Rightarrow> pyfloat \<times> pyfloat \<Rightarrow> bool res" where
  "toggle inside x y p1 p2 =
     (case (p1, p2) of ((x1, y1), (x2, y2)) \<Rightarrow>
        if fl_less y y1 \<noteq> fl_less y y2
        then bindR (fl_div (fl_mul (fl_sub x2 x1) (fl_sub y y1)) (fl_sub y2 y1)) (\<lambda>q.
             Inr (if fl_less x (fl_add q x1) then \<not> inside else inside))
        else Inr inside)"

fun ring_loop :: "pyfloat \<Rightarrow> pyfloat \<Rightarrow> bool \<Rightarrow> json list \<Rightarrow> bool res" where
  "ring_loop x y inside (a # b # rest) =
     bindR (ring_point a) (\<lambda>p1. bindR (ring_point b) (\<lambda>p2.
     if point_on_segment x y (fst p1) (snd p1) (fst p2) (snd p2) then Inr True
     else bindR (toggle inside x y p1 p2) (\<lambda>i. ring_loop x y i (b # rest))))"
| "ring_loop x y inside _ = Inr inside"

definition ring_contains :: "json \<Rightarrow> position \<Rightarrow> bool res" where
  "ring_contains ring p =
     bindR (require_some (json_list ring) TypeError ''not a ring'') (\<lambda>ps. ring_loop (pos_longitude p) (pos_latitude p) False ps)"

fun any_ring :: "json list \<Rightarrow> position \<Rightarrow> bool res" where
  "any_ring [] p = Inr False"
| "any_ring (r # rs) p = bindR (ring_contains r p) (\<lambda>b. if b then Inr True else any_ring rs p)"

definition polygon_contains :: "json \<Rightarrow> position \<Rightarrow> bool res" where
  "polygon_contains polygon p =
     (case polygon of
        JList (outer # holes) \<Rightarrow>
          bindR (ring_contains outer p) (\<lambda>b. if b then bindR (any_ring holes p) (\<lambda>h. Inr (\<not> h)) else Inr False)
      | _ \<Rightarrow> raise TypeError ''not a polygon'')"

fun any_polygon :: "json list \<Rightarrow> position \<Rightarrow> bool res" where
  "any_polygon [] p = Inr False"
| "any_polygon (g # gs) p = bindR (polygon_contains g p) (\<lambda>b. if b then Inr True else any_polygon gs p)"

definition contains :: "geofence \<Rightarrow> position \<Rightarrow> bool res" where
  "contains g p =
     bindR (jitem (geometry g) ''type'') (\<lambda>geometry_type.
     bindR (jitem (geometry g) ''coordinates'') (\<lambda>coordinates.
     if geometry_type = JStr ''Polygon'' then polygon_contains coordinates p
     else if geometry_type = JStr ''MultiPolygon''
     then bindR (require_some (json_list coordinates) TypeError ''not iterable'') (\<lambda>ps. any_polygon ps p)
     else raise GeofenceValidationError ''unsupported geometry type''))"

section \<open>Validated rings\<close>

lemma forR_Inr [res_simps]: "(forR f xs = Inr u) = (\<forall>x\<in>set xs. f x = Inr ())"
  by (induction xs) (auto simp: res_simps)

text \<open>A vertex: finite, a double, and on the globe.\<close>

definition vertex :: "json \<Rightarrow> rat \<Rightarrow> rat \<Rightarrow> bool" where
  "vertex v x y \<longleftrightarrow> ring_point v = Inr (PFin x, PFin y) \<and> is_double x \<and> is_double y \<and> \<bar>x\<bar> \<le> 180 \<and> \<bar>y\<bar> \<le> 90"

definition vertices :: "json list \<Rightarrow> bool" where
  "vertices ps \<longleftrightarrow> (\<forall>v\<in>set ps. \<exists>x y. vertex v x y)"

lemma new_position_Inr:
  assumes "new_position la lo = Inr p"
  obtains y x where "la = PFin y" "lo = PFin x" "\<bar>y\<bar> \<le> 90" "\<bar>x\<bar> \<le> 180" "p = \<lparr>pos_latitude = PFin y, pos_longitude = PFin x\<rparr>"
  using assms by (cases la; cases lo) (auto simp: new_position_def res_simps abs_le_iff)

lemma validate_coordinate_vertex:
  assumes "validate_coordinate v = Inr ()" "double_json v"
  shows "\<exists>x y. vertex v x y"
proof -
  from assms(1) obtain a b where v: "v = JList [a, b]"
    by (auto simp: validate_coordinate_def split: json.splits list.splits)
  with assms(1) obtain la lo p where f: "py_float b = Inr la" "py_float a = Inr lo" "new_position la lo = Inr p"
    by (auto simp: validate_coordinate_def res_simps)
  from f(3) obtain y x where p: "la = PFin y" "lo = PFin x" "\<bar>y\<bar> \<le> 90" "\<bar>x\<bar> \<le> 180" by (rule new_position_Inr)
  from assms(2) v have "double_json a" "double_json b" by simp_all
  with f(1,2) p(1,2) have "is_double x" "is_double y" by (auto dest: py_float_double)
  with p f v show ?thesis by (auto simp: vertex_def ring_point_def)
qed

lemma validate_ring_vertices:
  assumes "validate_ring r = Inr ()" "double_json r"
  shows "\<exists>ps. r = JList ps \<and> 4 \<le> length ps \<and> vertices ps"
proof -
  from assms(1) obtain ps where r: "r = JList ps" "4 \<le> length ps" "\<forall>v\<in>set ps. validate_coordinate v = Inr ()"
    by (auto simp: validate_ring_def res_simps split: json.splits)
  with assms(2) have "vertices ps" by (auto simp: vertices_def intro: validate_coordinate_vertex)
  with r show ?thesis by blast
qed

lemma validate_polygon_rings:
  assumes "validate_polygon g = Inr ()" "double_json g"
  shows "\<exists>r rs. g = JList (r # rs) \<and> (\<forall>x\<in>set (r # rs). \<exists>ps. x = JList ps \<and> 4 \<le> length ps \<and> vertices ps)"
proof -
  from assms(1) obtain r rs where g: "g = JList (r # rs)" "\<forall>x\<in>set (r # rs). validate_ring x = Inr ()"
    by (auto simp: validate_polygon_def res_simps split: json.splits list.splits)
  with assms(2) have "\<forall>x\<in>set (r # rs). double_json x" by simp
  with g(2) have "\<forall>x\<in>set (r # rs). \<exists>ps. x = JList ps \<and> 4 \<le> length ps \<and> vertices ps"
    by (blast intro: validate_ring_vertices)
  with g(1) show ?thesis by blast
qed

section \<open>The even-odd loop\<close>

lemma fl_sub_fin: "fl_sub (PFin a) (PFin b) = round_double (a - b)"
  by (simp add: fl_sub_def)

text \<open>No division by zero: the ends of a crossing segment lie on different latitudes, and doubles that differ have a difference.\<close>

lemma toggle_ok:
  assumes "is_double y1" "is_double y2"
  shows "is_ok (toggle inside x y (x1, PFin y1) (x2, PFin y2))"
proof (cases "fl_less y (PFin y1) = fl_less y (PFin y2)")
  case True
  then show ?thesis by (simp add: toggle_def)
next
  case False
  then have "y1 \<noteq> y2" by auto
  moreover have "on_grid (y2 - y1)" using assms by (intro on_grid_diff is_double_on_grid)
  ultimately have "fl_sub (PFin y2) (PFin y1) \<noteq> PFin 0"
    unfolding fl_sub_fin by (intro round_double_nonzero) simp_all
  then obtain q where "fl_div (fl_mul (fl_sub x2 x1) (fl_sub y (PFin y1))) (fl_sub (PFin y2) (PFin y1)) = Inr q"
    using fl_div_ok by blast
  then show ?thesis by (simp add: toggle_def is_ok_bindR)
qed

lemma ring_loop_ok: "vertices ps \<Longrightarrow> is_ok (ring_loop x y inside ps)"
proof (induction x y inside ps rule: ring_loop.induct)
  case (1 x y inside a b rest)
  from 1(2) obtain x1 y1 x2 y2 where v: "vertex a x1 y1" "vertex b x2 y2" by (auto simp: vertices_def)
  then have p: "ring_point a = Inr (PFin x1, PFin y1)" "ring_point b = Inr (PFin x2, PFin y2)" by (simp_all add: vertex_def)
  have "is_ok (toggle inside x y (PFin x1, PFin y1) (PFin x2, PFin y2))"
    using v by (intro toggle_ok) (simp_all add: vertex_def)
  then obtain i where i: "toggle inside x y (PFin x1, PFin y1) (PFin x2, PFin y2) = Inr i"
    by (auto simp: is_ok_iff)
  from 1(2) have "vertices (b # rest)" by (simp add: vertices_def)
  with 1(1) p i show ?case by (cases "point_on_segment x y (PFin x1) (PFin y1) (PFin x2) (PFin y2)") auto
qed auto

lemma ring_contains_ok: "vertices ps \<Longrightarrow> is_ok (ring_contains (JList ps) p)"
  by (simp add: ring_contains_def ring_loop_ok)

lemma any_ring_ok: "\<forall>r\<in>set rs. \<exists>ps. r = JList ps \<and> vertices ps \<Longrightarrow> is_ok (any_ring rs p)"
proof (induction rs)
  case (Cons r rs)
  then obtain ps where r: "r = JList ps" "vertices ps" "is_ok (any_ring rs p)" by auto
  from ring_contains_ok [OF r(2), of p] r show ?case by (auto simp: is_ok_bindR is_ok_iff)
qed simp

lemma polygon_contains_ok:
  assumes "validate_polygon g = Inr ()" "double_json g"
  shows "is_ok (polygon_contains g p)"
proof -
  from validate_polygon_rings [OF assms] obtain r rs where g: "g = JList (r # rs)"
    "\<forall>x\<in>set (r # rs). \<exists>ps. x = JList ps \<and> 4 \<le> length ps \<and> vertices ps" by blast
  then obtain ps where "r = JList ps" "vertices ps" by auto
  with ring_contains_ok [of ps p] have "is_ok (ring_contains r p)" by blast
  moreover have "is_ok (any_ring rs p)" using g(2) by (intro any_ring_ok) auto
  ultimately show ?thesis using g(1) by (auto simp: polygon_contains_def is_ok_bindR is_ok_iff)
qed

lemma any_polygon_ok:
  "\<forall>g\<in>set gs. validate_polygon g = Inr () \<and> double_json g \<Longrightarrow> is_ok (any_polygon gs p)"
proof (induction gs)
  case (Cons g gs)
  then have "is_ok (polygon_contains g p)" "is_ok (any_polygon gs p)" by (auto intro: polygon_contains_ok)
  then show ?case by (auto simp: is_ok_bindR is_ok_iff)
qed simp

lemma new_geofence_Inr:
  assumes "new_geofence ident g = Inr gf"
  obtains d cs where "g = JObj d" "gf = \<lparr>fence_id = ident, geometry = d\<rparr>" "jget d ''coordinates'' = JList cs"
    "jget d ''type'' = JStr ''Polygon'' \<and> validate_polygon (JList cs) = Inr () \<or>
     jget d ''type'' = JStr ''MultiPolygon'' \<and> (\<forall>p\<in>set cs. validate_polygon p = Inr ())"
proof -
  from assms obtain d where d: "g = JObj d" "gf = \<lparr>fence_id = ident, geometry = d\<rparr>" "validate_geometry (JObj d) = Inr ()"
    by (auto simp: new_geofence_def res_simps)
  have g: "jget d ''type'' = JStr ''Polygon'' \<or> jget d ''type'' = JStr ''MultiPolygon''"
    using d(3) by (cases "jget d ''type''") (simp_all add: validate_geometry_def Let_def bindR_Inr_iff)
  have "\<exists>c cs. jget d ''coordinates'' = JList (c # cs)"
  proof (cases "jget d ''coordinates''")
    case (JList xs)
    with d(3) g show ?thesis by (cases xs) (auto simp: validate_geometry_def)
  qed (use d(3) g in \<open>auto simp: validate_geometry_def\<close>)
  then obtain c cs where c: "jget d ''coordinates'' = JList (c # cs)" by blast
  show ?thesis
  proof (rule that [OF d(1,2) c])
    from g show "jget d ''type'' = JStr ''Polygon'' \<and> validate_polygon (JList (c # cs)) = Inr () \<or>
     jget d ''type'' = JStr ''MultiPolygon'' \<and> (\<forall>p\<in>set (c # cs). validate_polygon p = Inr ())"
    proof
      assume "jget d ''type'' = JStr ''Polygon''"
      with d(3) c show ?thesis by (simp add: validate_geometry_def forR_Inr bindR_Inr_iff)
    next
      assume "jget d ''type'' = JStr ''MultiPolygon''"
      with d(3) c show ?thesis by (simp add: validate_geometry_def forR_Inr bindR_Inr_iff)
    qed
  qed
qed

lemma jget_item: "jget d k = v \<Longrightarrow> v \<noteq> JNull \<Longrightarrow> jitem d k = Inr v"
  by (auto simp: jget_def jitem_def split: option.splits)

lemma double_json_jget: "double_json (JObj d) \<Longrightarrow> double_json (jget d k)"
  by (fastforce simp: jget_def split: option.splits dest: map_of_SomeD)

lemma contains_cases:
  assumes "new_geofence ident g = Inr gf"
  obtains cs where "jget (geometry gf) ''coordinates'' = JList cs" "validate_polygon (JList cs) = Inr ()"
      "contains gf p = polygon_contains (JList cs) p"
  | cs where "jget (geometry gf) ''coordinates'' = JList cs" "\<forall>q\<in>set cs. validate_polygon q = Inr ()"
      "contains gf p = any_polygon cs p"
  using assms
proof (rule new_geofence_Inr)
  fix d cs
  assume d: "g = JObj d" "gf = \<lparr>fence_id = ident, geometry = d\<rparr>" "jget d ''coordinates'' = JList cs"
    and t: "jget d ''type'' = JStr ''Polygon'' \<and> validate_polygon (JList cs) = Inr () \<or>
     jget d ''type'' = JStr ''MultiPolygon'' \<and> (\<forall>p\<in>set cs. validate_polygon p = Inr ())"
  from jget_item [OF d(3)] have i: "jitem d ''coordinates'' = Inr (JList cs)" by simp
  from t show thesis
  proof (elim disjE conjE)
    assume a: "jget d ''type'' = JStr ''Polygon''" "validate_polygon (JList cs) = Inr ()"
    from jget_item [OF a(1)] i have "contains gf p = polygon_contains (JList cs) p" by (simp add: contains_def d(2))
    with a d show thesis by (intro that(1)) simp_all
  next
    assume a: "jget d ''type'' = JStr ''MultiPolygon''" "\<forall>p\<in>set cs. validate_polygon p = Inr ()"
    from jget_item [OF a(1)] i have "contains gf p = any_polygon cs p" by (simp add: contains_def d(2))
    with a d show thesis by (intro that(2)) simp_all
  qed
qed

section \<open>Vertices\<close>

lemma boundary_tolerance_pos: "boundary_tolerance = PFin t \<Longrightarrow> 0 < t"
  by (auto simp: boundary_tolerance_def)

lemma vertex_on_own_segment:
  assumes "is_double x1" "is_double y1" "\<bar>x1\<bar> \<le> 180" "\<bar>y1\<bar> \<le> 90" "is_double x2" "is_double y2" "\<bar>x2\<bar> \<le> 180" "\<bar>y2\<bar> \<le> 90"
  shows "point_on_segment (PFin x1) (PFin y1) (PFin x1) (PFin y1) (PFin x2) (PFin y2)"
proof -
  obtain t where t: "boundary_tolerance = PFin t" "0 < t" using boundary_tolerance_pos unfolding boundary_tolerance_def by blast
  have fin: "\<exists>r. round_double (a - b) = PFin r" if "\<bar>a\<bar> \<le> 180" "\<bar>b\<bar> \<le> 180" for a b
    using round_double_finite [of "a - b" 360] that by (fastforce simp: abs_le_iff)
  obtain dx dy where d: "round_double (x2 - x1) = PFin dx" "round_double (y2 - y1) = PFin dy"
    using fin [of x2 x1] fin [of y2 y1] assms by auto
  have z: "round_double 0 = PFin 0" by (simp add: round_double_def)
  have bounds: "fl_le (fl_sub (fl_min (PFin a) (PFin b)) boundary_tolerance) (PFin a) \<and>
      fl_le (PFin a) (fl_add (fl_max (PFin a) (PFin b)) boundary_tolerance)" if a: "is_double a" for a b
  proof
    show "fl_le (fl_sub (fl_min (PFin a) (PFin b)) boundary_tolerance) (PFin a)"
      using t(2) round_double_upper [OF a] by (auto simp: fl_min_def fl_sub_fin t(1))
    show "fl_le (PFin a) (fl_add (fl_max (PFin a) (PFin b)) boundary_tolerance)"
      using t(2) round_double_lower [OF a] by (auto simp: fl_max_def t(1))
  qed
  show ?thesis
    using bounds [OF assms(1), of x2] bounds [OF assms(2), of y2] t(2)
    by (simp add: point_on_segment_def fl_sub_fin d z t(1))
qed

lemma ring_loop_vertex:
  assumes "vertices ps" "i < length ps - 1" "vertex (ps ! i) x y"
  shows "ring_loop (PFin x) (PFin y) inside ps = Inr True"
  using assms
proof (induction ps arbitrary: i inside)
  case (Cons a ps)
  then obtain b rest where ps: "ps = b # rest" by (cases ps) auto
  from Cons.prems(1) ps obtain x1 y1 x2 y2 where v: "vertex a x1 y1" "vertex b x2 y2" by (auto simp: vertices_def)
  then have p: "ring_point a = Inr (PFin x1, PFin y1)" "ring_point b = Inr (PFin x2, PFin y2)" by (simp_all add: vertex_def)
  show ?case
  proof (cases i)
    case 0
    with Cons.prems(3) v(1) have "x = x1" "y = y1" by (simp_all add: vertex_def)
    moreover have "point_on_segment (PFin x1) (PFin y1) (PFin x1) (PFin y1) (PFin x2) (PFin y2)"
      using v by (intro vertex_on_own_segment) (simp_all add: vertex_def)
    ultimately show ?thesis using p ps by simp
  next
    case (Suc j)
    have "is_ok (toggle inside (PFin x) (PFin y) (PFin x1, PFin y1) (PFin x2, PFin y2))"
      using v by (intro toggle_ok) (simp_all add: vertex_def)
    then obtain k where k: "toggle inside (PFin x) (PFin y) (PFin x1, PFin y1) (PFin x2, PFin y2) = Inr k"
      by (auto simp: is_ok_iff)
    have "ring_loop (PFin x) (PFin y) k ps = Inr True"
      using Cons.prems ps Suc by (intro Cons.IH [of j]) (simp_all add: vertices_def)
    then show ?thesis using p k ps by simp
  qed
qed simp

section \<open>Properties\<close>

text \<open>
  Containment always answers: for a geofence that validated (its floats being doubles) and any position, the even-odd test returns
  true or false; no division by zero and no malformed coordinate can stop it.
\<close>

theorem contains_total:
  assumes "new_geofence ident g = Inr gf" "double_json g"
  shows "\<exists>b. contains gf p = Inr b"
proof -
  from assms(1) have "g = JObj (geometry gf)" by (rule new_geofence_Inr) simp
  with assms(2) have g: "double_json (jget (geometry gf) ''coordinates'')" by (intro double_json_jget) simp
  have d: "double_json (JList cs)" if "jget (geometry gf) ''coordinates'' = JList cs" for cs
    using g that by simp
  have "is_ok (contains gf p)"
    using assms(1)
  proof (cases rule: contains_cases [of _ _ _ p])
    case (1 cs)
    with d [OF 1(1)] polygon_contains_ok [OF 1(2)] show ?thesis by metis
  next
    case (2 cs)
    have "is_ok (any_polygon cs p)" using 2(2) d [OF 2(1)] by (intro any_polygon_ok) simp
    with 2(3) show ?thesis by simp
  qed
  then show ?thesis by (simp add: is_ok_iff)
qed

text \<open>A square with a square hole.\<close>

definition square :: "int \<Rightarrow> int \<Rightarrow> json" where
  "square a b =
     (let p = (\<lambda>x y. JList [JFloat (PFin (of_int x)), JFloat (PFin (of_int y))])
      in JList [p a a, p b a, p b b, p a b, p a a])"

definition sample_geometry :: json where
  "sample_geometry = JObj [(''type'', JStr ''Polygon''), (''coordinates'', JList [square 0 10, square 4 6])]"

definition sample_fence :: geofence where
  "sample_fence = \<lparr>fence_id = ''lagos'', geometry = [(''type'', JStr ''Polygon''), (''coordinates'', JList [square 0 10, square 4 6])]\<rparr>"

lemma square_valid: "\<bar>a\<bar> \<le> 90 \<Longrightarrow> \<bar>b\<bar> \<le> 90 \<Longrightarrow> validate_ring (square a b) = Inr ()"
  by (simp add: square_def Let_def validate_ring_def validate_coordinate_def new_position_def number_eq_def abs_le_iff)

lemma square_double: "\<bar>a\<bar> \<le> 90 \<Longrightarrow> \<bar>b\<bar> \<le> 90 \<Longrightarrow> double_json (square a b)"
  using is_double_of_int [of a] is_double_of_int [of b] by (simp add: square_def Let_def)

lemma sample_fence_valid: "new_geofence ''lagos'' sample_geometry = Inr sample_fence"
  by (simp add: new_geofence_def sample_geometry_def sample_fence_def validate_geometry_def validate_polygon_def square_valid
      strip_def py_space_def code_def Let_def)

lemma sample_geometry_double: "double_json sample_geometry"
  using square_double [of 0 10] square_double [of 4 6] by (simp add: sample_geometry_def)

lemma contains_total_witness:
  "new_geofence ''lagos'' sample_geometry = Inr sample_fence \<and>
   (\<exists>b. contains sample_fence \<lparr>pos_latitude = PFin 5, pos_longitude = PFin 2\<rparr> = Inr b)"
  using contains_total [OF sample_fence_valid sample_geometry_double] sample_fence_valid by blast

text \<open>
  The outer boundary belongs to a polygon and the boundary of a hole does not: the position at a vertex of the outer ring
  is contained unless a hole contains it, and the position at a vertex of a hole is never contained.
\<close>

theorem polygon_boundaries:
  assumes "validate_polygon (JList (JList ps # holes)) = Inr ()" "double_json (JList (JList ps # holes))"
    and "p = \<lparr>pos_latitude = PFin y, pos_longitude = PFin x\<rparr>" "ring_point v = Inr (PFin x, PFin y)"
  shows "(v \<in> set (butlast ps) \<longrightarrow> ring_contains (JList ps) p = Inr True \<and>
       (polygon_contains (JList (JList ps # holes)) p = Inr True \<longleftrightarrow> any_ring holes p = Inr False)) \<and>
     (\<forall>qs. JList qs \<in> set holes \<longrightarrow> v \<in> set (butlast qs) \<longrightarrow> polygon_contains (JList (JList ps # holes)) p = Inr False)"
proof -
  from validate_polygon_rings [OF assms(1,2)] have rings: "vertices ps" "\<forall>r\<in>set holes. \<exists>qs. r = JList qs \<and> vertices qs"
    by auto
  have on_vertex: "ring_contains (JList qs) p = Inr True" if q: "vertices qs" "v \<in> set (butlast qs)" for qs
  proof -
    from q(2) obtain i where i: "i < length qs - 1" "qs ! i = v"
      by (auto simp: in_set_conv_nth nth_butlast)
    then have "i < length qs" by simp
    then have "qs ! i \<in> set qs" by (rule nth_mem)
    with q(1) i assms(4) have "vertex (qs ! i) x y" by (auto simp: vertices_def vertex_def)
    from ring_loop_vertex [OF q(1) i(1) this] show ?thesis by (simp add: ring_contains_def assms(3))
  qed
  have "is_ok (any_ring holes p)" using rings(2) by (intro any_ring_ok) blast
  then obtain h where h: "any_ring holes p = Inr h" by (auto simp: is_ok_iff)
  have in_hole: "h" if "JList qs \<in> set holes" "ring_contains (JList qs) p = Inr True" for qs
    using that h by (induction holes arbitrary: h) (auto simp: res_simps split: if_splits)
  have outer: "\<exists>b. ring_contains (JList ps) p = Inr b" using ring_contains_ok [OF rings(1), of p] by (simp add: is_ok_iff)
  show ?thesis
  proof (intro conjI impI allI)
    assume "v \<in> set (butlast ps)"
    with on_vertex [OF rings(1)] show c: "ring_contains (JList ps) p = Inr True" by blast
    from c h show "polygon_contains (JList (JList ps # holes)) p = Inr True \<longleftrightarrow> any_ring holes p = Inr False"
      by (simp add: polygon_contains_def)
  next
    fix qs assume q: "JList qs \<in> set holes" "v \<in> set (butlast qs)"
    with rings(2) have "vertices qs" by auto
    with q have h by (intro in_hole on_vertex)
    with h outer show "polygon_contains (JList (JList ps # holes)) p = Inr False" by (auto simp: polygon_contains_def)
  qed
qed

lemma polygon_boundaries_witness:
  "polygon_contains (JList [square 0 10, square 4 6]) \<lparr>pos_latitude = PFin 6, pos_longitude = PFin 4\<rparr> = Inr False"
proof -
  obtain ps qs where s: "square 0 10 = JList ps" "square 4 6 = JList qs"
    and v: "JList [JFloat (PFin 4), JFloat (PFin 6)] \<in> set (butlast qs)"
    by (auto simp: square_def Let_def)
  have "validate_polygon (JList (JList ps # [JList qs])) = Inr ()"
    using square_valid [of 0 10] square_valid [of 4 6] by (simp add: validate_polygon_def s)
  moreover have "double_json (JList (JList ps # [JList qs]))"
    using square_double [of 0 10] square_double [of 4 6] by (simp add: s)
  moreover have "ring_point (JList [JFloat (PFin 4), JFloat (PFin 6)]) = Inr (PFin 4, PFin 6)" by (simp add: ring_point_def)
  ultimately show ?thesis
    using polygon_boundaries [of ps "[JList qs]" "\<lparr>pos_latitude = PFin 6, pos_longitude = PFin 4\<rparr>" 6 4
        "JList [JFloat (PFin 4), JFloat (PFin 6)]"] v
    by (simp add: s)
qed

end
