(* ===== verification/Vessel_Tracks.thy ===== *)
theory Vessel_Tracks
  imports Py_Number Ingest
begin

text \<open>
  The geometry of \<open>vessel_lakehouse.py\<close>: WKT text, Ramer-Douglas-Peucker simplification, the self-intersection test,
  the topology guard and the segmentation of a track.  \<open>math.hypot\<close> is the parameter \<open>hy\<close>: its last bit is not
  specified, and nothing depends on it.  Times are in microseconds.
\<close>

section \<open>Points and WKT\<close>

record track_point =
  tp_occurred_at :: int
  tp_longitude :: pyfloat
  tp_latitude :: pyfloat
  tp_event_id :: string

type_synonym coordinate = "pyfloat \<times> pyfloat"

definition track_coordinate :: "track_point \<Rightarrow> coordinate" where
  "track_coordinate p = (tp_longitude p, tp_latitude p)"

text \<open>A negative zero is written as \<open>-0\<close> and then replaced, so the one zero of the model gives the same text.\<close>

definition format_ordinate :: "pyfloat \<Rightarrow> string" where
  "format_ordinate value =
     (let s = rstrip_char (CHR ''.'') (rstrip_char (CHR ''0'') (fixed7 value))
      in if s \<noteq> ''-0'' \<and> s \<noteq> [] then s else ''0'')"

definition coordinate_text :: "coordinate \<Rightarrow> string" where
  "coordinate_text c = format_ordinate (fst c) @ '' '' @ format_ordinate (snd c)"

definition point_wkt :: "track_point \<Rightarrow> string" where
  "point_wkt p = ''POINT ('' @ coordinate_text (track_coordinate p) @ '')''"

definition line_wkt :: "track_point list \<Rightarrow> string" where
  "line_wkt ps = ''LINESTRING ('' @ join_with '', '' (map (coordinate_text \<circ> track_coordinate) ps) @ '')''"

section \<open>Simplification\<close>

definition perpendicular_distance :: "(pyfloat \<Rightarrow> pyfloat \<Rightarrow> pyfloat) \<Rightarrow> coordinate \<Rightarrow> coordinate \<Rightarrow> coordinate \<Rightarrow> pyfloat res" where
  "perpendicular_distance hy p s e =
     (let dx = fl_sub (fst e) (fst s); dy = fl_sub (snd e) (snd s);
          length_sq = fl_add (fl_mul dx dx) (fl_mul dy dy)
      in if length_sq = PFin 0 then Inr (hy (fl_sub (fst p) (fst s)) (fl_sub (snd p) (snd s)))
         else
           let numerator = fl_abs (fl_sub (fl_add (fl_sub (fl_mul dy (fst p)) (fl_mul dx (snd p))) (fl_mul (fst e) (snd s)))
                                     (fl_mul (snd e) (fst s)))
           in bindR (fl_sqrt length_sq) (\<lambda>root. fl_div numerator root))"

text \<open>The inner loop: the first index of the greatest distance, \<open>-1\<close> and \<open>-1.0\<close> at the start.\<close>

definition farthest_step :: "(coordinate \<Rightarrow> coordinate \<Rightarrow> coordinate \<Rightarrow> pyfloat res) \<Rightarrow> coordinate list \<Rightarrow> nat \<Rightarrow> nat \<Rightarrow>
    int \<times> pyfloat \<Rightarrow> nat \<Rightarrow> (int \<times> pyfloat) res" where
  "farthest_step dm cs first final st i =
     bindR (dm (cs ! i) (cs ! first) (cs ! final)) (\<lambda>d. Inr (if fl_less (snd st) d then (int i, d) else st))"

definition farthest :: "(coordinate \<Rightarrow> coordinate \<Rightarrow> coordinate \<Rightarrow> pyfloat res) \<Rightarrow> coordinate list \<Rightarrow> nat \<Rightarrow> nat \<Rightarrow> (int \<times> pyfloat) res" where
  "farthest dm cs first final = foldR (farthest_step dm cs first final) (- 1, PFin (- 1)) [first + 1..<final]"

text \<open>Whether the farthest point is kept: its index, when its distance exceeds the tolerance.\<close>

definition split_index :: "pyfloat \<Rightarrow> int \<times> pyfloat \<Rightarrow> nat option" where
  "split_index tolerance st = (if fl_less tolerance (snd st) \<and> 0 < fst st then Some (nat (fst st)) else None)"

lemma farthest_index:
  assumes "foldR (farthest_step dm cs first final) st [m..<n] = Inr (i, d)" "fst st = - 1 \<or> int first < fst st \<and> fst st < int k"
    "first < m" "n \<le> k"
  shows "i = - 1 \<or> int first < i \<and> i < int k"
  using assms
proof (induction "n - m" arbitrary: m st)
  case (Suc l)
  then have "[m..<n] = m # [Suc m..<n]" by (simp add: upt_rec)
  with Suc.prems(1) obtain st' where st': "farthest_step dm cs first final st m = Inr st'"
    "foldR (farthest_step dm cs first final) st' [Suc m..<n] = Inr (i, d)" by (auto simp: bindR_Inr_iff)
  from st'(1) have "st' = st \<or> fst st' = int m" by (auto simp: farthest_step_def bindR_Inr_iff split: if_splits)
  with Suc.prems Suc.hyps(2) have "fst st' = - 1 \<or> int first < fst st' \<and> fst st' < int k" by auto
  with Suc.hyps Suc.prems st'(2) show ?case by (intro Suc.hyps(1) [of "Suc m" st']) simp_all
qed auto

lemma split_index_between:
  assumes "farthest dm cs first final = Inr st" "split_index tolerance st = Some m"
  shows "first < m \<and> m < final"
proof -
  obtain i d where st: "st = (i, d)" by (cases st)
  with assms(1) have "i = - 1 \<or> int first < i \<and> i < int final"
    unfolding farthest_def by (intro farthest_index [of dm cs first final "(- 1, PFin (- 1))" "first + 1" final i d final]) simp_all
  with assms(2) st show ?thesis by (auto simp: split_index_def split: if_splits)
qed

text \<open>The stack of intervals, its top first.\<close>

function (sequential) rdp_loop :: "(coordinate \<Rightarrow> coordinate \<Rightarrow> coordinate \<Rightarrow> pyfloat res) \<Rightarrow> pyfloat \<Rightarrow> coordinate list \<Rightarrow>
    (nat \<times> nat) list \<Rightarrow> bool list \<Rightarrow> bool list res" where
  "rdp_loop dm tolerance cs [] keep = Inr keep"
| "rdp_loop dm tolerance cs ((first, final) # stack) keep =
     bindR (farthest dm cs first final) (\<lambda>st.
     case split_index tolerance st of
       None \<Rightarrow> rdp_loop dm tolerance cs stack keep
     | Some m \<Rightarrow> rdp_loop dm tolerance cs ((m, final) # (first, m) # stack) (keep[m := True]))"
  by pat_completeness auto

definition stack_weight :: "(nat \<times> nat) list \<Rightarrow> nat" where
  "stack_weight stack = sum_list (map (\<lambda>(first, final). 2 * (final - first) - 1) stack)"

termination rdp_loop
proof (relation "measures [\<lambda>(dm, tolerance, cs, stack, keep). stack_weight stack, \<lambda>(dm, tolerance, cs, stack, keep). length stack]")
  fix dm :: "coordinate \<Rightarrow> coordinate \<Rightarrow> coordinate \<Rightarrow> pyfloat res" and tolerance cs first final stack keep st m
  assume "farthest dm cs first final = Inr st" "split_index tolerance st = Some m"
  from split_index_between [OF this] have "first < m" "m < final" by simp_all
  then show "((dm, tolerance, cs, (m, final) # (first, m) # stack, keep[m := True]), dm, tolerance, cs, (first, final) # stack, keep)
    \<in> measures [\<lambda>(dm, tolerance, cs, stack, keep). stack_weight stack, \<lambda>(dm, tolerance, cs, stack, keep). length stack]"
    by (simp add: stack_weight_def)
qed (auto simp: stack_weight_def)

definition rdp_simplify :: "(pyfloat \<Rightarrow> pyfloat \<Rightarrow> pyfloat) \<Rightarrow> coordinate list \<Rightarrow> pyfloat \<Rightarrow> coordinate list res" where
  "rdp_simplify hy cs tolerance =
     bindR (guard (\<not> fl_le tolerance (PFin 0) \<and> isfinite tolerance) ValueError
              ''simplification tolerance must be a positive finite value'') (\<lambda>_.
     if length cs \<le> 2 then Inr cs
     else
       let keep = (replicate (length cs) False)[0 := True, length cs - 1 := True]
       in bindR (rdp_loop (perpendicular_distance hy) tolerance cs [(0, length cs - 1)] keep) (\<lambda>kept.
          Inr (map fst (filter snd (zip cs kept)))))"

section \<open>Self-intersection\<close>

definition orientation :: "coordinate \<Rightarrow> coordinate \<Rightarrow> coordinate \<Rightarrow> pyfloat" where
  "orientation a b c =
     fl_sub (fl_mul (fl_sub (fst b) (fst a)) (fl_sub (snd c) (snd a))) (fl_mul (fl_sub (snd b) (snd a)) (fl_sub (fst c) (fst a)))"

definition segments_intersect :: "coordinate \<Rightarrow> coordinate \<Rightarrow> coordinate \<Rightarrow> coordinate \<Rightarrow> bool" where
  "segments_intersect p1 p2 q1 q2 =
     (let d1 = orientation q1 q2 p1; d2 = orientation q1 q2 p2; d3 = orientation p1 p2 q1; d4 = orientation p1 p2 q2
      in fl_less (PFin 0) d1 \<noteq> fl_less (PFin 0) d2 \<and> fl_less (PFin 0) d3 \<noteq> fl_less (PFin 0) d4)"

definition is_simple_line :: "coordinate list \<Rightarrow> bool" where
  "is_simple_line cs =
     (if length cs < 4 then True
      else list_all (\<lambda>i. list_all (\<lambda>j. \<not> segments_intersect (cs ! i) (cs ! (i + 1)) (cs ! j) (cs ! (j + 1)))
             [i + 2..<length cs - 1]) [0..<length cs - 1])"

section \<open>The topology guard\<close>

definition MAX_SIMPLIFY_RETRIES :: nat where "MAX_SIMPLIFY_RETRIES = 8"

text \<open>\<open>==\<close> of coordinate pairs: equal floats, and a NaN equals nothing.\<close>

definition coordinate_eq :: "coordinate \<Rightarrow> coordinate \<Rightarrow> bool" where
  "coordinate_eq a b = (fst a = fst b \<and> fst a \<noteq> PNaN \<and> snd a = snd b \<and> snd a \<noteq> PNaN)"

text \<open>The indices of the simplified coordinates: for each the first equal one from the cursor on, none when there is none.\<close>

definition first_index :: "coordinate list \<Rightarrow> nat \<Rightarrow> coordinate \<Rightarrow> nat option" where
  "first_index cs cursor c = List.find (\<lambda>i. coordinate_eq (cs ! i) c) [cursor..<length cs]"

fun matched_indices :: "coordinate list \<Rightarrow> nat \<Rightarrow> coordinate list \<Rightarrow> nat list" where
  "matched_indices cs cursor [] = []"
| "matched_indices cs cursor (c # simplified) =
     (case first_index cs cursor c of
        None \<Rightarrow> matched_indices cs cursor simplified
      | Some i \<Rightarrow> i # matched_indices cs (i + 1) simplified)"

fun simplify_attempts :: "(pyfloat \<Rightarrow> pyfloat \<Rightarrow> pyfloat) \<Rightarrow> track_point list \<Rightarrow> nat \<Rightarrow> pyfloat \<Rightarrow> track_point list res" where
  "simplify_attempts hy points 0 candidate = Inr points"
| "simplify_attempts hy points (Suc n) candidate =
     (let cs = map track_coordinate points
      in bindR (rdp_simplify hy cs candidate) (\<lambda>simplified.
         if length simplified \<le> 2 \<or> is_simple_line simplified
         then Inr (map ((!) points) (matched_indices cs 0 simplified))
         else bindR (fl_div candidate (PFin 2)) (\<lambda>half. simplify_attempts hy points n half)))"

definition simplify_preserving_topology :: "(pyfloat \<Rightarrow> pyfloat \<Rightarrow> pyfloat) \<Rightarrow> track_point list \<Rightarrow> pyfloat \<Rightarrow>
    track_point list res" where
  "simplify_preserving_topology hy points tolerance =
     (if length points \<le> 2 then Inr points else simplify_attempts hy points MAX_SIMPLIFY_RETRIES tolerance)"

section \<open>Segmentation\<close>

text \<open>The loop over consecutive pairs: the segments so far, the last one open.\<close>

definition segment_step :: "int \<Rightarrow> track_point list list \<Rightarrow> track_point \<times> track_point \<Rightarrow> track_point list list" where
  "segment_step threshold segments pair =
     (if threshold < tp_occurred_at (snd pair) - tp_occurred_at (fst pair) then segments @ [[snd pair]]
      else butlast segments @ [last segments @ [snd pair]])"

definition segment_track :: "track_point list \<Rightarrow> int \<Rightarrow> track_point list list res" where
  "segment_track points threshold =
     bindR (guard (0 < threshold) ValueError ''gap threshold must be positive'') (\<lambda>_.
     case points of
       [] \<Rightarrow> Inr []
     | p # ps \<Rightarrow> Inr (foldl (segment_step threshold) [[p]] (zip (p # ps) ps)))"

section \<open>Distances\<close>

lemma fl_less_irrefl [simp]: "\<not> fl_less a a"
  by (cases a) simp_all

lemma fl_less_NaN [simp]: "\<not> fl_less a PNaN"
  by (cases a) simp_all

lemma not_fl_less_trans: "b \<noteq> PNaN \<Longrightarrow> \<not> fl_less a b \<Longrightarrow> \<not> fl_less b c \<Longrightarrow> \<not> fl_less a c"
  by (cases a; cases b; cases c) auto

lemma fl_mul_self: "fl_mul a a = PNaN \<or> fl_mul a a = PInf \<or> (\<exists>q. fl_mul a a = PFin q \<and> 0 \<le> q)"
proof (cases a)
  case (PFin x)
  have "fl_le (PFin 0) (round_double (x * x))" by (rule round_double_nonneg) simp
  with PFin show ?thesis by (cases "round_double (x * x)") auto
qed (simp_all add: fl_inf_def)

lemma sum_of_squares:
  "fl_add (fl_mul a a) (fl_mul b b) \<in> {PNaN, PInf} \<or>
   (\<exists>q. fl_add (fl_mul a a) (fl_mul b b) = PFin q \<and> 0 \<le> q \<and> on_grid q)"
proof -
  have fin: "round_double (x + y) = PInf \<or> (\<exists>q. round_double (x + y) = PFin q \<and> 0 \<le> q \<and> on_grid q)"
    if "0 \<le> x" "0 \<le> y" for x y
  proof -
    have "fl_le (PFin 0) (round_double (x + y))" using that by (intro round_double_nonneg) simp
    then show ?thesis using round_double_on_grid by (cases "round_double (x + y)") auto
  qed
  consider "fl_mul a a = PNaN \<or> fl_mul b b = PNaN" | "fl_mul a a = PInf \<or> fl_mul b b = PInf" "fl_mul a a \<noteq> PNaN" "fl_mul b b \<noteq> PNaN"
    | x y where "fl_mul a a = PFin x" "0 \<le> x" "fl_mul b b = PFin y" "0 \<le> y"
    using fl_mul_self [of a] fl_mul_self [of b] by blast
  then show ?thesis
  proof cases
    case 1
    then show ?thesis by (cases "fl_mul a a") auto
  next
    case 2
    then show ?thesis using fl_mul_self [of a] fl_mul_self [of b] by auto
  next
    case 3
    with fin show ?thesis by auto
  qed
qed

text \<open>The root of a positive double is positive: \<open>sqrt\<close> does not underflow.\<close>

lemma fl_sqrt_positive:
  assumes "on_grid q" "0 < q"
  shows "\<exists>r. fl_sqrt (PFin q) = Inr r \<and> r \<noteq> PFin 0"
proof -
  define l where "l = leading_exponent q"
  define k where "k = 56 - l div 2"
  define m where "m = q * pow2 (2 * k)"
  define s where "s = isqrt (nat \<lfloor>m\<rfloor>)"
  define v where "v = (if of_nat (s * s) = m then of_nat s else of_nat s + 1 / 2 :: rat)"
  have lq: "pow2 l \<le> q" unfolding l_def by (rule leading_exponent_interval(1) [OF assms(2)])
  have "0 \<le> l + 2 * k" unfolding k_def by presburger
  then have "pow2 0 \<le> pow2 (l + 2 * k)" by (rule pow2_mono)
  also have "\<dots> \<le> m" using lq pow2_pos [of "2 * k"] by (simp add: m_def pow2_add)
  finally have "1 \<le> \<lfloor>m\<rfloor>" by simp
  then have "1 \<le> nat \<lfloor>m\<rfloor>" by linarith
  then have s: "1 \<le> s" using isqrt_bounds [of "nat \<lfloor>m\<rfloor>"] by (cases s) (simp_all add: s_def)
  then have "(1::rat) \<le> of_nat s" by simp
  then have "1 \<le> v" by (simp add: v_def)
  then have v: "pow2 (- k) \<le> v * pow2 (- k)" using pow2_pos [of "- k"] by simp
  have "- 1074 \<le> - k"
  proof -
    have "- 1074 \<le> l"
    proof (rule ccontr)
      assume "\<not> ?thesis"
      then have "pow2 (l + 1) \<le> pow2 (- 1074)" by (intro pow2_mono) simp
      with on_grid_lower [OF assms] leading_exponent_interval(2) [OF assms(2)] show False by (simp add: l_def)
    qed
    then show ?thesis unfolding k_def by presburger
  qed
  then have "pow2 (- 1074) \<le> pow2 (- k)" by (rule pow2_mono)
  with v have "pow2 (- 1074) \<le> v * pow2 (- k)" by linarith
  from round_double_positive [OF this] pow2_pos [of "- 1074"] have "round_double (v * pow2 (- k)) \<noteq> PFin 0" by auto
  moreover have "fl_sqrt (PFin q) = Inr (round_double (v * pow2 (- k)))"
    using assms(2) by (simp add: fl_sqrt_def Let_def v_def s_def m_def k_def l_def)
  ultimately show ?thesis by blast
qed

text \<open>A distance is always found: no root of a negative number, no division by zero.\<close>

lemma perpendicular_distance_ok: "\<exists>d. perpendicular_distance hy p s e = Inr d"
proof -
  define dx where "dx = fl_sub (fst e) (fst s)"
  define dy where "dy = fl_sub (snd e) (snd s)"
  define q where "q = fl_add (fl_mul dx dx) (fl_mul dy dy)"
  have root: "\<exists>r. fl_sqrt q = Inr r \<and> r \<noteq> PFin 0" if "q \<noteq> PFin 0"
  proof -
    consider "q \<in> {PNaN, PInf}" | x where "q = PFin x" "0 \<le> x" "on_grid x"
      using sum_of_squares [of dx dy] unfolding q_def by blast
    then show ?thesis
    proof cases
      case 1
      then show ?thesis by (auto simp: fl_sqrt_def)
    next
      case 2
      with that have "0 < x" by auto
      from fl_sqrt_positive [OF 2(3) this] 2(1) show ?thesis by blast
    qed
  qed
  show ?thesis
  proof (cases "q = PFin 0")
    case True
    then show ?thesis by (simp add: perpendicular_distance_def Let_def dx_def dy_def q_def)
  next
    case False
    from root [OF this] obtain r where r: "fl_sqrt q = Inr r" "r \<noteq> PFin 0" by blast
    have "perpendicular_distance hy p s e =
      fl_div (fl_abs (fl_sub (fl_add (fl_sub (fl_mul dy (fst p)) (fl_mul dx (snd p))) (fl_mul (fst e) (snd s))) (fl_mul (snd e) (fst s)))) r"
      using False r(1) unfolding q_def dx_def dy_def by (simp add: perpendicular_distance_def Let_def)
    with fl_div_ok [OF r(2)] show ?thesis by metis
  qed
qed

section \<open>The simplification loop\<close>

definition kept_gap :: "bool list \<Rightarrow> nat \<Rightarrow> nat \<Rightarrow> bool" where
  "kept_gap keep a b \<longleftrightarrow> a < b \<and> b < length keep \<and> keep ! a \<and> keep ! b \<and> (\<forall>i. a < i \<and> i < b \<longrightarrow> \<not> keep ! i)"

definition near_chord :: "(coordinate \<Rightarrow> coordinate \<Rightarrow> coordinate \<Rightarrow> pyfloat res) \<Rightarrow> pyfloat \<Rightarrow> coordinate list \<Rightarrow> nat \<Rightarrow> nat \<Rightarrow> bool" where
  "near_chord dm tolerance cs a b \<longleftrightarrow>
     (\<forall>i. a < i \<and> i < b \<longrightarrow> (\<exists>d. dm (cs ! i) (cs ! a) (cs ! b) = Inr d \<and> \<not> fl_less tolerance d))"

lemma farthest_fold:
  assumes "foldR (farthest_step dm cs a b) st [m..<n] = Inr st'" "snd st \<noteq> PNaN" "0 < m"
  shows "snd st' \<noteq> PNaN \<and> \<not> fl_less (snd st') (snd st) \<and> (st' = st \<or> 0 < fst st') \<and>
    (\<forall>k. m \<le> k \<and> k < n \<longrightarrow> (\<exists>d. dm (cs ! k) (cs ! a) (cs ! b) = Inr d \<and> \<not> fl_less (snd st') d))"
  using assms
proof (induction "n - m" arbitrary: m st)
  case (Suc l)
  then have "[m..<n] = m # [Suc m..<n]" by (simp add: upt_rec)
  with Suc.prems(1) obtain st1 where st1: "farthest_step dm cs a b st m = Inr st1"
    "foldR (farthest_step dm cs a b) st1 [Suc m..<n] = Inr st'" by (auto simp: bindR_Inr_iff)
  from st1(1) obtain d where d: "dm (cs ! m) (cs ! a) (cs ! b) = Inr d" "st1 = (if fl_less (snd st) d then (int m, d) else st)"
    by (auto simp: farthest_step_def bindR_Inr_iff)
  have n1: "snd st1 \<noteq> PNaN" using d(2) Suc.prems(2) by auto
  have le: "\<not> fl_less (snd st1) (snd st)" "\<not> fl_less (snd st1) d" "st1 = st \<or> 0 < fst st1"
    using d(2) Suc.prems(2,3) by (cases "snd st"; cases d; auto)+
  have ih: "snd st' \<noteq> PNaN" "\<not> fl_less (snd st') (snd st1)" "st' = st1 \<or> 0 < fst st'"
    "\<forall>k. Suc m \<le> k \<and> k < n \<longrightarrow> (\<exists>d. dm (cs ! k) (cs ! a) (cs ! b) = Inr d \<and> \<not> fl_less (snd st') d)"
    using Suc.hyps(1) [of "Suc m" st1] Suc.hyps(2) st1(2) n1 by auto
  have "\<not> fl_less (snd st') (snd st)" "\<not> fl_less (snd st') d"
    using not_fl_less_trans [OF n1 ih(2)] le by blast+
  moreover have "\<forall>k. m \<le> k \<and> k < n \<longrightarrow> (\<exists>d. dm (cs ! k) (cs ! a) (cs ! b) = Inr d \<and> \<not> fl_less (snd st') d)"
    using ih(4) d(1) calculation(2) by (metis Suc_leI le_neq_implies_less)
  moreover have "st' = st \<or> 0 < fst st'" using ih(3) le(3) by metis
  ultimately show ?case using ih(1) by blast
qed auto

lemma farthest_within:
  assumes "farthest dm cs a b = Inr st" "split_index tolerance st = None" "fl_less (PFin 0) tolerance"
  shows "near_chord dm tolerance cs a b"
proof -
  from farthest_fold [OF assms(1) [unfolded farthest_def]]
  have f: "snd st \<noteq> PNaN" "st = (- 1, PFin (- 1)) \<or> 0 < fst st"
    "\<forall>k. a + 1 \<le> k \<and> k < b \<longrightarrow> (\<exists>d. dm (cs ! k) (cs ! a) (cs ! b) = Inr d \<and> \<not> fl_less (snd st) d)" by auto
  have "\<not> fl_less tolerance (snd st)"
    using f(2) assms(2,3) by (cases tolerance) (auto simp: split_index_def split: if_splits)
  with not_fl_less_trans [OF f(1)] f(3) show ?thesis unfolding near_chord_def by (metis Suc_eq_plus1 Suc_leI)
qed

lemma kept_gap_unique:
  assumes "kept_gap keep a b" "kept_gap keep c d" "a < m" "m < b" "c < m" "m < d"
  shows "a = c \<and> b = d"
proof -
  have "\<not> (a < c \<and> c < b)" "\<not> (c < a \<and> a < d)" "\<not> (a < d \<and> d < b)" "\<not> (c < b \<and> b < d)"
    using assms(1,2) unfolding kept_gap_def by blast+
  with assms(3-6) show ?thesis by linarith
qed

definition rdp_inv :: "(coordinate \<Rightarrow> coordinate \<Rightarrow> coordinate \<Rightarrow> pyfloat res) \<Rightarrow> pyfloat \<Rightarrow> coordinate list \<Rightarrow> (nat \<times> nat) list \<Rightarrow> bool list \<Rightarrow> bool" where
  "rdp_inv dm tolerance cs stack keep \<longleftrightarrow> distinct stack \<and> (\<forall>p\<in>set stack. kept_gap keep (fst p) (snd p)) \<and>
     (\<forall>a b. kept_gap keep a b \<longrightarrow> (a, b) \<in> set stack \<or> near_chord dm tolerance cs a b)"

lemma rdp_inv_pop:
  assumes "rdp_inv dm tolerance cs ((a, b) # stack) keep" "near_chord dm tolerance cs a b"
  shows "rdp_inv dm tolerance cs stack keep"
  using assms by (auto simp: rdp_inv_def)

lemma rdp_inv_split:
  assumes inv: "rdp_inv dm tolerance cs ((a, b) # stack) keep" and m: "a < m" "m < b"
  shows "rdp_inv dm tolerance cs ((m, b) # (a, m) # stack) (keep[m := True])"
proof -
  have gap: "kept_gap keep a b" using inv by (simp add: rdp_inv_def)
  then have len: "m < length keep" and nm: "\<not> keep ! m" using m by (auto simp: kept_gap_def)
  have upd: "keep[m := True] ! i = (i = m \<or> keep ! i)" if "i < length keep" for i
    using that len by (auto simp: nth_list_update)
  have other: "kept_gap (keep[m := True]) c d" if "kept_gap keep c d" "(c, d) \<noteq> (a, b)" for c d
  proof -
    have "\<not> (c < m \<and> m < d)" using kept_gap_unique [OF gap that(1) m] that(2) by auto
    with that(1) upd show ?thesis by (auto simp: kept_gap_def)
  qed
  have new: "kept_gap (keep[m := True]) m b" "kept_gap (keep[m := True]) a m"
    using gap m upd by (auto simp: kept_gap_def)
  have old_gap: "(c, d) = (m, b) \<or> (c, d) = (a, m) \<or> kept_gap keep c d \<and> (c, d) \<noteq> (a, b)" if g: "kept_gap (keep[m := True]) c d" for c d
  proof -
    have l: "d < length keep" "c < length keep" using g by (auto simp: kept_gap_def)
    have kd: "d = m \<or> keep ! d" "c = m \<or> keep ! c" using g upd l by (auto simp: kept_gap_def)
    have none: "\<not> (c < i \<and> i < d)" if "keep ! i \<or> i = m" "i < length keep" for i
      using g upd that by (auto simp: kept_gap_def)
    have cd: "c < d" using g by (simp add: kept_gap_def)
    have ab: "keep ! a" "keep ! b" "a < length keep" "b < length keep" using gap by (auto simp: kept_gap_def)
    consider "c = m" | "d = m" | "c \<noteq> m" "d \<noteq> m" by blast
    then show ?thesis
    proof cases
      case 1
      with cd kd have "keep ! d" by auto
      then have "\<not> d < b" using gap 1 cd m by (auto simp: kept_gap_def)
      moreover have "\<not> b < d" using none [of b] ab 1 m by auto
      ultimately show ?thesis using 1 by simp
    next
      case 2
      with cd kd have "keep ! c" by auto
      then have "\<not> a < c" using gap 2 cd m by (auto simp: kept_gap_def)
      moreover have "\<not> c < a" using none [of a] ab 2 m by auto
      ultimately show ?thesis using 2 by simp
    next
      case 3
      with kd have k: "keep ! c" "keep ! d" by auto
      have "kept_gap keep c d" unfolding kept_gap_def using cd l k none by (metis order_less_trans)
      moreover have "(c, d) \<noteq> (a, b)" using none [of m] len m by auto
      ultimately show ?thesis by blast
    qed
  qed
  have "(m, b) \<notin> set stack" "(a, m) \<notin> set stack" using inv nm by (auto simp: rdp_inv_def kept_gap_def)
  with inv m have "distinct ((m, b) # (a, m) # stack)" by (auto simp: rdp_inv_def)
  moreover have "kept_gap (keep[m := True]) (fst p) (snd p)" if "p \<in> set ((m, b) # (a, m) # stack)" for p
  proof (cases "p \<in> set stack")
    case True
    with inv have "kept_gap keep (fst p) (snd p)" "(fst p, snd p) \<noteq> (a, b)" by (auto simp: rdp_inv_def)
    then show ?thesis by (rule other)
  next
    case False
    with that new show ?thesis by auto
  qed
  moreover have "(c, d) \<in> set ((m, b) # (a, m) # stack) \<or> near_chord dm tolerance cs c d" if "kept_gap (keep[m := True]) c d" for c d
    using old_gap [OF that] inv by (auto simp: rdp_inv_def)
  ultimately show ?thesis unfolding rdp_inv_def by blast
qed

lemma rdp_loop_within:
  assumes "rdp_loop dm tolerance cs stack keep = Inr kept" "rdp_inv dm tolerance cs stack keep" "fl_less (PFin 0) tolerance"
  shows "length kept = length keep \<and> (\<forall>i<length keep. keep ! i \<longrightarrow> kept ! i) \<and> (\<forall>a b. kept_gap kept a b \<longrightarrow> near_chord dm tolerance cs a b)"
  using assms
proof (induction dm tolerance cs stack keep rule: rdp_loop.induct)
  case (1 dm tolerance cs keep)
  then show ?case by (auto simp: rdp_inv_def)
next
  case (2 dm tolerance cs a b stack keep)
  from 2(3) obtain st where st: "farthest dm cs a b = Inr st" by (auto simp: bindR_Inr_iff)
  show ?case
  proof (cases "split_index tolerance st")
    case None
    with 2 st farthest_within [OF st None] rdp_inv_pop show ?thesis by auto
  next
    case (Some m)
    from split_index_between [OF st Some] rdp_inv_split [OF 2(4)] have
      inv: "rdp_inv dm tolerance cs ((m, b) # (a, m) # stack) (keep[m := True])" by blast
    with 2 st Some have ih: "length kept = length keep" "\<forall>i<length keep. keep[m := True] ! i \<longrightarrow> kept ! i"
      "\<forall>a b. kept_gap kept a b \<longrightarrow> near_chord dm tolerance cs a b" by auto
    have "kept ! i" if "i < length keep" "keep ! i" for i
      using ih(2) that by (cases "i = m") auto
    with ih show ?thesis by simp
  qed
qed

lemma foldR_total: "(\<And>s x. \<exists>s'. f s x = Inr s') \<Longrightarrow> \<exists>s'. foldR f s xs = Inr s'"
proof (induction xs arbitrary: s)
  case (Cons x xs)
  from Cons.prems obtain s1 where "f s x = Inr s1" by blast
  moreover from Cons obtain s2 where "foldR f s1 xs = Inr s2" by blast
  ultimately show ?case by simp
qed simp

lemma rdp_loop_total:
  assumes "\<And>p s e. \<exists>d. dm p s e = Inr d"
  shows "\<exists>kept. rdp_loop dm tolerance cs stack keep = Inr kept"
  using assms
proof (induction dm tolerance cs stack keep rule: rdp_loop.induct)
  case (2 dm tolerance cs a b stack keep)
  have "\<exists>st'. farthest_step dm cs a b st i = Inr st'" for st i
  proof -
    obtain d where "dm (cs ! i) (cs ! a) (cs ! b) = Inr d" using 2(3) by blast
    then show ?thesis by (simp add: farthest_step_def)
  qed
  then have "\<exists>st. farthest dm cs a b = Inr st" unfolding farthest_def by (rule foldR_total)
  then obtain st where st: "farthest dm cs a b = Inr st" by blast
  show ?case
  proof (cases "split_index tolerance st")
    case None
    with 2(1) [OF st] 2(3) st show ?thesis by simp
  next
    case (Some m)
    with 2(2) [OF st] 2(3) st show ?thesis by simp
  qed
qed simp

section \<open>The indices that are kept\<close>

lemma kept_points:
  "length kept = length cs \<Longrightarrow> map fst (filter snd (zip cs kept)) = map ((!) cs) (filter ((!) kept) [0..<length cs])"
proof -
  assume l: "length kept = length cs"
  have "zip cs kept = map (\<lambda>i. (cs ! i, kept ! i)) [0..<length cs]"
    by (rule nth_equalityI) (simp_all add: l)
  then show ?thesis by (simp add: filter_map comp_def)
qed

lemma filter_upt_gap:
  assumes "ks = filter P [0..<n]" "Suc k < length ks" "ks ! k < i" "i < ks ! Suc k"
  shows "\<not> P i"
proof
  assume "P i"
  have s: "sorted_wrt (<) ks" unfolding assms(1) by (intro sorted_wrt_filter) simp
  have mem: "ks ! j \<in> set ks" if "j < length ks" for j using that by (rule nth_mem)
  then have "ks ! Suc k < n" using assms(1,2) by auto
  with \<open>P i\<close> assms(1,4) have "i \<in> set ks" by simp
  then obtain j where j: "j < length ks" "ks ! j = i" by (auto simp: in_set_conv_nth)
  have "j \<noteq> k" "j \<noteq> Suc k" using j assms(3,4) by auto
  then consider "j < k" | "Suc k < j" by linarith
  then show False
  proof cases
    case 1
    from sorted_wrt_nth_less [OF s this] assms(2) have "ks ! j < ks ! k" by simp
    with j assms(3) show False by simp
  next
    case 2
    from sorted_wrt_nth_less [OF s this j(1)] have "ks ! Suc k < ks ! j" .
    with j assms(4) show False by simp
  qed
qed

lemma filter_upt_ends:
  assumes "P 0" "P (n - 1)" "0 < n"
  shows "filter P [0..<n] \<noteq> [] \<and> hd (filter P [0..<n]) = 0 \<and> last (filter P [0..<n]) = n - 1"
proof -
  have "[0..<n] = 0 # [1..<n]" using assms(3) by (simp add: upt_rec)
  moreover obtain k where n: "n = Suc k" using assms(3) by (cases n) auto
  ultimately show ?thesis using assms(1,2) by simp
qed

definition simplified_by :: "(pyfloat \<Rightarrow> pyfloat \<Rightarrow> pyfloat) \<Rightarrow> coordinate list \<Rightarrow> pyfloat \<Rightarrow> nat list \<Rightarrow> coordinate list \<Rightarrow> bool" where
  "simplified_by hy cs tolerance ks rs \<longleftrightarrow>
     sorted_wrt (<) ks \<and> rs = map ((!) cs) ks \<and> (\<forall>k\<in>set ks. k < length cs) \<and>
     (cs \<noteq> [] \<longrightarrow> ks \<noteq> [] \<and> hd ks = 0 \<and> last ks = length cs - 1) \<and>
     (\<forall>k i. Suc k < length ks \<longrightarrow> ks ! k < i \<longrightarrow> i < ks ! Suc k \<longrightarrow>
        (\<exists>d. perpendicular_distance hy (cs ! i) (cs ! (ks ! k)) (cs ! (ks ! Suc k)) = Inr d \<and> \<not> fl_less tolerance d))"

lemma rdp_simplify_total:
  assumes "0 < t"
  shows "\<exists>ks rs. rdp_simplify hy cs (PFin t) = Inr rs \<and> simplified_by hy cs (PFin t) ks rs"
proof (cases "length cs \<le> 2")
  case True
  consider "cs = []" | a where "cs = [a]" | a b where "cs = [a, b]"
    using True by (cases cs; cases "tl cs") auto
  then have "simplified_by hy cs (PFin t) [0..<length cs] cs"
  proof cases
    case 3
    then have "[0..<length cs] = [0, 1]" by (simp add: upt_rec)
    with 3 show ?thesis by (auto simp: simplified_by_def less_Suc_eq)
  qed (auto simp: simplified_by_def)
  with True assms show ?thesis by (auto simp: rdp_simplify_def)
next
  case False
  define n where "n = length cs"
  have n: "2 < n" using False by (simp add: n_def)
  define keep where "keep = (replicate n False)[0 := True, n - 1 := True]"
  have keep: "length keep = n" "keep ! i = (i = 0 \<or> i = n - 1)" if "i < n" for i
    using that n by (auto simp: keep_def nth_list_update)
  have l: "length keep = n" by (simp add: keep_def)
  have k0: "keep ! 0" "keep ! (n - 1)" using keep(2) n by auto
  have gap: "kept_gap keep a b \<longleftrightarrow> a = 0 \<and> b = n - 1" for a b
  proof
    assume g: "kept_gap keep a b"
    then have "a < b" "b < n" by (simp_all add: kept_gap_def l)
    with g keep(2) show "a = 0 \<and> b = n - 1" by (auto simp: kept_gap_def)
  next
    assume "a = 0 \<and> b = n - 1"
    with n k0 keep(2) l show "kept_gap keep a b" by (auto simp: kept_gap_def)
  qed
  obtain kept where kept: "rdp_loop (perpendicular_distance hy) (PFin t) cs [(0, n - 1)] keep = Inr kept"
    using rdp_loop_total [of "perpendicular_distance hy"] perpendicular_distance_ok by blast
  have "rdp_inv (perpendicular_distance hy) (PFin t) cs [(0, n - 1)] keep" by (simp add: rdp_inv_def gap)
  from rdp_loop_within [OF kept this] assms l have kd: "length kept = n" "\<forall>i<n. keep ! i \<longrightarrow> kept ! i"
    "\<forall>a b. kept_gap kept a b \<longrightarrow> near_chord (perpendicular_distance hy) (PFin t) cs a b" by auto
  define ks where "ks = filter ((!) kept) [0..<n]"
  have r: "rdp_simplify hy cs (PFin t) = Inr (map ((!) cs) ks)"
    using assms False kept kept_points [of kept cs] kd(1) by (simp add: rdp_simplify_def Let_def keep_def n_def ks_def)
  have "kept ! 0" "kept ! (n - 1)" using kd(2) k0 n by auto
  then have ends: "ks \<noteq> []" "hd ks = 0" "last ks = n - 1" using filter_upt_ends [of "(!) kept" n] n by (simp_all add: ks_def)
  have inner: "\<exists>d. perpendicular_distance hy (cs ! i) (cs ! (ks ! k)) (cs ! (ks ! Suc k)) = Inr d \<and> \<not> fl_less (PFin t) d"
    if k: "Suc k < length ks" "ks ! k < i" "i < ks ! Suc k" for k i
  proof -
    have "ks ! k \<in> set ks" "ks ! Suc k \<in> set ks" using k(1) by (auto intro: nth_mem)
    then have "kept ! (ks ! k)" "kept ! (ks ! Suc k)" "ks ! Suc k < n" by (auto simp: ks_def)
    moreover have "\<not> kept ! j" if "ks ! k < j" "j < ks ! Suc k" for j
      using filter_upt_gap [OF ks_def k(1) that] .
    ultimately have "kept_gap kept (ks ! k) (ks ! Suc k)" using k by (auto simp: kept_gap_def kd(1))
    with kd(3) k show ?thesis by (auto simp: near_chord_def)
  qed
  have "simplified_by hy cs (PFin t) ks (map ((!) cs) ks)"
    unfolding simplified_by_def using ends inner by (auto simp: ks_def n_def intro!: sorted_wrt_filter)
  with r show ?thesis by blast
qed

section \<open>Recovering the points\<close>

definition plain_coordinate :: "coordinate \<Rightarrow> bool" where
  "plain_coordinate c \<longleftrightarrow> fst c \<noteq> PNaN \<and> snd c \<noteq> PNaN"

lemma coordinate_eq_plain: "plain_coordinate c \<Longrightarrow> coordinate_eq a c = (a = c)"
  by (cases a; cases c) (auto simp: plain_coordinate_def coordinate_eq_def)

lemma first_index_Some:
  assumes "i < length cs" "cursor \<le> i" "cs ! i = c" "plain_coordinate c"
  shows "\<exists>j. first_index cs cursor c = Some j \<and> cursor \<le> j \<and> j \<le> i \<and> cs ! j = c"
proof -
  have e: "coordinate_eq (cs ! k) c = (cs ! k = c)" for k by (rule coordinate_eq_plain [OF assms(4)])
  have "first_index cs cursor c \<noteq> None"
    using assms by (auto simp: first_index_def find_None_iff e)
  then obtain j where j: "first_index cs cursor c = Some j" by blast
  then obtain m where m: "m < length cs - cursor" "j = cursor + m" "cs ! j = c" "\<forall>l<m. cs ! (cursor + l) \<noteq> c"
    by (auto simp: first_index_def find_Some_iff e)
  have "j \<le> i"
  proof (rule ccontr)
    assume "\<not> j \<le> i"
    then have "i - cursor < m" using m(2) assms(2) by linarith
    with m(4) assms(2,3) show False by (metis le_add_diff_inverse)
  qed
  with j m show ?thesis by simp
qed

text \<open>
  Matching greedily never gets stuck: when the coordinates sit at increasing indices from the cursor on, the
  recovered indices carry the same coordinates.
\<close>

lemma matched_indices_greedy:
  assumes "sorted_wrt (<) ks" "\<forall>k\<in>set ks. cursor \<le> k \<and> k < length cs" "\<forall>k\<in>set ks. plain_coordinate (cs ! k)"
  shows "map ((!) cs) (matched_indices cs cursor (map ((!) cs) ks)) = map ((!) cs) ks \<and>
     sorted_wrt (<) (matched_indices cs cursor (map ((!) cs) ks)) \<and>
     (\<forall>k\<in>set (matched_indices cs cursor (map ((!) cs) ks)). cursor \<le> k \<and> k < length cs)"
  using assms
proof (induction ks arbitrary: cursor)
  case (Cons k ks)
  from first_index_Some [of k cs cursor "cs ! k"] Cons.prems obtain j
    where j: "first_index cs cursor (cs ! k) = Some j" "cursor \<le> j" "j \<le> k" "cs ! j = cs ! k" by auto
  from Cons.prems j(3) have "\<forall>l\<in>set ks. j + 1 \<le> l \<and> l < length cs" by auto
  with Cons have ih: "map ((!) cs) (matched_indices cs (j + 1) (map ((!) cs) ks)) = map ((!) cs) ks"
    "sorted_wrt (<) (matched_indices cs (j + 1) (map ((!) cs) ks))"
    "\<forall>l\<in>set (matched_indices cs (j + 1) (map ((!) cs) ks)). j + 1 \<le> l \<and> l < length cs" by auto
  have "j < length cs" using j(3) Cons.prems(2) by auto
  with ih j show ?case by auto
qed simp

lemma simplify_attempts_result:
  assumes "\<forall>p\<in>set points. plain_coordinate (track_coordinate p)" "points \<noteq> []"
    and "n \<le> 1000" "is_double t" "pow2 (int n - 1000) \<le> t"
  shows "\<exists>out ks. simplify_attempts hy points n (PFin t) = Inr out \<and> out = map ((!) points) ks \<and> sorted_wrt (<) ks \<and>
     (\<forall>k\<in>set ks. k < length points) \<and>
     (out = points \<or> length out \<le> 2 \<or> is_simple_line (map track_coordinate out)) \<and>
     out \<noteq> [] \<and> track_coordinate (hd out) = track_coordinate (hd points) \<and> track_coordinate (last out) = track_coordinate (last points)"
  using assms(3-5)
proof (induction n arbitrary: t)
  case 0
  show ?case
    by (rule exI [of _ points], rule exI [of _ "[0..<length points]"]) (simp add: assms(2) map_nth)
next
  case (Suc n)
  let ?cs = "map track_coordinate points"
  have t: "0 < t" using Suc.prems(3) pow2_pos [of "int (Suc n) - 1000"] by linarith
  obtain ks rs where r: "rdp_simplify hy ?cs (PFin t) = Inr rs" "simplified_by hy ?cs (PFin t) ks rs"
    using rdp_simplify_total [OF t] by blast
  show ?case
  proof (cases "length rs \<le> 2 \<or> is_simple_line rs")
    case True
    let ?js = "matched_indices ?cs 0 rs"
    from r(2) have ks: "sorted_wrt (<) ks" "rs = map ((!) ?cs) ks" "\<forall>k\<in>set ks. k < length points"
      "ks \<noteq> []" "hd ks = 0" "last ks = length points - 1"
      using assms(2) by (auto simp: simplified_by_def)
    have "\<forall>k\<in>set ks. plain_coordinate (?cs ! k)" using ks(3) assms(1) by auto
    with matched_indices_greedy [OF ks(1), of 0 ?cs] ks(2,3)
    have js: "map ((!) ?cs) ?js = rs" "sorted_wrt (<) ?js" "\<forall>k\<in>set ?js. k < length points" by auto
    let ?out = "map ((!) points) ?js"
    have "map track_coordinate ?out = map ((!) ?cs) ?js" using js(3) by (simp add: map_eq_conv)
    with js(1) have o: "map track_coordinate ?out = rs" by simp
    have "rs \<noteq> []" using ks(2,4) by simp
    then have ne: "?out \<noteq> []" using o by (metis list.map_disc_iff)
    have "track_coordinate (hd ?out) = hd rs" using o ne by (metis hd_map)
    also have "hd rs = track_coordinate (hd points)" using ks assms(2) by (simp add: hd_map hd_conv_nth)
    finally have h: "track_coordinate (hd ?out) = track_coordinate (hd points)" .
    have "track_coordinate (last ?out) = last rs" using o ne by (metis last_map)
    also have "last rs = track_coordinate (last points)" using ks assms(2) by (simp add: last_map last_conv_nth)
    finally have la: "track_coordinate (last ?out) = track_coordinate (last points)" .
    have s: "simplify_attempts hy points (Suc n) (PFin t) = Inr ?out" using r(1) True by simp
    have le: "length ?out = length rs" using o by (metis length_map)
    show ?thesis
      by (rule exI [of _ ?out], rule exI [of _ ?js]) (use s js o ne h la True le in auto)
  next
    case False
    have "pow2 (int n - 1000) \<le> pow2 0" using Suc.prems(1) by (intro pow2_mono) simp
    then have "(of_int \<bar>1\<bar> :: rat) * pow2 (int n - 1000) < 2 ^ 1024" by simp
    from is_double_scaled [OF _ _ this] have d: "is_double (pow2 (int n - 1000))" by simp
    have "pow2 (int (Suc n) - 1000) = 2 * pow2 (int n - 1000)"
      using pow2_add [of 1 "int n - 1000"] pow2_nat [of 1] by simp
    then have "pow2 (int n - 1000) \<le> t / 2" using Suc.prems(3) by simp
    then have low: "fl_le (PFin (pow2 (int n - 1000))) (round_double (t / 2))" by (rule round_double_lower [OF d])
    have "fl_le (round_double (t / 2)) (PFin t)" using t by (intro round_double_upper [OF Suc.prems(2)]) simp
    with low obtain h where h: "round_double (t / 2) = PFin h" "pow2 (int n - 1000) \<le> h"
      by (cases "round_double (t / 2)") auto
    have "simplify_attempts hy points (Suc n) (PFin t) = simplify_attempts hy points n (PFin h)"
      using r(1) False h(1) by simp
    moreover have "n \<le> 1000" using Suc.prems(1) by simp
    ultimately show ?thesis using Suc.IH [OF _ round_double_is_double [OF h(1)] h(2)] by metis
  qed
qed

lemma simplify_total:
  assumes "points \<noteq> []" "\<forall>p\<in>set points. tp_longitude p \<noteq> PNaN \<and> tp_latitude p \<noteq> PNaN"
    and "is_double t" "pow2 (- 900) \<le> t"
  shows "\<exists>out ks. simplify_preserving_topology hy points (PFin t) = Inr out \<and> out = map ((!) points) ks \<and> sorted_wrt (<) ks \<and>
     (\<forall>k\<in>set ks. k < length points) \<and> (out = points \<or> length out \<le> 2 \<or> is_simple_line (map track_coordinate out)) \<and>
     out \<noteq> [] \<and> track_coordinate (hd out) = track_coordinate (hd points) \<and>
     track_coordinate (last out) = track_coordinate (last points)"
proof (cases "length points \<le> 2")
  case True
  show ?thesis
    by (rule exI [of _ points], rule exI [of _ "[0..<length points]"])
      (use True assms(1) in \<open>simp add: simplify_preserving_topology_def map_nth\<close>)
next
  case False
  have "pow2 (int MAX_SIMPLIFY_RETRIES - 1000) \<le> pow2 (- 900)" by (rule pow2_mono) (simp add: MAX_SIMPLIFY_RETRIES_def)
  with assms(4) have t: "pow2 (int MAX_SIMPLIFY_RETRIES - 1000) \<le> t" by simp
  have p: "\<forall>p\<in>set points. plain_coordinate (track_coordinate p)"
    using assms(2) by (simp add: plain_coordinate_def track_coordinate_def)
  have "MAX_SIMPLIFY_RETRIES \<le> 1000" by (simp add: MAX_SIMPLIFY_RETRIES_def)
  from simplify_attempts_result [OF p assms(1) this assms(3) t, of hy] False
  show ?thesis unfolding simplify_preserving_topology_def by simp
qed

section \<open>Segments\<close>

definition close_to :: "int \<Rightarrow> track_point \<Rightarrow> track_point \<Rightarrow> bool" where
  "close_to threshold p q \<longleftrightarrow> tp_occurred_at q - tp_occurred_at p \<le> threshold"

definition segmented :: "int \<Rightarrow> track_point list \<Rightarrow> track_point list list \<Rightarrow> bool" where
  "segmented threshold points segments \<longleftrightarrow>
     concat segments = points \<and> [] \<notin> set segments \<and> list_all (successively (close_to threshold)) segments \<and>
     successively (\<lambda>s s'. \<not> close_to threshold (last s) (hd s')) segments"

lemma segment_step_segmented:
  assumes "segmented threshold (points @ [p]) segments"
  shows "segmented threshold (points @ [p, q]) (segment_step threshold segments (p, q))"
proof -
  from assms have c: "concat segments = points @ [p]" by (simp add: segmented_def)
  then have "segments \<noteq> []" by auto
  then obtain pre s where segs: "segments = pre @ [s]" by (cases segments rule: rev_cases) auto
  with assms have s: "s \<noteq> []" "successively (close_to threshold) s" by (auto simp: segmented_def)
  with c segs have l: "last s = p" by (metis concat_append concat.simps append_Nil2 last_appendR last_snoc)
  show ?thesis
  proof (cases "close_to threshold p q")
    case False
    with assms segs l show ?thesis
      by (auto simp: segmented_def segment_step_def close_to_def successively_append_iff)
  next
    case True
    then have step: "segment_step threshold segments (p, q) = pre @ [s @ [q]]"
      by (simp add: segment_step_def close_to_def segs)
    have "successively (close_to threshold) (s @ [q])"
      using s l True by (simp add: successively_append_iff)
    moreover have "successively (\<lambda>s s'. \<not> close_to threshold (last s) (hd s')) (pre @ [s @ [q]])"
      using assms segs s(1) by (auto simp: segmented_def successively_append_iff)
    ultimately show ?thesis using assms segs c unfolding step by (auto simp: segmented_def)
  qed
qed

lemma segment_fold_segmented:
  assumes "segmented threshold (points @ [p]) segments"
  shows "segmented threshold (points @ p # ps) (foldl (segment_step threshold) segments (zip (p # ps) ps))"
  using assms
proof (induction ps arbitrary: points p segments)
  case (Cons q ps)
  from segment_step_segmented [OF Cons.prems]
  have "segmented threshold ((points @ [p]) @ [q]) (segment_step threshold segments (p, q))" by simp
  from Cons.IH [OF this] show ?case by simp
qed simp

lemma segment_track_segmented:
  assumes "segment_track points threshold = Inr segments"
  shows "segmented threshold points segments"
proof (cases points)
  case Nil
  with assms show ?thesis by (auto simp: segment_track_def res_simps segmented_def)
next
  case (Cons p ps)
  have "segmented threshold ([] @ [p]) [[p]]" by (simp add: segmented_def)
  from segment_fold_segmented [OF this, of ps] Cons assms show ?thesis by (auto simp: segment_track_def res_simps)
qed

lemma segment_track_total: "0 < threshold \<Longrightarrow> \<exists>segments. segment_track points threshold = Inr segments"
  by (cases points) (simp_all add: segment_track_def)

text \<open>The conditions determine the segments.\<close>

lemma segmented_unique:
  "segmented threshold points ss \<Longrightarrow> segmented threshold points ss' \<Longrightarrow> ss = ss'"
proof (induction ss arbitrary: points ss')
  case Nil
  then show ?case by (cases ss') (auto simp: segmented_def)
next
  case (Cons s ss)
  from Cons.prems obtain s' ss2 where ss': "ss' = s' # ss2" by (cases ss') (auto simp: segmented_def)
  have ne: "s \<noteq> []" "s' \<noteq> []" using Cons.prems ss' by (auto simp: segmented_def)
  have eq: "s @ concat ss = s' @ concat ss2" using Cons.prems ss' by (simp add: segmented_def)
  have hd_concat: "hd (concat ts) = hd (hd ts)" if "ts \<noteq> []" "[] \<notin> set ts" for ts :: "track_point list list"
    using that by (cases ts) auto
  have cut: "xs' = []" if e: "a = b @ xs'" "concat ts' = xs' @ concat ts" "successively (close_to threshold) a" "b \<noteq> []"
      "successively (\<lambda>s s'. \<not> close_to threshold (last s) (hd s')) (b # ts')" "[] \<notin> set ts'" for a b xs' ts ts'
  proof (rule ccontr)
    assume x: "xs' \<noteq> []"
    with e(2) have "ts' \<noteq> []" by auto
    with hd_concat e(2,6) x have "hd (hd ts') = hd xs'" by (metis hd_append2)
    moreover from e(5) \<open>ts' \<noteq> []\<close> have "\<not> close_to threshold (last b) (hd (hd ts'))" by (cases ts') auto
    moreover from e(1,3,4) x have "close_to threshold (last b) (hd xs')" by (simp add: successively_append_iff)
    ultimately show False by simp
  qed
  have p: "list_all (successively (close_to threshold)) (s # ss)" "list_all (successively (close_to threshold)) (s' # ss2)"
    "successively (\<lambda>s s'. \<not> close_to threshold (last s) (hd s')) (s # ss)"
    "successively (\<lambda>s s'. \<not> close_to threshold (last s) (hd s')) (s' # ss2)" "[] \<notin> set ss" "[] \<notin> set ss2"
    using Cons.prems ss' by (simp_all add: segmented_def)
  from eq consider (longer) us where "s = s' @ us" "concat ss2 = us @ concat ss"
    | (shorter) us where "s' = s @ us" "concat ss = us @ concat ss2"
    by (auto simp: append_eq_append_conv2)
  then have "s = s' \<and> concat ss = concat ss2"
  proof cases
    case longer
    with cut [of s s' us ss2 ss] p ne show ?thesis by simp
  next
    case shorter
    with cut [of s' s us ss ss2] p ne show ?thesis by simp
  qed
  moreover have "segmented threshold (concat ss) ss" "segmented threshold (concat ss2) ss2"
    using Cons.prems ss' by (auto simp: segmented_def successively_Cons)
  ultimately show ?case using Cons.IH ss' by metis
qed

section \<open>Properties\<close>

text \<open>
  Claim C15. Simplification terminates with every dropped point near the line: for a positive tolerance it returns the points at increasing
  indices, the first and the last among them, and each point between two consecutive kept ones lies within the
  tolerance of their chord.
\<close>

theorem rdp_within_tolerance:
  assumes "0 < t"
  shows "\<exists>ks rs. rdp_simplify hy cs (PFin t) = Inr rs \<and> sorted_wrt (<) ks \<and> rs = map ((!) cs) ks \<and>
     (\<forall>k\<in>set ks. k < length cs) \<and> (cs \<noteq> [] \<longrightarrow> ks \<noteq> [] \<and> hd ks = 0 \<and> last ks = length cs - 1) \<and>
     (\<forall>k i. Suc k < length ks \<longrightarrow> ks ! k < i \<longrightarrow> i < ks ! Suc k \<longrightarrow>
        (\<exists>d. perpendicular_distance hy (cs ! i) (cs ! (ks ! k)) (cs ! (ks ! Suc k)) = Inr d \<and> \<not> fl_less (PFin t) d))"
  using rdp_simplify_total [OF assms, of hy cs, unfolded simplified_by_def] by blast

lemma rdp_within_tolerance_witness:
  "(0::rat) < 1 / 2 \<and> (\<exists>rs. rdp_simplify (\<lambda>a b. PNaN) [(PFin 0, PFin 0), (PFin 1, PFin 5), (PFin 2, PFin 0)] (PFin (1 / 2)) = Inr rs)"
proof
  show h: "(0::rat) < 1 / 2" by simp
  show "\<exists>rs. rdp_simplify (\<lambda>a b. PNaN) [(PFin 0, PFin 0), (PFin 1, PFin 5), (PFin 2, PFin 0)] (PFin (1 / 2)) = Inr rs"
    using rdp_within_tolerance [OF h, of "\<lambda>a b. PNaN" "[(PFin 0, PFin 0), (PFin 1, PFin 5), (PFin 2, PFin 0)]"] by blast
qed

text \<open>
  The topology guard: simplifying a track of points whose coordinates are numbers always returns, and returns points of the
  track in their order, starting and ending at its end points, that either are the whole track or form a line the
  self-intersection test accepts (or at most two points).
\<close>

theorem simplify_guard:
  assumes "points \<noteq> []" "\<forall>p\<in>set points. tp_longitude p \<noteq> PNaN \<and> tp_latitude p \<noteq> PNaN"
    and "is_double t" "pow2 (- 900) \<le> t"
  shows "\<exists>out ks. simplify_preserving_topology hy points (PFin t) = Inr out \<and> out = map ((!) points) ks \<and> sorted_wrt (<) ks \<and>
     (\<forall>k\<in>set ks. k < length points) \<and> (out = points \<or> length out \<le> 2 \<or> is_simple_line (map track_coordinate out)) \<and>
     out \<noteq> [] \<and> track_coordinate (hd out) = track_coordinate (hd points) \<and>
     track_coordinate (last out) = track_coordinate (last points)"
  using assms by (rule simplify_total)

definition sample_points :: "track_point list" where
  "sample_points = map (\<lambda>i. \<lparr>tp_occurred_at = i, tp_longitude = PFin (of_int i), tp_latitude = PFin 0, tp_event_id = []\<rparr>) [0, 1, 2, 3]"

lemma simplify_guard_witness:
  "\<exists>out. simplify_preserving_topology (\<lambda>a b. PNaN) sample_points (PFin 1) = Inr out \<and> out \<noteq> [] \<and> length sample_points = 4"
proof -
  have "pow2 (- 900) \<le> pow2 0" by (rule pow2_mono) simp
  then have "pow2 (- 900) \<le> 1" by simp
  moreover have "is_double 1" using is_double_of_int [of 1] by simp
  moreover have "sample_points \<noteq> []" "\<forall>p\<in>set sample_points. tp_longitude p \<noteq> PNaN \<and> tp_latitude p \<noteq> PNaN"
    "length sample_points = 4" by (simp_all add: sample_points_def)
  ultimately show ?thesis using simplify_guard [of sample_points 1 "\<lambda>a b. PNaN"] by blast
qed

definition square_loop :: "coordinate list" where
  "square_loop = [(PFin 0, PFin 0), (PFin 1, PFin 0), (PFin 1, PFin 1), (PFin 0, PFin 1), (PFin 0, PFin 0)]"

text \<open>
  The guard depends on the direction of travel: a square loop is not a simple line when it is sailed counter-clockwise
  and is one when it is sailed clockwise, because the end points that close the loop touch.
\<close>

theorem loop_direction_matters:
  "\<not> is_simple_line square_loop \<and> is_simple_line (rev square_loop)"
proof -
  have r: "round_double 0 = PFin 0" "round_double 1 = PFin 1" "round_double (- 1) = PFin (- 1)"
    using round_double_of_int [of 0] round_double_of_int [of 1] round_double_of_int [of "- 1"] by simp_all
  have u: "[0..<4] = [0, 1, 2, 3]" "[2..<4] = [2, 3]" "[Suc 2..<4] = [3]" "[Suc (Suc 2)..<4] = []" "[Suc 3..<4] = []" "[Suc (Suc 3)..<4] = []"
    by (simp_all add: upt_rec)
  show ?thesis
    by (simp add: is_simple_line_def square_loop_def u segments_intersect_def orientation_def Let_def fl_sub_def r numeral_2_eq_2 numeral_3_eq_3)
qed

text \<open>
  Claim C16. Segmentation is exact: for a positive threshold it returns the one division of the track into non-empty runs in which
  consecutive points are at most the threshold apart and between which the gap exceeds it.
\<close>

theorem segment_track_exact:
  assumes "0 < threshold"
  shows "segment_track points threshold = Inr segments \<longleftrightarrow>
     concat segments = points \<and> [] \<notin> set segments \<and>
     list_all (successively (\<lambda>p q. tp_occurred_at q - tp_occurred_at p \<le> threshold)) segments \<and>
     successively (\<lambda>s s'. threshold < tp_occurred_at (hd s') - tp_occurred_at (last s)) segments"
proof -
  obtain ss where ss: "segment_track points threshold = Inr ss" using segment_track_total [OF assms] by blast
  have "segment_track points threshold = Inr segments \<longleftrightarrow> segmented threshold points segments"
    using ss segment_track_segmented [OF ss] segmented_unique by auto
  also have "\<dots> \<longleftrightarrow> concat segments = points \<and> [] \<notin> set segments \<and>
     list_all (successively (\<lambda>p q. tp_occurred_at q - tp_occurred_at p \<le> threshold)) segments \<and>
     successively (\<lambda>s s'. threshold < tp_occurred_at (hd s') - tp_occurred_at (last s)) segments"
    unfolding segmented_def close_to_def [abs_def] not_le by (rule refl)
  finally show ?thesis .
qed

lemma segment_track_exact_witness: "\<exists>segments. segment_track sample_points 1 = Inr segments \<and> concat segments = sample_points"
proof -
  obtain ss where "segment_track sample_points 1 = Inr ss" using segment_track_total [of 1 sample_points] by auto
  with segment_track_exact [of 1 sample_points ss] show ?thesis by auto
qed

end
