(* ===== verification/Vessel_Lakehouse.thy ===== *)
theory Vessel_Lakehouse
  imports Ais_Decode Geofence Vessel_Tracks Kafka_Ingest
begin

text \<open>
  \<open>vessel_lakehouse.py\<close>: bronze observations from signed envelopes, silver trajectories, gold geofence summaries.  The
  schema validator, the JSON decoders, the signature verifier, \<open>pyais\<close>, \<open>math.hypot\<close> and Delta Lake are arguments.
\<close>

definition VESSEL_OBSERVATION_EVENT_TYPE :: string where "VESSEL_OBSERVATION_EVENT_TYPE = ''vessels.observation.v1''"
text \<open>Two hours in microseconds, and the doubles nearest to 0.0005 and 0.001.\<close>
definition DEFAULT_GAP_THRESHOLD :: int where "DEFAULT_GAP_THRESHOLD = 2 * 3600 * 1000000"
definition DEFAULT_SIMPLIFY_TOLERANCE_DEGREES :: pyfloat where
  "DEFAULT_SIMPLIFY_TOLERANCE_DEGREES = PFin (1152921504606847 / 2305843009213693952)"
definition COORDINATE_MATCH_TOLERANCE :: pyfloat where
  "COORDINATE_MATCH_TOLERANCE = PFin (1152921504606847 / 1152921504606846976)"

definition BRONZE_TABLE_DESCRIPTION :: string where
  "BRONZE_TABLE_DESCRIPTION = ''Platform bronze vessel observations decoded from signed vessels.events '' @
     ''envelopes (signature-verified, append-only)''"
definition SILVER_TABLE_DESCRIPTION :: string where
  "SILVER_TABLE_DESCRIPTION = ''Platform silver vessel trajectories: per-MMSI ordered, gap-segmented, '' @
     ''topology-preserving simplified EPSG:4326 tracks derived from bronze''"
definition GOLD_TABLE_DESCRIPTION :: string where
  "GOLD_TABLE_DESCRIPTION = ''Platform gold geofence summaries: per-geofence per-MMSI observation '' @
     ''aggregates derived from bronze vessel observations''"

definition VESSEL_BRONZE_SCHEMA :: arrow_schema where
  "VESSEL_BRONZE_SCHEMA =
     [(''event_id'', ''string not null''), (''mmsi'', ''string not null''),
      (''occurred_at'', ''timestamp[us, tz=UTC] not null''), (''recorded_at'', ''timestamp[us, tz=UTC] not null''),
      (''latitude'', ''double not null''), (''longitude'', ''double not null''), (''speed_knots'', ''double''),
      (''heading_degrees'', ''double''), (''decode_source'', ''string not null''), (''producer'', ''string not null''),
      (''source_record_reference'', ''string not null''), (''payload_json'', ''string not null''),
      (''ingested_at'', ''timestamp[us, tz=UTC] not null'')]"

definition vessel_table_uris :: "string \<Rightarrow> (string \<times> string) list res" where
  "vessel_table_uris scope_root_uri =
     (let root = rstrip_char (CHR ''/'') scope_root_uri;
          uris = [(''bronze'', root @ ''/bronze/vessel_observations''), (''silver'', root @ ''/silver/vessel_trajectories''),
                  (''gold'', root @ ''/gold/geofence_summaries'')]
      in bindR (forR (\<lambda>(layer, uri). bindR (validate_table_uri uri) (\<lambda>_. require_scope_table_uri PLATFORM uri)) uris) (\<lambda>_.
         Inr uris))"

section \<open>Observations\<close>

definition require_finite_number :: "jobject \<Rightarrow> string \<Rightarrow> pyfloat res" where
  "require_finite_number payload fld =
     bindR (guard (is_number (jget payload fld)) ValueError ''must be a finite number'') (\<lambda>_.
     bindR (to_float (jget payload fld)) (\<lambda>f.
     bindR (guard (isfinite f) ValueError ''must be a finite number'') (\<lambda>_. Inr f)))"

definition optional_finite_number :: "jobject \<Rightarrow> string \<Rightarrow> pyfloat option res" where
  "optional_finite_number payload fld =
     (if jget payload fld = JNull then Inr None else bindR (require_finite_number payload fld) (\<lambda>f. Inr (Some f)))"

definition validate_coordinates :: "pyfloat \<Rightarrow> pyfloat \<Rightarrow> unit res" where
  "validate_coordinates lat lon =
     bindR (guard (fl_le (PFin (- 90)) lat \<and> fl_le lat (PFin 90)) ValueError ''latitude must be within [-90, 90]'') (\<lambda>_.
     guard (fl_le (PFin (- 180)) lon \<and> fl_le lon (PFin 180)) ValueError ''longitude must be within [-180, 180]'')"

record observation =
  obs_mmsi :: string
  obs_latitude :: pyfloat
  obs_longitude :: pyfloat
  obs_speed_knots :: "pyfloat option"
  obs_heading_degrees :: "pyfloat option"
  obs_decode_source :: string

text \<open>The part of the payload decoder for raw AIS: the decoded position is authoritative, the explicit one must agree.\<close>

definition merge_ais :: "ais_position_report \<Rightarrow> observation \<Rightarrow> observation res" where
  "merge_ais report obs =
     bindR (guard (rep_mmsi report = obs_mmsi obs) ValueError ''payload mmsi does not match the decoded AIS mmsi'') (\<lambda>_.
     bindR (guard (\<not> (fl_less COORDINATE_MATCH_TOLERANCE (fl_abs (fl_sub (rep_latitude report) (obs_latitude obs))) \<or>
                      fl_less COORDINATE_MATCH_TOLERANCE (fl_abs (fl_sub (rep_longitude report) (obs_longitude obs)))))
              ValueError ''payload coordinates disagree with the decoded AIS position (fail-closed)'') (\<lambda>_.
     Inr \<lparr>obs_mmsi = obs_mmsi obs, obs_latitude = rep_latitude report, obs_longitude = rep_longitude report,
          obs_speed_knots = (if rep_speed_knots report \<noteq> None then rep_speed_knots report else obs_speed_knots obs),
          obs_heading_degrees = (if rep_heading_degrees report \<noteq> None then rep_heading_degrees report else obs_heading_degrees obs),
          obs_decode_source = ''ais-nmea''\<rparr>))"

definition decode_vessel_payload :: "pyais \<Rightarrow> json \<Rightarrow> observation res" where
  "decode_vessel_payload pa v =
     bindR (require_some (json_obj v) ValueError ''vessel observation payload must be an object'') (\<lambda>payload.
     bindR (normalize_mmsi (jget payload ''mmsi'')) (\<lambda>mmsi.
     bindR (require_finite_number payload ''latitude'') (\<lambda>lat.
     bindR (require_finite_number payload ''longitude'') (\<lambda>lon.
     bindR (validate_coordinates lat lon) (\<lambda>_.
     bindR (optional_finite_number payload ''speedKnots'') (\<lambda>speed.
     bindR (optional_finite_number payload ''headingDegrees'') (\<lambda>heading.
     bindR (guard (pred_option (\<lambda>s. \<not> fl_less s (PFin 0)) speed) ValueError ''speedKnots must not be negative'') (\<lambda>_.
     bindR (guard (pred_option (\<lambda>h. fl_le (PFin 0) h \<and> fl_less h (PFin 360)) heading) ValueError
              ''headingDegrees must be within [0, 360)'') (\<lambda>_.
     let obs = \<lparr>obs_mmsi = mmsi, obs_latitude = lat, obs_longitude = lon, obs_speed_knots = speed,
                obs_heading_degrees = heading, obs_decode_source = ''payload''\<rparr>
     in if jget payload ''nmeaSentences'' = JNull then Inr obs
        else bindR (decode_aivdm pa (jget payload ''nmeaSentences'')) (\<lambda>report. merge_ais report obs))))))))))"

definition optional_cell :: "pyfloat option \<Rightarrow> cell" where
  "optional_cell x = (case x of None \<Rightarrow> CNone | Some f \<Rightarrow> CFloat f)"

text \<open>The bronze row but for \<open>ingested_at\<close>, whose clock reading ends the dictionary.\<close>

definition observation_row :: "(rat \<Rightarrow> string) \<Rightarrow> pyais \<Rightarrow> jobject \<Rightarrow> row res" where
  "observation_row fr pa event =
     bindR (jitem event ''event_type'') (\<lambda>event_type.
     bindR (guard (event_type = JStr VESSEL_OBSERVATION_EVENT_TYPE) ValueError ''unexpected vessel observation event type'') (\<lambda>_.
     bindR (jitem event ''payload'') (\<lambda>v.
     bindR (require_some (json_obj v) AttributeError ''items'') (\<lambda>payload.
     bindR (decode_vessel_payload pa (JObj (filter (\<lambda>(k, x). k \<noteq> ''provenance'') payload))) (\<lambda>obs.
     bindR (jitem event ''occurred_at'') (\<lambda>v. bindR (parse_timestamp v) (\<lambda>occurred_at.
     bindR (jitem event ''recorded_at'') (\<lambda>v. bindR (parse_timestamp v) (\<lambda>recorded_at.
     bindR (guard (occurred_at \<le> recorded_at) ValueError ''occurred_at must not be later than recorded_at'') (\<lambda>_.
     bindR (jitem event ''event_id'') (\<lambda>v. bindR (require_canonical_text v 256) (\<lambda>event_id.
     bindR (jitem event ''producer'') (\<lambda>v. bindR (require_canonical_text v 256) (\<lambda>producer.
     bindR (jitem event ''source_record_reference'') (\<lambda>v. bindR (require_canonical_text v 512) (\<lambda>reference.
     bindR (canonical_json fr (JObj payload)) (\<lambda>payload_json.
     Inr [(''event_id'', CText event_id),
          (''mmsi'', CText (obs_mmsi obs)),
          (''occurred_at'', CTime occurred_at),
          (''recorded_at'', CTime recorded_at),
          (''latitude'', CFloat (obs_latitude obs)),
          (''longitude'', CFloat (obs_longitude obs)),
          (''speed_knots'', optional_cell (obs_speed_knots obs)),
          (''heading_degrees'', optional_cell (obs_heading_degrees obs)),
          (''decode_source'', CText (obs_decode_source obs)),
          (''producer'', CText producer),
          (''source_record_reference'', CText reference),
          (''payload_json'', CText payload_json)])))))))))))))))))"

text \<open>The signed view is the canonical text of the document, read again with every number as a float.\<close>

definition decode_vessel_observation :: "'w runtime \<Rightarrow> decoder \<Rightarrow> (json \<Rightarrow> ('w, unit) act) \<Rightarrow> pyais \<Rightarrow> jobject \<Rightarrow> ('w, row) act" where
  "decode_vessel_observation rt d verify pa document =
     bindA (pureA (guard (dec_errors d (JObj document) = []) ValueError
              (''vessel envelope fails event-envelope validation: '' @ join_with ''; '' (dec_errors d (JObj document))))) (\<lambda>_.
     bindA (pureA (bindR (canonical_json (rt_fr rt) (JObj document)) (dec_loads_float d))) (\<lambda>signed_view.
     bindA (verify signed_view) (\<lambda>_.
     bindA (pureA (bindR (map_canonical_envelope document) (observation_row (rt_fr rt) pa))) (\<lambda>r.
     bindA (read_clock rt) (\<lambda>now. pureA (Inr (r @ [(''ingested_at'', CTime now)])))))))"

definition append_vessel_observations :: "('w, 't) delta_api \<Rightarrow> (cell \<Rightarrow> string) \<Rightarrow> string \<Rightarrow> row list \<Rightarrow> ('w, int \<times> int \<times> int) act" where
  "append_vessel_observations api ps uri rows =
     append_rows api ps uri rows ''event_id'' (Some BRONZE_TABLE_DESCRIPTION) (Some VESSEL_BRONZE_SCHEMA) ''bronze_vessel_observations''"

section \<open>Trajectories\<close>

definition track_entry :: "row \<Rightarrow> (string \<times> track_point) res" where
  "track_entry r =
     bindR (normalize_mmsi (cell_json (row_get r ''mmsi''))) (\<lambda>mmsi.
     bindR (require_some (cell_time (row_get r ''occurred_at'')) ValueError ''bronze vessel observation is missing occurred_at'') (\<lambda>t.
     bindR (row_item r ''longitude'') (\<lambda>c. bindR (py_float (cell_json c)) (\<lambda>lon.
     bindR (row_item r ''latitude'') (\<lambda>c. bindR (py_float (cell_json c)) (\<lambda>lat.
     bindR (require_canonical_text (cell_json (row_get r ''event_id'')) 256) (\<lambda>event_id.
     bindR (validate_coordinates lat lon) (\<lambda>_.
     Inr (mmsi, \<lparr>tp_occurred_at = t, tp_longitude = lon, tp_latitude = lat, tp_event_id = event_id\<rparr>)))))))))"

text \<open>\<open>tracks.setdefault(mmsi, []).append(point)\<close>.\<close>

definition tracked :: "(string \<times> track_point list) list \<Rightarrow> string \<Rightarrow> track_point list" where
  "tracked tracks mmsi = (case map_of tracks mmsi of None \<Rightarrow> [] | Some ps \<Rightarrow> ps)"

definition add_to_track :: "(string \<times> track_point list) list \<Rightarrow> row \<Rightarrow> (string \<times> track_point list) list res" where
  "add_to_track tracks r =
     bindR (track_entry r) (\<lambda>(mmsi, p). Inr (AList.update mmsi (tracked tracks mmsi @ [p]) tracks))"

definition track_order :: "track_point list \<Rightarrow> track_point list" where
  "track_order ps = sort_key (\<lambda>p. (tp_occurred_at p, tp_event_id p)) ps"

definition same_fix :: "track_point \<Rightarrow> track_point \<Rightarrow> bool" where
  "same_fix p q = (tp_occurred_at p = tp_occurred_at q \<and> coordinate_eq (track_coordinate p) (track_coordinate q))"

text \<open>The points kept and the number of points dropped so far.\<close>

definition deduplicate_step :: "track_point list \<times> nat \<Rightarrow> track_point \<Rightarrow> track_point list \<times> nat" where
  "deduplicate_step st p =
     (if fst st \<noteq> [] \<and> same_fix (last (fst st)) p then (fst st, snd st + 1) else (fst st @ [p], snd st))"

definition deduplicate :: "track_point list \<Rightarrow> track_point list \<times> nat" where
  "deduplicate ps = foldl deduplicate_step ([], 0) ps"

definition trajectory_id :: "(string \<Rightarrow> string) \<Rightarrow> string \<Rightarrow> string \<Rightarrow> string \<Rightarrow> string" where
  "trajectory_id sha mmsi first_event_id last_event_id =
     sha (''vessel-trajectory/'' @ mmsi @ ''/'' @ first_event_id @ ''/'' @ last_event_id)"

definition trajectory_row :: "'w runtime \<Rightarrow> (pyfloat \<Rightarrow> pyfloat \<Rightarrow> pyfloat) \<Rightarrow> int \<Rightarrow> pyfloat \<Rightarrow> int \<Rightarrow> string \<Rightarrow> nat \<Rightarrow>
    nat \<times> track_point list \<Rightarrow> row res" where
  "trajectory_row rt hy gap_threshold tolerance assembled_at mmsi duplicates indexed =
     (case indexed of (segment_index, segment) \<Rightarrow>
        bindR (simplify_preserving_topology hy segment tolerance) (\<lambda>simplified.
        bindR (fl_trunc (total_seconds gap_threshold)) (\<lambda>threshold_seconds.
        bindR (fl_trunc (total_seconds (tp_occurred_at (last segment) - tp_occurred_at (hd segment)))) (\<lambda>span.
        let start = hd segment; final = last segment;
            geometry_wkt = (if length segment = 1 then point_wkt start else line_wkt segment);
            simplified_wkt = (if length segment = 1 then geometry_wkt
                              else if 1 < length simplified then line_wkt simplified else point_wkt (hd simplified));
            quality = JObj [(''point_count'', JInt (int (length segment))),
              (''simplified_point_count'', JInt (int (length simplified))),
              (''track_duplicate_points_dropped'', JInt (int duplicates)),
              (''gap_threshold_seconds'', JInt threshold_seconds),
              (''simplify_tolerance_degrees'', JFloat tolerance),
              (''time_span_seconds'', JInt span)]
        in Inr [(''trajectory_id'', CText (trajectory_id (rt_sha rt) mmsi (tp_event_id start) (tp_event_id final))),
                (''mmsi'', CText mmsi),
                (''segment_index'', CInt (int segment_index)),
                (''started_at'', CTime (tp_occurred_at start)),
                (''ended_at'', CTime (tp_occurred_at final)),
                (''point_count'', CInt (int (length segment))),
                (''geometry_type'', CText (if length segment = 1 then ''Point'' else ''LineString'')),
                (''geometry_wkt'', CText geometry_wkt),
                (''simplified_wkt'', CText simplified_wkt),
                (''crs'', CText ''EPSG:4326''),
                (''source_first_event_id'', CText (tp_event_id start)),
                (''source_last_event_id'', CText (tp_event_id final)),
                (''quality_json'', CText (dumps_default (rt_fr rt) True quality)),
                (''assembled_at'', CTime assembled_at)]))))"

definition track_rows :: "'w runtime \<Rightarrow> (pyfloat \<Rightarrow> pyfloat \<Rightarrow> pyfloat) \<Rightarrow> int \<Rightarrow> pyfloat \<Rightarrow> int \<Rightarrow>
    string \<times> track_point list \<Rightarrow> row list res" where
  "track_rows rt hy gap_threshold tolerance assembled_at track =
     (case deduplicate (track_order (snd track)) of (points, duplicates) \<Rightarrow>
        bindR (segment_track points gap_threshold) (\<lambda>segments.
        mapR (trajectory_row rt hy gap_threshold tolerance assembled_at (fst track) duplicates) (enumerate 0 segments)))"

definition assemble_vessel_trajectories :: "'w runtime \<Rightarrow> (pyfloat \<Rightarrow> pyfloat \<Rightarrow> pyfloat) \<Rightarrow> row list \<Rightarrow> int \<Rightarrow> pyfloat \<Rightarrow>
    ('w, row list) act" where
  "assemble_vessel_trajectories rt hy observations gap_threshold tolerance =
     bindA (pureA (foldR add_to_track [] observations)) (\<lambda>tracks.
     bindA (read_clock rt) (\<lambda>assembled_at.
     pureA (bindR (mapR (track_rows rt hy gap_threshold tolerance assembled_at) (sort_key fst tracks)) (\<lambda>rowss.
       Inr (concat rowss)))))"

definition read_bronze_observations :: "('w, 't) delta_api \<Rightarrow> string \<Rightarrow> ('w, row list) act" where
  "read_bronze_observations api bronze_uri =
     bindA (\<lambda>w. (api_open api bronze_uri w, w)) (\<lambda>t. pureA (api_read_all api t))"

text \<open>The overwrite that both derived tables end with.\<close>

definition overwrite_table :: "('w, 't) delta_api \<Rightarrow> string \<Rightarrow> row list \<Rightarrow> string \<Rightarrow> string \<Rightarrow> ('w, int \<times> int) act" where
  "overwrite_table api uri rows name description =
     bindA (pureA (api_from_pylist api rows None)) (\<lambda>arrow_table.
     bindA (api_overwrite api uri arrow_table name description) (\<lambda>_.
     bindA (\<lambda>w. (api_open api uri w, w)) (\<lambda>t. pureA (Inr (api_version api t, int (length rows))))))"

definition rebuild_silver_trajectories :: "'w runtime \<Rightarrow> (pyfloat \<Rightarrow> pyfloat \<Rightarrow> pyfloat) \<Rightarrow> ('w, 't) delta_api \<Rightarrow> string \<Rightarrow> string \<Rightarrow>
    int \<Rightarrow> pyfloat \<Rightarrow> ('w, int \<times> int) act" where
  "rebuild_silver_trajectories rt hy api bronze_uri silver_uri gap_threshold tolerance =
     bindA (pureA (validate_table_uri bronze_uri)) (\<lambda>_.
     bindA (pureA (validate_table_uri silver_uri)) (\<lambda>_.
     bindA (read_bronze_observations api bronze_uri) (\<lambda>observations.
     bindA (pureA (guard (observations \<noteq> []) ValueError ''cannot assemble trajectories from an empty bronze table'')) (\<lambda>_.
     bindA (assemble_vessel_trajectories rt hy observations gap_threshold tolerance) (\<lambda>rows.
     overwrite_table api silver_uri rows ''silver_vessel_trajectories'' SILVER_TABLE_DESCRIPTION)))))"

section \<open>Geofence summaries\<close>

definition coordinate_ordinates :: "json \<Rightarrow> string res" where
  "coordinate_ordinates v = bindR (ring_point v) (\<lambda>(x, y). Inr (format_ordinate x @ '' '' @ format_ordinate y))"

definition ring_text :: "json \<Rightarrow> string res" where
  "ring_text ring =
     bindR (require_some (json_list ring) TypeError ''not iterable'') (\<lambda>ps.
     bindR (mapR coordinate_ordinates ps) (\<lambda>ts. Inr (''('' @ join_with '', '' ts @ '')'')))"

definition rings_text :: "json \<Rightarrow> string res" where
  "rings_text polygon =
     bindR (require_some (json_list polygon) TypeError ''not iterable'') (\<lambda>rs.
     bindR (mapR ring_text rs) (\<lambda>ts. Inr (join_with '', '' ts)))"

definition geofence_polygon_wkt :: "geofence \<Rightarrow> string res" where
  "geofence_polygon_wkt g =
     bindR (jitem (geometry g) ''coordinates'') (\<lambda>coordinates.
     bindR (jitem (geometry g) ''type'') (\<lambda>geometry_type.
     if geometry_type = JStr ''Polygon'' then bindR (rings_text coordinates) (\<lambda>t. Inr (''POLYGON ('' @ t @ '')''))
     else if geometry_type = JStr ''MultiPolygon''
     then bindR (require_some (json_list coordinates) TypeError ''not iterable'') (\<lambda>ps.
          bindR (mapR (\<lambda>p. bindR (rings_text p) (\<lambda>t. Inr (''('' @ t @ '')''))) ps) (\<lambda>ts.
          Inr (''MULTIPOLYGON ('' @ join_with '', '' ts @ '')'')))
     else raise ValueError ''unsupported geofence geometry type''))"

record summary =
  sm_count :: int
  sm_first_seen :: int
  sm_last_seen :: int
  sm_first_event :: string
  sm_last_event :: string
  sm_wkt :: string

type_synonym aggregates = "((string \<times> string) \<times> summary) list"

text \<open>
  The \<open>else\<close> branch of the aggregation.  The event identifier is the result of \<open>str(row["event_id"])\<close>, which is only
  evaluated where the code assigns it.
\<close>

definition extend_summary :: "int \<Rightarrow> string res \<Rightarrow> summary \<Rightarrow> summary res" where
  "extend_summary t event_id entry =
     (let e = entry\<lparr>sm_count := sm_count entry + 1\<rparr> in
      bindR (if t < sm_first_seen e
             then bindR event_id (\<lambda>k. Inr (e\<lparr>sm_first_seen := t, sm_first_event := k\<rparr>)) else Inr e) (\<lambda>e.
      if sm_last_seen e < t
      then bindR event_id (\<lambda>k. Inr (e\<lparr>sm_last_seen := t, sm_last_event := k\<rparr>)) else Inr e))"

text \<open>One geofence for one observation.\<close>

definition summarize_fence :: "(cell \<Rightarrow> string) \<Rightarrow> row \<Rightarrow> string \<Rightarrow> int \<Rightarrow> position \<Rightarrow> aggregates \<Rightarrow> geofence \<Rightarrow> aggregates res" where
  "summarize_fence ps r mmsi t p aggs g =
     bindR (contains g p) (\<lambda>inside.
     if \<not> inside then Inr aggs
     else
       (case map_of aggs (fence_id g, mmsi) of
         None \<Rightarrow>
           bindR (row_key ps ''event_id'' r) (\<lambda>event_id.
           bindR (geofence_polygon_wkt g) (\<lambda>wkt.
           Inr (AList.update (fence_id g, mmsi)
             \<lparr>sm_count = 1, sm_first_seen = t, sm_last_seen = t, sm_first_event = event_id, sm_last_event = event_id, sm_wkt = wkt\<rparr>
             aggs)))
       | Some entry \<Rightarrow>
           bindR (extend_summary t (row_key ps ''event_id'' r) entry) (\<lambda>entry'.
           Inr (AList.update (fence_id g, mmsi) entry' aggs))))"

definition summarize_row :: "(cell \<Rightarrow> string) \<Rightarrow> geofence list \<Rightarrow> aggregates \<Rightarrow> row \<Rightarrow> aggregates res" where
  "summarize_row ps fences aggs r =
     bindR (normalize_mmsi (cell_json (row_get r ''mmsi''))) (\<lambda>mmsi.
     bindR (require_some (cell_time (row_get r ''occurred_at'')) ValueError ''bronze vessel observation is missing occurred_at'') (\<lambda>t.
     bindR (row_item r ''latitude'') (\<lambda>c. bindR (py_float (cell_json c)) (\<lambda>lat.
     bindR (row_item r ''longitude'') (\<lambda>c. bindR (py_float (cell_json c)) (\<lambda>lon.
     bindR (new_position lat lon) (\<lambda>p.
     foldR (summarize_fence ps r mmsi t p) aggs fences)))))))"

definition summary_row :: "int \<Rightarrow> (string \<times> string) \<times> summary \<Rightarrow> row" where
  "summary_row summarized_at entry =
     (case entry of ((fence, mmsi), s) \<Rightarrow>
        [(''geofence_id'', CText fence), (''mmsi'', CText mmsi), (''observation_count'', CInt (sm_count s)),
         (''first_seen_at'', CTime (sm_first_seen s)), (''last_seen_at'', CTime (sm_last_seen s)),
         (''first_event_id'', CText (sm_first_event s)), (''last_event_id'', CText (sm_last_event s)),
         (''geometry_wkt'', CText (sm_wkt s)), (''summarized_at'', CTime summarized_at)])"

definition build_geofence_summaries :: "'w runtime \<Rightarrow> row list \<Rightarrow> geofence list \<Rightarrow> ('w, row list) act" where
  "build_geofence_summaries rt observations fences =
     bindA (pureA (guard (fences \<noteq> []) ValueError ''at least one validated geofence is required'')) (\<lambda>_.
     bindA (read_clock rt) (\<lambda>summarized_at.
     pureA (bindR (foldR (summarize_row (rt_str rt) fences) [] observations) (\<lambda>aggs.
       Inr (map (summary_row summarized_at) (sort_key fst aggs))))))"

definition rebuild_gold_geofence_summaries :: "'w runtime \<Rightarrow> ('w, 't) delta_api \<Rightarrow> string \<Rightarrow> string \<Rightarrow> geofence list \<Rightarrow>
    ('w, int \<times> int) act" where
  "rebuild_gold_geofence_summaries rt api bronze_uri gold_uri fences =
     bindA (pureA (validate_table_uri bronze_uri)) (\<lambda>_.
     bindA (pureA (validate_table_uri gold_uri)) (\<lambda>_.
     bindA (read_bronze_observations api bronze_uri) (\<lambda>observations.
     bindA (pureA (guard (observations \<noteq> []) ValueError ''cannot summarize an empty bronze table'')) (\<lambda>_.
     bindA (build_geofence_summaries rt observations fences) (\<lambda>rows.
     bindA (pureA (guard (rows \<noteq> []) ValueError ''no bronze observations fall inside the governed geofences'')) (\<lambda>_.
     overwrite_table api gold_uri rows ''gold_geofence_summaries'' GOLD_TABLE_DESCRIPTION))))))"

section \<open>Deduplication and tracks\<close>

text \<open>What the silver assembly keeps of an observation: its point, in the track of its vessel.\<close>

lemma foldl_deduplicate_count:
  "foldl deduplicate_step (ds, n) ps = (ds', n') \<Longrightarrow> length ds' + n' = length ds + n + length ps \<and>
    set ds' \<subseteq> set ds \<union> set ps \<and> (\<forall>p\<in>set ps. \<exists>q\<in>set ds'. p = q \<or> same_fix q p) \<and> (\<forall>q\<in>set ds. q \<in> set ds')"
proof (induction ps arbitrary: ds n)
  case (Cons p ps)
  define st where "st = deduplicate_step (ds, n) p"
  obtain ds1 n1 where st: "st = (ds1, n1)" by (cases st)
  have s: "length ds1 + n1 = length ds + n + 1" "set ds1 \<subseteq> insert p (set ds)" "\<forall>q\<in>set ds. q \<in> set ds1"
    "\<exists>q\<in>set ds1. p = q \<or> same_fix q p"
    using st by (auto simp: st_def deduplicate_step_def split: if_splits)
  have "foldl deduplicate_step (ds1, n1) ps = (ds', n')" using Cons.prems st by (simp add: st_def)
  from Cons.IH [OF this] s show ?case by auto
qed auto

lemma deduplicate_result:
  assumes "deduplicate ps = (ds, n)"
  shows "length ds + n = length ps" "set ds \<subseteq> set ps" "\<forall>p\<in>set ps. \<exists>q\<in>set ds. p = q \<or> same_fix q p"
  using foldl_deduplicate_count [OF assms [unfolded deduplicate_def]] by auto

lemma tracked_update: "tracked (AList.update m ps tracks) k = (if k = m then ps else tracked tracks k)"
  by (auto simp: tracked_def update_conv')

lemma add_to_track_fold:
  assumes "foldR add_to_track tracks rows = Inr tracks'" "distinct (map fst tracks)"
  shows "\<exists>entries. mapR track_entry rows = Inr entries \<and> distinct (map fst tracks') \<and>
    (\<forall>m. tracked tracks' m = tracked tracks m @ map snd (filter (\<lambda>e. fst e = m) entries)) \<and>
    set (map fst tracks') = set (map fst tracks) \<union> fst ` set entries"
  using assms
proof (induction rows arbitrary: tracks)
  case (Cons r rows)
  from Cons.prems(1) obtain ts where a: "add_to_track tracks r = Inr ts" and g: "foldR add_to_track ts rows = Inr tracks'"
    by (auto simp: bindR_Inr_iff)
  from a obtain m p where e: "track_entry r = Inr (m, p)" and ts: "ts = AList.update m (tracked tracks m @ [p]) tracks"
    by (auto simp: add_to_track_def bindR_Inr_iff)
  from g ts have f: "foldR add_to_track (AList.update m (tracked tracks m @ [p]) tracks) rows = Inr tracks'" by simp
  from Cons.IH [OF f] Cons.prems(2) obtain entries where i: "mapR track_entry rows = Inr entries" "distinct (map fst tracks')"
    "\<forall>k. tracked tracks' k = tracked (AList.update m (tracked tracks m @ [p]) tracks) k @ map snd (filter (\<lambda>e. fst e = k) entries)"
    "set (map fst tracks') = set (map fst (AList.update m (tracked tracks m @ [p]) tracks)) \<union> fst ` set entries"
    by (auto simp: distinct_update)
  have "set (map fst (AList.update m (tracked tracks m @ [p]) tracks)) = insert m (set (map fst tracks))"
    by (simp add: update_keys split: if_splits) auto
  with i e show ?case by (auto simp: tracked_update)
qed auto

end
