(* ===== verification/Vessel_Properties.thy ===== *)
theory Vessel_Properties
  imports Vessel_Lakehouse
begin

text \<open>
  What the vessel lakehouse guarantees: the silver trajectories cover every observation and divide each track exactly where its
  gaps exceed the threshold, the gold summaries count and date the observations inside each geofence, and a bronze row
  is an authenticated observation in range.
\<close>

section \<open>The rows of a track\<close>

definition traj_mmsi :: "row \<Rightarrow> string" where
  "traj_mmsi r = (case row_get r ''mmsi'' of CText s \<Rightarrow> s | _ \<Rightarrow> [])"
definition traj_started :: "row \<Rightarrow> int" where
  "traj_started r = (case row_get r ''started_at'' of CTime t \<Rightarrow> t | _ \<Rightarrow> 0)"
definition traj_ended :: "row \<Rightarrow> int" where
  "traj_ended r = (case row_get r ''ended_at'' of CTime t \<Rightarrow> t | _ \<Rightarrow> 0)"
definition traj_points :: "row \<Rightarrow> int" where
  "traj_points r = (case row_get r ''point_count'' of CInt n \<Rightarrow> n | _ \<Rightarrow> 0)"

definition row_of_segment :: "string \<Rightarrow> track_point list \<Rightarrow> row \<Rightarrow> bool" where
  "row_of_segment m s r \<longleftrightarrow> traj_mmsi r = m \<and> traj_started r = tp_occurred_at (hd s) \<and>
     traj_ended r = tp_occurred_at (last s) \<and> traj_points r = int (length s)"

lemma trajectory_row_segment:
  assumes "trajectory_row rt hy thr tol now m dups (i, s) = Inr r"
  shows "row_of_segment m s r"
proof -
  obtain simplified a b where "simplify_preserving_topology hy s tol = Inr simplified" "fl_trunc (total_seconds thr) = Inr a"
    "fl_trunc (total_seconds (tp_occurred_at (last s) - tp_occurred_at (hd s))) = Inr b"
    using assms by (auto simp: trajectory_row_def bindR_Inr_iff)
  with assms show ?thesis
    by (auto simp: trajectory_row_def Let_def row_of_segment_def traj_mmsi_def traj_started_def traj_ended_def traj_points_def)
qed

lemma enumerate_rows:
  "list_all2 (\<lambda>is r. trajectory_row rt hy thr tol now m dups is = Inr r) (enumerate k ss) rs \<Longrightarrow> list_all2 (row_of_segment m) ss rs"
  by (induction ss arbitrary: k rs) (auto simp: list_all2_Cons1 intro: trajectory_row_segment)

lemma track_rows_segments:
  assumes "track_rows rt hy thr tol now (m, ps) = Inr rs"
  shows "\<exists>ss. segment_track (fst (deduplicate (track_order ps))) thr = Inr ss \<and> list_all2 (row_of_segment m) ss rs"
  using assms by (auto simp: track_rows_def bindR_Inr_iff mapR_Inr_iff split: prod.splits dest: enumerate_rows)

section \<open>Times\<close>

abbreviation in_time :: "track_point list \<Rightarrow> bool" where
  "in_time ps \<equiv> sorted_wrt (\<lambda>p q. tp_occurred_at p \<le> tp_occurred_at q) ps"

lemma track_order_in_time: "in_time (track_order ps)"
proof -
  have "sorted (map (\<lambda>p. (tp_occurred_at p, tp_event_id p)) (track_order ps))"
    unfolding track_order_def by (rule sorted_sort_key)
  then have "sorted_wrt (\<lambda>p q. (tp_occurred_at p, tp_event_id p) \<le> (tp_occurred_at q, tp_event_id q)) (track_order ps)"
    by (simp add: sorted_map)
  then show ?thesis by (rule sorted_wrt_mono_rel [rotated]) (auto simp: less_eq_prod_def)
qed

lemma deduplicate_fold_in_time:
  assumes "foldl deduplicate_step (ds, n) ps = (ds', n')" "in_time (ds @ ps)"
  shows "in_time ds'"
  using assms
proof (induction ps arbitrary: ds n)
  case (Cons p ps)
  show ?case
  proof (cases "ds \<noteq> [] \<and> same_fix (last ds) p")
    case True
    then have "deduplicate_step (ds, n) p = (ds, n + 1)" by (simp add: deduplicate_step_def)
    with Cons.prems have "foldl deduplicate_step (ds, n + 1) ps = (ds', n')" by simp
    moreover have "in_time (ds @ ps)" using Cons.prems(2) by (auto simp: sorted_wrt_append)
    ultimately show ?thesis by (rule Cons.IH)
  next
    case False
    then have "deduplicate_step (ds, n) p = (ds @ [p], n)" by (auto simp: deduplicate_step_def)
    with Cons.prems have "foldl deduplicate_step (ds @ [p], n) ps = (ds', n')" by simp
    moreover have "in_time ((ds @ [p]) @ ps)" using Cons.prems(2) by simp
    ultimately show ?thesis by (rule Cons.IH)
  qed
qed simp

lemma deduplicate_in_time: "in_time (fst (deduplicate (track_order ps)))"
  using deduplicate_fold_in_time [of "[]" 0 "track_order ps"] track_order_in_time [of ps]
  by (cases "deduplicate (track_order ps)") (auto simp: deduplicate_def)

lemma in_time_ends:
  assumes "in_time s" "p \<in> set s"
  shows "tp_occurred_at (hd s) \<le> tp_occurred_at p \<and> tp_occurred_at p \<le> tp_occurred_at (last s)"
proof
  show "tp_occurred_at (hd s) \<le> tp_occurred_at p" using assms by (cases s) auto
  show "tp_occurred_at p \<le> tp_occurred_at (last s)"
    using assms by (cases s rule: rev_cases) (auto simp: sorted_wrt_append)
qed

text \<open>Segments of a track in time are apart, not only neighbouring ones.\<close>

lemma segments_apart:
  assumes "segmented thr points ss" "in_time points" "0 < thr"
  shows "sorted_wrt (\<lambda>s s'. thr < tp_occurred_at (hd s') - tp_occurred_at (last s)) ss"
proof -
  let ?R = "\<lambda>s s'. thr < tp_occurred_at (hd s') - tp_occurred_at (last s) \<and>
     tp_occurred_at (hd s) \<le> tp_occurred_at (last s) \<and> tp_occurred_at (hd s') \<le> tp_occurred_at (last s')"
  have c: "concat ss = points" and ne: "[] \<notin> set ss" using assms(1) by (simp_all add: segmented_def)
  have order: "tp_occurred_at (hd s) \<le> tp_occurred_at (last s)" if "s \<in> set ss" for s
  proof -
    from split_list [OF that] obtain a b where "ss = a @ s # b" by blast
    with c assms(2) have "in_time s" by (auto simp: sorted_wrt_append)
    moreover have "s \<noteq> []" using ne that by auto
    ultimately show ?thesis using in_time_ends [of s "last s"] by simp
  qed
  have "successively (\<lambda>s s'. thr < tp_occurred_at (hd s') - tp_occurred_at (last s)) ss"
    using assms(1) by (simp add: segmented_def close_to_def not_le)
  then have "successively ?R ss" by (rule successively_mono) (use order in auto)
  moreover have "transp ?R" using assms(3) by (intro transpI) auto
  ultimately have "sorted_wrt ?R ss" using successively_conv_sorted_wrt by blast
  then show ?thesis by (rule sorted_wrt_mono_rel [rotated]) auto
qed

lemma list_all2_sorted_wrt:
  assumes "list_all2 f xs ys" "sorted_wrt P xs" "\<And>x x' y y'. P x x' \<Longrightarrow> f x y \<Longrightarrow> f x' y' \<Longrightarrow> Q y y'"
  shows "sorted_wrt Q ys"
  using assms(1,2)
proof (induction rule: list_all2_induct)
  case (Cons x xs y ys)
  have "Q y y'" if "y' \<in> set ys" for y'
  proof -
    from list_all2_in_left [OF Cons(2) that] obtain x' where "x' \<in> set xs" "f x' y'" by blast
    with Cons assms(3) show ?thesis by auto
  qed
  with Cons show ?case by simp
qed simp

lemma track_rows_facts:
  assumes "track_rows rt hy thr tol now (m, ps) = Inr rs" "0 < thr"
  shows "\<forall>r\<in>set rs. traj_mmsi r = m" "sorted_wrt (\<lambda>r r'. thr < traj_started r' - traj_ended r) rs"
    "\<forall>p\<in>set ps. \<exists>r\<in>set rs. traj_started r \<le> tp_occurred_at p \<and> tp_occurred_at p \<le> traj_ended r"
    "sum_list (map traj_points rs) + int (snd (deduplicate (track_order ps))) = int (length ps)"
proof -
  obtain ds n where d: "deduplicate (track_order ps) = (ds, n)" by (cases "deduplicate (track_order ps)")
  from track_rows_segments [OF assms(1)] d obtain ss where ss: "segment_track ds thr = Inr ss" "list_all2 (row_of_segment m) ss rs"
    by auto
  have sg: "segmented thr ds ss" by (rule segment_track_segmented [OF ss(1)])
  then have c: "concat ss = ds" by (simp add: segmented_def)
  have time: "in_time ds" using deduplicate_in_time [of ps] d by simp
  have row: "\<exists>r\<in>set rs. row_of_segment m s r" if "s \<in> set ss" for s
    using list_all2_in_right [OF ss(2) that] .
  show "\<forall>r\<in>set rs. traj_mmsi r = m"
    using list_all2_in_left [OF ss(2)] by (fastforce simp: row_of_segment_def)
  show "sorted_wrt (\<lambda>r r'. thr < traj_started r' - traj_ended r) rs"
    using list_all2_sorted_wrt [OF ss(2) segments_apart [OF sg time assms(2)]] by (simp add: row_of_segment_def)
  show "\<forall>p\<in>set ps. \<exists>r\<in>set rs. traj_started r \<le> tp_occurred_at p \<and> tp_occurred_at p \<le> traj_ended r"
  proof
    fix p assume "p \<in> set ps"
    then have "p \<in> set (track_order ps)" by (simp add: track_order_def)
    with deduplicate_result(3) [OF d] obtain q where q: "q \<in> set ds" "p = q \<or> same_fix q p" by blast
    then have t: "tp_occurred_at p = tp_occurred_at q" by (auto simp: same_fix_def)
    from q(1) c obtain s where s: "s \<in> set ss" "q \<in> set s" by auto
    from split_list [OF s(1)] obtain a b where "ss = a @ s # b" by blast
    with c time have "in_time s" by (auto simp: sorted_wrt_append)
    from in_time_ends [OF this s(2)] t have "tp_occurred_at (hd s) \<le> tp_occurred_at p \<and> tp_occurred_at p \<le> tp_occurred_at (last s)"
      by simp
    with row [OF s(1)] show "\<exists>r\<in>set rs. traj_started r \<le> tp_occurred_at p \<and> tp_occurred_at p \<le> traj_ended r"
      by (metis row_of_segment_def)
  qed
  have "sum_list (map traj_points rs) = int (length (concat ss))"
    using ss(2) by (induction rule: list_all2_induct) (simp_all add: row_of_segment_def)
  moreover have "length ds + n = length ps" using deduplicate_result(1) [OF d] by (simp add: track_order_def)
  ultimately show "sum_list (map traj_points rs) + int (snd (deduplicate (track_order ps))) = int (length ps)"
    using c d by simp
qed

section \<open>The silver table\<close>

text \<open>The order of the rows: by vessel, and for one vessel apart in time by more than the threshold.\<close>

definition traj_before :: "int \<Rightarrow> row \<Rightarrow> row \<Rightarrow> bool" where
  "traj_before thr r r' \<longleftrightarrow>
     traj_mmsi r < traj_mmsi r' \<or> traj_mmsi r = traj_mmsi r' \<and> thr < traj_started r' - traj_ended r"

lemma tracks_rows_before:
  assumes "list_all2 (\<lambda>t rs. track_rows rt hy thr tol now t = Inr rs) tracks rowss" "sorted_wrt (<) (map fst tracks)" "0 < thr"
  shows "sorted_wrt (traj_before thr) (concat rowss)"
  using assms(1,2)
proof (induction rule: list_all2_induct)
  case (Cons t tracks rs rowss)
  obtain m ps where t: "t = (m, ps)" by (cases t)
  note f = track_rows_facts [OF Cons(1) [unfolded t] assms(3)]
  have later: "m < traj_mmsi r" if "r \<in> set (concat rowss)" for r
  proof -
    from that obtain rs' where "rs' \<in> set rowss" "r \<in> set rs'" by auto
    with list_all2_in_left [OF Cons(2)] obtain t' where "t' \<in> set tracks" "track_rows rt hy thr tol now t' = Inr rs'" "r \<in> set rs'"
      by blast
    with track_rows_facts(1) [of rt hy thr tol now "fst t'" "snd t'" rs'] assms(3) Cons(4) t show ?thesis by auto
  qed
  have "sorted_wrt (traj_before thr) rs"
    using f(2) by (rule sorted_wrt_mono_rel [rotated]) (use f(1) in \<open>simp add: traj_before_def\<close>)
  moreover have "sorted_wrt (traj_before thr) (concat rowss)" using Cons by simp
  moreover have "traj_before thr r r'" if "r \<in> set rs" "r' \<in> set (concat rowss)" for r r'
    using that f(1) later by (simp add: traj_before_def)
  ultimately show ?case by (simp add: sorted_wrt_append)
qed simp

lemma entries_per_key:
  assumes "distinct ks" "fst ` set es \<subseteq> set ks"
  shows "sum_list (map (\<lambda>k. length (filter (\<lambda>e. fst e = k) es)) ks) = length es"
  using assms(2)
proof (induction es)
  case (Cons e es)
  have "sum_list (map (\<lambda>k. if fst e = k then 1 else 0) ks) = (1::nat)"
    using Cons.prems by (simp add: sum_list_distinct_conv_sum_set [OF assms(1)])
  moreover have "map (\<lambda>k. length (filter (\<lambda>x. fst x = k) (e # es))) ks =
      map (\<lambda>k. (if fst e = k then 1 else 0) + length (filter (\<lambda>x. fst x = k) es)) ks" by simp
  ultimately show ?case using Cons by (simp only: sum_list_addf) simp
qed simp

lemma sum_list_sort: "sum_list (map f (sort_key g xs)) = sum_list (map f xs)"
  for f :: "'a \<Rightarrow> nat"
proof -
  have "mset (map f (sort_key g xs)) = mset (map f xs)" by simp
  then show ?thesis by (metis sum_mset_sum_list)
qed

lemma assemble_cases:
  assumes "assemble_vessel_trajectories rt hy observations thr tol w = (Inr rows, w')"
  obtains tracks now rowss where "foldR add_to_track [] observations = Inr tracks"
    "list_all2 (\<lambda>t rs. track_rows rt hy thr tol now t = Inr rs) (sort_key fst tracks) rowss" "rows = concat rowss"
proof -
  from assms obtain tracks now w1 where "foldR add_to_track [] observations = Inr tracks"
    "bindR (mapR (track_rows rt hy thr tol now) (sort_key fst tracks)) (\<lambda>rowss. Inr (concat rowss)) = Inr rows"
    by (auto simp: assemble_vessel_trajectories_def bindA_Inr)
  then show ?thesis using that by (auto simp: bindR_Inr_iff mapR_Inr_iff)
qed

text \<open>
  Claim C13. The silver trajectories cover the bronze observations: every observation lies in the time span of a trajectory of its
  vessel, the trajectories are ordered by vessel, those of one vessel are apart by more than the gap threshold, and they hold
  no more points than there are observations.
\<close>

theorem trajectories_cover:
  assumes "assemble_vessel_trajectories rt hy observations thr tol w = (Inr rows, w')" "0 < thr"
  shows "(\<forall>ob\<in>set observations. \<exists>m p. track_entry ob = Inr (m, p) \<and>
       (\<exists>r\<in>set rows. traj_mmsi r = m \<and> traj_started r \<le> tp_occurred_at p \<and> tp_occurred_at p \<le> traj_ended r)) \<and>
     sorted_wrt (traj_before thr) rows \<and> sum_list (map traj_points rows) \<le> int (length observations)"
proof -
  from assms(1) obtain tracks now rowss where a: "foldR add_to_track [] observations = Inr tracks"
    "list_all2 (\<lambda>t rs. track_rows rt hy thr tol now t = Inr rs) (sort_key fst tracks) rowss" "rows = concat rowss"
    by (rule assemble_cases)
  from add_to_track_fold [OF a(1)] obtain entries where e: "mapR track_entry observations = Inr entries" "distinct (map fst tracks)"
    "\<forall>m. tracked tracks m = map snd (filter (\<lambda>e. fst e = m) entries)" "set (map fst tracks) = fst ` set entries"
    by (auto simp: tracked_def)
  have sorted: "sorted_wrt (<) (map fst (sort_key fst tracks))" by (rule sorted_fst_strict [OF e(2)])
  have cover: "\<exists>m p. track_entry ob = Inr (m, p) \<and>
       (\<exists>r\<in>set rows. traj_mmsi r = m \<and> traj_started r \<le> tp_occurred_at p \<and> tp_occurred_at p \<le> traj_ended r)"
    if ob: "ob \<in> set observations" for ob
  proof -
    from list_all2_in_right [OF e(1) [unfolded mapR_Inr_iff] ob] obtain x where x: "track_entry ob = Inr x" "x \<in> set entries"
      by blast
    obtain m p where mp: "x = (m, p)" by (cases x)
    with x(2) e(4) have "m \<in> set (map fst tracks)" by force
    then obtain ps where ps: "(m, ps) \<in> set tracks" by auto
    with e(2) have "tracked tracks m = ps" by (simp add: tracked_def)
    with e(3) x(2) mp have "p \<in> set ps" by force
    moreover from ps have "(m, ps) \<in> set (sort_key fst tracks)" by simp
    with list_all2_in_right [OF a(2)] obtain rs where rs: "track_rows rt hy thr tol now (m, ps) = Inr rs" "rs \<in> set rowss" by blast
    ultimately obtain r where "r \<in> set rs" "traj_started r \<le> tp_occurred_at p \<and> tp_occurred_at p \<le> traj_ended r" "traj_mmsi r = m"
      using track_rows_facts(1,3) [OF rs(1) assms(2)] by blast
    with rs(2) a(3) x(1) mp show ?thesis by auto
  qed
  have "sum_list (map traj_points (concat rs)) \<le> int (sum_list (map (\<lambda>t. length (snd t)) ts))"
    if "list_all2 (\<lambda>t rs. track_rows rt hy thr tol now t = Inr rs) ts rs" for ts rs
    using that
  proof (induction rule: list_all2_induct)
    case (Cons t ts r rs)
    from track_rows_facts(4) [of rt hy thr tol now "fst t" "snd t" r] Cons(1) assms(2)
    have "sum_list (map traj_points r) \<le> int (length (snd t))" by simp
    with Cons(3) show ?case by simp
  qed simp
  from this [OF a(2)] have "sum_list (map traj_points rows) \<le> int (sum_list (map (\<lambda>t. length (snd t)) tracks))"
    using a(3) by (simp add: sum_list_sort)
  also have "map (\<lambda>t. length (snd t)) tracks = map (\<lambda>k. length (filter (\<lambda>x. fst x = k) entries)) (map fst tracks)"
  proof -
    have "length (snd t) = length (filter (\<lambda>x. fst x = fst t) entries)" if "t \<in> set tracks" for t
    proof -
      have "map_of tracks (fst t) = Some (snd t)" using that e(2) by (intro map_of_is_SomeI) simp_all
      then have "tracked tracks (fst t) = snd t" by (simp add: tracked_def)
      with e(3) show ?thesis by (metis length_map)
    qed
    then show ?thesis by simp
  qed
  also have "sum_list \<dots> = length entries" by (rule entries_per_key) (use e(2,4) in auto)
  also have "length entries = length observations" using e(1) by (simp add: mapR_Inr_iff list_all2_lengthD)
  finally have "sum_list (map traj_points rows) \<le> int (length observations)" .
  with cover tracks_rows_before [OF a(2) sorted assms(2)] a(3) show ?thesis by blast
qed

section \<open>The assembly returns\<close>

lemma validate_coordinates_bounds:
  assumes "validate_coordinates lat lon = Inr u"
  shows "lat \<noteq> PNaN \<and> lon \<noteq> PNaN \<and> fl_le (PFin (- 90)) lat \<and> fl_le lat (PFin 90) \<and> fl_le (PFin (- 180)) lon \<and> fl_le lon (PFin 180)"
  using assms by (cases lat; cases lon) (auto simp: validate_coordinates_def res_simps)

lemma track_entry_plain: "track_entry r = Inr (m, p) \<Longrightarrow> tp_longitude p \<noteq> PNaN \<and> tp_latitude p \<noteq> PNaN"
  by (auto simp: track_entry_def bindR_Inr_iff dest: validate_coordinates_bounds)

lemma foldR_add_to_track:
  assumes "mapR track_entry rows = Inr entries"
  shows "\<exists>tracks'. foldR add_to_track tracks rows = Inr tracks'"
  using assms
proof (induction rows arbitrary: tracks entries)
  case (Cons r rows)
  from Cons.prems obtain e es where e: "track_entry r = Inr e" "mapR track_entry rows = Inr es" by (auto simp: bindR_Inr_iff)
  obtain m p where "e = (m, p)" by (cases e)
  with e(1) have "add_to_track tracks r = Inr (AList.update m (tracked tracks m @ [p]) tracks)" by (simp add: add_to_track_def)
  with Cons.IH [OF e(2)] show ?case by simp
qed simp

text \<open>A length of time within the range of \<open>datetime\<close> has a finite number of seconds.\<close>

lemma seconds_finite:
  assumes "\<bar>us\<bar> \<le> 10 ^ 18"
  shows "\<exists>n. fl_trunc (total_seconds us) = Inr n"
proof -
  have "\<bar>of_int us / 1000000 :: rat\<bar> \<le> of_int (10 ^ 12)"
  proof -
    have "(of_int \<bar>us\<bar> :: rat) \<le> of_int (10 ^ 18)" using assms by (simp only: of_int_le_iff)
    then show ?thesis by (simp add: abs_divide pos_divide_le_eq)
  qed
  from round_double_finite [OF this] obtain q where "total_seconds us = PFin q" by (auto simp: total_seconds_def)
  then show ?thesis by (simp add: fl_trunc_def)
qed

definition silver_settings :: "int \<Rightarrow> rat \<Rightarrow> bool" where
  "silver_settings thr t \<longleftrightarrow> 0 < thr \<and> thr \<le> 10 ^ 18 \<and> is_double t \<and> pow2 (- 900) \<le> t"

definition dated :: "track_point \<Rightarrow> bool" where
  "dated p \<longleftrightarrow> \<bar>tp_occurred_at p\<bar> \<le> 10 ^ 17 \<and> tp_longitude p \<noteq> PNaN \<and> tp_latitude p \<noteq> PNaN"

lemma trajectory_row_total:
  assumes "silver_settings thr t" "s \<noteq> []" "\<forall>p\<in>set s. dated p"
  shows "\<exists>r. trajectory_row rt hy thr (PFin t) now m dups (i, s) = Inr r"
proof -
  have "\<forall>p\<in>set s. tp_longitude p \<noteq> PNaN \<and> tp_latitude p \<noteq> PNaN" using assms(3) by (simp add: dated_def)
  moreover have "is_double t" "pow2 (- 900) \<le> t" using assms(1) by (simp_all add: silver_settings_def)
  ultimately obtain out where o1: "simplify_preserving_topology hy s (PFin t) = Inr out"
    using simplify_total [OF assms(2), of t hy] by blast
  obtain a where a: "fl_trunc (total_seconds thr) = Inr a" using seconds_finite [of thr] assms(1) by (auto simp: silver_settings_def)
  have "hd s \<in> set s" "last s \<in> set s" using assms(2) by simp_all
  with assms(3) have "\<bar>tp_occurred_at (hd s)\<bar> \<le> 10 ^ 17" "\<bar>tp_occurred_at (last s)\<bar> \<le> 10 ^ 17" by (simp_all add: dated_def)
  then have "\<bar>tp_occurred_at (last s) - tp_occurred_at (hd s)\<bar> \<le> 10 ^ 18" by simp
  then obtain b where "fl_trunc (total_seconds (tp_occurred_at (last s) - tp_occurred_at (hd s))) = Inr b"
    using seconds_finite by blast
  with o1 a show ?thesis by (simp add: trajectory_row_def Let_def)
qed

lemma mapR_total: "\<forall>x\<in>set xs. \<exists>y. f x = Inr y \<Longrightarrow> \<exists>ys. mapR f xs = Inr ys"
  by (induction xs) auto

lemma track_rows_total:
  assumes "silver_settings thr t" "\<forall>p\<in>set ps. dated p"
  shows "\<exists>rs. track_rows rt hy thr (PFin t) now (m, ps) = Inr rs"
proof -
  obtain ds n where d: "deduplicate (track_order ps) = (ds, n)" by (cases "deduplicate (track_order ps)")
  have "0 < thr" using assms(1) by (simp add: silver_settings_def)
  then obtain ss where ss: "segment_track ds thr = Inr ss" using segment_track_total by blast
  then have sg: "segmented thr ds ss" by (rule segment_track_segmented)
  have sub: "set ds \<subseteq> set ps" using deduplicate_result(2) [OF d] by (simp add: track_order_def)
  have "\<exists>r. trajectory_row rt hy thr (PFin t) now m n is = Inr r" if "is \<in> set (enumerate 0 ss)" for "is"
  proof -
    obtain i s where "is": "is = (i, s)" by (cases "is")
    with that have "i < length ss" "ss ! i = s" by (auto simp: in_set_enumerate_eq)
    then have s: "s \<in> set ss" by auto
    then have "s \<noteq> []" "set s \<subseteq> set ds" using sg by (auto simp: segmented_def)
    with sub assms(2) have "\<forall>p\<in>set s. dated p" by blast
    from trajectory_row_total [OF assms(1) \<open>s \<noteq> []\<close> this] "is" show ?thesis by simp
  qed
  then have "\<exists>rs. mapR (trajectory_row rt hy thr (PFin t) now m n) (enumerate 0 ss) = Inr rs" by (intro mapR_total) simp
  then obtain rs where "mapR (trajectory_row rt hy thr (PFin t) now m n) (enumerate 0 ss) = Inr rs" by blast
  with d ss show ?thesis by (simp add: track_rows_def)
qed

lemma assemble_total:
  assumes "mapR track_entry observations = Inr entries" "\<forall>e\<in>set entries. \<bar>tp_occurred_at (snd e)\<bar> \<le> 10 ^ 17"
    and "0 < thr" "thr \<le> 10 ^ 18" "is_double t" "pow2 (- 900) \<le> t"
  shows "\<exists>rows w'. assemble_vessel_trajectories rt hy observations thr (PFin t) w = (Inr rows, w')"
proof -
  have set: "silver_settings thr t" using assms(3-6) by (simp add: silver_settings_def)
  obtain tracks where tr: "foldR add_to_track [] observations = Inr tracks" using foldR_add_to_track [OF assms(1)] by blast
  from add_to_track_fold [OF tr] assms(1) have e: "distinct (map fst tracks)"
    "\<forall>m. tracked tracks m = map snd (filter (\<lambda>e. fst e = m) entries)"
    by (auto simp: tracked_def)
  have dated: "dated p" if "(m, p) \<in> set entries" for m p
  proof -
    from list_all2_in_left [OF assms(1) [unfolded mapR_Inr_iff] that] obtain r where "track_entry r = Inr (m, p)" by blast
    with track_entry_plain assms(2) that show ?thesis by (fastforce simp: dated_def)
  qed
  obtain now w1 where n: "rt_clock rt w = (now, w1)" by (cases "rt_clock rt w")
  have "\<exists>rs. track_rows rt hy thr (PFin t) now x = Inr rs" if "x \<in> set (sort_key fst tracks)" for x
  proof -
    obtain m ps where x: "x = (m, ps)" by (cases x)
    with that have "map_of tracks m = Some ps" using e(1) by (intro map_of_is_SomeI) simp_all
    then have "tracked tracks m = ps" by (simp add: tracked_def)
    then have "ps = map snd (filter (\<lambda>e. fst e = m) entries)" using e(2) by simp
    then have "\<forall>p\<in>set ps. dated p" using dated by auto
    from track_rows_total [OF set this] x show ?thesis by simp
  qed
  then have "\<exists>rowss. mapR (track_rows rt hy thr (PFin t) now) (sort_key fst tracks) = Inr rowss" by (intro mapR_total) simp
  then obtain rowss where "mapR (track_rows rt hy thr (PFin t) now) (sort_key fst tracks) = Inr rowss" by blast
  then show ?thesis using tr n by (simp add: assemble_vessel_trajectories_def bindA_def pureA_def read_clock_def)
qed

text \<open>
  The assembly returns: when every bronze row decodes to a dated point, the gap threshold is positive and the tolerance is a
  double of at least \<open>2 ^ -900\<close> (the default is), silver trajectories are produced; no topology retry, root or division stops them.
\<close>

theorem trajectories_total:
  assumes "mapR track_entry observations = Inr entries" "\<forall>e\<in>set entries. \<bar>tp_occurred_at (snd e)\<bar> \<le> 10 ^ 17"
    and "0 < thr" "thr \<le> 10 ^ 18" "is_double t" "pow2 (- 900) \<le> t"
  shows "\<exists>rows w'. assemble_vessel_trajectories rt hy observations thr (PFin t) w = (Inr rows, w')"
  using assms by (rule assemble_total)

definition sample_observation :: "int \<Rightarrow> row" where
  "sample_observation t =
     [(''event_id'', CText ''e-1''), (''mmsi'', CText ''366053209''), (''occurred_at'', CTime t),
      (''latitude'', CFloat (PFin 6)), (''longitude'', CFloat (PFin 3))]"

lemma sample_entry:
  "track_entry (sample_observation t) =
     Inr (''366053209'', \<lparr>tp_occurred_at = t, tp_longitude = PFin 3, tp_latitude = PFin 6, tp_event_id = ''e-1''\<rparr>)"
proof -
  have "normalize_mmsi (JStr ''366053209'') = Inr ''366053209''" by code_simp
  moreover have "require_canonical_text (JStr ''e-1'') 256 = Inr ''e-1''" by code_simp
  ultimately show ?thesis
    by (simp add: track_entry_def sample_observation_def row_item_def validate_coordinates_def)
qed

lemma sample_entries:
  "mapR track_entry [sample_observation 0, sample_observation 7] =
     Inr (map (\<lambda>t. (''366053209'', \<lparr>tp_occurred_at = t, tp_longitude = PFin 3, tp_latitude = PFin 6, tp_event_id = ''e-1''\<rparr>)) [0, 7])"
  by (simp add: sample_entry)

lemma sample_settings: "is_double 1" "pow2 (- 900) \<le> 1"
  using is_double_of_int [of 1] pow2_mono [of "- 900" 0] by simp_all

lemma trajectories_total_witness:
  "\<exists>rows w'. assemble_vessel_trajectories mem_runtime (\<lambda>a b. PNaN) [sample_observation 0, sample_observation 7] DEFAULT_GAP_THRESHOLD (PFin 1) [] =
     (Inr rows, w')"
  by (rule trajectories_total [OF sample_entries]) (simp_all add: DEFAULT_GAP_THRESHOLD_def sample_settings)

lemma trajectories_cover_witness:
  "\<exists>rows w'. assemble_vessel_trajectories mem_runtime (\<lambda>a b. PNaN) [sample_observation 0, sample_observation 7] DEFAULT_GAP_THRESHOLD (PFin 1) [] =
     (Inr rows, w') \<and> (\<exists>r\<in>set rows. traj_started r \<le> 7 \<and> 7 \<le> traj_ended r)"
proof -
  have "\<exists>rows w'. assemble_vessel_trajectories mem_runtime (\<lambda>a b. PNaN) [sample_observation 0, sample_observation 7] DEFAULT_GAP_THRESHOLD (PFin 1) [] =
     (Inr rows, w')"
    by (rule assemble_total [OF sample_entries]) (simp_all add: DEFAULT_GAP_THRESHOLD_def sample_settings)
  then obtain rows w' where a: "assemble_vessel_trajectories mem_runtime (\<lambda>a b. PNaN) [sample_observation 0, sample_observation 7]
      DEFAULT_GAP_THRESHOLD (PFin 1) [] = (Inr rows, w')" by blast
  have "0 < DEFAULT_GAP_THRESHOLD" by (simp add: DEFAULT_GAP_THRESHOLD_def)
  from trajectories_cover [OF a this] have "\<exists>r\<in>set rows. traj_started r \<le> 7 \<and> 7 \<le> traj_ended r"
    by (auto simp: sample_entry)
  with a show ?thesis by blast
qed

section \<open>Gold summaries\<close>

text \<open>What the summaries see of a bronze row, and the time and event of the rows of a vessel inside a geofence, in order.\<close>

definition observed :: "row \<Rightarrow> (string \<times> int \<times> position) res" where
  "observed r =
     bindR (normalize_mmsi (cell_json (row_get r ''mmsi''))) (\<lambda>mmsi.
     bindR (require_some (cell_time (row_get r ''occurred_at'')) ValueError ''bronze vessel observation is missing occurred_at'') (\<lambda>t.
     bindR (row_item r ''latitude'') (\<lambda>c. bindR (py_float (cell_json c)) (\<lambda>lat.
     bindR (row_item r ''longitude'') (\<lambda>c. bindR (py_float (cell_json c)) (\<lambda>lon.
     bindR (new_position lat lon) (\<lambda>p. Inr (mmsi, t, p))))))))"

text \<open>An observation of the vessel inside the geofence, with the identifier the code would read for it.\<close>

definition hit :: "(cell \<Rightarrow> string) \<Rightarrow> geofence \<Rightarrow> string \<Rightarrow> row \<Rightarrow> (int \<times> string res) option" where
  "hit ps g m r =
     (case observed r of
        Inl e \<Rightarrow> None
      | Inr (m', t, p) \<Rightarrow> if m' = m \<and> contains g p = Inr True then Some (t, row_key ps ''event_id'' r) else None)"

definition hits :: "(cell \<Rightarrow> string) \<Rightarrow> geofence \<Rightarrow> string \<Rightarrow> row list \<Rightarrow> (int \<times> string res) list" where
  "hits ps g m rows = List.map_filter (hit ps g m) rows"

definition summarizes :: "(int \<times> string res) list \<Rightarrow> summary option \<Rightarrow> bool" where
  "summarizes hs x =
     (case x of
        None \<Rightarrow> hs = []
      | Some s \<Rightarrow> sm_count s = int (length hs) \<and> (sm_first_seen s, Inr (sm_first_event s)) \<in> set hs \<and>
          (sm_last_seen s, Inr (sm_last_event s)) \<in> set hs \<and> (\<forall>h\<in>set hs. sm_first_seen s \<le> fst h \<and> fst h \<le> sm_last_seen s))"

lemma summarize_row_observed:
  "summarize_row ps fences aggs r =
     bindR (observed r) (\<lambda>x. case x of (m, t, p) \<Rightarrow> foldR (summarize_fence ps r m t p) aggs fences)"
  by (simp add: summarize_row_def observed_def bindR_assoc)

lemma summarizes_extend:
  "extend_summary t k s = Inr s' \<Longrightarrow> summarizes hs (Some s) \<Longrightarrow> summarizes (hs @ [(t, k)]) (Some s')"
  by (auto simp: summarizes_def extend_summary_def Let_def bindR_Inr_iff split: if_splits)

lemma summarize_fence_result:
  assumes "summarize_fence ps r m t p aggs g = Inr aggs'" "observed r = Inr (m, t, p)"
  shows "case hit ps g m r of None \<Rightarrow> aggs' = aggs
    | Some h \<Rightarrow> \<exists>s. aggs' = AList.update (fence_id g, m) s aggs \<and>
        (\<forall>hs. summarizes hs (map_of aggs (fence_id g, m)) \<longrightarrow> summarizes (hs @ [h]) (Some s))"
proof -
  from assms(1) obtain inside where i: "contains g p = Inr inside" by (auto simp: summarize_fence_def bindR_Inr_iff)
  show ?thesis
  proof (cases inside)
    case False
    with assms i show ?thesis by (auto simp: summarize_fence_def hit_def split: sum.splits)
  next
    case True
    with i assms(2) have h: "hit ps g m r = Some (t, row_key ps ''event_id'' r)" by (simp add: hit_def)
    show ?thesis
    proof (cases "map_of aggs (fence_id g, m)")
      case None
      with assms(1) i True obtain k wkt where "row_key ps ''event_id'' r = Inr k" "aggs' = AList.update (fence_id g, m)
             \<lparr>sm_count = 1, sm_first_seen = t, sm_last_seen = t, sm_first_event = k, sm_last_event = k, sm_wkt = wkt\<rparr> aggs"
        by (auto simp: summarize_fence_def bindR_Inr_iff)
      with None h show ?thesis by (auto simp: summarizes_def)
    next
      case (Some s)
      with assms(1) i True obtain s' where "extend_summary t (row_key ps ''event_id'' r) s = Inr s'"
        "aggs' = AList.update (fence_id g, m) s' aggs"
        by (auto simp: summarize_fence_def bindR_Inr_iff)
      with Some h show ?thesis by (auto intro: summarizes_extend)
    qed
  qed
qed

abbreviation (input) hit_list :: "(cell \<Rightarrow> string) \<Rightarrow> geofence \<Rightarrow> string \<Rightarrow> row \<Rightarrow> (int \<times> string res) list" where
  "hit_list ps g m r \<equiv> (case hit ps g m r of None \<Rightarrow> [] | Some h \<Rightarrow> [h])"

lemma summarize_fence_step:
  assumes "summarize_fence ps r m t p aggs g = Inr aggs'" "observed r = Inr (m, t, p)"
  shows "distinct (map fst aggs) \<Longrightarrow> distinct (map fst aggs')"
    and "key \<noteq> (fence_id g, m) \<Longrightarrow> map_of aggs' key = map_of aggs key"
    and "summarizes hs (map_of aggs (fence_id g, m)) \<Longrightarrow> summarizes (hs @ hit_list ps g m r) (map_of aggs' (fence_id g, m))"
  using summarize_fence_result [OF assms] by (auto simp: update_conv' distinct_update split: option.splits)

lemma summarize_fences:
  assumes "foldR (summarize_fence ps r m t p) aggs fences = Inr aggs'" "observed r = Inr (m, t, p)"
    "distinct (map fence_id fences)" "distinct (map fst aggs)"
  shows "distinct (map fst aggs') \<and> (\<forall>key. key \<notin> (\<lambda>g. (fence_id g, m)) ` set fences \<longrightarrow> map_of aggs' key = map_of aggs key) \<and>
    (\<forall>g\<in>set fences. \<forall>hs. summarizes hs (map_of aggs (fence_id g, m)) \<longrightarrow>
       summarizes (hs @ hit_list ps g m r) (map_of aggs' (fence_id g, m)))"
  using assms
proof (induction fences arbitrary: aggs)
  case (Cons g fences)
  from Cons.prems(1) obtain a1 where s: "summarize_fence ps r m t p aggs g = Inr a1"
    and f: "foldR (summarize_fence ps r m t p) a1 fences = Inr aggs'" by (auto simp: bindR_Inr_iff)
  note st = summarize_fence_step [OF s Cons.prems(2)]
  from Cons.IH [OF f Cons.prems(2)] Cons.prems(3,4) st(1)
  have i: "distinct (map fst aggs')" "\<forall>key. key \<notin> (\<lambda>g. (fence_id g, m)) ` set fences \<longrightarrow> map_of aggs' key = map_of a1 key"
    "\<forall>g\<in>set fences. \<forall>hs. summarizes hs (map_of a1 (fence_id g, m)) \<longrightarrow>
       summarizes (hs @ hit_list ps g m r) (map_of aggs' (fence_id g, m))" by auto
  have new: "(fence_id g, m) \<notin> (\<lambda>g. (fence_id g, m)) ` set fences" using Cons.prems(3) by auto
  have "summarizes (hs @ hit_list ps g' m r) (map_of aggs' (fence_id g', m))"
    if g': "g' \<in> set (g # fences)" and hs: "summarizes hs (map_of aggs (fence_id g', m))" for g' hs
  proof (cases "g' \<in> set fences")
    case True
    then have "(fence_id g', m) \<in> (\<lambda>g. (fence_id g, m)) ` set fences" by (rule imageI)
    with new have "(fence_id g', m) \<noteq> (fence_id g, m)" by metis
    then have "map_of a1 (fence_id g', m) = map_of aggs (fence_id g', m)" by (rule st(2))
    with hs i(3) True show ?thesis by metis
  next
    case False
    with g' have g: "g' = g" by simp
    have "map_of aggs' (fence_id g, m) = map_of a1 (fence_id g, m)" using i(2) new by blast
    with st(3) hs g show ?thesis by metis
  qed
  moreover have "map_of aggs' key = map_of aggs key" if "key \<notin> (\<lambda>g. (fence_id g, m)) ` set (g # fences)" for key
  proof -
    from that have "key \<notin> (\<lambda>g. (fence_id g, m)) ` set fences" "key \<noteq> (fence_id g, m)" by auto
    with i(2) st(2) [of key] show ?thesis by metis
  qed
  ultimately show ?case using i(1) by blast
qed auto

lemma summarize_rows:
  assumes "foldR (summarize_row ps fences) aggs rows = Inr aggs'" "distinct (map fence_id fences)" "distinct (map fst aggs)"
  shows "distinct (map fst aggs') \<and>
    (\<forall>g\<in>set fences. \<forall>m hs. summarizes hs (map_of aggs (fence_id g, m)) \<longrightarrow>
       summarizes (hs @ hits ps g m rows) (map_of aggs' (fence_id g, m)))"
  using assms
proof (induction rows arbitrary: aggs)
  case Nil
  then show ?case by (simp add: hits_def map_filter_simps)
next
  case (Cons r rows)
  from Cons.prems(1) obtain a1 where a1: "summarize_row ps fences aggs r = Inr a1" and f: "foldR (summarize_row ps fences) a1 rows = Inr aggs'"
    by (auto simp: bindR_Inr_iff)
  from a1 obtain m0 t p where ob: "observed r = Inr (m0, t, p)"
    and s: "foldR (summarize_fence ps r m0 t p) aggs fences = Inr a1"
    by (auto simp: summarize_row_observed bindR_Inr_iff)
  from summarize_fences [OF s ob Cons.prems(2,3)]
  have st: "distinct (map fst a1)" "\<forall>key. key \<notin> (\<lambda>g. (fence_id g, m0)) ` set fences \<longrightarrow> map_of a1 key = map_of aggs key"
    "\<forall>g\<in>set fences. \<forall>hs. summarizes hs (map_of aggs (fence_id g, m0)) \<longrightarrow>
       summarizes (hs @ hit_list ps g m0 r) (map_of a1 (fence_id g, m0))" by blast+
  from Cons.IH [OF f Cons.prems(2) st(1)]
  have i: "distinct (map fst aggs')" "\<forall>g\<in>set fences. \<forall>m hs. summarizes hs (map_of a1 (fence_id g, m)) \<longrightarrow>
       summarizes (hs @ hits ps g m rows) (map_of aggs' (fence_id g, m))" by blast+
  have h: "hits ps g m (r # rows) = hit_list ps g m r @ hits ps g m rows" for g m
    by (simp add: hits_def map_filter_simps split: option.splits)
  have "summarizes (hs @ hit_list ps g m r) (map_of a1 (fence_id g, m))"
    if g: "g \<in> set fences" and hs: "summarizes hs (map_of aggs (fence_id g, m))" for g m hs
  proof (cases "m = m0")
    case True
    with st(3) g hs show ?thesis by metis
  next
    case False
    then have "(fence_id g, m) \<notin> (\<lambda>g. (fence_id g, m0)) ` set fences" by auto
    then have "map_of a1 (fence_id g, m) = map_of aggs (fence_id g, m)" using st(2) by blast
    moreover have "hit ps g m r = None" using ob False by (auto simp: hit_def split: sum.splits)
    ultimately show ?thesis using hs by simp
  qed
  with i(2) have "summarizes ((hs @ hit_list ps g m r) @ hits ps g m rows) (map_of aggs' (fence_id g, m))"
    if "g \<in> set fences" "summarizes hs (map_of aggs (fence_id g, m))" for g m hs using that by metis
  with i(1) show ?case unfolding h by simp
qed

lemma build_summaries_cases:
  assumes "build_geofence_summaries rt rows fences w = (Inr out, w')"
  obtains summarized_at aggs where "foldR (summarize_row (rt_str rt) fences) [] rows = Inr aggs"
    "out = map (summary_row summarized_at) (sort_key fst aggs)"
  using assms by (auto simp: build_geofence_summaries_def bindA_Inr bindR_Inr_iff)

lemma filter_key:
  "distinct (map fst kvs) \<Longrightarrow> filter (\<lambda>kv. fst kv = k) kvs = (case map_of kvs k of None \<Rightarrow> [] | Some v \<Rightarrow> [(k, v)])"
proof (induction kvs)
  case (Cons kv kvs)
  obtain k' v where kv: "kv = (k', v)" by (cases kv)
  show ?case
  proof (cases "k' = k")
    case True
    with Cons.prems kv have "map_of kvs k = None" by (simp add: map_of_eq_None_iff)
    with Cons kv True show ?thesis by simp
  qed (use Cons kv in simp)
qed simp

definition summary_of :: "geofence \<Rightarrow> string \<Rightarrow> row \<Rightarrow> bool" where
  "summary_of g m r \<longleftrightarrow> row_get r ''geofence_id'' = CText (fence_id g) \<and> row_get r ''mmsi'' = CText m"

lemma summaries_counted:
  assumes "build_geofence_summaries rt rows fences w = (Inr out, w')" "distinct (map fence_id fences)" "g \<in> set fences"
  obtains summarized_at x where "summarizes (hits (rt_str rt) g m rows) x"
    "filter (summary_of g m) out = (case x of None \<Rightarrow> [] | Some s \<Rightarrow> [summary_row summarized_at ((fence_id g, m), s)])"
proof -
  from assms(1) obtain now aggs where a: "foldR (summarize_row (rt_str rt) fences) [] rows = Inr aggs"
    "out = map (summary_row now) (sort_key fst aggs)" by (rule build_summaries_cases)
  let ?k = "(fence_id g, m)"
  from summarize_rows [OF a(1) assms(2)] assms(3) have d: "distinct (map fst aggs)"
    and s: "\<forall>m hs. summarizes hs None \<longrightarrow> summarizes (hs @ hits (rt_str rt) g m rows) (map_of aggs (fence_id g, m))" by simp_all
  from s have h: "summarizes (hits (rt_str rt) g m rows) (map_of aggs ?k)"
  proof -
    have "summarizes [] None" by (simp add: summarizes_def)
    with s have "summarizes ([] @ hits (rt_str rt) g m rows) (map_of aggs ?k)" by blast
    then show ?thesis by simp
  qed
  have ds: "distinct (map fst (sort_key fst aggs))" 
  proof -
    have "mset (map fst (sort_key fst aggs)) = mset (map fst aggs)" by (simp only: mset_map mset_sort)
    from mset_eq_imp_distinct_iff [OF this] d show ?thesis by blast
  qed
  have "summary_of g m \<circ> summary_row now = (\<lambda>kv. fst kv = ?k)"
    by (auto simp: fun_eq_iff summary_of_def summary_row_def row_get_def split: prod.splits)
  then have "filter (summary_of g m) out = map (summary_row now) (filter (\<lambda>kv. fst kv = ?k) (sort_key fst aggs))"
    using a(2) by (simp add: filter_map)
  also have "\<dots> = map (summary_row now) (case map_of (sort_key fst aggs) ?k of None \<Rightarrow> [] | Some v \<Rightarrow> [(?k, v)])"
    using filter_key [OF ds] by simp
  also have "map_of (sort_key fst aggs) = map_of aggs" using d ds by (intro map_of_inject_set [THEN iffD2]) simp_all
  finally show ?thesis using that h by (auto split: option.splits)
qed

text \<open>
  Claim C14. The gold summaries are exact: for a geofence of the configuration and a vessel there is one row exactly when the vessel has an
  observation inside the geofence; the row counts these observations, and its first and last sightings are those of such observations,
  with their event ids, and no other lies before or after them.
\<close>

theorem summaries_exact:
  assumes "build_geofence_summaries rt rows fences w = (Inr out, w')" "distinct (map fence_id fences)" "g \<in> set fences"
  shows "let hs = hits (rt_str rt) g m rows in
    (case filter (summary_of g m) out of
       [] \<Rightarrow> hs = []
     | [r] \<Rightarrow> row_get r ''observation_count'' = CInt (int (length hs)) \<and>
         (\<exists>t0 e0 t1 e1. (t0, Inr e0) \<in> set hs \<and> row_get r ''first_seen_at'' = CTime t0 \<and> row_get r ''first_event_id'' = CText e0 \<and>
            (t1, Inr e1) \<in> set hs \<and> row_get r ''last_seen_at'' = CTime t1 \<and> row_get r ''last_event_id'' = CText e1 \<and>
            (\<forall>h\<in>set hs. t0 \<le> fst h \<and> fst h \<le> t1))
     | _ \<Rightarrow> False)"
proof -
  obtain summarized_at x where x: "summarizes (hits (rt_str rt) g m rows) x"
    "filter (summary_of g m) out = (case x of None \<Rightarrow> [] | Some s \<Rightarrow> [summary_row summarized_at ((fence_id g, m), s)])"
    using assms by (rule summaries_counted)
  show ?thesis
  proof (cases x)
    case None
    with x show ?thesis by (simp add: summarizes_def Let_def)
  next
    case (Some s)
    with x(1) have "sm_count s = int (length (hits (rt_str rt) g m rows))" "(sm_first_seen s, Inr (sm_first_event s)) \<in> set (hits (rt_str rt) g m rows)"
      "(sm_last_seen s, Inr (sm_last_event s)) \<in> set (hits (rt_str rt) g m rows)"
      "\<forall>h\<in>set (hits (rt_str rt) g m rows). sm_first_seen s \<le> fst h \<and> fst h \<le> sm_last_seen s"
      by (simp_all add: summarizes_def)
    then show ?thesis using Some x(2) by (auto simp: Let_def summary_row_def row_get_def)
  qed
qed

lemma sample_contains: "is_ok (contains sample_fence p)"
proof -
  have "validate_polygon (JList [square 0 10, square 4 6]) = Inr ()" by (simp add: validate_polygon_def square_valid)
  moreover have "double_json (JList [square 0 10, square 4 6])" using square_double [of 0 10] square_double [of 4 6] by simp
  ultimately have "is_ok (polygon_contains (JList [square 0 10, square 4 6]) p)" by (rule polygon_contains_ok)
  then show ?thesis by (simp add: contains_def sample_fence_def jitem_def)
qed

lemma sample_wkt: "is_ok (geofence_polygon_wkt sample_fence)"
  by (simp add: geofence_polygon_wkt_def sample_fence_def square_def Let_def jitem_def rings_text_def ring_text_def coordinate_ordinates_def
      ring_point_def)

lemma sample_observed: "observed (sample_observation t) = Inr (''366053209'', t, \<lparr>pos_latitude = PFin 6, pos_longitude = PFin 3\<rparr>)"
proof -
  have "normalize_mmsi (JStr ''366053209'') = Inr ''366053209''" by code_simp
  then show ?thesis by (simp add: observed_def sample_observation_def row_item_def new_position_def)
qed

lemma sample_summarized: "\<exists>out. build_geofence_summaries mem_runtime [sample_observation 0] [sample_fence] [] = (Inr out, [])"
proof -
  from sample_contains obtain b where b: "contains sample_fence \<lparr>pos_latitude = PFin 6, pos_longitude = PFin 3\<rparr> = Inr b"
    by (auto simp: is_ok_iff)
  from sample_wkt obtain t where t: "geofence_polygon_wkt sample_fence = Inr t" by (auto simp: is_ok_iff)
  have k: "row_item (sample_observation 0) ''event_id'' = Inr (CText ''e-1'')" by (simp add: sample_observation_def row_item_def)
  have "\<exists>aggs. foldR (summarize_row (rt_str mem_runtime) [sample_fence]) [] [sample_observation 0] = Inr aggs"
    by (cases b) (simp_all add: summarize_row_observed sample_observed summarize_fence_def row_key_def k b t)
  then show ?thesis by (auto simp: build_geofence_summaries_def bindA_def pureA_def read_clock_def mem_runtime_def)
qed

lemma summaries_exact_witness:
  "\<exists>out. build_geofence_summaries mem_runtime [sample_observation 0] [sample_fence] [] = (Inr out, []) \<and>
     (case filter (summary_of sample_fence ''366053209'') out of [] \<Rightarrow> True | [r] \<Rightarrow> row_get r ''first_seen_at'' = CTime 0 | _ \<Rightarrow> False)"
proof -
  obtain out where o1: "build_geofence_summaries mem_runtime [sample_observation 0] [sample_fence] [] = (Inr out, [])"
    using sample_summarized by blast
  have "set (hits (rt_str mem_runtime) sample_fence ''366053209'' [sample_observation 0]) \<subseteq> {0} \<times> UNIV"
    by (auto simp: hits_def map_filter_simps hit_def sample_observed split: option.splits sum.splits if_splits)
  moreover from summaries_exact [OF o1, of sample_fence "''366053209''"]
  have "let hs = hits (rt_str mem_runtime) sample_fence ''366053209'' [sample_observation 0] in
    (case filter (summary_of sample_fence ''366053209'') out of
       [] \<Rightarrow> hs = []
     | [r] \<Rightarrow> (\<exists>t e. (t, e) \<in> set hs \<and> row_get r ''first_seen_at'' = CTime t)
     | _ \<Rightarrow> False)"
    by (auto simp: Let_def split: list.splits)
  ultimately have "case filter (summary_of sample_fence ''366053209'') out of [] \<Rightarrow> True | [r] \<Rightarrow> row_get r ''first_seen_at'' = CTime 0 | _ \<Rightarrow> False"
    by (auto simp: Let_def split: list.splits)
  with o1 show ?thesis by blast
qed

end
