(* ===== verification/Vessel_Ingest.thy ===== *)
theory Vessel_Ingest
  imports Vessel_Lakehouse Authenticated_Ingest
begin

text \<open>
  \<open>vessel_ingest.py\<close>: the consumer of \<open>vessels.events\<close>.  It shares the polling loop, the dead-letter queue and the commits with the
  governed consumer of \<open>kafka_ingest.py\<close>; its own are the checks before the run, the decoder and the append.
\<close>

definition VESSEL_BRONZE_PATH_SUFFIX :: string where "VESSEL_BRONZE_PATH_SUFFIX = ''/bronze/vessel_observations''"
definition DLQ_QUARANTINE_PATH_SUFFIX :: string where "DLQ_QUARANTINE_PATH_SUFFIX = ''/bronze/vessel_observations_dlq''"

definition validate_vessel_paths :: "string \<Rightarrow> string \<Rightarrow> unit res" where
  "validate_vessel_paths uri dlq_table_uri =
     bindR (require_scope_table_uri PLATFORM uri) (\<lambda>_.
     bindR (require_scope_table_uri PLATFORM dlq_table_uri) (\<lambda>_.
     bindR (guard (suffix VESSEL_BRONZE_PATH_SUFFIX (rstrip_char (CHR ''/'') uri)) ValueError
              ''table-uri must terminate in the governed bronze vessel_observations path'') (\<lambda>_.
     guard (suffix DLQ_QUARANTINE_PATH_SUFFIX (rstrip_char (CHR ''/'') dlq_table_uri)) ValueError
       ''dlq-table-uri must terminate in the governed vessel DLQ quarantine path'')))"

definition decode_message :: "'w runtime \<Rightarrow> decoder \<Rightarrow> (json \<Rightarrow> ('w, unit) act) \<Rightarrow> pyais \<Rightarrow> string option \<Rightarrow> ('w, row) act" where
  "decode_message rt d vf pa value =
     bindA (pureA
       (bindR (require_some value ValueError ''Kafka message value must contain 1 to 2097152 bytes'') (\<lambda>v.
        bindR (guard (v \<noteq> [] \<and> int (length v) \<le> MAX_LINE_BYTES) ValueError ''Kafka message value must contain 1 to 2097152 bytes'') (\<lambda>_.
        bindR (require_some (dec_utf8 d v) ValueError ''Kafka message value is not valid UTF-8'') (\<lambda>s.
        bindR (dec_loads d s) (\<lambda>document.
        require_some (json_obj document) ValueError ''Kafka message value must be a JSON object'')))))) (\<lambda>document.
     decode_vessel_observation rt d vf pa document)"

text \<open>The checks before anything is consumed; \<open>realpath\<close> is \<open>Path.resolve\<close>.\<close>

definition check_vessel_run :: "environ \<Rightarrow> (string \<Rightarrow> bool) \<Rightarrow> (string \<Rightarrow> string) \<Rightarrow> kafka_arguments \<Rightarrow> row res" where
  "check_vessel_run env regular_file realpath a =
     bindR (guard (realpath (arg_schema a) \<noteq> realpath (arg_report a)) ValueError ''report path must not overwrite the schema file'') (\<lambda>_.
     bindR (enforce_topic_scope (arg_topic a) PLATFORM) (\<lambda>_.
     bindR (guard (prefix ''vessels.'' (arg_topic a)) ValueError ''the vessel consumer only subscribes to vessels.* topics'') (\<lambda>_.
     bindR (validate_vessel_paths (arg_table_uri a) (arg_dlq_table_uri a)) (\<lambda>_.
     bindR (require_canonical_text (JStr (arg_dlq_topic a)) 249) (\<lambda>dlq_topic.
     bindR (guard (topic_pattern dlq_topic) ValueError ''dlq_topic is not a valid Kafka topic name'') (\<lambda>_.
     bindR (guard (dlq_topic \<noteq> arg_topic a) ValueError ''dlq_topic must differ from the consumed topic'') (\<lambda>_.
     bindR (guard (prefix ''vessels.'' dlq_topic) ValueError ''the vessel DLQ topic must live in the vessels.* namespace'') (\<lambda>_.
     validate_transport env regular_file a))))))))"

definition store_observations :: "('w, 't) delta_api \<Rightarrow> (cell \<Rightarrow> string) \<Rightarrow> string \<Rightarrow> row list \<Rightarrow> ('w, int \<times> int \<times> int) act" where
  "store_observations api ps uri rows =
     (if rows \<noteq> [] then append_vessel_observations api ps uri rows else pureA (Inr (- 1, 0, 0)))"

definition make_vessel_report :: "'w runtime \<Rightarrow> kafka_arguments \<Rightarrow> int \<Rightarrow> int \<Rightarrow> collected \<Rightarrow> int \<times> int \<times> int \<Rightarrow>
    (string \<times> int) list \<Rightarrow> ingestion_report res" where
  "make_vessel_report rt a started completed batch counts offsets =
     (case counts of (version, written, present) \<Rightarrow>
        bindR (mapR (row_key (rt_str rt) ''producer'') (col_events batch)) (\<lambda>sources.
        Inr \<lparr>rep_schema_version = ''blueeconomy.lakehouse.vessel-ingestion-report.v1'',
          rep_started_at = isoformat started, rep_completed_at = isoformat completed,
          rep_bootstrap_sha256 = rt_sha rt (arg_bootstrap a), rep_group_sha256 = rt_sha rt (arg_group_id a),
          rep_topic = arg_topic a, rep_scope = scope_value PLATFORM,
          rep_received = int (length (col_messages batch)), rep_written = written, rep_present = present,
          rep_dlq_topic = arg_dlq_topic a, rep_quarantined = sum_list (map snd (col_reasons batch)),
          rep_reasons = sort_key fst (col_reasons batch), rep_table_sha256 = rt_sha rt (arg_table_uri a),
          rep_table_version = version, rep_offsets = offsets,
          rep_sources = sort (remdups sources), rep_classifications = [VESSEL_OBSERVATION_EVENT_TYPE]\<rparr>))"

definition finish_vessel_run :: "'w runtime \<Rightarrow> 'w consumer_api \<Rightarrow> ('w, 't) delta_api \<Rightarrow> kafka_arguments \<Rightarrow> int \<Rightarrow>
    collected \<Rightarrow> ('w, ingestion_report) act" where
  "finish_vessel_run rt con api a started batch =
     bindA (store_observations api (rt_str rt) (arg_table_uri a) (col_events batch)) (\<lambda>counts.
     bindA (commit_messages con (col_messages batch)) (\<lambda>offsets.
     bindA (read_clock rt) (\<lambda>completed. pureA (make_vessel_report rt a started completed batch counts offsets))))"

definition run_vessel_ingest :: "'w runtime \<Rightarrow> (row \<Rightarrow> 'w consumer_api) \<Rightarrow> (row \<Rightarrow> 'w producer_api) \<Rightarrow> ('w, 't) delta_api \<Rightarrow> decoder \<Rightarrow>
    (json \<Rightarrow> ('w, unit) act) \<Rightarrow> pyais \<Rightarrow> environ \<Rightarrow> (string \<Rightarrow> bool) \<Rightarrow> (string \<Rightarrow> string) \<Rightarrow> kafka_arguments \<Rightarrow> 'w \<Rightarrow>
    (ingestion_report res \<times> 'w) option" where
  "run_vessel_ingest rt consumer producer api d vf pa env regular_file realpath a w =
     (case rt_clock rt w of (started, w0) \<Rightarrow>
        (case check_vessel_run env regular_file realpath a of
           Inl e \<Rightarrow> Some (Inl e, w0)
         | Inr configuration \<Rightarrow>
             (case collect_messages (consumer configuration) (decode_message rt d vf pa)
                     (quarantine rt (producer (dlq_producer_configuration configuration)) api (dead_letters a))
                     (arg_max_messages a) (idle_seconds a) w0 of
                None \<Rightarrow> None
              | Some (Inl e, w1) \<Rightarrow> Some (Inl e, w1)
              | Some (Inr batch, w1) \<Rightarrow> Some (finish_vessel_run rt (consumer configuration) api a started batch w1))))"

section \<open>What a bronze row is\<close>

lemma require_finite_number_Inr:
  "require_finite_number p k = Inr f \<Longrightarrow> isfinite f"
  by (auto simp: require_finite_number_def res_simps)

lemma decoded_observation_range:
  assumes "decode_vessel_payload pa v = Inr obs"
  shows "mmsi_pattern (obs_mmsi obs) \<and> fl_le (PFin (- 90)) (obs_latitude obs) \<and> fl_le (obs_latitude obs) (PFin 90) \<and>
    fl_le (PFin (- 180)) (obs_longitude obs) \<and> fl_le (obs_longitude obs) (PFin 180)"
proof -
  from assms obtain payload mmsi lat lon s h where p: "v = JObj payload" "normalize_mmsi (jget payload ''mmsi'') = Inr mmsi"
    "validate_coordinates lat lon = Inr ()"
    and c: "(if jget payload ''nmeaSentences'' = JNull
        then Inr \<lparr>obs_mmsi = mmsi, obs_latitude = lat, obs_longitude = lon, obs_speed_knots = s, obs_heading_degrees = h, obs_decode_source = ''payload''\<rparr>
        else bindR (decode_aivdm pa (jget payload ''nmeaSentences'')) (\<lambda>report. merge_ais report
          \<lparr>obs_mmsi = mmsi, obs_latitude = lat, obs_longitude = lon, obs_speed_knots = s, obs_heading_degrees = h, obs_decode_source = ''payload''\<rparr>))
      = Inr obs"
    by (auto simp: decode_vessel_payload_def Let_def bindR_Inr_iff)
  have m: "mmsi_pattern mmsi" using normalize_mmsi_pattern [OF p(2)] .
  show ?thesis
  proof (cases "jget payload ''nmeaSentences'' = JNull")
    case True
    with c p(3) m show ?thesis by (auto simp: validate_coordinates_def res_simps)
  next
    case False
    with c obtain report where r: "decode_aivdm pa (jget payload ''nmeaSentences'') = Inr report"
      and o1: "obs_mmsi obs = mmsi" "obs_latitude obs = rep_latitude report" "obs_longitude obs = rep_longitude report"
      by (auto simp: merge_ais_def bindR_Inr_iff)
    from decoded_report_range [OF r] o1 m show ?thesis by simp
  qed
qed

lemma decode_message_cases:
  assumes "decode_message rt d vf pa value w = (Inr r, w')"
  obtains document text0 view event r0 now w0 w1 w2 where "value \<noteq> None" "canonical_json (rt_fr rt) (JObj document) = Inr text0"
    "dec_errors d (JObj document) = []" "dec_loads_float d text0 = Inr view" "vf view w0 = (Inr (), w1)"
    "map_canonical_envelope document = Inr event" "observation_row (rt_fr rt) pa event = Inr r0"
    "r = r0 @ [(''ingested_at'', CTime now)]"
  using assms
  by (auto simp: decode_message_def decode_vessel_observation_def bindA_Inr bindR_Inr_iff simp del: canonical_json.simps)

lemma observation_row_cells:
  assumes "observation_row fr pa event = Inr r"
  obtains k obs t0 t1 payload where "row_get r ''event_id'' = CText k" "decode_vessel_payload pa (JObj payload) = Inr obs"
    "row_get r ''mmsi'' = CText (obs_mmsi obs)" "row_get r ''latitude'' = CFloat (obs_latitude obs)"
    "row_get r ''longitude'' = CFloat (obs_longitude obs)" "row_get r ''occurred_at'' = CTime t0" "row_get r ''recorded_at'' = CTime t1"
    "t0 \<le> t1" "jitem event ''event_type'' = Inr (JStr VESSEL_OBSERVATION_EVENT_TYPE)"
  using assms by (auto simp: observation_row_def bindR_Inr_iff simp del: canonical_json.simps)

text \<open>A bronze row: a nine-digit vessel, a position on the globe, an event that did not occur after it was recorded.\<close>

definition governed_observation :: "row \<Rightarrow> bool" where
  "governed_observation r \<longleftrightarrow>
     (\<exists>k m lat lon t0 t1. row_get r ''event_id'' = CText k \<and> row_get r ''mmsi'' = CText m \<and> mmsi_pattern m \<and>
        row_get r ''latitude'' = CFloat lat \<and> fl_le (PFin (- 90)) lat \<and> fl_le lat (PFin 90) \<and>
        row_get r ''longitude'' = CFloat lon \<and> fl_le (PFin (- 180)) lon \<and> fl_le lon (PFin 180) \<and>
        row_get r ''occurred_at'' = CTime t0 \<and> row_get r ''recorded_at'' = CTime t1 \<and> t0 \<le> t1)"

lemma observation_row_shape:
  "observation_row fr pa event = Inr r \<Longrightarrow> map fst (r @ [(''ingested_at'', CTime now)]) = map fst VESSEL_BRONZE_SCHEMA"
  by (auto simp: observation_row_def bindR_Inr_iff VESSEL_BRONZE_SCHEMA_def simp del: canonical_json.simps)

lemma row_get_append_missing: "row_get r k \<noteq> CNone \<Longrightarrow> row_get (r @ s) k = row_get r k"
  by (auto simp: row_get_def map_add_def split: option.splits)

lemma observation_row_governed:
  assumes "observation_row fr pa event = Inr r"
  shows "governed_observation (r @ [(''ingested_at'', CTime now)])"
  using assms
proof (rule observation_row_cells)
  fix k obs t0 t1 payload
  assume c: "row_get r ''event_id'' = CText k" "decode_vessel_payload pa (JObj payload) = Inr obs"
    "row_get r ''mmsi'' = CText (obs_mmsi obs)" "row_get r ''latitude'' = CFloat (obs_latitude obs)"
    "row_get r ''longitude'' = CFloat (obs_longitude obs)" "row_get r ''occurred_at'' = CTime t0" "row_get r ''recorded_at'' = CTime t1"
    "t0 \<le> t1"
  from decoded_observation_range [OF c(2)] c show ?thesis
    by (auto simp: governed_observation_def row_get_append_missing)
qed

section \<open>Properties\<close>

text \<open>
  Only authenticated observations reach bronze: every row of a collected batch comes from a message whose canonical text, read back
  as the signed view, was authenticated against the key directory, and is a governed observation of the vessel event type.
\<close>

theorem vessel_batch_authenticated:
  assumes "collect_messages con (decode_message rt d (signature_verifier tx ed directory get put) pa) sink maximum idle w = Some (Inr b, w')"
    and "e \<in> set (col_events b)"
  shows "governed_observation e \<and>
     (\<exists>document text0 view kid event. canonical_json (rt_fr rt) (JObj document) = Inr text0 \<and> dec_loads_float d text0 = Inr (JObj view) \<and>
        authenticated tx ed directory view kid \<and> map_canonical_envelope document = Inr event \<and>
        jitem event ''event_type'' = Inr (JStr VESSEL_OBSERVATION_EVENT_TYPE))"
proof -
  from collected_decoded [OF assms(1)] assms(2) obtain m :: kafka_message and w0 w1
    where "decode_message rt d (signature_verifier tx ed directory get put) pa (msg_value m) w0 = (Inr e, w1)"
    unfolding decoded_from_def by blast
  then show ?thesis
  proof (rule decode_message_cases)
    fix document text0 view event r0 now v0 v1
    assume a: "canonical_json (rt_fr rt) (JObj document) = Inr text0" "dec_loads_float d text0 = Inr view"
      "signature_verifier tx ed directory get put view v0 = (Inr (), v1)" "map_canonical_envelope document = Inr event"
      "observation_row (rt_fr rt) pa event = Inr r0" "e = r0 @ [(''ingested_at'', CTime now)]"
    from signature_verifier_Inr [OF a(3)] obtain envelope kid where v: "view = JObj envelope" "authenticated tx ed directory envelope kid"
      by blast
    from a(5) have "jitem event ''event_type'' = Inr (JStr VESSEL_OBSERVATION_EVENT_TYPE)" by (rule observation_row_cells)
    with a(1,2,4) v observation_row_governed [OF a(5), of now] a(6) show ?thesis by blast
  qed
qed

lemma run_vessel_ingest_cases:
  assumes "run_vessel_ingest rt consumer producer api d vf pa env regular_file realpath a w = Some (Inr report, w')"
  obtains configuration started w0 batch w1 where "check_vessel_run env regular_file realpath a = Inr configuration"
    "rt_clock rt w = (started, w0)"
    "collect_messages (consumer configuration) (decode_message rt d vf pa)
       (quarantine rt (producer (dlq_producer_configuration configuration)) api (dead_letters a))
       (arg_max_messages a) (idle_seconds a) w0 = Some (Inr batch, w1)"
    "finish_vessel_run rt (consumer configuration) api a started batch w1 = (Inr report, w')"
  using assms by (auto simp: run_vessel_ingest_def split: prod.splits sum.splits option.splits)

text \<open>
  Claim C17. Offsets are committed only over durable rows: when a run of the vessel consumer returns a report, every observation it collected was in the
  bronze table, with its key and equal values in its identity columns, before the first offset was committed.
\<close>

theorem vessel_run_durable:
  assumes "delta_contract api content" "rt_str rt = py_str fmt"
    and "run_vessel_ingest rt consumer producer api d vf pa env regular_file realpath a w = Some (Inr report, w')"
  shows "\<exists>configuration batch w0 w1 w2 w3 offsets. check_vessel_run env regular_file realpath a = Inr configuration \<and>
     collect_messages (consumer configuration) (decode_message rt d vf pa)
       (quarantine rt (producer (dlq_producer_configuration configuration)) api (dead_letters a))
       (arg_max_messages a) (idle_seconds a) w0 = Some (Inr batch, w1) \<and>
     commit_messages (consumer configuration) (col_messages batch) w2 = (Inr offsets, w3) \<and> rep_offsets report = offsets \<and>
     rep_received report = int (length (col_messages batch)) \<and>
     (\<forall>r\<in>set (col_events batch). \<exists>k t. row_get r ''event_id'' = CText k \<and> api_open api (arg_table_uri a) w2 = Inr t \<and>
        (\<exists>y\<in>set (content t). py_str fmt (row_get y ''event_id'') = k \<and>
           list_all (\<lambda>c. same_value (row_get y c) (row_get r c)) (identity_columns r)))"
proof -
  from assms(3) obtain configuration started w0 batch w1 where r: "check_vessel_run env regular_file realpath a = Inr configuration"
    "collect_messages (consumer configuration) (decode_message rt d vf pa)
       (quarantine rt (producer (dlq_producer_configuration configuration)) api (dead_letters a))
       (arg_max_messages a) (idle_seconds a) w0 = Some (Inr batch, w1)"
    "finish_vessel_run rt (consumer configuration) api a started batch w1 = (Inr report, w')"
    by (rule run_vessel_ingest_cases)
  from r(3) obtain counts w2 offsets w3 completed w4 where f: "store_observations api (rt_str rt) (arg_table_uri a) (col_events batch) w1 = (Inr counts, w2)"
    "commit_messages (consumer configuration) (col_messages batch) w2 = (Inr offsets, w3)"
    "make_vessel_report rt a started completed batch counts offsets = Inr report"
    by (auto simp: finish_vessel_run_def bindA_Inr)
  from f(3) have rep: "rep_offsets report = offsets" "rep_received report = int (length (col_messages batch))"
    by (auto simp: make_vessel_report_def bindR_Inr_iff split: prod.splits)
  have "\<exists>k t. row_get e ''event_id'' = CText k \<and> api_open api (arg_table_uri a) w2 = Inr t \<and>
        (\<exists>y\<in>set (content t). py_str fmt (row_get y ''event_id'') = k \<and>
           list_all (\<lambda>c. same_value (row_get y c) (row_get e c)) (identity_columns e))" if e: "e \<in> set (col_events batch)" for e
  proof -
    from collected_decoded [OF r(2)] e obtain m :: kafka_message and v0 v1 where "decode_message rt d vf pa (msg_value m) v0 = (Inr e, v1)"
      unfolding decoded_from_def by blast
    then have "(\<exists>k. row_get e ''event_id'' = CText k) \<and> map fst e = map fst VESSEL_BRONZE_SCHEMA"
    proof (rule decode_message_cases)
      fix event r0 now
      assume "observation_row (rt_fr rt) pa event = Inr r0" and er: "e = r0 @ [(''ingested_at'', CTime now)]"
      then have "governed_observation e" by (simp add: observation_row_governed)
      moreover have "map fst e = map fst VESSEL_BRONZE_SCHEMA"
        unfolding er by (rule observation_row_shape) fact
      ultimately show ?thesis by (auto simp: governed_observation_def)
    qed
    then obtain k where k: "row_get e ''event_id'' = CText k" and shape: "map fst e = map fst VESSEL_BRONZE_SCHEMA" by blast
    have cols: "fst ` set e \<subseteq> set (arrow_columns (col_events batch) (Some VESSEL_BRONZE_SCHEMA))"
      using arg_cong [OF shape, of set] by (simp add: arrow_columns_def)
    from e have "col_events batch \<noteq> []" by auto
    with f(1) assms(2) obtain v written present
      where ap: "append_rows api (py_str fmt) (arg_table_uri a) (col_events batch) ''event_id'' (Some BRONZE_TABLE_DESCRIPTION)
        (Some VESSEL_BRONZE_SCHEMA) ''bronze_vessel_observations'' w1 = (Inr (v, written, present), w2)"
      by (cases counts) (auto simp: store_observations_def append_vessel_observations_def)
    have "''event_id'' \<notin> set REPLAY_GUARD_EXCLUDED_COLUMNS" by (simp add: REPLAY_GUARD_EXCLUDED_COLUMNS_def)
    from append_retained_whole [OF assms(1) ap this cols e k] k show ?thesis by blast
  qed
  then have "\<forall>e\<in>set (col_events batch). \<exists>k t. row_get e ''event_id'' = CText k \<and> api_open api (arg_table_uri a) w2 = Inr t \<and>
        (\<exists>y\<in>set (content t). py_str fmt (row_get y ''event_id'') = k \<and>
           list_all (\<lambda>c. same_value (row_get y c) (row_get e c)) (identity_columns e))" by blast
  with r(1,2) f(2) rep show ?thesis by (intro exI conjI)
qed

section \<open>Witnesses\<close>

definition vessel_resource :: jobject where
  "vessel_resource = [(''mmsi'', JStr ''366053209''), (''latitude'', JFloat (PFin 6)), (''longitude'', JFloat (PFin 3))]"

definition vessel_envelope :: jobject where
  "vessel_envelope =
     [(''eventId'', JStr ''e-1''), (''eventType'', JStr ''vessels.observation.v1''), (''producer'', JStr ''p''),
      (''fhir'', JObj [(''entry'', JList [JObj [(''resource'', JObj vessel_resource)]])]),
      (''provenance'', JObj [(''ledgerCommitHash'', JStr ''abc'')]),
      (''occurredAt'', JStr ''2024-02-29T12:30:45Z''), (''classification'', JStr ''INTERNAL'')]"

definition vessel_decoder :: decoder where
  "vessel_decoder = \<lparr>dec_utf8 = Some, dec_loads = (\<lambda>s. Inr (JObj vessel_envelope)), dec_loads_float = (\<lambda>s. Inr (JObj signed_envelope)),
     dec_errors = (\<lambda>j. [])\<rparr>"

lemma vessel_texts:
  "require_canonical_text (JStr ''e-1'') 256 = Inr ''e-1''" "require_canonical_text (JStr ''vessels.observation.v1'') 128 = Inr ''vessels.observation.v1''"
  "require_canonical_text (JStr ''p'') 256 = Inr ''p''" "require_canonical_text (JStr ''abc'') 512 = Inr ''abc''"
  "map_canonical_classification ''INTERNAL'' ''vessels.observation.v1'' = Inr ''internal''"
  "normalize_mmsi (JStr ''366053209'') = Inr ''366053209''"
  by code_simp+

definition vessel_payload :: jobject where
  "vessel_payload = vessel_resource @ [(''provenance'', JObj [(''ledgerCommitHash'', JStr ''abc'')])]"

lemma vessel_event:
  "\<exists>event. map_canonical_envelope vessel_envelope = Inr event \<and>
     jitem event ''event_type'' = Inr (JStr ''vessels.observation.v1'') \<and> jitem event ''payload'' = Inr (JObj vessel_payload) \<and>
     jitem event ''occurred_at'' = Inr (JStr ''2024-02-29T12:30:45Z'') \<and> jitem event ''recorded_at'' = Inr (JStr ''2024-02-29T12:30:45Z'') \<and>
     jitem event ''event_id'' = Inr (JStr ''e-1'') \<and> jitem event ''producer'' = Inr (JStr ''p'') \<and>
     jitem event ''source_record_reference'' = Inr (JStr ''abc'')"
  by (simp add: map_canonical_envelope_def vessel_envelope_def jitem_def vessel_texts primary_resource_def vessel_resource_def
      vessel_payload_def provenance_object_def map_classification_value_def)

lemma vessel_decoded:
  obtains r where "\<forall>w. decode_message kw_runtime vessel_decoder kw_signatures sample_pyais (Some ''{}'') w = (Inr r, w)"
    "row_item r ''event_id'' = Inr (CText ''e-1'')" "row_item r ''producer'' = Inr (CText ''p'')"
proof -
  obtain event where e: "map_canonical_envelope vessel_envelope = Inr event"
    "jitem event ''event_type'' = Inr (JStr ''vessels.observation.v1'')" "jitem event ''payload'' = Inr (JObj vessel_payload)"
    "jitem event ''occurred_at'' = Inr (JStr ''2024-02-29T12:30:45Z'')" "jitem event ''recorded_at'' = Inr (JStr ''2024-02-29T12:30:45Z'')"
    "jitem event ''event_id'' = Inr (JStr ''e-1'')" "jitem event ''producer'' = Inr (JStr ''p'')"
    "jitem event ''source_record_reference'' = Inr (JStr ''abc'')"
    using vessel_event by blast
  have "is_ok (parse_timestamp (JStr ''2024-02-29T12:30:45Z''))" by code_simp
  then obtain t where t: "parse_timestamp (JStr ''2024-02-29T12:30:45Z'') = Inr t" by (auto simp: is_ok_iff)
  have f: "filter (\<lambda>(k, x). k \<noteq> ''provenance'') vessel_payload = vessel_resource"
    by (simp add: vessel_payload_def vessel_resource_def)
  obtain obs where o1: "decode_vessel_payload sample_pyais (JObj vessel_resource) = Inr obs"
    by (simp add: decode_vessel_payload_def vessel_resource_def vessel_texts require_finite_number_def optional_finite_number_def
        validate_coordinates_def)
  have "is_ok (canonical_json (\<lambda>q. []) (JObj vessel_payload))" "is_ok (canonical_json (\<lambda>q. []) (JObj vessel_envelope))"
    by (simp_all add: vessel_payload_def vessel_envelope_def vessel_resource_def)
  then obtain j j2 where j: "canonical_json (\<lambda>q. []) (JObj vessel_payload) = Inr j" "canonical_json (\<lambda>q. []) (JObj vessel_envelope) = Inr j2"
    by (auto simp: is_ok_iff simp del: canonical_json.simps)
  obtain r where r: "observation_row (\<lambda>q. []) sample_pyais event = Inr r" "row_item r ''event_id'' = Inr (CText ''e-1'')"
    "row_item r ''producer'' = Inr (CText ''p'')"
    using e t f o1 j(1) by (simp add: observation_row_def vessel_texts VESSEL_OBSERVATION_EVENT_TYPE_def row_item_def del: canonical_json.simps)
  have "kw_signatures (JObj signed_envelope) w = (Inr (), w)" for w
    by (simp add: signature_verifier_def verify_def signed_envelope_verifies)
  then have "decode_message kw_runtime vessel_decoder kw_signatures sample_pyais (Some ''{}'') w = (Inr (r @ [(''ingested_at'', CTime 0)]), w)" for w
    using e(1) r(1) j(2)
    by (simp add: decode_message_def decode_vessel_observation_def vessel_decoder_def bindA_def pureA_def read_clock_def kw_runtime_def
        MAX_LINE_BYTES_def del: canonical_json.simps)
  moreover have "row_item (r @ [(''ingested_at'', CTime 0)]) ''event_id'' = Inr (CText ''e-1'')"
    "row_item (r @ [(''ingested_at'', CTime 0)]) ''producer'' = Inr (CText ''p'')"
    using r(2,3) by (simp_all add: row_item_def map_add_def split: option.splits)
  ultimately show ?thesis using that by blast
qed

lemma vessel_batch_authenticated_witness:
  "\<exists>b w' e view kid. collect_messages kw_consumer (decode_message kw_runtime vessel_decoder kw_signatures sample_pyais) kw_sink 1 1
      (kw_initial\<lparr>kw_queue := [signed_message]\<rparr>) = Some (Inr b, w') \<and> e \<in> set (col_events b) \<and> governed_observation e \<and>
     authenticated toy_codec toy_ed25519 sample_directory view kid"
proof -
  obtain r where r: "\<forall>w. decode_message kw_runtime vessel_decoder kw_signatures sample_pyais (Some ''{}'') w = (Inr r, w)"
    "row_item r ''event_id'' = Inr (CText ''e-1'')" by (rule vessel_decoded) blast
  note c = one_message_collected [where decode = "decode_message kw_runtime vessel_decoder kw_signatures sample_pyais" and r = r
      and k = "CText ''e-1''" and sink = kw_sink, OF r]
  from vessel_batch_authenticated [OF c, of r] c show ?thesis by fastforce
qed

definition vessel_arguments :: kafka_arguments where
  "vessel_arguments = sample_arguments\<lparr>arg_topic := ''vessels.events'', arg_dlq_topic := ''vessels.dlq'',
     arg_table_uri := ''s3://b/lake/bronze/vessel_observations'', arg_dlq_table_uri := ''s3://b/lake/bronze/vessel_observations_dlq''\<rparr>"

lemma vessel_check: "is_ok (check_vessel_run [] (\<lambda>f. True) id vessel_arguments)"
  by code_simp

lemma vessel_store:
  "row_item r ''event_id'' = Inr (CText ''e-1'') \<Longrightarrow>
   store_observations kw_delta (py_str (\<lambda>c. [])) (arg_table_uri vessel_arguments) [r] (kw_initial\<lparr>kw_queue := [], kw_time := 1\<rparr>) =
     (Inr (0, 1, 0), kw_initial\<lparr>kw_queue := [], kw_time := 1, kw_store := [(arg_table_uri vessel_arguments, (0, arrow_rows [r] (Some VESSEL_BRONZE_SCHEMA)))]\<rparr>)"
proof -
  have "is_ok (validate_table_uri (arg_table_uri vessel_arguments))" by code_simp
  then have u: "validate_table_uri (arg_table_uri vessel_arguments) = Inr ()" by (auto simp: is_ok_iff)
  have d: "canonical BRONZE_TABLE_DESCRIPTION" by code_simp
  show ?thesis
    by (simp add: store_observations_def append_vessel_observations_def append_rows_def bindA_def pureA_def u d kw_delta_def mem_delta_def
        delta_table_exists_def kw_initial_def create_table_def on_store_def require_some_def guard_def raise_def)
qed

lemma vessel_finished:
  assumes "row_item r ''event_id'' = Inr (CText ''e-1'')" "row_item r ''producer'' = Inr (CText p)"
  shows "\<exists>report w'. finish_vessel_run kw_runtime kw_consumer kw_delta vessel_arguments 0
      \<lparr>col_events = [r], col_messages = [signed_message], col_ids = [k], col_reasons = []\<rparr> (kw_initial\<lparr>kw_queue := [], kw_time := 1\<rparr>) =
    (Inr report, w')"
proof -
  let ?w = "kw_initial\<lparr>kw_queue := [], kw_time := 1, kw_store := [(arg_table_uri vessel_arguments, (0, arrow_rows [r] (Some VESSEL_BRONZE_SCHEMA)))]\<rparr>"
  have c: "\<exists>offsets w'. commit_messages kw_consumer [signed_message] ?w = (Inr offsets, w')"
    by (simp add: commit_messages_def signed_message_def poison_def latest_step_def commit_one_def bindA_def pureA_def kw_consumer_def
        require_some_def guard_def)
  then obtain offsets w' where "commit_messages kw_consumer [signed_message] ?w = (Inr offsets, w')" by blast
  then show ?thesis
    by (simp add: finish_vessel_run_def bindA_def pureA_def read_clock_def kw_runtime_def vessel_store [OF assms(1)] make_vessel_report_def
        row_key_def assms(2))
qed

lemma vessel_run_durable_witness:
  "\<exists>report w' (batch :: collected) w2 w3. run_vessel_ingest kw_runtime (\<lambda>c. kw_consumer) (\<lambda>c. kw_producer) kw_delta vessel_decoder kw_signatures sample_pyais [] (\<lambda>f. True) id
      vessel_arguments (kw_initial\<lparr>kw_queue := [signed_message]\<rparr>) = Some (Inr report, w') \<and> 
    commit_messages kw_consumer (col_messages batch) w2 = (Inr (rep_offsets report), w3)"
proof -
  obtain r where r: "\<forall>w. decode_message kw_runtime vessel_decoder kw_signatures sample_pyais (Some ''{}'') w = (Inr r, w)"
    "row_item r ''event_id'' = Inr (CText ''e-1'')" "row_item r ''producer'' = Inr (CText ''p'')" by (rule vessel_decoded)
  note c = one_message_collected [where decode = "decode_message kw_runtime vessel_decoder kw_signatures sample_pyais" and r = r
      and k = "CText ''e-1''", OF r(1,2)]
  obtain configuration where cc: "check_vessel_run [] (\<lambda>f. True) id vessel_arguments = Inr configuration"
    using vessel_check by (auto simp: is_ok_iff)
  obtain report w' where f: "finish_vessel_run kw_runtime kw_consumer kw_delta vessel_arguments 0
      \<lparr>col_events = [r], col_messages = [signed_message], col_ids = [CText ''e-1''], col_reasons = []\<rparr> (kw_initial\<lparr>kw_queue := [], kw_time := 1\<rparr>) =
    (Inr report, w')" using vessel_finished [OF r(2,3)] by blast
  have a: "arg_max_messages vessel_arguments = 1" "idle_seconds vessel_arguments = 1"
    by (simp_all add: vessel_arguments_def sample_arguments_def idle_seconds_def)
  have clk: "rt_clock kw_runtime w = (0, w)" for w by (simp add: kw_runtime_def)
  have run: "run_vessel_ingest kw_runtime (\<lambda>c. kw_consumer) (\<lambda>c. kw_producer) kw_delta vessel_decoder kw_signatures sample_pyais [] (\<lambda>f. True) id
      vessel_arguments (kw_initial\<lparr>kw_queue := [signed_message]\<rparr>) = Some (Inr report, w')"
    by (simp add: run_vessel_ingest_def clk cc a c f)
  have con: "delta_contract kw_delta snd" "rt_str kw_runtime = py_str (\<lambda>c. [])"
    using dlq_contractD(1) kw_contract by (auto simp: kafka_contract_def kw_runtime_def)
  from vessel_run_durable [OF con run]
  obtain batch :: collected and w2 w3 offsets where o1: "commit_messages kw_consumer (col_messages batch) w2 = (Inr offsets, w3)" "rep_offsets report = offsets"
    by (elim exE conjE) (rule that, assumption+)
  from o1(1) have "commit_messages kw_consumer (col_messages batch) w2 = (Inr (rep_offsets report), w3)" unfolding o1(2) .
  with run show ?thesis by (intro exI conjI)
qed

end
