(* ===== verification/Kpi_Publishing.thy ===== *)
theory Kpi_Publishing
  imports Py_Number Ingest
begin

text \<open>
  \<open>kpi_publishing.py\<close>: the operational KPIs published from event rows, with their provenance, and the snapshot whose
  canonical text is digested.  Durations are doubles; an aware instant is its microseconds since the epoch.
\<close>

definition CLEARANCE_MIN_N :: int where "CLEARANCE_MIN_N = 5"

definition PAPER_AVOIDANCE_METHODOLOGY :: string where
  "PAPER_AVOIDANCE_METHODOLOGY =
     ''ESTIMATE: electronic_documents x 0.5 visits/document. Rule-of-thumb: a '' @
     ''typical 2-document declaration pack otherwise requires one physical '' @
     ''lodgement visit. Not a measured value.''"

record kpi =
  ki_id :: string
  ki_label :: string
  ki_unit :: string
  ki_status :: string
  ki_min_sample_size :: int
  ki_value :: json
  ki_window :: jobject
  ki_provenance :: jobject
  ki_methodology :: "string option"
  ki_classification :: string

record kpi_snapshot =
  ks_envelope_version :: string
  ks_classification :: string
  ks_producer :: string
  ks_generated_at :: string
  ks_window :: jobject
  ks_kpis :: "jobject list"

text \<open>\<open>asdict\<close> of both.\<close>

definition kpi_dict :: "kpi \<Rightarrow> jobject" where
  "kpi_dict k =
     [(''id'', JStr (ki_id k)), (''label'', JStr (ki_label k)), (''unit'', JStr (ki_unit k)), (''status'', JStr (ki_status k)),
      (''min_sample_size'', JInt (ki_min_sample_size k)), (''value'', ki_value k), (''window'', JObj (ki_window k)),
      (''provenance'', JObj (ki_provenance k)),
      (''methodology'', case ki_methodology k of None \<Rightarrow> JNull | Some m \<Rightarrow> JStr m),
      (''classification'', JStr (ki_classification k))]"

definition snapshot_dict :: "kpi_snapshot \<Rightarrow> jobject" where
  "snapshot_dict s =
     [(''envelope_version'', JStr (ks_envelope_version s)), (''classification'', JStr (ks_classification s)),
      (''producer'', JStr (ks_producer s)), (''generated_at'', JStr (ks_generated_at s)), (''window'', JObj (ks_window s)),
      (''kpis'', JList (map JObj (ks_kpis s)))]"

text \<open>\<open>json.dumps(sort_keys=True, separators=(",", ":"), ensure_ascii=False)\<close>, which lets NaN and the infinities through.\<close>

fun dumps_unescaped :: "(rat \<Rightarrow> string) \<Rightarrow> json \<Rightarrow> string" where
  "dumps_unescaped fr JNull = ''null''"
| "dumps_unescaped fr (JBool b) = (if b then ''true'' else ''false'')"
| "dumps_unescaped fr (JInt i) = int_str i"
| "dumps_unescaped fr (JFloat f) =
     (case f of PFin q \<Rightarrow> fr q | PInf \<Rightarrow> ''Infinity'' | PNegInf \<Rightarrow> ''-Infinity'' | PNaN \<Rightarrow> ''NaN'')"
| "dumps_unescaped fr (JStr s) = json_str s"
| "dumps_unescaped fr (JList xs) = ''['' @ join_with '','' (map (dumps_unescaped fr) xs) @ '']''"
| "dumps_unescaped fr (JObj d) =
     (let items = map (\<lambda>(k, v). (k, dumps_unescaped fr v)) d
      in ''{'' @ join_with '','' (map (\<lambda>(k, t). json_str k @ '':'' @ t) (sort_key fst items)) @ ''}'')"

definition snapshot_canonical_json :: "(rat \<Rightarrow> string) \<Rightarrow> kpi_snapshot \<Rightarrow> string" where
  "snapshot_canonical_json fr s = dumps_unescaped fr (JObj (snapshot_dict s))"

definition snapshot_sha256 :: "(string \<Rightarrow> string) \<Rightarrow> (rat \<Rightarrow> string) \<Rightarrow> kpi_snapshot \<Rightarrow> string" where
  "snapshot_sha256 sha fr s = sha (snapshot_canonical_json fr s)"

section \<open>KPIs\<close>

text \<open>
  \<open>_percentile\<close>: \<open>p / 100\<close> of an integer is the nearest double; the product with the length is rounded again before it is
  rounded up.
\<close>

definition percentile :: "pyfloat list \<Rightarrow> int \<Rightarrow> pyfloat res" where
  "percentile sorted_asc p =
     bindR (guard (sorted_asc \<noteq> []) ValueError ''percentile of empty set'') (\<lambda>_.
     bindR (float_of_int (int (length sorted_asc))) (\<lambda>n.
     case fl_mul (round_double (of_int p / 100)) n of
       PFin q \<Rightarrow> Inr (sorted_asc ! (nat (min (int (length sorted_asc)) (max 1 \<lceil>q\<rceil>)) - 1))
     | PNaN \<Rightarrow> raise ValueError ''cannot convert float NaN to integer''
     | _ \<Rightarrow> raise OverflowError ''cannot convert float infinity to integer''))"

definition kpi_window :: "int \<Rightarrow> int \<Rightarrow> jobject" where
  "kpi_window start stop = [(''from'', JStr (isoformat start)), (''to'', JStr (isoformat stop))]"

definition kpi_prov :: "string list \<Rightarrow> int \<Rightarrow> int \<Rightarrow> jobject" where
  "kpi_prov sources n computed_at =
     [(''sources'', JList (map JStr sources)), (''n'', JInt n), (''computedAt'', JStr (isoformat computed_at))]"

definition usable_duration :: "pyfloat \<Rightarrow> bool" where
  "usable_duration h = (isfinite h \<and> fl_le (PFin 0) h)"

definition clearance_value :: "pyfloat list \<Rightarrow> json res" where
  "clearance_value ordered =
     bindR (percentile ordered 50) (\<lambda>p50.
     bindR (percentile ordered 90) (\<lambda>p90.
     bindR (percentile ordered 95) (\<lambda>p95.
     bindR (bindR (float_of_int (int (length ordered))) (\<lambda>n. fl_div (py_sum ordered) n)) (\<lambda>mean.
     Inr (JObj [(''p50'', JFloat p50), (''p90'', JFloat p90), (''p95'', JFloat p95), (''mean'', JFloat mean)])))))"

definition compute_clearance_time_percentiles :: "pyfloat list \<Rightarrow> int \<Rightarrow> int \<Rightarrow> int \<Rightarrow> kpi res" where
  "compute_clearance_time_percentiles durations start stop computed_at =
     (let ordered = sort_key fl_rank (filter usable_duration durations); n = int (length ordered); ok = (CLEARANCE_MIN_N \<le> n)
      in bindR (if ok then clearance_value ordered else Inr JNull) (\<lambda>v.
         Inr \<lparr>ki_id = ''clearance_time_hours'', ki_label = ''Declaration clearance time (submission to clearance)'', ki_unit = ''hours'',
              ki_status = (if ok then ''OK'' else ''INSUFFICIENT_DATA''), ki_min_sample_size = CLEARANCE_MIN_N, ki_value = v,
              ki_window = kpi_window start stop,
              ki_provenance = kpi_prov [''declarations.submitted_at'', ''declarations.cleared_at''] n computed_at,
              ki_methodology = None, ki_classification = ''PUBLIC''\<rparr>))"

text \<open>\<open>round(x, 2)\<close>.\<close>

fun round2 :: "pyfloat \<Rightarrow> pyfloat" where
  "round2 (PFin q) = round_double (of_int (round_half_even (q * 100)) / 100)"
| "round2 f = f"

definition compute_paper_visit_avoidance :: "int \<Rightarrow> int \<Rightarrow> int \<Rightarrow> int \<Rightarrow> kpi res" where
  "compute_paper_visit_avoidance electronic_document_count start stop computed_at =
     (let ok = (1 \<le> electronic_document_count)
      in bindR (if ok then bindR (float_of_int electronic_document_count) (\<lambda>c. Inr (JFloat (round2 (fl_mul c (PFin (1 / 2)))))) else Inr JNull) (\<lambda>v.
         Inr \<lparr>ki_id = ''paper_visits_avoided'', ki_label = ''Estimated physical counter visits avoided (e-lodgement)'',
              ki_unit = ''visits (estimated)'', ki_status = (if ok then ''OK'' else ''INSUFFICIENT_DATA''), ki_min_sample_size = 1, ki_value = v,
              ki_window = kpi_window start stop,
              ki_provenance = kpi_prov [''declaration_documents.created_at''] electronic_document_count computed_at,
              ki_methodology = Some PAPER_AVOIDANCE_METHODOLOGY, ki_classification = ''PUBLIC''\<rparr>))"

definition build_snapshot :: "kpi list \<Rightarrow> int \<Rightarrow> int \<Rightarrow> int \<Rightarrow> kpi_snapshot" where
  "build_snapshot kpis start stop computed_at =
     \<lparr>ks_envelope_version = ''1.0'', ks_classification = ''PUBLIC'', ks_producer = ''blueeconomy-data-platform'',
      ks_generated_at = isoformat computed_at, ks_window = kpi_window start stop, ks_kpis = map kpi_dict kpis\<rparr>"

section \<open>Rounding near an integer\<close>

lemma round_half_even_near:
  assumes "\<bar>q - of_int n\<bar> < 1 / 2"
  shows "round_half_even q = n"
proof (cases "of_int n \<le> q")
  case True
  then have "\<lfloor>q\<rfloor> = n" using assms by (simp add: floor_eq_iff)
  moreover have "q - of_int n < 1 / 2" using assms by linarith
  ultimately show ?thesis by (simp add: round_half_even_def Let_def)
next
  case False
  then have "\<lfloor>q\<rfloor> = n - 1" using assms by (simp add: floor_eq_iff)
  moreover have "1 / 2 < q - of_int (n - 1)" using assms unfolding of_int_diff by linarith
  ultimately show ?thesis by (simp add: round_half_even_def Let_def)
qed

text \<open>The unit in the last place of a number near an integer is that of the integer, or half of it below a power of two.\<close>

lemma near_int_ulp:
  assumes "1 \<le> k" "\<bar>x - of_int k\<bar> * 2 ^ 54 < of_int k" "k < 2 ^ 52"
  defines "e \<equiv> leading_exponent x"
  shows "- 1 \<le> e" "e \<le> 51" "\<bar>x - of_int k\<bar> < pow2 (e - 53)" "0 < x"
proof -
  define l where "l = leading_exponent (of_int k)"
  have k: "(1::rat) \<le> of_int k" "(of_int k :: rat) < 2 ^ 52" using assms(1,3) by (simp, metis of_int_less_iff of_int_numeral of_int_power)
  have near: "\<bar>x - of_int k\<bar> < 1 / 4" using assms(2) k(2) by simp
  show x: "0 < x" using near k(1) by linarith
  have l: "pow2 l \<le> of_int k" "of_int k < pow2 (l + 1)" using leading_exponent_interval [of "of_int k"] k(1) by (auto simp: l_def)
  have e: "pow2 e \<le> x" "x < pow2 (e + 1)" using leading_exponent_interval [OF x] by (auto simp: e_def)
  have l0: "0 \<le> l"
  proof (rule ccontr)
    assume "\<not> 0 \<le> l"
    then have "pow2 (l + 1) \<le> pow2 0" by (intro pow2_mono) simp
    with l(2) k(1) show False by simp
  qed
  have below: "of_int k + 1 \<le> pow2 (l + 1)"
  proof -
    obtain n where n: "pow2 (l + 1) = of_int n" using pow2_integer [of "l + 1"] l0 by auto
    with l(2) have "k < n" by simp
    then show ?thesis using n by (metis add1_zle_eq of_int_1 of_int_add of_int_le_iff)
  qed
  have el: "e \<le> l"
  proof (rule ccontr)
    assume "\<not> e \<le> l"
    then have "pow2 (l + 1) \<le> pow2 e" by (intro pow2_mono) simp
    with below e(1) near show False by linarith
  qed
  have "pow2 l < 2 ^ 52" using l(1) k(2) by linarith
  then have l51: "l \<le> 51"
  proof -
    have "pow2 l < pow2 52" using \<open>pow2 l < 2 ^ 52\<close> by (simp add: pow2_def)
    then show ?thesis using pow2_mono [of 52 l] by linarith
  qed
  with el show "e \<le> 51" by simp
  have half: "pow2 (l - 1) < x"
  proof -
    have "pow2 (l - 1) * 2 = pow2 l" using pow2_add [of "l - 1" 1] by (simp add: pow2_def)
    then have "pow2 (l - 1) \<le> of_int k - 1 / 2" using l(1) k(1) by linarith
    then show ?thesis using near by linarith
  qed
  have le: "l - 1 \<le> e"
  proof (rule ccontr)
    assume "\<not> l - 1 \<le> e"
    then have "pow2 (e + 1) \<le> pow2 (l - 1)" by (intro pow2_mono) simp
    with half e(2) show False by linarith
  qed
  with l0 show "- 1 \<le> e" by simp
  have shift: "pow2 (a - 54) * 2 ^ 54 = pow2 a" for a
    using pow2_add [of "a - 54" 54] by (simp add: pow2_def)
  show "\<bar>x - of_int k\<bar> < pow2 (e - 53)"
  proof (cases "e = l")
    case True
    then have "pow2 (e - 53) * 2 ^ 54 = pow2 (l + 1)" using shift [of "l + 1"] by (simp add: algebra_simps)
    with assms(2) l(2) have "\<bar>x - of_int k\<bar> * 2 ^ 54 < pow2 (e - 53) * 2 ^ 54" by linarith
    then show ?thesis by simp
  next
    case False
    with el le have el1: "e = l - 1" by simp
    have "of_int k = pow2 l"
    proof (rule ccontr)
      assume "of_int k \<noteq> pow2 l"
      obtain n where n: "pow2 l = of_int n" using pow2_integer [OF l0] by auto
      with l(1) \<open>of_int k \<noteq> pow2 l\<close> have "n < k" by simp
      then have "pow2 l + 1 \<le> of_int k" using n by (metis add1_zle_eq of_int_1 of_int_add of_int_le_iff)
      with e(2) el1 near show False by simp
    qed
    moreover have "e - 53 = l - 54" using el1 by simp
    ultimately have "\<bar>x - of_int k\<bar> * 2 ^ 54 < pow2 (e - 53) * 2 ^ 54" using shift [of l] assms(2) by metis
    then show ?thesis by simp
  qed
qed

lemma round_double_near_int:
  assumes "1 \<le> k" "k < 2 ^ 52" "\<bar>x - of_int k\<bar> * 2 ^ 54 < of_int k"
  shows "round_double x = PFin (of_int k)"
proof -
  define e where "e = leading_exponent x"
  note n = near_int_ulp [OF assms(1,3,2), folded e_def]
  have u: "unit_in_last_place x = e - 52" using n(1) by (simp add: unit_in_last_place_def e_def)
  define m :: int where "m = k * 2 ^ nat (52 - e)"
  have p: "pow2 (e - 52) * 2 ^ nat (52 - e) = 1" using n(2) by (simp add: pow2_def nat_diff_distrib)
  then have m: "of_int m * pow2 (e - 52) = of_int k" by (simp add: m_def algebra_simps)
  have "\<bar>x - of_int k\<bar> < pow2 (e - 52) / 2"
    using n(3) pow2_add [of "e - 53" 1] by (simp add: pow2_def)
  then have "\<bar>x - of_int m * pow2 (e - 52)\<bar> / pow2 (e - 52) < 1 / 2"
    using pow2_pos [of "e - 52"] by (simp add: m field_simps)
  moreover have "\<bar>x - of_int m * pow2 (e - 52)\<bar> / pow2 (e - 52) = \<bar>x / pow2 (e - 52) - of_int m\<bar>"
    using abs_div_pos [OF pow2_pos, of "x - of_int m * pow2 (e - 52)" "e - 52"] by (simp add: diff_divide_distrib)
  ultimately have "round_half_even (x / pow2 (e - 52)) = m" by (intro round_half_even_near) simp
  moreover have "(of_int k :: rat) < 2 ^ 1024"
  proof -
    have "(of_int k :: rat) < 2 ^ 52" using assms(2) by (metis of_int_less_iff of_int_numeral of_int_power)
    also have "(2 ^ 52 :: rat) \<le> 2 ^ 1024" by (rule power_increasing) simp_all
    finally show ?thesis .
  qed
  ultimately show ?thesis using n(4) by (simp add: round_double_of_pos u Let_def m)
qed

section \<open>Nearest ranks\<close>

text \<open>The doubles of the three percentages are close enough that the rounded product gives the exact rank.\<close>

lemma round_double_fraction:
  assumes "1 / 2 \<le> x" "x < 1" "\<bar>x * 2 ^ 53 - of_int n\<bar> < 1 / 2"
  shows "round_double x = PFin (of_int n / 2 ^ 53)"
proof -
  have x: "0 < x" using assms(1) by simp
  note i = leading_exponent_interval [OF x]
  have "leading_exponent x = - 1"
  proof (rule antisym)
    show "leading_exponent x \<le> - 1"
    proof (rule ccontr)
      assume "\<not> leading_exponent x \<le> - 1"
      then have "pow2 0 \<le> pow2 (leading_exponent x)" by (intro pow2_mono) simp
      with i(1) assms(2) show False by simp
    qed
    show "- 1 \<le> leading_exponent x"
    proof (rule ccontr)
      assume "\<not> - 1 \<le> leading_exponent x"
      then have "pow2 (leading_exponent x + 1) \<le> pow2 (- 1)" by (intro pow2_mono) simp
      with i(2) assms(1) show False by (simp add: pow2_def)
    qed
  qed
  then have u: "unit_in_last_place x = - 53" by (simp add: unit_in_last_place_def)
  have p: "pow2 (- 53) = 1 / 2 ^ 53" by (simp add: pow2_def)
  have "round_half_even (x / pow2 (- 53)) = n" using assms(3) by (intro round_half_even_near) (simp add: p)
  moreover have "\<not> 2 ^ 1024 \<le> (of_int n :: rat) * pow2 (- 53)"
  proof -
    have "x * 2 ^ 53 < 2 ^ 53" using assms(2) by simp
    with assms(3) have "of_int n < (2 ^ 53 + 1 :: rat)" unfolding abs_less_iff by linarith
    then have "of_int n * pow2 (- 53) < 2" by (simp add: p)
    also have "(2 :: rat) \<le> 2 ^ 1024" by simp
    finally show ?thesis by simp
  qed
  ultimately show ?thesis using x by (simp add: round_double_of_pos u Let_def p)
qed

lemma percent_double:
  assumes "p \<in> {50, 90, 95}"
  obtains d where "round_double (of_int p / 100) = PFin d" "\<bar>d - of_int p / 100\<bar> * 2 ^ 54 < of_int p / 100"
proof -
  have half: "round_double (1 / 2) = PFin (1 / 2)"
    using round_double_fraction [of "1 / 2" 4503599627370496] by simp
  have ninety: "round_double (9 / 10) = PFin (8106479329266893 / 9007199254740992)"
    using round_double_fraction [of "9 / 10" 8106479329266893] by simp
  have most: "round_double (19 / 20) = PFin (4278419646001971 / 4503599627370496)"
    using round_double_fraction [of "19 / 20" 8556839292003942] by simp
  from assms consider (median) "p = 50" | (p90) "p = 90" | (p95) "p = 95" by auto
  then show ?thesis
  proof cases
    case median
    show ?thesis by (rule that [of "1 / 2"]) (simp_all add: median half)
  next
    case p90
    show ?thesis by (rule that [of "8106479329266893 / 9007199254740992"]) (simp_all add: p90 ninety)
  next
    case p95
    show ?thesis by (rule that [of "4278419646001971 / 4503599627370496"]) (simp_all add: p95 most)
  qed
qed

lemma rounded_rank:
  assumes "p \<in> {50, 90, 95}" "1 \<le> n" "n \<le> 2 ^ 45" "\<bar>d - of_int p / 100\<bar> * 2 ^ 54 < of_int p / 100"
  shows "\<exists>q. round_double (d * of_int n) = PFin q \<and> \<lceil>q\<rceil> = \<lceil>of_int (p * n) / 100 :: rat\<rceil>"
proof -
  define m where "m = p * n div 100"
  define k where "k = p * n mod 100"
  have mk: "p * n = 100 * m + k" "0 \<le> k" "k < 100" by (simp_all add: m_def k_def)
  have p: "1 \<le> p" "p < 100" using assms(1) by auto
  have nr: "(1::rat) \<le> of_int n" "of_int n \<le> (2 ^ 45 :: rat)"
    using assms(2,3) by (simp, metis of_int_le_iff of_int_numeral of_int_power)
  have exact: "of_int (p * n) / 100 = of_int m + of_int k / (100 :: rat)" by (simp add: mk(1))
  have "d * of_int n - of_int (p * n) / 100 = (d - of_int p / 100) * of_int n" by (simp add: algebra_simps)
  then have "\<bar>d * of_int n - of_int (p * n) / 100\<bar> = \<bar>d - of_int p / 100\<bar> * of_int n"
    using nr(1) by (simp only: abs_mult)
  then have err: "\<bar>d * of_int n - of_int (p * n) / 100\<bar> * 2 ^ 54 < of_int (p * n) / 100"
    using mult_strict_right_mono [OF assms(4), of "of_int n"] nr(1) by (simp add: algebra_simps)
  have "p * n \<le> 99 * 2 ^ 45" using p assms(2,3) mult_mono [of p 99 n "2 ^ 45"] by simp
  then have mb: "0 \<le> m" "m < 2 ^ 45" using p assms(2) by (simp_all add: m_def pos_imp_zdiv_nonneg_iff)
  show ?thesis
  proof (cases "k = 0")
    case True
    then have e: "of_int (p * n) / 100 = (of_int m :: rat)" using exact by simp
    have "0 < p * n" using p assms(2) by simp
    then have "1 \<le> m" using mk True by linarith
    then have "round_double (d * of_int n) = PFin (of_int m)"
      using mb err unfolding e by (intro round_double_near_int) simp_all
    then show ?thesis unfolding e by simp
  next
    case False
    have "5 dvd p * n" using assms(1) by auto
    then have "5 dvd k" by (simp add: k_def dvd_mod)
    then have k: "5 \<le> k" "k \<le> 95" using False mk by (auto elim!: dvdE)
    then have kr: "(5::rat) \<le> of_int k" "of_int k \<le> (95::rat)" by simp_all
    have small: "\<bar>d * of_int n - of_int (p * n) / 100\<bar> < 1 / 512"
    proof -
      have "of_int (p * n) / 100 \<le> (2 ^ 45 :: rat)"
      proof -
        have "p * n \<le> 100 * 2 ^ 45" using \<open>p * n \<le> 99 * 2 ^ 45\<close> by simp
        then have "(of_int (p * n) :: rat) \<le> of_int (100 * 2 ^ 45)" by (simp only: of_int_le_iff)
        then show ?thesis by simp
      qed
      with err have "\<bar>d * of_int n - of_int (p * n) / 100\<bar> * 2 ^ 54 < 2 ^ 45" by (rule less_le_trans)
      then show ?thesis by simp
    qed
    have low: "of_int (64 * m + 1) * pow2 (- 6) \<le> d * of_int n"
    proof -
      have "of_int m + 1 / 64 \<le> d * of_int n" using small kr unfolding exact abs_less_iff by linarith
      then show ?thesis by (simp add: pow2_def)
    qed
    have high: "d * of_int n \<le> of_int (m + 1)"
    proof -
      have "d * of_int n \<le> of_int m + 1" using small kr unfolding exact abs_less_iff by linarith
      then show ?thesis by simp
    qed
    have "is_double (of_int (64 * m + 1) * pow2 (- 6))"
      using mb by (intro is_double_scaled) (simp_all add: pow2_def)
    from round_double_lower [OF this low] have l: "fl_le (PFin (of_int (64 * m + 1) * pow2 (- 6))) (round_double (d * of_int n))" .
    have "is_double (of_int (m + 1))" using mb by (intro is_double_of_int) simp
    from round_double_upper [OF this high] have h: "fl_le (round_double (d * of_int n)) (PFin (of_int (m + 1)))" .
    from l h obtain q where q: "round_double (d * of_int n) = PFin q" by (cases "round_double (d * of_int n)") simp_all
    with l h have "of_int m < q" "q \<le> of_int (m + 1)" by (simp_all add: pow2_def field_simps)
    then have "\<lceil>q\<rceil> = m + 1" by (simp add: ceiling_eq_iff)
    moreover have "\<lceil>of_int (p * n) / 100 :: rat\<rceil> = m + 1" unfolding exact using kr by (simp add: ceiling_eq_iff)
    ultimately show ?thesis using q by simp
  qed
qed

text \<open>In a sorted list the element at an index has more elements at or below it than the index, and at most that many below it.\<close>

lemma sorted_counts:
  assumes "sorted ys" "i < length ys"
  shows "i < length (filter (\<lambda>y. y \<le> ys ! i) ys)" "length (filter (\<lambda>y. y < ys ! i) ys) \<le> i"
proof -
  have "\<forall>y\<in>set (take (Suc i) ys). y \<le> ys ! i"
    using assms by (auto simp: in_set_conv_nth intro!: sorted_nth_mono)
  then have "filter (\<lambda>y. y \<le> ys ! i) (take (Suc i) ys) = take (Suc i) ys" by (simp add: filter_id_conv)
  then have "Suc i \<le> length (filter (\<lambda>y. y \<le> ys ! i) (take (Suc i) ys))" using assms(2) by simp
  also have "\<dots> \<le> length (filter (\<lambda>y. y \<le> ys ! i) ys)"
    by (metis append_take_drop_id filter_append le_add1 length_append)
  finally show "i < length (filter (\<lambda>y. y \<le> ys ! i) ys)" by simp
  have "\<forall>y\<in>set (drop i ys). \<not> y < ys ! i"
    using assms by (auto simp: in_set_conv_nth not_less intro!: sorted_nth_mono)
  then have "filter (\<lambda>y. y < ys ! i) (drop i ys) = []" by (simp add: filter_empty_conv)
  then have "filter (\<lambda>y. y < ys ! i) ys = filter (\<lambda>y. y < ys ! i) (take i ys)"
    by (metis append_Nil2 append_take_drop_id filter_append)
  then show "length (filter (\<lambda>y. y < ys ! i) ys) \<le> i"
    using assms(2) length_filter_le [of "\<lambda>y. y < ys ! i" "take i ys"] by simp
qed

text \<open>
  The nearest-rank percentile: an element with at least \<open>p\<close> per cent of the elements at or below it and less than \<open>p\<close> per
  cent below it.
\<close>

definition nearest_rank :: "int \<Rightarrow> pyfloat list \<Rightarrow> pyfloat \<Rightarrow> bool" where
  "nearest_rank p xs v \<longleftrightarrow> v \<in> set xs \<and> p * int (length xs) \<le> 100 * int (length (filter (\<lambda>x. fl_le x v) xs)) \<and>
     100 * int (length (filter (\<lambda>x. fl_less x v) xs)) < p * int (length xs)"

lemma finite_rank:
  "isfinite x \<Longrightarrow> isfinite v \<Longrightarrow> fl_le x v = (fl_rank x \<le> fl_rank v) \<and> fl_less x v = (fl_rank x < fl_rank v)"
  by (cases x; cases v) (simp_all add: fl_rank_def)

lemma length_filter_sort_key: "length (filter P (sort_key f xs)) = length (filter P xs)"
proof -
  have "mset (filter P (sort_key f xs)) = mset (filter P xs)" by simp
  then show ?thesis by (metis size_mset)
qed

lemma sorted_element_counts:
  fixes xs :: "pyfloat list"
  defines "ys \<equiv> sort_key fl_rank xs"
  assumes "list_all isfinite xs" "i < length xs"
  shows "i < length (filter (\<lambda>x. fl_le x (ys ! i)) xs)" "length (filter (\<lambda>x. fl_less x (ys ! i)) xs) \<le> i"
proof -
  have len: "length ys = length xs" and set: "set ys = set xs" by (simp_all add: ys_def)
  have "sorted (map fl_rank ys)" by (simp add: ys_def)
  note c = sorted_counts [OF this, of i, unfolded length_map len, OF assms(3)]
  have v: "isfinite (ys ! i)" using assms(2,3) len set nth_mem [of i ys] by (simp add: list_all_iff)
  have "filter (\<lambda>x. fl_le x (ys ! i)) ys = filter (\<lambda>x. fl_rank x \<le> fl_rank (ys ! i)) ys"
    "filter (\<lambda>x. fl_less x (ys ! i)) ys = filter (\<lambda>x. fl_rank x < fl_rank (ys ! i)) ys"
    using assms(2) v finite_rank by (auto simp: list_all_iff set intro!: filter_cong)
  with c len assms(3) have "i < length (filter (\<lambda>x. fl_le x (ys ! i)) ys)" "length (filter (\<lambda>x. fl_less x (ys ! i)) ys) \<le> i"
    by (simp_all add: filter_map comp_def)
  then show "i < length (filter (\<lambda>x. fl_le x (ys ! i)) xs)" "length (filter (\<lambda>x. fl_less x (ys ! i)) xs) \<le> i"
    unfolding ys_def by (simp_all only: length_filter_sort_key)
qed

lemma percentile_nearest_rank:
  assumes "p \<in> {50, 90, 95}" "list_all isfinite xs" "xs \<noteq> []" "length xs \<le> 2 ^ 45"
  shows "\<exists>v. percentile (sort_key fl_rank xs) p = Inr v \<and> nearest_rank p xs v"
proof -
  define n where "n = int (length xs)"
  define k where "k = \<lceil>of_int (p * n) / 100 :: rat\<rceil>"
  have n: "1 \<le> n" "n \<le> 2 ^ 45" using assms(3,4) by (cases xs; simp add: n_def)+
  have p: "1 \<le> p" "p \<le> 100" using assms(1) by auto
  obtain d where d: "round_double (of_int p / 100) = PFin d" "\<bar>d - of_int p / 100\<bar> * 2 ^ 54 < of_int p / 100"
    using percent_double [OF assms(1)] .
  obtain q where q: "round_double (d * of_int n) = PFin q" "\<lceil>q\<rceil> = k"
    using rounded_rank [OF assms(1) n d(2)] by (auto simp: k_def)
  have k1: "of_int (p * n) / 100 \<le> (of_int k :: rat)" "(of_int k :: rat) - 1 < of_int (p * n) / 100"
    using ceiling_correct [of "of_int (p * n) / 100 :: rat"] by (simp_all add: k_def)
  have kp: "p * n \<le> 100 * k" "100 * (k - 1) < p * n"
  proof -
    have "(of_int (p * n) :: rat) \<le> of_int (100 * k)" using k1(1) by simp
    then show "p * n \<le> 100 * k" by (simp only: of_int_le_iff)
    have "(of_int (100 * (k - 1)) :: rat) < of_int (p * n)" using k1(2) by simp
    then show "100 * (k - 1) < p * n" by (simp only: of_int_less_iff)
  qed
  have pos: "0 < p * n" "p * n \<le> 100 * n" using p n(1) by (simp_all add: mult_right_mono)
  have "100 * (k - 1) < 100 * n" using kp(2) pos(2) by (rule less_le_trans)
  moreover have "0 < 100 * k" using pos(1) kp(1) by (rule less_le_trans)
  ultimately have k: "1 \<le> k" "k \<le> n" by simp_all
  define i where "i = nat k - 1"
  have i: "i < length xs" "int i = k - 1" using k by (simp_all add: i_def n_def)
  let ?v = "sort_key fl_rank xs ! i"
  have "float_of_int n = Inr (PFin (of_int n))" using n by (intro float_of_int_exact) simp
  moreover have "sort_key fl_rank xs \<noteq> []" using assms(3) by (metis length_0_conv length_sort)
  ultimately have "percentile (sort_key fl_rank xs) p = Inr ?v"
    using k d(1) q by (simp add: percentile_def n_def [symmetric] i_def max_def min_def)
  moreover have "?v \<in> set xs" using i(1) nth_mem [of i "sort_key fl_rank xs"] by simp
  moreover have "p * int (length xs) \<le> 100 * int (length (filter (\<lambda>x. fl_le x ?v) xs))"
    "100 * int (length (filter (\<lambda>x. fl_less x ?v) xs)) < p * int (length xs)"
    using sorted_element_counts [OF assms(2) i(1)] kp i(2) by (simp_all add: n_def)
  ultimately show ?thesis by (auto simp: nearest_rank_def)
qed

section \<open>What is published\<close>

lemma clearance_value_percentiles:
  assumes "list_all isfinite xs" "xs \<noteq> []" "length xs \<le> 2 ^ 45"
  shows "\<exists>p50 p90 p95 mean. clearance_value (sort_key fl_rank xs) =
      Inr (JObj [(''p50'', JFloat p50), (''p90'', JFloat p90), (''p95'', JFloat p95), (''mean'', JFloat mean)]) \<and>
    nearest_rank 50 xs p50 \<and> nearest_rank 90 xs p90 \<and> nearest_rank 95 xs p95"
proof -
  obtain p50 where p50: "percentile (sort_key fl_rank xs) 50 = Inr p50" "nearest_rank 50 xs p50"
    using percentile_nearest_rank [of 50, OF _ assms] by auto
  obtain p90 where p90: "percentile (sort_key fl_rank xs) 90 = Inr p90" "nearest_rank 90 xs p90"
    using percentile_nearest_rank [of 90, OF _ assms] by auto
  obtain p95 where p95: "percentile (sort_key fl_rank xs) 95 = Inr p95" "nearest_rank 95 xs p95"
    using percentile_nearest_rank [of 95, OF _ assms] by auto
  have "float_of_int (int (length xs)) = Inr (PFin (of_int (int (length xs))))"
    using assms(3) by (intro float_of_int_exact) simp
  moreover obtain mean where "fl_div (py_sum (sort_key fl_rank xs)) (PFin (of_int (int (length xs)))) = Inr mean"
    using fl_div_ok [of "PFin (of_int (int (length xs)))"] assms(2) by auto
  ultimately show ?thesis using p50 p90 p95 by (auto simp: clearance_value_def)
qed

lemma usable_finite: "list_all isfinite (filter usable_duration durations)"
  by (auto simp: list_all_iff usable_duration_def)

text \<open>
  Claim C39. Clearance times are never fabricated: with fewer than five usable durations (finite and not negative) the KPI says
  INSUFFICIENT_DATA and has no value; otherwise its percentiles are the nearest-rank percentiles of the usable durations, whatever the
  rounding of the products; and its provenance gives their number.
\<close>

theorem clearance_percentiles_exact:
  assumes "length (filter usable_duration durations) \<le> 2 ^ 45"
  shows "\<exists>k. compute_clearance_time_percentiles durations start stop computed_at = Inr k \<and>
    jget (ki_provenance k) ''n'' = JInt (int (length (filter usable_duration durations))) \<and>
    (if length (filter usable_duration durations) < 5 then ki_status k = ''INSUFFICIENT_DATA'' \<and> ki_value k = JNull
     else ki_status k = ''OK'' \<and>
       (\<exists>p50 p90 p95 mean.
          ki_value k = JObj [(''p50'', JFloat p50), (''p90'', JFloat p90), (''p95'', JFloat p95), (''mean'', JFloat mean)] \<and>
          nearest_rank 50 (filter usable_duration durations) p50 \<and> nearest_rank 90 (filter usable_duration durations) p90 \<and>
          nearest_rank 95 (filter usable_duration durations) p95))"
proof (cases "length (filter usable_duration durations) < 5")
  case True
  then show ?thesis
    by (simp add: compute_clearance_time_percentiles_def Let_def CLEARANCE_MIN_N_def kpi_prov_def jget_def)
next
  case False
  then have "filter usable_duration durations \<noteq> []" by auto
  from clearance_value_percentiles [OF usable_finite this assms] False show ?thesis
    by (auto simp: compute_clearance_time_percentiles_def Let_def CLEARANCE_MIN_N_def kpi_prov_def jget_def)
qed

definition sample_durations :: "pyfloat list" where
  "sample_durations = [PFin 4, PFin 1, PNaN, PFin (- 2), PFin 3, PFin 9, PFin 2]"

lemma clearance_percentiles_exact_witness:
  "\<exists>k. compute_clearance_time_percentiles sample_durations 0 3600000000 7200000000 = Inr k \<and> ki_status k = ''OK'' \<and>
    jget (ki_provenance k) ''n'' = JInt 5"
proof -
  have "filter usable_duration sample_durations = [PFin 4, PFin 1, PFin 3, PFin 9, PFin 2]"
    by (simp add: sample_durations_def usable_duration_def)
  then show ?thesis using clearance_percentiles_exact [of sample_durations 0 3600000000 7200000000] by auto
qed

end
