(* ===== verification/Wkt_Geometry.thy ===== *)
theory Wkt_Geometry
  imports Vessel_Tracks
begin

text \<open>
  The first half of \<open>geoparquet_export.py\<close>: the tokens of a well-known text, the parser of four geometry types, and the
  well-known binary form.  A parser step takes the tokens that are left and returns its result with those left after it.
\<close>

section \<open>Tokens\<close>

text \<open>The text that the number pattern matches at the start, empty if it does not match.\<close>

definition exponent_match :: "string \<Rightarrow> string" where
  "exponent_match s =
     (case s of
        [] \<Rightarrow> []
      | c # r \<Rightarrow>
          if c \<in> {CHR ''e'', CHR ''E''}
          then (let sg = (if r \<noteq> [] \<and> hd r \<in> {CHR ''+'', CHR ''-''} then [hd r] else []);
                    ds = takeWhile is_digit (drop (length sg) r)
                in if ds = [] then [] else c # sg @ ds)
          else [])"

definition unsigned_match :: "string \<Rightarrow> string" where
  "unsigned_match s =
     (let ip = takeWhile is_digit s; r = dropWhile is_digit s in
      if ip \<noteq> []
      then (let fp = (if take 1 r = ''.'' then CHR ''.'' # takeWhile is_digit (tl r) else [])
            in ip @ fp @ exponent_match (drop (length fp) r))
      else if take 1 s = ''.'' \<and> takeWhile is_digit (tl s) \<noteq> [] then CHR ''.'' # takeWhile is_digit (tl s)
      else [])"

definition number_match :: "string \<Rightarrow> string" where
  "number_match s =
     (if take 1 s = ''-'' then (let m = unsigned_match (tl s) in if m = [] then [] else CHR ''-'' # m) else unsigned_match s)"

definition token_match :: "string \<Rightarrow> string" where
  "token_match s =
     (if s \<noteq> [] \<and> is_alpha (hd s) then takeWhile is_alpha s
      else if number_match s \<noteq> [] then number_match s
      else if s \<noteq> [] \<and> hd s \<in> {CHR ''('', CHR '')'', CHR '',''} then [hd s]
      else [])"

text \<open>\<open>findall\<close>: characters that start no token are skipped.\<close>

function find_tokens :: "string \<Rightarrow> string list" where
  "find_tokens [] = []"
| "find_tokens (c # s) =
     (let m = token_match (c # s) in if m = [] then find_tokens s else m # find_tokens (drop (length m - 1) s))"
  by pat_completeness auto
termination by (relation "measure length") auto

declare find_tokens.simps [simp del]

definition tokenize_wkt :: "string \<Rightarrow> string list res" where
  "tokenize_wkt wkt =
     (let tokens = find_tokens wkt
      in bindR (guard (tokens \<noteq> []) ValueError ''geometry WKT is empty or malformed'') (\<lambda>_. Inr tokens))"

section \<open>Parsing\<close>

type_synonym 'a parse = "string list \<Rightarrow> ('a \<times> string list) res"

definition peek :: "string list \<Rightarrow> string res" where
  "peek ts = (case ts of [] \<Rightarrow> raise ValueError ''unexpected end of WKT'' | t # _ \<Rightarrow> Inr t)"

definition next_token :: "string parse" where
  "next_token ts = bindR (peek ts) (\<lambda>t. Inr (t, tl ts))"

definition expect_token :: "string \<Rightarrow> string list \<Rightarrow> string list res" where
  "expect_token expected ts =
     bindR (next_token ts) (\<lambda>(t, ts). bindR (guard (t = expected) ValueError ''unexpected token in WKT'') (\<lambda>_. Inr ts))"

definition wkt_number :: "pyfloat parse" where
  "wkt_number ts =
     bindR (next_token ts) (\<lambda>(t, ts).
     case float_of_text t of
       Inl e \<Rightarrow> (if is_value_error (exn_class e) then raise ValueError ''malformed ordinate in WKT'' else Inl e)
     | Inr f \<Rightarrow> Inr (f, ts))"

definition wkt_position :: "coordinate parse" where
  "wkt_position ts = bindR (wkt_number ts) (\<lambda>(x, ts). bindR (wkt_number ts) (\<lambda>(y, ts). Inr ((x, y), ts)))"

text \<open>
  The loop \<open>while self._peek() == ","\<close>.  Every round takes a token, so as many rounds as there are tokens are enough: when none are
  left for a round there is no token either, and \<open>_peek\<close> raises.
\<close>

fun more_items :: "'a parse \<Rightarrow> nat \<Rightarrow> 'a list \<Rightarrow> 'a list parse" where
  "more_items item n acc ts =
     bindR (peek ts) (\<lambda>t.
     if t = '','' then
       (case n of
          0 \<Rightarrow> raise ValueError ''unexpected end of WKT''
        | Suc k \<Rightarrow> bindR (next_token ts) (\<lambda>(_, ts). bindR (item ts) (\<lambda>(x, ts). more_items item k (acc @ [x]) ts)))
     else Inr (acc, ts))"

declare more_items.simps [simp del]

definition bracketed :: "'a parse \<Rightarrow> 'a list parse" where
  "bracketed item ts =
     bindR (expect_token ''('' ts) (\<lambda>ts.
     bindR (item ts) (\<lambda>(x, ts).
     bindR (more_items item (length ts) [x] ts) (\<lambda>(xs, ts).
     bindR (expect_token '')'' ts) (\<lambda>ts. Inr (xs, ts)))))"

definition position_list :: "coordinate list parse" where
  "position_list = bracketed wkt_position"

definition wkt_polygon :: "coordinate list list parse" where
  "wkt_polygon = bracketed position_list"

datatype geometry =
  Point coordinate
| LineString "coordinate list"
| Polygon "coordinate list list"
| MultiPolygon "coordinate list list list"

definition parse_geometry :: "geometry parse" where
  "parse_geometry ts =
     bindR (next_token ts) (\<lambda>(t, ts).
     let keyword = upper t in
     if keyword = ''POINT'' then bindR (position_list ts) (\<lambda>(ps, ts). Inr (Point (hd ps), ts))
     else if keyword = ''LINESTRING'' then bindR (position_list ts) (\<lambda>(ps, ts). Inr (LineString ps, ts))
     else if keyword = ''POLYGON'' then bindR (wkt_polygon ts) (\<lambda>(rings, ts). Inr (Polygon rings, ts))
     else if keyword = ''MULTIPOLYGON'' then bindR (bracketed wkt_polygon ts) (\<lambda>(polygons, ts). Inr (MultiPolygon polygons, ts))
     else raise ValueError ''unsupported WKT geometry type'')"

definition parse_wkt :: "string \<Rightarrow> geometry res" where
  "parse_wkt wkt =
     bindR (tokenize_wkt wkt) (\<lambda>tokens.
     bindR (parse_geometry tokens) (\<lambda>(g, ts).
     bindR (guard (ts = []) ValueError ''trailing tokens after WKT geometry'') (\<lambda>_. Inr g)))"

section \<open>Encoding\<close>

text \<open>\<open>struct.pack\<close> with the formats \<open><I\<close> and \<open><d\<close>: four and eight bytes, the least significant one first.\<close>

fun le_bytes :: "nat \<Rightarrow> nat \<Rightarrow> string" where
  "le_bytes 0 n = []"
| "le_bytes (Suc k) n = char_of (n mod 256) # le_bytes k (n div 256)"

definition pack_u32 :: "nat \<Rightarrow> string res" where
  "pack_u32 n = bindR (guard (n < 2 ^ 32) OtherError ''argument out of range'') (\<lambda>_. Inr (le_bytes 4 n))"

text \<open>
  The bits of a positive double below the sign: \<open>a = m * 2 ^ e\<close> with \<open>m\<close> below \<open>2 ^ 53\<close>; adding \<open>m\<close> to the shifted exponent sets the
  biased exponent when \<open>m\<close> has its leading bit, and leaves it zero for a subnormal number.
\<close>

definition magnitude_bits :: "rat \<Rightarrow> nat" where
  "magnitude_bits a =
     (let e = unit_in_last_place a in nat (e + 1074) * 2 ^ 52 + nat \<lfloor>a / pow2 e\<rfloor>)"

fun double_bits :: "pyfloat \<Rightarrow> nat" where
  "double_bits (PFin q) = (if q = 0 then 0 else if 0 < q then magnitude_bits q else 2 ^ 63 + magnitude_bits (- q))"
| "double_bits PInf = 2047 * 2 ^ 52"
| "double_bits PNegInf = 2 ^ 63 + 2047 * 2 ^ 52"
| "double_bits PNaN = 2047 * 2 ^ 52 + 2 ^ 51"

definition wkb_position :: "coordinate \<Rightarrow> string" where
  "wkb_position c = le_bytes 8 (double_bits (fst c)) @ le_bytes 8 (double_bits (snd c))"

definition counted :: "('a \<Rightarrow> string res) \<Rightarrow> 'a list \<Rightarrow> string res" where
  "counted body xs = bindR (pack_u32 (length xs)) (\<lambda>n. bindR (mapR body xs) (\<lambda>bs. Inr (n @ concat bs)))"

definition wkb_linestring_body :: "coordinate list \<Rightarrow> string res" where
  "wkb_linestring_body positions = counted (\<lambda>p. Inr (wkb_position p)) positions"

definition wkb_polygon_body :: "coordinate list list \<Rightarrow> string res" where
  "wkb_polygon_body rings = counted (wkb_linestring_body) rings"

definition wkb_header :: "nat \<Rightarrow> string res" where
  "wkb_header type_code = bindR (pack_u32 type_code) (\<lambda>n. Inr (CHR 0x01 # n))"

definition wkb_encode :: "geometry \<Rightarrow> string res" where
  "wkb_encode g =
     (case g of
        Point p \<Rightarrow> bindR (wkb_header 1) (\<lambda>h. Inr (h @ wkb_position p))
      | LineString ps \<Rightarrow> bindR (wkb_header 2) (\<lambda>h. bindR (wkb_linestring_body ps) (\<lambda>b. Inr (h @ b)))
      | Polygon rings \<Rightarrow> bindR (wkb_header 3) (\<lambda>h. bindR (wkb_polygon_body rings) (\<lambda>b. Inr (h @ b)))
      | MultiPolygon polygons \<Rightarrow>
          bindR (wkb_header 6) (\<lambda>h.
          bindR (counted (\<lambda>rings. bindR (wkb_header 3) (\<lambda>h. bindR (wkb_polygon_body rings) (\<lambda>b. Inr (h @ b)))) polygons) (\<lambda>b.
          Inr (h @ b))))"

definition iter_positions :: "geometry \<Rightarrow> coordinate list" where
  "iter_positions g =
     (case g of Point p \<Rightarrow> [p] | LineString ps \<Rightarrow> ps | Polygon rings \<Rightarrow> concat rings | MultiPolygon polygons \<Rightarrow> concat (concat polygons))"

section \<open>Rendered ordinates\<close>

lemma digits_val_append: "digits_val (a @ b) = digits_val a * 10 ^ length b + digits_val b"
proof (induction b rule: rev_induct)
  case (snoc c b)
  have "digits_val (x @ [c]) = 10 * digits_val x + (code c - 48)" for x by (simp add: digits_val_def)
  then show ?case using snoc by (simp only: append_assoc [symmetric]) (simp add: algebra_simps)
qed (simp add: digits_val_def)

lemma zero_pad_digits: "length (zero_pad k n) = k \<and> list_all is_digit (zero_pad k n) \<and> digits_val (zero_pad k n) = n mod 10 ^ k"
proof (induction k arbitrary: n)
  case (Suc k)
  have "is_digit (char_of (48 + n mod 10))" by (simp add: is_digit_def code_def)
  moreover have "digits_val [char_of (48 + n mod 10)] = n mod 10" by (simp add: digits_val_def code_def)
  moreover have "10 * (n div 10 mod 10 ^ k) + n mod 10 = n mod (10 * 10 ^ k)" by (simp add: mod_mult2_eq)
  ultimately show ?case using Suc [of "n div 10"] by (simp add: digits_val_append)
qed (simp add: digits_val_def)

lemma rstrip_char_split: "\<exists>k. s = rstrip_char c s @ replicate k c"
proof -
  have "rev s = takeWhile (\<lambda>x. x = c) (rev s) @ dropWhile (\<lambda>x. x = c) (rev s)" by simp
  moreover obtain k where "takeWhile (\<lambda>x. x = c) (rev s) = replicate k c"
    by (metis (mono_tags, lifting) replicate_length_same set_takeWhileD)
  ultimately have "rev s = replicate k c @ dropWhile (\<lambda>x. x = c) (rev s)" by simp
  then have "s = rev (replicate k c @ dropWhile (\<lambda>x. x = c) (rev s))" by (metis rev_rev_ident)
  then have "s = rstrip_char c s @ replicate k c" by (simp add: rstrip_char_def)
  then show ?thesis ..
qed

lemma rstrip_char_append: "rstrip_char c (a @ b) = (if rstrip_char c b = [] then rstrip_char c a else a @ rstrip_char c b)"
  by (simp add: rstrip_char_def dropWhile_append dropWhile_eq_Nil_conv)

text \<open>What the rendering keeps of a number: it to seven decimals.\<close>

definition decimals7 :: "rat \<Rightarrow> nat" where
  "decimals7 q = nat (round_half_even (\<bar>q\<bar> * 10 ^ 7))"

fun ordinate_value :: "pyfloat \<Rightarrow> pyfloat" where
  "ordinate_value (PFin q) =
     (let r = round_double (of_nat (decimals7 q) / 10 ^ 7) in if q < 0 then fl_neg r else r)"
| "ordinate_value f = f"

definition decimal_text :: "string \<Rightarrow> string \<Rightarrow> string" where
  "decimal_text ip ds = ip @ (if ds = [] then [] else CHR ''.'' # ds)"

lemma format_ordinate_shape:
  obtains sg ip ds where "format_ordinate (PFin q) = sg @ decimal_text ip ds" "sg = [] \<or> sg = ''-'' \<and> q < 0"
    "ip \<noteq> []" "list_all is_digit ip" "list_all is_digit ds" "sg = [] \<and> q < 0 \<longrightarrow> decimals7 q = 0"
    "of_nat (digits_val (ip @ ds)) * pow10 (- int (length ds)) = (of_nat (decimals7 q) / 10 ^ 7 :: rat)"
proof -
  let ?n = "decimals7 q"
  define sg where "sg = (if q < 0 then ''-'' else [])"
  define ip where "ip = nat_str (?n div 10 ^ 7)"
  define fp where "fp = zero_pad 7 (?n mod 10 ^ 7)"
  define ds where "ds = rstrip_char (CHR ''0'') fp"
  have ip: "ip \<noteq> []" "list_all is_digit ip" by (auto simp: ip_def list_all_iff dest: nat_str_digits)
  have fp: "length fp = 7" "list_all is_digit fp" "digits_val fp = ?n mod 10 ^ 7" by (simp_all add: fp_def zero_pad_digits)
  obtain k where k: "fp = ds @ replicate k (CHR ''0'')" using rstrip_char_split [of fp "CHR ''0''"] by (auto simp: ds_def)
  have ds: "list_all is_digit ds" using fp(2) by (subst (asm) k) simp
  have digit_dot: "\<not> is_digit (CHR ''.'')" by (simp add: is_digit_def code_def)
  have dot: "x \<noteq> CHR ''.''" if "x \<in> set ip \<or> x \<in> set ds" for x
    using that ip(2) ds digit_dot by (auto simp: list_all_iff)
  have fixed: "fixed7 (PFin q) = sg @ ip @ ''.'' @ fp"
    by (simp add: sg_def ip_def fp_def decimals7_def Let_def)
  have "rstrip_char (CHR ''0'') (sg @ ip @ ''.'') = sg @ ip @ ''.''" by (intro rstrip_char_id) simp_all
  then have zeros: "rstrip_char (CHR ''0'') (fixed7 (PFin q)) = (sg @ ip) @ ''.'' @ ds"
    unfolding fixed using rstrip_char_append [of "CHR ''0''" "sg @ ip @ ''.''" fp] by (simp add: ds_def)
  have point: "rstrip_char (CHR ''.'') ((sg @ ip) @ ''.'' @ ds) = sg @ decimal_text ip ds"
  proof (cases "ds = []")
    case True
    have "rstrip_char (CHR ''.'') (sg @ ip) = sg @ ip" using ip(1) dot [of "last ip"] by (intro rstrip_char_id) simp_all
    moreover have "rstrip_char (CHR ''.'') ''.'' = []" by (simp add: rstrip_char_def)
    ultimately show ?thesis using True rstrip_char_append [of "CHR ''.''" "sg @ ip" "''.''"] by (simp add: decimal_text_def)
  next
    case False
    then show ?thesis using dot [of "last ds"] by (subst rstrip_char_id) (simp_all add: decimal_text_def)
  qed
  have f: "format_ordinate (PFin q) = (if sg @ decimal_text ip ds \<noteq> ''-0'' then sg @ decimal_text ip ds else ''0'')"
    unfolding format_ordinate_def zeros point Let_def using ip(1) by (auto simp: decimal_text_def)
  have v: "of_nat (digits_val (ip @ ds)) * pow10 (- int (length ds)) = (of_nat ?n / 10 ^ 7 :: rat)"
  proof -
    have "digits_val (ip @ fp) = ?n" by (simp add: digits_val_append fp ip_def digits_val_nat_str)
    moreover have "digits_val (replicate k (CHR ''0'')) = 0" for k
      by (induction k) (simp_all add: digits_val_def code_def)
    ultimately have "digits_val (ip @ ds) * 10 ^ k = ?n" using digits_val_append [of "ip @ ds" "replicate k (CHR ''0'')"] k by simp
    then have n: "of_nat ?n = (of_nat (digits_val (ip @ ds)) * 10 ^ k :: rat)" by (metis of_nat_mult of_nat_numeral of_nat_power)
    have "length ds + k = 7" using fp(1) k by simp
    then have p: "(10 ^ 7 :: rat) = 10 ^ length ds * 10 ^ k" by (metis power_add)
    have "pow10 (- int (length ds)) = 1 / 10 ^ length ds" by (auto simp: pow10_def)
    then show ?thesis unfolding n p by simp
  qed
  show thesis
  proof (cases "sg @ decimal_text ip ds = ''-0''")
    case False
    then show ?thesis using that [of sg ip ds] f ip ds v by (auto simp: sg_def)
  next
    case True
    have "sg = ''-''"
    proof (rule ccontr)
      assume "sg \<noteq> ''-''"
      then have "decimal_text ip ds = ''-0''" using True by (auto simp: sg_def split: if_splits)
      then have "hd ip = CHR ''-''" using ip(1) by (cases ip) (auto simp: decimal_text_def)
      then show False using ip by (cases ip) (auto simp: is_digit_def code_def)
    qed
    with True have t: "decimal_text ip ds = ''0''" by simp
    then have "ip = ''0''" "ds = []" using ip(1) by (auto simp: decimal_text_def append_eq_Cons_conv split: if_splits)
    with v have "decimals7 q = 0" by (simp add: digits_val_def code_def)
    with f True \<open>ip = ''0''\<close> \<open>ds = []\<close> ip ds v show ?thesis
      using that [of "[]" ip ds] by (simp add: decimal_text_def)
  qed
qed

text \<open>Such a text is a token, and reading it gives the number it was rendered from, to seven decimals.\<close>

lemma drop_underscores_plain: "CHR ''_'' \<notin> set s \<Longrightarrow> drop_underscores d p s = Some s"
  by (induction s arbitrary: p) auto

lemma takeWhile_dropWhile_digits:
  "list_all is_digit ip \<Longrightarrow> (s = [] \<or> \<not> is_digit (hd s)) \<Longrightarrow> takeWhile is_digit (ip @ s) = ip \<and> dropWhile is_digit (ip @ s) = s"
  by (cases s) (auto simp: list_all_iff)

lemma decimal_value_text:
  assumes "ip \<noteq> []" "list_all is_digit ip" "list_all is_digit ds"
  shows "decimal_value (decimal_text ip ds) = Some (of_nat (digits_val (ip @ ds)) * pow10 (- int (length ds)))"
proof -
  have "\<not> is_digit (CHR ''.'')" by (simp add: is_digit_def code_def)
  then have u: "takeWhile is_digit (decimal_text ip ds) = ip"
    "dropWhile is_digit (decimal_text ip ds) = (if ds = [] then [] else CHR ''.'' # ds)"
    using takeWhile_dropWhile_digits [OF assms(2), of "if ds = [] then [] else CHR ''.'' # ds"] by (auto simp: decimal_text_def)
  have d: "takeWhile is_digit ds = ds" "dropWhile is_digit ds = []"
    using takeWhile_dropWhile_digits [OF assms(3), of "[]"] by simp_all
  show ?thesis using assms(1) by (simp add: decimal_value_def Let_def u d)
qed

lemma digit_chars:
  assumes "is_digit c"
  shows "c \<noteq> CHR ''-''" "c \<noteq> CHR ''+''" "c \<noteq> CHR ''_''" "c \<noteq> CHR ''.''" "\<not> num_space s c" "\<not> is_alpha c" "\<not> is_upper c"
    "c \<noteq> CHR ''i''" "c \<noteq> CHR ''n''"
  using assms by (auto simp: char_class_defs is_alpha_def num_space_def code_def)

lemma float_of_decimal_text:
  assumes "sg = [] \<or> sg = ''-''" "ip \<noteq> []" "list_all is_digit ip" "list_all is_digit ds"
  shows "float_of_text (sg @ decimal_text ip ds) =
    Inr (let r = round_double (of_nat (digits_val (ip @ ds)) * pow10 (- int (length ds))) in if sg = [] then r else fl_neg r)"
proof -
  let ?u = "decimal_text ip ds"
  obtain c cs where u: "?u = c # cs" "is_digit c" using assms(2,3) by (cases ip) (auto simp: decimal_text_def)
  have last: "is_digit (last ?u)"
    using assms(2-4) by (auto simp: decimal_text_def list_all_iff)
  have chars: "is_digit x \<or> x = CHR ''.''" if "x \<in> set ?u" for x
    using that assms(3,4) by (auto simp: decimal_text_def list_all_iff split: if_splits)
  have space: "\<not> num_space s (CHR ''-'')" for s by (simp add: num_space_def py_space_def code_def)
  have strip: "num_strip (sg @ ?u) = sg @ ?u"
  proof -
    have hd: "\<not> num_space s (hd (sg @ ?u))" for s using assms(1) u space digit_chars(5) [OF u(2)] by auto
    have "hd (rev (sg @ ?u)) = last ?u" using u(1) by (simp only: hd_rev) simp
    then have l: "\<not> num_space s (hd (rev (sg @ ?u)))" for s using digit_chars(5) [OF last] by metis
    have ne: "sg @ ?u \<noteq> []" "rev (sg @ ?u) \<noteq> []" using u(1) by simp_all
    have d: "dropWhile P xs = xs" if "xs \<noteq> []" "\<not> P (hd xs)" for P :: "char \<Rightarrow> bool" and xs
      using that by (cases xs) simp_all
    show ?thesis unfolding num_strip_def using d [OF ne(1), of "num_space (sg @ ?u)"] d [OF ne(2), of "num_space (sg @ ?u)"] hd l
      by (metis rev_rev_ident)
  qed
  have split: "sign_split (sg @ ?u) = (sg \<noteq> [], ?u)"
    using assms(1) u digit_chars(1,2) [OF u(2)] by (auto simp: sign_split_def)
  have low: "lower_ascii ?u = c # lower_ascii cs" using u digit_chars(7) [OF u(2)] by (simp add: lower_ascii_def)
  have "CHR ''_'' \<notin> set ?u" using chars digit_chars(3) by fastforce
  note plain = drop_underscores_plain [OF this]
  show ?thesis
    using digit_chars(8,9) [OF u(2)] decimal_value_text [OF assms(2-4)]
    by (simp add: float_of_text_def strip split low plain Let_def del: append_assoc)
qed

lemma float_of_ordinate: "isfinite v \<Longrightarrow> float_of_text (format_ordinate v) = Inr (ordinate_value v)"
proof (cases v)
  case (PFin q)
  obtain sg ip ds where s: "format_ordinate (PFin q) = sg @ decimal_text ip ds" "sg = [] \<or> sg = ''-'' \<and> q < 0"
    "ip \<noteq> []" "list_all is_digit ip" "list_all is_digit ds" "sg = [] \<and> q < 0 \<longrightarrow> decimals7 q = 0"
    "of_nat (digits_val (ip @ ds)) * pow10 (- int (length ds)) = (of_nat (decimals7 q) / 10 ^ 7 :: rat)"
    by (rule format_ordinate_shape)
  have sg: "sg = [] \<or> sg = ''-''" using s(2) by auto
  have "round_double 0 = PFin 0" by (simp add: round_double_def)
  then show ?thesis using float_of_decimal_text [OF sg s(3-5)] s(1,2,6,7) PFin by (auto simp: Let_def)
qed simp_all

definition token_end :: "string \<Rightarrow> bool" where
  "token_end s \<longleftrightarrow> s \<noteq> [] \<and> hd s \<in> {CHR '' '', CHR '','', CHR '')''}"

lemma token_end_chars: "token_end s \<Longrightarrow> s \<noteq> [] \<and> \<not> is_digit (hd s) \<and> take 1 s \<noteq> ''.'' \<and> exponent_match s = []"
  by (cases s) (auto simp: token_end_def is_digit_def code_def exponent_match_def)

lemma unsigned_match_text:
  assumes "ip \<noteq> []" "list_all is_digit ip" "list_all is_digit ds" "token_end s"
  shows "unsigned_match (decimal_text ip ds @ s) = decimal_text ip ds"
proof -
  note e = token_end_chars [OF assms(4)]
  have dot: "\<not> is_digit (CHR ''.'')" by (simp add: is_digit_def code_def)
  show ?thesis
  proof (cases "ds = []")
    case True
    then show ?thesis using assms(1) e takeWhile_dropWhile_digits [OF assms(2), of s]
      by (simp add: unsigned_match_def decimal_text_def Let_def)
  next
    case False
    have "takeWhile is_digit (ip @ CHR ''.'' # ds @ s) = ip" "dropWhile is_digit (ip @ CHR ''.'' # ds @ s) = CHR ''.'' # ds @ s"
      using takeWhile_dropWhile_digits [OF assms(2), of "CHR ''.'' # ds @ s"] dot by auto
    moreover have "takeWhile is_digit (ds @ s) = ds" using takeWhile_dropWhile_digits [OF assms(3), of s] e by simp
    ultimately show ?thesis using False assms(1) e by (simp add: unsigned_match_def decimal_text_def Let_def)
  qed
qed

lemma token_match_ordinate:
  assumes "isfinite v" "token_end s"
  shows "token_match (format_ordinate v @ s) = format_ordinate v \<and> format_ordinate v \<noteq> []"
proof -
  from assms(1) obtain q where v: "v = PFin q" by (cases v) simp_all
  obtain sg ip ds where s: "format_ordinate (PFin q) = sg @ decimal_text ip ds" "sg = [] \<or> sg = ''-'' \<and> q < 0"
    "ip \<noteq> []" "list_all is_digit ip" "list_all is_digit ds" by (rule format_ordinate_shape)
  obtain c cs where u: "decimal_text ip ds = c # cs" "is_digit c" using s(3,4) by (cases ip) (auto simp: decimal_text_def)
  note m = unsigned_match_text [OF s(3-5) assms(2)]
  have minus: "\<not> is_alpha (CHR ''-'')" by (simp add: is_alpha_def char_class_defs code_def)
  show ?thesis
  proof (cases "sg = []")
    case True
    then show ?thesis using m u digit_chars(1,6) [OF u(2)] by (simp add: v s(1) token_match_def number_match_def)
  next
    case False
    then have "sg = ''-''" using s(2) by simp
    then show ?thesis using m u minus by (simp add: v s(1) token_match_def number_match_def)
  qed
qed

section \<open>Reading rendered geometries\<close>

lemma find_tokens_token:
  assumes "token_match (t @ s) = t" "t \<noteq> []"
  shows "find_tokens (t @ s) = t # find_tokens s"
proof (cases t)
  case (Cons c cs)
  then have "drop (length t - 1) (cs @ s) = s" by simp
  then show ?thesis using assms Cons by (simp add: find_tokens.simps Let_def)
qed (use assms in simp)

lemma find_tokens_space: "find_tokens (CHR '' '' # s) = find_tokens s"
  by (simp add: find_tokens.simps token_match_def number_match_def unsigned_match_def is_alpha_def char_class_defs code_def Let_def)

lemma find_tokens_punctuation:
  assumes "c \<in> {CHR ''('', CHR '')'', CHR '',''}"
  shows "find_tokens (c # s) = [c] # find_tokens s"
proof -
  have c: "\<not> is_alpha c" "\<not> is_digit c" "c \<noteq> CHR ''-''" "c \<noteq> CHR ''.''"
    using assms by (auto simp: is_alpha_def char_class_defs code_def)
  have "token_match ([c] @ s) = [c]"
    using assms by (simp add: token_match_def number_match_def unsigned_match_def c)
  then show ?thesis using find_tokens_token [of "[c]" s] by simp
qed

lemma find_tokens_keyword:
  assumes "list_all is_alpha t" "t \<noteq> []"
  shows "find_tokens (t @ CHR '' '' # s) = t # find_tokens s"
proof -
  have "\<not> is_alpha (CHR '' '')" by (simp add: is_alpha_def char_class_defs code_def)
  then have "takeWhile is_alpha (t @ CHR '' '' # s) = t" using assms(1) by (induction t) auto
  then have "token_match (t @ CHR '' '' # s) = t" using assms by (cases t) (simp_all add: token_match_def)
  then show ?thesis using find_tokens_token [OF _ assms(2)] by (simp add: find_tokens_space)
qed

definition finite_coordinate :: "coordinate \<Rightarrow> bool" where
  "finite_coordinate c \<longleftrightarrow> isfinite (fst c) \<and> isfinite (snd c)"

definition coordinate_value :: "coordinate \<Rightarrow> coordinate" where
  "coordinate_value c = (ordinate_value (fst c), ordinate_value (snd c))"

abbreviation (input) coordinate_tokens :: "coordinate \<Rightarrow> string list" where
  "coordinate_tokens c \<equiv> [format_ordinate (fst c), format_ordinate (snd c)]"

abbreviation (input) further_tokens :: "coordinate list \<Rightarrow> string list" where
  "further_tokens cs \<equiv> concat (map (\<lambda>c. '','' # coordinate_tokens c) cs)"

lemma find_tokens_coordinate:
  assumes "finite_coordinate c" "token_end s"
  shows "find_tokens (coordinate_text c @ s) = coordinate_tokens c @ find_tokens s"
proof -
  have f: "isfinite (fst c)" "isfinite (snd c)" using assms(1) by (simp_all add: finite_coordinate_def)
  have e: "token_end (CHR '' '' # format_ordinate (snd c) @ s)" by (simp add: token_end_def)
  have x: "find_tokens (format_ordinate (fst c) @ CHR '' '' # format_ordinate (snd c) @ s) =
      format_ordinate (fst c) # find_tokens (CHR '' '' # format_ordinate (snd c) @ s)"
    using token_match_ordinate [OF f(1) e] by (intro find_tokens_token) simp_all
  have y: "find_tokens (format_ordinate (snd c) @ s) = format_ordinate (snd c) # find_tokens s"
    using token_match_ordinate [OF f(2) assms(2)] by (intro find_tokens_token) simp_all
  show ?thesis using x y by (simp add: coordinate_text_def find_tokens_space)
qed

lemma find_tokens_coordinates:
  assumes "\<forall>c\<in>set (c0 # cs). finite_coordinate c"
  shows "find_tokens (join_with '', '' (map coordinate_text (c0 # cs)) @ '')'') = coordinate_tokens c0 @ further_tokens cs @ ['')'']"
  using assms
proof (induction cs arbitrary: c0)
  case Nil
  have "token_end '')''" by (simp add: token_end_def)
  moreover have "find_tokens '')'' = ['')'']" using find_tokens_punctuation [of "CHR '')''" "[]"] by (simp add: find_tokens.simps)
  ultimately show ?case using find_tokens_coordinate [of c0 "'')''"] Nil by simp
next
  case (Cons c cs)
  let ?s = "join_with '', '' (map coordinate_text (c # cs)) @ '')''"
  have e: "token_end (CHR '','' # CHR '' '' # ?s)" by (simp add: token_end_def)
  have "find_tokens (CHR '','' # CHR '' '' # ?s) = '','' # find_tokens ?s"
    using find_tokens_punctuation [of "CHR '',''"] by (simp add: find_tokens_space)
  also have "\<dots> = '','' # coordinate_tokens c @ further_tokens cs @ ['')'']" using Cons by simp
  finally show ?case using find_tokens_coordinate [OF _ e, of c0] Cons.prems by (simp)
qed

lemma wkt_position_tokens:
  "finite_coordinate c \<Longrightarrow> wkt_position (coordinate_tokens c @ ts) = Inr (coordinate_value c, ts)"
  by (simp add: finite_coordinate_def wkt_position_def wkt_number_def next_token_def peek_def float_of_ordinate coordinate_value_def)

lemma more_items_coordinates:
  assumes "\<forall>c\<in>set cs. finite_coordinate c" "length cs \<le> n"
  shows "more_items wkt_position n acc (further_tokens cs @ '')'' # ts) = Inr (acc @ map coordinate_value cs, '')'' # ts)"
  using assms
proof (induction cs arbitrary: n acc)
  case Nil
  show ?case by (subst more_items.simps) (simp add: peek_def)
next
  case (Cons c cs)
  then obtain k where k: "n = Suc k" by (cases n) auto
  have "wkt_position (format_ordinate (fst c) # format_ordinate (snd c) # further_tokens cs @ '')'' # ts) =
      Inr (coordinate_value c, further_tokens cs @ '')'' # ts)"
    using wkt_position_tokens [of c "further_tokens cs @ '')'' # ts"] Cons.prems by simp
  then show ?case using Cons k by (subst more_items.simps) (simp add: peek_def next_token_def)
qed

lemma position_list_tokens:
  assumes "\<forall>c\<in>set (c0 # cs). finite_coordinate c"
  shows "position_list (''('' # coordinate_tokens c0 @ further_tokens cs @ '')'' # ts) = Inr (map coordinate_value (c0 # cs), ts)"
proof -
  have "wkt_position (format_ordinate (fst c0) # format_ordinate (snd c0) # further_tokens cs @ '')'' # ts) =
      Inr (coordinate_value c0, further_tokens cs @ '')'' # ts)"
    using wkt_position_tokens [of c0 "further_tokens cs @ '')'' # ts"] assms by simp
  moreover have "length cs \<le> length (further_tokens cs @ '')'' # ts)" by (induction cs) simp_all
  then have "more_items wkt_position (length (further_tokens cs @ '')'' # ts)) [coordinate_value c0] (further_tokens cs @ '')'' # ts) =
      Inr ([coordinate_value c0] @ map coordinate_value cs, '')'' # ts)"
    using assms by (intro more_items_coordinates) simp_all
  ultimately show ?thesis by (simp add: position_list_def bracketed_def expect_token_def next_token_def peek_def)
qed

lemma parse_rendered:
  assumes "\<forall>c\<in>set (c0 # cs). finite_coordinate c" "list_all is_alpha keyword" "keyword \<noteq> []"
    and "wkt = keyword @ '' ('' @ join_with '', '' (map coordinate_text (c0 # cs)) @ '')''"
  shows "parse_wkt wkt = bindR (parse_geometry (keyword # ''('' # coordinate_tokens c0 @ further_tokens cs @ ['')'']))
      (\<lambda>(g, ts). bindR (guard (ts = []) ValueError ''trailing tokens after WKT geometry'') (\<lambda>_. Inr g))"
proof -
  have "find_tokens wkt = keyword # ''('' # coordinate_tokens c0 @ further_tokens cs @ ['')'']"
    using find_tokens_keyword [OF assms(2,3)] find_tokens_coordinates [OF assms(1)] find_tokens_punctuation [of "CHR ''(''"]
    by (simp add: assms(4))
  then show ?thesis by (simp add: parse_wkt_def tokenize_wkt_def)
qed

lemma parse_line_coordinates:
  assumes "\<forall>c\<in>set (c0 # cs). finite_coordinate c"
  shows "parse_wkt (''LINESTRING ('' @ join_with '', '' (map coordinate_text (c0 # cs)) @ '')'') =
    Inr (LineString (map coordinate_value (c0 # cs)))"
proof -
  have "list_all is_alpha ''LINESTRING''" by (simp add: is_alpha_def char_class_defs code_def)
  moreover have "upper ''LINESTRING'' = ''LINESTRING''" by code_simp
  ultimately show ?thesis using parse_rendered [OF assms, of "''LINESTRING''"] position_list_tokens [OF assms, of "[]"]
    by (simp add: parse_geometry_def next_token_def peek_def Let_def)
qed

lemma parse_point_coordinate:
  assumes "finite_coordinate c"
  shows "parse_wkt (''POINT ('' @ coordinate_text c @ '')'') = Inr (Point (coordinate_value c))"
proof -
  have "list_all is_alpha ''POINT''" by (simp add: is_alpha_def char_class_defs code_def)
  moreover have "upper ''POINT'' = ''POINT''" by code_simp
  moreover have "\<forall>c\<in>set [c]. finite_coordinate c" using assms by simp
  ultimately show ?thesis using parse_rendered [of c "[]" "''POINT''"] position_list_tokens [of c "[]" "[]"]
    by (simp add: parse_geometry_def next_token_def peek_def Let_def)
qed

lemma parse_line_wkt:
  assumes "ps \<noteq> []" "\<forall>p\<in>set ps. finite_coordinate (track_coordinate p)"
  shows "parse_wkt (line_wkt ps) = Inr (LineString (map (coordinate_value \<circ> track_coordinate) ps))"
proof -
  obtain p qs where ps: "ps = p # qs" using assms(1) by (cases ps) simp_all
  show ?thesis using parse_line_coordinates [of "track_coordinate p" "map track_coordinate qs"] assms(2)
    by (simp add: ps line_wkt_def comp_def)
qed

lemma parse_point_wkt:
  "finite_coordinate (track_coordinate p) \<Longrightarrow> parse_wkt (point_wkt p) = Inr (Point (coordinate_value (track_coordinate p)))"
  unfolding point_wkt_def by (rule parse_point_coordinate)

section \<open>Enough rounds\<close>

text \<open>No parser gives back more tokens than it got, so more rounds than tokens change nothing and the loop satisfies its equation.\<close>

definition shrinking :: "'a parse \<Rightarrow> bool" where
  "shrinking item \<longleftrightarrow> (\<forall>ts x ts'. item ts = Inr (x, ts') \<longrightarrow> length ts' \<le> length ts)"

lemma next_token_Inr: "next_token ts = Inr (t, ts') \<longleftrightarrow> ts = t # ts'"
  by (cases ts) (auto simp: next_token_def peek_def raise_def)

lemma wkt_number_Inr: "wkt_number ts = Inr (x, ts') \<Longrightarrow> \<exists>t. ts = t # ts'"
proof -
  assume "wkt_number ts = Inr (x, ts')"
  then obtain t ts1 where t: "ts = t # ts1"
    and f: "(case float_of_text t of
        Inl e \<Rightarrow> (if is_value_error (exn_class e) then raise ValueError ''malformed ordinate in WKT'' else Inl e)
      | Inr f \<Rightarrow> Inr (f, ts1)) = Inr (x, ts')"
    by (auto simp: wkt_number_def bindR_Inr_iff next_token_Inr)
  from f have "ts1 = ts'" by (cases "float_of_text t") (auto simp: raise_def split: if_splits)
  with t show ?thesis by simp
qed

lemma shrinking_position: "shrinking wkt_position"
  by (auto simp: shrinking_def wkt_position_def bindR_Inr_iff dest!: wkt_number_Inr)

lemma more_items_fuel:
  assumes "shrinking item" "length ts \<le> n" "length ts \<le> m"
  shows "more_items item n acc ts = more_items item m acc ts"
  using assms(2,3)
proof (induction n arbitrary: m acc ts)
  case 0
  then show ?case by (simp add: more_items.simps peek_def raise_def)
next
  case (Suc n)
  show ?case
  proof (cases ts)
    case (Cons t r)
    with Suc.prems obtain k where k: "m = Suc k" by (cases m) simp_all
    have step: "more_items item n (acc @ [x]) r' = more_items item k (acc @ [x]) r'" if "item r = Inr (x, r')" for x r'
    proof (rule Suc.IH)
      have "length r' \<le> length r" using assms(1) that by (auto simp: shrinking_def)
      then show "length r' \<le> n" "length r' \<le> k" using Suc.prems Cons k by simp_all
    qed
    have "bindR (item r) (\<lambda>(x, ts). more_items item n (acc @ [x]) ts) = bindR (item r) (\<lambda>(x, ts). more_items item k (acc @ [x]) ts)"
      using step by (cases "item r") auto
    then show ?thesis by (subst (1 2) more_items.simps) (simp add: k Cons peek_def next_token_def)
  qed (simp add: more_items.simps peek_def raise_def)
qed

lemma more_items_loop:
  assumes "shrinking item"
  shows "more_items item (length ts) acc ts =
    bindR (peek ts) (\<lambda>t.
    if t = '','' then bindR (item (tl ts)) (\<lambda>(x, ts'). more_items item (length ts') (acc @ [x]) ts') else Inr (acc, ts))"
proof (cases ts)
  case (Cons t r)
  have "more_items item (length r) (acc @ [x]) r' = more_items item (length r') (acc @ [x]) r'" if "item r = Inr (x, r')" for x r'
    using assms that by (intro more_items_fuel [OF assms]) (auto simp: shrinking_def)
  then have "bindR (item r) (\<lambda>(x, ts). more_items item (length r) (acc @ [x]) ts) =
      bindR (item r) (\<lambda>(x, ts). more_items item (length ts) (acc @ [x]) ts)"
    by (cases "item r") auto
  then show ?thesis by (subst more_items.simps) (simp add: Cons peek_def next_token_def)
qed (simp add: more_items.simps peek_def)

lemma shrinking_more_items:
  assumes "shrinking item" "more_items item n acc ts = Inr (xs, ts')"
  shows "length ts' \<le> length ts"
  using assms(2)
proof (induction n arbitrary: acc ts)
  case 0
  then show ?case by (subst (asm) more_items.simps) (auto simp: bindR_Inr_iff raise_def split: if_splits)
next
  case (Suc n)
  from Suc.prems show ?case
    by (subst (asm) more_items.simps) (use assms(1) in \<open>fastforce simp: bindR_Inr_iff next_token_Inr shrinking_def split: if_splits dest: Suc.IH\<close>)
qed

lemma shrinking_bracketed: "shrinking item \<Longrightarrow> shrinking (bracketed item)"
  unfolding shrinking_def [of "bracketed item"]
proof (intro allI impI)
  fix ts x ts'
  assume s: "shrinking item" and b: "bracketed item ts = Inr (x, ts')"
  from b obtain ts1 y ts2 ts3 where 1: "ts = ''('' # ts1" "item ts1 = Inr (y, ts2)"
    "more_items item (length ts2) [y] ts2 = Inr (x, ts3)" "ts3 = '')'' # ts'"
    by (auto simp: bracketed_def bindR_Inr_iff expect_token_def next_token_Inr guard_Inr_iff)
  have "length ts2 \<le> length ts1" using s 1(2) by (auto simp: shrinking_def)
  with shrinking_more_items [OF s 1(3)] 1(1,4) show "length ts' \<le> length ts" by simp
qed

lemmas parsers_shrink = shrinking_position shrinking_bracketed [OF shrinking_position, folded position_list_def]

lemma shrinking_polygon: "shrinking wkt_polygon"
  unfolding wkt_polygon_def by (intro shrinking_bracketed parsers_shrink)

section \<open>The binary form determines the geometry\<close>

lemma length_le_bytes [simp]: "length (le_bytes k n) = k"
  by (induction k arbitrary: n) simp_all

lemma le_bytes_mod: "le_bytes k m = le_bytes k n \<Longrightarrow> m mod 256 ^ k = n mod 256 ^ k"
proof (induction k arbitrary: m n)
  case (Suc k)
  then have "(char_of (m mod 256) :: char) = char_of (n mod 256)" "le_bytes k (m div 256) = le_bytes k (n div 256)" by simp_all
  from this(1) have "(of_char (char_of (m mod 256)) :: nat) = of_char (char_of (n mod 256))" by metis
  then have "m mod 256 = n mod 256" by simp
  moreover from Suc.IH \<open>le_bytes k (m div 256) = _\<close> have "m div 256 mod 256 ^ k = n div 256 mod 256 ^ k" .
  ultimately show ?case by (simp add: mod_mult2_eq)
qed simp

lemma le_bytes_inject: "m < 256 ^ k \<Longrightarrow> n < 256 ^ k \<Longrightarrow> le_bytes k m = le_bytes k n \<Longrightarrow> m = n"
  using le_bytes_mod [of k m n] by simp

text \<open>The significand of a positive double.\<close>

lemma double_significand:
  assumes "is_double a" "0 < a"
  obtains e m where "unit_in_last_place a = int e - 1074" "a = of_nat m * pow2 (int e - 1074)" "m < 2 ^ 53" "2 ^ 52 \<le> m \<or> e = 0"
    "magnitude_bits a = e * 2 ^ 52 + m" "e \<le> 2045"
proof -
  define u where "u = unit_in_last_place a"
  have u: "- 1074 \<le> u" by (simp add: u_def unit_in_last_place_def)
  obtain n :: int where n: "a = of_int n * pow2 u"
    using is_double_multiple(1) [OF assms] by (auto simp: multiple_of_ulp_def u_def)
  have n0: "0 < n" using assms(2) n pow2_pos [of u] by (simp add: zero_less_mult_iff)
  have "a < 2 ^ 53 * pow2 u" using ulp_interval [OF assms(2)] pow2_add [of 53 u] by (simp add: u_def pow2_def)
  then have n53: "n < 2 ^ 53"
  proof -
    have "(of_int n :: rat) < of_int (2 ^ 53)" using \<open>a < 2 ^ 53 * pow2 u\<close> n pow2_pos [of u] by simp
    then show ?thesis by (simp only: of_int_less_iff)
  qed
  have lead: "2 ^ 52 \<le> n \<or> u = - 1074"
  proof (cases "u = - 1074")
    case False
    then have "leading_exponent a = u + 52" using u by (auto simp: u_def unit_in_last_place_def)
    with leading_exponent_interval(1) [OF assms(2)] have "2 ^ 52 * pow2 u \<le> a" using pow2_add [of 52 u] by (simp add: pow2_def add.commute)
    then have "(of_int (2 ^ 52) :: rat) \<le> of_int n" using n pow2_pos [of u] by simp
    then have "2 ^ 52 \<le> n" by (simp only: of_int_le_iff)
    then show ?thesis ..
  qed simp
  have "u \<le> 971"
  proof (rule ccontr)
    assume "\<not> u \<le> 971"
    then have big: "972 \<le> u" by simp
    then have "pow2 972 \<le> pow2 u" by (rule pow2_mono)
    moreover from big lead have "2 ^ 52 \<le> n" by linarith
    moreover have "(2 ^ 52 :: rat) \<le> of_int n"
    proof -
      have "(of_int (2 ^ 52) :: rat) \<le> of_int n" using \<open>2 ^ 52 \<le> n\<close> by (simp only: of_int_le_iff)
      then show ?thesis by simp
    qed
    ultimately have "(2 ^ 52 :: rat) * pow2 972 \<le> of_int n * pow2 u"
      using pow2_pos [of 972] n0 by (intro mult_mono) simp_all
    moreover have "(2 ^ 52 :: rat) * pow2 972 = pow2 1024" using pow2_add [of 52 972] by (simp add: pow2_def)
    moreover have "pow2 1024 = (2 ^ 1024 :: rat)" using pow2_nat [of 1024] by simp
    ultimately show False using is_double_multiple(2) [OF assms] n by simp
  qed
  then have e: "nat (u + 1074) \<le> 2045" by simp
  have "a / pow2 u = of_int n" using n pow2_pos [of u] by simp
  then have "magnitude_bits a = nat (u + 1074) * 2 ^ 52 + nat n" by (simp add: magnitude_bits_def Let_def u_def [symmetric])
  moreover have "nat n < 2 ^ 53" using n53 n0 by (simp add: nat_less_iff)
  moreover have "2 ^ 52 \<le> nat n \<or> nat (u + 1074) = 0"
  proof (cases "u = - 1074")
    case False
    then have "nat (2 ^ 52) \<le> nat n" using lead by (intro nat_mono) simp
    then show ?thesis by (simp add: nat_power_eq)
  qed simp
  moreover have "u = int (nat (u + 1074)) - 1074" using u by simp
  moreover have "a = of_nat (nat n) * pow2 u" using n n0 by simp
  ultimately show ?thesis using that [of "nat (u + 1074)" "nat n"] e by (metis u_def)
qed

lemma magnitude_inject:
  assumes "is_double a" "0 < a" "is_double b" "0 < b" "magnitude_bits a = magnitude_bits b"
  shows "a = b"
proof -
  obtain e m where a: "a = of_nat m * pow2 (int e - 1074)" "m < 2 ^ 53" "2 ^ 52 \<le> m \<or> e = 0" "magnitude_bits a = e * 2 ^ 52 + m"
    using double_significand [OF assms(1,2)] by metis
  obtain f n where b: "b = of_nat n * pow2 (int f - 1074)" "n < 2 ^ 53" "2 ^ 52 \<le> n \<or> f = 0" "magnitude_bits b = f * 2 ^ 52 + n"
    using double_significand [OF assms(3,4)] by metis
  have aux: "i \<le> j" if "i * 2 ^ 52 + k = j * 2 ^ 52 + l" "l < 2 ^ 53" "2 ^ 52 \<le> k \<or> i = 0" for i j k l :: nat
  proof (rule ccontr)
    assume "\<not> i \<le> j"
    then have "(j + 1) * 2 ^ 52 \<le> i * 2 ^ 52" by (intro mult_right_mono) simp_all
    with that \<open>\<not> i \<le> j\<close> show False by simp
  qed
  have eq: "e * 2 ^ 52 + m = f * 2 ^ 52 + n" using a(4) b(4) assms(5) by simp
  have "e = f" using aux [OF eq b(2) a(3)] aux [OF eq [symmetric] a(2) b(3)] by (rule antisym)
  with eq have "e = f \<and> m = n" by simp
  then show ?thesis using a(1) b(1) by simp
qed

lemma magnitude_bounds:
  assumes "is_double a" "0 < a"
  shows "0 < magnitude_bits a" "magnitude_bits a < 2047 * 2 ^ 52"
proof -
  obtain e m where a: "a = of_nat m * pow2 (int e - 1074)" "m < 2 ^ 53" "magnitude_bits a = e * 2 ^ 52 + m" "e \<le> 2045"
    using double_significand [OF assms] by metis
  then have "0 < m" using assms(2) by (cases m) simp_all
  then show "0 < magnitude_bits a" "magnitude_bits a < 2047 * 2 ^ 52" using a(2-4) by simp_all
qed

lemma finite_bits:
  assumes "is_double q"
  obtains b where "double_bits (PFin q) = (if q < 0 then 2 ^ 63 else 0) + b" "b < 2047 * 2 ^ 52" "b = (if q = 0 then 0 else magnitude_bits \<bar>q\<bar>)"
proof (cases "q = 0")
  case False
  then have "magnitude_bits \<bar>q\<bar> < 2047 * 2 ^ 52" using assms by (intro magnitude_bounds) (simp_all add: abs_if)
  then show ?thesis using that False by (simp add: abs_if split: if_splits)
qed (use that in simp)

lemma finite_bits_inject:
  assumes "is_double p" "is_double q" "double_bits (PFin p) = double_bits (PFin q)"
  shows "p = q"
proof -
  obtain b where b: "double_bits (PFin p) = (if p < 0 then 2 ^ 63 else 0) + b" "b < 2047 * 2 ^ 52"
    "b = (if p = 0 then 0 else magnitude_bits \<bar>p\<bar>)" by (rule finite_bits [OF assms(1)])
  obtain c where c: "double_bits (PFin q) = (if q < 0 then 2 ^ 63 else 0) + c" "c < 2047 * 2 ^ 52"
    "c = (if q = 0 then 0 else magnitude_bits \<bar>q\<bar>)" by (rule finite_bits [OF assms(2)])
  have sign: "(p < 0) = (q < 0)" and bc: "b = c" using assms(3) b(1,2) c(1,2) by (simp_all split: if_splits)
  have d: "is_double \<bar>p\<bar>" "is_double \<bar>q\<bar>" using assms(1,2) by (simp_all add: abs_if)
  have "\<bar>p\<bar> = \<bar>q\<bar>"
  proof (cases "p = 0 \<or> q = 0")
    case True
    then show ?thesis using magnitude_bounds(1) [OF d(1)] magnitude_bounds(1) [OF d(2)] b(3) c(3) bc by (auto split: if_splits)
  next
    case False
    then show ?thesis using magnitude_inject [OF d(1) _ d(2)] b(3) c(3) bc by simp
  qed
  then show ?thesis using sign by (auto simp: abs_if split: if_splits)
qed

lemma double_bits_inject:
  assumes "double_float x" "double_float y" "double_bits x = double_bits y"
  shows "x = y"
proof -
  have fin: "double_bits (PFin q) \<noteq> 2047 * 2 ^ 52 \<and> double_bits (PFin q) \<noteq> 2 ^ 63 + 2047 * 2 ^ 52 \<and>
      double_bits (PFin q) \<noteq> 2047 * 2 ^ 52 + 2 ^ 51" if d: "is_double q" for q
  proof -
    obtain b where b: "double_bits (PFin q) = (if q < 0 then 2 ^ 63 else 0) + b" "b < 2047 * 2 ^ 52"
      "b = (if q = 0 then 0 else magnitude_bits \<bar>q\<bar>)" by (rule finite_bits [OF d])
    show ?thesis using b(2) unfolding b(1) by (cases "q < 0") simp_all
  qed
  have special: "double_bits PInf = 2047 * 2 ^ 52" "double_bits PNegInf = 2 ^ 63 + 2047 * 2 ^ 52" "double_bits PNaN = 2047 * 2 ^ 52 + 2 ^ 51"
    by simp_all
  show ?thesis
  proof (cases "isfinite x \<and> isfinite y")
    case True
    then obtain p q where xy: "x = PFin p" "y = PFin q" by (cases x; cases y) simp_all
    have "is_double p" "is_double q" using assms(1,2) by (simp_all add: xy)
    then show ?thesis using finite_bits_inject assms(3) unfolding xy by blast
  next
    case False
    have mixed: "double_bits u \<noteq> double_bits v" if "isfinite u" "double_float u" "\<not> isfinite v" for u v
    proof -
      from that obtain p where p: "u = PFin p" "is_double p" by (cases u) simp_all
      show ?thesis using that(3) fin [OF p(2)] unfolding p(1) by (cases v) (simp_all only: special isfinite.simps simp_thms)
    qed
    from False consider "isfinite x" "\<not> isfinite y" | "isfinite y" "\<not> isfinite x" | "\<not> isfinite x" "\<not> isfinite y" by blast
    then show ?thesis
    proof cases
      case 3
      then show ?thesis using assms(3) by (cases x; cases y) (simp_all only: special isfinite.simps simp_thms, simp_all)
    qed (use mixed [of x y] mixed [of y x] assms in simp_all)
  qed
qed

lemma double_bits_bound: "double_float x \<Longrightarrow> double_bits x < 256 ^ 8"
proof (cases x)
  case (PFin q)
  assume "double_float x"
  then show ?thesis using PFin magnitude_bounds [of q] magnitude_bounds [of "- q"] by auto
qed simp_all

text \<open>An encoder is self-delimiting when what follows an encoding does not influence how it is read.\<close>

definition self_delimiting :: "('a \<Rightarrow> bool) \<Rightarrow> ('a \<Rightarrow> string res) \<Rightarrow> bool" where
  "self_delimiting P f \<longleftrightarrow> (\<forall>x y u v b c. P x \<longrightarrow> P y \<longrightarrow> f x = Inr u \<longrightarrow> f y = Inr v \<longrightarrow> u @ b = v @ c \<longrightarrow> x = y \<and> b = c)"

lemma self_delimitingD:
  "self_delimiting P f \<Longrightarrow> P x \<Longrightarrow> P y \<Longrightarrow> f x = Inr u \<Longrightarrow> f y = Inr v \<Longrightarrow> u @ b = v @ c \<Longrightarrow> x = y \<and> b = c"
  unfolding self_delimiting_def by blast

lemma self_delimitingI:
  "(\<And>x y u v b c. P x \<Longrightarrow> P y \<Longrightarrow> f x = Inr u \<Longrightarrow> f y = Inr v \<Longrightarrow> u @ b = v @ c \<Longrightarrow> x = y \<and> b = c) \<Longrightarrow> self_delimiting P f"
  unfolding self_delimiting_def by blast

lemma self_delimiting_u32: "self_delimiting (\<lambda>_. True) pack_u32"
proof (rule self_delimitingI)
  fix x y u v b c
  assume p: "pack_u32 x = Inr u" "pack_u32 y = Inr v" and e: "u @ b = v @ c"
  then have n: "x < 256 ^ 4" "y < 256 ^ 4" and uv: "u = le_bytes 4 x" "v = le_bytes 4 y"
    by (auto simp: pack_u32_def bindR_Inr_iff guard_Inr_iff)
  have "u = v \<and> b = c" using e uv by simp
  then show "x = y \<and> b = c" using le_bytes_inject [OF n] uv by simp
qed

abbreviation (input) double_coordinate :: "coordinate \<Rightarrow> bool" where
  "double_coordinate c \<equiv> double_float (fst c) \<and> double_float (snd c)"

lemma self_delimiting_position: "self_delimiting double_coordinate (\<lambda>c. Inr (wkb_position c))"
proof (rule self_delimitingI)
  fix x y :: coordinate and u v b c :: string
  assume d: "double_coordinate x" "double_coordinate y"
    and e: "(Inr (wkb_position x) :: string res) = Inr u" "(Inr (wkb_position y) :: string res) = Inr v" "u @ b = v @ c"
  from e have "le_bytes 8 (double_bits (fst x)) = le_bytes 8 (double_bits (fst y))"
    "le_bytes 8 (double_bits (snd x)) = le_bytes 8 (double_bits (snd y))" "b = c"
    by (auto simp: wkb_position_def)
  then show "x = y \<and> b = c"
    using d le_bytes_inject [OF double_bits_bound double_bits_bound] double_bits_inject by (metis prod.collapse)
qed

lemma self_delimiting_counted:
  assumes "self_delimiting P body"
  shows "self_delimiting (list_all P) (counted body)"
proof -
  have list: "xs = ys \<and> b = c"
    if "mapR body xs = Inr us" "mapR body ys = Inr vs" "length xs = length ys" "concat us @ b = concat vs @ c" "list_all P xs" "list_all P ys"
    for xs ys us vs b c using that
  proof (induction xs arbitrary: ys us vs)
    case (Cons x xs)
    then obtain y ys' where ys: "ys = y # ys'" by (cases ys) simp_all
    with Cons.prems obtain u us' v vs' where "body x = Inr u" "mapR body xs = Inr us'" "us = u # us'"
      "body y = Inr v" "mapR body ys' = Inr vs'" "vs = v # vs'" by (auto simp: bindR_Inr_iff)
    moreover from this Cons.prems ys have "x = y \<and> concat us' @ b = concat vs' @ c"
      by (intro self_delimitingD [OF assms]) simp_all
    ultimately show ?case using Cons.IH [of us' ys' vs'] Cons.prems ys by simp
  qed auto
  show ?thesis
  proof (rule self_delimitingI)
    fix x y u v b c
    assume p: "list_all P x" "list_all P y" and "counted body x = Inr u" "counted body y = Inr v" "u @ b = v @ c"
    then obtain n us m vs where 1: "pack_u32 (length x) = Inr n" "mapR body x = Inr us" "pack_u32 (length y) = Inr m"
      "mapR body y = Inr vs" "n @ concat us @ b = m @ concat vs @ c" by (auto simp: counted_def bindR_Inr_iff)
    from self_delimitingD [OF self_delimiting_u32 _ _ 1(1,3,5)] have l: "length x = length y" "concat us @ b = concat vs @ c" by simp_all
    show "x = y \<and> b = c" by (rule list [OF 1(2,4) l p])
  qed
qed

lemma self_delimiting_polygon:
  "self_delimiting (list_all (list_all double_coordinate)) wkb_polygon_body"
proof -
  have "wkb_linestring_body = counted (\<lambda>p. Inr (wkb_position p))" by (simp add: fun_eq_iff wkb_linestring_body_def)
  then have l: "self_delimiting (list_all double_coordinate) wkb_linestring_body"
    using self_delimiting_counted [OF self_delimiting_position] by simp
  have "wkb_polygon_body = counted wkb_linestring_body" by (simp add: fun_eq_iff wkb_polygon_body_def)
  then show ?thesis using self_delimiting_counted [OF l] by simp
qed

lemma self_delimiting_line: "self_delimiting (list_all double_coordinate) wkb_linestring_body"
proof -
  have "wkb_linestring_body = counted (\<lambda>p. Inr (wkb_position p))" by (simp add: fun_eq_iff wkb_linestring_body_def)
  then show ?thesis using self_delimiting_counted [OF self_delimiting_position] by simp
qed

abbreviation (input) headed_polygon :: "coordinate list list \<Rightarrow> string res" where
  "headed_polygon \<equiv> (\<lambda>rings. bindR (wkb_header 3) (\<lambda>h. bindR (wkb_polygon_body rings) (\<lambda>b. Inr (h @ b))))"

lemma self_delimiting_headed: "self_delimiting (list_all (list_all double_coordinate)) headed_polygon"
proof (rule self_delimitingI)
  fix x y u v b c
  assume d: "list_all (list_all double_coordinate) x" "list_all (list_all double_coordinate) y"
    and "headed_polygon x = Inr u" "headed_polygon y = Inr v" "u @ b = v @ c"
  then obtain h bx by' where "wkb_polygon_body x = Inr bx" "wkb_polygon_body y = Inr by'" "bx @ b = by' @ c"
    by (auto simp: bindR_Inr_iff)
  then show "x = y \<and> b = c" using self_delimitingD [OF self_delimiting_polygon d] by blast
qed

definition double_geometry :: "geometry \<Rightarrow> bool" where
  "double_geometry g \<longleftrightarrow> list_all double_coordinate (iter_positions g)"

lemma le_bytes_4: "le_bytes 4 n = map char_of [n mod 256, n div 256 mod 256, n div 256 div 256 mod 256, n div 256 div 256 div 256 mod 256]"
proof -
  have "le_bytes (Suc (Suc (Suc (Suc 0)))) n = map char_of [n mod 256, n div 256 mod 256, n div 256 div 256 mod 256, n div 256 div 256 div 256 mod 256]"
    by simp
  moreover have "Suc (Suc (Suc (Suc 0))) = 4" by simp
  ultimately show ?thesis by metis
qed

lemma type_bytes: "char_of (0 :: nat) = CHR 0x00" "char_of (1 :: nat) = CHR 0x01" "char_of (2 :: nat) = CHR 0x02"
  "char_of (3 :: nat) = CHR 0x03" "char_of (6 :: nat) = CHR 0x06"
  by (simp_all add: char_of_def bit_0)

lemma wkb_headers:
  "wkb_header 1 = Inr [CHR 0x01, CHR 0x01, CHR 0x00, CHR 0x00, CHR 0x00]"
  "wkb_header 2 = Inr [CHR 0x01, CHR 0x02, CHR 0x00, CHR 0x00, CHR 0x00]"
  "wkb_header 3 = Inr [CHR 0x01, CHR 0x03, CHR 0x00, CHR 0x00, CHR 0x00]"
  "wkb_header 6 = Inr [CHR 0x01, CHR 0x06, CHR 0x00, CHR 0x00, CHR 0x00]"
  using type_bytes by (simp_all add: wkb_header_def pack_u32_def guard_def le_bytes_4)

lemma wkb_encode_inject:
  assumes "double_geometry g" "double_geometry h" "wkb_encode g = Inr b" "wkb_encode h = Inr b"
  shows "g = h"
proof -
  have lists: "list_all (list_all P) xss \<longleftrightarrow> list_all P (concat xss)" for P :: "coordinate \<Rightarrow> bool" and xss by (induction xss) simp_all
  have polys: "list_all (list_all (list_all P)) xsss \<longleftrightarrow> list_all P (concat (concat xsss))"
    for P :: "coordinate \<Rightarrow> bool" and xsss by (induction xsss) (simp_all add: lists)
  note heads = wkb_headers
  note r = self_delimiting_headed [THEN self_delimiting_counted]
  show ?thesis
  proof (cases g)
    case (Point p)
    then show ?thesis using assms heads self_delimitingD [OF self_delimiting_position, of p _ _ _ "[]" "[]"]
      by (cases h) (auto simp: wkb_encode_def bindR_Inr_iff double_geometry_def iter_positions_def)
  next
    case (LineString ps)
    then show ?thesis using assms heads self_delimitingD [OF self_delimiting_line, of ps _ _ _ "[]" "[]"]
      by (cases h) (auto simp: wkb_encode_def bindR_Inr_iff double_geometry_def iter_positions_def)
  next
    case (Polygon rings)
    then show ?thesis using assms heads self_delimitingD [OF self_delimiting_polygon, of rings _ _ _ "[]" "[]"]
      by (cases h) (auto simp: wkb_encode_def bindR_Inr_iff double_geometry_def iter_positions_def lists)
  next
    case (MultiPolygon polygons)
    then show ?thesis using assms heads self_delimitingD [OF r, of polygons _ _ _ "[]" "[]"]
      by (cases h) (auto simp: wkb_encode_def bindR_Inr_iff double_geometry_def iter_positions_def polys)
  qed
qed

end
