(* ===== verification/Geoparquet.thy ===== *)
theory Geoparquet
  imports Wkt_Geometry Vessel_Properties Storage Json_Dumps
begin

text \<open>
  The second half of \<open>geoparquet_export.py\<close>: lineage, the table of a GeoParquet file, the resolution of a target and the export.  The
  Arrow columns (\<open>pa.array\<close>), the file systems and the Parquet writer are calls of the world; \<open>json.loads\<close> and
  \<open>os.path.realpath\<close> are functions of it.
\<close>

definition GEOPARQUET_VERSION :: string where "GEOPARQUET_VERSION = ''1.0.0''"
definition GEOMETRY_COLUMN :: string where "GEOMETRY_COLUMN = ''geometry''"
definition LINEAGE_SCHEMA_VERSION :: string where "LINEAGE_SCHEMA_VERSION = ''blueeconomy.lakehouse.geoparquet-lineage.v1''"
definition MAX_EXPORT_ROWS :: nat where "MAX_EXPORT_ROWS = 1000000"

definition EVENT_ID_COLUMNS :: "string list" where
  "EVENT_ID_COLUMNS = [''event_id'', ''source_first_event_id'', ''source_last_event_id'', ''first_event_id'', ''last_event_id'']"

section \<open>Lineage\<close>

record export_lineage =
  el_table_sha256 :: string
  el_table_version :: int
  el_event_range :: "(string \<times> string) option"
  el_row_count :: int
  el_quality :: jobject
  el_exported_at :: string

definition lineage_json :: "(rat \<Rightarrow> string) \<Rightarrow> export_lineage \<Rightarrow> string" where
  "lineage_json fr l =
     dumps_default fr True (JObj
       [(''schema_version'', JStr LINEAGE_SCHEMA_VERSION),
        (''input_table_reference_sha256'', JStr (el_table_sha256 l)),
        (''input_table_version'', JInt (el_table_version l)),
        (''input_event_id_range'', case el_event_range l of None \<Rightarrow> JNull | Some (a, b) \<Rightarrow> JList [JStr a, JStr b]),
        (''row_count'', JInt (el_row_count l)),
        (''quality_metrics'', JObj (el_quality l)),
        (''exported_at'', JStr (el_exported_at l))])"

definition row_identifiers :: "row \<Rightarrow> string list" where
  "row_identifiers r = concat (map (\<lambda>c. case row_get r c of CText s \<Rightarrow> if s \<noteq> [] then [s] else [] | _ \<Rightarrow> []) EVENT_ID_COLUMNS)"

definition event_id_range :: "row list \<Rightarrow> (string \<times> string) option" where
  "event_id_range rows =
     (case concat (map row_identifiers rows) of
        [] \<Rightarrow> None
      | i # is' \<Rightarrow> Some (foldl min i is', foldl max i is'))"

text \<open>\<open>int(v)\<close> of a JSON value.\<close>

definition json_int :: "json \<Rightarrow> int res" where
  "json_int v =
     (case v of JInt i \<Rightarrow> Inr i | JBool b \<Rightarrow> Inr (if b then 1 else 0) | JFloat f \<Rightarrow> fl_trunc f | JStr s \<Rightarrow> py_int s
      | _ \<Rightarrow> raise TypeError ''int() argument must be a string or a real number'')"

definition quality_count :: "jobject \<Rightarrow> string \<Rightarrow> int res" where
  "quality_count quality k = (case map_of quality k of None \<Rightarrow> Inr 0 | Some v \<Rightarrow> json_int v)"

text \<open>The totals over the rows with a quality document: points, simplified points, rows.\<close>

definition quality_step :: "(string \<Rightarrow> json res) \<Rightarrow> int \<times> int \<times> int \<Rightarrow> row \<Rightarrow> (int \<times> int \<times> int) res" where
  "quality_step loads totals r =
     (case row_get r ''quality_json'' of
        CText s \<Rightarrow>
          bindR (loads s) (\<lambda>v.
          bindR (require_some (json_obj v) AttributeError ''get'') (\<lambda>quality.
          bindR (quality_count quality ''point_count'') (\<lambda>n.
          bindR (quality_count quality ''simplified_point_count'') (\<lambda>m.
          case totals of (points, simplified, rows) \<Rightarrow> Inr (points + n, simplified + m, rows + 1)))))
      | _ \<Rightarrow> Inr totals)"

text \<open>\<open>a / b\<close> of integers, correctly rounded.\<close>

definition int_true_div :: "int \<Rightarrow> int \<Rightarrow> pyfloat res" where
  "int_true_div a b =
     (case round_double (of_int a / of_int b) of
        PFin q \<Rightarrow> Inr (PFin q)
      | _ \<Rightarrow> raise OverflowError ''integer division result too large for a float'')"

definition observation_count :: "row \<Rightarrow> int res" where
  "observation_count r = (case map_of r ''observation_count'' of None \<Rightarrow> Inr 0 | Some c \<Rightarrow> json_int (cell_json c))"

definition mmsi_texts :: "row list \<Rightarrow> string list" where
  "mmsi_texts rows = List.map_filter (\<lambda>r. case row_get r ''mmsi'' of CText s \<Rightarrow> Some s | _ \<Rightarrow> None) rows"

definition quality_metrics :: "(string \<Rightarrow> json res) \<Rightarrow> row list \<Rightarrow> jobject res" where
  "quality_metrics loads rows =
     (let distinct_mmsi = length (remdups (mmsi_texts rows)) in
      bindR (foldR (quality_step loads) (0, 0, 0) rows) (\<lambda>(points, simplified, quality_rows).
      bindR (if quality_rows = 0 then Inr []
             else bindR (if points \<noteq> 0 then bindR (int_true_div simplified points) (\<lambda>q. Inr (round6 q)) else Inr (PFin 1)) (\<lambda>ratio.
                  Inr [(''segments_with_quality'', JInt quality_rows), (''total_track_points'', JInt points),
                       (''simplified_track_points'', JInt simplified), (''simplification_ratio'', JFloat ratio)])) (\<lambda>quality.
      bindR (mapR observation_count rows) (\<lambda>counts.
      Inr ([(''row_count'', JInt (int (length rows)))] @
           (if distinct_mmsi \<noteq> 0 then [(''distinct_mmsi'', JInt (int distinct_mmsi))] else []) @ quality @
           (if sum_list counts \<noteq> 0 then [(''geofence_observations'', JInt (sum_list counts))] else []))))))"

section \<open>The table\<close>

record geoparquet_table =
  gt_columns :: "(string \<times> cell list) list"
  gt_geometry :: "string list"
  gt_geo :: string
  gt_lineage :: string

text \<open>\<open>(min_x, min_y)\<close> and \<open>(max_x, max_y)\<close>.\<close>

type_synonym bounding_box = "coordinate \<times> coordinate"

definition extend_box :: "bounding_box \<Rightarrow> coordinate \<Rightarrow> bounding_box" where
  "extend_box box p =
     (case (box, p) of (((min_x, min_y), (max_x, max_y)), (x, y)) \<Rightarrow>
        ((fl_min min_x x, fl_min min_y y), (fl_max max_x x, fl_max max_y y)))"

record table_state =
  ts_types :: "string list"
  ts_wkb :: "string list"
  ts_box :: bounding_box
  ts_columns :: "(string \<times> cell list) list"

definition empty_state :: table_state where
  "empty_state = \<lparr>ts_types = [], ts_wkb = [], ts_box = ((PInf, PInf), (PNegInf, PNegInf)), ts_columns = []\<rparr>"

definition geometry_name :: "geometry \<Rightarrow> string" where
  "geometry_name g = (case g of Point _ \<Rightarrow> ''Point'' | LineString _ \<Rightarrow> ''LineString'' | Polygon _ \<Rightarrow> ''Polygon'' | MultiPolygon _ \<Rightarrow> ''MultiPolygon'')"

text \<open>\<open>retained_columns.setdefault(column, []).append(value)\<close>.\<close>

definition column_values :: "(string \<times> cell list) list \<Rightarrow> string \<Rightarrow> cell list" where
  "column_values columns c = (case map_of columns c of None \<Rightarrow> [] | Some vs \<Rightarrow> vs)"

definition retain_value :: "string \<Rightarrow> (string \<times> cell list) list \<Rightarrow> string \<times> cell \<Rightarrow> (string \<times> cell list) list" where
  "retain_value wkt_column columns cv =
     (if fst cv = wkt_column then columns else AList.update (fst cv) (column_values columns (fst cv) @ [snd cv]) columns)"

definition row_wkt :: "string \<Rightarrow> row \<Rightarrow> string res" where
  "row_wkt wkt_column r =
     (case row_get r wkt_column of
        CText s \<Rightarrow> bindR (guard (s \<noteq> []) ValueError ''row is missing its geometry text'') (\<lambda>_. Inr s)
      | _ \<Rightarrow> raise ValueError ''row is missing its geometry text'')"

definition table_step :: "string \<Rightarrow> table_state \<Rightarrow> row \<Rightarrow> table_state res" where
  "table_step wkt_column st r =
     bindR (row_wkt wkt_column r) (\<lambda>wkt.
     bindR (parse_wkt wkt) (\<lambda>g.
     bindR (wkb_encode g) (\<lambda>wkb.
     Inr \<lparr>ts_types = List.insert (geometry_name g) (ts_types st), ts_wkb = ts_wkb st @ [wkb],
          ts_box = foldl extend_box (ts_box st) (iter_positions g),
          ts_columns = foldl (retain_value wkt_column) (ts_columns st) r\<rparr>)))"

definition geo_metadata :: "(rat \<Rightarrow> string) \<Rightarrow> string list \<Rightarrow> bounding_box \<Rightarrow> string" where
  "geo_metadata fr types box =
     (case box of ((min_x, min_y), (max_x, max_y)) \<Rightarrow>
        dumps_default fr True (JObj
          [(''version'', JStr GEOPARQUET_VERSION),
           (''primary_column'', JStr GEOMETRY_COLUMN),
           (''columns'', JObj [(GEOMETRY_COLUMN, JObj
              [(''encoding'', JStr ''WKB''),
               (''geometry_types'', JList (map JStr (sort types))),
               (''crs'', JNull),
               (''edges'', JStr ''planar''),
               (''bbox'', JList [JFloat min_x, JFloat min_y, JFloat max_x, JFloat max_y])])])]))"

definition arrow_column :: "(cell list \<Rightarrow> unit res) \<Rightarrow> nat \<Rightarrow> string \<times> cell list \<Rightarrow> unit res" where
  "arrow_column arr n column =
     bindR (guard (length (snd column) = n) ValueError ''column is not present in every exported row'') (\<lambda>_. arr (snd column))"

definition build_geoparquet_table :: "(cell list \<Rightarrow> unit res) \<Rightarrow> (rat \<Rightarrow> string) \<Rightarrow> row list \<Rightarrow> string \<Rightarrow> export_lineage \<Rightarrow> geoparquet_table res" where
  "build_geoparquet_table arr fr rows wkt_column lineage =
     bindR (guard (1 \<le> length rows \<and> length rows \<le> MAX_EXPORT_ROWS) ValueError ''export requires between 1 and 1000000 rows'') (\<lambda>_.
     bindR (foldR (table_step wkt_column) empty_state rows) (\<lambda>st.
     let columns = sort_key fst (ts_columns st)
     in bindR (forR (arrow_column arr (length rows)) columns) (\<lambda>_.
        Inr \<lparr>gt_columns = columns, gt_geometry = ts_wkb st, gt_geo = geo_metadata fr (ts_types st) (ts_box st),
             gt_lineage = lineage_json fr lineage\<rparr>)))"

section \<open>Targets\<close>

datatype filesystem =
  S3FileSystem string "string option" string
| AzureFileSystem string
| LocalFileSystem

text \<open>The groups of \<open>([a-z0-9-]+)@([a-z0-9]{3,24})\..+\<close>.\<close>

definition adls_netloc_match :: "string \<Rightarrow> (string \<times> string) option" where
  "adls_netloc_match netloc =
     (case partition_on (CHR ''@'') netloc of (container, has_at, rest) \<Rightarrow>
      case partition_on (CHR ''.'') rest of (account, has_dot, domain) \<Rightarrow>
        if has_at \<and> has_dot \<and> container \<noteq> [] \<and> list_all (\<lambda>c. lower_or_digit c \<or> c = CHR ''-'') container \<and>
           3 \<le> length account \<and> length account \<le> 24 \<and> list_all lower_or_digit account \<and>
           domain \<noteq> [] \<and> CHR 0x0A \<notin> set domain
        then Some (container, account) else None)"

definition adls_target :: "string \<Rightarrow> (filesystem \<times> string) res" where
  "adls_target target_uri =
     bindR (urlsplit target_uri) (\<lambda>parsed.
     bindR (guard (url_scheme parsed = ''abfs'') StorageConfigurationError ''ADLS export targets must use abfs:// URIs'') (\<lambda>_.
     bindR (guard (\<not> url_has_extras parsed) StorageConfigurationError
              ''ADLS URIs must not contain credentials, query parameters or fragments'') (\<lambda>_.
     bindR (require_some (adls_netloc_match (url_netloc parsed)) StorageConfigurationError
              ''ADLS export target must be abfs://<filesystem>@<account>.<suffix>/<key>'') (\<lambda>(container, account).
     let path = dropWhile (\<lambda>c. c = CHR ''/'') (url_path parsed)
     in bindR (guard (path \<noteq> [] \<and> ''..'' \<notin> set (split_on (CHR ''/'') path)) StorageConfigurationError
                 ''ADLS export target must name an object key'') (\<lambda>_.
        Inr (AzureFileSystem account, container @ ''/'' @ path))))))"

text \<open>\<open>os.path.commonpath\<close> of two absolute paths.\<close>

definition path_names :: "string \<Rightarrow> string list" where
  "path_names p = filter (\<lambda>c. c \<noteq> [] \<and> c \<noteq> ''.'') (split_on (CHR ''/'') p)"

definition common_path :: "string \<Rightarrow> string \<Rightarrow> string" where
  "common_path p q = ''/'' @ join_with ''/'' (longest_common_prefix (path_names p) (path_names q))"

definition local_target :: "(string \<Rightarrow> string) \<Rightarrow> environ \<Rightarrow> string \<Rightarrow> (filesystem \<times> string) res" where
  "local_target realpath env target_uri =
     bindR (load_local_root env) (\<lambda>root.
     bindR (guard (prefix ''/'' target_uri) StorageConfigurationError ''local export targets must be absolute paths'') (\<lambda>_.
     bindR (guard (common_path (realpath root) (realpath target_uri) = realpath root) StorageConfigurationError
              ''local export targets must stay under BLUEECONOMY_LOCAL_LAKEHOUSE_ROOT'') (\<lambda>_.
     Inr (LocalFileSystem, realpath target_uri))))"

definition resolve_export_filesystem :: "(string \<Rightarrow> string) \<Rightarrow> environ \<Rightarrow> string \<Rightarrow> (filesystem \<times> string) res" where
  "resolve_export_filesystem realpath env target_uri =
     bindR (canonical_backend (env_get env ''BLUEECONOMY_STORAGE_BACKEND'')) (\<lambda>b.
     case b of
       BACKEND_S3 \<Rightarrow>
         bindR (load_s3_config env) (\<lambda>config.
         bindR (validate_s3_uri target_uri) (\<lambda>(bucket, key).
         Inr (S3FileSystem (s3_region config) (s3_endpoint_url config) (if s3_secure config then ''https'' else ''http''), bucket @ ''/'' @ key)))
     | BACKEND_ADLS \<Rightarrow> adls_target target_uri
     | BACKEND_LOCAL \<Rightarrow> local_target realpath env target_uri)"

section \<open>The export\<close>

record 'w export_runtime =
  ex_sha :: "string \<Rightarrow> string"
  ex_fr :: "rat \<Rightarrow> string"
  ex_loads :: "string \<Rightarrow> json res"
  ex_realpath :: "string \<Rightarrow> string"
  ex_array :: "cell list \<Rightarrow> unit res"
  ex_clock :: "'w \<Rightarrow> int \<times> 'w"
  ex_create_dir :: "filesystem \<Rightarrow> string \<Rightarrow> 'w \<Rightarrow> unit res \<times> 'w"
  ex_write_parquet :: "filesystem \<Rightarrow> string \<Rightarrow> geoparquet_table \<Rightarrow> 'w \<Rightarrow> unit res \<times> 'w"
  ex_write_bytes :: "filesystem \<Rightarrow> string \<Rightarrow> string \<Rightarrow> 'w \<Rightarrow> unit res \<times> 'w"

definition open_source :: "('w, 't) delta_api \<Rightarrow> string \<Rightarrow> ('w, 't) act" where
  "open_source api uri w =
     (case api_open api uri w of
        Inl e \<Rightarrow> ((if exn_class e = TableNotFoundError then raise ValueError ''export source table does not exist'' else Inl e), w)
      | Inr t \<Rightarrow> (Inr t, w))"

definition export_lineage_of :: "'w export_runtime \<Rightarrow> ('w, 't) delta_api \<Rightarrow> string \<Rightarrow> 't \<Rightarrow> row list \<Rightarrow> ('w, export_lineage) act" where
  "export_lineage_of rt api uri source rows =
     bindA (pureA (quality_metrics (ex_loads rt) rows)) (\<lambda>quality w.
     case ex_clock rt w of (now, w') \<Rightarrow>
       (Inr \<lparr>el_table_sha256 = ex_sha rt uri, el_table_version = api_version api source, el_event_range = event_id_range rows,
             el_row_count = int (length rows), el_quality = quality, el_exported_at = isoformat now\<rparr>, w'))"

definition parent_path :: "string \<Rightarrow> string" where
  "parent_path path = (if CHR ''/'' \<in> set path then before_last (CHR ''/'') path else path)"

definition export_geoparquet :: "'w export_runtime \<Rightarrow> ('w, 't) delta_api \<Rightarrow> environ \<Rightarrow> string \<Rightarrow> string \<Rightarrow> string \<Rightarrow> ('w, export_lineage) act" where
  "export_geoparquet rt api env source_table_uri wkt_column target_uri =
     bindA (open_source api source_table_uri) (\<lambda>source.
     bindA (pureA (api_read_all api source)) (\<lambda>rows.
     bindA (export_lineage_of rt api source_table_uri source rows) (\<lambda>lineage.
     bindA (pureA (build_geoparquet_table (ex_array rt) (ex_fr rt) rows wkt_column lineage)) (\<lambda>table.
     bindA (pureA (resolve_export_filesystem (ex_realpath rt) env target_uri)) (\<lambda>(fs, path).
     bindA (ex_create_dir rt fs (parent_path path)) (\<lambda>_.
     bindA (ex_write_parquet rt fs path table) (\<lambda>_.
     bindA (ex_write_bytes rt fs (path @ ''.lineage.json'') (lineage_json (ex_fr rt) lineage @ [CHR 0x0A])) (\<lambda>_.
     pureA (Inr lineage)))))))))"

section \<open>What an exported table holds\<close>

lemma bound_loop:
  assumes "foldR (table_step wc) st rows = Inr st'"
  shows "\<exists>gs ws. list_all2 (\<lambda>r g. \<exists>s. row_get r wc = CText s \<and> parse_wkt s = Inr g) rows gs \<and>
    list_all2 (\<lambda>g w. wkb_encode g = Inr w) gs ws \<and> ts_wkb st' = ts_wkb st @ ws \<and>
    ts_columns st' = foldl (foldl (retain_value wc)) (ts_columns st) rows \<and>
    ts_box st' = foldl extend_box (ts_box st) (concat (map iter_positions gs)) \<and>
    set (ts_types st') = set (ts_types st) \<union> geometry_name ` set gs"
  using assms
proof (induction rows arbitrary: st)
  case (Cons r rows)
  then obtain st1 where s: "table_step wc st r = Inr st1" and f: "foldR (table_step wc) st1 rows = Inr st'"
    by (auto simp: bindR_Inr_iff)
  from s obtain s g w where 1: "row_get r wc = CText s" "parse_wkt s = Inr g" "wkb_encode g = Inr w"
    "ts_wkb st1 = ts_wkb st @ [w]" "ts_box st1 = foldl extend_box (ts_box st) (iter_positions g)"
    "ts_columns st1 = foldl (retain_value wc) (ts_columns st) r" "set (ts_types st1) = insert (geometry_name g) (set (ts_types st))"
    by (auto simp: table_step_def row_wkt_def bindR_Inr_iff guard_Inr_iff raise_def split: cell.splits)
  from Cons.IH [OF f] obtain gs ws where "list_all2 (\<lambda>r g. \<exists>s. row_get r wc = CText s \<and> parse_wkt s = Inr g) rows gs"
    "list_all2 (\<lambda>g w. wkb_encode g = Inr w) gs ws" "ts_wkb st' = ts_wkb st1 @ ws"
    "ts_columns st' = foldl (foldl (retain_value wc)) (ts_columns st1) rows"
    "ts_box st' = foldl extend_box (ts_box st1) (concat (map iter_positions gs))"
    "set (ts_types st') = set (ts_types st1) \<union> geometry_name ` set gs" by blast
  with 1 show ?case by (intro exI [of _ "g # gs"] exI [of _ "w # ws"]) simp
qed simp

subsection \<open>Columns\<close>

definition row_values :: "string \<Rightarrow> row \<Rightarrow> cell list" where
  "row_values c r = map snd (filter (\<lambda>kv. fst kv = c) r)"

lemma retain_row:
  shows "column_values (foldl (retain_value wc) cols r) c = column_values cols c @ (if c = wc then [] else row_values c r)"
    and "fst ` set (foldl (retain_value wc) cols r) = fst ` set cols \<union> (fst ` set r - {wc})"
    and "distinct (map fst cols) \<Longrightarrow> distinct (map fst (foldl (retain_value wc) cols r))"
proof (induction r arbitrary: cols)
  case (Cons kv r)
  { case 1 show ?case using Cons.IH(1) [of "retain_value wc cols kv"]
      by (auto simp: retain_value_def column_values_def row_values_def update_conv') }
  { case 2 show ?case using Cons.IH(2) [of "retain_value wc cols kv"]
      by (auto simp: retain_value_def dom_update) }
  { case 3 then show ?case using Cons.IH(3) [of "retain_value wc cols kv"]
      by (simp add: retain_value_def distinct_update) }
qed (simp_all add: row_values_def)

lemma retain_rows:
  shows "column_values (foldl (foldl (retain_value wc)) cols rows) c =
      column_values cols c @ (if c = wc then [] else concat (map (row_values c) rows))"
    and "fst ` set (foldl (foldl (retain_value wc)) cols rows) = fst ` set cols \<union> (\<Union>r\<in>set rows. fst ` set r - {wc})"
    and "distinct (map fst cols) \<Longrightarrow> distinct (map fst (foldl (foldl (retain_value wc)) cols rows))"
proof (induction rows arbitrary: cols)
  case (Cons r rows)
  { case 1 show ?case using Cons.IH(1) [of "foldl (retain_value wc) cols r"] by (simp add: retain_row(1)) }
  { case 2 show ?case using Cons.IH(2) [of "foldl (retain_value wc) cols r"] by (auto simp: retain_row(2)) }
  { case 3 then show ?case using Cons.IH(3) [of "foldl (retain_value wc) cols r"] by (simp add: retain_row(3)) }
qed simp_all

lemma row_values_distinct:
  "distinct (map fst r) \<Longrightarrow> row_values c r = (case map_of r c of None \<Rightarrow> [] | Some v \<Rightarrow> [v])"
proof (induction r)
  case (Cons kv r)
  then show ?case
    by (cases kv) (auto simp: row_values_def filter_empty_conv map_of_eq_None_iff rev_image_eqI split: option.splits)
qed (simp add: row_values_def)

text \<open>A column with as many values as there are rows has one value of every row.\<close>

lemma full_column:
  assumes "\<forall>r\<in>set rows. distinct (map fst r)" "length (concat (map (row_values c) rows)) = length rows"
  shows "list_all2 (\<lambda>r v. map_of r c = Some v) rows (concat (map (row_values c) rows))"
  using assms
proof (induction rows)
  case (Cons r rows)
  have short: "length (concat (map (row_values c) rs)) \<le> length rs" if "\<forall>r\<in>set rs. distinct (map fst r)" for rs
    using that
  proof (induction rs)
    case (Cons r rs)
    have "length (row_values c r) \<le> 1" using Cons.prems by (simp add: row_values_distinct split: option.splits)
    with Cons show ?case by simp
  qed simp
  have r: "row_values c r = (case map_of r c of None \<Rightarrow> [] | Some v \<Rightarrow> [v])" using Cons.prems by (intro row_values_distinct) simp
  show ?case
  proof (cases "map_of r c")
    case None
    then have "length (concat (map (row_values c) rows)) = Suc (length rows)" using Cons.prems(2) r by simp
    with short [of rows] Cons.prems(1) show ?thesis by simp
  next
    case (Some v)
    with Cons r show ?thesis by simp
  qed
qed simp

subsection \<open>Bounds\<close>

definition boxed :: "bounding_box \<Rightarrow> coordinate \<Rightarrow> bool" where
  "boxed box p \<longleftrightarrow>
     (fst p \<noteq> PNaN \<longrightarrow> fl_le (fst (fst box)) (fst p) \<and> fl_le (fst p) (fst (snd box))) \<and>
     (snd p \<noteq> PNaN \<longrightarrow> fl_le (snd (fst box)) (snd p) \<and> fl_le (snd p) (snd (snd box)))"

definition proper_box :: "bounding_box \<Rightarrow> bool" where
  "proper_box box \<longleftrightarrow> fst (fst box) \<noteq> PNaN \<and> snd (fst box) \<noteq> PNaN \<and> fst (snd box) \<noteq> PNaN \<and> snd (snd box) \<noteq> PNaN"

lemma fl_min_max:
  assumes "a \<noteq> PNaN"
  shows "fl_min a b \<noteq> PNaN" "fl_max a b \<noteq> PNaN" "fl_le (fl_min a b) a" "fl_le a (fl_max a b)"
    "b \<noteq> PNaN \<Longrightarrow> fl_le (fl_min a b) b" "b \<noteq> PNaN \<Longrightarrow> fl_le b (fl_max a b)"
  using assms by (cases a; cases b; auto simp: fl_min_def fl_max_def)+

lemma extend_box_bounds:
  assumes "proper_box box"
  shows "proper_box (extend_box box p)" "boxed (extend_box box p) p" "boxed box q \<Longrightarrow> boxed (extend_box box p) q"
  using assms
  by (auto simp: proper_box_def boxed_def extend_box_def fl_min_max split: prod.splits intro: fl_le_trans [OF fl_min_max(3)] fl_le_trans [OF _ fl_min_max(4)])

lemma fold_box_bounds:
  assumes "proper_box box"
  shows "(\<forall>q. boxed box q \<longrightarrow> boxed (foldl extend_box box ps) q) \<and> (\<forall>p\<in>set ps. boxed (foldl extend_box box ps) p)"
  using assms
proof (induction ps arbitrary: box)
  case (Cons p ps)
  note e = extend_box_bounds [OF Cons.prems]
  from Cons.IH [OF e(1), of p] have i: "\<And>q. boxed (extend_box box p) q \<Longrightarrow> boxed (foldl extend_box box (p # ps)) q"
    "\<forall>q\<in>set ps. boxed (foldl extend_box box (p # ps)) q" by (simp_all del: split_paired_All)
  then show ?case using e(3) i(1) [OF e(2)] by (simp only: set_simps ball_simps) blast
qed simp

text \<open>A box is tight for some positions when each side is an ordinate of one of them, or infinite as at the start.\<close>

definition tight_box :: "coordinate list \<Rightarrow> bounding_box \<Rightarrow> bool" where
  "tight_box ps box \<longleftrightarrow>
     fst (fst box) \<in> insert PInf (fst ` set ps) \<and> snd (fst box) \<in> insert PInf (snd ` set ps) \<and>
     fst (snd box) \<in> insert PNegInf (fst ` set ps) \<and> snd (snd box) \<in> insert PNegInf (snd ` set ps)"

lemma fl_min_member: "a \<in> insert c A \<Longrightarrow> fl_min a b \<in> insert c (insert b A)"
  by (auto simp: fl_min_def)

lemma fl_max_member: "a \<in> insert c A \<Longrightarrow> fl_max a b \<in> insert c (insert b A)"
  by (auto simp: fl_max_def)

lemma extend_box_sides:
  "extend_box box p = ((fl_min (fst (fst box)) (fst p), fl_min (snd (fst box)) (snd p)),
     (fl_max (fst (snd box)) (fst p), fl_max (snd (snd box)) (snd p)))"
  by (cases box; cases "fst box"; cases "snd box"; cases p) (simp add: extend_box_def)

lemma extend_box_tight:
  assumes "tight_box ps box"
  shows "tight_box (ps @ [p]) (extend_box box p)"
proof -
  have "f ` set (ps @ [p]) = insert (f p) (f ` set ps)" for f :: "coordinate \<Rightarrow> pyfloat" by simp
  then show ?thesis using assms unfolding tight_box_def extend_box_sides fst_conv snd_conv
    by (simp only: fl_min_member fl_max_member simp_thms)
qed

lemma fold_box_tight: "tight_box qs box \<Longrightarrow> tight_box (qs @ ps) (foldl extend_box box ps)"
proof (induction ps arbitrary: qs box)
  case (Cons p ps)
  from Cons.IH [OF extend_box_tight [OF Cons.prems, of p]] show ?case by simp
qed simp

subsection \<open>The table\<close>

text \<open>
  Claim C40. An exported table is faithful to its rows: there is one binary geometry per row, in order, the encoding of the geometry the
  row's text parses to; the columns are those of the rows but for the text, in increasing order, each with the value of every row in
  order; the metadata names exactly the types of these geometries; and its bounding box contains every position whose ordinates are
  numbers and is no larger than that.
\<close>

theorem geoparquet_table_exact:
  assumes "build_geoparquet_table arr fr rows wkt_column lineage = Inr t" "\<forall>r\<in>set rows. distinct (map fst r)"
  shows "\<exists>gs types box.
    list_all2 (\<lambda>r g. \<exists>s. row_get r wkt_column = CText s \<and> parse_wkt s = Inr g) rows gs \<and>
    list_all2 (\<lambda>g w. wkb_encode g = Inr w) gs (gt_geometry t) \<and>
    sorted_wrt (<) (map fst (gt_columns t)) \<and> fst ` set (gt_columns t) = (\<Union>r\<in>set rows. fst ` set r) - {wkt_column} \<and>
    (\<forall>(c, vs)\<in>set (gt_columns t). list_all2 (\<lambda>r v. map_of r c = Some v) rows vs) \<and>
    gt_geo t = geo_metadata fr types box \<and> set types = geometry_name ` set gs \<and>
    (\<forall>p\<in>set (concat (map iter_positions gs)). boxed box p) \<and> tight_box (concat (map iter_positions gs)) box"
proof -
  from assms(1) obtain st where f: "foldR (table_step wkt_column) empty_state rows = Inr st"
    and cols: "forR (arrow_column arr (length rows)) (sort_key fst (ts_columns st)) = Inr ()"
    and t: "t = \<lparr>gt_columns = sort_key fst (ts_columns st), gt_geometry = ts_wkb st, gt_geo = geo_metadata fr (ts_types st) (ts_box st),
      gt_lineage = lineage_json fr lineage\<rparr>"
    by (auto simp: build_geoparquet_table_def Let_def bindR_Inr_iff)
  from bound_loop [OF f] obtain gs ws where g: "list_all2 (\<lambda>r g. \<exists>s. row_get r wkt_column = CText s \<and> parse_wkt s = Inr g) rows gs"
    "list_all2 (\<lambda>g w. wkb_encode g = Inr w) gs ws" "ts_wkb st = ws"
    and c: "ts_columns st = foldl (foldl (retain_value wkt_column)) [] rows"
    and b: "ts_box st = foldl extend_box ((PInf, PInf), (PNegInf, PNegInf)) (concat (map iter_positions gs))"
    and y: "set (ts_types st) = geometry_name ` set gs"
    by (auto simp: empty_state_def)
  have d: "distinct (map fst (ts_columns st))" unfolding c by (rule retain_rows(3)) simp
  have keys: "fst ` set (ts_columns st) = (\<Union>r\<in>set rows. fst ` set r) - {wkt_column}"
    unfolding c using retain_rows(2) [of wkt_column "[]" rows] by auto
  have col: "list_all2 (\<lambda>r v. map_of r k = Some v) rows vs" if kv: "(k, vs) \<in> set (ts_columns st)" for k vs
  proof -
    have "map_of (ts_columns st) k = Some vs" using kv d by simp
    then have "vs = column_values (ts_columns st) k" by (simp add: column_values_def)
    moreover have "k \<noteq> wkt_column" using keys kv by (metis DiffE fst_conv image_eqI singletonI)
    ultimately have v: "vs = concat (map (row_values k) rows)"
      unfolding c using retain_rows(1) [of wkt_column "[]" rows k] by (simp add: column_values_def)
    have "arrow_column arr (length rows) (k, vs) = Inr ()" using cols kv by (simp add: forR_Inr)
    then have "length vs = length rows" by (simp add: arrow_column_def bindR_Inr_iff guard_Inr_iff)
    then show ?thesis using full_column [OF assms(2)] v by simp
  qed
  have "sorted_wrt (<) (map fst (sort_key fst (ts_columns st)))" using d by (rule sorted_fst_strict)
  moreover have "proper_box ((PInf, PInf), (PNegInf, PNegInf))" by (simp add: proper_box_def)
  from fold_box_bounds [OF this] have "\<forall>p\<in>set (concat (map iter_positions gs)). boxed (ts_box st) p" unfolding b by blast
  moreover have "tight_box [] ((PInf, PInf), (PNegInf, PNegInf))" by (simp add: tight_box_def)
  from fold_box_tight [OF this, of "concat (map iter_positions gs)"] have "tight_box (concat (map iter_positions gs)) (ts_box st)"
    unfolding b by simp
  ultimately show ?thesis using g keys col y
    by (intro exI [of _ gs] exI [of _ "ts_types st"] exI [of _ "ts_box st"]) (auto simp: t simp del: set_concat)
qed

definition sample_fix :: track_point where
  "sample_fix = \<lparr>tp_occurred_at = 0, tp_longitude = PFin 3, tp_latitude = PFin 6, tp_event_id = ''e-1''\<rparr>"

definition sample_rows :: "row list" where
  "sample_rows =
     [[(''mmsi'', CText ''366053209''), (''geometry_wkt'', CText (point_wkt sample_fix))],
      [(''mmsi'', CText ''366053210''), (''geometry_wkt'', CText (line_wkt [sample_fix, sample_fix]))]]"

definition sample_lineage :: export_lineage where
  "sample_lineage = \<lparr>el_table_sha256 = ''00'', el_table_version = 1, el_event_range = None, el_row_count = 2, el_quality = [],
     el_exported_at = ''1970-01-01T00:00:00+00:00''\<rparr>"

lemma sample_table: "is_ok (build_geoparquet_table (\<lambda>_. Inr ()) (\<lambda>_. ''0'') sample_rows ''geometry_wkt'' sample_lineage)"
proof -
  have f: "finite_coordinate (track_coordinate sample_fix)" by (simp add: finite_coordinate_def track_coordinate_def sample_fix_def)
  have p: "parse_wkt (point_wkt sample_fix) = Inr (Point (coordinate_value (track_coordinate sample_fix)))" using f by (rule parse_point_wkt)
  have l: "parse_wkt (line_wkt [sample_fix, sample_fix]) = Inr (LineString (map (coordinate_value \<circ> track_coordinate) [sample_fix, sample_fix]))"
    using f by (intro parse_line_wkt) simp_all
  have r: "row_wkt ''geometry_wkt'' (sample_rows ! 0) = Inr (point_wkt sample_fix)"
    "row_wkt ''geometry_wkt'' (sample_rows ! 1) = Inr (line_wkt [sample_fix, sample_fix])"
    by (simp_all add: row_wkt_def sample_rows_def row_get_def point_wkt_def line_wkt_def guard_def)
  have rows: "sample_rows = [sample_rows ! 0, sample_rows ! 1]" by (simp add: sample_rows_def)
  have e: "\<exists>b. wkb_encode (Point c) = Inr b" "\<exists>b. wkb_encode (LineString [c, d]) = Inr b" for c d
    using wkb_headers by (simp_all add: wkb_encode_def wkb_linestring_body_def counted_def pack_u32_def guard_def)
  have step: "\<exists>st'. table_step ''geometry_wkt'' st row = Inr st'"
    if "row_wkt ''geometry_wkt'' row = Inr w" "parse_wkt w = Inr g" "\<exists>b. wkb_encode g = Inr b" for st row w g
    using that by (auto simp: table_step_def)
  obtain st0 where st0: "table_step ''geometry_wkt'' empty_state (sample_rows ! 0) = Inr st0" using step [OF r(1) p] e by blast
  obtain st where "table_step ''geometry_wkt'' st0 (sample_rows ! 1) = Inr st" using step [OF r(2) l] e by (fastforce simp del: One_nat_def)
  then have st: "foldR (table_step ''geometry_wkt'') empty_state sample_rows = Inr st" by (subst rows) (simp add: st0)
  have columns: "ts_columns st = [(''mmsi'', [CText ''366053209'', CText ''366053210''])]"
    using bound_loop [OF st] by (auto simp: empty_state_def sample_rows_def retain_value_def column_values_def)
  have n: "length sample_rows = 2" by (simp add: sample_rows_def)
  show ?thesis unfolding build_geoparquet_table_def st n
    by (simp add: columns arrow_column_def guard_def Let_def is_ok_iff MAX_EXPORT_ROWS_def)
qed

lemma geoparquet_table_exact_witness:
  "\<exists>t. build_geoparquet_table (\<lambda>_. Inr ()) (\<lambda>_. ''0'') sample_rows ''geometry_wkt'' sample_lineage = Inr t \<and>
    fst ` set (gt_columns t) = {''mmsi''}"
proof -
  obtain t where t: "build_geoparquet_table (\<lambda>_. Inr ()) (\<lambda>_. ''0'') sample_rows ''geometry_wkt'' sample_lineage = Inr t"
    using sample_table by (auto simp: is_ok_iff)
  have "\<forall>r\<in>set sample_rows. distinct (map fst r)" by (simp add: sample_rows_def)
  from geoparquet_table_exact [OF t this]
  have "fst ` set (gt_columns t) = (\<Union>r\<in>set sample_rows. fst ` set r) - {''geometry_wkt''}" by blast
  also have "\<dots> = {''mmsi''}" by (auto simp: sample_rows_def)
  finally show ?thesis using t by blast
qed

end
