(* ===== verification/Spec2Isabelle.thy ===== *)
theory Spec2Isabelle
  imports Access_Policy Ingest Storage Medallion Retention Kafka_Ingest Scope_Medallion Export_Consignment Mrv_Gold
    Bluecarbon_Gold Excise_Stamps Authenticated_Ingest Port_Statistics Gold_Assembly Stats_Properties
    Vessel_Properties Vessel_Ingest Kpi_Publishing Geoparquet_Properties
begin

text \<open>
  The Blue Economy data platform (\<open>src/src/blueeconomy_data_platform\<close>): events arrive over Kafka or as NDJSON,
  are validated and projected into rows, appended to append-only Delta tables in scopes that must never mix,
  promoted through a bronze, a silver and a gold layer, retained for a bounded time, and read under a role and
  clearance policy.  This development models that core and proves what it promises.

  \<^bold>\<open>Shared theories.\<close>
  \<open>Prelude\<close>: Python exceptions as values of a sum type, blocks as \<open>bindR\<close>, loops as \<open>mapR\<close> and \<open>foldR\<close> with their
  invariant rules, dictionaries as association lists.
  \<open>Py_Text\<close>: the parts of \<open>str\<close>, \<open>re\<close> and \<open>urllib.parse\<close> that are used, on Latin-1 text.
  \<open>Py_Values\<close>, \<open>Py_Float\<close>: doubles as rationals with infinities and NaN, \<open>float(int)\<close>, rounded addition, JSON
  documents, rows of cells.  \<open>Py_Time\<close>: the proleptic calendar and \<open>datetime.fromisoformat\<close>; an aware instant is its
  microseconds since the epoch.  \<open>Json_Dumps\<close>: \<open>json.dumps\<close>.  \<open>Py_Number\<close>: \<open>int\<close> and \<open>float\<close> of texts, the square root, fixed
  formatting, and the order of rounding.

  \<^bold>\<open>Components\<close>, each in the order of its source file.
  \<open>Segregation\<close> (\<open>segregation.py\<close>): scopes, routing tables, canonical classifications, the URI boundary, roots and the
  scope-bound writer.  \<open>Access_Policy\<close> (\<open>access_policy.py\<close>): role grants, clearances, authorisation, the row filter.
  \<open>Storage\<close> (\<open>storage.py\<close>): the S3, ADLS and local backends.  \<open>Ingest\<close> and \<open>Delta_Append\<close> (\<open>ingest.py\<close>): envelope
  projection and normalisation, the NDJSON batch, the replay guard and the insert-only merge with its bounded
  retries.  \<open>Medallion\<close> (\<open>medallion.py\<close>) and \<open>Scope_Medallion\<close> (\<open>scope_medallion.py\<close>): retention tiers, deduplication
  keys, bronze and silver appends, curated gold.  \<open>Retention\<close> (\<open>retention.py\<close>): plan, re-assertion, quoted deletes and
  the audit log.  \<open>Dlq\<close> (\<open>dlq.py\<close>) and \<open>Kafka_Ingest\<close> (\<open>kafka_ingest.py\<close>): the dead-letter queue, transport validation,
  the collection loop, offsets and the run.  \<open>Envelope_Payload\<close> (\<open>envelope_payload.py\<close>) and the gold assemblers
  \<open>Export_Consignment\<close>, \<open>Mrv_Gold\<close>, \<open>Bluecarbon_Gold\<close>, \<open>Excise_Stamps\<close> (the files of the same names).
  \<open>Jcs\<close> (\<open>jcs.py\<close>) and \<open>Signature\<close> (\<open>signature_verification.py\<close>): canonical JSON, the key directory, compact JWS
  verification with its counters, signing; \<open>Authenticated_Ingest\<close> joins them to the Kafka loop.
  \<open>Py_Round\<close>, \<open>Port_Facts\<close>, \<open>Kpi_Values\<close>, \<open>Kpi_Properties\<close> and \<open>Port_Statistics\<close> (\<open>port_statistics.py\<close>): the arithmetic of
  doubles, the KPI registry and the facts, the observations, value rows and report, what the figures are, and the
  run with its appends and its signed report.
  \<open>Stats_Api\<close> and \<open>Stats_Properties\<close> (\<open>stats_api.py\<close>): the service over the statistics tables, its authentication, routes and
  error answers, and what it serves.  \<open>Gold_Assembly\<close> (\<open>gold_assembly.py\<close>): the command that loads its configuration and runs
  the gold builder of one scope, with the export of the consignments and the report.  \<open>Kpi_Publishing\<close>
  (\<open>kpi_publishing.py\<close>): the operational KPIs and their snapshot; its percentiles are the exact nearest ranks.
  \<open>Ais_Decode\<close> (\<open>ais_decode.py\<close>), \<open>Geofence\<close> (\<open>geofence.py\<close>), \<open>Vessel_Tracks\<close>, \<open>Vessel_Lakehouse\<close> and \<open>Vessel_Properties\<close>
  (\<open>vessel_lakehouse.py\<close>), \<open>Vessel_Ingest\<close> (\<open>vessel_ingest.py\<close>): AIS sentences, the even-odd test, segmentation and
  simplification of tracks, observations from signed envelopes, silver trajectories, gold summaries, and the consumer, which shares
  the loop and the quarantine of \<open>Kafka_Ingest\<close> and the locale of \<open>Authenticated_Ingest\<close>.
  \<open>Wkt_Geometry\<close>, \<open>Geoparquet\<close> and \<open>Geoparquet_Properties\<close> (\<open>geoparquet_export.py\<close>): the WKT tokenizer and parser, the
  binary encoding of geometries, lineage, the table of a GeoParquet file, the resolution of a target and the export; the texts
  that \<open>vessel_lakehouse.py\<close> writes parse to the rounded points they were made of, and distinct geometries have distinct encodings.

  \<^bold>\<open>Interfaces.\<close>
  \<open>routing\<close> (a routing table whose patterns exclude each other), \<open>replay_guard\<close> (a check that compares a batch with
  the retained rows), \<open>dead_letter_sink\<close>, \<open>message_loop\<close>, \<open>gold_product\<close> (a builder whose rows are keyed and of one shape) and
  \<open>view_verifier\<close> (a verifier of the signed view of a message) are locales; every one is interpreted on the definitions of the component that provides it.

  \<^bold>\<open>External code.\<close>
  Delta Lake and Arrow (\<open>delta_api\<close>), the Kafka consumer and producer, the clock and the digest are records of
  calls over an abstract world.  What the theorems rely on is stated as \<open>delta_contract\<close>, \<open>deletion_contract\<close>,
  \<open>overwrite_contract\<close>, \<open>dlq_contract\<close>, \<open>kafka_contract\<close> and \<open>stats_contract\<close>: documented behaviour of those calls;
  \<open>ed25519_contract\<close> and \<open>codec_contract\<close> say that a signature verifies under its own key and that the JSON reader
  reads what was written; \<open>same_version\<close> says that a pinned table version does not change.  The store in memory
  \<open>mem_delta\<close> and the broker \<open>kworld\<close> satisfy them, and every witness runs on these.  \<open>json.loads\<close>, schema validation,
  Ed25519, name-based UUIDs, \<open>repr\<close> of floats and SHA-256 are function arguments; a theorem that needs the digest not
  to collide says so for the two materials it compares.  Rows reach Delta Lake as an Arrow table: \<open>delta_contract\<close> says that
  \<open>Table.from_pylist\<close> keeps the columns of the schema, or of the first row when there is none, with null for an absent one
  (\<open>arrow_columns\<close>, \<open>arrow_rows\<close>), and that creation and merge store the table they are given; \<open>ragged_first_write\<close> shows what
  that drops.  Tables are named by the texts of their URIs: two spellings of one location are taken as two tables.  The AIS library (\<open>pyais\<close>), \<open>math.hypot\<close>, HMAC, \<open>unquote\<close>, the files and the
  connection of the service are arguments as well; \<open>serving_contract\<close> says which exceptions they may raise, and \<open>gold_contract\<close> that a
  write touches the table it names only.

  \<^bold>\<open>What is proved.\<close>
  Isolation of scopes (\<open>writer_tables_isolated\<close>, \<open>canonical_event_home\<close>), read authorisation on every branch, usable
  and credential-free storage configurations; appends are durable, idempotent and refuse conflicting content;
  silver tables refine a map that only gains absent keys; retention removes exactly the expired rows; a Kafka run
  commits offsets only after every event and every rejected message is stored, and its loop ends; quarantine
  fails closed; an ingested event was signed under a key of the directory over exactly its content, and canonical texts
  determine documents; port statistics account for every call, scan pair and observation, can be reproduced from the
  pinned inputs, are retained row by row and published under a signature that verifies; consignments are never shown above the clearance of their sources; the MRV, registry and excise
  tables contain what they document and nothing else.  The service answers every request whose target parses, serves
  only rows of the gold tables, tells nothing to a request without a token of the gateway, and lists what a run published; a gold
  pass never touches the tables of another scope, and its export withholds what lies above the clearance.  Trajectories cover
  the observations of their vessel in disjoint spans, simplified lines stay within the tolerance, geofence summaries count the
  observations inside, and vessel offsets are committed over durable rows.  A GeoParquet table has the geometry and the columns of every row,
  and its metadata the types and the bounds.  Theorems of kind error state where the code departs from
  what it documents.

  \<^bold>\<open>Loops and fuel.\<close>
  The commit retries take the number of attempts left (\<open>MAX_COMMIT_ATTEMPTS\<close> is 3, as in the code).  The Kafka loop is
  a partial function; \<open>collect_messages_terminates\<close> shows that it returns, and \<open>collect_fuel\<close> is the same loop with
  fuel, which the witnesses evaluate.  The lists of the WKT parser take as many rounds as there are tokens left, and every
  round takes a token.

  \<^bold>\<open>Not modelled.\<close>
  Telemetry spans, log lines and argument parsing, which do not influence the tables; messages of exceptions beyond
  their constant text; text beyond code point 255; the bytes of files other than the port reports and the consignment export; the socket server
  around the request handler.  The movement analytics and the Spark job over trajectories are not modelled: they are mostly
  calls of third-party geometry engines.  The sign of a zero double and the payload of a NaN are not represented.
  Scripts seed and inspect a test deployment.
\<close>

end
